(* ===== verification/Prelude.thy ===== *)
theory Prelude
  imports Main "HOL-Library.AList" "HOL-Library.Multiset"
begin

text \<open>
  Shared vocabulary of the development.

  \<^item> A Go map is an association list with distinct keys. Go leaves the order in which a map is
    ranged over open, so the order of the list stands for the order of one iteration: a model
    function that ranges over a map takes the list as it is, and the lemmas on
    permutations of the rows say where the order is irrelevant.
  \<^item> An instant (\<open>time.Time\<close>) and a duration (\<open>time.Duration\<close>) are integers counted in
    nanoseconds. Instants count from Go's zero time, so \<open>IsZero\<close> is \<open>t = 0\<close>.
  \<^item> A Go string is its list of bytes (\<open>string\<close>).
  \<^item> A fallible function returns \<open>error + value\<close>, with \<open>Inl\<close> the error.
  \<^item> The rows of the repositories carry an \<open>int64\<close> key taken from a counter that starts
    at 0 and is incremented by every insertion. Keys are \<open>int\<close>: a counter reaches the end
    of its range only after \<open>2 ^ 63\<close> insertions.
\<close>

section \<open>Names used throughout\<close>

type_synonym time = int
type_synonym duration = int

named_theorems repo_simps \<open>unfolding of the repository operations\<close>
named_theorems inv_intros \<open>preservation of the repository invariants\<close>
named_theorems tx_simps \<open>evaluation of transaction bodies\<close>

definition IsZero :: "time \<Rightarrow> bool" where
  "IsZero t \<longleftrightarrow> t = 0"

section \<open>Rows of a map\<close>

abbreviation put_row :: "'k \<Rightarrow> 'v \<Rightarrow> ('k \<times> 'v) list \<Rightarrow> ('k \<times> 'v) list" where
  "put_row \<equiv> AList.update"

abbreviation del_row :: "'k \<Rightarrow> ('k \<times> 'v) list \<Rightarrow> ('k \<times> 'v) list" where
  "del_row \<equiv> AList.delete"

abbreviation row_values :: "('k \<times> 'v) list \<Rightarrow> 'v list" where
  "row_values m \<equiv> map snd m"

lemma keys_put_row: "fst ` set (put_row k v m) = insert k (fst ` set m)"
  by (metis dom_map_of_conv_image_fst update_conv' dom_fun_upd option.distinct(1))

lemma distinct_put_row: "distinct (map fst m) \<Longrightarrow> distinct (map fst (put_row k v m))"
  by (simp add: distinct_update)

lemma distinct_del_row: "distinct (map fst m) \<Longrightarrow> distinct (map fst (del_row k m))"
  by (simp add: distinct_delete)

lemma map_of_del_row [simp]: "map_of (del_row k m) = (map_of m)(k := None)"
  by (rule delete_conv')

lemma map_of_put_row [simp]: "map_of (put_row k v m) = (map_of m)(k \<mapsto> v)"
  by (rule update_conv')

lemma set_put_row:
  "distinct (map fst m) \<Longrightarrow> set (put_row k v m) = insert (k, v) {r \<in> set m. fst r \<noteq> k}"
  by (induction m) (auto simp: image_iff)

lemma set_del_row: "set (del_row k m) = {r \<in> set m. fst r \<noteq> k}"
  by (auto simp: AList.delete_eq)

lemma put_row_fresh: "k \<notin> fst ` set m \<Longrightarrow> put_row k v m = m @ [(k, v)]"
  by (induction m) auto

lemma map_of_None_iff: "map_of m k = None \<longleftrightarrow> k \<notin> fst ` set m"
  by (rule map_of_eq_None_iff)

lemma map_of_row:
  "distinct (map fst m) \<Longrightarrow> (k, v) \<in> set m \<longleftrightarrow> map_of m k = Some v"
  by auto

lemma filter_put_row_other:
  assumes "map_of m k = Some v0" "\<not> P v0" "\<not> P v" "distinct (map fst m)"
  shows "filter P (row_values (put_row k v m)) = filter P (row_values m)"
  using assms by (induction m) auto

section \<open>Newest first\<close>

text \<open>
  \<open>sort.Slice\<close> by descending key. Every list the code sorts this way holds rows of one map,
  whose keys are distinct, so the result does not depend on the order of the input.
\<close>

definition newest_first :: "('a \<Rightarrow> int) \<Rightarrow> 'a list \<Rightarrow> 'a list" where
  "newest_first rid xs = sort_key (\<lambda>x. - rid x) xs"

lemma set_newest_first [simp]: "set (newest_first rid xs) = set xs"
  by (simp add: newest_first_def)

lemma mset_newest_first [simp]: "mset (newest_first rid xs) = mset xs"
  by (simp add: newest_first_def)

lemma length_newest_first [simp]: "length (newest_first rid xs) = length xs"
  by (simp add: newest_first_def)

lemma filter_newest_first: "filter P (newest_first rid xs) = newest_first rid (filter P xs)"
  by (simp add: newest_first_def filter_sort)

lemma sorted_newest_first:
  assumes "distinct (map rid xs)"
  shows "sorted_wrt (\<lambda>x y. rid x > rid y) (newest_first rid xs)"
proof -
  let ?ys = "newest_first rid xs"
  have "mset (map rid ?ys) = mset (map rid xs)" by (simp add: newest_first_def)
  with assms have d: "distinct (map rid ?ys)" by (metis mset_eq_imp_distinct_iff)
  have "sorted (map (\<lambda>x. - rid x) ?ys)" by (simp add: newest_first_def)
  then have "sorted_wrt (\<lambda>x y. rid x \<ge> rid y) ?ys"
    by (simp add: sorted_wrt_map)
  moreover have "sorted_wrt (\<lambda>x y. rid x \<noteq> rid y) ?ys"
    using d by (induction ?ys) (auto simp: distinct_conv_nth sorted_wrt_iff_nth_less)
  ultimately show ?thesis
    unfolding sorted_wrt_iff_nth_less by (metis order_less_le)
qed

lemma sorted_desc_unique:
  fixes rid :: "'a \<Rightarrow> int"
  assumes "sorted_wrt (\<lambda>x y. rid x > rid y) xs" "sorted_wrt (\<lambda>x y. rid x > rid y) ys"
    and "set xs = set ys"
  shows "xs = ys"
  using assms
proof (induction xs arbitrary: ys)
  case Nil
  then show ?case by simp
next
  case (Cons x xs)
  then obtain y zs where ys: "ys = y # zs" by (cases ys) auto
  have "x = y"
    using Cons.prems ys by (metis list.set_intros(1) order_less_asym set_ConsD sorted_wrt.simps(2))
  moreover have "x \<notin> set xs" "y \<notin> set zs"
    using Cons.prems ys by auto
  ultimately have "set xs = set zs"
    using Cons.prems(3) ys by (metis insert_ident list.simps(15))
  with Cons ys \<open>x = y\<close> show ?case by simp
qed

lemma newest_first_perm:
  assumes "distinct (map rid xs)" "mset xs = mset ys"
  shows "newest_first rid xs = newest_first rid ys"
proof (rule sorted_desc_unique)
  have "mset (map rid xs) = mset (map rid ys)"
    using assms(2) by simp
  then have "distinct (map rid ys)"
    using assms(1) mset_eq_imp_distinct_iff by blast
  then show "sorted_wrt (\<lambda>x y. rid x > rid y) (newest_first rid ys)"
    by (rule sorted_newest_first)
  show "set (newest_first rid xs) = set (newest_first rid ys)"
    using mset_eq_setD [OF assms(2)] by simp
qed (rule sorted_newest_first [OF assms(1)])

section \<open>Sums as results\<close>

definition bindE :: "'e + 'a \<Rightarrow> ('a \<Rightarrow> 'e + 'b) \<Rightarrow> 'e + 'b" where
  "bindE r f = (case r of Inl e \<Rightarrow> Inl e | Inr a \<Rightarrow> f a)"

lemma bindE_simps [simp]: "bindE (Inl e) f = Inl e" "bindE (Inr a) f = f a"
  by (simp_all add: bindE_def)

lemma bindE_eq_Inr: "bindE r f = Inr b \<longleftrightarrow> (\<exists>a. r = Inr a \<and> f a = Inr b)"
  by (cases r) auto

text \<open>The first \<open>n\<close> elements, with \<open>n\<close> an integer of the code.\<close>

definition take_int :: "int \<Rightarrow> 'a list \<Rightarrow> 'a list" where
  "take_int n xs = take (nat n) xs"

lemma set_take_int: "set (take_int n xs) \<subseteq> set xs"
  by (simp add: take_int_def set_take_subset)

lemma length_take_int: "length (take_int n xs) \<le> nat n"
  by (simp add: take_int_def)

end
