(* ===== verification/GoStrings.thy ===== *)
theory GoStrings
  imports Prelude "HOL-Library.Char_ord" "HOL-Library.List_Lexorder"
begin

text \<open>
  What the program uses of Go's \<open>strings\<close>, \<open>strconv\<close> and \<open>encoding/base64\<close>. A string
  is its list of bytes.

  \<^item> \<open>TrimSpace\<close> removes Unicode white space at both ends. The white space characters are a
    finite list of UTF-8 sequences; no sequence is a proper prefix or suffix of another valid
    one, so trimming code points is trimming these byte sequences.
  \<^item> \<open>FormatInt\<close>/\<open>ParseInt\<close> are base ten, with the \<open>int64\<close> range check.
  \<^item> The base64 codec is \<open>RawURLEncoding\<close>: URL alphabet, no padding, \<open>CR\<close> and \<open>LF\<close>
    ignored by the decoder.

  The lemmas show that each decoder inverts its encoder.
\<close>

section \<open>White space\<close>

definition bytes :: "nat list \<Rightarrow> string" where
  "bytes ns = map char_of ns"

definition space_runes :: "string list" where
  "space_runes = map bytes
     ([[9], [10], [11], [12], [13], [32], [194, 133], [194, 160], [225, 154, 128]] @
      map (\<lambda>b. [226, 128, b]) [128, 129, 130, 131, 132, 133, 134, 135, 136, 137, 138, 168, 169, 175] @
      [[226, 129, 159], [227, 128, 128]])"

definition has_prefix :: "string \<Rightarrow> string \<Rightarrow> bool" where
  "has_prefix s p \<longleftrightarrow> take (length p) s = p"

definition strip_rune :: "string list \<Rightarrow> string \<Rightarrow> string option" where
  "strip_rune rs s = map_option (\<lambda>r. drop (length r) s) (find (\<lambda>r. has_prefix s r) rs)"

lemma space_runes_nonempty: "r \<in> set space_runes \<Longrightarrow> r \<noteq> []"
  by (auto simp: space_runes_def bytes_def)

fun trim_front :: "nat \<Rightarrow> string list \<Rightarrow> string \<Rightarrow> string" where
  "trim_front 0 rs s = s"
| "trim_front (Suc n) rs s =
     (case strip_rune rs s of None \<Rightarrow> s | Some s' \<Rightarrow> trim_front n rs s')"

text \<open>
  Each removed character is at least one byte, so \<open>length s\<close> rounds are enough
  (\<open>trim_front_enough\<close>).
\<close>

definition TrimLeft :: "string \<Rightarrow> string" where
  "TrimLeft s = trim_front (length s) space_runes s"

definition TrimRight :: "string \<Rightarrow> string" where
  "TrimRight s = rev (trim_front (length s) (map rev space_runes) (rev s))"

definition TrimSpace :: "string \<Rightarrow> string" where
  "TrimSpace s = TrimRight (TrimLeft s)"

lemma strip_rune_shorter:
  assumes "strip_rune rs s = Some s'" "\<forall>r \<in> set rs. r \<noteq> []"
  shows "length s' < length s"
proof -
  from assms(1) obtain r where r: "find (\<lambda>r. has_prefix s r) rs = Some r" "s' = drop (length r) s"
    by (auto simp: strip_rune_def)
  then have "r \<in> set rs" "has_prefix s r"
    by (auto simp: find_Some_iff)
  then have "r \<noteq> []" "length r \<le> length s"
    using assms(2) by (auto simp: has_prefix_def) (metis length_take min.cobounded1)
  then have "0 < length r" "length r \<le> length s" by simp_all
  then show ?thesis unfolding r(2) length_drop by linarith
qed

lemma trim_front_enough:
  assumes "\<forall>r \<in> set rs. r \<noteq> []" "length s \<le> n"
  shows "strip_rune rs (trim_front n rs s) = None"
  using assms(2)
proof (induction n arbitrary: s)
  case 0
  with assms(1) show ?case
    by (cases "strip_rune rs s") (auto dest: strip_rune_shorter [OF _ assms(1)])
next
  case (Suc n)
  show ?case
  proof (cases "strip_rune rs s")
    case None
    then show ?thesis by simp
  next
    case (Some s')
    from strip_rune_shorter [OF Some assms(1)] Suc.prems have "length s' \<le> n" by simp
    with Suc.IH Some show ?thesis by simp
  qed
qed

lemma trim_front_id: "strip_rune rs s = None \<Longrightarrow> trim_front n rs s = s"
  by (cases n) auto

text \<open>Text whose first and last bytes are printable ASCII is left alone.\<close>

definition plain_byte :: "char \<Rightarrow> bool" where
  "plain_byte c \<longleftrightarrow> (33 :: nat) \<le> of_char c \<and> of_char c < (128 :: nat)"

lemma space_rune_ends:
  assumes "r \<in> set space_runes"
  shows "\<not> plain_byte (hd r)" "\<not> plain_byte (last r)"
proof -
  have "\<forall>r \<in> set space_runes. \<not> plain_byte (hd r) \<and> \<not> plain_byte (last r)"
    by (simp add: space_runes_def bytes_def plain_byte_def)
  with assms show "\<not> plain_byte (hd r)" "\<not> plain_byte (last r)" by auto
qed

lemma has_prefix_hd: "has_prefix s p \<Longrightarrow> p \<noteq> [] \<Longrightarrow> hd s = hd p"
  by (metis has_prefix_def hd_append2 append_take_drop_id)

lemma strip_rune_plain:
  assumes "s = [] \<or> plain_byte (hd s)" "\<forall>r \<in> set rs. r \<noteq> [] \<and> \<not> plain_byte (hd r)"
  shows "strip_rune rs s = None"
proof -
  have "\<not> has_prefix s r" if "r \<in> set rs" for r
    using assms that has_prefix_hd [of s r] by (auto simp: has_prefix_def)
  then show ?thesis by (simp add: strip_rune_def find_None_iff)
qed

lemma TrimSpace_plain:
  assumes "\<forall>c \<in> set s. plain_byte c"
  shows "TrimSpace s = s"
proof -
  have ends: "s = [] \<or> plain_byte (hd s)" "rev s = [] \<or> plain_byte (hd (rev s))"
    using assms by (cases "s = []"; simp add: hd_rev)+
  have l: "TrimLeft s = s"
    unfolding TrimLeft_def
    using ends(1) space_rune_ends(1) space_runes_nonempty
    by (intro trim_front_id strip_rune_plain) blast+
  have "trim_front (length s) (map rev space_runes) (rev s) = rev s"
    using ends(2) space_rune_ends(2) space_runes_nonempty
    by (intro trim_front_id strip_rune_plain) (auto simp: hd_rev)
  with l show ?thesis by (simp add: TrimSpace_def TrimRight_def)
qed

lemma TrimSpace_Nil [simp]: "TrimSpace [] = []"
  by (rule TrimSpace_plain) simp

section \<open>Lower case\<close>

text \<open>
  \<open>strings.ToLower\<close> maps the bytes of an ASCII string by a table it states itself and any
  other string through the Unicode case tables, which are the parameter \<open>unicode_lower\<close>.
\<close>

definition ascii_lower :: "char \<Rightarrow> char" where
  "ascii_lower c =
     (let n = of_char c :: nat in if 65 \<le> n \<and> n \<le> 90 then char_of (n + 32) else c)"

definition ToLower :: "(string \<Rightarrow> string) \<Rightarrow> string \<Rightarrow> string" where
  "ToLower unicode_lower s =
     (if list_all (\<lambda>c. of_char c < (128 :: nat)) s then map ascii_lower s else unicode_lower s)"

section \<open>Decimal numbers\<close>

definition digit_char :: "nat \<Rightarrow> char" where
  "digit_char d = char_of (48 + d)"

fun nat_digits :: "nat \<Rightarrow> string" where
  "nat_digits n = (if n < 10 then [digit_char n] else nat_digits (n div 10) @ [digit_char (n mod 10)])"

declare nat_digits.simps [simp del]

definition FormatInt :: "int \<Rightarrow> string" where
  "FormatInt i = (if i < 0 then CHR ''-'' # nat_digits (nat (- i)) else nat_digits (nat i))"

definition digit_value :: "char \<Rightarrow> nat option" where
  "digit_value c = (let n = of_char c :: nat in if 48 \<le> n \<and> n \<le> 57 then Some (n - 48) else None)"

fun parse_digits :: "nat \<Rightarrow> string \<Rightarrow> nat option" where
  "parse_digits acc [] = Some acc"
| "parse_digits acc (c # cs) =
     (case digit_value c of None \<Rightarrow> None | Some d \<Rightarrow> parse_digits (acc * 10 + d) cs)"

text \<open>\<open>strconv.ParseInt(s, 10, 64)\<close>; \<open>None\<close> is a syntax or a range error.\<close>

definition ParseInt :: "string \<Rightarrow> int option" where
  "ParseInt s =
     (let neg = (s \<noteq> [] \<and> hd s = CHR ''-'');
          digits = (if s \<noteq> [] \<and> (hd s = CHR ''-'' \<or> hd s = CHR ''+'') then tl s else s)
      in if digits = [] then None
         else case parse_digits 0 digits of
                None \<Rightarrow> None
              | Some n \<Rightarrow>
                  if \<not> neg \<and> 2 ^ 63 \<le> n then None
                  else if neg \<and> 2 ^ 63 < n then None
                  else Some (if neg then - int n else int n))"

lemma digit_value_char [simp]: "d < 10 \<Longrightarrow> digit_value (digit_char d) = Some d"
  by (simp add: digit_value_def digit_char_def)

lemma parse_digits_append:
  "parse_digits acc (xs @ ys) = Option.bind (parse_digits acc xs) (\<lambda>a. parse_digits a ys)"
  by (induction xs arbitrary: acc) (auto split: option.splits)

lemma nat_digits_Cons: "\<exists>d cs. nat_digits n = digit_char d # cs \<and> d < 10"
proof (induction n rule: nat_digits.induct)
  case (1 n)
  then show ?case by (cases "n < 10") (auto simp: nat_digits.simps [of n])
qed

lemma parse_nat_digits: "parse_digits 0 (nat_digits n) = Some n"
proof (induction n rule: nat_digits.induct)
  case (1 n)
  then show ?case
    by (cases "n < 10") (auto simp: nat_digits.simps [of n] parse_digits_append)
qed

lemma digit_value_sign [simp]: "digit_value CHR ''-'' = None" "digit_value CHR ''+'' = None"
    "digit_value CHR '':'' = None"
  by (simp_all add: digit_value_def)

lemma digit_char_neq: "d < 10 \<Longrightarrow> digit_value c = None \<Longrightarrow> digit_char d \<noteq> c"
  using digit_value_char by fastforce

lemma ParseInt_FormatInt:
  assumes "- (2 ^ 63) \<le> i" "i < 2 ^ 63"
  shows "ParseInt (FormatInt i) = Some i"
proof (cases "i < 0")
  case True
  obtain d cs where "nat_digits (nat (- i)) = digit_char d # cs" "d < 10"
    using nat_digits_Cons by blast
  with True assms show ?thesis
    using parse_nat_digits [of "nat (- i)"]
    by (simp add: ParseInt_def FormatInt_def Let_def nat_le_iff)
next
  case False
  obtain d cs where d: "nat_digits (nat i) = digit_char d # cs" "d < 10"
    using nat_digits_Cons by blast
  with False assms show ?thesis
    using parse_nat_digits [of "nat i"] digit_char_neq [OF d(2)]
    by (simp add: ParseInt_def FormatInt_def Let_def nat_less_iff not_le)
qed

lemma parse_digits_digits: "parse_digits acc s = Some n \<Longrightarrow> \<forall>c \<in> set s. digit_value c \<noteq> None"
  by (induction s arbitrary: acc) (auto split: option.splits)

lemma FormatInt_chars:
  "c \<in> set (FormatInt i) \<Longrightarrow> c = CHR ''-'' \<or> digit_value c \<noteq> None"
  using parse_digits_digits [OF parse_nat_digits]
  by (auto simp: FormatInt_def split: if_splits)

lemma nat_digits_inj: "nat_digits m = nat_digits n \<Longrightarrow> m = n"
  by (metis option.inject parse_nat_digits)

lemma FormatInt_inj: "FormatInt i = FormatInt j \<Longrightarrow> i = j"
proof -
  assume eq: "FormatInt i = FormatInt j"
  have sign: "nat_digits n \<noteq> CHR ''-'' # cs" for n cs
  proof -
    obtain d ds where "nat_digits n = digit_char d # ds" "d < 10"
      using nat_digits_Cons by blast
    then show ?thesis using digit_char_neq by simp
  qed
  show "i = j"
    using eq sign sign [symmetric]
    by (auto simp: FormatInt_def dest!: nat_digits_inj split: if_splits)
qed

section \<open>Base64, raw URL encoding\<close>

definition b64_alphabet :: string where
  "b64_alphabet = ''ABCDEFGHIJKLMNOPQRSTUVWXYZabcdefghijklmnopqrstuvwxyz0123456789-_''"

definition b64_char :: "nat \<Rightarrow> char" where
  "b64_char v = b64_alphabet ! v"

text \<open>The decoding table of the encoding; \<open>None\<close> is a byte outside the alphabet.\<close>

definition b64_value :: "char \<Rightarrow> nat option" where
  "b64_value c =
     (let n = of_char c :: nat in
      if 65 \<le> n \<and> n \<le> 90 then Some (n - 65)
      else if 97 \<le> n \<and> n \<le> 122 then Some (n - 71)
      else if 48 \<le> n \<and> n \<le> 57 then Some (n + 4)
      else if n = 45 then Some 62
      else if n = 95 then Some 63
      else None)"

fun b64_enc :: "nat list \<Rightarrow> nat list" where
  "b64_enc [] = []"
| "b64_enc [a] = [a div 4, a mod 4 * 16]"
| "b64_enc [a, b] = [a div 4, a mod 4 * 16 + b div 16, b mod 16 * 4]"
| "b64_enc (a # b # c # r) =
     a div 4 # (a mod 4 * 16 + b div 16) # (b mod 16 * 4 + c div 64) # c mod 64 # b64_enc r"

fun b64_dec :: "nat list \<Rightarrow> nat list option" where
  "b64_dec [] = Some []"
| "b64_dec [_] = None"
| "b64_dec [p, q] = Some [p * 4 + q div 16]"
| "b64_dec [p, q, r] = Some [p * 4 + q div 16, q mod 16 * 16 + r div 4]"
| "b64_dec (p # q # r # s # t) =
     map_option (\<lambda>u. (p * 4 + q div 16) # (q mod 16 * 16 + r div 4) # (r mod 4 * 64 + s) # u)
       (b64_dec t)"

definition EncodeToString :: "string \<Rightarrow> string" where
  "EncodeToString s = map b64_char (b64_enc (map of_char s))"

fun b64_values :: "string \<Rightarrow> nat list option" where
  "b64_values [] = Some []"
| "b64_values (c # cs) =
     (if c = CHR 0x0D \<or> c = CHR 0x0A then b64_values cs
      else case b64_value c of None \<Rightarrow> None | Some v \<Rightarrow> map_option ((#) v) (b64_values cs))"

definition DecodeString :: "string \<Rightarrow> string option" where
  "DecodeString s = Option.bind (b64_values s) (\<lambda>vs. map_option (map char_of) (b64_dec vs))"

lemma b64_char_props:
  assumes "v < 64"
  shows "b64_value (b64_char v) = Some v" "plain_byte (b64_char v)"
    "b64_char v \<noteq> CHR 0x0D" "b64_char v \<noteq> CHR 0x0A"
proof -
  have "\<forall>v \<in> set [0..<64]. b64_value (b64_char v) = Some v \<and> plain_byte (b64_char v) \<and>
      b64_char v \<noteq> CHR 0x0D \<and> b64_char v \<noteq> CHR 0x0A"
    by (simp add: b64_char_def b64_alphabet_def b64_value_def plain_byte_def upt_rec)
  with assms show "b64_value (b64_char v) = Some v" "plain_byte (b64_char v)"
    "b64_char v \<noteq> CHR 0x0D" "b64_char v \<noteq> CHR 0x0A"
    by auto
qed

lemma div_mod_join:
  assumes "(y :: nat) < n"
  shows "(x * n + y) div n = x" "(x * n + y) mod n = y"
  using assms by simp_all

lemma b64_sextets:
  "(a :: nat) < 256 \<Longrightarrow> a div 4 < 64" "(a :: nat) mod 4 * 16 < 64" "(a :: nat) mod 16 * 4 < 64"
  "(a :: nat) mod 64 < 64" "b < 256 \<Longrightarrow> a mod 4 * 16 + (b :: nat) div 16 < 64"
  "b < 256 \<Longrightarrow> a mod 16 * 4 + (b :: nat) div 64 < 64"
  by linarith+

lemma b64_bytes:
  fixes a b c :: nat
  shows "b < 256 \<Longrightarrow> a div 4 * 4 + (a mod 4 * 16 + b div 16) div 16 = a"
    "b < 256 \<Longrightarrow> c < 256 \<Longrightarrow>
      (a mod 4 * 16 + b div 16) mod 16 * 16 + (b mod 16 * 4 + c div 64) div 4 = b"
    "c < 256 \<Longrightarrow> (b mod 16 * 4 + c div 64) mod 4 * 64 + c mod 64 = c"
    "a div 4 * 4 + (a mod 4 * 16) div 16 = a"
    "b < 256 \<Longrightarrow> (a mod 4 * 16 + b div 16) mod 16 * 16 + (b mod 16 * 4) div 4 = b"
proof -
  assume "b < 256"
  then have "b div 16 < 16" by linarith
  then show "a div 4 * 4 + (a mod 4 * 16 + b div 16) div 16 = a"
    by (simp only: div_mod_join div_mult_mod_eq)
next
  assume "b < 256" "c < 256"
  then have "b div 16 < 16" "c div 64 < 4" by linarith+
  then show "(a mod 4 * 16 + b div 16) mod 16 * 16 + (b mod 16 * 4 + c div 64) div 4 = b"
    by (simp only: div_mod_join div_mult_mod_eq)
next
  assume "c < 256"
  then have "c div 64 < 4" by linarith
  then show "(b mod 16 * 4 + c div 64) mod 4 * 64 + c mod 64 = c"
    by (simp only: div_mod_join div_mult_mod_eq)
next
  show "a div 4 * 4 + (a mod 4 * 16) div 16 = a" by simp
next
  assume "b < 256"
  then have "b div 16 < 16" by linarith
  then show "(a mod 4 * 16 + b div 16) mod 16 * 16 + (b mod 16 * 4) div 4 = b" 
    by (simp add: div_mod_join)
qed

lemma b64_enc_bound: "\<forall>a \<in> set bs. a < 256 \<Longrightarrow> \<forall>v \<in> set (b64_enc bs). v < 64"
  by (induction bs rule: b64_enc.induct) (simp_all add: b64_sextets less_mult_imp_div_less)

lemma b64_dec_enc: "\<forall>a \<in> set bs. a < 256 \<Longrightarrow> b64_dec (b64_enc bs) = Some bs"
proof (induction bs rule: b64_enc.induct)
  case (4 a b c r)
  then have "b64_dec (b64_enc r) = Some r" by simp
  with "4.prems" show ?case
    by (simp only: b64_enc.simps b64_dec.simps b64_bytes list.set ball_simps option.map)
qed (simp_all only: b64_enc.simps b64_dec.simps b64_bytes list.set ball_simps)

lemma b64_values_chars:
  "\<forall>v \<in> set vs. v < 64 \<Longrightarrow> b64_values (map b64_char vs) = Some vs"
  by (induction vs) (auto simp: b64_char_props)

lemma of_char_bound: "\<forall>a \<in> set (map of_char s). a < (256 :: nat)"
  by auto

lemma DecodeString_EncodeToString: "DecodeString (EncodeToString s) = Some s"
proof -
  let ?bs = "map of_char s :: nat list"
  have "b64_values (EncodeToString s) = Some (b64_enc ?bs)"
    unfolding EncodeToString_def by (rule b64_values_chars [OF b64_enc_bound [OF of_char_bound]])
  then show ?thesis
    using b64_dec_enc [OF of_char_bound, of s] by (simp add: DecodeString_def comp_def)
qed

lemma EncodeToString_plain: "\<forall>c \<in> set (EncodeToString s). plain_byte c"
  using b64_enc_bound [OF of_char_bound, of s] by (auto simp: EncodeToString_def b64_char_props)

lemma EncodeToString_Nil_iff: "EncodeToString s = [] \<longleftrightarrow> s = []"
  by (cases "map of_char s :: nat list" rule: b64_enc.cases) (auto simp: EncodeToString_def)

end
