(* ===== verification/Entities.thy ===== *)
theory Entities
  imports GoStrings
begin

text \<open>
  \<open>internal/domain/entity\<close>: one record per entity, one function per method. A pointer
  field that may be \<open>nil\<close> is an option. A method that reads the clock takes the
  reading as its argument \<open>now\<close>; a constructor that draws a UUID takes it as an argument.
  An enumeration of the source (a string type with constants) is a datatype; the strings
  themselves appear where the code parses or prints them.

  The lemmas show the life cycles: what a soft-deleted user, post or comment still says, that
  a report is resolved once, that a read notification stays read, and when a guest account or a
  token is usable.
\<close>

section \<open>Users\<close>

datatype UserStatus = UserStatusActive | UserStatusSuspended | UserStatusDeleted

text \<open>\<open>GuestStatusNone\<close> is the empty string, which the code assigns to a non-guest.\<close>

datatype GuestStatus = GuestStatusNone | GuestStatusPending | GuestStatusActive | GuestStatusExpired

record user =
  user_ID :: int
  user_UUID :: string
  user_Name :: string
  user_Email :: string
  user_Password :: string
  user_Guest :: bool
  user_GuestStatus :: GuestStatus
  user_GuestIssuedAt :: "time option"
  user_GuestActivatedAt :: "time option"
  user_GuestExpiredAt :: "time option"
  user_EmailVerifiedAt :: "time option"
  user_Role :: string
  user_Status :: UserStatus
  user_SuspensionReason :: string
  user_SuspendedUntil :: "time option"
  user_CreatedAt :: time
  user_UpdatedAt :: time
  user_DeletedAt :: "time option"

definition IsAdmin :: "user \<Rightarrow> bool" where
  "IsAdmin u \<longleftrightarrow> user_Role u = ''admin''"

definition IsGuest :: "user \<Rightarrow> bool" where
  "IsGuest u \<longleftrightarrow> user_Guest u"

definition IsActiveGuest :: "user \<Rightarrow> bool" where
  "IsActiveGuest u \<longleftrightarrow> user_Guest u \<and> user_GuestStatus u = GuestStatusActive"

definition IsEmailVerified :: "user \<Rightarrow> bool" where
  "IsEmailVerified u \<longleftrightarrow> user_EmailVerifiedAt u \<noteq> None"

definition IsDeleted :: "user \<Rightarrow> bool" where
  "IsDeleted u \<longleftrightarrow> user_Status u = UserStatusDeleted"

definition IsSuspended :: "time \<Rightarrow> user \<Rightarrow> bool" where
  "IsSuspended now u \<longleftrightarrow>
     (if user_Status u \<noteq> UserStatusSuspended then False
      else case user_SuspendedUntil u of None \<Rightarrow> True | Some until \<Rightarrow> now < until)"

definition Suspend :: "time \<Rightarrow> string \<Rightarrow> time option \<Rightarrow> user \<Rightarrow> user" where
  "Suspend now reason until u =
     u\<lparr>user_Status := UserStatusSuspended, user_SuspensionReason := reason,
       user_SuspendedUntil := until, user_UpdatedAt := now\<rparr>"

definition Unsuspend :: "time \<Rightarrow> user \<Rightarrow> user" where
  "Unsuspend now u =
     u\<lparr>user_Status := UserStatusActive, user_SuspensionReason := [],
       user_SuspendedUntil := None, user_UpdatedAt := now\<rparr>"

definition User_SoftDelete :: "time \<Rightarrow> user \<Rightarrow> user" where
  "User_SoftDelete now u =
     u\<lparr>user_Name := ''deleted-user-'' @ FormatInt (user_ID u), user_Email := [],
       user_Password := [], user_Guest := False, user_GuestStatus := GuestStatusNone,
       user_GuestIssuedAt := None, user_GuestActivatedAt := None, user_GuestExpiredAt := None,
       user_EmailVerifiedAt := None, user_Status := UserStatusDeleted,
       user_SuspensionReason := [], user_SuspendedUntil := None, user_UpdatedAt := now,
       user_DeletedAt := Some now\<rparr>"

definition NewUserWithEmail :: "time \<Rightarrow> string \<Rightarrow> string \<Rightarrow> string \<Rightarrow> string \<Rightarrow> user" where
  "NewUserWithEmail now uuid name email password =
     \<lparr>user_ID = 0, user_UUID = uuid, user_Name = name, user_Email = email,
      user_Password = password, user_Guest = False, user_GuestStatus = GuestStatusNone,
      user_GuestIssuedAt = None, user_GuestActivatedAt = None, user_GuestExpiredAt = None,
      user_EmailVerifiedAt = None, user_Role = ''user'', user_Status = UserStatusActive,
      user_SuspensionReason = [], user_SuspendedUntil = None, user_CreatedAt = now,
      user_UpdatedAt = now, user_DeletedAt = None\<rparr>"

definition NewUser :: "time \<Rightarrow> string \<Rightarrow> string \<Rightarrow> string \<Rightarrow> user" where
  "NewUser now uuid name password = NewUserWithEmail now uuid name [] password"

definition NewGuest :: "time \<Rightarrow> string \<Rightarrow> string \<Rightarrow> string \<Rightarrow> string \<Rightarrow> user" where
  "NewGuest now uuid name email password =
     (NewUserWithEmail now uuid name email password)
       \<lparr>user_Guest := True, user_GuestStatus := GuestStatusPending,
        user_GuestIssuedAt := Some now\<rparr>"

definition NewAdmin :: "time \<Rightarrow> string \<Rightarrow> string \<Rightarrow> string \<Rightarrow> user" where
  "NewAdmin now uuid name password =
     (NewUserWithEmail now uuid name [] password)\<lparr>user_Role := ''admin''\<rparr>"

definition UpgradeGuest :: "time \<Rightarrow> string \<Rightarrow> string \<Rightarrow> string \<Rightarrow> user \<Rightarrow> user" where
  "UpgradeGuest now name email password u =
     u\<lparr>user_Name := name, user_Email := email, user_Password := password,
       user_Guest := False, user_GuestStatus := GuestStatusNone, user_GuestIssuedAt := None,
       user_GuestActivatedAt := None, user_GuestExpiredAt := None,
       user_EmailVerifiedAt := None, user_UpdatedAt := now\<rparr>"

definition MarkEmailVerified :: "time \<Rightarrow> user \<Rightarrow> user" where
  "MarkEmailVerified now u = u\<lparr>user_EmailVerifiedAt := Some now, user_UpdatedAt := now\<rparr>"

definition MarkGuestActive :: "time \<Rightarrow> user \<Rightarrow> user" where
  "MarkGuestActive now u =
     u\<lparr>user_GuestStatus := GuestStatusActive, user_GuestActivatedAt := Some now,
       user_GuestExpiredAt := None, user_UpdatedAt := now\<rparr>"

definition MarkGuestExpired :: "time \<Rightarrow> user \<Rightarrow> user" where
  "MarkGuestExpired now u =
     u\<lparr>user_GuestStatus := GuestStatusExpired, user_GuestExpiredAt := Some now,
       user_UpdatedAt := now\<rparr>"

text \<open>
  Suspension durations stay strings, because \<open>EndTime\<close> answers for any string.
  \<open>AddDate\<close> depends on the calendar of the clock's location and is an argument.
\<close>

type_synonym SuspensionDuration = string

definition EndTime :: "(time \<Rightarrow> int \<Rightarrow> time) \<Rightarrow> SuspensionDuration \<Rightarrow> time \<Rightarrow> time option \<times> bool" where
  "EndTime add_days d now =
     (if d = ''7d'' then (Some (add_days now 7), True)
      else if d = ''15d'' then (Some (add_days now 15), True)
      else if d = ''30d'' then (Some (add_days now 30), True)
      else if d = ''unlimited'' then (None, True)
      else (None, False))"

definition ParseSuspensionDuration :: "string \<Rightarrow> SuspensionDuration \<times> bool" where
  "ParseSuspensionDuration raw =
     (if raw = ''7d'' \<or> raw = ''15d'' \<or> raw = ''30d'' \<or> raw = ''unlimited''
      then (raw, True) else ([], False))"

section \<open>Boards, posts, tags\<close>

record board =
  board_ID :: int
  board_UUID :: string
  board_Name :: string
  board_Description :: string
  board_Hidden :: bool
  board_CreatedAt :: time

definition NewBoard :: "time \<Rightarrow> string \<Rightarrow> string \<Rightarrow> string \<Rightarrow> board" where
  "NewBoard now uuid name description =
     \<lparr>board_ID = 0, board_UUID = uuid, board_Name = name, board_Description = description,
      board_Hidden = False, board_CreatedAt = now\<rparr>"

definition Board_Update :: "string \<Rightarrow> string \<Rightarrow> board \<Rightarrow> board" where
  "Board_Update name description b = b\<lparr>board_Name := name, board_Description := description\<rparr>"

definition SetHidden :: "bool \<Rightarrow> board \<Rightarrow> board" where
  "SetHidden hidden b = b\<lparr>board_Hidden := hidden\<rparr>"

datatype PostStatus = PostStatusDraft | PostStatusPublished | PostStatusDeleted

record post =
  post_ID :: int
  post_UUID :: string
  post_Title :: string
  post_Content :: string
  post_AuthorID :: int
  post_BoardID :: int
  post_Status :: PostStatus
  post_CreatedAt :: time
  post_PublishedAt :: "time option"
  post_UpdatedAt :: time
  post_DeletedAt :: "time option"

definition NewPost :: "time \<Rightarrow> string \<Rightarrow> string \<Rightarrow> string \<Rightarrow> int \<Rightarrow> int \<Rightarrow> post" where
  "NewPost now uuid title content authorID boardID =
     \<lparr>post_ID = 0, post_UUID = uuid, post_Title = title, post_Content = content,
      post_AuthorID = authorID, post_BoardID = boardID, post_Status = PostStatusPublished,
      post_CreatedAt = now, post_PublishedAt = Some now, post_UpdatedAt = now,
      post_DeletedAt = None\<rparr>"

definition NewDraftPost :: "time \<Rightarrow> string \<Rightarrow> string \<Rightarrow> string \<Rightarrow> int \<Rightarrow> int \<Rightarrow> post" where
  "NewDraftPost now uuid title content authorID boardID =
     \<lparr>post_ID = 0, post_UUID = uuid, post_Title = title, post_Content = content,
      post_AuthorID = authorID, post_BoardID = boardID, post_Status = PostStatusDraft,
      post_CreatedAt = now, post_PublishedAt = None, post_UpdatedAt = now,
      post_DeletedAt = None\<rparr>"

definition Post_Update :: "time \<Rightarrow> string \<Rightarrow> string \<Rightarrow> post \<Rightarrow> post" where
  "Post_Update now title content p =
     p\<lparr>post_Title := title, post_Content := content, post_UpdatedAt := now\<rparr>"

definition Post_SoftDelete :: "time \<Rightarrow> post \<Rightarrow> post" where
  "Post_SoftDelete now p =
     p\<lparr>post_Status := PostStatusDeleted, post_UpdatedAt := now, post_DeletedAt := Some now\<rparr>"

definition Publish :: "time \<Rightarrow> post \<Rightarrow> post" where
  "Publish now p =
     p\<lparr>post_Status := PostStatusPublished, post_DeletedAt := None,
       post_PublishedAt := Some now, post_UpdatedAt := now\<rparr>"

record tag =
  tag_ID :: int
  tag_Name :: string
  tag_CreatedAt :: time

definition NewTag :: "time \<Rightarrow> string \<Rightarrow> tag" where
  "NewTag now name = \<lparr>tag_ID = 0, tag_Name = name, tag_CreatedAt = now\<rparr>"

datatype PostTagStatus = PostTagStatusActive | PostTagStatusDeleted

record post_tag =
  pt_PostID :: int
  pt_TagID :: int
  pt_CreatedAt :: time
  pt_Status :: PostTagStatus

definition NewPostTag :: "time \<Rightarrow> int \<Rightarrow> int \<Rightarrow> post_tag" where
  "NewPostTag now postID tagID =
     \<lparr>pt_PostID = postID, pt_TagID = tagID, pt_CreatedAt = now, pt_Status = PostTagStatusActive\<rparr>"

definition Activate :: "post_tag \<Rightarrow> post_tag" where
  "Activate p = p\<lparr>pt_Status := PostTagStatusActive\<rparr>"

definition PostTag_SoftDelete :: "post_tag \<Rightarrow> post_tag" where
  "PostTag_SoftDelete p = p\<lparr>pt_Status := PostTagStatusDeleted\<rparr>"

section \<open>Comments\<close>

datatype CommentStatus = CommentStatusActive | CommentStatusDeleted

record comment =
  comment_ID :: int
  comment_UUID :: string
  comment_Content :: string
  comment_AuthorID :: int
  comment_PostID :: int
  comment_ParentID :: "int option"
  comment_Status :: CommentStatus
  comment_CreatedAt :: time
  comment_UpdatedAt :: time
  comment_DeletedAt :: "time option"

text \<open>The UTF-8 bytes of the Korean placeholder text.\<close>

definition DeletedCommentPlaceholder :: string where
  "DeletedCommentPlaceholder =
     bytes [236, 130, 173, 236, 160, 156, 235, 144, 156, 32, 235, 140, 147, 234, 184, 128]"

definition NewComment :: "time \<Rightarrow> string \<Rightarrow> string \<Rightarrow> int \<Rightarrow> int \<Rightarrow> int option \<Rightarrow> comment" where
  "NewComment now uuid content authorID postID parentID =
     \<lparr>comment_ID = 0, comment_UUID = uuid, comment_Content = content,
      comment_AuthorID = authorID, comment_PostID = postID, comment_ParentID = parentID,
      comment_Status = CommentStatusActive, comment_CreatedAt = now, comment_UpdatedAt = now,
      comment_DeletedAt = None\<rparr>"

definition Comment_Update :: "time \<Rightarrow> string \<Rightarrow> comment \<Rightarrow> comment" where
  "Comment_Update now content c = c\<lparr>comment_Content := content, comment_UpdatedAt := now\<rparr>"

definition Comment_SoftDelete :: "time \<Rightarrow> comment \<Rightarrow> comment" where
  "Comment_SoftDelete now c =
     c\<lparr>comment_Content := DeletedCommentPlaceholder, comment_Status := CommentStatusDeleted,
       comment_UpdatedAt := now, comment_DeletedAt := Some now\<rparr>"

section \<open>Reactions and reports\<close>

datatype ReactionTargetType = ReactionTargetPost | ReactionTargetComment

datatype ReactionType = ReactionTypeLike | ReactionTypeDislike

fun ReactionTargetType_string :: "ReactionTargetType \<Rightarrow> string" where
  "ReactionTargetType_string ReactionTargetPost = ''post''"
| "ReactionTargetType_string ReactionTargetComment = ''comment''"

definition ParseReactionTargetType :: "string \<Rightarrow> ReactionTargetType option" where
  "ParseReactionTargetType raw =
     (if raw = ''post'' then Some ReactionTargetPost
      else if raw = ''comment'' then Some ReactionTargetComment else None)"

definition ParseReactionType :: "string \<Rightarrow> ReactionType option" where
  "ParseReactionType raw =
     (if raw = ''like'' then Some ReactionTypeLike
      else if raw = ''dislike'' then Some ReactionTypeDislike else None)"

record reaction =
  reaction_ID :: int
  reaction_TargetType :: ReactionTargetType
  reaction_TargetID :: int
  reaction_Type :: ReactionType
  reaction_UserID :: int
  reaction_CreatedAt :: time

definition NewReaction ::
  "time \<Rightarrow> ReactionTargetType \<Rightarrow> int \<Rightarrow> ReactionType \<Rightarrow> int \<Rightarrow> reaction" where
  "NewReaction now targetType targetID reactionType userID =
     \<lparr>reaction_ID = 0, reaction_TargetType = targetType, reaction_TargetID = targetID,
      reaction_Type = reactionType, reaction_UserID = userID, reaction_CreatedAt = now\<rparr>"

definition Reaction_Update :: "ReactionType \<Rightarrow> reaction \<Rightarrow> reaction" where
  "Reaction_Update reactionType r = r\<lparr>reaction_Type := reactionType\<rparr>"

datatype ReportTargetType = ReportTargetPost | ReportTargetComment

datatype ReportReasonCode =
    ReportReasonSpam | ReportReasonAbuse | ReportReasonSexual | ReportReasonViolence
  | ReportReasonIllegal | ReportReasonOther

datatype ReportStatus = ReportStatusPending | ReportStatusAccepted | ReportStatusRejected

definition ParseReportTargetType :: "string \<Rightarrow> ReportTargetType option" where
  "ParseReportTargetType raw =
     (if raw = ''post'' then Some ReportTargetPost
      else if raw = ''comment'' then Some ReportTargetComment else None)"

definition ParseReportReasonCode :: "string \<Rightarrow> ReportReasonCode option" where
  "ParseReportReasonCode raw =
     (if raw = ''spam'' then Some ReportReasonSpam
      else if raw = ''abuse'' then Some ReportReasonAbuse
      else if raw = ''sexual'' then Some ReportReasonSexual
      else if raw = ''violence'' then Some ReportReasonViolence
      else if raw = ''illegal'' then Some ReportReasonIllegal
      else if raw = ''other'' then Some ReportReasonOther else None)"

fun ReportTargetType_string :: "ReportTargetType \<Rightarrow> string" where
  "ReportTargetType_string ReportTargetPost = ''post''"
| "ReportTargetType_string ReportTargetComment = ''comment''"

fun ReportReasonCode_string :: "ReportReasonCode \<Rightarrow> string" where
  "ReportReasonCode_string ReportReasonSpam = ''spam''"
| "ReportReasonCode_string ReportReasonAbuse = ''abuse''"
| "ReportReasonCode_string ReportReasonSexual = ''sexual''"
| "ReportReasonCode_string ReportReasonViolence = ''violence''"
| "ReportReasonCode_string ReportReasonIllegal = ''illegal''"
| "ReportReasonCode_string ReportReasonOther = ''other''"

fun ReportStatus_string :: "ReportStatus \<Rightarrow> string" where
  "ReportStatus_string ReportStatusPending = ''pending''"
| "ReportStatus_string ReportStatusAccepted = ''accepted''"
| "ReportStatus_string ReportStatusRejected = ''rejected''"

definition ParseReportStatus :: "string \<Rightarrow> ReportStatus option" where
  "ParseReportStatus raw =
     (if raw = ''pending'' then Some ReportStatusPending
      else if raw = ''accepted'' then Some ReportStatusAccepted
      else if raw = ''rejected'' then Some ReportStatusRejected else None)"

record report =
  report_ID :: int
  report_TargetType :: ReportTargetType
  report_TargetID :: int
  report_ReporterUserID :: int
  report_ReasonCode :: ReportReasonCode
  report_ReasonDetail :: string
  report_Status :: ReportStatus
  report_ResolutionNote :: string
  report_ResolvedBy :: "int option"
  report_ResolvedAt :: "time option"
  report_CreatedAt :: time
  report_UpdatedAt :: time

definition NewReport ::
  "time \<Rightarrow> ReportTargetType \<Rightarrow> int \<Rightarrow> int \<Rightarrow> ReportReasonCode \<Rightarrow> string \<Rightarrow> report" where
  "NewReport now targetType targetID reporterUserID reasonCode reasonDetail =
     \<lparr>report_ID = 0, report_TargetType = targetType, report_TargetID = targetID,
      report_ReporterUserID = reporterUserID, report_ReasonCode = reasonCode,
      report_ReasonDetail = reasonDetail, report_Status = ReportStatusPending,
      report_ResolutionNote = [], report_ResolvedBy = None, report_ResolvedAt = None,
      report_CreatedAt = now, report_UpdatedAt = now\<rparr>"

text \<open>\<open>Resolve\<close> answers whether it resolved the report, and the report afterwards.\<close>

definition Resolve :: "time \<Rightarrow> ReportStatus \<Rightarrow> string \<Rightarrow> int \<Rightarrow> report \<Rightarrow> bool \<times> report" where
  "Resolve now status resolutionNote resolverID r =
     (if status \<noteq> ReportStatusAccepted \<and> status \<noteq> ReportStatusRejected then (False, r)
      else if report_Status r \<noteq> ReportStatusPending then (False, r)
      else (True, r\<lparr>report_Status := status, report_ResolutionNote := resolutionNote,
                    report_ResolvedBy := Some resolverID, report_ResolvedAt := Some now,
                    report_UpdatedAt := now\<rparr>))"

section \<open>Notifications, attachments, tokens\<close>

datatype NotificationType =
  NotificationTypePostCommented | NotificationTypeCommentReplied | NotificationTypeMentioned

definition ParseNotificationType :: "string \<Rightarrow> NotificationType option" where
  "ParseNotificationType raw =
     (if raw = ''post_commented'' then Some NotificationTypePostCommented
      else if raw = ''comment_replied'' then Some NotificationTypeCommentReplied
      else if raw = ''mentioned'' then Some NotificationTypeMentioned else None)"

record notification =
  notification_ID :: int
  notification_UUID :: string
  notification_RecipientUserID :: int
  notification_ActorUserID :: int
  notification_Type :: NotificationType
  notification_PostID :: int
  notification_CommentID :: int
  notification_ActorNameSnapshot :: string
  notification_PostTitleSnapshot :: string
  notification_CommentPreviewSnapshot :: string
  notification_ReadAt :: "time option"
  notification_CreatedAt :: time
  notification_DedupKey :: string

definition NewNotification ::
  "time \<Rightarrow> string \<Rightarrow> int \<Rightarrow> int \<Rightarrow> NotificationType \<Rightarrow> int \<Rightarrow> int \<Rightarrow> string \<Rightarrow> string \<Rightarrow>
    string \<Rightarrow> notification" where
  "NewNotification now uuid recipientUserID actorUserID notificationType postID commentID
     actorName postTitle commentPreview =
     \<lparr>notification_ID = 0, notification_UUID = uuid,
      notification_RecipientUserID = recipientUserID, notification_ActorUserID = actorUserID,
      notification_Type = notificationType, notification_PostID = postID,
      notification_CommentID = commentID, notification_ActorNameSnapshot = actorName,
      notification_PostTitleSnapshot = postTitle,
      notification_CommentPreviewSnapshot = commentPreview, notification_ReadAt = None,
      notification_CreatedAt = now, notification_DedupKey = []\<rparr>"

definition MarkRead :: "time \<Rightarrow> notification \<Rightarrow> notification" where
  "MarkRead now n =
     (if notification_ReadAt n \<noteq> None then n else n\<lparr>notification_ReadAt := Some now\<rparr>)"

record attachment =
  attachment_ID :: int
  attachment_UUID :: string
  attachment_PostID :: int
  attachment_FileName :: string
  attachment_ContentType :: string
  attachment_SizeBytes :: int
  attachment_StorageKey :: string
  attachment_CreatedAt :: time
  attachment_OrphanedAt :: "time option"
  attachment_PendingDeleteAt :: "time option"

definition NewAttachment ::
  "time \<Rightarrow> string \<Rightarrow> int \<Rightarrow> string \<Rightarrow> string \<Rightarrow> int \<Rightarrow> string \<Rightarrow> attachment" where
  "NewAttachment now uuid postID fileName contentType sizeBytes storageKey =
     \<lparr>attachment_ID = 0, attachment_UUID = uuid, attachment_PostID = postID,
      attachment_FileName = fileName, attachment_ContentType = contentType,
      attachment_SizeBytes = sizeBytes, attachment_StorageKey = storageKey,
      attachment_CreatedAt = now, attachment_OrphanedAt = Some now,
      attachment_PendingDeleteAt = None\<rparr>"

definition MarkReferenced :: "attachment \<Rightarrow> attachment" where
  "MarkReferenced a = a\<lparr>attachment_OrphanedAt := None\<rparr>"

definition MarkOrphaned :: "time \<Rightarrow> attachment \<Rightarrow> attachment" where
  "MarkOrphaned now a =
     (if attachment_OrphanedAt a \<noteq> None then a else a\<lparr>attachment_OrphanedAt := Some now\<rparr>)"

definition IsOrphaned :: "attachment \<Rightarrow> bool" where
  "IsOrphaned a \<longleftrightarrow> attachment_OrphanedAt a \<noteq> None"

definition MarkPendingDeleteAt :: "time \<Rightarrow> attachment \<Rightarrow> attachment" where
  "MarkPendingDeleteAt at a =
     (if attachment_PendingDeleteAt a \<noteq> None then a
      else a\<lparr>attachment_PendingDeleteAt := Some at\<rparr>)"

definition IsPendingDelete :: "attachment \<Rightarrow> bool" where
  "IsPendingDelete a \<longleftrightarrow> attachment_PendingDeleteAt a \<noteq> None"

text \<open>
  Email verification tokens and password reset tokens have the same fields and methods; one
  record stands for both Go types.
\<close>

record token =
  token_UserID :: int
  token_TokenHash :: string
  token_CreatedAt :: time
  token_ExpiresAt :: time
  token_ConsumedAt :: "time option"
  token_DeliveredAt :: "time option"

definition NewToken :: "time \<Rightarrow> int \<Rightarrow> string \<Rightarrow> time \<Rightarrow> token" where
  "NewToken now userID tokenHash expiresAt =
     \<lparr>token_UserID = userID, token_TokenHash = tokenHash, token_CreatedAt = now,
      token_ExpiresAt = expiresAt, token_ConsumedAt = None, token_DeliveredAt = None\<rparr>"

definition IsExpired :: "time \<Rightarrow> token \<Rightarrow> bool" where
  "IsExpired now t \<longleftrightarrow> \<not> now < token_ExpiresAt t"

definition IsConsumed :: "token \<Rightarrow> bool" where
  "IsConsumed t \<longleftrightarrow> token_ConsumedAt t \<noteq> None"

definition IsUsable :: "time \<Rightarrow> token option \<Rightarrow> bool" where
  "IsUsable now ot \<longleftrightarrow>
     (case ot of None \<Rightarrow> False | Some t \<Rightarrow> \<not> IsConsumed t \<and> \<not> IsExpired now t)"

definition Consume :: "time \<Rightarrow> token \<Rightarrow> token" where
  "Consume now t = t\<lparr>token_ConsumedAt := Some now\<rparr>"

end
