(* ===== verification/Events.thy ===== *)
theory Events
  imports Entities
begin

text \<open>
  \<open>application/event/types.go\<close>: the domain events, one constructor per event type with the
  fields of its Go struct, the name each is stored under and the instant it carries. The
  constructors of the source read the clock (and draw a UUID for a notification); they take
  the values as arguments here. The names are pairwise different, so the name alone tells
  \<open>Deserialize\<close> which struct to fill.
\<close>

record mail_delivery =
  mail_UserID :: int
  mail_Email :: string
  mail_RawToken :: string
  mail_TokenHash :: string
  mail_ExpiresAt :: time
  mail_At :: time

record notification_event =
  ne_EventID :: string
  ne_RecipientUserID :: int
  ne_ActorUserID :: int
  ne_Type :: NotificationType
  ne_PostID :: int
  ne_CommentID :: int
  ne_ActorNameSnapshot :: string
  ne_PostTitleSnapshot :: string
  ne_CommentPreviewSnapshot :: string
  ne_At :: time

datatype domain_event =
    BoardChanged (be_Operation: string) (be_BoardID: int) (be_At: time)
  | PostChanged (pe_Operation: string) (pe_PostID: int) (pe_BoardID: int)
      (pe_PublishedAt: "time option") (pe_TagNames: "string list")
      (pe_DeletedCommentIDs: "int list") (pe_At: time)
  | CommentChanged (ce_Operation: string) (ce_CommentID: int) (ce_PostID: int) (ce_At: time)
  | ReactionChanged (re_Operation: string) (re_TargetType: ReactionTargetType) (re_TargetID: int)
      (re_PostID: int) (re_UserID: int) (re_ReactionType: ReactionType) (re_At: time)
  | AttachmentChanged (ae_Operation: string) (ae_AttachmentID: int) (ae_PostID: int) (ae_At: time)
  | ReportChanged (rp_Operation: string) (rp_ReportID: int) (rp_Status: string) (rp_At: time)
  | NotificationTriggered (nt_Event: notification_event)
  | SignupEmailVerificationRequested (sv_Mail: mail_delivery)
  | EmailVerificationResendRequested (er_Mail: mail_delivery)
  | PasswordResetRequested (pr_Mail: mail_delivery)

fun EventName :: "domain_event \<Rightarrow> string" where
  "EventName (BoardChanged _ _ _) = ''board.changed''"
| "EventName (PostChanged _ _ _ _ _ _ _) = ''post.changed''"
| "EventName (CommentChanged _ _ _ _) = ''comment.changed''"
| "EventName (ReactionChanged _ _ _ _ _ _ _) = ''reaction.changed''"
| "EventName (AttachmentChanged _ _ _ _) = ''attachment.changed''"
| "EventName (ReportChanged _ _ _ _) = ''report.changed''"
| "EventName (NotificationTriggered _) = ''notification.triggered''"
| "EventName (SignupEmailVerificationRequested _) = ''email.verification.signup.requested''"
| "EventName (EmailVerificationResendRequested _) = ''email.verification.resend.requested''"
| "EventName (PasswordResetRequested _) = ''password.reset.requested''"

fun OccurredAt :: "domain_event \<Rightarrow> time" where
  "OccurredAt (BoardChanged _ _ at) = at"
| "OccurredAt (PostChanged _ _ _ _ _ _ at) = at"
| "OccurredAt (CommentChanged _ _ _ at) = at"
| "OccurredAt (ReactionChanged _ _ _ _ _ _ at) = at"
| "OccurredAt (AttachmentChanged _ _ _ at) = at"
| "OccurredAt (ReportChanged _ _ _ at) = at"
| "OccurredAt (NotificationTriggered e) = ne_At e"
| "OccurredAt (SignupEmailVerificationRequested m) = mail_At m"
| "OccurredAt (EmailVerificationResendRequested m) = mail_At m"
| "OccurredAt (PasswordResetRequested m) = mail_At m"

definition NewBoardChanged :: "time \<Rightarrow> string \<Rightarrow> int \<Rightarrow> domain_event" where
  "NewBoardChanged now operation boardID = BoardChanged operation boardID now"

definition NewPostChanged ::
  "time \<Rightarrow> string \<Rightarrow> int \<Rightarrow> int \<Rightarrow> time option \<Rightarrow> string list \<Rightarrow> int list \<Rightarrow> domain_event" where
  "NewPostChanged now operation postID boardID publishedAt tagNames deletedCommentIDs =
     PostChanged operation postID boardID publishedAt tagNames deletedCommentIDs now"

definition NewCommentChanged :: "time \<Rightarrow> string \<Rightarrow> int \<Rightarrow> int \<Rightarrow> domain_event" where
  "NewCommentChanged now operation commentID postID = CommentChanged operation commentID postID now"

definition NewReactionChanged ::
  "time \<Rightarrow> string \<Rightarrow> ReactionTargetType \<Rightarrow> int \<Rightarrow> int \<Rightarrow> int \<Rightarrow> ReactionType \<Rightarrow> domain_event" where
  "NewReactionChanged now operation targetType targetID postID userID reactionType =
     ReactionChanged operation targetType targetID postID userID reactionType now"

definition NewAttachmentChanged :: "time \<Rightarrow> string \<Rightarrow> int \<Rightarrow> int \<Rightarrow> domain_event" where
  "NewAttachmentChanged now operation attachmentID postID =
     AttachmentChanged operation attachmentID postID now"

definition NewReportChanged :: "time \<Rightarrow> string \<Rightarrow> int \<Rightarrow> string \<Rightarrow> domain_event" where
  "NewReportChanged now operation reportID status = ReportChanged operation reportID status now"

definition NewNotificationTriggered ::
  "time \<Rightarrow> string \<Rightarrow> int \<Rightarrow> int \<Rightarrow> NotificationType \<Rightarrow> int \<Rightarrow> int \<Rightarrow> string \<Rightarrow> string \<Rightarrow>
    string \<Rightarrow> domain_event" where
  "NewNotificationTriggered now uuid recipientUserID actorUserID notificationType postID commentID
     actorNameSnapshot postTitleSnapshot commentPreviewSnapshot =
     NotificationTriggered
       \<lparr>ne_EventID = uuid, ne_RecipientUserID = recipientUserID, ne_ActorUserID = actorUserID,
        ne_Type = notificationType, ne_PostID = postID, ne_CommentID = commentID,
        ne_ActorNameSnapshot = actorNameSnapshot, ne_PostTitleSnapshot = postTitleSnapshot,
        ne_CommentPreviewSnapshot = commentPreviewSnapshot, ne_At = now\<rparr>"

definition NewMailDelivery ::
  "time \<Rightarrow> int \<Rightarrow> string \<Rightarrow> string \<Rightarrow> string \<Rightarrow> time \<Rightarrow> mail_delivery" where
  "NewMailDelivery now userID email rawToken tokenHash expiresAt =
     \<lparr>mail_UserID = userID, mail_Email = email, mail_RawToken = rawToken,
      mail_TokenHash = tokenHash, mail_ExpiresAt = expiresAt, mail_At = now\<rparr>"

definition NewSignupEmailVerificationRequested ::
  "time \<Rightarrow> int \<Rightarrow> string \<Rightarrow> string \<Rightarrow> string \<Rightarrow> time \<Rightarrow> domain_event" where
  "NewSignupEmailVerificationRequested now userID email rawToken tokenHash expiresAt =
     SignupEmailVerificationRequested (NewMailDelivery now userID email rawToken tokenHash expiresAt)"

definition NewEmailVerificationResendRequested ::
  "time \<Rightarrow> int \<Rightarrow> string \<Rightarrow> string \<Rightarrow> string \<Rightarrow> time \<Rightarrow> domain_event" where
  "NewEmailVerificationResendRequested now userID email rawToken tokenHash expiresAt =
     EmailVerificationResendRequested (NewMailDelivery now userID email rawToken tokenHash expiresAt)"

definition NewPasswordResetRequested ::
  "time \<Rightarrow> int \<Rightarrow> string \<Rightarrow> string \<Rightarrow> string \<Rightarrow> time \<Rightarrow> domain_event" where
  "NewPasswordResetRequested now userID email rawToken tokenHash expiresAt =
     PasswordResetRequested (NewMailDelivery now userID email rawToken tokenHash expiresAt)"

text \<open>
  \<open>JSONEventSerializer.Serialize\<close>: \<open>marshal\<close> is \<open>json.Marshal\<close>, which may fail. Events
  reach it as values, so the case of a \<open>nil\<close> event does not arise.
\<close>

definition Serialize ::
  "(domain_event \<Rightarrow> string option) \<Rightarrow> domain_event \<Rightarrow> (string \<times> string \<times> time) option" where
  "Serialize marshal event =
     (case marshal event of
        None \<Rightarrow> None
      | Some payload \<Rightarrow> Some (EventName event, payload, OccurredAt event))"

text \<open>Equal names mean equal event types.\<close>

lemma EventName_discriminates:
  "EventName e = EventName f \<Longrightarrow>
    (is_BoardChanged e \<longleftrightarrow> is_BoardChanged f) \<and> (is_PostChanged e \<longleftrightarrow> is_PostChanged f) \<and>
    (is_CommentChanged e \<longleftrightarrow> is_CommentChanged f) \<and> (is_ReactionChanged e \<longleftrightarrow> is_ReactionChanged f) \<and>
    (is_NotificationTriggered e \<longleftrightarrow> is_NotificationTriggered f)"
  by (cases e; cases f) simp_all

end
