(* ===== verification/Errors.thy ===== *)
theory Errors
  imports Prelude
begin

text \<open>
  \<open>internal/customerror\<close>: the sentinel errors, the wrapping helpers and \<open>Public\<close>, which
  every delivery handler applies before it answers.

  A Go error is a sentinel, an error that \<open>fmt.Errorf\<close> built around the operands of its
  \<open>%w\<close> verbs, an \<open>errors.Join\<close>, or an error of code outside the repository, of which only its text and
  the result of a \<open>Code()\<close> method (if it has one) matter. \<open>errors.Is\<close> and
  \<open>errors.As\<close> walk the tree of wrapped errors in preorder.

  The lemmas show that \<open>Public\<close> only ever answers with public sentinels and that wrapping
  an error as a repository, cache, token, mail or storage failure never changes its answer.
\<close>

datatype sentinel =
    ErrInternalServerError | ErrForbidden | ErrUnauthorized | ErrTooManyRequests
  | ErrInvalidInput | ErrNotFound | ErrMethodNotAllowed | ErrInvalidCredential
  | ErrMissingAuthHeader | ErrInvalidToken | ErrUserSuspended | ErrEmailVerificationRequired
  | ErrUserAlreadyExists | ErrUserNotFound | ErrBoardNotFound | ErrBoardNotEmpty
  | ErrPostNotFound | ErrTagNotFound | ErrAttachmentNotFound | ErrCommentNotFound
  | ErrReactionNotFound | ErrReportNotFound | ErrNotificationNotFound | ErrReportAlreadyExists
  | ErrRepositoryFailure | ErrCacheFailure | ErrTokenFailure | ErrSQLiteBusy
  | ErrSQLiteConstraint | ErrSQLiteForeignKey | ErrMailDeliveryFailure | ErrStorageFailure

datatype go_error =
    Sentinel sentinel
  | Wrapped string "go_error list"
  | Joined "go_error list"
  | External string "int option"

fun sentinel_text :: "sentinel \<Rightarrow> string" where
  "sentinel_text ErrInternalServerError = ''internal server error''"
| "sentinel_text ErrForbidden = ''forbidden''"
| "sentinel_text ErrUnauthorized = ''unauthorized''"
| "sentinel_text ErrTooManyRequests = ''too many requests''"
| "sentinel_text ErrInvalidInput = ''invalid input''"
| "sentinel_text ErrNotFound = ''not found''"
| "sentinel_text ErrMethodNotAllowed = ''method not allowed''"
| "sentinel_text ErrInvalidCredential = ''invalid credential''"
| "sentinel_text ErrMissingAuthHeader = ''missing Authorization header''"
| "sentinel_text ErrInvalidToken = ''invalid token''"
| "sentinel_text ErrUserSuspended = ''user suspended''"
| "sentinel_text ErrEmailVerificationRequired = ''email verification required''"
| "sentinel_text ErrUserAlreadyExists = ''user already exists''"
| "sentinel_text ErrUserNotFound = ''user not found''"
| "sentinel_text ErrBoardNotFound = ''board not found''"
| "sentinel_text ErrBoardNotEmpty = ''board not empty''"
| "sentinel_text ErrPostNotFound = ''post not found''"
| "sentinel_text ErrTagNotFound = ''tag not found''"
| "sentinel_text ErrAttachmentNotFound = ''attachment not found''"
| "sentinel_text ErrCommentNotFound = ''comment not found''"
| "sentinel_text ErrReactionNotFound = ''reaction not found''"
| "sentinel_text ErrReportNotFound = ''report not found''"
| "sentinel_text ErrNotificationNotFound = ''notification not found''"
| "sentinel_text ErrReportAlreadyExists = ''report already exists''"
| "sentinel_text ErrRepositoryFailure = ''repository failure''"
| "sentinel_text ErrCacheFailure = ''cache failure''"
| "sentinel_text ErrTokenFailure = ''token failure''"
| "sentinel_text ErrSQLiteBusy = ''sqlite busy''"
| "sentinel_text ErrSQLiteConstraint = ''sqlite constraint''"
| "sentinel_text ErrSQLiteForeignKey = ''sqlite foreign key''"
| "sentinel_text ErrMailDeliveryFailure = ''mail delivery failure''"
| "sentinel_text ErrStorageFailure = ''storage failure''"

text \<open>\<open>errors.Is\<close>, \<open>errors.As\<close> to a \<open>sqliteCoder\<close>, and the text of an error.\<close>

fun Is :: "sentinel \<Rightarrow> go_error \<Rightarrow> bool" where
  "Is t (Sentinel s) = (s = t)"
| "Is t (Wrapped _ es) = list_ex (Is t) es"
| "Is t (Joined es) = list_ex (Is t) es"
| "Is t (External _ _) = False"

fun first_some :: "'a option list \<Rightarrow> 'a option" where
  "first_some [] = None"
| "first_some (Some a # _) = Some a"
| "first_some (None # r) = first_some r"

fun AsCoded :: "go_error \<Rightarrow> int option" where
  "AsCoded (Sentinel _) = None"
| "AsCoded (Wrapped _ es) = first_some (map AsCoded es)"
| "AsCoded (Joined es) = first_some (map AsCoded es)"
| "AsCoded (External _ code) = code"

fun ErrorText :: "go_error \<Rightarrow> string" where
  "ErrorText (Sentinel s) = sentinel_text s"
| "ErrorText (Wrapped op es) = op @ concat (map (\<lambda>e. '': '' @ ErrorText e) es)"
| "ErrorText (Joined es) = tl (concat (map (\<lambda>e. CHR 0x0A # ErrorText e) es))"
| "ErrorText (External t _) = t"

definition Mark :: "sentinel \<Rightarrow> string \<Rightarrow> go_error" where
  "Mark kind op = Wrapped op [Sentinel kind]"

definition Wrap :: "sentinel \<Rightarrow> string \<Rightarrow> go_error option \<Rightarrow> go_error" where
  "Wrap kind op err =
     (case err of None \<Rightarrow> Mark kind op | Some e \<Rightarrow> Wrapped op [Sentinel kind, e])"

text \<open>
  The result codes are those of SQLite's public interface. \<open>code & 0xff\<close> on a two's
  complement integer is the remainder modulo 256.
\<close>

abbreviation SQLITE_BUSY :: int where "SQLITE_BUSY \<equiv> 5"
abbreviation SQLITE_LOCKED :: int where "SQLITE_LOCKED \<equiv> 6"
abbreviation SQLITE_CONSTRAINT :: int where "SQLITE_CONSTRAINT \<equiv> 19"
abbreviation SQLITE_CONSTRAINT_FOREIGNKEY :: int where "SQLITE_CONSTRAINT_FOREIGNKEY \<equiv> 787"

definition classifySQLiteFailure :: "go_error \<Rightarrow> sentinel option" where
  "classifySQLiteFailure err =
     (case AsCoded err of
        None \<Rightarrow> None
      | Some code \<Rightarrow>
          if code mod 256 = SQLITE_BUSY \<or> code mod 256 = SQLITE_LOCKED then Some ErrSQLiteBusy
          else if code = SQLITE_CONSTRAINT_FOREIGNKEY then Some ErrSQLiteForeignKey
          else if code mod 256 = SQLITE_CONSTRAINT then Some ErrSQLiteConstraint
          else None)"

definition WrapRepository :: "string \<Rightarrow> go_error option \<Rightarrow> go_error" where
  "WrapRepository op err =
     (case err of
        None \<Rightarrow> Mark ErrRepositoryFailure op
      | Some e \<Rightarrow>
          (case classifySQLiteFailure e of
             Some kind \<Rightarrow> Wrapped op [Sentinel ErrRepositoryFailure, Sentinel kind, e]
           | None \<Rightarrow> Wrapped op [Sentinel ErrRepositoryFailure, e]))"

definition WrapCache :: "string \<Rightarrow> go_error option \<Rightarrow> go_error" where
  "WrapCache op err = Wrap ErrCacheFailure op err"

definition WrapToken :: "string \<Rightarrow> go_error option \<Rightarrow> go_error" where
  "WrapToken op err = Wrap ErrTokenFailure op err"

definition WrapMailDelivery :: "string \<Rightarrow> go_error option \<Rightarrow> go_error" where
  "WrapMailDelivery op err = Wrap ErrMailDeliveryFailure op err"

definition WrapStorage :: "string \<Rightarrow> go_error option \<Rightarrow> go_error" where
  "WrapStorage op err = Wrap ErrStorageFailure op err"

text \<open>The cases of the switch in \<open>Public\<close>, in the order of the code.\<close>

definition public_cases :: "sentinel list" where
  "public_cases =
     [ErrUserAlreadyExists, ErrUserNotFound, ErrBoardNotFound, ErrBoardNotEmpty, ErrPostNotFound,
      ErrTagNotFound, ErrAttachmentNotFound, ErrCommentNotFound, ErrReactionNotFound,
      ErrReportNotFound, ErrNotificationNotFound, ErrReportAlreadyExists, ErrInvalidCredential,
      ErrUserSuspended, ErrEmailVerificationRequired, ErrInvalidInput, ErrNotFound,
      ErrMethodNotAllowed, ErrUnauthorized, ErrTooManyRequests, ErrMissingAuthHeader,
      ErrInvalidToken, ErrForbidden]"

definition Public :: "go_error \<Rightarrow> sentinel" where
  "Public err = (case find (\<lambda>s. Is s err) public_cases of
                   Some s \<Rightarrow> s | None \<Rightarrow> ErrInternalServerError)"

text \<open>\<open>NormalizeCacheLoadError\<close> of \<open>service/common\<close>: the cases it passes through.\<close>

definition cache_load_cases :: "sentinel list" where
  "cache_load_cases =
     [ErrCacheFailure, ErrRepositoryFailure, ErrTokenFailure, ErrUserAlreadyExists,
      ErrUserNotFound, ErrBoardNotFound, ErrPostNotFound, ErrTagNotFound, ErrCommentNotFound,
      ErrReactionNotFound, ErrInvalidCredential, ErrInvalidInput, ErrUnauthorized,
      ErrMissingAuthHeader, ErrInvalidToken, ErrForbidden]"

definition NormalizeCacheLoadError :: "string \<Rightarrow> go_error option \<Rightarrow> go_error option" where
  "NormalizeCacheLoadError op err =
     (case err of
        None \<Rightarrow> None
      | Some e \<Rightarrow> if \<exists>s \<in> set cache_load_cases. Is s e then Some e
                  else Some (WrapCache op (Some e)))"

section \<open>Properties\<close>

text \<open>The sentinels that \<open>Public\<close> never shows: the internal categories.\<close>

definition internal_kinds :: "sentinel set" where
  "internal_kinds =
     {ErrRepositoryFailure, ErrCacheFailure, ErrTokenFailure, ErrSQLiteBusy, ErrSQLiteConstraint,
      ErrSQLiteForeignKey, ErrMailDeliveryFailure, ErrStorageFailure}"

lemma internal_not_public: "s \<in> internal_kinds \<Longrightarrow> s \<notin> set public_cases"
  by (cases s) (simp_all add: internal_kinds_def public_cases_def)

lemma find_cong_pred: "(\<And>x. x \<in> set xs \<Longrightarrow> P x = Q x) \<Longrightarrow> find P xs = find Q xs"
  by (induction xs) auto

text \<open>Wrapping with internal kinds only is invisible to \<open>Public\<close>.\<close>

lemma Public_Wrapped_internal:
  assumes "set kinds \<subseteq> internal_kinds"
  shows "Public (Wrapped op (map Sentinel kinds @ [e])) = Public e"
proof -
  have "Is s (Wrapped op (map Sentinel kinds @ [e])) = Is s e" if "s \<in> set public_cases" for s
    using assms internal_not_public that by (induction kinds) auto
  then have "find (\<lambda>s. Is s (Wrapped op (map Sentinel kinds @ [e]))) public_cases =
      find (\<lambda>s. Is s e) public_cases"
    by (rule find_cong_pred)
  then show ?thesis unfolding Public_def by simp
qed

lemma classify_internal: "classifySQLiteFailure e = Some k \<Longrightarrow> k \<in> internal_kinds"
  by (auto simp: classifySQLiteFailure_def internal_kinds_def split: option.splits if_splits)

lemma Public_WrapRepository [simp]: "Public (WrapRepository op (Some e)) = Public e"
proof (cases "classifySQLiteFailure e")
  case None
  then show ?thesis
    using Public_Wrapped_internal [of "[ErrRepositoryFailure]" op e]
    by (simp add: WrapRepository_def internal_kinds_def)
next
  case (Some k)
  then show ?thesis
    using Public_Wrapped_internal [of "[ErrRepositoryFailure, k]" op e] classify_internal [OF Some]
    by (simp add: WrapRepository_def internal_kinds_def)
qed

lemma Public_Wrap: "kind \<in> internal_kinds \<Longrightarrow> Public (Wrap kind op (Some e)) = Public e"
  using Public_Wrapped_internal [of "[kind]" op e] by (simp add: Wrap_def)

lemma Public_Sentinel: "s \<in> set public_cases \<Longrightarrow> Public (Sentinel s) = s"
  by (auto simp: Public_def public_cases_def)

lemma Public_internal_error: "Public (Sentinel ErrInternalServerError) = ErrInternalServerError"
  by (simp add: Public_def public_cases_def)

lemma internal_error_not_kind: "ErrInternalServerError \<notin> internal_kinds"
  by (simp add: internal_kinds_def)

lemma Public_range: "Public e \<in> insert ErrInternalServerError (set public_cases)"
  by (simp only: Public_def find_Some_iff insert_iff split: option.splits) (metis nth_mem)

lemma Is_WrapRepository: "Is ErrRepositoryFailure (WrapRepository op err)"
  by (auto simp: WrapRepository_def Mark_def split: option.splits)

text \<open>
  \<open>Public\<close> answers with a public sentinel or the generic internal error, never with an
  internal category; it is idempotent; and an error that a service wrapped as a repository or a
  cache failure on its way up gets the answer of the wrapped error itself.
\<close>

theorem public_hides_internals:
  "Public e \<notin> internal_kinds \<and>
   Public (Sentinel (Public e)) = Public e \<and>
   Public (WrapRepository op (Some e)) = Public e \<and>
   map_option Public (NormalizeCacheLoadError op (Some e)) = Some (Public e)"
proof (intro conjI)
  have r: "Public e = ErrInternalServerError \<or> Public e \<in> set public_cases"
    using Public_range by auto
  then show "Public e \<notin> internal_kinds"
    using internal_not_public internal_error_not_kind by metis
  show "Public (Sentinel (Public e)) = Public e"
    using r Public_Sentinel Public_internal_error by metis
  show "map_option Public (NormalizeCacheLoadError op (Some e)) = Some (Public e)"
    by (simp add: NormalizeCacheLoadError_def WrapCache_def Public_Wrap internal_kinds_def)
qed simp

end
