(* ===== verification/Tables.thy ===== *)
theory Tables
  imports Prelude
begin

text \<open>
  The table that the in-memory repositories share: the struct \<open>{ID, Data}\<close> of a counter and
  a map from keys to rows. Its invariant says that every row is stored under its own key and
  that the counter has passed every key. The locale \<open>row_table\<close> is the contract a repository
  offers its callers (look up, insert, replace, remove), with what follows from it for any
  caller: an inserted row is found again, keys are never given twice, other rows keep their
  contents. Every repository of the development interprets it.
\<close>

record 'v db =
  db_ID :: int
  db_Data :: "(int \<times> 'v) list"

definition empty_db :: "'v db" where
  "empty_db = \<lparr>db_ID = 0, db_Data = []\<rparr>"

definition db_get :: "'v db \<Rightarrow> int \<Rightarrow> 'v option" where
  "db_get d i = map_of (db_Data d) i"

definition db_rows :: "'v db \<Rightarrow> 'v list" where
  "db_rows d = row_values (db_Data d)"

definition db_ok :: "('v \<Rightarrow> int) \<Rightarrow> 'v db \<Rightarrow> bool" where
  "db_ok rid d \<longleftrightarrow>
     distinct (map fst (db_Data d)) \<and> 0 \<le> db_ID d \<and>
     (\<forall>(i, v) \<in> set (db_Data d). rid v = i \<and> 0 < i \<and> i \<le> db_ID d)"

lemma db_ok_empty [simp]: "db_ok rid empty_db"
  by (simp add: db_ok_def empty_db_def)

lemma db_get_empty [simp]: "db_get empty_db i = None" "db_rows empty_db = []"
  by (simp_all add: db_get_def db_rows_def empty_db_def)

lemma db_get_row:
  assumes "db_ok rid d"
  shows "db_get d i = Some v \<longleftrightarrow> v \<in> set (db_rows d) \<and> rid v = i"
  using assms by (force simp: db_ok_def db_get_def db_rows_def dest: map_of_SomeD)

lemma db_get_bounds: "db_ok rid d \<Longrightarrow> db_get d i = Some v \<Longrightarrow> rid v = i \<and> 0 < i \<and> i \<le> db_ID d"
  by (auto simp: db_ok_def db_get_def dest!: map_of_SomeD)

lemma db_fresh: "db_ok rid d \<Longrightarrow> db_get d (db_ID d + 1) = None"
  using db_get_bounds by (cases "db_get d (db_ID d + 1)") force+

lemma db_rows_bounds: "db_ok rid d \<Longrightarrow> v \<in> set (db_rows d) \<Longrightarrow> 0 < rid v \<and> rid v \<le> db_ID d"
  by (auto simp: db_ok_def db_rows_def)

lemma db_rids: "db_ok rid d \<Longrightarrow> map rid (db_rows d) = map fst (db_Data d)"
  by (auto simp: db_ok_def db_rows_def)

lemma db_rows_distinct: "db_ok rid d \<Longrightarrow> distinct (map rid (db_rows d))"
  by (simp add: db_rids) (simp add: db_ok_def)

lemma filter_distinct_rids: "distinct (map f xs) \<Longrightarrow> distinct (map f (filter P xs))"
  by (induction xs) auto

text \<open>The three ways the repositories write the table.\<close>

lemma db_ok_insert [inv_intros]:
  assumes "db_ok rid d" "rid v = db_ID d + 1"
  shows "db_ok rid (d\<lparr>db_ID := db_ID d + 1, db_Data := put_row (db_ID d + 1) v (db_Data d)\<rparr>)"
  using assms by (auto simp: db_ok_def distinct_put_row set_put_row)

lemma db_ok_put [inv_intros]:
  assumes "db_ok rid d" "db_get d (rid v) \<noteq> None"
  shows "db_ok rid (d\<lparr>db_Data := put_row (rid v) v (db_Data d)\<rparr>)"
  using assms by (auto simp: db_ok_def db_get_def distinct_put_row set_put_row dest!: map_of_SomeD)

lemma db_ok_del [inv_intros]:
  assumes "db_ok rid d"
  shows "db_ok rid (d\<lparr>db_Data := del_row i (db_Data d)\<rparr>)"
  using assms by (auto simp: db_ok_def distinct_del_row set_del_row)

lemma db_get_put [simp]:
  "db_get (d\<lparr>db_Data := put_row i v (db_Data d)\<rparr>) = (db_get d)(i \<mapsto> v)"
  "db_get (d\<lparr>db_ID := n, db_Data := put_row i v (db_Data d)\<rparr>) = (db_get d)(i \<mapsto> v)"
  "db_get (d\<lparr>db_Data := del_row i (db_Data d)\<rparr>) = (db_get d)(i := None)"
  by (auto simp: db_get_def)

lemma db_rows_insert:
  assumes "db_ok rid d"
  shows "db_rows (d\<lparr>db_ID := db_ID d + 1, db_Data := put_row (db_ID d + 1) v (db_Data d)\<rparr>) =
    db_rows d @ [v]"
proof -
  have "db_ID d + 1 \<notin> fst ` set (db_Data d)"
    using assms by (force simp: db_ok_def)
  then show ?thesis by (simp add: db_rows_def put_row_fresh)
qed

section \<open>The contract of a repository\<close>

locale insert_table =
  fixes rid :: "'v \<Rightarrow> int"
    and get :: "'r \<Rightarrow> int \<Rightarrow> 'v option"
    and counter :: "'r \<Rightarrow> int"
    and inv :: "'r \<Rightarrow> bool"
    and insert :: "'v \<Rightarrow> 'r \<Rightarrow> 'v \<times> 'r"
  assumes get_key: "inv r \<Longrightarrow> get r i = Some v \<Longrightarrow> rid v = i \<and> 0 < i \<and> i \<le> counter r"
    and insert_key: "inv r \<Longrightarrow> insert v r = (w, r') \<Longrightarrow> rid w = counter r + 1"
    and insert_counter: "inv r \<Longrightarrow> insert v r = (w, r') \<Longrightarrow> counter r' = counter r + 1"
    and insert_get: "inv r \<Longrightarrow> insert v r = (w, r') \<Longrightarrow> get r' = (get r)(rid w \<mapsto> w)"
    and insert_inv: "inv r \<Longrightarrow> insert v r = (w, r') \<Longrightarrow> inv r'"
begin

lemma insert_fresh: "inv r \<Longrightarrow> insert v r = (w, r') \<Longrightarrow> get r (rid w) = None"
  using insert_key get_key by (metis less_add_one linorder_not_less not_None_eq)

lemma insert_found: "inv r \<Longrightarrow> insert v r = (w, r') \<Longrightarrow> get r' (rid w) = Some w"
  by (simp add: insert_get)

lemma insert_other:
  "inv r \<Longrightarrow> insert v r = (w, r') \<Longrightarrow> get r i = Some x \<Longrightarrow> get r' i = Some x"
  using insert_fresh insert_get by fastforce

end

locale row_table = insert_table rid get counter inv insert
  for rid :: "'v \<Rightarrow> int"
    and get :: "'r \<Rightarrow> int \<Rightarrow> 'v option"
    and counter :: "'r \<Rightarrow> int"
    and inv :: "'r \<Rightarrow> bool"
    and insert :: "'v \<Rightarrow> 'r \<Rightarrow> 'v \<times> 'r" +
  fixes replace :: "'v \<Rightarrow> 'r \<Rightarrow> 'r"
  assumes replace_get: "inv r \<Longrightarrow>
      get (replace v r) = (if get r (rid v) = None then get r else (get r)(rid v \<mapsto> v))"
    and replace_counter: "inv r \<Longrightarrow> counter (replace v r) = counter r"
    and replace_inv: "inv r \<Longrightarrow> inv (replace v r)"
begin

lemma replace_found:
  "inv r \<Longrightarrow> get r (rid v) = Some x \<Longrightarrow> get (replace v r) (rid v) = Some v"
  by (simp add: replace_get)

lemma replace_other: "inv r \<Longrightarrow> i \<noteq> rid v \<Longrightarrow> get (replace v r) i = get r i"
  by (simp add: replace_get)

text \<open>Two insertions, with any replacements in between, never share a key.\<close>

lemma keys_not_reused:
  assumes "inv r" "insert v r = (w, r1)" "insert u (fold replace xs r1) = (z, r2)"
  shows "rid z \<noteq> rid w"
proof -
  have "inv (fold replace xs s) \<and> counter (fold replace xs s) = counter s" if "inv s" for s
    using that by (induction xs arbitrary: s) (auto simp: replace_inv replace_counter)
  then have "inv (fold replace xs r1)" "counter (fold replace xs r1) = counter r1"
    using insert_inv [OF assms(1,2)] by blast+
  then show ?thesis
    using insert_key [OF _ assms(3)] insert_key [OF assms(1,2)] insert_counter [OF assms(1,2)]
    by simp
qed

end

text \<open>
  What most repositories do: \<open>save\<close> increments the counter and stores the row under it,
  \<open>update\<close> overwrites the row with the same key if there is one. They satisfy the contract.
\<close>

definition db_insert :: "(int \<Rightarrow> 'v \<Rightarrow> 'v) \<Rightarrow> 'v \<Rightarrow> 'v db \<Rightarrow> 'v \<times> 'v db" where
  "db_insert set_rid v d =
     (set_rid (db_ID d + 1) v,
      d\<lparr>db_ID := db_ID d + 1,
        db_Data := put_row (db_ID d + 1) (set_rid (db_ID d + 1) v) (db_Data d)\<rparr>)"

definition db_replace :: "('v \<Rightarrow> int) \<Rightarrow> 'v \<Rightarrow> 'v db \<Rightarrow> 'v db" where
  "db_replace rid v d =
     (case db_get d (rid v) of
        Some _ \<Rightarrow> d\<lparr>db_Data := put_row (rid v) v (db_Data d)\<rparr>
      | None \<Rightarrow> d)"

lemma db_replace_get:
  "db_get (db_replace rid v d) =
    (if db_get d (rid v) = None then db_get d else (db_get d)(rid v \<mapsto> v))"
  by (auto simp: db_replace_def split: option.splits)

lemma db_replace_counter [simp]: "db_ID (db_replace rid v d) = db_ID d"
  by (simp add: db_replace_def split: option.splits)

lemma db_replace_ok [inv_intros]: "db_ok rid d \<Longrightarrow> db_ok rid (db_replace rid v d)"
  using db_ok_put [of rid d v] by (simp add: db_replace_def split: option.splits)

lemma insert_table_db:
  assumes "\<And>i v. rid (set_rid i v) = i" and "save = db_insert set_rid"
  shows "insert_table rid db_get db_ID (db_ok rid) save"
proof (unfold_locales, unfold assms(2))
  fix r v w r' i
  assume ok: "db_ok rid r"
  show "db_get r i = Some v \<Longrightarrow> rid v = i \<and> 0 < i \<and> i \<le> db_ID r"
    using db_get_bounds [OF ok] by blast
  assume ins: "db_insert set_rid v r = (w, r')"
  then show "rid w = db_ID r + 1" "db_ID r' = db_ID r + 1" "db_get r' = (db_get r)(rid w \<mapsto> w)"
    by (auto simp: db_insert_def assms(1))
  show "db_ok rid r'"
    using ins db_ok_insert [OF ok, of "set_rid (db_ID r + 1) v"]
    by (auto simp: db_insert_def assms(1))
qed

lemma row_table_db:
  assumes "\<And>i v. rid (set_rid i v) = i"
    and "save = db_insert set_rid" "update = db_replace rid"
  shows "row_table rid db_get db_ID (db_ok rid) save update"
proof (rule row_table.intro)
  show "insert_table rid db_get db_ID (db_ok rid) save"
    by (rule insert_table_db [OF assms(1,2)])
  show "row_table_axioms rid db_get db_ID (db_ok rid) update"
    unfolding assms(3)
    by unfold_locales (simp_all add: db_replace_get db_replace_ok)
qed

section \<open>Pages of rows\<close>

text \<open>
  The list queries of the repositories: the rows that satisfy a filter, below the key
  \<open>lastID\<close> when that is positive, newest first, at most \<open>limit\<close> of them, and nothing for a
  limit that is not positive.
\<close>

definition after_cursor :: "('v \<Rightarrow> int) \<Rightarrow> int \<Rightarrow> 'v \<Rightarrow> bool" where
  "after_cursor rid lastID v \<longleftrightarrow> \<not> (0 < lastID \<and> lastID \<le> rid v)"

definition page_of :: "('v \<Rightarrow> int) \<Rightarrow> int \<Rightarrow> int \<Rightarrow> 'v list \<Rightarrow> 'v list" where
  "page_of rid limit lastID vs =
     take_int limit (filter (after_cursor rid lastID) (newest_first rid vs))"

lemma page_of_filter:
  "take_int limit (newest_first rid (filter (\<lambda>v. P v \<and> after_cursor rid lastID v) vs)) =
    page_of rid limit lastID (filter P vs)"
  by (simp add: page_of_def filter_newest_first filter_filter conj_commute)

lemma page_of_perm:
  "distinct (map rid vs) \<Longrightarrow> mset vs = mset ws \<Longrightarrow>
    page_of rid limit lastID vs = page_of rid limit lastID ws"
  by (simp add: page_of_def newest_first_perm)

lemma page_of_members: "v \<in> set (page_of rid limit lastID vs) \<Longrightarrow> v \<in> set vs"
  using set_take_int by (fastforce simp: page_of_def)

end
