(* ===== verification/Pagination.thy ===== *)
theory Pagination
  imports GoStrings Errors Tables
begin

text \<open>
  Cursor pagination of \<open>service/common\<close>: the limit checks, the opaque cursor and the page
  loader. \<open>cursor_source\<close> is the contract of the list queries the services hand to the
  loader; inside it, following \<open>NextCursor\<close> from the empty cursor is proved to visit every
  row exactly once, newest first. The repositories interpret it for each of their list queries.
\<close>

definition MaxPageLimit :: int where
  "MaxPageLimit = 1000"

definition RequirePositiveLimit :: "int \<Rightarrow> go_error option" where
  "RequirePositiveLimit limit =
     (if limit < 1 \<or> limit > MaxPageLimit then Some (Sentinel ErrInvalidInput) else None)"

definition CursorFetchLimit :: "int \<Rightarrow> go_error + int" where
  "CursorFetchLimit limit =
     (case RequirePositiveLimit limit of Some e \<Rightarrow> Inl e | None \<Rightarrow> Inr (limit + 1))"

definition cursorPrefix :: string where
  "cursorPrefix = ''v1:''"

definition EncodeOpaqueCursor :: "int \<Rightarrow> string" where
  "EncodeOpaqueCursor lastID = EncodeToString (cursorPrefix @ FormatInt lastID)"

definition DecodeOpaqueCursor :: "string \<Rightarrow> go_error + int" where
  "DecodeOpaqueCursor raw_cursor =
     (let cursor = TrimSpace raw_cursor in
      if cursor = [] then Inr 0
      else case DecodeString cursor of
             None \<Rightarrow> Inl (Sentinel ErrInvalidInput)
           | Some decoded \<Rightarrow>
               if \<not> has_prefix decoded cursorPrefix then Inl (Sentinel ErrInvalidInput)
               else case ParseInt (drop (length cursorPrefix) decoded) of
                      None \<Rightarrow> Inl (Sentinel ErrInvalidInput)
                    | Some lastID \<Rightarrow>
                        if lastID < 0 then Inl (Sentinel ErrInvalidInput) else Inr lastID)"

record 'a cursor_list_page =
  page_Items :: "'a list"
  page_Cursor :: string
  page_HasMore :: bool
  page_NextCursor :: "string option"

definition LoadCursorListPage ::
  "int \<Rightarrow> string \<Rightarrow> (go_error + 'a list) \<Rightarrow> ('a \<Rightarrow> int) \<Rightarrow> go_error + 'a cursor_list_page" where
  "LoadCursorListPage limit cursor fetch itemID =
     (case fetch of
        Inl e \<Rightarrow> Inl e
      | Inr fetched \<Rightarrow>
          let hasMore = (limit < int (length fetched));
              items = (if hasMore then take (nat limit) fetched else fetched);
              nextCursor = (if hasMore \<and> items \<noteq> []
                            then Some (EncodeOpaqueCursor (itemID (last items))) else None)
          in Inr \<lparr>page_Items = items, page_Cursor = cursor, page_HasMore = hasMore,
                  page_NextCursor = nextCursor\<rparr>)"

text \<open>
  A client that reads pages of \<open>limit\<close> rows from the cursor on, following \<open>NextCursor\<close>;
  \<open>fetch\<close> is the list query and receives one more than the page size, as the services do.
  \<open>None\<close> is running out of fuel.
\<close>

fun walk_pages ::
  "nat \<Rightarrow> int \<Rightarrow> (int \<Rightarrow> int \<Rightarrow> 'a list) \<Rightarrow> ('a \<Rightarrow> int) \<Rightarrow> string \<Rightarrow> (go_error + 'a list) option" where
  "walk_pages 0 limit fetch itemID cursor = None"
| "walk_pages (Suc fuel) limit fetch itemID cursor =
     (case DecodeOpaqueCursor cursor of
        Inl e \<Rightarrow> Some (Inl e)
      | Inr lastID \<Rightarrow>
          case CursorFetchLimit limit of
            Inl e \<Rightarrow> Some (Inl e)
          | Inr fetchLimit \<Rightarrow>
              case LoadCursorListPage limit cursor (Inr (fetch fetchLimit lastID)) itemID of
                Inl e \<Rightarrow> Some (Inl e)
              | Inr page \<Rightarrow>
                  case page_NextCursor page of
                    None \<Rightarrow> Some (Inr (page_Items page))
                  | Some next \<Rightarrow>
                      map_option (map_sum id ((@) (page_Items page)))
                        (walk_pages fuel limit fetch itemID next))"

section \<open>The cursor round trip\<close>

lemma has_prefix_append [simp]: "has_prefix (p @ s) p"
  by (simp add: has_prefix_def)

lemma Decode_Encode_cursor:
  "DecodeOpaqueCursor (EncodeOpaqueCursor i) =
    (if - (2 ^ 63) \<le> i \<and> i < 2 ^ 63 \<and> 0 \<le> i then Inr i else
     if - (2 ^ 63) \<le> i \<and> i < 2 ^ 63 then Inl (Sentinel ErrInvalidInput)
     else DecodeOpaqueCursor (EncodeOpaqueCursor i))"
proof (cases "- (2 ^ 63) \<le> i \<and> i < 2 ^ 63")
  case True
  have t: "TrimSpace (EncodeOpaqueCursor i) = EncodeOpaqueCursor i"
    unfolding EncodeOpaqueCursor_def by (rule TrimSpace_plain [OF EncodeToString_plain])
  have n: "EncodeOpaqueCursor i \<noteq> []"
    by (simp add: EncodeOpaqueCursor_def EncodeToString_Nil_iff cursorPrefix_def)
  have d: "DecodeString (EncodeOpaqueCursor i) = Some (cursorPrefix @ FormatInt i)"
    by (simp add: EncodeOpaqueCursor_def DecodeString_EncodeToString)
  show ?thesis
    using True t n d ParseInt_FormatInt [of i] by (simp add: DecodeOpaqueCursor_def Let_def)
qed auto

text \<open>
  The opaque cursor round trip. A non-negative \<open>int64\<close> survives encoding and decoding,
  a negative one is refused, and a blank cursor means the first page.
\<close>

theorem cursor_roundtrip:
  "(0 \<le> i \<and> i < 2 ^ 63 \<longrightarrow> DecodeOpaqueCursor (EncodeOpaqueCursor i) = Inr i) \<and>
   (- (2 ^ 63) \<le> i \<and> i < 0 \<longrightarrow>
      DecodeOpaqueCursor (EncodeOpaqueCursor i) = Inl (Sentinel ErrInvalidInput)) \<and>
   (TrimSpace c = [] \<longrightarrow> DecodeOpaqueCursor c = Inr 0)"
  using Decode_Encode_cursor [of i] by (auto simp: DecodeOpaqueCursor_def)

theorem cursor_roundtrip_witness:
  "DecodeOpaqueCursor (EncodeOpaqueCursor 42) = Inr 42 \<and>
   DecodeOpaqueCursor (EncodeOpaqueCursor (- 7)) = Inl (Sentinel ErrInvalidInput) \<and>
   DecodeOpaqueCursor [] = Inr 0"
  using cursor_roundtrip [of 42 "[]"] cursor_roundtrip [of "- 7" "[]"] by simp

section \<open>Walking the pages\<close>

lemma filter_below_nth:
  fixes rid :: "'a \<Rightarrow> int"
  assumes "sorted_wrt (\<lambda>x y. rid x > rid y) L" "n < length L"
  shows "filter (\<lambda>x. rid x < rid (L ! n)) L = drop (Suc n) L"
  using assms
proof (induction L arbitrary: n)
  case Nil
  then show ?case by simp
next
  case (Cons x L)
  show ?case
  proof (cases n)
    case 0
    with Cons.prems show ?thesis by simp
  next
    case (Suc m)
    have "\<not> rid x < rid (L ! m)" using Cons.prems Suc by (simp add: not_less order_less_imp_le)
    with Cons Suc show ?thesis by simp
  qed
qed

locale cursor_source =
  fixes inv :: "'s \<Rightarrow> bool"
    and fetch :: "'s \<Rightarrow> int \<Rightarrow> int \<Rightarrow> 'a list"
    and item_id :: "'a \<Rightarrow> int"
    and universe :: "'s \<Rightarrow> 'a list"
  assumes fetch_page: "inv s \<Longrightarrow> 0 < limit \<Longrightarrow>
      fetch s limit lastID = page_of item_id limit lastID (universe s)"
    and distinct_ids: "inv s \<Longrightarrow> distinct (map item_id (universe s))"
    and id_bounds: "inv s \<Longrightarrow> x \<in> set (universe s) \<Longrightarrow> 0 < item_id x \<and> item_id x < 2 ^ 63"
begin

definition remaining :: "'s \<Rightarrow> int \<Rightarrow> 'a list" where
  "remaining s lastID = filter (after_cursor item_id lastID) (newest_first item_id (universe s))"

lemma remaining_desc: "inv s \<Longrightarrow> sorted_wrt (\<lambda>x y. item_id x > item_id y) (remaining s lastID)"
  unfolding remaining_def by (rule sorted_wrt_filter [OF sorted_newest_first [OF distinct_ids]])

lemma remaining_next:
  assumes "inv s" "n < length (remaining s lastID)"
  shows "remaining s (item_id (remaining s lastID ! n)) = drop (Suc n) (remaining s lastID)"
proof -
  let ?L = "remaining s lastID" and ?x = "remaining s lastID ! n"
  have x: "?x \<in> set ?L" using assms by simp
  then have u: "?x \<in> set (universe s)" and a: "after_cursor item_id lastID ?x"
    by (simp_all add: remaining_def)
  then have pos: "0 < item_id ?x" using id_bounds [OF assms(1)] by blast
  have cut: "after_cursor item_id (item_id ?x) =
      (\<lambda>y. after_cursor item_id lastID y \<and> item_id y < item_id ?x)"
    using a pos by (auto simp: after_cursor_def)
  have "remaining s (item_id ?x) = filter (\<lambda>y. item_id y < item_id ?x) ?L"
    unfolding remaining_def [of s "item_id ?x"] cut by (simp add: remaining_def [of s lastID])
  also have "\<dots> = drop (Suc n) ?L"
    by (rule filter_below_nth [OF remaining_desc [OF assms(1)] assms(2)])
  finally show ?thesis .
qed

lemma load_page:
  assumes "inv s" "1 \<le> limit"
  shows "LoadCursorListPage limit cursor (Inr (fetch s (limit + 1) lastID)) item_id =
    Inr \<lparr>page_Items = take (nat limit) (remaining s lastID), page_Cursor = cursor,
         page_HasMore = (nat limit < length (remaining s lastID)),
         page_NextCursor =
           (if nat limit < length (remaining s lastID)
            then Some (EncodeOpaqueCursor (item_id (remaining s lastID ! (nat limit - 1)))) else None)\<rparr>"
proof -
  let ?L = "remaining s lastID"
  have f: "fetch s (limit + 1) lastID = take (Suc (nat limit)) ?L"
    using assms(2) fetch_page [OF assms(1), of "limit + 1" lastID]
    by (simp add: page_of_def remaining_def take_int_def nat_add_distrib)
  show ?thesis
  proof (cases "nat limit < length ?L")
    case True
    then have more: "limit < int (length (take (Suc (nat limit)) ?L))" using assms(2) by simp
    have "take (nat limit) ?L \<noteq> []" "nat limit \<noteq> 0" using True assms(2) by auto
    then have "last (take (nat limit) ?L) = ?L ! (nat limit - 1)"
      using True by (simp add: last_conv_nth)
    moreover have "?L \<noteq> []" using True by auto
    ultimately show ?thesis
      using True more assms(2) \<open>nat limit \<noteq> 0\<close> by (simp add: LoadCursorListPage_def f min_def)
  next
    case False
    then have "\<not> limit < int (length ?L)" using assms(2) by linarith
    with False show ?thesis by (simp add: LoadCursorListPage_def f Let_def)
  qed
qed

lemma walk_from:
  assumes "inv s" "1 \<le> limit" "limit \<le> MaxPageLimit"
  shows "DecodeOpaqueCursor cursor = Inr lastID \<Longrightarrow> length (remaining s lastID) < fuel \<Longrightarrow>
    walk_pages fuel limit (fetch s) item_id cursor = Some (Inr (remaining s lastID))"
proof (induction fuel arbitrary: cursor lastID)
  case 0
  then show ?case by simp
next
  case (Suc fuel)
  let ?L = "remaining s lastID"
  have fl: "CursorFetchLimit limit = Inr (limit + 1)"
    using assms by (simp add: CursorFetchLimit_def RequirePositiveLimit_def)
  show ?case
  proof (cases "nat limit < length ?L")
    case True
    let ?x = "?L ! (nat limit - 1)"
    have n: "Suc (nat limit - 1) = nat limit" using assms(2) by simp
    have "?x \<in> set ?L" using True by (intro nth_mem) simp
    then have b: "0 < item_id ?x" "item_id ?x < 2 ^ 63"
      using id_bounds [OF assms(1)] by (auto simp: remaining_def)
    have next_rest: "remaining s (item_id ?x) = drop (nat limit) ?L"
      using remaining_next [OF assms(1), of "nat limit - 1" lastID] True n by simp
    have "DecodeOpaqueCursor (EncodeOpaqueCursor (item_id ?x)) = Inr (item_id ?x)"
      using Decode_Encode_cursor [of "item_id ?x"] b by simp
    moreover have "length (remaining s (item_id ?x)) < fuel"
      using next_rest Suc.prems(2) True assms(2) by simp
    ultimately have "walk_pages fuel limit (fetch s) item_id (EncodeOpaqueCursor (item_id ?x)) =
        Some (Inr (drop (nat limit) ?L))"
      using Suc.IH next_rest by simp
    with True Suc.prems(1) show ?thesis
      by (simp add: fl load_page [OF assms(1,2)])
  next
    case False
    with Suc.prems(1) show ?thesis by (simp add: fl load_page [OF assms(1,2)])
  qed
qed

lemma walk_all:
  assumes "inv s" "1 \<le> limit" "limit \<le> MaxPageLimit" "length (universe s) < fuel"
  shows "walk_pages fuel limit (fetch s) item_id [] = Some (Inr (newest_first item_id (universe s)))"
proof -
  have "remaining s 0 = newest_first item_id (universe s)"
    by (simp add: remaining_def after_cursor_def)
  with assms walk_from [OF assms(1-3), of "[]" 0 fuel] show ?thesis
    by (simp add: DecodeOpaqueCursor_def)
qed

end

end
