(* ===== verification/RepoBoard.thy ===== *)
theory RepoBoard
  imports Entities Pagination
begin

text \<open>
  \<open>persistence/inmemory/boardRepository.go\<close>. A method is the function that holds the lock and
  does the work together with its public wrapper, which only enters the transaction
  coordinator. Cloning a row is the identity on values. \<open>save\<close> returns the row with its new
  key, which the Go method also writes into the caller's object.
\<close>

type_synonym board_repo = "board db"

definition selectBoardByID :: "int \<Rightarrow> board_repo \<Rightarrow> board option" where
  "selectBoardByID i r = db_get r i"

definition selectBoardsByIDs :: "int list \<Rightarrow> board_repo \<Rightarrow> (int \<times> board) list" where
  "selectBoardsByIDs ids r =
     fold (\<lambda>i selected. case db_get r i of Some b \<Rightarrow> put_row i b selected | None \<Rightarrow> selected) ids []"

definition selectBoardByUUID :: "string \<Rightarrow> board_repo \<Rightarrow> board option" where
  "selectBoardByUUID boardUUID r = find (\<lambda>b. board_UUID b = boardUUID) (db_rows r)"

definition selectBoardList :: "int \<Rightarrow> int \<Rightarrow> board_repo \<Rightarrow> board list" where
  "selectBoardList limit lastID r =
     (if limit \<le> 0 then []
      else take_int limit (newest_first board_ID
             (filter (\<lambda>b. \<not> board_Hidden b \<and> \<not> (0 < lastID \<and> lastID \<le> board_ID b)) (db_rows r))))"

definition selectBoardListIncludingHidden :: "int \<Rightarrow> int \<Rightarrow> board_repo \<Rightarrow> board list" where
  "selectBoardListIncludingHidden limit lastID r =
     (if limit \<le> 0 then []
      else take_int limit (newest_first board_ID
             (filter (\<lambda>b. \<not> (0 < lastID \<and> lastID \<le> board_ID b)) (db_rows r))))"

definition Board_save :: "board \<Rightarrow> board_repo \<Rightarrow> board \<times> board_repo" where
  "Board_save b r =
     (let newID = db_ID r + 1; saved = b\<lparr>board_ID := newID\<rparr>
      in (saved, r\<lparr>db_ID := newID, db_Data := put_row newID saved (db_Data r)\<rparr>))"

definition Board_update :: "board \<Rightarrow> board_repo \<Rightarrow> board_repo" where
  "Board_update b r =
     (case db_get r (board_ID b) of
        Some _ \<Rightarrow> r\<lparr>db_Data := put_row (board_ID b) b (db_Data r)\<rparr>
      | None \<Rightarrow> r)"

definition Board_delete :: "int \<Rightarrow> board_repo \<Rightarrow> board_repo" where
  "Board_delete i r = r\<lparr>db_Data := del_row i (db_Data r)\<rparr>"

definition Board_snapshot :: "board_repo \<Rightarrow> board_repo" where
  "Board_snapshot r = \<lparr>db_ID = db_ID r, db_Data = db_Data r\<rparr>"

definition Board_restore :: "board_repo \<Rightarrow> board_repo \<Rightarrow> board_repo" where
  "Board_restore state r = r\<lparr>db_ID := db_ID state, db_Data := db_Data state\<rparr>"

lemma Board_restore_snapshot [simp]: "Board_restore (Board_snapshot s) r = s"
  by (simp add: Board_restore_def Board_snapshot_def)

lemma Board_delete_ok [inv_intros]: "db_ok board_ID r \<Longrightarrow> db_ok board_ID (Board_delete i r)"
  by (simp add: Board_delete_def inv_intros)

interpretation boards: row_table board_ID db_get db_ID "db_ok board_ID" Board_save Board_update
  by (rule row_table_db [where set_rid = "\<lambda>i b. b\<lparr>board_ID := i\<rparr>"])
    (simp_all add: fun_eq_iff db_insert_def Board_save_def db_replace_def Board_update_def Let_def)

text \<open>The two list queries are sources of cursor pages.\<close>

lemma selectBoardList_page:
  "0 < limit \<Longrightarrow> selectBoardList limit lastID r =
    page_of board_ID limit lastID (filter (\<lambda>b. \<not> board_Hidden b) (db_rows r))"
  by (simp add: selectBoardList_def page_of_filter [symmetric] after_cursor_def)

lemma selectBoardListIncludingHidden_page:
  "0 < limit \<Longrightarrow>
    selectBoardListIncludingHidden limit lastID r = page_of board_ID limit lastID (db_rows r)"
  using page_of_filter [of limit board_ID "\<lambda>_. True" lastID "db_rows r"]
  by (simp add: selectBoardListIncludingHidden_def after_cursor_def)

end
