(* ===== verification/RepoPost.thy ===== *)
theory RepoPost
  imports Entities Pagination
begin

text \<open>
  \<open>persistence/inmemory/postRepository.go\<close>, \<open>tagRepository.go\<close> and
  \<open>postTagRepository.go\<close>. Deleting a post is a soft delete; published, unpublished and
  deleted posts are told apart by their status in every query. The queries by tag name read the
  tag and post-tag repositories that the constructor attached (\<open>NewUnitOfWork\<close> and
  \<open>main.go\<close> always attach them), which are arguments here. A tag name has one tag.
\<close>

section \<open>Tags\<close>

record tag_repo =
  tag_db :: "tag db"
  tag_NameTo :: "(string \<times> int) list"

text \<open>
  \<open>save\<close> of a name that exists answers the existing key and leaves the caller's object
  alone; otherwise the object gets the new key. The result is the key, the object and the
  repository.
\<close>

definition Tag_save :: "tag \<Rightarrow> tag_repo \<Rightarrow> (int \<times> tag) \<times> tag_repo" where
  "Tag_save t r =
     (case map_of (tag_NameTo r) (tag_Name t) of
        Some i \<Rightarrow> ((i, t), r)
      | None \<Rightarrow>
          let newID = db_ID (tag_db r) + 1; t' = t\<lparr>tag_ID := newID\<rparr>
          in ((newID, t'),
              r\<lparr>tag_db := (tag_db r)\<lparr>db_ID := newID, db_Data := put_row newID t' (db_Data (tag_db r))\<rparr>,
                tag_NameTo := put_row (tag_Name t) newID (tag_NameTo r)\<rparr>))"

definition Tag_selectByName :: "string \<Rightarrow> tag_repo \<Rightarrow> tag option" where
  "Tag_selectByName name r =
     (case map_of (tag_NameTo r) name of None \<Rightarrow> None | Some i \<Rightarrow> db_get (tag_db r) i)"

definition Tag_selectByIDs :: "int list \<Rightarrow> tag_repo \<Rightarrow> tag list" where
  "Tag_selectByIDs ids r = List.map_filter (db_get (tag_db r)) ids"

definition Tag_snapshot :: "tag_repo \<Rightarrow> tag_repo" where
  "Tag_snapshot r = \<lparr>tag_db = tag_db r, tag_NameTo = tag_NameTo r\<rparr>"

definition Tag_restore :: "tag_repo \<Rightarrow> tag_repo \<Rightarrow> tag_repo" where
  "Tag_restore state r = r\<lparr>tag_db := tag_db state, tag_NameTo := tag_NameTo state\<rparr>"

lemma Tag_restore_snapshot [simp]: "Tag_restore (Tag_snapshot s) r = s"
  by (simp add: Tag_restore_def Tag_snapshot_def)

definition tag_repo_ok :: "tag_repo \<Rightarrow> bool" where
  "tag_repo_ok r \<longleftrightarrow> db_ok tag_ID (tag_db r) \<and>
     (\<forall>name i. map_of (tag_NameTo r) name = Some i \<longleftrightarrow>
        (\<exists>t. db_get (tag_db r) i = Some t \<and> tag_Name t = name))"

lemma Tag_save_ok:
  assumes "tag_repo_ok r" "Tag_save t r = (res, r')"
  shows "tag_repo_ok r'"
proof (cases "map_of (tag_NameTo r) (tag_Name t)")
  case (Some i)
  with assms show ?thesis by (simp add: Tag_save_def)
next
  case None
  let ?d = "tag_db r" and ?i = "db_ID (tag_db r) + 1"
  have ok: "db_ok tag_ID ?d" using assms(1) by (simp add: tag_repo_ok_def)
  let ?d' = "?d\<lparr>db_ID := ?i, db_Data := put_row ?i (t\<lparr>tag_ID := ?i\<rparr>) (db_Data ?d)\<rparr>"
  have r': "tag_db r' = ?d'" "tag_NameTo r' = put_row (tag_Name t) ?i (tag_NameTo r)"
    using assms(2) None by (auto simp: Tag_save_def Let_def)
  have ok': "db_ok tag_ID ?d'" by (rule db_ok_insert [OF ok]) simp
  have idx: "map_of (tag_NameTo r) name = Some j \<longleftrightarrow>
      (\<exists>u. db_get ?d j = Some u \<and> tag_Name u = name)" for name j
    using assms(1) by (simp add: tag_repo_ok_def)
  have new: "map_of (tag_NameTo r) name \<noteq> Some ?i" "db_get ?d j = Some u \<Longrightarrow> tag_Name u \<noteq> tag_Name t"
    for name j u
    using idx [of name ?i] idx [of "tag_Name t" j] db_fresh [OF ok] None by auto
  have "map_of (tag_NameTo r') name = Some j \<longleftrightarrow>
      (\<exists>u. db_get (tag_db r') j = Some u \<and> tag_Name u = name)" for name j
  proof (cases "j = ?i")
    case True
    with new(1) [of name] show ?thesis by (auto simp: r')
  next
    case False
    with new(2) [of j] idx [of name j] show ?thesis by (auto simp: r')
  qed
  with ok' r'(1) show ?thesis by (simp add: tag_repo_ok_def)
qed

lemma Tag_save_found:
  assumes "tag_repo_ok r" "Tag_save t r = ((i, t'), r')"
  shows "\<exists>u. Tag_selectByName (tag_Name t) r' = Some u \<and> tag_ID u = i \<and> tag_Name u = tag_Name t"
proof (cases "map_of (tag_NameTo r) (tag_Name t)")
  case (Some j)
  with assms obtain u where "db_get (tag_db r) j = Some u" "tag_Name u = tag_Name t"
    by (auto simp: tag_repo_ok_def)
  moreover from this have "tag_ID u = j"
    using assms(1) by (auto simp: tag_repo_ok_def dest: db_get_bounds)
  ultimately show ?thesis
    using Some assms(2) by (simp add: Tag_save_def Tag_selectByName_def)
next
  case None
  with assms(2) show ?thesis by (auto simp: Tag_save_def Tag_selectByName_def Let_def)
qed

section \<open>Post tags\<close>

type_synonym post_tag_repo = "((int \<times> int) \<times> post_tag) list"

definition selectActiveByPostID :: "int \<Rightarrow> post_tag_repo \<Rightarrow> post_tag list" where
  "selectActiveByPostID postID r =
     sort_key (\<lambda>p. (pt_TagID p))
       (filter (\<lambda>p. pt_PostID p = postID \<and> pt_Status p = PostTagStatusActive) (row_values r))"

definition selectActiveByTagID :: "int \<Rightarrow> int \<Rightarrow> int \<Rightarrow> post_tag_repo \<Rightarrow> post_tag list" where
  "selectActiveByTagID tagID limit lastID r =
     (if limit \<le> 0 then []
      else take_int limit (newest_first pt_PostID
             (filter (\<lambda>p. pt_TagID p = tagID \<and> pt_Status p = PostTagStatusActive \<and>
                          \<not> (0 < lastID \<and> lastID \<le> pt_PostID p)) (row_values r))))"

definition selectActivePostIDSetByTagID :: "int \<Rightarrow> post_tag_repo \<Rightarrow> int list" where
  "selectActivePostIDSetByTagID tagID r =
     map pt_PostID
       (filter (\<lambda>p. pt_TagID p = tagID \<and> pt_Status p = PostTagStatusActive) (row_values r))"

definition upsertActive :: "time \<Rightarrow> int \<Rightarrow> int \<Rightarrow> post_tag_repo \<Rightarrow> post_tag_repo" where
  "upsertActive now postID tagID r =
     (case map_of r (postID, tagID) of
        Some p \<Rightarrow> put_row (postID, tagID) (Activate p) r
      | None \<Rightarrow> put_row (postID, tagID) (NewPostTag now postID tagID) r)"

definition PostTag_softDelete :: "int \<Rightarrow> int \<Rightarrow> post_tag_repo \<Rightarrow> post_tag_repo" where
  "PostTag_softDelete postID tagID r =
     (case map_of r (postID, tagID) of
        None \<Rightarrow> r
      | Some p \<Rightarrow> put_row (postID, tagID) (PostTag_SoftDelete p) r)"

definition softDeleteByPostID :: "int \<Rightarrow> post_tag_repo \<Rightarrow> post_tag_repo" where
  "softDeleteByPostID postID r =
     map (\<lambda>(key, p). (key, if pt_PostID p \<noteq> postID then p else PostTag_SoftDelete p)) r"

definition PostTag_snapshot :: "post_tag_repo \<Rightarrow> post_tag_repo" where
  "PostTag_snapshot r = r"

definition PostTag_restore :: "post_tag_repo \<Rightarrow> post_tag_repo \<Rightarrow> post_tag_repo" where
  "PostTag_restore state r = state"

lemma PostTag_restore_snapshot [simp]: "PostTag_restore (PostTag_snapshot s) r = s"
  by (simp add: PostTag_restore_def PostTag_snapshot_def)

definition post_tags_ok :: "post_tag_repo \<Rightarrow> bool" where
  "post_tags_ok r \<longleftrightarrow> distinct (map fst r) \<and>
     (\<forall>(key, p) \<in> set r. key = (pt_PostID p, pt_TagID p))"

text \<open>The tags a post carries: what \<open>selectActiveByPostID\<close> lists.\<close>

definition active_tags :: "post_tag_repo \<Rightarrow> int \<Rightarrow> int set" where
  "active_tags r postID =
     {tagID. \<exists>p. map_of r (postID, tagID) = Some p \<and> pt_Status p = PostTagStatusActive}"

lemma PostTag_fields [simp]:
  "pt_PostID (Activate p) = pt_PostID p" "pt_TagID (Activate p) = pt_TagID p"
  "pt_Status (Activate p) = PostTagStatusActive"
  "pt_PostID (PostTag_SoftDelete p) = pt_PostID p" "pt_TagID (PostTag_SoftDelete p) = pt_TagID p"
  "pt_Status (PostTag_SoftDelete p) = PostTagStatusDeleted"
  "pt_PostID (NewPostTag now i j) = i" "pt_TagID (NewPostTag now i j) = j"
  "pt_Status (NewPostTag now i j) = PostTagStatusActive"
  by (simp_all add: Activate_def PostTag_SoftDelete_def NewPostTag_def)

lemma post_tags_put:
  "post_tags_ok r \<Longrightarrow> pt_PostID p = i \<Longrightarrow> pt_TagID p = j \<Longrightarrow> post_tags_ok (put_row (i, j) p r)"
  by (auto simp: post_tags_ok_def distinct_put_row set_put_row)

lemma post_tags_key:
  "post_tags_ok r \<Longrightarrow> map_of r (i, j) = Some p \<Longrightarrow> pt_PostID p = i \<and> pt_TagID p = j"
  by (auto simp: post_tags_ok_def dest!: map_of_SomeD)

lemma upsertActive_ok [inv_intros]:
  "post_tags_ok r \<Longrightarrow> post_tags_ok (upsertActive now postID tagID r)"
  using post_tags_key [of r postID tagID]
  by (cases "map_of r (postID, tagID)") (auto simp: upsertActive_def intro: post_tags_put)

lemma PostTag_softDelete_ok [inv_intros]:
  "post_tags_ok r \<Longrightarrow> post_tags_ok (PostTag_softDelete postID tagID r)"
  using post_tags_key [of r postID tagID]
  by (cases "map_of r (postID, tagID)") (auto simp: PostTag_softDelete_def intro: post_tags_put)

lemma softDeleteByPostID_ok [inv_intros]:
  "post_tags_ok r \<Longrightarrow> post_tags_ok (softDeleteByPostID postID r)"
  by (auto simp: post_tags_ok_def softDeleteByPostID_def comp_def case_prod_beta split: if_splits)

lemma map_of_softDeleteByPostID:
  "map_of (softDeleteByPostID postID r) key =
    map_option (\<lambda>p. if pt_PostID p \<noteq> postID then p else PostTag_SoftDelete p) (map_of r key)"
  by (simp add: softDeleteByPostID_def map_of_map)

lemma active_tags_upsert:
  "active_tags (upsertActive now postID tagID r) q =
    (if q = postID then insert tagID (active_tags r q) else active_tags r q)"
  by (auto simp: active_tags_def upsertActive_def split: option.splits if_splits)

lemma active_tags_softDelete:
  "active_tags (PostTag_softDelete postID tagID r) q =
    (if q = postID then active_tags r q - {tagID} else active_tags r q)"
  by (auto simp: active_tags_def PostTag_softDelete_def split: option.splits if_splits)

lemma active_tags_softDeleteByPostID:
  assumes "post_tags_ok r"
  shows "active_tags (softDeleteByPostID postID r) q = (if q = postID then {} else active_tags r q)"
proof -
  have "t \<in> active_tags (softDeleteByPostID postID r) q \<longleftrightarrow> q \<noteq> postID \<and> t \<in> active_tags r q" for t
  proof (cases "map_of r (q, t)")
    case None
    then show ?thesis by (simp add: active_tags_def map_of_softDeleteByPostID)
  next
    case (Some p)
    with post_tags_key [OF assms] have "pt_PostID p = q" by blast
    with Some show ?thesis by (simp add: active_tags_def map_of_softDeleteByPostID)
  qed
  then show ?thesis by (cases "q = postID") auto
qed

lemma post_tags_row:
  assumes "post_tags_ok r"
  shows "p \<in> snd ` set r \<longleftrightarrow> map_of r (pt_PostID p, pt_TagID p) = Some p"
proof
  assume "p \<in> snd ` set r"
  then obtain key where k: "(key, p) \<in> set r" by auto
  then have "key = (pt_PostID p, pt_TagID p)" using assms by (auto simp: post_tags_ok_def)
  with k assms show "map_of r (pt_PostID p, pt_TagID p) = Some p"
    by (simp add: post_tags_ok_def)
next
  assume "map_of r (pt_PostID p, pt_TagID p) = Some p"
  then show "p \<in> snd ` set r" by (force dest: map_of_SomeD)
qed

lemma set_selectActiveByPostID:
  assumes "post_tags_ok r"
  shows "pt_TagID ` set (selectActiveByPostID postID r) = active_tags r postID"
proof (rule set_eqI, rule iffI)
  fix t
  assume "t \<in> pt_TagID ` set (selectActiveByPostID postID r)"
  then obtain p where p: "p \<in> snd ` set r" "pt_PostID p = postID" "pt_Status p = PostTagStatusActive"
      "t = pt_TagID p"
    by (auto simp: selectActiveByPostID_def)
  with post_tags_row [OF assms, of p] show "t \<in> active_tags r postID"
    by (simp add: active_tags_def)
next
  fix t
  assume "t \<in> active_tags r postID"
  then obtain p where p: "map_of r (postID, t) = Some p" "pt_Status p = PostTagStatusActive"
    by (auto simp: active_tags_def)
  then have k: "pt_PostID p = postID" "pt_TagID p = t"
    using post_tags_key [OF assms] by blast+
  then have "p \<in> snd ` set r" using post_tags_row [OF assms, of p] p by simp
  then show "t \<in> pt_TagID ` set (selectActiveByPostID postID r)"
    using k p(2) by (intro image_eqI [where x = p]) (simp_all add: selectActiveByPostID_def)
qed

section \<open>Posts\<close>

type_synonym post_repo = "post db"

definition Post_save :: "post \<Rightarrow> post_repo \<Rightarrow> post \<times> post_repo" where
  "Post_save p r =
     (let newID = db_ID r + 1; saved = p\<lparr>post_ID := newID\<rparr>
      in (saved, r\<lparr>db_ID := newID, db_Data := put_row newID saved (db_Data r)\<rparr>))"

definition CountDraftPostsByAuthorID :: "int \<Rightarrow> post_repo \<Rightarrow> int" where
  "CountDraftPostsByAuthorID authorID r =
     int (length (filter (\<lambda>p. post_AuthorID p = authorID \<and> post_Status p = PostStatusDraft) (db_rows r)))"

definition SelectPostUUIDsByIDs :: "int list \<Rightarrow> post_repo \<Rightarrow> (int \<times> string) list" where
  "SelectPostUUIDsByIDs ids r =
     fold (\<lambda>i out. case db_get r i of
             Some p \<Rightarrow> if post_Status p = PostStatusDeleted then out else put_row i (post_UUID p) out
           | None \<Rightarrow> out) ids []"

definition SelectPostUUIDsByIDsIncludingDeleted :: "int list \<Rightarrow> post_repo \<Rightarrow> (int \<times> string) list" where
  "SelectPostUUIDsByIDsIncludingDeleted ids r =
     fold (\<lambda>i out. case db_get r i of Some p \<Rightarrow> put_row i (post_UUID p) out | None \<Rightarrow> out) ids []"

definition SelectPostsByIDsIncludingUnpublished :: "int list \<Rightarrow> post_repo \<Rightarrow> (int \<times> post) list" where
  "SelectPostsByIDsIncludingUnpublished ids r =
     fold (\<lambda>i out. case db_get r i of
             Some p \<Rightarrow> if post_Status p = PostStatusDeleted then out else put_row i p out
           | None \<Rightarrow> out) ids []"

definition selectPostByID :: "int \<Rightarrow> post_repo \<Rightarrow> post option" where
  "selectPostByID i r =
     (case db_get r i of
        Some p \<Rightarrow> if post_Status p = PostStatusPublished then Some p else None
      | None \<Rightarrow> None)"

definition selectPostByUUID :: "string \<Rightarrow> post_repo \<Rightarrow> post option" where
  "selectPostByUUID postUUID r =
     find (\<lambda>p. post_UUID p = postUUID \<and> post_Status p = PostStatusPublished) (db_rows r)"

definition selectDraftPostsByAuthorID :: "int \<Rightarrow> int \<Rightarrow> int \<Rightarrow> post_repo \<Rightarrow> post list" where
  "selectDraftPostsByAuthorID authorID limit lastID r =
     (if limit \<le> 0 then []
      else take_int limit (newest_first post_ID
             (filter (\<lambda>p. (post_AuthorID p = authorID \<and> post_Status p = PostStatusDraft) \<and>
                          \<not> (0 < lastID \<and> lastID \<le> post_ID p)) (db_rows r))))"

definition selectPostByIDIncludingUnpublished :: "int \<Rightarrow> post_repo \<Rightarrow> post option" where
  "selectPostByIDIncludingUnpublished i r =
     (case db_get r i of
        Some p \<Rightarrow> if post_Status p \<noteq> PostStatusDeleted then Some p else None
      | None \<Rightarrow> None)"

definition selectPostByUUIDIncludingUnpublished :: "string \<Rightarrow> post_repo \<Rightarrow> post option" where
  "selectPostByUUIDIncludingUnpublished postUUID r =
     find (\<lambda>p. post_UUID p = postUUID \<and> post_Status p \<noteq> PostStatusDeleted) (db_rows r)"

definition CountPublishedPosts :: "post_repo \<Rightarrow> int" where
  "CountPublishedPosts r =
     int (length (filter (\<lambda>p. post_Status p = PostStatusPublished) (db_rows r)))"

definition CountPublishedPostsByBoardID :: "int \<Rightarrow> post_repo \<Rightarrow> int" where
  "CountPublishedPostsByBoardID boardID r =
     int (length (filter (\<lambda>p. post_BoardID p = boardID \<and> post_Status p = PostStatusPublished) (db_rows r)))"

definition selectPosts :: "int \<Rightarrow> int \<Rightarrow> int \<Rightarrow> post_repo \<Rightarrow> post list" where
  "selectPosts boardID limit lastID r =
     (if limit \<le> 0 then []
      else take_int limit (newest_first post_ID
             (filter (\<lambda>p. (post_BoardID p = boardID \<and> post_Status p = PostStatusPublished) \<and>
                          \<not> (0 < lastID \<and> lastID \<le> post_ID p)) (db_rows r))))"

definition CountPublishedPostsByTagName ::
  "tag_repo \<Rightarrow> post_tag_repo \<Rightarrow> string \<Rightarrow> post_repo \<Rightarrow> int" where
  "CountPublishedPostsByTagName tags post_tags tagName r =
     (case Tag_selectByName tagName tags of
        None \<Rightarrow> 0
      | Some t \<Rightarrow>
          let activePostIDs = selectActivePostIDSetByTagID (tag_ID t) post_tags
          in int (length (filter (\<lambda>p. post_Status p = PostStatusPublished \<and>
                                       post_ID p \<in> set activePostIDs) (db_rows r))))"

definition selectPublishedPostsByTagName ::
  "tag_repo \<Rightarrow> post_tag_repo \<Rightarrow> string \<Rightarrow> int \<Rightarrow> int \<Rightarrow> post_repo \<Rightarrow> post list" where
  "selectPublishedPostsByTagName tags post_tags tagName limit lastID r =
     (if limit \<le> 0 then []
      else case Tag_selectByName tagName tags of
             None \<Rightarrow> []
           | Some t \<Rightarrow>
               let activePostIDs = selectActivePostIDSetByTagID (tag_ID t) post_tags
               in take_int limit (newest_first post_ID
                    (filter (\<lambda>p. (post_Status p = PostStatusPublished \<and>
                                  post_ID p \<in> set activePostIDs) \<and>
                                 \<not> (0 < lastID \<and> lastID \<le> post_ID p)) (db_rows r))))"

definition Post_ExistsByAuthorIDIncludingDeleted :: "int \<Rightarrow> post_repo \<Rightarrow> bool" where
  "Post_ExistsByAuthorIDIncludingDeleted authorID r \<longleftrightarrow>
     (\<exists>p \<in> set (db_rows r). post_AuthorID p = authorID)"

definition Post_ExistsByAuthorID :: "int \<Rightarrow> post_repo \<Rightarrow> bool" where
  "Post_ExistsByAuthorID authorID r \<longleftrightarrow>
     (\<exists>p \<in> set (db_rows r). post_AuthorID p = authorID \<and> post_Status p = PostStatusPublished)"

definition existsByBoardID :: "int \<Rightarrow> post_repo \<Rightarrow> bool" where
  "existsByBoardID boardID r \<longleftrightarrow>
     (\<exists>p \<in> set (db_rows r). post_BoardID p = boardID \<and> post_Status p \<noteq> PostStatusDeleted)"

definition Post_update :: "post \<Rightarrow> post_repo \<Rightarrow> post_repo" where
  "Post_update p r =
     (case db_get r (post_ID p) of
        Some _ \<Rightarrow> r\<lparr>db_Data := put_row (post_ID p) p (db_Data r)\<rparr>
      | None \<Rightarrow> r)"

definition Post_delete :: "time \<Rightarrow> int \<Rightarrow> post_repo \<Rightarrow> post_repo" where
  "Post_delete now i r =
     (case db_get r i of
        None \<Rightarrow> r
      | Some p \<Rightarrow> r\<lparr>db_Data := put_row i (Post_SoftDelete now p) (db_Data r)\<rparr>)"

definition Post_snapshot :: "post_repo \<Rightarrow> post_repo" where
  "Post_snapshot r = \<lparr>db_ID = db_ID r, db_Data = db_Data r\<rparr>"

definition Post_restore :: "post_repo \<Rightarrow> post_repo \<Rightarrow> post_repo" where
  "Post_restore state r = r\<lparr>db_ID := db_ID state, db_Data := db_Data state\<rparr>"

lemma Post_restore_snapshot [simp]: "Post_restore (Post_snapshot s) r = s"
  by (simp add: Post_restore_def Post_snapshot_def)

interpretation posts: row_table post_ID db_get db_ID "db_ok post_ID" Post_save Post_update
  by (rule row_table_db [where set_rid = "\<lambda>i p. p\<lparr>post_ID := i\<rparr>"])
    (simp_all add: fun_eq_iff db_insert_def Post_save_def db_replace_def Post_update_def Let_def)

lemma Post_delete_update:
  assumes "db_ok post_ID r" "db_get r i = Some p"
  shows "Post_delete now i r = Post_update (Post_SoftDelete now p) r"
  using assms by (auto simp: Post_delete_def Post_update_def Post_SoftDelete_def dest: db_get_bounds)

lemma Post_delete_ok [inv_intros]: "db_ok post_ID r \<Longrightarrow> db_ok post_ID (Post_delete now i r)"
  using Post_delete_update [of r i _ now] posts.replace_inv [of r]
  by (cases "db_get r i") (auto simp: Post_delete_def)

lemma selectPosts_page:
  "0 < limit \<Longrightarrow> selectPosts boardID limit lastID r =
    page_of post_ID limit lastID
      (filter (\<lambda>p. post_BoardID p = boardID \<and> post_Status p = PostStatusPublished) (db_rows r))"
  by (simp add: selectPosts_def page_of_filter [symmetric] after_cursor_def)

lemma selectDraftPosts_page:
  "0 < limit \<Longrightarrow> selectDraftPostsByAuthorID authorID limit lastID r =
    page_of post_ID limit lastID
      (filter (\<lambda>p. post_AuthorID p = authorID \<and> post_Status p = PostStatusDraft) (db_rows r))"
  by (simp add: selectDraftPostsByAuthorID_def page_of_filter [symmetric] after_cursor_def)

definition tagged_rows :: "tag_repo \<Rightarrow> post_tag_repo \<Rightarrow> string \<Rightarrow> post_repo \<Rightarrow> post list" where
  "tagged_rows tags post_tags tagName r =
     (case Tag_selectByName tagName tags of
        None \<Rightarrow> []
      | Some t \<Rightarrow> filter (\<lambda>p. post_Status p = PostStatusPublished \<and>
                     post_ID p \<in> set (selectActivePostIDSetByTagID (tag_ID t) post_tags)) (db_rows r))"

lemma selectPublishedPostsByTagName_page:
  "0 < limit \<Longrightarrow> selectPublishedPostsByTagName tags post_tags tagName limit lastID r =
    page_of post_ID limit lastID (tagged_rows tags post_tags tagName r)"
  unfolding selectPublishedPostsByTagName_def tagged_rows_def
  by (cases "Tag_selectByName tagName tags")
    (simp_all add: page_of_filter [symmetric] after_cursor_def,
     simp add: page_of_def take_int_def newest_first_def)

end
