(* ===== verification/GoHeap.thy ===== *)
theory GoHeap
  imports Prelude
begin

text \<open>
  \<open>container/heap\<close> as the repositories use it, and the selection of the \<open>limit\<close> rows with
  the largest key that \<open>selectComments\<close> and \<open>SelectByRecipientUserID\<close> program with it.

  The interface is the locale \<open>min_queue\<close>: what a queue of rows promises about \<open>push\<close>,
  \<open>pop\<close> and the smallest row. The selection is proved equal to "sort by descending key and
  take \<open>limit\<close>" inside the locale; the array heap of the Go library interprets it.
\<close>

section \<open>The array heap\<close>

definition swap :: "nat \<Rightarrow> nat \<Rightarrow> 'a list \<Rightarrow> 'a list" where
  "swap i j h = h[i := h ! j, j := h ! i]"

definition parent :: "nat \<Rightarrow> nat" where
  "parent j = (j - 1) div 2"

lemma parent_less: "0 < j \<Longrightarrow> parent j < j"
  by (simp add: parent_def)

lemma parent_le: "parent j \<le> j"
  by (simp add: parent_def)

lemma parent_fix: "parent j = j \<longleftrightarrow> j = 0"
  by (cases j) (auto simp: parent_def)

lemma parent_child: "0 < c \<Longrightarrow> parent c = i \<longleftrightarrow> c = 2 * i + 1 \<or> c = 2 * i + 2"
  unfolding parent_def by linarith

function heap_up :: "('a \<Rightarrow> int) \<Rightarrow> 'a list \<Rightarrow> nat \<Rightarrow> 'a list" where
  "heap_up k h j =
     (let i = parent j in
      if i = j \<or> \<not> k (h ! j) < k (h ! i) then h else heap_up k (swap i j h) i)"
  by pat_completeness auto
termination
  by (relation "measure (\<lambda>(k, h, j). j)") (auto simp: parent_fix parent_less)

text \<open>The smaller child, the left one on a tie.\<close>

definition min_child :: "('a \<Rightarrow> int) \<Rightarrow> 'a list \<Rightarrow> nat \<Rightarrow> nat \<Rightarrow> nat" where
  "min_child k h i n =
     (let j1 = 2 * i + 1; j2 = j1 + 1 in if j2 < n \<and> k (h ! j2) < k (h ! j1) then j2 else j1)"

function heap_down :: "('a \<Rightarrow> int) \<Rightarrow> 'a list \<Rightarrow> nat \<Rightarrow> nat \<Rightarrow> 'a list" where
  "heap_down k h i n =
     (if n \<le> 2 * i + 1 then h
      else let j = min_child k h i n in
           if \<not> k (h ! j) < k (h ! i) then h else heap_down k (swap i j h) j n)"
  by pat_completeness auto
termination
  by (relation "measure (\<lambda>(k, h, i, n). n - i)") (auto simp: min_child_def Let_def split: if_splits)

declare heap_up.simps [simp del] heap_down.simps [simp del]

definition heap_push :: "('a \<Rightarrow> int) \<Rightarrow> 'a \<Rightarrow> 'a list \<Rightarrow> 'a list" where
  "heap_push k x h = heap_up k (h @ [x]) (length h)"

definition heap_pop :: "('a \<Rightarrow> int) \<Rightarrow> 'a list \<Rightarrow> 'a list" where
  "heap_pop k h = (let n = length h - 1 in butlast (heap_down k (swap 0 n h) 0 n))"

definition heap_min :: "'a list \<Rightarrow> 'a" where
  "heap_min h = h ! 0"

text \<open>Every element is at least its parent; \<open>heap_below n\<close> looks at the first \<open>n\<close> only.\<close>

definition heap_below :: "('a \<Rightarrow> int) \<Rightarrow> nat \<Rightarrow> 'a list \<Rightarrow> bool" where
  "heap_below k n h \<longleftrightarrow> (\<forall>j. 0 < j \<and> j < n \<longrightarrow> k (h ! parent j) \<le> k (h ! j))"

definition is_heap :: "('a \<Rightarrow> int) \<Rightarrow> 'a list \<Rightarrow> bool" where
  "is_heap k h \<longleftrightarrow> heap_below k (length h) h"

lemma swap_length [simp]: "length (swap i j h) = length h"
  by (simp add: swap_def)

lemma swap_nth:
  "i < length h \<Longrightarrow> j < length h \<Longrightarrow>
    swap i j h ! m = (if m = j then h ! i else if m = i then h ! j else h ! m)"
  by (auto simp: swap_def nth_list_update)

lemma swap_mset: "i < length h \<Longrightarrow> j < length h \<Longrightarrow> mset (swap i j h) = mset h"
  by (simp add: swap_def mset_swap)

lemma heap_up_mset:
  "j < length h \<Longrightarrow> mset (heap_up k h j) = mset h \<and> length (heap_up k h j) = length h"
proof (induction k h j rule: heap_up.induct)
  case (1 k h j)
  have "parent j < length h" using "1.prems" parent_le [of j] by linarith
  with 1 show ?case
    by (auto simp: heap_up.simps [of k h j] Let_def swap_mset)
qed

lemma heap_up_heap:
  assumes "j < length h"
    and "\<forall>c. 0 < c \<and> c < length h \<and> c \<noteq> j \<longrightarrow> k (h ! parent c) \<le> k (h ! c)"
    and "\<forall>c. 0 < c \<and> c < length h \<and> parent c = j \<and> 0 < j \<longrightarrow> k (h ! parent j) \<le> k (h ! c)"
  shows "is_heap k (heap_up k h j)"
  using assms
proof (induction k h j rule: heap_up.induct)
  case (1 k h j)
  let ?i = "parent j"
  have i: "?i < length h" using "1.prems"(1) parent_le [of j] by linarith
  show ?case
  proof (cases "?i = j \<or> \<not> k (h ! j) < k (h ! ?i)")
    case True
    then have "0 < j \<Longrightarrow> k (h ! ?i) \<le> k (h ! j)" by (auto simp: parent_fix)
    with "1.prems"(2) have "heap_below k (length h) h"
      unfolding heap_below_def by blast
    with True show ?thesis by (simp add: heap_up.simps [of k h j] is_heap_def)
  next
    case False
    then have ij: "?i < j" and less: "k (h ! j) < k (h ! ?i)"
      using parent_le [of j] by linarith+
    let ?h = "swap ?i j h"
    have nth: "?h ! m = (if m = j then h ! ?i else if m = ?i then h ! j else h ! m)" for m
      by (rule swap_nth [OF i "1.prems"(1)])
    have "is_heap k (heap_up k ?h ?i)"
    proof (rule "1.IH" [OF refl False])
      show "?i < length ?h" using i by simp
      show "\<forall>c. 0 < c \<and> c < length ?h \<and> c \<noteq> ?i \<longrightarrow> k (?h ! parent c) \<le> k (?h ! c)"
      proof (intro allI impI)
        fix c assume c: "0 < c \<and> c < length ?h \<and> c \<noteq> ?i"
        have pc: "parent c \<noteq> c" using c by (simp add: parent_fix)
        consider "c = j" | "c \<noteq> j" "parent c = j" | "c \<noteq> j" "parent c = ?i" "parent c \<noteq> j"
          | "c \<noteq> j" "parent c \<noteq> j" "parent c \<noteq> ?i" by blast
        then show "k (?h ! parent c) \<le> k (?h ! c)"
        proof cases
          case 1
          with less ij show ?thesis by (simp add: nth)
        next
          case 2
          with "1.prems"(3) c ij have "k (h ! ?i) \<le> k (h ! c)" by simp
          with 2 c show ?thesis by (simp add: nth)
        next
          case 3
          with "1.prems"(2) c have "k (h ! ?i) \<le> k (h ! c)" by (metis swap_length)
          with 3 c less show ?thesis by (simp add: nth)
        next
          case 4
          with "1.prems"(2) c show ?thesis by (simp add: nth)
        qed
      qed
      show "\<forall>c. 0 < c \<and> c < length ?h \<and> parent c = ?i \<and> 0 < ?i \<longrightarrow> k (?h ! parent ?i) \<le> k (?h ! c)"
      proof (intro allI impI)
        fix c assume c: "0 < c \<and> c < length ?h \<and> parent c = ?i \<and> 0 < ?i"
        have p: "k (h ! parent ?i) \<le> k (h ! ?i)" using "1.prems"(2) c i ij by auto
        have ne: "parent ?i \<noteq> j" "parent ?i \<noteq> ?i" "c \<noteq> ?i"
          using c ij parent_less [of ?i] parent_less [of c] by auto
        show "k (?h ! parent ?i) \<le> k (?h ! c)"
        proof (cases "c = j")
          case True
          with p ne show ?thesis by (simp add: nth)
        next
          case False
          with "1.prems"(2) c have "k (h ! ?i) \<le> k (h ! c)" by (metis swap_length)
          with p ne False show ?thesis by (simp add: nth)
        qed
      qed
    qed
    with False show ?thesis by (simp add: heap_up.simps [of k h j] Let_def)
  qed
qed

lemma min_child_cases:
  assumes "2 * i + 1 < n"
  shows "min_child k h i n < n" "i < min_child k h i n" "parent (min_child k h i n) = i"
    "\<And>c. 0 < c \<Longrightarrow> c < n \<Longrightarrow> parent c = i \<Longrightarrow> k (h ! min_child k h i n) \<le> k (h ! c)"
proof -
  show "min_child k h i n < n" "i < min_child k h i n" "parent (min_child k h i n) = i"
    using assms by (auto simp: min_child_def Let_def parent_child)
  fix c assume c: "0 < c" "c < n" "parent c = i"
  then have "c = 2 * i + 1 \<or> c = 2 * i + 1 + 1" by (simp add: parent_child)
  then show "k (h ! min_child k h i n) \<le> k (h ! c)"
    using c(2) by (auto simp: min_child_def Let_def)
qed

lemma heap_down_mset:
  assumes "n \<le> length h" "i < n"
  shows "mset (heap_down k h i n) = mset h \<and> length (heap_down k h i n) = length h \<and>
    (\<forall>m \<ge> n. heap_down k h i n ! m = h ! m)"
  using assms
proof (induction k h i n rule: heap_down.induct)
  case (1 k h i n)
  let ?j = "min_child k h i n"
  show ?case
  proof (cases "n \<le> 2 * i + 1 \<or> \<not> k (h ! ?j) < k (h ! i)")
    case True
    then show ?thesis by (auto simp: heap_down.simps [of k h i n] Let_def)
  next
    case False
    then have j: "?j < n" "i < n" using min_child_cases [where i = i and n = n and k = k and h = h] "1.prems" by auto
    have IH: "mset (heap_down k (swap i ?j h) ?j n) = mset (swap i ?j h) \<and>
        length (heap_down k (swap i ?j h) ?j n) = length (swap i ?j h) \<and>
        (\<forall>m \<ge> n. heap_down k (swap i ?j h) ?j n ! m = swap i ?j h ! m)"
      using False j "1.prems" by (intro "1.IH") auto
    have eq: "heap_down k h i n = heap_down k (swap i ?j h) ?j n"
      using False by (simp add: heap_down.simps [of k h i n] Let_def)
    show ?thesis
      unfolding eq using IH j "1.prems" by (auto simp: swap_mset swap_nth)
  qed
qed

lemma heap_down_heap:
  assumes "n \<le> length h" "i < n"
    and "\<forall>c. 0 < c \<and> c < n \<and> parent c \<noteq> i \<longrightarrow> k (h ! parent c) \<le> k (h ! c)"
    and "\<forall>c. 0 < c \<and> c < n \<and> parent c = i \<and> 0 < i \<longrightarrow> k (h ! parent i) \<le> k (h ! c)"
  shows "heap_below k n (heap_down k h i n)"
  using assms
proof (induction k h i n rule: heap_down.induct)
  case (1 k h i n)
  let ?j = "min_child k h i n"
  show ?case
  proof (cases "n \<le> 2 * i + 1 \<or> \<not> k (h ! ?j) < k (h ! i)")
    case True
    have "k (h ! parent c) \<le> k (h ! c)" if c: "0 < c" "c < n" for c
    proof (cases "parent c = i")
      case pc: True
      then have "2 * i + 1 < n" using c by (auto simp: parent_child)
      with True min_child_cases(4) [where i = i and n = n and c = c and k = k and h = h] c pc show ?thesis by fastforce
    next
      case False
      with "1.prems"(3) c show ?thesis by blast
    qed
    with True show ?thesis
      by (auto simp: heap_down.simps [of k h i n] Let_def heap_below_def)
  next
    case False
    then have n: "2 * i + 1 < n" and less: "k (h ! ?j) < k (h ! i)" by auto
    note mc = min_child_cases [where k = k and h = h, OF n]
    let ?h = "swap i ?j h"
    have nth: "?h ! m = (if m = ?j then h ! i else if m = i then h ! ?j else h ! m)" for m
      using mc "1.prems" by (intro swap_nth) auto
    have "heap_below k n (heap_down k ?h ?j n)"
    proof (rule "1.IH" [OF _ refl])
      show "\<not> n \<le> 2 * i + 1" "\<not> \<not> k (h ! ?j) < k (h ! i)" using n less by auto
      show "n \<le> length ?h" "?j < n" using "1.prems" mc by auto
      show "\<forall>c. 0 < c \<and> c < n \<and> parent c \<noteq> ?j \<longrightarrow> k (?h ! parent c) \<le> k (?h ! c)"
      proof (intro allI impI)
        fix c assume c: "0 < c \<and> c < n \<and> parent c \<noteq> ?j"
        consider "c = ?j" | "c \<noteq> ?j" "parent c = i" | "c = i" "parent c \<noteq> i"
          | "c \<noteq> ?j" "parent c \<noteq> i" "c \<noteq> i" by blast
        then show "k (?h ! parent c) \<le> k (?h ! c)"
        proof cases
          case 1
          with less mc(2,3) show ?thesis by (simp add: nth)
        next
          case 2
          then have "c \<noteq> i" using c parent_fix [of c] by auto
          with 2 mc(2) mc(4) [of c] c show ?thesis by (simp add: nth)
        next
          case 3
          then have "k (h ! parent i) \<le> k (h ! ?j)" using "1.prems"(4) mc c by auto
          with 3 c mc(2) show ?thesis by (simp add: nth)
        next
          case 4
          with "1.prems"(3) c show ?thesis by (simp add: nth)
        qed
      qed
      show "\<forall>c. 0 < c \<and> c < n \<and> parent c = ?j \<and> 0 < ?j \<longrightarrow> k (?h ! parent ?j) \<le> k (?h ! c)"
      proof (intro allI impI)
        fix c assume c: "0 < c \<and> c < n \<and> parent c = ?j \<and> 0 < ?j"
        then have "c \<noteq> ?j" "c \<noteq> i" "?j \<noteq> i"
          using mc(2) parent_less [of c] by auto
        moreover have "k (h ! ?j) \<le> k (h ! c)" using "1.prems"(3) c \<open>?j \<noteq> i\<close> by metis
        ultimately show "k (?h ! parent ?j) \<le> k (?h ! c)" using mc(2,3) by (simp add: nth)
      qed
    qed
    with False show ?thesis by (simp add: heap_down.simps [of k h i n] Let_def)
  qed
qed

section \<open>The queue interface and the bounded selection\<close>

text \<open>
  The loop shared by \<open>selectComments\<close> and \<open>SelectByRecipientUserID\<close>: keep at most
  \<open>limit\<close> rows in the queue, replacing the smallest by a larger one; then empty the queue
  into the result from its last position backwards.
\<close>

definition select_step ::
  "('a \<Rightarrow> int) \<Rightarrow> ('a \<Rightarrow> 'a list \<Rightarrow> 'a list) \<Rightarrow> ('a list \<Rightarrow> 'a list) \<Rightarrow> nat \<Rightarrow> 'a \<Rightarrow> 'a list \<Rightarrow> 'a list" where
  "select_step k push pop limit x kept =
     (if length kept < limit then push x kept
      else if k x \<le> k (heap_min kept) then kept
      else push x (pop kept))"

fun drain :: "('a list \<Rightarrow> 'a list) \<Rightarrow> nat \<Rightarrow> 'a list \<Rightarrow> 'a list \<Rightarrow> 'a list" where
  "drain pop 0 kept out = out"
| "drain pop (Suc n) kept out = drain pop n (pop kept) (heap_min kept # out)"

definition select_top ::
  "('a \<Rightarrow> int) \<Rightarrow> ('a \<Rightarrow> 'a list \<Rightarrow> 'a list) \<Rightarrow> ('a list \<Rightarrow> 'a list) \<Rightarrow> nat \<Rightarrow> 'a list \<Rightarrow> 'a list" where
  "select_top k push pop limit xs =
     (let kept = fold (select_step k push pop limit) xs [] in drain pop (length kept) kept [])"

lemma insort_take_below:
  "n \<le> length L \<Longrightarrow> \<forall>y \<in> set (take n L). f y \<le> f x \<Longrightarrow> \<forall>y \<in> set (take n L). f y \<noteq> f x \<Longrightarrow>
    take n (insort_key f x L) = take n L"
  by (induction L arbitrary: n) (auto simp: take_Cons split: nat.splits)

lemma insort_take_above:
  assumes "0 < n" "n \<le> length L" "sorted (map f L)" "f x < f (last (take n L))"
  shows "add_mset (last (take n L)) (mset (take n (insort_key f x L))) = add_mset x (mset (take n L))"
  using assms
proof (induction L arbitrary: n)
  case Nil
  then show ?case by simp
next
  case (Cons y L)
  then obtain m where n: "n = Suc m" by (cases n) auto
  show ?case
  proof (cases "f x \<le> f y")
    case True
    have "mset (take n (y # L)) = add_mset (last (take n (y # L))) (mset (butlast (take n (y # L))))"
      using append_butlast_last_id [of "take n (y # L)"] n
        mset_append [of "butlast (take n (y # L))" "[last (take n (y # L))]"] by simp
    moreover have "butlast (take n (y # L)) = take m (y # L)"
      using butlast_take [of n "y # L"] n Cons.prems(2) by (metis diff_Suc_1)
    moreover have "take n (insort_key f x (y # L)) = x # take m (y # L)"
      using True n by simp
    ultimately show ?thesis by simp
  next
    case False
    then have "0 < m" using Cons.prems n by (cases m) auto
    moreover have "last (take n (y # L)) = last (take m L)"
      using \<open>0 < m\<close> n Cons.prems(2) by auto
    ultimately show ?thesis
      using False Cons.IH [of m] Cons.prems n by (simp add: add_mset_commute)
  qed
qed

lemma newest_first_Cons:
  "newest_first k (x # xs) = insort_key (\<lambda>y. - k y) x (newest_first k xs)"
  by (simp add: newest_first_def)

lemma newest_first_snoc:
  assumes "distinct (map k (xs @ [x]))"
  shows "newest_first k (xs @ [x]) = insort_key (\<lambda>y. - k y) x (newest_first k xs)"
  using newest_first_perm [of k "xs @ [x]" "x # xs"] assms by (simp add: newest_first_Cons)

text \<open>A queue of rows that answers its smallest element at the front.\<close>

locale min_queue =
  fixes k :: "'a \<Rightarrow> int"
    and push :: "'a \<Rightarrow> 'a list \<Rightarrow> 'a list"
    and pop :: "'a list \<Rightarrow> 'a list"
    and inv :: "'a list \<Rightarrow> bool"
  assumes inv_empty: "inv []"
    and inv_push: "inv q \<Longrightarrow> inv (push x q)"
    and mset_push: "inv q \<Longrightarrow> mset (push x q) = add_mset x (mset q)"
    and inv_pop: "inv q \<Longrightarrow> q \<noteq> [] \<Longrightarrow> inv (pop q)"
    and mset_pop: "inv q \<Longrightarrow> q \<noteq> [] \<Longrightarrow> add_mset (heap_min q) (mset (pop q)) = mset q"
    and front_min: "inv q \<Longrightarrow> x \<in> set q \<Longrightarrow> k (heap_min q) \<le> k x"
begin

lemma min_last:
  assumes "inv q" "mset q = mset (take n (newest_first k xs))" "q \<noteq> []" "distinct (map k xs)"
  shows "heap_min q = last (take n (newest_first k xs))"
proof -
  let ?T = "take n (newest_first k xs)"
  have "set q = set ?T" using assms(2) by (metis set_mset_mset)
  have ne: "?T \<noteq> []" using assms(2,3) by (metis mset_zero_iff)
  have sd: "sorted_wrt (\<lambda>x y. k x > k y) ?T"
    by (rule sorted_wrt_take [OF sorted_newest_first [OF assms(4)]])
  have "heap_min q \<in> set q" using assms(3) by (simp add: heap_min_def)
  then obtain i where i: "i < length ?T" "?T ! i = heap_min q"
    using \<open>set q = set ?T\<close> by (metis in_set_conv_nth)
  have "k (heap_min q) \<le> k (last ?T)"
    using front_min [OF assms(1)] \<open>set q = set ?T\<close> ne by simp
  then have "i = length ?T - 1"
    using sd i ne unfolding sorted_wrt_iff_nth_less last_conv_nth [OF ne]
    by (metis Suc_lessI diff_Suc_less diff_Suc_1 length_greater_0_conv less_Suc_eq linorder_not_less
        not_less_eq order_less_imp_le Suc_pred)
  with i(2) show ?thesis using last_conv_nth [OF ne] by simp
qed

lemma select_step_keeps:
  assumes "0 < n" "inv q" "mset q = mset (take n (newest_first k xs))"
    and d: "distinct (map k (xs @ [x]))"
  shows "inv (select_step k push pop n x q) \<and>
    mset (select_step k push pop n x q) = mset (take n (newest_first k (xs @ [x])))"
proof -
  let ?L = "newest_first k xs" and ?f = "\<lambda>y. - k y"
  have len: "length q = min n (length ?L)"
    using assms(3) by (metis length_take min.commute size_mset)
  have srt: "sorted (map ?f ?L)" by (simp add: newest_first_def)
  have new: "newest_first k (xs @ [x]) = insort_key ?f x ?L" by (rule newest_first_snoc [OF d])
  show ?thesis
  proof (cases "length q < n")
    case True
    then have "length ?L < n" using len by simp
    then have "mset (take n (insort_key ?f x ?L)) = add_mset x (mset (take n ?L))"
      by simp
    with True assms new show ?thesis
      by (simp add: select_step_def inv_push mset_push)
  next
    case False
    then have nL: "n \<le> length ?L" "q \<noteq> []" using len assms(1) by auto
    have m: "heap_min q = last (take n ?L)"
      using min_last [OF assms(2,3) nL(2)] d by simp
    have dx: "\<forall>y \<in> set (take n ?L). ?f y \<noteq> ?f x"
      using d by (auto dest!: in_set_takeD) (metis imageI)
    show ?thesis
    proof (cases "k x \<le> k (heap_min q)")
      case True
      have "\<forall>y \<in> set (take n ?L). ?f y \<le> ?f x"
        using True front_min [OF assms(2)] assms(3)
        by (metis neg_le_iff_le order_trans set_mset_mset)
      with insort_take_below [OF nL(1) _ dx] True False assms new show ?thesis
        by (simp add: select_step_def)
    next
      case lt: False
      then have "add_mset (heap_min q) (mset (take n (insort_key ?f x ?L))) = add_mset x (mset q)"
        using insort_take_above [OF assms(1) nL(1) srt] m assms(3) by simp
      also have "\<dots> = add_mset (heap_min q) (add_mset x (mset (pop q)))"
        using mset_pop [OF assms(2) nL(2)] by (metis add_mset_commute)
      finally have "mset (take n (insort_key ?f x ?L)) = add_mset x (mset (pop q))" by simp
      with False lt assms(2) nL(2) new show ?thesis
        by (simp add: select_step_def inv_push inv_pop mset_push)
    qed
  qed
qed

lemma select_fold:
  assumes "0 < n" "distinct (map k xs)"
  shows "inv (fold (select_step k push pop n) xs []) \<and>
    mset (fold (select_step k push pop n) xs []) = mset (take n (newest_first k xs))"
  using assms(2)
proof (induction xs rule: rev_induct)
  case Nil
  then show ?case by (simp add: inv_empty newest_first_def)
next
  case (snoc x xs)
  then show ?case using select_step_keeps [OF assms(1), of _ xs x] by simp
qed

lemma drain_sorted:
  assumes "inv q" "mset q = mset ys" "sorted_wrt (\<lambda>x y. k x > k y) ys"
  shows "drain pop (length q) q out = ys @ out"
  using assms
proof (induction ys arbitrary: q out rule: rev_induct)
  case Nil
  then show ?case by simp
next
  case (snoc y ys)
  then have ne: "q \<noteq> []" and len: "length q = Suc (length ys)"
    by (auto dest: arg_cong [where f = size])
  have d: "distinct (map k (ys @ [y]))"
    using snoc.prems(3) by (induction ys) (auto simp: sorted_wrt_append)
  have nf: "newest_first k (ys @ [y]) = ys @ [y]"
    by (rule sorted_desc_unique [OF sorted_newest_first [OF d] snoc.prems(3)]) simp
  have "heap_min q = y"
    using min_last [of q "length (ys @ [y])" "ys @ [y]"] snoc.prems(1,2) ne d nf by simp
  moreover have "mset (pop q) = mset ys"
    using mset_pop [OF snoc.prems(1) ne] snoc.prems(2) \<open>heap_min q = y\<close> by simp
  moreover have "length (pop q) = length ys"
    using calculation(2) by (metis size_mset)
  ultimately show ?case
    using snoc.IH [of "pop q" "y # out"] snoc.prems inv_pop [OF snoc.prems(1) ne] len
    by (simp add: sorted_wrt_append)
qed

lemma select_top_newest:
  assumes "0 < n" "distinct (map k xs)"
  shows "select_top k push pop n xs = take n (newest_first k xs)"
proof -
  let ?q = "fold (select_step k push pop n) xs []"
  have "drain pop (length ?q) ?q [] = take n (newest_first k xs) @ []"
    using select_fold [OF assms] sorted_wrt_take [OF sorted_newest_first [OF assms(2)]]
    by (intro drain_sorted) auto
  then show ?thesis by (simp add: select_top_def Let_def)
qed

end

section \<open>The array heap is such a queue\<close>

lemma is_heap_min:
  assumes "is_heap k h" "j < length h"
  shows "k (heap_min h) \<le> k (h ! j)"
  using assms(2)
proof (induction j rule: less_induct)
  case (less j)
  show ?case
  proof (cases "j = 0")
    case False
    then have "parent j < j" by (simp add: parent_less)
    with less have "k (heap_min h) \<le> k (h ! parent j)" by simp
    also have "\<dots> \<le> k (h ! j)"
      using assms(1) less.prems False by (simp add: is_heap_def heap_below_def)
    finally show ?thesis .
  qed (simp add: heap_min_def)
qed

lemma heap_push_correct:
  assumes "is_heap k h"
  shows "is_heap k (heap_push k x h) \<and> mset (heap_push k x h) = add_mset x (mset h)"
proof
  show "is_heap k (heap_push k x h)"
    unfolding heap_push_def
  proof (rule heap_up_heap)
    show "\<forall>c. 0 < c \<and> c < length (h @ [x]) \<and> c \<noteq> length h \<longrightarrow>
        k ((h @ [x]) ! parent c) \<le> k ((h @ [x]) ! c)"
    proof (intro allI impI)
      fix c assume c: "0 < c \<and> c < length (h @ [x]) \<and> c \<noteq> length h"
      then have "parent c < length h" using parent_le [of c] by simp
      with c assms show "k ((h @ [x]) ! parent c) \<le> k ((h @ [x]) ! c)"
        by (simp add: is_heap_def heap_below_def nth_append)
    qed
    show "\<forall>c. 0 < c \<and> c < length (h @ [x]) \<and> parent c = length h \<and> 0 < length h \<longrightarrow>
        k ((h @ [x]) ! parent (length h)) \<le> k ((h @ [x]) ! c)"
      using parent_less by (metis length_append_singleton not_less_eq order_less_asym)
  qed simp
  show "mset (heap_push k x h) = add_mset x (mset h)"
    using heap_up_mset [of "length h" "h @ [x]" k] by (simp add: heap_push_def)
qed

lemma heap_below_butlast:
  assumes "heap_below k (length h - 1) h"
  shows "is_heap k (butlast h)"
  unfolding is_heap_def heap_below_def
proof (intro allI impI)
  fix j assume j: "0 < j \<and> j < length (butlast h)"
  then have "parent j < length (butlast h)" using parent_le [of j] by linarith
  with assms j show "k (butlast h ! parent j) \<le> k (butlast h ! j)"
    by (simp add: heap_below_def nth_butlast)
qed

lemma mset_butlast_last:
  assumes "d \<noteq> []"
  shows "mset d = add_mset (last d) (mset (butlast d))"
proof -
  have "mset d = mset (butlast d @ [last d])" using assms by simp
  then show ?thesis by (simp only: mset_append mset.simps) simp
qed

lemma heap_pop_correct:
  assumes "is_heap k h" "h \<noteq> []"
  shows "is_heap k (heap_pop k h) \<and> add_mset (heap_min h) (mset (heap_pop k h)) = mset h"
proof (cases "length h = 1")
  case True
  then obtain x where "h = [x]" by (cases h) auto
  then show ?thesis
    by (simp add: heap_pop_def heap_min_def swap_def heap_down.simps is_heap_def heap_below_def)
next
  case False
  define n where "n = length h - 1"
  define g where "g = swap 0 n h"
  define d where "d = heap_down k g 0 n"
  have n: "0 < n" "n < length h" using assms(2) False by (cases h; simp add: n_def)+
  have lg: "length g = Suc n" using n by (simp add: g_def n_def)
  have nth: "g ! m = (if m = n then h ! 0 else if m = 0 then h ! n else h ! m)" for m
    unfolding g_def using n by (intro swap_nth) auto
  have dm: "mset d = mset g \<and> length d = length g \<and> (\<forall>m \<ge> n. d ! m = g ! m)"
    unfolding d_def using n lg by (intro heap_down_mset) auto
  have "heap_below k n d"
    unfolding d_def
  proof (rule heap_down_heap)
    show "\<forall>c. 0 < c \<and> c < n \<and> parent c \<noteq> 0 \<longrightarrow> k (g ! parent c) \<le> k (g ! c)"
    proof (intro allI impI)
      fix c assume c: "0 < c \<and> c < n \<and> parent c \<noteq> 0"
      then have "parent c < c" by (simp add: parent_less)
      moreover have "k (h ! parent c) \<le> k (h ! c)"
        using assms(1) c n by (simp add: is_heap_def heap_below_def)
      ultimately show "k (g ! parent c) \<le> k (g ! c)" using c by (simp add: nth)
    qed
  qed (use n lg in auto)
  then have "is_heap k (butlast d)" using heap_below_butlast [of k d] dm lg by simp
  moreover have "d \<noteq> []" using dm lg by auto
  moreover have "last d = heap_min h"
    using dm lg nth [of n] last_conv_nth [OF \<open>d \<noteq> []\<close>] by (simp add: heap_min_def)
  moreover have "mset g = mset h" unfolding g_def using n by (intro swap_mset) auto
  moreover have "mset d = add_mset (last d) (mset (butlast d))"
    by (rule mset_butlast_last [OF \<open>d \<noteq> []\<close>])
  moreover have "heap_pop k h = butlast d"
    by (simp add: heap_pop_def Let_def n_def g_def d_def)
  ultimately show ?thesis using dm by metis
qed

interpretation array_heap: min_queue k "heap_push k" "heap_pop k" "is_heap k" for k :: "'a \<Rightarrow> int"
proof unfold_locales
  fix q :: "'a list" and x
  show "is_heap k []" by (simp add: is_heap_def heap_below_def)
  show "is_heap k q \<Longrightarrow> is_heap k (heap_push k x q)"
    "is_heap k q \<Longrightarrow> mset (heap_push k x q) = add_mset x (mset q)"
    using heap_push_correct [of k q x] by simp_all
  show "is_heap k q \<Longrightarrow> q \<noteq> [] \<Longrightarrow> is_heap k (heap_pop k q)"
    "is_heap k q \<Longrightarrow> q \<noteq> [] \<Longrightarrow> add_mset (heap_min q) (mset (heap_pop k q)) = mset q"
    using heap_pop_correct [of k q] by simp_all
  show "is_heap k q \<Longrightarrow> x \<in> set q \<Longrightarrow> k (heap_min q) \<le> k x"
    using is_heap_min by (metis in_set_conv_nth)
qed

end
