(* ===== verification/RepoComment.thy ===== *)
theory RepoComment
  imports Entities Pagination GoHeap
begin

text \<open>
  \<open>persistence/inmemory/commentRepository.go\<close>. Deleting a comment is a soft delete;
  \<open>selectCommentByUUID\<close> also answers deleted comments, \<open>selectCommentByID\<close> does not. The
  list of active comments is selected with a bounded heap; \<open>selectVisibleComments\<close> keeps a
  deleted comment as long as an active reply hangs under it.
\<close>

type_synonym comment_repo = "comment db"

definition Comment_save :: "comment \<Rightarrow> comment_repo \<Rightarrow> comment \<times> comment_repo" where
  "Comment_save c r =
     (let newID = db_ID r + 1; saved = c\<lparr>comment_ID := newID\<rparr>
      in (saved, r\<lparr>db_ID := newID, db_Data := put_row newID saved (db_Data r)\<rparr>))"

definition is_active :: "comment \<Rightarrow> bool" where
  "is_active c \<longleftrightarrow> comment_Status c = CommentStatusActive"

definition selectCommentByID :: "int \<Rightarrow> comment_repo \<Rightarrow> comment option" where
  "selectCommentByID i r =
     (case db_get r i of
        Some c \<Rightarrow> if comment_Status c = CommentStatusActive then Some c else None
      | None \<Rightarrow> None)"

definition selectCommentByUUID :: "string \<Rightarrow> comment_repo \<Rightarrow> comment option" where
  "selectCommentByUUID commentUUID r = find (\<lambda>c. comment_UUID c = commentUUID) (db_rows r)"

definition selectCommentUUIDsByIDsIncludingDeleted ::
  "int list \<Rightarrow> comment_repo \<Rightarrow> (int \<times> string) list" where
  "selectCommentUUIDsByIDsIncludingDeleted ids r =
     fold (\<lambda>i out. case db_get r i of Some c \<Rightarrow> put_row i (comment_UUID c) out | None \<Rightarrow> out) ids []"

definition selectComments :: "int \<Rightarrow> int \<Rightarrow> int \<Rightarrow> comment_repo \<Rightarrow> comment list" where
  "selectComments postID limit lastID r =
     (if limit \<le> 0 then []
      else select_top comment_ID (heap_push comment_ID) (heap_pop comment_ID) (nat limit)
             (filter (\<lambda>c. comment_PostID c = postID \<and> comment_Status c = CommentStatusActive \<and>
                          \<not> (0 < lastID \<and> lastID \<le> comment_ID c)) (db_rows r)))"

definition selectCommentsIncludingDeleted :: "int \<Rightarrow> comment_repo \<Rightarrow> comment list" where
  "selectCommentsIncludingDeleted postID r =
     newest_first comment_ID (filter (\<lambda>c. comment_PostID c = postID) (db_rows r))"

definition activeChildParentIDs :: "comment list \<Rightarrow> int list" where
  "activeChildParentIDs comments =
     List.map_filter
       (\<lambda>c. if comment_Status c = CommentStatusActive then comment_ParentID c else None) comments"

definition filterVisibleCommentsForRepository :: "comment list \<Rightarrow> int \<Rightarrow> comment list" where
  "filterVisibleCommentsForRepository comments lastID =
     newest_first comment_ID
       (filter (\<lambda>c. \<not> (0 < lastID \<and> lastID \<le> comment_ID c) \<and>
                    (comment_Status c = CommentStatusActive \<or>
                     comment_ID c \<in> set (activeChildParentIDs comments))) comments)"

definition selectVisibleComments :: "int \<Rightarrow> int \<Rightarrow> int \<Rightarrow> comment_repo \<Rightarrow> comment list" where
  "selectVisibleComments postID limit lastID r =
     (let filtered = filterVisibleCommentsForRepository (selectCommentsIncludingDeleted postID r) lastID
      in if 0 < limit \<and> limit < int (length filtered) then take_int limit filtered else filtered)"

definition Comment_ExistsByAuthorIDIncludingDeleted :: "int \<Rightarrow> comment_repo \<Rightarrow> bool" where
  "Comment_ExistsByAuthorIDIncludingDeleted authorID r \<longleftrightarrow>
     (\<exists>c \<in> set (db_rows r). comment_AuthorID c = authorID)"

definition Comment_ExistsByAuthorID :: "int \<Rightarrow> comment_repo \<Rightarrow> bool" where
  "Comment_ExistsByAuthorID authorID r \<longleftrightarrow>
     (\<exists>c \<in> set (db_rows r). comment_AuthorID c = authorID \<and> comment_Status c = CommentStatusActive)"

definition Comment_update :: "comment \<Rightarrow> comment_repo \<Rightarrow> comment_repo" where
  "Comment_update c r =
     (case db_get r (comment_ID c) of
        Some _ \<Rightarrow> r\<lparr>db_Data := put_row (comment_ID c) c (db_Data r)\<rparr>
      | None \<Rightarrow> r)"

definition Comment_delete :: "time \<Rightarrow> int \<Rightarrow> comment_repo \<Rightarrow> comment_repo" where
  "Comment_delete now i r =
     (case db_get r i of
        None \<Rightarrow> r
      | Some c \<Rightarrow> r\<lparr>db_Data := put_row i (Comment_SoftDelete now c) (db_Data r)\<rparr>)"

definition Comment_snapshot :: "comment_repo \<Rightarrow> comment_repo" where
  "Comment_snapshot r = \<lparr>db_ID = db_ID r, db_Data = db_Data r\<rparr>"

definition Comment_restore :: "comment_repo \<Rightarrow> comment_repo \<Rightarrow> comment_repo" where
  "Comment_restore state r = r\<lparr>db_ID := db_ID state, db_Data := db_Data state\<rparr>"

lemma Comment_restore_snapshot [simp]: "Comment_restore (Comment_snapshot s) r = s"
  by (simp add: Comment_restore_def Comment_snapshot_def)

interpretation comments: row_table comment_ID db_get db_ID "db_ok comment_ID" Comment_save Comment_update
  by (rule row_table_db [where set_rid = "\<lambda>i c. c\<lparr>comment_ID := i\<rparr>"])
    (simp_all add: fun_eq_iff db_insert_def Comment_save_def db_replace_def Comment_update_def Let_def)

lemma SoftDelete_keeps [simp]:
  "comment_ID (Comment_SoftDelete now c) = comment_ID c"
  "comment_PostID (Comment_SoftDelete now c) = comment_PostID c"
  "comment_ParentID (Comment_SoftDelete now c) = comment_ParentID c"
  "comment_Status (Comment_SoftDelete now c) = CommentStatusDeleted"
  "comment_Content (Comment_SoftDelete now c) = DeletedCommentPlaceholder"
  by (simp_all add: Comment_SoftDelete_def)

text \<open>A soft delete is an update with the deleted row.\<close>

lemma Comment_delete_update:
  assumes "db_ok comment_ID r" "db_get r i = Some c"
  shows "Comment_delete now i r = Comment_update (Comment_SoftDelete now c) r"
  using assms by (auto simp: Comment_delete_def Comment_update_def dest: db_get_bounds)

lemma Comment_delete_ok [inv_intros]:
  "db_ok comment_ID r \<Longrightarrow> db_ok comment_ID (Comment_delete now i r)"
  using Comment_delete_update [of r i _ now] comments.replace_inv [of r]
  by (cases "db_get r i") (auto simp: Comment_delete_def)

lemma Comment_delete_get:
  "db_ok comment_ID r \<Longrightarrow>
    db_get (Comment_delete now i r) = (db_get r)(i := map_option (Comment_SoftDelete now) (db_get r i))"
  by (auto simp: Comment_delete_def fun_eq_iff split: option.splits)

section \<open>The list queries\<close>

lemma rows_of_post_distinct:
  "db_ok comment_ID r \<Longrightarrow> distinct (map comment_ID (filter P (db_rows r)))"
  by (intro filter_distinct_rids db_rows_distinct)

lemma selectComments_page:
  assumes "db_ok comment_ID r" "0 < limit"
  shows "selectComments postID limit lastID r =
    page_of comment_ID limit lastID
      (filter (\<lambda>c. comment_PostID c = postID \<and> comment_Status c = CommentStatusActive) (db_rows r))"
proof -
  have "selectComments postID limit lastID r =
      take (nat limit) (newest_first comment_ID
        (filter (\<lambda>c. comment_PostID c = postID \<and> comment_Status c = CommentStatusActive \<and>
                     \<not> (0 < lastID \<and> lastID \<le> comment_ID c)) (db_rows r)))"
    unfolding selectComments_def
    using assms array_heap.select_top_newest [of "nat limit" comment_ID, OF _ rows_of_post_distinct]
    by simp
  then show ?thesis
    by (simp add: page_of_filter [symmetric] after_cursor_def take_int_def conj_assoc)
qed

definition visible_rows :: "int \<Rightarrow> comment_repo \<Rightarrow> comment list" where
  "visible_rows postID r =
     (let cs = filter (\<lambda>c. comment_PostID c = postID) (db_rows r) in
      filter (\<lambda>c. comment_Status c = CommentStatusActive \<or>
                  (\<exists>d \<in> set cs. comment_Status d = CommentStatusActive \<and>
                               comment_ParentID d = Some (comment_ID c))) cs)"

lemma set_activeChildParentIDs:
  "set (activeChildParentIDs cs) =
    {p. \<exists>d \<in> set cs. comment_Status d = CommentStatusActive \<and> comment_ParentID d = Some p}"
  by (induction cs) (auto simp: activeChildParentIDs_def List.map_filter_def)

lemma newest_first_idem:
  "distinct (map rid xs) \<Longrightarrow> newest_first rid (newest_first rid xs) = newest_first rid xs"
  by (intro newest_first_perm) (simp_all add: distinct_map inj_on_def,
      metis mset_eq_imp_distinct_iff mset_newest_first)

lemma selectVisibleComments_page:
  assumes "db_ok comment_ID r" "0 < limit"
  shows "selectVisibleComments postID limit lastID r =
    page_of comment_ID limit lastID (visible_rows postID r)"
proof -
  let ?cs = "filter (\<lambda>c. comment_PostID c = postID) (db_rows r)"
  let ?P = "\<lambda>c. comment_Status c = CommentStatusActive \<or>
    (\<exists>d \<in> set ?cs. comment_Status d = CommentStatusActive \<and> comment_ParentID d = Some (comment_ID c))"
  have d: "distinct (map comment_ID ?cs)" by (rule rows_of_post_distinct [OF assms(1)])
  let ?A = "after_cursor comment_ID lastID"
  have "filterVisibleCommentsForRepository (selectCommentsIncludingDeleted postID r) lastID =
      newest_first comment_ID (filter (\<lambda>c. ?A c \<and> ?P c) (newest_first comment_ID ?cs))"
    unfolding filterVisibleCommentsForRepository_def selectCommentsIncludingDeleted_def
      set_activeChildParentIDs set_newest_first by (simp add: after_cursor_def)
  also have "\<dots> = filter (\<lambda>c. ?A c \<and> ?P c) (newest_first comment_ID ?cs)"
    by (subst filter_newest_first [symmetric]) (simp only: newest_first_idem [OF d])
  also have "\<dots> = filter ?A (filter ?P (newest_first comment_ID ?cs))"
    by (simp only: filter_filter conj_commute)
  also have "\<dots> = filter ?A (newest_first comment_ID (filter ?P ?cs))"
    by (simp only: filter_newest_first)
  finally have "filterVisibleCommentsForRepository (selectCommentsIncludingDeleted postID r) lastID =
      filter ?A (newest_first comment_ID (filter ?P ?cs))" .
  then show ?thesis
    using assms(2)
    by (simp add: selectVisibleComments_def page_of_def visible_rows_def Let_def take_int_def)
qed

end
