(* ===== verification/RepoUser.thy ===== *)
theory RepoUser
  imports Entities Pagination
begin

text \<open>
  \<open>persistence/inmemory/userRepository.go\<close>. \<open>save\<close> and \<open>update\<close> refuse a user whose
  UUID, name or normalised email another row already has, deleted rows included; the
  parameter \<open>lower\<close> is \<open>strings.ToLower\<close> on strings that are not ASCII. The locale
  \<open>unique_table\<close> is the contract of a repository that refuses clashing rows; reports follow
  the same contract.
\<close>

section \<open>Repositories that refuse clashing rows\<close>

locale unique_table =
  fixes rid :: "'v \<Rightarrow> int"
    and get :: "'r \<Rightarrow> int \<Rightarrow> 'v option"
    and inv :: "'r \<Rightarrow> bool"
    and clash :: "'v \<Rightarrow> 'v \<Rightarrow> bool"
    and save :: "'v \<Rightarrow> 'r \<Rightarrow> (go_error + 'v) \<times> 'r"
  assumes refused: "inv r \<Longrightarrow> get r i = Some x \<Longrightarrow> clash x v \<Longrightarrow> \<exists>e. save v r = (Inl e, r)"
    and failed: "inv r \<Longrightarrow> save v r = (Inl e, r') \<Longrightarrow> r' = r \<and> (\<exists>i x. get r i = Some x \<and> clash x v)"
    and saved_get: "inv r \<Longrightarrow> save v r = (Inr w, r') \<Longrightarrow>
      get r (rid w) = None \<and> get r' = (get r)(rid w \<mapsto> w)"
    and saved_inv: "inv r \<Longrightarrow> save v r = (Inr w, r') \<Longrightarrow> inv r'"
    and saved_clash: "save v r = (Inr w, r') \<Longrightarrow> clash w u = clash v u"
begin

lemma save_once:
  assumes "inv r" "save v r = (Inr w, r')" "clash v u"
  shows "\<exists>e. save u r' = (Inl e, r')"
proof (rule refused)
  show "inv r'" by (rule saved_inv [OF assms(1,2)])
  show "get r' (rid w) = Some w" using saved_get [OF assms(1,2)] by simp
  show "clash w u" using saved_clash [OF assms(2)] assms(3) by simp
qed

lemma saved_iff:
  assumes "inv r"
  shows "(\<exists>w r'. save v r = (Inr w, r')) \<longleftrightarrow> (\<forall>i x. get r i = Some x \<longrightarrow> \<not> clash x v)"
proof (cases "save v r")
  case (Pair res r')
  show ?thesis
  proof (cases res)
    case (Inl e)
    with failed [OF assms, of v e r'] Pair show ?thesis by auto
  next
    case (Inr w)
    with refused [OF assms, of _ _ v] Pair show ?thesis by fastforce
  qed
qed

lemma save_keeps:
  assumes "inv r" "save v r = (res, r')" "get r i = Some x"
  shows "get r' i = Some x"
proof (cases res)
  case (Inl e)
  with failed [OF assms(1)] assms(2,3) show ?thesis by blast
next
  case (Inr w)
  with saved_get [OF assms(1)] assms(2,3) show ?thesis by force
qed

end

section \<open>Users\<close>

type_synonym user_repo = "user db"

definition normalizeEmail :: "(string \<Rightarrow> string) \<Rightarrow> string \<Rightarrow> string" where
  "normalizeEmail lower email = ToLower lower (TrimSpace email)"

definition emailsConflict :: "(string \<Rightarrow> string) \<Rightarrow> string \<Rightarrow> string \<Rightarrow> bool" where
  "emailsConflict lower left0 right0 \<longleftrightarrow>
     (let left = normalizeEmail lower left0; right = normalizeEmail lower right0
      in left \<noteq> [] \<and> right \<noteq> [] \<and> left = right)"

definition usersConflict :: "(string \<Rightarrow> string) \<Rightarrow> user \<Rightarrow> user \<Rightarrow> bool" where
  "usersConflict lower existingUser u \<longleftrightarrow>
     user_UUID existingUser = user_UUID u \<or> user_Name existingUser = user_Name u \<or>
     emailsConflict lower (user_Email existingUser) (user_Email u)"

definition User_save :: "(string \<Rightarrow> string) \<Rightarrow> user \<Rightarrow> user_repo \<Rightarrow> (go_error + user) \<times> user_repo" where
  "User_save lower u r =
     (if \<exists>x \<in> set (db_rows r). usersConflict lower x u
      then (Inl (Sentinel ErrUserAlreadyExists), r)
      else let newID = db_ID r + 1; saved = u\<lparr>user_ID := newID\<rparr>
           in (Inr saved, r\<lparr>db_ID := newID, db_Data := put_row newID saved (db_Data r)\<rparr>))"

definition selectUserByUsername :: "string \<Rightarrow> user_repo \<Rightarrow> user option" where
  "selectUserByUsername username r =
     find (\<lambda>u. user_Name u = username \<and> \<not> IsDeleted u) (db_rows r)"

definition selectUserByUsernameIncludingDeleted :: "string \<Rightarrow> user_repo \<Rightarrow> user option" where
  "selectUserByUsernameIncludingDeleted username r =
     find (\<lambda>u. user_Name u = username) (db_rows r)"

definition selectUserByEmail :: "(string \<Rightarrow> string) \<Rightarrow> string \<Rightarrow> user_repo \<Rightarrow> user option" where
  "selectUserByEmail lower email0 r =
     (let email = normalizeEmail lower email0 in
      find (\<lambda>u. normalizeEmail lower (user_Email u) = email \<and> email \<noteq> [] \<and> \<not> IsDeleted u) (db_rows r))"

definition selectUserByUUID :: "string \<Rightarrow> user_repo \<Rightarrow> user option" where
  "selectUserByUUID userUUID r =
     find (\<lambda>u. user_UUID u = userUUID \<and> \<not> IsDeleted u) (db_rows r)"

definition selectUserByID :: "int \<Rightarrow> user_repo \<Rightarrow> user option" where
  "selectUserByID i r =
     (case db_get r i of Some u \<Rightarrow> if \<not> IsDeleted u then Some u else None | None \<Rightarrow> None)"

definition selectUserByIDIncludingDeleted :: "int \<Rightarrow> user_repo \<Rightarrow> user option" where
  "selectUserByIDIncludingDeleted i r = db_get r i"

definition selectUsersByIDsIncludingDeleted :: "int list \<Rightarrow> user_repo \<Rightarrow> (int \<times> user) list" where
  "selectUsersByIDsIncludingDeleted ids r =
     fold (\<lambda>i out. if map_of out i \<noteq> None then out
                   else case db_get r i of Some u \<Rightarrow> put_row i u out | None \<Rightarrow> out) ids []"

definition User_update :: "(string \<Rightarrow> string) \<Rightarrow> user \<Rightarrow> user_repo \<Rightarrow> (go_error + unit) \<times> user_repo" where
  "User_update lower u r =
     (case db_get r (user_ID u) of
        None \<Rightarrow> (Inr (), r)
      | Some _ \<Rightarrow>
          if \<exists>(i, x) \<in> set (db_Data r). i \<noteq> user_ID u \<and> usersConflict lower x u
          then (Inl (Sentinel ErrUserAlreadyExists), r)
          else (Inr (), r\<lparr>db_Data := put_row (user_ID u) u (db_Data r)\<rparr>))"

definition User_delete :: "int \<Rightarrow> user_repo \<Rightarrow> user_repo" where
  "User_delete i r = r\<lparr>db_Data := del_row i (db_Data r)\<rparr>"

definition User_snapshot :: "user_repo \<Rightarrow> user_repo" where
  "User_snapshot r = \<lparr>db_ID = db_ID r, db_Data = db_Data r\<rparr>"

definition User_restore :: "user_repo \<Rightarrow> user_repo \<Rightarrow> user_repo" where
  "User_restore state r = r\<lparr>db_ID := db_ID state, db_Data := db_Data state\<rparr>"

lemma User_restore_snapshot [simp]: "User_restore (User_snapshot s) r = s"
  by (simp add: User_restore_def User_snapshot_def)

subsection \<open>Guest clean-up candidates\<close>

definition guestEligibleForCleanup :: "user \<Rightarrow> time \<Rightarrow> duration \<Rightarrow> duration \<Rightarrow> bool" where
  "guestEligibleForCleanup u now pendingGrace activeUnusedGrace =
     (case user_GuestStatus u of
        GuestStatusPending \<Rightarrow>
          (case user_GuestIssuedAt u of None \<Rightarrow> False | Some t \<Rightarrow> \<not> now < t + pendingGrace)
      | GuestStatusExpired \<Rightarrow>
          (case user_GuestExpiredAt u of None \<Rightarrow> False | Some t \<Rightarrow> \<not> now < t + pendingGrace)
      | GuestStatusActive \<Rightarrow>
          (let basis = (case user_GuestActivatedAt u of
                          None \<Rightarrow> user_GuestIssuedAt u | Some t \<Rightarrow> Some t)
           in case basis of None \<Rightarrow> False | Some t \<Rightarrow> \<not> now < t + activeUnusedGrace)
      | GuestStatusNone \<Rightarrow> False)"

definition guestCleanupEligibleAt :: "user \<Rightarrow> time" where
  "guestCleanupEligibleAt u =
     (case user_GuestStatus u of
        GuestStatusPending \<Rightarrow>
          (case user_GuestIssuedAt u of Some t \<Rightarrow> t | None \<Rightarrow> user_CreatedAt u)
      | GuestStatusExpired \<Rightarrow>
          (case user_GuestExpiredAt u of Some t \<Rightarrow> t | None \<Rightarrow> user_CreatedAt u)
      | GuestStatusActive \<Rightarrow>
          (case user_GuestActivatedAt u of
             Some t \<Rightarrow> t
           | None \<Rightarrow> (case user_GuestIssuedAt u of Some t \<Rightarrow> t | None \<Rightarrow> user_CreatedAt u))
      | GuestStatusNone \<Rightarrow> user_CreatedAt u)"

definition selectGuestCleanupCandidates ::
  "time \<Rightarrow> duration \<Rightarrow> duration \<Rightarrow> int \<Rightarrow> user_repo \<Rightarrow> user list" where
  "selectGuestCleanupCandidates now pendingGrace activeUnusedGrace limit r =
     (if limit \<le> 0 then []
      else take_int limit (sort_key guestCleanupEligibleAt
             (filter (\<lambda>u. IsGuest u \<and> \<not> IsDeleted u \<and>
                          guestEligibleForCleanup u now pendingGrace activeUnusedGrace) (db_rows r))))"

lemma guest_candidates:
  assumes "u \<in> set (selectGuestCleanupCandidates now pg ag limit r)"
  shows "u \<in> set (db_rows r) \<and> IsGuest u \<and> \<not> IsDeleted u \<and> guestEligibleForCleanup u now pg ag"
  using assms set_take_int [of limit]
  by (fastforce simp: selectGuestCleanupCandidates_def split: if_splits)

section \<open>The invariant\<close>

lemma emailsConflict_sym: "emailsConflict lower a b = emailsConflict lower b a"
  by (auto simp: emailsConflict_def Let_def)

lemma usersConflict_sym: "usersConflict lower u v = usersConflict lower v u"
  using emailsConflict_sym by (auto simp: usersConflict_def)

lemma usersConflict_ID [simp]: "usersConflict lower (u\<lparr>user_ID := i\<rparr>) v = usersConflict lower u v"
  "usersConflict lower v (u\<lparr>user_ID := i\<rparr>) = usersConflict lower v u"
  by (simp_all add: usersConflict_def)

definition users_ok :: "(string \<Rightarrow> string) \<Rightarrow> user_repo \<Rightarrow> bool" where
  "users_ok lower r \<longleftrightarrow> db_ok user_ID r \<and>
     (\<forall>i j u v. db_get r i = Some u \<longrightarrow> db_get r j = Some v \<longrightarrow> i \<noteq> j \<longrightarrow> \<not> usersConflict lower u v)"

lemma rows_clash:
  assumes "db_ok rid d"
  shows "(\<exists>x \<in> set (db_rows d). P x) \<longleftrightarrow> (\<exists>i x. db_get d i = Some x \<and> P x)"
  using db_get_row [OF assms] by blast

lemma User_save_saved:
  assumes "db_ok user_ID r" "User_save lower u r = (Inr w, r')"
  shows "w = u\<lparr>user_ID := db_ID r + 1\<rparr>" "db_get r' = (db_get r)(db_ID r + 1 \<mapsto> w)"
    "db_ok user_ID r'" "\<forall>i x. db_get r i = Some x \<longrightarrow> \<not> usersConflict lower x u"
  using assms rows_clash [OF assms(1), of "\<lambda>x. usersConflict lower x u"]
    db_ok_insert [OF assms(1), of "u\<lparr>user_ID := db_ID r + 1\<rparr>"]
  by (auto simp: User_save_def Let_def split: if_splits)

lemma User_save_ok [inv_intros]:
  assumes "users_ok lower r" "User_save lower u r = (res, r')"
  shows "users_ok lower r'"
proof (cases res)
  case (Inl e)
  with assms show ?thesis by (auto simp: User_save_def Let_def split: if_splits)
next
  case (Inr w)
  have ok: "db_ok user_ID r" using assms(1) by (simp add: users_ok_def)
  note s = User_save_saved [OF ok assms(2) [unfolded Inr]]
  have "\<not> usersConflict lower x w" "\<not> usersConflict lower w x" if "db_get r i = Some x" for i x
    using s(4) that usersConflict_sym [of lower x u] by (auto simp: s(1))
  with s(2,3) assms(1) show ?thesis by (auto simp: users_ok_def split: if_splits)
qed

lemma User_update_ok [inv_intros]:
  assumes "users_ok lower r" "User_update lower u r = (res, r')"
  shows "users_ok lower r'"
proof (cases "r' = r")
  case True
  with assms show ?thesis by simp
next
  case False
  have ok: "db_ok user_ID r" using assms(1) by (simp add: users_ok_def)
  have k: "db_get r (user_ID u) \<noteq> None"
    and c: "\<not> (\<exists>(i, x) \<in> set (db_Data r). i \<noteq> user_ID u \<and> usersConflict lower x u)"
    and r': "r' = r\<lparr>db_Data := put_row (user_ID u) u (db_Data r)\<rparr>"
    using assms(2) False by (auto simp: User_update_def split: option.splits if_splits)
  have "\<not> usersConflict lower x u" "\<not> usersConflict lower u x"
    if "db_get r i = Some x" "i \<noteq> user_ID u" for i x
    using c that usersConflict_sym [of lower x u] by (auto simp: db_get_def dest!: map_of_SomeD)
  moreover have "db_ok user_ID r'" unfolding r' by (rule db_ok_put [OF ok k])
  ultimately show ?thesis using assms(1) by (auto simp: users_ok_def r' split: if_splits)
qed

lemma User_delete_ok [inv_intros]:
  assumes "users_ok lower r"
  shows "users_ok lower (User_delete i r)"
proof -
  have g: "db_get (User_delete i r) = (db_get r)(i := None)" by (simp add: User_delete_def)
  have "db_ok user_ID (User_delete i r)"
    using assms by (simp add: users_ok_def User_delete_def db_ok_del)
  moreover have "db_get r j = Some u" if "db_get (User_delete i r) j = Some u" for j u
    using that by (simp add: g split: if_splits)
  ultimately show ?thesis using assms unfolding users_ok_def by blast
qed

interpretation users: unique_table user_ID db_get "users_ok lower" "usersConflict lower" "User_save lower"
  for lower
proof unfold_locales
  fix r u i x v e r' w
  assume inv: "users_ok lower r"
  then have ok: "db_ok user_ID r" by (simp add: users_ok_def)
  show "db_get r i = Some x \<Longrightarrow> usersConflict lower x v \<Longrightarrow> \<exists>e. User_save lower v r = (Inl e, r)"
    using rows_clash [OF ok, of "\<lambda>x. usersConflict lower x v"] by (auto simp: User_save_def)
  show "User_save lower v r = (Inl e, r') \<Longrightarrow>
      r' = r \<and> (\<exists>i x. db_get r i = Some x \<and> usersConflict lower x v)"
    using rows_clash [OF ok, of "\<lambda>x. usersConflict lower x v"]
    by (auto simp: User_save_def Let_def split: if_splits)
  assume s: "User_save lower v r = (Inr w, r')"
  then show "db_get r (user_ID w) = None \<and> db_get r' = (db_get r)(user_ID w \<mapsto> w)"
    using User_save_saved [OF ok s] db_fresh [OF ok] by simp
  show "users_ok lower r'" by (rule User_save_ok [OF inv s])
next
  fix v r w r' u
  show "User_save lower v r = (Inr w, r') \<Longrightarrow> usersConflict lower w u = usersConflict lower v u"
    by (auto simp: User_save_def Let_def split: if_splits)
qed

text \<open>Two live rows never answer to one name or email.\<close>

lemma users_name_unique:
  assumes "users_ok lower r" "db_get r i = Some u" "db_get r j = Some v" "user_Name u = user_Name v"
  shows "i = j"
  using assms unfolding users_ok_def usersConflict_def by blast

lemma find_unique:
  assumes "find P xs = Some y"
  shows "y \<in> set xs \<and> P y"
  using assms by (auto simp: find_Some_iff)

lemma selectUserByUsername_found:
  assumes "users_ok lower r" "db_get r i = Some u" "\<not> IsDeleted u"
  shows "selectUserByUsername (user_Name u) r = Some u"
proof -
  have ok: "db_ok user_ID r" using assms(1) by (simp add: users_ok_def)
  have "selectUserByUsername (user_Name u) r \<noteq> None"
    using assms(2,3) db_get_row [OF ok] by (auto simp: selectUserByUsername_def find_None_iff)
  then obtain v where v: "selectUserByUsername (user_Name u) r = Some v" by blast
  then have "v \<in> set (db_rows r)" "user_Name v = user_Name u"
    by (auto simp: selectUserByUsername_def dest: find_unique)
  then have "db_get r (user_ID v) = Some v" using db_get_row [OF ok] by blast
  with users_name_unique [OF assms(1,2) this] \<open>user_Name v = user_Name u\<close> assms(2) v
  show ?thesis by simp
qed

end
