(* ===== verification/RepoReaction.thy ===== *)
theory RepoReaction
  imports Entities Tables
begin

text \<open>
  \<open>persistence/inmemory/reactionRepository.go\<close>. Reactions are stored by key, with an index
  from a user and a target, written into one string, to the key. The contract is a map from
  (user, target, target type) to a reaction type: \<open>reaction_of\<close> is the abstraction, and
  every operation is shown to act on it as on a finite map. The invariant ties the index to
  the rows; it rests on the injectivity of the string key.
\<close>

record reaction_repo =
  reaction_db :: "reaction db"
  userTargetIndex :: "(string \<times> int) list"

definition userTargetKey :: "int \<Rightarrow> int \<Rightarrow> ReactionTargetType \<Rightarrow> string" where
  "userTargetKey userID targetID targetType =
     ReactionTargetType_string targetType @ '':'' @ FormatInt targetID @ '':'' @ FormatInt userID"

text \<open>
  The result is the reaction, whether it was created and whether it changed. The index never
  leads to a missing row (\<open>reactions_ok\<close>), where the code would dereference \<open>nil\<close>; the
  model answers \<open>None\<close> there.
\<close>

definition setUserTargetReaction ::
  "time \<Rightarrow> int \<Rightarrow> int \<Rightarrow> ReactionTargetType \<Rightarrow> ReactionType \<Rightarrow> reaction_repo \<Rightarrow>
    (reaction \<times> bool \<times> bool) option \<times> reaction_repo" where
  "setUserTargetReaction now userID targetID targetType reactionType r =
     (let indexKey = userTargetKey userID targetID targetType; d = reaction_db r in
      case map_of (userTargetIndex r) indexKey of
        Some reactionID \<Rightarrow>
          (case db_get d reactionID of
             None \<Rightarrow> (None, r)
           | Some stored \<Rightarrow>
               if reaction_Type stored = reactionType then (Some (stored, False, False), r)
               else let updated = Reaction_Update reactionType stored
                    in (Some (updated, False, True),
                        r\<lparr>reaction_db := d\<lparr>db_Data := put_row reactionID updated (db_Data d)\<rparr>\<rparr>))
      | None \<Rightarrow>
          let newID = db_ID d + 1;
              x = (NewReaction now targetType targetID reactionType userID)\<lparr>reaction_ID := newID\<rparr>
          in (Some (x, True, True),
              r\<lparr>reaction_db := d\<lparr>db_ID := newID, db_Data := put_row newID x (db_Data d)\<rparr>,
                userTargetIndex := put_row indexKey newID (userTargetIndex r)\<rparr>))"

definition deleteUserTargetReaction ::
  "int \<Rightarrow> int \<Rightarrow> ReactionTargetType \<Rightarrow> reaction_repo \<Rightarrow> bool \<times> reaction_repo" where
  "deleteUserTargetReaction userID targetID targetType r =
     (let indexKey = userTargetKey userID targetID targetType; d = reaction_db r in
      case map_of (userTargetIndex r) indexKey of
        None \<Rightarrow> (False, r)
      | Some reactionID \<Rightarrow>
          (True, r\<lparr>userTargetIndex := del_row indexKey (userTargetIndex r),
                   reaction_db := d\<lparr>db_Data := del_row reactionID (db_Data d)\<rparr>\<rparr>))"

definition deleteByTarget_step ::
  "int \<Rightarrow> ReactionTargetType \<Rightarrow> int \<times> reaction \<Rightarrow> int \<times> reaction_repo \<Rightarrow> int \<times> reaction_repo" where
  "deleteByTarget_step targetID targetType row acc =
     (case (row, acc) of ((reactionID, x), (deletedCount, r)) \<Rightarrow>
        if reaction_TargetID x \<noteq> targetID \<or> reaction_TargetType x \<noteq> targetType then acc
        else (deletedCount + 1,
              r\<lparr>userTargetIndex :=
                  del_row (userTargetKey (reaction_UserID x) (reaction_TargetID x) (reaction_TargetType x))
                    (userTargetIndex r),
                reaction_db :=
                  (reaction_db r)\<lparr>db_Data := del_row reactionID (db_Data (reaction_db r))\<rparr>\<rparr>))"

definition deleteByTarget ::
  "int \<Rightarrow> ReactionTargetType \<Rightarrow> reaction_repo \<Rightarrow> int \<times> reaction_repo" where
  "deleteByTarget targetID targetType r =
     fold (deleteByTarget_step targetID targetType) (db_Data (reaction_db r)) (0, r)"

definition getUserTargetReaction ::
  "int \<Rightarrow> int \<Rightarrow> ReactionTargetType \<Rightarrow> reaction_repo \<Rightarrow> reaction option" where
  "getUserTargetReaction userID targetID targetType r =
     (case map_of (userTargetIndex r) (userTargetKey userID targetID targetType) of
        None \<Rightarrow> None | Some reactionID \<Rightarrow> db_get (reaction_db r) reactionID)"

definition getByTarget :: "int \<Rightarrow> ReactionTargetType \<Rightarrow> reaction_repo \<Rightarrow> reaction list" where
  "getByTarget targetID targetType r =
     filter (\<lambda>x. reaction_TargetID x = targetID \<and> reaction_TargetType x = targetType)
       (db_rows (reaction_db r))"

definition getByTargets ::
  "int list \<Rightarrow> ReactionTargetType \<Rightarrow> reaction_repo \<Rightarrow> (int \<times> reaction list) list" where
  "getByTargets targetIDs targetType r =
     fold (\<lambda>x out.
             if reaction_TargetType x \<noteq> targetType \<or> reaction_TargetID x \<notin> set targetIDs then out
             else put_row (reaction_TargetID x)
                    ((case map_of out (reaction_TargetID x) of None \<Rightarrow> [] | Some xs \<Rightarrow> xs) @ [x]) out)
       (db_rows (reaction_db r)) []"

definition Reaction_ExistsByUserID :: "int \<Rightarrow> reaction_repo \<Rightarrow> bool" where
  "Reaction_ExistsByUserID userID r \<longleftrightarrow>
     (\<exists>x \<in> set (db_rows (reaction_db r)). reaction_UserID x = userID)"

definition Reaction_snapshot :: "reaction_repo \<Rightarrow> reaction_repo" where
  "Reaction_snapshot r = \<lparr>reaction_db = reaction_db r, userTargetIndex = userTargetIndex r\<rparr>"

definition Reaction_restore :: "reaction_repo \<Rightarrow> reaction_repo \<Rightarrow> reaction_repo" where
  "Reaction_restore state r =
     r\<lparr>reaction_db := reaction_db state, userTargetIndex := userTargetIndex state\<rparr>"

lemma Reaction_restore_snapshot [simp]: "Reaction_restore (Reaction_snapshot s) r = s"
  by (simp add: Reaction_restore_def Reaction_snapshot_def)

section \<open>The string key\<close>

lemma colon_free: "CHR '':'' \<notin> set (FormatInt i)" "CHR '':'' \<notin> set (ReactionTargetType_string ty)"
proof -
  show "CHR '':'' \<notin> set (FormatInt i)"
    using FormatInt_chars [of "CHR '':''" i] by (auto simp: digit_value_def)
  show "CHR '':'' \<notin> set (ReactionTargetType_string ty)" by (cases ty) simp_all
qed

lemma append_sep_inject:
  assumes "c \<notin> set a" "c \<notin> set b" "a @ c # x = b @ c # y"
  shows "a = b \<and> x = y"
proof -
  have w: "c \<notin> set a \<Longrightarrow> takeWhile (\<lambda>d. d \<noteq> c) (a @ c # x) = a" for a x
    by (induction a) auto
  have "takeWhile (\<lambda>d. d \<noteq> c) (a @ c # x) = a" "takeWhile (\<lambda>d. d \<noteq> c) (b @ c # y) = b"
    by (rule w [OF assms(1)], rule w [OF assms(2)])
  with assms(3) show ?thesis by auto
qed

lemma userTargetKey_inject:
  "userTargetKey u i ty = userTargetKey v j tz \<longleftrightarrow> u = v \<and> i = j \<and> ty = tz"
proof
  assume eq: "userTargetKey u i ty = userTargetKey v j tz"
  then have "ReactionTargetType_string ty @ CHR '':'' # (FormatInt i @ CHR '':'' # FormatInt u) =
      ReactionTargetType_string tz @ CHR '':'' # (FormatInt j @ CHR '':'' # FormatInt v)"
    by (simp add: userTargetKey_def)
  from append_sep_inject [OF colon_free(2) colon_free(2) this]
  have t: "ReactionTargetType_string ty = ReactionTargetType_string tz"
    and rest: "FormatInt i @ CHR '':'' # FormatInt u = FormatInt j @ CHR '':'' # FormatInt v"
    by simp_all
  from append_sep_inject [OF colon_free(1) colon_free(1) rest]
  have "FormatInt i = FormatInt j" "FormatInt u = FormatInt v" by simp_all
  moreover have "ty = tz" using t by (cases ty; cases tz) simp_all
  ultimately show "u = v \<and> i = j \<and> ty = tz" using FormatInt_inj by blast
qed simp

section \<open>The invariant and the abstract map\<close>

definition key_of :: "reaction \<Rightarrow> string" where
  "key_of x = userTargetKey (reaction_UserID x) (reaction_TargetID x) (reaction_TargetType x)"

definition reactions_ok :: "reaction_repo \<Rightarrow> bool" where
  "reactions_ok r \<longleftrightarrow> db_ok reaction_ID (reaction_db r) \<and>
     (\<forall>key i. map_of (userTargetIndex r) key = Some i \<longleftrightarrow>
        (\<exists>x. db_get (reaction_db r) i = Some x \<and> key_of x = key))"

definition reaction_of ::
  "reaction_repo \<Rightarrow> int \<times> int \<times> ReactionTargetType \<Rightarrow> ReactionType option" where
  "reaction_of r k =
     (case k of (u, i, ty) \<Rightarrow> map_option reaction_Type (getUserTargetReaction u i ty r))"

lemma key_of_eq: "key_of x = userTargetKey u i ty \<longleftrightarrow>
    reaction_UserID x = u \<and> reaction_TargetID x = i \<and> reaction_TargetType x = ty"
  by (simp add: key_of_def userTargetKey_inject)

lemma key_of_simps [simp]:
  "key_of (Reaction_Update t x) = key_of x" "reaction_ID (Reaction_Update t x) = reaction_ID x"
  "reaction_Type (Reaction_Update t x) = t" "key_of (x\<lparr>reaction_ID := n\<rparr>) = key_of x"
  "key_of (NewReaction now ty i t u) = userTargetKey u i ty"
  "reaction_Type (NewReaction now ty i t u) = t"
  by (simp_all add: Reaction_Update_def key_of_def NewReaction_def)

lemma reactions_index:
  "reactions_ok r \<Longrightarrow> map_of (userTargetIndex r) key = Some i \<longleftrightarrow>
    (\<exists>x. db_get (reaction_db r) i = Some x \<and> key_of x = key)"
  by (simp add: reactions_ok_def)

lemma reactions_get:
  assumes "reactions_ok r"
  shows "getUserTargetReaction u i ty r = Some x \<longleftrightarrow>
    db_get (reaction_db r) (reaction_ID x) = Some x \<and> key_of x = userTargetKey u i ty"
proof -
  have ok: "db_ok reaction_ID (reaction_db r)" using assms by (simp add: reactions_ok_def)
  have ix: "map_of (userTargetIndex r) (userTargetKey u i ty) = Some n \<longleftrightarrow>
      (\<exists>x. db_get (reaction_db r) n = Some x \<and> key_of x = userTargetKey u i ty)" for n
    by (rule reactions_index [OF assms])
  show ?thesis
  proof
    assume "getUserTargetReaction u i ty r = Some x"
    then obtain n where n: "map_of (userTargetIndex r) (userTargetKey u i ty) = Some n"
        "db_get (reaction_db r) n = Some x"
      by (auto simp: getUserTargetReaction_def split: option.splits)
    with ix [of n] have "key_of x = userTargetKey u i ty" by simp
    moreover have "reaction_ID x = n" using db_get_bounds [OF ok n(2)] by simp
    ultimately show "db_get (reaction_db r) (reaction_ID x) = Some x \<and> key_of x = userTargetKey u i ty"
      using n(2) by simp
  next
    assume g: "db_get (reaction_db r) (reaction_ID x) = Some x \<and> key_of x = userTargetKey u i ty"
    then have "map_of (userTargetIndex r) (userTargetKey u i ty) = Some (reaction_ID x)"
      using ix by blast
    with g show "getUserTargetReaction u i ty r = Some x" by (simp add: getUserTargetReaction_def)
  qed
qed

lemma reactions_unique:
  assumes "reactions_ok r" "db_get (reaction_db r) i = Some x" "db_get (reaction_db r) j = Some y"
    "key_of x = key_of y"
  shows "i = j"
proof -
  have "map_of (userTargetIndex r) (key_of x) = Some i" "map_of (userTargetIndex r) (key_of x) = Some j"
    using assms reactions_index [OF assms(1), of "key_of x"] by auto
  then show ?thesis by simp
qed

lemma setUserTargetReaction_cases:
  assumes "reactions_ok r"
  obtains
    (same) x where "getUserTargetReaction u i ty r = Some x" "reaction_Type x = t"
      "setUserTargetReaction now u i ty t r = (Some (x, False, False), r)"
  | (switched) x where "getUserTargetReaction u i ty r = Some x" "reaction_Type x \<noteq> t"
      "key_of x = userTargetKey u i ty" "db_get (reaction_db r) (reaction_ID x) = Some x"
      "setUserTargetReaction now u i ty t r = (Some (Reaction_Update t x, False, True),
        r\<lparr>reaction_db := (reaction_db r)\<lparr>db_Data :=
          put_row (reaction_ID x) (Reaction_Update t x) (db_Data (reaction_db r))\<rparr>\<rparr>)"
  | (created) x where "getUserTargetReaction u i ty r = None"
      "map_of (userTargetIndex r) (userTargetKey u i ty) = None"
      "x = (NewReaction now ty i t u)\<lparr>reaction_ID := db_ID (reaction_db r) + 1\<rparr>"
      "setUserTargetReaction now u i ty t r = (Some (x, True, True),
        r\<lparr>reaction_db := (reaction_db r)\<lparr>db_ID := db_ID (reaction_db r) + 1,
            db_Data := put_row (db_ID (reaction_db r) + 1) x (db_Data (reaction_db r))\<rparr>,
          userTargetIndex := put_row (userTargetKey u i ty) (db_ID (reaction_db r) + 1)
            (userTargetIndex r)\<rparr>)"
proof (cases "map_of (userTargetIndex r) (userTargetKey u i ty)")
  case None
  have g: "getUserTargetReaction u i ty r = None" by (simp add: getUserTargetReaction_def None)
  show ?thesis
    by (rule created [OF g None refl]) (simp only: setUserTargetReaction_def Let_def None option.case)
next
  case (Some n)
  then obtain x where x: "db_get (reaction_db r) n = Some x" "key_of x = userTargetKey u i ty"
    using reactions_index [OF assms] by blast
  then have n: "reaction_ID x = n"
    using assms db_get_bounds [of reaction_ID "reaction_db r" n x] by (simp add: reactions_ok_def)
  have g: "getUserTargetReaction u i ty r = Some x"
    using Some x by (simp add: getUserTargetReaction_def)
  show ?thesis
  proof (cases "reaction_Type x = t")
    case True
    with Some x show ?thesis
      by (intro same [OF g]) (simp_all add: setUserTargetReaction_def Let_def)
  next
    case False
    with Some x n show ?thesis
      by (intro switched [OF g]) (simp_all add: setUserTargetReaction_def Let_def)
  qed
qed

lemma setUserTargetReaction_ok [inv_intros]:
  assumes "reactions_ok r" "setUserTargetReaction now u i ty t r = (res, r')"
  shows "reactions_ok r'"
proof (rule setUserTargetReaction_cases [OF assms(1), of u i ty t now])
  have ok: "db_ok reaction_ID (reaction_db r)" using assms(1) by (simp add: reactions_ok_def)
  show "reactions_ok r'" if "setUserTargetReaction now u i ty t r = (Some (x, False, False), r)" for x
    using that assms by simp
  fix x
  {
    assume x: "key_of x = userTargetKey u i ty" "db_get (reaction_db r) (reaction_ID x) = Some x"
      and s: "setUserTargetReaction now u i ty t r = (Some (Reaction_Update t x, False, True),
        r\<lparr>reaction_db := (reaction_db r)\<lparr>db_Data :=
          put_row (reaction_ID x) (Reaction_Update t x) (db_Data (reaction_db r))\<rparr>\<rparr>)"
    let ?d = "(reaction_db r)\<lparr>db_Data :=
      put_row (reaction_ID x) (Reaction_Update t x) (db_Data (reaction_db r))\<rparr>"
    have r': "r' = r\<lparr>reaction_db := ?d\<rparr>" using s assms(2) by simp
    have "db_ok reaction_ID ?d"
      using db_ok_put [OF ok, of "Reaction_Update t x"] x by simp
    moreover have "(\<exists>y. db_get ?d j = Some y \<and> key_of y = key) \<longleftrightarrow>
        (\<exists>y. db_get (reaction_db r) j = Some y \<and> key_of y = key)" for j key
      using x(2) by (cases "j = reaction_ID x") auto
    ultimately show "reactions_ok r'" using assms(1) by (simp add: reactions_ok_def r')
  }
  {
    let ?n = "db_ID (reaction_db r) + 1"
    assume none: "map_of (userTargetIndex r) (userTargetKey u i ty) = None"
      and x: "x = (NewReaction now ty i t u)\<lparr>reaction_ID := ?n\<rparr>"
      and s: "setUserTargetReaction now u i ty t r = (Some (x, True, True),
        r\<lparr>reaction_db := (reaction_db r)\<lparr>db_ID := ?n,
            db_Data := put_row ?n x (db_Data (reaction_db r))\<rparr>,
          userTargetIndex := put_row (userTargetKey u i ty) ?n (userTargetIndex r)\<rparr>)"
    let ?d = "(reaction_db r)\<lparr>db_ID := ?n, db_Data := put_row ?n x (db_Data (reaction_db r))\<rparr>"
    have r': "reaction_db r' = ?d"
        "userTargetIndex r' = put_row (userTargetKey u i ty) ?n (userTargetIndex r)"
      using s assms(2) by auto
    have kx: "key_of x = userTargetKey u i ty" by (simp add: x)
    have okd: "db_ok reaction_ID ?d" by (rule db_ok_insert [OF ok]) (simp add: x)
    have fresh: "map_of (userTargetIndex r) key \<noteq> Some ?n" for key
      using reactions_index [OF assms(1), of key ?n] db_fresh [OF ok] by simp
    have other: "db_get (reaction_db r) j = Some y \<Longrightarrow> key_of y \<noteq> userTargetKey u i ty" for j y
      using reactions_index [OF assms(1), of "userTargetKey u i ty" j] none by auto
    have "map_of (userTargetIndex r') key = Some j \<longleftrightarrow>
        (\<exists>y. db_get (reaction_db r') j = Some y \<and> key_of y = key)" for key j
    proof (cases "j = ?n")
      case True
      with kx fresh [of key] show ?thesis by (auto simp: r')
    next
      case False
      with other [of j] reactions_index [OF assms(1), of key j] show ?thesis by (auto simp: r')
    qed
    with okd show "reactions_ok r'" by (simp add: reactions_ok_def r')
  }
qed

lemma reaction_of_iff:
  assumes "reactions_ok r"
  shows "reaction_of r (u, i, ty) = Some t \<longleftrightarrow>
    (\<exists>n x. db_get (reaction_db r) n = Some x \<and> key_of x = userTargetKey u i ty \<and> reaction_Type x = t)"
proof -
  have b: "db_get (reaction_db r) n = Some x \<Longrightarrow> reaction_ID x = n" for n x
    using assms db_get_bounds [of reaction_ID "reaction_db r" n x] by (simp add: reactions_ok_def)
  have "reaction_of r (u, i, ty) = Some t \<longleftrightarrow>
      (\<exists>x. getUserTargetReaction u i ty r = Some x \<and> reaction_Type x = t)"
    by (auto simp: reaction_of_def)
  also have "\<dots> \<longleftrightarrow> (\<exists>x. db_get (reaction_db r) (reaction_ID x) = Some x \<and>
      key_of x = userTargetKey u i ty \<and> reaction_Type x = t)"
    by (simp add: reactions_get [OF assms] conj_assoc)
  finally show ?thesis using b by metis
qed

lemma option_eqI: "(\<And>t. a = Some t \<longleftrightarrow> b = Some t) \<Longrightarrow> a = b"
  by (cases a; cases b) auto

lemma setUserTargetReaction_of:
  assumes "reactions_ok r" "setUserTargetReaction now u i ty t r = (res, r')"
  shows "reaction_of r' = (reaction_of r)((u, i, ty) \<mapsto> t)"
proof (rule ext)
  fix k :: "int \<times> int \<times> ReactionTargetType"
  obtain v j tz where k: "k = (v, j, tz)" using prod_cases3 by blast
  have ok: "db_ok reaction_ID (reaction_db r)" using assms(1) by (simp add: reactions_ok_def)
  have ok': "reactions_ok r'" by (rule setUserTargetReaction_ok [OF assms])
  show "reaction_of r' k = ((reaction_of r)((u, i, ty) \<mapsto> t)) k"
  proof (rule setUserTargetReaction_cases [OF assms(1), of u i ty t now])
    fix x
    assume "getUserTargetReaction u i ty r = Some x" "reaction_Type x = t"
      "setUserTargetReaction now u i ty t r = (Some (x, False, False), r)"
    with assms(2) show ?thesis by (simp add: k reaction_of_def)
  next
    fix x
    assume x: "key_of x = userTargetKey u i ty" "db_get (reaction_db r) (reaction_ID x) = Some x"
      and s: "setUserTargetReaction now u i ty t r = (Some (Reaction_Update t x, False, True),
        r\<lparr>reaction_db := (reaction_db r)\<lparr>db_Data :=
          put_row (reaction_ID x) (Reaction_Update t x) (db_Data (reaction_db r))\<rparr>\<rparr>)"
    have "getUserTargetReaction v j tz r' =
        (case map_of (userTargetIndex r) (userTargetKey v j tz) of
           None \<Rightarrow> None
         | Some m \<Rightarrow> if m = reaction_ID x then Some (Reaction_Update t x) else db_get (reaction_db r) m)"
      using s assms(2) by (auto simp: getUserTargetReaction_def split: option.splits)
    moreover have "map_of (userTargetIndex r) (userTargetKey v j tz) = Some (reaction_ID x) \<longleftrightarrow>
        (v, j, tz) = (u, i, ty)"
      using reactions_index [OF assms(1), of "userTargetKey v j tz" "reaction_ID x"] x
      by (auto simp: userTargetKey_inject)
    ultimately have "getUserTargetReaction v j tz r' =
        (if (v, j, tz) = (u, i, ty) then Some (Reaction_Update t x) else getUserTargetReaction v j tz r)"
      by (auto simp: getUserTargetReaction_def split: option.splits)
    then show ?thesis by (simp add: k reaction_of_def)
  next
    let ?n = "db_ID (reaction_db r) + 1"
    fix x
    assume none: "getUserTargetReaction u i ty r = None"
      and x: "x = (NewReaction now ty i t u)\<lparr>reaction_ID := ?n\<rparr>"
      and s: "setUserTargetReaction now u i ty t r = (Some (x, True, True),
        r\<lparr>reaction_db := (reaction_db r)\<lparr>db_ID := ?n,
            db_Data := put_row ?n x (db_Data (reaction_db r))\<rparr>,
          userTargetIndex := put_row (userTargetKey u i ty) ?n (userTargetIndex r)\<rparr>)"
    have "getUserTargetReaction v j tz r' =
        (if (v, j, tz) = (u, i, ty) then Some x
         else case map_of (userTargetIndex r) (userTargetKey v j tz) of
           None \<Rightarrow> None | Some m \<Rightarrow> if m = ?n then Some x else db_get (reaction_db r) m)"
      using s assms(2) by (auto simp: getUserTargetReaction_def userTargetKey_inject split: option.splits)
    moreover have "map_of (userTargetIndex r) key \<noteq> Some ?n" for key
      using reactions_index [OF assms(1), of key ?n] db_fresh [OF ok] by simp
    ultimately have "getUserTargetReaction v j tz r' =
        (if (v, j, tz) = (u, i, ty) then Some x else getUserTargetReaction v j tz r)"
      by (auto simp: getUserTargetReaction_def split: option.splits)
    then show ?thesis by (simp add: k reaction_of_def x)
  qed
qed

section \<open>Removing reactions\<close>

text \<open>Both removals take a row out together with its index entry.\<close>

definition drop_reaction :: "int \<Rightarrow> reaction \<Rightarrow> reaction_repo \<Rightarrow> reaction_repo" where
  "drop_reaction n x r =
     r\<lparr>userTargetIndex := del_row (key_of x) (userTargetIndex r),
       reaction_db := (reaction_db r)\<lparr>db_Data := del_row n (db_Data (reaction_db r))\<rparr>\<rparr>"

lemma drop_reaction_get:
  "db_get (reaction_db (drop_reaction n x r)) = (db_get (reaction_db r))(n := None)"
  by (simp add: drop_reaction_def)

lemma drop_reaction_ok:
  assumes "reactions_ok r" "db_get (reaction_db r) n = Some x"
  shows "reactions_ok (drop_reaction n x r)"
proof -
  have "map_of (userTargetIndex (drop_reaction n x r)) key = Some m \<longleftrightarrow>
      (\<exists>y. db_get (reaction_db (drop_reaction n x r)) m = Some y \<and> key_of y = key)" for key m
    using reactions_index [OF assms(1), of key m] reactions_index [OF assms(1), of "key_of x" m]
      reactions_index [OF assms(1), of "key_of x" n] assms(2)
    by (auto simp: drop_reaction_get) (auto simp: drop_reaction_def split: if_splits)
  moreover have "db_ok reaction_ID (reaction_db (drop_reaction n x r))"
    using assms(1) by (simp add: drop_reaction_def reactions_ok_def db_ok_del)
  ultimately show ?thesis by (simp add: reactions_ok_def)
qed

lemma deleteUserTargetReaction_drop:
  assumes "reactions_ok r"
  shows "deleteUserTargetReaction u i ty r =
    (case getUserTargetReaction u i ty r of
       None \<Rightarrow> (False, r) | Some x \<Rightarrow> (True, drop_reaction (reaction_ID x) x r))"
proof (cases "map_of (userTargetIndex r) (userTargetKey u i ty)")
  case None
  then show ?thesis by (simp add: deleteUserTargetReaction_def getUserTargetReaction_def)
next
  case (Some n)
  then obtain x where x: "db_get (reaction_db r) n = Some x" "key_of x = userTargetKey u i ty"
    using reactions_index [OF assms] by blast
  moreover have "reaction_ID x = n"
    using assms db_get_bounds [OF _ x(1)] by (simp add: reactions_ok_def)
  ultimately show ?thesis
    using Some by (simp add: deleteUserTargetReaction_def getUserTargetReaction_def drop_reaction_def Let_def)
qed

lemma deleteUserTargetReaction_ok [inv_intros]:
  assumes "reactions_ok r"
  shows "reactions_ok (snd (deleteUserTargetReaction u i ty r))"
  using assms reactions_get [OF assms, of u i ty] drop_reaction_ok [OF assms]
  by (simp add: deleteUserTargetReaction_drop split: option.split)

lemma deleteUserTargetReaction_of:
  assumes "reactions_ok r"
  shows "reaction_of (snd (deleteUserTargetReaction u i ty r)) = (reaction_of r)((u, i, ty) := None) \<and>
    (fst (deleteUserTargetReaction u i ty r) \<longleftrightarrow> reaction_of r (u, i, ty) \<noteq> None)"
proof (cases "getUserTargetReaction u i ty r")
  case None
  then have "reaction_of r (u, i, ty) = None" by (simp add: reaction_of_def)
  with None show ?thesis by (simp add: deleteUserTargetReaction_drop [OF assms] fun_upd_idem)
next
  case (Some x)
  then have x: "db_get (reaction_db r) (reaction_ID x) = Some x" "key_of x = userTargetKey u i ty"
    using reactions_get [OF assms] by blast+
  have "getUserTargetReaction v j tz (drop_reaction (reaction_ID x) x r) =
      (if (v, j, tz) = (u, i, ty) then None else getUserTargetReaction v j tz r)" for v j tz
    using reactions_index [OF assms, of "userTargetKey v j tz" "reaction_ID x"] x
    by (auto simp: getUserTargetReaction_def drop_reaction_def userTargetKey_inject split: option.splits)
  then have "reaction_of (drop_reaction (reaction_ID x) x r) = (reaction_of r)((u, i, ty) := None)"
    by (auto simp: reaction_of_def fun_eq_iff)
  with Some show ?thesis by (simp add: deleteUserTargetReaction_drop [OF assms] reaction_of_def)
qed

definition on_target :: "int \<Rightarrow> ReactionTargetType \<Rightarrow> reaction \<Rightarrow> bool" where
  "on_target targetID targetType x \<longleftrightarrow> reaction_TargetID x = targetID \<and> reaction_TargetType x = targetType"

lemma deleteByTarget_step_eq:
  "deleteByTarget_step i ty (n, x) (c, r) =
    (if on_target i ty x then (c + 1, drop_reaction n x r) else (c, r))"
  by (auto simp: deleteByTarget_step_def on_target_def drop_reaction_def key_of_def)

lemma deleteByTarget_fold:
  assumes "reactions_ok r" "distinct (map fst ls)" "\<forall>(n, x) \<in> set ls. db_get (reaction_db r) n = Some x"
  shows "\<exists>r'. fold (deleteByTarget_step i ty) ls (c, r) =
      (c + int (length (filter (\<lambda>(n, x). on_target i ty x) ls)), r') \<and> reactions_ok r' \<and>
    db_get (reaction_db r') = (\<lambda>n. if \<exists>x. (n, x) \<in> set ls \<and> on_target i ty x then None
                               else db_get (reaction_db r) n)"
  using assms
proof (induction ls arbitrary: c r)
  case Nil
  then show ?case by simp
next
  case (Cons row ls)
  obtain n x where row: "row = (n, x)" by (cases row) auto
  show ?case
  proof (cases "on_target i ty x")
    case True
    let ?r = "drop_reaction n x r"
    have n: "db_get (reaction_db r) n = Some x" using Cons.prems(3) row by simp
    have "\<forall>(m, y) \<in> set ls. db_get (reaction_db ?r) m = Some y"
      using Cons.prems(2,3) row by (force simp: drop_reaction_get)
    with Cons.IH [of ?r "c + 1"] Cons.prems(2) drop_reaction_ok [OF Cons.prems(1) n] row
    obtain r' where r': "fold (deleteByTarget_step i ty) ls (c + 1, ?r) =
          (c + 1 + int (length (filter (\<lambda>(n, x). on_target i ty x) ls)), r')" "reactions_ok r'"
        "db_get (reaction_db r') = (\<lambda>n. if \<exists>x. (n, x) \<in> set ls \<and> on_target i ty x then None
                               else db_get (reaction_db ?r) n)"
      by auto
    show ?thesis
      by (rule exI [of _ r'])
        (use r' True row in \<open>auto simp: deleteByTarget_step_eq drop_reaction_get fun_eq_iff\<close>)
  next
    case False
    with Cons.IH [of r c] Cons.prems row
    obtain r' where r': "fold (deleteByTarget_step i ty) ls (c, r) =
          (c + int (length (filter (\<lambda>(n, x). on_target i ty x) ls)), r')" "reactions_ok r'"
        "db_get (reaction_db r') = (\<lambda>n. if \<exists>x. (n, x) \<in> set ls \<and> on_target i ty x then None
                               else db_get (reaction_db r) n)"
      by auto
    show ?thesis
      by (rule exI [of _ r'])
        (use r' False row in \<open>auto simp: deleteByTarget_step_eq fun_eq_iff\<close>)
  qed
qed

lemma deleteByTarget_rows:
  assumes "reactions_ok r" "deleteByTarget i ty r = (cnt, r')"
  shows "cnt = int (length (getByTarget i ty r)) \<and> reactions_ok r' \<and>
    db_get (reaction_db r') = (\<lambda>n. case db_get (reaction_db r) n of
      None \<Rightarrow> None | Some x \<Rightarrow> if on_target i ty x then None else Some x)"
proof -
  have d: "distinct (map fst (db_Data (reaction_db r)))"
    using assms(1) by (simp add: reactions_ok_def db_ok_def)
  then have rows: "(n, x) \<in> set (db_Data (reaction_db r)) \<longleftrightarrow> db_get (reaction_db r) n = Some x" for n x
    by (simp add: db_get_def)
  have "length (filter (\<lambda>(n, x). on_target i ty x) (db_Data (reaction_db r))) = length (getByTarget i ty r)"
    by (simp add: getByTarget_def db_rows_def filter_map on_target_def comp_def case_prod_unfold)
  moreover have "\<forall>(n, x) \<in> set (db_Data (reaction_db r)). db_get (reaction_db r) n = Some x"
    using rows by blast
  ultimately have c: "cnt = int (length (getByTarget i ty r))" "reactions_ok r'"
    and g: "db_get (reaction_db r') = (\<lambda>n. if \<exists>x. db_get (reaction_db r) n = Some x \<and> on_target i ty x
      then None else db_get (reaction_db r) n)"
    using deleteByTarget_fold [OF assms(1) d, of i ty 0] assms(2)
    by (auto simp: deleteByTarget_def rows)
  from g have "db_get (reaction_db r') = (\<lambda>n. case db_get (reaction_db r) n of
      None \<Rightarrow> None | Some x \<Rightarrow> if on_target i ty x then None else Some x)"
    by (auto simp: fun_eq_iff split: option.split)
  with c show ?thesis by simp
qed

lemma deleteByTarget_of:
  assumes "reactions_ok r" "deleteByTarget i ty r = (cnt, r')"
  shows "reaction_of r' (u, j, tz) = (if j = i \<and> tz = ty then None else reaction_of r (u, j, tz))"
proof (rule option_eqI)
  fix t
  have r': "reactions_ok r'" and g: "db_get (reaction_db r') = (\<lambda>n. case db_get (reaction_db r) n of
      None \<Rightarrow> None | Some x \<Rightarrow> if on_target i ty x then None else Some x)"
    using deleteByTarget_rows [OF assms] by blast+
  have "db_get (reaction_db r') n = Some x \<longleftrightarrow>
      db_get (reaction_db r) n = Some x \<and> \<not> on_target i ty x" for n x
    by (auto simp: g split: option.splits)
  then show "reaction_of r' (u, j, tz) = Some t \<longleftrightarrow>
      (if j = i \<and> tz = ty then None else reaction_of r (u, j, tz)) = Some t"
    by (auto simp: reaction_of_iff [OF r'] reaction_of_iff [OF assms(1)] key_of_eq on_target_def)
qed

end
