(* ===== verification/RepoReport.thy ===== *)
theory RepoReport
  imports RepoUser "HOL-Library.Product_Lexorder"
begin

text \<open>
  \<open>persistence/inmemory/reportRepository.go\<close>. A user reports a target once: \<open>save\<close> refuses a
  second report (the contract \<open>unique_table\<close>). The list shows pending reports before
  resolved ones and the newest first among each; its cursor is a position in that list, not a
  bound on the key.
\<close>

type_synonym report_repo = "report db"

definition sameReport :: "report \<Rightarrow> report \<Rightarrow> bool" where
  "sameReport existing rep \<longleftrightarrow>
     report_ReporterUserID existing = report_ReporterUserID rep \<and>
     report_TargetType existing = report_TargetType rep \<and>
     report_TargetID existing = report_TargetID rep"

definition Report_save :: "report \<Rightarrow> report_repo \<Rightarrow> (go_error + report) \<times> report_repo" where
  "Report_save rep r =
     (if \<exists>x \<in> set (db_rows r). sameReport x rep
      then (Inl (Sentinel ErrReportAlreadyExists), r)
      else let newID = db_ID r + 1; saved = rep\<lparr>report_ID := newID\<rparr>
           in (Inr saved, r\<lparr>db_ID := newID, db_Data := put_row newID saved (db_Data r)\<rparr>))"

definition Report_selectByID :: "int \<Rightarrow> report_repo \<Rightarrow> report option" where
  "Report_selectByID i r = db_get r i"

definition selectByReporterAndTarget ::
  "int \<Rightarrow> ReportTargetType \<Rightarrow> int \<Rightarrow> report_repo \<Rightarrow> report option" where
  "selectByReporterAndTarget reporterUserID targetType targetID r =
     find (\<lambda>x. report_ReporterUserID x = reporterUserID \<and> report_TargetType x = targetType \<and>
               report_TargetID x = targetID) (db_rows r)"

definition ExistsByReporterUserID :: "int \<Rightarrow> report_repo \<Rightarrow> bool" where
  "ExistsByReporterUserID reporterUserID r \<longleftrightarrow>
     (\<exists>x \<in> set (db_rows r). report_ReporterUserID x = reporterUserID)"

text \<open>The sort key: pending reports (\<open>False\<close>) come first, then the larger key.\<close>

definition report_rank :: "report \<Rightarrow> bool \<times> int" where
  "report_rank x = (report_Status x \<noteq> ReportStatusPending, - report_ID x)"

text \<open>The position after the element with the given mark, or the end.\<close>

fun after_mark :: "('a \<Rightarrow> bool) \<Rightarrow> 'a list \<Rightarrow> 'a list" where
  "after_mark P [] = []"
| "after_mark P (x # xs) = (if P x then xs else after_mark P xs)"

definition Report_selectList :: "ReportStatus option \<Rightarrow> int \<Rightarrow> int \<Rightarrow> report_repo \<Rightarrow> report list" where
  "Report_selectList status limit lastID r =
     (if limit \<le> 0 then []
      else let reports = sort_key report_rank
                 (filter (\<lambda>x. status = None \<or> status = Some (report_Status x)) (db_rows r));
               rest = (if 0 < lastID then after_mark (\<lambda>x. report_ID x = lastID) reports else reports)
           in take_int limit rest)"

definition Report_update :: "report \<Rightarrow> report_repo \<Rightarrow> report_repo" where
  "Report_update rep r =
     (case db_get r (report_ID rep) of
        None \<Rightarrow> r
      | Some _ \<Rightarrow> r\<lparr>db_Data := put_row (report_ID rep) rep (db_Data r)\<rparr>)"

definition Report_snapshot :: "report_repo \<Rightarrow> report_repo" where
  "Report_snapshot r = \<lparr>db_ID = db_ID r, db_Data = db_Data r\<rparr>"

definition Report_restore :: "report_repo \<Rightarrow> report_repo \<Rightarrow> report_repo" where
  "Report_restore state r = r\<lparr>db_ID := db_ID state, db_Data := db_Data state\<rparr>"

lemma Report_restore_snapshot [simp]: "Report_restore (Report_snapshot s) r = s"
  by (simp add: Report_restore_def Report_snapshot_def)

section \<open>One report per reporter and target\<close>

definition reports_ok :: "report_repo \<Rightarrow> bool" where
  "reports_ok r \<longleftrightarrow> db_ok report_ID r \<and>
     (\<forall>i j x y. db_get r i = Some x \<longrightarrow> db_get r j = Some y \<longrightarrow> sameReport x y \<longrightarrow> i = j)"

lemma sameReport_sym: "sameReport x y = sameReport y x"
  by (auto simp: sameReport_def)

lemma sameReport_ID [simp]: "sameReport (x\<lparr>report_ID := i\<rparr>) y = sameReport x y"
  "sameReport y (x\<lparr>report_ID := i\<rparr>) = sameReport y x"
  by (simp_all add: sameReport_def)

lemma Report_save_saved:
  assumes "db_ok report_ID r" "Report_save x r = (Inr w, r')"
  shows "w = x\<lparr>report_ID := db_ID r + 1\<rparr>" "db_get r' = (db_get r)(db_ID r + 1 \<mapsto> w)"
    "db_ok report_ID r'" "\<forall>i y. db_get r i = Some y \<longrightarrow> \<not> sameReport y x"
  using assms rows_clash [OF assms(1), of "\<lambda>y. sameReport y x"]
    db_ok_insert [OF assms(1), of "x\<lparr>report_ID := db_ID r + 1\<rparr>"]
  by (auto simp: Report_save_def Let_def split: if_splits)

lemma Report_save_ok [inv_intros]:
  assumes "reports_ok r" "Report_save x r = (res, r')"
  shows "reports_ok r'"
proof (cases res)
  case (Inl e)
  with assms show ?thesis by (auto simp: Report_save_def Let_def split: if_splits)
next
  case (Inr w)
  have ok: "db_ok report_ID r" using assms(1) by (simp add: reports_ok_def)
  note s = Report_save_saved [OF ok assms(2) [unfolded Inr]]
  have "\<not> sameReport y w" "\<not> sameReport w y" if "db_get r i = Some y" for i y
    using s(4) that sameReport_sym [of y x] by (auto simp: s(1))
  with s(2,3) assms(1) show ?thesis by (auto simp: reports_ok_def split: if_splits)
qed

text \<open>Resolving keeps the reporter and the target, so it keeps the invariant.\<close>

lemma Report_update_ok [inv_intros]:
  assumes "reports_ok r" "db_get r (report_ID x) = Some y" "sameReport y x"
  shows "reports_ok (Report_update x r)"
proof -
  have ok: "db_ok report_ID r" using assms(1) by (simp add: reports_ok_def)
  have u: "Report_update x r = r\<lparr>db_Data := put_row (report_ID x) x (db_Data r)\<rparr>"
    by (simp add: Report_update_def assms(2))
  have "sameReport z x \<longleftrightarrow> sameReport z y" "sameReport x z \<longleftrightarrow> sameReport y z" for z
    using assms(3) by (auto simp: sameReport_def)
  moreover have "db_ok report_ID (Report_update x r)"
    unfolding u using assms(2) by (intro db_ok_put [OF ok]) simp
  ultimately show ?thesis
    using assms(1,2) unfolding reports_ok_def u db_get_put by (auto split: if_splits)
qed

lemma Resolve_same:
  "Resolve now status note resolver x = (b, y) \<Longrightarrow> sameReport x y \<and> report_ID y = report_ID x"
  by (auto simp: Resolve_def sameReport_def split: if_splits)

interpretation reports: unique_table report_ID db_get reports_ok sameReport Report_save
proof unfold_locales
  fix r u i x v e r' w
  assume inv: "reports_ok r"
  then have ok: "db_ok report_ID r" by (simp add: reports_ok_def)
  show "db_get r i = Some x \<Longrightarrow> sameReport x v \<Longrightarrow> \<exists>e. Report_save v r = (Inl e, r)"
    using rows_clash [OF ok, of "\<lambda>x. sameReport x v"] by (auto simp: Report_save_def)
  show "Report_save v r = (Inl e, r') \<Longrightarrow>
      r' = r \<and> (\<exists>i x. db_get r i = Some x \<and> sameReport x v)"
    using rows_clash [OF ok, of "\<lambda>x. sameReport x v"]
    by (auto simp: Report_save_def Let_def split: if_splits)
  assume s: "Report_save v r = (Inr w, r')"
  then show "db_get r (report_ID w) = None \<and> db_get r' = (db_get r)(report_ID w \<mapsto> w)"
    using Report_save_saved [OF ok s] db_fresh [OF ok] by simp
  show "reports_ok r'" by (rule Report_save_ok [OF inv s])
next
  fix v r w r' u
  show "Report_save v r = (Inr w, r') \<Longrightarrow> sameReport w u = sameReport v u"
    by (auto simp: Report_save_def Let_def split: if_splits)
qed

section \<open>The list and its cursor\<close>

lemma after_mark_nth:
  "distinct (map f xs) \<Longrightarrow> n < length xs \<Longrightarrow> after_mark (\<lambda>x. f x = f (xs ! n)) xs = drop (Suc n) xs"
proof (induction xs arbitrary: n)
  case Nil
  then show ?case by simp
next
  case (Cons x xs)
  show ?case
  proof (cases n)
    case 0
    then show ?thesis by simp
  next
    case (Suc m)
    then have "xs ! m \<in> set xs" using Cons.prems by simp
    then have "f x \<noteq> f (xs ! m)" using Cons.prems(1) by force
    with Suc Cons show ?thesis by simp
  qed
qed

definition ranked_reports :: "ReportStatus option \<Rightarrow> report_repo \<Rightarrow> report list" where
  "ranked_reports status r =
     sort_key report_rank (filter (\<lambda>x. status = None \<or> status = Some (report_Status x)) (db_rows r))"

lemma ranked_distinct: "db_ok report_ID r \<Longrightarrow> distinct (map report_ID (ranked_reports status r))"
proof -
  assume "db_ok report_ID r"
  then have "distinct (map report_ID (filter (\<lambda>x. status = None \<or> status = Some (report_Status x)) (db_rows r)))"
    by (intro filter_distinct_rids db_rows_distinct)
  moreover have "mset (map report_ID (ranked_reports status r)) = mset (map report_ID
      (filter (\<lambda>x. status = None \<or> status = Some (report_Status x)) (db_rows r)))"
    by (simp add: ranked_reports_def)
  ultimately show ?thesis by (metis mset_eq_imp_distinct_iff)
qed

text \<open>The page after the report at position \<open>n\<close> starts at position \<open>n + 1\<close>.\<close>

lemma Report_selectList_next:
  assumes "db_ok report_ID r" "0 < limit" "n < length (ranked_reports status r)"
  shows "Report_selectList status limit (report_ID (ranked_reports status r ! n)) r =
    take (nat limit) (drop (Suc n) (ranked_reports status r))"
proof -
  have "ranked_reports status r ! n \<in> set (ranked_reports status r)" using assms(3) by simp
  then have "0 < report_ID (ranked_reports status r ! n)"
    using db_rows_bounds [OF assms(1)] by (auto simp: ranked_reports_def)
  with assms after_mark_nth [OF ranked_distinct [OF assms(1)] assms(3)] show ?thesis
    by (simp add: Report_selectList_def ranked_reports_def Let_def take_int_def)
qed

lemma ranked_order: "sorted (map report_rank (ranked_reports status r))"
  by (simp add: ranked_reports_def)

end
