(* ===== verification/RepoNotification.thy ===== *)
theory RepoNotification
  imports Entities Pagination GoHeap
begin

text \<open>
  \<open>persistence/inmemory/notificationRepository.go\<close>. Saving is idempotent: a notification
  that an earlier row equals (\<open>sameNotificationDedup\<close>) is answered with that row's key.
  Read marks are never taken back, and the unread count is what the list shows as unread.
\<close>

type_synonym notification_repo = "notification db"

definition sameNotificationDedup :: "notification \<Rightarrow> notification \<Rightarrow> bool" where
  "sameNotificationDedup left right \<longleftrightarrow>
     (if notification_DedupKey left \<noteq> [] \<or> notification_DedupKey right \<noteq> []
      then notification_DedupKey left \<noteq> [] \<and> notification_DedupKey left = notification_DedupKey right
      else notification_RecipientUserID left = notification_RecipientUserID right \<and>
           notification_ActorUserID left = notification_ActorUserID right \<and>
           notification_Type left = notification_Type right \<and>
           notification_PostID left = notification_PostID right \<and>
           notification_CommentID left = notification_CommentID right \<and>
           notification_ActorNameSnapshot left = notification_ActorNameSnapshot right \<and>
           notification_PostTitleSnapshot left = notification_PostTitleSnapshot right \<and>
           notification_CommentPreviewSnapshot left = notification_CommentPreviewSnapshot right \<and>
           notification_CreatedAt left = notification_CreatedAt right)"

text \<open>
  The result is the caller's object as \<open>save\<close> leaves it, and the repository. \<open>uuid\<close> is
  the UUID that a notification without one is given.
\<close>

definition Notification_save ::
  "string \<Rightarrow> notification \<Rightarrow> notification_repo \<Rightarrow> notification \<times> notification_repo" where
  "Notification_save uuid n r =
     (case find (\<lambda>(i, existing). sameNotificationDedup existing n) (db_Data r) of
        Some (i, existing) \<Rightarrow>
          (n\<lparr>notification_ID := i, notification_UUID := notification_UUID existing,
             notification_ReadAt := notification_ReadAt existing,
             notification_CreatedAt := notification_CreatedAt existing\<rparr>, r)
      | None \<Rightarrow>
          let newID = db_ID r + 1;
              saved0 = n\<lparr>notification_ID := newID\<rparr>;
              saved = (if notification_UUID saved0 = [] then saved0\<lparr>notification_UUID := uuid\<rparr> else saved0)
          in (n\<lparr>notification_ID := newID, notification_UUID := notification_UUID saved\<rparr>,
              r\<lparr>db_ID := newID, db_Data := put_row newID saved (db_Data r)\<rparr>))"

definition Notification_SelectByID :: "int \<Rightarrow> notification_repo \<Rightarrow> notification option" where
  "Notification_SelectByID i r = db_get r i"

definition Notification_SelectByUUID :: "string \<Rightarrow> notification_repo \<Rightarrow> notification option" where
  "Notification_SelectByUUID uuid r = find (\<lambda>n. notification_UUID n = uuid) (db_rows r)"

definition SelectByRecipientUserID :: "int \<Rightarrow> int \<Rightarrow> int \<Rightarrow> notification_repo \<Rightarrow> notification list" where
  "SelectByRecipientUserID recipientUserID limit lastID r =
     (if limit \<le> 0 then []
      else select_top notification_ID (heap_push notification_ID) (heap_pop notification_ID) (nat limit)
             (filter (\<lambda>n. notification_RecipientUserID n = recipientUserID \<and>
                          \<not> (0 < lastID \<and> lastID \<le> notification_ID n)) (db_rows r)))"

definition CountUnreadByRecipientUserID :: "int \<Rightarrow> notification_repo \<Rightarrow> int" where
  "CountUnreadByRecipientUserID recipientUserID r =
     int (length (filter (\<lambda>n. notification_RecipientUserID n = recipientUserID \<and>
                              notification_ReadAt n = None) (db_rows r)))"

definition markRead :: "time \<Rightarrow> int \<Rightarrow> notification_repo \<Rightarrow> notification_repo" where
  "markRead now i r =
     (case db_get r i of
        None \<Rightarrow> r
      | Some n \<Rightarrow> r\<lparr>db_Data := put_row i (MarkRead now n) (db_Data r)\<rparr>)"

text \<open>The clock is read once for each row, in the order of the rows.\<close>

fun mark_all :: "(nat \<Rightarrow> time) \<Rightarrow> nat \<Rightarrow> int \<Rightarrow> (int \<times> notification) list \<Rightarrow> int \<times> (int \<times> notification) list" where
  "mark_all clock k recipientUserID [] = (0, [])"
| "mark_all clock k recipientUserID ((i, n) # rows) =
     (if notification_RecipientUserID n \<noteq> recipientUserID \<or> notification_ReadAt n \<noteq> None
      then let (changed, rest) = mark_all clock k recipientUserID rows in (changed, (i, n) # rest)
      else let (changed, rest) = mark_all clock (Suc k) recipientUserID rows
           in (changed + 1, (i, MarkRead (clock k) n) # rest))"

definition MarkAllReadByRecipientUserID ::
  "(nat \<Rightarrow> time) \<Rightarrow> int \<Rightarrow> notification_repo \<Rightarrow> int \<times> notification_repo" where
  "MarkAllReadByRecipientUserID clock recipientUserID r =
     (let (changed, rows) = mark_all clock 0 recipientUserID (db_Data r)
      in (changed, r\<lparr>db_Data := rows\<rparr>))"

definition Notification_snapshot :: "notification_repo \<Rightarrow> notification_repo" where
  "Notification_snapshot r = \<lparr>db_ID = db_ID r, db_Data = db_Data r\<rparr>"

definition Notification_restore :: "notification_repo \<Rightarrow> notification_repo \<Rightarrow> notification_repo" where
  "Notification_restore state r = r\<lparr>db_ID := db_ID state, db_Data := db_Data state\<rparr>"

lemma Notification_restore_snapshot [simp]: "Notification_restore (Notification_snapshot s) r = s"
  by (simp add: Notification_restore_def Notification_snapshot_def)

section \<open>Deduplication\<close>

lemma sameNotificationDedup_sym: "sameNotificationDedup m n = sameNotificationDedup n m"
  by (auto simp: sameNotificationDedup_def)

lemma sameNotificationDedup_trans:
  "sameNotificationDedup l m \<Longrightarrow> sameNotificationDedup m n \<Longrightarrow> sameNotificationDedup l n"
  by (auto simp: sameNotificationDedup_def split: if_splits)

lemma sameNotificationDedup_refl [simp]: "sameNotificationDedup n n"
  by (simp add: sameNotificationDedup_def)

lemma sameNotificationDedup_upd [simp]:
  "sameNotificationDedup (n\<lparr>notification_ID := i\<rparr>) m = sameNotificationDedup n m"
  "sameNotificationDedup (n\<lparr>notification_UUID := u\<rparr>) m = sameNotificationDedup n m"
  "sameNotificationDedup (n\<lparr>notification_ReadAt := t\<rparr>) m = sameNotificationDedup n m"
  by (simp_all add: sameNotificationDedup_def)

lemma sameNotificationDedup_upd2 [simp]:
  "sameNotificationDedup m (n\<lparr>notification_ID := i\<rparr>) = sameNotificationDedup m n"
  "sameNotificationDedup m (n\<lparr>notification_UUID := u\<rparr>) = sameNotificationDedup m n"
  "sameNotificationDedup m (n\<lparr>notification_ReadAt := t\<rparr>) = sameNotificationDedup m n"
  by (simp_all add: sameNotificationDedup_def)

lemma MarkRead_same [simp]:
  "sameNotificationDedup (MarkRead now n) m = sameNotificationDedup n m"
  "sameNotificationDedup m (MarkRead now n) = sameNotificationDedup m n"
  "notification_ID (MarkRead now n) = notification_ID n"
  "notification_RecipientUserID (MarkRead now n) = notification_RecipientUserID n"
  "notification_ReadAt (MarkRead now n) \<noteq> None"
  "\<exists>t. notification_ReadAt (MarkRead now n) = Some t"
  by (auto simp: MarkRead_def)

definition notifications_ok :: "notification_repo \<Rightarrow> bool" where
  "notifications_ok r \<longleftrightarrow> db_ok notification_ID r \<and>
     (\<forall>i j m n. db_get r i = Some m \<longrightarrow> db_get r j = Some n \<longrightarrow> sameNotificationDedup m n \<longrightarrow> i = j)"

lemma find_row:
  assumes "distinct (map fst m)"
  shows "find (\<lambda>(i, v). P v) m = None \<longleftrightarrow> (\<forall>i v. map_of m i = Some v \<longrightarrow> \<not> P v)"
    "find (\<lambda>(i, v). P v) m = Some (i, v) \<Longrightarrow> map_of m i = Some v \<and> P v"
proof -
  show "find (\<lambda>(i, v). P v) m = None \<longleftrightarrow> (\<forall>i v. map_of m i = Some v \<longrightarrow> \<not> P v)"
    using assms by (auto simp: find_None_iff map_of_row [symmetric])
  assume "find (\<lambda>(i, v). P v) m = Some (i, v)"
  then have "(i, v) \<in> set m" "P v" using nth_mem by (fastforce simp: find_Some_iff)+
  with assms show "map_of m i = Some v \<and> P v" by simp
qed

lemma Notification_save_cases:
  assumes "db_ok notification_ID r"
  obtains
    (known) i existing where "db_get r i = Some existing" "sameNotificationDedup existing n"
      "snd (Notification_save uuid n r) = r" "notification_ID (fst (Notification_save uuid n r)) = i"
  | (fresh) saved where "\<forall>i m. db_get r i = Some m \<longrightarrow> \<not> sameNotificationDedup m n"
      "notification_ID saved = db_ID r + 1" "notification_ID (fst (Notification_save uuid n r)) = db_ID r + 1"
      "\<And>m. sameNotificationDedup saved m = sameNotificationDedup n m"
      "notification_RecipientUserID saved = notification_RecipientUserID n"
      "notification_ReadAt saved = notification_ReadAt n"
      "snd (Notification_save uuid n r) =
        r\<lparr>db_ID := db_ID r + 1, db_Data := put_row (db_ID r + 1) saved (db_Data r)\<rparr>"
proof (cases "find (\<lambda>(i, existing). sameNotificationDedup existing n) (db_Data r)")
  case (Some row)
  obtain i e where row: "row = (i, e)" by (cases row) auto
  have "db_get r i = Some e \<and> sameNotificationDedup e n"
    using find_row(2) [of "db_Data r" "\<lambda>v. sameNotificationDedup v n" i e] assms Some row
    by (simp add: db_ok_def db_get_def)
  then show ?thesis
    using Some row by (intro known [of i e]) (simp_all add: Notification_save_def)
next
  case None
  let ?s = "let s = n\<lparr>notification_ID := db_ID r + 1\<rparr> in
    if notification_UUID s = [] then s\<lparr>notification_UUID := uuid\<rparr> else s"
  have "\<forall>i m. db_get r i = Some m \<longrightarrow> \<not> sameNotificationDedup m n"
    using find_row(1) [of "db_Data r" "\<lambda>v. sameNotificationDedup v n"] assms None
    by (simp add: db_ok_def db_get_def)
  then show ?thesis
    by (rule fresh [of ?s]) (simp_all add: Notification_save_def None Let_def)
qed

lemma Notification_save_ok [inv_intros]:
  assumes "notifications_ok r"
  shows "notifications_ok (snd (Notification_save uuid n r))"
proof -
  have ok: "db_ok notification_ID r" using assms by (simp add: notifications_ok_def)
  from ok show ?thesis
  proof (cases rule: Notification_save_cases [where n = n and uuid = uuid])
    case known
    with assms show ?thesis by simp
  next
    case (fresh saved)
    have "\<not> sameNotificationDedup saved m" "\<not> sameNotificationDedup m saved" if "db_get r i = Some m" for i m
      using fresh(1,4) that sameNotificationDedup_sym by blast+
    moreover have "db_ok notification_ID (snd (Notification_save uuid n r))"
      unfolding fresh(7) by (rule db_ok_insert [OF ok fresh(2)])
    ultimately show ?thesis
      using assms unfolding notifications_ok_def fresh(7) db_get_put by (auto split: if_splits)
  qed
qed

text \<open>Saving again answers the key of the first time and changes nothing.\<close>

lemma Notification_save_idem:
  assumes "notifications_ok r" "Notification_save uuid n r = (m, r')" "sameNotificationDedup n k"
  shows "snd (Notification_save uuid' k r') = r' \<and>
    notification_ID (fst (Notification_save uuid' k r')) = notification_ID m"
proof -
  have ok: "db_ok notification_ID r" using assms(1) by (simp add: notifications_ok_def)
  have ok': "notifications_ok r'" using Notification_save_ok [OF assms(1), of uuid n] assms(2) by simp
  then have okd': "db_ok notification_ID r'" by (simp add: notifications_ok_def)
  obtain x where x: "db_get r' (notification_ID m) = Some x" "sameNotificationDedup x k"
  proof -
    from ok show ?thesis
    proof (cases rule: Notification_save_cases [where n = n and uuid = uuid])
      case (known i existing)
      with assms(2) sameNotificationDedup_trans [OF known(2) assms(3)] show ?thesis
        by (intro that [of existing]) auto
    next
      case (fresh saved)
      with assms(2,3) show ?thesis by (intro that [of saved]) auto
    qed
  qed
  from okd' show ?thesis
  proof (cases rule: Notification_save_cases [where n = k and uuid = uuid'])
    case (known i e)
    then have "sameNotificationDedup x e"
      using sameNotificationDedup_trans [OF x(2)] sameNotificationDedup_sym by blast
    then have "notification_ID m = i"
      using ok' x(1) known(1) unfolding notifications_ok_def by blast
    with known show ?thesis by simp
  next
    case fresh
    with x show ?thesis by blast
  qed
qed

section \<open>Read marks\<close>

lemma markRead_get:
  "db_get (markRead now i r) = (db_get r)(i := map_option (MarkRead now) (db_get r i))"
  by (auto simp: markRead_def fun_eq_iff split: option.split)

lemma markRead_ok [inv_intros]:
  assumes "notifications_ok r"
  shows "notifications_ok (markRead now i r)"
proof (cases "db_get r i")
  case None
  with assms show ?thesis by (simp add: markRead_def)
next
  case (Some n)
  have ok: "db_ok notification_ID r" using assms by (simp add: notifications_ok_def)
  have "notification_ID n = i" using db_get_bounds [OF ok Some] by simp
  with Some have "db_ok notification_ID (markRead now i r)"
    using db_ok_put [OF ok, of "MarkRead now n"] by (simp add: markRead_def)
  then show ?thesis
    using assms Some unfolding notifications_ok_def markRead_get by (auto split: if_splits)
qed

lemma mark_all_rows:
  "mark_all clock k u rows = (c, rows') \<Longrightarrow>
    map fst rows' = map fst rows \<and>
    c = int (length (filter (\<lambda>(i, n). notification_RecipientUserID n = u \<and> notification_ReadAt n = None) rows)) \<and>
    list_all2 (\<lambda>(i, n) (j, m). i = j \<and> (m = n \<or> (\<exists>t. m = MarkRead t n)) \<and>
      (notification_RecipientUserID n = u \<longrightarrow> notification_ReadAt m \<noteq> None) \<and>
      (notification_RecipientUserID n \<noteq> u \<longrightarrow> m = n)) rows rows'"
proof (induction clock k u rows arbitrary: c rows' rule: mark_all.induct)
  case (1 clock k u)
  then show ?case by simp
next
  case (2 clock k u i n rows)
  then show ?case
    by (auto simp: Let_def split: if_splits prod.splits)
qed

lemma mark_all_get:
  assumes "mark_all clock k u rows = (c, rows')" "map_of rows i = Some n"
  shows "\<exists>m. map_of rows' i = Some m \<and> (m = n \<or> (\<exists>t. m = MarkRead t n)) \<and>
      (notification_RecipientUserID n = u \<longrightarrow> notification_ReadAt m \<noteq> None) \<and>
      (notification_RecipientUserID n \<noteq> u \<longrightarrow> m = n)"
proof -
  from mark_all_rows [OF assms(1)] have "list_all2 (\<lambda>(i, n) (j, m). i = j \<and>
      (m = n \<or> (\<exists>t. m = MarkRead t n)) \<and>
      (notification_RecipientUserID n = u \<longrightarrow> notification_ReadAt m \<noteq> None) \<and>
      (notification_RecipientUserID n \<noteq> u \<longrightarrow> m = n)) rows rows'" by blast
  then show ?thesis using assms(2)
    by (induction rows rows' rule: list_all2_induct) (auto split: if_splits)
qed

lemma MarkAllRead_unread:
  assumes "MarkAllReadByRecipientUserID clock u r = (changed, r')"
  shows "changed = CountUnreadByRecipientUserID u r \<and> CountUnreadByRecipientUserID u r' = 0"
proof -
  obtain rows where m: "mark_all clock 0 u (db_Data r) = (changed, rows)" and r': "db_Data r' = rows"
    using assms by (auto simp: MarkAllReadByRecipientUserID_def split: prod.splits)
  from mark_all_rows [OF m] have c: "changed = int (length (filter (\<lambda>(i, n).
        notification_RecipientUserID n = u \<and> notification_ReadAt n = None) (db_Data r)))"
    and l: "list_all2 (\<lambda>(i, n) (j, m). i = j \<and> (m = n \<or> (\<exists>t. m = MarkRead t n)) \<and>
      (notification_RecipientUserID n = u \<longrightarrow> notification_ReadAt m \<noteq> None) \<and>
      (notification_RecipientUserID n \<noteq> u \<longrightarrow> m = n)) (db_Data r) rows" by blast+
  from l have "\<forall>(j, m) \<in> set rows. \<not> (notification_RecipientUserID m = u \<and> notification_ReadAt m = None)"
    by (induction rule: list_all2_induct) auto
  then have "filter (\<lambda>n. notification_RecipientUserID n = u \<and> notification_ReadAt n = None) (db_rows r') = []"
    by (auto simp: filter_empty_conv db_rows_def r')
  with c show ?thesis
    by (simp add: CountUnreadByRecipientUserID_def db_rows_def filter_map comp_def case_prod_unfold)
qed

section \<open>The list\<close>

lemma SelectByRecipientUserID_page:
  assumes "db_ok notification_ID r" "0 < limit"
  shows "SelectByRecipientUserID u limit lastID r =
    page_of notification_ID limit lastID
      (filter (\<lambda>n. notification_RecipientUserID n = u) (db_rows r))"
proof -
  have d: "distinct (map notification_ID (filter P (db_rows r)))" for P
    by (intro filter_distinct_rids db_rows_distinct [OF assms(1)])
  have "SelectByRecipientUserID u limit lastID r =
      take (nat limit) (newest_first notification_ID
        (filter (\<lambda>n. notification_RecipientUserID n = u \<and>
                     \<not> (0 < lastID \<and> lastID \<le> notification_ID n)) (db_rows r)))"
    unfolding SelectByRecipientUserID_def
    using assms(2) array_heap.select_top_newest [of "nat limit" notification_ID, OF _ d] by simp
  then show ?thesis by (simp add: page_of_filter [symmetric] after_cursor_def take_int_def)
qed

end
