(* ===== verification/RepoAttachment.thy ===== *)
theory RepoAttachment
  imports Entities Tables
begin

text \<open>
  \<open>persistence/inmemory/attachmentRepository.go\<close>. Unlike the other repositories, \<open>update\<close>
  writes a row whether or not its key exists, so the repository meets the contract of an
  insertion table only; the clean-up list returns the rows that are orphaned or marked for
  deletion before a cut-off, the longest waiting first.
\<close>

type_synonym attachment_repo = "attachment db"

definition Attachment_save :: "attachment \<Rightarrow> attachment_repo \<Rightarrow> attachment \<times> attachment_repo" where
  "Attachment_save a r =
     (let newID = db_ID r + 1; saved = a\<lparr>attachment_ID := newID\<rparr>
      in (saved, r\<lparr>db_ID := newID, db_Data := put_row newID saved (db_Data r)\<rparr>))"

definition Attachment_selectByID :: "int \<Rightarrow> attachment_repo \<Rightarrow> attachment option" where
  "Attachment_selectByID i r = db_get r i"

definition Attachment_selectByUUID :: "string \<Rightarrow> attachment_repo \<Rightarrow> attachment option" where
  "Attachment_selectByUUID uuid r = find (\<lambda>a. attachment_UUID a = uuid) (db_rows r)"

definition Attachment_selectByPostID :: "int \<Rightarrow> attachment_repo \<Rightarrow> attachment list" where
  "Attachment_selectByPostID postID r = filter (\<lambda>a. attachment_PostID a = postID) (db_rows r)"

definition cleanupEligibleAt :: "attachment \<Rightarrow> time" where
  "cleanupEligibleAt a =
     (case attachment_PendingDeleteAt a of
        Some t \<Rightarrow> t
      | None \<Rightarrow> (case attachment_OrphanedAt a of Some t \<Rightarrow> t | None \<Rightarrow> 0))"

definition attachmentEligibleForCleanup :: "attachment \<Rightarrow> time \<Rightarrow> bool" where
  "attachmentEligibleForCleanup a cutoff \<longleftrightarrow>
     (let eligibleAt = cleanupEligibleAt a in \<not> IsZero eligibleAt \<and> \<not> cutoff < eligibleAt)"

definition selectCleanupCandidatesBefore :: "time \<Rightarrow> int \<Rightarrow> attachment_repo \<Rightarrow> attachment list" where
  "selectCleanupCandidatesBefore cutoff limit r =
     (let out = sort_key cleanupEligibleAt
                  (filter (\<lambda>a. attachmentEligibleForCleanup a cutoff) (db_rows r))
      in if 0 < limit \<and> limit < int (length out) then take_int limit out else out)"

definition Attachment_update :: "attachment \<Rightarrow> attachment_repo \<Rightarrow> attachment_repo" where
  "Attachment_update a r = r\<lparr>db_Data := put_row (attachment_ID a) a (db_Data r)\<rparr>"

definition Attachment_delete :: "int \<Rightarrow> attachment_repo \<Rightarrow> attachment_repo" where
  "Attachment_delete i r = r\<lparr>db_Data := del_row i (db_Data r)\<rparr>"

definition Attachment_snapshot :: "attachment_repo \<Rightarrow> attachment_repo" where
  "Attachment_snapshot r = \<lparr>db_ID = db_ID r, db_Data = db_Data r\<rparr>"

definition Attachment_restore :: "attachment_repo \<Rightarrow> attachment_repo \<Rightarrow> attachment_repo" where
  "Attachment_restore state r = r\<lparr>db_ID := db_ID state, db_Data := db_Data state\<rparr>"

lemma Attachment_restore_snapshot [simp]: "Attachment_restore (Attachment_snapshot s) r = s"
  by (simp add: Attachment_restore_def Attachment_snapshot_def)

interpretation attachments: insert_table attachment_ID db_get db_ID "db_ok attachment_ID" Attachment_save
  by (rule insert_table_db [where set_rid = "\<lambda>i a. a\<lparr>attachment_ID := i\<rparr>"])
    (simp_all add: fun_eq_iff db_insert_def Attachment_save_def Let_def)

lemma Attachment_update_get:
  "db_get (Attachment_update a r) = (db_get r)(attachment_ID a \<mapsto> a)"
  by (simp add: Attachment_update_def)

lemma Attachment_update_ok [inv_intros]:
  assumes "db_ok attachment_ID r" "0 < attachment_ID a" "attachment_ID a \<le> db_ID r"
  shows "db_ok attachment_ID (Attachment_update a r)"
  using assms by (auto simp: db_ok_def Attachment_update_def distinct_put_row set_put_row)

lemma Attachment_delete_ok [inv_intros]:
  "db_ok attachment_ID r \<Longrightarrow> db_ok attachment_ID (Attachment_delete i r)"
  by (simp add: Attachment_delete_def db_ok_del)

lemma cleanup_candidates:
  assumes "a \<in> set (selectCleanupCandidatesBefore cutoff limit r)"
  shows "a \<in> set (db_rows r) \<and> (IsOrphaned a \<or> IsPendingDelete a) \<and> cleanupEligibleAt a \<le> cutoff"
proof -
  have "a \<in> set (db_rows r)" "attachmentEligibleForCleanup a cutoff"
    using assms set_take_int [of limit] by (fastforce simp: selectCleanupCandidatesBefore_def Let_def split: if_splits)+
  then show ?thesis
    by (auto simp: attachmentEligibleForCleanup_def cleanupEligibleAt_def Let_def IsZero_def
        IsOrphaned_def IsPendingDelete_def split: option.splits)
qed

lemma cleanup_sorted: "sorted (map cleanupEligibleAt (selectCleanupCandidatesBefore cutoff limit r))"
proof -
  have "sorted (map f (take n (sort_key f xs)))" for f :: "attachment \<Rightarrow> time" and n xs
    by (metis sorted_sort_key sorted_wrt_take take_map)
  then show ?thesis by (simp add: selectCleanupCandidatesBefore_def Let_def take_int_def)
qed

end
