(* ===== verification/RepoTokens.thy ===== *)
theory RepoTokens
  imports Entities "HOL-Library.Product_Lexorder"
begin

text \<open>
  \<open>persistence/inmemory/passwordResetTokenRepository.go\<close> and
  \<open>emailVerificationTokenRepository.go\<close>: tokens under their hash. The two repositories have
  one contract, the locale \<open>token_table\<close>, and differ in the clean-up: password tokens go in
  the order of the instant they became removable, email tokens in the order of the map.
\<close>

type_synonym token_repo = "(string \<times> token) list"

definition tokens_ok :: "token_repo \<Rightarrow> bool" where
  "tokens_ok r \<longleftrightarrow> distinct (map fst r) \<and> (\<forall>(h, t) \<in> set r. token_TokenHash t = h)"

text \<open>A token may go at \<open>cutoff\<close> when it was consumed or has expired by then.\<close>

definition removable :: "time \<Rightarrow> token \<Rightarrow> bool" where
  "removable cutoff t \<longleftrightarrow>
     (\<exists>c. token_ConsumedAt t = Some c \<and> c \<le> cutoff) \<or> token_ExpiresAt t \<le> cutoff"

section \<open>The contract\<close>

locale token_table =
  fixes inv :: "'r \<Rightarrow> bool"
    and save :: "token \<Rightarrow> 'r \<Rightarrow> 'r"
    and select :: "string \<Rightarrow> 'r \<Rightarrow> token option"
    and latest :: "int \<Rightarrow> 'r \<Rightarrow> token option"
    and invalidate :: "int \<Rightarrow> 'r \<Rightarrow> 'r"
    and cleanup :: "time \<Rightarrow> int \<Rightarrow> 'r \<Rightarrow> int \<times> 'r"
  assumes select_hash: "inv r \<Longrightarrow> select h r = Some t \<Longrightarrow> token_TokenHash t = h"
    and save_select: "inv r \<Longrightarrow> select h (save t r) = (if h = token_TokenHash t then Some t else select h r)"
    and save_inv: "inv r \<Longrightarrow> inv (save t r)"
    and invalidate_select: "inv r \<Longrightarrow> select h (invalidate u r) =
      (case select h r of None \<Rightarrow> None | Some t \<Rightarrow> if token_UserID t = u then None else Some t)"
    and invalidate_inv: "inv r \<Longrightarrow> inv (invalidate u r)"
    and cleanup_keeps: "inv r \<Longrightarrow> cleanup cutoff limit r = (n, r') \<Longrightarrow> select h r = Some t \<Longrightarrow>
      \<not> removable cutoff t \<Longrightarrow> select h r' = Some t"
    and cleanup_only: "inv r \<Longrightarrow> cleanup cutoff limit r = (n, r') \<Longrightarrow> select h r' = Some t \<Longrightarrow>
      select h r = Some t"
    and cleanup_bound: "inv r \<Longrightarrow> cleanup cutoff limit r = (n, r') \<Longrightarrow> 0 \<le> n \<and> n \<le> max 0 limit"
    and cleanup_inv: "inv r \<Longrightarrow> cleanup cutoff limit r = (n, r') \<Longrightarrow> inv r'"
    and latest_some: "inv r \<Longrightarrow> latest u r = Some t \<Longrightarrow>
      select (token_TokenHash t) r = Some t \<and> token_UserID t = u \<and>
      (\<forall>h s. select h r = Some s \<longrightarrow> token_UserID s = u \<longrightarrow> token_CreatedAt s \<le> token_CreatedAt t)"
    and latest_none: "inv r \<Longrightarrow> latest u r = None \<Longrightarrow> select h r = Some t \<Longrightarrow> token_UserID t \<noteq> u"
begin

text \<open>Issuing a token (invalidate, then save) leaves the user with that token only.\<close>

lemma issue_only:
  assumes "inv r" "token_UserID t = u"
  shows "select h (save t (invalidate u r)) = Some s \<and> token_UserID s = u \<longleftrightarrow> s = t \<and> h = token_TokenHash t"
  using assms by (auto simp: save_select invalidate_inv invalidate_select split: option.splits)

lemma issue_others:
  assumes "inv r" "token_UserID t = u" "select h r = Some s" "token_UserID s \<noteq> u" "h \<noteq> token_TokenHash t"
  shows "select h (save t (invalidate u r)) = Some s"
  using assms by (simp add: save_select invalidate_inv invalidate_select)

lemma issue_latest:
  assumes "inv r" "token_UserID t = u"
  shows "latest u (save t (invalidate u r)) = Some t"
proof -
  let ?r = "save t (invalidate u r)"
  have ok: "inv ?r" by (intro save_inv invalidate_inv assms(1))
  have t: "select (token_TokenHash t) ?r = Some t" using issue_only [OF assms] by blast
  have "latest u ?r \<noteq> None"
    using latest_none [OF ok _ t] assms(2) by blast
  then obtain s where s: "latest u ?r = Some s" by blast
  from latest_some [OF ok s] have "select (token_TokenHash s) ?r = Some s" "token_UserID s = u" by simp_all
  then have "s = t" using issue_only [OF assms, of "token_TokenHash s" s] by simp
  with s show ?thesis by simp
qed

text \<open>A token that can still be used survives every clean-up.\<close>

lemma usable_survives:
  assumes "inv r" "cleanup cutoff limit r = (n, r')" "select h r = Some t" "IsUsable now (Some t)"
    "cutoff \<le> now"
  shows "select h r' = Some t"
proof (rule cleanup_keeps [OF assms(1-3)])
  show "\<not> removable cutoff t"
    using assms(4,5) by (auto simp: removable_def IsUsable_def IsConsumed_def IsExpired_def)
qed

end

section \<open>What both repositories do\<close>

text \<open>The fold that keeps the newest token, ties decided by the larger hash.\<close>

definition newer_token :: "token \<Rightarrow> token \<Rightarrow> bool" where
  "newer_token t l \<longleftrightarrow> token_CreatedAt l < token_CreatedAt t \<or>
     (token_CreatedAt t = token_CreatedAt l \<and> token_TokenHash l < token_TokenHash t)"

definition latest_step :: "int \<Rightarrow> token \<Rightarrow> token option \<Rightarrow> token option" where
  "latest_step userID t latest =
     (if token_UserID t \<noteq> userID then latest
      else case latest of None \<Rightarrow> Some t | Some l \<Rightarrow> if newer_token t l then Some t else latest)"

lemma latest_fold:
  "fold (latest_step u) ts l = Some t \<Longrightarrow> (\<forall>s. l = Some s \<longrightarrow> token_UserID s = u) \<Longrightarrow>
    (t \<in> set ts \<or> l = Some t) \<and> token_UserID t = u \<and>
    (\<forall>s \<in> set ts. token_UserID s = u \<longrightarrow> token_CreatedAt s \<le> token_CreatedAt t) \<and>
    (\<forall>s. l = Some s \<longrightarrow> token_CreatedAt s \<le> token_CreatedAt t)"
proof (induction ts arbitrary: l)
  case Nil
  then show ?case by auto
next
  case (Cons x ts)
  have le: "\<forall>s. latest_step u x l = Some s \<longrightarrow> token_UserID s = u"
    using Cons.prems(2) by (auto simp: latest_step_def split: option.splits if_splits)
  from Cons.IH [OF _ le] Cons.prems(1) have IH: "(t \<in> set ts \<or> latest_step u x l = Some t) \<and>
      token_UserID t = u \<and> (\<forall>s \<in> set ts. token_UserID s = u \<longrightarrow> token_CreatedAt s \<le> token_CreatedAt t) \<and>
      (\<forall>s. latest_step u x l = Some s \<longrightarrow> token_CreatedAt s \<le> token_CreatedAt t)"
    by simp
  have "(\<exists>s. latest_step u x l = Some s \<and> token_CreatedAt x \<le> token_CreatedAt s)"
    if "token_UserID x = u"
    using that by (cases l) (auto simp: latest_step_def newer_token_def)
  moreover have "(\<exists>s. latest_step u x l = Some s \<and> token_CreatedAt y \<le> token_CreatedAt s)" if "l = Some y" for y
    using that by (auto simp: latest_step_def newer_token_def)
  moreover have "latest_step u x l = Some t \<Longrightarrow> t = x \<or> l = Some t"
    by (auto simp: latest_step_def split: option.splits if_splits)
  ultimately show ?case using IH by (auto intro: order_trans)
qed

lemma latest_fold_None:
  "fold (latest_step u) ts l = None \<Longrightarrow> l = None \<and> (\<forall>s \<in> set ts. token_UserID s \<noteq> u)"
proof (induction ts arbitrary: l)
  case (Cons x ts)
  then have "latest_step u x l = None" "\<forall>s \<in> set ts. token_UserID s \<noteq> u" by auto
  then show ?case by (auto simp: latest_step_def split: option.splits if_splits)
qed simp

lemma tokens_row: "tokens_ok r \<Longrightarrow> map_of r h = Some t \<longleftrightarrow> (h, t) \<in> set r"
  by (simp add: tokens_ok_def)

lemma tokens_rows: "tokens_ok r \<Longrightarrow> t \<in> set (row_values r) \<longleftrightarrow> map_of r (token_TokenHash t) = Some t"
  by (force simp: tokens_ok_def)

lemma tokens_filter: "tokens_ok r \<Longrightarrow> tokens_ok (filter P r)"
  by (auto simp: tokens_ok_def distinct_map_filter)

lemma map_of_filter_row:
  "distinct (map fst r) \<Longrightarrow> map_of (filter (\<lambda>(h, t). P h t) r) h =
    (case map_of r h of None \<Rightarrow> None | Some t \<Rightarrow> if P h t then Some t else None)"
  by (induction r) (auto simp: map_of_None_iff image_iff split: option.splits)

lemma tokens_save: "tokens_ok r \<Longrightarrow> tokens_ok (put_row (token_TokenHash t) t r)"
  by (auto simp: tokens_ok_def distinct_put_row set_put_row)

section \<open>Password reset tokens\<close>

definition PasswordReset_save :: "token \<Rightarrow> token_repo \<Rightarrow> token_repo" where
  "PasswordReset_save t r = put_row (token_TokenHash t) t r"

definition PasswordReset_selectByTokenHash :: "string \<Rightarrow> token_repo \<Rightarrow> token option" where
  "PasswordReset_selectByTokenHash tokenHash r = map_of r tokenHash"

definition PasswordReset_selectLatestByUser :: "int \<Rightarrow> token_repo \<Rightarrow> token option" where
  "PasswordReset_selectLatestByUser userID r = fold (latest_step userID) (row_values r) None"

definition PasswordReset_invalidateByUser :: "int \<Rightarrow> token_repo \<Rightarrow> token_repo" where
  "PasswordReset_invalidateByUser userID r = filter (\<lambda>(key, t). \<not> token_UserID t = userID) r"

definition PasswordReset_update :: "token \<Rightarrow> token_repo \<Rightarrow> token_repo" where
  "PasswordReset_update t r = put_row (token_TokenHash t) t r"

definition cleanup_candidate :: "time \<Rightarrow> string \<times> token \<Rightarrow> (time \<times> string) option" where
  "cleanup_candidate cutoff row =
     (case row of (key, t) \<Rightarrow>
        case token_ConsumedAt t of
          Some c \<Rightarrow> if \<not> cutoff < c then Some (c, key)
                    else if \<not> cutoff < token_ExpiresAt t then Some (token_ExpiresAt t, key) else None
        | None \<Rightarrow> if \<not> cutoff < token_ExpiresAt t then Some (token_ExpiresAt t, key) else None)"

definition PasswordReset_deleteExpiredOrConsumedBefore ::
  "time \<Rightarrow> int \<Rightarrow> token_repo \<Rightarrow> int \<times> token_repo" where
  "PasswordReset_deleteExpiredOrConsumedBefore cutoff limit r =
     (if limit \<le> 0 then (0, r)
      else let candidates = take_int limit (sort (List.map_filter (cleanup_candidate cutoff) r))
           in (int (length candidates), fold del_row (map snd candidates) r))"

definition PasswordReset_snapshot :: "token_repo \<Rightarrow> token_repo" where
  "PasswordReset_snapshot r = r"

definition PasswordReset_restore :: "token_repo \<Rightarrow> token_repo \<Rightarrow> token_repo" where
  "PasswordReset_restore state r = state"

section \<open>Email verification tokens\<close>

definition EmailVerification_save :: "token \<Rightarrow> token_repo \<Rightarrow> token_repo" where
  "EmailVerification_save t r = put_row (token_TokenHash t) t r"

definition EmailVerification_selectByTokenHash :: "string \<Rightarrow> token_repo \<Rightarrow> token option" where
  "EmailVerification_selectByTokenHash tokenHash r = map_of r tokenHash"

definition EmailVerification_selectLatestByUser :: "int \<Rightarrow> token_repo \<Rightarrow> token option" where
  "EmailVerification_selectLatestByUser userID r = fold (latest_step userID) (row_values r) None"

definition EmailVerification_invalidateByUser :: "int \<Rightarrow> token_repo \<Rightarrow> token_repo" where
  "EmailVerification_invalidateByUser userID r = filter (\<lambda>(key, t). \<not> token_UserID t = userID) r"

definition EmailVerification_update :: "token \<Rightarrow> token_repo \<Rightarrow> token_repo" where
  "EmailVerification_update t r = put_row (token_TokenHash t) t r"

fun EmailVerification_delete_loop ::
  "time \<Rightarrow> int \<Rightarrow> int \<Rightarrow> token_repo \<Rightarrow> int \<times> token_repo" where
  "EmailVerification_delete_loop cutoff limit deleted [] = (deleted, [])"
| "EmailVerification_delete_loop cutoff limit deleted ((key, t) # rows) =
     (if limit \<le> deleted then (deleted, (key, t) # rows)
      else if cutoff < token_ExpiresAt t \<and>
              (case token_ConsumedAt t of None \<Rightarrow> True | Some c \<Rightarrow> cutoff < c)
      then let (n, rest) = EmailVerification_delete_loop cutoff limit deleted rows
           in (n, (key, t) # rest)
      else EmailVerification_delete_loop cutoff limit (deleted + 1) rows)"

definition EmailVerification_deleteExpiredOrConsumedBefore ::
  "time \<Rightarrow> int \<Rightarrow> token_repo \<Rightarrow> int \<times> token_repo" where
  "EmailVerification_deleteExpiredOrConsumedBefore cutoff limit r =
     (if limit \<le> 0 then (0, r) else EmailVerification_delete_loop cutoff limit 0 r)"

definition EmailVerification_snapshot :: "token_repo \<Rightarrow> token_repo" where
  "EmailVerification_snapshot r = r"

definition EmailVerification_restore :: "token_repo \<Rightarrow> token_repo \<Rightarrow> token_repo" where
  "EmailVerification_restore state r = state"

lemma token_restore_snapshot [simp]:
  "PasswordReset_restore (PasswordReset_snapshot s) r = s"
  "EmailVerification_restore (EmailVerification_snapshot s) r = s"
  by (simp_all add: PasswordReset_restore_def PasswordReset_snapshot_def
      EmailVerification_restore_def EmailVerification_snapshot_def)

section \<open>The two clean-ups\<close>

lemma fold_del_row: "fold del_row ks m = filter (\<lambda>(k, v). k \<notin> set ks) m"
  by (induction ks arbitrary: m) (auto simp: AList.delete_eq filter_filter case_prod_unfold intro: filter_cong)

lemma cleanup_candidate_iff:
  "cleanup_candidate cutoff (h, t) = Some (at, k) \<Longrightarrow> k = h \<and> removable cutoff t"
  by (auto simp: cleanup_candidate_def removable_def split: option.splits if_splits)

lemma cleanup_candidates_removable:
  assumes "tokens_ok r" "k \<in> snd ` set (List.map_filter (cleanup_candidate cutoff) r)" "map_of r k = Some t"
  shows "removable cutoff t"
proof -
  obtain row at where "row \<in> set r" "cleanup_candidate cutoff row = Some (at, k)"
    using assms(2) by (auto simp: List.map_filter_def)
  moreover obtain h s where "row = (h, s)" by (cases row)
  ultimately have "(k, s) \<in> set r" "removable cutoff s"
    using cleanup_candidate_iff [of cutoff h s at k] by auto
  moreover have "s = t" using assms(1,3) \<open>(k, s) \<in> set r\<close> by (simp add: tokens_ok_def)
  ultimately show ?thesis by simp
qed

lemma password_cleanup:
  assumes "tokens_ok r" "PasswordReset_deleteExpiredOrConsumedBefore cutoff limit r = (n, r')"
  shows "tokens_ok r' \<and> 0 \<le> n \<and> n \<le> max 0 limit \<and>
    (map_of r' h = Some t \<longrightarrow> map_of r h = Some t) \<and>
    (map_of r h = Some t \<longrightarrow> \<not> removable cutoff t \<longrightarrow> map_of r' h = Some t)"
proof (cases "limit \<le> 0")
  case True
  with assms show ?thesis by (simp add: PasswordReset_deleteExpiredOrConsumedBefore_def)
next
  case False
  let ?c = "take_int limit (sort (List.map_filter (cleanup_candidate cutoff) r))"
  have r': "r' = filter (\<lambda>(k, v). k \<notin> set (map snd ?c)) r" and n: "n = int (length ?c)"
    using assms(2) False by (auto simp: PasswordReset_deleteExpiredOrConsumedBefore_def Let_def fold_del_row)
  have d: "distinct (map fst r)" using assms(1) by (simp add: tokens_ok_def)
  have m: "map_of r' h = (case map_of r h of None \<Rightarrow> None | Some t \<Rightarrow>
      if h \<notin> set (map snd ?c) then Some t else None)"
    unfolding r' using map_of_filter_row [OF d, of "\<lambda>k v. k \<notin> set (map snd ?c)" h] by simp
  have "set (map snd ?c) \<subseteq> snd ` set (List.map_filter (cleanup_candidate cutoff) r)"
    using set_take_int [of limit "sort (List.map_filter (cleanup_candidate cutoff) r)"] by auto
  then have "map_of r h = Some t \<Longrightarrow> h \<in> set (map snd ?c) \<Longrightarrow> removable cutoff t"
    using cleanup_candidates_removable [OF assms(1)] by blast
  moreover have "n \<le> max 0 limit" using length_take_int [of limit] n False by (simp add: nat_le_iff le_nat_iff)
  ultimately show ?thesis
    using n m tokens_filter [OF assms(1)] r' by (auto split: option.splits if_splits)
qed

lemma email_loop_filter:
  "EmailVerification_delete_loop cutoff limit deleted rows = (n, rows') \<Longrightarrow>
    set rows' \<subseteq> set rows \<and> (distinct (map fst rows) \<longrightarrow> distinct (map fst rows')) \<and>
    (\<forall>(h, t) \<in> set rows. \<not> removable cutoff t \<longrightarrow> (h, t) \<in> set rows') \<and>
    deleted \<le> n \<and> n \<le> max deleted limit"
proof (induction cutoff limit deleted rows arbitrary: n rows' rule: EmailVerification_delete_loop.induct)
  case (1 cutoff limit deleted)
  then show ?case by simp
next
  case (2 cutoff limit deleted key t rows)
  consider (stop) "limit \<le> deleted" | (keep) "\<not> limit \<le> deleted" "\<not> removable cutoff t"
    | (drop) "\<not> limit \<le> deleted" "removable cutoff t" by blast
  then show ?case
  proof cases
    case stop
    with "2.prems" show ?thesis by auto
  next
    case keep
    have c: "cutoff < token_ExpiresAt t \<and> (case token_ConsumedAt t of None \<Rightarrow> True | Some c \<Rightarrow> cutoff < c)"
      using keep(2) by (auto simp: removable_def not_le split: option.split)
    obtain m rest where m: "EmailVerification_delete_loop cutoff limit deleted rows = (m, rest)" by fastforce
    with "2.prems" keep(1) c have "n = m" "rows' = (key, t) # rest" by auto
    with "2.IH"(1) [OF keep(1) c m] show ?thesis by auto
  next
    case drop
    have c: "\<not> (cutoff < token_ExpiresAt t \<and> (case token_ConsumedAt t of None \<Rightarrow> True | Some c \<Rightarrow> cutoff < c))"
      using drop(2) by (auto simp: removable_def split: option.splits)
    with "2.prems" drop(1) have m: "EmailVerification_delete_loop cutoff limit (deleted + 1) rows = (n, rows')"
      by auto
    from "2.IH"(2) [OF drop(1) c m] drop show ?thesis by auto
  qed
qed

lemma email_cleanup:
  assumes "tokens_ok r" "EmailVerification_deleteExpiredOrConsumedBefore cutoff limit r = (n, r')"
  shows "tokens_ok r' \<and> 0 \<le> n \<and> n \<le> max 0 limit \<and>
    (map_of r' h = Some t \<longrightarrow> map_of r h = Some t) \<and>
    (map_of r h = Some t \<longrightarrow> \<not> removable cutoff t \<longrightarrow> map_of r' h = Some t)"
proof (cases "limit \<le> 0")
  case True
  with assms show ?thesis by (simp add: EmailVerification_deleteExpiredOrConsumedBefore_def)
next
  case False
  then have "EmailVerification_delete_loop cutoff limit 0 r = (n, r')"
    using assms(2) by (simp add: EmailVerification_deleteExpiredOrConsumedBefore_def)
  from email_loop_filter [OF this]
  have f: "set r' \<subseteq> set r" "distinct (map fst r) \<longrightarrow> distinct (map fst r')" "0 \<le> n" "n \<le> max 0 limit"
    and k: "\<And>h t. (h, t) \<in> set r \<Longrightarrow> \<not> removable cutoff t \<Longrightarrow> (h, t) \<in> set r'" by auto
  have ok': "tokens_ok r'" using assms(1) f(1,2) by (auto simp: tokens_ok_def)
  with f k show ?thesis by (auto simp: tokens_row [OF assms(1)] tokens_row [OF ok'])
qed

section \<open>Both meet the contract\<close>

interpretation password_tokens: token_table tokens_ok PasswordReset_save
  PasswordReset_selectByTokenHash PasswordReset_selectLatestByUser PasswordReset_invalidateByUser
  PasswordReset_deleteExpiredOrConsumedBefore
proof unfold_locales
  fix r :: token_repo and h t u cutoff limit n r'
  assume ok: "tokens_ok r"
  show "PasswordReset_selectByTokenHash h r = Some t \<Longrightarrow> token_TokenHash t = h"
    using ok tokens_row [OF ok, of h t] by (auto simp: tokens_ok_def PasswordReset_selectByTokenHash_def)
  show "PasswordReset_selectByTokenHash h (PasswordReset_save t r) =
      (if h = token_TokenHash t then Some t else PasswordReset_selectByTokenHash h r)"
    by (simp add: PasswordReset_selectByTokenHash_def PasswordReset_save_def)
  show "tokens_ok (PasswordReset_save t r)" by (simp add: PasswordReset_save_def tokens_save ok)
  show "PasswordReset_selectByTokenHash h (PasswordReset_invalidateByUser u r) =
      (case PasswordReset_selectByTokenHash h r of None \<Rightarrow> None
       | Some t \<Rightarrow> if token_UserID t = u then None else Some t)"
    using ok map_of_filter_row [of r "\<lambda>k t. \<not> token_UserID t = u" h]
    by (auto simp: PasswordReset_selectByTokenHash_def PasswordReset_invalidateByUser_def
        tokens_ok_def split: option.splits)
  show "tokens_ok (PasswordReset_invalidateByUser u r)"
    by (simp add: PasswordReset_invalidateByUser_def tokens_filter ok)
  show "PasswordReset_selectLatestByUser u r = None \<Longrightarrow> PasswordReset_selectByTokenHash h r = Some t \<Longrightarrow>
      token_UserID t \<noteq> u"
    using latest_fold_None [of u "row_values r" None] tokens_row [OF ok, of h t]
    by (force simp: PasswordReset_selectLatestByUser_def PasswordReset_selectByTokenHash_def)
  {
    assume c: "PasswordReset_deleteExpiredOrConsumedBefore cutoff limit r = (n, r')"
    show "0 \<le> n \<and> n \<le> max 0 limit" "tokens_ok r'" using password_cleanup [OF ok c, of h t] by simp_all
    show "PasswordReset_selectByTokenHash h r = Some t \<Longrightarrow> \<not> removable cutoff t \<Longrightarrow>
        PasswordReset_selectByTokenHash h r' = Some t"
      "PasswordReset_selectByTokenHash h r' = Some t \<Longrightarrow> PasswordReset_selectByTokenHash h r = Some t"
      unfolding PasswordReset_selectByTokenHash_def
      using password_cleanup [OF ok c, of h t] by simp_all
  }
  show "PasswordReset_selectByTokenHash (token_TokenHash t) r = Some t \<and> token_UserID t = u \<and>
      (\<forall>h s. PasswordReset_selectByTokenHash h r = Some s \<longrightarrow> token_UserID s = u \<longrightarrow>
        token_CreatedAt s \<le> token_CreatedAt t)"
    if l: "PasswordReset_selectLatestByUser u r = Some t"
  proof -
    have f: "t \<in> set (row_values r)" "token_UserID t = u"
      "\<forall>s \<in> set (row_values r). token_UserID s = u \<longrightarrow> token_CreatedAt s \<le> token_CreatedAt t"
      using latest_fold [of u "row_values r" None t] l
      by (simp_all add: PasswordReset_selectLatestByUser_def)
    moreover have "s \<in> set (row_values r)" if "map_of r h = Some s" for h s
      using that tokens_row [OF ok, of h s] by force
    ultimately show ?thesis
      using tokens_rows [OF ok, of t] by (simp add: PasswordReset_selectByTokenHash_def) blast
  qed
qed

lemmas email_as_password =
  EmailVerification_save_def [folded PasswordReset_save_def]
  EmailVerification_selectByTokenHash_def [folded PasswordReset_selectByTokenHash_def]
  EmailVerification_selectLatestByUser_def [folded PasswordReset_selectLatestByUser_def]
  EmailVerification_invalidateByUser_def [folded PasswordReset_invalidateByUser_def]

interpretation email_tokens: token_table tokens_ok EmailVerification_save
  EmailVerification_selectByTokenHash EmailVerification_selectLatestByUser
  EmailVerification_invalidateByUser EmailVerification_deleteExpiredOrConsumedBefore
proof (unfold_locales, unfold email_as_password)
  fix r :: token_repo and h t u cutoff limit n r'
  assume ok: "tokens_ok r"
  show "PasswordReset_selectByTokenHash h r = Some t \<Longrightarrow> token_TokenHash t = h"
    by (rule password_tokens.select_hash [OF ok])
  show "PasswordReset_selectByTokenHash h (PasswordReset_save t r) =
      (if h = token_TokenHash t then Some t else PasswordReset_selectByTokenHash h r)"
    by (rule password_tokens.save_select [OF ok])
  show "tokens_ok (PasswordReset_save t r)" by (rule password_tokens.save_inv [OF ok])
  show "PasswordReset_selectByTokenHash h (PasswordReset_invalidateByUser u r) =
      (case PasswordReset_selectByTokenHash h r of None \<Rightarrow> None
       | Some t \<Rightarrow> if token_UserID t = u then None else Some t)"
    by (rule password_tokens.invalidate_select [OF ok])
  show "tokens_ok (PasswordReset_invalidateByUser u r)" by (rule password_tokens.invalidate_inv [OF ok])
  show "PasswordReset_selectLatestByUser u r = Some t \<Longrightarrow>
      PasswordReset_selectByTokenHash (token_TokenHash t) r = Some t \<and> token_UserID t = u \<and>
      (\<forall>h s. PasswordReset_selectByTokenHash h r = Some s \<longrightarrow> token_UserID s = u \<longrightarrow>
        token_CreatedAt s \<le> token_CreatedAt t)"
    by (rule password_tokens.latest_some [OF ok])
  show "PasswordReset_selectLatestByUser u r = None \<Longrightarrow> PasswordReset_selectByTokenHash h r = Some t \<Longrightarrow>
      token_UserID t \<noteq> u"
    by (rule password_tokens.latest_none [OF ok])
  assume c: "EmailVerification_deleteExpiredOrConsumedBefore cutoff limit r = (n, r')"
  show "0 \<le> n \<and> n \<le> max 0 limit" "tokens_ok r'" using email_cleanup [OF ok c, of h t] by simp_all
  show "PasswordReset_selectByTokenHash h r = Some t \<Longrightarrow> \<not> removable cutoff t \<Longrightarrow>
      PasswordReset_selectByTokenHash h r' = Some t"
    "PasswordReset_selectByTokenHash h r' = Some t \<Longrightarrow> PasswordReset_selectByTokenHash h r = Some t"
    unfolding PasswordReset_selectByTokenHash_def
    using email_cleanup [OF ok c, of h t] by simp_all
qed

end
