(* ===== verification/RepoOutbox.thy ===== *)
theory RepoOutbox
  imports Pagination RepoReport
begin

text \<open>
  \<open>persistence/inmemory/outboxRepository.go\<close>: the queue of events that wait to be relayed.
  A message is pending, leased to a worker (processing, until \<open>NextAttemptAt\<close>) or dead.
  \<open>order\<close> lists the identifiers the relay scans, in the order of arrival; dead messages stay
  in the store and leave the scan. Every operation first asks the context; \<open>ctx_err\<close> is its
  answer.

  The lemmas give \<open>FetchReady\<close> a specification without a loop, the invariant between the
  store and the scan, and the life cycle as a step relation: a lease is exclusive until it
  expires, and a message leaves the store only by \<open>MarkSucceeded\<close>.
\<close>

section \<open>Messages and the store\<close>

text \<open>\<open>OutboxStatusUnset\<close> is the empty status of a message that was never stored.\<close>

datatype OutboxStatus =
  OutboxStatusUnset | OutboxStatusPending | OutboxStatusProcessing | OutboxStatusDead

record outbox_message =
  msg_ID :: string
  msg_EventName :: string
  msg_Payload :: string
  msg_OccurredAt :: time
  msg_AttemptCount :: int
  msg_NextAttemptAt :: time
  msg_Status :: OutboxStatus
  msg_LastError :: string

record outbox_repo =
  outbox_data :: "(string \<times> outbox_message) list"
  outbox_order :: "string list"
  outbox_processingTimeout :: duration

definition WithProcessingTimeout :: "duration \<Rightarrow> duration \<Rightarrow> duration" where
  "WithProcessingTimeout timeout cfg = (if 0 < timeout then timeout else cfg)"

definition NewOutboxRepository :: "duration list \<Rightarrow> outbox_repo" where
  "NewOutboxRepository opts =
     \<lparr>outbox_data = [], outbox_order = [],
      outbox_processingTimeout = fold WithProcessingTimeout opts 30000000000\<rparr>"

section \<open>Operations\<close>

definition Outbox_defaults :: "time \<Rightarrow> outbox_message \<Rightarrow> outbox_message" where
  "Outbox_defaults now message =
     (let c1 = (if IsZero (msg_OccurredAt message) then message\<lparr>msg_OccurredAt := now\<rparr> else message);
          c2 = (if IsZero (msg_NextAttemptAt c1) then c1\<lparr>msg_NextAttemptAt := msg_OccurredAt c1\<rparr> else c1)
      in if msg_Status c2 = OutboxStatusUnset then c2\<lparr>msg_Status := OutboxStatusPending\<rparr> else c2)"

definition Outbox_append_one :: "time \<Rightarrow> outbox_message \<Rightarrow> outbox_repo \<Rightarrow> outbox_repo" where
  "Outbox_append_one now message r =
     (if msg_ID message = [] then r
      else if map_of (outbox_data r) (msg_ID message) \<noteq> None then r
      else let copied = Outbox_defaults now message
           in r\<lparr>outbox_data := put_row (msg_ID copied) copied (outbox_data r),
                outbox_order := outbox_order r @ [msg_ID copied]\<rparr>)"

definition Outbox_append ::
  "go_error option \<Rightarrow> time \<Rightarrow> outbox_message list \<Rightarrow> outbox_repo \<Rightarrow> go_error option \<times> outbox_repo" where
  "Outbox_append ctx_err now messages r =
     (case ctx_err of Some e \<Rightarrow> (Some e, r) | None \<Rightarrow> (None, fold (Outbox_append_one now) messages r))"

text \<open>The scan of \<open>FetchReady\<close>, with the data and the messages fetched so far.\<close>

fun fetch_loop ::
  "time \<Rightarrow> duration \<Rightarrow> int \<Rightarrow> string list \<Rightarrow> (string \<times> outbox_message) list \<Rightarrow> outbox_message list \<Rightarrow>
    (string \<times> outbox_message) list \<times> outbox_message list" where
  "fetch_loop now timeout limit [] data ready = (data, ready)"
| "fetch_loop now timeout limit (i # ids) data ready =
     (case map_of data i of
        None \<Rightarrow> fetch_loop now timeout limit ids data ready
      | Some message \<Rightarrow>
          if msg_Status message = OutboxStatusDead then fetch_loop now timeout limit ids data ready
          else if msg_Status message = OutboxStatusProcessing \<and> now < msg_NextAttemptAt message
          then fetch_loop now timeout limit ids data ready
          else
            let reclaimed = (msg_Status message = OutboxStatusProcessing);
                message1 = (if reclaimed then message\<lparr>msg_Status := OutboxStatusPending\<rparr> else message);
                data1 = (if reclaimed then put_row i message1 data else data)
            in if msg_Status message1 \<noteq> OutboxStatusPending
               then fetch_loop now timeout limit ids data1 ready
               else if now < msg_NextAttemptAt message1
               then fetch_loop now timeout limit ids data1 ready
               else
                 let message2 = message1\<lparr>msg_Status := OutboxStatusProcessing,
                       msg_AttemptCount := msg_AttemptCount message1 + 1,
                       msg_NextAttemptAt := now + timeout\<rparr>;
                     data2 = put_row i message2 data1;
                     ready2 = ready @ [message2]
                 in if limit \<le> int (length ready2) then (data2, ready2)
                    else fetch_loop now timeout limit ids data2 ready2)"

definition FetchReady ::
  "go_error option \<Rightarrow> int \<Rightarrow> time \<Rightarrow> outbox_repo \<Rightarrow> (go_error + outbox_message list) \<times> outbox_repo" where
  "FetchReady ctx_err limit now r =
     (case ctx_err of
        Some e \<Rightarrow> (Inl e, r)
      | None \<Rightarrow>
          if limit \<le> 0 then (Inr [], r)
          else let (data, ready) = fetch_loop now (outbox_processingTimeout r) limit
                                     (outbox_order r) (outbox_data r) []
               in (Inr ready, r\<lparr>outbox_data := data\<rparr>))"

definition Outbox_SelectByID ::
  "go_error option \<Rightarrow> string \<Rightarrow> outbox_repo \<Rightarrow> go_error + outbox_message option" where
  "Outbox_SelectByID ctx_err i r =
     (case ctx_err of Some e \<Rightarrow> Inl e | None \<Rightarrow> Inr (map_of (outbox_data r) i))"

definition SelectDead ::
  "go_error option \<Rightarrow> int \<Rightarrow> string \<Rightarrow> outbox_repo \<Rightarrow> go_error + outbox_message list" where
  "SelectDead ctx_err limit lastID r =
     (case ctx_err of
        Some e \<Rightarrow> Inl e
      | None \<Rightarrow>
          if limit \<le> 0 then Inr []
          else let dead = rev (sort_key (\<lambda>m. (msg_OccurredAt m, msg_ID m))
                     (filter (\<lambda>m. msg_Status m = OutboxStatusDead) (row_values (outbox_data r))));
                   rest = (if TrimSpace lastID \<noteq> [] then after_mark (\<lambda>m. msg_ID m = lastID) dead else dead)
               in Inr (take_int limit rest))"

definition RenewProcessing ::
  "go_error option \<Rightarrow> string \<Rightarrow> time \<Rightarrow> outbox_repo \<Rightarrow> go_error option \<times> outbox_repo" where
  "RenewProcessing ctx_err i nextAttemptAt r =
     (case ctx_err of
        Some e \<Rightarrow> (Some e, r)
      | None \<Rightarrow>
          if i = [] then (None, r)
          else case map_of (outbox_data r) i of
                 None \<Rightarrow> (None, r)
               | Some message \<Rightarrow>
                   if msg_Status message \<noteq> OutboxStatusProcessing then (None, r)
                   else (None, r\<lparr>outbox_data :=
                          put_row i (message\<lparr>msg_NextAttemptAt := nextAttemptAt\<rparr>) (outbox_data r)\<rparr>))"

definition MarkSucceeded ::
  "go_error option \<Rightarrow> string list \<Rightarrow> outbox_repo \<Rightarrow> go_error option \<times> outbox_repo" where
  "MarkSucceeded ctx_err ids r =
     (case ctx_err of
        Some e \<Rightarrow> (Some e, r)
      | None \<Rightarrow>
          let deleted = filter (\<lambda>i. i \<noteq> []) ids in
          if deleted = [] then (None, r)
          else (None, r\<lparr>outbox_data := fold del_row deleted (outbox_data r),
                        outbox_order := filter (\<lambda>i. i \<notin> set deleted) (outbox_order r)\<rparr>))"

definition MarkRetry ::
  "go_error option \<Rightarrow> string \<Rightarrow> time \<Rightarrow> string \<Rightarrow> outbox_repo \<Rightarrow> go_error option \<times> outbox_repo" where
  "MarkRetry ctx_err i nextAttemptAt err r =
     (case ctx_err of
        Some e \<Rightarrow> (Some e, r)
      | None \<Rightarrow>
          case map_of (outbox_data r) i of
            None \<Rightarrow> (None, r)
          | Some message \<Rightarrow>
              (None, r\<lparr>outbox_data := put_row i (message\<lparr>msg_Status := OutboxStatusPending,
                         msg_NextAttemptAt := nextAttemptAt, msg_LastError := TrimSpace err\<rparr>)
                         (outbox_data r),
                       outbox_order := (if i \<in> set (outbox_order r) then outbox_order r
                                        else outbox_order r @ [i])\<rparr>))"

definition MarkDead ::
  "go_error option \<Rightarrow> string \<Rightarrow> string \<Rightarrow> outbox_repo \<Rightarrow> go_error option \<times> outbox_repo" where
  "MarkDead ctx_err i err r =
     (case ctx_err of
        Some e \<Rightarrow> (Some e, r)
      | None \<Rightarrow>
          case map_of (outbox_data r) i of
            None \<Rightarrow> (None, r)
          | Some message \<Rightarrow>
              (None, r\<lparr>outbox_data := put_row i (message\<lparr>msg_Status := OutboxStatusDead,
                         msg_LastError := TrimSpace err\<rparr>) (outbox_data r),
                       outbox_order := filter (\<lambda>j. j \<noteq> i) (outbox_order r)\<rparr>))"

record outbox_state =
  state_Data :: "(string \<times> outbox_message) list"
  state_Order :: "string list"

definition Outbox_snapshot :: "outbox_repo \<Rightarrow> outbox_state" where
  "Outbox_snapshot r = \<lparr>state_Data = outbox_data r, state_Order = outbox_order r\<rparr>"

definition Outbox_restore :: "outbox_state \<Rightarrow> outbox_repo \<Rightarrow> outbox_repo" where
  "Outbox_restore state r = r\<lparr>outbox_data := state_Data state, outbox_order := state_Order state\<rparr>"

text \<open>The restored repository keeps its own configuration, which no operation changes.\<close>

lemma Outbox_restore_snapshot [simp]:
  "outbox_processingTimeout s = outbox_processingTimeout r \<Longrightarrow> Outbox_restore (Outbox_snapshot s) r = s"
  by (simp add: Outbox_restore_def Outbox_snapshot_def)

section \<open>What \<open>FetchReady\<close> fetches\<close>

definition due :: "time \<Rightarrow> (string \<times> outbox_message) list \<Rightarrow> string \<Rightarrow> bool" where
  "due now data i =
     (case map_of data i of
        None \<Rightarrow> False
      | Some m \<Rightarrow> (msg_Status m = OutboxStatusPending \<or> msg_Status m = OutboxStatusProcessing) \<and>
                   msg_NextAttemptAt m \<le> now)"

definition lease :: "time \<Rightarrow> duration \<Rightarrow> outbox_message \<Rightarrow> outbox_message" where
  "lease now timeout m =
     m\<lparr>msg_Status := OutboxStatusProcessing, msg_AttemptCount := msg_AttemptCount m + 1,
       msg_NextAttemptAt := now + timeout\<rparr>"

definition lease_row ::
  "time \<Rightarrow> duration \<Rightarrow> string \<Rightarrow> (string \<times> outbox_message) list \<Rightarrow> (string \<times> outbox_message) list" where
  "lease_row now timeout i data =
     (case map_of data i of None \<Rightarrow> data | Some m \<Rightarrow> put_row i (lease now timeout m) data)"

definition leased_at ::
  "time \<Rightarrow> duration \<Rightarrow> (string \<times> outbox_message) list \<Rightarrow> string \<Rightarrow> outbox_message" where
  "leased_at now timeout data i = lease now timeout (the (map_of data i))"

lemma fetch_loop_step:
  "fetch_loop now timeout limit (i # ids) data ready =
    (if due now data i
     then let data2 = lease_row now timeout i data; ready2 = ready @ [leased_at now timeout data i]
          in if limit \<le> int (length ready2) then (data2, ready2)
             else fetch_loop now timeout limit ids data2 ready2
     else fetch_loop now timeout limit ids data ready)"
proof (cases "map_of data i")
  case None
  then show ?thesis by (simp add: due_def)
next
  case (Some m)
  then show ?thesis
    by (cases "msg_Status m")
      (simp_all add: due_def lease_row_def leased_at_def lease_def Let_def not_less update_last)
qed

declare fetch_loop.simps(2) [simp del]

lemma due_other: "j \<noteq> i \<Longrightarrow> due now (lease_row now' timeout i data) j = due now data j"
  by (simp add: due_def lease_row_def split: option.splits)

lemma leased_other:
  "j \<noteq> i \<Longrightarrow> leased_at now timeout (lease_row now' timeout' i data) j = leased_at now timeout data j"
  by (simp add: leased_at_def lease_row_def split: option.splits)

lemma fetch_loop_spec:
  assumes "distinct ids" "int (length ready) < limit"
  shows "fetch_loop now timeout limit ids data ready =
    (let picked = take (nat limit - length ready) (filter (due now data) ids)
     in (fold (lease_row now timeout) picked data, ready @ map (leased_at now timeout data) picked))"
  using assms
proof (induction ids arbitrary: data ready)
  case Nil
  then show ?case by simp
next
  case (Cons i ids)
  show ?case
  proof (cases "due now data i")
    case False
    with Cons show ?thesis by (simp add: fetch_loop_step)
  next
    case True
    let ?d = "lease_row now timeout i data" and ?r = "ready @ [leased_at now timeout data i]"
    have k: "nat limit - length ready = Suc (nat limit - length ?r)" using Cons.prems(2) by simp
    have f: "filter (due now ?d) ids = filter (due now data) ids"
      using Cons.prems(1) due_other by (intro filter_cong) (metis distinct.simps(2))+
    have m: "map (leased_at now timeout ?d) (take n (filter (due now data) ids)) =
        map (leased_at now timeout data) (take n (filter (due now data) ids))" for n
    proof (rule map_cong [OF refl])
      fix x
      assume "x \<in> set (take n (filter (due now data) ids))"
      then have "x \<in> set ids" using in_set_takeD by fastforce
      then have "x \<noteq> i" using Cons.prems(1) by auto
      then show "leased_at now timeout ?d x = leased_at now timeout data x" by (rule leased_other)
    qed
    show ?thesis
    proof (cases "limit \<le> int (length ?r)")
      case True
      then have "nat limit - length ?r = 0" by simp
      with True k \<open>due now data i\<close> show ?thesis by (simp add: fetch_loop_step Let_def)
    next
      case False
      with Cons.IH [of ?r ?d] Cons.prems(1) k \<open>due now data i\<close> show ?thesis
        by (simp add: fetch_loop_step Let_def f m)
    qed
  qed
qed

definition fetched_ids :: "int \<Rightarrow> time \<Rightarrow> outbox_repo \<Rightarrow> string list" where
  "fetched_ids limit now r = take_int limit (filter (due now (outbox_data r)) (outbox_order r))"

lemma FetchReady_spec:
  assumes "distinct (outbox_order r)"
  shows "FetchReady None limit now r =
    (Inr (map (leased_at now (outbox_processingTimeout r) (outbox_data r)) (fetched_ids limit now r)),
     r\<lparr>outbox_data := fold (lease_row now (outbox_processingTimeout r)) (fetched_ids limit now r)
                       (outbox_data r)\<rparr>)"
  using fetch_loop_spec [OF assms, of "[]" limit]
  by (simp add: FetchReady_def fetched_ids_def take_int_def Let_def)

lemma map_of_lease_row:
  "map_of (lease_row now timeout i data) =
    (map_of data)(i := map_option (lease now timeout) (map_of data i))"
  by (auto simp: lease_row_def fun_eq_iff split: option.splits)

lemma map_of_lease_rows:
  "distinct is \<Longrightarrow> map_of (fold (lease_row now timeout) is data) j =
    (if j \<in> set is then map_option (lease now timeout) (map_of data j) else map_of data j)"
  by (induction "is" arbitrary: data) (auto simp: map_of_lease_row)

lemma fetched_distinct: "distinct (outbox_order r) \<Longrightarrow> distinct (fetched_ids limit now r)"
  by (simp add: fetched_ids_def take_int_def)

lemma fetched_due: "i \<in> set (fetched_ids limit now r) \<Longrightarrow> due now (outbox_data r) i \<and> i \<in> set (outbox_order r)"
  by (auto simp: fetched_ids_def take_int_def dest: in_set_takeD)

section \<open>The invariant\<close>

declare map_of_eq_Some_iff [simp del] Some_eq_map_of_iff [simp del]

definition outbox_ok :: "outbox_repo \<Rightarrow> bool" where
  "outbox_ok r \<longleftrightarrow>
     distinct (map fst (outbox_data r)) \<and> distinct (outbox_order r) \<and>
     (\<forall>i m. map_of (outbox_data r) i = Some m \<longrightarrow>
        i \<noteq> [] \<and> msg_ID m = i \<and> msg_Status m \<noteq> OutboxStatusUnset \<and>
        (msg_Status m \<noteq> OutboxStatusDead \<longrightarrow> i \<in> set (outbox_order r))) \<and>
     (\<forall>i \<in> set (outbox_order r). map_of (outbox_data r) i \<noteq> None)"

lemma outbox_ok_new: "outbox_ok (NewOutboxRepository opts)"
  by (simp add: outbox_ok_def NewOutboxRepository_def)

lemma distinct_fold_lease:
  "distinct (map fst data) \<Longrightarrow> distinct (map fst (fold (lease_row now timeout) is data))"
  by (induction "is" arbitrary: data) (auto simp: lease_row_def distinct_put_row split: option.splits)

lemma Outbox_append_one_ok [inv_intros]:
  assumes "outbox_ok r"
  shows "outbox_ok (Outbox_append_one now m r)"
proof (cases "msg_ID m = [] \<or> map_of (outbox_data r) (msg_ID m) \<noteq> None")
  case True
  with assms show ?thesis by (auto simp: Outbox_append_one_def)
next
  case False
  let ?c = "Outbox_defaults now m"
  have c: "msg_ID ?c = msg_ID m" "msg_Status ?c \<noteq> OutboxStatusUnset"
    by (simp_all add: Outbox_defaults_def Let_def)
  from False have r': "Outbox_append_one now m r = r\<lparr>outbox_data := put_row (msg_ID m) ?c (outbox_data r),
      outbox_order := outbox_order r @ [msg_ID m]\<rparr>"
    by (simp add: Outbox_append_one_def c(1))
  have "msg_ID m \<notin> set (outbox_order r)" using False assms by (auto simp: outbox_ok_def)
  with assms False c show ?thesis
    unfolding outbox_ok_def r' by (auto simp: distinct_put_row split: if_splits)
qed

lemma Outbox_append_ok [inv_intros]:
  assumes "outbox_ok r"
  shows "outbox_ok (snd (Outbox_append ctx_err now ms r))"
proof -
  have "outbox_ok (fold (Outbox_append_one now) ms r)"
    using assms by (induction ms arbitrary: r) (auto intro: Outbox_append_one_ok)
  with assms show ?thesis by (simp add: Outbox_append_def split: option.split)
qed

lemma FetchReady_ok [inv_intros]:
  assumes "outbox_ok r"
  shows "outbox_ok (snd (FetchReady ctx_err limit now r))"
proof (cases ctx_err)
  case (Some e)
  with assms show ?thesis by (simp add: FetchReady_def)
next
  case None
  have d: "distinct (outbox_order r)" using assms by (simp add: outbox_ok_def)
  let ?to = "outbox_processingTimeout r" and ?is = "fetched_ids limit now r"
  let ?d = "fold (lease_row now ?to) ?is (outbox_data r)"
  have r': "snd (FetchReady ctx_err limit now r) = r\<lparr>outbox_data := ?d\<rparr>"
    by (simp add: None FetchReady_spec [OF d])
  have m: "map_of ?d i = (if i \<in> set ?is then map_option (lease now ?to) (map_of (outbox_data r) i)
      else map_of (outbox_data r) i)" for i
    by (rule map_of_lease_rows [OF fetched_distinct [OF d]])
  have "distinct (map fst ?d)" using assms by (simp add: outbox_ok_def distinct_fold_lease)
  with assms fetched_due [of _ limit now r] show ?thesis
    unfolding outbox_ok_def r' by (auto simp: m lease_def split: if_splits)
qed

lemma RenewProcessing_ok [inv_intros]:
  "outbox_ok r \<Longrightarrow> outbox_ok (snd (RenewProcessing ctx_err i t r))"
  by (auto simp: RenewProcessing_def outbox_ok_def distinct_put_row split: option.splits if_splits)

lemma map_of_fold_del_row: "map_of (fold del_row ks m) = (\<lambda>k. if k \<in> set ks then None else map_of m k)"
  by (induction ks arbitrary: m) (auto simp: fun_eq_iff)

lemma distinct_fold_del_row: "distinct (map fst m) \<Longrightarrow> distinct (map fst (fold del_row ks m))"
  by (induction ks arbitrary: m) (auto simp: distinct_del_row)

lemma MarkSucceeded_ok [inv_intros]:
  "outbox_ok r \<Longrightarrow> outbox_ok (snd (MarkSucceeded ctx_err is r))"
  by (auto simp: MarkSucceeded_def Let_def outbox_ok_def map_of_fold_del_row distinct_fold_del_row
      split: option.splits if_splits)

lemma MarkRetry_ok [inv_intros]:
  "outbox_ok r \<Longrightarrow> outbox_ok (snd (MarkRetry ctx_err i t err r))"
  by (auto simp: MarkRetry_def outbox_ok_def distinct_put_row split: option.splits if_splits)

lemma MarkDead_ok [inv_intros]:
  "outbox_ok r \<Longrightarrow> outbox_ok (snd (MarkDead ctx_err i err r))"
  by (auto simp: MarkDead_def outbox_ok_def distinct_put_row split: option.splits if_splits)

section \<open>The life cycle\<close>

datatype outbox_op =
    OpAppend time "outbox_message list"
  | OpFetch int time
  | OpRenew string time
  | OpSucceeded "string list"
  | OpRetry string time string
  | OpDead string string

text \<open>One operation whose context is live, with the messages it hands out.\<close>

inductive outbox_step :: "outbox_repo \<Rightarrow> outbox_op \<Rightarrow> outbox_message list \<Rightarrow> outbox_repo \<Rightarrow> bool" where
  append_step: "Outbox_append None now ms r = (None, r') \<Longrightarrow> outbox_step r (OpAppend now ms) [] r'"
| fetch_step: "FetchReady None limit now r = (Inr ready, r') \<Longrightarrow>
    outbox_step r (OpFetch limit now) ready r'"
| renew_step: "RenewProcessing None i t r = (None, r') \<Longrightarrow> outbox_step r (OpRenew i t) [] r'"
| succeeded_step: "MarkSucceeded None is r = (None, r') \<Longrightarrow> outbox_step r (OpSucceeded is) [] r'"
| retry_step: "MarkRetry None i t err r = (None, r') \<Longrightarrow> outbox_step r (OpRetry i t err) [] r'"
| dead_step: "MarkDead None i err r = (None, r') \<Longrightarrow> outbox_step r (OpDead i err) [] r'"

inductive outbox_run :: "outbox_repo \<Rightarrow> (outbox_op \<times> outbox_message list) list \<Rightarrow> outbox_repo \<Rightarrow> bool" where
  run_nil: "outbox_run r [] r"
| run_step: "outbox_step r op ready r1 \<Longrightarrow> outbox_run r1 trace r2 \<Longrightarrow>
    outbox_run r ((op, ready) # trace) r2"

inductive_cases outbox_stepE: "outbox_step r op ready r'"
inductive_cases outbox_run_NilE: "outbox_run r [] r'"
inductive_cases outbox_run_ConsE: "outbox_run r (x # trace) r'"

lemma outbox_step_ok [inv_intros]:
  assumes "outbox_step r op ready r'" "outbox_ok r"
  shows "outbox_ok r'"
  using assms
proof (cases rule: outbox_step.cases)
  case append_step
  with Outbox_append_ok [OF assms(2), of None] show ?thesis by (metis snd_conv)
next
  case fetch_step
  with FetchReady_ok [OF assms(2), of None] show ?thesis by (metis snd_conv)
next
  case renew_step
  with RenewProcessing_ok [OF assms(2), of None] show ?thesis by (metis snd_conv)
next
  case succeeded_step
  with MarkSucceeded_ok [OF assms(2), of None] show ?thesis by (metis snd_conv)
next
  case retry_step
  with MarkRetry_ok [OF assms(2), of None] show ?thesis by (metis snd_conv)
next
  case dead_step
  with MarkDead_ok [OF assms(2), of None] show ?thesis by (metis snd_conv)
qed

lemma outbox_run_ok: "outbox_run r trace r' \<Longrightarrow> outbox_ok r \<Longrightarrow> outbox_ok r'"
  by (induction rule: outbox_run.induct) (auto intro: outbox_step_ok)

text \<open>An operation that cannot end the lease of \<open>i\<close> before \<open>until\<close>.\<close>

fun leaves_lease :: "string \<Rightarrow> time \<Rightarrow> outbox_op \<Rightarrow> bool" where
  "leaves_lease i until (OpAppend now ms) = True"
| "leaves_lease i until (OpFetch limit now) = (now < until)"
| "leaves_lease i until (OpRenew j t) = (j \<noteq> i)"
| "leaves_lease i until (OpSucceeded js) = (i \<notin> set js)"
| "leaves_lease i until (OpRetry j t err) = (j \<noteq> i)"
| "leaves_lease i until (OpDead j err) = (j \<noteq> i)"

lemma append_one_keeps:
  "map_of (outbox_data r) i = Some m \<Longrightarrow> map_of (outbox_data (Outbox_append_one now x r)) i = Some m"
  by (auto simp: Outbox_append_one_def Outbox_defaults_def Let_def)

lemma append_keeps:
  "map_of (outbox_data r) i = Some m \<Longrightarrow> Outbox_append None now xs r = (None, r') \<Longrightarrow>
    map_of (outbox_data r') i = Some m"
proof -
  assume m: "map_of (outbox_data r) i = Some m" and a: "Outbox_append None now xs r = (None, r')"
  have "map_of (outbox_data (fold (Outbox_append_one now) xs r)) i = Some m"
    using m by (induction xs arbitrary: r) (auto simp: append_one_keeps)
  with a show ?thesis by (simp add: Outbox_append_def)
qed

lemma fetch_result:
  assumes "outbox_ok r" "FetchReady None limit now r = (Inr ready, r')"
  shows "ready = map (leased_at now (outbox_processingTimeout r) (outbox_data r)) (fetched_ids limit now r)"
    "map msg_ID ready = fetched_ids limit now r"
    "map_of (outbox_data r') i =
      (if i \<in> set (fetched_ids limit now r)
       then map_option (lease now (outbox_processingTimeout r)) (map_of (outbox_data r) i)
       else map_of (outbox_data r) i)"
    "outbox_order r' = outbox_order r"
proof -
  have d: "distinct (outbox_order r)" using assms(1) by (simp add: outbox_ok_def)
  let ?to = "outbox_processingTimeout r"
  have s: "ready = map (leased_at now ?to (outbox_data r)) (fetched_ids limit now r)"
    "r' = r\<lparr>outbox_data := fold (lease_row now ?to) (fetched_ids limit now r) (outbox_data r)\<rparr>"
    using assms(2) by (auto simp: FetchReady_spec [OF d])
  show "ready = map (leased_at now ?to (outbox_data r)) (fetched_ids limit now r)" by (rule s(1))
  show "map_of (outbox_data r') i =
      (if i \<in> set (fetched_ids limit now r) then map_option (lease now ?to) (map_of (outbox_data r) i)
       else map_of (outbox_data r) i)"
    by (simp add: s(2) map_of_lease_rows [OF fetched_distinct [OF d]])
  show "outbox_order r' = outbox_order r" by (simp add: s(2))
  have "msg_ID (leased_at now ?to (outbox_data r) i) = i" if "i \<in> set (fetched_ids limit now r)" for i
    using fetched_due [OF that] assms(1)
    by (auto simp: due_def leased_at_def lease_def outbox_ok_def split: option.splits)
  then show "map msg_ID ready = fetched_ids limit now r"
    by (simp add: s(1) map_idI)
qed

lemma step_keeps_lease:
  assumes "outbox_step r op ready r'" "outbox_ok r" "map_of (outbox_data r) i = Some m"
    "msg_Status m = OutboxStatusProcessing" "msg_NextAttemptAt m = until" "leaves_lease i until op"
  shows "map_of (outbox_data r') i = Some m \<and> i \<notin> msg_ID ` set ready"
  using assms(1)
proof (cases rule: outbox_step.cases)
  case append_step
  with append_keeps [OF assms(3)] show ?thesis by simp
next
  case (fetch_step limit now)
  have "i \<notin> set (fetched_ids limit now r)"
    using fetched_due [of i limit now r] assms(3,5,6) fetch_step(1) by (auto simp: due_def)
  with fetch_result [OF assms(2) fetch_step(2)] assms(3) show ?thesis
    by (metis list.set_map)
next
  case renew_step
  with assms(3,6) show ?thesis by (auto simp: RenewProcessing_def split: option.splits if_splits)
next
  case succeeded_step
  with assms(3,6) show ?thesis
    by (auto simp: MarkSucceeded_def Let_def map_of_fold_del_row split: if_splits)
next
  case retry_step
  with assms(3,6) show ?thesis by (auto simp: MarkRetry_def split: option.splits)
next
  case dead_step
  with assms(3,6) show ?thesis by (auto simp: MarkDead_def split: option.splits)
qed

lemma run_keeps_lease:
  assumes "outbox_run r trace r'" "outbox_ok r" "map_of (outbox_data r) i = Some m"
    "msg_Status m = OutboxStatusProcessing" "\<forall>(op, ready) \<in> set trace. leaves_lease i (msg_NextAttemptAt m) op"
  shows "map_of (outbox_data r') i = Some m \<and> (\<forall>(op, ready) \<in> set trace. i \<notin> msg_ID ` set ready)"
  using assms
proof (induction rule: outbox_run.induct)
  case run_nil
  then show ?case by simp
next
  case (run_step r op ready r1 trace r2)
  from run_step.prems(4) have l: "leaves_lease i (msg_NextAttemptAt m) op" by simp
  from step_keeps_lease [OF run_step.hyps(1) run_step.prems(1-3) refl l]
  have s: "map_of (outbox_data r1) i = Some m" "i \<notin> msg_ID ` set ready" by blast+
  with run_step.IH [OF outbox_step_ok [OF run_step.hyps(1) run_step.prems(1)] s(1)] run_step.prems
  show ?case by auto
qed

lemma step_keeps_message:
  assumes "outbox_step r op ready r'" "outbox_ok r" "map_of (outbox_data r) i \<noteq> None"
    "\<And>js. op = OpSucceeded js \<Longrightarrow> i \<notin> set js"
  shows "map_of (outbox_data r') i \<noteq> None"
  using assms(1)
proof (cases rule: outbox_step.cases)
  case append_step
  with assms(3) append_keeps show ?thesis by (metis not_None_eq)
next
  case (fetch_step limit now)
  with fetch_result(3) [OF assms(2) fetch_step(2), of i] assms(3) show ?thesis by simp
next
  case renew_step
  with assms(3) show ?thesis by (auto simp: RenewProcessing_def split: option.splits if_splits)
next
  case (succeeded_step js)
  with assms(3) assms(4) [OF succeeded_step(1)] show ?thesis
    by (auto simp: MarkSucceeded_def Let_def map_of_fold_del_row split: if_splits)
next
  case retry_step
  with assms(3) show ?thesis by (auto simp: MarkRetry_def split: option.splits)
next
  case dead_step
  with assms(3) show ?thesis by (auto simp: MarkDead_def split: option.splits)
qed

lemma run_keeps_message:
  assumes "outbox_run r trace r'" "outbox_ok r" "map_of (outbox_data r) i \<noteq> None"
    "\<forall>js ready. (OpSucceeded js, ready) \<in> set trace \<longrightarrow> i \<notin> set js"
  shows "map_of (outbox_data r') i \<noteq> None"
  using assms
proof (induction rule: outbox_run.induct)
  case run_nil
  then show ?case by simp
next
  case (run_step r op ready r1 trace r2)
  have "map_of (outbox_data r1) i \<noteq> None"
    using run_step.prems(3)
    by (intro step_keeps_message [OF run_step.hyps(1) run_step.prems(1,2)]) auto
  with run_step.IH outbox_step_ok [OF run_step.hyps(1) run_step.prems(1)] run_step.prems(3)
  show ?case by auto
qed

text \<open>With room for the whole scan, every message that is due is fetched.\<close>

lemma fetch_complete:
  assumes "outbox_ok r" "FetchReady None limit now r = (Inr ready, r')"
    "map_of (outbox_data r) i = Some m" "msg_Status m \<noteq> OutboxStatusDead" "msg_NextAttemptAt m \<le> now"
    "int (length (outbox_order r)) \<le> limit"
  shows "i \<in> msg_ID ` set ready"
proof -
  have s: "i \<in> set (outbox_order r)" "msg_Status m \<noteq> OutboxStatusUnset"
    using assms(1,3,4) by (auto simp: outbox_ok_def)
  then have "due now (outbox_data r) i"
    using assms(3-5) by (cases "msg_Status m") (simp_all add: due_def)
  moreover have "length (filter (due now (outbox_data r)) (outbox_order r)) \<le> nat limit"
    using assms(6) length_filter_le [of "due now (outbox_data r)" "outbox_order r"] by linarith
  ultimately have "i \<in> set (fetched_ids limit now r)"
    using s(1) by (simp add: fetched_ids_def take_int_def)
  then show ?thesis using fetch_result(2) [OF assms(1,2)] by (metis list.set_map)
qed

declare map_of_eq_Some_iff [simp] Some_eq_map_of_iff [simp]

end
