(* ===== verification/UnitOfWork.thy ===== *)
theory UnitOfWork
  imports Events RepoBoard RepoPost RepoComment RepoUser RepoReaction RepoReport RepoNotification
    RepoAttachment RepoTokens RepoOutbox
begin

text \<open>
  \<open>persistence/inmemory/unitOfWork.go\<close>: the thirteen repositories under one transaction.
  The first write of a transaction to a repository locks it and takes a snapshot
  (\<open>beforeWrite\<close>); when the body fails, the snapshots are put back. Transactions run one at a
  time (\<open>UnitOfWork.mu\<close>).

  A transaction body is an \<open>action\<close>: it takes the environment and the transaction and
  answers an error or a value with the transaction afterwards, or \<open>None\<close> when it blocks for
  ever. It can block because a repository's lock is not reentrant: some methods of the
  transactional repositories call the locking method of the repository, which waits for the
  lock the transaction itself holds since its first write.

  The environment stands for what the code does not determine: the readings of the clock, the
  UUIDs and random identifiers drawn, in the order of the draws; the error a repository call
  may return (\<open>env_fault\<close>, by the label the caller wraps it with), which covers the
  repositories behind the same interface that can fail; the context's error; \<open>json.Marshal\<close>;
  and \<open>strings.ToLower\<close> outside ASCII.

  The lemmas show atomicity: an action built from the operations below keeps what the
  snapshots restore, so a failed transaction leaves the store as it was, counters included.
\<close>

section \<open>The store, the environment and the transaction\<close>

record store =
  st_users :: user_repo
  st_boards :: board_repo
  st_posts :: post_repo
  st_tags :: tag_repo
  st_post_tags :: post_tag_repo
  st_comments :: comment_repo
  st_reactions :: reaction_repo
  st_attachments :: attachment_repo
  st_reports :: report_repo
  st_notifications :: notification_repo
  st_email_tokens :: token_repo
  st_password_tokens :: token_repo
  st_outbox :: outbox_repo

record env =
  env_now :: "nat \<Rightarrow> time"
  env_uuid :: "nat \<Rightarrow> string"
  env_rand :: "nat \<Rightarrow> string option"
  env_fault :: "string \<Rightarrow> go_error option"
  env_ctx :: "go_error option"
  env_marshal :: "domain_event \<Rightarrow> string option"
  env_lower :: "string \<Rightarrow> string"

record tx =
  tx_store :: store
  tx_tick :: nat
  tx_afterCommit :: "go_error option list"
  snap_users :: "user_repo option"
  snap_boards :: "board_repo option"
  snap_posts :: "post_repo option"
  snap_tags :: "tag_repo option"
  snap_post_tags :: "post_tag_repo option"
  snap_comments :: "comment_repo option"
  snap_reactions :: "reaction_repo option"
  snap_attachments :: "attachment_repo option"
  snap_reports :: "report_repo option"
  snap_notifications :: "notification_repo option"
  snap_email_tokens :: "token_repo option"
  snap_password_tokens :: "token_repo option"
  snap_outbox :: "outbox_state option"

type_synonym 'a action = "env \<Rightarrow> tx \<Rightarrow> ((go_error + 'a) \<times> tx) option"

section \<open>Actions\<close>

definition returnT :: "'a \<Rightarrow> 'a action" where
  "returnT a = (\<lambda>e t. Some (Inr a, t))"

definition throwT :: "go_error \<Rightarrow> 'a action" where
  "throwT err = (\<lambda>e t. Some (Inl err, t))"

definition bindT :: "'a action \<Rightarrow> ('a \<Rightarrow> 'b action) \<Rightarrow> 'b action" where
  "bindT m f = (\<lambda>e t. case m e t of
      None \<Rightarrow> None
    | Some (Inl err, t') \<Rightarrow> Some (Inl err, t')
    | Some (Inr a, t') \<Rightarrow> f a e t')"

text \<open>A guard: \<open>if err := ...; err != nil { return err }\<close>.\<close>

definition ensureT :: "go_error option \<Rightarrow> unit action" where
  "ensureT res = (case res of None \<Rightarrow> returnT () | Some err \<Rightarrow> throwT err)"

text \<open>A value that must be there: \<open>if x == nil { return err }\<close>.\<close>

definition requireT :: "'a option \<Rightarrow> go_error \<Rightarrow> 'a action" where
  "requireT x err = (case x of Some a \<Rightarrow> returnT a | None \<Rightarrow> throwT err)"

text \<open>
  A repository call and \<open>if err != nil { return customerror.WrapRepository(label, err) }\<close>.
\<close>

definition wrapped :: "string \<Rightarrow> 'a action \<Rightarrow> 'a action" where
  "wrapped label m = (\<lambda>e t. case env_fault e label of
      Some err \<Rightarrow> Some (Inl (WrapRepository label (Some err)), t)
    | None \<Rightarrow> (case m e t of
        None \<Rightarrow> None
      | Some (Inl err, t') \<Rightarrow> Some (Inl (WrapRepository label (Some err)), t')
      | Some (Inr a, t') \<Rightarrow> Some (Inr a, t')))"

fun forT :: "'a list \<Rightarrow> ('a \<Rightarrow> unit action) \<Rightarrow> unit action" where
  "forT [] body = returnT ()"
| "forT (x # xs) body = bindT (body x) (\<lambda>_. forT xs body)"

fun mapT :: "('a \<Rightarrow> 'b action) \<Rightarrow> 'a list \<Rightarrow> 'b list action" where
  "mapT f [] = returnT []"
| "mapT f (x # xs) = bindT (f x) (\<lambda>y. bindT (mapT f xs) (\<lambda>ys. returnT (y # ys)))"

definition envT :: "(env \<Rightarrow> 'a) \<Rightarrow> 'a action" where
  "envT f = (\<lambda>e t. Some (Inr (f e), t))"

definition nowT :: "time action" where
  "nowT = (\<lambda>e t. Some (Inr (env_now e (tx_tick t)), t\<lparr>tx_tick := tx_tick t + 1\<rparr>))"

definition uuidT :: "string action" where
  "uuidT = (\<lambda>e t. Some (Inr (env_uuid e (tx_tick t)), t\<lparr>tx_tick := tx_tick t + 1\<rparr>))"

definition randT :: "string option action" where
  "randT = (\<lambda>e t. Some (Inr (env_rand e (tx_tick t)), t\<lparr>tx_tick := tx_tick t + 1\<rparr>))"

definition AfterCommit :: "go_error option \<Rightarrow> unit action" where
  "AfterCommit hook = (\<lambda>e t. Some (Inr (), t\<lparr>tx_afterCommit := tx_afterCommit t @ [hook]\<rparr>))"

section \<open>Capturing and restoring\<close>

definition captureUser :: "tx \<Rightarrow> tx" where
  "captureUser t =
     (case snap_users t of
        Some _ \<Rightarrow> t
      | None \<Rightarrow> t\<lparr>snap_users := Some (User_snapshot (st_users (tx_store t)))\<rparr>)"

definition captureBoard :: "tx \<Rightarrow> tx" where
  "captureBoard t =
     (case snap_boards t of
        Some _ \<Rightarrow> t
      | None \<Rightarrow> t\<lparr>snap_boards := Some (Board_snapshot (st_boards (tx_store t)))\<rparr>)"

definition capturePost :: "tx \<Rightarrow> tx" where
  "capturePost t =
     (case snap_posts t of
        Some _ \<Rightarrow> t
      | None \<Rightarrow> t\<lparr>snap_posts := Some (Post_snapshot (st_posts (tx_store t)))\<rparr>)"

definition captureTag :: "tx \<Rightarrow> tx" where
  "captureTag t =
     (case snap_tags t of
        Some _ \<Rightarrow> t
      | None \<Rightarrow> t\<lparr>snap_tags := Some (Tag_snapshot (st_tags (tx_store t)))\<rparr>)"

definition capturePostTag :: "tx \<Rightarrow> tx" where
  "capturePostTag t =
     (case snap_post_tags t of
        Some _ \<Rightarrow> t
      | None \<Rightarrow> t\<lparr>snap_post_tags := Some (PostTag_snapshot (st_post_tags (tx_store t)))\<rparr>)"

definition captureComment :: "tx \<Rightarrow> tx" where
  "captureComment t =
     (case snap_comments t of
        Some _ \<Rightarrow> t
      | None \<Rightarrow> t\<lparr>snap_comments := Some (Comment_snapshot (st_comments (tx_store t)))\<rparr>)"

definition captureReaction :: "tx \<Rightarrow> tx" where
  "captureReaction t =
     (case snap_reactions t of
        Some _ \<Rightarrow> t
      | None \<Rightarrow> t\<lparr>snap_reactions := Some (Reaction_snapshot (st_reactions (tx_store t)))\<rparr>)"

definition captureAttachment :: "tx \<Rightarrow> tx" where
  "captureAttachment t =
     (case snap_attachments t of
        Some _ \<Rightarrow> t
      | None \<Rightarrow> t\<lparr>snap_attachments := Some (Attachment_snapshot (st_attachments (tx_store t)))\<rparr>)"

definition captureReport :: "tx \<Rightarrow> tx" where
  "captureReport t =
     (case snap_reports t of
        Some _ \<Rightarrow> t
      | None \<Rightarrow> t\<lparr>snap_reports := Some (Report_snapshot (st_reports (tx_store t)))\<rparr>)"

definition captureNotification :: "tx \<Rightarrow> tx" where
  "captureNotification t =
     (case snap_notifications t of
        Some _ \<Rightarrow> t
      | None \<Rightarrow> t\<lparr>snap_notifications := Some (Notification_snapshot (st_notifications (tx_store t)))\<rparr>)"

definition captureEmailVerification :: "tx \<Rightarrow> tx" where
  "captureEmailVerification t =
     (case snap_email_tokens t of
        Some _ \<Rightarrow> t
      | None \<Rightarrow> t\<lparr>snap_email_tokens := Some (EmailVerification_snapshot (st_email_tokens (tx_store t)))\<rparr>)"

definition capturePasswordReset :: "tx \<Rightarrow> tx" where
  "capturePasswordReset t =
     (case snap_password_tokens t of
        Some _ \<Rightarrow> t
      | None \<Rightarrow> t\<lparr>snap_password_tokens := Some (PasswordReset_snapshot (st_password_tokens (tx_store t)))\<rparr>)"

definition captureOutbox :: "tx \<Rightarrow> tx" where
  "captureOutbox t =
     (case snap_outbox t of
        Some _ \<Rightarrow> t
      | None \<Rightarrow> t\<lparr>snap_outbox := Some (Outbox_snapshot (st_outbox (tx_store t)))\<rparr>)"

definition restored :: "('st \<Rightarrow> 'r \<Rightarrow> 'r) \<Rightarrow> 'st option \<Rightarrow> 'r \<Rightarrow> 'r" where
  "restored restore snap r = (case snap of Some state \<Rightarrow> restore state r | None \<Rightarrow> r)"

text \<open>What the error branch of \<open>WithinTransaction\<close> puts back.\<close>

definition restore_all :: "tx \<Rightarrow> store" where
  "restore_all t =
     (let s = tx_store t in
      \<lparr>st_users = restored User_restore (snap_users t) (st_users s),
       st_boards = restored Board_restore (snap_boards t) (st_boards s),
       st_posts = restored Post_restore (snap_posts t) (st_posts s),
       st_tags = restored Tag_restore (snap_tags t) (st_tags s),
       st_post_tags = restored PostTag_restore (snap_post_tags t) (st_post_tags s),
       st_comments = restored Comment_restore (snap_comments t) (st_comments s),
       st_reactions = restored Reaction_restore (snap_reactions t) (st_reactions s),
       st_attachments = restored Attachment_restore (snap_attachments t) (st_attachments s),
       st_reports = restored Report_restore (snap_reports t) (st_reports s),
       st_notifications = restored Notification_restore (snap_notifications t) (st_notifications s),
       st_email_tokens = restored EmailVerification_restore (snap_email_tokens t) (st_email_tokens s),
       st_password_tokens = restored PasswordReset_restore (snap_password_tokens t) (st_password_tokens s),
       st_outbox = restored Outbox_restore (snap_outbox t) (st_outbox s)\<rparr>)"

definition begin_tx :: "nat \<Rightarrow> store \<Rightarrow> tx" where
  "begin_tx tick s =
     \<lparr>tx_store = s, tx_tick = tick, tx_afterCommit = [],
      snap_users = None,
      snap_boards = None,
      snap_posts = None,
      snap_tags = None,
      snap_post_tags = None,
      snap_comments = None,
      snap_reactions = None,
      snap_attachments = None,
      snap_reports = None,
      snap_notifications = None,
      snap_email_tokens = None,
      snap_password_tokens = None,
      snap_outbox = None\<rparr>"

fun run_hooks :: "go_error option list \<Rightarrow> go_error option" where
  "run_hooks [] = None"
| "run_hooks (hook # hooks) = (case hook of Some err \<Rightarrow> Some err | None \<Rightarrow> run_hooks hooks)"

definition WithinTransaction ::
  "env \<Rightarrow> nat \<Rightarrow> 'a action \<Rightarrow> store \<Rightarrow> ((go_error + 'a) \<times> store) option" where
  "WithinTransaction e tick fn s =
     (case fn e (begin_tx tick s) of
        None \<Rightarrow> None
      | Some (Inl err, t) \<Rightarrow> Some (Inl err, restore_all t)
      | Some (Inr a, t) \<Rightarrow>
          (case run_hooks (tx_afterCommit t) of
             Some err \<Rightarrow> Some (Inl err, tx_store t)
           | None \<Rightarrow> Some (Inr a, tx_store t)))"

section \<open>Reads and writes of a repository in a transaction\<close>

definition read_part :: "(store \<Rightarrow> 'r) \<Rightarrow> ('r \<Rightarrow> 'a) \<Rightarrow> 'a action" where
  "read_part get f = (\<lambda>e t. Some (Inr (f (get (tx_store t))), t))"

text \<open>A read through a method that takes the repository's lock.\<close>

definition enter_part :: "(tx \<Rightarrow> 'st option) \<Rightarrow> (store \<Rightarrow> 'r) \<Rightarrow> ('r \<Rightarrow> 'a) \<Rightarrow> 'a action" where
  "enter_part snap get f =
     (\<lambda>e t. if snap t = None then Some (Inr (f (get (tx_store t))), t) else None)"

definition write_part ::
  "(tx \<Rightarrow> tx) \<Rightarrow> (store \<Rightarrow> 'r) \<Rightarrow> (('r \<Rightarrow> 'r) \<Rightarrow> store \<Rightarrow> store) \<Rightarrow> ('r \<Rightarrow> (go_error + 'a) \<times> 'r) \<Rightarrow>
    'a action" where
  "write_part capture get put op =
     (\<lambda>e t. let t1 = capture t; (res, r) = op (get (tx_store t1))
            in Some (res, t1\<lparr>tx_store := put (\<lambda>_. r) (tx_store t1)\<rparr>))"

definition always :: "('r \<Rightarrow> 'a \<times> 'r) \<Rightarrow> 'r \<Rightarrow> (go_error + 'a) \<times> 'r" where
  "always f r = (case f r of (a, r') \<Rightarrow> (Inr a, r'))"

definition changes :: "('r \<Rightarrow> 'r) \<Rightarrow> 'r \<Rightarrow> (go_error + unit) \<times> 'r" where
  "changes f r = (Inr (), f r)"

definition checked :: "('r \<Rightarrow> go_error option \<times> 'r) \<Rightarrow> 'r \<Rightarrow> (go_error + unit) \<times> 'r" where
  "checked f r =
     (case f r of (res, r') \<Rightarrow> ((case res of None \<Rightarrow> Inr () | Some err \<Rightarrow> Inl err), r'))"

abbreviation writeUser :: "(user_repo \<Rightarrow> (go_error + 'a) \<times> user_repo) \<Rightarrow> 'a action" where
  "writeUser \<equiv> write_part captureUser st_users st_users_update"

abbreviation writeBoard :: "(board_repo \<Rightarrow> (go_error + 'a) \<times> board_repo) \<Rightarrow> 'a action" where
  "writeBoard \<equiv> write_part captureBoard st_boards st_boards_update"

abbreviation writePost :: "(post_repo \<Rightarrow> (go_error + 'a) \<times> post_repo) \<Rightarrow> 'a action" where
  "writePost \<equiv> write_part capturePost st_posts st_posts_update"

abbreviation writeTag :: "(tag_repo \<Rightarrow> (go_error + 'a) \<times> tag_repo) \<Rightarrow> 'a action" where
  "writeTag \<equiv> write_part captureTag st_tags st_tags_update"

abbreviation writePostTag :: "(post_tag_repo \<Rightarrow> (go_error + 'a) \<times> post_tag_repo) \<Rightarrow> 'a action" where
  "writePostTag \<equiv> write_part capturePostTag st_post_tags st_post_tags_update"

abbreviation writeComment :: "(comment_repo \<Rightarrow> (go_error + 'a) \<times> comment_repo) \<Rightarrow> 'a action" where
  "writeComment \<equiv> write_part captureComment st_comments st_comments_update"

abbreviation writeReaction :: "(reaction_repo \<Rightarrow> (go_error + 'a) \<times> reaction_repo) \<Rightarrow> 'a action" where
  "writeReaction \<equiv> write_part captureReaction st_reactions st_reactions_update"

abbreviation writeAttachment :: "(attachment_repo \<Rightarrow> (go_error + 'a) \<times> attachment_repo) \<Rightarrow> 'a action" where
  "writeAttachment \<equiv> write_part captureAttachment st_attachments st_attachments_update"

abbreviation writeReport :: "(report_repo \<Rightarrow> (go_error + 'a) \<times> report_repo) \<Rightarrow> 'a action" where
  "writeReport \<equiv> write_part captureReport st_reports st_reports_update"

abbreviation writeNotification :: "(notification_repo \<Rightarrow> (go_error + 'a) \<times> notification_repo) \<Rightarrow> 'a action" where
  "writeNotification \<equiv> write_part captureNotification st_notifications st_notifications_update"

abbreviation writeEmailVerification :: "(token_repo \<Rightarrow> (go_error + 'a) \<times> token_repo) \<Rightarrow> 'a action" where
  "writeEmailVerification \<equiv> write_part captureEmailVerification st_email_tokens st_email_tokens_update"

abbreviation writePasswordReset :: "(token_repo \<Rightarrow> (go_error + 'a) \<times> token_repo) \<Rightarrow> 'a action" where
  "writePasswordReset \<equiv> write_part capturePasswordReset st_password_tokens st_password_tokens_update"

abbreviation writeOutbox :: "(outbox_repo \<Rightarrow> (go_error + 'a) \<times> outbox_repo) \<Rightarrow> 'a action" where
  "writeOutbox \<equiv> write_part captureOutbox st_outbox st_outbox_update"

section \<open>The transactional repositories\<close>

subsection \<open>Users\<close>

definition userTx_Save :: "user \<Rightarrow> user action" where
  "userTx_Save u = bindT (envT env_lower) (\<lambda>lower. writeUser (User_save lower u))"

definition userTx_SelectUserByUsername :: "string \<Rightarrow> user option action" where
  "userTx_SelectUserByUsername username = read_part st_users (selectUserByUsername username)"

definition userTx_SelectUserByUsernameIncludingDeleted :: "string \<Rightarrow> user option action" where
  "userTx_SelectUserByUsernameIncludingDeleted username = read_part st_users (selectUserByUsernameIncludingDeleted username)"

definition userTx_SelectUserByEmail :: "string \<Rightarrow> user option action" where
  "userTx_SelectUserByEmail email = bindT (envT env_lower) (\<lambda>lower. read_part st_users (selectUserByEmail lower email))"

definition userTx_SelectUserByUUID :: "string \<Rightarrow> user option action" where
  "userTx_SelectUserByUUID uuid = read_part st_users (selectUserByUUID uuid)"

definition userTx_SelectUserByID :: "int \<Rightarrow> user option action" where
  "userTx_SelectUserByID i = read_part st_users (selectUserByID i)"

definition userTx_SelectUserByIDIncludingDeleted :: "int \<Rightarrow> user option action" where
  "userTx_SelectUserByIDIncludingDeleted i = read_part st_users (selectUserByIDIncludingDeleted i)"

definition userTx_SelectUsersByIDsIncludingDeleted :: "int list \<Rightarrow> (int \<times> user) list action" where
  "userTx_SelectUsersByIDsIncludingDeleted ids = read_part st_users (selectUsersByIDsIncludingDeleted ids)"

definition userTx_SelectGuestCleanupCandidates :: "time \<Rightarrow> duration \<Rightarrow> duration \<Rightarrow> int \<Rightarrow> user list action" where
  "userTx_SelectGuestCleanupCandidates now pendingGrace activeUnusedGrace limit = 
     read_part st_users (selectGuestCleanupCandidates now pendingGrace activeUnusedGrace limit)"

definition userTx_Update :: "user \<Rightarrow> unit action" where
  "userTx_Update u = bindT (envT env_lower) (\<lambda>lower. writeUser (User_update lower u))"

definition userTx_Delete :: "int \<Rightarrow> unit action" where
  "userTx_Delete i = writeUser (changes (User_delete i))"

subsection \<open>Email verification tokens\<close>

definition emailVerificationTokenTx_Save :: "token \<Rightarrow> unit action" where
  "emailVerificationTokenTx_Save t = writeEmailVerification (changes (EmailVerification_save t))"

definition emailVerificationTokenTx_SelectByTokenHash :: "string \<Rightarrow> token option action" where
  "emailVerificationTokenTx_SelectByTokenHash tokenHash = read_part st_email_tokens (EmailVerification_selectByTokenHash tokenHash)"

definition emailVerificationTokenTx_SelectLatestByUser :: "int \<Rightarrow> token option action" where
  "emailVerificationTokenTx_SelectLatestByUser userID = read_part st_email_tokens (EmailVerification_selectLatestByUser userID)"

definition emailVerificationTokenTx_InvalidateByUser :: "int \<Rightarrow> unit action" where
  "emailVerificationTokenTx_InvalidateByUser userID = writeEmailVerification (changes (EmailVerification_invalidateByUser userID))"

definition emailVerificationTokenTx_Update :: "token \<Rightarrow> unit action" where
  "emailVerificationTokenTx_Update t = writeEmailVerification (changes (EmailVerification_update t))"

definition emailVerificationTokenTx_DeleteExpiredOrConsumedBefore :: "time \<Rightarrow> int \<Rightarrow> int action" where
  "emailVerificationTokenTx_DeleteExpiredOrConsumedBefore cutoff limit = 
     writeEmailVerification (always (EmailVerification_deleteExpiredOrConsumedBefore cutoff limit))"

subsection \<open>Password reset tokens\<close>

definition passwordResetTokenTx_Save :: "token \<Rightarrow> unit action" where
  "passwordResetTokenTx_Save t = writePasswordReset (changes (PasswordReset_save t))"

definition passwordResetTokenTx_SelectByTokenHash :: "string \<Rightarrow> token option action" where
  "passwordResetTokenTx_SelectByTokenHash tokenHash = read_part st_password_tokens (PasswordReset_selectByTokenHash tokenHash)"

definition passwordResetTokenTx_SelectLatestByUser :: "int \<Rightarrow> token option action" where
  "passwordResetTokenTx_SelectLatestByUser userID = read_part st_password_tokens (PasswordReset_selectLatestByUser userID)"

definition passwordResetTokenTx_InvalidateByUser :: "int \<Rightarrow> unit action" where
  "passwordResetTokenTx_InvalidateByUser userID = writePasswordReset (changes (PasswordReset_invalidateByUser userID))"

definition passwordResetTokenTx_Update :: "token \<Rightarrow> unit action" where
  "passwordResetTokenTx_Update t = writePasswordReset (changes (PasswordReset_update t))"

definition passwordResetTokenTx_DeleteExpiredOrConsumedBefore :: "time \<Rightarrow> int \<Rightarrow> int action" where
  "passwordResetTokenTx_DeleteExpiredOrConsumedBefore cutoff limit = 
     writePasswordReset (always (PasswordReset_deleteExpiredOrConsumedBefore cutoff limit))"

subsection \<open>Boards\<close>

definition boardTx_SelectBoardByID :: "int \<Rightarrow> board option action" where
  "boardTx_SelectBoardByID i = read_part st_boards (selectBoardByID i)"

definition boardTx_SelectBoardByUUID :: "string \<Rightarrow> board option action" where
  "boardTx_SelectBoardByUUID uuid = read_part st_boards (selectBoardByUUID uuid)"

definition boardTx_SelectBoardsByIDs :: "int list \<Rightarrow> (int \<times> board) list action" where
  "boardTx_SelectBoardsByIDs ids = read_part st_boards (selectBoardsByIDs ids)"

definition boardTx_SelectBoardList :: "int \<Rightarrow> int \<Rightarrow> board list action" where
  "boardTx_SelectBoardList limit lastID = read_part st_boards (selectBoardList limit lastID)"

definition boardTx_SelectBoardListIncludingHidden :: "int \<Rightarrow> int \<Rightarrow> board list action" where
  "boardTx_SelectBoardListIncludingHidden limit lastID = 
     read_part st_boards (selectBoardListIncludingHidden limit lastID)"

definition boardTx_Save :: "board \<Rightarrow> board action" where
  "boardTx_Save b = writeBoard (always (Board_save b))"

definition boardTx_Update :: "board \<Rightarrow> unit action" where
  "boardTx_Update b = writeBoard (changes (Board_update b))"

definition boardTx_Delete :: "int \<Rightarrow> unit action" where
  "boardTx_Delete i = writeBoard (changes (Board_delete i))"

subsection \<open>Posts\<close>

definition postTx_Save :: "post \<Rightarrow> post action" where
  "postTx_Save p = writePost (always (Post_save p))"

definition postTx_SelectPostByID :: "int \<Rightarrow> post option action" where
  "postTx_SelectPostByID i = read_part st_posts (selectPostByID i)"

definition postTx_SelectPostByUUID :: "string \<Rightarrow> post option action" where
  "postTx_SelectPostByUUID uuid = read_part st_posts (selectPostByUUID uuid)"

definition postTx_SelectDraftPostsByAuthorID :: "int \<Rightarrow> int \<Rightarrow> int \<Rightarrow> post list action" where
  "postTx_SelectDraftPostsByAuthorID authorID limit lastID = 
     read_part st_posts (selectDraftPostsByAuthorID authorID limit lastID)"

text \<open>The methods that take the lock of the repository again.\<close>

definition postTx_CountDraftPostsByAuthorID :: "int \<Rightarrow> int action" where
  "postTx_CountDraftPostsByAuthorID authorID = 
     enter_part snap_posts st_posts (CountDraftPostsByAuthorID authorID)"

definition postTx_SelectPostUUIDsByIDs :: "int list \<Rightarrow> (int \<times> string) list action" where
  "postTx_SelectPostUUIDsByIDs ids = 
     enter_part snap_posts st_posts (SelectPostUUIDsByIDs ids)"

definition postTx_SelectPostUUIDsByIDsIncludingDeleted :: "int list \<Rightarrow> (int \<times> string) list action" where
  "postTx_SelectPostUUIDsByIDsIncludingDeleted ids = 
     enter_part snap_posts st_posts (SelectPostUUIDsByIDsIncludingDeleted ids)"

definition postTx_SelectPostsByIDsIncludingUnpublished :: "int list \<Rightarrow> (int \<times> post) list action" where
  "postTx_SelectPostsByIDsIncludingUnpublished ids = 
     enter_part snap_posts st_posts (SelectPostsByIDsIncludingUnpublished ids)"

definition postTx_SelectPostByIDIncludingUnpublished :: "int \<Rightarrow> post option action" where
  "postTx_SelectPostByIDIncludingUnpublished i = read_part st_posts (selectPostByIDIncludingUnpublished i)"

definition postTx_SelectPostByUUIDIncludingUnpublished :: "string \<Rightarrow> post option action" where
  "postTx_SelectPostByUUIDIncludingUnpublished uuid = 
     read_part st_posts (selectPostByUUIDIncludingUnpublished uuid)"

definition postTx_SelectPosts :: "int \<Rightarrow> int \<Rightarrow> int \<Rightarrow> post list action" where
  "postTx_SelectPosts boardID limit lastID = read_part st_posts (selectPosts boardID limit lastID)"

definition postTx_CountPublishedPosts :: "int action" where
  "postTx_CountPublishedPosts = enter_part snap_posts st_posts CountPublishedPosts"

definition postTx_CountPublishedPostsByBoardID :: "int \<Rightarrow> int action" where
  "postTx_CountPublishedPostsByBoardID boardID = 
     enter_part snap_posts st_posts (CountPublishedPostsByBoardID boardID)"

text \<open>These two read the tags and the post tags through their locking methods.\<close>

definition enter_tagged :: "string \<Rightarrow> unit action" where
  "enter_tagged tagName =
     bindT (enter_part snap_tags st_tags (Tag_selectByName tagName))
       (\<lambda>t. case t of
          None \<Rightarrow> returnT ()
        | Some t \<Rightarrow> enter_part snap_post_tags st_post_tags (\<lambda>_. ()))"

definition postTx_SelectPublishedPostsByTagName :: "string \<Rightarrow> int \<Rightarrow> int \<Rightarrow> post list action" where
  "postTx_SelectPublishedPostsByTagName tagName limit lastID =
     (if limit \<le> 0 then returnT []
      else bindT (enter_tagged tagName) (\<lambda>_.
        read_part id (\<lambda>s. selectPublishedPostsByTagName (st_tags s) (st_post_tags s) tagName limit lastID
          (st_posts s))))"

definition postTx_CountPublishedPostsByTagName :: "string \<Rightarrow> int action" where
  "postTx_CountPublishedPostsByTagName tagName =
     bindT (enter_part snap_posts st_posts (\<lambda>_. ())) (\<lambda>_.
       bindT (enter_tagged tagName) (\<lambda>_.
         read_part id (\<lambda>s. CountPublishedPostsByTagName (st_tags s) (st_post_tags s) tagName (st_posts s))))"

definition postTx_ExistsByBoardID :: "int \<Rightarrow> bool action" where
  "postTx_ExistsByBoardID boardID = read_part st_posts (existsByBoardID boardID)"

definition postTx_ExistsByAuthorID :: "int \<Rightarrow> bool action" where
  "postTx_ExistsByAuthorID authorID = enter_part snap_posts st_posts (Post_ExistsByAuthorID authorID)"

definition postTx_ExistsByAuthorIDIncludingDeleted :: "int \<Rightarrow> bool action" where
  "postTx_ExistsByAuthorIDIncludingDeleted authorID = 
     enter_part snap_posts st_posts (Post_ExistsByAuthorIDIncludingDeleted authorID)"

definition postTx_Update :: "post \<Rightarrow> unit action" where
  "postTx_Update p = writePost (changes (Post_update p))"

definition postTx_Delete :: "int \<Rightarrow> unit action" where
  "postTx_Delete i = bindT nowT (\<lambda>now. writePost (changes (Post_delete now i)))"

subsection \<open>Tags and post tags\<close>

text \<open>\<open>Save\<close> answers the key and the object as the caller keeps it.\<close>

definition tagTx_Save :: "tag \<Rightarrow> (int \<times> tag) action" where
  "tagTx_Save t = writeTag (always (Tag_save t))"

definition tagTx_SelectByName :: "string \<Rightarrow> tag option action" where
  "tagTx_SelectByName name = read_part st_tags (Tag_selectByName name)"

definition tagTx_SelectByIDs :: "int list \<Rightarrow> tag list action" where
  "tagTx_SelectByIDs ids = read_part st_tags (Tag_selectByIDs ids)"

definition postTagTx_SelectActiveByPostID :: "int \<Rightarrow> post_tag list action" where
  "postTagTx_SelectActiveByPostID postID = read_part st_post_tags (selectActiveByPostID postID)"

definition postTagTx_SelectActiveByTagID :: "int \<Rightarrow> int \<Rightarrow> int \<Rightarrow> post_tag list action" where
  "postTagTx_SelectActiveByTagID tagID limit lastID = 
     read_part st_post_tags (selectActiveByTagID tagID limit lastID)"

definition postTagTx_UpsertActive :: "int \<Rightarrow> int \<Rightarrow> unit action" where
  "postTagTx_UpsertActive postID tagID = 
     bindT nowT (\<lambda>now. writePostTag (changes (upsertActive now postID tagID)))"

definition postTagTx_SoftDelete :: "int \<Rightarrow> int \<Rightarrow> unit action" where
  "postTagTx_SoftDelete postID tagID = writePostTag (changes (PostTag_softDelete postID tagID))"

definition postTagTx_SoftDeleteByPostID :: "int \<Rightarrow> unit action" where
  "postTagTx_SoftDeleteByPostID postID = writePostTag (changes (softDeleteByPostID postID))"

subsection \<open>Comments\<close>

definition commentTx_Save :: "comment \<Rightarrow> comment action" where
  "commentTx_Save c = writeComment (always (Comment_save c))"

definition commentTx_SelectCommentByID :: "int \<Rightarrow> comment option action" where
  "commentTx_SelectCommentByID i = read_part st_comments (selectCommentByID i)"

definition commentTx_SelectCommentByUUID :: "string \<Rightarrow> comment option action" where
  "commentTx_SelectCommentByUUID uuid = read_part st_comments (selectCommentByUUID uuid)"

definition commentTx_SelectCommentUUIDsByIDsIncludingDeleted :: "int list \<Rightarrow> (int \<times> string) list action" where
  "commentTx_SelectCommentUUIDsByIDsIncludingDeleted ids = 
     read_part st_comments (selectCommentUUIDsByIDsIncludingDeleted ids)"

definition commentTx_SelectComments :: "int \<Rightarrow> int \<Rightarrow> int \<Rightarrow> comment list action" where
  "commentTx_SelectComments postID limit lastID = read_part st_comments (selectComments postID limit lastID)"

definition commentTx_SelectCommentsIncludingDeleted :: "int \<Rightarrow> comment list action" where
  "commentTx_SelectCommentsIncludingDeleted postID = 
     read_part st_comments (selectCommentsIncludingDeleted postID)"

definition commentTx_SelectVisibleComments :: "int \<Rightarrow> int \<Rightarrow> int \<Rightarrow> comment list action" where
  "commentTx_SelectVisibleComments postID limit lastID = 
     read_part st_comments (selectVisibleComments postID limit lastID)"

definition commentTx_ExistsByAuthorID :: "int \<Rightarrow> bool action" where
  "commentTx_ExistsByAuthorID authorID = 
     enter_part snap_comments st_comments (Comment_ExistsByAuthorID authorID)"

definition commentTx_ExistsByAuthorIDIncludingDeleted :: "int \<Rightarrow> bool action" where
  "commentTx_ExistsByAuthorIDIncludingDeleted authorID = 
     enter_part snap_comments st_comments (Comment_ExistsByAuthorIDIncludingDeleted authorID)"

definition commentTx_Update :: "comment \<Rightarrow> unit action" where
  "commentTx_Update c = writeComment (changes (Comment_update c))"

definition commentTx_Delete :: "int \<Rightarrow> unit action" where
  "commentTx_Delete i = bindT nowT (\<lambda>now. writeComment (changes (Comment_delete now i)))"

subsection \<open>Reactions\<close>

definition reactionTx_SetUserTargetReaction ::
  "int \<Rightarrow> int \<Rightarrow> ReactionTargetType \<Rightarrow> ReactionType \<Rightarrow> (reaction \<times> bool \<times> bool) option action" where
  "reactionTx_SetUserTargetReaction userID targetID targetType reactionType =
     bindT nowT (\<lambda>now.
       writeReaction (always (setUserTargetReaction now userID targetID targetType reactionType)))"

definition reactionTx_DeleteUserTargetReaction :: "int \<Rightarrow> int \<Rightarrow> ReactionTargetType \<Rightarrow> bool action" where
  "reactionTx_DeleteUserTargetReaction userID targetID targetType = 
     writeReaction (always (deleteUserTargetReaction userID targetID targetType))"

definition reactionTx_DeleteByTarget :: "int \<Rightarrow> ReactionTargetType \<Rightarrow> int action" where
  "reactionTx_DeleteByTarget targetID targetType = 
     writeReaction (always (deleteByTarget targetID targetType))"

definition reactionTx_GetUserTargetReaction :: "int \<Rightarrow> int \<Rightarrow> ReactionTargetType \<Rightarrow> reaction option action" where
  "reactionTx_GetUserTargetReaction userID targetID targetType = 
     read_part st_reactions (getUserTargetReaction userID targetID targetType)"

definition reactionTx_GetByTarget :: "int \<Rightarrow> ReactionTargetType \<Rightarrow> reaction list action" where
  "reactionTx_GetByTarget targetID targetType = 
     read_part st_reactions (getByTarget targetID targetType)"

definition reactionTx_GetByTargets :: "int list \<Rightarrow> ReactionTargetType \<Rightarrow> (int \<times> reaction list) list action" where
  "reactionTx_GetByTargets targetIDs targetType = 
     read_part st_reactions (getByTargets targetIDs targetType)"

definition reactionTx_ExistsByUserID :: "int \<Rightarrow> bool action" where
  "reactionTx_ExistsByUserID userID = 
     enter_part snap_reactions st_reactions (Reaction_ExistsByUserID userID)"

subsection \<open>Attachments\<close>

definition attachmentTx_Save :: "attachment \<Rightarrow> attachment action" where
  "attachmentTx_Save a = writeAttachment (always (Attachment_save a))"

definition attachmentTx_SelectByID :: "int \<Rightarrow> attachment option action" where
  "attachmentTx_SelectByID i = read_part st_attachments (Attachment_selectByID i)"

definition attachmentTx_SelectByUUID :: "string \<Rightarrow> attachment option action" where
  "attachmentTx_SelectByUUID uuid = read_part st_attachments (Attachment_selectByUUID uuid)"

definition attachmentTx_SelectByPostID :: "int \<Rightarrow> attachment list action" where
  "attachmentTx_SelectByPostID postID = read_part st_attachments (Attachment_selectByPostID postID)"

definition attachmentTx_SelectCleanupCandidatesBefore :: "time \<Rightarrow> int \<Rightarrow> attachment list action" where
  "attachmentTx_SelectCleanupCandidatesBefore cutoff limit = 
     read_part st_attachments (selectCleanupCandidatesBefore cutoff limit)"

definition attachmentTx_Update :: "attachment \<Rightarrow> unit action" where
  "attachmentTx_Update a = writeAttachment (changes (Attachment_update a))"

definition attachmentTx_Delete :: "int \<Rightarrow> unit action" where
  "attachmentTx_Delete i = writeAttachment (changes (Attachment_delete i))"

subsection \<open>Reports\<close>

definition reportTx_Save :: "report \<Rightarrow> report action" where
  "reportTx_Save x = writeReport (Report_save x)"

definition reportTx_SelectByID :: "int \<Rightarrow> report option action" where
  "reportTx_SelectByID i = read_part st_reports (Report_selectByID i)"

definition reportTx_SelectByReporterAndTarget :: "int \<Rightarrow> ReportTargetType \<Rightarrow> int \<Rightarrow> report option action" where
  "reportTx_SelectByReporterAndTarget reporterUserID targetType targetID = 
     read_part st_reports (selectByReporterAndTarget reporterUserID targetType targetID)"

definition reportTx_SelectList :: "ReportStatus option \<Rightarrow> int \<Rightarrow> int \<Rightarrow> report list action" where
  "reportTx_SelectList status limit lastID = 
     read_part st_reports (Report_selectList status limit lastID)"

definition reportTx_ExistsByReporterUserID :: "int \<Rightarrow> bool action" where
  "reportTx_ExistsByReporterUserID reporterUserID = 
     enter_part snap_reports st_reports (ExistsByReporterUserID reporterUserID)"

definition reportTx_Update :: "report \<Rightarrow> unit action" where
  "reportTx_Update x = writeReport (changes (Report_update x))"

subsection \<open>Notifications\<close>

definition notificationTx_Save :: "notification \<Rightarrow> notification action" where
  "notificationTx_Save n = 
     bindT uuidT (\<lambda>uuid. writeNotification (always (Notification_save uuid n)))"

definition notificationTx_SelectByID :: "int \<Rightarrow> notification option action" where
  "notificationTx_SelectByID i = 
     enter_part snap_notifications st_notifications (Notification_SelectByID i)"

definition notificationTx_SelectByUUID :: "string \<Rightarrow> notification option action" where
  "notificationTx_SelectByUUID uuid = 
     enter_part snap_notifications st_notifications (Notification_SelectByUUID uuid)"

definition notificationTx_SelectByRecipientUserID :: "int \<Rightarrow> int \<Rightarrow> int \<Rightarrow> notification list action" where
  "notificationTx_SelectByRecipientUserID userID limit lastID = 
     enter_part snap_notifications st_notifications (SelectByRecipientUserID userID limit lastID)"

definition notificationTx_CountUnreadByRecipientUserID :: "int \<Rightarrow> int action" where
  "notificationTx_CountUnreadByRecipientUserID userID = 
     enter_part snap_notifications st_notifications (CountUnreadByRecipientUserID userID)"

definition notificationTx_MarkRead :: "int \<Rightarrow> unit action" where
  "notificationTx_MarkRead i = 
     bindT nowT (\<lambda>now. writeNotification (changes (markRead now i)))"

text \<open>
  \<open>beforeWrite\<close> takes the lock, and the method called next waits for it.
\<close>

definition notificationTx_MarkAllReadByRecipientUserID :: "int \<Rightarrow> int action" where
  "notificationTx_MarkAllReadByRecipientUserID userID =
     bindT (\<lambda>e t. Some (Inr (), captureNotification t)) (\<lambda>_.
       bindT (enter_part snap_notifications st_notifications (\<lambda>_. ())) (\<lambda>_ e t.
         writeNotification
           (always (MarkAllReadByRecipientUserID (\<lambda>k. env_now e (tx_tick t + k)) userID)) e t))"

subsection \<open>The outbox\<close>

definition outboxTx_Append :: "outbox_message list \<Rightarrow> unit action" where
  "outboxTx_Append messages =
     bindT (envT env_ctx) (\<lambda>ctx_err. bindT nowT (\<lambda>now.
       writeOutbox (checked (Outbox_append ctx_err now messages))))"

end
