(* ===== verification/Transactions.thy ===== *)
theory Transactions
  imports UnitOfWork
begin

text \<open>
  Atomicity of \<open>UnitOfWork.WithinTransaction\<close>. \<open>atomic\<close> says that an action leaves what the
  snapshots would restore unchanged; \<open>returns\<close> says that it never blocks. Both pass through
  the combinators, and the locale \<open>store_part\<close> gives them for a write to a repository, from
  the laws of its capture and restore; every repository of the store interprets it. The
  bundle \<open>tx_simps\<close> reads a successful run of an action backwards, step by step.
\<close>

named_theorems atomic_intros \<open>actions that a failed transaction undoes\<close>
named_theorems returns_intros \<open>actions that do not block\<close>

section \<open>Actions that a failed transaction undoes\<close>

definition atomic :: "'a action \<Rightarrow> bool" where
  "atomic m \<longleftrightarrow> (\<forall>e t r t'. m e t = Some (r, t') \<longrightarrow>
     restore_all t' = restore_all t \<and> tx_afterCommit t' = tx_afterCommit t)"

definition returns :: "'a action \<Rightarrow> bool" where
  "returns m \<longleftrightarrow> (\<forall>e t. m e t \<noteq> None)"

lemma restore_all_tick [simp]: "restore_all (t\<lparr>tx_tick := n\<rparr>) = restore_all t"
  by (simp add: restore_all_def Let_def)

lemma restore_all_begin [simp]: "restore_all (begin_tx tick s) = s"
  by (simp add: restore_all_def begin_tx_def restored_def)

lemma atomic_basic [atomic_intros]:
  "atomic (returnT a)" "atomic (throwT err)" "atomic (envT f)" "atomic nowT" "atomic uuidT"
  "atomic randT" "atomic (read_part get g)" "atomic (enter_part snap get g)"
  by (simp_all add: atomic_def returnT_def throwT_def envT_def nowT_def uuidT_def randT_def
      read_part_def enter_part_def)

lemma returns_basic [returns_intros]:
  "returns (returnT a)" "returns (throwT err)" "returns (envT f)" "returns nowT" "returns uuidT"
  "returns randT" "returns (read_part get g)" "returns (write_part capture get put op)"
  by (simp_all add: returns_def returnT_def throwT_def envT_def nowT_def uuidT_def randT_def
      read_part_def write_part_def Let_def split: prod.split)

lemma atomic_bindT [atomic_intros]:
  assumes "atomic m" "\<And>a. atomic (f a)"
  shows "atomic (bindT m f)"
  unfolding atomic_def
proof (intro allI impI)
  fix e t r t'
  assume "bindT m f e t = Some (r, t')"
  then obtain res t1 where m: "m e t = Some (res, t1)"
    and k: "case res of Inl err \<Rightarrow> Some (Inl err, t1) = Some (r, t') | Inr a \<Rightarrow> f a e t1 = Some (r, t')"
    by (auto simp: bindT_def split: option.splits sum.splits)
  have "restore_all t1 = restore_all t \<and> tx_afterCommit t1 = tx_afterCommit t"
    using assms(1) m unfolding atomic_def by blast
  with k assms(2) show "restore_all t' = restore_all t \<and> tx_afterCommit t' = tx_afterCommit t"
    unfolding atomic_def by (cases res) auto
qed

lemma returns_bindT [returns_intros]:
  assumes "returns m" "\<And>a. returns (f a)"
  shows "returns (bindT m f)"
  unfolding returns_def
proof (intro allI)
  fix e t
  obtain res t1 where "m e t = Some (res, t1)" using assms(1) unfolding returns_def by fastforce
  with assms(2) show "bindT m f e t \<noteq> None" unfolding returns_def by (cases res) (auto simp: bindT_def)
qed

lemma atomic_wrapped [atomic_intros]: "atomic m \<Longrightarrow> atomic (wrapped label m)"
  unfolding atomic_def wrapped_def by (fastforce split: option.splits sum.splits)

lemma returns_wrapped [returns_intros]: "returns m \<Longrightarrow> returns (wrapped label m)"
  unfolding returns_def wrapped_def by (auto split: option.splits sum.splits)

lemma atomic_ensureT [atomic_intros]: "atomic (ensureT res)" "atomic (requireT x err)"
  by (simp_all add: ensureT_def requireT_def atomic_intros split: option.split)

lemma returns_ensureT [returns_intros]: "returns (ensureT res)" "returns (requireT x err)"
  by (simp_all add: ensureT_def requireT_def returns_intros split: option.split)

lemma atomic_if [atomic_intros]: "atomic m \<Longrightarrow> atomic n \<Longrightarrow> atomic (if b then m else n)"
  by simp

lemma returns_if [returns_intros]: "returns m \<Longrightarrow> returns n \<Longrightarrow> returns (if b then m else n)"
  by simp

lemma atomic_case_option [atomic_intros]:
  "atomic m \<Longrightarrow> (\<And>a. atomic (f a)) \<Longrightarrow> atomic (case x of None \<Rightarrow> m | Some a \<Rightarrow> f a)"
  by (cases x) simp_all

lemma returns_case_option [returns_intros]:
  "returns m \<Longrightarrow> (\<And>a. returns (f a)) \<Longrightarrow> returns (case x of None \<Rightarrow> m | Some a \<Rightarrow> f a)"
  by (cases x) simp_all

lemma atomic_case_prod [atomic_intros]:
  "(\<And>a b. atomic (f a b)) \<Longrightarrow> atomic (case x of (a, b) \<Rightarrow> f a b)"
  by (cases x) simp

lemma returns_case_prod [returns_intros]:
  "(\<And>a b. returns (f a b)) \<Longrightarrow> returns (case x of (a, b) \<Rightarrow> f a b)"
  by (cases x) simp

lemma atomic_forT [atomic_intros]: "(\<And>x. atomic (body x)) \<Longrightarrow> atomic (forT xs body)"
  by (induction xs) (simp_all add: atomic_intros)

lemma returns_forT [returns_intros]: "(\<And>x. returns (body x)) \<Longrightarrow> returns (forT xs body)"
  by (induction xs) (simp_all add: returns_intros)

lemma atomic_mapT [atomic_intros]: "(\<And>x. atomic (f x)) \<Longrightarrow> atomic (mapT f xs)"
  by (induction xs) (simp_all add: atomic_intros)

lemma returns_mapT [returns_intros]: "(\<And>x. returns (f x)) \<Longrightarrow> returns (mapT f xs)"
  by (induction xs) (simp_all add: returns_intros)

section \<open>A repository of the store\<close>

locale store_part =
  fixes capture :: "tx \<Rightarrow> tx"
    and get :: "store \<Rightarrow> 'r"
    and put :: "('r \<Rightarrow> 'r) \<Rightarrow> store \<Rightarrow> store"
    and allowed :: "'r \<Rightarrow> 'r \<Rightarrow> bool"
  assumes capture_store: "tx_store (capture t) = tx_store t"
    and capture_tick: "tx_tick (capture t) = tx_tick t"
    and capture_hooks: "tx_afterCommit (capture t) = tx_afterCommit t"
    and capture_restores: "restore_all (capture t) = restore_all t"
    and put_restores: "allowed (get (tx_store t)) r \<Longrightarrow>
      restore_all ((capture t)\<lparr>tx_store := put (\<lambda>_. r) (tx_store t)\<rparr>) = restore_all t"
    and get_put: "get (put (\<lambda>_. r) s) = r"
begin

lemma write_run:
  "write_part capture get put op e t = Some (res, t') \<longleftrightarrow>
    (\<exists>r. op (get (tx_store t)) = (res, r) \<and> t' = (capture t)\<lparr>tx_store := put (\<lambda>_. r) (tx_store t)\<rparr>)"
  by (auto simp: write_part_def Let_def capture_store split: prod.splits)

lemma write_atomic:
  assumes "\<And>r res r'. op r = (res, r') \<Longrightarrow> allowed r r'"
  shows "atomic (write_part capture get put op)"
  unfolding atomic_def
proof (intro allI impI)
  fix e t res t'
  assume "write_part capture get put op e t = Some (res, t')"
  then obtain r where r: "op (get (tx_store t)) = (res, r)"
    and t': "t' = (capture t)\<lparr>tx_store := put (\<lambda>_. r) (tx_store t)\<rparr>"
    unfolding write_run by blast
  have "restore_all t' = restore_all t" unfolding t' by (rule put_restores [OF assms [OF r]])
  then show "restore_all t' = restore_all t \<and> tx_afterCommit t' = tx_afterCommit t"
    by (simp add: t' capture_hooks)
qed

text \<open>A body sees its own writes.\<close>

lemma read_own_write:
  "bindT (write_part capture get put (changes f)) (\<lambda>_. read_part get g) e t = Some (Inr a, t') \<Longrightarrow>
    a = g (f (get (tx_store t)))"
  by (auto simp: bindT_def read_part_def write_part_def changes_def Let_def capture_store get_put)

end

lemma restored_simps [simp]: "restored R None r = r" "restored R (Some st) r = R st r"
  by (simp_all add: restored_def)

text \<open>Restoring overwrites everything but the configuration of the outbox.\<close>

lemma restore_eq [simp]:
  "User_restore st r = st" "Board_restore st1 r1 = st1" "Post_restore st2 r2 = st2"
  "Tag_restore st3 r3 = st3" "PostTag_restore st4 r4 = st4" "Comment_restore st5 r5 = st5"
  "Reaction_restore st6 r6 = st6" "Attachment_restore st7 r7 = st7" "Report_restore st8 r8 = st8"
  "Notification_restore st9 r9 = st9" "EmailVerification_restore st10 r10 = st10"
  "PasswordReset_restore st11 r11 = st11"
  by (simp_all add: User_restore_def Board_restore_def Post_restore_def Tag_restore_def
      PostTag_restore_def Comment_restore_def Reaction_restore_def Attachment_restore_def
      Report_restore_def Notification_restore_def EmailVerification_restore_def PasswordReset_restore_def)

lemma snapshot_eq [simp]:
  "User_snapshot r = r" "Board_snapshot r1 = r1" "Post_snapshot r2 = r2"
  "Tag_snapshot r3 = r3" "PostTag_snapshot r4 = r4" "Comment_snapshot r5 = r5"
  "Reaction_snapshot r6 = r6" "Attachment_snapshot r7 = r7" "Report_snapshot r8 = r8"
  "Notification_snapshot r9 = r9" "EmailVerification_snapshot r10 = r10"
  "PasswordReset_snapshot r11 = r11"
  by (simp_all add: User_snapshot_def Board_snapshot_def Post_snapshot_def Tag_snapshot_def
      PostTag_snapshot_def Comment_snapshot_def Reaction_snapshot_def Attachment_snapshot_def
      Report_snapshot_def Notification_snapshot_def EmailVerification_snapshot_def PasswordReset_snapshot_def)

lemma Outbox_restore_eq:
  "outbox_processingTimeout r = outbox_processingTimeout r' \<Longrightarrow> Outbox_restore st r = Outbox_restore st r'"
  by (simp add: Outbox_restore_def)

lemma Outbox_restore_idem [simp]: "Outbox_restore (Outbox_snapshot r) r = r"
  by simp

interpretation user_part: store_part captureUser st_users st_users_update "\<lambda>_ _. True"
proof unfold_locales
  fix t r s
  show "tx_store (captureUser t) = tx_store t" "tx_tick (captureUser t) = tx_tick t"
    "tx_afterCommit (captureUser t) = tx_afterCommit t"
    by (simp_all add: captureUser_def split: option.split)
  show "restore_all (captureUser t) = restore_all t"
    by (cases "snap_users t") (simp_all add: captureUser_def restore_all_def Let_def)
  show "st_users (st_users_update (\<lambda>_. r) s) = r" by simp
  show "restore_all ((captureUser t)\<lparr>tx_store := st_users_update (\<lambda>_. r) (tx_store t)\<rparr>) = restore_all t"
    by (cases "snap_users t") (simp_all add: captureUser_def restore_all_def Let_def)
qed

interpretation board_part: store_part captureBoard st_boards st_boards_update "\<lambda>_ _. True"
proof unfold_locales
  fix t r s
  show "tx_store (captureBoard t) = tx_store t" "tx_tick (captureBoard t) = tx_tick t"
    "tx_afterCommit (captureBoard t) = tx_afterCommit t"
    by (simp_all add: captureBoard_def split: option.split)
  show "restore_all (captureBoard t) = restore_all t"
    by (cases "snap_boards t") (simp_all add: captureBoard_def restore_all_def Let_def)
  show "st_boards (st_boards_update (\<lambda>_. r) s) = r" by simp
  show "restore_all ((captureBoard t)\<lparr>tx_store := st_boards_update (\<lambda>_. r) (tx_store t)\<rparr>) = restore_all t"
    by (cases "snap_boards t") (simp_all add: captureBoard_def restore_all_def Let_def)
qed

interpretation post_part: store_part capturePost st_posts st_posts_update "\<lambda>_ _. True"
proof unfold_locales
  fix t r s
  show "tx_store (capturePost t) = tx_store t" "tx_tick (capturePost t) = tx_tick t"
    "tx_afterCommit (capturePost t) = tx_afterCommit t"
    by (simp_all add: capturePost_def split: option.split)
  show "restore_all (capturePost t) = restore_all t"
    by (cases "snap_posts t") (simp_all add: capturePost_def restore_all_def Let_def)
  show "st_posts (st_posts_update (\<lambda>_. r) s) = r" by simp
  show "restore_all ((capturePost t)\<lparr>tx_store := st_posts_update (\<lambda>_. r) (tx_store t)\<rparr>) = restore_all t"
    by (cases "snap_posts t") (simp_all add: capturePost_def restore_all_def Let_def)
qed

interpretation tag_part: store_part captureTag st_tags st_tags_update "\<lambda>_ _. True"
proof unfold_locales
  fix t r s
  show "tx_store (captureTag t) = tx_store t" "tx_tick (captureTag t) = tx_tick t"
    "tx_afterCommit (captureTag t) = tx_afterCommit t"
    by (simp_all add: captureTag_def split: option.split)
  show "restore_all (captureTag t) = restore_all t"
    by (cases "snap_tags t") (simp_all add: captureTag_def restore_all_def Let_def)
  show "st_tags (st_tags_update (\<lambda>_. r) s) = r" by simp
  show "restore_all ((captureTag t)\<lparr>tx_store := st_tags_update (\<lambda>_. r) (tx_store t)\<rparr>) = restore_all t"
    by (cases "snap_tags t") (simp_all add: captureTag_def restore_all_def Let_def)
qed

interpretation post_tag_part: store_part capturePostTag st_post_tags st_post_tags_update "\<lambda>_ _. True"
proof unfold_locales
  fix t r s
  show "tx_store (capturePostTag t) = tx_store t" "tx_tick (capturePostTag t) = tx_tick t"
    "tx_afterCommit (capturePostTag t) = tx_afterCommit t"
    by (simp_all add: capturePostTag_def split: option.split)
  show "restore_all (capturePostTag t) = restore_all t"
    by (cases "snap_post_tags t") (simp_all add: capturePostTag_def restore_all_def Let_def)
  show "st_post_tags (st_post_tags_update (\<lambda>_. r) s) = r" by simp
  show "restore_all ((capturePostTag t)\<lparr>tx_store := st_post_tags_update (\<lambda>_. r) (tx_store t)\<rparr>) = restore_all t"
    by (cases "snap_post_tags t") (simp_all add: capturePostTag_def restore_all_def Let_def)
qed

interpretation comment_part: store_part captureComment st_comments st_comments_update "\<lambda>_ _. True"
proof unfold_locales
  fix t r s
  show "tx_store (captureComment t) = tx_store t" "tx_tick (captureComment t) = tx_tick t"
    "tx_afterCommit (captureComment t) = tx_afterCommit t"
    by (simp_all add: captureComment_def split: option.split)
  show "restore_all (captureComment t) = restore_all t"
    by (cases "snap_comments t") (simp_all add: captureComment_def restore_all_def Let_def)
  show "st_comments (st_comments_update (\<lambda>_. r) s) = r" by simp
  show "restore_all ((captureComment t)\<lparr>tx_store := st_comments_update (\<lambda>_. r) (tx_store t)\<rparr>) = restore_all t"
    by (cases "snap_comments t") (simp_all add: captureComment_def restore_all_def Let_def)
qed

interpretation reaction_part: store_part captureReaction st_reactions st_reactions_update "\<lambda>_ _. True"
proof unfold_locales
  fix t r s
  show "tx_store (captureReaction t) = tx_store t" "tx_tick (captureReaction t) = tx_tick t"
    "tx_afterCommit (captureReaction t) = tx_afterCommit t"
    by (simp_all add: captureReaction_def split: option.split)
  show "restore_all (captureReaction t) = restore_all t"
    by (cases "snap_reactions t") (simp_all add: captureReaction_def restore_all_def Let_def)
  show "st_reactions (st_reactions_update (\<lambda>_. r) s) = r" by simp
  show "restore_all ((captureReaction t)\<lparr>tx_store := st_reactions_update (\<lambda>_. r) (tx_store t)\<rparr>) = restore_all t"
    by (cases "snap_reactions t") (simp_all add: captureReaction_def restore_all_def Let_def)
qed

interpretation attachment_part: store_part captureAttachment st_attachments st_attachments_update "\<lambda>_ _. True"
proof unfold_locales
  fix t r s
  show "tx_store (captureAttachment t) = tx_store t" "tx_tick (captureAttachment t) = tx_tick t"
    "tx_afterCommit (captureAttachment t) = tx_afterCommit t"
    by (simp_all add: captureAttachment_def split: option.split)
  show "restore_all (captureAttachment t) = restore_all t"
    by (cases "snap_attachments t") (simp_all add: captureAttachment_def restore_all_def Let_def)
  show "st_attachments (st_attachments_update (\<lambda>_. r) s) = r" by simp
  show "restore_all ((captureAttachment t)\<lparr>tx_store := st_attachments_update (\<lambda>_. r) (tx_store t)\<rparr>) = restore_all t"
    by (cases "snap_attachments t") (simp_all add: captureAttachment_def restore_all_def Let_def)
qed

interpretation report_part: store_part captureReport st_reports st_reports_update "\<lambda>_ _. True"
proof unfold_locales
  fix t r s
  show "tx_store (captureReport t) = tx_store t" "tx_tick (captureReport t) = tx_tick t"
    "tx_afterCommit (captureReport t) = tx_afterCommit t"
    by (simp_all add: captureReport_def split: option.split)
  show "restore_all (captureReport t) = restore_all t"
    by (cases "snap_reports t") (simp_all add: captureReport_def restore_all_def Let_def)
  show "st_reports (st_reports_update (\<lambda>_. r) s) = r" by simp
  show "restore_all ((captureReport t)\<lparr>tx_store := st_reports_update (\<lambda>_. r) (tx_store t)\<rparr>) = restore_all t"
    by (cases "snap_reports t") (simp_all add: captureReport_def restore_all_def Let_def)
qed

interpretation notification_part: store_part captureNotification st_notifications st_notifications_update "\<lambda>_ _. True"
proof unfold_locales
  fix t r s
  show "tx_store (captureNotification t) = tx_store t" "tx_tick (captureNotification t) = tx_tick t"
    "tx_afterCommit (captureNotification t) = tx_afterCommit t"
    by (simp_all add: captureNotification_def split: option.split)
  show "restore_all (captureNotification t) = restore_all t"
    by (cases "snap_notifications t") (simp_all add: captureNotification_def restore_all_def Let_def)
  show "st_notifications (st_notifications_update (\<lambda>_. r) s) = r" by simp
  show "restore_all ((captureNotification t)\<lparr>tx_store := st_notifications_update (\<lambda>_. r) (tx_store t)\<rparr>) = restore_all t"
    by (cases "snap_notifications t") (simp_all add: captureNotification_def restore_all_def Let_def)
qed

interpretation email_token_part: store_part captureEmailVerification st_email_tokens st_email_tokens_update "\<lambda>_ _. True"
proof unfold_locales
  fix t r s
  show "tx_store (captureEmailVerification t) = tx_store t" "tx_tick (captureEmailVerification t) = tx_tick t"
    "tx_afterCommit (captureEmailVerification t) = tx_afterCommit t"
    by (simp_all add: captureEmailVerification_def split: option.split)
  show "restore_all (captureEmailVerification t) = restore_all t"
    by (cases "snap_email_tokens t") (simp_all add: captureEmailVerification_def restore_all_def Let_def)
  show "st_email_tokens (st_email_tokens_update (\<lambda>_. r) s) = r" by simp
  show "restore_all ((captureEmailVerification t)\<lparr>tx_store := st_email_tokens_update (\<lambda>_. r) (tx_store t)\<rparr>) = restore_all t"
    by (cases "snap_email_tokens t") (simp_all add: captureEmailVerification_def restore_all_def Let_def)
qed

interpretation password_token_part: store_part capturePasswordReset st_password_tokens st_password_tokens_update "\<lambda>_ _. True"
proof unfold_locales
  fix t r s
  show "tx_store (capturePasswordReset t) = tx_store t" "tx_tick (capturePasswordReset t) = tx_tick t"
    "tx_afterCommit (capturePasswordReset t) = tx_afterCommit t"
    by (simp_all add: capturePasswordReset_def split: option.split)
  show "restore_all (capturePasswordReset t) = restore_all t"
    by (cases "snap_password_tokens t") (simp_all add: capturePasswordReset_def restore_all_def Let_def)
  show "st_password_tokens (st_password_tokens_update (\<lambda>_. r) s) = r" by simp
  show "restore_all ((capturePasswordReset t)\<lparr>tx_store := st_password_tokens_update (\<lambda>_. r) (tx_store t)\<rparr>) = restore_all t"
    by (cases "snap_password_tokens t") (simp_all add: capturePasswordReset_def restore_all_def Let_def)
qed

interpretation outbox_part: store_part captureOutbox st_outbox st_outbox_update "\<lambda>r r'. outbox_processingTimeout r' = outbox_processingTimeout r"
proof unfold_locales
  fix t r s
  show "tx_store (captureOutbox t) = tx_store t" "tx_tick (captureOutbox t) = tx_tick t"
    "tx_afterCommit (captureOutbox t) = tx_afterCommit t"
    by (simp_all add: captureOutbox_def split: option.split)
  show "restore_all (captureOutbox t) = restore_all t"
    by (cases "snap_outbox t") (simp_all add: captureOutbox_def restore_all_def Let_def)
  show "st_outbox (st_outbox_update (\<lambda>_. r) s) = r" by simp
  assume "outbox_processingTimeout r = outbox_processingTimeout (st_outbox (tx_store t))"
  then show "restore_all ((captureOutbox t)\<lparr>tx_store := st_outbox_update (\<lambda>_. r) (tx_store t)\<rparr>) = restore_all t"
    by (cases "snap_outbox t") (simp_all add: captureOutbox_def restore_all_def Let_def Outbox_restore_eq [of r "st_outbox (tx_store t)"])
qed

lemmas writes_atomic [atomic_intros] =
  user_part.write_atomic [OF TrueI]
  board_part.write_atomic [OF TrueI]
  post_part.write_atomic [OF TrueI]
  tag_part.write_atomic [OF TrueI]
  post_tag_part.write_atomic [OF TrueI]
  comment_part.write_atomic [OF TrueI]
  reaction_part.write_atomic [OF TrueI]
  attachment_part.write_atomic [OF TrueI]
  report_part.write_atomic [OF TrueI]
  notification_part.write_atomic [OF TrueI]
  email_token_part.write_atomic [OF TrueI]
  password_token_part.write_atomic [OF TrueI]

lemma Outbox_append_timeout:
  "outbox_processingTimeout (snd (Outbox_append ctx_err now ms r)) = outbox_processingTimeout r"
proof -
  have "outbox_processingTimeout (fold (Outbox_append_one now) ms r) = outbox_processingTimeout r"
    by (induction ms arbitrary: r) (simp_all add: Outbox_append_one_def Let_def)
  then show ?thesis by (simp add: Outbox_append_def split: option.split)
qed

lemma outbox_write_atomic [atomic_intros]:
  "atomic (writeOutbox (checked (Outbox_append ctx_err now ms)))"
proof (rule outbox_part.write_atomic)
  fix r r' :: outbox_repo and res
  assume "checked (Outbox_append ctx_err now ms) r = (res, r')"
  then have "r' = snd (Outbox_append ctx_err now ms r)"
    by (auto simp: checked_def split: prod.splits)
  then show "outbox_processingTimeout r' = outbox_processingTimeout r"
    by (simp add: Outbox_append_timeout)
qed

section \<open>Successful runs\<close>

lemma bindT_run [tx_simps]:
  "bindT m f e t = Some (Inr b, t') \<longleftrightarrow>
    (\<exists>a t1. m e t = Some (Inr a, t1) \<and> f a e t1 = Some (Inr b, t'))"
  by (auto simp: bindT_def split: option.splits sum.splits)

lemma wrapped_run [tx_simps]:
  "wrapped label m e t = Some (Inr b, t') \<longleftrightarrow> env_fault e label = None \<and> m e t = Some (Inr b, t')"
  by (auto simp: wrapped_def split: option.splits sum.splits)

lemma read_part_run [tx_simps]:
  "read_part get h e t = Some (Inr b, t') \<longleftrightarrow> b = h (get (tx_store t)) \<and> t' = t"
  by (auto simp: read_part_def)

lemma returnT_run [tx_simps]: "returnT a e t = Some (Inr b, t') \<longleftrightarrow> b = a \<and> t' = t"
  by (auto simp: returnT_def)

lemma throwT_run [tx_simps]: "throwT err e t = Some (Inr b, t') \<longleftrightarrow> False"
  by (auto simp: throwT_def)

lemma requireT_run [tx_simps]: "requireT x err e t = Some (Inr b, t') \<longleftrightarrow> x = Some b \<and> t' = t"
  by (auto simp: requireT_def returnT_def throwT_def split: option.splits)

lemma envT_run [tx_simps]: "envT g e t = Some (Inr b, t') \<longleftrightarrow> b = g e \<and> t' = t"
  by (auto simp: envT_def)

lemma draw_run [tx_simps]:
  "ensureT res e t = Some (Inr u, t') \<longleftrightarrow> res = None \<and> t' = t"
  "nowT e t = Some (Inr now, t') \<longleftrightarrow> now = env_now e (tx_tick t) \<and> t' = t\<lparr>tx_tick := tx_tick t + 1\<rparr>"
  "uuidT e t = Some (Inr s, t') \<longleftrightarrow> s = env_uuid e (tx_tick t) \<and> t' = t\<lparr>tx_tick := tx_tick t + 1\<rparr>"
  "randT e t = Some (Inr o', t') \<longleftrightarrow> o' = env_rand e (tx_tick t) \<and> t' = t\<lparr>tx_tick := tx_tick t + 1\<rparr>"
  by (auto simp: ensureT_def returnT_def throwT_def nowT_def uuidT_def randT_def split: option.splits)

lemma always_run [tx_simps]: "always f r = (Inr a, r') \<longleftrightarrow> f r = (a, r')"
  by (auto simp: always_def split: prod.splits)

lemma op_simps [tx_simps]:
  "changes g r = (Inr u, r') \<longleftrightarrow> r' = g r"
  "checked h r = (Inr u, r') \<longleftrightarrow> h r = (None, r')"
  by (auto simp: changes_def checked_def split: prod.splits option.splits)

lemmas write_runs [tx_simps] =
  user_part.write_run
  board_part.write_run
  post_part.write_run
  tag_part.write_run
  post_tag_part.write_run
  comment_part.write_run
  reaction_part.write_run
  attachment_part.write_run
  report_part.write_run
  notification_part.write_run
  email_token_part.write_run
  password_token_part.write_run
  outbox_part.write_run

lemmas capture_fields [simp] =
  user_part.capture_store user_part.capture_tick user_part.capture_hooks
  board_part.capture_store board_part.capture_tick board_part.capture_hooks
  post_part.capture_store post_part.capture_tick post_part.capture_hooks
  tag_part.capture_store tag_part.capture_tick tag_part.capture_hooks
  post_tag_part.capture_store post_tag_part.capture_tick post_tag_part.capture_hooks
  comment_part.capture_store comment_part.capture_tick comment_part.capture_hooks
  reaction_part.capture_store reaction_part.capture_tick reaction_part.capture_hooks
  attachment_part.capture_store attachment_part.capture_tick attachment_part.capture_hooks
  report_part.capture_store report_part.capture_tick report_part.capture_hooks
  notification_part.capture_store notification_part.capture_tick notification_part.capture_hooks
  email_token_part.capture_store email_token_part.capture_tick email_token_part.capture_hooks
  password_token_part.capture_store password_token_part.capture_tick password_token_part.capture_hooks
  outbox_part.capture_store outbox_part.capture_tick outbox_part.capture_hooks

section \<open>Atomicity\<close>

lemma atomic_rollback:
  assumes "atomic fn" "WithinTransaction e tick fn s = Some (Inl err, s')"
  shows "s' = s"
proof -
  obtain res t where fn: "fn e (begin_tx tick s) = Some (res, t)"
    using assms(2) by (auto simp: WithinTransaction_def split: option.splits)
  with assms(1) have r: "restore_all t = s" "tx_afterCommit t = []"
    by (auto simp: atomic_def begin_tx_def restore_all_begin [unfolded begin_tx_def])
  with fn assms(2) show ?thesis
    by (cases res) (auto simp: WithinTransaction_def)
qed

lemma atomic_commit:
  assumes "atomic fn"
  shows "WithinTransaction e tick fn s = Some (Inr a, s') \<longleftrightarrow>
    (\<exists>t. fn e (begin_tx tick s) = Some (Inr a, t) \<and> s' = tx_store t)"
proof -
  have h: "tx_afterCommit t = []" if "fn e (begin_tx tick s) = Some (r, t)" for r t
    using assms that by (auto simp: atomic_def begin_tx_def)
  show ?thesis
    using h by (auto simp: WithinTransaction_def split: option.splits sum.splits)
qed

lemma returns_transaction:
  "returns fn \<Longrightarrow> WithinTransaction e tick fn s \<noteq> None"
  by (auto simp: returns_def WithinTransaction_def split: option.splits sum.splits)

lemma begin_fields [simp]:
  "tx_store (begin_tx tick s) = s" "tx_tick (begin_tx tick s) = tick"
  by (simp_all add: begin_tx_def)

text \<open>
  Marking all notifications read inside a transaction waits for the lock that the method has
  just taken, whatever the state.
\<close>

lemma mark_all_blocks: "notificationTx_MarkAllReadByRecipientUserID userID e t = None"
  by (simp add: notificationTx_MarkAllReadByRecipientUserID_def bindT_def enter_part_def
      captureNotification_def split: option.split)

end
