(* ===== verification/Policy.thy ===== *)
theory Policy
  imports Transactions
begin

text \<open>
  \<open>application/policy\<close>: who may act. The guards answer \<open>None\<close> to let the caller go on or the
  error to return. Hidden boards are concealed: to anybody but an administrator a hidden board
  and everything on it look as if they did not exist. The guards that read repositories are
  actions of a transaction; \<open>svccommon.RequireAdminUser\<close> is here as well.
\<close>

section \<open>Roles\<close>

definition AdminOnly :: "user option \<Rightarrow> go_error option" where
  "AdminOnly ou =
     (case ou of
        None \<Rightarrow> Some (Sentinel ErrUnauthorized)
      | Some u \<Rightarrow> if \<not> IsAdmin u then Some (Sentinel ErrForbidden) else None)"

definition OwnerOrAdmin :: "user option \<Rightarrow> int \<Rightarrow> go_error option" where
  "OwnerOrAdmin ou resourceOwnerID =
     (case ou of
        None \<Rightarrow> Some (Sentinel ErrUnauthorized)
      | Some u \<Rightarrow> if user_ID u \<noteq> resourceOwnerID \<and> \<not> IsAdmin u then Some (Sentinel ErrForbidden) else None)"

definition CanWrite :: "time \<Rightarrow> user option \<Rightarrow> go_error option" where
  "CanWrite now ou =
     (case ou of
        None \<Rightarrow> Some (Sentinel ErrUnauthorized)
      | Some u \<Rightarrow> if IsSuspended now u then Some (Sentinel ErrUserSuspended) else None)"

section \<open>Guests and email addresses\<close>

definition ForbidGuest :: "user option \<Rightarrow> go_error option" where
  "ForbidGuest ou =
     (case ou of Some u \<Rightarrow> if IsGuest u then Some (Sentinel ErrForbidden) else None | None \<Rightarrow> None)"

definition EnsureGuestLifecycleAllowsWrite :: "user option \<Rightarrow> go_error option" where
  "EnsureGuestLifecycleAllowsWrite ou =
     (case ou of
        None \<Rightarrow> Some (Sentinel ErrUnauthorized)
      | Some u \<Rightarrow> if IsGuest u \<and> \<not> IsActiveGuest u then Some (Sentinel ErrForbidden) else None)"

definition RequireVerifiedEmail :: "user option \<Rightarrow> go_error option" where
  "RequireVerifiedEmail ou =
     (case ou of
        None \<Rightarrow> Some (Sentinel ErrUnauthorized)
      | Some u \<Rightarrow>
          if IsAdmin u then None
          else if user_Email u = [] \<or> \<not> IsEmailVerified u
          then Some (Sentinel ErrEmailVerificationRequired) else None)"

section \<open>Hidden boards\<close>

definition EnsureBoardVisible :: "board option \<Rightarrow> user option \<Rightarrow> go_error option" where
  "EnsureBoardVisible ob ou =
     (case ob of
        None \<Rightarrow> Some (Sentinel ErrBoardNotFound)
      | Some b \<Rightarrow>
          if \<not> board_Hidden b \<or> (case ou of Some u \<Rightarrow> IsAdmin u | None \<Rightarrow> False) then None
          else Some (Sentinel ErrBoardNotFound))"

text \<open>\<open>"select ... for " + action\<close>, the label of an error.\<close>

definition label_for :: "string \<Rightarrow> string \<Rightarrow> string" where
  "label_for what act = what @ act"

definition EnsureBoardVisibleForUser ::
  "user option \<Rightarrow> int \<Rightarrow> go_error option \<Rightarrow> string \<Rightarrow> unit action" where
  "EnsureBoardVisibleForUser ou boardID concealedErr act =
     bindT (wrapped (label_for ''select board by id for '' act) (boardTx_SelectBoardByID boardID)) (\<lambda>board.
       case EnsureBoardVisible board ou of
         None \<Rightarrow> returnT ()
       | Some err \<Rightarrow>
           (case concealedErr of
              Some concealed \<Rightarrow> if Is ErrBoardNotFound err then throwT concealed else throwT err
            | None \<Rightarrow> throwT err))"

definition EnsurePostVisibleForUser ::
  "user option \<Rightarrow> int \<Rightarrow> go_error option \<Rightarrow> string \<Rightarrow> post action" where
  "EnsurePostVisibleForUser ou postID concealedErr act =
     bindT (wrapped (label_for ''select post by id for '' act) (postTx_SelectPostByID postID)) (\<lambda>post.
       case post of
         None \<Rightarrow>
           (case concealedErr of
              Some concealed \<Rightarrow> throwT concealed
            | None \<Rightarrow> throwT (Sentinel ErrPostNotFound))
       | Some p \<Rightarrow>
           bindT (EnsureBoardVisibleForUser ou (post_BoardID p) concealedErr act) (\<lambda>_. returnT p))"

definition EnsureCommentTargetVisibleForUser ::
  "user option \<Rightarrow> int \<Rightarrow> go_error option \<Rightarrow> string \<Rightarrow> (comment \<times> post) action" where
  "EnsureCommentTargetVisibleForUser ou commentID concealedErr act =
     bindT (wrapped (label_for ''select comment by id for '' act) (commentTx_SelectCommentByID commentID)) (\<lambda>comment.
       case comment of
         None \<Rightarrow>
           (case concealedErr of
              Some concealed \<Rightarrow> throwT concealed
            | None \<Rightarrow> throwT (Sentinel ErrCommentNotFound))
       | Some c \<Rightarrow>
           bindT (EnsurePostVisibleForUser ou (comment_PostID c) concealedErr act)
             (\<lambda>p. returnT (c, p)))"

definition RequireAdminUser :: "int \<Rightarrow> string \<Rightarrow> user action" where
  "RequireAdminUser userID operation =
     (let op = (if TrimSpace operation = [] then ''admin operation'' else TrimSpace operation) in
      bindT (wrapped (label_for ''select admin by id for '' op) (userTx_SelectUserByID userID)) (\<lambda>admin.
      bindT (requireT admin (Sentinel ErrUserNotFound)) (\<lambda>u.
      bindT (ensureT (AdminOnly (Some u))) (\<lambda>_. returnT u))))"

section \<open>What the guards let through\<close>

definition board_visible :: "store \<Rightarrow> user option \<Rightarrow> int \<Rightarrow> bool" where
  "board_visible s ou boardID \<longleftrightarrow>
     (\<exists>b. selectBoardByID boardID (st_boards s) = Some b \<and>
          (\<not> board_Hidden b \<or> (\<exists>u. ou = Some u \<and> IsAdmin u)))"

lemma EnsureBoardVisible_None:
  "EnsureBoardVisible ob ou = None \<longleftrightarrow>
    (\<exists>b. ob = Some b \<and> (\<not> board_Hidden b \<or> (\<exists>u. ou = Some u \<and> IsAdmin u)))"
  by (auto simp: EnsureBoardVisible_def split: option.splits)

lemma board_visible_iff:
  "board_visible s ou boardID \<longleftrightarrow> EnsureBoardVisible (selectBoardByID boardID (st_boards s)) ou = None"
  by (simp add: board_visible_def EnsureBoardVisible_None)

lemma guard_None [tx_simps]:
  "AdminOnly (Some u) = None \<longleftrightarrow> IsAdmin u"
  "OwnerOrAdmin (Some u) owner = None \<longleftrightarrow> user_ID u = owner \<or> IsAdmin u"
  "CanWrite now (Some u) = None \<longleftrightarrow> \<not> IsSuspended now u"
  "ForbidGuest (Some u) = None \<longleftrightarrow> \<not> IsGuest u"
  "EnsureGuestLifecycleAllowsWrite (Some u) = None \<longleftrightarrow> (IsGuest u \<longrightarrow> IsActiveGuest u)"
  "RequireVerifiedEmail (Some u) = None \<longleftrightarrow> IsAdmin u \<or> (user_Email u \<noteq> [] \<and> IsEmailVerified u)"
  by (auto simp: AdminOnly_def OwnerOrAdmin_def CanWrite_def ForbidGuest_def
      EnsureGuestLifecycleAllowsWrite_def RequireVerifiedEmail_def)

lemma EnsureBoardVisibleForUser_run [tx_simps]:
  "EnsureBoardVisibleForUser ou boardID ce act e t = Some (Inr u, t') \<longleftrightarrow>
    env_fault e (label_for ''select board by id for '' act) = None \<and> board_visible (tx_store t) ou boardID \<and> t' = t"
  by (cases "EnsureBoardVisible (selectBoardByID boardID (st_boards (tx_store t))) ou")
    (auto simp: EnsureBoardVisibleForUser_def boardTx_SelectBoardByID_def
      board_visible_iff tx_simps split: option.splits)

lemma EnsurePostVisibleForUser_run [tx_simps]:
  "EnsurePostVisibleForUser ou postID ce act e t = Some (Inr p, t') \<longleftrightarrow>
    env_fault e (label_for ''select post by id for '' act) = None \<and>
    env_fault e (label_for ''select board by id for '' act) = None \<and>
    selectPostByID postID (st_posts (tx_store t)) = Some p \<and>
    board_visible (tx_store t) ou (post_BoardID p) \<and> t' = t"
  by (auto simp: EnsurePostVisibleForUser_def postTx_SelectPostByID_def tx_simps split: option.splits)

lemma EnsureCommentTargetVisibleForUser_run [tx_simps]:
  "EnsureCommentTargetVisibleForUser ou commentID ce act e t = Some (Inr (c, p), t') \<longleftrightarrow>
    env_fault e (label_for ''select comment by id for '' act) = None \<and>
    env_fault e (label_for ''select post by id for '' act) = None \<and>
    env_fault e (label_for ''select board by id for '' act) = None \<and>
    selectCommentByID commentID (st_comments (tx_store t)) = Some c \<and>
    selectPostByID (comment_PostID c) (st_posts (tx_store t)) = Some p \<and>
    board_visible (tx_store t) ou (post_BoardID p) \<and> t' = t"
  by (auto simp: EnsureCommentTargetVisibleForUser_def commentTx_SelectCommentByID_def tx_simps
      split: option.splits)

lemma RequireAdminUser_run [tx_simps]:
  "RequireAdminUser userID operation e t = Some (Inr u, t') \<longleftrightarrow>
    env_fault e (label_for ''select admin by id for ''
      (if TrimSpace operation = [] then ''admin operation'' else TrimSpace operation)) = None \<and>
    selectUserByID userID (st_users (tx_store t)) = Some u \<and> IsAdmin u \<and> t' = t"
  by (auto simp: RequireAdminUser_def userTx_SelectUserByID_def tx_simps Let_def)

lemma guards_atomic [atomic_intros]:
  "atomic (EnsureBoardVisibleForUser ou boardID ce act)"
  "atomic (EnsurePostVisibleForUser ou postID ce act)"
  "atomic (EnsureCommentTargetVisibleForUser ou commentID ce act)"
  "atomic (RequireAdminUser userID operation)"
  by (auto simp: EnsureBoardVisibleForUser_def EnsurePostVisibleForUser_def RequireAdminUser_def
      EnsureCommentTargetVisibleForUser_def boardTx_SelectBoardByID_def postTx_SelectPostByID_def
      commentTx_SelectCommentByID_def userTx_SelectUserByID_def Let_def
      intro!: atomic_intros split: option.splits)

lemma guards_return [returns_intros]:
  "returns (EnsureBoardVisibleForUser ou boardID ce act)"
  "returns (EnsurePostVisibleForUser ou postID ce act)"
  "returns (EnsureCommentTargetVisibleForUser ou commentID ce act)"
  "returns (RequireAdminUser userID operation)"
  by (auto simp: EnsureBoardVisibleForUser_def EnsurePostVisibleForUser_def RequireAdminUser_def
      EnsureCommentTargetVisibleForUser_def boardTx_SelectBoardByID_def postTx_SelectPostByID_def
      commentTx_SelectCommentByID_def userTx_SelectUserByID_def Let_def
      intro!: returns_intros split: option.splits)

text \<open>
  Concealment: for a user who is not an administrator, a post on a hidden board is answered
  exactly like a post that does not exist.
\<close>

lemma hidden_post_concealed:
  assumes "selectBoardByID (post_BoardID p) (st_boards (tx_store t)) = Some b" "board_Hidden b"
    and "selectPostByID i (st_posts (tx_store t)) = Some p" "\<not> IsAdmin u"
    and "env_fault e (label_for ''select post by id for '' act) = None"
    and "env_fault e (label_for ''select board by id for '' act) = None"
  shows "EnsurePostVisibleForUser (Some u) i (Some concealed) act e t = Some (Inl concealed, t)"
  using assms
  by (simp add: EnsurePostVisibleForUser_def EnsureBoardVisibleForUser_def bindT_def wrapped_def
      postTx_SelectPostByID_def boardTx_SelectBoardByID_def read_part_def throwT_def
      EnsureBoardVisible_def)

lemma missing_post_concealed:
  assumes "selectPostByID i (st_posts (tx_store t)) = None"
    and "env_fault e (label_for ''select post by id for '' act) = None"
  shows "EnsurePostVisibleForUser ou i (Some concealed) act e t = Some (Inl concealed, t)"
  using assms
  by (simp add: EnsurePostVisibleForUser_def bindT_def wrapped_def postTx_SelectPostByID_def
      read_part_def throwT_def)

end
