(* ===== verification/SvcCommon.thy ===== *)
theory SvcCommon
  imports Policy
begin

text \<open>
  \<open>application/service/common\<close>: \<open>DispatchDomainActions\<close>, which writes the events of a
  transaction to its outbox, the notification snapshots cut to a number of bytes at a
  character boundary, and the events for the users a text mentions. The unit of work always
  offers an outbox, so the branches that hand the events to a dispatcher instead do not
  occur; the text of the marshalling error inside an error's label is left out.
\<close>

section \<open>Writing events to the outbox\<close>

definition hex_digit :: "nat \<Rightarrow> char" where
  "hex_digit d = (if d < 10 then char_of (48 + d) else char_of (87 + d))"

definition hex_encode :: "string \<Rightarrow> string" where
  "hex_encode buf = concat (map (\<lambda>c. [hex_digit (of_char c div 16), hex_digit (of_char c mod 16)]) buf)"

text \<open>\<open>env_rand\<close> is the outcome of \<open>rand.Read\<close> on a buffer of sixteen bytes.\<close>

definition newOutboxMessageID :: "string option action" where
  "newOutboxMessageID = bindT randT (\<lambda>buf. returnT (map_option hex_encode buf))"

definition outboxMessage :: "domain_event \<Rightarrow> outbox_message action" where
  "outboxMessage event =
     bindT (envT env_marshal) (\<lambda>marshal.
     bindT (requireT (Serialize marshal event)
              (Mark ErrInternalServerError ''serialize event for outbox'')) (\<lambda>(eventName, payload, at).
     bindT newOutboxMessageID (\<lambda>oid.
     bindT (requireT oid (Mark ErrInternalServerError ''generate outbox message id'')) (\<lambda>i.
     bindT (if IsZero at then nowT else returnT at) (\<lambda>occurredAt.
       returnT \<lparr>msg_ID = i, msg_EventName = eventName, msg_Payload = payload,
                msg_OccurredAt = occurredAt, msg_AttemptCount = 0, msg_NextAttemptAt = occurredAt,
                msg_Status = OutboxStatusPending, msg_LastError = []\<rparr>)))))"

definition DispatchDomainActions :: "domain_event list \<Rightarrow> unit action" where
  "DispatchDomainActions events =
     (if events = [] then returnT ()
      else bindT (mapT outboxMessage events) (\<lambda>messages.
             wrapped ''append outbox messages'' (outboxTx_Append messages)))"

section \<open>Reading outside a transaction\<close>

text \<open>A repository that answers outside a transaction: the label is that of its error.\<close>

definition read_repo :: "env \<Rightarrow> string \<Rightarrow> 'a \<Rightarrow> go_error + 'a" where
  "read_repo e label a =
     (case env_fault e label of Some err \<Rightarrow> Inl (WrapRepository label (Some err)) | None \<Rightarrow> Inr a)"

definition uniqueInt64s :: "int list \<Rightarrow> int list" where
  "uniqueInt64s ids = sort (fold (\<lambda>i out. if i \<in> set out then out else out @ [i]) ids [])"

fun uuids_of :: "(int \<times> user) list \<Rightarrow> int list \<Rightarrow> (int \<times> string) list \<Rightarrow>
    go_error + (int \<times> string) list" where
  "uuids_of usersByID [] out = Inr out"
| "uuids_of usersByID (i # ids) out =
     (case map_of usersByID i of
        None \<Rightarrow> Inl (WrapRepository ''select users by ids including deleted''
                  (Some (External (''user '' @ FormatInt i @ '': not found'') None)))
      | Some u \<Rightarrow> uuids_of usersByID ids (put_row i (user_UUID u) out))"

definition UserUUIDsByIDs :: "env \<Rightarrow> int list \<Rightarrow> store \<Rightarrow> go_error + (int \<times> string) list" where
  "UserUUIDsByIDs e ids s =
     (let uniqueIDs = uniqueInt64s ids in
      case read_repo e ''select users by ids including deleted''
             (selectUsersByIDsIncludingDeleted uniqueIDs (st_users s)) of
        Inl err \<Rightarrow> Inl err
      | Inr usersByID \<Rightarrow> uuids_of usersByID uniqueIDs [])"

section \<open>Snapshots of text\<close>

text \<open>
  The length of the first character of a string as \<open>range\<close> decodes it: a byte that does not
  start a well-formed UTF-8 sequence counts as a character of its own.
\<close>

definition continuation :: "nat \<Rightarrow> nat \<Rightarrow> nat \<Rightarrow> bool" where
  "continuation lo hi b \<longleftrightarrow> lo \<le> b \<and> b \<le> hi"

fun rune_len :: "nat list \<Rightarrow> nat" where
  "rune_len (a # b # c # d # _) =
     (if 194 \<le> a \<and> a \<le> 223 \<and> continuation 128 191 b then 2
      else if 224 \<le> a \<and> a \<le> 239 \<and>
        continuation (if a = 224 then 160 else 128) (if a = 237 then 159 else 191) b \<and>
        continuation 128 191 c then 3
      else if 240 \<le> a \<and> a \<le> 244 \<and>
        continuation (if a = 240 then 144 else 128) (if a = 244 then 143 else 191) b \<and>
        continuation 128 191 c \<and> continuation 128 191 d then 4
      else 1)"
| "rune_len [a, b, c] =
     (if 194 \<le> a \<and> a \<le> 223 \<and> continuation 128 191 b then 2
      else if 224 \<le> a \<and> a \<le> 239 \<and>
        continuation (if a = 224 then 160 else 128) (if a = 237 then 159 else 191) b \<and>
        continuation 128 191 c then 3
      else 1)"
| "rune_len [a, b] = (if 194 \<le> a \<and> a \<le> 223 \<and> continuation 128 191 b then 2 else 1)"
| "rune_len _ = 1"

lemma rune_len_bounds: "0 < rune_len bs" "bs \<noteq> [] \<Longrightarrow> rune_len bs \<le> length bs"
  by (cases bs rule: rune_len.cases; simp)+

text \<open>The offsets of the characters: the values of \<open>i\<close> in \<open>for i := range value\<close>.\<close>

function rune_starts :: "nat \<Rightarrow> nat list \<Rightarrow> nat list" where
  "rune_starts i bs =
     (if bs = [] then [] else i # rune_starts (i + rune_len bs) (drop (rune_len bs) bs))"
  by pat_completeness auto
termination
  by (relation "measure (\<lambda>(i, bs). length bs)") (use rune_len_bounds(1) in \<open>auto simp: neq_Nil_conv\<close>)

declare rune_starts.simps [simp del]

definition TruncateNotificationSnapshot :: "string \<Rightarrow> int \<Rightarrow> string" where
  "TruncateNotificationSnapshot value0 limit =
     (let value = TrimSpace value0 in
      if limit \<le> 0 \<or> int (length value) \<le> limit then value
      else let starts = takeWhile (\<lambda>i. int i \<le> limit) (rune_starts 0 (map of_char value));
               end_offset = (if starts = [] then 0 else last starts)
           in if end_offset = 0 then [] else TrimSpace (take end_offset value))"

lemma trim_front_length: "length (trim_front n rs s) \<le> length s"
proof (induction n arbitrary: s)
  case (Suc n)
  show ?case
  proof (cases "strip_rune rs s")
    case (Some s')
    then have "length s' \<le> length s" by (auto simp: strip_rune_def)
    with Suc [of s'] Some show ?thesis by simp
  qed simp
qed simp

lemma TrimSpace_length: "length (TrimSpace s) \<le> length s"
proof -
  have "length (TrimLeft s) \<le> length s" by (simp add: TrimLeft_def trim_front_length)
  moreover have "length (TrimRight u) \<le> length u" for u
    using trim_front_length [of "length u" "map rev space_runes" "rev u"] by (simp add: TrimRight_def)
  ultimately show ?thesis unfolding TrimSpace_def by (rule order_trans [rotated])
qed

lemma Truncate_bound: "0 < limit \<Longrightarrow> int (length (TruncateNotificationSnapshot s limit)) \<le> limit"
proof -
  assume l: "0 < limit"
  let ?v = "TrimSpace s" and ?st = "takeWhile (\<lambda>i. int i \<le> limit) (rune_starts 0 (map of_char (TrimSpace s)))"
  have e: "?st \<noteq> [] \<Longrightarrow> int (last ?st) \<le> limit" by (meson last_in_set set_takeWhileD)
  have "int (length (TrimSpace (take n ?v))) \<le> int n" for n
    using TrimSpace_length [of "take n ?v"] by simp
  from this [of "last ?st"] have "?st \<noteq> [] \<Longrightarrow> int (length (TrimSpace (take (last ?st) ?v))) \<le> limit"
    using e by linarith
  then show ?thesis using l by (auto simp: TruncateNotificationSnapshot_def Let_def)
qed

text \<open>The cut falls between two characters.\<close>

lemma rune_starts_boundary:
  "i \<in> set (rune_starts k bs) \<Longrightarrow> k \<le> i \<and>
    rune_starts k bs = takeWhile (\<lambda>j. j < i) (rune_starts k bs) @ rune_starts i (drop (i - k) bs)"
proof (induction k bs rule: rune_starts.induct)
  case (1 k bs)
  show ?case
  proof (cases "bs = []")
    case True
    with "1.prems" show ?thesis by (simp add: rune_starts.simps)
  next
    case False
    have r: "rune_starts k bs = k # rune_starts (k + rune_len bs) (drop (rune_len bs) bs)"
      by (subst rune_starts.simps) (simp add: False)
    show ?thesis
    proof (cases "i = k")
      case True
      then show ?thesis by (subst (2) r) (simp add: r)
    next
      case ne: False
      with "1.prems" r have m: "i \<in> set (rune_starts (k + rune_len bs) (drop (rune_len bs) bs))" by simp
      from "1.IH" [OF False m] have le: "k + rune_len bs \<le> i"
        and eq: "rune_starts (k + rune_len bs) (drop (rune_len bs) bs) =
          takeWhile (\<lambda>j. j < i) (rune_starts (k + rune_len bs) (drop (rune_len bs) bs)) @
          rune_starts i (drop (i - (k + rune_len bs)) (drop (rune_len bs) bs))" by blast+
      have "k < i" using le rune_len_bounds(1) [of bs] by linarith
      moreover have "i - (k + rune_len bs) + rune_len bs = i - k" using le by linarith
      ultimately show ?thesis using eq by (simp add: r)
    qed
  qed
qed

section \<open>Mentions\<close>

definition notificationPostTitleLimit :: int where "notificationPostTitleLimit = 50"

definition notificationCommentPreviewLimit :: int where "notificationCommentPreviewLimit = 50"

definition normalizeMentionedUsernames :: "string list \<Rightarrow> string list" where
  "normalizeMentionedUsernames items =
     sort (remdups (filter (\<lambda>name. name \<noteq> []) (map TrimSpace items)))"

definition mentionEvent ::
  "user \<Rightarrow> int \<Rightarrow> int \<Rightarrow> string \<Rightarrow> string \<Rightarrow> string \<Rightarrow> domain_event option action" where
  "mentionEvent actor postID commentID postTitle commentPreview username =
     bindT (wrapped ''select user by username for mention notification''
              (userTx_SelectUserByUsername username)) (\<lambda>user.
       case user of
         None \<Rightarrow> returnT None
       | Some u \<Rightarrow>
           if user_ID u = user_ID actor then returnT None
           else bindT uuidT (\<lambda>uuid. bindT nowT (\<lambda>now.
             returnT (Some (NewNotificationTriggered now uuid (user_ID u) (user_ID actor)
               NotificationTypeMentioned postID commentID (user_Name actor) postTitle commentPreview)))))"

definition BuildMentionNotificationEvents ::
  "user \<Rightarrow> string list \<Rightarrow> int \<Rightarrow> int \<Rightarrow> string \<Rightarrow> string \<Rightarrow> domain_event list action" where
  "BuildMentionNotificationEvents actor mentionedUsernames postID commentID postTitle content =
     (let mentions = normalizeMentionedUsernames mentionedUsernames;
          commentPreview = TruncateNotificationSnapshot content notificationCommentPreviewLimit;
          title = TruncateNotificationSnapshot postTitle notificationPostTitleLimit
      in bindT (mapT (mentionEvent actor postID commentID title commentPreview) mentions)
           (\<lambda>events. returnT (List.map_filter id events)))"

lemma mentions_normal:
  "sorted (normalizeMentionedUsernames items)" "distinct (normalizeMentionedUsernames items)"
  "[] \<notin> set (normalizeMentionedUsernames items)"
  by (simp_all add: normalizeMentionedUsernames_def)

section \<open>Runs\<close>

lemma mapT_run:
  "mapT f xs e t = Some (Inr ys, t') \<Longrightarrow> length ys = length xs \<and>
    (\<forall>i < length xs. \<exists>t1 t2. f (xs ! i) e t1 = Some (Inr (ys ! i), t2))"
proof (induction xs arbitrary: ys t)
  case Nil
  then show ?case by (simp add: tx_simps)
next
  case (Cons x xs)
  then obtain y zs t1 where y: "f x e t = Some (Inr y, t1)" and zs: "mapT f xs e t1 = Some (Inr zs, t')"
    and ys: "ys = y # zs"
    by (auto simp: tx_simps)
  from Cons.IH [OF zs] y show ?case by (auto simp: ys nth_Cons' less_Suc_eq_0_disj)
qed

lemma mapT_store:
  assumes "\<And>x t y t'. f x e t = Some (Inr y, t') \<Longrightarrow> tx_store t' = tx_store t"
  shows "mapT f xs e t = Some (Inr ys, t') \<Longrightarrow> tx_store t' = tx_store t"
proof (induction xs arbitrary: ys t)
  case (Cons x xs)
  then obtain y zs t1 where "f x e t = Some (Inr y, t1)" "mapT f xs e t1 = Some (Inr zs, t')"
    by (auto simp: tx_simps)
  with Cons.IH assms show ?case by metis
qed (simp add: tx_simps)

lemma outboxMessage_run:
  assumes "outboxMessage event e t = Some (Inr m, t')"
  shows "tx_store t' = tx_store t" "msg_EventName m = EventName event"
    "msg_Status m = OutboxStatusPending" "msg_AttemptCount m = 0"
    "env_marshal e event = Some (msg_Payload m)" "msg_NextAttemptAt m = msg_OccurredAt m"
  using assms
  by (auto simp: outboxMessage_def newOutboxMessageID_def Serialize_def tx_simps
      split: prod.splits option.splits if_splits)

text \<open>
  A successful dispatch appends one pending message per event, in order, and touches nothing
  but the outbox.
\<close>

definition message_for :: "env \<Rightarrow> domain_event \<Rightarrow> outbox_message \<Rightarrow> bool" where
  "message_for e event m \<longleftrightarrow>
     msg_EventName m = EventName event \<and> env_marshal e event = Some (msg_Payload m) \<and>
     msg_Status m = OutboxStatusPending \<and> msg_AttemptCount m = 0 \<and>
     msg_NextAttemptAt m = msg_OccurredAt m"

lemma Dispatch_run:
  assumes "DispatchDomainActions events e t = Some (Inr u, t')"
  shows "\<exists>messages now. list_all2 (message_for e) events messages \<and>
    tx_store t' = (tx_store t)\<lparr>st_outbox :=
      fold (Outbox_append_one now) messages (st_outbox (tx_store t))\<rparr>"
proof (cases "events = []")
  case True
  then show ?thesis using assms by (simp add: DispatchDomainActions_def tx_simps)
next
  case False
  with assms obtain messages t1 where m: "mapT outboxMessage events e t = Some (Inr messages, t1)"
    and a: "outboxTx_Append messages e t1 = Some (Inr u, t')"
    by (auto simp: DispatchDomainActions_def tx_simps)
  have s: "tx_store t1 = tx_store t" by (rule mapT_store [OF _ m]) (rule outboxMessage_run(1))
  have "list_all2 (message_for e) events messages"
    using mapT_run [OF m] outboxMessage_run(2-6)
    by (auto simp: list_all2_conv_all_nth message_for_def)
  moreover have "\<exists>now. tx_store t' = (tx_store t)\<lparr>st_outbox :=
      fold (Outbox_append_one now) messages (st_outbox (tx_store t))\<rparr>"
    using a s by (auto simp: outboxTx_Append_def tx_simps Outbox_append_def split: option.splits)
  ultimately show ?thesis by blast
qed

definition may_write :: "user \<Rightarrow> time \<Rightarrow> bool" where
  "may_write u now \<longleftrightarrow> (IsGuest u \<longrightarrow> IsActiveGuest u) \<and> \<not> IsSuspended now u"

text \<open>The events were appended to the outbox, one pending message each.\<close>

definition queued :: "env \<Rightarrow> domain_event list \<Rightarrow> store \<Rightarrow> store \<Rightarrow> bool" where
  "queued e events s s' \<longleftrightarrow>
     (\<exists>messages now. list_all2 (message_for e) events messages \<and>
        st_outbox s' = fold (Outbox_append_one now) messages (st_outbox s))"

lemma Dispatch_queued:
  assumes "DispatchDomainActions events e t = Some (Inr u, t')" "st_outbox (tx_store t) = st_outbox s"
  shows "queued e events s (tx_store t')"
    "tx_store t' = (tx_store t)\<lparr>st_outbox := st_outbox (tx_store t')\<rparr>"
proof -
  from Dispatch_run [OF assms(1)] obtain messages now where
    m: "list_all2 (message_for e) events messages"
    and t': "tx_store t' = (tx_store t)\<lparr>st_outbox :=
        fold (Outbox_append_one now) messages (st_outbox (tx_store t))\<rparr>" by blast
  show "queued e events s (tx_store t')"
    unfolding queued_def using m t' assms(2) by (intro exI [of _ messages] exI [of _ now]) simp
  show "tx_store t' = (tx_store t)\<lparr>st_outbox := st_outbox (tx_store t')\<rparr>" using t' by simp
qed

lemma mentions_store:
  "BuildMentionNotificationEvents actor names postID commentID title content e t = Some (Inr evs, t') \<Longrightarrow>
    tx_store t' = tx_store t"
  by (auto simp: BuildMentionNotificationEvents_def mentionEvent_def userTx_SelectUserByUsername_def
      Let_def tx_simps elim!: mapT_store [rotated] split: option.splits if_splits)

lemma common_atomic [atomic_intros]:
  "atomic (DispatchDomainActions events)"
  "atomic (BuildMentionNotificationEvents actor names postID commentID title content)"
  by (auto simp: DispatchDomainActions_def outboxMessage_def newOutboxMessageID_def outboxTx_Append_def
      BuildMentionNotificationEvents_def mentionEvent_def userTx_SelectUserByUsername_def Let_def
      intro!: atomic_intros split: option.splits)

lemma common_return [returns_intros]:
  "returns (DispatchDomainActions events)"
  "returns (BuildMentionNotificationEvents actor names postID commentID title content)"
  by (auto simp: DispatchDomainActions_def outboxMessage_def newOutboxMessageID_def outboxTx_Append_def
      BuildMentionNotificationEvents_def mentionEvent_def userTx_SelectUserByUsername_def Let_def
      intro!: returns_intros split: option.splits)

end
