(* ===== verification/Demo.thy ===== *)
theory Demo
  imports SvcCommon
begin

text \<open>
  A small forum on which the witnesses evaluate the model: an administrator, a member and a
  second member, a visible and a hidden board with a post each, and one comment. The clock
  ticks once per draw.
\<close>

definition demo_env :: env where
  "demo_env =
     \<lparr>env_now = (\<lambda>n. 1000 + int n), env_uuid = (\<lambda>n. CHR ''u'' # FormatInt (int n)),
      env_rand = (\<lambda>n. Some [char_of n]), env_fault = (\<lambda>_. None), env_ctx = None,
      env_marshal = (\<lambda>event. Some (EventName event)), env_lower = id\<rparr>"

definition demo_admin :: user where
  "demo_admin = (NewAdmin 1 ''ua'' ''root'' ''pw'')\<lparr>user_ID := 1\<rparr>"

definition demo_alice :: user where
  "demo_alice = (NewUserWithEmail 1 ''ub'' ''alice'' ''alice@x'' ''pw'')
     \<lparr>user_ID := 2, user_EmailVerifiedAt := Some 5\<rparr>"

definition demo_bob :: user where
  "demo_bob = (NewUserWithEmail 1 ''uc'' ''bob'' ''bob@x'' ''pw'')\<lparr>user_ID := 3, user_EmailVerifiedAt := Some 6\<rparr>"

definition demo_users :: user_repo where
  "demo_users = \<lparr>db_ID = 3, db_Data = [(1, demo_admin), (2, demo_alice), (3, demo_bob)]\<rparr>"

definition demo_boards :: board_repo where
  "demo_boards = \<lparr>db_ID = 2, db_Data =
     [(1, (NewBoard 1 ''b1'' ''news'' [])\<lparr>board_ID := 1\<rparr>),
      (2, SetHidden True ((NewBoard 1 ''b2'' ''staff'' [])\<lparr>board_ID := 2\<rparr>))]\<rparr>"

definition demo_posts :: post_repo where
  "demo_posts = \<lparr>db_ID = 2, db_Data =
     [(1, (NewPost 2 ''p1'' ''hello'' ''text'' 2 1)\<lparr>post_ID := 1\<rparr>),
      (2, (NewPost 3 ''p2'' ''plans'' ''text'' 1 2)\<lparr>post_ID := 2\<rparr>)]\<rparr>"

definition demo_comments :: comment_repo where
  "demo_comments = \<lparr>db_ID = 1, db_Data =
     [(1, (NewComment 4 ''c1'' ''first'' 2 1 None)\<lparr>comment_ID := 1\<rparr>)]\<rparr>"

definition demo_store :: store where
  "demo_store =
     \<lparr>st_users = demo_users, st_boards = demo_boards, st_posts = demo_posts,
      st_tags = \<lparr>tag_db = empty_db, tag_NameTo = []\<rparr>, st_post_tags = [],
      st_comments = demo_comments,
      st_reactions = \<lparr>reaction_db = empty_db, userTargetIndex = []\<rparr>,
      st_attachments = empty_db, st_reports = empty_db, st_notifications = empty_db,
      st_email_tokens = [], st_password_tokens = [], st_outbox = NewOutboxRepository []\<rparr>"

text \<open>The value of a transaction that returned, and the store after it.\<close>

definition result_of :: "((go_error + 'a) \<times> store) option \<Rightarrow> (go_error + 'a)" where
  "result_of r = fst (the r)"

definition after :: "((go_error + 'a) \<times> store) option \<Rightarrow> store" where
  "after r = snd (the r)"

lemma run_split: "r \<noteq> None \<Longrightarrow> r = Some (result_of r, after r)"
  by (auto simp: result_of_def after_def)


section \<open>Evaluating actions\<close>

text \<open>
  A transaction is evaluated from its first step on; the congruence rule keeps the simplifier
  away from the steps that have not been reached.
\<close>

lemma bindT_eval:
  "bindT m f e t = (case m e t of
      None \<Rightarrow> None
    | Some (r, t') \<Rightarrow> (case r of Inl err \<Rightarrow> Some (Inl err, t') | Inr a \<Rightarrow> f a e t'))"
  by (simp add: bindT_def split: option.split prod.split sum.split)

lemma bindT_eval_cong: "e = e' \<Longrightarrow> t = t' \<Longrightarrow> bindT m f e t = bindT m f e' t'"
  by simp

lemma wrapped_eval:
  "wrapped label m demo_env t = (case m demo_env t of
      None \<Rightarrow> None
    | Some (r, t') \<Rightarrow> (case r of
        Inl err \<Rightarrow> Some (Inl (WrapRepository label (Some err)), t') | Inr a \<Rightarrow> Some (Inr a, t')))"
  by (simp add: wrapped_def demo_env_def split: option.split prod.split sum.split)

lemma mapT_eval:
  "mapT f [] e t = Some (Inr [], t)"
  "mapT f (x # xs) e t = bindT (f x) (\<lambda>y. bindT (mapT f xs) (\<lambda>ys. returnT (y # ys))) e t"
  by (simp_all add: returnT_def)

lemma write_eval:
  "write_part capture get put op e t =
    (case op (get (tx_store (capture t))) of
       (res, r) \<Rightarrow> Some (res, (capture t)\<lparr>tx_store := put (\<lambda>_. r) (tx_store (capture t))\<rparr>))"
  by (simp add: write_part_def Let_def)

lemma demo_env_simps:
  "env_now demo_env n = 1000 + int n" "env_uuid demo_env n = CHR ''u'' # FormatInt (int n)"
  "env_rand demo_env n = Some [char_of n]" "env_fault demo_env l = None" "env_ctx demo_env = None"
  "env_marshal demo_env ev = Some (EventName ev)" "env_lower demo_env = id"
  by (simp_all add: demo_env_def)

lemma demo_store_simps:
  "st_users demo_store = demo_users" "st_boards demo_store = demo_boards"
  "st_posts demo_store = demo_posts" "st_comments demo_store = demo_comments"
  "st_outbox demo_store = NewOutboxRepository []"
  "st_reactions demo_store = \<lparr>reaction_db = empty_db, userTargetIndex = []\<rparr>"
  "st_reports demo_store = empty_db" "st_notifications demo_store = empty_db"
  "st_tags demo_store = \<lparr>tag_db = empty_db, tag_NameTo = []\<rparr>" "st_post_tags demo_store = []"
  "st_attachments demo_store = empty_db"
  by (simp_all add: demo_store_def)

lemmas action_eval =
  bindT_eval wrapped_eval mapT_eval write_eval returnT_def throwT_def ensureT_def requireT_def
  envT_def nowT_def uuidT_def randT_def read_part_def always_def changes_def checked_def
  demo_env_simps demo_store_simps WithinTransaction_def begin_tx_def Let_def

lemmas entity_eval =
  demo_users_def demo_boards_def demo_posts_def demo_comments_def demo_admin_def demo_alice_def
  demo_bob_def NewUserWithEmail_def NewAdmin_def NewBoard_def SetHidden_def NewPost_def NewComment_def
  IsDeleted_def IsGuest_def IsAdmin_def IsSuspended_def db_get_def db_rows_def empty_db_def

lemmas policy_eval =
  EnsureGuestLifecycleAllowsWrite_def CanWrite_def OwnerOrAdmin_def AdminOnly_def ForbidGuest_def
  RequireVerifiedEmail_def EnsurePostVisibleForUser_def EnsureBoardVisibleForUser_def
  EnsureBoardVisible_def EnsureCommentTargetVisibleForUser_def RequireAdminUser_def
  userTx_SelectUserByID_def postTx_SelectPostByUUID_def postTx_SelectPostByID_def
  boardTx_SelectBoardByID_def commentTx_SelectCommentByUUID_def commentTx_SelectCommentByID_def
  selectUserByID_def selectPostByUUID_def selectPostByID_def selectBoardByID_def
  selectCommentByUUID_def selectCommentByID_def IsEmailVerified_def

lemmas event_eval =
  DispatchDomainActions_def outboxMessage_def newOutboxMessageID_def outboxTx_Append_def
  Serialize_def hex_encode_def hex_digit_def Outbox_append_def Outbox_append_one_def
  Outbox_defaults_def captureOutbox_def NewOutboxRepository_def NewCommentChanged_def
  NewNotificationTriggered_def NewReactionChanged_def NewBoardChanged_def NewReportChanged_def
  IsZero_def

end
