(* ===== verification/SvcComment.thy ===== *)
theory SvcComment
  imports Demo
begin

text \<open>
  \<open>service/comment/command_handler.go\<close>: creating, editing and deleting a comment. Each
  command is one transaction. A reply must answer an active top-level comment of the same
  post, so the comments of a post form a forest of depth two (\<open>threaded\<close>), which the commands
  keep. Deleting a comment puts the placeholder in place of its text and removes the reactions
  to it.
\<close>

section \<open>The commands\<close>

definition ensureCommentBoardVisibleByPostTx :: "user \<Rightarrow> int \<Rightarrow> unit action" where
  "ensureCommentBoardVisibleByPostTx user postID =
     bindT (EnsurePostVisibleForUser (Some user) postID (Some (Sentinel ErrBoardNotFound))
              ''comment board visibility'') (\<lambda>_. returnT ())"

text \<open>
  The parent of a new comment and the user to notify: the author of the parent, or of the
  post for a top-level comment, unless that is the author of the comment.
\<close>

definition commentParent ::
  "user \<Rightarrow> post \<Rightarrow> string option \<Rightarrow> (int option \<times> int \<times> NotificationType) action" where
  "commentParent user post parentUUID =
     (case parentUUID of
        Some raw \<Rightarrow>
          if TrimSpace raw \<noteq> []
          then bindT (wrapped ''select parent comment by uuid for create comment''
                        (commentTx_SelectCommentByUUID (TrimSpace raw))) (\<lambda>op.
               bindT (requireT op (Sentinel ErrCommentNotFound)) (\<lambda>parent.
                 if comment_PostID parent \<noteq> post_ID post \<or> comment_ParentID parent \<noteq> None \<or>
                    comment_Status parent \<noteq> CommentStatusActive
                 then throwT (Sentinel ErrInvalidInput)
                 else if comment_AuthorID parent \<noteq> user_ID user
                 then returnT (Some (comment_ID parent), comment_AuthorID parent, NotificationTypeCommentReplied)
                 else returnT (Some (comment_ID parent), 0, NotificationTypeCommentReplied)))
          else if post_AuthorID post \<noteq> user_ID user
          then returnT (None, post_AuthorID post, NotificationTypePostCommented)
          else returnT (None, 0, NotificationTypePostCommented)
      | None \<Rightarrow>
          if post_AuthorID post \<noteq> user_ID user
          then returnT (None, post_AuthorID post, NotificationTypePostCommented)
          else returnT (None, 0, NotificationTypePostCommented))"

definition directNotification ::
  "int \<Rightarrow> NotificationType \<Rightarrow> user \<Rightarrow> post \<Rightarrow> int \<Rightarrow> string \<Rightarrow> domain_event list action" where
  "directNotification recipient ntype user post commentID content =
     (if 0 < recipient
      then bindT uuidT (\<lambda>uuid. bindT nowT (\<lambda>now.
             returnT [NewNotificationTriggered now uuid recipient (user_ID user) ntype (post_ID post)
               commentID (user_Name user) (TruncateNotificationSnapshot (post_Title post) 120)
               (TruncateNotificationSnapshot content 160)]))
      else returnT [])"

definition CreateComment_tx ::
  "string \<Rightarrow> string list \<Rightarrow> int \<Rightarrow> string \<Rightarrow> string option \<Rightarrow> string action" where
  "CreateComment_tx content mentionedUsernames authorID postUUID parentUUID =
     bindT (wrapped ''select user by id for create comment'' (userTx_SelectUserByID authorID)) (\<lambda>ou.
     bindT (requireT ou (Sentinel ErrUserNotFound)) (\<lambda>user.
     bindT (ensureT (EnsureGuestLifecycleAllowsWrite (Some user))) (\<lambda>_.
     bindT nowT (\<lambda>now.
     bindT (ensureT (CanWrite now (Some user))) (\<lambda>_.
     bindT (wrapped ''select post by uuid for create comment'' (postTx_SelectPostByUUID postUUID)) (\<lambda>op.
     bindT (requireT op (Sentinel ErrPostNotFound)) (\<lambda>post.
     bindT (ensureCommentBoardVisibleByPostTx user (post_ID post)) (\<lambda>_.
     bindT nowT (\<lambda>created.
     bindT uuidT (\<lambda>uuid.
     bindT (commentParent user post parentUUID) (\<lambda>(parentID, recipient, ntype).
     bindT (wrapped ''save comment''
              (commentTx_Save (NewComment created uuid content authorID (post_ID post) parentID))) (\<lambda>saved.
     bindT (directNotification recipient ntype user post (comment_ID saved) content) (\<lambda>direct.
     bindT nowT (\<lambda>changed.
     bindT (BuildMentionNotificationEvents user mentionedUsernames (post_ID post) (comment_ID saved)
              (post_Title post) content) (\<lambda>mentions.
     bindT (DispatchDomainActions
              (direct @ [NewCommentChanged changed ''created'' (comment_ID saved) (post_ID post)] @ mentions)) (\<lambda>_.
       returnT (comment_UUID saved)))))))))))))))))"

definition CreateComment ::
  "env \<Rightarrow> nat \<Rightarrow> string \<Rightarrow> string list \<Rightarrow> int \<Rightarrow> string \<Rightarrow> string option \<Rightarrow> store \<Rightarrow>
    ((go_error + string) \<times> store) option" where
  "CreateComment e tick content mentionedUsernames authorID postUUID parentUUID s =
     (if TrimSpace content = [] then Some (Inl (Sentinel ErrInvalidInput), s)
      else WithinTransaction e tick
             (CreateComment_tx content mentionedUsernames authorID postUUID parentUUID) s)"

definition UpdateComment_tx :: "string \<Rightarrow> int \<Rightarrow> string \<Rightarrow> unit action" where
  "UpdateComment_tx commentUUID authorID content =
     bindT (wrapped ''select comment by uuid for update comment''
              (commentTx_SelectCommentByUUID commentUUID)) (\<lambda>oc.
     bindT (requireT oc (Sentinel ErrCommentNotFound)) (\<lambda>comment.
     bindT (wrapped ''select user by id for update comment'' (userTx_SelectUserByID authorID)) (\<lambda>ou.
     bindT (requireT ou (Sentinel ErrUserNotFound)) (\<lambda>requester.
     bindT (ensureT (EnsureGuestLifecycleAllowsWrite (Some requester))) (\<lambda>_.
     bindT nowT (\<lambda>now.
     bindT (ensureT (CanWrite now (Some requester))) (\<lambda>_.
     bindT (ensureT (OwnerOrAdmin (Some requester) (comment_AuthorID comment))) (\<lambda>_.
     bindT (ensureCommentBoardVisibleByPostTx requester (comment_PostID comment)) (\<lambda>_.
     bindT nowT (\<lambda>updatedAt.
     bindT (wrapped ''update comment'' (commentTx_Update (Comment_Update updatedAt content comment))) (\<lambda>_.
     bindT nowT (\<lambda>changed.
       DispatchDomainActions
         [NewCommentChanged changed ''updated'' (comment_ID comment) (comment_PostID comment)]))))))))))))"

definition UpdateComment ::
  "env \<Rightarrow> nat \<Rightarrow> string \<Rightarrow> int \<Rightarrow> string \<Rightarrow> store \<Rightarrow> ((go_error + unit) \<times> store) option" where
  "UpdateComment e tick commentUUID authorID content s =
     (if TrimSpace content = [] then Some (Inl (Sentinel ErrInvalidInput), s)
      else WithinTransaction e tick (UpdateComment_tx commentUUID authorID content) s)"

definition DeleteComment_tx :: "string \<Rightarrow> int \<Rightarrow> unit action" where
  "DeleteComment_tx commentUUID authorID =
     bindT (wrapped ''select comment by uuid for delete comment''
              (commentTx_SelectCommentByUUID commentUUID)) (\<lambda>oc.
     bindT (requireT oc (Sentinel ErrCommentNotFound)) (\<lambda>comment.
     bindT (wrapped ''select user by id for delete comment'' (userTx_SelectUserByID authorID)) (\<lambda>ou.
     bindT (requireT ou (Sentinel ErrUserNotFound)) (\<lambda>requester.
     bindT (ensureT (EnsureGuestLifecycleAllowsWrite (Some requester))) (\<lambda>_.
     bindT nowT (\<lambda>now.
     bindT (ensureT (CanWrite now (Some requester))) (\<lambda>_.
     bindT (ensureT (OwnerOrAdmin (Some requester) (comment_AuthorID comment))) (\<lambda>_.
     bindT (ensureCommentBoardVisibleByPostTx requester (comment_PostID comment)) (\<lambda>_.
     bindT (wrapped ''delete comment'' (commentTx_Delete (comment_ID comment))) (\<lambda>_.
     bindT (wrapped ''delete comment reactions''
              (reactionTx_DeleteByTarget (comment_ID comment) ReactionTargetComment)) (\<lambda>_.
     bindT nowT (\<lambda>changed.
       DispatchDomainActions
         [NewCommentChanged changed ''deleted'' (comment_ID comment) (comment_PostID comment)]))))))))))))"

definition DeleteComment ::
  "env \<Rightarrow> nat \<Rightarrow> string \<Rightarrow> int \<Rightarrow> store \<Rightarrow> ((go_error + unit) \<times> store) option" where
  "DeleteComment e tick commentUUID authorID s =
     WithinTransaction e tick (DeleteComment_tx commentUUID authorID) s"

section \<open>Failure and blocking\<close>

lemma comment_tx_atomic [atomic_intros]:
  "atomic (CreateComment_tx content names authorID postUUID parentUUID)"
  "atomic (UpdateComment_tx commentUUID authorID content)"
  "atomic (DeleteComment_tx commentUUID authorID)"
  unfolding CreateComment_tx_def UpdateComment_tx_def DeleteComment_tx_def
    ensureCommentBoardVisibleByPostTx_def commentParent_def directNotification_def
    userTx_SelectUserByID_def postTx_SelectPostByUUID_def commentTx_SelectCommentByUUID_def
    commentTx_Save_def commentTx_Update_def commentTx_Delete_def reactionTx_DeleteByTarget_def
  by (intro atomic_intros)+

lemma comment_tx_returns [returns_intros]:
  "returns (CreateComment_tx content names authorID postUUID parentUUID)"
  "returns (UpdateComment_tx commentUUID authorID content)"
  "returns (DeleteComment_tx commentUUID authorID)"
  unfolding CreateComment_tx_def UpdateComment_tx_def DeleteComment_tx_def
    ensureCommentBoardVisibleByPostTx_def commentParent_def directNotification_def
    userTx_SelectUserByID_def postTx_SelectPostByUUID_def commentTx_SelectCommentByUUID_def
    commentTx_Save_def commentTx_Update_def commentTx_Delete_def reactionTx_DeleteByTarget_def
  by (intro returns_intros)+

section \<open>What a successful command did\<close>

lemma ensureCommentBoardVisible_run [tx_simps]:
  "ensureCommentBoardVisibleByPostTx user postID e t = Some (Inr u, t') \<longleftrightarrow>
    env_fault e (label_for ''select post by id for '' ''comment board visibility'') = None \<and>
    env_fault e (label_for ''select board by id for '' ''comment board visibility'') = None \<and>
    (\<exists>p. selectPostByID postID (st_posts (tx_store t)) = Some p \<and>
         board_visible (tx_store t) (Some user) (post_BoardID p)) \<and> t' = t"
  by (auto simp: ensureCommentBoardVisibleByPostTx_def tx_simps)

definition parent_ok :: "store \<Rightarrow> post \<Rightarrow> string option \<Rightarrow> int option \<Rightarrow> bool" where
  "parent_ok s post parentUUID parentID \<longleftrightarrow>
     (if (\<exists>raw. parentUUID = Some raw \<and> TrimSpace raw \<noteq> [])
      then \<exists>parent. selectCommentByUUID (TrimSpace (the parentUUID)) (st_comments s) = Some parent \<and>
             comment_PostID parent = post_ID post \<and> comment_ParentID parent = None \<and>
             comment_Status parent = CommentStatusActive \<and> parentID = Some (comment_ID parent)
      else parentID = None)"

lemma commentParent_run:
  "commentParent user post parentUUID e t = Some (Inr (parentID, recipient, ntype), t') \<Longrightarrow>
    t' = t \<and> parent_ok (tx_store t) post parentUUID parentID"
  by (auto simp: commentParent_def parent_ok_def commentTx_SelectCommentByUUID_def tx_simps
      split: option.splits if_splits)

lemma directNotification_store:
  "directNotification recipient ntype user post i content e t = Some (Inr evs, t') \<Longrightarrow>
    tx_store t' = tx_store t"
  by (auto simp: directNotification_def tx_simps split: if_splits)

lemma CreateComment_tx_run:
  assumes "CreateComment_tx content names authorID postUUID parentUUID e t = Some (Inr uuid, t')"
  defines "s \<equiv> tx_store t"
  shows "\<exists>user post now parentID saved comments' events changed created.
    selectUserByID authorID (st_users s) = Some user \<and> may_write user now \<and>
    selectPostByUUID postUUID (st_posts s) = Some post \<and>
    (\<exists>p. selectPostByID (post_ID post) (st_posts s) = Some p \<and>
         board_visible s (Some user) (post_BoardID p)) \<and>
    parent_ok s post parentUUID parentID \<and>
    Comment_save (NewComment created uuid content authorID (post_ID post) parentID) (st_comments s) =
      (saved, comments') \<and>
    NewCommentChanged changed ''created'' (comment_ID saved) (post_ID post) \<in> set events \<and>
    queued e events s (tx_store t') \<and>
    tx_store t' = s\<lparr>st_comments := comments', st_outbox := st_outbox (tx_store t')\<rparr>"
proof -
  from assms(1) obtain user post now created u1 parentID recipient ntype t1 t2 t3 saved
      direct t4 mentions t5 changed u2 where
    user: "selectUserByID authorID (st_users s) = Some user" "IsGuest user \<longrightarrow> IsActiveGuest user"
      "\<not> IsSuspended now user"
    and post: "selectPostByUUID postUUID (st_posts s) = Some post"
    and vis: "\<exists>p. selectPostByID (post_ID post) (st_posts s) = Some p \<and>
         board_visible s (Some user) (post_BoardID p)"
    and par: "commentParent user post parentUUID e t1 = Some (Inr (parentID, recipient, ntype), t2)"
    and t1: "tx_store t1 = s"
    and save: "commentTx_Save (NewComment created u1 content authorID (post_ID post) parentID) e t2 =
        Some (Inr saved, t3)"
    and dir: "directNotification recipient ntype user post (comment_ID saved) content e t3 = Some (Inr direct, t4)"
    and men: "BuildMentionNotificationEvents user names (post_ID post) (comment_ID saved)
        (post_Title post) content e (t4\<lparr>tx_tick := Suc (tx_tick t4)\<rparr>) = Some (Inr mentions, t5)"
    and dis: "DispatchDomainActions
        (direct @ NewCommentChanged changed ''created'' (comment_ID saved) (post_ID post) # mentions) e t5 =
        Some (Inr u2, t')"
    and uuid: "uuid = comment_UUID saved"
    unfolding CreateComment_tx_def userTx_SelectUserByID_def postTx_SelectPostByUUID_def
    by (clarsimp simp: tx_simps s_def split: prod.splits)
  have t2: "tx_store t2 = s" and pok: "parent_ok s post parentUUID parentID"
    using commentParent_run [OF par] t1 by simp_all
  from save obtain comments' where
    cs: "Comment_save (NewComment created u1 content authorID (post_ID post) parentID) (st_comments s) =
        (saved, comments')" and t3: "tx_store t3 = s\<lparr>st_comments := comments'\<rparr>"
    by (auto simp: commentTx_Save_def tx_simps t2)
  have uu: "u1 = uuid" using cs uuid by (auto simp: Comment_save_def NewComment_def Let_def)
  have t5: "tx_store t5 = s\<lparr>st_comments := comments'\<rparr>"
    using mentions_store [OF men] directNotification_store [OF dir] t3 by simp
  let ?ev = "direct @ NewCommentChanged changed ''created'' (comment_ID saved) (post_ID post) # mentions"
  have "queued e ?ev s (tx_store t')"
    by (rule Dispatch_queued(1) [OF dis]) (simp add: t5)
  moreover have "tx_store t' = s\<lparr>st_comments := comments', st_outbox := st_outbox (tx_store t')\<rparr>"
    using Dispatch_queued(2) [OF dis refl] by (simp add: t5)
  moreover have "may_write user now" using user by (simp add: may_write_def)
  moreover have "NewCommentChanged changed ''created'' (comment_ID saved) (post_ID post) \<in> set ?ev" by simp
  ultimately show ?thesis
    using user(1) post vis pok cs uu by blast
qed


lemma UpdateComment_tx_run:
  assumes "UpdateComment_tx commentUUID authorID content e t = Some (Inr u, t')"
  defines "s \<equiv> tx_store t"
  shows "\<exists>comment requester now updatedAt changed.
    selectCommentByUUID commentUUID (st_comments s) = Some comment \<and>
    selectUserByID authorID (st_users s) = Some requester \<and> may_write requester now \<and>
    (user_ID requester = comment_AuthorID comment \<or> IsAdmin requester) \<and>
    (\<exists>p. selectPostByID (comment_PostID comment) (st_posts s) = Some p \<and>
         board_visible s (Some requester) (post_BoardID p)) \<and>
    queued e [NewCommentChanged changed ''updated'' (comment_ID comment) (comment_PostID comment)] s (tx_store t') \<and>
    tx_store t' = s\<lparr>st_comments := Comment_update (Comment_Update updatedAt content comment) (st_comments s),
                     st_outbox := st_outbox (tx_store t')\<rparr>"
proof -
  from assms(1) obtain comment requester now updatedAt t1 changed u2 where
    c: "selectCommentByUUID commentUUID (st_comments s) = Some comment"
    and r: "selectUserByID authorID (st_users s) = Some requester"
    and g: "IsGuest requester \<longrightarrow> IsActiveGuest requester" "\<not> IsSuspended now requester"
    and o: "user_ID requester = comment_AuthorID comment \<or> IsAdmin requester"
    and vis: "\<exists>p. selectPostByID (comment_PostID comment) (st_posts s) = Some p \<and>
         board_visible s (Some requester) (post_BoardID p)"
    and dis: "DispatchDomainActions
        [NewCommentChanged changed ''updated'' (comment_ID comment) (comment_PostID comment)] e t1 = Some (Inr u2, t')"
    and t1: "tx_store t1 = s\<lparr>st_comments := Comment_update (Comment_Update updatedAt content comment) (st_comments s)\<rparr>"
    unfolding UpdateComment_tx_def userTx_SelectUserByID_def commentTx_SelectCommentByUUID_def
      commentTx_Update_def
    by (clarsimp simp: tx_simps s_def)
  have "queued e [NewCommentChanged changed ''updated'' (comment_ID comment) (comment_PostID comment)] s (tx_store t')"
    by (rule Dispatch_queued(1) [OF dis]) (simp add: t1)
  moreover have "tx_store t' = s\<lparr>st_comments := Comment_update (Comment_Update updatedAt content comment) (st_comments s),
                     st_outbox := st_outbox (tx_store t')\<rparr>"
    using Dispatch_queued(2) [OF dis refl] by (simp add: t1)
  moreover have "may_write requester now" using g by (simp add: may_write_def)
  ultimately show ?thesis using c r o vis by blast
qed

lemma DeleteComment_tx_run:
  assumes "DeleteComment_tx commentUUID authorID e t = Some (Inr u, t')"
  defines "s \<equiv> tx_store t"
  shows "\<exists>comment requester now deletedAt changed.
    selectCommentByUUID commentUUID (st_comments s) = Some comment \<and>
    selectUserByID authorID (st_users s) = Some requester \<and> may_write requester now \<and>
    (user_ID requester = comment_AuthorID comment \<or> IsAdmin requester) \<and>
    (\<exists>p. selectPostByID (comment_PostID comment) (st_posts s) = Some p \<and>
         board_visible s (Some requester) (post_BoardID p)) \<and>
    queued e [NewCommentChanged changed ''deleted'' (comment_ID comment) (comment_PostID comment)] s (tx_store t') \<and>
    tx_store t' = s\<lparr>st_comments := Comment_delete deletedAt (comment_ID comment) (st_comments s),
      st_reactions := snd (deleteByTarget (comment_ID comment) ReactionTargetComment (st_reactions s)),
      st_outbox := st_outbox (tx_store t')\<rparr>"
proof -
  from assms(1) obtain comment requester now deletedAt t1 changed u2 where
    c: "selectCommentByUUID commentUUID (st_comments s) = Some comment"
    and r: "selectUserByID authorID (st_users s) = Some requester"
    and g: "IsGuest requester \<longrightarrow> IsActiveGuest requester" "\<not> IsSuspended now requester"
    and o: "user_ID requester = comment_AuthorID comment \<or> IsAdmin requester"
    and vis: "\<exists>p. selectPostByID (comment_PostID comment) (st_posts s) = Some p \<and>
         board_visible s (Some requester) (post_BoardID p)"
    and dis: "DispatchDomainActions
        [NewCommentChanged changed ''deleted'' (comment_ID comment) (comment_PostID comment)] e t1 = Some (Inr u2, t')"
    and t1: "tx_store t1 = s\<lparr>st_comments := Comment_delete deletedAt (comment_ID comment) (st_comments s),
      st_reactions := snd (deleteByTarget (comment_ID comment) ReactionTargetComment (st_reactions s))\<rparr>"
    unfolding DeleteComment_tx_def userTx_SelectUserByID_def commentTx_SelectCommentByUUID_def
      commentTx_Delete_def reactionTx_DeleteByTarget_def
    by (clarsimp simp: tx_simps s_def)
  have "queued e [NewCommentChanged changed ''deleted'' (comment_ID comment) (comment_PostID comment)] s (tx_store t')"
    by (rule Dispatch_queued(1) [OF dis]) (simp add: t1)
  moreover have "tx_store t' = s\<lparr>st_comments := Comment_delete deletedAt (comment_ID comment) (st_comments s),
      st_reactions := snd (deleteByTarget (comment_ID comment) ReactionTargetComment (st_reactions s)),
      st_outbox := st_outbox (tx_store t')\<rparr>"
    using Dispatch_queued(2) [OF dis refl] by (simp add: t1)
  moreover have "may_write requester now" using g by (simp add: may_write_def)
  ultimately show ?thesis using c r o vis by blast
qed


section \<open>Threads\<close>

text \<open>The parent of a comment is a top-level comment of the same post.\<close>

definition threaded :: "comment_repo \<Rightarrow> bool" where
  "threaded r \<longleftrightarrow> (\<forall>i c p. db_get r i = Some c \<longrightarrow> comment_ParentID c = Some p \<longrightarrow>
     (\<exists>q. db_get r p = Some q \<and> comment_PostID q = comment_PostID c \<and> comment_ParentID q = None))"

definition comments_ok :: "comment_repo \<Rightarrow> bool" where
  "comments_ok r \<longleftrightarrow> db_ok comment_ID r \<and> threaded r"

lemma selectCommentByUUID_row:
  assumes "db_ok comment_ID r" "selectCommentByUUID uuid r = Some c"
  shows "db_get r (comment_ID c) = Some c \<and> comment_UUID c = uuid"
  using assms find_unique [of _ "db_rows r" c] db_get_row [OF assms(1)]
  by (auto simp: selectCommentByUUID_def)

lemma threaded_put:
  assumes "comments_ok r" "db_get r i = Some c"
    and "comment_PostID d = comment_PostID c" "comment_ParentID d = comment_ParentID c"
    and "db_get r' = (db_get r)(i \<mapsto> d)"
  shows "threaded r'"
  unfolding threaded_def assms(5)
proof (intro allI impI)
  fix j x p
  assume x: "((db_get r)(i \<mapsto> d)) j = Some x" "comment_ParentID x = Some p"
  let ?y = "if j = i then c else x"
  have "db_get r j = Some ?y" "comment_ParentID ?y = Some p" "comment_PostID ?y = comment_PostID x"
    using x assms(2-4) by (auto split: if_splits)
  then obtain q where "db_get r p = Some q" "comment_PostID q = comment_PostID x" "comment_ParentID q = None"
    using assms(1) unfolding comments_ok_def threaded_def by metis
  then show "\<exists>q. ((db_get r)(i \<mapsto> d)) p = Some q \<and> comment_PostID q = comment_PostID x \<and>
      comment_ParentID q = None"
    using assms(2-4) by (cases "p = i") auto
qed

lemma Comment_update_ok [inv_intros]:
  assumes "comments_ok r" "db_get r (comment_ID d) = Some c"
    "comment_PostID d = comment_PostID c" "comment_ParentID d = comment_ParentID c"
  shows "comments_ok (Comment_update d r)"
proof -
  have ok: "db_ok comment_ID r" using assms(1) by (simp add: comments_ok_def)
  have "db_get (Comment_update d r) = (db_get r)(comment_ID d \<mapsto> d)"
    using comments.replace_get [OF ok, of d] assms(2) by simp
  with threaded_put [OF assms(1,2,3,4)] comments.replace_inv [OF ok] show ?thesis
    by (simp add: comments_ok_def)
qed

lemma Comment_delete_comments_ok [inv_intros]:
  assumes "comments_ok r"
  shows "comments_ok (Comment_delete now i r)"
proof (cases "db_get r i")
  case None
  with assms show ?thesis by (simp add: Comment_delete_def)
next
  case (Some c)
  have ok: "db_ok comment_ID r" using assms by (simp add: comments_ok_def)
  have "comment_ID c = i" using db_get_bounds [OF ok Some] by simp
  with Some assms show ?thesis
    unfolding Comment_delete_update [OF ok Some] by (intro Comment_update_ok) auto
qed

lemma Comment_save_comments_ok:
  assumes "comments_ok r" "Comment_save c r = (saved, r')"
    and "\<And>p. comment_ParentID c = Some p \<Longrightarrow>
      \<exists>q. db_get r p = Some q \<and> comment_PostID q = comment_PostID c \<and> comment_ParentID q = None"
  shows "comments_ok r'"
proof -
  have ok: "db_ok comment_ID r" using assms(1) by (simp add: comments_ok_def)
  have g: "db_get r' = (db_get r)(comment_ID saved \<mapsto> saved)"
    by (rule comments.insert_get [OF ok assms(2)])
  have f: "db_get r (comment_ID saved) = None" by (rule comments.insert_fresh [OF ok assms(2)])
  have saved: "comment_PostID saved = comment_PostID c" "comment_ParentID saved = comment_ParentID c"
    using assms(2) by (auto simp: Comment_save_def Let_def)
  have "threaded r'"
    unfolding threaded_def g
  proof (intro allI impI)
    fix j x p
    assume x: "((db_get r)(comment_ID saved \<mapsto> saved)) j = Some x" "comment_ParentID x = Some p"
    have "\<exists>q. db_get r p = Some q \<and> comment_PostID q = comment_PostID x \<and> comment_ParentID q = None"
    proof (cases "j = comment_ID saved")
      case True
      with x saved assms(3) show ?thesis by auto
    next
      case False
      with x assms(1) show ?thesis unfolding comments_ok_def threaded_def by auto
    qed
    then obtain q where q: "db_get r p = Some q" "comment_PostID q = comment_PostID x"
        "comment_ParentID q = None" by blast
    then have "p \<noteq> comment_ID saved" using f by auto
    with q show "\<exists>q. ((db_get r)(comment_ID saved \<mapsto> saved)) p = Some q \<and>
        comment_PostID q = comment_PostID x \<and> comment_ParentID q = None" by auto
  qed
  with comments.insert_inv [OF ok assms(2)] show ?thesis by (simp add: comments_ok_def)
qed

lemma Comment_Update_fields [simp]:
  "comment_ID (Comment_Update now content c) = comment_ID c"
  "comment_PostID (Comment_Update now content c) = comment_PostID c"
  "comment_ParentID (Comment_Update now content c) = comment_ParentID c"
  "comment_Status (Comment_Update now content c) = comment_Status c"
  "comment_Content (Comment_Update now content c) = content"
  by (simp_all add: Comment_Update_def)

lemma NewComment_fields [simp]:
  "comment_PostID (NewComment now uuid content authorID postID parentID) = postID"
  "comment_ParentID (NewComment now uuid content authorID postID parentID) = parentID"
  by (simp_all add: NewComment_def)

section \<open>Properties\<close>

lemma CreateComment_tx_committed:
  assumes "CreateComment e tick content names authorID postUUID parentUUID s = Some (Inr uuid, s')"
  shows "TrimSpace content \<noteq> []"
    "\<exists>t. CreateComment_tx content names authorID postUUID parentUUID e (begin_tx tick s) = Some (Inr uuid, t) \<and>
      s' = tx_store t"
  using assms atomic_commit [OF comment_tx_atomic(1)]
  by (auto simp: CreateComment_def split: if_splits)

lemma UpdateComment_tx_committed:
  assumes "UpdateComment e tick commentUUID authorID content s = Some (Inr u, s')"
  shows "TrimSpace content \<noteq> []"
    "\<exists>t. UpdateComment_tx commentUUID authorID content e (begin_tx tick s) = Some (Inr u, t) \<and> s' = tx_store t"
  using assms atomic_commit [OF comment_tx_atomic(2)]
  by (auto simp: UpdateComment_def split: if_splits)

lemma DeleteComment_tx_committed:
  assumes "DeleteComment e tick commentUUID authorID s = Some (Inr u, s')"
  shows "\<exists>t. DeleteComment_tx commentUUID authorID e (begin_tx tick s) = Some (Inr u, t) \<and> s' = tx_store t"
  using assms atomic_commit [OF comment_tx_atomic(3)] by (simp add: DeleteComment_def)

text \<open>
  C30: a comment is created only by an existing user who may write, on a published post of a
  board the user sees, with text that is not blank, and as a reply only to an active top-level
  comment of the same post. The transaction then stores exactly that comment under a fresh key
  and queues its event in the outbox; no other repository changes.
\<close>

theorem CreateComment_effect:
  assumes "CreateComment e tick content names authorID postUUID parentUUID s = Some (Inr uuid, s')"
  shows "TrimSpace content \<noteq> [] \<and>
    (\<exists>user post now parentID saved comments' events changed created.
      selectUserByID authorID (st_users s) = Some user \<and> may_write user now \<and>
      selectPostByUUID postUUID (st_posts s) = Some post \<and>
      (\<exists>p. selectPostByID (post_ID post) (st_posts s) = Some p \<and>
           board_visible s (Some user) (post_BoardID p)) \<and>
      parent_ok s post parentUUID parentID \<and>
      Comment_save (NewComment created uuid content authorID (post_ID post) parentID) (st_comments s) =
        (saved, comments') \<and>
      NewCommentChanged changed ''created'' (comment_ID saved) (post_ID post) \<in> set events \<and>
      queued e events s s' \<and>
      s' = s\<lparr>st_comments := comments', st_outbox := st_outbox s'\<rparr>)"
proof -
  from CreateComment_tx_committed(2) [OF assms] obtain t where
    t: "CreateComment_tx content names authorID postUUID parentUUID e (begin_tx tick s) = Some (Inr uuid, t)"
    and s': "s' = tx_store t" by blast
  from CreateComment_tx_run [OF t] CreateComment_tx_committed(1) [OF assms] show ?thesis
    unfolding s' begin_fields by blast
qed

text \<open>
  Editing a comment. Only its author or an administrator who may write can, on a post and
  board they see; exactly the text and the time of the comment change, and the event is queued.
\<close>

theorem UpdateComment_effect:
  assumes "UpdateComment e tick commentUUID authorID content s = Some (Inr u, s')"
    and "comments_ok (st_comments s)"
  shows "TrimSpace content \<noteq> [] \<and>
    (\<exists>comment requester now updatedAt changed.
      selectCommentByUUID commentUUID (st_comments s) = Some comment \<and>
      selectUserByID authorID (st_users s) = Some requester \<and> may_write requester now \<and>
      (user_ID requester = comment_AuthorID comment \<or> IsAdmin requester) \<and>
      db_get (st_comments s') =
        (db_get (st_comments s))(comment_ID comment \<mapsto> Comment_Update updatedAt content comment) \<and>
      queued e [NewCommentChanged changed ''updated'' (comment_ID comment) (comment_PostID comment)] s s' \<and>
      s' = s\<lparr>st_comments := st_comments s', st_outbox := st_outbox s'\<rparr>)"
proof -
  from UpdateComment_tx_committed(2) [OF assms(1)] obtain t where
    t: "UpdateComment_tx commentUUID authorID content e (begin_tx tick s) = Some (Inr u, t)"
    and s': "s' = tx_store t" by blast
  from UpdateComment_tx_run [OF t] obtain comment requester now updatedAt changed where
    r: "selectCommentByUUID commentUUID (st_comments s) = Some comment"
      "selectUserByID authorID (st_users s) = Some requester" "may_write requester now"
      "user_ID requester = comment_AuthorID comment \<or> IsAdmin requester"
      "queued e [NewCommentChanged changed ''updated'' (comment_ID comment) (comment_PostID comment)] s s'"
    and eq: "s' = s\<lparr>st_comments := Comment_update (Comment_Update updatedAt content comment) (st_comments s),
                     st_outbox := st_outbox s'\<rparr>"
    unfolding s' begin_fields by blast
  have ok: "db_ok comment_ID (st_comments s)" using assms(2) by (simp add: comments_ok_def)
  have "st_comments s' = Comment_update (Comment_Update updatedAt content comment) (st_comments s)"
    by (subst eq) simp
  moreover from this have "db_get (st_comments s') =
      (db_get (st_comments s))(comment_ID comment \<mapsto> Comment_Update updatedAt content comment)"
    using comments.replace_get [OF ok] selectCommentByUUID_row [OF ok r(1)] by simp
  ultimately show ?thesis
    using r eq UpdateComment_tx_committed(1) [OF assms(1)] by metis
qed

text \<open>
  Deleting a comment. Only its author or an administrator can; afterwards the comment
  carries the placeholder and the deleted status, nobody's reaction to it is left, reactions to
  anything else and all other comments are untouched, and the event is queued.
\<close>

theorem DeleteComment_effect:
  assumes "DeleteComment e tick commentUUID authorID s = Some (Inr u, s')"
    and "comments_ok (st_comments s)" "reactions_ok (st_reactions s)"
  shows "\<exists>comment requester now deletedAt changed.
      selectCommentByUUID commentUUID (st_comments s) = Some comment \<and>
      selectUserByID authorID (st_users s) = Some requester \<and> may_write requester now \<and>
      (user_ID requester = comment_AuthorID comment \<or> IsAdmin requester) \<and>
      db_get (st_comments s') =
        (db_get (st_comments s))(comment_ID comment \<mapsto> Comment_SoftDelete deletedAt comment) \<and>
      (\<forall>v i ty. reaction_of (st_reactions s') (v, i, ty) =
        (if i = comment_ID comment \<and> ty = ReactionTargetComment then None
         else reaction_of (st_reactions s) (v, i, ty))) \<and>
      queued e [NewCommentChanged changed ''deleted'' (comment_ID comment) (comment_PostID comment)] s s' \<and>
      s' = s\<lparr>st_comments := st_comments s', st_reactions := st_reactions s', st_outbox := st_outbox s'\<rparr>"
proof -
  from DeleteComment_tx_committed [OF assms(1)] obtain t where
    t: "DeleteComment_tx commentUUID authorID e (begin_tx tick s) = Some (Inr u, t)"
    and s': "s' = tx_store t" by blast
  from DeleteComment_tx_run [OF t] obtain comment requester now deletedAt changed where
    r: "selectCommentByUUID commentUUID (st_comments s) = Some comment"
      "selectUserByID authorID (st_users s) = Some requester" "may_write requester now"
      "user_ID requester = comment_AuthorID comment \<or> IsAdmin requester"
      "queued e [NewCommentChanged changed ''deleted'' (comment_ID comment) (comment_PostID comment)] s s'"
    and eq: "s' = s\<lparr>st_comments := Comment_delete deletedAt (comment_ID comment) (st_comments s),
      st_reactions := snd (deleteByTarget (comment_ID comment) ReactionTargetComment (st_reactions s)),
      st_outbox := st_outbox s'\<rparr>"
    unfolding s' begin_fields by blast
  have ok: "db_ok comment_ID (st_comments s)" using assms(2) by (simp add: comments_ok_def)
  have c: "st_comments s' = Comment_delete deletedAt (comment_ID comment) (st_comments s)"
    and x: "st_reactions s' = snd (deleteByTarget (comment_ID comment) ReactionTargetComment (st_reactions s))"
    by (subst eq; simp)+
  have "db_get (st_comments s') =
      (db_get (st_comments s))(comment_ID comment \<mapsto> Comment_SoftDelete deletedAt comment)"
    using selectCommentByUUID_row [OF ok r(1)] by (simp add: c Comment_delete_get [OF ok])
  moreover have "\<forall>v i ty. reaction_of (st_reactions s') (v, i, ty) =
      (if i = comment_ID comment \<and> ty = ReactionTargetComment then None
       else reaction_of (st_reactions s) (v, i, ty))"
    unfolding x using deleteByTarget_of [OF assms(3)] by (metis prod.collapse)
  moreover have "s' = s\<lparr>st_comments := st_comments s', st_reactions := st_reactions s', st_outbox := st_outbox s'\<rparr>"
    unfolding c x by (rule eq)
  ultimately show ?thesis using r by blast
qed

section \<open>Every command keeps the threads\<close>

lemma comment_commands_rollback:
  "CreateComment e tick content names authorID postUUID parentUUID s = Some (Inl err, s1) \<Longrightarrow> s1 = s"
  "UpdateComment e tick commentUUID authorID content s = Some (Inl err, s2) \<Longrightarrow> s2 = s"
  "DeleteComment e tick commentUUID authorID s = Some (Inl err, s3) \<Longrightarrow> s3 = s"
  unfolding CreateComment_def UpdateComment_def DeleteComment_def
  by (auto split: if_splits dest: atomic_rollback [OF comment_tx_atomic(1)]
      atomic_rollback [OF comment_tx_atomic(2)] atomic_rollback [OF comment_tx_atomic(3)])

lemma parent_ok_row:
  assumes "comments_ok (st_comments s)" "parent_ok s post parentUUID (Some p)"
  shows "\<exists>q. db_get (st_comments s) p = Some q \<and> comment_PostID q = post_ID post \<and> comment_ParentID q = None"
proof -
  have ok: "db_ok comment_ID (st_comments s)" using assms(1) by (simp add: comments_ok_def)
  from assms(2) show ?thesis
    by (auto simp: parent_ok_def dest: selectCommentByUUID_row [OF ok] split: if_splits)
qed

lemma CreateComment_keeps:
  assumes "CreateComment e tick content names authorID postUUID parentUUID s = Some (r, s')"
    and ok: "comments_ok (st_comments s)"
  shows "comments_ok (st_comments s')"
proof (cases r)
  case (Inl err)
  with assms show ?thesis by (auto dest: comment_commands_rollback(1))
next
  case (Inr uuid)
  from CreateComment_tx_committed(2) [OF assms(1) [unfolded Inr]] obtain t where
    t: "CreateComment_tx content names authorID postUUID parentUUID e (begin_tx tick s) = Some (Inr uuid, t)"
    and s': "s' = tx_store t" by blast
  from CreateComment_tx_run [OF t] obtain post parentID saved comments' created where
    p: "parent_ok s post parentUUID parentID"
    and c: "Comment_save (NewComment created uuid content authorID (post_ID post) parentID) (st_comments s) =
      (saved, comments')"
    and eq: "s' = s\<lparr>st_comments := comments', st_outbox := st_outbox s'\<rparr>"
    unfolding s' begin_fields by blast
  have "st_comments s' = comments'" by (subst eq) simp
  moreover have "comments_ok comments'"
  proof (rule Comment_save_comments_ok [OF ok c])
    fix q assume "comment_ParentID (NewComment created uuid content authorID (post_ID post) parentID) = Some q"
    then have "parentID = Some q" by (simp add: NewComment_def)
    with parent_ok_row [OF ok, of post parentUUID q] p
    show "\<exists>d. db_get (st_comments s) q = Some d \<and>
        comment_PostID d = comment_PostID (NewComment created uuid content authorID (post_ID post) parentID) \<and>
        comment_ParentID d = None"
      by (simp add: NewComment_def)
  qed
  ultimately show ?thesis by simp
qed

lemma UpdateComment_keeps:
  assumes "UpdateComment e tick commentUUID authorID content s = Some (r, s')"
    and ok: "comments_ok (st_comments s)"
  shows "comments_ok (st_comments s')"
proof (cases r)
  case (Inl err)
  with assms show ?thesis by (auto dest: comment_commands_rollback(2))
next
  case (Inr u)
  from UpdateComment_tx_committed(2) [OF assms(1) [unfolded Inr]] obtain t where
    t: "UpdateComment_tx commentUUID authorID content e (begin_tx tick s) = Some (Inr u, t)"
    and s': "s' = tx_store t" by blast
  from UpdateComment_tx_run [OF t] obtain comment updatedAt where
    c: "selectCommentByUUID commentUUID (st_comments s) = Some comment"
    and eq: "s' = s\<lparr>st_comments := Comment_update (Comment_Update updatedAt content comment) (st_comments s),
                     st_outbox := st_outbox s'\<rparr>"
    unfolding s' begin_fields by blast
  have row: "db_get (st_comments s) (comment_ID comment) = Some comment"
    using selectCommentByUUID_row [OF _ c] ok by (simp add: comments_ok_def)
  have "st_comments s' = Comment_update (Comment_Update updatedAt content comment) (st_comments s)"
    by (subst eq) simp
  moreover have "comments_ok (Comment_update (Comment_Update updatedAt content comment) (st_comments s))"
    by (rule Comment_update_ok [OF ok, of _ comment]) (simp_all add: row)
  ultimately show ?thesis by simp
qed

lemma DeleteComment_keeps:
  assumes "DeleteComment e tick commentUUID authorID s = Some (r, s')"
    and ok: "comments_ok (st_comments s)" "reactions_ok (st_reactions s)"
  shows "comments_ok (st_comments s') \<and> reactions_ok (st_reactions s')"
proof (cases r)
  case (Inl err)
  with assms show ?thesis by (auto dest: comment_commands_rollback(3))
next
  case (Inr u)
  from DeleteComment_tx_committed [OF assms(1) [unfolded Inr]] obtain t where
    t: "DeleteComment_tx commentUUID authorID e (begin_tx tick s) = Some (Inr u, t)"
    and s': "s' = tx_store t" by blast
  from DeleteComment_tx_run [OF t, unfolded begin_fields, folded s'] obtain comment deletedAt where
    c: "selectCommentByUUID commentUUID (st_comments s) = Some comment" and eq: "s' = s\<lparr>st_comments := Comment_delete deletedAt (comment_ID comment) (st_comments s),
      st_reactions := snd (deleteByTarget (comment_ID comment) ReactionTargetComment (st_reactions s)),
      st_outbox := st_outbox s'\<rparr>"
    by blast
  have "st_comments s' = Comment_delete deletedAt (comment_ID comment) (st_comments s)"
    "st_reactions s' = snd (deleteByTarget (comment_ID comment) ReactionTargetComment (st_reactions s))"
    by (subst eq; simp)+
  then show ?thesis
    using Comment_delete_comments_ok [OF ok(1)] deleteByTarget_rows [OF ok(2) prod.collapse [symmetric]]
    by simp
qed

lemma comment_writes_keep_reactions:
  "CreateComment e tick content names authorID postUUID parentUUID s = Some (cr, s1) \<Longrightarrow>
    st_reactions s1 = st_reactions s"
  "UpdateComment e tick commentUUID authorID content s = Some (ur, s2) \<Longrightarrow> st_reactions s2 = st_reactions s"
proof -
  show "st_reactions s1 = st_reactions s"
    if c: "CreateComment e tick content names authorID postUUID parentUUID s = Some (cr, s1)"
  proof (cases cr)
    case (Inl err)
    with c show ?thesis by (auto dest: comment_commands_rollback(1))
  next
    case (Inr uuid)
    from CreateComment_tx_committed(2) [OF c [unfolded Inr]] obtain t where
      t: "CreateComment_tx content names authorID postUUID parentUUID e (begin_tx tick s) = Some (Inr uuid, t)"
      and s1: "s1 = tx_store t" by blast
    from CreateComment_tx_run [OF t] obtain comments' where
      "s1 = s\<lparr>st_comments := comments', st_outbox := st_outbox s1\<rparr>"
      unfolding s1 begin_fields by blast
    then show ?thesis by (metis store.select_convs(7) store.surjective store.update_convs(6,13))
  qed
  show "st_reactions s2 = st_reactions s"
    if c: "UpdateComment e tick commentUUID authorID content s = Some (ur, s2)"
  proof (cases ur)
    case (Inl err)
    with c show ?thesis by (auto dest: comment_commands_rollback(2))
  next
    case (Inr u)
    from UpdateComment_tx_committed(2) [OF c [unfolded Inr]] obtain t where
      t: "UpdateComment_tx commentUUID authorID content e (begin_tx tick s) = Some (Inr u, t)"
      and s2: "s2 = tx_store t" by blast
    from UpdateComment_tx_run [OF t] obtain comments' where
      "s2 = s\<lparr>st_comments := comments', st_outbox := st_outbox s2\<rparr>"
      unfolding s2 begin_fields by blast
    then show ?thesis by (metis store.select_convs(7) store.surjective store.update_convs(6,13))
  qed
qed

text \<open>
  C31: the comment commands keep the threads and the reaction index: whatever each of them answers,
  every reply in the store still has an existing top-level comment of the same post as its parent,
  and the index of the reactions still holds exactly the stored reactions, one for each user and
  target. Creating and editing a comment touch no reaction.
\<close>

theorem comment_commands_keep_threads:
  assumes "comments_ok (st_comments s)" "reactions_ok (st_reactions s)"
  shows "(CreateComment e tick content names authorID postUUID parentUUID s = Some (cr, s1) \<longrightarrow>
      comments_ok (st_comments s1) \<and> reactions_ok (st_reactions s1) \<and> st_reactions s1 = st_reactions s) \<and>
    (UpdateComment e tick commentUUID authorID content s = Some (ur, s2) \<longrightarrow>
      comments_ok (st_comments s2) \<and> reactions_ok (st_reactions s2) \<and> st_reactions s2 = st_reactions s) \<and>
    (DeleteComment e tick commentUUID authorID s = Some (dr, s3) \<longrightarrow>
      comments_ok (st_comments s3) \<and> reactions_ok (st_reactions s3))"
  using CreateComment_keeps [OF _ assms(1)] UpdateComment_keeps [OF _ assms(1)] DeleteComment_keeps [OF _ assms]
    comment_writes_keep_reactions assms(2) by metis

text \<open>
  The comment commands always answer, and one that answers with an error has changed
  nothing: its transaction is rolled back as a whole.
\<close>

theorem comment_commands_atomic:
  "(\<exists>r s'. CreateComment e tick content names authorID postUUID parentUUID s = Some (r, s') \<and>
      (\<exists>err. r = Inl err \<and> s' = s \<or> (\<exists>uuid. r = Inr uuid))) \<and>
   (\<exists>r s'. UpdateComment e tick commentUUID authorID content s = Some (r, s') \<and>
      (\<exists>err. r = Inl err \<and> s' = s \<or> r = Inr ())) \<and>
   (\<exists>r s'. DeleteComment e tick commentUUID authorID s = Some (r, s') \<and>
      (\<exists>err. r = Inl err \<and> s' = s \<or> r = Inr ()))"
proof -
  have "\<exists>r s'. CreateComment e tick content names authorID postUUID parentUUID s = Some (r, s')"
    "\<exists>r s'. UpdateComment e tick commentUUID authorID content s = Some (r, s')"
    "\<exists>r s'. DeleteComment e tick commentUUID authorID s = Some (r, s')"
    unfolding CreateComment_def UpdateComment_def DeleteComment_def
    using returns_transaction [OF comment_tx_returns(1)] returns_transaction [OF comment_tx_returns(2)]
      returns_transaction [OF comment_tx_returns(3)] by auto
  moreover have "\<exists>err. r = Inl err \<and> s' = s \<or> (\<exists>uuid. r = Inr uuid)"
    if "CreateComment e tick content names authorID postUUID parentUUID s = Some (r, s')" for r s'
    using that comment_commands_rollback(1) by (cases r) auto
  moreover have "\<exists>err. r = Inl err \<and> s' = s \<or> r = Inr ()"
    if "UpdateComment e tick commentUUID authorID content s = Some (r, s')" for r s'
    using that comment_commands_rollback(2) by (cases r) auto
  moreover have "\<exists>err. r = Inl err \<and> s' = s \<or> r = Inr ()"
    if "DeleteComment e tick commentUUID authorID s = Some (r, s')" for r s'
    using that comment_commands_rollback(3) by (cases r) auto
  ultimately show ?thesis by meson
qed

section \<open>The commands on a small forum\<close>

lemma demo_texts:
  "TrimSpace ''hi'' = ''hi''" "TrimSpace ''c1'' = ''c1''" "TrimSpace [] = []"
  by (simp_all add: TrimSpace_plain plain_byte_def)

lemma demo_invariants:
  "comments_ok (st_comments demo_store)" "reactions_ok (st_reactions demo_store)"
  by (simp_all add: comments_ok_def threaded_def db_ok_def demo_store_simps entity_eval
      reactions_ok_def split: if_splits)

lemmas comment_eval =
  CreateComment_def CreateComment_tx_def UpdateComment_def UpdateComment_tx_def
  DeleteComment_def DeleteComment_tx_def ensureCommentBoardVisibleByPostTx_def
  directNotification_def commentTx_Save_def commentTx_Update_def commentTx_Delete_def
  reactionTx_DeleteByTarget_def captureComment_def captureReaction_def Comment_save_def Comment_update_def Comment_delete_def
  Comment_SoftDelete_def Comment_Update_def deleteByTarget_def demo_texts

theorem UpdateComment_effect_witness:
  "\<exists>s'. UpdateComment demo_env 0 ''c1'' 2 ''hi'' demo_store = Some (Inr (), s') \<and>
    (\<exists>comment updatedAt.
      selectCommentByUUID ''c1'' (st_comments demo_store) = Some comment \<and>
      db_get (st_comments s') =
        (db_get (st_comments demo_store))(comment_ID comment \<mapsto> Comment_Update updatedAt ''hi'' comment))"
proof -
  have "\<exists>s'. UpdateComment demo_env 0 ''c1'' 2 ''hi'' demo_store = Some (Inr (), s')"
    by (simp add: comment_eval action_eval entity_eval policy_eval event_eval cong: bindT_eval_cong)
  then show ?thesis using UpdateComment_effect [OF _ demo_invariants(1)] by blast
qed

lemmas comment_run_simps = comment_eval action_eval entity_eval policy_eval event_eval

lemma demo_parent:
  "post_ID p = 1 \<Longrightarrow> user_ID u = 3 \<Longrightarrow> tx_store t = demo_store \<Longrightarrow>
    commentParent u p (Some ''c1'') demo_env t = Some (Inr (Some 1, 2, NotificationTypeCommentReplied), t)"
  by (simp add: commentParent_def comment_run_simps cong: bindT_eval_cong)

lemma demo_create:
  "\<exists>uuid s'. CreateComment demo_env 0 ''hi'' [] 3 ''p1'' (Some ''c1'') demo_store = Some (Inr uuid, s')"
  apply (simp add: BuildMentionNotificationEvents_def normalizeMentionedUsernames_def comment_eval
      action_eval entity_eval policy_eval demo_parent NewNotificationTriggered_def NewCommentChanged_def
      cong: bindT_eval_cong)
  apply (simp add: DispatchDomainActions_def action_eval outboxMessage_def cong: bindT_eval_cong)
  apply (simp add: action_eval event_eval cong: bindT_eval_cong)
  done

theorem CreateComment_effect_witness:
  "\<exists>uuid s'. CreateComment demo_env 0 ''hi'' [] 3 ''p1'' (Some ''c1'') demo_store = Some (Inr uuid, s') \<and>
    (\<exists>post parentID. selectPostByUUID ''p1'' (st_posts demo_store) = Some post \<and>
      parent_ok demo_store post (Some ''c1'') parentID)"
  using demo_create CreateComment_effect by blast

theorem DeleteComment_effect_witness:
  "\<exists>s'. DeleteComment demo_env 0 ''c1'' 2 demo_store = Some (Inr (), s') \<and>
    (\<exists>comment. selectCommentByUUID ''c1'' (st_comments demo_store) = Some comment \<and>
      (\<forall>v. reaction_of (st_reactions s') (v, comment_ID comment, ReactionTargetComment) = None))"
proof -
  have "\<exists>s'. DeleteComment demo_env 0 ''c1'' 2 demo_store = Some (Inr (), s')"
    by (simp add: comment_run_simps cong: bindT_eval_cong)
  then obtain s' where d: "DeleteComment demo_env 0 ''c1'' 2 demo_store = Some (Inr (), s')" by blast
  from DeleteComment_effect [OF d demo_invariants] d show ?thesis by metis
qed

theorem comment_commands_keep_threads_witness:
  "\<exists>r s'. CreateComment demo_env 0 ''hi'' [] 3 ''p1'' (Some ''c1'') demo_store = Some (r, s') \<and>
    comments_ok (st_comments s') \<and> reactions_ok (st_reactions s') \<and>
    (\<exists>s3. DeleteComment demo_env 0 ''c1'' 2 demo_store = Some (Inr (), s3) \<and>
       comments_ok (st_comments s3) \<and> reactions_ok (st_reactions s3))"
proof -
  obtain s3 where d: "DeleteComment demo_env 0 ''c1'' 2 demo_store = Some (Inr (), s3)"
    by (simp add: comment_run_simps cong: bindT_eval_cong)
  obtain r s' where c: "CreateComment demo_env 0 ''hi'' [] 3 ''p1'' (Some ''c1'') demo_store = Some (r, s')"
    using demo_create by blast
  from comment_commands_keep_threads [OF demo_invariants] c d show ?thesis by blast
qed

section \<open>A deleted comment\<close>

definition demo_deleted :: store where
  "demo_deleted = demo_store\<lparr>st_comments := Comment_delete 9 1 demo_comments\<rparr>"

text \<open>
  \<open>UpdateComment\<close> does not look at the status. The author of a deleted comment can write a
  new text over the placeholder while the comment stays deleted, as can be seen on the forum of
  the examples after comment \<open>c1\<close> has been deleted.
\<close>

theorem deleted_comment_is_editable:
  "\<exists>s'. UpdateComment demo_env 0 ''c1'' 2 ''hi'' demo_deleted = Some (Inr (), s') \<and>
    (\<exists>old new. selectCommentByUUID ''c1'' (st_comments demo_deleted) = Some old \<and>
      comment_Status old = CommentStatusDeleted \<and>
      selectCommentByUUID ''c1'' (st_comments s') = Some new \<and>
      comment_Status new = CommentStatusDeleted \<and> comment_Content new = ''hi'')"
  by (simp add: demo_deleted_def comment_run_simps cong: bindT_eval_cong)

end
