(* ===== verification/SvcReaction.thy ===== *)
theory SvcReaction
  imports Demo
begin

text \<open>
  \<open>service/reaction/service.go\<close>: setting and taking back a reaction. The target is looked up
  by its UUID before the transaction starts; the transaction checks the user and that the
  target is visible, changes the reaction, and queues an event when something changed.
  The properties state the commands on the abstraction \<open>reaction_of\<close>, the finite map from
  user and target to the kind of reaction. The cached list of reactions is not modelled.
\<close>

section \<open>The commands\<close>

definition resolveTargetID :: "env \<Rightarrow> string \<Rightarrow> ReactionTargetType \<Rightarrow> store \<Rightarrow> go_error + int" where
  "resolveTargetID e targetUUID targetType s =
     (case targetType of
        ReactionTargetPost \<Rightarrow>
          (case read_repo e ''select post by uuid for reaction target''
                  (selectPostByUUID targetUUID (st_posts s)) of
             Inl err \<Rightarrow> Inl err
           | Inr None \<Rightarrow> Inl (Sentinel ErrPostNotFound)
           | Inr (Some post) \<Rightarrow> Inr (post_ID post))
      | ReactionTargetComment \<Rightarrow>
          (case read_repo e ''select comment by uuid for reaction target''
                  (selectCommentByUUID targetUUID (st_comments s)) of
             Inl err \<Rightarrow> Inl err
           | Inr None \<Rightarrow> Inl (Sentinel ErrCommentNotFound)
           | Inr (Some comment) \<Rightarrow> Inr (comment_ID comment)))"

definition reactionInputTypes ::
  "string \<Rightarrow> string \<Rightarrow> go_error + (ReactionTargetType \<times> ReactionType)" where
  "reactionInputTypes targetType reactionType =
     (case ParseReactionTargetType targetType of
        None \<Rightarrow> Inl (Sentinel ErrInvalidInput)
      | Some entityTargetType \<Rightarrow>
          (case ParseReactionType reactionType of
             None \<Rightarrow> Inl (Sentinel ErrInvalidInput)
           | Some entityReactionType \<Rightarrow> Inr (entityTargetType, entityReactionType)))"

text \<open>The post whose detail page shows the reaction.\<close>

definition ensureTargetExistsTx :: "user \<Rightarrow> int \<Rightarrow> ReactionTargetType \<Rightarrow> int action" where
  "ensureTargetExistsTx user targetID targetType =
     (case targetType of
        ReactionTargetPost \<Rightarrow>
          bindT (EnsurePostVisibleForUser (Some user) targetID (Some (Sentinel ErrBoardNotFound))
                   ''reaction target'') (\<lambda>post. returnT (post_ID post))
      | ReactionTargetComment \<Rightarrow>
          bindT (EnsureCommentTargetVisibleForUser (Some user) targetID (Some (Sentinel ErrBoardNotFound))
                   ''reaction target'') (\<lambda>(comment, _). returnT (comment_PostID comment)))"

definition withReactionTransaction ::
  "int \<Rightarrow> int \<Rightarrow> ReactionTargetType \<Rightarrow> (int \<Rightarrow> (bool \<times> bool) action) \<Rightarrow> (bool \<times> bool) action" where
  "withReactionTransaction userID targetID targetType mutate =
     bindT (wrapped ''select user by id for reaction'' (userTx_SelectUserByID userID)) (\<lambda>ou.
     bindT (requireT ou (Sentinel ErrUserNotFound)) (\<lambda>user.
     bindT (ensureT (ForbidGuest (Some user))) (\<lambda>_.
     bindT nowT (\<lambda>now.
     bindT (ensureT (CanWrite now (Some user))) (\<lambda>_.
     bindT (ensureTargetExistsTx user targetID targetType) mutate)))))"

text \<open>The code crashes on an index entry without a row, so the action does not return there.\<close>

definition crashT :: "'a action" where
  "crashT = (\<lambda>e t. None)"

definition SetReaction_mutate ::
  "int \<Rightarrow> int \<Rightarrow> ReactionTargetType \<Rightarrow> ReactionType \<Rightarrow> int \<Rightarrow> (bool \<times> bool) action" where
  "SetReaction_mutate userID targetID targetType reactionType detailPostID =
     bindT (wrapped ''set user target reaction''
              (reactionTx_SetUserTargetReaction userID targetID targetType reactionType)) (\<lambda>res.
       case res of
         None \<Rightarrow> crashT
       | Some (_, created, changed) \<Rightarrow>
           bindT (if created \<or> changed
                  then bindT nowT (\<lambda>now. DispatchDomainActions
                         [NewReactionChanged now ''set'' targetType targetID detailPostID userID reactionType])
                  else returnT ()) (\<lambda>_.
             returnT (created, changed)))"

definition SetReaction ::
  "env \<Rightarrow> nat \<Rightarrow> int \<Rightarrow> string \<Rightarrow> string \<Rightarrow> string \<Rightarrow> store \<Rightarrow> ((go_error + bool) \<times> store) option" where
  "SetReaction e tick userID targetUUID targetType reactionType s =
     (case reactionInputTypes targetType reactionType of
        Inl err \<Rightarrow> Some (Inl err, s)
      | Inr (ty, rt) \<Rightarrow>
          (case resolveTargetID e targetUUID ty s of
             Inl err \<Rightarrow> Some (Inl err, s)
           | Inr targetID \<Rightarrow>
               (case WithinTransaction e tick
                       (withReactionTransaction userID targetID ty
                          (SetReaction_mutate userID targetID ty rt)) s of
                  None \<Rightarrow> None
                | Some (Inl err, s') \<Rightarrow> Some (Inl err, s')
                | Some (Inr (created, changed), s') \<Rightarrow>
                    if \<not> created \<and> \<not> changed then Some (Inr False, s') else Some (Inr created, s'))))"

definition DeleteReaction_mutate ::
  "int \<Rightarrow> int \<Rightarrow> ReactionTargetType \<Rightarrow> int \<Rightarrow> (bool \<times> bool) action" where
  "DeleteReaction_mutate userID targetID targetType detailPostID =
     bindT (wrapped ''select user target reaction''
              (reactionTx_GetUserTargetReaction userID targetID targetType)) (\<lambda>existing.
     bindT (wrapped ''delete user target reaction''
              (reactionTx_DeleteUserTargetReaction userID targetID targetType)) (\<lambda>deleted.
     bindT (case existing of
              Some x \<Rightarrow>
                if deleted
                then bindT nowT (\<lambda>now. DispatchDomainActions
                       [NewReactionChanged now ''unset'' targetType targetID detailPostID userID (reaction_Type x)])
                else returnT ()
            | None \<Rightarrow> returnT ()) (\<lambda>_.
       returnT (deleted, deleted))))"

definition DeleteReaction ::
  "env \<Rightarrow> nat \<Rightarrow> int \<Rightarrow> string \<Rightarrow> string \<Rightarrow> store \<Rightarrow> ((go_error + unit) \<times> store) option" where
  "DeleteReaction e tick userID targetUUID targetType s =
     (case ParseReactionTargetType targetType of
        None \<Rightarrow> Some (Inl (Sentinel ErrInvalidInput), s)
      | Some ty \<Rightarrow>
          (case resolveTargetID e targetUUID ty s of
             Inl err \<Rightarrow> Some (Inl err, s)
           | Inr targetID \<Rightarrow>
               (case WithinTransaction e tick
                       (withReactionTransaction userID targetID ty
                          (DeleteReaction_mutate userID targetID ty)) s of
                  None \<Rightarrow> None
                | Some (Inl err, s') \<Rightarrow> Some (Inl err, s')
                | Some (Inr _, s') \<Rightarrow> Some (Inr (), s'))))"

section \<open>Failure\<close>

lemma atomic_crash [atomic_intros]: "atomic crashT"
  by (simp add: atomic_def crashT_def)

lemma crash_run [tx_simps]: "crashT e t = Some (r, t') \<longleftrightarrow> False"
  by (simp add: crashT_def)

lemma reaction_tx_atomic [atomic_intros]:
  "(\<And>i. atomic (mutate i)) \<Longrightarrow> atomic (withReactionTransaction userID targetID ty mutate)"
  "atomic (SetReaction_mutate userID targetID ty rt i)"
  "atomic (DeleteReaction_mutate userID targetID ty i)"
  unfolding withReactionTransaction_def SetReaction_mutate_def DeleteReaction_mutate_def
    ensureTargetExistsTx_def userTx_SelectUserByID_def reactionTx_GetUserTargetReaction_def
    reactionTx_SetUserTargetReaction_def reactionTx_DeleteUserTargetReaction_def
  by (auto split: ReactionTargetType.split intro!: atomic_intros)

section \<open>What a successful command did\<close>

definition target_visible :: "store \<Rightarrow> user \<Rightarrow> int \<Rightarrow> ReactionTargetType \<Rightarrow> int \<Rightarrow> bool" where
  "target_visible s user targetID ty postID \<longleftrightarrow>
     (case ty of
        ReactionTargetPost \<Rightarrow>
          (\<exists>p. selectPostByID targetID (st_posts s) = Some p \<and> postID = post_ID p \<and>
             board_visible s (Some user) (post_BoardID p))
      | ReactionTargetComment \<Rightarrow>
          (\<exists>c p. selectCommentByID targetID (st_comments s) = Some c \<and> postID = comment_PostID c \<and>
             selectPostByID postID (st_posts s) = Some p \<and> board_visible s (Some user) (post_BoardID p)))"

definition may_react :: "store \<Rightarrow> int \<Rightarrow> int \<Rightarrow> ReactionTargetType \<Rightarrow> int \<Rightarrow> bool" where
  "may_react s userID targetID ty postID \<longleftrightarrow>
     (\<exists>user now. selectUserByID userID (st_users s) = Some user \<and> \<not> IsGuest user \<and>
        \<not> IsSuspended now user \<and> target_visible s user targetID ty postID)"

lemma withReactionTransaction_run:
  assumes "withReactionTransaction userID targetID ty mutate e t = Some (Inr r, t')"
  shows "\<exists>postID t1. may_react (tx_store t) userID targetID ty postID \<and>
    mutate postID e t1 = Some (Inr r, t') \<and> tx_store t1 = tx_store t"
proof -
  let ?t = "t\<lparr>tx_tick := Suc (tx_tick t)\<rparr>"
  from assms obtain user postID t2 where
    u: "selectUserByID userID (st_users (tx_store t)) = Some user" "\<not> IsGuest user"
      "\<not> IsSuspended (env_now e (tx_tick t)) user"
    and x: "ensureTargetExistsTx user targetID ty e ?t = Some (Inr postID, t2)"
    and m: "mutate postID e t2 = Some (Inr r, t')"
    unfolding withReactionTransaction_def userTx_SelectUserByID_def
    by (auto simp: tx_simps)
  have "target_visible (tx_store t) user targetID ty postID \<and> t2 = ?t"
    using x
    by (cases ty) (auto simp: ensureTargetExistsTx_def target_visible_def tx_simps)
  with u m show ?thesis unfolding may_react_def by fastforce
qed

lemma setUserTargetReaction_flags:
  assumes "reactions_ok r" "setUserTargetReaction now u i ty t r = (Some (x, created, changed), r')"
  shows "created \<longleftrightarrow> reaction_of r (u, i, ty) = None"
    "changed \<longleftrightarrow> reaction_of r (u, i, ty) \<noteq> Some t"
    "reaction_of r (u, i, ty) = Some t \<Longrightarrow> r' = r"
  using assms(2)
  by (cases rule: setUserTargetReaction_cases [OF assms(1), of u i ty t now]; auto simp: reaction_of_def)+

lemma SetReaction_mutate_run:
  assumes "SetReaction_mutate userID targetID ty rt postID e t = Some (Inr (created, changed), t')"
    and ok: "reactions_ok (st_reactions (tx_store t))"
  defines "s \<equiv> tx_store t"
  shows "reactions_ok (st_reactions (tx_store t')) \<and>
    reaction_of (st_reactions (tx_store t')) = (reaction_of (st_reactions s))((userID, targetID, ty) \<mapsto> rt) \<and>
    (created \<longleftrightarrow> reaction_of (st_reactions s) (userID, targetID, ty) = None) \<and>
    (if reaction_of (st_reactions s) (userID, targetID, ty) = Some rt
     then tx_store t' = s
     else \<exists>now. queued e [NewReactionChanged now ''set'' ty targetID postID userID rt] s (tx_store t')) \<and>
    tx_store t' = s\<lparr>st_reactions := st_reactions (tx_store t'), st_outbox := st_outbox (tx_store t')\<rparr>"
proof -
  let ?t1 = "\<lambda>r'. captureReaction (t\<lparr>tx_tick := Suc (tx_tick t)\<rparr>)\<lparr>tx_store := s\<lparr>st_reactions := r'\<rparr>\<rparr>"
  from assms(1) obtain now x r' where
    set: "setUserTargetReaction now userID targetID ty rt (st_reactions s) = (Some (x, created, changed), r')"
    and d: "(if created \<or> changed
             then bindT nowT (\<lambda>now. DispatchDomainActions
                    [NewReactionChanged now ''set'' ty targetID postID userID rt])
             else returnT ()) e (?t1 r') = Some (Inr (), t')"
    unfolding SetReaction_mutate_def reactionTx_SetUserTargetReaction_def s_def
    by (auto simp: tx_simps split: option.splits)
  define t1 where "t1 = ?t1 r'"
  then have t1: "tx_store t1 = s\<lparr>st_reactions := r'\<rparr>" by simp
  note d = d [folded t1_def]
  note flags = setUserTargetReaction_flags [OF ok [folded s_def] set]
  have "reactions_ok r'" "reaction_of r' = (reaction_of (st_reactions s))((userID, targetID, ty) \<mapsto> rt)"
    using setUserTargetReaction_ok [OF ok [folded s_def] set] setUserTargetReaction_of [OF ok [folded s_def] set]
    by simp_all
  moreover have "st_reactions (tx_store t') = r' \<and>
      tx_store t' = s\<lparr>st_reactions := st_reactions (tx_store t'), st_outbox := st_outbox (tx_store t')\<rparr> \<and>
      (if changed \<or> created
       then \<exists>now. queued e [NewReactionChanged now ''set'' ty targetID postID userID rt] s (tx_store t')
       else tx_store t' = s\<lparr>st_reactions := r'\<rparr>)"
  proof (cases "created \<or> changed")
    case True
    with d obtain now where
      dis: "DispatchDomainActions [NewReactionChanged now ''set'' ty targetID postID userID rt] e
        (t1\<lparr>tx_tick := Suc (tx_tick t1)\<rparr>) = Some (Inr (), t')"
      by (auto simp: tx_simps)
    have "queued e [NewReactionChanged now ''set'' ty targetID postID userID rt] s (tx_store t')"
      by (rule Dispatch_queued(1) [OF dis]) (simp add: t1)
    moreover have e: "tx_store t' = s\<lparr>st_reactions := r', st_outbox := st_outbox (tx_store t')\<rparr>"
      using Dispatch_queued(2) [OF dis refl] by (simp add: t1)
    moreover have "st_reactions (tx_store t') = r'" by (subst e) simp
    ultimately show ?thesis using True by auto
  next
    case False
    with d t1 show ?thesis by (auto simp: tx_simps)
  qed
  ultimately show ?thesis using flags by (auto split: if_splits)
qed

lemma DeleteReaction_mutate_run:
  assumes "DeleteReaction_mutate userID targetID ty postID e t = Some (Inr r, t')"
    and ok: "reactions_ok (st_reactions (tx_store t))"
  defines "s \<equiv> tx_store t"
  shows "reactions_ok (st_reactions (tx_store t')) \<and>
    reaction_of (st_reactions (tx_store t')) = (reaction_of (st_reactions s))((userID, targetID, ty) := None) \<and>
    (case reaction_of (st_reactions s) (userID, targetID, ty) of
       None \<Rightarrow> tx_store t' = s
     | Some rt \<Rightarrow> \<exists>now. queued e [NewReactionChanged now ''unset'' ty targetID postID userID rt] s (tx_store t')) \<and>
    tx_store t' = s\<lparr>st_reactions := st_reactions (tx_store t'), st_outbox := st_outbox (tx_store t')\<rparr>"
proof -
  let ?r = "st_reactions s"
  let ?d = "deleteUserTargetReaction userID targetID ty ?r"
  let ?t1 = "captureReaction t\<lparr>tx_store := s\<lparr>st_reactions := snd ?d\<rparr>\<rparr>"
  note ok = ok [folded s_def]
  define t1 where "t1 = ?t1"
  then have t1: "tx_store t1 = s\<lparr>st_reactions := snd ?d\<rparr>" by simp
  have d: "(case getUserTargetReaction userID targetID ty ?r of
              Some x \<Rightarrow>
                if fst ?d
                then bindT nowT (\<lambda>now. DispatchDomainActions
                       [NewReactionChanged now ''unset'' ty targetID postID userID (reaction_Type x)])
                else returnT ()
            | None \<Rightarrow> returnT ()) e t1 = Some (Inr (), t')"
    using assms(1) unfolding DeleteReaction_mutate_def reactionTx_GetUserTargetReaction_def
      reactionTx_DeleteUserTargetReaction_def s_def t1_def
    by (auto simp: tx_simps split: option.splits)
  have of: "reaction_of (snd ?d) = (reaction_of ?r)((userID, targetID, ty) := None)"
    "fst ?d \<longleftrightarrow> reaction_of ?r (userID, targetID, ty) \<noteq> None"
    using deleteUserTargetReaction_of [OF ok] by blast+
  have inv: "reactions_ok (snd ?d)" by (rule deleteUserTargetReaction_ok [OF ok])
  show ?thesis
  proof (cases "getUserTargetReaction userID targetID ty ?r")
    case None
    then have "?d = (False, ?r)" by (simp add: deleteUserTargetReaction_drop [OF ok])
    with None d t1 ok show ?thesis by (auto simp: tx_simps reaction_of_def fun_upd_idem)
  next
    case (Some x)
    with of(2) have f: "fst ?d" by (simp add: reaction_of_def)
    with Some d obtain now where
      dis: "DispatchDomainActions [NewReactionChanged now ''unset'' ty targetID postID userID (reaction_Type x)] e
        (t1\<lparr>tx_tick := Suc (tx_tick t1)\<rparr>) = Some (Inr (), t')"
      by (auto simp: tx_simps)
    have "queued e [NewReactionChanged now ''unset'' ty targetID postID userID (reaction_Type x)] s (tx_store t')"
      by (rule Dispatch_queued(1) [OF dis]) (simp add: t1)
    moreover have eq: "tx_store t' = s\<lparr>st_reactions := snd ?d, st_outbox := st_outbox (tx_store t')\<rparr>"
      using Dispatch_queued(2) [OF dis refl] by (simp add: t1)
    moreover have st: "st_reactions (tx_store t') = snd ?d" by (subst eq) simp
    moreover have "reaction_of ?r (userID, targetID, ty) = Some (reaction_Type x)"
      using Some by (simp add: reaction_of_def)
    ultimately show ?thesis using inv of(1) by auto
  qed
qed

section \<open>Properties\<close>

text \<open>
  C37: setting a reaction. Only an existing user who is neither a guest nor suspended can react,
  and only to something visible to them; afterwards the map of reactions has exactly the entry
  of that user for that target replaced. The answer says whether there was no reaction before;
  setting the kind that is there already changes nothing and queues nothing, any other call
  queues one event.
\<close>

theorem SetReaction_effect:
  assumes "SetReaction e tick userID targetUUID targetType reactionType s = Some (Inr created, s')"
    and "reactions_ok (st_reactions s)"
  shows "\<exists>ty rt targetID postID.
      reactionInputTypes targetType reactionType = Inr (ty, rt) \<and>
      resolveTargetID e targetUUID ty s = Inr targetID \<and>
      may_react s userID targetID ty postID \<and> reactions_ok (st_reactions s') \<and>
      reaction_of (st_reactions s') = (reaction_of (st_reactions s))((userID, targetID, ty) \<mapsto> rt) \<and>
      (created \<longleftrightarrow> reaction_of (st_reactions s) (userID, targetID, ty) = None) \<and>
      (if reaction_of (st_reactions s) (userID, targetID, ty) = Some rt then s' = s
       else \<exists>now. queued e [NewReactionChanged now ''set'' ty targetID postID userID rt] s s') \<and>
      s' = s\<lparr>st_reactions := st_reactions s', st_outbox := st_outbox s'\<rparr>"
proof -
  from assms(1) obtain ty rt targetID cr ch where
    p: "reactionInputTypes targetType reactionType = Inr (ty, rt)"
      "resolveTargetID e targetUUID ty s = Inr targetID"
    and w: "WithinTransaction e tick (withReactionTransaction userID targetID ty
      (SetReaction_mutate userID targetID ty rt)) s = Some (Inr (cr, ch), s')"
    and cr: "created = cr"
    by (auto simp: SetReaction_def split: sum.splits option.splits prod.splits if_splits)
  have "atomic (withReactionTransaction userID targetID ty (SetReaction_mutate userID targetID ty rt))"
    by (intro reaction_tx_atomic)
  from w [unfolded atomic_commit [OF this]] obtain t where
    t: "withReactionTransaction userID targetID ty (SetReaction_mutate userID targetID ty rt) e
      (begin_tx tick s) = Some (Inr (cr, ch), t)" and s': "s' = tx_store t" by blast
  from withReactionTransaction_run [OF t] obtain postID t1 where
    v: "may_react s userID targetID ty postID" and st: "tx_store t1 = s"
    and m: "SetReaction_mutate userID targetID ty rt postID e t1 = Some (Inr (cr, ch), t)"
    by auto
  from SetReaction_mutate_run [OF m] assms(2) st p v show ?thesis
    unfolding cr s' by blast
qed

text \<open>
  Taking a reaction back, under the same conditions. Afterwards exactly the entry of that
  user for that target is gone. If there was none, nothing changes and nothing is queued;
  otherwise one event is queued, and it carries the kind that was taken back.
\<close>

theorem DeleteReaction_effect:
  assumes "DeleteReaction e tick userID targetUUID targetType s = Some (Inr u, s')"
    and "reactions_ok (st_reactions s)"
  shows "\<exists>ty targetID postID.
      ParseReactionTargetType targetType = Some ty \<and> resolveTargetID e targetUUID ty s = Inr targetID \<and>
      may_react s userID targetID ty postID \<and> reactions_ok (st_reactions s') \<and>
      reaction_of (st_reactions s') = (reaction_of (st_reactions s))((userID, targetID, ty) := None) \<and>
      (case reaction_of (st_reactions s) (userID, targetID, ty) of
         None \<Rightarrow> s' = s
       | Some rt \<Rightarrow> \<exists>now. queued e [NewReactionChanged now ''unset'' ty targetID postID userID rt] s s') \<and>
      s' = s\<lparr>st_reactions := st_reactions s', st_outbox := st_outbox s'\<rparr>"
proof -
  from assms(1) obtain ty targetID r where
    p: "ParseReactionTargetType targetType = Some ty" "resolveTargetID e targetUUID ty s = Inr targetID"
    and w: "WithinTransaction e tick (withReactionTransaction userID targetID ty
      (DeleteReaction_mutate userID targetID ty)) s = Some (Inr r, s')"
    by (auto simp: DeleteReaction_def split: sum.splits option.splits)
  have "atomic (withReactionTransaction userID targetID ty (DeleteReaction_mutate userID targetID ty))"
    by (intro reaction_tx_atomic)
  from w [unfolded atomic_commit [OF this]] obtain t where
    t: "withReactionTransaction userID targetID ty (DeleteReaction_mutate userID targetID ty) e
      (begin_tx tick s) = Some (Inr r, t)" and s': "s' = tx_store t" by blast
  from withReactionTransaction_run [OF t] obtain postID t1 where
    v: "may_react s userID targetID ty postID" and st: "tx_store t1 = s"
    and m: "DeleteReaction_mutate userID targetID ty postID e t1 = Some (Inr r, t)"
    by auto
  from DeleteReaction_mutate_run [OF m] assms(2) st p v show ?thesis
    unfolding s' by blast
qed

text \<open>
  A reaction command that answers with an error leaves the store as it was.
\<close>

theorem reaction_commands_rollback:
  "(SetReaction e tick userID targetUUID targetType reactionType s = Some (Inl err, s1) \<longrightarrow> s1 = s) \<and>
   (DeleteReaction e tick userID targetUUID targetType s = Some (Inl err, s2) \<longrightarrow> s2 = s)"
  unfolding SetReaction_def DeleteReaction_def
  by (auto split: sum.splits option.splits prod.splits if_splits
      elim!: atomic_rollback [rotated] intro!: reaction_tx_atomic)

section \<open>The commands on a small forum\<close>

lemmas reaction_run_simps =
  SetReaction_def DeleteReaction_def reactionInputTypes_def ParseReactionTargetType_def ParseReactionType_def
  resolveTargetID_def read_repo_def withReactionTransaction_def ensureTargetExistsTx_def
  SetReaction_mutate_def DeleteReaction_mutate_def reactionTx_SetUserTargetReaction_def
  reactionTx_GetUserTargetReaction_def reactionTx_DeleteUserTargetReaction_def captureReaction_def
  setUserTargetReaction_def deleteUserTargetReaction_def getUserTargetReaction_def NewReaction_def
  action_eval entity_eval policy_eval event_eval

lemma demo_reactions_ok: "reactions_ok (st_reactions demo_store)"
  by (simp add: demo_store_simps reactions_ok_def entity_eval db_ok_def)

theorem SetReaction_effect_witness:
  "\<exists>s'. SetReaction demo_env 0 3 ''p1'' ''post'' ''like'' demo_store = Some (Inr True, s') \<and>
    reaction_of (st_reactions s') (3, 1, ReactionTargetPost) = Some ReactionTypeLike"
proof -
  have "\<exists>s'. SetReaction demo_env 0 3 ''p1'' ''post'' ''like'' demo_store = Some (Inr True, s')"
    by (simp add: reaction_run_simps cong: bindT_eval_cong)
  then obtain s' where s': "SetReaction demo_env 0 3 ''p1'' ''post'' ''like'' demo_store = Some (Inr True, s')"
    by blast
  have "resolveTargetID demo_env ''p1'' ReactionTargetPost demo_store = Inr 1"
    "reactionInputTypes ''post'' ''like'' = Inr (ReactionTargetPost, ReactionTypeLike)"
    by (simp_all add: reaction_run_simps)
  with SetReaction_effect [OF s' demo_reactions_ok] s' show ?thesis by auto
qed

theorem DeleteReaction_effect_witness:
  "\<exists>s'. DeleteReaction demo_env 0 3 ''p1'' ''post'' demo_store = Some (Inr (), s') \<and>
    reaction_of (st_reactions s') (3, 1, ReactionTargetPost) = None"
proof -
  have "\<exists>s'. DeleteReaction demo_env 0 3 ''p1'' ''post'' demo_store = Some (Inr (), s')"
    by (simp add: reaction_run_simps cong: bindT_eval_cong)
  then obtain s' where s': "DeleteReaction demo_env 0 3 ''p1'' ''post'' demo_store = Some (Inr (), s')"
    by blast
  have "resolveTargetID demo_env ''p1'' ReactionTargetPost demo_store = Inr 1"
    "ParseReactionTargetType ''post'' = Some ReactionTargetPost"
    by (simp_all add: reaction_run_simps)
  with DeleteReaction_effect [OF s' demo_reactions_ok] s' show ?thesis by auto
qed

theorem reaction_commands_rollback_witness:
  "\<exists>err. SetReaction demo_env 0 3 ''p2'' ''post'' ''like'' demo_store = Some (Inl err, demo_store)"
proof -
  have "\<exists>err s1. SetReaction demo_env 0 3 ''p2'' ''post'' ''like'' demo_store = Some (Inl err, s1)"
    by (simp add: reaction_run_simps cong: bindT_eval_cong)
  then show ?thesis using reaction_commands_rollback by metis
qed

end
