(* ===== verification/SvcReport.thy ===== *)
theory SvcReport
  imports Demo Pagination
begin

text \<open>
  \<open>service/report/service.go\<close>: filing a report, resolving it, and the administrators' list.
  A user reports a target at most once; a report is resolved at most once, by an
  administrator; pending reports come first in the list, each group newest first, and the
  cursor continues after the last report shown. The views carry UUIDs in place of keys; they
  are read from the repositories while the transaction of the list is open.
\<close>

definition maxReportReasonDetailLength :: nat where
  "maxReportReasonDetailLength = 1000"

definition maxReportResolutionNoteLength :: nat where
  "maxReportResolutionNoteLength = 1000"

section \<open>The commands\<close>

definition conceal_as :: "sentinel \<Rightarrow> 'a action \<Rightarrow> 'a action" where
  "conceal_as sent m = (\<lambda>e t.
     case m e t of
       None \<Rightarrow> None
     | Some (Inl err, t') \<Rightarrow> Some (Inl (if Is sent err then Sentinel sent else err), t')
     | Some (Inr a, t') \<Rightarrow> Some (Inr a, t'))"

definition resolveVisibleReportTargetIDTx :: "user \<Rightarrow> ReportTargetType \<Rightarrow> string \<Rightarrow> int action" where
  "resolveVisibleReportTargetIDTx user targetType targetUUID =
     (case targetType of
        ReportTargetPost \<Rightarrow>
          bindT (wrapped ''select post by uuid for report target'' (postTx_SelectPostByUUID targetUUID)) (\<lambda>op.
          bindT (requireT op (Sentinel ErrPostNotFound)) (\<lambda>post.
          bindT (conceal_as ErrPostNotFound
                   (EnsurePostVisibleForUser (Some user) (post_ID post) (Some (Sentinel ErrPostNotFound))
                      ''report target'')) (\<lambda>_.
            returnT (post_ID post))))
      | ReportTargetComment \<Rightarrow>
          bindT (wrapped ''select comment by uuid for report target''
                   (commentTx_SelectCommentByUUID targetUUID)) (\<lambda>oc.
          bindT (requireT oc (Sentinel ErrCommentNotFound)) (\<lambda>comment.
          bindT (conceal_as ErrCommentNotFound
                   (EnsureCommentTargetVisibleForUser (Some user) (comment_ID comment)
                      (Some (Sentinel ErrCommentNotFound)) ''report target'')) (\<lambda>_.
            returnT (comment_ID comment)))))"

text \<open>A second report of the same target is answered with the bare sentinel, not wrapped.\<close>

definition saveReport :: "report \<Rightarrow> report action" where
  "saveReport report = (\<lambda>e t.
     case env_fault e ''save report'' of
       Some err \<Rightarrow>
         Some (Inl (if Is ErrReportAlreadyExists err then Sentinel ErrReportAlreadyExists
                    else WrapRepository ''save report'' (Some err)), t)
     | None \<Rightarrow>
         (case reportTx_Save report e t of
            None \<Rightarrow> None
          | Some (Inl err, t') \<Rightarrow>
              Some (Inl (if Is ErrReportAlreadyExists err then Sentinel ErrReportAlreadyExists
                         else WrapRepository ''save report'' (Some err)), t')
          | Some (Inr saved, t') \<Rightarrow> Some (Inr saved, t')))"

definition CreateReport_tx ::
  "int \<Rightarrow> ReportTargetType \<Rightarrow> string \<Rightarrow> ReportReasonCode \<Rightarrow> string \<Rightarrow> int action" where
  "CreateReport_tx reporterUserID targetType targetUUID reasonCode reasonDetail =
     bindT (wrapped ''select user by id for create report'' (userTx_SelectUserByID reporterUserID)) (\<lambda>ou.
     bindT (requireT ou (Sentinel ErrUserNotFound)) (\<lambda>user.
     bindT (ensureT (ForbidGuest (Some user))) (\<lambda>_.
     bindT nowT (\<lambda>now.
     bindT (ensureT (CanWrite now (Some user))) (\<lambda>_.
     bindT (ensureT (RequireVerifiedEmail (Some user))) (\<lambda>_.
     bindT (resolveVisibleReportTargetIDTx user targetType targetUUID) (\<lambda>targetID.
     bindT nowT (\<lambda>created.
     bindT (saveReport (NewReport created targetType targetID reporterUserID reasonCode reasonDetail)) (\<lambda>saved.
     bindT nowT (\<lambda>changed.
     bindT (DispatchDomainActions
              [NewReportChanged changed ''created'' (report_ID saved) (ReportStatus_string ReportStatusPending)]) (\<lambda>_.
       returnT (report_ID saved))))))))))))"

definition CreateReport ::
  "env \<Rightarrow> nat \<Rightarrow> int \<Rightarrow> string \<Rightarrow> string \<Rightarrow> string \<Rightarrow> string \<Rightarrow> store \<Rightarrow>
    ((go_error + int) \<times> store) option" where
  "CreateReport e tick reporterUserID targetType targetUUID reasonCode reasonDetail s =
     (if TrimSpace targetUUID = [] then Some (Inl (Sentinel ErrInvalidInput), s)
      else case ParseReportTargetType targetType of
        None \<Rightarrow> Some (Inl (Sentinel ErrInvalidInput), s)
      | Some ty \<Rightarrow>
          (case ParseReportReasonCode reasonCode of
             None \<Rightarrow> Some (Inl (Sentinel ErrInvalidInput), s)
           | Some code \<Rightarrow>
               if maxReportReasonDetailLength < length (TrimSpace reasonDetail)
               then Some (Inl (Sentinel ErrInvalidInput), s)
               else WithinTransaction e tick
                      (CreateReport_tx reporterUserID ty (TrimSpace targetUUID) code (TrimSpace reasonDetail)) s))"

definition ResolveReport_tx :: "int \<Rightarrow> int \<Rightarrow> ReportStatus \<Rightarrow> string \<Rightarrow> unit action" where
  "ResolveReport_tx adminID reportID status resolutionNote =
     bindT (RequireAdminUser adminID ''resolve report'') (\<lambda>_.
     bindT (wrapped ''select report by id for resolve report'' (reportTx_SelectByID reportID)) (\<lambda>ox.
     bindT (requireT ox (Sentinel ErrReportNotFound)) (\<lambda>report.
     bindT nowT (\<lambda>now.
       case Resolve now status resolutionNote adminID report of
         (resolved, report') \<Rightarrow>
           if \<not> resolved then throwT (Sentinel ErrInvalidInput)
           else bindT (wrapped ''update report for resolve'' (reportTx_Update report')) (\<lambda>_.
                bindT nowT (\<lambda>changed.
                  DispatchDomainActions
                    [NewReportChanged changed ''resolved'' (report_ID report')
                       (ReportStatus_string (report_Status report'))]))))))"

definition ResolveReport ::
  "env \<Rightarrow> nat \<Rightarrow> int \<Rightarrow> int \<Rightarrow> string \<Rightarrow> string \<Rightarrow> store \<Rightarrow> ((go_error + unit) \<times> store) option" where
  "ResolveReport e tick adminID reportID status resolutionNote s =
     (if reportID \<le> 0 then Some (Inl (Sentinel ErrInvalidInput), s)
      else case ParseReportStatus status of
        None \<Rightarrow> Some (Inl (Sentinel ErrInvalidInput), s)
      | Some entityStatus \<Rightarrow>
          if entityStatus \<noteq> ReportStatusAccepted \<and> entityStatus \<noteq> ReportStatusRejected
          then Some (Inl (Sentinel ErrInvalidInput), s)
          else if maxReportResolutionNoteLength < length (TrimSpace resolutionNote)
          then Some (Inl (Sentinel ErrInvalidInput), s)
          else WithinTransaction e tick
                 (ResolveReport_tx adminID reportID entityStatus (TrimSpace resolutionNote)) s)"

section \<open>The list\<close>

record report_view =
  rv_ID :: int
  rv_TargetType :: string
  rv_TargetUUID :: string
  rv_ReporterUUID :: string
  rv_ReasonCode :: string
  rv_ReasonDetail :: string
  rv_Status :: string
  rv_ResolutionNote :: string
  rv_ResolvedByUUID :: "string option"
  rv_ResolvedAt :: "time option"
  rv_CreatedAt :: time
  rv_UpdatedAt :: time

record report_list =
  rl_Reports :: "report_view list"
  rl_Limit :: int
  rl_LastID :: int
  rl_HasMore :: bool
  rl_NextLastID :: "int option"

definition reportTargetUUID ::
  "report \<Rightarrow> (int \<times> string) list \<Rightarrow> (int \<times> string) list \<Rightarrow> go_error + string" where
  "reportTargetUUID report postUUIDs commentUUIDs =
     (case report_TargetType report of
        ReportTargetPost \<Rightarrow>
          (case map_of postUUIDs (report_TargetID report) of
             None \<Rightarrow> Inl (WrapRepository ''select post uuids by ids including deleted''
                       (Some (External ''report target post not found'' None)))
           | Some uuid \<Rightarrow> Inr uuid)
      | ReportTargetComment \<Rightarrow>
          (case map_of commentUUIDs (report_TargetID report) of
             None \<Rightarrow> Inl (WrapRepository ''select comment uuids by ids including deleted''
                       (Some (External ''report target comment not found'' None)))
           | Some uuid \<Rightarrow> Inr uuid))"

definition report_view_of :: "report \<Rightarrow> string \<Rightarrow> string \<Rightarrow> (int \<times> string) list \<Rightarrow> report_view" where
  "report_view_of report targetUUID reporterUUID userUUIDs =
     \<lparr>rv_ID = report_ID report, rv_TargetType = ReportTargetType_string (report_TargetType report),
      rv_TargetUUID = targetUUID, rv_ReporterUUID = reporterUUID,
      rv_ReasonCode = ReportReasonCode_string (report_ReasonCode report),
      rv_ReasonDetail = report_ReasonDetail report,
      rv_Status = ReportStatus_string (report_Status report),
      rv_ResolutionNote = report_ResolutionNote report,
      rv_ResolvedByUUID = map_option (\<lambda>i. case map_of userUUIDs i of None \<Rightarrow> [] | Some u \<Rightarrow> u)
        (report_ResolvedBy report),
      rv_ResolvedAt = report_ResolvedAt report, rv_CreatedAt = report_CreatedAt report,
      rv_UpdatedAt = report_UpdatedAt report\<rparr>"

fun report_views ::
  "report list \<Rightarrow> (int \<times> string) list \<Rightarrow> (int \<times> string) list \<Rightarrow> (int \<times> string) list \<Rightarrow>
    go_error + report_view list" where
  "report_views [] userUUIDs postUUIDs commentUUIDs = Inr []"
| "report_views (report # reports) userUUIDs postUUIDs commentUUIDs =
     (case map_of userUUIDs (report_ReporterUserID report) of
        None \<Rightarrow> Inl (WrapRepository ''select users by ids including deleted''
                  (Some (External ''reporter not found'' None)))
      | Some reporterUUID \<Rightarrow>
          (case reportTargetUUID report postUUIDs commentUUIDs of
             Inl err \<Rightarrow> Inl err
           | Inr targetUUID \<Rightarrow>
               map_sum id ((#) (report_view_of report targetUUID reporterUUID userUUIDs))
                 (report_views reports userUUIDs postUUIDs commentUUIDs)))"

definition reportsFromEntities :: "env \<Rightarrow> report list \<Rightarrow> store \<Rightarrow> go_error + report_view list" where
  "reportsFromEntities e reports s =
     (if reports = [] then Inr []
      else
        let userIDs = concat (map (\<lambda>x. report_ReporterUserID x #
                        (case report_ResolvedBy x of None \<Rightarrow> [] | Some i \<Rightarrow> [i])) reports);
            postIDs = map report_TargetID (filter (\<lambda>x. report_TargetType x = ReportTargetPost) reports);
            commentIDs = map report_TargetID (filter (\<lambda>x. report_TargetType x = ReportTargetComment) reports)
        in case UserUUIDsByIDs e userIDs s of
             Inl err \<Rightarrow> Inl err
           | Inr userUUIDs \<Rightarrow>
               (case read_repo e ''select post uuids by ids including deleted''
                       (SelectPostUUIDsByIDsIncludingDeleted postIDs (st_posts s)) of
                  Inl err \<Rightarrow> Inl err
                | Inr postUUIDs \<Rightarrow>
                    (case read_repo e ''select comment uuids by ids including deleted''
                            (selectCommentUUIDsByIDsIncludingDeleted commentIDs (st_comments s)) of
                       Inl err \<Rightarrow> Inl err
                     | Inr commentUUIDs \<Rightarrow> report_views reports userUUIDs postUUIDs commentUUIDs)))"

text \<open>The views are read with nothing written in the transaction, so no lock is held.\<close>

definition viewsT :: "report list \<Rightarrow> report_view list action" where
  "viewsT items = (\<lambda>e t. Some (reportsFromEntities e items (tx_store t), t))"

definition GetReports_tx :: "int \<Rightarrow> ReportStatus option \<Rightarrow> int \<Rightarrow> int \<Rightarrow> report_list action" where
  "GetReports_tx adminID status limit lastID =
     bindT (RequireAdminUser adminID ''get reports'') (\<lambda>_.
     bindT (wrapped ''select report list'' (reportTx_SelectList status (limit + 1) lastID)) (\<lambda>items.
       let hasMore = limit < int (length items);
           shown = (if hasMore then take (nat limit) items else items);
           nextLastID = (if hasMore \<and> 0 < length shown then Some (report_ID (last shown)) else None)
       in bindT (viewsT shown) (\<lambda>views.
            returnT \<lparr>rl_Reports = views, rl_Limit = limit, rl_LastID = lastID, rl_HasMore = hasMore,
                     rl_NextLastID = nextLastID\<rparr>)))"

definition GetReports ::
  "env \<Rightarrow> nat \<Rightarrow> int \<Rightarrow> string option \<Rightarrow> int \<Rightarrow> int \<Rightarrow> store \<Rightarrow> ((go_error + report_list) \<times> store) option" where
  "GetReports e tick adminID status limit lastID s =
     (case RequirePositiveLimit limit of
        Some err \<Rightarrow> Some (Inl err, s)
      | None \<Rightarrow>
          (case (case status of None \<Rightarrow> Some None | Some raw \<Rightarrow> map_option Some (ParseReportStatus raw)) of
             None \<Rightarrow> Some (Inl (Sentinel ErrInvalidInput), s)
           | Some entityStatus \<Rightarrow> WithinTransaction e tick (GetReports_tx adminID entityStatus limit lastID) s))"

section \<open>Failure and blocking\<close>

lemma atomic_conceal [atomic_intros]: "atomic m \<Longrightarrow> atomic (conceal_as sent m)"
  unfolding atomic_def conceal_as_def by (fastforce split: option.splits sum.splits)

lemma returns_conceal [returns_intros]: "returns m \<Longrightarrow> returns (conceal_as sent m)"
  unfolding returns_def conceal_as_def by (auto split: option.splits sum.splits)

lemma saveReport_atomic [atomic_intros]: "atomic (saveReport report)"
proof -
  have "atomic (reportTx_Save report)" unfolding reportTx_Save_def by (intro atomic_intros)
  then show ?thesis unfolding atomic_def saveReport_def by (fastforce split: option.splits sum.splits)
qed

lemma saveReport_returns [returns_intros]: "returns (saveReport report)"
proof -
  have "returns (reportTx_Save report)" unfolding reportTx_Save_def by (intro returns_intros)
  then show ?thesis unfolding returns_def saveReport_def by (auto split: option.splits sum.splits)
qed

lemma viewsT_flow [atomic_intros, returns_intros]: "atomic (viewsT items)" "returns (viewsT items)"
  by (simp_all add: atomic_def returns_def viewsT_def)

lemma report_tx_atomic [atomic_intros]:
  "atomic (resolveVisibleReportTargetIDTx user ty uuid)"
  "atomic (CreateReport_tx reporter ty uuid code detail)"
  "atomic (ResolveReport_tx adminID i status note)"
  "atomic (GetReports_tx adminID ostatus limit lastID)"
  unfolding CreateReport_tx_def ResolveReport_tx_def GetReports_tx_def resolveVisibleReportTargetIDTx_def
    userTx_SelectUserByID_def postTx_SelectPostByUUID_def commentTx_SelectCommentByUUID_def
    reportTx_SelectByID_def reportTx_Update_def reportTx_SelectList_def Let_def
  by (auto split: ReportTargetType.split intro!: atomic_intros)

lemma report_tx_returns [returns_intros]:
  "returns (resolveVisibleReportTargetIDTx user ty uuid)"
  "returns (CreateReport_tx reporter ty uuid code detail)"
  "returns (ResolveReport_tx adminID i status note)"
  "returns (GetReports_tx adminID ostatus limit lastID)"
  unfolding CreateReport_tx_def ResolveReport_tx_def GetReports_tx_def resolveVisibleReportTargetIDTx_def
    userTx_SelectUserByID_def postTx_SelectPostByUUID_def commentTx_SelectCommentByUUID_def
    reportTx_SelectByID_def reportTx_Update_def reportTx_SelectList_def Let_def
  by (auto split: ReportTargetType.split intro!: returns_intros)

section \<open>What a successful command did\<close>

lemma conceal_run [tx_simps]:
  "conceal_as sent m e t = Some (Inr a, t') \<longleftrightarrow> m e t = Some (Inr a, t')"
  by (auto simp: conceal_as_def split: option.splits sum.splits)

lemma saveReport_run [tx_simps]:
  "saveReport x e t = Some (Inr saved, t') \<longleftrightarrow>
    env_fault e ''save report'' = None \<and> reportTx_Save x e t = Some (Inr saved, t')"
  by (auto simp: saveReport_def split: option.splits sum.splits)

definition report_target :: "store \<Rightarrow> user \<Rightarrow> ReportTargetType \<Rightarrow> string \<Rightarrow> int \<Rightarrow> bool" where
  "report_target s user ty targetUUID targetID \<longleftrightarrow>
     (case ty of
        ReportTargetPost \<Rightarrow>
          (\<exists>p q. selectPostByUUID targetUUID (st_posts s) = Some p \<and> targetID = post_ID p \<and>
             selectPostByID targetID (st_posts s) = Some q \<and> board_visible s (Some user) (post_BoardID q))
      | ReportTargetComment \<Rightarrow>
          (\<exists>c d p. selectCommentByUUID targetUUID (st_comments s) = Some c \<and> targetID = comment_ID c \<and>
             selectCommentByID targetID (st_comments s) = Some d \<and>
             selectPostByID (comment_PostID d) (st_posts s) = Some p \<and>
             board_visible s (Some user) (post_BoardID p)))"

lemma resolveVisibleReportTargetIDTx_run:
  "resolveVisibleReportTargetIDTx user ty uuid e t = Some (Inr targetID, t') \<Longrightarrow>
    report_target (tx_store t) user ty uuid targetID \<and> t' = t"
  by (cases ty) (auto simp: resolveVisibleReportTargetIDTx_def report_target_def
      postTx_SelectPostByUUID_def commentTx_SelectCommentByUUID_def tx_simps)

definition may_report :: "store \<Rightarrow> int \<Rightarrow> ReportTargetType \<Rightarrow> string \<Rightarrow> int \<Rightarrow> bool" where
  "may_report s reporterUserID ty targetUUID targetID \<longleftrightarrow>
     (\<exists>user now. selectUserByID reporterUserID (st_users s) = Some user \<and> \<not> IsGuest user \<and>
        \<not> IsSuspended now user \<and> (IsAdmin user \<or> user_Email user \<noteq> [] \<and> IsEmailVerified user) \<and>
        report_target s user ty targetUUID targetID)"

lemma CreateReport_tx_run:
  assumes "CreateReport_tx reporter ty uuid code detail e t = Some (Inr i, t')"
  defines "s \<equiv> tx_store t"
  shows "\<exists>targetID created saved reports' changed.
    may_report s reporter ty uuid targetID \<and>
    Report_save (NewReport created ty targetID reporter code detail) (st_reports s) = (Inr saved, reports') \<and>
    i = report_ID saved \<and>
    queued e [NewReportChanged changed ''created'' i ''pending''] s (tx_store t') \<and>
    tx_store t' = s\<lparr>st_reports := reports', st_outbox := st_outbox (tx_store t')\<rparr>"
proof -
  let ?t = "t\<lparr>tx_tick := Suc (tx_tick t)\<rparr>"
  from assms(1) obtain user targetID saved t1 t2 where
    u: "selectUserByID reporter (st_users s) = Some user" "\<not> IsGuest user"
      "\<not> IsSuspended (env_now e (tx_tick t)) user"
      "IsAdmin user \<or> user_Email user \<noteq> [] \<and> IsEmailVerified user"
    and x: "resolveVisibleReportTargetIDTx user ty uuid e ?t = Some (Inr targetID, t2)"
    and sv: "reportTx_Save (NewReport (env_now e (tx_tick t2)) ty targetID reporter code detail) e
        (t2\<lparr>tx_tick := Suc (tx_tick t2)\<rparr>) = Some (Inr saved, t1)"
    and dis: "DispatchDomainActions [NewReportChanged (env_now e (tx_tick t1)) ''created'' (report_ID saved) ''pending''] e
        (t1\<lparr>tx_tick := Suc (tx_tick t1)\<rparr>) = Some (Inr (), t')"
    and i: "i = report_ID saved"
    unfolding CreateReport_tx_def userTx_SelectUserByID_def s_def
    by (clarsimp simp: tx_simps)
  have v: "may_report s reporter ty uuid targetID"
    using u resolveVisibleReportTargetIDTx_run [OF x] unfolding may_report_def s_def by auto
  have t2: "tx_store t2 = s" using resolveVisibleReportTargetIDTx_run [OF x] by (simp add: s_def)
  from sv obtain reports' where
    r: "Report_save (NewReport (env_now e (tx_tick t2)) ty targetID reporter code detail) (st_reports s) = (Inr saved, reports')"
    and t1: "tx_store t1 = s\<lparr>st_reports := reports'\<rparr>"
    by (auto simp: reportTx_Save_def tx_simps t2)
  have "queued e [NewReportChanged (env_now e (tx_tick t1)) ''created'' i ''pending''] s (tx_store t')"
    unfolding i by (rule Dispatch_queued(1) [OF dis]) (simp add: t1)
  moreover have "tx_store t' = s\<lparr>st_reports := reports', st_outbox := st_outbox (tx_store t')\<rparr>"
    using Dispatch_queued(2) [OF dis refl] by (simp add: t1)
  ultimately show ?thesis using v r i by blast
qed

lemma ResolveReport_tx_run:
  assumes "ResolveReport_tx adminID i status note e t = Some (Inr u, t')"
  defines "s \<equiv> tx_store t"
  shows "\<exists>admin report now changed.
    selectUserByID adminID (st_users s) = Some admin \<and> IsAdmin admin \<and>
    db_get (st_reports s) i = Some report \<and> fst (Resolve now status note adminID report) \<and>
    queued e [NewReportChanged changed ''resolved'' (report_ID report) (ReportStatus_string status)]
      s (tx_store t') \<and>
    tx_store t' = s\<lparr>st_reports := Report_update (snd (Resolve now status note adminID report)) (st_reports s),
                     st_outbox := st_outbox (tx_store t')\<rparr>"
proof -
  let ?now = "env_now e (tx_tick t)"
  let ?t1 = "\<lambda>x. captureReport (t\<lparr>tx_tick := Suc (tx_tick t)\<rparr>)
    \<lparr>tx_store := (tx_store t)\<lparr>st_reports := Report_update x (st_reports (tx_store t))\<rparr>\<rparr>"
  let ?x = "\<lambda>report. snd (Resolve ?now status note adminID report)"
  from assms(1) obtain admin report where
    a: "selectUserByID adminID (st_users s) = Some admin" "IsAdmin admin"
    and r: "db_get (st_reports s) i = Some report"
    and fx: "fst (Resolve ?now status note adminID report)"
    and dis0: "DispatchDomainActions
        [NewReportChanged (env_now e (tx_tick (?t1 (?x report)))) ''resolved'' (report_ID (?x report))
          (ReportStatus_string (report_Status (?x report)))] e
        ((?t1 (?x report))\<lparr>tx_tick := Suc (tx_tick (?t1 (?x report)))\<rparr>) = Some (Inr (), t')"
    unfolding ResolveReport_tx_def reportTx_SelectByID_def Report_selectByID_def reportTx_Update_def s_def
    by (auto simp: tx_simps case_prod_beta split: if_splits)
  define t1 where "t1 = ?t1 (?x report)"
  have t1: "tx_store t1 = s\<lparr>st_reports := Report_update (snd (Resolve ?now status note adminID report)) (st_reports s)\<rparr>"
    by (simp add: t1_def s_def)
  have dis: "DispatchDomainActions
        [NewReportChanged (env_now e (tx_tick t1)) ''resolved''
          (report_ID (snd (Resolve ?now status note adminID report)))
          (ReportStatus_string (report_Status (snd (Resolve ?now status note adminID report))))] e
        (t1\<lparr>tx_tick := Suc (tx_tick t1)\<rparr>) = Some (Inr (), t')"
    using dis0 by (simp add: t1_def)
  have st: "report_Status (snd (Resolve ?now status note adminID report)) = status"
    "report_ID (snd (Resolve ?now status note adminID report)) = report_ID report"
    using fx by (auto simp: Resolve_def split: if_splits)
  have "queued e [NewReportChanged (env_now e (tx_tick t1)) ''resolved'' (report_ID report)
      (ReportStatus_string status)] s (tx_store t')"
    by (rule Dispatch_queued(1) [OF dis [unfolded st]]) (simp add: t1)
  moreover have "tx_store t' = s\<lparr>st_reports := Report_update (snd (Resolve ?now status note adminID report)) (st_reports s),
                     st_outbox := st_outbox (tx_store t')\<rparr>"
    using Dispatch_queued(2) [OF dis refl] by (simp add: t1)
  ultimately show ?thesis using a r fx by blast
qed

section \<open>Properties\<close>

lemma CreateReport_committed:
  assumes "CreateReport e tick reporter targetType targetUUID reasonCode detail s = Some (Inr i, s')"
  shows "\<exists>ty code t. ParseReportTargetType targetType = Some ty \<and> ParseReportReasonCode reasonCode = Some code \<and>
    length (TrimSpace detail) \<le> 1000 \<and>
    CreateReport_tx reporter ty (TrimSpace targetUUID) code (TrimSpace detail) e (begin_tx tick s) = Some (Inr i, t) \<and>
    s' = tx_store t"
  using assms atomic_commit [OF report_tx_atomic(2)]
  by (auto simp: CreateReport_def maxReportReasonDetailLength_def split: if_splits option.splits)

lemma ResolveReport_committed:
  assumes "ResolveReport e tick adminID i status note s = Some (Inr u, s')"
  shows "\<exists>st t. ParseReportStatus status = Some st \<and> (st = ReportStatusAccepted \<or> st = ReportStatusRejected) \<and>
    length (TrimSpace note) \<le> 1000 \<and>
    ResolveReport_tx adminID i st (TrimSpace note) e (begin_tx tick s) = Some (Inr u, t) \<and> s' = tx_store t"
  using assms atomic_commit [OF report_tx_atomic(3)]
  by (auto simp: ResolveReport_def maxReportResolutionNoteLength_def split: if_splits option.splits)

text \<open>
  Filing a report. The reporter is a verified user (or an administrator), neither a guest
  nor suspended, the target is visible to them, and they had not reported it before. The store
  gains one pending report under a fresh key, and nothing else but the queued event changes.
\<close>

theorem CreateReport_effect:
  assumes "CreateReport e tick reporter targetType targetUUID reasonCode detail s = Some (Inr i, s')"
    and "reports_ok (st_reports s)"
  shows "\<exists>ty code targetID now changed.
    ParseReportTargetType targetType = Some ty \<and> ParseReportReasonCode reasonCode = Some code \<and>
    may_report s reporter ty (TrimSpace targetUUID) targetID \<and>
    selectByReporterAndTarget reporter ty targetID (st_reports s) = None \<and>
    db_get (st_reports s) i = None \<and>
    db_get (st_reports s') = (db_get (st_reports s))
      (i \<mapsto> (NewReport now ty targetID reporter code (TrimSpace detail))\<lparr>report_ID := i\<rparr>) \<and>
    reports_ok (st_reports s') \<and> queued e [NewReportChanged changed ''created'' i ''pending''] s s' \<and>
    s' = s\<lparr>st_reports := st_reports s', st_outbox := st_outbox s'\<rparr>"
proof -
  from CreateReport_committed [OF assms(1)] obtain ty code t where
    p: "ParseReportTargetType targetType = Some ty" "ParseReportReasonCode reasonCode = Some code"
    and t: "CreateReport_tx reporter ty (TrimSpace targetUUID) code (TrimSpace detail) e (begin_tx tick s) =
      Some (Inr i, t)" and s': "s' = tx_store t" by blast
  from CreateReport_tx_run [OF t] obtain targetID now saved reports' changed where
    v: "may_report s reporter ty (TrimSpace targetUUID) targetID"
    and sv: "Report_save (NewReport now ty targetID reporter code (TrimSpace detail)) (st_reports s) =
      (Inr saved, reports')" and i: "i = report_ID saved"
    and q: "queued e [NewReportChanged changed ''created'' i ''pending''] s s'"
    and eq: "s' = s\<lparr>st_reports := reports', st_outbox := st_outbox s'\<rparr>"
    unfolding s' begin_fields by blast
  have ok: "db_ok report_ID (st_reports s)" using assms(2) by (simp add: reports_ok_def)
  note sd = Report_save_saved [OF ok sv]
  have r: "st_reports s' = reports'" by (subst eq) simp
  have i': "i = db_ID (st_reports s) + 1" using sd(1) i by simp
  have "selectByReporterAndTarget reporter ty targetID (st_reports s) = None"
    using sd(4) db_get_row [OF ok]
    by (fastforce simp: selectByReporterAndTarget_def find_None_iff sameReport_def NewReport_def)
  moreover have "db_get (st_reports s) i = None" using db_fresh [OF ok] i' by simp
  moreover have "db_get (st_reports s') = (db_get (st_reports s))
      (i \<mapsto> (NewReport now ty targetID reporter code (TrimSpace detail))\<lparr>report_ID := i\<rparr>)"
    using sd(1,2) i' r by simp
  moreover have "reports_ok (st_reports s')" unfolding r by (rule Report_save_ok [OF assms(2) sv])
  moreover have "s' = s\<lparr>st_reports := st_reports s', st_outbox := st_outbox s'\<rparr>"
    using eq r by simp
  ultimately show ?thesis using p v q by blast
qed

lemma may_report_unique:
  "may_report s u ty uuid i \<Longrightarrow> may_report s' u' ty uuid j \<Longrightarrow>
    st_posts s' = st_posts s \<Longrightarrow> st_comments s' = st_comments s \<Longrightarrow> i = j"
  by (cases ty) (auto simp: may_report_def report_target_def)

text \<open>
  Nobody reports the same target twice. Once a report has been filed, no later call by the
  same user for the same target can succeed, whatever reason it gives, as long as posts,
  comments and reports are as the first call left them; the second call answers with an error.
\<close>

theorem CreateReport_once:
  assumes "CreateReport e tick reporter targetType targetUUID reasonCode detail s = Some (Inr i, s1)"
    and "reports_ok (st_reports s)"
    and "st_posts s2 = st_posts s1" "st_comments s2 = st_comments s1" "st_reports s2 = st_reports s1"
  shows "\<exists>err s3. CreateReport e' tick' reporter targetType targetUUID reasonCode' detail' s2 = Some (Inl err, s3)"
proof -
  from CreateReport_effect [OF assms(1,2)] obtain ty code targetID now where
    p: "ParseReportTargetType targetType = Some ty"
    and v: "may_report s reporter ty (TrimSpace targetUUID) targetID"
    and g: "db_get (st_reports s1) = (db_get (st_reports s))
      (i \<mapsto> (NewReport now ty targetID reporter code (TrimSpace detail))\<lparr>report_ID := i\<rparr>)"
    and ok: "reports_ok (st_reports s1)"
    and eq: "s1 = s\<lparr>st_reports := st_reports s1, st_outbox := st_outbox s1\<rparr>"
    by blast
  have same: "st_posts s2 = st_posts s" "st_comments s2 = st_comments s"
    unfolding assms(3,4) by (subst eq; simp)+
  have no: "CreateReport e' tick' reporter targetType targetUUID reasonCode' detail' s2 \<noteq> Some (Inr j, s3)"
    for j s3
  proof
    assume c: "CreateReport e' tick' reporter targetType targetUUID reasonCode' detail' s2 = Some (Inr j, s3)"
    from CreateReport_effect [OF c] ok assms(5) obtain ty' targetID' where
      p': "ParseReportTargetType targetType = Some ty'"
      and v': "may_report s2 reporter ty' (TrimSpace targetUUID) targetID'"
      and n: "selectByReporterAndTarget reporter ty' targetID' (st_reports s2) = None"
      by auto
    have t: "ty' = ty" "targetID' = targetID"
      using p p' may_report_unique [OF v] v' same by auto
    have "db_get (st_reports s1) i = Some ((NewReport now ty targetID reporter code (TrimSpace detail))\<lparr>report_ID := i\<rparr>)"
      using g by simp
    then have "(NewReport now ty targetID reporter code (TrimSpace detail))\<lparr>report_ID := i\<rparr> \<in> set (db_rows (st_reports s1))"
      using ok db_get_row [of report_ID "st_reports s1"] by (auto simp: reports_ok_def)
    then have "\<exists>x \<in> set (db_rows (st_reports s1)). report_ReporterUserID x = reporter \<and>
        report_TargetType x = ty \<and> report_TargetID x = targetID"
      by (rule bexI [rotated]) (simp add: NewReport_def)
    with n show False
      unfolding t assms(5) selectByReporterAndTarget_def find_None_iff by blast
  qed
  have "CreateReport e' tick' reporter targetType targetUUID reasonCode' detail' s2 \<noteq> None"
    using returns_transaction [OF report_tx_returns(2)]
    by (auto simp: CreateReport_def split: option.splits)
  with no show ?thesis by (metis (no_types) not_None_eq prod.exhaust sum.exhaust)
qed

text \<open>
  Resolving a report. Only an administrator resolves, only a pending report, and only to
  accepted or rejected; the report then carries the decision, the trimmed note and who made it.
  A second resolution of the same report always answers with an error.
\<close>

theorem ResolveReport_effect:
  assumes "ResolveReport e tick adminID i status note s = Some (Inr u, s')"
    and "reports_ok (st_reports s)"
  shows "\<exists>admin report st now changed.
    selectUserByID adminID (st_users s) = Some admin \<and> IsAdmin admin \<and>
    db_get (st_reports s) i = Some report \<and> report_Status report = ReportStatusPending \<and>
    ParseReportStatus status = Some st \<and> st \<noteq> ReportStatusPending \<and>
    db_get (st_reports s') = (db_get (st_reports s))
      (i \<mapsto> report\<lparr>report_Status := st, report_ResolutionNote := TrimSpace note,
        report_ResolvedBy := Some adminID, report_ResolvedAt := Some now, report_UpdatedAt := now\<rparr>) \<and>
    reports_ok (st_reports s') \<and>
    queued e [NewReportChanged changed ''resolved'' i (ReportStatus_string st)] s s' \<and>
    (\<exists>err. ResolveReport e' tick' adminID' i status' note' s' = Some (Inl err, s'))"
proof -
  from ResolveReport_committed [OF assms(1)] obtain st t where
    p: "ParseReportStatus status = Some st" "st = ReportStatusAccepted \<or> st = ReportStatusRejected"
    and t: "ResolveReport_tx adminID i st (TrimSpace note) e (begin_tx tick s) = Some (Inr u, t)"
    and s': "s' = tx_store t" by blast
  from ResolveReport_tx_run [OF t] obtain admin report now changed where
    a: "selectUserByID adminID (st_users s) = Some admin" "IsAdmin admin"
    and r: "db_get (st_reports s) i = Some report" "fst (Resolve now st (TrimSpace note) adminID report)"
    and q: "queued e [NewReportChanged changed ''resolved'' (report_ID report) (ReportStatus_string st)] s s'"
    and eq: "s' = s\<lparr>st_reports := Report_update (snd (Resolve now st (TrimSpace note) adminID report)) (st_reports s),
                     st_outbox := st_outbox s'\<rparr>"
    unfolding s' begin_fields by blast
  let ?new = "snd (Resolve now st (TrimSpace note) adminID report)"
  have ok: "db_ok report_ID (st_reports s)" using assms(2) by (simp add: reports_ok_def)
  have i: "report_ID report = i" using db_get_bounds [OF ok r(1)] by simp
  have new: "?new = report\<lparr>report_Status := st, report_ResolutionNote := TrimSpace note,
        report_ResolvedBy := Some adminID, report_ResolvedAt := Some now, report_UpdatedAt := now\<rparr>"
    and pend: "report_Status report = ReportStatusPending"
    using r(2) by (auto simp: Resolve_def split: if_splits)
  have x: "st_reports s' = Report_update ?new (st_reports s)" by (subst eq) simp
  have g: "db_get (st_reports s') = (db_get (st_reports s))(i \<mapsto> ?new)"
    unfolding x using r(1) i new by (simp add: Report_update_def)
  have same: "sameReport report ?new" using Resolve_same [of now st "TrimSpace note" adminID report]
    by (metis prod.collapse)
  have inv: "reports_ok (st_reports s')"
    unfolding x using Report_update_ok [OF assms(2), of ?new report] r(1) i new same by simp
  have no: "ResolveReport e' tick' adminID' i status' note' s' \<noteq> Some (Inr v, s3)" for v s3
  proof
    assume "ResolveReport e' tick' adminID' i status' note' s' = Some (Inr v, s3)"
    from ResolveReport_committed [OF this] obtain st' t' where
      "ResolveReport_tx adminID' i st' (TrimSpace note') e' (begin_tx tick' s') = Some (Inr v, t')" by blast
    from ResolveReport_tx_run [OF this] g new p(2) show False
      by (auto simp: Resolve_def split: if_splits)
  qed
  have "ResolveReport e' tick' adminID' i status' note' s' \<noteq> None"
    using returns_transaction [OF report_tx_returns(3)]
    by (auto simp: ResolveReport_def split: option.splits)
  with no obtain err s3 where e: "ResolveReport e' tick' adminID' i status' note' s' = Some (Inl err, s3)"
    by (metis (no_types) not_None_eq prod.exhaust sum.exhaust)
  moreover have "s3 = s'"
    using e atomic_rollback [OF report_tx_atomic(3)]
    by (auto simp: ResolveReport_def split: if_splits option.splits)
  ultimately show ?thesis
    using a r(1) pend p g new inv q i by auto
qed

section \<open>The pages of the list\<close>

lemma report_views_ids:
  "report_views xs us ps cs = Inr vs \<Longrightarrow> map rv_ID vs = map report_ID xs"
proof (induction xs arbitrary: vs)
  case (Cons x xs)
  then obtain ws v where "report_views xs us ps cs = Inr ws" "vs = v # ws" "rv_ID v = report_ID x"
    by (cases "report_views xs us ps cs") (auto simp: report_view_of_def split: option.splits sum.splits)
  with Cons.IH show ?case by simp
qed simp

lemma reportsFromEntities_ids:
  "reportsFromEntities e xs s = Inr vs \<Longrightarrow> map rv_ID vs = map report_ID xs"
  by (auto simp: reportsFromEntities_def Let_def report_views_ids split: if_splits sum.splits)

lemma GetReports_committed:
  assumes "GetReports e tick adminID status limit lastID s = Some (Inr page, s')"
  shows "\<exists>ost admin. 1 \<le> limit \<and> limit \<le> MaxPageLimit \<and>
    (case status of None \<Rightarrow> ost = None | Some raw \<Rightarrow> ost = ParseReportStatus raw \<and> ost \<noteq> None) \<and>
    selectUserByID adminID (st_users s) = Some admin \<and> IsAdmin admin \<and> s' = s \<and>
    (let items = Report_selectList ost (limit + 1) lastID (st_reports s);
         shown = take (nat limit) items; hasMore = limit < int (length items)
     in map rv_ID (rl_Reports page) = map report_ID shown \<and> rl_HasMore page = hasMore \<and>
        rl_NextLastID page = (if hasMore then Some (report_ID (last shown)) else None))"
proof -
  from assms obtain ost where
    lim: "1 \<le> limit" "limit \<le> MaxPageLimit"
    and o: "case status of None \<Rightarrow> ost = None | Some raw \<Rightarrow> ost = ParseReportStatus raw \<and> ost \<noteq> None"
    and w: "WithinTransaction e tick (GetReports_tx adminID ost limit lastID) s = Some (Inr page, s')"
    by (auto simp: GetReports_def RequirePositiveLimit_def dest: sym split: option.splits if_splits)
  from w [unfolded atomic_commit [OF report_tx_atomic(4)]] obtain t where
    t: "GetReports_tx adminID ost limit lastID e (begin_tx tick s) = Some (Inr page, t)"
    and s': "s' = tx_store t" by blast
  let ?items = "Report_selectList ost (limit + 1) lastID (st_reports s)"
  let ?shown = "if limit < int (length ?items) then take (nat limit) ?items else ?items"
  from t obtain admin views where
    a: "selectUserByID adminID (st_users s) = Some admin" "IsAdmin admin"
    and v: "reportsFromEntities e ?shown s = Inr views"
    and st: "tx_store t = s"
    and pg: "page = \<lparr>rl_Reports = views, rl_Limit = limit, rl_LastID = lastID,
        rl_HasMore = limit < int (length ?items),
        rl_NextLastID = (if limit < int (length ?items) \<and> 0 < length ?shown
                         then Some (report_ID (last ?shown)) else None)\<rparr>"
    by (auto simp: GetReports_tx_def reportTx_SelectList_def viewsT_def tx_simps Let_def cong: if_cong)
  have sh: "?shown = take (nat limit) ?items" using lim by simp
  have "0 < length ?shown" if "limit < int (length ?items)" using that lim by (simp add: sh)
  then show ?thesis
    using lim o a st s' reportsFromEntities_ids [OF v] unfolding Let_def pg sh
    by (intro exI [of _ ost] exI [of _ admin]) simp
qed

lemma last_take_nth: "0 < n \<Longrightarrow> n \<le> length xs \<Longrightarrow> last (take n xs) = xs ! (n - 1)"
  by (subst last_conv_nth) (auto simp: min_def)

text \<open>
  A page of the report list. Only an administrator gets one; with \<open>rest\<close> the reports of the
  wanted status, pending first and each group newest first, after the report named by the
  cursor (all of them for the cursor 0), the page shows the first \<open>limit\<close> of \<open>rest\<close>, says whether
  more remain, and names the last one shown as the next cursor. Reading changes nothing.
\<close>

theorem GetReports_page:
  assumes "GetReports e tick adminID status limit lastID s = Some (Inr page, s')"
    and "reports_ok (st_reports s)"
    and "ranked = ranked_reports (case status of None \<Rightarrow> None | Some raw \<Rightarrow> ParseReportStatus raw) (st_reports s)"
    and "lastID = 0 \<and> rest = ranked \<or>
      (\<exists>n < length ranked. lastID = report_ID (ranked ! n) \<and> rest = drop (Suc n) ranked)"
  shows "sorted (map report_rank ranked) \<and>
    (\<exists>admin. selectUserByID adminID (st_users s) = Some admin \<and> IsAdmin admin) \<and>
    map rv_ID (rl_Reports page) = map report_ID (take (nat limit) rest) \<and>
    (rl_HasMore page \<longleftrightarrow> nat limit < length rest) \<and>
    rl_NextLastID page =
      (if nat limit < length rest then Some (report_ID (rest ! (nat limit - 1))) else None) \<and>
    s' = s"
proof -
  from GetReports_committed [OF assms(1)] obtain ost admin where
    lim: "1 \<le> limit" and o: "case status of None \<Rightarrow> ost = None | Some raw \<Rightarrow> ost = ParseReportStatus raw \<and> ost \<noteq> None"
    and a: "selectUserByID adminID (st_users s) = Some admin" "IsAdmin admin" "s' = s"
    and pg: "let items = Report_selectList ost (limit + 1) lastID (st_reports s);
         shown = take (nat limit) items; hasMore = limit < int (length items)
     in map rv_ID (rl_Reports page) = map report_ID shown \<and> rl_HasMore page = hasMore \<and>
        rl_NextLastID page = (if hasMore then Some (report_ID (last shown)) else None)" by blast
  have ok: "db_ok report_ID (st_reports s)" using assms(2) by (simp add: reports_ok_def)
  have rk: "ranked = ranked_reports ost (st_reports s)" using assms(3) o by (cases status) auto
  have "Report_selectList ost (limit + 1) lastID (st_reports s) = take (Suc (nat limit)) rest"
    using assms(4) Report_selectList_next [OF ok, of "limit + 1"] lim
    by (auto simp: rk Report_selectList_def ranked_reports_def take_int_def nat_add_distrib)
  with pg lim a show ?thesis
    using last_take_nth [of "nat limit" rest]
    by (auto simp: rk ranked_order Let_def min_def split: if_splits)
qed

section \<open>The commands on a small forum\<close>

definition demo_reported :: store where
  "demo_reported = demo_store\<lparr>st_reports := \<lparr>db_ID = 1, db_Data =
     [(1, (NewReport 8 ReportTargetPost 1 3 ReportReasonSpam [])\<lparr>report_ID := 1\<rparr>)]\<rparr>\<rparr>"

lemma demo_reports_ok: "reports_ok (st_reports demo_store)" "reports_ok (st_reports demo_reported)"
  by (auto simp: demo_reported_def demo_store_simps reports_ok_def entity_eval db_ok_def NewReport_def
      sameReport_def split: if_splits)

lemma demo_report_texts:
  "TrimSpace ''p1'' = ''p1''" "TrimSpace ''ok'' = ''ok''" "TrimSpace [] = []"
  by (simp_all add: TrimSpace_plain plain_byte_def)

lemmas report_eval =
  CreateReport_def CreateReport_tx_def ResolveReport_def ResolveReport_tx_def GetReports_def GetReports_tx_def
  ParseReportTargetType_def ParseReportReasonCode_def ParseReportStatus_def
  maxReportReasonDetailLength_def maxReportResolutionNoteLength_def resolveVisibleReportTargetIDTx_def
  conceal_as_def saveReport_def reportTx_Save_def reportTx_SelectByID_def reportTx_Update_def captureReport_def
  Report_save_def Report_selectByID_def Report_update_def NewReport_def Resolve_def label_for_def
  RequirePositiveLimit_def reportTx_SelectList_def viewsT_def demo_report_texts

lemma demo_create_report:
  "\<exists>i s'. CreateReport demo_env 0 3 ''post'' ''p1'' ''spam'' [] demo_store = Some (Inr i, s')"
  apply (simp add: report_eval action_eval entity_eval policy_eval cong: bindT_eval_cong)
  apply (simp add: DispatchDomainActions_def NewReportChanged_def action_eval outboxMessage_def
      cong: bindT_eval_cong)
  apply (simp add: event_eval action_eval cong: bindT_eval_cong)
  done

lemma demo_resolve_report:
  "\<exists>s'. ResolveReport demo_env 0 1 1 ''accepted'' ''ok'' demo_reported = Some (Inr (), s')"
  apply (simp add: demo_reported_def report_eval action_eval entity_eval policy_eval cong: bindT_eval_cong)
  apply (simp add: DispatchDomainActions_def NewReportChanged_def action_eval outboxMessage_def
      cong: bindT_eval_cong)
  apply (simp add: event_eval action_eval cong: bindT_eval_cong)
  done

theorem CreateReport_effect_witness:
  "\<exists>i s'. CreateReport demo_env 0 3 ''post'' ''p1'' ''spam'' [] demo_store = Some (Inr i, s') \<and>
    reports_ok (st_reports s')"
  using demo_create_report CreateReport_effect [OF _ demo_reports_ok(1)] by blast

theorem CreateReport_once_witness:
  "\<exists>i s1. CreateReport demo_env 0 3 ''post'' ''p1'' ''spam'' [] demo_store = Some (Inr i, s1) \<and>
    (\<exists>err s2. CreateReport demo_env 9 3 ''post'' ''p1'' ''abuse'' ''ok'' s1 = Some (Inl err, s2))"
proof -
  from demo_create_report obtain i s1 where
    c: "CreateReport demo_env 0 3 ''post'' ''p1'' ''spam'' [] demo_store = Some (Inr i, s1)" by blast
  from CreateReport_once [OF c demo_reports_ok(1) refl refl refl] c show ?thesis by blast
qed

theorem ResolveReport_effect_witness:
  "\<exists>s'. ResolveReport demo_env 0 1 1 ''accepted'' ''ok'' demo_reported = Some (Inr (), s') \<and>
    (\<exists>err. ResolveReport demo_env 7 1 1 ''rejected'' ''ok'' s' = Some (Inl err, s'))"
  using demo_resolve_report ResolveReport_effect [OF _ demo_reports_ok(2)] by blast

lemma demo_get_reports:
  "\<exists>page. GetReports demo_env 0 1 None 10 0 demo_reported = Some (Inr page, demo_reported)"
  by (simp add: demo_reported_def report_eval action_eval entity_eval policy_eval MaxPageLimit_def
      Report_selectList_def report_rank_def take_int_def reportsFromEntities_def UserUUIDsByIDs_def
      uniqueInt64s_def read_repo_def selectUsersByIDsIncludingDeleted_def
      SelectPostUUIDsByIDsIncludingDeleted_def selectCommentUUIDsByIDsIncludingDeleted_def
      reportTargetUUID_def cong: bindT_eval_cong)

theorem GetReports_page_witness:
  "\<exists>page. GetReports demo_env 0 1 None 10 0 demo_reported = Some (Inr page, demo_reported) \<and>
    map rv_ID (rl_Reports page) = [1] \<and> \<not> rl_HasMore page"
proof -
  from demo_get_reports obtain page where
    g: "GetReports demo_env 0 1 None 10 0 demo_reported = Some (Inr page, demo_reported)" by blast
  have r: "ranked_reports (case None of None \<Rightarrow> None | Some raw \<Rightarrow> ParseReportStatus raw)
      (st_reports demo_reported) = db_rows (st_reports demo_reported)"
    by (simp add: ranked_reports_def demo_reported_def db_rows_def)
  have "map report_ID (db_rows (st_reports demo_reported)) = [1]" "length (db_rows (st_reports demo_reported)) = 1"
    by (simp_all add: demo_reported_def db_rows_def)
  with GetReports_page [OF g demo_reports_ok(2) r [symmetric], of "db_rows (st_reports demo_reported)"] g
  show ?thesis by auto
qed

end
