(* ===== verification/TxCalls.thy ===== *)
theory TxCalls
  imports Transactions
begin

text \<open>
  What a transaction's body may do to the store: the calls of the transaction's repositories
  (\<open>txUserRepository.Save\<close> and so on), drawing a time, a UUID or random bytes, and
  registering a hook. \<open>tx_call\<close> is one such call, whatever it answers; a body is
  \<open>via_calls\<close> when all it does to the transaction is a sequence of them. Every call keeps what
  the snapshots would restore, the first write of a repository by taking the snapshot.
\<close>

named_theorems via_calls_intros \<open>bodies that only call the transaction's repositories\<close>

section \<open>The calls of a transaction\<close>

inductive tx_call :: "env \<Rightarrow> tx \<Rightarrow> tx \<Rightarrow> bool" for e where
  tx_draw_time: "nowT e t = Some (now, t') \<Longrightarrow> tx_call e t t'"
| tx_draw_uuid: "uuidT e t = Some (uuid, t') \<Longrightarrow> tx_call e t t'"
| tx_draw_random: "randT e t = Some (rand, t') \<Longrightarrow> tx_call e t t'"
| tx_register: "AfterCommit hook e t = Some (ok, t') \<Longrightarrow> tx_call e t t'"
| userTx_Save_call: "userTx_Save u e t = Some (res, t') \<Longrightarrow> tx_call e t t'"
| userTx_Update_call: "userTx_Update u e t = Some (res, t') \<Longrightarrow> tx_call e t t'"
| userTx_Delete_call: "userTx_Delete i e t = Some (res, t') \<Longrightarrow> tx_call e t t'"
| emailVerificationTokenTx_Save_call: "emailVerificationTokenTx_Save tok e t = Some (res, t') \<Longrightarrow> tx_call e t t'"
| emailVerificationTokenTx_InvalidateByUser_call: "emailVerificationTokenTx_InvalidateByUser i e t = Some (res, t') \<Longrightarrow> tx_call e t t'"
| emailVerificationTokenTx_Update_call: "emailVerificationTokenTx_Update tok e t = Some (res, t') \<Longrightarrow> tx_call e t t'"
| emailVerificationTokenTx_DeleteExpiredOrConsumedBefore_call: "emailVerificationTokenTx_DeleteExpiredOrConsumedBefore at i e t = Some (res, t') \<Longrightarrow> tx_call e t t'"
| passwordResetTokenTx_Save_call: "passwordResetTokenTx_Save tok e t = Some (res, t') \<Longrightarrow> tx_call e t t'"
| passwordResetTokenTx_InvalidateByUser_call: "passwordResetTokenTx_InvalidateByUser i e t = Some (res, t') \<Longrightarrow> tx_call e t t'"
| passwordResetTokenTx_Update_call: "passwordResetTokenTx_Update tok e t = Some (res, t') \<Longrightarrow> tx_call e t t'"
| passwordResetTokenTx_DeleteExpiredOrConsumedBefore_call: "passwordResetTokenTx_DeleteExpiredOrConsumedBefore at i e t = Some (res, t') \<Longrightarrow> tx_call e t t'"
| boardTx_Save_call: "boardTx_Save b e t = Some (res, t') \<Longrightarrow> tx_call e t t'"
| boardTx_Update_call: "boardTx_Update b e t = Some (res, t') \<Longrightarrow> tx_call e t t'"
| boardTx_Delete_call: "boardTx_Delete i e t = Some (res, t') \<Longrightarrow> tx_call e t t'"
| postTx_Save_call: "postTx_Save p e t = Some (res, t') \<Longrightarrow> tx_call e t t'"
| postTx_Update_call: "postTx_Update p e t = Some (res, t') \<Longrightarrow> tx_call e t t'"
| postTx_Delete_call: "postTx_Delete i e t = Some (res, t') \<Longrightarrow> tx_call e t t'"
| tagTx_Save_call: "tagTx_Save g e t = Some (res, t') \<Longrightarrow> tx_call e t t'"
| postTagTx_UpsertActive_call: "postTagTx_UpsertActive i j e t = Some (res, t') \<Longrightarrow> tx_call e t t'"
| postTagTx_SoftDelete_call: "postTagTx_SoftDelete i j e t = Some (res, t') \<Longrightarrow> tx_call e t t'"
| postTagTx_SoftDeleteByPostID_call: "postTagTx_SoftDeleteByPostID i e t = Some (res, t') \<Longrightarrow> tx_call e t t'"
| commentTx_Save_call: "commentTx_Save c e t = Some (res, t') \<Longrightarrow> tx_call e t t'"
| commentTx_Update_call: "commentTx_Update c e t = Some (res, t') \<Longrightarrow> tx_call e t t'"
| commentTx_Delete_call: "commentTx_Delete i e t = Some (res, t') \<Longrightarrow> tx_call e t t'"
| reactionTx_SetUserTargetReaction_call: "reactionTx_SetUserTargetReaction i j target kind e t = Some (res, t') \<Longrightarrow> tx_call e t t'"
| reactionTx_DeleteUserTargetReaction_call: "reactionTx_DeleteUserTargetReaction i j target e t = Some (res, t') \<Longrightarrow> tx_call e t t'"
| reactionTx_DeleteByTarget_call: "reactionTx_DeleteByTarget i target e t = Some (res, t') \<Longrightarrow> tx_call e t t'"
| attachmentTx_Save_call: "attachmentTx_Save a e t = Some (res, t') \<Longrightarrow> tx_call e t t'"
| attachmentTx_Update_call: "attachmentTx_Update a e t = Some (res, t') \<Longrightarrow> tx_call e t t'"
| attachmentTx_Delete_call: "attachmentTx_Delete i e t = Some (res, t') \<Longrightarrow> tx_call e t t'"
| reportTx_Save_call: "reportTx_Save x e t = Some (res, t') \<Longrightarrow> tx_call e t t'"
| reportTx_Update_call: "reportTx_Update x e t = Some (res, t') \<Longrightarrow> tx_call e t t'"
| notificationTx_Save_call: "notificationTx_Save n e t = Some (res, t') \<Longrightarrow> tx_call e t t'"
| notificationTx_MarkRead_call: "notificationTx_MarkRead i e t = Some (res, t') \<Longrightarrow> tx_call e t t'"
| notificationTx_MarkAllReadByRecipientUserID_call: "notificationTx_MarkAllReadByRecipientUserID i e t = Some (res, t') \<Longrightarrow> tx_call e t t'"
| outboxTx_Append_call: "outboxTx_Append ms e t = Some (res, t') \<Longrightarrow> tx_call e t t'"

definition via_calls :: "'a action \<Rightarrow> bool" where
  "via_calls m \<longleftrightarrow> (\<forall>e t r t'. m e t = Some (r, t') \<longrightarrow> (tx_call e)\<^sup>*\<^sup>* t t')"

lemma via_callsD: "via_calls m \<Longrightarrow> m e t = Some (r, t') \<Longrightarrow> (tx_call e)\<^sup>*\<^sup>* t t'"
  unfolding via_calls_def by blast

lemma via_call_each [via_calls_intros]:
  "via_calls nowT" "via_calls uuidT" "via_calls randT" "via_calls (AfterCommit hook)"
  "via_calls (userTx_Save u)"
  "via_calls (userTx_Update u)"
  "via_calls (userTx_Delete i)"
  "via_calls (emailVerificationTokenTx_Save tok)"
  "via_calls (emailVerificationTokenTx_InvalidateByUser i)"
  "via_calls (emailVerificationTokenTx_Update tok)"
  "via_calls (emailVerificationTokenTx_DeleteExpiredOrConsumedBefore at i)"
  "via_calls (passwordResetTokenTx_Save tok)"
  "via_calls (passwordResetTokenTx_InvalidateByUser i)"
  "via_calls (passwordResetTokenTx_Update tok)"
  "via_calls (passwordResetTokenTx_DeleteExpiredOrConsumedBefore at i)"
  "via_calls (boardTx_Save b)"
  "via_calls (boardTx_Update b)"
  "via_calls (boardTx_Delete i)"
  "via_calls (postTx_Save p)"
  "via_calls (postTx_Update p)"
  "via_calls (postTx_Delete i)"
  "via_calls (tagTx_Save g)"
  "via_calls (postTagTx_UpsertActive i j)"
  "via_calls (postTagTx_SoftDelete i j)"
  "via_calls (postTagTx_SoftDeleteByPostID i)"
  "via_calls (commentTx_Save c)"
  "via_calls (commentTx_Update c)"
  "via_calls (commentTx_Delete i)"
  "via_calls (reactionTx_SetUserTargetReaction i j target kind)"
  "via_calls (reactionTx_DeleteUserTargetReaction i j target)"
  "via_calls (reactionTx_DeleteByTarget i target)"
  "via_calls (attachmentTx_Save a)"
  "via_calls (attachmentTx_Update a)"
  "via_calls (attachmentTx_Delete i)"
  "via_calls (reportTx_Save x)"
  "via_calls (reportTx_Update x)"
  "via_calls (notificationTx_Save n)"
  "via_calls (notificationTx_MarkRead i)"
  "via_calls (notificationTx_MarkAllReadByRecipientUserID i)"
  "via_calls (outboxTx_Append ms)"
  unfolding via_calls_def by (blast intro: r_into_rtranclp tx_call.intros)+

section \<open>Bodies made of calls\<close>

lemma via_calls_basic [via_calls_intros]:
  "via_calls (returnT a)" "via_calls (throwT err)" "via_calls (envT f)"
  "via_calls (read_part get g)" "via_calls (enter_part snap get g)"
  by (auto simp: via_calls_def returnT_def throwT_def envT_def read_part_def enter_part_def
      split: if_splits)

lemma via_calls_bindT [via_calls_intros]:
  assumes "via_calls m" "\<And>a. via_calls (f a)"
  shows "via_calls (bindT m f)"
  unfolding via_calls_def
proof (intro allI impI)
  fix e t r t'
  assume "bindT m f e t = Some (r, t')"
  then obtain res t1 where m: "m e t = Some (res, t1)"
    and k: "case res of Inl err \<Rightarrow> t' = t1 | Inr a \<Rightarrow> f a e t1 = Some (r, t')"
    by (auto simp: bindT_def split: option.splits sum.splits)
  from k have "(tx_call e)\<^sup>*\<^sup>* t1 t'" by (cases res) (auto intro: via_callsD [OF assms(2)])
  with via_callsD [OF assms(1) m] show "(tx_call e)\<^sup>*\<^sup>* t t'" by (rule rtranclp_trans)
qed

lemma via_calls_wrapped [via_calls_intros]: "via_calls m \<Longrightarrow> via_calls (wrapped label m)"
  unfolding via_calls_def wrapped_def by (fastforce split: option.splits sum.splits)

lemma via_calls_ensureT [via_calls_intros]: "via_calls (ensureT res)" "via_calls (requireT x err)"
  by (simp_all add: ensureT_def requireT_def via_calls_intros split: option.split)

lemma via_calls_if [via_calls_intros]:
  "via_calls m \<Longrightarrow> via_calls n \<Longrightarrow> via_calls (if b then m else n)"
  by simp

lemma via_calls_case_option [via_calls_intros]:
  "via_calls m \<Longrightarrow> (\<And>a. via_calls (f a)) \<Longrightarrow> via_calls (case x of None \<Rightarrow> m | Some a \<Rightarrow> f a)"
  by (cases x) simp_all

lemma via_calls_case_prod [via_calls_intros]:
  "(\<And>a b. via_calls (f a b)) \<Longrightarrow> via_calls (case x of (a, b) \<Rightarrow> f a b)"
  by (cases x) simp

lemma via_calls_forT [via_calls_intros]: "(\<And>x. via_calls (body x)) \<Longrightarrow> via_calls (forT xs body)"
  by (induction xs) (simp_all add: via_calls_intros)

lemma via_calls_mapT [via_calls_intros]: "(\<And>x. via_calls (f x)) \<Longrightarrow> via_calls (mapT f xs)"
  by (induction xs) (simp_all add: via_calls_intros)

lemma enter_tagged_via_calls [via_calls_intros]: "via_calls (enter_tagged str)"
  unfolding enter_tagged_def by (intro via_calls_intros)

text \<open>The reads leave the transaction as it is.\<close>

lemma via_call_reads [via_calls_intros]:
  "via_calls (userTx_SelectUserByUsername str)"
  "via_calls (userTx_SelectUserByUsernameIncludingDeleted str)"
  "via_calls (userTx_SelectUserByEmail str)"
  "via_calls (userTx_SelectUserByUUID str)"
  "via_calls (userTx_SelectUserByID i)"
  "via_calls (userTx_SelectUserByIDIncludingDeleted i)"
  "via_calls (userTx_SelectUsersByIDsIncludingDeleted ids)"
  "via_calls (userTx_SelectGuestCleanupCandidates at d d1 i)"
  "via_calls (emailVerificationTokenTx_SelectByTokenHash str)"
  "via_calls (emailVerificationTokenTx_SelectLatestByUser i)"
  "via_calls (passwordResetTokenTx_SelectByTokenHash str)"
  "via_calls (passwordResetTokenTx_SelectLatestByUser i)"
  "via_calls (boardTx_SelectBoardByID i)"
  "via_calls (boardTx_SelectBoardByUUID str)"
  "via_calls (boardTx_SelectBoardsByIDs ids)"
  "via_calls (boardTx_SelectBoardList i j)"
  "via_calls (boardTx_SelectBoardListIncludingHidden i j)"
  "via_calls (postTx_SelectPostByID i)"
  "via_calls (postTx_SelectPostByUUID str)"
  "via_calls (postTx_SelectDraftPostsByAuthorID i j k)"
  "via_calls (postTx_CountDraftPostsByAuthorID i)"
  "via_calls (postTx_SelectPostUUIDsByIDs ids)"
  "via_calls (postTx_SelectPostUUIDsByIDsIncludingDeleted ids)"
  "via_calls (postTx_SelectPostsByIDsIncludingUnpublished ids)"
  "via_calls (postTx_SelectPostByIDIncludingUnpublished i)"
  "via_calls (postTx_SelectPostByUUIDIncludingUnpublished str)"
  "via_calls (postTx_SelectPosts i j k)"
  "via_calls (postTx_CountPublishedPosts)"
  "via_calls (postTx_CountPublishedPostsByBoardID i)"
  "via_calls (postTx_SelectPublishedPostsByTagName str i j)"
  "via_calls (postTx_CountPublishedPostsByTagName str)"
  "via_calls (postTx_ExistsByBoardID i)"
  "via_calls (postTx_ExistsByAuthorID i)"
  "via_calls (postTx_ExistsByAuthorIDIncludingDeleted i)"
  "via_calls (tagTx_SelectByName str)"
  "via_calls (tagTx_SelectByIDs ids)"
  "via_calls (postTagTx_SelectActiveByPostID i)"
  "via_calls (postTagTx_SelectActiveByTagID i j k)"
  "via_calls (commentTx_SelectCommentByID i)"
  "via_calls (commentTx_SelectCommentByUUID str)"
  "via_calls (commentTx_SelectCommentUUIDsByIDsIncludingDeleted ids)"
  "via_calls (commentTx_SelectComments i j k)"
  "via_calls (commentTx_SelectCommentsIncludingDeleted i)"
  "via_calls (commentTx_SelectVisibleComments i j k)"
  "via_calls (commentTx_ExistsByAuthorID i)"
  "via_calls (commentTx_ExistsByAuthorIDIncludingDeleted i)"
  "via_calls (reactionTx_GetUserTargetReaction i j target)"
  "via_calls (reactionTx_GetByTarget i target)"
  "via_calls (reactionTx_GetByTargets ids target)"
  "via_calls (reactionTx_ExistsByUserID i)"
  "via_calls (attachmentTx_SelectByID i)"
  "via_calls (attachmentTx_SelectByUUID str)"
  "via_calls (attachmentTx_SelectByPostID i)"
  "via_calls (attachmentTx_SelectCleanupCandidatesBefore at i)"
  "via_calls (reportTx_SelectByID i)"
  "via_calls (reportTx_SelectByReporterAndTarget i rt j)"
  "via_calls (reportTx_SelectList st i j)"
  "via_calls (reportTx_ExistsByReporterUserID i)"
  "via_calls (notificationTx_SelectByID i)"
  "via_calls (notificationTx_SelectByUUID str)"
  "via_calls (notificationTx_SelectByRecipientUserID i j k)"
  "via_calls (notificationTx_CountUnreadByRecipientUserID i)"
  unfolding userTx_SelectUserByUsername_def
    userTx_SelectUserByUsernameIncludingDeleted_def
    userTx_SelectUserByEmail_def
    userTx_SelectUserByUUID_def
    userTx_SelectUserByID_def
    userTx_SelectUserByIDIncludingDeleted_def
    userTx_SelectUsersByIDsIncludingDeleted_def
    userTx_SelectGuestCleanupCandidates_def
    emailVerificationTokenTx_SelectByTokenHash_def
    emailVerificationTokenTx_SelectLatestByUser_def
    passwordResetTokenTx_SelectByTokenHash_def
    passwordResetTokenTx_SelectLatestByUser_def
    boardTx_SelectBoardByID_def
    boardTx_SelectBoardByUUID_def
    boardTx_SelectBoardsByIDs_def
    boardTx_SelectBoardList_def
    boardTx_SelectBoardListIncludingHidden_def
    postTx_SelectPostByID_def
    postTx_SelectPostByUUID_def
    postTx_SelectDraftPostsByAuthorID_def
    postTx_CountDraftPostsByAuthorID_def
    postTx_SelectPostUUIDsByIDs_def
    postTx_SelectPostUUIDsByIDsIncludingDeleted_def
    postTx_SelectPostsByIDsIncludingUnpublished_def
    postTx_SelectPostByIDIncludingUnpublished_def
    postTx_SelectPostByUUIDIncludingUnpublished_def
    postTx_SelectPosts_def
    postTx_CountPublishedPosts_def
    postTx_CountPublishedPostsByBoardID_def
    postTx_SelectPublishedPostsByTagName_def
    postTx_CountPublishedPostsByTagName_def
    postTx_ExistsByBoardID_def
    postTx_ExistsByAuthorID_def
    postTx_ExistsByAuthorIDIncludingDeleted_def
    tagTx_SelectByName_def
    tagTx_SelectByIDs_def
    postTagTx_SelectActiveByPostID_def
    postTagTx_SelectActiveByTagID_def
    commentTx_SelectCommentByID_def
    commentTx_SelectCommentByUUID_def
    commentTx_SelectCommentUUIDsByIDsIncludingDeleted_def
    commentTx_SelectComments_def
    commentTx_SelectCommentsIncludingDeleted_def
    commentTx_SelectVisibleComments_def
    commentTx_ExistsByAuthorID_def
    commentTx_ExistsByAuthorIDIncludingDeleted_def
    reactionTx_GetUserTargetReaction_def
    reactionTx_GetByTarget_def
    reactionTx_GetByTargets_def
    reactionTx_ExistsByUserID_def
    attachmentTx_SelectByID_def
    attachmentTx_SelectByUUID_def
    attachmentTx_SelectByPostID_def
    attachmentTx_SelectCleanupCandidatesBefore_def
    reportTx_SelectByID_def
    reportTx_SelectByReporterAndTarget_def
    reportTx_SelectList_def
    reportTx_ExistsByReporterUserID_def
    notificationTx_SelectByID_def
    notificationTx_SelectByUUID_def
    notificationTx_SelectByRecipientUserID_def
    notificationTx_CountUnreadByRecipientUserID_def
  by (intro via_calls_intros)+

section \<open>Every call is undone by the snapshots\<close>

lemmas tx_write_defs =
  userTx_Save_def
  userTx_Update_def
  userTx_Delete_def
  emailVerificationTokenTx_Save_def
  emailVerificationTokenTx_InvalidateByUser_def
  emailVerificationTokenTx_Update_def
  emailVerificationTokenTx_DeleteExpiredOrConsumedBefore_def
  passwordResetTokenTx_Save_def
  passwordResetTokenTx_InvalidateByUser_def
  passwordResetTokenTx_Update_def
  passwordResetTokenTx_DeleteExpiredOrConsumedBefore_def
  boardTx_Save_def
  boardTx_Update_def
  boardTx_Delete_def
  postTx_Save_def
  postTx_Update_def
  postTx_Delete_def
  tagTx_Save_def
  postTagTx_UpsertActive_def
  postTagTx_SoftDelete_def
  postTagTx_SoftDeleteByPostID_def
  commentTx_Save_def
  commentTx_Update_def
  commentTx_Delete_def
  reactionTx_SetUserTargetReaction_def
  reactionTx_DeleteUserTargetReaction_def
  reactionTx_DeleteByTarget_def
  attachmentTx_Save_def
  attachmentTx_Update_def
  attachmentTx_Delete_def
  reportTx_Save_def
  reportTx_Update_def
  notificationTx_Save_def
  notificationTx_MarkRead_def
  outboxTx_Append_def

lemma tx_writes_atomic:
  "atomic (userTx_Save u)"
  "atomic (userTx_Update u)"
  "atomic (userTx_Delete i)"
  "atomic (emailVerificationTokenTx_Save tok)"
  "atomic (emailVerificationTokenTx_InvalidateByUser i)"
  "atomic (emailVerificationTokenTx_Update tok)"
  "atomic (emailVerificationTokenTx_DeleteExpiredOrConsumedBefore at i)"
  "atomic (passwordResetTokenTx_Save tok)"
  "atomic (passwordResetTokenTx_InvalidateByUser i)"
  "atomic (passwordResetTokenTx_Update tok)"
  "atomic (passwordResetTokenTx_DeleteExpiredOrConsumedBefore at i)"
  "atomic (boardTx_Save b)"
  "atomic (boardTx_Update b)"
  "atomic (boardTx_Delete i)"
  "atomic (postTx_Save p)"
  "atomic (postTx_Update p)"
  "atomic (postTx_Delete i)"
  "atomic (tagTx_Save g)"
  "atomic (postTagTx_UpsertActive i j)"
  "atomic (postTagTx_SoftDelete i j)"
  "atomic (postTagTx_SoftDeleteByPostID i)"
  "atomic (commentTx_Save c)"
  "atomic (commentTx_Update c)"
  "atomic (commentTx_Delete i)"
  "atomic (reactionTx_SetUserTargetReaction i j target kind)"
  "atomic (reactionTx_DeleteUserTargetReaction i j target)"
  "atomic (reactionTx_DeleteByTarget i target)"
  "atomic (attachmentTx_Save a)"
  "atomic (attachmentTx_Update a)"
  "atomic (attachmentTx_Delete i)"
  "atomic (reportTx_Save x)"
  "atomic (reportTx_Update x)"
  "atomic (notificationTx_Save n)"
  "atomic (notificationTx_MarkRead i)"
  "atomic (outboxTx_Append ms)"
  unfolding tx_write_defs by (intro atomic_intros)+

lemma atomic_restores: "atomic m \<Longrightarrow> m e t = Some (r, t') \<Longrightarrow> restore_all t' = restore_all t"
  unfolding atomic_def by blast

lemmas tx_write_restores = tx_writes_atomic [THEN atomic_restores]

lemma tx_call_restores: "tx_call e t t' \<Longrightarrow> restore_all t' = restore_all t"
proof (induction rule: tx_call.induct)
  case (tx_draw_time now)
  then show ?case by (auto simp: nowT_def)
next
  case (tx_draw_uuid uuid)
  then show ?case by (auto simp: uuidT_def)
next
  case (tx_draw_random rand)
  then show ?case by (auto simp: randT_def)
next
  case (tx_register hook ok)
  then show ?case by (auto simp: AfterCommit_def restore_all_def)
qed (erule tx_write_restores | simp add: mark_all_blocks)+

lemma tx_calls_restore: "(tx_call e)\<^sup>*\<^sup>* t t' \<Longrightarrow> restore_all t' = restore_all t"
  by (induction rule: rtranclp_induct) (simp_all add: tx_call_restores)

end
