(* ===== verification/Contracts.thy ===== *)
theory Contracts
  imports Demo Pagination TxCalls
begin

text \<open>
  The contracts of the repositories, stated over their operations: the walk through the pages
  of a list, the lease of an outbox message, the notifications of a user, the tokens, unique
  user names, the tags of a post, and the transaction around them. The proofs rest on the
  locales the repositories interpret.
\<close>

section \<open>Lists read page by page\<close>

text \<open>Keys fit the cursor as long as the counter has not left \<open>int64\<close>.\<close>

definition in_range :: "('v \<Rightarrow> int) \<Rightarrow> 'v db \<Rightarrow> bool" where
  "in_range rid r \<longleftrightarrow> db_ok rid r \<and> db_ID r < 2 ^ 63"

lemma in_range_rows:
  assumes "in_range rid r" "x \<in> set (filter P (db_rows r))"
  shows "0 < rid x \<and> rid x < 2 ^ 63"
  using assms db_rows_bounds [of rid r x] by (auto simp: in_range_def)

lemma in_range_distinct: "in_range rid r \<Longrightarrow> distinct (map rid (filter P (db_rows r)))"
  by (intro filter_distinct_rids db_rows_distinct) (simp add: in_range_def)

interpretation board_pages: cursor_source "in_range board_ID"
  "\<lambda>r limit lastID. selectBoardList limit lastID r" board_ID
  "\<lambda>r. filter (\<lambda>b. \<not> board_Hidden b) (db_rows r)"
  by unfold_locales
    (simp_all add: selectBoardList_page in_range_distinct, use in_range_rows in fastforce)

interpretation post_pages: cursor_source "in_range post_ID"
  "\<lambda>r limit lastID. selectPosts boardID limit lastID r" post_ID
  "\<lambda>r. filter (\<lambda>p. post_BoardID p = boardID \<and> post_Status p = PostStatusPublished) (db_rows r)"
  for boardID
  by unfold_locales (simp_all add: selectPosts_page in_range_distinct, use in_range_rows in fastforce)

interpretation draft_pages: cursor_source "in_range post_ID"
  "\<lambda>r limit lastID. selectDraftPostsByAuthorID authorID limit lastID r" post_ID
  "\<lambda>r. filter (\<lambda>p. post_AuthorID p = authorID \<and> post_Status p = PostStatusDraft) (db_rows r)"
  for authorID
  by unfold_locales (simp_all add: selectDraftPosts_page in_range_distinct, use in_range_rows in fastforce)

lemma tagged_rows_filter: "\<exists>P. tagged_rows tags post_tags tagName r = filter P (db_rows r)"
proof (cases "Tag_selectByName tagName tags")
  case None
  then show ?thesis by (intro exI [of _ "\<lambda>_. False"]) (simp add: tagged_rows_def)
qed (auto simp: tagged_rows_def)

interpretation tag_pages: cursor_source "in_range post_ID"
  "\<lambda>r limit lastID. selectPublishedPostsByTagName tags post_tags tagName limit lastID r" post_ID
  "tagged_rows tags post_tags tagName"
  for tags post_tags tagName
proof unfold_locales
  fix r :: post_repo and x
  assume ok: "in_range post_ID r"
  obtain P where P: "tagged_rows tags post_tags tagName r = filter P (db_rows r)"
    using tagged_rows_filter by blast
  show "distinct (map post_ID (tagged_rows tags post_tags tagName r))"
    unfolding P by (rule in_range_distinct [OF ok])
  show "x \<in> set (tagged_rows tags post_tags tagName r) \<Longrightarrow> 0 < post_ID x \<and> post_ID x < 2 ^ 63"
    unfolding P by (rule in_range_rows [OF ok])
qed (rule selectPublishedPostsByTagName_page)

lemma visible_rows_filter: "\<exists>P. visible_rows postID r = filter P (db_rows r)"
  by (intro exI [of _ "\<lambda>c. (comment_Status c = CommentStatusActive \<or>
        (\<exists>d \<in> set (filter (\<lambda>c. comment_PostID c = postID) (db_rows r)).
          comment_Status d = CommentStatusActive \<and> comment_ParentID d = Some (comment_ID c))) \<and>
      comment_PostID c = postID"])
    (auto simp: visible_rows_def Let_def conj_commute intro!: filter_cong)

interpretation comment_pages: cursor_source "in_range comment_ID"
  "\<lambda>r limit lastID. selectVisibleComments postID limit lastID r" comment_ID "visible_rows postID"
  for postID
proof unfold_locales
  fix r :: comment_repo and x and limit lastID :: int
  assume ok: "in_range comment_ID r"
  obtain P where P: "visible_rows postID r = filter P (db_rows r)" using visible_rows_filter by blast
  show "distinct (map comment_ID (visible_rows postID r))"
    unfolding P by (rule in_range_distinct [OF ok])
  show "x \<in> set (visible_rows postID r) \<Longrightarrow> 0 < comment_ID x \<and> comment_ID x < 2 ^ 63"
    unfolding P by (rule in_range_rows [OF ok])
  show "0 < limit \<Longrightarrow> selectVisibleComments postID limit lastID r =
      page_of comment_ID limit lastID (visible_rows postID r)"
    using ok by (intro selectVisibleComments_page) (simp_all add: in_range_def)
qed

interpretation notification_pages: cursor_source "in_range notification_ID"
  "\<lambda>r limit lastID. SelectByRecipientUserID userID limit lastID r" notification_ID
  "\<lambda>r. filter (\<lambda>n. notification_RecipientUserID n = userID) (db_rows r)"
  for userID
proof unfold_locales
  fix r :: notification_repo and x and limit lastID :: int
  assume ok: "in_range notification_ID r"
  show "distinct (map notification_ID (filter (\<lambda>n. notification_RecipientUserID n = userID) (db_rows r)))"
    by (rule in_range_distinct [OF ok])
  show "x \<in> set (filter (\<lambda>n. notification_RecipientUserID n = userID) (db_rows r)) \<Longrightarrow>
      0 < notification_ID x \<and> notification_ID x < 2 ^ 63"
    by (rule in_range_rows [OF ok])
  show "0 < limit \<Longrightarrow> SelectByRecipientUserID userID limit lastID r = page_of notification_ID limit lastID
      (filter (\<lambda>n. notification_RecipientUserID n = userID) (db_rows r))"
    using ok by (intro SelectByRecipientUserID_page) (simp_all add: in_range_def)
qed

text \<open>
  C38: reading a board's posts page by page. For any page size the service accepts, following the
  cursors from the first page on returns every published post of the board exactly once, the
  newest first, and ends; the same holds for a user's drafts and the posts of a tag.
\<close>

theorem post_pages_complete:
  assumes "in_range post_ID r" "1 \<le> limit" "limit \<le> MaxPageLimit" "length (db_rows r) < fuel"
  shows "walk_pages fuel limit (\<lambda>l c. selectPosts boardID l c r) post_ID [] =
      Some (Inr (newest_first post_ID
        (filter (\<lambda>p. post_BoardID p = boardID \<and> post_Status p = PostStatusPublished) (db_rows r)))) \<and>
    walk_pages fuel limit (\<lambda>l c. selectDraftPostsByAuthorID authorID l c r) post_ID [] =
      Some (Inr (newest_first post_ID
        (filter (\<lambda>p. post_AuthorID p = authorID \<and> post_Status p = PostStatusDraft) (db_rows r)))) \<and>
    walk_pages fuel limit (\<lambda>l c. selectPublishedPostsByTagName tags post_tags tagName l c r) post_ID [] =
      Some (Inr (newest_first post_ID (tagged_rows tags post_tags tagName r)))"
proof -
  have f: "length (filter P (db_rows r)) < fuel" for P
    using assms(4) length_filter_le [of P "db_rows r"] by linarith
  moreover have "length (tagged_rows tags post_tags tagName r) < fuel"
    using f tagged_rows_filter by metis
  ultimately show ?thesis
    using post_pages.walk_all [OF assms(1-3)] draft_pages.walk_all [OF assms(1-3)]
      tag_pages.walk_all [OF assms(1-3)] by simp
qed

theorem post_pages_complete_witness:
  "walk_pages 5 1 (\<lambda>l c. selectPosts 1 l c demo_posts) post_ID [] =
    Some (Inr (newest_first post_ID
      (filter (\<lambda>p. post_BoardID p = 1 \<and> post_Status p = PostStatusPublished) (db_rows demo_posts))))"
proof -
  have "in_range post_ID demo_posts" "length (db_rows demo_posts) < 5"
    by (simp_all add: in_range_def db_ok_def entity_eval)
  from post_pages_complete [OF this(1) _ _ this(2), of 1] show ?thesis by (simp add: MaxPageLimit_def)
qed

text \<open>
  The comments under a post, read page by page: the active comments and the deleted ones that
  still have an active reply, each exactly once, the newest first.
\<close>

theorem comment_pages_complete:
  assumes "in_range comment_ID r" "1 \<le> limit" "limit \<le> MaxPageLimit" "length (db_rows r) < fuel"
  shows "walk_pages fuel limit (\<lambda>l c. selectVisibleComments postID l c r) comment_ID [] =
      Some (Inr (newest_first comment_ID (visible_rows postID r)))"
proof -
  have "length (visible_rows postID r) < fuel"
    using assms(4) visible_rows_filter by (metis le_less_trans length_filter_le)
  then show ?thesis by (rule comment_pages.walk_all [OF assms(1-3)])
qed

theorem comment_pages_complete_witness:
  "walk_pages 5 1 (\<lambda>l c. selectVisibleComments 1 l c demo_comments) comment_ID [] =
    Some (Inr (newest_first comment_ID (visible_rows 1 demo_comments)))"
  by (rule comment_pages_complete) (simp_all add: in_range_def db_ok_def entity_eval MaxPageLimit_def)

text \<open>
  A user's notifications, read page by page, are that user's notifications, each exactly once,
  the newest first; visible boards likewise.
\<close>

theorem notification_pages_complete:
  assumes "in_range notification_ID r" "in_range board_ID b" "1 \<le> limit" "limit \<le> MaxPageLimit"
    and "length (db_rows r) < fuel" "length (db_rows b) < fuel"
  shows "walk_pages fuel limit (\<lambda>l c. SelectByRecipientUserID userID l c r) notification_ID [] =
      Some (Inr (newest_first notification_ID
        (filter (\<lambda>n. notification_RecipientUserID n = userID) (db_rows r)))) \<and>
    walk_pages fuel limit (\<lambda>l c. selectBoardList l c b) board_ID [] =
      Some (Inr (newest_first board_ID (filter (\<lambda>b. \<not> board_Hidden b) (db_rows b))))"
proof -
  have f: "length (filter P (db_rows r)) < fuel" "length (filter Q (db_rows b)) < fuel" for P Q
    using assms(5,6) length_filter_le [of P "db_rows r"] length_filter_le [of Q "db_rows b"] by linarith+
  show ?thesis
    using notification_pages.walk_all [OF assms(1,3,4) f(1)] board_pages.walk_all [OF assms(2-4) f(2)]
    by simp
qed

theorem notification_pages_complete_witness:
  "walk_pages 5 1 (\<lambda>l c. selectBoardList l c demo_boards) board_ID [] =
    Some (Inr (newest_first board_ID (filter (\<lambda>b. \<not> board_Hidden b) (db_rows demo_boards))))"
proof -
  have "in_range notification_ID (empty_db :: notification_repo)" "in_range board_ID demo_boards"
    "length (db_rows (empty_db :: notification_repo)) < 5" "length (db_rows demo_boards) < 5"
    by (simp_all add: in_range_def db_ok_def entity_eval)
  from notification_pages_complete [OF this(1,2) _ _ this(3,4), of 1] show ?thesis
    by (simp add: MaxPageLimit_def)
qed

section \<open>The outbox\<close>

definition demo_message :: "string \<Rightarrow> time \<Rightarrow> outbox_message" where
  "demo_message i at = \<lparr>msg_ID = i, msg_EventName = ''board.changed'', msg_Payload = [], msg_OccurredAt = at,
     msg_AttemptCount = 0, msg_NextAttemptAt = at, msg_Status = OutboxStatusPending, msg_LastError = []\<rparr>"

definition demo_outbox :: outbox_repo where
  "demo_outbox = snd (Outbox_append None 1 [demo_message ''a'' 1, demo_message ''b'' 2, demo_message ''c'' 9]
     (NewOutboxRepository []))"

definition demo_leased :: outbox_repo where
  "demo_leased = snd (FetchReady None 1 3 demo_outbox)"

lemma demo_outbox_ok: "outbox_ok demo_outbox" "outbox_ok demo_leased"
  by (simp_all add: demo_leased_def demo_outbox_def FetchReady_ok Outbox_append_ok outbox_ok_new)

text \<open>
  C2: the lease of a message is exclusive. While a message is being processed, whatever other
  workers do up to the end of its lease (append, fetch at a time before the end, settle or renew
  other messages), no fetch hands it out again and its record stays as it is.
\<close>

theorem lease_exclusive:
  assumes "outbox_run r trace r'" "outbox_ok r" "map_of (outbox_data r) i = Some m"
    and "msg_Status m = OutboxStatusProcessing"
    and "\<forall>(op, ready) \<in> set trace. leaves_lease i (msg_NextAttemptAt m) op"
  shows "map_of (outbox_data r') i = Some m \<and> (\<forall>(op, ready) \<in> set trace. i \<notin> msg_ID ` set ready)"
  by (rule run_keeps_lease [OF assms])

lemma demo_fetch:
  "FetchReady None 1 3 demo_outbox = (Inr [(demo_message ''a'' 1)\<lparr>msg_Status := OutboxStatusProcessing,
     msg_AttemptCount := 1, msg_NextAttemptAt := 30000000003\<rparr>], demo_leased)"
  "FetchReady None 5 4 demo_leased = (Inr [(demo_message ''b'' 2)\<lparr>msg_Status := OutboxStatusProcessing,
     msg_AttemptCount := 1, msg_NextAttemptAt := 30000000004\<rparr>], snd (FetchReady None 5 4 demo_leased))"
  "map_of (outbox_data demo_leased) ''a'' = Some ((demo_message ''a'' 1)\<lparr>msg_Status := OutboxStatusProcessing,
     msg_AttemptCount := 1, msg_NextAttemptAt := 30000000003\<rparr>)"
  by code_simp+

theorem lease_exclusive_witness:
  "map_of (outbox_data (snd (FetchReady None 5 4 demo_leased))) ''a'' = map_of (outbox_data demo_leased) ''a''"
proof -
  have "outbox_run demo_leased [(OpFetch 5 4, [(demo_message ''b'' 2)\<lparr>msg_Status := OutboxStatusProcessing,
      msg_AttemptCount := 1, msg_NextAttemptAt := 30000000004\<rparr>])] (snd (FetchReady None 5 4 demo_leased))"
    by (rule run_step [OF fetch_step [OF demo_fetch(2)] run_nil])
  from lease_exclusive [OF this demo_outbox_ok(2) demo_fetch(3)] demo_fetch(3) show ?thesis by simp
qed

text \<open>
  C3: no message is lost. Whatever the relay and the writers do, a stored message stays in the
  store until it is named by \<open>MarkSucceeded\<close>, and the store keeps its invariant: every message
  that is not dead is in the scan, exactly once.
\<close>

theorem no_message_lost:
  assumes "outbox_run r trace r'" "outbox_ok r" "map_of (outbox_data r) i \<noteq> None"
    and "\<forall>js ready. (OpSucceeded js, ready) \<in> set trace \<longrightarrow> i \<notin> set js"
  shows "map_of (outbox_data r') i \<noteq> None \<and> outbox_ok r'"
  using run_keeps_message [OF assms] outbox_run_ok [OF assms(1,2)] by blast

theorem no_message_lost_witness:
  "map_of (outbox_data (snd (MarkDead None ''a'' ''boom'' demo_leased))) ''a'' \<noteq> None"
proof -
  have "outbox_run demo_leased [(OpDead ''a'' ''boom'', [])] (snd (MarkDead None ''a'' ''boom'' demo_leased))"
    by (rule run_step [OF dead_step run_nil]) (simp add: MarkDead_def split: option.split)
  from no_message_lost [OF this demo_outbox_ok(2), of "''a''"] demo_fetch(3) show ?thesis by simp
qed

text \<open>
  C4: \<open>FetchReady\<close> hands out the first \<open>limit\<close> messages of the scan that are due, in their order of
  arrival and each once, leases exactly those for the processing timeout and counts the attempt;
  with room for the whole scan it leaves no due message behind.
\<close>

theorem fetch_ready_spec:
  assumes "outbox_ok r" "FetchReady None limit now r = (Inr ready, r')"
  shows "map msg_ID ready = take_int limit (filter (due now (outbox_data r)) (outbox_order r)) \<and>
    distinct (map msg_ID ready) \<and>
    (\<forall>i. map_of (outbox_data r') i =
      (if i \<in> set (map msg_ID ready)
       then map_option (lease now (outbox_processingTimeout r)) (map_of (outbox_data r) i)
       else map_of (outbox_data r) i)) \<and>
    (int (length (outbox_order r)) \<le> limit \<longrightarrow>
      (\<forall>i m. map_of (outbox_data r) i = Some m \<longrightarrow> msg_Status m \<noteq> OutboxStatusDead \<longrightarrow>
        msg_NextAttemptAt m \<le> now \<longrightarrow> i \<in> msg_ID ` set ready))"
  using fetch_result(2,3) [OF assms] fetched_distinct [of r limit now] assms(1) fetch_complete [OF assms]
  by (simp add: fetched_ids_def outbox_ok_def)

theorem fetch_ready_spec_witness:
  "\<exists>ready r'. FetchReady None 1 3 demo_outbox = (Inr ready, r') \<and>
    map msg_ID ready = take_int 1 (filter (due 3 (outbox_data demo_outbox)) (outbox_order demo_outbox))"
  using fetch_ready_spec [OF demo_outbox_ok(1) demo_fetch(1)] demo_fetch(1) by blast

section \<open>Notifications\<close>

text \<open>
  A notification is delivered at most once. Saving keeps the invariant that no two stored
  notifications are duplicates, and saving a duplicate of one just saved, as a redelivered event
  does, changes nothing and answers with the key of the first.
\<close>

theorem notification_dedup:
  assumes "notifications_ok r" "Notification_save uuid n r = (m, r')"
  shows "notifications_ok r' \<and>
    (\<forall>uuid' k. sameNotificationDedup n k \<longrightarrow>
      snd (Notification_save uuid' k r') = r' \<and>
      notification_ID (fst (Notification_save uuid' k r')) = notification_ID m)"
  using Notification_save_ok [OF assms(1), of uuid n] Notification_save_idem [OF assms] assms(2) by simp

definition demo_notification :: notification where
  "demo_notification = (NewNotification 7 ''n1'' 2 3 NotificationTypePostCommented 1 1 ''bob'' ''hello'' ''hi'')
     \<lparr>notification_DedupKey := ''k''\<rparr>"

theorem notification_dedup_witness:
  "snd (Notification_save ''x'' demo_notification (snd (Notification_save ''y'' demo_notification empty_db))) =
    snd (Notification_save ''y'' demo_notification empty_db)"
proof -
  have "notifications_ok (empty_db :: notification_repo)" by (simp add: notifications_ok_def)
  from notification_dedup [OF this prod.collapse [symmetric], of "''y''" demo_notification]
  show ?thesis by (simp add: sameNotificationDedup_def)
qed

text \<open>
  Marking all notifications of a user as read answers with the number that were unread and
  leaves none unread; every other user's notifications stay as they are, and so does whatever was
  read before.
\<close>

theorem mark_all_read:
  assumes "MarkAllReadByRecipientUserID clock u r = (changed, r')"
  shows "changed = CountUnreadByRecipientUserID u r \<and> CountUnreadByRecipientUserID u r' = 0 \<and>
    (\<forall>i n. db_get r i = Some n \<longrightarrow>
      (\<exists>m. db_get r' i = Some m \<and> (m = n \<or> (\<exists>t. m = MarkRead t n)) \<and>
        (notification_RecipientUserID n = u \<longrightarrow> notification_ReadAt m \<noteq> None) \<and>
        (notification_RecipientUserID n \<noteq> u \<longrightarrow> m = n)))"
proof -
  obtain rows where "mark_all clock 0 u (db_Data r) = (changed, rows)" "r' = r\<lparr>db_Data := rows\<rparr>"
    using assms by (auto simp: MarkAllReadByRecipientUserID_def split: prod.splits)
  then have "\<forall>i n. db_get r i = Some n \<longrightarrow>
      (\<exists>m. db_get r' i = Some m \<and> (m = n \<or> (\<exists>t. m = MarkRead t n)) \<and>
        (notification_RecipientUserID n = u \<longrightarrow> notification_ReadAt m \<noteq> None) \<and>
        (notification_RecipientUserID n \<noteq> u \<longrightarrow> m = n))"
    using mark_all_get by (simp add: db_get_def)
  with MarkAllRead_unread [OF assms] show ?thesis by blast
qed

theorem mark_all_read_witness:
  "CountUnreadByRecipientUserID 2 (snd (MarkAllReadByRecipientUserID (\<lambda>_. 5) 2
    (snd (Notification_save ''y'' demo_notification empty_db)))) = 0"
  using mark_all_read [OF prod.collapse [symmetric]] by blast

section \<open>Tokens\<close>

text \<open>
  Issuing a password reset or e-mail verification token. Invalidating the user's tokens and
  saving the new one leaves exactly that one usable token for the user, makes it the latest, and
  keeps the tokens of everybody else whose hash it does not reuse.
\<close>

theorem token_issue:
  assumes "tokens_ok r" "token_UserID t = u"
  shows "(\<forall>h s. PasswordReset_selectByTokenHash h (PasswordReset_save t (PasswordReset_invalidateByUser u r)) =
        Some s \<and> token_UserID s = u \<longleftrightarrow> s = t \<and> h = token_TokenHash t) \<and>
    PasswordReset_selectLatestByUser u (PasswordReset_save t (PasswordReset_invalidateByUser u r)) = Some t \<and>
    (\<forall>h s. EmailVerification_selectByTokenHash h
        (EmailVerification_save t (EmailVerification_invalidateByUser u r)) =
        Some s \<and> token_UserID s = u \<longleftrightarrow> s = t \<and> h = token_TokenHash t) \<and>
    EmailVerification_selectLatestByUser u (EmailVerification_save t (EmailVerification_invalidateByUser u r)) =
      Some t \<and>
    (\<forall>h s. PasswordReset_selectByTokenHash h r = Some s \<longrightarrow> token_UserID s \<noteq> u \<longrightarrow> h \<noteq> token_TokenHash t \<longrightarrow>
      PasswordReset_selectByTokenHash h (PasswordReset_save t (PasswordReset_invalidateByUser u r)) = Some s)"
  using password_tokens.issue_only [OF assms] password_tokens.issue_latest [OF assms]
    email_tokens.issue_only [OF assms] email_tokens.issue_latest [OF assms]
    password_tokens.issue_others [OF assms] by blast

theorem token_issue_witness:
  "PasswordReset_selectLatestByUser 2 (PasswordReset_save (NewToken 1 2 ''h'' 9)
    (PasswordReset_invalidateByUser 2 [(''g'', NewToken 0 2 ''g'' 8)])) = Some (NewToken 1 2 ''h'' 9)"
  using token_issue [of "[(''g'', NewToken 0 2 ''g'' 8)]" "NewToken 1 2 ''h'' 9" 2]
  by (simp add: tokens_ok_def NewToken_def)

text \<open>
  Cleaning up tokens. Both jobs remove at most \<open>limit\<close> tokens, add none, and never remove a
  token that is still usable at the time of the cutoff or later.
\<close>

theorem token_cleanup:
  assumes "tokens_ok r" "cutoff \<le> now"
  shows "(\<forall>n r'. PasswordReset_deleteExpiredOrConsumedBefore cutoff limit r = (n, r') \<longrightarrow>
      n \<le> max 0 limit \<and> tokens_ok r' \<and>
      (\<forall>h t. map_of r' h = Some t \<longrightarrow> map_of r h = Some t) \<and>
      (\<forall>h t. map_of r h = Some t \<longrightarrow> IsUsable now (Some t) \<longrightarrow> map_of r' h = Some t)) \<and>
    (\<forall>n r'. EmailVerification_deleteExpiredOrConsumedBefore cutoff limit r = (n, r') \<longrightarrow>
      n \<le> max 0 limit \<and> tokens_ok r' \<and>
      (\<forall>h t. map_of r' h = Some t \<longrightarrow> map_of r h = Some t) \<and>
      (\<forall>h t. map_of r h = Some t \<longrightarrow> IsUsable now (Some t) \<longrightarrow> map_of r' h = Some t))"
proof -
  have u: "\<not> removable cutoff t" if "IsUsable now (Some t)" for t
    using that assms(2) by (auto simp: removable_def IsUsable_def IsConsumed_def IsExpired_def)
  show ?thesis
    using password_cleanup [OF assms(1)] email_cleanup [OF assms(1)] u by blast
qed

theorem token_cleanup_witness:
  "map_of (snd (PasswordReset_deleteExpiredOrConsumedBefore 5 10
      [(''g'', NewToken 0 2 ''g'' 4), (''h'', NewToken 0 2 ''h'' 8)])) ''h'' = Some (NewToken 0 2 ''h'' 8)"
proof -
  let ?r = "[(''g'', NewToken 0 2 ''g'' 4), (''h'', NewToken 0 2 ''h'' 8)]"
  have "tokens_ok ?r" by (simp add: tokens_ok_def NewToken_def)
  moreover have "IsUsable 5 (Some (NewToken 0 2 ''h'' 8))"
    by (simp add: IsUsable_def IsConsumed_def IsExpired_def NewToken_def)
  moreover obtain n r' where d: "PasswordReset_deleteExpiredOrConsumedBefore 5 10 ?r = (n, r')"
    by (rule prod.exhaust)
  moreover have "map_of ?r ''h'' = Some (NewToken 0 2 ''h'' 8)" by simp
  ultimately have "map_of r' ''h'' = Some (NewToken 0 2 ''h'' 8)"
    using token_cleanup [of ?r 5 5 10] by blast
  with d show ?thesis by simp
qed

section \<open>Users and tags\<close>

text \<open>
  No two users share a name, an address (compared without case and surrounding blanks) or a
  UUID. Saving succeeds exactly when no stored user, deleted ones included, conflicts; saving and
  updating keep the invariant, whatever they answer; and then a name finds its user.
\<close>

theorem users_unique:
  assumes "users_ok lower r"
  shows "((\<exists>w r'. User_save lower u r = (Inr w, r')) \<longleftrightarrow>
      (\<forall>i x. db_get r i = Some x \<longrightarrow> \<not> usersConflict lower x u)) \<and>
    users_ok lower (snd (User_save lower u r)) \<and> users_ok lower (snd (User_update lower u r)) \<and>
    (\<forall>i x. db_get r i = Some x \<longrightarrow> \<not> IsDeleted x \<longrightarrow> selectUserByUsername (user_Name x) r = Some x)"
  using users.saved_iff [OF assms] User_save_ok [OF assms prod.collapse [symmetric]]
    User_update_ok [OF assms prod.collapse [symmetric]] selectUserByUsername_found [OF assms]
  by blast

theorem users_unique_witness:
  "(\<exists>w r'. User_save id demo_bob empty_db = (Inr w, r')) \<and>
    users_ok id (snd (User_save id demo_bob empty_db))"
  using users_unique [of id "empty_db :: user_repo" demo_bob] by (simp add: users_ok_def)

text \<open>
  The tags of a post as a set. Attaching a tag adds it, detaching removes it, detaching all of
  a post empties its set, the other posts keep theirs, and reading a post's tags reads that set.
\<close>

theorem post_tag_sets:
  assumes "post_tags_ok r"
  shows "active_tags (upsertActive now p tagID r) =
      (active_tags r)(p := insert tagID (active_tags r p)) \<and>
    active_tags (PostTag_softDelete p tagID r) = (active_tags r)(p := active_tags r p - {tagID}) \<and>
    active_tags (softDeleteByPostID p r) = (active_tags r)(p := {}) \<and>
    pt_TagID ` set (selectActiveByPostID p r) = active_tags r p \<and>
    post_tags_ok (upsertActive now p tagID r) \<and> post_tags_ok (PostTag_softDelete p tagID r) \<and>
    post_tags_ok (softDeleteByPostID p r)"
  using active_tags_softDeleteByPostID [OF assms] set_selectActiveByPostID [OF assms] assms
  by (auto simp: fun_eq_iff active_tags_upsert active_tags_softDelete
      intro: upsertActive_ok PostTag_softDelete_ok softDeleteByPostID_ok)

theorem post_tag_sets_witness:
  "active_tags (upsertActive 1 7 3 []) 7 = {3}"
proof -
  have "post_tags_ok []" "active_tags [] 7 = {}" by (simp_all add: post_tags_ok_def active_tags_def)
  with post_tag_sets [of "[]" 1 7 3] show ?thesis by simp
qed

text \<open>
  The heap of \<open>selectComments\<close>. Keeping the \<open>limit\<close> largest keys in a min-heap while scanning
  the rows in any order, and draining it, gives the active comments of the post before the
  cursor, sorted by falling key and cut off at \<open>limit\<close>.
\<close>

theorem select_comments_heap:
  assumes "db_ok comment_ID r" "0 < limit"
  shows "selectComments postID limit lastID r =
    page_of comment_ID limit lastID
      (filter (\<lambda>c. comment_PostID c = postID \<and> comment_Status c = CommentStatusActive) (db_rows r))"
  by (rule selectComments_page [OF assms])

theorem select_comments_heap_witness:
  "selectComments 1 5 0 demo_comments = page_of comment_ID 5 0
    (filter (\<lambda>c. comment_PostID c = 1 \<and> comment_Status c = CommentStatusActive) (db_rows demo_comments))"
  by (rule select_comments_heap) (simp_all add: db_ok_def entity_eval)

section \<open>Transactions and guards\<close>

text \<open>
  C1: a transaction is all or nothing. Take any body made of calls of the transaction's
  repositories, draws and hook registrations, in any order and with any control flow. If it fails
  after whatever writes, all thirteen repositories are as they were before the transaction. If it
  succeeds, exactly the store it ended with is kept, and the answer is the first error of its
  hooks, if any: a failing hook undoes nothing.
\<close>

theorem transaction_all_or_nothing:
  assumes "via_calls fn" "fn e (begin_tx tick s) = Some (res, t)"
  shows "WithinTransaction e tick fn s = Some (case res of
      Inl err \<Rightarrow> (Inl err, s)
    | Inr a \<Rightarrow> (case run_hooks (tx_afterCommit t) of
        Some err \<Rightarrow> (Inl err, tx_store t) | None \<Rightarrow> (Inr a, tx_store t)))"
proof -
  have "restore_all t = s"
    using tx_calls_restore [OF via_callsD [OF assms]] by simp
  with assms(2) show ?thesis
    by (cases res) (simp_all add: WithinTransaction_def split: option.split)
qed

text \<open>A body that saves a board and appends a message to the outbox, and then fails.\<close>

definition demo_failing_body :: "unit action" where
  "demo_failing_body =
     bindT (boardTx_Save (NewBoard 1 ''b3'' ''new'' [])) (\<lambda>_.
     bindT (outboxTx_Append [demo_message ''a'' 1]) (\<lambda>_. throwT (Sentinel ErrForbidden)))"

theorem transaction_all_or_nothing_witness:
  "(\<exists>t. demo_failing_body demo_env (begin_tx 0 demo_store) = Some (Inl (Sentinel ErrForbidden), t) \<and>
      length (db_Data (st_boards (tx_store t))) = 3 \<and> length (outbox_data (st_outbox (tx_store t))) = 1) \<and>
   WithinTransaction demo_env 0 demo_failing_body demo_store =
     Some (Inl (Sentinel ErrForbidden), demo_store)"
proof -
  have v: "via_calls demo_failing_body" unfolding demo_failing_body_def by (intro via_calls_intros)
  obtain c t1 where 1: "boardTx_Save (NewBoard 1 ''b3'' ''new'' []) demo_env (begin_tx 0 demo_store) = Some (Inr c, t1)"
    and s1: "tx_store t1 = st_boards_update (\<lambda>_. snd (Board_save (NewBoard 1 ''b3'' ''new'' []) demo_boards)) demo_store"
    by (simp add: boardTx_Save_def write_part_def always_def demo_store_simps case_prod_unfold Let_def)
  obtain at t2 where 2: "outboxTx_Append [demo_message ''a'' 1] demo_env t1 = Some (Inr (), t2)"
    and s2: "tx_store t2 =
      st_outbox_update (\<lambda>_. Outbox_append_one at (demo_message ''a'' 1) (st_outbox (tx_store t1))) (tx_store t1)"
    by (simp add: outboxTx_Append_def bindT_def envT_def nowT_def write_part_def checked_def Outbox_append_def
        demo_env_simps Let_def)
  from 1 2 have t: "demo_failing_body demo_env (begin_tx 0 demo_store) = Some (Inl (Sentinel ErrForbidden), t2)"
    by (simp add: demo_failing_body_def bindT_def throwT_def)
  have l: "length (db_Data (st_boards (tx_store t2))) = 3" "length (outbox_data (st_outbox (tx_store t2))) = 1"
    by (simp_all add: s1 s2 demo_store_simps Board_save_def demo_boards_def Outbox_append_one_def
        NewOutboxRepository_def demo_message_def Outbox_defaults_def Let_def)
  from transaction_all_or_nothing [OF v t] t l show ?thesis by simp
qed

text \<open>
  C40: two calls that never return. Inside a transaction, marking all notifications as read waits
  for the lock its own preparation has taken, and so does counting a user's drafts after the
  transaction has written a post: both call the locking method of the repository.
\<close>

theorem transaction_self_deadlock:
  "WithinTransaction e tick (notificationTx_MarkAllReadByRecipientUserID u) s = None \<and>
   WithinTransaction e tick (bindT (postTx_Save p) (\<lambda>_. postTx_CountDraftPostsByAuthorID a)) s = None"
  by (simp add: WithinTransaction_def mark_all_blocks)
    (simp add: bindT_def postTx_Save_def postTx_CountDraftPostsByAuthorID_def write_part_def enter_part_def
      capturePost_def always_def Let_def begin_tx_def split: prod.split)

text \<open>
  Concealment. To a user who is not an administrator, a post on a hidden board is answered
  exactly like a post that does not exist, with the caller's own error and no trace in the state.
\<close>

theorem hidden_board_conceals:
  assumes "\<not> IsAdmin u" "selectPostByID i (st_posts (tx_store t)) = Some p"
    and "selectBoardByID (post_BoardID p) (st_boards (tx_store t)) = Some b" "board_Hidden b"
    and "selectPostByID j (st_posts (tx_store t)) = None"
    and "\<And>label. env_fault e label = None"
  shows "EnsurePostVisibleForUser (Some u) i (Some concealed) act e t = Some (Inl concealed, t) \<and>
    EnsurePostVisibleForUser (Some u) i (Some concealed) act e t =
      EnsurePostVisibleForUser (Some u) j (Some concealed) act e t"
  using hidden_post_concealed [OF assms(3,4,2,1) assms(6,6)]
    missing_post_concealed [OF assms(5) assms(6)] by simp

theorem hidden_board_conceals_witness:
  "EnsurePostVisibleForUser (Some demo_bob) 2 (Some (Sentinel ErrPostNotFound)) ''x'' demo_env
     (begin_tx 0 demo_store) = Some (Inl (Sentinel ErrPostNotFound), begin_tx 0 demo_store)"
proof -
  let ?p = "(NewPost 3 ''p2'' ''plans'' ''text'' 1 2)\<lparr>post_ID := 2\<rparr>"
  have "\<not> IsAdmin demo_bob" "selectPostByID 2 (st_posts demo_store) = Some ?p"
    "selectPostByID 9 (st_posts demo_store) = None"
    "selectBoardByID (post_BoardID ?p) (st_boards demo_store) = Some (SetHidden True ((NewBoard 1 ''b2'' ''staff'' [])\<lparr>board_ID := 2\<rparr>))"
    "board_Hidden (SetHidden True ((NewBoard 1 ''b2'' ''staff'' [])\<lparr>board_ID := 2\<rparr>))"
    by (simp_all add: demo_store_simps entity_eval policy_eval)
  with hidden_board_conceals [of demo_bob 2 "begin_tx 0 demo_store" ?p _ 9 demo_env] show ?thesis
    by (simp add: demo_env_simps)
qed

text \<open>
  Notification snapshots stay within their limit and are cut only where a character starts:
  the snapshot is the trimmed text itself or, trimmed again, a prefix of it that ends at the
  start of one of its characters.
\<close>

theorem truncate_snapshot:
  assumes "0 < limit"
  shows "int (length (TruncateNotificationSnapshot s limit)) \<le> limit \<and>
    (TruncateNotificationSnapshot s limit = TrimSpace s \<or>
     TruncateNotificationSnapshot s limit = [] \<or>
     (\<exists>i \<in> set (rune_starts 0 (map of_char (TrimSpace s))).
        int i \<le> limit \<and> TruncateNotificationSnapshot s limit = TrimSpace (take i (TrimSpace s))))"
proof -
  let ?st = "takeWhile (\<lambda>i. int i \<le> limit) (rune_starts 0 (map of_char (TrimSpace s)))"
  have "?st \<noteq> [] \<Longrightarrow> last ?st \<in> set (rune_starts 0 (map of_char (TrimSpace s))) \<and> int (last ?st) \<le> limit"
    by (meson last_in_set set_takeWhileD)
  then show ?thesis
    using Truncate_bound [OF assms, of s] by (auto simp: TruncateNotificationSnapshot_def Let_def)
qed

theorem truncate_snapshot_witness:
  "int (length (TruncateNotificationSnapshot ''hello world'' 5)) \<le> 5"
  using truncate_snapshot [of 5 "''hello world''"] by simp

end
