(* ===== verification/Cache.thy ===== *)
theory Cache
  imports GoStrings Errors
begin

text \<open>
  \<open>infrastructure/cache/inmemory/in_memory_cache.go\<close>: the cache behind the list queries. An
  entry may expire; beside the store the cache keeps, for every prefix of a stored key that
  ends in a colon, the set of the keys with that prefix, which \<open>DeleteByPrefix\<close> uses instead
  of scanning the store. The invariant \<open>cache_ok\<close> says that the index is exactly that, every
  operation keeps it, and so the indexed deletion and the scan remove the same keys.

  The clock is read anew at each step of a call; \<open>clk\<close> gives its successive readings. An
  operation is one critical section after the other, with no other call in between, and so
  \<open>singleflight\<close> runs its function once and for this caller.
\<close>

section \<open>The cache\<close>

record 'v cacheEntry =
  entry_value :: 'v
  entry_expiresAt :: time
  entry_hasExpiry :: bool

record 'v cache =
  cache_store :: "(string \<times> 'v cacheEntry) list"
  cache_prefixIndex :: "(string \<times> string list) list"

definition NewInMemoryCache :: "'v cache" where
  "NewInMemoryCache = \<lparr>cache_store = [], cache_prefixIndex = []\<rparr>"

text \<open>
  The prefixes that end in a colon. Ranging over the characters or over the bytes finds the
  same colons, for no byte of a longer character is one.
\<close>

definition cachePrefixes :: "string \<Rightarrow> string list" where
  "cachePrefixes key =
     map (\<lambda>idx. take (idx + 1) key) (filter (\<lambda>idx. key ! idx = CHR '':'') [0 ..< length key])"

text \<open>A set of keys is a list without repetitions.\<close>

definition index_add :: "string \<Rightarrow> string \<Rightarrow> 'v cache \<Rightarrow> 'v cache" where
  "index_add key prefix c =
     (let keys = (case map_of (cache_prefixIndex c) prefix of Some ks \<Rightarrow> ks | None \<Rightarrow> [])
      in c\<lparr>cache_prefixIndex := put_row prefix (List.insert key keys) (cache_prefixIndex c)\<rparr>)"

definition addToPrefixIndexLocked :: "string \<Rightarrow> 'v cache \<Rightarrow> 'v cache" where
  "addToPrefixIndexLocked key c = fold (index_add key) (cachePrefixes key) c"

definition index_remove :: "string \<Rightarrow> string \<Rightarrow> 'v cache \<Rightarrow> 'v cache" where
  "index_remove key prefix c =
     (case map_of (cache_prefixIndex c) prefix of
        None \<Rightarrow> c
      | Some keys \<Rightarrow>
          let rest = removeAll key keys
          in if rest = [] then c\<lparr>cache_prefixIndex := del_row prefix (cache_prefixIndex c)\<rparr>
             else c\<lparr>cache_prefixIndex := put_row prefix rest (cache_prefixIndex c)\<rparr>)"

definition removeFromPrefixIndexLocked :: "string \<Rightarrow> 'v cache \<Rightarrow> 'v cache" where
  "removeFromPrefixIndexLocked key c = fold (index_remove key) (cachePrefixes key) c"

definition setLocked :: "string \<Rightarrow> 'v cacheEntry \<Rightarrow> 'v cache \<Rightarrow> 'v cache" where
  "setLocked key entry c =
     (let c1 = (case map_of (cache_store c) key of
                  None \<Rightarrow> addToPrefixIndexLocked key c
                | Some _ \<Rightarrow> c)
      in c1\<lparr>cache_store := put_row key entry (cache_store c1)\<rparr>)"

definition deleteLocked :: "string \<Rightarrow> 'v cache \<Rightarrow> 'v cache" where
  "deleteLocked key c =
     (case map_of (cache_store c) key of
        None \<Rightarrow> c
      | Some _ \<Rightarrow> removeFromPrefixIndexLocked key (c\<lparr>cache_store := del_row key (cache_store c)\<rparr>))"

definition keysForIndexedPrefixLocked :: "string \<Rightarrow> 'v cache \<Rightarrow> string list" where
  "keysForIndexedPrefixLocked prefix c =
     (case map_of (cache_prefixIndex c) prefix of Some keys \<Rightarrow> keys | None \<Rightarrow> [])"

definition expired :: "time \<Rightarrow> 'v cacheEntry \<Rightarrow> bool" where
  "expired now entry \<longleftrightarrow> entry_hasExpiry entry \<and> now > entry_expiresAt entry"

definition Cache_Get :: "time \<Rightarrow> time \<Rightarrow> string \<Rightarrow> 'v cache \<Rightarrow> 'v option \<times> 'v cache" where
  "Cache_Get now now' key c =
     (case map_of (cache_store c) key of
        None \<Rightarrow> (None, c)
      | Some entry \<Rightarrow>
          if expired now entry
          then (None, if expired now' entry then deleteLocked key c else c)
          else (Some (entry_value entry), c))"

definition Cache_Set :: "string \<Rightarrow> 'v \<Rightarrow> 'v cache \<Rightarrow> 'v cache" where
  "Cache_Set key value c =
     setLocked key \<lparr>entry_value = value, entry_expiresAt = 0, entry_hasExpiry = False\<rparr> c"

definition second :: duration where
  "second = 10 ^ 9"

definition SetWithTTL :: "time \<Rightarrow> string \<Rightarrow> 'v \<Rightarrow> int \<Rightarrow> 'v cache \<Rightarrow> 'v cache" where
  "SetWithTTL now key value ttlSeconds c =
     (if ttlSeconds \<le> 0 then Cache_Set key value c
      else setLocked key \<lparr>entry_value = value, entry_expiresAt = now + ttlSeconds * second,
                          entry_hasExpiry = True\<rparr> c)"

definition Cache_Delete :: "string \<Rightarrow> 'v cache \<Rightarrow> 'v cache" where
  "Cache_Delete key c = deleteLocked key c"

definition has_suffix :: "string \<Rightarrow> string \<Rightarrow> bool" where
  "has_suffix s x \<longleftrightarrow> has_prefix (rev s) (rev x)"

definition DeleteByPrefix :: "string \<Rightarrow> 'v cache \<Rightarrow> int \<times> 'v cache" where
  "DeleteByPrefix prefix c =
     (if has_suffix prefix '':''
      then let keys = keysForIndexedPrefixLocked prefix c
           in (int (length keys), fold deleteLocked keys c)
      else fold (\<lambda>key (deleted, c).
             if has_prefix key prefix then (deleted + 1, deleteLocked key c) else (deleted, c))
           (map fst (cache_store c)) (0, c))"

text \<open>The keys of a range, until one of them is found to hold an entry that has not expired.\<close>

fun exists_live :: "(nat \<Rightarrow> time) \<Rightarrow> string list \<Rightarrow> 'v cache \<Rightarrow> bool \<times> 'v cache" where
  "exists_live clk [] c = (False, c)"
| "exists_live clk (key # keys) c =
     (case map_of (cache_store c) key of
        None \<Rightarrow> exists_live (\<lambda>n. clk (Suc n)) keys c
      | Some entry \<Rightarrow>
          if expired (clk 0) entry then exists_live (\<lambda>n. clk (Suc n)) keys (deleteLocked key c)
          else (True, c))"

definition ExistsByPrefix :: "(nat \<Rightarrow> time) \<Rightarrow> string \<Rightarrow> 'v cache \<Rightarrow> bool \<times> 'v cache" where
  "ExistsByPrefix clk prefix c =
     (if has_suffix prefix '':''
      then exists_live clk (keysForIndexedPrefixLocked prefix c) c
      else exists_live clk (filter (\<lambda>key. has_prefix key prefix) (map fst (cache_store c))) c)"

text \<open>\<open>loaded\<close> is what the loader answers when it is called.\<close>

definition GetOrSetWithTTL ::
  "(nat \<Rightarrow> time) \<Rightarrow> string \<Rightarrow> int \<Rightarrow> (go_error + 'v) \<Rightarrow> 'v cache \<Rightarrow> (go_error + 'v) \<times> 'v cache" where
  "GetOrSetWithTTL clk key ttlSeconds loaded c =
     (case Cache_Get (clk 0) (clk 1) key c of
        (Some value, c1) \<Rightarrow> (Inr value, c1)
      | (None, c1) \<Rightarrow>
          (case Cache_Get (clk 2) (clk 3) key c1 of
             (Some cached, c2) \<Rightarrow> (Inr cached, c2)
           | (None, c2) \<Rightarrow>
               (case loaded of
                  Inl err \<Rightarrow> (Inl err, c2)
                | Inr value \<Rightarrow> (Inr value, SetWithTTL (clk 4) key value ttlSeconds c2))))"

section \<open>The prefixes of a key\<close>

lemma has_prefix_iff: "has_prefix s p \<longleftrightarrow> (\<exists>r. s = p @ r)"
  by (metis append_eq_conv_conj append_take_drop_id has_prefix_def)

lemma has_suffix_iff: "has_suffix s x \<longleftrightarrow> (\<exists>r. s = r @ x)"
  by (auto simp: has_suffix_def has_prefix_iff) (metis rev_append rev_rev_ident)

lemma cachePrefixes_iff:
  "p \<in> set (cachePrefixes key) \<longleftrightarrow> has_prefix key p \<and> has_suffix p '':''"
proof
  assume "p \<in> set (cachePrefixes key)"
  then obtain i where i: "i < length key" "key ! i = CHR '':''" "p = take (i + 1) key"
    by (auto simp: cachePrefixes_def)
  then have "p = take i key @ [CHR '':'']" by (simp add: take_Suc_conv_app_nth)
  moreover have "key = p @ drop (i + 1) key" using i(3) by simp
  ultimately show "has_prefix key p \<and> has_suffix p '':''"
    unfolding has_prefix_iff has_suffix_iff by blast
next
  assume "has_prefix key p \<and> has_suffix p '':''"
  then obtain r q where key: "key = p @ r" and p: "p = q @ [CHR '':'']"
    by (auto simp: has_prefix_iff has_suffix_iff)
  then have "length q < length key" "key ! length q = CHR '':''" "p = take (length q + 1) key"
    by (simp_all add: nth_append)
  then show "p \<in> set (cachePrefixes key)"
    by (auto simp: cachePrefixes_def intro!: image_eqI [of _ _ "length q"])
qed

section \<open>The index\<close>

definition indexed :: "'v cache \<Rightarrow> string \<Rightarrow> string set" where
  "indexed c prefix = set (keysForIndexedPrefixLocked prefix c)"

definition stored :: "'v cache \<Rightarrow> string set" where
  "stored c = fst ` set (cache_store c)"

definition index_ok :: "'v cache \<Rightarrow> bool" where
  "index_ok c \<longleftrightarrow> (\<forall>prefix. distinct (keysForIndexedPrefixLocked prefix c))"

definition cache_ok :: "'v cache \<Rightarrow> bool" where
  "cache_ok c \<longleftrightarrow> distinct (map fst (cache_store c)) \<and> index_ok c \<and>
     (\<forall>prefix. indexed c prefix =
        (if has_suffix prefix '':'' then {key \<in> stored c. has_prefix key prefix} else {}))"

lemma cache_ok_new: "cache_ok NewInMemoryCache"
  by (simp add: cache_ok_def index_ok_def NewInMemoryCache_def indexed_def stored_def
      keysForIndexedPrefixLocked_def)

lemma index_step_store [simp]:
  "cache_store (index_add key p c) = cache_store c" "cache_store (index_remove key p c) = cache_store c"
  by (simp_all add: index_add_def index_remove_def Let_def split: option.split)

lemma index_step_keys:
  "keysForIndexedPrefixLocked q (index_add key p c) =
    (if q = p then List.insert key (keysForIndexedPrefixLocked p c) else keysForIndexedPrefixLocked q c)"
  "keysForIndexedPrefixLocked q (index_remove key p c) =
    (if q = p then removeAll key (keysForIndexedPrefixLocked p c) else keysForIndexedPrefixLocked q c)"
  by (simp_all add: keysForIndexedPrefixLocked_def index_add_def index_remove_def Let_def split: option.split)

lemma index_step_ok:
  "index_ok c \<Longrightarrow> index_ok (index_add key p c)" "index_ok c \<Longrightarrow> index_ok (index_remove key p c)"
  by (simp_all add: index_ok_def index_step_keys distinct_removeAll)

lemma index_fold:
  "cache_store (fold (index_add key) ps c) = cache_store c \<and>
   indexed (fold (index_add key) ps c) q = (if q \<in> set ps then insert key (indexed c q) else indexed c q) \<and>
   (index_ok c \<longrightarrow> index_ok (fold (index_add key) ps c))"
  "cache_store (fold (index_remove key) ps c) = cache_store c \<and>
   indexed (fold (index_remove key) ps c) q = (if q \<in> set ps then indexed c q - {key} else indexed c q) \<and>
   (index_ok c \<longrightarrow> index_ok (fold (index_remove key) ps c))"
  by (induction ps arbitrary: c) (auto simp: indexed_def index_step_keys index_step_ok)

lemma index_store [simp]:
  "cache_store (addToPrefixIndexLocked key c) = cache_store c"
  "cache_store (removeFromPrefixIndexLocked key c) = cache_store c"
  by (simp_all add: addToPrefixIndexLocked_def removeFromPrefixIndexLocked_def index_fold)

lemma index_keys:
  "indexed (addToPrefixIndexLocked key c) p =
    (if p \<in> set (cachePrefixes key) then insert key (indexed c p) else indexed c p)"
  "index_ok c \<Longrightarrow> index_ok (addToPrefixIndexLocked key c)"
  "indexed (removeFromPrefixIndexLocked key c) p =
    (if p \<in> set (cachePrefixes key) then indexed c p - {key} else indexed c p)"
  "index_ok c \<Longrightarrow> index_ok (removeFromPrefixIndexLocked key c)"
  by (simp_all add: addToPrefixIndexLocked_def removeFromPrefixIndexLocked_def index_fold)

lemma keys_store_irrelevant [simp]:
  "keysForIndexedPrefixLocked p (c\<lparr>cache_store := x\<rparr>) = keysForIndexedPrefixLocked p c"
  "indexed (c\<lparr>cache_store := x\<rparr>) p = indexed c p" "index_ok (c\<lparr>cache_store := x\<rparr>) = index_ok c"
  by (simp_all add: keysForIndexedPrefixLocked_def indexed_def index_ok_def)

lemma setLocked_lookup [simp]:
  "map_of (cache_store (setLocked key entry c)) = (map_of (cache_store c))(key \<mapsto> entry)"
  by (simp add: setLocked_def Let_def split: option.split)

lemma deleteLocked_lookup [simp]:
  "map_of (cache_store (deleteLocked key c)) = (map_of (cache_store c))(key := None)"
  by (auto simp: deleteLocked_def split: option.split)

lemma setLocked_ok [inv_intros]:
  assumes "cache_ok c"
  shows "cache_ok (setLocked key entry c)"
proof -
  let ?c = "setLocked key entry c"
  have st: "stored ?c = insert key (stored c)"
    by (simp add: setLocked_def Let_def stored_def keys_put_row split: option.split)
  have ix: "indexed ?c p = (if p \<in> set (cachePrefixes key) then insert key (indexed c p) else indexed c p)"
    and iok: "index_ok ?c" for p
  proof -
    show "index_ok ?c" using assms
      by (simp add: setLocked_def Let_def cache_ok_def index_keys split: option.split)
    show "indexed ?c p = (if p \<in> set (cachePrefixes key) then insert key (indexed c p) else indexed c p)"
    proof (cases "map_of (cache_store c) key")
      case None
      then show ?thesis by (simp add: setLocked_def index_keys)
    next
      case (Some x)
      then have "key \<in> stored c" by (force simp: stored_def dest: map_of_SomeD)
      with Some assms show ?thesis
        by (auto simp: setLocked_def cache_ok_def cachePrefixes_iff split: if_splits)
    qed
  qed
  have "distinct (map fst (cache_store ?c))"
    using assms by (simp add: setLocked_def Let_def cache_ok_def distinct_put_row split: option.split)
  then show ?thesis using assms iok by (auto simp: cache_ok_def ix st cachePrefixes_iff)
qed

lemma deleteLocked_ok [inv_intros]:
  assumes "cache_ok c"
  shows "cache_ok (deleteLocked key c)"
proof (cases "map_of (cache_store c) key")
  case None
  with assms show ?thesis by (simp add: deleteLocked_def)
next
  case (Some x)
  let ?c = "deleteLocked key c"
  have st: "stored ?c = stored c - {key}"
    using Some by (auto simp: deleteLocked_def stored_def set_del_row image_iff)
  have ix: "indexed ?c p = (if p \<in> set (cachePrefixes key) then indexed c p - {key} else indexed c p)"
    and iok: "index_ok ?c" for p
    using Some assms by (simp_all add: deleteLocked_def cache_ok_def index_keys)
  have "distinct (map fst (cache_store ?c))"
    using assms Some by (simp add: deleteLocked_def cache_ok_def distinct_del_row)
  then show ?thesis using assms iok by (auto simp: cache_ok_def ix st cachePrefixes_iff)
qed

lemma fold_deleteLocked:
  "cache_ok c \<Longrightarrow> cache_ok (fold deleteLocked keys c) \<and>
    map_of (cache_store (fold deleteLocked keys c)) = (map_of (cache_store c)) |` (- set keys)"
proof (induction keys arbitrary: c)
  case (Cons k ks)
  from Cons.IH [OF deleteLocked_ok [OF Cons.prems]] show ?case
    by (auto simp: restrict_map_def fun_eq_iff)
qed (simp add: restrict_map_def)

text \<open>
  The operations keep the invariant, and deleting by a prefix removes the keys with that prefix
  and no other, whether it goes through the index or through the store.
\<close>

lemma fold_scan_delete:
  "fold (\<lambda>key (deleted, c).
      if has_prefix key prefix then (deleted + 1, deleteLocked key c) else (deleted, c)) keys (n, c) =
    (n + int (length (filter (\<lambda>key. has_prefix key prefix) keys)),
     fold deleteLocked (filter (\<lambda>key. has_prefix key prefix) keys) c)"
  by (induction keys arbitrary: n c) auto

lemma DeleteByPrefix_spec:
  assumes "cache_ok c" "DeleteByPrefix prefix c = (n, c')"
  shows "cache_ok c'"
    "map_of (cache_store c') = (map_of (cache_store c)) |` {key. \<not> has_prefix key prefix}"
    "n = int (card {key \<in> stored c. has_prefix key prefix})"
proof -
  define keys where "keys = (if has_suffix prefix '':'' then keysForIndexedPrefixLocked prefix c
      else filter (\<lambda>key. has_prefix key prefix) (map fst (cache_store c)))"
  have r: "n = int (length keys) \<and> c' = fold deleteLocked keys c"
    using assms(2) by (auto simp: DeleteByPrefix_def keys_def fold_scan_delete Let_def split: if_splits)
  have s: "set keys = {key \<in> stored c. has_prefix key prefix}"
    using assms(1) by (auto simp: keys_def cache_ok_def indexed_def stored_def)
  have "distinct keys" using assms(1) by (simp add: keys_def cache_ok_def index_ok_def)
  then show "n = int (card {key \<in> stored c. has_prefix key prefix})"
    using r s distinct_card [of keys] by simp
  show "cache_ok c'" using fold_deleteLocked [OF assms(1), of keys] r by simp
  have "map_of (cache_store c') = (map_of (cache_store c)) |` (- set keys)"
    using fold_deleteLocked [OF assms(1), of keys] r by simp
  also have "\<dots> = (map_of (cache_store c)) |` {key. \<not> has_prefix key prefix}"
  proof
    fix k
    show "(map_of (cache_store c) |` (- set keys)) k =
        (map_of (cache_store c) |` {key. \<not> has_prefix key prefix}) k"
      using map_of_None_iff [of "cache_store c" k] by (auto simp: restrict_map_def s stored_def)
  qed
  finally show "map_of (cache_store c') = (map_of (cache_store c)) |` {key. \<not> has_prefix key prefix}" .
qed

lemma Cache_Get_ok [inv_intros]: "cache_ok c \<Longrightarrow> cache_ok (snd (Cache_Get now now' key c))"
  by (simp add: Cache_Get_def deleteLocked_ok split: option.split)

lemma SetWithTTL_ok [inv_intros]: "cache_ok c \<Longrightarrow> cache_ok (SetWithTTL now key value ttl c)"
  by (simp add: SetWithTTL_def Cache_Set_def setLocked_ok)

lemma Cache_Delete_ok [inv_intros]: "cache_ok c \<Longrightarrow> cache_ok (Cache_Delete key c)"
  by (simp add: Cache_Delete_def deleteLocked_ok)

lemma exists_live_ok: "cache_ok c \<Longrightarrow> cache_ok (snd (exists_live clk keys c))"
  by (induction keys arbitrary: clk c) (simp_all add: deleteLocked_ok split: option.split)

lemma GetOrSet_ok [inv_intros]:
  assumes "cache_ok c"
  shows "cache_ok (snd (GetOrSetWithTTL clk key ttl loaded c))"
proof -
  obtain o1 c1 where 1: "Cache_Get (clk 0) (clk 1) key c = (o1, c1)" by fastforce
  obtain o2 c2 where 2: "Cache_Get (clk 2) (clk 3) key c1 = (o2, c2)" by fastforce
  have "cache_ok c1" using Cache_Get_ok [OF assms, of "clk 0" "clk 1" key] 1 by simp
  moreover from Cache_Get_ok [OF this, of "clk 2" "clk 3" key] 2 have "cache_ok c2" by simp
  ultimately show ?thesis
    using 1 2 by (simp add: GetOrSetWithTTL_def SetWithTTL_ok split: option.split sum.split)
qed

section \<open>Hits and misses\<close>

text \<open>What a reader sees: the value under a key at an instant.\<close>

definition cached_at :: "'v cache \<Rightarrow> time \<Rightarrow> string \<Rightarrow> 'v option" where
  "cached_at c now key =
     (case map_of (cache_store c) key of
        Some entry \<Rightarrow> if expired now entry then None else Some (entry_value entry)
      | None \<Rightarrow> None)"

lemma Cache_Get_reads: "fst (Cache_Get now now' key c) = cached_at c now key"
  by (simp add: Cache_Get_def cached_at_def split: option.split)

lemma GetOrSet_hit:
  assumes "cached_at c (clk 0) key = Some v"
  shows "GetOrSetWithTTL clk key ttl loaded c = (Inr v, c)"
proof -
  from assms obtain entry where "map_of (cache_store c) key = Some entry" "\<not> expired (clk 0) entry"
    "entry_value entry = v"
    by (auto simp: cached_at_def split: option.splits if_splits)
  then show ?thesis by (simp add: GetOrSetWithTTL_def Cache_Get_def)
qed

lemma GetOrSet_absent:
  "map_of (cache_store c) key = None \<Longrightarrow> GetOrSetWithTTL clk key ttl loaded c =
    (case loaded of Inl err \<Rightarrow> (Inl err, c) | Inr v \<Rightarrow> (Inr v, SetWithTTL (clk 4) key v ttl c))"
  by (simp add: GetOrSetWithTTL_def Cache_Get_def)

lemma SetWithTTL_reads:
  "cached_at (SetWithTTL now key v ttl c) now' key =
    (if 0 < ttl \<and> now' > now + ttl * second then None else Some v)"
  "key' \<noteq> key \<Longrightarrow> cached_at (SetWithTTL now key v ttl c) now' key' = cached_at c now' key'"
  by (auto simp: SetWithTTL_def Cache_Set_def cached_at_def expired_def)

end
