(* ===== verification/Models.thy ===== *)
theory Models
  imports SvcCommon Cache
begin

text \<open>
  What the queries answer: the models of \<open>application/model\<close>, their conversion from the
  entities (\<open>application/mapper/dto_mapper.go\<close>, \<open>service/common/user_reference.go\<close> and the
  conversions of the services), and the values the services keep in the cache. A cached value
  has one of five types; the services check the type when they read one back.
\<close>

section \<open>Text\<close>

function ReplaceAll :: "string \<Rightarrow> string \<Rightarrow> string \<Rightarrow> string" where
  "ReplaceAll s old new =
     (if s = [] then []
      else if old \<noteq> [] \<and> has_prefix s old then new @ ReplaceAll (drop (length old) s) old new
      else hd s # ReplaceAll (tl s) old new)"
  by pat_completeness auto
termination by (relation "measure (\<lambda>(s, _). length s)") auto

declare ReplaceAll.simps [simp del]

text \<open>The text before and after the first occurrence of a separator.\<close>

fun cut_at :: "string \<Rightarrow> string \<Rightarrow> (string \<times> string) option" where
  "cut_at [] sep = (if sep = [] then Some ([], []) else None)"
| "cut_at (c # s) sep =
     (if has_prefix (c # s) sep then Some ([], drop (length sep) (c # s))
      else map_option (\<lambda>(a, b). (c # a, b)) (cut_at s sep))"

text \<open>\<open>strings.Split\<close> by a separator that is not empty; every part takes at least one byte.\<close>

fun split_parts :: "nat \<Rightarrow> string \<Rightarrow> string \<Rightarrow> string list" where
  "split_parts 0 s sep = [s]"
| "split_parts (Suc n) s sep =
     (case cut_at s sep of None \<Rightarrow> [s] | Some (a, b) \<Rightarrow> a # split_parts n b sep)"

definition Split :: "string \<Rightarrow> string \<Rightarrow> string list" where
  "Split s sep = split_parts (length s) s sep"

text \<open>\<open>strings.Fields\<close> and \<open>strings.Join\<close>.\<close>

fun next_field :: "string \<Rightarrow> string \<times> string" where
  "next_field [] = ([], [])"
| "next_field (c # s) =
     (if strip_rune space_runes (c # s) \<noteq> None then ([], c # s)
      else case next_field s of (w, r) \<Rightarrow> (c # w, r))"

fun fields_from :: "nat \<Rightarrow> string \<Rightarrow> string list" where
  "fields_from 0 s = []"
| "fields_from (Suc n) s =
     (let s' = TrimLeft s in
      if s' = [] then [] else case next_field s' of (w, r) \<Rightarrow> w # fields_from n r)"

definition Fields :: "string \<Rightarrow> string list" where
  "Fields s = fields_from (length s) s"

fun Join :: "string list \<Rightarrow> string \<Rightarrow> string" where
  "Join [] sep = []"
| "Join [s] sep = s"
| "Join (s # t # ss) sep = s @ sep @ Join (t # ss) sep"

text \<open>
  A conversion to \<open>[]rune\<close>: the characters, each as its bytes, a byte that starts none as the
  replacement character.
\<close>

function rune_chunks :: "nat list \<Rightarrow> nat list list" where
  "rune_chunks bs =
     (if bs = [] then [] else take (rune_len bs) bs # rune_chunks (drop (rune_len bs) bs))"
  by pat_completeness auto
termination
  by (relation "measure length") (use rune_len_bounds(1) in \<open>auto simp: neq_Nil_conv\<close>)

declare rune_chunks.simps [simp del]

definition rune_bytes :: "nat list \<Rightarrow> nat list" where
  "rune_bytes chunk = (if length chunk = 1 \<and> 128 \<le> hd chunk then [239, 191, 189] else chunk)"

definition newline :: string where
  "newline = bytes [10]"

definition derivePostSummary :: "string \<Rightarrow> string" where
  "derivePostSummary content =
     (let normalized = TrimSpace (ReplaceAll content (bytes [13, 10]) newline) in
      if normalized = [] then []
      else let summary = Join (Fields (TrimSpace (hd (Split normalized (newline @ newline))))) '' '' in
           if summary = [] then []
           else let runes = rune_chunks (map of_char summary) in
                if length runes \<le> 180 then summary
                else map char_of (concat (map rune_bytes (take 177 runes))) @ ''...'')"

section \<open>Models\<close>

record board_model =
  bm_UUID :: string
  bm_Name :: string
  bm_Description :: string
  bm_Hidden :: bool
  bm_CreatedAt :: time

record board_list =
  bl_Boards :: "board_model list"
  bl_Limit :: int
  bl_Cursor :: string
  bl_HasMore :: bool
  bl_NextCursor :: "string option"

record post_model =
  pm_UUID :: string
  pm_Title :: string
  pm_Summary :: string
  pm_Content :: string
  pm_AuthorID :: int
  pm_AuthorUUID :: string
  pm_BoardUUID :: string
  pm_CreatedAt :: time
  pm_UpdatedAt :: time

record post_list =
  pl_Posts :: "post_model list"
  pl_Limit :: int
  pl_Cursor :: string
  pl_TotalCount :: int
  pl_HasMore :: bool
  pl_NextCursor :: "string option"

record tag_model =
  tm_ID :: int
  tm_Name :: string
  tm_CreatedAt :: time

record comment_model =
  cm_UUID :: string
  cm_Content :: string
  cm_AuthorID :: int
  cm_AuthorUUID :: string
  cm_PostUUID :: string
  cm_ParentID :: "int option"
  cm_ParentUUID :: "string option"
  cm_CreatedAt :: time

record comment_list =
  cl_Comments :: "comment_model list"
  cl_Limit :: int
  cl_Cursor :: string
  cl_HasMore :: bool
  cl_NextCursor :: "string option"

record reaction_model =
  rm_ID :: int
  rm_TargetType :: ReactionTargetType
  rm_TargetUUID :: string
  rm_Type :: ReactionType
  rm_UserID :: int
  rm_UserUUID :: string
  rm_CreatedAt :: time

record attachment_model =
  am_UUID :: string
  am_PostUUID :: string
  am_FileName :: string
  am_ContentType :: string
  am_SizeBytes :: int
  am_StorageKey :: string
  am_PreviewURL :: string
  am_CreatedAt :: time

record comment_detail =
  cd_Comment :: comment_model
  cd_Reactions :: "reaction_model list"
  cd_MyReactionType :: "ReactionType option"

record post_detail =
  pd_Post :: post_model
  pd_Tags :: "tag_model list"
  pd_Attachments :: "attachment_model list"
  pd_Comments :: "comment_detail list"
  pd_CommentsHasMore :: bool
  pd_Reactions :: "reaction_model list"
  pd_MyReactionType :: "ReactionType option"

datatype cached =
    CachedBoardList board_list
  | CachedPostList post_list
  | CachedPostDetail post_detail
  | CachedCommentList comment_list
  | CachedReactions "reaction_model list"
  | CachedUserID int

section \<open>Reading through the cache\<close>

text \<open>
  What the services do around \<open>GetOrSetWithTTL\<close>: an error is normalised under \<open>op\<close>, and
  a payload of another type is an error of its own. \<open>project\<close> is the type assertion.
\<close>

definition through_cache ::
  "(nat \<Rightarrow> time) \<Rightarrow> string \<Rightarrow> int \<Rightarrow> string \<Rightarrow> string \<Rightarrow> (cached \<Rightarrow> 'a option) \<Rightarrow> (go_error + cached) \<Rightarrow>
    cached cache \<Rightarrow> (go_error + 'a) \<times> cached cache" where
  "through_cache clk cacheKey ttlSeconds op payload project loaded c =
     (case GetOrSetWithTTL clk cacheKey ttlSeconds loaded c of
        (Inl err, c') \<Rightarrow>
          (Inl (case NormalizeCacheLoadError op (Some err) of Some e \<Rightarrow> e | None \<Rightarrow> err), c')
      | (Inr value, c') \<Rightarrow>
          (case project value of
             Some a \<Rightarrow> (Inr a, c')
           | None \<Rightarrow> (Inl (Mark ErrCacheFailure payload), c')))"

lemma through_cache_hit:
  "cached_at c (clk 0) key = Some v \<Longrightarrow> project v = Some a \<Longrightarrow>
    through_cache clk key ttl op payload project loaded c = (Inr a, c)"
  by (simp add: through_cache_def GetOrSet_hit)

text \<open>Two caches without the key give the same answer.\<close>

lemma through_cache_absent:
  "map_of (cache_store c) key = None \<Longrightarrow> map_of (cache_store d) key = None \<Longrightarrow>
    fst (through_cache clk key ttl op payload project loaded c) =
    fst (through_cache clk key ttl op payload project loaded d)"
  by (simp add: through_cache_def GetOrSet_absent split: sum.splits option.splits)

lemma through_cache_loads:
  "map_of (cache_store c) key = None \<Longrightarrow> loaded = Inr v \<Longrightarrow> project v = Some a \<Longrightarrow>
    through_cache clk key ttl op payload project loaded c = (Inr a, SetWithTTL (clk 4) key v ttl c)"
  by (simp add: through_cache_def GetOrSet_absent)

section \<open>Conversions\<close>

definition BoardFromEntity :: "board \<Rightarrow> board_model" where
  "BoardFromEntity b =
     \<lparr>bm_UUID = board_UUID b, bm_Name = board_Name b, bm_Description = board_Description b,
      bm_Hidden = board_Hidden b, bm_CreatedAt = board_CreatedAt b\<rparr>"

definition BoardsFromEntities :: "board list \<Rightarrow> board_model list" where
  "BoardsFromEntities items = map BoardFromEntity items"

definition PostFromEntity :: "post \<Rightarrow> post_model" where
  "PostFromEntity p =
     \<lparr>pm_UUID = post_UUID p, pm_Title = post_Title p, pm_Summary = derivePostSummary (post_Content p),
      pm_Content = post_Content p, pm_AuthorID = post_AuthorID p, pm_AuthorUUID = [],
      pm_BoardUUID = [], pm_CreatedAt = post_CreatedAt p, pm_UpdatedAt = post_UpdatedAt p\<rparr>"

definition CommentFromEntity :: "comment \<Rightarrow> comment_model" where
  "CommentFromEntity c =
     \<lparr>cm_UUID = comment_UUID c, cm_Content = comment_Content c, cm_AuthorID = comment_AuthorID c,
      cm_AuthorUUID = [], cm_PostUUID = [], cm_ParentID = comment_ParentID c, cm_ParentUUID = None,
      cm_CreatedAt = comment_CreatedAt c\<rparr>"

definition ReactionFromEntity :: "reaction \<Rightarrow> reaction_model" where
  "ReactionFromEntity r =
     \<lparr>rm_ID = reaction_ID r, rm_TargetType = reaction_TargetType r, rm_TargetUUID = [],
      rm_Type = reaction_Type r, rm_UserID = reaction_UserID r, rm_UserUUID = [],
      rm_CreatedAt = reaction_CreatedAt r\<rparr>"

definition TagFromEntity :: "tag \<Rightarrow> tag_model" where
  "TagFromEntity t = \<lparr>tm_ID = tag_ID t, tm_Name = tag_Name t, tm_CreatedAt = tag_CreatedAt t\<rparr>"

definition TagsFromEntities :: "tag list \<Rightarrow> tag_model list" where
  "TagsFromEntities items = map TagFromEntity items"

text \<open>Orphaned attachments and attachments to be deleted are not shown.\<close>

definition attachmentsFromEntities :: "string \<Rightarrow> attachment list \<Rightarrow> attachment_model list" where
  "attachmentsFromEntities postUUID items =
     map (\<lambda>a. \<lparr>am_UUID = attachment_UUID a, am_PostUUID = postUUID, am_FileName = attachment_FileName a,
               am_ContentType = attachment_ContentType a, am_SizeBytes = attachment_SizeBytes a,
               am_StorageKey = attachment_StorageKey a, am_PreviewURL = [],
               am_CreatedAt = attachment_CreatedAt a\<rparr>)
       (filter (\<lambda>a. \<not> (IsOrphaned a \<or> IsPendingDelete a)) items)"

text \<open>A conversion that fails on the first item it cannot convert.\<close>

fun mapE :: "('a \<Rightarrow> go_error + 'b) \<Rightarrow> 'a list \<Rightarrow> go_error + 'b list" where
  "mapE f [] = Inr []"
| "mapE f (x # xs) = bindE (f x) (\<lambda>y. bindE (mapE f xs) (\<lambda>ys. Inr (y # ys)))"

lemma mapE_Inr: "mapE f xs = Inr ys \<longleftrightarrow> list_all2 (\<lambda>x y. f x = Inr y) xs ys"
  by (induction xs arbitrary: ys) (auto simp: bindE_eq_Inr list_all2_Cons1)

definition users_missing :: "string \<Rightarrow> go_error" where
  "users_missing text =
     WrapRepository ''select users by ids including deleted'' (Some (External text None))"

definition postModelFromEntity :: "string \<Rightarrow> (int \<times> string) list \<Rightarrow> post \<Rightarrow> go_error + post_model" where
  "postModelFromEntity boardUUID authorUUIDs p =
     (case map_of authorUUIDs (post_AuthorID p) of
        None \<Rightarrow> Inl (users_missing ''post author not found'')
      | Some authorUUID \<Rightarrow>
          Inr ((PostFromEntity p)\<lparr>pm_AuthorUUID := authorUUID, pm_BoardUUID := boardUUID\<rparr>))"

definition commentModelFromEntity ::
  "string \<Rightarrow> (int \<times> string) list \<Rightarrow> (int \<times> string) list \<Rightarrow> comment \<Rightarrow> go_error + comment_model" where
  "commentModelFromEntity postUUID authorUUIDs parentUUIDs c =
     (case map_of authorUUIDs (comment_AuthorID c) of
        None \<Rightarrow> Inl (users_missing ''comment author not found'')
      | Some authorUUID \<Rightarrow>
          Inr ((CommentFromEntity c)\<lparr>cm_AuthorUUID := authorUUID, cm_PostUUID := postUUID,
            cm_ParentUUID := (case comment_ParentID c of
                                None \<Rightarrow> None | Some i \<Rightarrow> map_of parentUUIDs i)\<rparr>))"

definition reactionModelFromEntity ::
  "string \<Rightarrow> (int \<times> string) list \<Rightarrow> reaction \<Rightarrow> go_error + reaction_model" where
  "reactionModelFromEntity targetUUID userUUIDs r =
     (case map_of userUUIDs (reaction_UserID r) of
        None \<Rightarrow> Inl (users_missing ''reaction user not found'')
      | Some userUUID \<Rightarrow>
          Inr ((ReactionFromEntity r)\<lparr>rm_TargetUUID := targetUUID, rm_UserUUID := userUUID\<rparr>))"

section \<open>The users the models name\<close>

definition UserUUIDsForPosts :: "env \<Rightarrow> post list \<Rightarrow> store \<Rightarrow> go_error + (int \<times> string) list" where
  "UserUUIDsForPosts e posts s = UserUUIDsByIDs e (map post_AuthorID posts) s"

definition UserUUIDsForComments :: "env \<Rightarrow> comment list \<Rightarrow> store \<Rightarrow> go_error + (int \<times> string) list" where
  "UserUUIDsForComments e comments s = UserUUIDsByIDs e (map comment_AuthorID comments) s"

definition UserUUIDsForReactions :: "env \<Rightarrow> reaction list \<Rightarrow> store \<Rightarrow> go_error + (int \<times> string) list" where
  "UserUUIDsForReactions e reactions s = UserUUIDsByIDs e (map reaction_UserID reactions) s"

text \<open>Whoever is asked for is there, under the right UUID, or the whole lookup fails.\<close>

lemma uuids_of_keeps:
  "uuids_of usersByID ids out = Inr m \<Longrightarrow>
    map_of m = map_of out ++ (\<lambda>i. if i \<in> set ids then map_option user_UUID (map_of usersByID i) else None) \<and>
    (\<forall>i \<in> set ids. map_of usersByID i \<noteq> None)"
proof (induction ids arbitrary: out)
  case (Cons i ids)
  then obtain u where u: "map_of usersByID i = Some u"
    and r: "uuids_of usersByID ids (put_row i (user_UUID u) out) = Inr m"
    by (auto split: option.splits)
  from Cons.IH [OF r] u show ?case by (auto simp: map_add_def fun_eq_iff split: option.splits)
qed (simp add: map_add_def)

end
