(* ===== verification/PostParts.thy ===== *)
theory PostParts
  imports Demo Models
begin

text \<open>
  The coordinators the post commands share: \<open>service/post/tag_coordinator.go\<close> (normalised tag
  names and the tags of a post), \<open>attachment_coordinator.go\<close> (the attachments a text embeds) and
  \<open>deletion_workflow.go\<close>, which deletes the comments of a post in batches.

  The batch loop ends when a batch is not full. It is a \<open>partial_function\<close>: that it returns is
  proved, by the number of active comments, which every full batch lowers. It deletes every
  active comment of the post and no other, and the reactions to each.
\<close>

section \<open>Tag names\<close>

definition maxPostTags :: nat where "maxPostTags = 10"

definition maxTagLength :: nat where "maxTagLength = 30"

definition normalizeTagName :: "(string \<Rightarrow> string) \<Rightarrow> string \<Rightarrow> string" where
  "normalizeTagName lower tag = ToLower lower (TrimSpace tag)"

fun collect_tags :: "(string \<Rightarrow> string) \<Rightarrow> string list \<Rightarrow> string list \<Rightarrow> go_error + string list" where
  "collect_tags lower [] out = Inr out"
| "collect_tags lower (tag # tags) out =
     (let normalized = normalizeTagName lower tag in
      if normalized = [] \<or> maxTagLength < length normalized then Inl (Sentinel ErrInvalidInput)
      else collect_tags lower tags (if normalized \<in> set out then out else out @ [normalized]))"

definition normalizeTags :: "(string \<Rightarrow> string) \<Rightarrow> string list \<Rightarrow> go_error + string list" where
  "normalizeTags lower tags =
     (if maxPostTags < length tags then Inl (Sentinel ErrInvalidInput)
      else bindE (collect_tags lower tags []) (\<lambda>out.
        if maxPostTags < length out then Inl (Sentinel ErrInvalidInput) else Inr (sort out)))"

definition unionTagNames :: "string list \<Rightarrow> string list \<Rightarrow> string list" where
  "unionTagNames left right =
     sort (fold (\<lambda>item out. if item = [] \<or> item \<in> set out then out else out @ [item]) (left @ right) [])"

section \<open>The tags of a post\<close>

definition tagsForPostTx :: "int \<Rightarrow> tag_model list action" where
  "tagsForPostTx postID =
     bindT (wrapped ''select active tags by post id'' (postTagTx_SelectActiveByPostID postID)) (\<lambda>relations.
       if relations = [] then returnT []
       else bindT (wrapped ''select tags by ids'' (tagTx_SelectByIDs (map pt_TagID relations))) (\<lambda>tags.
              returnT (TagsFromEntities (sort_key tag_Name tags))))"

definition activeTagNamesByPostIDTx :: "int \<Rightarrow> string list action" where
  "activeTagNamesByPostIDTx postID =
     bindT (tagsForPostTx postID) (\<lambda>tags. returnT (map tm_Name tags))"

definition getOrCreateTagID :: "string \<Rightarrow> int action" where
  "getOrCreateTagID tagName =
     bindT (wrapped ''select tag by name'' (tagTx_SelectByName tagName)) (\<lambda>ot.
       case ot of
         Some tag \<Rightarrow> returnT (tag_ID tag)
       | None \<Rightarrow> bindT nowT (\<lambda>created.
                   bindT (wrapped ''save tag'' (tagTx_Save (NewTag created tagName))) (\<lambda>(tagID, _).
                     returnT tagID)))"

definition upsertPostTags :: "int \<Rightarrow> string list \<Rightarrow> unit action" where
  "upsertPostTags postID normalizedTags =
     forT normalizedTags (\<lambda>tagName.
       bindT (getOrCreateTagID tagName) (\<lambda>tagID.
         wrapped ''upsert post tag relation'' (postTagTx_UpsertActive postID tagID)))"

definition syncPostTags :: "int \<Rightarrow> string list \<Rightarrow> unit action" where
  "syncPostTags postID normalizedTags =
     bindT (wrapped ''select active post tags for sync'' (postTagTx_SelectActiveByPostID postID)) (\<lambda>currentRelations.
     bindT (mapT (\<lambda>tagName.
              bindT (getOrCreateTagID tagName) (\<lambda>tagID.
              bindT (wrapped ''upsert active post tag'' (postTagTx_UpsertActive postID tagID)) (\<lambda>_.
                returnT tagID))) normalizedTags) (\<lambda>targetTagIDs.
       forT currentRelations (\<lambda>relation.
         if pt_TagID relation \<in> set targetTagIDs then returnT ()
         else wrapped ''soft delete post tag'' (postTagTx_SoftDelete postID (pt_TagID relation)))))"

section \<open>Attachments in a text\<close>

text \<open>
  The pattern \<open>![name](attachment://id)\<close>. The name runs to the first closing bracket, the
  identifier over hexadecimal digits and dashes, so a match is found without backtracking. The
  result is the identifier and what follows the match.
\<close>

definition uuid_char :: "char \<Rightarrow> bool" where
  "uuid_char c \<longleftrightarrow>
     (let n = of_char c :: nat in
      48 \<le> n \<and> n \<le> 57 \<or> 97 \<le> n \<and> n \<le> 102 \<or> 65 \<le> n \<and> n \<le> 70 \<or> c = CHR ''-'')"

definition embed_at :: "string \<Rightarrow> (string \<times> string) option" where
  "embed_at s =
     (if \<not> has_prefix s ''!['' then None
      else let rest = dropWhile (\<lambda>c. c \<noteq> CHR '']'') (drop 2 s) in
           if \<not> has_prefix rest ''](attachment://'' then None
           else let body = drop (length ''](attachment://'') rest;
                    ref = takeWhile uuid_char body; after = drop (length ref) body
                in if ref = [] \<or> \<not> has_prefix after '')'' then None else Some (ref, drop 1 after))"

lemma embed_at_shorter: "embed_at s = Some (ref, rest) \<Longrightarrow> length rest < length s"
proof -
  assume "embed_at s = Some (ref, rest)"
  then obtain n where p: "has_prefix s ''![''" and r: "rest = drop n (dropWhile (\<lambda>c. c \<noteq> CHR '']'') (drop 2 s))"
    by (auto simp: embed_at_def Let_def split: if_splits)
  from p have "2 \<le> length s" by (cases s; cases "tl s") (auto simp: has_prefix_def)
  moreover have "length rest \<le> length (drop 2 s)"
    unfolding r using length_dropWhile_le [of "\<lambda>c. c \<noteq> CHR '']''" "drop 2 s"] by simp
  ultimately show ?thesis by simp
qed

function embedded_refs :: "string \<Rightarrow> string list" where
  "embedded_refs s =
     (if s = [] then []
      else case embed_at s of
             Some (ref, rest) \<Rightarrow> ref # embedded_refs rest
           | None \<Rightarrow> embedded_refs (tl s))"
  by pat_completeness auto
termination
  by (relation "measure length") (auto dest: embed_at_shorter)

declare embedded_refs.simps [simp del]

definition add_ref :: "string \<Rightarrow> string list \<Rightarrow> string list" where
  "add_ref match out =
     (let attachmentUUID = TrimSpace match in
      if attachmentUUID = [] \<or> attachmentUUID \<in> set out then out else out @ [attachmentUUID])"

definition extractAttachmentRefIDs :: "string \<Rightarrow> string list" where
  "extractAttachmentRefIDs content = fold add_ref (embedded_refs content) []"

definition validateAttachmentRefsWithRepo :: "int \<Rightarrow> string \<Rightarrow> unit action" where
  "validateAttachmentRefsWithRepo postID content =
     forT (extractAttachmentRefIDs content) (\<lambda>attachmentUUID.
       bindT (wrapped ''select attachment by uuid for validate post attachments''
                (attachmentTx_SelectByUUID attachmentUUID)) (\<lambda>oa.
         case oa of
           None \<Rightarrow> throwT (Sentinel ErrInvalidInput)
         | Some attachment \<Rightarrow>
             if attachment_PostID attachment \<noteq> postID \<or> IsPendingDelete attachment
             then throwT (Sentinel ErrInvalidInput) else returnT ()))"

definition syncPostAttachmentOrphans :: "int \<Rightarrow> string \<Rightarrow> unit action" where
  "syncPostAttachmentOrphans postID content =
     bindT (wrapped ''select attachments by post id for sync orphans''
              (attachmentTx_SelectByPostID postID)) (\<lambda>items.
       forT items (\<lambda>item.
         bindT nowT (\<lambda>now.
           wrapped ''update attachment orphan state''
             (attachmentTx_Update
               (if attachment_UUID item \<in> set (extractAttachmentRefIDs content)
                then MarkReferenced item else MarkOrphaned now item)))))"

definition orphanPostAttachments :: "int \<Rightarrow> unit action" where
  "orphanPostAttachments postID =
     bindT (wrapped ''select attachments by post id for delete post''
              (attachmentTx_SelectByPostID postID)) (\<lambda>items.
       forT items (\<lambda>item.
         bindT nowT (\<lambda>now.
           wrapped ''orphan attachments for delete post'' (attachmentTx_Update (MarkOrphaned now item)))))"

section \<open>Deleting the comments of a post\<close>

definition postDeleteBatchSize :: int where
  "postDeleteBatchSize = 500"

definition sweepComment :: "comment \<Rightarrow> unit action" where
  "sweepComment comment =
     bindT (wrapped ''delete post comment reactions''
              (reactionTx_DeleteByTarget (comment_ID comment) ReactionTargetComment)) (\<lambda>_.
       wrapped ''soft delete post comments'' (commentTx_Delete (comment_ID comment)))"

lemma bindT_mono [partial_function_mono]:
  assumes "\<And>a e t. mono_option (\<lambda>f. B f a e t)"
  shows "mono_option (\<lambda>f. bindT m (B f) e t)"
proof (cases "m e t")
  case None
  then show ?thesis by (simp add: bindT_def option.const_mono)
next
  case (Some p)
  then obtain r t' where p: "m e t = Some (r, t')" by (cases p) auto
  show ?thesis using assms by (cases r) (simp_all add: bindT_def p option.const_mono)
qed

partial_function (option) deleteBatches ::
  "int \<Rightarrow> int \<Rightarrow> int list \<Rightarrow> env \<Rightarrow> tx \<Rightarrow> ((go_error + int list) \<times> tx) option" where
  "deleteBatches postID lastID deletedCommentIDs e t =
     bindT (wrapped ''select comments for delete post''
              (commentTx_SelectComments postID postDeleteBatchSize lastID)) (\<lambda>comments e t.
       if comments = [] then returnT deletedCommentIDs e t
       else bindT (forT comments sweepComment) (\<lambda>_ e t.
              if int (length comments) < postDeleteBatchSize
              then returnT (deletedCommentIDs @ map comment_ID comments) e t
              else deleteBatches postID (comment_ID (last comments))
                     (deletedCommentIDs @ map comment_ID comments) e t) e t) e t"

definition deletePostCommentsInBatches :: "int \<Rightarrow> int list action" where
  "deletePostCommentsInBatches postID = deleteBatches postID 0 []"

definition deletePostArtifacts :: "int \<Rightarrow> int list action" where
  "deletePostArtifacts postID =
     bindT (deletePostCommentsInBatches postID) (\<lambda>deletedCommentIDs.
     bindT (orphanPostAttachments postID) (\<lambda>_.
     bindT (wrapped ''delete post reactions'' (reactionTx_DeleteByTarget postID ReactionTargetPost)) (\<lambda>_.
       returnT deletedCommentIDs)))"

section \<open>Normalised names\<close>

lemma collect_tags_spec:
  "collect_tags lower tags out = Inr names \<Longrightarrow> distinct out \<Longrightarrow>
    distinct names \<and> set names = set out \<union> normalizeTagName lower ` set tags \<and>
    (\<forall>n \<in> normalizeTagName lower ` set tags. n \<noteq> [] \<and> length n \<le> maxTagLength)"
proof (induction tags arbitrary: out)
  case (Cons tag tags)
  let ?n = "normalizeTagName lower tag"
  have n: "?n \<noteq> []" "length ?n \<le> maxTagLength"
    and r: "collect_tags lower tags (if ?n \<in> set out then out else out @ [?n]) = Inr names"
    using Cons.prems(1) by (auto simp: Let_def split: if_splits)
  have "distinct (if ?n \<in> set out then out else out @ [?n])" using Cons.prems(2) by simp
  from Cons.IH [OF r this] n show ?case by auto
qed simp

lemma normalizeTags_spec:
  assumes "normalizeTags lower tags = Inr names"
  shows "sorted names" "distinct names" "set names = normalizeTagName lower ` set tags"
    "\<forall>n \<in> set names. n \<noteq> [] \<and> length n \<le> maxTagLength" "length names \<le> maxPostTags"
proof -
  from assms obtain out where out: "collect_tags lower tags [] = Inr out" "length out \<le> maxPostTags"
    "names = sort out"
    by (auto simp: normalizeTags_def bindE_eq_Inr split: if_splits)
  with collect_tags_spec [OF out(1)]
  show "sorted names" "distinct names" "set names = normalizeTagName lower ` set tags"
    "\<forall>n \<in> set names. n \<noteq> [] \<and> length n \<le> maxTagLength" "length names \<le> maxPostTags" by auto
qed

lemma collect_tags_complete:
  "(\<forall>n \<in> normalizeTagName lower ` set tags. n \<noteq> [] \<and> length n \<le> maxTagLength) \<Longrightarrow>
    \<exists>names. collect_tags lower tags out = Inr names \<and> length names \<le> length out + length tags"
proof (induction tags arbitrary: out)
  case (Cons tag tags)
  let ?o = "if normalizeTagName lower tag \<in> set out then out else out @ [normalizeTagName lower tag]"
  from Cons obtain names where n: "collect_tags lower tags ?o = Inr names"
    "length names \<le> length ?o + length tags" by fastforce
  moreover have "collect_tags lower (tag # tags) out = collect_tags lower tags ?o"
    using Cons.prems by (auto simp: Let_def)
  ultimately show ?case by (auto split: if_splits)
qed simp

lemma normalizeTags_accepts:
  "(\<exists>names. normalizeTags lower tags = Inr names) \<longleftrightarrow> length tags \<le> maxPostTags \<and>
    (\<forall>tag \<in> set tags. normalizeTagName lower tag \<noteq> [] \<and> length (normalizeTagName lower tag) \<le> maxTagLength)"
proof
  assume "\<exists>names. normalizeTags lower tags = Inr names"
  then obtain names where n: "normalizeTags lower tags = Inr names" by blast
  moreover have "length tags \<le> maxPostTags" using n by (simp add: normalizeTags_def split: if_splits)
  ultimately show "length tags \<le> maxPostTags \<and> (\<forall>tag \<in> set tags. normalizeTagName lower tag \<noteq> [] \<and>
      length (normalizeTagName lower tag) \<le> maxTagLength)"
    using normalizeTags_spec(3,4) [OF n] by auto
next
  assume a: "length tags \<le> maxPostTags \<and> (\<forall>tag \<in> set tags. normalizeTagName lower tag \<noteq> [] \<and>
      length (normalizeTagName lower tag) \<le> maxTagLength)"
  then obtain names where "collect_tags lower tags [] = Inr names" "length names \<le> length tags"
    using collect_tags_complete [of lower tags "[]"] by auto
  with a show "\<exists>names. normalizeTags lower tags = Inr names" by (simp add: normalizeTags_def)
qed

lemma union_fold:
  "distinct out \<Longrightarrow> [] \<notin> set out \<Longrightarrow>
    distinct (fold (\<lambda>item out. if item = [] \<or> item \<in> set out then out else out @ [item]) xs out) \<and>
    set (fold (\<lambda>item out. if item = [] \<or> item \<in> set out then out else out @ [item]) xs out) =
      set out \<union> (set xs - {[]})"
  by (induction xs arbitrary: out) auto

lemma unionTagNames_spec:
  "sorted (unionTagNames left right)" "distinct (unionTagNames left right)"
  "set (unionTagNames left right) = (set left \<union> set right) - {[]}"
  using union_fold [of "[]" "left @ right"] by (auto simp: unionTagNames_def)

lemma refs_distinct: "distinct (extractAttachmentRefIDs content)" "[] \<notin> set (extractAttachmentRefIDs content)"
proof -
  have step: "distinct out \<and> [] \<notin> set out \<Longrightarrow> distinct (add_ref m out) \<and> [] \<notin> set (add_ref m out)" for m out
    by (auto simp: add_ref_def Let_def)
  have "distinct out \<and> [] \<notin> set out \<Longrightarrow> distinct (fold add_ref xs out) \<and> [] \<notin> set (fold add_ref xs out)" for xs out
  proof (induction xs arbitrary: out)
    case (Cons x xs)
    from Cons.IH [OF step [OF Cons.prems]] show ?case by simp
  qed simp
  then show "distinct (extractAttachmentRefIDs content)" "[] \<notin> set (extractAttachmentRefIDs content)"
    by (simp_all add: extractAttachmentRefIDs_def)
qed

section \<open>Loops over a list\<close>

lemma forT_run_induct:
  assumes "forT xs body e t = Some (Inr u, t')" "I [] (tx_store t)"
    and "\<And>before x rest t1 u1 t2. xs = before @ x # rest \<Longrightarrow> I before (tx_store t1) \<Longrightarrow>
      body x e t1 = Some (Inr u1, t2) \<Longrightarrow> I (before @ [x]) (tx_store t2)"
  shows "I xs (tx_store t')"
proof -
  have "I (before @ ys) (tx_store t')"
    if "forT ys body e t = Some (Inr u, t')" "I before (tx_store t)" "xs = before @ ys" for ys before t
    using that
  proof (induction ys arbitrary: before t)
    case Nil
    then show ?case by (simp add: tx_simps)
  next
    case (Cons y ys)
    from Cons.prems(1) obtain t1 where
      y: "body y e t = Some (Inr (), t1)" and ys: "forT ys body e t1 = Some (Inr u, t')"
      by (auto simp: tx_simps)
    have "I (before @ [y]) (tx_store t1)" by (rule assms(3) [OF Cons.prems(3,2) y])
    from Cons.IH [OF ys this] Cons.prems(3) show ?case by simp
  qed
  from this [of xs t "[]"] assms(1,2) show ?thesis by simp
qed

lemma mapT_run_induct:
  assumes "mapT f xs e t = Some (Inr zs, t')" "I [] [] (tx_store t)"
    and "\<And>before x rest ys t1 y t2. xs = before @ x # rest \<Longrightarrow> I before ys (tx_store t1) \<Longrightarrow>
      f x e t1 = Some (Inr y, t2) \<Longrightarrow> I (before @ [x]) (ys @ [y]) (tx_store t2)"
  shows "I xs zs (tx_store t')"
proof -
  have "I (before @ ys) (out @ zs) (tx_store t')"
    if "mapT f ys e t = Some (Inr zs, t')" "I before out (tx_store t)" "xs = before @ ys" for ys zs before out t
    using that
  proof (induction ys arbitrary: before out zs t)
    case Nil
    then show ?case by (simp add: tx_simps)
  next
    case (Cons y ys)
    from Cons.prems(1) obtain a bs t1 where
      y: "f y e t = Some (Inr a, t1)" and ys: "mapT f ys e t1 = Some (Inr bs, t')" and zs: "zs = a # bs"
      by (auto simp: tx_simps)
    have "I (before @ [y]) (out @ [a]) (tx_store t1)" by (rule assms(3) [OF Cons.prems(3,2) y])
    from Cons.IH [OF ys this] Cons.prems(3) show ?case by (simp add: zs)
  qed
  from this [of xs t zs "[]" "[]"] assms(1,2) show ?thesis by simp
qed

section \<open>What the coordinators do to the tags\<close>

definition tags_ok :: "store \<Rightarrow> bool" where
  "tags_ok s \<longleftrightarrow> tag_repo_ok (st_tags s) \<and> post_tags_ok (st_post_tags s)"

text \<open>The tag of a name, and the names a post carries.\<close>

definition tag_named :: "store \<Rightarrow> int \<Rightarrow> string \<Rightarrow> bool" where
  "tag_named s i name \<longleftrightarrow> (\<exists>t. db_get (tag_db (st_tags s)) i = Some t \<and> tag_Name t = name)"

definition post_tag_names :: "store \<Rightarrow> int \<Rightarrow> string set" where
  "post_tag_names s postID = {name. \<exists>i \<in> active_tags (st_post_tags s) postID. tag_named s i name}"

text \<open>Tags may be added, and the tags of one post may change; nothing else.\<close>

definition tags_step :: "int \<Rightarrow> store \<Rightarrow> store \<Rightarrow> bool" where
  "tags_step postID s s' \<longleftrightarrow> tags_ok s' \<and>
     s'\<lparr>st_tags := st_tags s, st_post_tags := st_post_tags s\<rparr> = s \<and>
     (\<forall>i name. tag_named s i name \<longrightarrow> tag_named s' i name) \<and>
     (\<forall>q. q \<noteq> postID \<longrightarrow> active_tags (st_post_tags s') q = active_tags (st_post_tags s) q)"

lemma tags_step_refl: "tags_ok s \<Longrightarrow> tags_step postID s s"
  by (simp add: tags_step_def)

lemma tags_step_trans:
  assumes "tags_step postID s s1" "tags_step postID s1 s2"
  shows "tags_step postID s s2"
proof -
  have "s2\<lparr>st_tags := st_tags s1, st_post_tags := st_post_tags s1\<rparr> = s1"
    and "s1\<lparr>st_tags := st_tags s, st_post_tags := st_post_tags s\<rparr> = s"
    using assms unfolding tags_step_def by blast+
  then have "s2\<lparr>st_tags := st_tags s, st_post_tags := st_post_tags s\<rparr> = s"
    by (cases s; cases s1; cases s2) simp
  with assms show ?thesis unfolding tags_step_def by simp
qed

lemma tag_named_unique:
  "tags_ok s \<Longrightarrow> tag_named s i name \<Longrightarrow> tag_named s j name \<Longrightarrow> i = j"
  by (auto simp: tags_ok_def tag_repo_ok_def tag_named_def) (metis option.inject)

lemma getOrCreateTagID_run:
  assumes "getOrCreateTagID tagName e t = Some (Inr i, t')" "tags_ok (tx_store t)"
  shows "tags_step postID (tx_store t) (tx_store t') \<and> tag_named (tx_store t') i tagName \<and>
    st_post_tags (tx_store t') = st_post_tags (tx_store t)"
proof -
  let ?s = "tx_store t"
  have ok: "tag_repo_ok (st_tags ?s)" using assms(2) by (simp add: tags_ok_def)
  show ?thesis
  proof (cases "Tag_selectByName tagName (st_tags ?s)")
    case (Some tag)
    then have "i = tag_ID tag" "t' = t"
      using assms(1) by (auto simp: getOrCreateTagID_def tagTx_SelectByName_def tx_simps)
    moreover have "db_get (tag_db (st_tags ?s)) (tag_ID tag) = Some tag \<and> tag_Name tag = tagName"
      using Some ok by (auto simp: Tag_selectByName_def tag_repo_ok_def dest: db_get_bounds split: option.splits)
    ultimately show ?thesis using tags_step_refl [OF assms(2)] by (auto simp: tag_named_def)
  next
    case None
    then obtain now x tags' where sv: "Tag_save (NewTag now tagName) (st_tags ?s) = ((i, x), tags')"
      and s': "tx_store t' = ?s\<lparr>st_tags := tags'\<rparr>"
      using assms(1) by (auto simp: getOrCreateTagID_def tagTx_SelectByName_def tagTx_Save_def tx_simps)
    have ok': "tag_repo_ok tags'" by (rule Tag_save_ok [OF ok sv])
    have nm: "tag_Name (NewTag now tagName) = tagName" by (simp add: NewTag_def)
    from Tag_save_found [OF ok sv] nm obtain u where
      u: "Tag_selectByName tagName tags' = Some u" "tag_ID u = i" "tag_Name u = tagName" by auto
    have "db_get (tag_db tags') i = Some u"
      using u ok' by (auto simp: Tag_selectByName_def tag_repo_ok_def dest: db_get_bounds split: option.splits)
    moreover have "tag_named ?s j name \<Longrightarrow> tag_named (tx_store t') j name" for j name
    proof -
      assume "tag_named ?s j name"
      then obtain v where v: "db_get (tag_db (st_tags ?s)) j = Some v" "tag_Name v = name"
        by (auto simp: tag_named_def)
      have "j \<noteq> db_ID (tag_db (st_tags ?s)) + 1"
        using v(1) db_fresh [of tag_ID "tag_db (st_tags ?s)"] ok by (auto simp: tag_repo_ok_def)
      with v sv show ?thesis
        by (auto simp: tag_named_def s' Tag_save_def Let_def split: option.splits)
    qed
    ultimately show ?thesis
      using ok' assms(2) u(3) by (auto simp: tags_step_def tags_ok_def s' tag_named_def)
  qed
qed

lemma tags_step_post_tags:
  assumes "tags_ok s" "post_tags_ok r" "\<And>q. q \<noteq> postID \<Longrightarrow> active_tags r q = active_tags (st_post_tags s) q"
  shows "tags_step postID s (s\<lparr>st_post_tags := r\<rparr>)"
  using assms by (simp add: tags_step_def tags_ok_def tag_named_def)

text \<open>One tag is attached.\<close>

definition attachTag :: "string \<Rightarrow> string \<Rightarrow> int \<Rightarrow> int action" where
  "attachTag label tagName postID =
     bindT (getOrCreateTagID tagName) (\<lambda>tagID.
     bindT (wrapped label (postTagTx_UpsertActive postID tagID)) (\<lambda>_. returnT tagID))"

lemma attachTag_run:
  assumes "attachTag label tagName postID e t = Some (Inr i, t')" "tags_ok (tx_store t)"
  shows "tags_step postID (tx_store t) (tx_store t') \<and> tag_named (tx_store t') i tagName \<and>
    active_tags (st_post_tags (tx_store t')) postID = insert i (active_tags (st_post_tags (tx_store t)) postID)"
proof -
  from assms(1) obtain t1 now where g: "getOrCreateTagID tagName e t = Some (Inr i, t1)"
    and s': "tx_store t' = (tx_store t1)\<lparr>st_post_tags := upsertActive now postID i (st_post_tags (tx_store t1))\<rparr>"
    by (auto simp: attachTag_def postTagTx_UpsertActive_def tx_simps)
  note 1 = getOrCreateTagID_run [OF g assms(2), of postID]
  then have ok: "tags_ok (tx_store t1)" by (simp add: tags_step_def)
  have "tags_step postID (tx_store t1) (tx_store t')"
    unfolding s' using ok
    by (intro tags_step_post_tags) (simp_all add: tags_ok_def upsertActive_ok active_tags_upsert)
  with 1 show ?thesis
    by (auto simp: s' active_tags_upsert tag_named_def intro: tags_step_trans)
qed

text \<open>A set of keys and a set of names that stand for each other.\<close>

definition names_match :: "store \<Rightarrow> int set \<Rightarrow> string set \<Rightarrow> bool" where
  "names_match s ids names \<longleftrightarrow>
     (\<forall>i \<in> ids. \<exists>n \<in> names. tag_named s i n) \<and> (\<forall>n \<in> names. \<exists>i \<in> ids. tag_named s i n)"

lemma names_match_insert:
  "tags_step postID s1 s2 \<Longrightarrow> names_match s1 ids names \<Longrightarrow> tag_named s2 j m \<Longrightarrow>
    names_match s2 (insert j ids) (insert m names)"
  unfolding names_match_def tags_step_def by (metis insert_iff)

lemma names_match_tags: "names_match s (active_tags (st_post_tags s) postID) names \<Longrightarrow>
    post_tag_names s postID = names"
  by (auto simp: names_match_def post_tag_names_def tag_named_def)

lemma upsertPostTags_run:
  assumes "upsertPostTags postID names e t = Some (Inr u, t')" "tags_ok (tx_store t)"
    and "active_tags (st_post_tags (tx_store t)) postID = {}"
  shows "tags_step postID (tx_store t) (tx_store t') \<and> post_tag_names (tx_store t') postID = set names"
proof -
  let ?body = "\<lambda>tagName. bindT (getOrCreateTagID tagName) (\<lambda>tagID.
         wrapped ''upsert post tag relation'' (postTagTx_UpsertActive postID tagID))"
  let ?I = "\<lambda>ns s1. tags_step postID (tx_store t) s1 \<and>
      names_match s1 (active_tags (st_post_tags s1) postID) (set ns)"
  have "?I names (tx_store t')"
  proof (rule forT_run_induct [OF assms(1) [unfolded upsertPostTags_def], where I = ?I])
    show "?I [] (tx_store t)" by (simp add: names_match_def tags_step_refl assms(2,3))
    fix before x rest t1 u1 t2
    assume I: "?I before (tx_store t1)" and b: "?body x e t1 = Some (Inr u1, t2)"
    from b obtain i where i: "attachTag ''upsert post tag relation'' x postID e t1 = Some (Inr i, t2)"
      by (auto simp: attachTag_def tx_simps)
    have "tags_ok (tx_store t1)" using I by (simp add: tags_step_def)
    note a = attachTag_run [OF i this]
    show "?I (before @ [x]) (tx_store t2)"
      using a I names_match_insert [of postID "tx_store t1" "tx_store t2"]
        tags_step_trans [of postID "tx_store t" "tx_store t1" "tx_store t2"] by simp
  qed
  then show ?thesis by (simp add: names_match_tags)
qed

lemma syncPostTags_run:
  assumes "syncPostTags postID names e t = Some (Inr u, t')" "tags_ok (tx_store t)"
  shows "tags_step postID (tx_store t) (tx_store t') \<and> post_tag_names (tx_store t') postID = set names"
proof -
  let ?s = "tx_store t"
  let ?current = "selectActiveByPostID postID (st_post_tags ?s)"
  from assms(1) obtain ids t1 where
    m: "mapT (\<lambda>tagName. attachTag ''upsert active post tag'' tagName postID) names e t = Some (Inr ids, t1)"
    and f: "forT ?current (\<lambda>relation.
         if pt_TagID relation \<in> set ids then returnT ()
         else wrapped ''soft delete post tag'' (postTagTx_SoftDelete postID (pt_TagID relation))) e t1 =
       Some (Inr u, t')"
    unfolding syncPostTags_def attachTag_def by (auto simp: postTagTx_SelectActiveByPostID_def tx_simps)
  let ?before = "active_tags (st_post_tags ?s) postID"
  let ?I = "\<lambda>ns is s1. tags_step postID ?s s1 \<and> names_match s1 (set is) (set ns) \<and>
      active_tags (st_post_tags s1) postID = ?before \<union> set is"
  have 1: "?I names ids (tx_store t1)"
  proof (rule mapT_run_induct [OF m, where I = ?I])
    show "?I [] [] ?s" by (simp add: names_match_def tags_step_refl assms(2))
    fix before x rest ys t1 y t2
    assume I: "?I before ys (tx_store t1)"
      and b: "attachTag ''upsert active post tag'' x postID e t1 = Some (Inr y, t2)"
    have "tags_ok (tx_store t1)" using I by (simp add: tags_step_def)
    note a = attachTag_run [OF b this]
    show "?I (before @ [x]) (ys @ [y]) (tx_store t2)"
      using a I names_match_insert [of postID "tx_store t1" "tx_store t2"]
        tags_step_trans [of postID ?s "tx_store t1" "tx_store t2"] by simp
  qed
  have cur: "pt_TagID ` set ?current = ?before"
    using assms(2) by (simp add: tags_ok_def set_selectActiveByPostID)
  let ?J = "\<lambda>rs s1. tags_step postID (tx_store t1) s1 \<and> st_tags s1 = st_tags (tx_store t1) \<and>
      active_tags (st_post_tags s1) postID = (?before \<union> set ids) - (pt_TagID ` set rs - set ids)"
  have 2: "?J ?current (tx_store t')"
  proof (rule forT_run_induct [OF f, where I = ?J])
    show "?J [] (tx_store t1)" using 1 by (simp add: tags_step_def)
    fix before rest :: "post_tag list" and x :: post_tag and t2 u1 t3
    assume J: "?J before (tx_store t2)"
      and b: "(if pt_TagID x \<in> set ids then returnT ()
         else wrapped ''soft delete post tag'' (postTagTx_SoftDelete postID (pt_TagID x))) e t2 = Some (Inr u1, t3)"
    show "?J (before @ [x]) (tx_store t3)"
    proof (cases "pt_TagID x \<in> set ids")
      case True
      with J b show ?thesis by (auto simp: tx_simps)
    next
      case False
      with b have s3: "tx_store t3 = (tx_store t2)
          \<lparr>st_post_tags := PostTag_softDelete postID (pt_TagID x) (st_post_tags (tx_store t2))\<rparr>"
        by (auto simp: postTagTx_SoftDelete_def tx_simps)
      have "tags_ok (tx_store t2)" using J by (simp add: tags_step_def)
      then have "tags_step postID (tx_store t2) (tx_store t3)"
        unfolding s3 by (intro tags_step_post_tags)
          (simp_all add: tags_ok_def PostTag_softDelete_ok active_tags_softDelete)
      with J False show ?thesis
        by (auto simp: s3 active_tags_softDelete intro: tags_step_trans)
    qed
  qed
  have "active_tags (st_post_tags (tx_store t')) postID = set ids" using 2 unfolding cur by auto
  moreover have "names_match (tx_store t') (set ids) (set names)"
    using 1 2 by (simp add: names_match_def tag_named_def)
  ultimately have "post_tag_names (tx_store t') postID = set names" by (metis names_match_tags)
  with 1 2 show ?thesis by (blast intro: tags_step_trans)
qed

end
