(* ===== verification/PostSweep.thy ===== *)
theory PostSweep
  imports PostParts
begin

text \<open>
  What the coordinators of the post commands do to attachments, comments and reactions. The
  deletion of the comments in batches is shown to return and to delete every active comment of
  the post, newest first, with the reactions to it, and to leave every other comment alone.
\<close>

section \<open>Attachments\<close>

text \<open>The attachments of one post were marked again; nothing else was touched.\<close>

definition remarked :: "(time \<Rightarrow> attachment \<Rightarrow> attachment) \<Rightarrow> int \<Rightarrow> store \<Rightarrow> store \<Rightarrow> bool" where
  "remarked mark postID s s' \<longleftrightarrow> db_ok attachment_ID (st_attachments s') \<and>
     s'\<lparr>st_attachments := st_attachments s\<rparr> = s \<and>
     (\<forall>i. case db_get (st_attachments s) i of
        None \<Rightarrow> db_get (st_attachments s') i = None
      | Some a \<Rightarrow> if attachment_PostID a = postID then \<exists>now. db_get (st_attachments s') i = Some (mark now a)
                  else db_get (st_attachments s') i = Some a)"

lemma remark_run:
  assumes f: "forT (Attachment_selectByPostID postID (st_attachments (tx_store t)))
      (\<lambda>item. bindT nowT (\<lambda>now. wrapped label (attachmentTx_Update (mark now item)))) e t = Some (Inr u, t')"
    and ok: "db_ok attachment_ID (st_attachments (tx_store t))"
    and mark: "\<And>now a. attachment_ID (mark now a) = attachment_ID a"
  shows "remarked mark postID (tx_store t) (tx_store t')"
proof -
  let ?s = "tx_store t" and ?r = "st_attachments (tx_store t)"
  let ?items = "Attachment_selectByPostID postID ?r"
  have row: "x \<in> set ?items \<Longrightarrow> db_get ?r (attachment_ID x) = Some x \<and> attachment_PostID x = postID" for x
    by (simp add: Attachment_selectByPostID_def db_get_row [OF ok])
  have d: "distinct (map attachment_ID ?items)"
    unfolding Attachment_selectByPostID_def by (rule filter_distinct_rids [OF db_rows_distinct [OF ok]])
  let ?I = "\<lambda>done s1. db_ok attachment_ID (st_attachments s1) \<and> db_ID (st_attachments s1) = db_ID ?r \<and>
      s1\<lparr>st_attachments := ?r\<rparr> = ?s \<and>
      (\<forall>i. i \<notin> attachment_ID ` set done \<longrightarrow> db_get (st_attachments s1) i = db_get ?r i) \<and>
      (\<forall>x \<in> set done. \<exists>now. db_get (st_attachments s1) (attachment_ID x) = Some (mark now x))"
  have "?I ?items (tx_store t')"
  proof (rule forT_run_induct [OF f, where I = ?I])
    show "?I [] ?s" by (simp add: ok)
    fix before rest :: "attachment list" and x :: attachment and t1 u1 t2
    assume items: "?items = before @ x # rest" and I: "?I before (tx_store t1)"
      and b: "bindT nowT (\<lambda>now. wrapped label (attachmentTx_Update (mark now x))) e t1 = Some (Inr u1, t2)"
    from b obtain now where s2: "tx_store t2 =
        (tx_store t1)\<lparr>st_attachments := Attachment_update (mark now x) (st_attachments (tx_store t1))\<rparr>"
      by (auto simp: attachmentTx_Update_def tx_simps)
    have x: "db_get ?r (attachment_ID x) = Some x" "attachment_ID x \<notin> attachment_ID ` set before"
      using row [of x] d by (auto simp: items)
    have bnd: "0 < attachment_ID x \<and> attachment_ID x \<le> db_ID ?r" using db_get_bounds [OF ok x(1)] by simp
    have ok2: "db_ok attachment_ID (st_attachments (tx_store t2))"
      unfolding s2 using I bnd by (simp add: Attachment_update_ok mark)
    have eq: "(tx_store t2)\<lparr>st_attachments := ?r\<rparr> = ?s" using I by (simp add: s2)
    have g: "db_get (st_attachments (tx_store t2)) =
        (db_get (st_attachments (tx_store t1)))(attachment_ID x \<mapsto> mark now x)"
      by (simp add: s2 Attachment_update_get mark)
    have "db_ID (st_attachments (tx_store t2)) = db_ID ?r" using I by (simp add: s2 Attachment_update_def)
    with ok2 eq I x(2) show "?I (before @ [x]) (tx_store t2)"
      by (auto simp: g image_iff)
  qed
  note fin = this
  show ?thesis
    unfolding remarked_def
  proof (intro conjI allI)
    fix i
    show "case db_get ?r i of None \<Rightarrow> db_get (st_attachments (tx_store t')) i = None
      | Some a \<Rightarrow> if attachment_PostID a = postID
          then \<exists>now. db_get (st_attachments (tx_store t')) i = Some (mark now a)
          else db_get (st_attachments (tx_store t')) i = Some a"
    proof (cases "db_get ?r i")
      case None
      then have "i \<notin> attachment_ID ` set ?items" using row by fastforce
      with fin None show ?thesis by simp
    next
      case (Some a)
      have i: "attachment_ID a = i" using db_get_bounds [OF ok Some] by simp
      have m: "a \<in> set ?items \<longleftrightarrow> attachment_PostID a = postID"
        using Some i db_get_row [OF ok] by (auto simp: Attachment_selectByPostID_def)
      have n: "attachment_PostID a \<noteq> postID \<Longrightarrow> i \<notin> attachment_ID ` set ?items"
        using row Some by fastforce
      show ?thesis using fin Some m n i by auto
    qed
  qed (use fin in blast)+
qed

lemma mark_ids [simp]:
  "attachment_ID (MarkReferenced a) = attachment_ID a" "attachment_ID (MarkOrphaned now a) = attachment_ID a"
  "\<not> IsOrphaned (MarkReferenced a)" "IsOrphaned (MarkOrphaned now a)"
  by (simp_all add: MarkReferenced_def MarkOrphaned_def IsOrphaned_def)

definition mark_by_text :: "string \<Rightarrow> time \<Rightarrow> attachment \<Rightarrow> attachment" where
  "mark_by_text content now a =
     (if attachment_UUID a \<in> set (extractAttachmentRefIDs content) then MarkReferenced a else MarkOrphaned now a)"

lemma syncPostAttachmentOrphans_run:
  assumes "syncPostAttachmentOrphans postID content e t = Some (Inr u, t')"
    and "db_ok attachment_ID (st_attachments (tx_store t))"
  shows "remarked (mark_by_text content) postID (tx_store t) (tx_store t')"
proof -
  have "forT (Attachment_selectByPostID postID (st_attachments (tx_store t)))
      (\<lambda>item. bindT nowT (\<lambda>now. wrapped ''update attachment orphan state''
        (attachmentTx_Update (mark_by_text content now item)))) e t = Some (Inr u, t')"
    using assms(1)
    by (auto simp: syncPostAttachmentOrphans_def attachmentTx_SelectByPostID_def mark_by_text_def tx_simps)
  then show ?thesis by (rule remark_run [OF _ assms(2)]) (simp add: mark_by_text_def)
qed

lemma orphanPostAttachments_run:
  assumes "orphanPostAttachments postID e t = Some (Inr u, t')"
    and "db_ok attachment_ID (st_attachments (tx_store t))"
  shows "remarked MarkOrphaned postID (tx_store t) (tx_store t')"
proof -
  have "forT (Attachment_selectByPostID postID (st_attachments (tx_store t)))
      (\<lambda>item. bindT nowT (\<lambda>now. wrapped ''orphan attachments for delete post''
        (attachmentTx_Update (MarkOrphaned now item)))) e t = Some (Inr u, t')"
    using assms(1) by (auto simp: orphanPostAttachments_def attachmentTx_SelectByPostID_def tx_simps)
  then show ?thesis by (rule remark_run [OF _ assms(2)]) simp
qed

lemma validate_run:
  assumes "validateAttachmentRefsWithRepo postID content e t = Some (Inr u, t')"
  shows "tx_store t' = tx_store t \<and> (\<forall>uuid \<in> set (extractAttachmentRefIDs content).
    \<exists>a. Attachment_selectByUUID uuid (st_attachments (tx_store t)) = Some a \<and>
        attachment_PostID a = postID \<and> \<not> IsPendingDelete a)"
  by (rule forT_run_induct [OF assms [unfolded validateAttachmentRefsWithRepo_def],
        where I = "\<lambda>done s1. s1 = tx_store t \<and> (\<forall>uuid \<in> set done.
          \<exists>a. Attachment_selectByUUID uuid (st_attachments (tx_store t)) = Some a \<and>
            attachment_PostID a = postID \<and> \<not> IsPendingDelete a)"])
    (auto simp: attachmentTx_SelectByUUID_def tx_simps split: option.splits if_splits)

section \<open>Sweeping comments\<close>

definition active_of :: "int \<Rightarrow> comment_repo \<Rightarrow> comment list" where
  "active_of postID r =
     filter (\<lambda>c. comment_PostID c = postID \<and> comment_Status c = CommentStatusActive) (db_rows r)"

definition sweepable :: "store \<Rightarrow> bool" where
  "sweepable s \<longleftrightarrow> db_ok comment_ID (st_comments s) \<and> reactions_ok (st_reactions s)"

text \<open>The comments with the given keys were deleted, with the reactions to them.\<close>

definition swept :: "int set \<Rightarrow> store \<Rightarrow> store \<Rightarrow> bool" where
  "swept ids s s' \<longleftrightarrow> sweepable s' \<and>
     s'\<lparr>st_comments := st_comments s, st_reactions := st_reactions s\<rparr> = s \<and>
     (\<forall>i. i \<notin> ids \<longrightarrow> db_get (st_comments s') i = db_get (st_comments s) i) \<and>
     (\<forall>i \<in> ids. \<exists>c now. db_get (st_comments s) i = Some c \<and>
        db_get (st_comments s') i = Some (Comment_SoftDelete now c)) \<and>
     (\<forall>v i ty. reaction_of (st_reactions s') (v, i, ty) =
        (if ty = ReactionTargetComment \<and> i \<in> ids then None else reaction_of (st_reactions s) (v, i, ty)))"

lemma swept_empty: "sweepable s \<Longrightarrow> swept {} s s"
  by (simp add: swept_def)

lemma swept_disjoint:
  assumes "swept A s s1" "swept B s1 s2" "A \<inter> B = {}"
  shows "swept (A \<union> B) s s2"
proof -
  have "s2\<lparr>st_comments := st_comments s1, st_reactions := st_reactions s1\<rparr> = s1"
    and "s1\<lparr>st_comments := st_comments s, st_reactions := st_reactions s\<rparr> = s"
    using assms(1,2) by (simp_all add: swept_def)
  then have eq: "s2\<lparr>st_comments := st_comments s, st_reactions := st_reactions s\<rparr> = s"
    by (cases s; cases s1; cases s2) simp
  have get: "db_get (st_comments s2) i = db_get (st_comments s) i" if "i \<notin> A \<union> B" for i
    using assms(1,2) that unfolding swept_def by simp
  have del: "\<exists>c now. db_get (st_comments s) i = Some c \<and>
      db_get (st_comments s2) i = Some (Comment_SoftDelete now c)" if "i \<in> A \<union> B" for i
  proof (cases "i \<in> A")
    case True
    with assms(3) have "i \<notin> B" by blast
    with True assms(1,2) show ?thesis unfolding swept_def by simp
  next
    case False
    then have "i \<in> B" "db_get (st_comments s1) i = db_get (st_comments s) i"
      using that assms(1) by (auto simp: swept_def)
    with assms(2) show ?thesis unfolding swept_def by metis
  qed
  show ?thesis unfolding swept_def
    using eq get del assms(1,2) by (auto simp: swept_def)
qed

lemma sweepComment_run:
  assumes "sweepComment c e t = Some (Inr u, t')" "sweepable (tx_store t)"
    and "db_get (st_comments (tx_store t)) (comment_ID c) = Some c"
  shows "swept {comment_ID c} (tx_store t) (tx_store t')"
proof -
  let ?s = "tx_store t"
  from assms(1) obtain n rx now where x: "deleteByTarget (comment_ID c) ReactionTargetComment (st_reactions ?s) = (n, rx)"
    and s': "tx_store t' = ?s\<lparr>st_reactions := rx,
      st_comments := Comment_delete now (comment_ID c) (st_comments ?s)\<rparr>"
    by (auto simp: sweepComment_def reactionTx_DeleteByTarget_def commentTx_Delete_def tx_simps)
  have ok: "db_ok comment_ID (st_comments ?s)" "reactions_ok (st_reactions ?s)"
    using assms(2) by (simp_all add: sweepable_def)
  show ?thesis
    using deleteByTarget_rows [OF ok(2) x] deleteByTarget_of [OF ok(2) x] Comment_delete_ok [OF ok(1)]
    by (auto simp: swept_def sweepable_def s' Comment_delete_get [OF ok(1)] assms(3))
qed

lemma sweep_list:
  assumes "forT cs sweepComment e t = Some (Inr u, t')" "sweepable (tx_store t)"
    and "distinct (map comment_ID cs)" "\<forall>c \<in> set cs. db_get (st_comments (tx_store t)) (comment_ID c) = Some c"
  shows "swept (comment_ID ` set cs) (tx_store t) (tx_store t')"
proof (rule forT_run_induct [OF assms(1),
    where I = "\<lambda>done s1. swept (comment_ID ` set done) (tx_store t) s1"])
  show "swept (comment_ID ` set []) (tx_store t) (tx_store t)" by (simp add: swept_empty assms(2))
  fix before rest :: "comment list" and c :: comment and t1 u1 t2
  assume cs: "cs = before @ c # rest" and I: "swept (comment_ID ` set before) (tx_store t) (tx_store t1)"
    and b: "sweepComment c e t1 = Some (Inr u1, t2)"
  have new: "comment_ID c \<notin> comment_ID ` set before" using assms(3) by (auto simp: cs)
  then have "db_get (st_comments (tx_store t1)) (comment_ID c) = Some c"
    using I assms(4) by (auto simp: swept_def cs)
  moreover have "sweepable (tx_store t1)" using I by (simp add: swept_def)
  ultimately have c: "swept {comment_ID c} (tx_store t1) (tx_store t2)"
    by (intro sweepComment_run [OF b])
  have "comment_ID ` set before \<inter> {comment_ID c} = {}" using new by simp
  from swept_disjoint [OF I c this] show "swept (comment_ID ` set (before @ [c])) (tx_store t) (tx_store t2)" by simp
qed

lemma sweep_returns: "\<exists>r t'. forT cs sweepComment e t = Some (r, t')"
proof -
  have "returns (forT cs sweepComment)"
    unfolding sweepComment_def reactionTx_DeleteByTarget_def commentTx_Delete_def
    by (intro returns_intros)
  then show ?thesis by (auto simp: returns_def)
qed

text \<open>After a sweep the active comments are those that were not swept.\<close>

lemma swept_active:
  assumes "swept ids s s'" "db_ok comment_ID (st_comments s)"
  shows "c \<in> set (active_of postID (st_comments s')) \<longleftrightarrow>
    c \<in> set (active_of postID (st_comments s)) \<and> comment_ID c \<notin> ids"
proof -
  have ok': "db_ok comment_ID (st_comments s')" using assms(1) by (simp add: swept_def sweepable_def)
  have r: "c \<in> set (db_rows x) \<longleftrightarrow> db_get x (comment_ID c) = Some c" if "db_ok comment_ID x" for x
    using db_get_row [OF that] by blast
  have "db_get (st_comments s') (comment_ID c) = Some c \<and> comment_Status c = CommentStatusActive \<longleftrightarrow>
      db_get (st_comments s) (comment_ID c) = Some c \<and> comment_Status c = CommentStatusActive \<and> comment_ID c \<notin> ids"
  proof (cases "comment_ID c \<in> ids")
    case True
    then obtain d now where "db_get (st_comments s') (comment_ID c) = Some (Comment_SoftDelete now d)"
      using assms(1) by (auto simp: swept_def)
    with True show ?thesis by (auto dest: arg_cong [where f = comment_Status])
  next
    case False
    with assms(1) show ?thesis by (simp add: swept_def)
  qed
  then show ?thesis by (auto simp: active_of_def r [OF ok'] r [OF assms(2)])
qed

section \<open>The batches\<close>

text \<open>The active comments of a post in the order in which they are deleted.\<close>

definition sweep_order :: "int \<Rightarrow> comment_repo \<Rightarrow> comment list" where
  "sweep_order postID r = newest_first comment_ID (active_of postID r)"

lemma sweep_order_rows:
  assumes "db_ok comment_ID r"
  shows "sorted_wrt (\<lambda>x y. comment_ID x > comment_ID y) (sweep_order postID r)"
    "set (sweep_order postID r) = set (active_of postID r)"
    "distinct (map comment_ID (sweep_order postID r))"
    "c \<in> set (active_of postID r) \<Longrightarrow> db_get r (comment_ID c) = Some c"
proof -
  have d: "distinct (map comment_ID (active_of postID r))"
    unfolding active_of_def by (rule filter_distinct_rids [OF db_rows_distinct [OF assms]])
  show "sorted_wrt (\<lambda>x y. comment_ID x > comment_ID y) (sweep_order postID r)"
    unfolding sweep_order_def by (rule sorted_newest_first [OF d])
  show "distinct (map comment_ID (sweep_order postID r))"
    using d by (metis mset_eq_imp_distinct_iff mset_map mset_newest_first sweep_order_def)
  show "c \<in> set (active_of postID r) \<Longrightarrow> db_get r (comment_ID c) = Some c"
    by (simp add: active_of_def db_get_row [OF assms])
qed (simp add: sweep_order_def)

lemma batch_page:
  assumes "db_ok comment_ID r" "\<forall>c \<in> set (active_of postID r). after_cursor comment_ID lastID c"
  shows "selectComments postID postDeleteBatchSize lastID r = take 500 (sweep_order postID r)"
proof -
  have "filter (after_cursor comment_ID lastID) (sweep_order postID r) = sweep_order postID r"
    using assms(2) sweep_order_rows(2) [OF assms(1), of postID] by (simp add: filter_id_conv)
  then show ?thesis
    using selectComments_page [OF assms(1), of postDeleteBatchSize postID lastID]
    by (simp add: postDeleteBatchSize_def page_of_def take_int_def sweep_order_def active_of_def)
qed

text \<open>What is left to delete after a full batch.\<close>

lemma after_batch:
  assumes "sweepable s" "swept (comment_ID ` set (take 500 (sweep_order postID (st_comments s)))) s s1"
    and "500 \<le> length (sweep_order postID (st_comments s))"
  defines "L \<equiv> sweep_order postID (st_comments s)"
  shows "sweep_order postID (st_comments s1) = drop 500 L"
    "\<forall>c \<in> set (active_of postID (st_comments s1)). after_cursor comment_ID (comment_ID (last (take 500 L))) c"
proof -
  have ok: "db_ok comment_ID (st_comments s)" using assms(1) by (simp add: sweepable_def)
  have ok1: "db_ok comment_ID (st_comments s1)" using assms(2) by (simp add: swept_def sweepable_def)
  note L = sweep_order_rows(1-3) [OF ok, of postID, folded L_def]
  have split: "take 500 L @ drop 500 L = L" by simp
  have less: "comment_ID d < comment_ID c" if "c \<in> set (take 500 L)" "d \<in> set (drop 500 L)" for c d
    using L(1) that sorted_wrt_append [of "\<lambda>x y. comment_ID x > comment_ID y" "take 500 L" "drop 500 L"]
    by simp
  have "set (sweep_order postID (st_comments s1)) = set (drop 500 L)"
  proof (rule set_eqI)
    fix c
    have "c \<in> set (sweep_order postID (st_comments s1)) \<longleftrightarrow>
        c \<in> set L \<and> comment_ID c \<notin> comment_ID ` set (take 500 L)"
      using swept_active [OF assms(2) ok, of c postID] sweep_order_rows(2) [OF ok1] L(2)
      by (simp add: L_def)
    also have "\<dots> \<longleftrightarrow> c \<in> set (drop 500 L)"
    proof -
      have mem: "c \<in> set L \<longleftrightarrow> c \<in> set (take 500 L) \<or> c \<in> set (drop 500 L)"
        using split by (metis Un_iff set_append)
      have "comment_ID c \<notin> comment_ID ` set (take 500 L)" if "c \<in> set (drop 500 L)"
        using less [OF _ that] by (metis image_iff order_less_irrefl)
      with mem show ?thesis by blast
    qed
    finally show "c \<in> set (sweep_order postID (st_comments s1)) \<longleftrightarrow> c \<in> set (drop 500 L)" .
  qed
  with sweep_order_rows(1) [OF ok1, of postID] sorted_wrt_drop [OF L(1), of 500]
  show d: "sweep_order postID (st_comments s1) = drop 500 L" by (blast intro: sorted_desc_unique)
  have "last (take 500 L) \<in> set (take 500 L)"
    using assms(3) by (intro last_in_set) (auto simp: L_def)
  then have "\<forall>c \<in> set (drop 500 L). comment_ID c < comment_ID (last (take 500 L))" using less by blast
  then show "\<forall>c \<in> set (active_of postID (st_comments s1)).
      after_cursor comment_ID (comment_ID (last (take 500 L))) c"
    using sweep_order_rows(2) [OF ok1, of postID] d by (auto simp: after_cursor_def)
qed

lemma batch_full: "int n < postDeleteBatchSize \<longleftrightarrow> n < 500"
  by (simp add: postDeleteBatchSize_def)

lemma deleteBatches_run:
  assumes "sweepable (tx_store t)"
    and "\<forall>c \<in> set (active_of postID (st_comments (tx_store t))). after_cursor comment_ID lastID c"
  shows "\<exists>r t'. deleteBatches postID lastID acc e t = Some (r, t') \<and>
    (\<forall>ids. r = Inr ids \<longrightarrow>
      ids = acc @ map comment_ID (sweep_order postID (st_comments (tx_store t))) \<and>
      swept (comment_ID ` set (active_of postID (st_comments (tx_store t)))) (tx_store t) (tx_store t'))"
  using assms
proof (induction "length (sweep_order postID (st_comments (tx_store t)))" arbitrary: t lastID acc rule: less_induct)
  case less
  let ?s = "tx_store t"
  let ?L = "sweep_order postID (st_comments ?s)"
  define cs where "cs = take 500 ?L"
  have cs_empty: "cs = [] \<longleftrightarrow> ?L = []" and cs_len: "length cs < 500 \<longleftrightarrow> length ?L < 500"
    and cs_short: "length ?L < 500 \<Longrightarrow> cs = ?L"
    by (auto simp: cs_def)
  have ok: "db_ok comment_ID (st_comments ?s)" using less.prems(1) by (simp add: sweepable_def)
  note L = sweep_order_rows [OF ok, where postID = postID]
  have sel: "wrapped ''select comments for delete post''
      (commentTx_SelectComments postID postDeleteBatchSize lastID) e t =
      (case env_fault e ''select comments for delete post'' of
         Some err \<Rightarrow> Some (Inl (WrapRepository ''select comments for delete post'' (Some err)), t)
       | None \<Rightarrow> Some (Inr cs, t))"
    by (simp add: wrapped_def commentTx_SelectComments_def read_part_def batch_page [OF ok less.prems(2)] cs_def
        split: option.split)
  obtain r1 t1 where f: "forT cs sweepComment e t = Some (r1, t1)" using sweep_returns by blast
  note step = deleteBatches.simps [of postID lastID acc e t] bindT_def sel f
  show ?case
  proof (cases "env_fault e ''select comments for delete post'' \<noteq> None \<or> ?L = [] \<or> (\<exists>err. r1 = Inl err)")
    case True
    then consider (fault) err where "env_fault e ''select comments for delete post'' = Some err"
      | (empty) "env_fault e ''select comments for delete post'' = None" "?L = []"
      | (failed) err where "env_fault e ''select comments for delete post'' = None" "?L \<noteq> []" "r1 = Inl err"
      by blast
    then show ?thesis
    proof cases
      case empty
      then show ?thesis
        using L(2) swept_empty [OF less.prems(1)] by (simp add: step cs_empty returnT_def)
    qed (simp_all add: step cs_empty)
  next
    case False
    then have none: "env_fault e ''select comments for delete post'' = None" and ne: "?L \<noteq> []"
      and r1: "r1 = Inr ()" by (cases r1; auto)+
    have sw: "swept (comment_ID ` set cs) ?s (tx_store t1)"
    proof (rule sweep_list [OF _ less.prems(1)])
      show "forT cs sweepComment e t = Some (Inr (), t1)" using f r1 by simp
      show "distinct (map comment_ID cs)" using L(3) by (simp add: cs_def take_map [symmetric])
      show "\<forall>c \<in> set cs. db_get (st_comments ?s) (comment_ID c) = Some c"
      proof
        fix c assume "c \<in> set cs"
        then have "c \<in> set (active_of postID (st_comments ?s))" using L(2) in_set_takeD unfolding cs_def by fastforce
        then show "db_get (st_comments ?s) (comment_ID c) = Some c" by (rule L(4))
      qed
    qed
    show ?thesis
    proof (cases "length ?L < 500")
      case True
      then show ?thesis
        using sw L(2) ne none
        by (simp add: step r1 cs_empty cs_len returnT_def batch_full) (simp add: cs_short)
    next
      case full: False
      let ?last = "comment_ID (last cs)" and ?acc = "acc @ map comment_ID cs"
      have go: "deleteBatches postID lastID acc e t = deleteBatches postID ?last ?acc e t1"
        using full ne none by (simp add: step r1 cs_empty cs_len batch_full)
      note rest = after_batch [OF less.prems(1) sw [unfolded cs_def], simplified not_less [symmetric], OF full, folded cs_def]
      have ok1: "sweepable (tx_store t1)" using sw by (simp add: swept_def)
      then have ok1c: "db_ok comment_ID (st_comments (tx_store t1))" by (simp add: sweepable_def)
      have "length (sweep_order postID (st_comments (tx_store t1))) < length ?L"
        unfolding rest(1) using full by simp
      from less.hyps [OF this ok1 rest(2), of ?acc] obtain r t' where
        r: "deleteBatches postID ?last ?acc e t1 = Some (r, t')"
        and res: "\<forall>ids. r = Inr ids \<longrightarrow> ids = ?acc @ map comment_ID (drop 500 ?L) \<and>
          swept (comment_ID ` set (active_of postID (st_comments (tx_store t1)))) (tx_store t1) (tx_store t')"
        unfolding rest(1) by blast
      have a1: "set (active_of postID (st_comments (tx_store t1))) = set (drop 500 ?L)"
        using sweep_order_rows(2) [OF ok1c, of postID] rest(1) by simp
      have disj: "comment_ID ` set cs \<inter> comment_ID ` set (drop 500 ?L) = {}"
        using L(3) unfolding cs_def by (metis append_take_drop_id distinct_append map_append set_map)
      have un: "comment_ID ` set cs \<union> comment_ID ` set (drop 500 ?L) =
          comment_ID ` set (active_of postID (st_comments ?s))"
        using L(2) unfolding cs_def by (metis append_take_drop_id image_Un set_append)
      show ?thesis
      proof (intro exI conjI allI impI)
        show "deleteBatches postID lastID acc e t = Some (r, t')" using go r by simp
        fix ids assume "r = Inr ids"
        with res a1 have i: "ids = ?acc @ map comment_ID (drop 500 ?L)"
          and s: "swept (comment_ID ` set (drop 500 ?L)) (tx_store t1) (tx_store t')" by simp_all
        show "ids = acc @ map comment_ID ?L"
          using i unfolding cs_def by (metis append_assoc append_take_drop_id map_append)
        show "swept (comment_ID ` set (active_of postID (st_comments ?s))) ?s (tx_store t')"
          using swept_disjoint [OF sw s disj] un by simp
      qed
    qed
  qed
qed

section \<open>Failure\<close>

lemma atomic_if_fun: "atomic m \<Longrightarrow> atomic n \<Longrightarrow> atomic (\<lambda>e t. if b then m e t else n e t)"
  by (cases b) simp_all

lemma sweepComment_atomic: "atomic (sweepComment c)"
  unfolding sweepComment_def reactionTx_DeleteByTarget_def commentTx_Delete_def by (intro atomic_intros)

lemma deleteBatches_atomic [atomic_intros]: "atomic (deleteBatches postID lastID acc)"
proof -
  have "restore_all (snd y) = restore_all t \<and> tx_afterCommit (snd y) = tx_afterCommit t"
    if "deleteBatches postID lastID acc e t = Some y" for e t y
  proof (induct rule: deleteBatches.raw_induct [OF _ that])
    case (1 f postID lastID acc e t y)
    have f: "atomic (f postID lastID acc)" for postID lastID acc
      using 1(1) by (fastforce simp: atomic_def)
    let ?body = "bindT (wrapped ''select comments for delete post''
              (commentTx_SelectComments postID postDeleteBatchSize lastID)) (\<lambda>comments e t.
       if comments = [] then returnT acc e t
       else bindT (forT comments sweepComment) (\<lambda>_ e t.
              if int (length comments) < postDeleteBatchSize
              then returnT (acc @ map comment_ID comments) e t
              else f postID (comment_ID (last comments)) (acc @ map comment_ID comments) e t) e t)"
    have "atomic ?body"
      unfolding commentTx_SelectComments_def
      by (intro atomic_bindT atomic_if_fun atomic_forT sweepComment_atomic f atomic_wrapped atomic_basic)
    moreover have "?body e t = Some (fst y, snd y)" using 1(2) by simp
    ultimately show ?case unfolding atomic_def by blast
  qed
  then show ?thesis by (fastforce simp: atomic_def)
qed

text \<open>The coordinators are undone by a failed transaction, and those without a loop over batches return.\<close>

lemma post_parts_atomic [atomic_intros]:
  "atomic (activeTagNamesByPostIDTx postID)" "atomic (upsertPostTags postID names)"
  "atomic (syncPostTags postID names)" "atomic (validateAttachmentRefsWithRepo postID content)"
  "atomic (syncPostAttachmentOrphans postID content)" "atomic (deletePostArtifacts postID)"
  unfolding activeTagNamesByPostIDTx_def tagsForPostTx_def upsertPostTags_def syncPostTags_def
    getOrCreateTagID_def validateAttachmentRefsWithRepo_def syncPostAttachmentOrphans_def
    deletePostArtifacts_def deletePostCommentsInBatches_def orphanPostAttachments_def
    postTagTx_SelectActiveByPostID_def tagTx_SelectByIDs_def tagTx_SelectByName_def tagTx_Save_def
    postTagTx_UpsertActive_def postTagTx_SoftDelete_def attachmentTx_SelectByUUID_def
    attachmentTx_SelectByPostID_def attachmentTx_Update_def reactionTx_DeleteByTarget_def
  by (intro atomic_intros)+

lemma post_parts_return [returns_intros]:
  "returns (activeTagNamesByPostIDTx postID)" "returns (upsertPostTags postID names)"
  "returns (syncPostTags postID names)" "returns (validateAttachmentRefsWithRepo postID content)"
  "returns (syncPostAttachmentOrphans postID content)" "returns (orphanPostAttachments postID)"
  unfolding activeTagNamesByPostIDTx_def tagsForPostTx_def upsertPostTags_def syncPostTags_def
    getOrCreateTagID_def validateAttachmentRefsWithRepo_def syncPostAttachmentOrphans_def
    orphanPostAttachments_def
    postTagTx_SelectActiveByPostID_def tagTx_SelectByIDs_def tagTx_SelectByName_def tagTx_Save_def
    postTagTx_UpsertActive_def postTagTx_SoftDelete_def attachmentTx_SelectByUUID_def
    attachmentTx_SelectByPostID_def attachmentTx_Update_def
  by (intro returns_intros)+

section \<open>Deleting what belongs to a post\<close>

lemma after_first: "after_cursor rid 0 v"
  by (simp add: after_cursor_def)

lemma deletePostArtifacts_run:
  assumes "deletePostArtifacts postID e t = Some (Inr ids, t')"
    and "sweepable (tx_store t)" "db_ok attachment_ID (st_attachments (tx_store t))"
  shows "\<exists>s1 s2 n rx.
    ids = map comment_ID (sweep_order postID (st_comments (tx_store t))) \<and>
    swept (comment_ID ` set (active_of postID (st_comments (tx_store t)))) (tx_store t) s1 \<and>
    remarked MarkOrphaned postID s1 s2 \<and>
    deleteByTarget postID ReactionTargetPost (st_reactions s2) = (n, rx) \<and>
    tx_store t' = s2\<lparr>st_reactions := rx\<rparr>"
proof -
  from assms(1) obtain t1 t2 n rx where
    1: "deleteBatches postID 0 [] e t = Some (Inr ids, t1)"
    and 2: "orphanPostAttachments postID e t1 = Some (Inr (), t2)"
    and 3: "deleteByTarget postID ReactionTargetPost (st_reactions (tx_store t2)) = (n, rx)"
      "tx_store t' = (tx_store t2)\<lparr>st_reactions := rx\<rparr>"
    by (auto simp: deletePostArtifacts_def deletePostCommentsInBatches_def
        reactionTx_DeleteByTarget_def tx_simps)
  have first: "\<forall>c \<in> set (active_of postID (st_comments (tx_store t))). after_cursor comment_ID 0 c"
    by (simp add: after_first)
  from deleteBatches_run [OF assms(2) first, of "[]" e] 1
  have s: "ids = map comment_ID (sweep_order postID (st_comments (tx_store t)))"
    "swept (comment_ID ` set (active_of postID (st_comments (tx_store t)))) (tx_store t) (tx_store t1)"
    by auto
  have "(tx_store t1)\<lparr>st_comments := st_comments (tx_store t), st_reactions := st_reactions (tx_store t)\<rparr> = tx_store t"
    using s(2) by (simp add: swept_def)
  from arg_cong [OF this, of st_attachments]
  have "st_attachments (tx_store t1) = st_attachments (tx_store t)" by simp
  with orphanPostAttachments_run [OF 2] assms(3) have "remarked MarkOrphaned postID (tx_store t1) (tx_store t2)" by simp
  with s 3 show ?thesis by blast
qed

end
