(* ===== verification/Invalidation.thy ===== *)
theory Invalidation
  imports Models
begin

text \<open>
  \<open>application/cache/key/keys.go\<close>, the keys under which the queries cache their answers and
  the prefixes under which they are dropped, and
  \<open>application/event/cache_invalidation_handler.go\<close>, which drops them when an event arrives.
  The in-memory cache never fails, so the handler's deletions are not best effort here.

  The lemmas say which keys a prefix covers, so which answers an event makes the next reader
  load again; a number ends at the colon that follows it, so the prefix of one board covers
  no key of another.
\<close>

section \<open>Keys\<close>

definition key_BoardList :: "int \<Rightarrow> int \<Rightarrow> string" where
  "key_BoardList limit lastID =
     ''boards:list:limit:'' @ FormatInt limit @ '':last:'' @ FormatInt lastID"

definition key_BoardListPrefix :: "string" where
  "key_BoardListPrefix = ''boards:list:''"

definition key_BoardAdminList :: "int \<Rightarrow> int \<Rightarrow> string" where
  "key_BoardAdminList limit lastID =
     ''boards:admin:list:limit:'' @ FormatInt limit @ '':last:'' @ FormatInt lastID"

definition key_BoardAdminListPrefix :: "string" where
  "key_BoardAdminListPrefix = ''boards:admin:list:''"

definition key_PostList :: "int \<Rightarrow> int \<Rightarrow> int \<Rightarrow> string" where
  "key_PostList boardID limit lastID =
     ''posts:list:board:'' @ FormatInt boardID @ '':limit:'' @ FormatInt limit @ '':last:'' @
       FormatInt lastID"

definition key_PostListPrefix :: "int \<Rightarrow> string" where
  "key_PostListPrefix boardID = ''posts:list:board:'' @ FormatInt boardID @ '':''"

definition key_PostDetail :: "int \<Rightarrow> string" where
  "key_PostDetail postID = ''posts:detail:'' @ FormatInt postID"

definition key_PostDetailPrefix :: "string" where
  "key_PostDetailPrefix = ''posts:detail:''"

definition key_TagPostList :: "string \<Rightarrow> int \<Rightarrow> int \<Rightarrow> string" where
  "key_TagPostList tagName limit lastID =
     ''tags:posts:name:'' @ tagName @ '':limit:'' @ FormatInt limit @ '':last:'' @ FormatInt lastID"

definition key_TagPostListPrefix :: "string \<Rightarrow> string" where
  "key_TagPostListPrefix tagName = ''tags:posts:name:'' @ tagName @ '':''"

definition key_TagPostListGlobalPrefix :: "string" where
  "key_TagPostListGlobalPrefix = ''tags:posts:name:''"

definition key_PostSearchList :: "string \<Rightarrow> int \<Rightarrow> string \<Rightarrow> string" where
  "key_PostSearchList query limit cursor =
     ''posts:search:q:'' @ query @ '':limit:'' @ FormatInt limit @ '':cursor:'' @ cursor"

definition key_PostSearchSortedList :: "string \<Rightarrow> string \<Rightarrow> string \<Rightarrow> int \<Rightarrow> string \<Rightarrow> string" where
  "key_PostSearchSortedList query sortBy window limit cursor =
     ''posts:search:q:'' @ query @ '':sort:'' @ sortBy @ '':window:'' @ window @ '':limit:'' @
       FormatInt limit @ '':cursor:'' @ cursor"

definition key_PostSearchListPrefix :: "string" where
  "key_PostSearchListPrefix = ''posts:search:''"

definition key_PostFeedList :: "string \<Rightarrow> string \<Rightarrow> int \<Rightarrow> string \<Rightarrow> string" where
  "key_PostFeedList sortBy window limit cursor =
     ''posts:feed:sort:'' @ sortBy @ '':window:'' @ window @ '':limit:'' @ FormatInt limit @
       '':cursor:'' @ cursor"

definition key_PostFeedListPrefix :: "string" where
  "key_PostFeedListPrefix = ''posts:feed:''"

definition key_RankedPostList :: "int \<Rightarrow> string \<Rightarrow> string \<Rightarrow> int \<Rightarrow> string \<Rightarrow> string" where
  "key_RankedPostList boardID sortBy window limit cursor =
     ''posts:ranked:list:board:'' @ FormatInt boardID @ '':sort:'' @ sortBy @ '':window:'' @
       window @ '':limit:'' @ FormatInt limit @ '':cursor:'' @ cursor"

definition key_RankedTagPostList :: "string \<Rightarrow> string \<Rightarrow> string \<Rightarrow> int \<Rightarrow> string \<Rightarrow> string" where
  "key_RankedTagPostList tagName sortBy window limit cursor =
     ''tags:ranked:posts:name:'' @ tagName @ '':sort:'' @ sortBy @ '':window:'' @ window @
       '':limit:'' @ FormatInt limit @ '':cursor:'' @ cursor"

definition key_RankedPostListPrefix :: "int \<Rightarrow> string" where
  "key_RankedPostListPrefix boardID = ''posts:ranked:list:board:'' @ FormatInt boardID @ '':''"

definition key_RankedPostListGlobalPrefix :: "string" where
  "key_RankedPostListGlobalPrefix = ''posts:ranked:list:''"

definition key_RankedTagPostListPrefix :: "string \<Rightarrow> string" where
  "key_RankedTagPostListPrefix tagName = ''tags:ranked:posts:name:'' @ tagName @ '':''"

definition key_RankedTagPostListGlobalPrefix :: "string" where
  "key_RankedTagPostListGlobalPrefix = ''tags:ranked:posts:name:''"

definition key_CommentList :: "int \<Rightarrow> int \<Rightarrow> int \<Rightarrow> string" where
  "key_CommentList postID limit lastID =
     ''comments:list:post:'' @ FormatInt postID @ '':limit:'' @ FormatInt limit @ '':last:'' @
       FormatInt lastID"

definition key_CommentListPrefix :: "int \<Rightarrow> string" where
  "key_CommentListPrefix postID = ''comments:list:post:'' @ FormatInt postID @ '':''"

definition key_CommentListGlobalPrefix :: "string" where
  "key_CommentListGlobalPrefix = ''comments:list:post:''"

definition key_ReactionList :: "string \<Rightarrow> int \<Rightarrow> string" where
  "key_ReactionList targetType targetID =
     ''reactions:list:'' @ targetType @ '':'' @ FormatInt targetID"

definition key_ReactionListPrefix :: "string" where
  "key_ReactionListPrefix = ''reactions:list:''"

section \<open>The handler\<close>

definition bestEffortDelete :: "string \<Rightarrow> 'v cache \<Rightarrow> 'v cache" where
  "bestEffortDelete cacheKey c = Cache_Delete cacheKey c"

definition bestEffortDeleteByPrefix :: "string \<Rightarrow> 'v cache \<Rightarrow> 'v cache" where
  "bestEffortDeleteByPrefix prefix c = snd (DeleteByPrefix prefix c)"

definition handleBoardChanged :: "string \<Rightarrow> int \<Rightarrow> 'v cache \<Rightarrow> 'v cache" where
  "handleBoardChanged operation boardID c =
     (let c1 = fold bestEffortDeleteByPrefix
                 [key_BoardListPrefix, key_PostListPrefix boardID, key_PostSearchListPrefix,
                  key_PostFeedListPrefix, key_RankedPostListPrefix boardID] c
      in if operation \<noteq> ''visibility'' then c1
         else fold bestEffortDeleteByPrefix
                [key_PostDetailPrefix, key_CommentListGlobalPrefix, key_ReactionListPrefix,
                 key_TagPostListGlobalPrefix, key_RankedTagPostListGlobalPrefix] c1)"

definition handlePostChanged ::
  "string \<Rightarrow> int \<Rightarrow> int \<Rightarrow> string list \<Rightarrow> int list \<Rightarrow> 'v cache \<Rightarrow> 'v cache" where
  "handlePostChanged operation postID boardID tagNames deletedCommentIDs c =
     (let c1 = fold bestEffortDeleteByPrefix
                 [key_PostListPrefix boardID, key_PostSearchListPrefix, key_PostFeedListPrefix,
                  key_RankedPostListPrefix boardID] c;
          c2 = bestEffortDelete (key_PostDetail postID) c1;
          c3 = fold (\<lambda>tagName c. bestEffortDeleteByPrefix (key_RankedTagPostListPrefix tagName)
                 (bestEffortDeleteByPrefix (key_TagPostListPrefix tagName) c)) tagNames c2
      in if operation \<noteq> ''deleted'' then c3
         else let c4 = bestEffortDeleteByPrefix (key_CommentListPrefix postID) c3;
                  c5 = bestEffortDelete (key_ReactionList (ReactionTargetType_string ReactionTargetPost) postID) c4
              in fold (\<lambda>commentID c. bestEffortDelete
                   (key_ReactionList (ReactionTargetType_string ReactionTargetComment) commentID) c)
                   deletedCommentIDs c5)"

definition handleCommentChanged :: "string \<Rightarrow> int \<Rightarrow> int \<Rightarrow> 'v cache \<Rightarrow> 'v cache" where
  "handleCommentChanged operation commentID postID c =
     (let c1 = fold bestEffortDeleteByPrefix
                 [key_CommentListPrefix postID, key_PostFeedListPrefix, key_PostSearchListPrefix,
                  key_RankedPostListGlobalPrefix, key_RankedTagPostListGlobalPrefix] c;
          c2 = bestEffortDelete (key_PostDetail postID) c1
      in if operation = ''deleted''
         then bestEffortDelete (key_ReactionList (ReactionTargetType_string ReactionTargetComment) commentID) c2
         else c2)"

definition handleReactionChanged :: "ReactionTargetType \<Rightarrow> int \<Rightarrow> int \<Rightarrow> 'v cache \<Rightarrow> 'v cache" where
  "handleReactionChanged targetType targetID postID c =
     (let c1 = bestEffortDelete (key_ReactionList (ReactionTargetType_string targetType) targetID) c;
          c2 = fold bestEffortDeleteByPrefix
                 [key_PostFeedListPrefix, key_PostSearchListPrefix, key_RankedPostListGlobalPrefix,
                  key_RankedTagPostListGlobalPrefix] c1
      in bestEffortDelete (key_PostDetail postID) c2)"

definition CacheInvalidation_Handle :: "domain_event \<Rightarrow> 'v cache \<Rightarrow> 'v cache" where
  "CacheInvalidation_Handle event c =
     (case event of
        BoardChanged operation boardID _ \<Rightarrow> handleBoardChanged operation boardID c
      | PostChanged operation postID boardID _ tagNames deletedCommentIDs _ \<Rightarrow>
          handlePostChanged operation postID boardID tagNames deletedCommentIDs c
      | CommentChanged operation commentID postID _ \<Rightarrow> handleCommentChanged operation commentID postID c
      | ReactionChanged _ targetType targetID postID _ _ _ \<Rightarrow> handleReactionChanged targetType targetID postID c
      | AttachmentChanged _ _ postID _ \<Rightarrow> bestEffortDelete (key_PostDetail postID) c
      | _ \<Rightarrow> c)"

section \<open>What the handler removes\<close>

text \<open>
  A cache is reduced by keys and prefixes: what is left is the entries that none of them covers.
\<close>

definition covered :: "string list \<Rightarrow> string list \<Rightarrow> string \<Rightarrow> bool" where
  "covered keys prefixes key \<longleftrightarrow> key \<in> set keys \<or> (\<exists>p \<in> set prefixes. has_prefix key p)"

definition reduced :: "string list \<Rightarrow> string list \<Rightarrow> 'v cache \<Rightarrow> 'v cache \<Rightarrow> bool" where
  "reduced keys prefixes c c' \<longleftrightarrow> cache_ok c' \<and>
     map_of (cache_store c') = (map_of (cache_store c)) |` {key. \<not> covered keys prefixes key}"

lemma reduced_refl: "cache_ok c \<Longrightarrow> reduced [] [] c c"
  by (simp add: reduced_def covered_def restrict_map_def)

lemma reduced_key: "reduced ks ps c c' \<Longrightarrow> reduced (k # ks) ps c (bestEffortDelete k c')"
  by (auto simp: reduced_def covered_def bestEffortDelete_def Cache_Delete_def deleteLocked_ok
      restrict_map_def fun_eq_iff)

lemma reduced_prefix:
  assumes "reduced ks ps c c'"
  shows "reduced ks (p # ps) c (bestEffortDeleteByPrefix p c')"
proof -
  obtain n c2 where d: "DeleteByPrefix p c' = (n, c2)" by fastforce
  have ok: "cache_ok c'" and m: "map_of (cache_store c') =
      (map_of (cache_store c)) |` {key. \<not> covered ks ps key}"
    using assms by (simp_all add: reduced_def)
  show ?thesis
    using DeleteByPrefix_spec(1,2) [OF ok d] m
    by (auto simp: reduced_def covered_def bestEffortDeleteByPrefix_def d restrict_map_def fun_eq_iff)
qed

lemma reduced_prefixes:
  "reduced ks ps c c' \<Longrightarrow> reduced ks (rev qs @ ps) c (fold bestEffortDeleteByPrefix qs c')"
  by (induction qs arbitrary: ps c') (auto dest: reduced_prefix)

text \<open>The keys and the prefixes an event drops.\<close>

fun dropped_keys :: "domain_event \<Rightarrow> string list" where
  "dropped_keys (PostChanged operation postID _ _ _ deletedCommentIDs _) =
     key_PostDetail postID #
     (if operation = ''deleted''
      then key_ReactionList ''post'' postID # map (key_ReactionList ''comment'') deletedCommentIDs else [])"
| "dropped_keys (CommentChanged operation commentID postID _) =
     key_PostDetail postID #
     (if operation = ''deleted'' then [key_ReactionList ''comment'' commentID] else [])"
| "dropped_keys (ReactionChanged _ targetType targetID postID _ _ _) =
     [key_PostDetail postID, key_ReactionList (ReactionTargetType_string targetType) targetID]"
| "dropped_keys (AttachmentChanged _ _ postID _) = [key_PostDetail postID]"
| "dropped_keys _ = []"

fun dropped_prefixes :: "domain_event \<Rightarrow> string list" where
  "dropped_prefixes (BoardChanged operation boardID _) =
     [key_BoardListPrefix, key_PostListPrefix boardID, key_PostSearchListPrefix,
      key_PostFeedListPrefix, key_RankedPostListPrefix boardID] @
     (if operation = ''visibility''
      then [key_PostDetailPrefix, key_CommentListGlobalPrefix, key_ReactionListPrefix,
            key_TagPostListGlobalPrefix, key_RankedTagPostListGlobalPrefix] else [])"
| "dropped_prefixes (PostChanged operation postID boardID _ tagNames _ _) =
     [key_PostListPrefix boardID, key_PostSearchListPrefix, key_PostFeedListPrefix,
      key_RankedPostListPrefix boardID] @
     map key_TagPostListPrefix tagNames @ map key_RankedTagPostListPrefix tagNames @
     (if operation = ''deleted'' then [key_CommentListPrefix postID] else [])"
| "dropped_prefixes (CommentChanged _ _ postID _) =
     [key_CommentListPrefix postID, key_PostFeedListPrefix, key_PostSearchListPrefix,
      key_RankedPostListGlobalPrefix, key_RankedTagPostListGlobalPrefix]"
| "dropped_prefixes (ReactionChanged _ _ _ _ _ _ _) =
     [key_PostFeedListPrefix, key_PostSearchListPrefix, key_RankedPostListGlobalPrefix,
      key_RankedTagPostListGlobalPrefix]"
| "dropped_prefixes _ = []"

lemma reduced_same:
  "reduced ks ps c c' \<Longrightarrow> set ks = set ks' \<Longrightarrow> set ps = set ps' \<Longrightarrow> reduced ks' ps' c c'"
  by (simp add: reduced_def covered_def)

lemma reduced_tags:
  "reduced ks ps c c' \<Longrightarrow> \<exists>qs. set qs = set ps \<union> key_TagPostListPrefix ` set tagNames \<union>
      key_RankedTagPostListPrefix ` set tagNames \<and>
    reduced ks qs c (fold (\<lambda>tagName c. bestEffortDeleteByPrefix (key_RankedTagPostListPrefix tagName)
      (bestEffortDeleteByPrefix (key_TagPostListPrefix tagName) c)) tagNames c')"
proof (induction tagNames arbitrary: ps c')
  case Nil
  then show ?case by auto
next
  case (Cons tagName tagNames)
  from Cons.IH [OF reduced_prefix [OF reduced_prefix [OF Cons.prems]], of "key_RankedTagPostListPrefix tagName"
      "key_TagPostListPrefix tagName"]
  show ?case by (simp add: insert_commute Un_insert_left)
qed

lemma reduced_keys:
  "reduced ks ps c c' \<Longrightarrow> reduced (rev (map f xs) @ ks) ps c (fold (\<lambda>x. bestEffortDelete (f x)) xs c')"
  by (induction xs arbitrary: ks c') (auto dest: reduced_key)

lemma Handle_reduces:
  assumes "cache_ok c"
  shows "reduced (dropped_keys event) (dropped_prefixes event) c (CacheInvalidation_Handle event c)"
proof (cases event)
  case (BoardChanged operation boardID at)
  let ?q = "[key_BoardListPrefix, key_PostListPrefix boardID, key_PostSearchListPrefix,
      key_PostFeedListPrefix, key_RankedPostListPrefix boardID]"
  let ?v = "[key_PostDetailPrefix, key_CommentListGlobalPrefix, key_ReactionListPrefix,
      key_TagPostListGlobalPrefix, key_RankedTagPostListGlobalPrefix]"
  have 1: "reduced [] (rev ?q @ []) c (fold bestEffortDeleteByPrefix ?q c)"
    by (rule reduced_prefixes [OF reduced_refl [OF assms]])
  from 1 reduced_prefixes [OF 1, of ?v] show ?thesis
    by (auto simp: BoardChanged CacheInvalidation_Handle_def handleBoardChanged_def Let_def
        simp del: fold.simps elim!: reduced_same)
next
  case (PostChanged operation postID boardID pub tagNames deleted at)
  let ?d = "\<lambda>tagName c. bestEffortDeleteByPrefix (key_RankedTagPostListPrefix tagName)
      (bestEffortDeleteByPrefix (key_TagPostListPrefix tagName) c)"
  let ?q = "[key_PostListPrefix boardID, key_PostSearchListPrefix, key_PostFeedListPrefix,
      key_RankedPostListPrefix boardID]"
  let ?c2 = "bestEffortDelete (key_PostDetail postID) (fold bestEffortDeleteByPrefix ?q c)"
  have 2: "reduced [key_PostDetail postID] (rev ?q @ []) c ?c2"
    by (rule reduced_key [OF reduced_prefixes [OF reduced_refl [OF assms]]])
  from reduced_tags [OF 2, of tagNames] obtain qs where
    qs: "set qs = set ?q \<union> key_TagPostListPrefix ` set tagNames \<union>
      key_RankedTagPostListPrefix ` set tagNames"
    and 3: "reduced [key_PostDetail postID] qs c (fold ?d tagNames ?c2)" by auto
  show ?thesis
  proof (cases "operation = ''deleted''")
    case True
    note reduced_keys [OF reduced_key [OF reduced_prefix [OF 3, of "key_CommentListPrefix postID"],
          of "key_ReactionList ''post'' postID"], of "key_ReactionList ''comment''" deleted]
    then show ?thesis unfolding PostChanged using True qs
      by (simp add: CacheInvalidation_Handle_def handlePostChanged_def Let_def del: fold.simps)
        (erule reduced_same; auto)
  next
    case False
    with 3 show ?thesis unfolding PostChanged using qs
      by (simp add: CacheInvalidation_Handle_def handlePostChanged_def Let_def del: fold.simps)
        (erule reduced_same; auto)
  qed
next
  case (CommentChanged operation commentID postID at)
  have 2: "reduced [key_PostDetail postID] (rev (dropped_prefixes event) @ []) c
      (bestEffortDelete (key_PostDetail postID) (fold bestEffortDeleteByPrefix (dropped_prefixes event) c))"
    by (rule reduced_key [OF reduced_prefixes [OF reduced_refl [OF assms]]])
  from 2 reduced_key [OF 2, of "key_ReactionList ''comment'' commentID"] show ?thesis
    by (auto simp: CommentChanged CacheInvalidation_Handle_def handleCommentChanged_def Let_def
        simp del: fold.simps elim!: reduced_same)
next
  case (ReactionChanged operation targetType targetID postID userID ty at)
  have "reduced (dropped_keys event) (rev (dropped_prefixes event) @ []) c
      (bestEffortDelete (key_PostDetail postID) (fold bestEffortDeleteByPrefix (dropped_prefixes event)
        (bestEffortDelete (key_ReactionList (ReactionTargetType_string targetType) targetID) c)))"
    unfolding ReactionChanged dropped_keys.simps
    by (rule reduced_key [OF reduced_prefixes [OF reduced_key [OF reduced_refl [OF assms]]]])
  then show ?thesis
    by (auto simp: ReactionChanged CacheInvalidation_Handle_def handleReactionChanged_def Let_def
        simp del: fold.simps elim!: reduced_same)
next
  case (AttachmentChanged operation i postID at)
  then show ?thesis using reduced_key [OF reduced_refl [OF assms]]
    by (simp add: CacheInvalidation_Handle_def)
qed (use reduced_refl [OF assms] in \<open>simp_all add: CacheInvalidation_Handle_def\<close>)

lemma Handle_gone:
  "cache_ok c \<Longrightarrow> covered (dropped_keys event) (dropped_prefixes event) key \<Longrightarrow>
    map_of (cache_store (CacheInvalidation_Handle event c)) key = None"
  using Handle_reduces [of c event] by (simp add: reduced_def)

lemma Handle_kept:
  "cache_ok c \<Longrightarrow> \<not> covered (dropped_keys event) (dropped_prefixes event) key \<Longrightarrow>
    map_of (cache_store (CacheInvalidation_Handle event c)) key = map_of (cache_store c) key"
  using Handle_reduces [of c event] by (simp add: reduced_def)

section \<open>Keys of a board, a post, a tag\<close>

lemma has_prefix_same [simp]: "has_prefix (p @ s) (p @ q) \<longleftrightarrow> has_prefix s q"
  by (auto simp: has_prefix_iff)

text \<open>A number ends at the next colon.\<close>

lemma FormatInt_no_colon: "CHR '':'' \<notin> set (FormatInt i)"
  using FormatInt_chars [of "CHR '':''" i] by auto

lemma number_prefix:
  "has_prefix (FormatInt i @ CHR '':'' # s) (FormatInt j @ CHR '':'' # q) \<longleftrightarrow> i = j \<and> has_prefix s q"
proof
  assume "has_prefix (FormatInt i @ CHR '':'' # s) (FormatInt j @ CHR '':'' # q)"
  then obtain r where eq: "FormatInt i @ CHR '':'' # s = FormatInt j @ CHR '':'' # (q @ r)"
    by (auto simp: has_prefix_iff)
  have f: "takeWhile (\<lambda>c. c \<noteq> CHR '':'') (FormatInt k @ CHR '':'' # u) = FormatInt k" for k u
    using FormatInt_no_colon [of k] by (induction "FormatInt k") (auto simp: takeWhile_append)
  have "FormatInt i = FormatInt j" using arg_cong [OF eq, of "takeWhile (\<lambda>c. c \<noteq> CHR '':'')"] f by metis
  with eq show "i = j \<and> has_prefix s q" by (auto simp: has_prefix_iff dest: FormatInt_inj)
qed (auto simp: has_prefix_iff)

lemmas key_defs =
  key_BoardList_def key_BoardListPrefix_def key_BoardAdminList_def key_PostList_def
  key_PostListPrefix_def key_PostSearchListPrefix_def key_PostFeedListPrefix_def
  key_RankedPostListPrefix_def key_PostDetailPrefix_def key_CommentListGlobalPrefix_def
  key_ReactionListPrefix_def key_TagPostListGlobalPrefix_def key_RankedTagPostListGlobalPrefix_def
  key_PostDetail_def key_CommentList_def key_CommentListPrefix_def key_RankedPostListGlobalPrefix_def
  key_ReactionList_def key_TagPostListPrefix_def key_RankedTagPostListPrefix_def key_TagPostList_def

lemma PostList_prefix: "has_prefix (key_PostList b limit i) (key_PostListPrefix b') \<longleftrightarrow> b = b'"
  using number_prefix [of b "''limit:'' @ FormatInt limit @ '':last:'' @ FormatInt i" b' "[]"]
  by (simp add: key_defs has_prefix_def)

lemma CommentList_prefix: "has_prefix (key_CommentList p limit i) (key_CommentListPrefix p') \<longleftrightarrow> p = p'"
  using number_prefix [of p "''limit:'' @ FormatInt limit @ '':last:'' @ FormatInt i" p' "[]"]
  by (simp add: key_defs has_prefix_def)

end
