(* ===== verification/SvcBoard.thy ===== *)
theory SvcBoard
  imports Demo Invalidation
begin

text \<open>
  \<open>service/board/service.go\<close>: the boards, which only administrators create, change, hide and
  delete; a board is deleted only when no post of it is left, so every post that is not deleted
  has its board (\<open>posts_housed\<close>). The two lists are read through the cache.

  The lists are a pair of findings: after any event of a board the list of visible boards is
  loaded afresh, while no event drops the cached list of all boards.
\<close>

section \<open>The commands\<close>

text \<open>The new board is made before the transaction: its UUID is the first draw.\<close>

definition CreateBoard_tx :: "int \<Rightarrow> board \<Rightarrow> string action" where
  "CreateBoard_tx userID newBoard =
     bindT (RequireAdminUser userID ''create board'') (\<lambda>_.
     bindT (wrapped ''save board'' (boardTx_Save newBoard)) (\<lambda>saved.
     bindT nowT (\<lambda>changed.
     bindT (DispatchDomainActions [NewBoardChanged changed ''created'' (board_ID saved)]) (\<lambda>_.
       returnT (board_UUID saved)))))"

definition CreateBoard ::
  "env \<Rightarrow> nat \<Rightarrow> int \<Rightarrow> string \<Rightarrow> string \<Rightarrow> store \<Rightarrow> ((go_error + string) \<times> store) option" where
  "CreateBoard e tick userID name description s =
     (if TrimSpace name = [] then Some (Inl (Sentinel ErrInvalidInput), s)
      else let newBoard = NewBoard (env_now e (tick + 1)) (env_uuid e tick) name description
           in WithinTransaction e (tick + 2) (CreateBoard_tx userID newBoard) s)"

definition UpdateBoard_tx :: "string \<Rightarrow> int \<Rightarrow> string \<Rightarrow> string \<Rightarrow> unit action" where
  "UpdateBoard_tx boardUUID userID name description =
     bindT (RequireAdminUser userID ''update board'') (\<lambda>_.
     bindT (wrapped ''select board by id for update board'' (boardTx_SelectBoardByUUID boardUUID)) (\<lambda>ob.
     bindT (requireT ob (Sentinel ErrBoardNotFound)) (\<lambda>board.
     bindT (wrapped ''update board'' (boardTx_Update (Board_Update name description board))) (\<lambda>_.
     bindT nowT (\<lambda>changed.
       DispatchDomainActions [NewBoardChanged changed ''updated'' (board_ID board)])))))"

definition UpdateBoard ::
  "env \<Rightarrow> nat \<Rightarrow> string \<Rightarrow> int \<Rightarrow> string \<Rightarrow> string \<Rightarrow> store \<Rightarrow> ((go_error + unit) \<times> store) option" where
  "UpdateBoard e tick boardUUID userID name description s =
     (if TrimSpace name = [] then Some (Inl (Sentinel ErrInvalidInput), s)
      else WithinTransaction e tick (UpdateBoard_tx boardUUID userID name description) s)"

definition DeleteBoard_tx :: "string \<Rightarrow> int \<Rightarrow> unit action" where
  "DeleteBoard_tx boardUUID userID =
     bindT (RequireAdminUser userID ''delete board'') (\<lambda>_.
     bindT (wrapped ''select board by id for delete board'' (boardTx_SelectBoardByUUID boardUUID)) (\<lambda>ob.
     bindT (requireT ob (Sentinel ErrBoardNotFound)) (\<lambda>board.
     bindT (wrapped ''check board posts before delete board'' (postTx_ExistsByBoardID (board_ID board))) (\<lambda>hasPosts.
     bindT (ensureT (if hasPosts then Some (Sentinel ErrBoardNotEmpty) else None)) (\<lambda>_.
     bindT (wrapped ''delete board'' (boardTx_Delete (board_ID board))) (\<lambda>_.
     bindT nowT (\<lambda>changed.
       DispatchDomainActions [NewBoardChanged changed ''deleted'' (board_ID board)])))))))"

definition DeleteBoard ::
  "env \<Rightarrow> nat \<Rightarrow> string \<Rightarrow> int \<Rightarrow> store \<Rightarrow> ((go_error + unit) \<times> store) option" where
  "DeleteBoard e tick boardUUID userID s =
     WithinTransaction e tick (DeleteBoard_tx boardUUID userID) s"

definition SetBoardVisibility_tx :: "string \<Rightarrow> int \<Rightarrow> bool \<Rightarrow> unit action" where
  "SetBoardVisibility_tx boardUUID userID hidden =
     bindT (RequireAdminUser userID ''set board visibility'') (\<lambda>_.
     bindT (wrapped ''select board by id for set board visibility''
              (boardTx_SelectBoardByUUID boardUUID)) (\<lambda>ob.
     bindT (requireT ob (Sentinel ErrBoardNotFound)) (\<lambda>board.
     bindT (wrapped ''update board visibility'' (boardTx_Update (SetHidden hidden board))) (\<lambda>_.
     bindT nowT (\<lambda>changed.
       DispatchDomainActions [NewBoardChanged changed ''visibility'' (board_ID board)])))))"

definition SetBoardVisibility ::
  "env \<Rightarrow> nat \<Rightarrow> string \<Rightarrow> int \<Rightarrow> bool \<Rightarrow> store \<Rightarrow> ((go_error + unit) \<times> store) option" where
  "SetBoardVisibility e tick boardUUID userID hidden s =
     WithinTransaction e tick (SetBoardVisibility_tx boardUUID userID hidden) s"

section \<open>The lists\<close>

definition board_page ::
  "int \<Rightarrow> string \<Rightarrow> int \<Rightarrow> (int \<Rightarrow> go_error + board list) \<Rightarrow> go_error + cached" where
  "board_page limit cursor lastID fetch =
     bindE (CursorFetchLimit limit) (\<lambda>fetchLimit.
     bindE (LoadCursorListPage limit cursor (fetch fetchLimit) board_ID) (\<lambda>page.
       Inr (CachedBoardList
         \<lparr>bl_Boards = BoardsFromEntities (page_Items page), bl_Limit = limit,
          bl_Cursor = page_Cursor page, bl_HasMore = page_HasMore page,
          bl_NextCursor = page_NextCursor page\<rparr>)))"

fun as_board_list :: "cached \<Rightarrow> board_list option" where
  "as_board_list (CachedBoardList l) = Some l"
| "as_board_list _ = None"

definition GetBoards ::
  "env \<Rightarrow> int \<Rightarrow> (nat \<Rightarrow> time) \<Rightarrow> int \<Rightarrow> string \<Rightarrow> store \<Rightarrow> cached cache \<Rightarrow>
    (go_error + board_list) \<times> cached cache" where
  "GetBoards e listTTL clk limit cursor s c =
     (case RequirePositiveLimit limit of
        Some err \<Rightarrow> (Inl err, c)
      | None \<Rightarrow>
          (case DecodeOpaqueCursor cursor of
             Inl err \<Rightarrow> (Inl err, c)
           | Inr lastID \<Rightarrow>
               through_cache clk (key_BoardList limit lastID) listTTL ''load board list cache''
                 ''decode board list cache payload'' as_board_list
                 (board_page limit cursor lastID (\<lambda>fetchLimit.
                    read_repo e ''select board list'' (selectBoardList fetchLimit lastID (st_boards s)))) c))"

definition GetAllBoards ::
  "env \<Rightarrow> int \<Rightarrow> (nat \<Rightarrow> time) \<Rightarrow> int \<Rightarrow> string \<Rightarrow> store \<Rightarrow> cached cache \<Rightarrow>
    (go_error + board_list) \<times> cached cache" where
  "GetAllBoards e listTTL clk limit cursor s c =
     (case RequirePositiveLimit limit of
        Some err \<Rightarrow> (Inl err, c)
      | None \<Rightarrow>
          (case DecodeOpaqueCursor cursor of
             Inl err \<Rightarrow> (Inl err, c)
           | Inr lastID \<Rightarrow>
               through_cache clk (key_BoardAdminList limit lastID) listTTL ''load all board list cache''
                 ''decode all board list cache payload'' as_board_list
                 (board_page limit cursor lastID (\<lambda>fetchLimit.
                    read_repo e ''select all board list''
                      (selectBoardListIncludingHidden fetchLimit lastID (st_boards s)))) c))"

section \<open>Failure and blocking\<close>

lemma board_tx_atomic [atomic_intros]:
  "atomic (CreateBoard_tx userID b)" "atomic (UpdateBoard_tx boardUUID userID name description)"
  "atomic (DeleteBoard_tx boardUUID userID)" "atomic (SetBoardVisibility_tx boardUUID userID hidden)"
  unfolding CreateBoard_tx_def UpdateBoard_tx_def DeleteBoard_tx_def SetBoardVisibility_tx_def
    boardTx_Save_def boardTx_SelectBoardByUUID_def boardTx_Update_def boardTx_Delete_def
    postTx_ExistsByBoardID_def
  by (intro atomic_intros)+

lemma board_tx_returns [returns_intros]:
  "returns (CreateBoard_tx userID b)" "returns (UpdateBoard_tx boardUUID userID name description)"
  "returns (DeleteBoard_tx boardUUID userID)" "returns (SetBoardVisibility_tx boardUUID userID hidden)"
  unfolding CreateBoard_tx_def UpdateBoard_tx_def DeleteBoard_tx_def SetBoardVisibility_tx_def
    boardTx_Save_def boardTx_SelectBoardByUUID_def boardTx_Update_def boardTx_Delete_def
    postTx_ExistsByBoardID_def
  by (intro returns_intros)+

section \<open>What a successful command did\<close>

definition administrator :: "int \<Rightarrow> store \<Rightarrow> bool" where
  "administrator userID s \<longleftrightarrow> (\<exists>u. selectUserByID userID (st_users s) = Some u \<and> IsAdmin u)"

text \<open>The boards were changed and one event was queued; nothing else was touched.\<close>

definition boards_changed ::
  "env \<Rightarrow> string \<Rightarrow> int \<Rightarrow> (board_repo \<Rightarrow> board_repo) \<Rightarrow> store \<Rightarrow> store \<Rightarrow> bool" where
  "boards_changed e operation boardID change s s' \<longleftrightarrow>
     (\<exists>changed. queued e [NewBoardChanged changed operation boardID] s s') \<and>
     s' = s\<lparr>st_boards := change (st_boards s), st_outbox := st_outbox s'\<rparr>"

lemma boards_changed_dispatch:
  assumes "DispatchDomainActions [NewBoardChanged changed operation i] e t = Some (Inr u, t')"
    and "tx_store t = s\<lparr>st_boards := change (st_boards s)\<rparr>"
  shows "boards_changed e operation i change s (tx_store t')"
  using Dispatch_queued(1) [OF assms(1), of s] Dispatch_queued(2) [OF assms(1), of s] assms(2)
  unfolding boards_changed_def by auto

lemma CreateBoard_tx_run:
  assumes "CreateBoard_tx userID b e t = Some (Inr uuid, t')"
  shows "administrator userID (tx_store t) \<and> (\<exists>saved boards'.
    Board_save b (st_boards (tx_store t)) = (saved, boards') \<and> uuid = board_UUID saved \<and>
    boards_changed e ''created'' (board_ID saved) (\<lambda>_. boards') (tx_store t) (tx_store t'))"
  using assms unfolding CreateBoard_tx_def boardTx_Save_def
  by (auto simp: tx_simps administrator_def elim!: boards_changed_dispatch)

lemma UpdateBoard_tx_run:
  assumes "UpdateBoard_tx boardUUID userID name description e t = Some (Inr u, t')"
  shows "administrator userID (tx_store t) \<and> (\<exists>b.
    selectBoardByUUID boardUUID (st_boards (tx_store t)) = Some b \<and>
    boards_changed e ''updated'' (board_ID b) (Board_update (Board_Update name description b))
      (tx_store t) (tx_store t'))"
  using assms unfolding UpdateBoard_tx_def boardTx_SelectBoardByUUID_def boardTx_Update_def
  by (auto simp: tx_simps administrator_def elim!: boards_changed_dispatch)

lemma SetBoardVisibility_tx_run:
  assumes "SetBoardVisibility_tx boardUUID userID hidden e t = Some (Inr u, t')"
  shows "administrator userID (tx_store t) \<and> (\<exists>b.
    selectBoardByUUID boardUUID (st_boards (tx_store t)) = Some b \<and>
    boards_changed e ''visibility'' (board_ID b) (Board_update (SetHidden hidden b))
      (tx_store t) (tx_store t'))"
  using assms unfolding SetBoardVisibility_tx_def boardTx_SelectBoardByUUID_def boardTx_Update_def
  by (auto simp: tx_simps administrator_def elim!: boards_changed_dispatch)

lemma DeleteBoard_tx_run:
  assumes "DeleteBoard_tx boardUUID userID e t = Some (Inr u, t')"
  shows "administrator userID (tx_store t) \<and> (\<exists>b.
    selectBoardByUUID boardUUID (st_boards (tx_store t)) = Some b \<and>
    \<not> existsByBoardID (board_ID b) (st_posts (tx_store t)) \<and>
    boards_changed e ''deleted'' (board_ID b) (Board_delete (board_ID b)) (tx_store t) (tx_store t'))"
  using assms unfolding DeleteBoard_tx_def boardTx_SelectBoardByUUID_def boardTx_Delete_def
    postTx_ExistsByBoardID_def
  by (auto simp: tx_simps administrator_def split: if_splits elim!: boards_changed_dispatch)

lemma board_committed:
  "CreateBoard e tick userID name description s = Some (Inr uuid, s1) \<Longrightarrow> \<exists>b t.
    CreateBoard_tx userID b e (begin_tx (tick + 2) s) = Some (Inr uuid, t) \<and> s1 = tx_store t \<and>
    b = NewBoard (env_now e (tick + 1)) (env_uuid e tick) name description \<and> TrimSpace name \<noteq> []"
  "UpdateBoard e tick boardUUID userID name description s = Some (Inr u, s2) \<Longrightarrow> \<exists>t.
    UpdateBoard_tx boardUUID userID name description e (begin_tx tick s) = Some (Inr u, t) \<and> s2 = tx_store t \<and>
    TrimSpace name \<noteq> []"
  "DeleteBoard e tick boardUUID userID s = Some (Inr u, s3) \<Longrightarrow> \<exists>t.
    DeleteBoard_tx boardUUID userID e (begin_tx tick s) = Some (Inr u, t) \<and> s3 = tx_store t"
  "SetBoardVisibility e tick boardUUID userID hidden s = Some (Inr u, s4) \<Longrightarrow> \<exists>t.
    SetBoardVisibility_tx boardUUID userID hidden e (begin_tx tick s) = Some (Inr u, t) \<and> s4 = tx_store t"
  unfolding CreateBoard_def UpdateBoard_def DeleteBoard_def SetBoardVisibility_def
  by (auto simp: atomic_commit [OF board_tx_atomic(1)] atomic_commit [OF board_tx_atomic(2)]
      atomic_commit [OF board_tx_atomic(3)] atomic_commit [OF board_tx_atomic(4)] Let_def split: if_splits)

lemma board_rollback:
  "CreateBoard e tick userID name description s = Some (Inl err, s1) \<Longrightarrow> s1 = s"
  "UpdateBoard e tick boardUUID userID name description s = Some (Inl err, s2) \<Longrightarrow> s2 = s"
  "DeleteBoard e tick boardUUID userID s = Some (Inl err, s3) \<Longrightarrow> s3 = s"
  "SetBoardVisibility e tick boardUUID userID hidden s = Some (Inl err, s4) \<Longrightarrow> s4 = s"
  unfolding CreateBoard_def UpdateBoard_def DeleteBoard_def SetBoardVisibility_def
  by (auto simp: Let_def split: if_splits dest: atomic_rollback [OF board_tx_atomic(1)]
      atomic_rollback [OF board_tx_atomic(2)] atomic_rollback [OF board_tx_atomic(3)]
      atomic_rollback [OF board_tx_atomic(4)])

lemma selectBoardByUUID_row:
  "db_ok board_ID r \<Longrightarrow> selectBoardByUUID uuid r = Some b \<Longrightarrow> db_get r (board_ID b) = Some b \<and> board_UUID b = uuid"
  by (auto simp: selectBoardByUUID_def find_Some_iff db_get_row)

section \<open>Every post has its board\<close>

definition posts_housed :: "store \<Rightarrow> bool" where
  "posts_housed s \<longleftrightarrow> db_ok board_ID (st_boards s) \<and> db_ok post_ID (st_posts s) \<and>
     (\<forall>p \<in> set (db_rows (st_posts s)). post_Status p \<noteq> PostStatusDeleted \<longrightarrow>
        db_get (st_boards s) (post_BoardID p) \<noteq> None)"

lemma boards_changed_fields:
  assumes "boards_changed e operation i change s s'"
  shows "st_boards s' = change (st_boards s)" "st_posts s' = st_posts s" "st_users s' = st_users s"
    "\<exists>changed. queued e [NewBoardChanged changed operation i] s s'"
proof -
  have eq: "s' = s\<lparr>st_boards := change (st_boards s), st_outbox := st_outbox s'\<rparr>"
    using assms by (simp add: boards_changed_def)
  show "st_boards s' = change (st_boards s)" by (subst eq) simp
  show "st_posts s' = st_posts s" by (subst eq) simp
  show "st_users s' = st_users s" by (subst eq) simp
qed (use assms in \<open>simp add: boards_changed_def\<close>)

lemma posts_housed_mono:
  assumes "posts_housed s" "boards_changed e operation i change s s'"
    and "db_ok board_ID (change (st_boards s))"
    and "\<And>j. db_get (st_boards s) j \<noteq> None \<Longrightarrow> db_get (change (st_boards s)) j \<noteq> None"
  shows "posts_housed s'"
  using assms boards_changed_fields [OF assms(2)] by (simp add: posts_housed_def)

lemma CreateBoard_housed:
  assumes "CreateBoard e tick userID name description s = Some (r, s')" "posts_housed s"
  shows "posts_housed s'"
proof (cases r)
  case (Inl err)
  with assms board_rollback(1) show ?thesis by blast
next
  case (Inr uuid)
  from board_committed(1) [OF assms(1) [unfolded Inr]] obtain b t where
    t: "CreateBoard_tx userID b e (begin_tx (tick + 2) s) = Some (Inr uuid, t)" "s' = tx_store t" by blast
  from CreateBoard_tx_run [OF t(1)] t(2) obtain saved boards' where
    b: "Board_save b (st_boards s) = (saved, boards')"
    and c: "boards_changed e ''created'' (board_ID saved) (\<lambda>_. boards') s s'" by auto
  have ok: "db_ok board_ID (st_boards s)" using assms(2) by (simp add: posts_housed_def)
  show ?thesis
    by (rule posts_housed_mono [OF assms(2) c])
      (use boards.insert_inv [OF ok b] boards.insert_get [OF ok b] in auto)
qed

lemma Board_update_housed:
  assumes "posts_housed s" "boards_changed e operation i (Board_update b) s s'"
  shows "posts_housed s'"
proof -
  have ok: "db_ok board_ID (st_boards s)" using assms(1) by (simp add: posts_housed_def)
  show ?thesis
    by (rule posts_housed_mono [OF assms])
      (use boards.replace_inv [OF ok] boards.replace_get [OF ok] in \<open>auto split: if_splits\<close>)
qed

lemma UpdateBoard_housed:
  assumes "UpdateBoard e tick boardUUID userID name description s = Some (r, s')" "posts_housed s"
  shows "posts_housed s'"
proof (cases r)
  case (Inl err)
  with assms board_rollback(2) show ?thesis by blast
next
  case (Inr u)
  from board_committed(2) [OF assms(1) [unfolded Inr]] obtain t where
    t: "UpdateBoard_tx boardUUID userID name description e (begin_tx tick s) = Some (Inr u, t)" "s' = tx_store t"
    by blast
  with UpdateBoard_tx_run [OF t(1)] Board_update_housed [OF assms(2)] show ?thesis by auto
qed

lemma SetBoardVisibility_housed:
  assumes "SetBoardVisibility e tick boardUUID userID hidden s = Some (r, s')" "posts_housed s"
  shows "posts_housed s'"
proof (cases r)
  case (Inl err)
  with assms board_rollback(4) show ?thesis by blast
next
  case (Inr u)
  from board_committed(4) [OF assms(1) [unfolded Inr]] obtain t where
    t: "SetBoardVisibility_tx boardUUID userID hidden e (begin_tx tick s) = Some (Inr u, t)" "s' = tx_store t"
    by blast
  with SetBoardVisibility_tx_run [OF t(1)] Board_update_housed [OF assms(2)] show ?thesis by auto
qed

lemma DeleteBoard_run:
  assumes "DeleteBoard e tick boardUUID userID s = Some (Inr (), s')" "db_ok board_ID (st_boards s)"
  shows "administrator userID s \<and> (\<exists>b. selectBoardByUUID boardUUID (st_boards s) = Some b \<and>
    (\<forall>p \<in> set (db_rows (st_posts s)). post_BoardID p = board_ID b \<longrightarrow> post_Status p = PostStatusDeleted) \<and>
    db_get (st_boards s') = (db_get (st_boards s))(board_ID b := None) \<and>
    boards_changed e ''deleted'' (board_ID b) (Board_delete (board_ID b)) s s')"
proof -
  from board_committed(3) [OF assms(1)] obtain t where
    t: "DeleteBoard_tx boardUUID userID e (begin_tx tick s) = Some (Inr (), t)" "s' = tx_store t" by blast
  from DeleteBoard_tx_run [OF t(1)] t(2) obtain b where
    b: "administrator userID s" "selectBoardByUUID boardUUID (st_boards s) = Some b"
      "\<not> existsByBoardID (board_ID b) (st_posts s)"
    and c: "boards_changed e ''deleted'' (board_ID b) (Board_delete (board_ID b)) s s'" by auto
  have "db_get (st_boards s') = (db_get (st_boards s))(board_ID b := None)"
    by (simp add: boards_changed_fields(1) [OF c] Board_delete_def)
  with b c show ?thesis by (auto simp: existsByBoardID_def)
qed

lemma DeleteBoard_housed:
  assumes "DeleteBoard e tick boardUUID userID s = Some (r, s')" "posts_housed s"
  shows "posts_housed s'"
proof (cases r)
  case (Inl err)
  with assms board_rollback(3) show ?thesis by blast
next
  case (Inr u)
  have ok: "db_ok board_ID (st_boards s)" using assms(2) by (simp add: posts_housed_def)
  from assms(1) Inr have d: "DeleteBoard e tick boardUUID userID s = Some (Inr (), s')" by simp
  from DeleteBoard_run [OF d ok] obtain b where
    b: "selectBoardByUUID boardUUID (st_boards s) = Some b" and n: "\<forall>p \<in> set (db_rows (st_posts s)). post_BoardID p = board_ID b \<longrightarrow> post_Status p = PostStatusDeleted"
    and c: "boards_changed e ''deleted'' (board_ID b) (Board_delete (board_ID b)) s s'" by blast
  show ?thesis
    using assms(2) n boards_changed_fields [OF c] Board_delete_ok [OF ok, of "board_ID b"]
    by (auto simp: posts_housed_def Board_delete_def)
qed

text \<open>
  Deleting a board is for administrators and succeeds only when every post of the board is
  deleted; then the board is gone, every other board and everything else is as it was, and the
  event is queued.
\<close>

theorem DeleteBoard_effect:
  assumes "DeleteBoard e tick boardUUID userID s = Some (Inr (), s')" "db_ok board_ID (st_boards s)"
  shows "(\<exists>u. selectUserByID userID (st_users s) = Some u \<and> IsAdmin u) \<and>
    (\<exists>b changed. selectBoardByUUID boardUUID (st_boards s) = Some b \<and>
      (\<forall>p \<in> set (db_rows (st_posts s)). post_BoardID p = board_ID b \<longrightarrow> post_Status p = PostStatusDeleted) \<and>
      db_get (st_boards s') = (db_get (st_boards s))(board_ID b := None) \<and>
      queued e [NewBoardChanged changed ''deleted'' (board_ID b)] s s' \<and>
      s' = s\<lparr>st_boards := st_boards s', st_outbox := st_outbox s'\<rparr>)"
proof -
  from DeleteBoard_run [OF assms] obtain b where
    b: "administrator userID s" "selectBoardByUUID boardUUID (st_boards s) = Some b"
      "\<forall>p \<in> set (db_rows (st_posts s)). post_BoardID p = board_ID b \<longrightarrow> post_Status p = PostStatusDeleted"
      "db_get (st_boards s') = (db_get (st_boards s))(board_ID b := None)"
    and c: "boards_changed e ''deleted'' (board_ID b) (Board_delete (board_ID b)) s s'" by blast
  have "s' = s\<lparr>st_boards := st_boards s', st_outbox := st_outbox s'\<rparr>"
    unfolding boards_changed_fields(1) [OF c] using c by (simp add: boards_changed_def)
  with b boards_changed_fields(4) [OF c] show ?thesis unfolding administrator_def by blast
qed

section \<open>The lists and their cache\<close>

lemma GetBoards_shows:
  assumes "fst (GetBoards e ttl clk limit cursor s c) = Inr l"
    and "\<And>lastID. map_of (cache_store c) (key_BoardList limit lastID) = None"
  shows "int (length (bl_Boards l)) \<le> limit \<and>
    (\<forall>m \<in> set (bl_Boards l). \<exists>b \<in> set (db_rows (st_boards s)). m = BoardFromEntity b \<and> \<not> board_Hidden b)"
proof -
  from assms(1) obtain lastID page fetchLimit where
    d: "RequirePositiveLimit limit = None" "CursorFetchLimit limit = Inr fetchLimit"
    and p: "LoadCursorListPage limit cursor
        (read_repo e ''select board list'' (selectBoardList fetchLimit lastID (st_boards s))) board_ID = Inr page"
    and l: "bl_Boards l = BoardsFromEntities (page_Items page)"
    by (auto simp: GetBoards_def through_cache_def board_page_def GetOrSet_absent [OF assms(2)]
        bindE_def split: option.splits sum.splits if_splits)
  have lim: "0 < limit" using d(1) by (simp add: RequirePositiveLimit_def split: if_splits)
  from p obtain items where i: "page_Items page = take (nat limit) items"
    and f: "items = selectBoardList fetchLimit lastID (st_boards s)"
    by (auto simp: LoadCursorListPage_def Let_def read_repo_def split: option.splits if_splits)
  have "set items \<subseteq> {b \<in> set (db_rows (st_boards s)). \<not> board_Hidden b}"
    by (auto simp: f selectBoardList_def dest: subsetD [OF set_take_int])
  then show ?thesis
    using set_take_subset [of "nat limit" items] lim
    by (auto simp: l i BoardsFromEntities_def)
qed

text \<open>
  C28: once the event of a change to a board has been handled, the list of boards is loaded from
  the store: whatever the cache held before, the answer is that of an empty cache, and it shows
  visible boards only.
\<close>

theorem board_list_fresh:
  assumes "cache_ok c" "c' = CacheInvalidation_Handle (BoardChanged operation boardID at) c"
  shows "fst (GetBoards e ttl clk limit cursor s c') = fst (GetBoards e ttl clk limit cursor s NewInMemoryCache) \<and>
    (\<forall>l. fst (GetBoards e ttl clk limit cursor s c') = Inr l \<longrightarrow> int (length (bl_Boards l)) \<le> limit \<and>
      (\<forall>m \<in> set (bl_Boards l). \<exists>b \<in> set (db_rows (st_boards s)). m = BoardFromEntity b \<and> \<not> board_Hidden b))"
proof -
  have g: "map_of (cache_store c') (key_BoardList limit lastID) = None" for lastID
    unfolding assms(2) by (rule Handle_gone [OF assms(1)]) (simp add: covered_def key_defs has_prefix_def)
  have "fst (GetBoards e ttl clk limit cursor s c') = fst (GetBoards e ttl clk limit cursor s NewInMemoryCache)"
    unfolding GetBoards_def
    by (auto simp: NewInMemoryCache_def split: option.split sum.split intro!: through_cache_absent g)
  with GetBoards_shows [OF _ g] show ?thesis by blast
qed

lemma admin_list_kept:
  assumes "cache_ok c"
  shows "map_of (cache_store (fold CacheInvalidation_Handle events c)) (key_BoardAdminList limit lastID) =
    map_of (cache_store c) (key_BoardAdminList limit lastID)"
  using assms
proof (induction events arbitrary: c)
  case (Cons event events)
  have "\<not> covered (dropped_keys event) (dropped_prefixes event) (key_BoardAdminList limit lastID)"
    by (cases event) (auto simp: covered_def key_defs has_prefix_def)
  then have "map_of (cache_store (CacheInvalidation_Handle event c)) (key_BoardAdminList limit lastID) =
      map_of (cache_store c) (key_BoardAdminList limit lastID)"
    by (rule Handle_kept [OF Cons.prems])
  with Cons.IH [of "CacheInvalidation_Handle event c"] Handle_reduces [OF Cons.prems, of event]
  show ?case by (simp add: reduced_def)
qed simp

text \<open>
  C29: no event drops the cached list of all boards: until its entry expires, the administrators
  are shown the list as it was loaded, whatever has happened to the boards since and whichever
  events have been handled.
\<close>

theorem admin_board_list_stale:
  assumes "cache_ok c" "1 \<le> limit" "limit \<le> MaxPageLimit" "DecodeOpaqueCursor cursor = Inr lastID"
    and "cached_at c (clk 0) (key_BoardAdminList limit lastID) = Some (CachedBoardList l)"
  shows "fst (GetAllBoards e ttl clk limit cursor s (fold CacheInvalidation_Handle events c)) = Inr l"
proof -
  have "cached_at (fold CacheInvalidation_Handle events c) (clk 0) (key_BoardAdminList limit lastID) =
      Some (CachedBoardList l)"
    using assms(5) admin_list_kept [OF assms(1)] by (simp add: cached_at_def)
  then show ?thesis
    using assms(2-4) by (simp add: GetAllBoards_def RequirePositiveLimit_def through_cache_hit)
qed

section \<open>The boards of a small forum\<close>

lemmas board_eval =
  DeleteBoard_def DeleteBoard_tx_def boardTx_SelectBoardByUUID_def boardTx_Delete_def
  postTx_ExistsByBoardID_def selectBoardByUUID_def existsByBoardID_def captureBoard_def Board_delete_def

definition demo_empty_board :: store where
  "demo_empty_board = demo_store\<lparr>st_posts := Post_delete 9 2 demo_posts\<rparr>"

theorem DeleteBoard_effect_witness:
  "\<exists>s'. DeleteBoard demo_env 0 ''b2'' 1 demo_empty_board = Some (Inr (), s') \<and>
    (\<exists>b. selectBoardByUUID ''b2'' (st_boards demo_empty_board) = Some b \<and>
      db_get (st_boards s') = (db_get (st_boards demo_empty_board))(board_ID b := None))"
proof -
  have "\<exists>s'. DeleteBoard demo_env 0 ''b2'' 1 demo_empty_board = Some (Inr (), s')"
    apply (simp add: board_eval demo_empty_board_def Post_delete_def Post_SoftDelete_def action_eval
        entity_eval policy_eval cong: bindT_eval_cong)
    apply (simp add: event_eval action_eval cong: bindT_eval_cong)
    done
  moreover have "db_ok board_ID (st_boards demo_empty_board)"
    by (simp add: demo_empty_board_def db_ok_def demo_store_simps entity_eval)
  ultimately show ?thesis using DeleteBoard_effect by blast
qed

definition demo_cache :: "cached cache" where
  "demo_cache = snd (GetAllBoards demo_env 60 (\<lambda>_. 100) 10 [] demo_store NewInMemoryCache)"

lemma demo_cache_list:
  "\<exists>l. demo_cache = SetWithTTL 100 (key_BoardAdminList 10 0) (CachedBoardList l) 60 NewInMemoryCache"
  by (simp add: demo_cache_def GetAllBoards_def RequirePositiveLimit_def MaxPageLimit_def
      DecodeOpaqueCursor_def through_cache_def GetOrSet_absent NewInMemoryCache_def board_page_def
      CursorFetchLimit_def LoadCursorListPage_def Let_def read_repo_def demo_env_simps) blast

theorem board_list_fresh_witness:
  "fst (GetBoards demo_env 60 (\<lambda>_. 200) 10 [] demo_store
      (CacheInvalidation_Handle (BoardChanged ''visibility'' 1 150) demo_cache)) =
    fst (GetBoards demo_env 60 (\<lambda>_. 200) 10 [] demo_store NewInMemoryCache)"
proof -
  have "cache_ok demo_cache" using demo_cache_list SetWithTTL_ok [OF cache_ok_new] by metis
  from board_list_fresh [OF this refl] show ?thesis by blast
qed

theorem admin_board_list_stale_witness:
  "\<exists>l. \<forall>s. fst (GetAllBoards demo_env 60 (\<lambda>_. 200) 10 [] s
      (fold CacheInvalidation_Handle [BoardChanged ''visibility'' 1 150] demo_cache)) = Inr l"
proof -
  obtain l where d: "demo_cache =
      SetWithTTL 100 (key_BoardAdminList 10 0) (CachedBoardList l) 60 NewInMemoryCache"
    using demo_cache_list by blast
  have ok: "cache_ok demo_cache" unfolding d by (rule SetWithTTL_ok [OF cache_ok_new])
  have "cached_at demo_cache ((\<lambda>_. 200) 0) (key_BoardAdminList 10 0) = Some (CachedBoardList l)"
    unfolding d by (simp add: SetWithTTL_reads second_def)
  from admin_board_list_stale [OF ok _ _ _ this, of "[]"] show ?thesis
    by (intro exI [of _ l] allI) (simp add: MaxPageLimit_def DecodeOpaqueCursor_def del: fold.simps)
qed

end
