(* ===== verification/SvcPost.thy ===== *)
theory SvcPost
  imports PostSweep SvcBoard
begin

text \<open>
  \<open>service/post/command_handler.go\<close>: writing, publishing, changing and deleting a post. Each
  command is one transaction. A post that is created or changed carries exactly the normalised
  tags of the request; a deleted post carries none, its comments are deleted, its attachments
  are orphans and the reactions to it and to its comments are gone. The commands keep
  \<open>forum_ok\<close>: every post that is not deleted has its board, and only such posts carry tags.

  That the deletion answers at all rests on \<open>deleteBatches_run\<close>: the loop over batches ends.
\<close>

section \<open>The commands\<close>

definition createPost_tx ::
  "string \<Rightarrow> string \<Rightarrow> string list \<Rightarrow> string list \<Rightarrow> int \<Rightarrow> string \<Rightarrow> bool \<Rightarrow> post \<Rightarrow> string action" where
  "createPost_tx title content normalizedTags mentionedUsernames authorID boardUUID draft newPost =
     bindT (wrapped ''select user by id for create post'' (userTx_SelectUserByID authorID)) (\<lambda>ou.
     bindT (requireT ou (Sentinel ErrUserNotFound)) (\<lambda>user.
     bindT (if draft then ensureT (ForbidGuest (Some user)) else returnT ()) (\<lambda>_.
     bindT (ensureT (EnsureGuestLifecycleAllowsWrite (Some user))) (\<lambda>_.
     bindT nowT (\<lambda>now.
     bindT (ensureT (CanWrite now (Some user))) (\<lambda>_.
     bindT (wrapped ''select board by uuid for create post'' (boardTx_SelectBoardByUUID boardUUID)) (\<lambda>ob.
     bindT (requireT ob (Sentinel ErrBoardNotFound)) (\<lambda>board.
     bindT (ensureT (EnsureBoardVisible (Some board) (Some user))) (\<lambda>_.
     bindT (wrapped ''save post'' (postTx_Save newPost)) (\<lambda>saved.
     bindT (upsertPostTags (post_ID saved) normalizedTags) (\<lambda>_.
     bindT (if draft then returnT ()
            else bindT nowT (\<lambda>changed.
                 bindT (BuildMentionNotificationEvents user mentionedUsernames (post_ID saved) 0 title content)
                   (\<lambda>mentions.
                      DispatchDomainActions
                        (NewPostChanged changed ''created'' (post_ID saved) (board_ID board)
                           (post_PublishedAt saved) normalizedTags [] # mentions)))) (\<lambda>_.
       returnT (post_UUID saved)))))))))))))"

definition createPost ::
  "env \<Rightarrow> nat \<Rightarrow> string \<Rightarrow> string \<Rightarrow> string list \<Rightarrow> string list \<Rightarrow> int \<Rightarrow> string \<Rightarrow> bool \<Rightarrow> store \<Rightarrow>
    ((go_error + string) \<times> store) option" where
  "createPost e tick title content tags mentionedUsernames authorID boardUUID draft s =
     (if TrimSpace title = [] \<or> TrimSpace content = [] then Some (Inl (Sentinel ErrInvalidInput), s)
      else case normalizeTags (env_lower e) tags of
        Inl err \<Rightarrow> Some (Inl err, s)
      | Inr normalizedTags \<Rightarrow>
          if extractAttachmentRefIDs content \<noteq> [] then Some (Inl (Sentinel ErrInvalidInput), s)
          else (case read_repo e ''select board by uuid for create post''
                       (selectBoardByUUID boardUUID (st_boards s)) of
             Inl err \<Rightarrow> Some (Inl err, s)
           | Inr None \<Rightarrow> Some (Inl (Sentinel ErrBoardNotFound), s)
           | Inr (Some board) \<Rightarrow>
               let newPost = (if draft then NewDraftPost else NewPost)
                     (env_now e tick) (env_uuid e (tick + 1)) title content authorID (board_ID board)
               in WithinTransaction e (tick + 2)
                    (createPost_tx title content normalizedTags mentionedUsernames authorID boardUUID
                       draft newPost) s))"

definition CreatePost ::
  "env \<Rightarrow> nat \<Rightarrow> string \<Rightarrow> string \<Rightarrow> string list \<Rightarrow> string list \<Rightarrow> int \<Rightarrow> string \<Rightarrow> store \<Rightarrow>
    ((go_error + string) \<times> store) option" where
  "CreatePost e tick title content tags mentionedUsernames authorID boardUUID s =
     createPost e tick title content tags mentionedUsernames authorID boardUUID False s"

definition CreateDraftPost ::
  "env \<Rightarrow> nat \<Rightarrow> string \<Rightarrow> string \<Rightarrow> string list \<Rightarrow> string list \<Rightarrow> int \<Rightarrow> string \<Rightarrow> store \<Rightarrow>
    ((go_error + string) \<times> store) option" where
  "CreateDraftPost e tick title content tags mentionedUsernames authorID boardUUID s =
     createPost e tick title content tags mentionedUsernames authorID boardUUID True s"

definition PublishPost_tx :: "string \<Rightarrow> int \<Rightarrow> unit action" where
  "PublishPost_tx postUUID authorID =
     bindT (wrapped ''select post by id including unpublished for publish post''
              (postTx_SelectPostByUUIDIncludingUnpublished postUUID)) (\<lambda>op.
     bindT (requireT op (Sentinel ErrPostNotFound)) (\<lambda>post.
     bindT (wrapped ''select user by id for publish post'' (userTx_SelectUserByID authorID)) (\<lambda>ou.
     bindT (requireT ou (Sentinel ErrUserNotFound)) (\<lambda>requester.
     bindT (ensureT (ForbidGuest (Some requester))) (\<lambda>_.
     bindT nowT (\<lambda>now.
     bindT (ensureT (CanWrite now (Some requester))) (\<lambda>_.
     bindT (ensureT (OwnerOrAdmin (Some requester) (post_AuthorID post))) (\<lambda>_.
     bindT (validateAttachmentRefsWithRepo (post_ID post) (post_Content post)) (\<lambda>_.
     bindT (activeTagNamesByPostIDTx (post_ID post)) (\<lambda>currentTags.
     bindT (syncPostAttachmentOrphans (post_ID post) (post_Content post)) (\<lambda>_.
     bindT nowT (\<lambda>published.
     bindT (wrapped ''publish post'' (postTx_Update (Publish published post))) (\<lambda>_.
     bindT nowT (\<lambda>changed.
       DispatchDomainActions
         [NewPostChanged changed ''published'' (post_ID post) (post_BoardID post)
            (post_PublishedAt (Publish published post)) currentTags []]))))))))))))))"

definition PublishPost ::
  "env \<Rightarrow> nat \<Rightarrow> string \<Rightarrow> int \<Rightarrow> store \<Rightarrow> ((go_error + unit) \<times> store) option" where
  "PublishPost e tick postUUID authorID s =
     WithinTransaction e tick (PublishPost_tx postUUID authorID) s"

definition UpdatePost_tx ::
  "string \<Rightarrow> int \<Rightarrow> string \<Rightarrow> string \<Rightarrow> string list \<Rightarrow> unit action" where
  "UpdatePost_tx postUUID authorID title content normalizedTags =
     bindT (wrapped ''select post by id for update post''
              (postTx_SelectPostByUUIDIncludingUnpublished postUUID)) (\<lambda>op.
     bindT (requireT op (Sentinel ErrPostNotFound)) (\<lambda>post.
     bindT (wrapped ''select user by id for update post'' (userTx_SelectUserByID authorID)) (\<lambda>ou.
     bindT (requireT ou (Sentinel ErrUserNotFound)) (\<lambda>requester.
     bindT (ensureT (EnsureGuestLifecycleAllowsWrite (Some requester))) (\<lambda>_.
     bindT nowT (\<lambda>now.
     bindT (ensureT (CanWrite now (Some requester))) (\<lambda>_.
     bindT (ensureT (OwnerOrAdmin (Some requester) (post_AuthorID post))) (\<lambda>_.
     bindT (validateAttachmentRefsWithRepo (post_ID post) content) (\<lambda>_.
     bindT (activeTagNamesByPostIDTx (post_ID post)) (\<lambda>currentTagNames.
     bindT (syncPostAttachmentOrphans (post_ID post) content) (\<lambda>_.
     bindT nowT (\<lambda>updated.
     bindT (wrapped ''update post'' (postTx_Update (Post_Update updated title content post))) (\<lambda>_.
     bindT (syncPostTags (post_ID post) normalizedTags) (\<lambda>_.
     bindT nowT (\<lambda>changed.
       DispatchDomainActions
         [NewPostChanged changed ''updated'' (post_ID post) (post_BoardID post) (post_PublishedAt post)
            (unionTagNames currentTagNames normalizedTags) []])))))))))))))))"

definition UpdatePost ::
  "env \<Rightarrow> nat \<Rightarrow> string \<Rightarrow> int \<Rightarrow> string \<Rightarrow> string \<Rightarrow> string list \<Rightarrow> store \<Rightarrow>
    ((go_error + unit) \<times> store) option" where
  "UpdatePost e tick postUUID authorID title content tags s =
     (if TrimSpace title = [] \<or> TrimSpace content = [] then Some (Inl (Sentinel ErrInvalidInput), s)
      else case normalizeTags (env_lower e) tags of
        Inl err \<Rightarrow> Some (Inl err, s)
      | Inr normalizedTags \<Rightarrow>
          WithinTransaction e tick (UpdatePost_tx postUUID authorID title content normalizedTags) s)"

definition DeletePost_tx :: "string \<Rightarrow> int \<Rightarrow> unit action" where
  "DeletePost_tx postUUID authorID =
     bindT (wrapped ''select post by uuid for delete post''
              (postTx_SelectPostByUUIDIncludingUnpublished postUUID)) (\<lambda>op.
     bindT (requireT op (Sentinel ErrPostNotFound)) (\<lambda>post.
     bindT (wrapped ''select user by id for delete post'' (userTx_SelectUserByID authorID)) (\<lambda>ou.
     bindT (requireT ou (Sentinel ErrUserNotFound)) (\<lambda>requester.
     bindT (ensureT (EnsureGuestLifecycleAllowsWrite (Some requester))) (\<lambda>_.
     bindT nowT (\<lambda>now.
     bindT (ensureT (CanWrite now (Some requester))) (\<lambda>_.
     bindT (ensureT (OwnerOrAdmin (Some requester) (post_AuthorID post))) (\<lambda>_.
     bindT (activeTagNamesByPostIDTx (post_ID post)) (\<lambda>currentTagNames.
     bindT (deletePostArtifacts (post_ID post)) (\<lambda>deletedCommentIDs.
     bindT (wrapped ''delete post'' (postTx_Delete (post_ID post))) (\<lambda>_.
     bindT (wrapped ''soft delete post tags'' (postTagTx_SoftDeleteByPostID (post_ID post))) (\<lambda>_.
     bindT nowT (\<lambda>changed.
       DispatchDomainActions
         [NewPostChanged changed ''deleted'' (post_ID post) (post_BoardID post) (post_PublishedAt post)
            currentTagNames deletedCommentIDs])))))))))))))"

definition DeletePost ::
  "env \<Rightarrow> nat \<Rightarrow> string \<Rightarrow> int \<Rightarrow> store \<Rightarrow> ((go_error + unit) \<times> store) option" where
  "DeletePost e tick postUUID authorID s =
     WithinTransaction e tick (DeletePost_tx postUUID authorID) s"

section \<open>Failure and blocking\<close>

lemma post_tx_atomic [atomic_intros]:
  "atomic (createPost_tx title content names mentions authorID boardUUID draft p)"
  "atomic (PublishPost_tx postUUID authorID)"
  "atomic (UpdatePost_tx postUUID authorID title content names)"
  "atomic (DeletePost_tx postUUID authorID)"
  unfolding createPost_tx_def PublishPost_tx_def UpdatePost_tx_def DeletePost_tx_def
    userTx_SelectUserByID_def boardTx_SelectBoardByUUID_def postTx_Save_def postTx_Update_def
    postTx_Delete_def postTx_SelectPostByUUIDIncludingUnpublished_def postTagTx_SoftDeleteByPostID_def
  by (intro atomic_intros)+

lemma post_tx_returns [returns_intros]:
  "returns (createPost_tx title content names mentions authorID boardUUID draft p)"
  "returns (PublishPost_tx postUUID authorID)"
  "returns (UpdatePost_tx postUUID authorID title content names)"
  unfolding createPost_tx_def PublishPost_tx_def UpdatePost_tx_def
    userTx_SelectUserByID_def boardTx_SelectBoardByUUID_def postTx_Save_def postTx_Update_def
    postTx_SelectPostByUUIDIncludingUnpublished_def
  by (intro returns_intros)+

text \<open>A step that reads hands the store on, so a loop after it starts where the transaction did.\<close>

definition reads :: "'a action \<Rightarrow> bool" where
  "reads m \<longleftrightarrow> (\<forall>e t. \<exists>r t'. m e t = Some (r, t') \<and> tx_store t' = tx_store t)"

lemma reads_basic:
  "reads (returnT a)" "reads (throwT err)" "reads nowT" "reads (read_part get g)"
  "reads (ensureT res)" "reads (requireT x err)"
  by (simp_all add: reads_def returnT_def throwT_def nowT_def read_part_def ensureT_def requireT_def
      split: option.split)

lemma readsI:
  "(\<And>e t. \<exists>r t'. m e t = Some (r, t') \<and> tx_store t' = tx_store t) \<Longrightarrow> reads m"
  by (simp add: reads_def)

lemma reads_wrapped:
  assumes "reads m"
  shows "reads (wrapped label m)"
proof (rule readsI)
  fix e t
  obtain r t' where "m e t = Some (r, t')" "tx_store t' = tx_store t" using assms unfolding reads_def by blast
  then show "\<exists>r t'. wrapped label m e t = Some (r, t') \<and> tx_store t' = tx_store t"
    by (auto simp: wrapped_def split: option.split sum.split)
qed

lemma reads_bindT:
  assumes "reads m" "\<And>a. reads (f a)"
  shows "reads (bindT m f)"
proof (rule readsI)
  fix e t
  obtain r t1 where m: "m e t = Some (r, t1)" "tx_store t1 = tx_store t" using assms(1) unfolding reads_def by blast
  show "\<exists>r t'. bindT m f e t = Some (r, t') \<and> tx_store t' = tx_store t"
  proof (cases r)
    case (Inr a)
    from assms(2) [of a] obtain r' t' where "f a e t1 = Some (r', t')" "tx_store t' = tx_store t1"
      unfolding reads_def by blast
    with m Inr show ?thesis by (simp add: bindT_def)
  qed (simp add: bindT_def m)
qed

lemma reads_if: "reads m \<Longrightarrow> reads n \<Longrightarrow> reads (if b then m else n)"
  by simp

lemma reads_tags: "reads (activeTagNamesByPostIDTx postID)"
  unfolding activeTagNamesByPostIDTx_def tagsForPostTx_def postTagTx_SelectActiveByPostID_def
    tagTx_SelectByIDs_def
  by (intro reads_bindT reads_wrapped reads_if reads_basic)

lemma reads_then:
  assumes "reads m" "\<And>a t'. m e t = Some (Inr a, t') \<Longrightarrow> tx_store t' = tx_store t \<Longrightarrow> f a e t' \<noteq> None"
  shows "bindT m f e t \<noteq> None"
proof -
  obtain r t' where "m e t = Some (r, t')" "tx_store t' = tx_store t"
    using assms(1) unfolding reads_def by blast
  with assms(2) show ?thesis by (cases r) (auto simp: bindT_def)
qed

lemma returns_then: "m e t \<noteq> None \<Longrightarrow> (\<And>a. returns (f a)) \<Longrightarrow> bindT m f e t \<noteq> None"
  by (auto simp: bindT_def returns_def split: sum.split)

lemma deletePostArtifacts_returns:
  assumes "sweepable (tx_store t)"
  shows "deletePostArtifacts postID e t \<noteq> None"
proof -
  have "\<forall>c \<in> set (active_of postID (st_comments (tx_store t))). after_cursor comment_ID 0 c"
    by (simp add: after_first)
  from deleteBatches_run [OF assms this, of "[]" e]
  have "deletePostCommentsInBatches postID e t \<noteq> None"
    by (auto simp: deletePostCommentsInBatches_def)
  then show ?thesis
    unfolding deletePostArtifacts_def reactionTx_DeleteByTarget_def
    by (rule returns_then) (intro returns_intros)
qed

lemma DeletePost_tx_returns:
  assumes "sweepable (tx_store t)"
  shows "DeletePost_tx postUUID authorID e t \<noteq> None"
  unfolding DeletePost_tx_def userTx_SelectUserByID_def postTx_SelectPostByUUIDIncludingUnpublished_def
  apply (rule reads_then, intro reads_wrapped reads_basic)+
  apply (rule reads_then, rule reads_tags)
  apply (rule returns_then)
   apply (rule deletePostArtifacts_returns, simp add: assms)
  unfolding postTx_Delete_def postTagTx_SoftDeleteByPostID_def
  apply (intro returns_intros)
  done

section \<open>What a successful command did\<close>

lemma activeTagNames_run:
  assumes "activeTagNamesByPostIDTx postID e t = Some (Inr names, t')" "tags_ok (tx_store t)"
  shows "t' = t \<and> set names = post_tag_names (tx_store t) postID"
proof -
  let ?s = "tx_store t" and ?rel = "selectActiveByPostID postID (st_post_tags (tx_store t))"
  from assms(1) have t': "t' = t" and n: "set names = tag_Name ` set (Tag_selectByIDs (map pt_TagID ?rel) (st_tags ?s))"
    by (auto simp: activeTagNamesByPostIDTx_def tagsForPostTx_def postTagTx_SelectActiveByPostID_def
        tagTx_SelectByIDs_def tx_simps TagsFromEntities_def TagFromEntity_def image_image
        Tag_selectByIDs_def map_filter_simps split: if_splits)
  have "set (Tag_selectByIDs (map pt_TagID ?rel) (st_tags ?s)) =
      {x. \<exists>i \<in> active_tags (st_post_tags ?s) postID. db_get (tag_db (st_tags ?s)) i = Some x}"
    using assms(2) set_selectActiveByPostID [of "st_post_tags ?s" postID]
    by (force simp: Tag_selectByIDs_def map_filter_def tags_ok_def)
  with n have "set names = post_tag_names ?s postID"
    by (auto simp: post_tag_names_def tag_named_def)
  with t' show ?thesis by simp
qed

text \<open>The post of a command and the user who may change it: its author or an administrator.\<close>

definition post_owner :: "store \<Rightarrow> string \<Rightarrow> int \<Rightarrow> post \<Rightarrow> user \<Rightarrow> bool" where
  "post_owner s postUUID authorID post requester \<longleftrightarrow>
     selectPostByUUIDIncludingUnpublished postUUID (st_posts s) = Some post \<and>
     selectUserByID authorID (st_users s) = Some requester \<and>
     (user_ID requester = post_AuthorID post \<or> IsAdmin requester)"

text \<open>Every attachment a text embeds belongs to the post and is not about to be deleted.\<close>

definition refs_valid :: "store \<Rightarrow> int \<Rightarrow> string \<Rightarrow> bool" where
  "refs_valid s postID content \<longleftrightarrow> (\<forall>uuid \<in> set (extractAttachmentRefIDs content).
     \<exists>a. Attachment_selectByUUID uuid (st_attachments s) = Some a \<and> attachment_PostID a = postID \<and>
         \<not> IsPendingDelete a)"

lemma remarked_fields:
  assumes "remarked mark postID s s'"
  shows "st_posts s' = st_posts s" "st_tags s' = st_tags s" "st_post_tags s' = st_post_tags s"
    "st_outbox s' = st_outbox s" "st_comments s' = st_comments s" "st_reactions s' = st_reactions s"
    "st_users s' = st_users s" "st_boards s' = st_boards s"
proof -
  have eq: "s'\<lparr>st_attachments := st_attachments s\<rparr> = s" using assms by (simp add: remarked_def)
  show "st_posts s' = st_posts s" "st_tags s' = st_tags s" "st_post_tags s' = st_post_tags s"
    "st_outbox s' = st_outbox s" "st_comments s' = st_comments s" "st_reactions s' = st_reactions s"
    "st_users s' = st_users s" "st_boards s' = st_boards s"
    using arg_cong [OF eq, of st_posts] arg_cong [OF eq, of st_tags] arg_cong [OF eq, of st_post_tags]
      arg_cong [OF eq, of st_outbox] arg_cong [OF eq, of st_comments] arg_cong [OF eq, of st_reactions]
      arg_cong [OF eq, of st_users] arg_cong [OF eq, of st_boards] by simp_all
qed

lemma tags_step_fields:
  assumes "tags_step postID s s'"
  shows "st_posts s' = st_posts s" "st_attachments s' = st_attachments s"
    "st_outbox s' = st_outbox s" "st_comments s' = st_comments s" "st_reactions s' = st_reactions s"
    "st_users s' = st_users s" "st_boards s' = st_boards s"
proof -
  have eq: "s'\<lparr>st_tags := st_tags s, st_post_tags := st_post_tags s\<rparr> = s" using assms by (simp add: tags_step_def)
  show "st_posts s' = st_posts s" "st_attachments s' = st_attachments s"
    "st_outbox s' = st_outbox s" "st_comments s' = st_comments s" "st_reactions s' = st_reactions s"
    "st_users s' = st_users s" "st_boards s' = st_boards s"
    using arg_cong [OF eq, of st_posts] arg_cong [OF eq, of st_attachments]
      arg_cong [OF eq, of st_outbox] arg_cong [OF eq, of st_comments] arg_cong [OF eq, of st_reactions]
      arg_cong [OF eq, of st_users] arg_cong [OF eq, of st_boards] by simp_all
qed

text \<open>
  The steps of the three commands on an existing post, one store after the other.
\<close>

lemma PublishPost_tx_run:
  assumes "PublishPost_tx postUUID authorID e t = Some (Inr u, t')"
    and "tags_ok (tx_store t)" "db_ok attachment_ID (st_attachments (tx_store t))"
  defines "s \<equiv> tx_store t"
  shows "\<exists>post requester now tags published changed s1.
    post_owner s postUUID authorID post requester \<and> \<not> IsGuest requester \<and> \<not> IsSuspended now requester \<and>
    refs_valid s (post_ID post) (post_Content post) \<and>
    remarked (mark_by_text (post_Content post)) (post_ID post) s s1 \<and>
    set tags = post_tag_names s (post_ID post) \<and>
    queued e [NewPostChanged changed ''published'' (post_ID post) (post_BoardID post) (Some published) tags []]
      s (tx_store t') \<and>
    tx_store t' = s1\<lparr>st_posts := Post_update (Publish published post) (st_posts s),
      st_outbox := st_outbox (tx_store t')\<rparr>"
proof -
  from assms(1) obtain post requester t2 tags t3 t4 published t5 changed where
    o: "post_owner s postUUID authorID post requester"
    and g: "\<not> IsGuest requester" "\<not> IsSuspended (env_now e (tx_tick t)) requester"
    and v: "validateAttachmentRefsWithRepo (post_ID post) (post_Content post) e
        (t\<lparr>tx_tick := Suc (tx_tick t)\<rparr>) = Some (Inr (), t2)"
    and a: "activeTagNamesByPostIDTx (post_ID post) e t2 = Some (Inr tags, t3)"
    and y: "syncPostAttachmentOrphans (post_ID post) (post_Content post) e t3 = Some (Inr (), t4)"
    and w: "postTx_Update (Publish published post) e (t4\<lparr>tx_tick := Suc (tx_tick t4)\<rparr>) = Some (Inr (), t5)"
    and d: "DispatchDomainActions [NewPostChanged changed ''published'' (post_ID post) (post_BoardID post)
        (post_PublishedAt (Publish published post)) tags []] e (t5\<lparr>tx_tick := Suc (tx_tick t5)\<rparr>) = Some (Inr u, t')"
    unfolding PublishPost_tx_def userTx_SelectUserByID_def postTx_SelectPostByUUIDIncludingUnpublished_def
    by (clarsimp simp: tx_simps s_def post_owner_def)
  have v': "tx_store t2 = s" "refs_valid s (post_ID post) (post_Content post)"
    using validate_run [OF v] by (auto simp: s_def refs_valid_def)
  have a': "t3 = t2" "set tags = post_tag_names s (post_ID post)"
    using activeTagNames_run [OF a] assms(2) v'(1) by (simp_all add: s_def)
  have y': "remarked (mark_by_text (post_Content post)) (post_ID post) s (tx_store t4)"
    using syncPostAttachmentOrphans_run [OF y] assms(3) v'(1) a'(1) by (simp add: s_def)
  note f = remarked_fields [OF y']
  have w': "tx_store t5 = (tx_store t4)\<lparr>st_posts := Post_update (Publish published post) (st_posts s)\<rparr>"
    using w f(1) by (auto simp: postTx_Update_def tx_simps)
  let ?ev = "[NewPostChanged changed ''published'' (post_ID post) (post_BoardID post) (Some published) tags []]"
  have p: "post_PublishedAt (Publish published post) = Some published" by (simp add: Publish_def)
  have "queued e ?ev s (tx_store t')"
    using Dispatch_queued(1) [OF d [unfolded p], of s] f(4) w' by simp
  moreover have "tx_store t' = (tx_store t4)\<lparr>st_posts := Post_update (Publish published post) (st_posts s),
      st_outbox := st_outbox (tx_store t')\<rparr>"
    using Dispatch_queued(2) [OF d refl] w' by simp
  ultimately show ?thesis using o g v'(2) a'(2) y' by blast
qed

lemma UpdatePost_tx_run:
  assumes "UpdatePost_tx postUUID authorID title content names e t = Some (Inr u, t')"
    and "tags_ok (tx_store t)" "db_ok attachment_ID (st_attachments (tx_store t))"
  defines "s \<equiv> tx_store t"
  shows "\<exists>post requester now tags updated changed s1 s2.
    post_owner s postUUID authorID post requester \<and> may_write requester now \<and>
    refs_valid s (post_ID post) content \<and>
    remarked (mark_by_text content) (post_ID post) s s1 \<and>
    set tags = post_tag_names s (post_ID post) \<and>
    tags_step (post_ID post) (s1\<lparr>st_posts := Post_update (Post_Update updated title content post) (st_posts s)\<rparr>) s2 \<and>
    post_tag_names s2 (post_ID post) = set names \<and>
    queued e [NewPostChanged changed ''updated'' (post_ID post) (post_BoardID post) (post_PublishedAt post)
      (unionTagNames tags names) []] s (tx_store t') \<and>
    tx_store t' = s2\<lparr>st_outbox := st_outbox (tx_store t')\<rparr>"
proof -
  from assms(1) obtain post requester t2 tags t3 t4 updated t5 t6 changed where
    o: "post_owner s postUUID authorID post requester"
    and g: "IsGuest requester \<longrightarrow> IsActiveGuest requester" "\<not> IsSuspended (env_now e (tx_tick t)) requester"
    and v: "validateAttachmentRefsWithRepo (post_ID post) content e
        (t\<lparr>tx_tick := Suc (tx_tick t)\<rparr>) = Some (Inr (), t2)"
    and a: "activeTagNamesByPostIDTx (post_ID post) e t2 = Some (Inr tags, t3)"
    and y: "syncPostAttachmentOrphans (post_ID post) content e t3 = Some (Inr (), t4)"
    and w: "postTx_Update (Post_Update updated title content post) e (t4\<lparr>tx_tick := Suc (tx_tick t4)\<rparr>) = Some (Inr (), t5)"
    and n: "syncPostTags (post_ID post) names e t5 = Some (Inr (), t6)"
    and d: "DispatchDomainActions [NewPostChanged changed ''updated'' (post_ID post) (post_BoardID post)
        (post_PublishedAt post) (unionTagNames tags names) []] e (t6\<lparr>tx_tick := Suc (tx_tick t6)\<rparr>) = Some (Inr u, t')"
    unfolding UpdatePost_tx_def userTx_SelectUserByID_def postTx_SelectPostByUUIDIncludingUnpublished_def
    by (clarsimp simp: tx_simps s_def post_owner_def)
  have v': "tx_store t2 = s" "refs_valid s (post_ID post) content"
    using validate_run [OF v] by (auto simp: s_def refs_valid_def)
  have a': "t3 = t2" "set tags = post_tag_names s (post_ID post)"
    using activeTagNames_run [OF a] assms(2) v'(1) by (simp_all add: s_def)
  have y': "remarked (mark_by_text content) (post_ID post) s (tx_store t4)"
    using syncPostAttachmentOrphans_run [OF y] assms(3) v'(1) a'(1) by (simp add: s_def)
  note f = remarked_fields [OF y']
  have w': "tx_store t5 = (tx_store t4)\<lparr>st_posts := Post_update (Post_Update updated title content post) (st_posts s)\<rparr>"
    using w f(1) by (auto simp: postTx_Update_def tx_simps)
  have "tags_ok (tx_store t5)" using assms(2) f(2,3) by (simp add: w' tags_ok_def s_def)
  note n' = syncPostTags_run [OF n this]
  note h = tags_step_fields [OF n' [THEN conjunct1]]
  let ?ev = "[NewPostChanged changed ''updated'' (post_ID post) (post_BoardID post) (post_PublishedAt post)
      (unionTagNames tags names) []]"
  have "queued e ?ev s (tx_store t')"
    using Dispatch_queued(1) [OF d, of s] f(4) h(3) w' by simp
  moreover have "tx_store t' = (tx_store t6)\<lparr>st_outbox := st_outbox (tx_store t')\<rparr>"
    using Dispatch_queued(2) [OF d refl] by simp
  moreover have "may_write requester (env_now e (tx_tick t))" using g by (simp add: may_write_def)
  ultimately show ?thesis using o v'(2) a'(2) y' n' unfolding w' by blast
qed

text \<open>The artifacts of a post are gone: its comments, the reactions, the use of its attachments.\<close>

definition artifacts_deleted :: "int \<Rightarrow> int list \<Rightarrow> store \<Rightarrow> store \<Rightarrow> bool" where
  "artifacts_deleted postID ids s s' \<longleftrightarrow> (\<exists>s1 s2 n rx.
     ids = map comment_ID (sweep_order postID (st_comments s)) \<and>
     swept (comment_ID ` set (active_of postID (st_comments s))) s s1 \<and>
     remarked MarkOrphaned postID s1 s2 \<and>
     deleteByTarget postID ReactionTargetPost (st_reactions s2) = (n, rx) \<and>
     s' = s2\<lparr>st_reactions := rx\<rparr>)"

lemma artifacts_fields:
  assumes "artifacts_deleted postID ids s s'"
  shows "st_posts s' = st_posts s" "st_tags s' = st_tags s" "st_post_tags s' = st_post_tags s"
    "st_outbox s' = st_outbox s" "st_users s' = st_users s" "st_boards s' = st_boards s"
proof -
  from assms obtain s1 s2 rx where
    sw: "swept (comment_ID ` set (active_of postID (st_comments s))) s s1"
    and rm: "remarked MarkOrphaned postID s1 s2" and s': "s' = s2\<lparr>st_reactions := rx\<rparr>"
    unfolding artifacts_deleted_def by blast
  have eq: "s1\<lparr>st_comments := st_comments s, st_reactions := st_reactions s\<rparr> = s" using sw by (simp add: swept_def)
  note f = remarked_fields [OF rm]
  show "st_posts s' = st_posts s" "st_tags s' = st_tags s" "st_post_tags s' = st_post_tags s"
    "st_outbox s' = st_outbox s" "st_users s' = st_users s" "st_boards s' = st_boards s"
    using f arg_cong [OF eq, of st_posts] arg_cong [OF eq, of st_tags] arg_cong [OF eq, of st_post_tags]
      arg_cong [OF eq, of st_outbox] arg_cong [OF eq, of st_users] arg_cong [OF eq, of st_boards]
    by (simp_all add: s')
qed

lemma DeletePost_tx_run:
  assumes "DeletePost_tx postUUID authorID e t = Some (Inr u, t')"
    and "tags_ok (tx_store t)" "sweepable (tx_store t)" "db_ok attachment_ID (st_attachments (tx_store t))"
  defines "s \<equiv> tx_store t"
  shows "\<exists>post requester now tags ids deleted changed s1.
    post_owner s postUUID authorID post requester \<and> may_write requester now \<and>
    set tags = post_tag_names s (post_ID post) \<and>
    artifacts_deleted (post_ID post) ids s s1 \<and>
    queued e [NewPostChanged changed ''deleted'' (post_ID post) (post_BoardID post) (post_PublishedAt post) tags ids]
      s (tx_store t') \<and>
    tx_store t' = s1\<lparr>st_posts := Post_delete deleted (post_ID post) (st_posts s),
      st_post_tags := softDeleteByPostID (post_ID post) (st_post_tags s),
      st_outbox := st_outbox (tx_store t')\<rparr>"
proof -
  from assms(1) obtain post requester tags t3 ids t4 t5 t6 changed where
    o: "post_owner s postUUID authorID post requester"
    and g: "IsGuest requester \<longrightarrow> IsActiveGuest requester" "\<not> IsSuspended (env_now e (tx_tick t)) requester"
    and a: "activeTagNamesByPostIDTx (post_ID post) e (t\<lparr>tx_tick := Suc (tx_tick t)\<rparr>) = Some (Inr tags, t3)"
    and y: "deletePostArtifacts (post_ID post) e t3 = Some (Inr ids, t4)"
    and w: "postTx_Delete (post_ID post) e t4 = Some (Inr (), t5)"
    and n: "postTagTx_SoftDeleteByPostID (post_ID post) e t5 = Some (Inr (), t6)"
    and d: "DispatchDomainActions [NewPostChanged changed ''deleted'' (post_ID post) (post_BoardID post)
        (post_PublishedAt post) tags ids] e (t6\<lparr>tx_tick := Suc (tx_tick t6)\<rparr>) = Some (Inr u, t')"
    unfolding DeletePost_tx_def userTx_SelectUserByID_def postTx_SelectPostByUUIDIncludingUnpublished_def
    by (clarsimp simp: tx_simps s_def post_owner_def)
  have a': "tx_store t3 = s" "set tags = post_tag_names s (post_ID post)"
    using activeTagNames_run [OF a] assms(2) by (simp_all add: s_def)
  have y': "artifacts_deleted (post_ID post) ids s (tx_store t4)"
    using deletePostArtifacts_run [OF y] assms(3,4) a'(1) unfolding artifacts_deleted_def s_def by simp
  note f = artifacts_fields [OF y']
  obtain deleted where w': "tx_store t5 = (tx_store t4)\<lparr>st_posts := Post_delete deleted (post_ID post) (st_posts s)\<rparr>"
    using w f(1) by (auto simp: postTx_Delete_def tx_simps)
  have n': "tx_store t6 = (tx_store t4)\<lparr>st_posts := Post_delete deleted (post_ID post) (st_posts s),
      st_post_tags := softDeleteByPostID (post_ID post) (st_post_tags s)\<rparr>"
    using n f(3) by (auto simp: postTagTx_SoftDeleteByPostID_def tx_simps w')
  let ?ev = "[NewPostChanged changed ''deleted'' (post_ID post) (post_BoardID post) (post_PublishedAt post) tags ids]"
  have "queued e ?ev s (tx_store t')"
    using Dispatch_queued(1) [OF d, of s] f(4) n' by simp
  moreover have "tx_store t' = (tx_store t4)\<lparr>st_posts := Post_delete deleted (post_ID post) (st_posts s),
      st_post_tags := softDeleteByPostID (post_ID post) (st_post_tags s),
      st_outbox := st_outbox (tx_store t')\<rparr>"
    using Dispatch_queued(2) [OF d refl] n' by simp
  moreover have "may_write requester (env_now e (tx_tick t))" using g by (simp add: may_write_def)
  ultimately show ?thesis using o a'(2) y' by blast
qed

lemma createPost_tx_run:
  assumes "createPost_tx title content names mentions authorID boardUUID draft newPost e t = Some (Inr uuid, t')"
    and "tags_ok (tx_store t)" "active_tags (st_post_tags (tx_store t)) (db_ID (st_posts (tx_store t)) + 1) = {}"
  defines "s \<equiv> tx_store t"
  shows "\<exists>user board now saved posts' s1.
    selectUserByID authorID (st_users s) = Some user \<and> may_write user now \<and> (draft \<longrightarrow> \<not> IsGuest user) \<and>
    selectBoardByUUID boardUUID (st_boards s) = Some board \<and> (\<not> board_Hidden board \<or> IsAdmin user) \<and>
    Post_save newPost (st_posts s) = (saved, posts') \<and> uuid = post_UUID saved \<and>
    tags_step (post_ID saved) (s\<lparr>st_posts := posts'\<rparr>) s1 \<and> post_tag_names s1 (post_ID saved) = set names \<and>
    (if draft then tx_store t' = s1
     else (\<exists>changed mentioned. queued e (NewPostChanged changed ''created'' (post_ID saved) (board_ID board)
         (post_PublishedAt saved) names [] # mentioned) s (tx_store t')) \<and>
       tx_store t' = s1\<lparr>st_outbox := st_outbox (tx_store t')\<rparr>)"
proof -
  let ?tail = "\<lambda>user board saved. if draft then returnT ()
            else bindT nowT (\<lambda>changed.
                 bindT (BuildMentionNotificationEvents user mentions (post_ID saved) 0 title content)
                   (\<lambda>mentions.
                      DispatchDomainActions
                        (NewPostChanged changed ''created'' (post_ID saved) (board_ID board)
                           (post_PublishedAt saved) names [] # mentions)))"
  from assms(1) obtain user board saved t3 t4 where
    u: "selectUserByID authorID (st_users s) = Some user" "draft \<longrightarrow> \<not> IsGuest user"
    and g: "IsGuest user \<longrightarrow> IsActiveGuest user" "\<not> IsSuspended (env_now e (tx_tick t)) user"
    and b: "selectBoardByUUID boardUUID (st_boards s) = Some board" "\<not> board_Hidden board \<or> IsAdmin user"
    and w: "postTx_Save newPost e (t\<lparr>tx_tick := Suc (tx_tick t)\<rparr>) = Some (Inr saved, t3)"
    and n: "upsertPostTags (post_ID saved) names e t3 = Some (Inr (), t4)"
    and x: "?tail user board saved e t4 = Some (Inr (), t')"
    and uuid: "uuid = post_UUID saved"
    unfolding createPost_tx_def userTx_SelectUserByID_def boardTx_SelectBoardByUUID_def
    by (cases draft) (clarsimp simp: tx_simps s_def EnsureBoardVisible_None)+
  obtain posts' where w': "Post_save newPost (st_posts s) = (saved, posts')" "tx_store t3 = s\<lparr>st_posts := posts'\<rparr>"
    using w by (auto simp: postTx_Save_def tx_simps s_def)
  have i: "post_ID saved = db_ID (st_posts s) + 1" using w'(1) by (auto simp: Post_save_def Let_def)
  have "tags_ok (tx_store t3)" using assms(2) by (simp add: w'(2) tags_ok_def s_def)
  moreover have "active_tags (st_post_tags (tx_store t3)) (post_ID saved) = {}"
    using assms(3) by (simp add: w'(2) i s_def)
  ultimately have n': "tags_step (post_ID saved) (s\<lparr>st_posts := posts'\<rparr>) (tx_store t4) \<and>
      post_tag_names (tx_store t4) (post_ID saved) = set names"
    using upsertPostTags_run [OF n] w'(2) by simp
  have fin: "if draft then tx_store t' = tx_store t4
     else (\<exists>changed mentioned. queued e (NewPostChanged changed ''created'' (post_ID saved) (board_ID board)
         (post_PublishedAt saved) names [] # mentioned) s (tx_store t')) \<and>
       tx_store t' = (tx_store t4)\<lparr>st_outbox := st_outbox (tx_store t')\<rparr>"
  proof (cases draft)
    case True
    with x show ?thesis by (simp add: tx_simps)
  next
    case False
    with x obtain changed mentioned t5 where
      m: "BuildMentionNotificationEvents user mentions (post_ID saved) 0 title content e
          (t4\<lparr>tx_tick := Suc (tx_tick t4)\<rparr>) = Some (Inr mentioned, t5)"
      and d: "DispatchDomainActions (NewPostChanged changed ''created'' (post_ID saved) (board_ID board)
          (post_PublishedAt saved) names [] # mentioned) e t5 = Some (Inr (), t')"
      by (auto simp: tx_simps)
    have t5: "tx_store t5 = tx_store t4" using mentions_store [OF m] by simp
    have o: "st_outbox (tx_store t4) = st_outbox s" using tags_step_fields(3) [of "post_ID saved"] n' by force
    show ?thesis
      using False Dispatch_queued(1) [OF d, of s] Dispatch_queued(2) [OF d refl] t5 o by auto
  qed
  have "may_write user (env_now e (tx_tick t))" using g by (simp add: may_write_def)
  with u b w'(1) uuid n' fin show ?thesis by blast
qed

end
