(* ===== verification/PostRules.thy ===== *)
theory PostRules
  imports SvcPost
begin

text \<open>
  What the commands on posts (\<open>service/post/command_handler.go\<close>) and boards
  (\<open>service/board/service.go\<close>) promise together: the invariant \<open>forum_ok\<close> and the effect of each
  post command on the posts, tags, attachments, comments and reactions.
\<close>

section \<open>From the transaction to the command\<close>

lemma post_committed:
  "createPost e tick title content tags mentions authorID boardUUID draft s = Some (Inr uuid, s1) \<Longrightarrow>
    \<exists>names p t. normalizeTags (env_lower e) tags = Inr names \<and> extractAttachmentRefIDs content = [] \<and>
      (\<exists>b. selectBoardByUUID boardUUID (st_boards s) = Some b \<and>
         p = (if draft then NewDraftPost else NewPost) (env_now e tick) (env_uuid e (tick + 1)) title content
           authorID (board_ID b)) \<and>
      createPost_tx title content names mentions authorID boardUUID draft p e (begin_tx (tick + 2) s) =
        Some (Inr uuid, t) \<and> s1 = tx_store t"
  "PublishPost e tick postUUID authorID s = Some (Inr u, s2) \<Longrightarrow> \<exists>t.
    PublishPost_tx postUUID authorID e (begin_tx tick s) = Some (Inr u, t) \<and> s2 = tx_store t"
  "UpdatePost e tick postUUID authorID title content tags s = Some (Inr u, s3) \<Longrightarrow> \<exists>names t.
    normalizeTags (env_lower e) tags = Inr names \<and>
    UpdatePost_tx postUUID authorID title content names e (begin_tx tick s) = Some (Inr u, t) \<and> s3 = tx_store t"
  "DeletePost e tick postUUID authorID s = Some (Inr u, s4) \<Longrightarrow> \<exists>t.
    DeletePost_tx postUUID authorID e (begin_tx tick s) = Some (Inr u, t) \<and> s4 = tx_store t"
  unfolding createPost_def PublishPost_def UpdatePost_def DeletePost_def
  by (auto simp: atomic_commit [OF post_tx_atomic(1)] atomic_commit [OF post_tx_atomic(2)]
      atomic_commit [OF post_tx_atomic(3)] atomic_commit [OF post_tx_atomic(4)] Let_def read_repo_def
      split: if_splits sum.splits option.splits)

lemma post_rollback:
  "createPost e tick title content tags mentions authorID boardUUID draft s = Some (Inl err, s1) \<Longrightarrow> s1 = s"
  "PublishPost e tick postUUID authorID s = Some (Inl err, s2) \<Longrightarrow> s2 = s"
  "UpdatePost e tick postUUID authorID title content tags s = Some (Inl err, s3) \<Longrightarrow> s3 = s"
  "DeletePost e tick postUUID authorID s = Some (Inl err, s4) \<Longrightarrow> s4 = s"
  unfolding createPost_def PublishPost_def UpdatePost_def DeletePost_def
  by (auto simp: Let_def split: if_splits sum.splits option.splits
      dest: atomic_rollback [OF post_tx_atomic(1)] atomic_rollback [OF post_tx_atomic(2)]
        atomic_rollback [OF post_tx_atomic(3)] atomic_rollback [OF post_tx_atomic(4)])

lemma post_answers:
  "createPost e tick title content tags mentions authorID boardUUID draft s \<noteq> None"
  "PublishPost e tick postUUID authorID s \<noteq> None"
  "UpdatePost e tick postUUID authorID title content tags s \<noteq> None"
  "sweepable s \<Longrightarrow> DeletePost e tick postUUID authorID s \<noteq> None"
proof -
  show "createPost e tick title content tags mentions authorID boardUUID draft s \<noteq> None"
    "PublishPost e tick postUUID authorID s \<noteq> None"
    "UpdatePost e tick postUUID authorID title content tags s \<noteq> None"
    unfolding createPost_def PublishPost_def UpdatePost_def
    using returns_transaction [OF post_tx_returns(1)] returns_transaction [OF post_tx_returns(2)]
      returns_transaction [OF post_tx_returns(3)]
    by (simp_all add: Let_def split: sum.split option.split)
  assume "sweepable s"
  then have "DeletePost_tx postUUID authorID e (begin_tx tick s) \<noteq> None"
    by (intro DeletePost_tx_returns) simp
  then show "DeletePost e tick postUUID authorID s \<noteq> None"
    by (auto simp: DeletePost_def WithinTransaction_def split: option.splits sum.splits)
qed

section \<open>The invariant\<close>

text \<open>Only posts that are not deleted carry tags.\<close>

definition live_post :: "store \<Rightarrow> int \<Rightarrow> bool" where
  "live_post s i \<longleftrightarrow> (\<exists>p. db_get (st_posts s) i = Some p \<and> post_Status p \<noteq> PostStatusDeleted)"

definition forum_ok :: "store \<Rightarrow> bool" where
  "forum_ok s \<longleftrightarrow> posts_housed s \<and> tags_ok s \<and> sweepable s \<and> db_ok attachment_ID (st_attachments s) \<and>
     (\<forall>q. active_tags (st_post_tags s) q \<noteq> {} \<longrightarrow> live_post s q)"

lemma forum_parts:
  assumes "forum_ok s"
  shows "db_ok board_ID (st_boards s)" "db_ok post_ID (st_posts s)" "tags_ok s" "sweepable s"
    "db_ok attachment_ID (st_attachments s)" "db_ok comment_ID (st_comments s)" "reactions_ok (st_reactions s)"
    "post_tags_ok (st_post_tags s)"
  using assms by (simp_all add: forum_ok_def posts_housed_def sweepable_def tags_ok_def)

lemma post_row:
  assumes "forum_ok s" "post_owner s postUUID authorID p requester"
  shows "db_get (st_posts s) (post_ID p) = Some p" "post_UUID p = postUUID" "post_Status p \<noteq> PostStatusDeleted"
    "p \<in> set (db_rows (st_posts s))" "live_post s (post_ID p)"
proof -
  have f: "p \<in> set (db_rows (st_posts s)) \<and> post_UUID p = postUUID \<and> post_Status p \<noteq> PostStatusDeleted"
    using assms(2) by (auto simp: post_owner_def selectPostByUUIDIncludingUnpublished_def find_Some_iff)
  then have "db_get (st_posts s) (post_ID p) = Some p" by (simp add: db_get_row [OF forum_parts(2) [OF assms(1)]])
  with f show "db_get (st_posts s) (post_ID p) = Some p" "post_UUID p = postUUID"
    "post_Status p \<noteq> PostStatusDeleted" "p \<in> set (db_rows (st_posts s))" "live_post s (post_ID p)"
    by (simp_all add: live_post_def)
qed

lemma housed_get:
  "posts_housed s \<longleftrightarrow> db_ok board_ID (st_boards s) \<and> db_ok post_ID (st_posts s) \<and>
    (\<forall>i p. db_get (st_posts s) i = Some p \<and> post_Status p \<noteq> PostStatusDeleted \<longrightarrow>
      db_get (st_boards s) (post_BoardID p) \<noteq> None)"
  unfolding posts_housed_def using db_get_row [of post_ID "st_posts s"]
  by (metis db_get_bounds)

text \<open>A post is changed without leaving its board.\<close>

lemma forum_ok_post_update:
  assumes "forum_ok s" "db_get (st_posts s) i = Some p" "post_Status p \<noteq> PostStatusDeleted"
    and "post_ID p' = i" "post_BoardID p' = post_BoardID p" "post_Status p' \<noteq> PostStatusDeleted"
  shows "forum_ok (s\<lparr>st_posts := Post_update p' (st_posts s)\<rparr>)"
    "db_get (Post_update p' (st_posts s)) = (db_get (st_posts s))(i \<mapsto> p')"
proof -
  note ok = forum_parts [OF assms(1)]
  show g: "db_get (Post_update p' (st_posts s)) = (db_get (st_posts s))(i \<mapsto> p')"
    using posts.replace_get [OF ok(2), of p'] assms(2,4) by simp
  have "posts_housed (s\<lparr>st_posts := Post_update p' (st_posts s)\<rparr>)"
    using assms posts.replace_inv [OF ok(2)] g by (auto simp: forum_ok_def housed_get)
  with assms g show "forum_ok (s\<lparr>st_posts := Post_update p' (st_posts s)\<rparr>)"
    by (auto simp: forum_ok_def tags_ok_def sweepable_def live_post_def)
qed

lemma forum_ok_remarked:
  assumes "forum_ok s" "remarked mark i s s1"
  shows "forum_ok s1"
proof -
  have "db_ok attachment_ID (st_attachments s1)" using assms(2) by (simp add: remarked_def)
  with assms(1) remarked_fields [OF assms(2)] show ?thesis
    by (simp add: forum_ok_def posts_housed_def tags_ok_def sweepable_def live_post_def)
qed

lemma forum_ok_tags:
  assumes "forum_ok s" "tags_step i s s1" "live_post s i"
  shows "forum_ok s1"
proof -
  have "tags_ok s1" and a: "\<And>q. q \<noteq> i \<Longrightarrow> active_tags (st_post_tags s1) q = active_tags (st_post_tags s) q"
    using assms(2) by (auto simp: tags_step_def)
  note f = tags_step_fields [OF assms(2)]
  have live: "live_post s1 q = live_post s q" for q by (simp add: live_post_def f)
  have "active_tags (st_post_tags s1) q \<noteq> {} \<longrightarrow> live_post s1 q" for q
    using assms(1,3) a [of q] by (cases "q = i") (simp_all add: live forum_ok_def)
  with assms(1) \<open>tags_ok s1\<close> show ?thesis
    by (simp add: forum_ok_def posts_housed_def sweepable_def f)
qed

lemma forum_ok_outbox [simp]: "forum_ok (s\<lparr>st_outbox := x\<rparr>) = forum_ok s"
  by (simp add: forum_ok_def posts_housed_def tags_ok_def sweepable_def live_post_def)

lemma forum_ok_outbox_eq: "s' = s\<lparr>st_outbox := x\<rparr> \<Longrightarrow> forum_ok s \<Longrightarrow> forum_ok s'"
  by simp

lemma forum_ok_artifacts:
  assumes "forum_ok s" "artifacts_deleted i ids s s1"
  shows "forum_ok s1"
proof -
  from assms(2) obtain s2 s3 n rx where
    sw: "swept (comment_ID ` set (active_of i (st_comments s))) s s2"
    and rm: "remarked MarkOrphaned i s2 s3" and rx: "deleteByTarget i ReactionTargetPost (st_reactions s3) = (n, rx)"
    and s1: "s1 = s3\<lparr>st_reactions := rx\<rparr>"
    unfolding artifacts_deleted_def by blast
  note f = artifacts_fields [OF assms(2)]
  have c: "sweepable s2" using sw by (simp add: swept_def)
  have "reactions_ok (st_reactions s3)" "db_ok comment_ID (st_comments s3)"
    using c remarked_fields [OF rm] by (simp_all add: sweepable_def)
  then have "sweepable s1" using deleteByTarget_rows [OF _ rx] by (simp add: s1 sweepable_def)
  moreover have "db_ok attachment_ID (st_attachments s1)" using rm by (simp add: s1 remarked_def)
  ultimately show ?thesis
    using assms(1) f by (simp add: forum_ok_def posts_housed_def tags_ok_def live_post_def)
qed

section \<open>Every command keeps the invariant\<close>

lemma Post_delete_get:
  assumes "db_ok post_ID r" "db_get r i = Some p"
  shows "db_get (Post_delete now i r) = (db_get r)(i \<mapsto> Post_SoftDelete now p)"
proof -
  have "post_ID (Post_SoftDelete now p) = i" using assms by (auto simp: Post_SoftDelete_def dest: db_get_bounds)
  then show ?thesis
    using assms posts.replace_get [OF assms(1), of "Post_SoftDelete now p"] by (simp add: Post_delete_update)
qed

lemma createPost_keeps:
  assumes "createPost e tick title content tags mentions authorID boardUUID draft s = Some (r, s')" "forum_ok s"
  shows "forum_ok s'"
proof (cases r)
  case (Inl err)
  with assms post_rollback(1) show ?thesis by blast
next
  case (Inr uuid)
  note ok = forum_parts [OF assms(2)]
  from post_committed(1) [OF assms(1) [unfolded Inr]] obtain names p t b where
    b: "selectBoardByUUID boardUUID (st_boards s) = Some b"
    and p: "p = (if draft then NewDraftPost else NewPost) (env_now e tick) (env_uuid e (tick + 1)) title content
           authorID (board_ID b)"
    and t: "createPost_tx title content names mentions authorID boardUUID draft p e (begin_tx (tick + 2) s) =
        Some (Inr uuid, t)" and s': "s' = tx_store t" by blast
  have fresh: "db_get (st_posts s) (db_ID (st_posts s) + 1) = None" using db_fresh [OF ok(2)] by simp
  then have none: "active_tags (st_post_tags s) (db_ID (st_posts s) + 1) = {}"
    using assms(2) by (auto simp: forum_ok_def live_post_def)
  from createPost_tx_run [OF t] ok(3) none obtain saved posts' s1 where
    sv: "Post_save p (st_posts s) = (saved, posts')"
    and st: "tags_step (post_ID saved) (s\<lparr>st_posts := posts'\<rparr>) s1"
    and fin: "s' = s1 \<or> s' = s1\<lparr>st_outbox := st_outbox s'\<rparr>"
    unfolding s' begin_fields by (metis (full_types))
  have saved: "saved = p\<lparr>post_ID := db_ID (st_posts s) + 1\<rparr>" using sv by (auto simp: Post_save_def Let_def)
  have g: "db_get posts' = (db_get (st_posts s))(post_ID saved \<mapsto> saved)" and ok': "db_ok post_ID posts'"
    using posts.insert_get [OF ok(2) sv] posts.insert_inv [OF ok(2) sv] by simp_all
  have new: "post_BoardID saved = board_ID b" "post_Status saved \<noteq> PostStatusDeleted"
    by (simp_all add: saved p NewPost_def NewDraftPost_def)
  have "db_get (st_boards s) (board_ID b) = Some b" using selectBoardByUUID_row [OF ok(1) b] by simp
  then have "forum_ok (s\<lparr>st_posts := posts'\<rparr>)"
    using assms(2) ok' g new fresh saved
    by (auto simp: forum_ok_def housed_get tags_ok_def sweepable_def live_post_def)
  moreover have "live_post (s\<lparr>st_posts := posts'\<rparr>) (post_ID saved)" using g new by (simp add: live_post_def)
  ultimately have "forum_ok s1" by (rule forum_ok_tags [OF _ st])
  with fin show ?thesis using forum_ok_outbox_eq by blast
qed

lemma PublishPost_keeps:
  assumes "PublishPost e tick postUUID authorID s = Some (r, s')" "forum_ok s"
  shows "forum_ok s'"
proof (cases r)
  case (Inl err)
  with assms post_rollback(2) show ?thesis by blast
next
  case (Inr u)
  note ok = forum_parts [OF assms(2)]
  from post_committed(2) [OF assms(1) [unfolded Inr]] obtain t where
    t: "PublishPost_tx postUUID authorID e (begin_tx tick s) = Some (Inr u, t)" "s' = tx_store t" by blast
  from PublishPost_tx_run [OF t(1)] ok(3,5) obtain post requester published s1 where
    o: "post_owner s postUUID authorID post requester"
    and rm: "remarked (mark_by_text (post_Content post)) (post_ID post) s s1"
    and s': "s' = s1\<lparr>st_posts := Post_update (Publish published post) (st_posts s), st_outbox := st_outbox s'\<rparr>"
    unfolding t(2) begin_fields by blast
  have 1: "forum_ok s1" by (rule forum_ok_remarked [OF assms(2) rm])
  have "forum_ok (s1\<lparr>st_posts := Post_update (Publish published post) (st_posts s1)\<rparr>)"
    using forum_ok_post_update(1) [OF 1, of "post_ID post" post "Publish published post"] post_row [OF assms(2) o]
      remarked_fields(1) [OF rm] by (simp add: Publish_def)
  then have "forum_ok (s1\<lparr>st_posts := Post_update (Publish published post) (st_posts s),
      st_outbox := st_outbox s'\<rparr>)" using remarked_fields(1) [OF rm] by simp
  then show ?thesis by (simp only: s' [symmetric])
qed

lemma UpdatePost_keeps:
  assumes "UpdatePost e tick postUUID authorID title content tags s = Some (r, s')" "forum_ok s"
  shows "forum_ok s'"
proof (cases r)
  case (Inl err)
  with assms post_rollback(3) show ?thesis by blast
next
  case (Inr u)
  note ok = forum_parts [OF assms(2)]
  from post_committed(3) [OF assms(1) [unfolded Inr]] obtain names t where
    t: "UpdatePost_tx postUUID authorID title content names e (begin_tx tick s) = Some (Inr u, t)" "s' = tx_store t"
    by blast
  from UpdatePost_tx_run [OF t(1)] ok(3,5) obtain post requester updated s1 s2 where
    o: "post_owner s postUUID authorID post requester"
    and rm: "remarked (mark_by_text content) (post_ID post) s s1"
    and st: "tags_step (post_ID post)
      (s1\<lparr>st_posts := Post_update (Post_Update updated title content post) (st_posts s)\<rparr>) s2"
    and s': "s' = s2\<lparr>st_outbox := st_outbox s'\<rparr>"
    unfolding t(2) begin_fields by blast
  let ?s = "s1\<lparr>st_posts := Post_update (Post_Update updated title content post) (st_posts s)\<rparr>"
  have 1: "forum_ok s1" by (rule forum_ok_remarked [OF assms(2) rm])
  note p = post_row [OF assms(2) o] and f = remarked_fields(1) [OF rm]
  have pu: "post_ID (Post_Update updated title content post) = post_ID post"
    "post_BoardID (Post_Update updated title content post) = post_BoardID post"
    "post_Status (Post_Update updated title content post) \<noteq> PostStatusDeleted"
    using p(3) by (simp_all add: Post_Update_def)
  note w = forum_ok_post_update [OF 1, of "post_ID post" post "Post_Update updated title content post",
      unfolded f, OF p(1,3) pu]
  have "live_post ?s (post_ID post)" using w(2) pu by (simp add: live_post_def)
  from forum_ok_tags [OF w(1) st this] s' show ?thesis using forum_ok_outbox_eq by blast
qed

lemma DeletePost_keeps:
  assumes "DeletePost e tick postUUID authorID s = Some (r, s')" "forum_ok s"
  shows "forum_ok s'"
proof (cases r)
  case (Inl err)
  with assms post_rollback(4) show ?thesis by blast
next
  case (Inr u)
  note ok = forum_parts [OF assms(2)]
  from post_committed(4) [OF assms(1) [unfolded Inr]] obtain t where
    t: "DeletePost_tx postUUID authorID e (begin_tx tick s) = Some (Inr u, t)" "s' = tx_store t" by blast
  from DeletePost_tx_run [OF t(1)] ok(3,4,5) obtain post requester ids deleted s1 where
    o: "post_owner s postUUID authorID post requester"
    and ar: "artifacts_deleted (post_ID post) ids s s1"
    and s': "s' = s1\<lparr>st_posts := Post_delete deleted (post_ID post) (st_posts s),
      st_post_tags := softDeleteByPostID (post_ID post) (st_post_tags s), st_outbox := st_outbox s'\<rparr>"
    unfolding t(2) begin_fields by blast
  have 1: "forum_ok s1" by (rule forum_ok_artifacts [OF assms(2) ar])
  note p = post_row [OF assms(2) o] and f = artifacts_fields [OF ar]
  note g = Post_delete_get [OF ok(2) p(1), of deleted]
  have tg: "active_tags (softDeleteByPostID (post_ID post) (st_post_tags s)) q =
      (if q = post_ID post then {} else active_tags (st_post_tags s) q)" for q
    by (rule active_tags_softDeleteByPostID [OF ok(8)])
  have "forum_ok (s1\<lparr>st_posts := Post_delete deleted (post_ID post) (st_posts s),
      st_post_tags := softDeleteByPostID (post_ID post) (st_post_tags s)\<rparr>)"
    using 1 assms(2) f Post_delete_ok [OF ok(2)] softDeleteByPostID_ok [OF ok(8)]
    by (auto simp: forum_ok_def housed_get tags_ok_def sweepable_def live_post_def g tg Post_SoftDelete_def
        split: if_splits)
  then have "forum_ok (s1\<lparr>st_posts := Post_delete deleted (post_ID post) (st_posts s),
      st_post_tags := softDeleteByPostID (post_ID post) (st_post_tags s), st_outbox := st_outbox s'\<rparr>)" by simp
  then show ?thesis by (simp only: s' [symmetric])
qed

lemma forum_ok_boards:
  assumes "forum_ok s" "boards_changed e operation i change s s'" "posts_housed s'"
  shows "forum_ok s'"
proof -
  have eq: "s' = s\<lparr>st_boards := change (st_boards s), st_outbox := st_outbox s'\<rparr>"
    using assms(2) by (simp add: boards_changed_def)
  have "tags_ok s' = tags_ok s" "sweepable s' = sweepable s" "st_attachments s' = st_attachments s"
    "st_post_tags s' = st_post_tags s" "live_post s' = live_post s"
    by (subst eq; simp add: tags_ok_def sweepable_def live_post_def fun_eq_iff)+
  with assms(1,3) show ?thesis by (simp add: forum_ok_def)
qed

lemma boards_keep:
  "CreateBoard e tick userID name description s = Some (r1, s1) \<Longrightarrow> forum_ok s \<Longrightarrow> forum_ok s1"
  "UpdateBoard e tick boardUUID userID name description s = Some (r2, s2) \<Longrightarrow> forum_ok s \<Longrightarrow> forum_ok s2"
  "DeleteBoard e tick boardUUID userID s = Some (r3, s3) \<Longrightarrow> forum_ok s \<Longrightarrow> forum_ok s3"
  "SetBoardVisibility e tick boardUUID userID hidden s = Some (r4, s4) \<Longrightarrow> forum_ok s \<Longrightarrow> forum_ok s4"
proof -
  have h: "forum_ok s \<Longrightarrow> posts_housed s" by (simp add: forum_ok_def)
  show "CreateBoard e tick userID name description s = Some (r1, s1) \<Longrightarrow> forum_ok s \<Longrightarrow> forum_ok s1"
    using board_rollback(1) [of e tick userID name description s _ s1]
      board_committed(1) [of e tick userID name description s _ s1] CreateBoard_tx_run [of userID]
      CreateBoard_housed [of e tick userID name description s r1 s1] forum_ok_boards [of s e _ _ _ s1] h
    by (cases r1) (auto, metis begin_fields(1))
  show "UpdateBoard e tick boardUUID userID name description s = Some (r2, s2) \<Longrightarrow> forum_ok s \<Longrightarrow> forum_ok s2"
    using board_rollback(2) [of e tick boardUUID userID name description s _ s2]
      board_committed(2) [of e tick boardUUID userID name description s _ s2] UpdateBoard_tx_run
      UpdateBoard_housed [of e tick boardUUID userID name description s r2 s2] forum_ok_boards [of s e _ _ _ s2] h
    by (cases r2) (auto, metis begin_fields(1))
  show "DeleteBoard e tick boardUUID userID s = Some (r3, s3) \<Longrightarrow> forum_ok s \<Longrightarrow> forum_ok s3"
    using board_rollback(3) [of e tick boardUUID userID s _ s3]
      board_committed(3) [of e tick boardUUID userID s _ s3] DeleteBoard_tx_run
      DeleteBoard_housed [of e tick boardUUID userID s r3 s3] forum_ok_boards [of s e _ _ _ s3] h
    by (cases r3) (auto, metis begin_fields(1))
  show "SetBoardVisibility e tick boardUUID userID hidden s = Some (r4, s4) \<Longrightarrow> forum_ok s \<Longrightarrow> forum_ok s4"
    using board_rollback(4) [of e tick boardUUID userID hidden s _ s4]
      board_committed(4) [of e tick boardUUID userID hidden s _ s4] SetBoardVisibility_tx_run
      SetBoardVisibility_housed [of e tick boardUUID userID hidden s r4 s4] forum_ok_boards [of s e _ _ _ s4] h
    by (cases r4) (auto, metis begin_fields(1))
qed

text \<open>
  C26: the commands on boards and posts keep the forum in order, whatever they answer: every post
  that is not deleted has its board, and only such posts carry tags.
\<close>

theorem forum_kept:
  assumes "forum_ok s"
  shows "(CreateBoard e tick userID name description s = Some (r1, s1) \<longrightarrow> forum_ok s1) \<and>
    (UpdateBoard e tick boardUUID userID name description s = Some (r2, s2) \<longrightarrow> forum_ok s2) \<and>
    (DeleteBoard e tick boardUUID userID s = Some (r2, s2) \<longrightarrow> forum_ok s2) \<and>
    (SetBoardVisibility e tick boardUUID userID hidden s = Some (r2, s2) \<longrightarrow> forum_ok s2) \<and>
    (CreatePost e tick title content tags mentions userID boardUUID s = Some (r1, s1) \<longrightarrow> forum_ok s1) \<and>
    (CreateDraftPost e tick title content tags mentions userID boardUUID s = Some (r1, s1) \<longrightarrow> forum_ok s1) \<and>
    (PublishPost e tick postUUID userID s = Some (r2, s2) \<longrightarrow> forum_ok s2) \<and>
    (UpdatePost e tick postUUID userID title content tags s = Some (r2, s2) \<longrightarrow> forum_ok s2) \<and>
    (DeletePost e tick postUUID userID s = Some (r2, s2) \<longrightarrow> forum_ok s2)"
  unfolding CreatePost_def CreateDraftPost_def
  by (intro conjI impI; (drule boards_keep createPost_keeps PublishPost_keeps UpdatePost_keeps DeletePost_keeps,
    rule assms, assumption))

text \<open>
  C27: the post commands always answer, the deletion with its loop over batches included, and
  one that answers with an error has changed nothing.
\<close>

theorem post_commands_answer:
  assumes "forum_ok s"
  shows "(\<exists>r s'. createPost e tick title content tags mentions userID boardUUID draft s = Some (r, s') \<and>
      (\<forall>err. r = Inl err \<longrightarrow> s' = s)) \<and>
    (\<exists>r s'. PublishPost e tick postUUID userID s = Some (r, s') \<and> (\<forall>err. r = Inl err \<longrightarrow> s' = s)) \<and>
    (\<exists>r s'. UpdatePost e tick postUUID userID title content tags s = Some (r, s') \<and>
      (\<forall>err. r = Inl err \<longrightarrow> s' = s)) \<and>
    (\<exists>r s'. DeletePost e tick postUUID userID s = Some (r, s') \<and> (\<forall>err. r = Inl err \<longrightarrow> s' = s))"
proof -
  have h: "\<exists>r s'. m = Some (r, s') \<and> (\<forall>err. r = Inl err \<longrightarrow> s' = s)"
    if "m \<noteq> None" "\<And>err s'. m = Some (Inl err, s') \<Longrightarrow> s' = s" for m :: "((go_error + 'r) \<times> store) option"
    using that by (cases m) auto
  show ?thesis
    by (intro conjI h post_answers post_answers(4) [OF forum_parts(4) [OF assms]]; erule post_rollback)
qed

section \<open>The effect of each command\<close>

text \<open>
  The attachments of a post follow a text: those it embeds are in use, the others are orphans;
  the attachments of other posts are untouched.
\<close>

definition attachments_follow :: "string set \<Rightarrow> int \<Rightarrow> store \<Rightarrow> store \<Rightarrow> bool" where
  "attachments_follow refs postID s s' \<longleftrightarrow>
     (\<forall>i a. db_get (st_attachments s) i = Some a \<longrightarrow>
        (if attachment_PostID a = postID
         then \<exists>a'. db_get (st_attachments s') i = Some a' \<and> (IsOrphaned a' \<longleftrightarrow> attachment_UUID a \<notin> refs)
         else db_get (st_attachments s') i = Some a))"

lemma remarked_follow:
  assumes "remarked mark postID s s1" "st_attachments s' = st_attachments s1"
    and "\<And>now a. IsOrphaned (mark now a) \<longleftrightarrow> attachment_UUID a \<notin> refs"
  shows "attachments_follow refs postID s s'"
  unfolding attachments_follow_def assms(2)
proof (intro allI impI)
  fix i a
  assume a: "db_get (st_attachments s) i = Some a"
  have "case db_get (st_attachments s) i of
        None \<Rightarrow> db_get (st_attachments s1) i = None
      | Some a \<Rightarrow> if attachment_PostID a = postID then \<exists>now. db_get (st_attachments s1) i = Some (mark now a)
                  else db_get (st_attachments s1) i = Some a"
    using assms(1) unfolding remarked_def by blast
  with a assms(3) show "if attachment_PostID a = postID
         then \<exists>a'. db_get (st_attachments s1) i = Some a' \<and> (IsOrphaned a' \<longleftrightarrow> attachment_UUID a \<notin> refs)
         else db_get (st_attachments s1) i = Some a"
    by (auto split: if_splits)
qed

lemma mark_by_text_orphan:
  "IsOrphaned (mark_by_text content now a) \<longleftrightarrow> attachment_UUID a \<notin> set (extractAttachmentRefIDs content)"
  by (simp add: mark_by_text_def)

lemma post_tag_names_cong:
  "st_tags s' = st_tags s \<Longrightarrow> st_post_tags s' = st_post_tags s \<Longrightarrow> post_tag_names s' i = post_tag_names s i"
  by (simp add: post_tag_names_def tag_named_def)

text \<open>
  A created post is stored under a fresh key on a board its author may see, published unless
  it is a draft, and carries exactly the normalised tags; a draft is not announced, any other
  post is announced first and its mentions after it; nothing else changes.
\<close>

theorem createPost_effect:
  assumes "createPost e tick title content tags mentions authorID boardUUID draft s = Some (Inr uuid, s')"
    and "forum_ok s"
  shows "\<exists>user board now p. selectUserByID authorID (st_users s) = Some user \<and> may_write user now \<and>
    selectBoardByUUID boardUUID (st_boards s) = Some board \<and> (\<not> board_Hidden board \<or> IsAdmin user) \<and>
    p = ((if draft then NewDraftPost else NewPost) (env_now e tick) uuid title content authorID
      (board_ID board))\<lparr>post_ID := db_ID (st_posts s) + 1\<rparr> \<and>
    db_get (st_posts s) (post_ID p) = None \<and> db_get (st_posts s') = (db_get (st_posts s))(post_ID p \<mapsto> p) \<and>
    post_tag_names s' (post_ID p) = normalizeTagName (env_lower e) ` set tags \<and>
    (\<forall>q. q \<noteq> post_ID p \<longrightarrow> active_tags (st_post_tags s') q = active_tags (st_post_tags s) q) \<and>
    (if draft then st_outbox s' = st_outbox s
     else \<exists>names changed mentioned. normalizeTags (env_lower e) tags = Inr names \<and>
       queued e (NewPostChanged changed ''created'' (post_ID p) (board_ID board) (Some (env_now e tick))
         names [] # mentioned) s s') \<and>
    s'\<lparr>st_posts := st_posts s, st_tags := st_tags s, st_post_tags := st_post_tags s,
      st_outbox := st_outbox s\<rparr> = s"
proof -
  note ok = forum_parts [OF assms(2)]
  from post_committed(1) [OF assms(1)] obtain names p t b where
    n: "normalizeTags (env_lower e) tags = Inr names"
    and b: "selectBoardByUUID boardUUID (st_boards s) = Some b"
    and p: "p = (if draft then NewDraftPost else NewPost) (env_now e tick) (env_uuid e (tick + 1)) title content
           authorID (board_ID b)"
    and t: "createPost_tx title content names mentions authorID boardUUID draft p e (begin_tx (tick + 2) s) =
        Some (Inr uuid, t)" and s': "s' = tx_store t" by blast
  have fresh: "db_get (st_posts s) (db_ID (st_posts s) + 1) = None" using db_fresh [OF ok(2)] by simp
  then have none: "active_tags (st_post_tags s) (db_ID (st_posts s) + 1) = {}"
    using assms(2) by (auto simp: forum_ok_def live_post_def)
  from createPost_tx_run [OF t] ok(3) none obtain user now saved posts' s1 where
    u: "selectUserByID authorID (st_users s) = Some user" "may_write user now"
      "\<not> board_Hidden b \<or> IsAdmin user"
    and sv: "Post_save p (st_posts s) = (saved, posts')" "uuid = post_UUID saved"
    and st: "tags_step (post_ID saved) (s\<lparr>st_posts := posts'\<rparr>) s1" "post_tag_names s1 (post_ID saved) = set names"
    and fin: "if draft then s' = s1
     else (\<exists>changed mentioned. queued e (NewPostChanged changed ''created'' (post_ID saved) (board_ID b)
         (post_PublishedAt saved) names [] # mentioned) s s') \<and> s' = s1\<lparr>st_outbox := st_outbox s'\<rparr>"
    unfolding s' begin_fields b by blast
  have saved: "saved = p\<lparr>post_ID := db_ID (st_posts s) + 1\<rparr>" using sv by (auto simp: Post_save_def Let_def)
  have uu: "env_uuid e (tick + 1) = uuid" using sv(2) by (simp add: saved p NewPost_def NewDraftPost_def)
  have pub: "\<not> draft \<Longrightarrow> post_PublishedAt saved = Some (env_now e tick)" by (simp add: saved p NewPost_def)
  have eq1: "s1\<lparr>st_tags := st_tags s, st_post_tags := st_post_tags s\<rparr> = s\<lparr>st_posts := posts'\<rparr>"
    using st(1) by (simp add: tags_step_def)
  obtain x where x: "s' = s1\<lparr>st_outbox := x\<rparr>" using fin by (cases draft) (auto intro: that [of "st_outbox s1"])
  have eq: "s'\<lparr>st_posts := st_posts s, st_tags := st_tags s, st_post_tags := st_post_tags s,
      st_outbox := st_outbox s\<rparr> = s"
    using eq1 by (cases s; cases s1) (simp add: x)
  have g: "db_get (st_posts s') = (db_get (st_posts s))(post_ID saved \<mapsto> saved)"
    using posts.insert_get [OF ok(2) sv(1)] tags_step_fields(1) [OF st(1)] by (simp add: x)
  have nm: "post_tag_names s' (post_ID saved) = normalizeTagName (env_lower e) ` set tags"
    using st(2) normalizeTags_spec(3) [OF n] post_tag_names_cong [of s' s1] by (simp add: x)
  have ot: "\<forall>q. q \<noteq> post_ID saved \<longrightarrow> active_tags (st_post_tags s') q = active_tags (st_post_tags s) q"
    using st(1) by (simp add: tags_step_def x)
  have ob: "if draft then st_outbox s' = st_outbox s
     else \<exists>names changed mentioned. normalizeTags (env_lower e) tags = Inr names \<and>
       queued e (NewPostChanged changed ''created'' (post_ID saved) (board_ID b) (Some (env_now e tick))
         names [] # mentioned) s s'"
    using fin n pub tags_step_fields(3) [OF st(1)] by (cases draft) auto
  have row: "saved = ((if draft then NewDraftPost else NewPost) (env_now e tick) uuid title content authorID
      (board_ID b))\<lparr>post_ID := db_ID (st_posts s) + 1\<rparr>"
    unfolding saved p uu by (rule refl)
  have "db_get (st_posts s) (post_ID saved) = None" using fresh by (simp add: saved)
  with u b row g nm ot ob eq show ?thesis by blast
qed

text \<open>
  C25: a change to a post is for its author or an administrator and for texts whose attachments
  belong to the post; afterwards the post has the new text and exactly the normalised tags, its
  attachments follow the text, and the event names the old tags and the new.
\<close>

theorem UpdatePost_effect:
  assumes "UpdatePost e tick postUUID authorID title content tags s = Some (Inr (), s')" "forum_ok s"
  shows "\<exists>post requester now updated changed oldTags names.
    post_owner s postUUID authorID post requester \<and> may_write requester now \<and>
    refs_valid s (post_ID post) content \<and>
    db_get (st_posts s') = (db_get (st_posts s))(post_ID post \<mapsto> Post_Update updated title content post) \<and>
    attachments_follow (set (extractAttachmentRefIDs content)) (post_ID post) s s' \<and>
    normalizeTags (env_lower e) tags = Inr names \<and> post_tag_names s' (post_ID post) = set names \<and>
    set oldTags = post_tag_names s (post_ID post) \<and>
    (\<forall>q. q \<noteq> post_ID post \<longrightarrow> active_tags (st_post_tags s') q = active_tags (st_post_tags s) q) \<and>
    queued e [NewPostChanged changed ''updated'' (post_ID post) (post_BoardID post) (post_PublishedAt post)
      (unionTagNames oldTags names) []] s s' \<and>
    s'\<lparr>st_posts := st_posts s, st_tags := st_tags s, st_post_tags := st_post_tags s,
      st_attachments := st_attachments s, st_outbox := st_outbox s\<rparr> = s"
proof -
  note ok = forum_parts [OF assms(2)]
  from post_committed(3) [OF assms(1)] obtain names t where
    n: "normalizeTags (env_lower e) tags = Inr names"
    and t: "UpdatePost_tx postUUID authorID title content names e (begin_tx tick s) = Some (Inr (), t)" "s' = tx_store t"
    by blast
  from UpdatePost_tx_run [OF t(1)] ok(3,5) obtain post requester now oldTags updated changed s1 s2 where
    o: "post_owner s postUUID authorID post requester" "may_write requester now" "refs_valid s (post_ID post) content"
    and rm: "remarked (mark_by_text content) (post_ID post) s s1"
    and old: "set oldTags = post_tag_names s (post_ID post)"
    and st: "tags_step (post_ID post)
      (s1\<lparr>st_posts := Post_update (Post_Update updated title content post) (st_posts s)\<rparr>) s2"
    and nm: "post_tag_names s2 (post_ID post) = set names"
    and q: "queued e [NewPostChanged changed ''updated'' (post_ID post) (post_BoardID post) (post_PublishedAt post)
      (unionTagNames oldTags names) []] s s'"
    and s': "s' = s2\<lparr>st_outbox := st_outbox s'\<rparr>"
    unfolding t(2) begin_fields by blast
  obtain x where x: "s' = s2\<lparr>st_outbox := x\<rparr>" using s' by blast
  have eq1: "s2\<lparr>st_tags := st_tags s1, st_post_tags := st_post_tags s1\<rparr> =
      s1\<lparr>st_posts := Post_update (Post_Update updated title content post) (st_posts s)\<rparr>"
    and eq2: "s1\<lparr>st_attachments := st_attachments s\<rparr> = s"
    using st rm by (simp_all add: tags_step_def remarked_def)
  have eq: "s'\<lparr>st_posts := st_posts s, st_tags := st_tags s, st_post_tags := st_post_tags s,
      st_attachments := st_attachments s, st_outbox := st_outbox s\<rparr> = s"
    using eq1 eq2 by (cases s; cases s1; cases s2) (simp add: x)
  have g: "db_get (st_posts s') = (db_get (st_posts s))(post_ID post \<mapsto> Post_Update updated title content post)"
    using forum_ok_post_update(2) [OF assms(2), of "post_ID post" post "Post_Update updated title content post"]
      post_row [OF assms(2) o(1)] tags_step_fields(1) [OF st] by (simp add: x Post_Update_def)
  have at: "attachments_follow (set (extractAttachmentRefIDs content)) (post_ID post) s s'"
    by (rule remarked_follow [OF rm]) (use tags_step_fields(2) [OF st] mark_by_text_orphan in \<open>simp_all add: x\<close>)
  have nm': "post_tag_names s' (post_ID post) = set names" using nm post_tag_names_cong [of s' s2] by (simp add: x)
  have ot: "\<forall>q. q \<noteq> post_ID post \<longrightarrow> active_tags (st_post_tags s') q = active_tags (st_post_tags s) q"
    using st remarked_fields(3) [OF rm] by (simp add: tags_step_def x)
  show ?thesis using o g at n nm' old ot q eq by blast
qed

text \<open>
  Publishing is for the author, unless a guest, or an administrator; it stamps the post as
  published at the time the event carries and keeps its tags, which the event names.
\<close>

theorem PublishPost_effect:
  assumes "PublishPost e tick postUUID authorID s = Some (Inr (), s')" "forum_ok s"
  shows "\<exists>post requester now published changed tags.
    post_owner s postUUID authorID post requester \<and> \<not> IsGuest requester \<and> \<not> IsSuspended now requester \<and>
    refs_valid s (post_ID post) (post_Content post) \<and>
    db_get (st_posts s') = (db_get (st_posts s))(post_ID post \<mapsto> Publish published post) \<and>
    attachments_follow (set (extractAttachmentRefIDs (post_Content post))) (post_ID post) s s' \<and>
    set tags = post_tag_names s (post_ID post) \<and>
    queued e [NewPostChanged changed ''published'' (post_ID post) (post_BoardID post) (Some published) tags []] s s' \<and>
    s'\<lparr>st_posts := st_posts s, st_attachments := st_attachments s, st_outbox := st_outbox s\<rparr> = s"
proof -
  note ok = forum_parts [OF assms(2)]
  from post_committed(2) [OF assms(1)] obtain t where
    t: "PublishPost_tx postUUID authorID e (begin_tx tick s) = Some (Inr (), t)" "s' = tx_store t" by blast
  from PublishPost_tx_run [OF t(1)] ok(3,5) obtain post requester now tags published changed s1 where
    o: "post_owner s postUUID authorID post requester" "\<not> IsGuest requester" "\<not> IsSuspended now requester"
      "refs_valid s (post_ID post) (post_Content post)"
    and rm: "remarked (mark_by_text (post_Content post)) (post_ID post) s s1"
    and tg: "set tags = post_tag_names s (post_ID post)"
    and q: "queued e [NewPostChanged changed ''published'' (post_ID post) (post_BoardID post) (Some published)
      tags []] s s'"
    and s': "s' = s1\<lparr>st_posts := Post_update (Publish published post) (st_posts s), st_outbox := st_outbox s'\<rparr>"
    unfolding t(2) begin_fields by blast
  obtain x where x: "s' = s1\<lparr>st_posts := Post_update (Publish published post) (st_posts s), st_outbox := x\<rparr>"
    using s' by blast
  have eq2: "s1\<lparr>st_attachments := st_attachments s\<rparr> = s" using rm by (simp add: remarked_def)
  have eq: "s'\<lparr>st_posts := st_posts s, st_attachments := st_attachments s, st_outbox := st_outbox s\<rparr> = s"
    using eq2 by (cases s; cases s1) (simp add: x)
  have g: "db_get (st_posts s') = (db_get (st_posts s))(post_ID post \<mapsto> Publish published post)"
    using forum_ok_post_update(2) [OF assms(2), of "post_ID post" post "Publish published post"]
      post_row [OF assms(2) o(1)] by (simp add: x Publish_def)
  have at: "attachments_follow (set (extractAttachmentRefIDs (post_Content post))) (post_ID post) s s'"
    by (rule remarked_follow [OF rm]) (use mark_by_text_orphan in \<open>simp_all add: x\<close>)
  show ?thesis using o g at tg q eq by blast
qed

text \<open>What the deletion of a post does to its comments, and to the reactions.\<close>

definition comments_swept :: "int \<Rightarrow> int set \<Rightarrow> store \<Rightarrow> store \<Rightarrow> bool" where
  "comments_swept postID ids s s' \<longleftrightarrow>
     (\<forall>i. i \<in> ids \<longleftrightarrow> (\<exists>c. db_get (st_comments s) i = Some c \<and> comment_PostID c = postID \<and>
        comment_Status c = CommentStatusActive)) \<and>
     (\<forall>i c. db_get (st_comments s) i = Some c \<longrightarrow>
        (if i \<in> ids then \<exists>now. db_get (st_comments s') i = Some (Comment_SoftDelete now c)
         else db_get (st_comments s') i = Some c)) \<and>
     (\<forall>v i ty. reaction_of (st_reactions s') (v, i, ty) =
        (if ty = ReactionTargetComment \<and> i \<in> ids \<or> ty = ReactionTargetPost \<and> i = postID then None
         else reaction_of (st_reactions s) (v, i, ty)))"

lemma artifacts_swept:
  assumes "artifacts_deleted postID ids s s'" "forum_ok s"
  shows "comments_swept postID (set ids) s s'" "distinct ids" "attachments_follow {} postID s s'"
    "s'\<lparr>st_comments := st_comments s, st_reactions := st_reactions s, st_attachments := st_attachments s\<rparr> = s"
proof -
  from assms(1) obtain s1 s2 n rx where
    ids: "ids = map comment_ID (sweep_order postID (st_comments s))"
    and sw: "swept (comment_ID ` set (active_of postID (st_comments s))) s s1"
    and rm: "remarked MarkOrphaned postID s1 s2"
    and rx: "deleteByTarget postID ReactionTargetPost (st_reactions s2) = (n, rx)"
    and s': "s' = s2\<lparr>st_reactions := rx\<rparr>"
    unfolding artifacts_deleted_def by blast
  note ok = forum_parts [OF assms(2)] and f = remarked_fields [OF rm]
  note L = sweep_order_rows [OF ok(6), where postID = postID]
  have si: "comment_ID ` set (active_of postID (st_comments s)) = set ids" using L(2) by (simp add: ids)
  show "distinct ids" using L(3) by (simp add: ids)
  have mem: "i \<in> set ids \<longleftrightarrow> (\<exists>c. db_get (st_comments s) i = Some c \<and> comment_PostID c = postID \<and>
      comment_Status c = CommentStatusActive)" for i
    unfolding si [symmetric] active_of_def using db_get_row [OF ok(6)] by auto
  have r2: "reactions_ok (st_reactions s2)" using sw f(6) by (simp add: swept_def sweepable_def)
  have sw': "\<forall>i. i \<notin> set ids \<longrightarrow> db_get (st_comments s1) i = db_get (st_comments s) i"
    "\<forall>i \<in> set ids. \<exists>c now. db_get (st_comments s) i = Some c \<and>
        db_get (st_comments s1) i = Some (Comment_SoftDelete now c)"
    "\<forall>v i ty. reaction_of (st_reactions s1) (v, i, ty) =
        (if ty = ReactionTargetComment \<and> i \<in> set ids then None else reaction_of (st_reactions s) (v, i, ty))"
    using sw unfolding si swept_def by blast+
  have c: "db_get (st_comments s) i = Some c \<Longrightarrow>
      (if i \<in> set ids then \<exists>now. db_get (st_comments s') i = Some (Comment_SoftDelete now c)
         else db_get (st_comments s') i = Some c)" for i c
    using sw'(1,2) f(5) by (force simp: s')
  have r: "reaction_of (st_reactions s') (v, i, ty) =
      (if ty = ReactionTargetComment \<and> i \<in> set ids \<or> ty = ReactionTargetPost \<and> i = postID then None
         else reaction_of (st_reactions s) (v, i, ty))" for v i ty
    using deleteByTarget_of [OF r2 rx, of v i ty] sw'(3) f(6) by (simp add: s')
  show "comments_swept postID (set ids) s s'" unfolding comments_swept_def using mem c r by blast
  have eq1: "s1\<lparr>st_comments := st_comments s, st_reactions := st_reactions s\<rparr> = s"
    and eq2: "s2\<lparr>st_attachments := st_attachments s1\<rparr> = s1" using sw rm by (simp_all add: swept_def remarked_def)
  then show "s'\<lparr>st_comments := st_comments s, st_reactions := st_reactions s,
      st_attachments := st_attachments s\<rparr> = s"
    by (cases s; cases s1; cases s2) (simp add: s')
  have "attachments_follow {} postID s1 s'" by (rule remarked_follow [OF rm]) (simp_all add: s')
  moreover have "st_attachments s1 = st_attachments s" using arg_cong [OF eq1, of st_attachments] by simp
  ultimately show "attachments_follow {} postID s s'" by (simp add: attachments_follow_def)
qed

text \<open>
  C24: deleting a post deletes every active comment of it, whatever their number, and no other
  comment, the reactions to the post and to those comments and no others, and its tags; its
  attachments become orphans; the event names each deleted comment once.
\<close>

theorem DeletePost_effect:
  assumes "DeletePost e tick postUUID authorID s = Some (Inr (), s')" "forum_ok s"
  shows "\<exists>post requester now deleted changed tags ids.
    post_owner s postUUID authorID post requester \<and> may_write requester now \<and>
    db_get (st_posts s') = (db_get (st_posts s))(post_ID post \<mapsto> Post_SoftDelete deleted post) \<and>
    comments_swept (post_ID post) (set ids) s s' \<and> distinct ids \<and>
    attachments_follow {} (post_ID post) s s' \<and>
    set tags = post_tag_names s (post_ID post) \<and> post_tag_names s' (post_ID post) = {} \<and>
    (\<forall>q. q \<noteq> post_ID post \<longrightarrow> post_tag_names s' q = post_tag_names s q) \<and>
    queued e [NewPostChanged changed ''deleted'' (post_ID post) (post_BoardID post) (post_PublishedAt post) tags ids]
      s s' \<and>
    s'\<lparr>st_posts := st_posts s, st_comments := st_comments s, st_reactions := st_reactions s,
      st_attachments := st_attachments s, st_post_tags := st_post_tags s, st_outbox := st_outbox s\<rparr> = s"
proof -
  note ok = forum_parts [OF assms(2)]
  from post_committed(4) [OF assms(1)] obtain t where
    t: "DeletePost_tx postUUID authorID e (begin_tx tick s) = Some (Inr (), t)" "s' = tx_store t" by blast
  from DeletePost_tx_run [OF t(1)] ok(3,4,5) obtain post requester now tags ids deleted changed s1 where
    o: "post_owner s postUUID authorID post requester" "may_write requester now"
    and tg: "set tags = post_tag_names s (post_ID post)"
    and ar: "artifacts_deleted (post_ID post) ids s s1"
    and q: "queued e [NewPostChanged changed ''deleted'' (post_ID post) (post_BoardID post) (post_PublishedAt post)
      tags ids] s s'"
    and s': "s' = s1\<lparr>st_posts := Post_delete deleted (post_ID post) (st_posts s),
      st_post_tags := softDeleteByPostID (post_ID post) (st_post_tags s), st_outbox := st_outbox s'\<rparr>"
    unfolding t(2) begin_fields by blast
  obtain x where x: "s' = s1\<lparr>st_posts := Post_delete deleted (post_ID post) (st_posts s),
      st_post_tags := softDeleteByPostID (post_ID post) (st_post_tags s), st_outbox := x\<rparr>" using s' by blast
  note a = artifacts_swept [OF ar assms(2)] and f = artifacts_fields [OF ar]
  have eq: "s'\<lparr>st_posts := st_posts s, st_comments := st_comments s, st_reactions := st_reactions s,
      st_attachments := st_attachments s, st_post_tags := st_post_tags s, st_outbox := st_outbox s\<rparr> = s"
    using a(4) by (cases s; cases s1) (simp add: x)
  have g: "db_get (st_posts s') = (db_get (st_posts s))(post_ID post \<mapsto> Post_SoftDelete deleted post)"
    using Post_delete_get [OF ok(2) post_row(1) [OF assms(2) o(1)], of deleted] by (simp add: x)
  have c: "comments_swept (post_ID post) (set ids) s s'" using a(1) by (simp add: comments_swept_def x)
  have at: "attachments_follow {} (post_ID post) s s'" proof -
    have "st_attachments s' = st_attachments s1" by (simp add: x)
    with a(3) show ?thesis by (simp only: attachments_follow_def)
  qed
  have nm: "post_tag_names s' q = (if q = post_ID post then {} else post_tag_names s q)" for q
    using f(2) by (simp add: post_tag_names_def tag_named_def x active_tags_softDeleteByPostID [OF ok(8)])
  show ?thesis using o g c a(2) at tg nm q eq by (simp add: nm) blast
qed

section \<open>The posts of a small forum\<close>

lemma demo_forum_ok: "forum_ok demo_store"
proof -
  have "active_tags (st_post_tags demo_store) q = {}" for q
    by (simp add: active_tags_def demo_store_simps)
  moreover have "sweepable demo_store"
    by (simp add: sweepable_def reactions_ok_def db_ok_def demo_store_simps entity_eval split: if_splits)
  moreover have "tags_ok demo_store"
    by (simp add: tags_ok_def tag_repo_ok_def post_tags_ok_def db_ok_def demo_store_simps empty_db_def db_get_def)
  moreover have "posts_housed demo_store"
    by (auto simp: posts_housed_def db_ok_def demo_store_simps entity_eval)
  ultimately show ?thesis
    by (simp add: forum_ok_def db_ok_def demo_store_simps empty_db_def)
qed

lemma demo_words:
  "TrimSpace ''hi'' = ''hi''" "TrimSpace ''Go'' = ''Go''" "normalizeTags id [''Go''] = Inr [''go'']"
  "extractAttachmentRefIDs ''hi'' = []" "extractAttachmentRefIDs ''text'' = []"
proof -
  show g: "TrimSpace ''hi'' = ''hi''" "TrimSpace ''Go'' = ''Go''"
    by (simp_all add: TrimSpace_plain plain_byte_def)
  have "char_of (103::nat) = CHR ''g''" by code_simp
  then show "normalizeTags id [''Go''] = Inr [''go'']"
    by (simp add: normalizeTags_def normalizeTagName_def ToLower_def maxPostTags_def maxTagLength_def bindE_def
        g Let_def ascii_lower_def)
  show "extractAttachmentRefIDs ''hi'' = []" "extractAttachmentRefIDs ''text'' = []"
    by (simp_all add: extractAttachmentRefIDs_def embedded_refs.simps embed_at_def has_prefix_def)
qed

lemmas post_eval =
  createPost_def createPost_tx_def PublishPost_def PublishPost_tx_def UpdatePost_def UpdatePost_tx_def
  DeletePost_def DeletePost_tx_def boardTx_SelectBoardByUUID_def selectBoardByUUID_def postTx_Save_def
  Post_save_def postTx_Update_def Post_update_def postTx_Delete_def Post_delete_def
  postTx_SelectPostByUUIDIncludingUnpublished_def selectPostByUUIDIncludingUnpublished_def
  postTagTx_SoftDeleteByPostID_def softDeleteByPostID_def validateAttachmentRefsWithRepo_def
  activeTagNamesByPostIDTx_def tagsForPostTx_def postTagTx_SelectActiveByPostID_def selectActiveByPostID_def
  syncPostAttachmentOrphans_def attachmentTx_SelectByPostID_def Attachment_selectByPostID_def
  syncPostTags_def upsertPostTags_def getOrCreateTagID_def tagTx_SelectByName_def Tag_selectByName_def
  tagTx_Save_def Tag_save_def NewTag_def postTagTx_UpsertActive_def upsertActive_def NewPostTag_def
  capturePost_def captureTag_def capturePostTag_def Post_Update_def Post_SoftDelete_def read_repo_def
  demo_words NewPostChanged_def

lemma demo_update:
  "\<exists>s'. UpdatePost demo_env 0 ''p1'' 2 ''hi'' ''hi'' [''Go''] demo_store = Some (Inr (), s')"
  apply (simp add: post_eval action_eval entity_eval policy_eval cong: bindT_eval_cong)
  apply (simp add: event_eval action_eval cong: bindT_eval_cong)
  done

lemma demo_publish:
  "\<exists>s'. PublishPost demo_env 0 ''p1'' 2 demo_store = Some (Inr (), s')"
  apply (simp add: post_eval action_eval entity_eval policy_eval cong: bindT_eval_cong)
  apply (simp add: event_eval action_eval cong: bindT_eval_cong)
  done

lemma demo_createPost:
  "\<exists>uuid s'. createPost demo_env 0 ''hi'' ''hi'' [''Go''] [] 2 ''b1'' False demo_store = Some (Inr uuid, s')"
  apply (simp add: post_eval action_eval entity_eval policy_eval BuildMentionNotificationEvents_def
      normalizeMentionedUsernames_def cong: bindT_eval_cong)
  apply (simp add: event_eval action_eval cong: bindT_eval_cong)
  done

lemma demo_batch: "selectComments 1 500 0 demo_comments = db_rows demo_comments"
proof -
  have "db_ok comment_ID demo_comments" by (simp add: db_ok_def entity_eval)
  from batch_page [OF this, of 1 0] show ?thesis
    by (simp add: postDeleteBatchSize_def sweep_order_def active_of_def after_first newest_first_def entity_eval)
qed

lemmas sweep_eval =
  deletePostArtifacts_def deletePostCommentsInBatches_def deleteBatches.simps commentTx_SelectComments_def
  demo_batch [simplified demo_comments_def NewComment_def db_rows_def, simplified] sweepComment_def reactionTx_DeleteByTarget_def deleteByTarget_def commentTx_Delete_def
  Comment_delete_def Comment_SoftDelete_def orphanPostAttachments_def captureComment_def captureReaction_def
  postDeleteBatchSize_def

lemma demo_delete:
  "\<exists>s'. DeletePost demo_env 0 ''p1'' 2 demo_store = Some (Inr (), s')"
  apply (simp add: post_eval sweep_eval action_eval entity_eval policy_eval cong: bindT_eval_cong)
  apply (simp add: event_eval action_eval cong: bindT_eval_cong)
  done

theorem createPost_effect_witness:
  "\<exists>uuid s'. createPost demo_env 0 ''hi'' ''hi'' [''Go''] [] 2 ''b1'' False demo_store = Some (Inr uuid, s') \<and>
    (\<exists>p. db_get (st_posts demo_store) (post_ID p) = None \<and> db_get (st_posts s') (post_ID p) = Some p)"
proof -
  obtain uuid s' where c: "createPost demo_env 0 ''hi'' ''hi'' [''Go''] [] 2 ''b1'' False demo_store = Some (Inr uuid, s')"
    using demo_createPost by blast
  from createPost_effect [OF c demo_forum_ok] c show ?thesis by (metis fun_upd_same)
qed

theorem UpdatePost_effect_witness:
  "\<exists>s'. UpdatePost demo_env 0 ''p1'' 2 ''hi'' ''hi'' [''Go''] demo_store = Some (Inr (), s') \<and>
    (\<exists>post :: post. post_tag_names s' (post_ID post) = {''go''})"
proof -
  obtain s' where c: "UpdatePost demo_env 0 ''p1'' 2 ''hi'' ''hi'' [''Go''] demo_store = Some (Inr (), s')"
    using demo_update by blast
  from UpdatePost_effect [OF c demo_forum_ok] obtain post :: post and names where
    "normalizeTags (env_lower demo_env) [''Go''] = Inr names" "post_tag_names s' (post_ID post) = set names"
    by blast
  moreover from this have "names = [''go'']" by (simp add: demo_env_simps demo_words)
  ultimately have "post_tag_names s' (post_ID post) = {''go''}" by simp
  with c show ?thesis by blast
qed

theorem PublishPost_effect_witness:
  "\<exists>s' published post. PublishPost demo_env 0 ''p1'' 2 demo_store = Some (Inr (), s') \<and>
    db_get (st_posts s') (post_ID post) = Some (Publish published post)"
proof -
  obtain s' where c: "PublishPost demo_env 0 ''p1'' 2 demo_store = Some (Inr (), s')" using demo_publish by blast
  from PublishPost_effect [OF c demo_forum_ok] c show ?thesis by (metis fun_upd_same)
qed

theorem DeletePost_effect_witness:
  "\<exists>s' (post :: post) ids. DeletePost demo_env 0 ''p1'' 2 demo_store = Some (Inr (), s') \<and>
    comments_swept (post_ID post) ids demo_store s' \<and> post_tag_names s' (post_ID post) = {}"
proof -
  obtain s' where c: "DeletePost demo_env 0 ''p1'' 2 demo_store = Some (Inr (), s')" using demo_delete by blast
  from DeletePost_effect [OF c demo_forum_ok] obtain post :: post and ids where
    "comments_swept (post_ID post) (set ids) demo_store s'" "post_tag_names s' (post_ID post) = {}"
    by blast
  with c show ?thesis by blast
qed

theorem forum_kept_witness:
  "\<exists>s'. DeletePost demo_env 0 ''p1'' 2 demo_store = Some (Inr (), s') \<and> forum_ok s'"
  using demo_delete forum_kept [OF demo_forum_ok] by blast

theorem post_commands_answer_witness:
  "\<exists>r s'. DeletePost demo_env 0 ''p1'' 2 demo_store = Some (r, s') \<and> (\<forall>err. r = Inl err \<longrightarrow> s' = demo_store)"
  using post_commands_answer [OF demo_forum_ok] by blast

end
