(* ===== verification/Relay.thy ===== *)
theory Relay
  imports RepoOutbox Events "HOL-Library.Word"
begin

text \<open>
  \<open>infrastructure/event/outbox/relay.go\<close> and \<open>Deserialize\<close> of \<open>application/event/serializer.go\<close>: the worker
  that fetches messages from the outbox, hands their events to the handlers subscribed to the
  name of the event and settles each message: succeeded, to be tried again after a growing
  delay, or dead after \<open>MaxAttempts\<close>.

  Handlers are functions on a world of their own ('w); they answer, fail or panic. The
  goroutine that renews the lease of a message while its handlers run is the list of the times
  at which its ticker fired, before the message is settled and after. Each call to the store
  asks the context anew: \<open>ctx n\<close> is the answer to call \<open>n\<close> of a poll. Here a poll runs from its beginning
  to its end; \<open>RelayRuns\<close> interleaves several workers call by call, and \<open>RelayLive\<close> follows one over many polls.

  The delay is computed with 64-bit integers, as the code does it.
\<close>

section \<open>Events from messages\<close>

fun with_at :: "time \<Rightarrow> domain_event \<Rightarrow> domain_event" where
  "with_at at (BoardChanged a b _) = BoardChanged a b at"
| "with_at at (PostChanged a b c d e f _) = PostChanged a b c d e f at"
| "with_at at (CommentChanged a b c _) = CommentChanged a b c at"
| "with_at at (ReactionChanged a b c d e f _) = ReactionChanged a b c d e f at"
| "with_at at (AttachmentChanged a b c _) = AttachmentChanged a b c at"
| "with_at at (ReportChanged a b c _) = ReportChanged a b c at"
| "with_at at (NotificationTriggered e) = NotificationTriggered (e\<lparr>ne_At := at\<rparr>)"
| "with_at at (SignupEmailVerificationRequested m) = SignupEmailVerificationRequested (m\<lparr>mail_At := at\<rparr>)"
| "with_at at (EmailVerificationResendRequested m) = EmailVerificationResendRequested (m\<lparr>mail_At := at\<rparr>)"
| "with_at at (PasswordResetRequested m) = PasswordResetRequested (m\<lparr>mail_At := at\<rparr>)"

definition event_names :: "string list" where
  "event_names =
     [''board.changed'', ''post.changed'', ''comment.changed'', ''reaction.changed'', ''attachment.changed'',
      ''report.changed'', ''notification.triggered'', ''email.verification.signup.requested'',
      ''email.verification.resend.requested'', ''password.reset.requested'']"

text \<open>\<open>unmarshal\<close> is \<open>json.Unmarshal\<close> into the struct of the named event; a failure is the text of its error.\<close>

definition deserializeEvent :: "(string \<Rightarrow> string \<Rightarrow> string + domain_event) \<Rightarrow> string \<Rightarrow> string \<Rightarrow> time \<Rightarrow>
    string + domain_event" where
  "deserializeEvent unmarshal eventName payload occurredAt =
     (case unmarshal eventName payload of
        Inl err \<Rightarrow> Inl err
      | Inr event \<Rightarrow> Inr (if IsZero (OccurredAt event) then with_at occurredAt event else event))"

definition Deserialize :: "(string \<Rightarrow> string \<Rightarrow> string + domain_event) \<Rightarrow> string \<Rightarrow> string \<Rightarrow> time \<Rightarrow>
    string + domain_event" where
  "Deserialize unmarshal eventName payload occurredAt =
     (if eventName \<in> set event_names then deserializeEvent unmarshal eventName payload occurredAt
      else Inl (''unsupported event name: '' @ eventName))"

section \<open>The relay\<close>

record relay_config =
  WorkerCount :: int
  BatchSize :: int
  PollInterval :: duration
  MaxAttempts :: int
  BaseBackoff :: duration
  MaxBackoffFactor :: int
  ProcessingLease :: duration
  LeaseRefresh :: duration

datatype handled = HandlerOk | HandlerErr string | HandlerPanic

type_synonym 'w handler = "domain_event \<Rightarrow> 'w \<Rightarrow> handled \<times> 'w"

record 'w relay =
  relay_cfg :: relay_config
  relay_handlers :: "(string \<times> 'w handler list) list"

definition relay_defaults :: "relay_config \<Rightarrow> relay_config" where
  "relay_defaults cfg =
     (let cfg = (if WorkerCount cfg \<le> 0 then cfg\<lparr>WorkerCount := 1\<rparr> else cfg);
          cfg = (if BatchSize cfg \<le> 0 then cfg\<lparr>BatchSize := 50\<rparr> else cfg);
          cfg = (if PollInterval cfg \<le> 0 then cfg\<lparr>PollInterval := 100000000\<rparr> else cfg);
          cfg = (if MaxAttempts cfg \<le> 0 then cfg\<lparr>MaxAttempts := 5\<rparr> else cfg);
          cfg = (if BaseBackoff cfg \<le> 0 then cfg\<lparr>BaseBackoff := 100000000\<rparr> else cfg);
          cfg = (if MaxBackoffFactor cfg \<le> 0 then cfg\<lparr>MaxBackoffFactor := 64\<rparr> else cfg);
          cfg = (if ProcessingLease cfg \<le> 0 then cfg\<lparr>ProcessingLease := 30000000000\<rparr> else cfg);
          cfg = (if LeaseRefresh cfg \<le> 0 then cfg\<lparr>LeaseRefresh := ProcessingLease cfg div 3\<rparr> else cfg)
      in if LeaseRefresh cfg \<le> 0 then cfg\<lparr>LeaseRefresh := 1000000000\<rparr> else cfg)"

definition NewRelay :: "relay_config \<Rightarrow> 'w relay" where
  "NewRelay cfg = \<lparr>relay_cfg = relay_defaults cfg, relay_handlers = []\<rparr>"

definition handlersFor :: "string \<Rightarrow> 'w relay \<Rightarrow> 'w handler list" where
  "handlersFor eventName r = (case map_of (relay_handlers r) eventName of None \<Rightarrow> [] | Some hs \<Rightarrow> hs)"

definition Relay_Subscribe :: "string \<Rightarrow> 'w handler option \<Rightarrow> 'w relay \<Rightarrow> 'w relay" where
  "Relay_Subscribe eventName handler r =
     (case handler of
        None \<Rightarrow> r
      | Some h \<Rightarrow> r\<lparr>relay_handlers := put_row eventName (handlersFor eventName r @ [h]) (relay_handlers r)\<rparr>)"

definition callHandler :: "'w handler \<Rightarrow> domain_event \<Rightarrow> 'w \<Rightarrow> string option \<times> 'w" where
  "callHandler h event w =
     (case h event w of
        (HandlerOk, w') \<Rightarrow> (None, w')
      | (HandlerErr err, w') \<Rightarrow> (Some err, w')
      | (HandlerPanic, w') \<Rightarrow> (Some ''event handler panic'', w'))"

fun run_handlers :: "'w handler list \<Rightarrow> domain_event \<Rightarrow> 'w \<Rightarrow> string option \<times> 'w" where
  "run_handlers [] event w = (None, w)"
| "run_handlers (h # hs) event w =
     (case callHandler h event w of
        (Some err, w') \<Rightarrow> (Some err, w')
      | (None, w') \<Rightarrow> run_handlers hs event w')"

definition relay_dispatch :: "'w relay \<Rightarrow> domain_event \<Rightarrow> 'w \<Rightarrow> string option \<times> 'w" where
  "relay_dispatch r event w = run_handlers (handlersFor (EventName event) r) event w"

section \<open>The delay before the next attempt\<close>

definition int64 :: "int \<Rightarrow> int" where
  "int64 x = sint (word_of_int x :: 64 word)"

text \<open>\<open>1 << n\<close> on a 64-bit integer: zero once the bit has left the word.\<close>

definition shift_one :: "nat \<Rightarrow> int" where
  "shift_one n = int64 (2 ^ n)"

definition backoffDuration :: "duration \<Rightarrow> int \<Rightarrow> int \<Rightarrow> duration" where
  "backoffDuration base attempt0 maxFactor =
     (let attempt = (if attempt0 < 1 then 1 else attempt0);
          factor0 = shift_one (nat (attempt - 1));
          factor = (if maxFactor < factor0 then maxFactor else factor0)
      in int64 (factor * base))"

section \<open>Handling messages\<close>

definition markFailure ::
  "relay_config \<Rightarrow> go_error option \<Rightarrow> outbox_message \<Rightarrow> time \<Rightarrow> string \<Rightarrow> outbox_repo \<Rightarrow> outbox_repo" where
  "markFailure cfg ctx_err message now err q =
     (let attempt = msg_AttemptCount message in
      if MaxAttempts cfg \<le> attempt then snd (MarkDead ctx_err (msg_ID message) err q)
      else snd (MarkRetry ctx_err (msg_ID message)
                  (now + backoffDuration (BaseBackoff cfg) attempt (MaxBackoffFactor cfg)) err q))"

text \<open>The ticker fired at \<open>ticks\<close>: the lease is renewed each time, unless the renewal is switched off.\<close>

definition renew_lease ::
  "relay_config \<Rightarrow> string \<Rightarrow> (go_error option \<times> time) list \<Rightarrow> outbox_repo \<Rightarrow> outbox_repo" where
  "renew_lease cfg i ticks q =
     (if LeaseRefresh cfg \<le> 0 \<or> ProcessingLease cfg \<le> 0 \<or> i = [] then q
      else fold (\<lambda>(ctx_err, t) q. snd (RenewProcessing ctx_err i (t + ProcessingLease cfg) q)) ticks q)"

record pacing =
  pace_before :: "(go_error option \<times> time) list"
  pace_after :: "(go_error option \<times> time) list"

definition handleMessage ::
  "'w relay \<Rightarrow> (string \<Rightarrow> string \<Rightarrow> string + domain_event) \<Rightarrow> go_error option \<Rightarrow> pacing \<Rightarrow> outbox_message \<Rightarrow>
    time \<Rightarrow> 'w \<times> outbox_repo \<Rightarrow> 'w \<times> outbox_repo" where
  "handleMessage r unmarshal ctx_err pace message now wq =
     (case wq of (w, q) \<Rightarrow>
        case Deserialize unmarshal (msg_EventName message) (msg_Payload message) (msg_OccurredAt message) of
          Inl err \<Rightarrow> (w, markFailure (relay_cfg r) ctx_err message now err q)
        | Inr event \<Rightarrow>
            (case relay_dispatch r event w of (res, w') \<Rightarrow>
               let q1 = renew_lease (relay_cfg r) (msg_ID message) (pace_before pace) q;
                   q2 = (case res of
                           Some err \<Rightarrow> markFailure (relay_cfg r) ctx_err message now err q1
                         | None \<Rightarrow> snd (MarkSucceeded ctx_err [msg_ID message] q1))
               in (w', renew_lease (relay_cfg r) (msg_ID message) (pace_after pace) q2)))"

fun handle_all ::
  "'w relay \<Rightarrow> (string \<Rightarrow> string \<Rightarrow> string + domain_event) \<Rightarrow> (nat \<Rightarrow> go_error option) \<Rightarrow> (nat \<Rightarrow> pacing) \<Rightarrow>
    nat \<Rightarrow> time \<Rightarrow> outbox_message list \<Rightarrow> 'w \<times> outbox_repo \<Rightarrow> 'w \<times> outbox_repo" where
  "handle_all r unmarshal ctx pace n now [] wq = wq"
| "handle_all r unmarshal ctx pace n now (m # ms) wq =
     handle_all r unmarshal ctx pace (Suc n) now ms (handleMessage r unmarshal (ctx n) (pace n) m now wq)"

definition pollOnce ::
  "'w relay \<Rightarrow> (string \<Rightarrow> string \<Rightarrow> string + domain_event) \<Rightarrow> (nat \<Rightarrow> go_error option) \<Rightarrow> (nat \<Rightarrow> pacing) \<Rightarrow>
    time \<Rightarrow> 'w \<times> outbox_repo \<Rightarrow> bool \<times> 'w \<times> outbox_repo" where
  "pollOnce r unmarshal ctx pace now wq =
     (case FetchReady (ctx 0) (BatchSize (relay_cfg r)) now (snd wq) of
        (Inl err, q) \<Rightarrow> (False, fst wq, q)
      | (Inr messages, q) \<Rightarrow>
          if messages = [] then (False, fst wq, q)
          else (True, handle_all r unmarshal ctx pace 1 now messages (fst wq, q)))"

text \<open>
  One turn of the loop of \<open>worker\<close>: nothing when the context has ended, else a poll. The result
  says whether the worker polls again at once.
\<close>

definition worker_turn ::
  "'w relay \<Rightarrow> (string \<Rightarrow> string \<Rightarrow> string + domain_event) \<Rightarrow> bool \<Rightarrow> (nat \<Rightarrow> go_error option) \<Rightarrow> (nat \<Rightarrow> pacing) \<Rightarrow>
    time \<Rightarrow> 'w \<times> outbox_repo \<Rightarrow> bool \<times> 'w \<times> outbox_repo" where
  "worker_turn r unmarshal ended ctx pace now wq =
     (if ended then (False, wq) else pollOnce r unmarshal ctx pace now wq)"

section \<open>Serialising and back\<close>

lemma OccurredAt_with_at [simp]: "OccurredAt (with_at at e) = at" "EventName (with_at at e) = EventName e"
  by (cases e; simp)+

lemma EventName_known: "EventName e \<in> set event_names"
  by (cases e) (simp_all add: event_names_def)

lemma Deserialize_Serialize:
  assumes "Serialize marshal event = Some (name, payload, at)"
    and "\<And>e p. marshal e = Some p \<Longrightarrow> unmarshal (EventName e) p = Inr e"
  shows "Deserialize unmarshal name payload t = Inr (if IsZero at then with_at t event else event)"
  using assms EventName_known [of event]
  by (auto simp: Serialize_def Deserialize_def deserializeEvent_def split: option.splits)

section \<open>The delay\<close>

lemma int64_id: "- (2 ^ 63) \<le> x \<Longrightarrow> x < 2 ^ 63 \<Longrightarrow> int64 x = x"
  by (simp add: int64_def signed_of_int signed_take_bit_int_eq_self)

lemma shift_one_small: "n < 63 \<Longrightarrow> shift_one n = 2 ^ n"
proof -
  assume "n < 63"
  then have "(2::int) ^ n < 2 ^ 63" by (rule power_strict_increasing) simp
  moreover have "(0::int) \<le> 2 ^ n" by simp
  ultimately show ?thesis unfolding shift_one_def by (intro int64_id) linarith+
qed

lemma shift_one_large:
  "shift_one 63 = - (2 ^ 63)" "64 \<le> n \<Longrightarrow> shift_one n = 0"
proof -
  show "shift_one 63 = - (2 ^ 63)" by (simp add: shift_one_def int64_def)
  assume "64 \<le> n"
  then have "(2 :: 64 word) ^ n = 0" by (subst exp_eq_zero_iff) simp
  then have z: "(word_of_int (2 ^ n) :: 64 word) = 0" by simp
  show "shift_one n = 0" unfolding shift_one_def int64_def z by simp
qed

lemma backoff_in_range:
  assumes "1 \<le> attempt" "attempt \<le> 63" "0 < base" "0 < maxFactor" "maxFactor * base < 2 ^ 63"
  shows "backoffDuration base attempt maxFactor = min maxFactor (2 ^ nat (attempt - 1)) * base"
proof -
  let ?f = "min maxFactor (2 ^ nat (attempt - 1))"
  have s: "shift_one (nat (attempt - 1)) = 2 ^ nat (attempt - 1)" using assms(1,2) by (intro shift_one_small) simp
  have "0 \<le> ?f * base" using assms(3,4) by simp
  moreover have "?f * base \<le> maxFactor * base" using assms(3) by (intro mult_right_mono) simp_all
  ultimately have "int64 (?f * base) = ?f * base" using assms(5) by (intro int64_id) linarith+
  moreover have "(if maxFactor < 2 ^ nat (attempt - 1) then maxFactor else 2 ^ nat (attempt - 1)) = ?f" by simp
  moreover have "(if attempt < 1 then 1 else attempt) = attempt" using assms(1) by simp
  ultimately show ?thesis by (simp only: backoffDuration_def Let_def s)
qed

lemma backoff_wraps:
  assumes "64 \<le> attempt" "0 < maxFactor"
  shows "backoffDuration base attempt maxFactor = (if attempt = 64 then int64 (- (2 ^ 63) * base) else 0)"
proof (cases "attempt = 64")
  case True
  then show ?thesis using assms(2) shift_one_large(1) by (simp add: backoffDuration_def)
next
  case False
  then have "shift_one (nat (attempt - 1)) = 0" using assms(1) by (intro shift_one_large(2)) simp
  then show ?thesis using assms False by (simp add: backoffDuration_def int64_id)
qed

section \<open>Polls as runs of the life cycle\<close>

lemma outbox_run_append:
  "outbox_run r xs r1 \<Longrightarrow> outbox_run r1 ys r2 \<Longrightarrow> outbox_run r (xs @ ys) r2"
  by (induction rule: outbox_run.induct) (auto intro: run_step)

text \<open>The operations on message \<open>i\<close> other than appending and fetching.\<close>

fun settles_only :: "string \<Rightarrow> outbox_op \<Rightarrow> bool" where
  "settles_only i (OpAppend now ms) = False"
| "settles_only i (OpFetch limit now) = False"
| "settles_only i (OpRenew j t) = (j = i)"
| "settles_only i (OpSucceeded js) = (js = [i])"
| "settles_only i (OpRetry j t err) = (j = i)"
| "settles_only i (OpDead j err) = (j = i)"

text \<open>
  What happens to the outbox on behalf of message \<open>i\<close>: renewals and one settlement; \<open>succeeded\<close> says
  whether a settlement reported success.
\<close>

definition settles :: "string \<Rightarrow> bool \<Rightarrow> outbox_repo \<Rightarrow> outbox_repo \<Rightarrow> bool" where
  "settles i succeeded q q' \<longleftrightarrow> (\<exists>trace. outbox_run q trace q' \<and>
     (\<forall>(op, ready) \<in> set trace. ready = [] \<and> settles_only i op) \<and>
     ((\<exists>ready. (OpSucceeded [i], ready) \<in> set trace) \<longrightarrow> succeeded))"

lemma settles_refl: "settles i b q q"
  unfolding settles_def by (intro exI [of _ "[]"]) (simp add: run_nil)

lemma settles_trans: "settles i b q q1 \<Longrightarrow> settles i c q1 q2 \<Longrightarrow> settles i (b \<or> c) q q2"
proof -
  assume "settles i b q q1" "settles i c q1 q2"
  then obtain xs ys where "outbox_run q xs q1" "\<forall>(op, ready) \<in> set xs. ready = [] \<and> settles_only i op"
    "(\<exists>ready. (OpSucceeded [i], ready) \<in> set xs) \<longrightarrow> b"
    "outbox_run q1 ys q2" "\<forall>(op, ready) \<in> set ys. ready = [] \<and> settles_only i op"
    "(\<exists>ready. (OpSucceeded [i], ready) \<in> set ys) \<longrightarrow> c"
    unfolding settles_def by blast
  then show ?thesis
    unfolding settles_def using outbox_run_append [of q xs q1 ys q2] by (intro exI [of _ "xs @ ys"]) auto
qed

lemma settles_step:
  assumes "outbox_step q op [] q'" "settles_only i op" "op = OpSucceeded [i] \<Longrightarrow> b"
  shows "settles i b q q'"
  unfolding settles_def
  by (intro exI [of _ "[(op, [])]"]) (use assms in \<open>auto intro: run_step run_nil\<close>)

lemma ctx_ended:
  "snd (RenewProcessing (Some err) i t q) = q" "snd (MarkSucceeded (Some err) ids q) = q"
  "snd (MarkRetry (Some err) i t text q) = q" "snd (MarkDead (Some err) i text q) = q"
  by (simp_all add: RenewProcessing_def MarkSucceeded_def MarkRetry_def MarkDead_def)

lemma answers_none:
  "RenewProcessing None i t q = (None, snd (RenewProcessing None i t q))"
  "MarkSucceeded None ids q = (None, snd (MarkSucceeded None ids q))"
  "MarkRetry None i t text q = (None, snd (MarkRetry None i t text q))"
  "MarkDead None i text q = (None, snd (MarkDead None i text q))"
  by (simp_all add: RenewProcessing_def MarkSucceeded_def MarkRetry_def MarkDead_def Let_def split: option.split)

lemma store_settles:
  "settles i b q (snd (RenewProcessing ctx_err i t q))" "settles i True q (snd (MarkSucceeded ctx_err [i] q))"
  "settles i b q (snd (MarkRetry ctx_err i t text q))" "settles i b q (snd (MarkDead ctx_err i text q))"
  by (cases ctx_err; simp add: ctx_ended settles_refl;
      rule settles_step, rule outbox_step.intros, rule answers_none; simp)+

lemma renew_settles: "settles i False q (renew_lease cfg i ticks q)"
proof -
  have "settles i False q (fold (\<lambda>(ctx_err, t) q. snd (RenewProcessing ctx_err i (t + ProcessingLease cfg) q)) ticks q)"
  proof (induction ticks arbitrary: q)
    case (Cons x xs)
    obtain c t where x: "x = (c, t)" by fastforce
    have "settles i False q (snd (RenewProcessing c i (t + ProcessingLease cfg) q))" by (rule store_settles(1))
    from settles_trans [OF this Cons.IH] show ?case by (simp add: x)
  qed (simp add: settles_refl)
  then show ?thesis by (simp add: renew_lease_def settles_refl)
qed

lemma markFailure_settles: "settles (msg_ID m) False q (markFailure cfg ctx_err m now err q)"
  by (simp add: markFailure_def Let_def store_settles)

text \<open>A message is settled as succeeded only when its event was read and every handler answered.\<close>

definition delivered :: "'w relay \<Rightarrow> (string \<Rightarrow> string \<Rightarrow> string + domain_event) \<Rightarrow> outbox_message \<Rightarrow> 'w \<Rightarrow> 'w \<Rightarrow> bool" where
  "delivered r unmarshal m w w' \<longleftrightarrow> (\<exists>event.
     Deserialize unmarshal (msg_EventName m) (msg_Payload m) (msg_OccurredAt m) = Inr event \<and>
     relay_dispatch r event w = (None, w'))"

definition accepts :: "'w relay \<Rightarrow> (string \<Rightarrow> string \<Rightarrow> string + domain_event) \<Rightarrow> outbox_message \<Rightarrow> 'w \<Rightarrow> bool" where
  "accepts r unmarshal m w \<longleftrightarrow> (\<exists>w'. delivered r unmarshal m w w')"

lemma handleMessage_accepts:
  assumes "handleMessage r unmarshal ctx_err pace m now (w, q) = (w', q')"
  shows "delivered r unmarshal m w w' \<longleftrightarrow> accepts r unmarshal m w"
  using assms by (auto simp: accepts_def delivered_def handleMessage_def Let_def split: prod.splits sum.splits)

lemma handleMessage_settles:
  assumes "handleMessage r unmarshal ctx_err pace m now (w, q) = (w', q')"
  shows "settles (msg_ID m) (delivered r unmarshal m w w') q q'"
proof (cases "Deserialize unmarshal (msg_EventName m) (msg_Payload m) (msg_OccurredAt m)")
  case (Inl err)
  with assms have "w' = w" "q' = markFailure (relay_cfg r) ctx_err m now err q" by (simp_all add: handleMessage_def)
  with Inl markFailure_settles show ?thesis by (simp add: delivered_def)
next
  case (Inr event)
  let ?q1 = "renew_lease (relay_cfg r) (msg_ID m) (pace_before pace) q"
  obtain res where d: "relay_dispatch r event w = (res, w')"
    using assms Inr by (auto simp: handleMessage_def Let_def split: prod.splits)
  let ?q2 = "case res of Some err \<Rightarrow> markFailure (relay_cfg r) ctx_err m now err ?q1
      | None \<Rightarrow> snd (MarkSucceeded ctx_err [msg_ID m] ?q1)"
  have q': "q' = renew_lease (relay_cfg r) (msg_ID m) (pace_after pace) ?q2"
    using assms Inr d by (simp add: handleMessage_def Let_def)
  have "settles (msg_ID m) (res = None) ?q1 ?q2"
    using store_settles(2) [of "msg_ID m" ?q1 ctx_err] markFailure_settles [of m ?q1]
    by (cases res) simp_all
  from settles_trans [OF settles_trans [OF renew_settles this] renew_settles]
  have "settles (msg_ID m) (res = None) q q'" unfolding q' by simp
  moreover have "delivered r unmarshal m w w' \<longleftrightarrow> res = None" using Inr d by (simp add: delivered_def)
  ultimately show ?thesis by simp
qed

section \<open>The outcome of a message\<close>

text \<open>
  The row of a message after it has been handled: none when its event was delivered, else dead
  once the attempts are used up, else pending again after the delay.
\<close>

definition settled_as :: "relay_config \<Rightarrow> time \<Rightarrow> outbox_message \<Rightarrow> bool \<Rightarrow> outbox_message option \<Rightarrow> bool" where
  "settled_as cfg now m ok row \<longleftrightarrow>
     (if ok then row = None
      else if MaxAttempts cfg \<le> msg_AttemptCount m
      then \<exists>err t. row = Some (m\<lparr>msg_Status := OutboxStatusDead, msg_NextAttemptAt := t, msg_LastError := TrimSpace err\<rparr>)
      else \<exists>err. row = Some (m\<lparr>msg_Status := OutboxStatusPending,
        msg_NextAttemptAt := now + backoffDuration (BaseBackoff cfg) (msg_AttemptCount m) (MaxBackoffFactor cfg),
        msg_LastError := TrimSpace err\<rparr>))"

lemma renew_row:
  "j \<noteq> i \<Longrightarrow> map_of (outbox_data (renew_lease cfg i ticks q)) j = map_of (outbox_data q) j"
  "case map_of (outbox_data q) i of None \<Rightarrow> True | Some m \<Rightarrow> msg_Status m \<noteq> OutboxStatusProcessing \<Longrightarrow>
    renew_lease cfg i ticks q = q"
  "map_of (outbox_data q) i = Some m \<Longrightarrow>
    \<exists>t. map_of (outbox_data (renew_lease cfg i ticks q)) i = Some (m\<lparr>msg_NextAttemptAt := t\<rparr>)"
proof -
  let ?f = "\<lambda>(ctx_err, t) q. snd (RenewProcessing ctx_err i (t + ProcessingLease cfg) q)"
  have one: "j \<noteq> i \<Longrightarrow> map_of (outbox_data (?f x q)) j = map_of (outbox_data q) j" for x q
    by (cases x) (auto simp: RenewProcessing_def split: option.split)
  have "map_of (outbox_data (fold ?f ticks q)) j = map_of (outbox_data q) j" if "j \<noteq> i"
    using one [OF that] by (induction ticks arbitrary: q) simp_all
  then show "j \<noteq> i \<Longrightarrow> map_of (outbox_data (renew_lease cfg i ticks q)) j = map_of (outbox_data q) j"
    by (simp add: renew_lease_def)
  have two: "?f x q = q" if "case map_of (outbox_data q) i of None \<Rightarrow> True | Some m \<Rightarrow> msg_Status m \<noteq> OutboxStatusProcessing" for x q
    using that by (cases x) (auto simp: RenewProcessing_def split: option.splits)
  have "fold ?f ticks q = q" if "case map_of (outbox_data q) i of None \<Rightarrow> True | Some m \<Rightarrow> msg_Status m \<noteq> OutboxStatusProcessing"
    using two [OF that] by (induction ticks) simp_all
  then show "case map_of (outbox_data q) i of None \<Rightarrow> True | Some m \<Rightarrow> msg_Status m \<noteq> OutboxStatusProcessing \<Longrightarrow>
      renew_lease cfg i ticks q = q"
    by (simp add: renew_lease_def)
  have three: "\<exists>t. map_of (outbox_data (?f x q)) i = Some (m\<lparr>msg_NextAttemptAt := t\<rparr>)"
    if "map_of (outbox_data q) i = Some m" for x q m
    using that by (cases x) (auto simp: RenewProcessing_def split: option.split intro: exI [of _ "msg_NextAttemptAt m"])
  have "\<exists>t. map_of (outbox_data (fold ?f ticks q)) i = Some (m\<lparr>msg_NextAttemptAt := t\<rparr>)"
    if "map_of (outbox_data q) i = Some m" for q m
    using that
  proof (induction ticks arbitrary: q m)
    case Nil
    then show ?case by (auto intro: exI [of _ "msg_NextAttemptAt m"])
  next
    case (Cons x xs)
    from three [OF Cons.prems] obtain t where "map_of (outbox_data (?f x q)) i = Some (m\<lparr>msg_NextAttemptAt := t\<rparr>)" by blast
    from Cons.IH [OF this] show ?case by simp
  qed
  then show "map_of (outbox_data q) i = Some m \<Longrightarrow>
      \<exists>t. map_of (outbox_data (renew_lease cfg i ticks q)) i = Some (m\<lparr>msg_NextAttemptAt := t\<rparr>)"
    by (auto simp: renew_lease_def intro: exI [of _ "msg_NextAttemptAt m"])
qed

lemma markFailure_row:
  assumes "map_of (outbox_data q) (msg_ID m) = Some (m\<lparr>msg_NextAttemptAt := t\<rparr>)"
  shows "settled_as cfg now m False (map_of (outbox_data (markFailure cfg None m now err q)) (msg_ID m))"
    "j \<noteq> msg_ID m \<Longrightarrow> map_of (outbox_data (markFailure cfg None m now err q)) j = map_of (outbox_data q) j"
proof -
  show "settled_as cfg now m False (map_of (outbox_data (markFailure cfg None m now err q)) (msg_ID m))"
  proof (cases "MaxAttempts cfg \<le> msg_AttemptCount m")
    case True
    have "map_of (outbox_data (markFailure cfg None m now err q)) (msg_ID m) =
        Some (m\<lparr>msg_Status := OutboxStatusDead, msg_NextAttemptAt := t, msg_LastError := TrimSpace err\<rparr>)"
      using assms True by (cases m) (simp add: markFailure_def MarkDead_def Let_def)
    with True show ?thesis unfolding settled_as_def by auto
  next
    case False
    have "map_of (outbox_data (markFailure cfg None m now err q)) (msg_ID m) =
        Some (m\<lparr>msg_Status := OutboxStatusPending,
          msg_NextAttemptAt := now + backoffDuration (BaseBackoff cfg) (msg_AttemptCount m) (MaxBackoffFactor cfg),
          msg_LastError := TrimSpace err\<rparr>)"
      using assms False by (cases m) (simp add: markFailure_def MarkRetry_def Let_def)
    with False show ?thesis unfolding settled_as_def by auto
  qed
  show "j \<noteq> msg_ID m \<Longrightarrow> map_of (outbox_data (markFailure cfg None m now err q)) j = map_of (outbox_data q) j"
    using assms by (simp add: markFailure_def MarkDead_def MarkRetry_def Let_def)
qed

lemma handleMessage_row:
  assumes "handleMessage r unmarshal None pace m now (w, q) = (w', q')"
    and "map_of (outbox_data q) (msg_ID m) = Some m" "msg_ID m \<noteq> []"
  shows "settled_as (relay_cfg r) now m (delivered r unmarshal m w w') (map_of (outbox_data q') (msg_ID m))"
    "j \<noteq> msg_ID m \<Longrightarrow> map_of (outbox_data q') j = map_of (outbox_data q) j"
proof -
  let ?i = "msg_ID m" and ?cfg = "relay_cfg r"
  have "settled_as ?cfg now m (delivered r unmarshal m w w') (map_of (outbox_data q') ?i) \<and>
      (\<forall>j. j \<noteq> ?i \<longrightarrow> map_of (outbox_data q') j = map_of (outbox_data q) j)"
  proof (cases "Deserialize unmarshal (msg_EventName m) (msg_Payload m) (msg_OccurredAt m)")
    case (Inl err)
    have "map_of (outbox_data q) ?i = Some (m\<lparr>msg_NextAttemptAt := msg_NextAttemptAt m\<rparr>)" using assms(2) by simp
    note f = markFailure_row [OF this]
    have "q' = markFailure ?cfg None m now err q" using assms(1) Inl by (simp add: handleMessage_def)
    with f Inl show ?thesis by (simp add: delivered_def)
  next
    case (Inr event)
    let ?q1 = "renew_lease ?cfg ?i (pace_before pace) q"
    obtain res where d: "relay_dispatch r event w = (res, w')"
      using assms Inr by (auto simp: handleMessage_def Let_def split: prod.splits)
    define q2 where "q2 = (case res of Some err \<Rightarrow> markFailure ?cfg None m now err ?q1
        | None \<Rightarrow> snd (MarkSucceeded None [?i] ?q1))"
    have q': "q' = renew_lease ?cfg ?i (pace_after pace) q2"
      using assms Inr d by (simp add: handleMessage_def Let_def q2_def)
    from renew_row(3) [OF assms(2)] obtain t where
      t: "map_of (outbox_data ?q1) ?i = Some (m\<lparr>msg_NextAttemptAt := t\<rparr>)" by blast
    have ok: "delivered r unmarshal m w w' \<longleftrightarrow> res = None" using Inr d by (simp add: delivered_def)
    have s: "settled_as ?cfg now m (res = None) (map_of (outbox_data q2) ?i)"
      and o: "\<forall>j. j \<noteq> ?i \<longrightarrow> map_of (outbox_data q2) j = map_of (outbox_data q) j"
      using markFailure_row [OF t] renew_row(1) [of _ ?i ?cfg "pace_before pace" q] assms(3)
      by (auto simp: q2_def settled_as_def MarkSucceeded_def Let_def split: option.split)
    have "case map_of (outbox_data q2) ?i of None \<Rightarrow> True | Some m \<Rightarrow> msg_Status m \<noteq> OutboxStatusProcessing"
      using s by (auto simp: settled_as_def split: if_splits)
    then have "q' = q2" unfolding q' by (rule renew_row(2))
    with s o ok show ?thesis by simp
  qed
  then show "settled_as ?cfg now m (delivered r unmarshal m w w') (map_of (outbox_data q') ?i)"
    "j \<noteq> ?i \<Longrightarrow> map_of (outbox_data q') j = map_of (outbox_data q) j" by blast+
qed

lemma handle_all_rows:
  assumes "handle_all r unmarshal (\<lambda>_. None) pace n now ms (w, q) = (w', q')"
    and "distinct (map msg_ID ms)" "\<forall>m \<in> set ms. map_of (outbox_data q) (msg_ID m) = Some m \<and> msg_ID m \<noteq> []"
  shows "(\<forall>m \<in> set ms. \<exists>w1. settled_as (relay_cfg r) now m (accepts r unmarshal m w1)
      (map_of (outbox_data q') (msg_ID m))) \<and>
    (\<forall>j. j \<notin> msg_ID ` set ms \<longrightarrow> map_of (outbox_data q') j = map_of (outbox_data q) j)"
  using assms
proof (induction ms arbitrary: n w q)
  case (Cons m ms)
  obtain w1 q1 where h: "handleMessage r unmarshal None (pace n) m now (w, q) = (w1, q1)" by fastforce
  have hm: "map_of (outbox_data q) (msg_ID m) = Some m" "msg_ID m \<noteq> []" using Cons.prems(3) by simp_all
  note row = handleMessage_row [OF h hm]
  have rest: "\<forall>x \<in> set ms. map_of (outbox_data q1) (msg_ID x) = Some x \<and> msg_ID x \<noteq> []"
  proof
    fix x assume x: "x \<in> set ms"
    then have "msg_ID x \<noteq> msg_ID m" using Cons.prems(2) by (metis distinct.simps(2) image_eqI list.simps(9) set_map)
    with row(2) [of "msg_ID x"] Cons.prems(3) x show "map_of (outbox_data q1) (msg_ID x) = Some x \<and> msg_ID x \<noteq> []"
      by simp
  qed
  have all: "handle_all r unmarshal (\<lambda>_. None) pace (Suc n) now ms (w1, q1) = (w', q')" using Cons.prems(1) h by simp
  have new: "msg_ID m \<notin> msg_ID ` set ms" and ds: "distinct (map msg_ID ms)" using Cons.prems(2) by simp_all
  note IH = Cons.IH [OF all ds rest]
  have "map_of (outbox_data q') (msg_ID m) = map_of (outbox_data q1) (msg_ID m)" using IH new by blast
  with row(1) have "settled_as (relay_cfg r) now m (accepts r unmarshal m w) (map_of (outbox_data q') (msg_ID m))"
    by (simp add: handleMessage_accepts [OF h])
  with IH row(2) show ?case by (auto intro: exI)
qed simp

lemma lease_fields [simp]:
  "msg_ID (lease now to m) = msg_ID m" "msg_AttemptCount (lease now to m) = msg_AttemptCount m + 1"
  "msg_Status (lease now to m) = OutboxStatusProcessing"
  by (simp_all add: lease_def)

lemma accepts_lease: "accepts r unmarshal (lease now to m) w = accepts r unmarshal m w"
  by (simp add: accepts_def delivered_def lease_def)

text \<open>A poll settles every message it fetched and touches no other.\<close>

lemma pollOnce_rows:
  assumes "pollOnce r unmarshal (\<lambda>_. None) pace now (w, q) = (b, w', q')" "outbox_ok q"
  defines "ids \<equiv> fetched_ids (BatchSize (relay_cfg r)) now q"
  shows "(\<forall>i \<in> set ids. \<exists>m w1. map_of (outbox_data q) i = Some m \<and>
      settled_as (relay_cfg r) now (lease now (outbox_processingTimeout q) m) (accepts r unmarshal m w1)
        (map_of (outbox_data q') i)) \<and>
    (\<forall>j. j \<notin> set ids \<longrightarrow> map_of (outbox_data q') j = map_of (outbox_data q) j)"
proof -
  let ?to = "outbox_processingTimeout q"
  have d: "distinct (outbox_order q)" using assms(2) by (simp add: outbox_ok_def)
  obtain ready q1 where f: "FetchReady None (BatchSize (relay_cfg r)) now q = (Inr ready, q1)"
    by (simp add: FetchReady_spec [OF d])
  note fr = fetch_result [OF assms(2) f, folded ids_def]
  have rows: "i \<in> set ids \<Longrightarrow> \<exists>m. map_of (outbox_data q) i = Some m \<and> msg_ID m = i \<and> i \<noteq> [] \<and>
      leased_at now ?to (outbox_data q) i = lease now ?to m" for i
    using fetched_due [of i "BatchSize (relay_cfg r)" now q, folded ids_def] assms(2)
    by (auto simp: due_def leased_at_def outbox_ok_def split: option.splits)
  have ready: "set ready = leased_at now ?to (outbox_data q) ` set ids" "map msg_ID ready = ids" "distinct ids"
    using fr fetched_distinct [OF d] by (simp_all add: ids_def)
  have h: "handle_all r unmarshal (\<lambda>_. None) pace 1 now ready (w, q1) = (w', q')"
    using assms(1) f by (auto simp: pollOnce_def split: if_splits)
  have pre: "\<forall>m \<in> set ready. map_of (outbox_data q1) (msg_ID m) = Some m \<and> msg_ID m \<noteq> []"
    using rows fr(3) by (force simp: ready(1))
  have dist: "distinct (map msg_ID ready)" using ready by simp
  note all = handle_all_rows [OF h dist pre]
  have im: "msg_ID ` set ready = set ids" using ready(2) by (metis set_map)
  show ?thesis
  proof (intro conjI ballI allI impI)
    fix i assume i: "i \<in> set ids"
    then obtain m where m: "map_of (outbox_data q) i = Some m" "msg_ID m = i"
      "leased_at now ?to (outbox_data q) i = lease now ?to m" using rows by blast
    then have "lease now ?to m \<in> set ready" using i ready(1) by force
    with all obtain w1 where "settled_as (relay_cfg r) now (lease now ?to m) (accepts r unmarshal (lease now ?to m) w1)
        (map_of (outbox_data q') (msg_ID (lease now ?to m)))" by blast
    with m show "\<exists>m w1. map_of (outbox_data q) i = Some m \<and>
        settled_as (relay_cfg r) now (lease now ?to m) (accepts r unmarshal m w1) (map_of (outbox_data q') i)"
      by (auto simp: accepts_lease)
  next
    fix j assume j: "j \<notin> set ids"
    then have "map_of (outbox_data q') j = map_of (outbox_data q1) j" using all im by blast
    also have "\<dots> = map_of (outbox_data q) j" using fr(3) j by simp
    finally show "map_of (outbox_data q') j = map_of (outbox_data q) j" .
  qed
qed

section \<open>Successive polls\<close>

lemma settles_ok: "settles i b q q' \<Longrightarrow> outbox_ok q \<Longrightarrow> outbox_ok q'"
  by (auto simp: settles_def intro: outbox_run_ok)

lemma handle_all_ok:
  "handle_all r unmarshal ctx pace n now ms (w, q) = (w', q') \<Longrightarrow> outbox_ok q \<Longrightarrow> outbox_ok q'"
proof (induction ms arbitrary: n w q)
  case (Cons m ms)
  obtain w1 q1 where h: "handleMessage r unmarshal (ctx n) (pace n) m now (w, q) = (w1, q1)" by fastforce
  have "outbox_ok q1" by (rule settles_ok [OF handleMessage_settles [OF h] Cons.prems(2)])
  with Cons.IH [of "Suc n" w1 q1] Cons.prems(1) h show ?case by simp
qed simp

lemma poll_ok:
  assumes "pollOnce r unmarshal ctx pace now (w, q) = (b, w', q')" "outbox_ok q"
  shows "outbox_ok q'"
proof -
  have k: "outbox_ok (snd (FetchReady (ctx 0) (BatchSize (relay_cfg r)) now q))" by (rule FetchReady_ok [OF assms(2)])
  show ?thesis
    using assms(1) k handle_all_ok by (auto simp: pollOnce_def split: prod.splits sum.splits if_splits)
qed

text \<open>
  C39: the delay doubles with each attempt up to the largest factor, as long as attempts stay below
  64; from attempt 64 on the shift leaves the word, so a relay configured with more attempts retries
  without waiting (at attempt 64 the factor is the least 64-bit integer, and its product with an odd
  base is negative).
\<close>

theorem backoff_delay:
  assumes "1 \<le> attempt" "0 < base" "0 < maxFactor" "maxFactor * base < 2 ^ 63"
  shows "backoffDuration base attempt maxFactor =
    (if attempt \<le> 63 then min maxFactor (2 ^ nat (attempt - 1)) * base
     else if attempt = 64 then int64 (- (2 ^ 63) * base) else 0)"
  using backoff_in_range [OF assms(1) _ assms(2-4)] backoff_wraps [OF _ assms(3)] by simp

text \<open>
  What the outbox stores for an event is read back as the event. With a faithful JSON encoding,
  serialising and deserialising is the identity, up to a missing instant, which is filled in.
\<close>

theorem event_roundtrip:
  assumes "Serialize marshal event = Some (name, payload, at)"
    and "\<And>e p. marshal e = Some p \<Longrightarrow> unmarshal (EventName e) p = Inr e"
  shows "Deserialize unmarshal name payload t = Inr (if IsZero at then with_at t event else event)"
  by (rule Deserialize_Serialize [OF assms])

section \<open>A small relay\<close>

definition demo_relay :: "nat relay" where
  "demo_relay = Relay_Subscribe ''board.changed'' (Some (\<lambda>event w. (if w = 0 then HandlerPanic else HandlerOk, w + 1)))
     (NewRelay \<lparr>WorkerCount = 1, BatchSize = 5, PollInterval = 0, MaxAttempts = 2, BaseBackoff = 10,
        MaxBackoffFactor = 4, ProcessingLease = 0, LeaseRefresh = 0\<rparr>)"

definition demo_unmarshal :: "string \<Rightarrow> string \<Rightarrow> string + domain_event" where
  "demo_unmarshal name payload =
     (if name = ''board.changed'' then Inr (BoardChanged ''created'' 1 5) else Inl ''no'')"

definition demo_queue :: outbox_repo where
  "demo_queue = snd (Outbox_append None 1
     [\<lparr>msg_ID = ''a'', msg_EventName = ''board.changed'', msg_Payload = [], msg_OccurredAt = 5, msg_AttemptCount = 0,
       msg_NextAttemptAt = 5, msg_Status = OutboxStatusPending, msg_LastError = []\<rparr>] (NewOutboxRepository []))"

definition demo_pace :: "nat \<Rightarrow> pacing" where
  "demo_pace n = \<lparr>pace_before = [(None, 6)], pace_after = [(None, 7)]\<rparr>"

lemma demo_queue_ok: "outbox_ok demo_queue"
  by (simp add: demo_queue_def Outbox_append_ok outbox_ok_new)

lemmas relay_eval =
  pollOnce_def FetchReady_def demo_relay_def Relay_Subscribe_def NewRelay_def relay_defaults_def Let_def
  demo_queue_def Outbox_append_def Outbox_append_one_def Outbox_defaults_def NewOutboxRepository_def IsZero_def
  fetch_loop_step due_def lease_row_def leased_at_def lease_def handleMessage_def Deserialize_def
  deserializeEvent_def demo_unmarshal_def event_names_def relay_dispatch_def handlersFor_def callHandler_def
  markFailure_def MarkRetry_def MarkDead_def MarkSucceeded_def renew_lease_def RenewProcessing_def demo_pace_def

lemma demo_first_poll:
  "\<exists>q'. pollOnce demo_relay demo_unmarshal (\<lambda>_. None) demo_pace 8 (0, demo_queue) = (True, 1, q')"
  by (simp add: relay_eval)

lemma demo_second_poll:
  "\<exists>q'. pollOnce demo_relay demo_unmarshal (\<lambda>_. None) demo_pace 8 (1, demo_queue) = (True, 2, q') \<and>
    map_of (outbox_data q') ''a'' = None"
  by (simp add: relay_eval)

theorem backoff_delay_witness: "backoffDuration 100000000 3 64 = 400000000"
  using backoff_delay [of 3 100000000 64] by simp

theorem event_roundtrip_witness:
  "Deserialize (\<lambda>name payload. if name = ''board.changed'' \<and> payload = ''x'' then Inr (BoardChanged ''created'' 1 0)
      else Inl []) ''board.changed'' ''x'' 9 = Inr (BoardChanged ''created'' 1 9)"
proof -
  let ?ev = "BoardChanged ''created'' 1 0"
  have 1: "Serialize (\<lambda>e. if e = ?ev then Some ''x'' else None) ?ev = Some (''board.changed'', ''x'', 0)"
    by (simp add: Serialize_def)
  have "Deserialize (\<lambda>name payload. if name = ''board.changed'' \<and> payload = ''x'' then Inr ?ev else Inl [])
      ''board.changed'' ''x'' 9 = Inr (if IsZero 0 then with_at 9 ?ev else ?ev)"
    by (rule event_roundtrip [OF 1]) (auto split: if_splits)
  then show ?thesis by (simp add: IsZero_def)
qed

end
