(* ===== verification/RelayLive.thy ===== *)
theory RelayLive
  imports Relay "HOL-Library.Sublist"
begin

text \<open>
  One worker of the relay whose context is live, polling again and again while producers append
  messages in between: every message is settled in the end, however long the backlog in front of it
  is. The scan keeps the order of arrival, so each poll at which a message is due handles it or
  some message before it, and \<open>attempts_ahead\<close>, the attempts that are left to the message and
  to those before it, goes down.
\<close>

section \<open>Polls and arrivals\<close>

datatype turn =
    PollAt "nat \<Rightarrow> pacing" time
  | Arrive time "outbox_message list"

fun relay_turns ::
  "'w relay \<Rightarrow> (string \<Rightarrow> string \<Rightarrow> string + domain_event) \<Rightarrow> turn list \<Rightarrow> 'w \<times> outbox_repo \<Rightarrow> 'w \<times> outbox_repo" where
  "relay_turns r unmarshal [] wq = wq"
| "relay_turns r unmarshal (PollAt pace now # turns) wq =
     relay_turns r unmarshal turns (snd (worker_turn r unmarshal False (\<lambda>_. None) pace now wq))"
| "relay_turns r unmarshal (Arrive now ms # turns) wq =
     relay_turns r unmarshal turns (fst wq, snd (Outbox_append None now ms (snd wq)))"

definition settled_row :: "string \<Rightarrow> outbox_repo \<Rightarrow> bool" where
  "settled_row i q \<longleftrightarrow> (case map_of (outbox_data q) i of None \<Rightarrow> True | Some m \<Rightarrow> msg_Status m = OutboxStatusDead)"

text \<open>The number of polls at which message \<open>i\<close> is due, or settled already.\<close>

fun due_polls ::
  "'w relay \<Rightarrow> (string \<Rightarrow> string \<Rightarrow> string + domain_event) \<Rightarrow> string \<Rightarrow> turn list \<Rightarrow> 'w \<times> outbox_repo \<Rightarrow> nat" where
  "due_polls r unmarshal i [] wq = 0"
| "due_polls r unmarshal i (PollAt pace now # turns) wq =
     (if settled_row i (snd wq) \<or> due now (outbox_data (snd wq)) i then 1 else 0) +
     due_polls r unmarshal i turns (snd (worker_turn r unmarshal False (\<lambda>_. None) pace now wq))"
| "due_polls r unmarshal i (Arrive now ms # turns) wq =
     due_polls r unmarshal i turns (fst wq, snd (Outbox_append None now ms (snd wq)))"

text \<open>The attempts left to a message, at least one while it is not dead.\<close>

definition attempts_left :: "relay_config \<Rightarrow> outbox_message option \<Rightarrow> nat" where
  "attempts_left cfg row =
     (case row of
        None \<Rightarrow> 0
      | Some m \<Rightarrow> if msg_Status m = OutboxStatusDead then 0 else nat (max 1 (MaxAttempts cfg - msg_AttemptCount m)))"

text \<open>The attempts left to message \<open>i\<close> and to the messages that are scanned before it.\<close>

definition attempts_ahead :: "relay_config \<Rightarrow> string \<Rightarrow> outbox_repo \<Rightarrow> nat" where
  "attempts_ahead cfg i q =
     sum_list (map (\<lambda>j. attempts_left cfg (map_of (outbox_data q) j)) (takeWhile (\<lambda>j. j \<noteq> i) (outbox_order q) @ [i]))"

section \<open>The order of the scan\<close>

lemma renew_order [simp]: "outbox_order (renew_lease cfg i ticks q) = outbox_order q"
proof -
  have "outbox_order (fold (\<lambda>(ctx_err, t) q. snd (RenewProcessing ctx_err i (t + ProcessingLease cfg) q)) ticks q) =
      outbox_order q"
    by (induction ticks arbitrary: q) (auto simp: RenewProcessing_def split: option.split)
  then show ?thesis by (simp add: renew_lease_def)
qed

lemma markFailure_order:
  "msg_ID m \<in> set (outbox_order q) \<Longrightarrow> subseq (outbox_order (markFailure cfg None m now err q)) (outbox_order q)"
  by (auto simp: markFailure_def MarkDead_def MarkRetry_def Let_def subseq_filter_left split: option.split)

lemma handleMessage_order:
  assumes "handleMessage r unmarshal None pace m now (w, q) = (w', q')" "msg_ID m \<in> set (outbox_order q)"
  shows "subseq (outbox_order q') (outbox_order q)"
proof (cases "Deserialize unmarshal (msg_EventName m) (msg_Payload m) (msg_OccurredAt m)")
  case (Inl err)
  with assms markFailure_order [OF assms(2)] show ?thesis by (auto simp: handleMessage_def)
next
  case (Inr event)
  let ?q1 = "renew_lease (relay_cfg r) (msg_ID m) (pace_before pace) q"
  obtain res w1 where d: "relay_dispatch r event w = (res, w1)" by fastforce
  have q': "outbox_order q' = outbox_order (case res of
      Some err \<Rightarrow> markFailure (relay_cfg r) None m now err ?q1 | None \<Rightarrow> snd (MarkSucceeded None [msg_ID m] ?q1))"
    using assms(1) Inr d by (auto simp: handleMessage_def Let_def)
  show ?thesis
  proof (cases res)
    case None
    then show ?thesis by (simp add: q' MarkSucceeded_def Let_def subseq_filter_left)
  next
    case (Some err)
    with markFailure_order [of m ?q1] assms(2) show ?thesis by (simp add: q')
  qed
qed

lemma handle_all_order:
  assumes "handle_all r unmarshal (\<lambda>_. None) pace n now ms (w, q) = (w', q')" "outbox_ok q"
    and "distinct (map msg_ID ms)"
    and "\<forall>m \<in> set ms. map_of (outbox_data q) (msg_ID m) = Some m \<and> msg_Status m = OutboxStatusProcessing"
  shows "subseq (outbox_order q') (outbox_order q)"
  using assms
proof (induction ms arbitrary: n w q)
  case (Cons m ms)
  obtain w1 q1 where h: "handleMessage r unmarshal None (pace n) m now (w, q) = (w1, q1)" by fastforce
  have m: "map_of (outbox_data q) (msg_ID m) = Some m" "msg_ID m \<noteq> []" "msg_ID m \<in> set (outbox_order q)"
  proof -
    show r: "map_of (outbox_data q) (msg_ID m) = Some m" using Cons.prems(4) by simp
    have "msg_Status m \<noteq> OutboxStatusDead" using Cons.prems(4) by simp
    with r Cons.prems(2) show "msg_ID m \<noteq> []" "msg_ID m \<in> set (outbox_order q)" unfolding outbox_ok_def by blast+
  qed
  have ok: "outbox_ok q1" by (rule settles_ok [OF handleMessage_settles [OF h] Cons.prems(2)])
  have rows: "\<forall>x \<in> set ms. map_of (outbox_data q1) (msg_ID x) = Some x \<and> msg_Status x = OutboxStatusProcessing"
  proof
    fix x assume x: "x \<in> set ms"
    then have "msg_ID x \<noteq> msg_ID m" using Cons.prems(3) by (metis distinct.simps(2) image_eqI list.simps(9) set_map)
    with handleMessage_row(2) [OF h m(1,2), of "msg_ID x"] Cons.prems(4) x
    show "map_of (outbox_data q1) (msg_ID x) = Some x \<and> msg_Status x = OutboxStatusProcessing" by simp
  qed
  have "handle_all r unmarshal (\<lambda>_. None) pace (Suc n) now ms (w1, q1) = (w', q')" using Cons.prems(1) h by simp
  from Cons.IH [OF this ok _ rows] Cons.prems(3) have "subseq (outbox_order q') (outbox_order q1)" by simp
  with handleMessage_order [OF h m(3)] show ?case by (rule subseq_order.trans [rotated])
qed simp

lemma poll_order:
  assumes "pollOnce r unmarshal (\<lambda>_. None) pace now (w, q) = (b, w', q')" "outbox_ok q"
  shows "subseq (outbox_order q') (outbox_order q)"
proof -
  let ?ids = "fetched_ids (BatchSize (relay_cfg r)) now q"
  obtain ready q1 where f: "FetchReady None (BatchSize (relay_cfg r)) now q = (Inr ready, q1)"
    using assms(2) FetchReady_spec by (auto simp: outbox_ok_def)
  note fr = fetch_result [OF assms(2) f]
  have ok: "outbox_ok q1" using FetchReady_ok [OF assms(2), of None "BatchSize (relay_cfg r)" now] f by simp
  have d: "distinct (map msg_ID ready)"
    using fr(2) fetched_distinct [of q] assms(2) by (simp add: outbox_ok_def)
  have "map_of (outbox_data q1) (msg_ID m) = Some m \<and> msg_Status m = OutboxStatusProcessing" if m: "m \<in> set ready" for m
  proof -
    from m fr(1) obtain j where j: "j \<in> set ?ids" "m = leased_at now (outbox_processingTimeout q) (outbox_data q) j" by auto
    then obtain x where x: "map_of (outbox_data q) j = Some x"
      using fetched_due [OF j(1)] by (auto simp: due_def split: option.splits)
    then have "m = lease now (outbox_processingTimeout q) x" "msg_ID x = j"
      using j(2) assms(2) by (auto simp: leased_at_def outbox_ok_def)
    with fr(3) [of j] j(1) x show ?thesis by simp
  qed
  with handle_all_order [OF _ ok d] assms(1) f fr(4) show ?thesis
    by (auto simp: pollOnce_def split: if_splits)
qed

text \<open>What is scanned before a message was scanned before it all along.\<close>

lemma subseq_ahead:
  "subseq ys xs \<Longrightarrow> distinct xs \<Longrightarrow> i \<in> set ys \<Longrightarrow>
    set (takeWhile (\<lambda>j. j \<noteq> i) ys) \<subseteq> set (takeWhile (\<lambda>j. j \<noteq> i) xs)"
  by (induction rule: list_emb.induct) (auto dest: list_emb_set)

section \<open>The measure\<close>

lemma attempts_ahead_set:
  assumes "distinct (outbox_order q)"
  shows "attempts_ahead cfg i q = (\<Sum>j \<in> insert i (set (takeWhile (\<lambda>j. j \<noteq> i) (outbox_order q))).
    attempts_left cfg (map_of (outbox_data q) j))"
proof -
  have "distinct (takeWhile (\<lambda>j. j \<noteq> i) (outbox_order q) @ [i])"
    using distinct_takeWhile [OF assms] set_takeWhileD by fastforce
  from sum_list_distinct_conv_sum_set [OF this] show ?thesis by (simp add: attempts_ahead_def add.commute insert_commute)
qed

lemma attempts_left_settled:
  assumes "settled_as cfg now (lease now to m) ok row" "msg_Status m \<noteq> OutboxStatusDead"
  shows "attempts_left cfg row < attempts_left cfg (Some m)"
  using assms by (auto simp: settled_as_def attempts_left_def split: if_splits)

lemma attempts_left_pos: "\<not> settled_row i q \<Longrightarrow> 0 < attempts_ahead cfg i q"
  by (auto simp: settled_row_def attempts_ahead_def attempts_left_def split: option.splits)

text \<open>When a message is due, the first message a poll fetches is that message or one before it.\<close>

lemma first_due:
  "i \<in> set xs \<Longrightarrow> P i \<Longrightarrow> \<exists>j ys. filter P xs = j # ys \<and> (j = i \<or> j \<in> set (takeWhile (\<lambda>j. j \<noteq> i) xs))"
  by (induction xs) auto

lemma first_fetched:
  assumes "i \<in> set (outbox_order q)" "due now (outbox_data q) i" "0 < limit"
  shows "\<exists>j. j \<in> set (fetched_ids limit now q) \<and> (j = i \<or> j \<in> set (takeWhile (\<lambda>j. j \<noteq> i) (outbox_order q)))"
proof -
  from first_due [OF assms(1), of "due now (outbox_data q)", OF assms(2)] obtain j ys where
    j: "filter (due now (outbox_data q)) (outbox_order q) = j # ys"
      "j = i \<or> j \<in> set (takeWhile (\<lambda>j. j \<noteq> i) (outbox_order q))" by blast
  have "j \<in> set (fetched_ids limit now q)"
    using assms(3) by (cases "nat limit") (simp_all add: fetched_ids_def take_int_def j(1))
  with j(2) show ?thesis by blast
qed

text \<open>A poll takes no attempt back, and one at which message \<open>i\<close> is due uses one up.\<close>

lemma poll_attempts:
  assumes "pollOnce r unmarshal (\<lambda>_. None) pace now (w, q) = (b, w', q')" "outbox_ok q"
    and "\<not> settled_row i q'" "\<not> settled_row i q"
  shows "attempts_ahead (relay_cfg r) i q' \<le> attempts_ahead (relay_cfg r) i q"
    "due now (outbox_data q) i \<Longrightarrow> 0 < BatchSize (relay_cfg r) \<Longrightarrow>
      attempts_ahead (relay_cfg r) i q' < attempts_ahead (relay_cfg r) i q"
proof -
  let ?cfg = "relay_cfg r" and ?left = "\<lambda>q j. attempts_left (relay_cfg r) (map_of (outbox_data q) j)"
  let ?S = "\<lambda>q. insert i (set (takeWhile (\<lambda>j. j \<noteq> i) (outbox_order q)))"
  let ?ids = "fetched_ids (BatchSize ?cfg) now q"
  have ok: "outbox_ok q'" by (rule poll_ok [OF assms(1,2)])
  have d: "distinct (outbox_order q)" "distinct (outbox_order q')" using assms(2) ok by (simp_all add: outbox_ok_def)
  have i: "i \<in> set (outbox_order q')" "i \<in> set (outbox_order q)"
    using assms(2-4) ok by (auto simp: settled_row_def outbox_ok_def split: option.splits)
  have sub: "?S q' \<subseteq> ?S q" using subseq_ahead [OF poll_order [OF assms(1,2)] d(1) i(1)] by blast
  have drop: "?left q' j < ?left q j" if j: "j \<in> set ?ids" for j
  proof -
    from pollOnce_rows [OF assms(1,2)] j obtain m w1 where m: "map_of (outbox_data q) j = Some m"
      "settled_as ?cfg now (lease now (outbox_processingTimeout q) m) (accepts r unmarshal m w1) (map_of (outbox_data q') j)"
      by blast
    have "msg_Status m \<noteq> OutboxStatusDead" using fetched_due [OF j] m(1) by (auto simp: due_def)
    from attempts_left_settled [OF m(2) this] m(1) show ?thesis by simp
  qed
  have le: "?left q' j \<le> ?left q j" for j
    using drop [of j] pollOnce_rows [OF assms(1,2)] by (cases "j \<in> set ?ids") auto
  have s1: "(\<Sum>j \<in> ?S q'. ?left q' j) \<le> (\<Sum>j \<in> ?S q. ?left q' j)" by (rule sum_mono2 [OF _ sub]) simp_all
  have s2: "(\<Sum>j \<in> ?S q. ?left q' j) \<le> (\<Sum>j \<in> ?S q. ?left q j)" by (rule sum_mono) (rule le)
  show "attempts_ahead ?cfg i q' \<le> attempts_ahead ?cfg i q"
    using s1 s2 by (simp only: attempts_ahead_set [OF d(1)] attempts_ahead_set [OF d(2)])
  assume due: "due now (outbox_data q) i" "0 < BatchSize ?cfg"
  have "\<exists>j \<in> ?S q. j \<in> set ?ids" using first_fetched [OF i(2) due] by blast
  then have "(\<Sum>j \<in> ?S q. ?left q' j) < (\<Sum>j \<in> ?S q. ?left q j)"
    using drop le by (intro sum_strict_mono_ex1) auto
  with s1 show "attempts_ahead ?cfg i q' < attempts_ahead ?cfg i q"
    by (simp only: attempts_ahead_set [OF d(1)] attempts_ahead_set [OF d(2)])
qed

section \<open>Turns\<close>

lemma turn_split:
  obtains b w1 q1 where "pollOnce r unmarshal (\<lambda>_. None) pace now (w, q) = (b, w1, q1)"
    "snd (worker_turn r unmarshal False (\<lambda>_. None) pace now (w, q)) = (w1, q1)"
proof -
  obtain b w1 q1 where p: "pollOnce r unmarshal (\<lambda>_. None) pace now (w, q) = (b, w1, q1)" by (metis prod_cases3)
  show ?thesis by (rule that [OF p]) (simp add: worker_turn_def p)
qed

lemma append_one_effect:
  "(i \<noteq> msg_ID x \<longrightarrow> map_of (outbox_data (Outbox_append_one now x q)) i = map_of (outbox_data q) i) \<and>
   (\<exists>new. outbox_order (Outbox_append_one now x q) = outbox_order q @ new)"
  by (auto simp: Outbox_append_one_def Outbox_defaults_def Let_def)

lemma append_run:
  fixes now :: time and ms :: "outbox_message list"
  assumes "outbox_ok q"
  defines "q1 \<equiv> snd (Outbox_append None now ms q)"
  shows "outbox_ok q1" "map_of (outbox_data q) i = Some m \<Longrightarrow> map_of (outbox_data q1) i = Some m"
    "i \<notin> msg_ID ` set ms \<Longrightarrow> map_of (outbox_data q1) i = map_of (outbox_data q) i"
    "\<exists>new. outbox_order q1 = outbox_order q @ new"
proof -
  have q1: "Outbox_append None now ms q = (None, q1)" by (simp add: q1_def Outbox_append_def)
  show "outbox_ok q1" unfolding q1_def by (rule Outbox_append_ok [OF assms(1)])
  show "map_of (outbox_data q) i = Some m \<Longrightarrow> map_of (outbox_data q1) i = Some m" by (rule append_keeps [OF _ q1])
  have "(i \<notin> msg_ID ` set ms \<longrightarrow>
      map_of (outbox_data (fold (Outbox_append_one now) ms q)) i = map_of (outbox_data q) i) \<and>
    (\<exists>new. outbox_order (fold (Outbox_append_one now) ms q) = outbox_order q @ new)"
  proof (induction ms arbitrary: q)
    case (Cons x ms)
    from Cons [of "Outbox_append_one now x q"] append_one_effect [of i x now q] show ?case by auto
  qed simp
  then show "i \<notin> msg_ID ` set ms \<Longrightarrow> map_of (outbox_data q1) i = map_of (outbox_data q) i"
    "\<exists>new. outbox_order q1 = outbox_order q @ new"
    by (simp_all add: q1_def Outbox_append_def)
qed

lemma append_attempts:
  assumes "outbox_ok q" "\<not> settled_row i q"
  shows "attempts_ahead cfg i (snd (Outbox_append None now ms q)) = attempts_ahead cfg i q"
proof -
  let ?q1 = "snd (Outbox_append None now ms q)"
  from assms(2) obtain m where "map_of (outbox_data q) i = Some m" "msg_Status m \<noteq> OutboxStatusDead"
    by (auto simp: settled_row_def split: option.splits)
  then have i: "i \<in> set (outbox_order q)" using assms(1) unfolding outbox_ok_def by blast
  from append_run(4) [OF assms(1)] obtain new where "outbox_order ?q1 = outbox_order q @ new" by blast
  then have t: "takeWhile (\<lambda>j. j \<noteq> i) (outbox_order ?q1) = takeWhile (\<lambda>j. j \<noteq> i) (outbox_order q)"
    using i by (simp add: takeWhile_append1 [of i])
  have kept: "map_of (outbox_data ?q1) j = map_of (outbox_data q) j"
    if "j \<in> set (takeWhile (\<lambda>j. j \<noteq> i) (outbox_order q) @ [i])" for j
  proof -
    have "j \<in> set (outbox_order q)" using that i by (auto dest: set_takeWhileD)
    then have "map_of (outbox_data q) j \<noteq> None" using assms(1) unfolding outbox_ok_def by blast
    then obtain x where x: "map_of (outbox_data q) j = Some x" by blast
    with append_run(2) [OF assms(1) x] show ?thesis by simp
  qed
  show ?thesis unfolding attempts_ahead_def t by (intro arg_cong [of _ _ sum_list] map_cong refl) (simp only: kept)
qed

text \<open>A settled message stays as it is, as long as no other message gets its identifier.\<close>

lemma settled_fixed:
  assumes "relay_turns r unmarshal turns (w, q) = (w', q')" "outbox_ok q" "settled_row i q"
    and "\<forall>now ms. Arrive now ms \<in> set turns \<longrightarrow> i \<notin> msg_ID ` set ms"
  shows "map_of (outbox_data q') i = map_of (outbox_data q) i"
  using assms
proof (induction turns arbitrary: w q)
  case (Cons x turns)
  show ?case
  proof (cases x)
    case (PollAt pace now)
    obtain b w1 q1 where p: "pollOnce r unmarshal (\<lambda>_. None) pace now (w, q) = (b, w1, q1)"
      and t: "snd (worker_turn r unmarshal False (\<lambda>_. None) pace now (w, q)) = (w1, q1)" by (rule turn_split)
    have "i \<notin> set (fetched_ids (BatchSize (relay_cfg r)) now q)"
      using fetched_due [of i _ now q] Cons.prems(3) by (auto simp: due_def settled_row_def split: option.splits)
    then have same: "map_of (outbox_data q1) i = map_of (outbox_data q) i"
      using pollOnce_rows [OF p Cons.prems(2)] by blast
    with Cons.IH [of w1 q1] Cons.prems poll_ok [OF p Cons.prems(2)] show ?thesis
      by (simp add: PollAt t settled_row_def)
  next
    case (Arrive now ms)
    with append_run(1) [OF Cons.prems(2), of now ms] append_run(3) [OF Cons.prems(2), of i ms now] Cons.IH Cons.prems show ?thesis
      by (simp add: settled_row_def)
  qed
qed simp

section \<open>Every message is settled in the end\<close>

definition used_up :: "relay_config \<Rightarrow> outbox_message option \<Rightarrow> bool" where
  "used_up cfg row \<longleftrightarrow> (\<exists>m. row = Some m \<and> msg_Status m = OutboxStatusDead \<and> MaxAttempts cfg \<le> msg_AttemptCount m)"

text \<open>How a message may end, by what its handlers answer: \<open>row\<close> is its row then.\<close>

definition ended_as ::
  "'w relay \<Rightarrow> (string \<Rightarrow> string \<Rightarrow> string + domain_event) \<Rightarrow> outbox_message \<Rightarrow> outbox_message option \<Rightarrow> bool" where
  "ended_as r unmarshal m row \<longleftrightarrow> (row = None \<or> used_up (relay_cfg r) row) \<and>
     ((\<forall>w. accepts r unmarshal m w) \<longrightarrow> row = None) \<and>
     ((\<forall>w. \<not> accepts r unmarshal m w) \<longrightarrow> used_up (relay_cfg r) row)"

lemma settled_ended:
  assumes "settled_as (relay_cfg r) now (lease now to m) (accepts r unmarshal m w1) row" "msg_Status m \<noteq> OutboxStatusDead"
  shows "ended_as r unmarshal m row \<or>
    (\<exists>m1. row = Some m1 \<and> msg_Status m1 = OutboxStatusPending \<and> accepts r unmarshal m1 = accepts r unmarshal m)"
  using assms
  by (auto simp: settled_as_def ended_as_def used_up_def lease_def accepts_def delivered_def fun_eq_iff split: if_splits)

lemma poll_row:
  assumes "pollOnce r unmarshal (\<lambda>_. None) pace now (w, q) = (b, w1, q1)" "outbox_ok q"
    and "map_of (outbox_data q) i = Some m" "msg_Status m \<noteq> OutboxStatusDead"
  shows "ended_as r unmarshal m (map_of (outbox_data q1) i) \<or>
    (\<exists>m1. map_of (outbox_data q1) i = Some m1 \<and> msg_Status m1 \<noteq> OutboxStatusDead \<and>
       accepts r unmarshal m1 = accepts r unmarshal m)"
proof (cases "i \<in> set (fetched_ids (BatchSize (relay_cfg r)) now q)")
  case True
  then obtain w2 where "settled_as (relay_cfg r) now (lease now (outbox_processingTimeout q) m) (accepts r unmarshal m w2)
      (map_of (outbox_data q1) i)"
    using pollOnce_rows [OF assms(1,2)] assms(3) by fastforce
  from settled_ended [OF this assms(4)] show ?thesis by auto
next
  case False
  with pollOnce_rows [OF assms(1,2)] assms(3,4) show ?thesis by simp
qed

text \<open>
  C5: every message is settled in the end. Take one worker that polls while producers append
  messages, with a context that stays live. Once it has polled as many times with the message due as
  there are attempts left to it and to the messages before it, the message has been delivered, or
  it is dead with all its attempts used up. It is delivered when its handlers accept it whenever they are
  called, and dead when they never do or its event cannot be read. No room for the whole backlog
  is needed: what is in front of the message uses up its own attempts.
\<close>

theorem relay_settles:
  assumes "relay_turns r unmarshal turns (w, q) = (w', q')" "outbox_ok q" "0 < BatchSize (relay_cfg r)"
    and "map_of (outbox_data q) i = Some m" "msg_Status m \<noteq> OutboxStatusDead"
    and "\<forall>now ms. Arrive now ms \<in> set turns \<longrightarrow> i \<notin> msg_ID ` set ms"
    and "attempts_ahead (relay_cfg r) i q \<le> due_polls r unmarshal i turns (w, q)"
  shows "(map_of (outbox_data q') i = None \<or> used_up (relay_cfg r) (map_of (outbox_data q') i)) \<and>
    ((\<forall>w. accepts r unmarshal m w) \<longrightarrow> map_of (outbox_data q') i = None) \<and>
    ((\<forall>w. \<not> accepts r unmarshal m w) \<longrightarrow> used_up (relay_cfg r) (map_of (outbox_data q') i))"
proof -
  have "ended_as r unmarshal m (map_of (outbox_data q') i)"
    using assms
  proof (induction turns arbitrary: w q m)
    case Nil
    with attempts_left_pos [of i q "relay_cfg r"] show ?case by (simp add: settled_row_def)
  next
    case (Cons x turns)
    have live: "\<not> settled_row i q" using Cons.prems(4,5) by (simp add: settled_row_def)
    have rest: "\<forall>now ms. Arrive now ms \<in> set turns \<longrightarrow> i \<notin> msg_ID ` set ms" using Cons.prems(6) by simp
    show ?case
    proof (cases x)
      case (Arrive now ms)
      note a = append_run [OF Cons.prems(2), where now = now and ms = ms] and n = append_attempts [OF Cons.prems(2) live]
      show ?thesis
        by (rule Cons.IH [OF _ a(1) Cons.prems(3) a(2) [OF Cons.prems(4)] Cons.prems(5) rest])
          (use Cons.prems(1,7) in \<open>simp_all add: Arrive n\<close>)
    next
      case (PollAt pace now)
      obtain b w1 q1 where p: "pollOnce r unmarshal (\<lambda>_. None) pace now (w, q) = (b, w1, q1)"
        and t: "snd (worker_turn r unmarshal False (\<lambda>_. None) pace now (w, q)) = (w1, q1)" by (rule turn_split)
      have ok1: "outbox_ok q1" by (rule poll_ok [OF p Cons.prems(2)])
      have run: "relay_turns r unmarshal turns (w1, q1) = (w', q')" using Cons.prems(1) by (simp add: PollAt t)
      consider "ended_as r unmarshal m (map_of (outbox_data q1) i)"
        | m1 where "map_of (outbox_data q1) i = Some m1" "msg_Status m1 \<noteq> OutboxStatusDead"
          "accepts r unmarshal m1 = accepts r unmarshal m"
        using poll_row [OF p Cons.prems(2,4,5)] by blast
      then show ?thesis
      proof cases
        case 1
        then have "settled_row i q1" by (auto simp: ended_as_def used_up_def settled_row_def)
        from settled_fixed [OF run ok1 this rest] 1 show ?thesis by simp
      next
        case 2
        then have "\<not> settled_row i q1" by (simp add: settled_row_def)
        note less = poll_attempts [OF p Cons.prems(2) this live]
        have "ended_as r unmarshal m1 (map_of (outbox_data q') i)"
          by (rule Cons.IH [OF run ok1 Cons.prems(3) 2(1,2) rest])
            (use Cons.prems(3,7) less live in \<open>auto simp: PollAt t split: if_splits\<close>)
        with 2(3) show ?thesis by (simp add: ended_as_def)
      qed
    qed
  qed
  then show ?thesis by (simp add: ended_as_def)
qed

section \<open>The property at a concrete input\<close>

text \<open>
  Two messages, fetched one at a time, and a handler that panics when it is first called. The second
  message is due at every poll and waits for the first; a third arrives in between.
\<close>

definition demo_single :: "nat relay" where
  "demo_single = demo_relay\<lparr>relay_cfg := relay_cfg demo_relay\<lparr>BatchSize := 1\<rparr>\<rparr>"

definition demo_event_message :: "string \<Rightarrow> outbox_message" where
  "demo_event_message i =
     \<lparr>msg_ID = i, msg_EventName = ''board.changed'', msg_Payload = [], msg_OccurredAt = 5, msg_AttemptCount = 0,
      msg_NextAttemptAt = 5, msg_Status = OutboxStatusPending, msg_LastError = []\<rparr>"

definition demo_backlog :: outbox_repo where
  "demo_backlog = snd (Outbox_append None 1 [demo_event_message ''a'', demo_event_message ''b''] (NewOutboxRepository []))"

definition demo_turns :: "turn list" where
  "demo_turns = [PollAt demo_pace 8, Arrive 9 [demo_event_message ''c''], PollAt demo_pace 30, PollAt demo_pace 40,
     PollAt demo_pace 50]"

lemma demo_backlog_row: "map_of (outbox_data demo_backlog) ''b'' = Some (demo_event_message ''b'')"
  by (simp add: demo_backlog_def demo_event_message_def Outbox_append_def Outbox_append_one_def Outbox_defaults_def
      NewOutboxRepository_def IsZero_def Let_def)

lemma demo_attempts: "attempts_ahead (relay_cfg demo_single) ''b'' demo_backlog = 4"
  by (simp add: attempts_ahead_def attempts_left_def demo_single_def demo_relay_def Relay_Subscribe_def NewRelay_def
      relay_defaults_def demo_backlog_def demo_event_message_def Outbox_append_def Outbox_append_one_def
      Outbox_defaults_def NewOutboxRepository_def IsZero_def Let_def)

lemma demo_due: "due_polls demo_single demo_unmarshal ''b'' demo_turns (0, demo_backlog) = 4"
proof -
  have b: "backoffDuration 10 1 4 = 10" using backoff_in_range [of 1 10 4] by simp
  show ?thesis
    by (simp add: demo_turns_def worker_turn_def demo_single_def demo_backlog_def demo_event_message_def settled_row_def
        relay_eval b)
qed

theorem relay_settles_witness:
  "map_of (outbox_data (snd (relay_turns demo_single demo_unmarshal demo_turns (0, demo_backlog)))) ''b'' = None \<or>
   used_up (relay_cfg demo_single)
     (map_of (outbox_data (snd (relay_turns demo_single demo_unmarshal demo_turns (0, demo_backlog)))) ''b'')"
proof -
  have ok: "outbox_ok demo_backlog" by (simp add: demo_backlog_def Outbox_append_ok outbox_ok_new)
  have cfg: "0 < BatchSize (relay_cfg demo_single)" by (simp add: demo_single_def)
  have alive: "msg_Status (demo_event_message ''b'') \<noteq> OutboxStatusDead" by (simp add: demo_event_message_def)
  have new: "\<forall>now ms. Arrive now ms \<in> set demo_turns \<longrightarrow> ''b'' \<notin> msg_ID ` set ms"
    by (simp add: demo_turns_def demo_event_message_def)
  show ?thesis
    by (rule conjunct1 [OF relay_settles [OF prod.collapse [symmetric] ok cfg demo_backlog_row alive new]])
      (simp add: demo_attempts demo_due)
qed

end
