(* ===== verification/RelayRuns.thy ===== *)
theory RelayRuns
  imports Relay
begin

text \<open>
  Several workers of the relay on one outbox, step by step. A step of a worker is one call: fetching a
  batch, reading the event of the next message, calling one handler, marking the message. Between any
  two of them other workers go on, leases are renewed, producers append messages and the rest of
  the program changes the world. The trace of a run records what each worker did and what each
  handler answered; a worker alone that polls from beginning to end is one of the runs.
\<close>

section \<open>Workers\<close>

datatype 'w worker =
    Polling
  | Handling time "outbox_message list"
  | Dispatching time outbox_message domain_event "'w handler list" "outbox_message list"
  | Failing time outbox_message string "outbox_message list"

record 'w relay_net =
  net_world :: 'w
  net_outbox :: outbox_repo
  net_workers :: "nat \<Rightarrow> 'w worker"

datatype 'w relay_act =
    Fetched nat time "outbox_message list"
  | ReadEvent nat outbox_message domain_event
  | Unreadable nat outbox_message
  | Answered nat domain_event "'w handler" handled
  | Succeeded nat outbox_message
  | Failed nat outbox_message
  | BatchDone nat
  | GaveUp nat
  | Renewed string time
  | Produced time "outbox_message list"
  | Elsewhere

abbreviation now_doing :: "nat \<Rightarrow> 'w worker \<Rightarrow> 'w relay_net \<Rightarrow> 'w relay_net" where
  "now_doing k p s \<equiv> s\<lparr>net_workers := (net_workers s)(k := p)\<rparr>"

section \<open>Steps\<close>

text \<open>
  \<open>GaveUp\<close> is the recovery of a worker from a panic outside the handlers. The context may answer any call
  to the store with an error, which then changes nothing.
\<close>

inductive relay_step ::
  "'w relay \<Rightarrow> (string \<Rightarrow> string \<Rightarrow> string + domain_event) \<Rightarrow> 'w relay_net \<Rightarrow> 'w relay_act \<Rightarrow> 'w relay_net \<Rightarrow> bool"
  for r unmarshal where
  step_fetch: "net_workers s k = Polling \<Longrightarrow>
    FetchReady None (BatchSize (relay_cfg r)) now (net_outbox s) = (Inr messages, q) \<Longrightarrow>
    relay_step r unmarshal s (Fetched k now messages) (now_doing k (Handling now messages) (s\<lparr>net_outbox := q\<rparr>))"
| step_done: "net_workers s k = Handling now [] \<Longrightarrow> relay_step r unmarshal s (BatchDone k) (now_doing k Polling s)"
| step_read: "net_workers s k = Handling now (m # ms) \<Longrightarrow>
    Deserialize unmarshal (msg_EventName m) (msg_Payload m) (msg_OccurredAt m) = Inr event \<Longrightarrow>
    relay_step r unmarshal s (ReadEvent k m event)
      (now_doing k (Dispatching now m event (handlersFor (EventName event) r) ms) s)"
| step_unreadable: "net_workers s k = Handling now (m # ms) \<Longrightarrow>
    Deserialize unmarshal (msg_EventName m) (msg_Payload m) (msg_OccurredAt m) = Inl err \<Longrightarrow>
    relay_step r unmarshal s (Unreadable k m) (now_doing k (Failing now m err ms) s)"
| step_call: "net_workers s k = Dispatching now m event (h # hs) ms \<Longrightarrow> callHandler h event (net_world s) = (res, w) \<Longrightarrow>
    relay_step r unmarshal s (Answered k event h (fst (h event (net_world s))))
      (now_doing k (case res of None \<Rightarrow> Dispatching now m event hs ms | Some err \<Rightarrow> Failing now m err ms)
        (s\<lparr>net_world := w\<rparr>))"
| step_succeeded: "net_workers s k = Dispatching now m event [] ms \<Longrightarrow>
    relay_step r unmarshal s (Succeeded k m)
      (now_doing k (Handling now ms) (s\<lparr>net_outbox := snd (MarkSucceeded ctx_err [msg_ID m] (net_outbox s))\<rparr>))"
| step_failed: "net_workers s k = Failing now m err ms \<Longrightarrow>
    relay_step r unmarshal s (Failed k m)
      (now_doing k (Handling now ms) (s\<lparr>net_outbox := markFailure (relay_cfg r) ctx_err m now err (net_outbox s)\<rparr>))"
| step_recover: "relay_step r unmarshal s (GaveUp k) (now_doing k Polling s)"
| step_renew: "relay_step r unmarshal s (Renewed i at)
    (s\<lparr>net_outbox := snd (RenewProcessing ctx_err i (at + ProcessingLease (relay_cfg r)) (net_outbox s))\<rparr>)"
| step_produce: "relay_step r unmarshal s (Produced at ms)
    (s\<lparr>net_outbox := snd (Outbox_append ctx_err at ms (net_outbox s))\<rparr>)"
| step_elsewhere: "relay_step r unmarshal s Elsewhere (s\<lparr>net_world := w\<rparr>)"

inductive relay_run ::
  "'w relay \<Rightarrow> (string \<Rightarrow> string \<Rightarrow> string + domain_event) \<Rightarrow> 'w relay_net \<Rightarrow> 'w relay_act list \<Rightarrow> 'w relay_net \<Rightarrow> bool"
  for r unmarshal where
  run_none: "relay_run r unmarshal s [] s"
| run_more: "relay_run r unmarshal s trace s1 \<Longrightarrow> relay_step r unmarshal s1 act s2 \<Longrightarrow>
    relay_run r unmarshal s (trace @ [act]) s2"

lemma relay_run_append:
  assumes "relay_run r unmarshal s xs s1" "relay_run r unmarshal s1 ys s2"
  shows "relay_run r unmarshal s (xs @ ys) s2"
  using assms(2,1) by (induction rule: relay_run.induct) (auto simp: append_assoc [symmetric] simp del: append_assoc
    intro: run_more)


text \<open>Identifiers are not used twice: no message gets one that was stored or produced before.\<close>

fun produced_ids :: "'w relay_act \<Rightarrow> string set" where
  "produced_ids (Produced at ms) = msg_ID ` set ms"
| "produced_ids _ = {}"




section \<open>What a step does to the stored messages\<close>








inductive_cases relay_stepE: "relay_step r unmarshal s act s'"



section \<open>The invariant of a run\<close>












section \<open>What leaves the outbox was delivered\<close>



section \<open>A poll is a run\<close>

text \<open>Runs in which nothing is produced.\<close>

definition quiet_run ::
  "'w relay \<Rightarrow> (string \<Rightarrow> string \<Rightarrow> string + domain_event) \<Rightarrow> 'w relay_net \<Rightarrow> 'w relay_net \<Rightarrow> bool" where
  "quiet_run r unmarshal s s' \<longleftrightarrow> (\<exists>trace. relay_run r unmarshal s trace s' \<and> (\<forall>a \<in> set trace. produced_ids a = {}))"



lemma quiet_trans [trans]: "quiet_run r unmarshal s s1 \<Longrightarrow> quiet_run r unmarshal s1 s2 \<Longrightarrow> quiet_run r unmarshal s s2"
  unfolding quiet_run_def by (metis Un_iff relay_run_append set_append)

definition at_work :: "nat \<Rightarrow> 'w relay_net \<Rightarrow> 'w worker \<Rightarrow> 'w \<Rightarrow> outbox_repo \<Rightarrow> 'w relay_net" where
  "at_work k s p w q = s\<lparr>net_workers := (net_workers s)(k := p), net_world := w, net_outbox := q\<rparr>"

lemma at_work_simps [simp]:
  "net_workers (at_work k s p w q) k = p" "net_world (at_work k s p w q) = w" "net_outbox (at_work k s p w q) = q"
  "now_doing k p' (at_work k s p w q) = at_work k s p' w q"
  "(at_work k s p w q)\<lparr>net_outbox := q'\<rparr> = at_work k s p w q'"
  "(at_work k s p w q)\<lparr>net_world := w'\<rparr> = at_work k s p w' q"
  by (simp_all add: at_work_def)







end
