(* ===== verification/RateLimit.thy ===== *)
theory RateLimit
  imports GoStrings
begin

text \<open>
  \<open>infrastructure/ratelimit/inmemory\<close>: a limiter with a fixed window per key. The mutex makes
  each call one step; a call reads the clock once. Expired buckets are cleaned up from time to
  time, which does not change any answer.

  What the limiter guarantees: in any stretch of time as long as the window at most twice the limit
  of calls is let through, and a call is refused only after the limit of calls within a window.
\<close>

section \<open>The limiter\<close>

record rate_bucket =
  bucket_count :: int
  bucket_resetAt :: time

record rate_limiter =
  lim_buckets :: "(string \<times> rate_bucket) list"
  lim_cleanupInterval :: duration
  lim_lastCleanup :: time

definition NewInMemoryRateLimiter :: rate_limiter where
  "NewInMemoryRateLimiter =
     \<lparr>lim_buckets = [], lim_cleanupInterval = 60000000000, lim_lastCleanup = 0\<rparr>"

definition shouldCleanup :: "time \<Rightarrow> rate_limiter \<Rightarrow> bool" where
  "shouldCleanup now l \<longleftrightarrow>
     (if lim_cleanupInterval l \<le> 0 then True
      else if IsZero (lim_lastCleanup l) then True
      else lim_cleanupInterval l \<le> now - lim_lastCleanup l)"

definition cleanupExpiredBuckets :: "time \<Rightarrow> rate_limiter \<Rightarrow> rate_limiter" where
  "cleanupExpiredBuckets now l =
     l\<lparr>lim_buckets := filter (\<lambda>(key, bucket). now < bucket_resetAt bucket) (lim_buckets l)\<rparr>"

definition Allow :: "time \<Rightarrow> string \<Rightarrow> int \<Rightarrow> duration \<Rightarrow> rate_limiter \<Rightarrow> bool \<times> rate_limiter" where
  "Allow now key limit window l =
     (if key = [] \<or> limit \<le> 0 \<or> window \<le> 0 then (True, l)
      else let l1 = (if shouldCleanup now l then (cleanupExpiredBuckets now l)\<lparr>lim_lastCleanup := now\<rparr> else l);
               fresh = l1\<lparr>lim_buckets := put_row key \<lparr>bucket_count = 1, bucket_resetAt = now + window\<rparr> (lim_buckets l1)\<rparr>
           in case map_of (lim_buckets l1) key of
                None \<Rightarrow> (True, fresh)
              | Some bucket \<Rightarrow>
                  if \<not> now < bucket_resetAt bucket then (True, fresh)
                  else if limit \<le> bucket_count bucket then (False, l1)
                  else (True, l1\<lparr>lim_buckets :=
                          put_row key (bucket\<lparr>bucket_count := bucket_count bucket + 1\<rparr>) (lim_buckets l1)\<rparr>))"

section \<open>The bucket of a key\<close>

definition limiter_ok :: "rate_limiter \<Rightarrow> bool" where
  "limiter_ok l \<longleftrightarrow> distinct (map fst (lim_buckets l))"

definition bucket_of :: "rate_limiter \<Rightarrow> string \<Rightarrow> rate_bucket option" where
  "bucket_of l key = map_of (lim_buckets l) key"

lemma map_of_filter_val:
  "distinct (map fst m) \<Longrightarrow> map_of (filter (\<lambda>(k, v). P v) m) k =
    (case map_of m k of None \<Rightarrow> None | Some v \<Rightarrow> if P v then Some v else None)"
  by (induction m) (auto split: option.splits if_splits simp: map_of_eq_None_iff rev_image_eqI)

text \<open>A live bucket of a key, whether or not an expired one is still stored.\<close>

definition live_bucket :: "time \<Rightarrow> rate_limiter \<Rightarrow> string \<Rightarrow> rate_bucket option" where
  "live_bucket now l key =
     (case bucket_of l key of None \<Rightarrow> None | Some b \<Rightarrow> if now < bucket_resetAt b then Some b else None)"

lemma Allow_step:
  assumes "limiter_ok l" "key \<noteq> []" "0 < limit" "0 < window" "Allow now key limit window l = (ok, l')"
  shows "limiter_ok l'"
    "ok \<longleftrightarrow> (case live_bucket now l key of None \<Rightarrow> True | Some b \<Rightarrow> bucket_count b < limit)"
    "ok \<Longrightarrow> bucket_of l' key = (case live_bucket now l key of
        None \<Rightarrow> Some \<lparr>bucket_count = 1, bucket_resetAt = now + window\<rparr>
      | Some b \<Rightarrow> Some (b\<lparr>bucket_count := bucket_count b + 1\<rparr>))"
    "\<not> ok \<Longrightarrow> bucket_of l' key = live_bucket now l key"
    "other \<noteq> key \<Longrightarrow> bucket_of l' other = bucket_of l other \<or> bucket_of l' other = live_bucket now l other"
proof -
  let ?l1 = "if shouldCleanup now l then (cleanupExpiredBuckets now l)\<lparr>lim_lastCleanup := now\<rparr> else l"
  have d: "distinct (map fst (lim_buckets ?l1))"
    using assms(1) by (auto simp: limiter_ok_def cleanupExpiredBuckets_def distinct_map_filter)
  have m: "map_of (lim_buckets ?l1) k = bucket_of l k \<or> map_of (lim_buckets ?l1) k = live_bucket now l k" for k
    using map_of_filter_val [of "lim_buckets l" "\<lambda>b. now < bucket_resetAt b" k] assms(1)
    by (auto simp: cleanupExpiredBuckets_def bucket_of_def live_bucket_def limiter_ok_def)
  have lb: "live_bucket now l key = (case map_of (lim_buckets ?l1) key of None \<Rightarrow> None
      | Some b \<Rightarrow> if now < bucket_resetAt b then Some b else None)"
    using m [of key] by (auto simp: live_bucket_def split: option.splits if_splits)
  have a: "Allow now key limit window l =
      (case live_bucket now l key of
         None \<Rightarrow> (True, ?l1\<lparr>lim_buckets := put_row key \<lparr>bucket_count = 1, bucket_resetAt = now + window\<rparr> (lim_buckets ?l1)\<rparr>)
       | Some b \<Rightarrow> if limit \<le> bucket_count b then (False, ?l1)
                   else (True, ?l1\<lparr>lim_buckets := put_row key (b\<lparr>bucket_count := bucket_count b + 1\<rparr>) (lim_buckets ?l1)\<rparr>))"
    using assms(2-4) unfolding lb Allow_def Let_def by (auto split: option.split)
  have k: "\<not> ok \<Longrightarrow> map_of (lim_buckets ?l1) key = live_bucket now l key"
    using assms(5) unfolding a by (auto simp: lb split: option.splits if_splits)
  show "limiter_ok l'" using assms(5) d unfolding a
    by (auto simp: limiter_ok_def distinct_put_row split: option.splits if_splits)
  show "ok \<longleftrightarrow> (case live_bucket now l key of None \<Rightarrow> True | Some b \<Rightarrow> bucket_count b < limit)"
    using assms(5) unfolding a by (auto split: option.splits if_splits)
  show "ok \<Longrightarrow> bucket_of l' key = (case live_bucket now l key of
        None \<Rightarrow> Some \<lparr>bucket_count = 1, bucket_resetAt = now + window\<rparr>
      | Some b \<Rightarrow> Some (b\<lparr>bucket_count := bucket_count b + 1\<rparr>))"
    using assms(5) unfolding a by (auto simp: bucket_of_def split: option.splits if_splits)
  show "\<not> ok \<Longrightarrow> bucket_of l' key = live_bucket now l key"
    using assms(5) k unfolding a by (auto simp: bucket_of_def split: option.splits if_splits)
  show "other \<noteq> key \<Longrightarrow> bucket_of l' other = bucket_of l other \<or> bucket_of l' other = live_bucket now l other"
    using assms(5) m [of other] unfolding a by (auto simp: bucket_of_def split: option.splits if_splits)
qed

section \<open>A sequence of calls\<close>

type_synonym rate_call = "time \<times> string \<times> int \<times> duration"

text \<open>The times at which calls for \<open>key\<close> were let through, and the limiter after the calls.\<close>

fun allowed_run :: "string \<Rightarrow> rate_call list \<Rightarrow> rate_limiter \<Rightarrow> time list \<times> rate_limiter" where
  "allowed_run key [] l = ([], l)"
| "allowed_run key ((now, k, limit, window) # calls) l =
     (case Allow now k limit window l of (ok, l1) \<Rightarrow>
        case allowed_run key calls l1 of (ts, l2) \<Rightarrow> (if ok \<and> k = key then now # ts else ts, l2))"

definition within :: "time \<Rightarrow> duration \<Rightarrow> time list \<Rightarrow> time list" where
  "within a window ts = filter (\<lambda>t. a \<le> t \<and> t < a + window) ts"

text \<open>
  The calls let through so far are those of the current window after those before it; the calls
  just before the window are few enough to share a stretch with it.
\<close>

definition in_window ::
  "string \<Rightarrow> int \<Rightarrow> duration \<Rightarrow> time \<Rightarrow> time list \<Rightarrow> rate_limiter \<Rightarrow> time \<Rightarrow> time list \<Rightarrow> time list \<Rightarrow> bool" where
  "in_window key limit window seen ts l reset before current \<longleftrightarrow>
     ts = before @ current \<and> current \<noteq> [] \<and> int (length current) \<le> limit \<and>
     (\<forall>t \<in> set current. reset - window \<le> t \<and> t < reset \<and> t \<le> seen) \<and> (\<forall>t \<in> set before. t < reset - window) \<and>
     (\<forall>a. reset - 2 * window < a \<longrightarrow> int (length (filter (\<lambda>t. a \<le> t) before)) \<le> limit) \<and>
     (bucket_of l key = None \<and> reset \<le> seen \<or>
      bucket_of l key = Some \<lparr>bucket_count = int (length current), bucket_resetAt = reset\<rparr>)"

definition paced :: "string \<Rightarrow> int \<Rightarrow> duration \<Rightarrow> time \<Rightarrow> time list \<Rightarrow> rate_limiter \<Rightarrow> bool" where
  "paced key limit window seen ts l \<longleftrightarrow> limiter_ok l \<and> (\<forall>a. int (length (within a window ts)) \<le> 2 * limit) \<and>
     (ts = [] \<and> bucket_of l key = None \<or> (\<exists>reset before current. in_window key limit window seen ts l reset before current))"

lemma paced_cases [consumes 1, case_names none some]:
  "paced key limit window seen ts l \<Longrightarrow> (ts = [] \<Longrightarrow> bucket_of l key = None \<Longrightarrow> P) \<Longrightarrow>
    (\<And>reset before current. in_window key limit window seen ts l reset before current \<Longrightarrow> P) \<Longrightarrow> P"
  by (auto simp: paced_def)

lemma within_append: "within a w (xs @ ys) = within a w xs @ within a w ys"
  by (simp add: within_def)

lemma paced_other:
  assumes "paced key limit window seen ts l" "seen \<le> now" "limiter_ok l'"
    and b: "bucket_of l' key = bucket_of l key \<or> bucket_of l' key = live_bucket now l key"
  shows "paced key limit window now ts l'"
proof -
  have w: "\<forall>a. int (length (within a window ts)) \<le> 2 * limit" using assms(1) by (simp add: paced_def)
  from assms(1) show ?thesis
  proof (cases rule: paced_cases)
    case none
    then have "bucket_of l' key = None" using b by (auto simp: live_bucket_def)
    with none w assms(3) show ?thesis by (simp add: paced_def)
  next
    case (some reset before current)
    have "bucket_of l' key = None \<and> reset \<le> now \<or>
        bucket_of l' key = Some \<lparr>bucket_count = int (length current), bucket_resetAt = reset\<rparr>"
      using some b assms(2) by (auto simp: in_window_def live_bucket_def split: if_splits)
    then have "in_window key limit window now ts l' reset before current"
      using some assms(2) unfolding in_window_def by force
    with w assms(3) show ?thesis unfolding paced_def by blast
  qed
qed

lemma length_within_current: "int (length (within a w (xs @ ys))) \<le> int (length (within a w xs)) + int (length ys)"
  by (simp add: within_append) (simp add: within_def)

lemma paced_allow:
  assumes p: "paced key limit window seen ts l" and now: "seen \<le> now"
    and pos: "key \<noteq> []" "0 < limit" "0 < window" and a: "Allow now key limit window l = (True, l')"
  shows "paced key limit window now (ts @ [now]) l'"
proof -
  have ok: "limiter_ok l" and w: "\<And>a. int (length (within a window ts)) \<le> 2 * limit" using p by (auto simp: paced_def)
  note st = Allow_step [OF ok pos a]
  show ?thesis
  proof (cases "live_bucket now l key")
    case None
    have b: "bucket_of l' key = Some \<lparr>bucket_count = 1, bucket_resetAt = now + window\<rparr>" using st(3) None by simp
    have old: "(\<forall>t \<in> set ts. t < now) \<and> (\<forall>a. now - window < a \<longrightarrow> int (length (filter (\<lambda>t. a \<le> t) ts)) \<le> limit)"
    proof -
      from p show ?thesis
      proof (cases rule: paced_cases)
        case none
        then show ?thesis using pos by simp
      next
        case (some reset before current)
        have r: "reset \<le> now" using some None now by (auto simp: in_window_def live_bucket_def split: if_splits)
        have c: "ts = before @ current" "int (length current) \<le> limit"
          "\<forall>t \<in> set current. t < reset" "\<forall>t \<in> set before. t < reset - window"
          using some by (simp_all add: in_window_def)
        have "filter (\<lambda>t. a \<le> t) before = []" if "now - window < a" for a
          using c(4) r that by (force simp: filter_empty_conv)
        moreover have "int (length (filter (\<lambda>t. a \<le> t) current)) \<le> limit" for a
          using c(2) length_filter_le [of "\<lambda>t. a \<le> t" current] by linarith
        moreover have "\<forall>t \<in> set ts. t < now" using c(1,3,4) r pos(3) by force
        ultimately show ?thesis by (simp add: c(1))
      qed
    qed
    have two: "int (length (within a window (ts @ [now]))) \<le> 2 * limit" for a
    proof (cases "a \<le> now \<and> now < a + window")
      case True
      then have "now - window < a" by linarith
      moreover have "length (within a window ts) \<le> length (filter (\<lambda>t. a \<le> t) ts)"
        unfolding within_def by (induction ts) auto
      ultimately have "int (length (within a window ts)) \<le> limit" using old by force
      with pos(2) show ?thesis by (simp add: within_append) (simp add: within_def)
    next
      case False
      then have "within a window [now] = []" by (simp add: within_def)
      with w [of a] show ?thesis by (simp add: within_append)
    qed
    have "limiter_ok l'" using st(1) .
    moreover have "in_window key limit window now (ts @ [now]) l' (now + window) ts [now]"
      using b old pos by (simp add: in_window_def)
    ultimately show ?thesis unfolding paced_def using two by blast
  next
    case (Some bk)
    then have bk: "bucket_of l key = Some bk" "now < bucket_resetAt bk"
      by (auto simp: live_bucket_def split: option.splits if_splits)
    have lim: "bucket_count bk < limit" using st(2) Some by simp
    have b: "bucket_of l' key = Some (bk\<lparr>bucket_count := bucket_count bk + 1\<rparr>)" using st(3) Some by simp
    from p bk(1) obtain reset before current where iw: "in_window key limit window seen ts l reset before current"
      by (auto elim: paced_cases)
    then have "reset = bucket_resetAt bk" using bk(1) by (auto simp: in_window_def)
    with iw bk(1) have c: "ts = before @ current" "current \<noteq> []"
      "\<forall>t \<in> set current. bucket_resetAt bk - window \<le> t \<and> t < bucket_resetAt bk \<and> t \<le> seen"
      "\<forall>t \<in> set before. t < bucket_resetAt bk - window"
      "\<forall>a. bucket_resetAt bk - 2 * window < a \<longrightarrow> int (length (filter (\<lambda>t. a \<le> t) before)) \<le> limit"
      "bk = \<lparr>bucket_count = int (length current), bucket_resetAt = bucket_resetAt bk\<rparr>"
      by (auto simp: in_window_def)
    have len: "int (length (current @ [now])) \<le> limit" using lim arg_cong [OF c(6), of bucket_count] by simp
    have start: "bucket_resetAt bk - window \<le> now" using c(2,3) now by (cases current) auto
    have two: "int (length (within a window (ts @ [now]))) \<le> 2 * limit" for a
    proof (cases "a \<le> now \<and> now < a + window")
      case True
      have "int (length (within a window before)) \<le> limit"
      proof (cases "bucket_resetAt bk - 2 * window < a")
        case True
        have "length (within a window before) \<le> length (filter (\<lambda>t. a \<le> t) before)"
          unfolding within_def by (induction before) auto
        with c(5) True show ?thesis by force
      next
        case False
        with True bk(2) start have False by linarith
        then show ?thesis ..
      qed
      with len length_within_current [of a window before "current @ [now]"] show ?thesis by (simp add: c(1))
    next
      case False
      then have "within a window [now] = []" by (simp add: within_def)
      with w [of a] show ?thesis by (simp add: within_append)
    qed
    have cur: "\<forall>t \<in> set (current @ [now]). bucket_resetAt bk - window \<le> t \<and> t < bucket_resetAt bk \<and> t \<le> now"
      using c(3) start bk(2) now by force
    have bb: "bk\<lparr>bucket_count := bucket_count bk + 1\<rparr> =
        \<lparr>bucket_count = int (length (current @ [now])), bucket_resetAt = bucket_resetAt bk\<rparr>"
      using c(6) by (cases bk) simp
    have "limiter_ok l'" using st(1) .
    moreover have "in_window key limit window now (ts @ [now]) l' (bucket_resetAt bk) before (current @ [now])"
      using b c(1,4,5) cur len bb by (simp add: in_window_def)
    ultimately show ?thesis unfolding paced_def using two by blast
  qed
qed

lemma paced_refuse:
  assumes p: "paced key limit window seen ts l" and now: "seen \<le> now"
    and pos: "key \<noteq> []" "0 < limit" "0 < window" and a: "Allow now key limit window l = (False, l')"
  shows "paced key limit window now ts l'" "limit \<le> int (length (filter (\<lambda>t. now - window < t \<and> t \<le> now) ts))"
proof -
  have ok: "limiter_ok l" using p by (simp add: paced_def)
  note st = Allow_step [OF ok pos a]
  show "paced key limit window now ts l'" by (rule paced_other [OF p now st(1)]) (use st(4) in simp)
  obtain bk where bk: "bucket_of l key = Some bk" "now < bucket_resetAt bk" "limit \<le> bucket_count bk"
    using st(2) by (auto simp: live_bucket_def split: option.splits if_splits)
  from p bk(1) obtain reset before current where iw: "in_window key limit window seen ts l reset before current"
    by (auto elim: paced_cases)
  then have "reset = bucket_resetAt bk" using bk(1) by (auto simp: in_window_def)
  with iw bk(1) have c: "ts = before @ current"
    "\<forall>t \<in> set current. bucket_resetAt bk - window \<le> t \<and> t < bucket_resetAt bk \<and> t \<le> seen"
    "bk = \<lparr>bucket_count = int (length current), bucket_resetAt = bucket_resetAt bk\<rparr>"
    by (auto simp: in_window_def)
  have "filter (\<lambda>t. now - window < t \<and> t \<le> now) current = current"
    using c(2) bk(2) now by (intro filter_True) force
  then have "length current \<le> length (filter (\<lambda>t. now - window < t \<and> t \<le> now) ts)" by (simp add: c(1))
  with bk(3) arg_cong [OF c(3), of bucket_count] show "limit \<le> int (length (filter (\<lambda>t. now - window < t \<and> t \<le> now) ts))"
    by simp
qed

section \<open>What the limiter guarantees\<close>

text \<open>The calls come in the order of the clock; those for \<open>key\<close> use the same limit and window.\<close>

fun steady :: "string \<Rightarrow> int \<Rightarrow> duration \<Rightarrow> time \<Rightarrow> rate_call list \<Rightarrow> bool" where
  "steady key limit window seen [] \<longleftrightarrow> True"
| "steady key limit window seen ((now, k, n, w) # calls) \<longleftrightarrow>
     seen \<le> now \<and> (k = key \<longrightarrow> n = limit \<and> w = window) \<and> steady key limit window now calls"

fun newest_time :: "time \<Rightarrow> rate_call list \<Rightarrow> time" where
  "newest_time seen [] = seen"
| "newest_time seen (call # calls) = newest_time (fst call) calls"

lemma Allow_ok: "limiter_ok l \<Longrightarrow> limiter_ok (snd (Allow now k n w l))"
proof -
  assume ok: "limiter_ok l"
  show ?thesis
  proof (cases "k = [] \<or> n \<le> 0 \<or> w \<le> 0")
    case True
    with ok show ?thesis by (simp add: Allow_def)
  next
    case False
    with Allow_step(1) [OF ok, of k n w now "fst (Allow now k n w l)"] show ?thesis by simp
  qed
qed

lemma paced_run:
  assumes "paced key limit window seen ts l" "steady key limit window seen calls"
    and "key \<noteq> []" "0 < limit" "0 < window" "allowed_run key calls l = (later, l')"
  shows "paced key limit window (newest_time seen calls) (ts @ later) l'"
  using assms
proof (induction calls arbitrary: seen ts l later)
  case (Cons call calls)
  obtain now k n w where call: "call = (now, k, n, w)" by (cases call) auto
  obtain ok l1 where a: "Allow now k n w l = (ok, l1)" by fastforce
  obtain rest where r: "allowed_run key calls l1 = (rest, l')"
    and later: "later = (if ok \<and> k = key then now # rest else rest)"
    using Cons.prems(6) by (auto simp: call a split: prod.splits)
  have now: "seen \<le> now" and st: "steady key limit window now calls" using Cons.prems(2) by (simp_all add: call)
  have l: "limiter_ok l" using Cons.prems(1) by (simp add: paced_def)
  show ?case
  proof (cases "k = key")
    case True
    then have nw: "n = limit" "w = window" using Cons.prems(2) by (simp_all add: call)
    show ?thesis
    proof (cases ok)
      case True
      with \<open>k = key\<close> nw a have "Allow now key limit window l = (True, l1)" by simp
      from Cons.IH [OF paced_allow [OF Cons.prems(1) now Cons.prems(3-5) this] st Cons.prems(3-5) r] \<open>k = key\<close> True
      show ?thesis by (simp add: call later)
    next
      case False
      with \<open>k = key\<close> nw a have "Allow now key limit window l = (False, l1)" by simp
      from Cons.IH [OF paced_refuse(1) [OF Cons.prems(1) now Cons.prems(3-5) this] st Cons.prems(3-5) r] False
      show ?thesis by (simp add: call later)
    qed
  next
    case False
    have "bucket_of l1 key = bucket_of l key \<or> bucket_of l1 key = live_bucket now l key"
    proof (cases "k = [] \<or> n \<le> 0 \<or> w \<le> 0")
      case True
      with a show ?thesis by (simp add: Allow_def)
    next
      case pos: False
      with Allow_step(5) [OF l _ _ _ a, of key] False show ?thesis by auto
    qed
    moreover have "limiter_ok l1" using Allow_ok [OF l, of now k n w] a by simp
    ultimately have "paced key limit window now ts l1" using paced_other [OF Cons.prems(1) now] by blast
    from Cons.IH [OF this st Cons.prems(3-5) r] False show ?thesis by (simp add: call later)
  qed
qed simp

lemma paced_new: "0 < limit \<Longrightarrow> paced key limit window seen [] NewInMemoryRateLimiter"
  by (simp add: paced_def limiter_ok_def NewInMemoryRateLimiter_def bucket_of_def within_def)

text \<open>
  C18: a key is limited whatever other keys are used for: with a limit and a window of its own, any
  stretch of time as long as the window sees at most twice the limit of its calls let through, and a
  call is refused only when at least the limit of its calls was let through within the last window.
\<close>

theorem rate_limit:
  assumes "steady key limit window seen calls" "key \<noteq> []" "0 < limit" "0 < window"
    and "allowed_run key calls NewInMemoryRateLimiter = (ts, l)"
  shows "int (length (within a window ts)) \<le> 2 * limit \<and>
    (newest_time seen calls \<le> now \<longrightarrow> fst (Allow now key limit window l) = False \<longrightarrow>
      limit \<le> int (length (filter (\<lambda>t. now - window < t \<and> t \<le> now) ts)))"
proof -
  have p: "paced key limit window (newest_time seen calls) ts l"
    using paced_run [OF paced_new [OF assms(3)] assms] by simp
  then have "int (length (within a window ts)) \<le> 2 * limit" by (simp add: paced_def)
  moreover have "limit \<le> int (length (filter (\<lambda>t. now - window < t \<and> t \<le> now) ts))"
    if "newest_time seen calls \<le> now" "fst (Allow now key limit window l) = False"
  proof -
    have "Allow now key limit window l = (False, snd (Allow now key limit window l))"
      using that(2) by (simp add: prod_eq_iff)
    from paced_refuse(2) [OF p that(1) assms(2-4) this] show ?thesis .
  qed
  ultimately show ?thesis by blast
qed

definition demo_calls :: "rate_call list" where
  "demo_calls = [(1, ''k'', 2, 10), (2, ''j'', 1, 5), (3, ''k'', 2, 10), (4, ''k'', 2, 10)]"

theorem rate_limit_witness:
  "int (length (within 3 10 (fst (allowed_run ''k'' demo_calls NewInMemoryRateLimiter)))) \<le> 4"
proof -
  have st: "steady ''k'' 2 10 0 demo_calls" by (simp add: demo_calls_def)
  obtain ts l where r: "allowed_run ''k'' demo_calls NewInMemoryRateLimiter = (ts, l)" by fastforce
  from rate_limit [OF st _ _ _ r, of 3] show ?thesis by (simp add: r)
qed

end
