(* ===== verification/Calls.thy ===== *)
theory Calls
  imports Demo Invalidation
begin

text \<open>
  Services that call more than one transaction, the session cache and the mail sender. A
  \<open>call\<close> takes the world and answers an error or a value with the world afterwards, or \<open>None\<close>
  when a transaction inside it blocks; unlike an action of a transaction nothing is undone when
  it fails. \<open>on_store\<close> and \<open>on_cache\<close> run a call on a part of the world, and so a transaction is a
  call on the store.

  \<open>called\<close> is a call of a repository, the cache or the mail sender whose error the code wraps: the
  environment decides whether it fails, by the label of the wrapping; then it has done nothing.
  A call whose error the code discards has the empty label.

  The bundle \<open>call_simps\<close> reads a successful run backwards, step by step.
\<close>

section \<open>The world and calls\<close>

text \<open>A mail that went out: to an address, with a raw token and the end of its validity.\<close>

datatype sent_mail = EmailVerificationMail string string time | PasswordResetMail string string time

record world =
  w_store :: store
  w_cache :: "cached cache"
  w_sent :: "sent_mail list"

type_synonym ('s, 'a) call = "'s \<Rightarrow> ((go_error + 'a) \<times> 's) option"

definition returnC :: "'a \<Rightarrow> ('s, 'a) call" where
  "returnC a = (\<lambda>w. Some (Inr a, w))"

definition throwC :: "go_error \<Rightarrow> ('s, 'a) call" where
  "throwC err = (\<lambda>w. Some (Inl err, w))"

definition bindC :: "('s, 'a) call \<Rightarrow> ('a \<Rightarrow> ('s, 'b) call) \<Rightarrow> ('s, 'b) call" where
  "bindC m f = (\<lambda>w. case m w of
      None \<Rightarrow> None
    | Some (Inl err, w') \<Rightarrow> Some (Inl err, w')
    | Some (Inr a, w') \<Rightarrow> f a w')"

text \<open>\<open>if err := m; err != nil { handler }\<close>: the error as a value.\<close>

definition catchC :: "('s, 'a) call \<Rightarrow> (go_error \<Rightarrow> ('s, 'a) call) \<Rightarrow> ('s, 'a) call" where
  "catchC m handler = (\<lambda>w. case m w of
      None \<Rightarrow> None
    | Some (Inl err, w') \<Rightarrow> handler err w'
    | Some (Inr a, w') \<Rightarrow> Some (Inr a, w'))"

definition ensureC :: "go_error option \<Rightarrow> ('s, unit) call" where
  "ensureC res = (case res of None \<Rightarrow> returnC () | Some err \<Rightarrow> throwC err)"

definition requireC :: "'a option \<Rightarrow> go_error \<Rightarrow> ('s, 'a) call" where
  "requireC x err = (case x of Some a \<Rightarrow> returnC a | None \<Rightarrow> throwC err)"

text \<open>An answer that is an error or a value.\<close>

definition liftC :: "go_error + 'a \<Rightarrow> ('s, 'a) call" where
  "liftC r = (\<lambda>w. Some (r, w))"

definition called :: "env \<Rightarrow> (go_error \<Rightarrow> go_error) \<Rightarrow> string \<Rightarrow> ('s, 'a) call \<Rightarrow> ('s, 'a) call" where
  "called e wrap label m = (\<lambda>w. case env_fault e label of
      Some err \<Rightarrow> Some (Inl (wrap err), w)
    | None \<Rightarrow> (case m w of
        None \<Rightarrow> None
      | Some (Inl err, w') \<Rightarrow> Some (Inl (wrap err), w')
      | Some (Inr a, w') \<Rightarrow> Some (Inr a, w')))"

definition repoC :: "env \<Rightarrow> string \<Rightarrow> ('s, 'a) call \<Rightarrow> ('s, 'a) call" where
  "repoC e label m = called e (\<lambda>err. WrapRepository label (Some err)) label m"

text \<open>A call whose error the code does not look at.\<close>

definition discardC :: "env \<Rightarrow> ('s, 'a) call \<Rightarrow> ('s, unit) call" where
  "discardC e m = catchC (bindC (called e id [] m) (\<lambda>_. returnC ())) (\<lambda>_. returnC ())"

section \<open>Parts of the world\<close>

definition on_store :: "(store, 'a) call \<Rightarrow> (world, 'a) call" where
  "on_store m = (\<lambda>w. case m (w_store w) of
      None \<Rightarrow> None
    | Some (r, s) \<Rightarrow> Some (r, w\<lparr>w_store := s\<rparr>))"

definition on_cache :: "(cached cache \<Rightarrow> 'a \<times> cached cache) \<Rightarrow> (world, 'a) call" where
  "on_cache f = (\<lambda>w. case f (w_cache w) of (a, c) \<Rightarrow> Some (Inr a, w\<lparr>w_cache := c\<rparr>))"

text \<open>A repository outside a transaction: a read, and a write that may fail.\<close>

definition read_store :: "(store \<Rightarrow> 'r) \<Rightarrow> ('r \<Rightarrow> 'a) \<Rightarrow> (store, 'a) call" where
  "read_store get f = (\<lambda>s. Some (Inr (f (get s)), s))"

definition write_store ::
  "(store \<Rightarrow> 'r) \<Rightarrow> (('r \<Rightarrow> 'r) \<Rightarrow> store \<Rightarrow> store) \<Rightarrow> ('r \<Rightarrow> (go_error + 'a) \<times> 'r) \<Rightarrow> (store, 'a) call" where
  "write_store get put op = (\<lambda>s. case op (get s) of (res, r) \<Rightarrow> Some (res, put (\<lambda>_. r) s))"

section \<open>Successful runs\<close>

named_theorems call_simps \<open>what a successful call did, step by step\<close>

lemma bindC_run [call_simps]:
  "bindC m f w = Some (Inr b, w') \<longleftrightarrow> (\<exists>a w1. m w = Some (Inr a, w1) \<and> f a w1 = Some (Inr b, w'))"
  by (auto simp: bindC_def split: option.splits sum.splits)

lemma returnC_run [call_simps]:
  "returnC a w = Some (Inr b, w') \<longleftrightarrow> b = a \<and> w' = w"
  "throwC err w = Some (Inr b, w') \<longleftrightarrow> False"
  "ensureC res w = Some (Inr u, w') \<longleftrightarrow> res = None \<and> w' = w"
  "requireC x err w = Some (Inr b, w') \<longleftrightarrow> x = Some b \<and> w' = w"
  "liftC r w = Some (Inr b, w') \<longleftrightarrow> r = Inr b \<and> w' = w"
  by (auto simp: returnC_def throwC_def ensureC_def requireC_def liftC_def split: option.splits)

lemma called_run [call_simps]:
  "called e wrap label m w = Some (Inr a, w') \<longleftrightarrow> env_fault e label = None \<and> m w = Some (Inr a, w')"
  "repoC e label m' v = Some (Inr b, v') \<longleftrightarrow> env_fault e label = None \<and> m' v = Some (Inr b, v')"
  by (auto simp: repoC_def called_def split: option.splits sum.splits)

lemma on_store_run:
  "on_store m w = Some (r, w') \<longleftrightarrow> (\<exists>s. m (w_store w) = Some (r, s) \<and> w' = w\<lparr>w_store := s\<rparr>)"
  by (auto simp: on_store_def split: option.splits)

lemma part_run [call_simps]:
  "on_store m w = Some (Inr a, w') \<longleftrightarrow> (\<exists>s. m (w_store w) = Some (Inr a, s) \<and> w' = w\<lparr>w_store := s\<rparr>)"
  "on_cache f w = Some (Inr a, w') \<longleftrightarrow> (\<exists>c. f (w_cache w) = (a, c) \<and> w' = w\<lparr>w_cache := c\<rparr>)"
  "read_store get g s = Some (Inr b, s') \<longleftrightarrow> b = g (get s) \<and> s' = s"
  "write_store get' put op s = Some (Inr d, s') \<longleftrightarrow> (\<exists>r. op (get' s) = (Inr d, r) \<and> s' = put (\<lambda>_. r) s)"
  by (auto simp: on_store_run on_cache_def read_store_def write_store_def split: prod.splits)

section \<open>Calls that return\<close>

text \<open>A call that returns from every world; like \<open>returns\<close>, it passes through the combinators.\<close>

definition returnsC :: "('s, 'a) call \<Rightarrow> bool" where
  "returnsC m \<longleftrightarrow> (\<forall>w. m w \<noteq> None)"

named_theorems returnsC_intros \<open>calls that do not block\<close>

lemma returnsC_basic [returnsC_intros]:
  "returnsC (returnC a)" "returnsC (throwC err)" "returnsC (ensureC res)" "returnsC (requireC x err)"
  "returnsC (liftC r)" "returnsC (on_cache f)" "returnsC (read_store get g)" "returnsC (write_store get' put op)"
  by (simp_all add: returnsC_def returnC_def throwC_def ensureC_def requireC_def liftC_def on_cache_def
      read_store_def write_store_def split: option.split prod.split)

lemma returnsC_bindC [returnsC_intros]:
  "returnsC m \<Longrightarrow> (\<And>a. returnsC (f a)) \<Longrightarrow> returnsC (bindC m f)"
  "returnsC m' \<Longrightarrow> (\<And>err. returnsC (h err)) \<Longrightarrow> returnsC (catchC m' h)"
  by (auto simp: returnsC_def bindC_def catchC_def split: option.split prod.split sum.split)

lemma returnsC_called [returnsC_intros]:
  "returnsC m \<Longrightarrow> returnsC (called e wrap label m)" "returnsC m' \<Longrightarrow> returnsC (repoC e' label' m')"
  by (auto simp: returnsC_def repoC_def called_def split: option.split prod.split sum.split)

lemma returnsC_part [returnsC_intros]:
  "returnsC m \<Longrightarrow> returnsC (on_store m)" "returnsC m' \<Longrightarrow> returnsC (discardC e m')"
  "returns fn \<Longrightarrow> returnsC (WithinTransaction e tick fn)"
  by (auto simp: discardC_def on_store_def intro!: returnsC_intros)
    (auto simp: returnsC_def on_store_def returns_transaction split: option.split)

lemma returnsC_if [returnsC_intros]:
  "returnsC m \<Longrightarrow> returnsC n \<Longrightarrow> returnsC (if b then m else n)"
  "returnsC m1 \<Longrightarrow> (\<And>a. returnsC (f a)) \<Longrightarrow> returnsC (case x of None \<Rightarrow> m1 | Some a \<Rightarrow> f a)"
  "(\<And>l. returnsC (g l)) \<Longrightarrow> (\<And>r. returnsC (h r)) \<Longrightarrow> returnsC (case y of Inl l \<Rightarrow> g l | Inr r \<Rightarrow> h r)"
  "(\<And>a b. returnsC (k a b)) \<Longrightarrow> returnsC (case z of (a, b) \<Rightarrow> k a b)"
  by (simp_all split: option.split sum.split prod.split)

text \<open>A call is evaluated from its first step on.\<close>

lemma bindC_eval:
  "bindC m f w = (case m w of
      None \<Rightarrow> None
    | Some (r, w') \<Rightarrow> (case r of Inl err \<Rightarrow> Some (Inl err, w') | Inr a \<Rightarrow> f a w'))"
  by (simp add: bindC_def split: option.split prod.split sum.split)

lemma catchC_eval:
  "catchC m h w = (case m w of
      None \<Rightarrow> None
    | Some (r, w') \<Rightarrow> (case r of Inl err \<Rightarrow> h err w' | Inr a \<Rightarrow> Some (Inr a, w')))"
  by (simp add: catchC_def split: option.split prod.split sum.split)

lemma called_eval:
  "called demo_env wrap label m w = (case m w of
      None \<Rightarrow> None
    | Some (r, w') \<Rightarrow> (case r of Inl err \<Rightarrow> Some (Inl (wrap err), w') | Inr a \<Rightarrow> Some (Inr a, w')))"
  by (simp add: called_def demo_env_def split: option.split prod.split sum.split)

lemma bindC_eval_cong: "w = w' \<Longrightarrow> bindC m f w = bindC m f w'"
  by simp

lemmas call_eval =
  bindC_eval catchC_eval called_eval returnC_def throwC_def ensureC_def requireC_def liftC_def repoC_def
  discardC_def on_store_def on_cache_def read_store_def write_store_def

end
