(* ===== verification/Auth.thy ===== *)
theory Auth
  imports Calls
begin

text \<open>
  \<open>infrastructure/auth\<close>: password hashes, access tokens, the random tokens sent by mail, and the
  sessions, which are entries of the cache under the key of a user and a token.

  The record \<open>crypto\<close> stands for the packages outside the source: bcrypt (whose hash depends on
  a salt, numbered by the draw), the JWT library with the key of the provider and its dates
  (\<open>jwt.NewNumericDate\<close>, which keeps whole seconds), SHA-256 and
  \<open>mail.ParseAddress\<close> of the standard library, the calendar of the clock, and the times to live
  the services are configured with.

  The lock of a user that \<open>WithUserLock\<close> holds orders the calls on the sessions of a user; here a
  call runs from its beginning to its end, and the lock is not modelled. The locale
  \<open>session_table\<close> is the contract of the sessions; the cache provides it, and the events that
  invalidate cached lists never touch a session.
\<close>

section \<open>Passwords\<close>

datatype compared = Matched | MismatchedHashAndPassword | NotCompared go_error

record claims =
  claim_UserID :: int
  claim_ID :: string
  claim_IssuedAt :: time
  claim_ExpiresAt :: time

record crypto =
  cr_generate :: "nat \<Rightarrow> string \<Rightarrow> int \<Rightarrow> go_error + string"
  cr_compare :: "string \<Rightarrow> string \<Rightarrow> compared"
  cr_cost :: int
  cr_numeric_date :: "time \<Rightarrow> time"
  cr_sign :: "claims \<Rightarrow> go_error + string"
  cr_parse :: "time \<Rightarrow> string \<Rightarrow> go_error + (bool \<times> int)"
  cr_sha256 :: "string \<Rightarrow> string"
  cr_address :: "string \<Rightarrow> bool"
  cr_add_days :: "time \<Rightarrow> int \<Rightarrow> time"
  cr_verificationTTL :: duration
  cr_resetTTL :: duration

text \<open>\<open>bcrypt.DefaultCost\<close> is 10.\<close>

definition NewBcryptPasswordHasher :: "int \<Rightarrow> int" where
  "NewBcryptPasswordHasher cost = (if cost \<le> 0 then 10 else cost)"

definition Hash :: "crypto \<Rightarrow> nat \<Rightarrow> string \<Rightarrow> go_error + string" where
  "Hash cr draw password = cr_generate cr draw password (NewBcryptPasswordHasher (cr_cost cr))"

definition Matches :: "crypto \<Rightarrow> string \<Rightarrow> string \<Rightarrow> go_error + bool" where
  "Matches cr hashedPassword password =
     (case cr_compare cr hashedPassword password of
        Matched \<Rightarrow> Inr True
      | MismatchedHashAndPassword \<Rightarrow> Inr False
      | NotCompared err \<Rightarrow> Inl err)"

section \<open>Tokens\<close>

definition jwt_ttl :: duration where
  "jwt_ttl = 24 * 60 * 60 * second"

definition IdToToken :: "env \<Rightarrow> crypto \<Rightarrow> nat \<Rightarrow> int \<Rightarrow> go_error + string" where
  "IdToToken e cr tick userID =
     (let now = env_now e tick in
      case cr_sign cr \<lparr>claim_UserID = userID, claim_ID = env_uuid e (tick + 1),
                       claim_IssuedAt = cr_numeric_date cr now,
                       claim_ExpiresAt = cr_numeric_date cr (now + jwt_ttl)\<rparr> of
        Inl err \<Rightarrow> Inl (WrapToken ''sign jwt'' (Some err))
      | Inr signed \<Rightarrow> Inr signed)"

definition TTLSeconds :: int where
  "TTLSeconds = jwt_ttl div second"

text \<open>\<open>cr_parse\<close> is \<open>jwt.ParseWithClaims\<close> with the key and the check of the method: whether the token is valid, and its user.\<close>

definition jwt_ValidateTokenToId :: "crypto \<Rightarrow> time \<Rightarrow> string \<Rightarrow> go_error + int" where
  "jwt_ValidateTokenToId cr now token =
     (case cr_parse cr now token of
        Inl err \<Rightarrow> Inl (Wrap ErrInvalidToken ''parse jwt'' (Some err))
      | Inr (valid, userID) \<Rightarrow>
          if valid \<and> 0 < userID then Inr userID
          else Inl (Wrap ErrInvalidToken ''decode jwt claims''
                  (Some (External ''invalid token claims'' None))))"

text \<open>The random token of a mail; the text of an error of the random source is left out.\<close>

definition Issue :: "string \<Rightarrow> string action" where
  "Issue label =
     bindT randT (\<lambda>buf.
       requireT (map_option EncodeToString buf)
         (Wrap ErrInternalServerError label (Some (External [] None))))"

text \<open>\<open>sha256\<close> and \<open>hex.EncodeToString\<close>; three services define it under their own names.\<close>

definition hashToken :: "crypto \<Rightarrow> string \<Rightarrow> string" where
  "hashToken cr token = hex_encode (cr_sha256 cr token)"

section \<open>Sessions\<close>

definition sessionCachePrefix :: "int \<Rightarrow> string" where
  "sessionCachePrefix userID = ''session:user:'' @ FormatInt userID @ '':''"

definition sessionCacheKey :: "int \<Rightarrow> string \<Rightarrow> string" where
  "sessionCacheKey userID token = sessionCachePrefix userID @ token"

definition Session_Save :: "time \<Rightarrow> int \<Rightarrow> string \<Rightarrow> int \<Rightarrow> cached cache \<Rightarrow> cached cache" where
  "Session_Save now userID token ttlSeconds c =
     SetWithTTL now (sessionCacheKey userID token) (CachedUserID userID) ttlSeconds c"

definition Session_Delete :: "int \<Rightarrow> string \<Rightarrow> cached cache \<Rightarrow> cached cache" where
  "Session_Delete userID token c = Cache_Delete (sessionCacheKey userID token) c"

definition Session_DeleteByUser :: "int \<Rightarrow> cached cache \<Rightarrow> cached cache" where
  "Session_DeleteByUser userID c = snd (DeleteByPrefix (sessionCachePrefix userID) c)"

definition Session_existsLocked ::
  "time \<Rightarrow> time \<Rightarrow> int \<Rightarrow> string \<Rightarrow> cached cache \<Rightarrow> bool \<times> cached cache" where
  "Session_existsLocked now now' userID token c =
     (case Cache_Get now now' (sessionCacheKey userID token) c of (v, c') \<Rightarrow> (v \<noteq> None, c'))"

definition Session_existsByUserLocked :: "(nat \<Rightarrow> time) \<Rightarrow> int \<Rightarrow> cached cache \<Rightarrow> bool \<times> cached cache" where
  "Session_existsByUserLocked clk userID c = ExistsByPrefix clk (sessionCachePrefix userID) c"

section \<open>The contract of sessions\<close>

locale session_table =
  fixes live :: "'c \<Rightarrow> time \<Rightarrow> int \<Rightarrow> string \<Rightarrow> bool"
    and inv :: "'c \<Rightarrow> bool"
    and save :: "time \<Rightarrow> int \<Rightarrow> string \<Rightarrow> int \<Rightarrow> 'c \<Rightarrow> 'c"
    and delete :: "int \<Rightarrow> string \<Rightarrow> 'c \<Rightarrow> 'c"
    and delete_user :: "int \<Rightarrow> 'c \<Rightarrow> 'c"
    and exists_token :: "time \<Rightarrow> time \<Rightarrow> int \<Rightarrow> string \<Rightarrow> 'c \<Rightarrow> bool \<times> 'c"
  assumes save_live: "inv c \<Longrightarrow> live (save now u t ttl c) now' v s \<longleftrightarrow>
      (if v = u \<and> s = t then ttl \<le> 0 \<or> now' \<le> now + ttl * second else live c now' v s)"
    and delete_live: "inv c \<Longrightarrow> live (delete u t c) now v s \<longleftrightarrow> live c now v s \<and> \<not> (v = u \<and> s = t)"
    and delete_user_live: "inv c \<Longrightarrow> live (delete_user u c) now v s \<longleftrightarrow> live c now v s \<and> v \<noteq> u"
    and exists_answer: "inv c \<Longrightarrow> exists_token now now' u t c = (b, c') \<Longrightarrow> b \<longleftrightarrow> live c now u t"
    and exists_live: "inv c \<Longrightarrow> exists_token now now' u t c = (b, c') \<Longrightarrow> now' \<le> at \<Longrightarrow>
      live c' at v s \<longleftrightarrow> live c at v s"
    and save_inv: "inv c \<Longrightarrow> inv (save now u t ttl c)"
    and delete_inv: "inv c \<Longrightarrow> inv (delete u t c)"
    and delete_user_inv: "inv c \<Longrightarrow> inv (delete_user u c)"
    and exists_inv: "inv c \<Longrightarrow> exists_token now now' u t c = (b, c') \<Longrightarrow> inv c'"
begin

lemma replaced:
  assumes "inv c" "old \<noteq> new" "0 < ttl" "now' \<le> now + ttl * second"
  shows "live (delete u old (save now u new ttl c)) now' u new"
    "\<not> live (delete u old (save now u new ttl c)) now' u old"
    "v \<noteq> u \<Longrightarrow> live (delete u old (save now u new ttl c)) now' v s \<longleftrightarrow> live c now' v s"
  using assms by (auto simp: delete_live save_live save_inv)

text \<open>Saving a session and taking it back changes nothing else.\<close>

lemma undone:
  assumes "inv c" "\<not> live c now' u t"
  shows "live (delete u t (save now u t ttl c)) now' v s \<longleftrightarrow> live c now' v s"
  using assms by (auto simp: delete_live save_live save_inv)

end

lemma key_prefix [simp]:
  "has_prefix (sessionCacheKey v s) (sessionCachePrefix u) \<longleftrightarrow> v = u"
  using number_prefix [of v s u "[]"] by (auto simp: sessionCacheKey_def sessionCachePrefix_def has_prefix_iff)

lemma key_inj [simp]: "sessionCacheKey v s = sessionCacheKey u t \<longleftrightarrow> v = u \<and> s = t"
proof
  assume eq: "sessionCacheKey v s = sessionCacheKey u t"
  then have "has_prefix (sessionCacheKey v s) (sessionCachePrefix u)" by simp
  then have "v = u" unfolding key_prefix .
  with eq show "v = u \<and> s = t" by (simp add: sessionCacheKey_def)
qed simp

definition session_live :: "cached cache \<Rightarrow> time \<Rightarrow> int \<Rightarrow> string \<Rightarrow> bool" where
  "session_live c now userID token \<longleftrightarrow> cached_at c now (sessionCacheKey userID token) \<noteq> None"

lemma cached_at_delete:
  "cached_at (deleteLocked key c) now key' = (if key' = key then None else cached_at c now key')"
  by (simp add: cached_at_def)

lemma DeleteByPrefix_reads:
  assumes "cache_ok c"
  shows "cached_at (snd (DeleteByPrefix p c)) now key = (if has_prefix key p then None else cached_at c now key)"
proof -
  obtain n c' where d: "DeleteByPrefix p c = (n, c')" by fastforce
  show ?thesis using DeleteByPrefix_spec(2) [OF assms d] by (simp add: d cached_at_def restrict_map_def)
qed

text \<open>Reading drops at most an entry that has expired.\<close>

lemma Cache_Get_later:
  assumes "Cache_Get now now' key c = (v, c')" "now' \<le> at"
  shows "cached_at c' at key' = cached_at c at key'"
proof (cases "map_of (cache_store c) key")
  case None
  with assms show ?thesis by (simp add: Cache_Get_def)
next
  case (Some entry)
  have "expired at entry" if "expired now' entry" using that assms(2) by (auto simp: expired_def)
  with Some assms(1) show ?thesis
    by (auto simp: Cache_Get_def cached_at_delete cached_at_def split: if_splits)
qed

interpretation sessions: session_table session_live cache_ok Session_Save Session_Delete
  Session_DeleteByUser Session_existsLocked
proof unfold_locales
  fix c :: "cached cache" and now now' at u v t s ttl b c'
  assume ok: "cache_ok c"
  show "session_live (Session_Save now u t ttl c) now' v s \<longleftrightarrow>
      (if v = u \<and> s = t then ttl \<le> 0 \<or> now' \<le> now + ttl * second else session_live c now' v s)"
    by (cases "sessionCacheKey v s = sessionCacheKey u t")
      (auto simp: session_live_def Session_Save_def SetWithTTL_reads)
  show "session_live (Session_Delete u t c) now v s \<longleftrightarrow> session_live c now v s \<and> \<not> (v = u \<and> s = t)"
    by (auto simp: session_live_def Session_Delete_def Cache_Delete_def cached_at_delete)
  show "session_live (Session_DeleteByUser u c) now v s \<longleftrightarrow> session_live c now v s \<and> v \<noteq> u"
    by (simp add: session_live_def Session_DeleteByUser_def DeleteByPrefix_reads [OF ok])
  show "cache_ok (Session_Save now u t ttl c)" "cache_ok (Session_Delete u t c)"
    using ok by (simp_all add: Session_Save_def Session_Delete_def SetWithTTL_ok Cache_Delete_ok)
  show "cache_ok (Session_DeleteByUser u c)"
    using DeleteByPrefix_spec(1) [OF ok] by (cases "DeleteByPrefix (sessionCachePrefix u) c")
      (simp add: Session_DeleteByUser_def)
  assume e: "Session_existsLocked now now' u t c = (b, c')"
  then obtain o1 where g: "Cache_Get now now' (sessionCacheKey u t) c = (o1, c')" "b \<longleftrightarrow> o1 \<noteq> None"
    by (auto simp: Session_existsLocked_def split: prod.splits)
  show "b \<longleftrightarrow> session_live c now u t"
    using Cache_Get_reads [of now now' "sessionCacheKey u t" c] g by (simp add: session_live_def)
  show "cache_ok c'" using Cache_Get_ok [OF ok, of now now' "sessionCacheKey u t"] g by simp
  show "now' \<le> at \<Longrightarrow> session_live c' at v s \<longleftrightarrow> session_live c at v s"
    using Cache_Get_later [OF g(1)] by (simp add: session_live_def)
qed

text \<open>No event that invalidates lists drops a session.\<close>

lemma not_session:
  "hd key \<noteq> CHR ''s'' \<Longrightarrow> key \<noteq> [] \<Longrightarrow> sessionCacheKey u t \<noteq> key \<and> \<not> has_prefix (sessionCacheKey u t) key"
  by (cases key) (auto simp: sessionCacheKey_def sessionCachePrefix_def has_prefix_iff)

lemma Handle_session:
  assumes "cache_ok c"
  shows "session_live (CacheInvalidation_Handle event c) now u t \<longleftrightarrow> session_live c now u t"
proof -
  have "\<not> covered (dropped_keys event) (dropped_prefixes event) (sessionCacheKey u t)"
    by (cases event) (auto simp: covered_def key_defs not_session)
  from Handle_kept [OF assms this] show ?thesis by (simp add: session_live_def cached_at_def)
qed

section \<open>A crypto for the witnesses\<close>

text \<open>A hash that shows its password and a token that names its user and its expiry.\<close>

definition before_dot :: "string \<Rightarrow> string" where
  "before_dot token = takeWhile (\<lambda>c. c \<noteq> CHR ''.'') token"

definition demo_token_claims :: "string \<Rightarrow> (int \<times> time) option" where
  "demo_token_claims token =
     (case ParseInt (before_dot token) of
        None \<Rightarrow> None
      | Some i \<Rightarrow> map_option (Pair i) (ParseInt (before_dot (drop (length (before_dot token) + 1) token))))"

definition demo_crypto :: crypto where
  "demo_crypto =
     \<lparr>cr_generate = (\<lambda>_ password _. Inr (''h'' @ password)),
      cr_compare = (\<lambda>hashed password. if hashed = ''h'' @ password then Matched else MismatchedHashAndPassword),
      cr_cost = 0, cr_numeric_date = (\<lambda>t. t - t mod second),
      cr_sign = (\<lambda>c.
        let token = FormatInt (claim_UserID c) @ ''.'' @ FormatInt (claim_ExpiresAt c) @ ''.'' @ claim_ID c in
        if demo_token_claims token = Some (claim_UserID c, claim_ExpiresAt c) then Inr token
        else Inl (External ''unsigned'' None)),
      cr_parse = (\<lambda>now token. case demo_token_claims token of
        None \<Rightarrow> Inl (External ''malformed'' None)
      | Some (i, expires) \<Rightarrow> if now < expires then Inr (True, i) else Inl (External ''expired'' None)),
      cr_sha256 = id, cr_address = (\<lambda>a. CHR ''@'' \<in> set a), cr_add_days = (\<lambda>t n. t + n * 86400 * second),
      cr_verificationTTL = 1800 * second, cr_resetTTL = 1800 * second\<rparr>"

lemma demo_token_claims:
  assumes "- (2 ^ 63) \<le> i" "i < 2 ^ 63" "- (2 ^ 63) \<le> expires" "expires < 2 ^ 63"
  shows "demo_token_claims (FormatInt i @ ''.'' @ FormatInt expires @ ''.'' @ uuid) = Some (i, expires)"
proof -
  have d: "c \<noteq> CHR ''.''" if "c \<in> set (FormatInt n)" for c n
    using FormatInt_chars [OF that] by (auto simp: digit_value_def)
  have b: "before_dot (FormatInt n @ ''.'' @ rest) = FormatInt n" for n rest
    unfolding before_dot_def by (subst takeWhile_append2) (use d in auto)
  show ?thesis using assms unfolding demo_token_claims_def b by (simp add: ParseInt_FormatInt b [simplified])
qed

lemma demo_crypto_simps:
  "Hash demo_crypto n password = Inr (''h'' @ password)"
  "Matches demo_crypto hashed password = Inr (hashed = ''h'' @ password)"
  "cr_address demo_crypto a \<longleftrightarrow> CHR ''@'' \<in> set a" "cr_sha256 demo_crypto = id"
  "cr_add_days demo_crypto t d = t + d * 86400 * second"
  "cr_verificationTTL demo_crypto = 1800 * second" "cr_resetTTL demo_crypto = 1800 * second"
  by (simp_all add: demo_crypto_def Hash_def Matches_def)

end
