(* ===== verification/SvcUser.thy ===== *)
theory SvcUser
  imports Auth
begin

text \<open>
  \<open>service/user/service.go\<close>: signing up, guests, credentials, leaving and suspensions. A password
  is hashed before the transaction, so a command outside the transaction draws the salt, the
  UUIDs and the instants of the new user first, and the transaction starts after these draws.

  Signing up issues the token of the mail as already used; the mail handler makes it usable once
  the mail is out. The services are modelled with all their dependencies set, as \<open>cmd/main.go\<close>
  does.
\<close>

section \<open>Helpers\<close>

definition normalizeUsername :: "string \<Rightarrow> string" where
  "normalizeUsername username = TrimSpace username"

definition svc_normalizeEmail :: "(string \<Rightarrow> string) \<Rightarrow> string \<Rightarrow> string" where
  "svc_normalizeEmail lower email = ToLower lower (TrimSpace email)"

definition hashEmailVerificationToken :: "crypto \<Rightarrow> string \<Rightarrow> string" where
  "hashEmailVerificationToken cr token = hashToken cr token"

text \<open>
  \<open>if errors.Is(err, ErrUserAlreadyExists) { return ErrUserAlreadyExists }\<close> before the wrapping.
\<close>

definition user_error :: "string \<Rightarrow> go_error \<Rightarrow> go_error" where
  "user_error label err =
     (if Is ErrUserAlreadyExists err then Sentinel ErrUserAlreadyExists else WrapRepository label (Some err))"

definition exists_or_wrapped :: "string \<Rightarrow> 'a action \<Rightarrow> 'a action" where
  "exists_or_wrapped label m = (\<lambda>e t. case env_fault e label of
      Some err \<Rightarrow> Some (Inl (user_error label err), t)
    | None \<Rightarrow> (case m e t of
        None \<Rightarrow> None
      | Some (Inl err, t') \<Rightarrow> Some (Inl (user_error label err), t')
      | Some (Inr a, t') \<Rightarrow> Some (Inr a, t')))"

definition minute :: duration where
  "minute = 60 * second"

definition issueEmailVerificationToken :: "crypto \<Rightarrow> user \<Rightarrow> (string \<times> string \<times> time) option action" where
  "issueEmailVerificationToken cr u =
     (if user_Email u = [] \<or> IsEmailVerified u then returnT None
      else
        let tokenTTL = (if cr_verificationTTL cr \<le> 0 then 30 * minute else cr_verificationTTL cr) in
        bindT (Issue ''issue email verification token'') (\<lambda>rawToken.
        bindT nowT (\<lambda>now.
          let expiresAt = now + tokenTTL; tokenHash = hashEmailVerificationToken cr rawToken in
        bindT nowT (\<lambda>created.
        bindT nowT (\<lambda>consumed.
          let verificationToken = Consume consumed (NewToken created (user_ID u) tokenHash expiresAt) in
        bindT (wrapped ''invalidate previous email verification tokens''
                 (emailVerificationTokenTx_InvalidateByUser (user_ID u))) (\<lambda>_.
        bindT (wrapped ''save email verification token''
                 (emailVerificationTokenTx_Save verificationToken)) (\<lambda>_.
          returnT (Some (rawToken, tokenHash, expiresAt)))))))))"

section \<open>Signing up and guests\<close>

definition SignUp_tx :: "crypto \<Rightarrow> string \<Rightarrow> string \<Rightarrow> user \<Rightarrow> string action" where
  "SignUp_tx cr username email newUser =
     bindT (wrapped ''select user by username for signup'' (userTx_SelectUserByUsername username)) (\<lambda>existingUser.
     bindT (ensureT (if existingUser \<noteq> None then Some (Sentinel ErrUserAlreadyExists) else None)) (\<lambda>_.
     bindT (wrapped ''select user by email for signup'' (userTx_SelectUserByEmail email)) (\<lambda>existingByEmail.
     bindT (ensureT (if existingByEmail \<noteq> None then Some (Sentinel ErrUserAlreadyExists) else None)) (\<lambda>_.
     bindT (exists_or_wrapped ''save user for signup'' (userTx_Save newUser)) (\<lambda>saved.
     bindT (issueEmailVerificationToken cr saved) (\<lambda>issued.
     bindT (case issued of
              None \<Rightarrow> returnT ()
            | Some (rawToken, tokenHash, expiresAt) \<Rightarrow>
                bindT nowT (\<lambda>at. DispatchDomainActions
                  [NewSignupEmailVerificationRequested at (user_ID saved) (user_Email saved) rawToken
                     tokenHash expiresAt])) (\<lambda>_.
       returnT ''ok'')))))))"

definition SignUp ::
  "env \<Rightarrow> crypto \<Rightarrow> nat \<Rightarrow> string \<Rightarrow> string \<Rightarrow> string \<Rightarrow> (store, string) call" where
  "SignUp e cr tick username0 email0 password =
     (let username = normalizeUsername username0; email = svc_normalizeEmail (env_lower e) email0 in
      if username = [] \<or> email = [] \<or> TrimSpace password = [] then throwC (Sentinel ErrInvalidInput)
      else if \<not> cr_address cr email then throwC (Sentinel ErrInvalidInput)
      else case Hash cr tick password of
             Inl err \<Rightarrow> throwC (Wrap ErrInternalServerError ''hash password for signup'' (Some err))
           | Inr hashedPassword \<Rightarrow>
               WithinTransaction e (tick + 3)
                 (SignUp_tx cr username email
                    (NewUserWithEmail (env_now e (tick + 2)) (env_uuid e (tick + 1)) username email hashedPassword)))"

definition deleteSignupUserAfterMailFailure :: "env \<Rightarrow> nat \<Rightarrow> int \<Rightarrow> (store, unit) call" where
  "deleteSignupUserAfterMailFailure e tick userID =
     (if userID \<le> 0 then returnC ()
      else WithinTransaction e tick (wrapped ''delete user after failed signup'' (userTx_Delete userID)))"

definition IssueGuestAccount_tx :: "user \<Rightarrow> int action" where
  "IssueGuestAccount_tx newGuest =
     bindT (exists_or_wrapped ''save user for guest issue'' (userTx_Save newGuest)) (\<lambda>saved.
       returnT (user_ID saved))"

definition IssueGuestAccount :: "env \<Rightarrow> crypto \<Rightarrow> nat \<Rightarrow> (store, int) call" where
  "IssueGuestAccount e cr tick =
     (let rawSecret = env_uuid e tick in
      case Hash cr (tick + 1) rawSecret of
        Inl err \<Rightarrow> throwC (Wrap ErrInternalServerError ''hash password for guest issue'' (Some err))
      | Inr hashedPassword \<Rightarrow>
          let guestToken = env_uuid e (tick + 2);
              newGuest = NewGuest (env_now e (tick + 4)) (env_uuid e (tick + 3)) (''guest-'' @ guestToken)
                (''guest-'' @ guestToken @ ''@example.invalid'') hashedPassword
          in WithinTransaction e (tick + 5) (IssueGuestAccount_tx newGuest))"

definition UpgradeGuest_tx :: "int \<Rightarrow> string \<Rightarrow> string \<Rightarrow> string \<Rightarrow> unit action" where
  "UpgradeGuest_tx userID username email hashedPassword =
     bindT (wrapped ''select user by id for guest upgrade'' (userTx_SelectUserByID userID)) (\<lambda>ou.
     bindT (requireT ou (Sentinel ErrUserNotFound)) (\<lambda>existingUser.
     bindT (ensureT (if \<not> IsGuest existingUser then Some (Sentinel ErrInvalidInput) else None)) (\<lambda>_.
     bindT nowT (\<lambda>now.
       exists_or_wrapped ''update user for guest upgrade''
         (userTx_Update (UpgradeGuest now username email hashedPassword existingUser))))))"

definition UpgradeGuest_cmd ::
  "env \<Rightarrow> crypto \<Rightarrow> nat \<Rightarrow> int \<Rightarrow> string \<Rightarrow> string \<Rightarrow> string \<Rightarrow> (store, unit) call" where
  "UpgradeGuest_cmd e cr tick userID username0 email0 password =
     (let username = normalizeUsername username0; email = TrimSpace email0 in
      if username = [] \<or> email = [] \<or> TrimSpace password = [] then throwC (Sentinel ErrInvalidInput)
      else case Hash cr tick password of
             Inl err \<Rightarrow> throwC (Wrap ErrInternalServerError ''hash password for guest upgrade'' (Some err))
           | Inr hashedPassword \<Rightarrow>
               WithinTransaction e (tick + 1) (UpgradeGuest_tx userID username email hashedPassword))"

section \<open>The current user and credentials\<close>

record user_model =
  um_ID :: int
  um_UUID :: string
  um_Name :: string
  um_Email :: string
  um_Guest :: bool
  um_GuestStatus :: GuestStatus
  um_EmailVerifiedAt :: "time option"
  um_Role :: string
  um_Status :: UserStatus
  um_CreatedAt :: time
  um_UpdatedAt :: time

definition UserFromEntity :: "user \<Rightarrow> user_model" where
  "UserFromEntity u =
     \<lparr>um_ID = user_ID u, um_UUID = user_UUID u, um_Name = user_Name u, um_Email = user_Email u,
      um_Guest = user_Guest u, um_GuestStatus = user_GuestStatus u,
      um_EmailVerifiedAt = user_EmailVerifiedAt u, um_Role = user_Role u, um_Status = user_Status u,
      um_CreatedAt = user_CreatedAt u, um_UpdatedAt = user_UpdatedAt u\<rparr>"

definition GetMe :: "env \<Rightarrow> int \<Rightarrow> (store, user_model) call" where
  "GetMe e userID =
     bindC (repoC e ''select current user'' (read_store st_users (selectUserByID userID))) (\<lambda>ou.
     bindC (requireC ou (Sentinel ErrUserNotFound)) (\<lambda>u. returnC (UserFromEntity u)))"

definition DeleteMe_tx :: "crypto \<Rightarrow> int \<Rightarrow> string \<Rightarrow> unit action" where
  "DeleteMe_tx cr userID password =
     bindT (wrapped ''select user by id for delete me'' (userTx_SelectUserByID userID)) (\<lambda>ou.
     bindT (requireT ou (Sentinel ErrUserNotFound)) (\<lambda>existingUser.
     bindT (ensureT (if IsGuest existingUser then Some (Sentinel ErrForbidden) else None)) (\<lambda>_.
     bindT (ensureT (case Matches cr (user_Password existingUser) password of
              Inl err \<Rightarrow> Some (Wrap ErrInternalServerError ''compare password for delete me'' (Some err))
            | Inr matched \<Rightarrow> if \<not> matched then Some (Sentinel ErrInvalidCredential) else None)) (\<lambda>_.
     bindT nowT (\<lambda>now.
       wrapped ''soft delete user for delete me'' (userTx_Update (User_SoftDelete now existingUser)))))))"

definition DeleteMe :: "env \<Rightarrow> crypto \<Rightarrow> nat \<Rightarrow> int \<Rightarrow> string \<Rightarrow> (store, unit) call" where
  "DeleteMe e cr tick userID password = WithinTransaction e tick (DeleteMe_tx cr userID password)"

definition VerifyCredentials :: "env \<Rightarrow> crypto \<Rightarrow> string \<Rightarrow> string \<Rightarrow> (store, int) call" where
  "VerifyCredentials e cr username0 password =
     (let username = normalizeUsername username0 in
      if username = [] then throwC (Sentinel ErrInvalidCredential)
      else
        bindC (repoC e ''select user by username for verify credentials''
                 (read_store st_users (selectUserByUsername username))) (\<lambda>ou.
        bindC (requireC ou (Sentinel ErrInvalidCredential)) (\<lambda>existingUser.
        bindC (ensureC (if IsGuest existingUser then Some (Sentinel ErrInvalidCredential) else None)) (\<lambda>_.
        bindC (ensureC (case Matches cr (user_Password existingUser) password of
                 Inl err \<Rightarrow> Some (Wrap ErrInternalServerError ''compare password for verify credentials'' (Some err))
               | Inr matched \<Rightarrow> if \<not> matched then Some (Sentinel ErrInvalidCredential) else None)) (\<lambda>_.
          returnC (user_ID existingUser))))))"

text \<open>\<open>RequireAdminUser\<close> on the repository itself; the guard is the one of a transaction.\<close>

definition EnsureAdmin :: "env \<Rightarrow> int \<Rightarrow> (store, unit) call" where
  "EnsureAdmin e userID =
     bindC (repoC e ''select admin by id for ensure admin'' (read_store st_users (selectUserByID userID))) (\<lambda>ou.
     bindC (requireC ou (Sentinel ErrUserNotFound)) (\<lambda>u. ensureC (AdminOnly (Some u))))"

section \<open>Suspensions\<close>

definition SuspensionDuration_ToEntity :: "string \<Rightarrow> SuspensionDuration \<times> bool" where
  "SuspensionDuration_ToEntity d =
     (if d = ''7d'' \<or> d = ''15d'' \<or> d = ''30d'' \<or> d = ''unlimited'' then (d, True) else ([], False))"

definition SuspendUser_tx :: "int \<Rightarrow> string \<Rightarrow> string \<Rightarrow> time option \<Rightarrow> unit action" where
  "SuspendUser_tx adminID targetUserUUID reason until =
     bindT (RequireAdminUser adminID ''suspend user'') (\<lambda>_.
     bindT (wrapped ''select target user by uuid for suspend user'' (userTx_SelectUserByUUID targetUserUUID)) (\<lambda>ot.
     bindT (requireT ot (Sentinel ErrUserNotFound)) (\<lambda>target.
     bindT nowT (\<lambda>now.
       wrapped ''update user suspension'' (userTx_Update (Suspend now (TrimSpace reason) until target))))))"

definition SuspendUser ::
  "env \<Rightarrow> crypto \<Rightarrow> nat \<Rightarrow> int \<Rightarrow> string \<Rightarrow> string \<Rightarrow> string \<Rightarrow> (store, unit) call" where
  "SuspendUser e cr tick adminID targetUserUUID reason dur =
     (if TrimSpace reason = [] then throwC (Sentinel ErrInvalidInput)
      else case SuspensionDuration_ToEntity dur of (entityDuration, ok) \<Rightarrow>
        if \<not> ok then throwC (Sentinel ErrInvalidInput)
        else case EndTime (cr_add_days cr) entityDuration (env_now e tick) of (until, ok') \<Rightarrow>
          if \<not> ok' then throwC (Sentinel ErrInvalidInput)
          else WithinTransaction e (tick + 1) (SuspendUser_tx adminID targetUserUUID reason until))"

record user_suspension =
  us_UserUUID :: string
  us_Status :: UserStatus
  us_Reason :: string
  us_SuspendedUntil :: "time option"

definition GetUserSuspension_tx :: "int \<Rightarrow> string \<Rightarrow> user_suspension action" where
  "GetUserSuspension_tx adminID targetUserUUID =
     bindT (RequireAdminUser adminID ''get user suspension'') (\<lambda>_.
     bindT (wrapped ''select target user by uuid for get user suspension''
              (userTx_SelectUserByUUID targetUserUUID)) (\<lambda>ot.
     bindT (requireT ot (Sentinel ErrUserNotFound)) (\<lambda>target.
     bindT nowT (\<lambda>now.
       returnT
         (if user_Status target = UserStatusSuspended \<and> \<not> IsSuspended now target
          then \<lparr>us_UserUUID = user_UUID target, us_Status = UserStatusActive, us_Reason = [],
                us_SuspendedUntil = None\<rparr>
          else \<lparr>us_UserUUID = user_UUID target, us_Status = user_Status target,
                us_Reason = user_SuspensionReason target,
                us_SuspendedUntil = user_SuspendedUntil target\<rparr>)))))"

definition GetUserSuspension :: "env \<Rightarrow> nat \<Rightarrow> int \<Rightarrow> string \<Rightarrow> (store, user_suspension) call" where
  "GetUserSuspension e tick adminID targetUserUUID =
     WithinTransaction e tick (GetUserSuspension_tx adminID targetUserUUID)"

definition UnsuspendUser_tx :: "int \<Rightarrow> string \<Rightarrow> unit action" where
  "UnsuspendUser_tx adminID targetUserUUID =
     bindT (RequireAdminUser adminID ''unsuspend user'') (\<lambda>_.
     bindT (wrapped ''select target user by uuid for unsuspend user'' (userTx_SelectUserByUUID targetUserUUID)) (\<lambda>ot.
     bindT (requireT ot (Sentinel ErrUserNotFound)) (\<lambda>target.
     bindT nowT (\<lambda>now. wrapped ''clear user suspension'' (userTx_Update (Unsuspend now target))))))"

definition UnsuspendUser :: "env \<Rightarrow> nat \<Rightarrow> int \<Rightarrow> string \<Rightarrow> (store, unit) call" where
  "UnsuspendUser e tick adminID targetUserUUID =
     WithinTransaction e tick (UnsuspendUser_tx adminID targetUserUUID)"

section \<open>Failure and blocking\<close>

lemma exists_or_wrapped_run [tx_simps]:
  "exists_or_wrapped label m e t = Some (Inr a, t') \<longleftrightarrow> env_fault e label = None \<and> m e t = Some (Inr a, t')"
  by (auto simp: exists_or_wrapped_def split: option.splits sum.splits)

lemma atomic_exists_or_wrapped [atomic_intros]: "atomic m \<Longrightarrow> atomic (exists_or_wrapped label m)"
  unfolding atomic_def exists_or_wrapped_def by (fastforce split: option.splits sum.splits)

lemma returns_exists_or_wrapped [returns_intros]: "returns m \<Longrightarrow> returns (exists_or_wrapped label m)"
  unfolding returns_def exists_or_wrapped_def by (auto split: option.splits sum.splits)

lemmas user_tx_defs =
  userTx_Save_def userTx_SelectUserByUsername_def userTx_SelectUserByEmail_def userTx_SelectUserByUUID_def
  userTx_SelectUserByID_def userTx_Update_def userTx_Delete_def userTx_SelectUserByIDIncludingDeleted_def

lemma user_part_atomic [atomic_intros]:
  "atomic (userTx_Save u)" "atomic (userTx_Update u)" "atomic (userTx_Delete i)" "atomic (userTx_SelectUserByID i)"
  "atomic (userTx_SelectUserByUsername name)" "atomic (userTx_SelectUserByEmail email)"
  "atomic (userTx_SelectUserByUUID uuid)" "atomic (userTx_SelectUserByIDIncludingDeleted i)"
  unfolding user_tx_defs by (intro atomic_intros)+

lemma user_part_returns [returns_intros]:
  "returns (userTx_Save u)" "returns (userTx_Update u)" "returns (userTx_Delete i)" "returns (userTx_SelectUserByID i)"
  "returns (userTx_SelectUserByUsername name)" "returns (userTx_SelectUserByEmail email)"
  "returns (userTx_SelectUserByUUID uuid)" "returns (userTx_SelectUserByIDIncludingDeleted i)"
  unfolding user_tx_defs by (intro returns_intros)+

lemma Issue_atomic [atomic_intros]: "atomic (Issue label)"
  unfolding Issue_def by (intro atomic_intros)

lemma Issue_returns [returns_intros]: "returns (Issue label)"
  unfolding Issue_def by (intro returns_intros)

lemma issue_email_atomic [atomic_intros]: "atomic (issueEmailVerificationToken cr u)"
  unfolding issueEmailVerificationToken_def Let_def emailVerificationTokenTx_InvalidateByUser_def
    emailVerificationTokenTx_Save_def
  by (intro atomic_intros)

lemma issue_email_returns [returns_intros]: "returns (issueEmailVerificationToken cr u)"
  unfolding issueEmailVerificationToken_def Let_def emailVerificationTokenTx_InvalidateByUser_def
    emailVerificationTokenTx_Save_def
  by (intro returns_intros)

lemma user_tx_atomic [atomic_intros]:
  "atomic (SignUp_tx cr username email u)" "atomic (IssueGuestAccount_tx u)"
  "atomic (UpgradeGuest_tx userID username email hashed)" "atomic (DeleteMe_tx cr userID password)"
  "atomic (SuspendUser_tx adminID uuid reason until)" "atomic (GetUserSuspension_tx adminID uuid)"
  "atomic (UnsuspendUser_tx adminID uuid)"
  unfolding SignUp_tx_def IssueGuestAccount_tx_def UpgradeGuest_tx_def DeleteMe_tx_def SuspendUser_tx_def
    GetUserSuspension_tx_def UnsuspendUser_tx_def
  by (intro atomic_intros)+

lemma user_tx_returns [returns_intros]:
  "returns (SignUp_tx cr username email u)" "returns (IssueGuestAccount_tx u)"
  "returns (UpgradeGuest_tx userID username email hashed)" "returns (DeleteMe_tx cr userID password)"
  "returns (SuspendUser_tx adminID uuid reason until)" "returns (GetUserSuspension_tx adminID uuid)"
  "returns (UnsuspendUser_tx adminID uuid)"
  unfolding SignUp_tx_def IssueGuestAccount_tx_def UpgradeGuest_tx_def DeleteMe_tx_def SuspendUser_tx_def
    GetUserSuspension_tx_def UnsuspendUser_tx_def
  by (intro returns_intros)+

text \<open>The services as calls: always an answer, and an error leaves the store as it was.\<close>

definition undoes :: "('s, 'a) call \<Rightarrow> bool" where
  "undoes m \<longleftrightarrow> (\<forall>w err w'. m w = Some (Inl err, w') \<longrightarrow> w' = w)"

named_theorems undoes_intros \<open>calls that change nothing when they fail\<close>

lemma undoes_basic [undoes_intros]:
  "undoes (throwC err)" "undoes (returnC a)" "atomic fn \<Longrightarrow> undoes (WithinTransaction e tick fn)"
  "undoes m \<Longrightarrow> undoes n \<Longrightarrow> undoes (if b then m else n)"
  "(\<And>l. undoes (g l)) \<Longrightarrow> (\<And>r. undoes (h r)) \<Longrightarrow> undoes (case y of Inl l \<Rightarrow> g l | Inr r \<Rightarrow> h r)"
  "(\<And>a b. undoes (k a b)) \<Longrightarrow> undoes (case z of (a, b) \<Rightarrow> k a b)"
  by (auto simp: undoes_def throwC_def returnC_def dest: atomic_rollback split: sum.splits prod.splits)

lemmas user_commands =
  SignUp_def IssueGuestAccount_def UpgradeGuest_cmd_def DeleteMe_def SuspendUser_def UnsuspendUser_def
  GetUserSuspension_def deleteSignupUserAfterMailFailure_def

lemma user_commands_undo [undoes_intros]:
  "undoes (SignUp e cr tick username email password)" "undoes (IssueGuestAccount e cr tick)"
  "undoes (UpgradeGuest_cmd e cr tick userID username email password)" "undoes (DeleteMe e cr tick userID password)"
  "undoes (SuspendUser e cr tick adminID uuid reason dur)" "undoes (UnsuspendUser e tick adminID uuid)"
  "undoes (GetUserSuspension e tick adminID uuid)" "undoes (deleteSignupUserAfterMailFailure e tick userID)"
  unfolding user_commands Let_def by (intro undoes_intros atomic_intros)+

lemma user_commands_return [returnsC_intros]:
  "returnsC (SignUp e cr tick username email password)" "returnsC (IssueGuestAccount e cr tick)"
  "returnsC (UpgradeGuest_cmd e cr tick userID username email password)"
  "returnsC (DeleteMe e cr tick userID password)"
  "returnsC (SuspendUser e cr tick adminID uuid reason dur)" "returnsC (UnsuspendUser e tick adminID uuid)"
  "returnsC (GetUserSuspension e tick adminID uuid)" "returnsC (deleteSignupUserAfterMailFailure e tick userID)"
  unfolding user_commands Let_def by (intro returnsC_intros returns_intros)+

section \<open>What the user repository answered\<close>

lemma selectUserByID_row:
  assumes "users_ok lower r" "selectUserByID i r = Some u"
  shows "db_get r i = Some u" "\<not> IsDeleted u" "user_ID u = i"
  using assms db_get_bounds [of user_ID r i u]
  by (auto simp: selectUserByID_def users_ok_def split: option.splits if_splits)

lemma selectUserByUUID_row:
  assumes "users_ok lower r" "selectUserByUUID uuid r = Some u"
  shows "db_get r (user_ID u) = Some u" "\<not> IsDeleted u" "user_UUID u = uuid"
  using assms db_get_row [of user_ID r] by (auto simp: selectUserByUUID_def users_ok_def find_Some_iff)

lemma selectUserByUsername_row:
  assumes "users_ok lower r" "selectUserByUsername name r = Some u"
  shows "db_get r (user_ID u) = Some u" "\<not> IsDeleted u" "user_Name u = name"
  using assms db_get_row [of user_ID r] by (auto simp: selectUserByUsername_def users_ok_def find_Some_iff)

lemma User_update_done:
  assumes "User_update lower u r = (Inr x, r')" "db_get r (user_ID u) \<noteq> None" "users_ok lower r"
  shows "db_get r' = (db_get r)(user_ID u \<mapsto> u)" "users_ok lower r'"
    "\<forall>i v. db_get r i = Some v \<longrightarrow> i \<noteq> user_ID u \<longrightarrow> \<not> usersConflict lower v u"
proof -
  show "db_get r' = (db_get r)(user_ID u \<mapsto> u)"
    using assms(1,2) by (auto simp: User_update_def split: option.splits if_splits)
  show "users_ok lower r'" by (rule User_update_ok [OF assms(3,1)])
  show "\<forall>i v. db_get r i = Some v \<longrightarrow> i \<noteq> user_ID u \<longrightarrow> \<not> usersConflict lower v u"
    using assms(1,2) by (auto simp: User_update_def db_get_def split: option.splits if_splits dest!: map_of_SomeD)
qed

lemma User_update_clash:
  assumes "db_get r (user_ID u) \<noteq> None" "db_get r i = Some v" "i \<noteq> user_ID u" "usersConflict lower v u"
  shows "User_update lower u r = (Inl (Sentinel ErrUserAlreadyExists), r)"
proof -
  have "(i, v) \<in> set (db_Data r)" using assms(2) by (auto simp: db_get_def dest: map_of_SomeD)
  with assms(1,3,4) show ?thesis by (auto simp: User_update_def split: option.splits)
qed

text \<open>One row of the users was replaced; \<open>s'\<close> is otherwise \<open>s\<close>.\<close>

definition user_replaced :: "env \<Rightarrow> user \<Rightarrow> store \<Rightarrow> store \<Rightarrow> bool" where
  "user_replaced e u s s' \<longleftrightarrow> s'\<lparr>st_users := st_users s\<rparr> = s \<and>
     db_get (st_users s') = (db_get (st_users s))(user_ID u \<mapsto> u) \<and> users_ok (env_lower e) (st_users s')"

lemma user_replaced_select:
  assumes "user_replaced e u s s'"
  shows "selectUserByID i (st_users s') =
    (if i = user_ID u then if IsDeleted u then None else Some u else selectUserByID i (st_users s))"
  using assms by (simp add: user_replaced_def selectUserByID_def)

lemma userTx_Update_run:
  assumes "userTx_Update u e t = Some (Inr x, t')" "users_ok (env_lower e) (st_users (tx_store t))"
    and "db_get (st_users (tx_store t)) (user_ID u) \<noteq> None"
  shows "user_replaced e u (tx_store t) (tx_store t')"
proof -
  from assms(1) obtain r where r: "User_update (env_lower e) u (st_users (tx_store t)) = (Inr x, r)"
    and t': "tx_store t' = (tx_store t)\<lparr>st_users := r\<rparr>"
    by (auto simp: userTx_Update_def tx_simps)
  with User_update_done [OF r assms(3,2)] show ?thesis by (simp add: user_replaced_def)
qed

section \<open>Successful commands\<close>

text \<open>The token of the mail, as it is saved before the mail is out.\<close>

definition mail_token :: "crypto \<Rightarrow> int \<Rightarrow> string \<Rightarrow> time \<Rightarrow> token \<Rightarrow> bool" where
  "mail_token cr userID rawToken expiresAt tok \<longleftrightarrow> (\<exists>buf. rawToken = EncodeToString buf) \<and>
     token_UserID tok = userID \<and> token_TokenHash tok = hashToken cr rawToken \<and>
     token_ExpiresAt tok = expiresAt \<and> IsConsumed tok \<and> token_DeliveredAt tok = None"

lemma mail_token_new:
  "mail_token cr userID (EncodeToString buf) expiresAt
    (Consume consumed (NewToken created userID (hashToken cr (EncodeToString buf)) expiresAt))"
  by (auto simp: mail_token_def Consume_def NewToken_def IsConsumed_def)

lemma issue_email_run:
  assumes "issueEmailVerificationToken cr u e t = Some (Inr res, t')"
  shows "if user_Email u = [] \<or> IsEmailVerified u then res = None \<and> t' = t
    else \<exists>rawToken expiresAt tok. res = Some (rawToken, hashToken cr rawToken, expiresAt) \<and>
      mail_token cr (user_ID u) rawToken expiresAt tok \<and>
      tx_store t' = (tx_store t)\<lparr>st_email_tokens :=
        EmailVerification_save tok (EmailVerification_invalidateByUser (user_ID u) (st_email_tokens (tx_store t)))\<rparr>"
  using assms
  by (auto simp: issueEmailVerificationToken_def Issue_def Let_def tx_simps hashEmailVerificationToken_def
      emailVerificationTokenTx_InvalidateByUser_def emailVerificationTokenTx_Save_def
      intro!: exI [of _ "Consume _ (NewToken _ _ _ _)"] mail_token_new)

lemma DeleteMe_tx_run:
  assumes "DeleteMe_tx cr userID password e t = Some (Inr x, t')" "users_ok (env_lower e) (st_users (tx_store t))"
  shows "\<exists>u now. selectUserByID userID (st_users (tx_store t)) = Some u \<and> \<not> IsGuest u \<and>
    Matches cr (user_Password u) password = Inr True \<and>
    user_replaced e (User_SoftDelete now u) (tx_store t) (tx_store t')"
proof -
  from assms(1) obtain u where u: "selectUserByID userID (st_users (tx_store t)) = Some u" "\<not> IsGuest u"
      "Matches cr (user_Password u) password = Inr True"
    and w: "userTx_Update (User_SoftDelete (env_now e (tx_tick t)) u) e (t\<lparr>tx_tick := Suc (tx_tick t)\<rparr>) =
      Some (Inr x, t')"
    by (auto simp: DeleteMe_tx_def userTx_SelectUserByID_def tx_simps split: if_splits sum.splits)
  have "db_get (st_users (tx_store t)) (user_ID u) \<noteq> None"
    using selectUserByID_row [OF assms(2) u(1)] by simp
  with userTx_Update_run [OF w] assms(2) u show ?thesis by (force simp: User_SoftDelete_def)
qed

lemma suspension_tx_run:
  "SuspendUser_tx adminID uuid reason until e t = Some (Inr x, t') \<Longrightarrow>
    users_ok (env_lower e) (st_users (tx_store t)) \<Longrightarrow>
    (\<exists>a. selectUserByID adminID (st_users (tx_store t)) = Some a \<and> IsAdmin a) \<and>
    (\<exists>u now. selectUserByUUID uuid (st_users (tx_store t)) = Some u \<and>
      user_replaced e (Suspend now (TrimSpace reason) until u) (tx_store t) (tx_store t'))"
  "UnsuspendUser_tx adminID uuid e t = Some (Inr y, t') \<Longrightarrow>
    users_ok (env_lower e) (st_users (tx_store t)) \<Longrightarrow>
    (\<exists>a. selectUserByID adminID (st_users (tx_store t)) = Some a \<and> IsAdmin a) \<and>
    (\<exists>u now. selectUserByUUID uuid (st_users (tx_store t)) = Some u \<and>
      user_replaced e (Unsuspend now u) (tx_store t) (tx_store t'))"
proof -
  assume ok: "users_ok (env_lower e) (st_users (tx_store t))"
  note row = selectUserByUUID_row(1) [OF ok]
  assume "SuspendUser_tx adminID uuid reason until e t = Some (Inr x, t')"
  then obtain a u where a: "selectUserByID adminID (st_users (tx_store t)) = Some a" "IsAdmin a"
    and u: "selectUserByUUID uuid (st_users (tx_store t)) = Some u"
    and w: "userTx_Update (Suspend (env_now e (tx_tick t)) (TrimSpace reason) until u) e (t\<lparr>tx_tick := Suc (tx_tick t)\<rparr>) = Some (Inr x, t')"
    by (auto simp: SuspendUser_tx_def userTx_SelectUserByUUID_def tx_simps split: if_splits)
  from userTx_Update_run [OF w] u ok row [OF u(1)] a
  show "(\<exists>a. selectUserByID adminID (st_users (tx_store t)) = Some a \<and> IsAdmin a) \<and>
    (\<exists>u now. selectUserByUUID uuid (st_users (tx_store t)) = Some u \<and>
      user_replaced e (Suspend now (TrimSpace reason) until u) (tx_store t) (tx_store t'))"
    by (auto simp: Suspend_def)
next
  assume ok: "users_ok (env_lower e) (st_users (tx_store t))"
  note row = selectUserByUUID_row(1) [OF ok]
  assume "UnsuspendUser_tx adminID uuid e t = Some (Inr y, t')"
  then obtain a u where a: "selectUserByID adminID (st_users (tx_store t)) = Some a" "IsAdmin a"
    and u: "selectUserByUUID uuid (st_users (tx_store t)) = Some u"
    and w: "userTx_Update (Unsuspend (env_now e (tx_tick t)) u) e (t\<lparr>tx_tick := Suc (tx_tick t)\<rparr>) = Some (Inr y, t')"
    by (auto simp: UnsuspendUser_tx_def userTx_SelectUserByUUID_def tx_simps)
  from userTx_Update_run [OF w] u ok row [OF u(1)] a
  show "(\<exists>a. selectUserByID adminID (st_users (tx_store t)) = Some a \<and> IsAdmin a) \<and>
    (\<exists>u now. selectUserByUUID uuid (st_users (tx_store t)) = Some u \<and>
      user_replaced e (Unsuspend now u) (tx_store t) (tx_store t'))"
    by (auto simp: Unsuspend_def)
qed

text \<open>A new row, with no other name, address or UUID like it; \<open>s'\<close> is otherwise \<open>s\<close>.\<close>

definition user_added :: "env \<Rightarrow> user \<Rightarrow> store \<Rightarrow> store \<Rightarrow> bool" where
  "user_added e u s s' \<longleftrightarrow>
     db_get (st_users s) (user_ID u) = None \<and>
     db_get (st_users s') = (db_get (st_users s))(user_ID u \<mapsto> u) \<and> users_ok (env_lower e) (st_users s') \<and>
     (\<forall>i x. db_get (st_users s) i = Some x \<longrightarrow> \<not> usersConflict (env_lower e) x u)"

lemma userTx_Save_run:
  assumes "userTx_Save u e t = Some (Inr saved, t')" "users_ok (env_lower e) (st_users (tx_store t))"
  shows "user_added e saved (tx_store t) (tx_store t') \<and> saved = u\<lparr>user_ID := user_ID saved\<rparr> \<and>
    (tx_store t')\<lparr>st_users := st_users (tx_store t)\<rparr> = tx_store t"
proof -
  from assms(1) obtain r where r: "User_save (env_lower e) u (st_users (tx_store t)) = (Inr saved, r)"
    and t': "tx_store t' = (tx_store t)\<lparr>st_users := r\<rparr>"
    by (auto simp: userTx_Save_def tx_simps)
  have ok: "db_ok user_ID (st_users (tx_store t))" using assms(2) by (simp add: users_ok_def)
  from User_save_saved [OF ok r] users.saved_inv [OF assms(2) r] db_fresh [OF ok] t' show ?thesis
    by (auto simp: user_added_def)
qed

definition signed_up :: "env \<Rightarrow> crypto \<Rightarrow> user \<Rightarrow> store \<Rightarrow> store \<Rightarrow> bool" where
  "signed_up e cr u s s' \<longleftrightarrow> user_added e u s s' \<and>
     (\<exists>rawToken expiresAt tok at. mail_token cr (user_ID u) rawToken expiresAt tok \<and>
        st_email_tokens s' =
          EmailVerification_save tok (EmailVerification_invalidateByUser (user_ID u) (st_email_tokens s)) \<and>
        queued e [NewSignupEmailVerificationRequested at (user_ID u) (user_Email u) rawToken
          (hashToken cr rawToken) expiresAt] s s') \<and>
     s'\<lparr>st_users := st_users s, st_email_tokens := st_email_tokens s, st_outbox := st_outbox s\<rparr> = s"

lemma SignUp_tx_run:
  assumes "SignUp_tx cr username email u e t = Some (Inr x, t')" "users_ok (env_lower e) (st_users (tx_store t))"
    and "user_Email u \<noteq> []" "\<not> IsEmailVerified u"
  shows "x = ''ok'' \<and> (\<exists>saved. saved = u\<lparr>user_ID := user_ID saved\<rparr> \<and> signed_up e cr saved (tx_store t) (tx_store t'))"
proof -
  define s where "s = tx_store t"
  from assms(1) obtain saved t1 t2 issued where
    w: "userTx_Save u e t = Some (Inr saved, t1)" and x: "x = ''ok''"
    and i: "issueEmailVerificationToken cr saved e t1 = Some (Inr issued, t2)"
    and r: "(case issued of
              None \<Rightarrow> returnT ()
            | Some (rawToken, tokenHash, expiresAt) \<Rightarrow>
                bindT nowT (\<lambda>at. DispatchDomainActions
                  [NewSignupEmailVerificationRequested at (user_ID saved) (user_Email saved) rawToken
                     tokenHash expiresAt])) e t2 = Some (Inr (), t')"
    by (clarsimp simp: SignUp_tx_def userTx_SelectUserByUsername_def userTx_SelectUserByEmail_def tx_simps)
  from userTx_Save_run [OF w] assms(2) have
    a: "user_added e saved s (tx_store t1)" "saved = u\<lparr>user_ID := user_ID saved\<rparr>"
    and s1: "(tx_store t1)\<lparr>st_users := st_users s\<rparr> = s" by (simp_all add: s_def)
  have "user_Email saved = user_Email u" "IsEmailVerified saved = IsEmailVerified u"
    by (subst a(2); simp add: IsEmailVerified_def)+
  with assms(3,4) have c: "\<not> (user_Email saved = [] \<or> IsEmailVerified saved)" by simp
  with issue_email_run [OF i] obtain rawToken expiresAt tok where
    tok: "mail_token cr (user_ID saved) rawToken expiresAt tok" "issued = Some (rawToken, hashToken cr rawToken, expiresAt)"
    and s2: "tx_store t2 = (tx_store t1)\<lparr>st_email_tokens :=
        EmailVerification_save tok (EmailVerification_invalidateByUser (user_ID saved) (st_email_tokens (tx_store t1)))\<rparr>"
    by auto
  define at where "at = env_now e (tx_tick t2)"
  have d: "DispatchDomainActions [NewSignupEmailVerificationRequested at (user_ID saved) (user_Email saved) rawToken
        (hashToken cr rawToken) expiresAt] e (t2\<lparr>tx_tick := Suc (tx_tick t2)\<rparr>) = Some (Inr (), t')"
    using r by (simp add: tok(2) at_def tx_simps)
  have f: "st_email_tokens (tx_store t1) = st_email_tokens s" "st_outbox (tx_store t1) = st_outbox s"
    using arg_cong [OF s1, of st_email_tokens] arg_cong [OF s1, of st_outbox] by simp_all
  from Dispatch_queued [OF d, of s] s2 f have
    q: "queued e [NewSignupEmailVerificationRequested at (user_ID saved) (user_Email saved) rawToken
        (hashToken cr rawToken) expiresAt] s (tx_store t')"
    and s': "tx_store t' = (tx_store t2)\<lparr>st_outbox := st_outbox (tx_store t')\<rparr>"
    by simp_all
  have "st_users (tx_store t') = st_users (tx_store t1)" "st_email_tokens (tx_store t') =
      EmailVerification_save tok (EmailVerification_invalidateByUser (user_ID saved) (st_email_tokens s))"
    by (subst s'; simp add: s2 f)+
  moreover have "(tx_store t')\<lparr>st_users := st_users s, st_email_tokens := st_email_tokens s,
      st_outbox := st_outbox s\<rparr> = s"
    using s1 s2 s' by (cases s; cases "tx_store t1"; cases "tx_store t2"; cases "tx_store t'") simp
  ultimately have "signed_up e cr saved s (tx_store t')"
    using a(1) tok(1) q unfolding signed_up_def user_added_def by auto
  with x a(2) show ?thesis unfolding s_def by blast
qed

lemma selectUserByUUID_found:
  assumes "users_ok lower r" "db_get r i = Some u" "\<not> IsDeleted u"
  shows "selectUserByUUID (user_UUID u) r = Some u"
proof -
  have ok: "db_ok user_ID r" using assms(1) by (simp add: users_ok_def)
  have "selectUserByUUID (user_UUID u) r \<noteq> None"
    using assms(2,3) db_get_row [OF ok] by (auto simp: selectUserByUUID_def find_None_iff)
  then obtain v where v: "selectUserByUUID (user_UUID u) r = Some v" by blast
  note row = selectUserByUUID_row [OF assms(1) v]
  have "user_ID v = i"
    using row assms(1,2) unfolding users_ok_def usersConflict_def by metis
  with row(1) assms(2) v show ?thesis by simp
qed

section \<open>Properties\<close>

text \<open>
  A successful sign-up comes with a name, a well-formed address and a password that are not
  blank. It stores one new user, an ordinary member with the trimmed name, the normalised address and
  the hash of the password, not verified; no stored user has its name, address or UUID. The only
  verification token of the user is saved as used already, and the mail is queued with the raw
  token; nothing else changes.
\<close>

theorem SignUp_effect:
  assumes "SignUp e cr tick username email password s = Some (Inr r, s')" "users_ok (env_lower e) (st_users s)"
  shows "\<exists>u. Hash cr tick password = Inr (user_Password u) \<and> TrimSpace password \<noteq> [] \<and>
    user_Name u = TrimSpace username \<and> user_Name u \<noteq> [] \<and>
    user_Email u = normalizeEmail (env_lower e) email \<and> cr_address cr (user_Email u) \<and>
    \<not> IsAdmin u \<and> \<not> IsGuest u \<and> \<not> IsEmailVerified u \<and> signed_up e cr u s s'"
proof -
  define name where "name = TrimSpace username"
  define mail where "mail = normalizeEmail (env_lower e) email"
  obtain hashed where h: "Hash cr tick password = Inr hashed" "TrimSpace password \<noteq> []" "name \<noteq> []" "mail \<noteq> []"
      "cr_address cr mail"
    and w: "WithinTransaction e (tick + 3) (SignUp_tx cr name mail
      (NewUserWithEmail (env_now e (tick + 2)) (env_uuid e (tick + 1)) name mail hashed)) s = Some (Inr r, s')"
    using assms(1) by (auto simp: SignUp_def Let_def normalizeUsername_def svc_normalizeEmail_def
        normalizeEmail_def name_def mail_def throwC_def split: if_splits sum.splits)
  define u0 where "u0 = NewUserWithEmail (env_now e (tick + 2)) (env_uuid e (tick + 1)) name mail hashed"
  from w obtain t where t: "SignUp_tx cr name mail u0 e (begin_tx (tick + 3) s) = Some (Inr r, t)" "s' = tx_store t"
    unfolding u0_def by (auto simp: atomic_commit [OF user_tx_atomic(1)])
  have "user_Email u0 \<noteq> []" "\<not> IsEmailVerified u0"
    using h by (simp_all add: u0_def NewUserWithEmail_def IsEmailVerified_def)
  from SignUp_tx_run [OF t(1) _ this] assms(2) t(2) obtain u where
    u: "u = u0\<lparr>user_ID := user_ID u\<rparr>" "signed_up e cr u s s'" by auto
  have "user_Password u = hashed" "user_Name u = name" "user_Email u = mail" "\<not> IsAdmin u" "\<not> IsGuest u"
    "\<not> IsEmailVerified u"
    by (subst u(1); simp add: u0_def NewUserWithEmail_def IsAdmin_def IsGuest_def IsEmailVerified_def)+
  with h u(2) show ?thesis unfolding name_def mail_def by (intro exI [of _ u]) simp
qed

text \<open>
  Leaving takes the right password and is not for guests. The row is kept under a name of its
  own, without address and password, as deleted: the user is found neither by key nor by name,
  and nothing but this row changes.
\<close>

theorem DeleteMe_effect:
  assumes "DeleteMe e cr tick userID password s = Some (Inr (), s')" "users_ok (env_lower e) (st_users s)"
  shows "\<exists>u now. selectUserByID userID (st_users s) = Some u \<and> \<not> IsGuest u \<and>
    Matches cr (user_Password u) password = Inr True \<and>
    user_replaced e (User_SoftDelete now u) s s' \<and>
    selectUserByID userID (st_users s') = None \<and> selectUserByUsername (user_Name u) (st_users s') = None"
proof -
  from assms(1) obtain t where t: "DeleteMe_tx cr userID password e (begin_tx tick s) = Some (Inr (), t)" "s' = tx_store t"
    by (auto simp: DeleteMe_def atomic_commit [OF user_tx_atomic(4)])
  from DeleteMe_tx_run [OF t(1)] assms(2) t(2) obtain u now where
    u: "selectUserByID userID (st_users s) = Some u" "\<not> IsGuest u" "Matches cr (user_Password u) password = Inr True"
    and r: "user_replaced e (User_SoftDelete now u) s s'" by auto
  note row = selectUserByID_row [OF assms(2) u(1)]
  have gone: "selectUserByID userID (st_users s') = None"
    using user_replaced_select [OF r] row by (simp add: User_SoftDelete_def IsDeleted_def)
  have "selectUserByUsername (user_Name u) (st_users s') = None"
  proof (rule ccontr)
    assume "selectUserByUsername (user_Name u) (st_users s') \<noteq> None"
    then obtain v where v: "selectUserByUsername (user_Name u) (st_users s') = Some v" by blast
    have ok: "users_ok (env_lower e) (st_users s')" using r by (simp add: user_replaced_def)
    note v' = selectUserByUsername_row [OF ok v]
    then have "db_get (st_users s) (user_ID v) = Some v" "user_ID v \<noteq> user_ID u"
      using r by (auto simp: user_replaced_def User_SoftDelete_def IsDeleted_def split: if_splits)
    with users_name_unique [OF assms(2) this(1) row(1)] v'(3) row(3) show False by simp
  qed
  with u r gone show ?thesis by blast
qed

text \<open>The name a user's row gets when the user leaves.\<close>

definition left_name :: "int \<Rightarrow> string" where
  "left_name i = ''deleted-user-'' @ FormatInt i"

lemma DeleteMe_blocked:
  assumes "users_ok lower (st_users s)" "selectUserByID victim (st_users s) = Some v"
    and "db_get (st_users s) i = Some u" "i \<noteq> victim" "user_Name u = left_name victim"
  shows "\<exists>err. DeleteMe e cr tick victim pw s = Some (Inl err, s) \<and>
    (env_fault e = (\<lambda>_. None) \<and> \<not> IsGuest v \<and> Matches cr (user_Password v) pw = Inr True \<longrightarrow>
       err = WrapRepository ''soft delete user for delete me'' (Some (Sentinel ErrUserAlreadyExists)))"
proof -
  note v = selectUserByID_row [OF assms(1,2)]
  have clash: "User_update lower (User_SoftDelete now v) (st_users s) =
      (Inl (Sentinel ErrUserAlreadyExists), st_users s)" for now lower
    by (rule User_update_clash [of _ _ i u])
      (use assms(3-5) v in \<open>auto simp: User_SoftDelete_def usersConflict_def left_name_def\<close>)
  obtain res s2 where res: "DeleteMe e cr tick victim pw s = Some (res, s2)"
    using user_commands_return(4) [of e cr tick victim pw] unfolding returnsC_def by (metis not_None_eq surj_pair)
  show ?thesis
  proof (cases res)
    case (Inl err)
    have "err = WrapRepository ''soft delete user for delete me'' (Some (Sentinel ErrUserAlreadyExists))"
      if "env_fault e = (\<lambda>_. None) \<and> \<not> IsGuest v \<and> Matches cr (user_Password v) pw = Inr True"
      using that res [unfolded Inl] assms(2) clash
      by (auto simp: DeleteMe_def DeleteMe_tx_def WithinTransaction_def userTx_SelectUserByID_def read_part_def
          bindT_def wrapped_def requireT_def ensureT_def returnT_def throwT_def nowT_def userTx_Update_def envT_def
          write_part_def split: option.splits sum.splits prod.splits)
    with res user_commands_undo(4) Inl show ?thesis unfolding undoes_def by metis
  next
    case (Inr x)
    with res obtain t where "DeleteMe_tx cr victim pw e (begin_tx tick s) = Some (Inr x, t)"
      by (auto simp: DeleteMe_def atomic_commit [OF user_tx_atomic(4)])
    then obtain t1 t2 now where "userTx_Update (User_SoftDelete now v) e t1 = Some (Inr (), t2)" "tx_store t1 = s"
      using assms(2) by (auto simp: DeleteMe_tx_def userTx_SelectUserByID_def tx_simps)
    then have False by (auto simp: userTx_Update_def tx_simps clash)
    then show ?thesis ..
  qed
qed

text \<open>
  C36: anybody can keep a user from leaving. Signing up under the name that the row of the user
  would get creates another user, and in every later store in which that other user still has the
  name, each attempt of the victim to leave fails and changes nothing, whatever the password; with
  the right password it fails because the name is taken.
\<close>

theorem deletion_can_be_blocked:
  assumes "SignUp e cr tick username email password s = Some (Inr r, s1)" "users_ok (env_lower e) (st_users s)"
    and "TrimSpace username = left_name victim" "selectUserByID victim (st_users s) = Some v"
  shows "\<exists>other. other \<noteq> victim \<and>
    (\<exists>u. db_get (st_users s1) other = Some u \<and> user_Name u = left_name victim) \<and>
    selectUserByID victim (st_users s1) = Some v \<and> users_ok (env_lower e) (st_users s1) \<and>
    (\<forall>s2 u v2 lower e2 cr2 tick2 pw.
       users_ok lower (st_users s2) \<and> db_get (st_users s2) other = Some u \<and> user_Name u = left_name victim \<and>
       selectUserByID victim (st_users s2) = Some v2 \<longrightarrow>
       (\<exists>err. DeleteMe e2 cr2 tick2 victim pw s2 = Some (Inl err, s2) \<and>
          (env_fault e2 = (\<lambda>_. None) \<and> \<not> IsGuest v2 \<and> Matches cr2 (user_Password v2) pw = Inr True \<longrightarrow>
             err = WrapRepository ''soft delete user for delete me'' (Some (Sentinel ErrUserAlreadyExists)))))"
proof -
  from SignUp_effect [OF assms(1,2)] obtain u where u: "user_Name u = left_name victim"
      "user_added e u s s1" using assms(3) by (auto simp: signed_up_def)
  have v: "db_get (st_users s) victim = Some v" "\<not> IsDeleted v" "user_ID v = victim"
    by (rule selectUserByID_row [OF assms(2,4)])+
  have ne: "user_ID u \<noteq> victim" using u(2) v by (auto simp: user_added_def)
  have "selectUserByID victim (st_users s1) = Some v" "db_get (st_users s1) (user_ID u) = Some u"
    "users_ok (env_lower e) (st_users s1)"
    using u(2) v ne by (auto simp: user_added_def selectUserByID_def)
  with u(1) ne DeleteMe_blocked [of _ _ victim _ "user_ID u"] show ?thesis
    by (intro exI [of _ "user_ID u"]) blast
qed

text \<open>
  Suspending is for administrators and takes a reason and a known duration. A suspended user may
  not write before the end of the suspension, or at all when it has none; lifting it lets the user
  write again and leaves the rest of the row as it was.
\<close>

theorem suspension_effect:
  assumes "SuspendUser e cr tick adminID uuid reason dur s = Some (Inr (), s')" "users_ok (env_lower e) (st_users s)"
  shows "(\<exists>a. selectUserByID adminID (st_users s) = Some a \<and> IsAdmin a) \<and> TrimSpace reason \<noteq> [] \<and>
    (\<exists>u now until. selectUserByUUID uuid (st_users s) = Some u \<and>
      EndTime (cr_add_days cr) dur (env_now e tick) = (until, True) \<and>
      user_replaced e (Suspend now (TrimSpace reason) until u) s s' \<and>
      (\<forall>at. may_write (Suspend now (TrimSpace reason) until u) at \<longrightarrow> (\<exists>t. until = Some t \<and> t \<le> at)) \<and>
      (\<forall>tick' adminID' s2. UnsuspendUser e tick' adminID' uuid s' = Some (Inr (), s2) \<longrightarrow>
        (\<exists>w. selectUserByUUID uuid (st_users s2) = Some w \<and> (\<forall>at. \<not> IsSuspended at w) \<and>
          w = u\<lparr>user_Status := UserStatusActive, user_SuspensionReason := [], user_SuspendedUntil := None,
                user_UpdatedAt := user_UpdatedAt w\<rparr>)))"
proof -
  obtain until t where reason: "TrimSpace reason \<noteq> []"
    and until: "EndTime (cr_add_days cr) dur (env_now e tick) = (until, True)"
    and t: "SuspendUser_tx adminID uuid reason until e (begin_tx (tick + 1) s) = Some (Inr (), t)" "s' = tx_store t"
    using assms(1) by (auto simp: SuspendUser_def SuspensionDuration_ToEntity_def throwC_def EndTime_def
        atomic_commit [OF user_tx_atomic(5)] split: if_splits prod.splits)
  from suspension_tx_run(1) [OF t(1)] assms(2) t(2) obtain u now where
    admin: "\<exists>a. selectUserByID adminID (st_users s) = Some a \<and> IsAdmin a"
    and u: "selectUserByUUID uuid (st_users s) = Some u"
    and r: "user_replaced e (Suspend now (TrimSpace reason) until u) s s'" by auto
  note row = selectUserByUUID_row [OF assms(2) u]
  let ?v = "Suspend now (TrimSpace reason) until u"
  have ok': "users_ok (env_lower e) (st_users s')" using r by (simp add: user_replaced_def)
  have g: "db_get (st_users s') (user_ID u) = Some ?v" using r by (simp add: user_replaced_def Suspend_def)
  have lifted: "\<exists>w. selectUserByUUID uuid (st_users s2) = Some w \<and> (\<forall>at. \<not> IsSuspended at w) \<and>
      w = u\<lparr>user_Status := UserStatusActive, user_SuspensionReason := [], user_SuspendedUntil := None,
            user_UpdatedAt := user_UpdatedAt w\<rparr>"
    if "UnsuspendUser e tick' adminID' uuid s' = Some (Inr (), s2)" for tick' adminID' s2
  proof -
    from that obtain t' where t': "UnsuspendUser_tx adminID' uuid e (begin_tx tick' s') = Some (Inr (), t')" "s2 = tx_store t'"
      by (auto simp: UnsuspendUser_def atomic_commit [OF user_tx_atomic(7)])
    from suspension_tx_run(2) [OF t'(1)] ok' t'(2) obtain v now' where
      v: "selectUserByUUID uuid (st_users s') = Some v" "user_replaced e (Unsuspend now' v) s' s2" by auto
    have "selectUserByUUID (user_UUID ?v) (st_users s') = Some ?v"
      by (rule selectUserByUUID_found [OF ok' g]) (simp add: Suspend_def IsDeleted_def)
    with v(1) row(3) have "v = ?v" by (simp add: Suspend_def)
    with v(2) have r2: "user_replaced e (Unsuspend now' ?v) s' s2" by simp
    then have ok2: "users_ok (env_lower e) (st_users s2)"
      and g2: "db_get (st_users s2) (user_ID u) = Some (Unsuspend now' ?v)"
      by (simp_all add: user_replaced_def Unsuspend_def Suspend_def)
    have "selectUserByUUID (user_UUID (Unsuspend now' ?v)) (st_users s2) = Some (Unsuspend now' ?v)"
      by (rule selectUserByUUID_found [OF ok2 g2]) (simp add: Unsuspend_def IsDeleted_def)
    then show ?thesis using row(3) by (simp add: Unsuspend_def Suspend_def IsSuspended_def)
  qed
  have "\<forall>at. may_write ?v at \<longrightarrow> (\<exists>t. until = Some t \<and> t \<le> at)"
    by (auto simp: may_write_def IsSuspended_def Suspend_def split: option.splits if_splits)
  with reason until admin u r lifted show ?thesis by blast
qed

section \<open>The properties at concrete inputs\<close>

lemma demo_text:
  "TrimSpace ''alice@x'' = ''alice@x''" "TrimSpace ''bob@x'' = ''bob@x''" "TrimSpace ''c@x'' = ''c@x''"
  "TrimSpace ''deleted-user-2'' = ''deleted-user-2''" "TrimSpace ''pw'' = ''pw''" "TrimSpace ''spam'' = ''spam''"
  by (rule TrimSpace_plain; simp add: plain_byte_def)+

lemma demo_lower:
  "ToLower id ''alice@x'' = ''alice@x''" "ToLower id ''bob@x'' = ''bob@x''" "ToLower id ''c@x'' = ''c@x''"
  "ToLower id [] = []" "FormatInt 1 = ''1''" "FormatInt 2 = ''2''"
  by code_simp+

lemma demo_users_ok: "users_ok id demo_users"
  by (auto simp: users_ok_def db_ok_def entity_eval usersConflict_def emailsConflict_def normalizeEmail_def
      Let_def demo_text demo_lower split: if_splits)

lemma demo_store_users_ok: "users_ok (env_lower demo_env) (st_users demo_store)"
  by (simp add: demo_env_simps demo_store_simps demo_users_ok)

lemmas user_eval =
  normalizeUsername_def svc_normalizeEmail_def normalizeEmail_def demo_text demo_lower user_tx_defs
  issueEmailVerificationToken_def Issue_def exists_or_wrapped_def User_save_def User_update_def usersConflict_def
  emailsConflict_def selectUserByUsername_def selectUserByEmail_def selectUserByUUID_def captureUser_def
  captureEmailVerification_def emailVerificationTokenTx_InvalidateByUser_def emailVerificationTokenTx_Save_def
  demo_crypto_simps

lemma demo_sign_up:
  "\<exists>s1. SignUp demo_env demo_crypto 0 ''deleted-user-2'' ''c@x'' ''pw'' demo_store = Some (Inr ''ok'', s1)"
  apply (simp add: SignUp_def SignUp_tx_def user_eval action_eval entity_eval cong: bindT_eval_cong)
  apply (simp add: event_eval action_eval NewSignupEmailVerificationRequested_def NewMailDelivery_def cong: bindT_eval_cong)
  done

theorem SignUp_effect_witness:
  "\<exists>u s'. user_Name u = ''deleted-user-2'' \<and> \<not> IsEmailVerified u \<and> signed_up demo_env demo_crypto u demo_store s'"
proof -
  obtain s1 where r: "SignUp demo_env demo_crypto 0 ''deleted-user-2'' ''c@x'' ''pw'' demo_store = Some (Inr ''ok'', s1)"
    using demo_sign_up by blast
  from SignUp_effect [OF r demo_store_users_ok] show ?thesis by (auto simp: demo_text)
qed

definition demo_member :: user where
  "demo_member = demo_alice\<lparr>user_Password := ''hpw''\<rparr>"

definition demo_members :: store where
  "demo_members = demo_store\<lparr>st_users := \<lparr>db_ID = 3, db_Data = [(1, demo_admin), (2, demo_member), (3, demo_bob)]\<rparr>\<rparr>"

lemma demo_members_ok: "users_ok (env_lower demo_env) (st_users demo_members)"
  by (auto simp: demo_members_def demo_member_def demo_env_simps users_ok_def db_ok_def entity_eval usersConflict_def
      emailsConflict_def normalizeEmail_def Let_def demo_text demo_lower split: if_splits)

theorem DeleteMe_effect_witness:
  "\<exists>s'. DeleteMe demo_env demo_crypto 0 2 ''pw'' demo_members = Some (Inr (), s') \<and>
    selectUserByID 2 (st_users s') = None"
proof -
  have "\<exists>s'. DeleteMe demo_env demo_crypto 0 2 ''pw'' demo_members = Some (Inr (), s')"
    by (simp add: DeleteMe_def DeleteMe_tx_def demo_members_def demo_member_def User_SoftDelete_def user_eval
        action_eval entity_eval policy_eval cong: bindT_eval_cong)
  then obtain s' where r: "DeleteMe demo_env demo_crypto 0 2 ''pw'' demo_members = Some (Inr (), s')" by blast
  from DeleteMe_effect [OF r demo_members_ok] r show ?thesis by blast
qed

lemma demo_squatter:
  "\<exists>s1. SignUp demo_env demo_crypto 0 ''deleted-user-2'' ''c@x'' ''pw'' demo_members = Some (Inr ''ok'', s1)"
  apply (simp add: SignUp_def SignUp_tx_def demo_members_def demo_member_def user_eval action_eval entity_eval cong: bindT_eval_cong)
  apply (simp add: event_eval action_eval NewSignupEmailVerificationRequested_def NewMailDelivery_def cong: bindT_eval_cong)
  done

theorem deletion_can_be_blocked_witness:
  "\<exists>s1. SignUp demo_env demo_crypto 0 ''deleted-user-2'' ''c@x'' ''pw'' demo_members = Some (Inr ''ok'', s1) \<and>
    DeleteMe demo_env demo_crypto 9 2 ''pw'' s1 = Some (Inl (WrapRepository ''soft delete user for delete me''
      (Some (Sentinel ErrUserAlreadyExists))), s1) \<and>
    (\<exists>s2. DeleteMe demo_env demo_crypto 9 2 ''pw'' demo_members = Some (Inr (), s2))"
proof -
  obtain s1 where r: "SignUp demo_env demo_crypto 0 ''deleted-user-2'' ''c@x'' ''pw'' demo_members = Some (Inr ''ok'', s1)"
    using demo_squatter by blast
  have n: "TrimSpace ''deleted-user-2'' = left_name 2" by (simp add: left_name_def demo_text demo_lower)
  have v: "selectUserByID 2 (st_users demo_members) = Some demo_member"
    by (simp add: demo_members_def demo_member_def selectUserByID_def entity_eval)
  have p: "env_fault demo_env = (\<lambda>_. None)" "\<not> IsGuest demo_member"
    "Matches demo_crypto (user_Password demo_member) ''pw'' = Inr True"
    by (simp_all add: fun_eq_iff demo_env_simps demo_member_def user_eval entity_eval policy_eval)
  have free: "\<exists>s2. DeleteMe demo_env demo_crypto 9 2 ''pw'' demo_members = Some (Inr (), s2)"
    by (simp add: DeleteMe_def DeleteMe_tx_def demo_members_def demo_member_def User_SoftDelete_def user_eval
        action_eval entity_eval policy_eval cong: bindT_eval_cong)
  from deletion_can_be_blocked [OF r demo_members_ok n v] obtain other u where
    o: "db_get (st_users s1) other = Some u" "user_Name u = left_name 2"
      "selectUserByID 2 (st_users s1) = Some demo_member" "users_ok (env_lower demo_env) (st_users s1)"
    and b: "\<And>lower e2 cr2 tick2 pw. users_ok lower (st_users s1) \<Longrightarrow> db_get (st_users s1) other = Some u \<Longrightarrow>
      env_fault e2 = (\<lambda>_. None) \<and> \<not> IsGuest demo_member \<and> Matches cr2 (user_Password demo_member) pw = Inr True \<Longrightarrow>
      DeleteMe e2 cr2 tick2 2 pw s1 = Some (Inl (WrapRepository ''soft delete user for delete me''
        (Some (Sentinel ErrUserAlreadyExists))), s1)"
    by metis
  from b [OF o(4,1)] p r free show ?thesis by blast
qed

theorem suspension_effect_witness:
  "\<exists>s' u now. SuspendUser demo_env demo_crypto 0 1 ''ub'' ''spam'' ''7d'' demo_members = Some (Inr (), s') \<and>
    user_replaced demo_env (Suspend now ''spam'' (Some (1000 + 7 * 86400 * second)) u) demo_members s'"
proof -
  have "\<exists>s'. SuspendUser demo_env demo_crypto 0 1 ''ub'' ''spam'' ''7d'' demo_members = Some (Inr (), s')"
    by (simp add: SuspendUser_def SuspendUser_tx_def SuspensionDuration_ToEntity_def EndTime_def demo_members_def
        demo_member_def Suspend_def user_eval action_eval entity_eval policy_eval cong: bindT_eval_cong)
  then obtain s' where
    r: "SuspendUser demo_env demo_crypto 0 1 ''ub'' ''spam'' ''7d'' demo_members = Some (Inr (), s')" by blast
  from suspension_effect [OF r demo_members_ok] r show ?thesis
    by (auto simp: EndTime_def demo_crypto_simps demo_env_simps demo_text)
qed

end
