(* ===== verification/Mail.thy ===== *)
theory Mail
  imports SvcUser
begin

text \<open>
  \<open>application/event/mail_delivery_handler.go\<close> and \<open>notification_handler.go\<close>: the handlers that
  send the mails with a token and store notifications. A token is saved as used already; when the
  mail is out, the handler records its delivery and makes the token usable. The events come
  from the outbox, at least once.

  The mail senders are calls that append to \<open>w_sent\<close>; the environment decides whether they fail. The
  capture file for end-to-end tests is not modelled.
\<close>

section \<open>Mails with a token\<close>

definition send_mail :: "sent_mail \<Rightarrow> (world, unit) call" where
  "send_mail m = (\<lambda>w. Some (Inr (), w\<lparr>w_sent := w_sent w @ [m]\<rparr>))"

definition email_tokens_select :: "string \<Rightarrow> (world, token option) call" where
  "email_tokens_select tokenHash = on_store (read_store st_email_tokens (EmailVerification_selectByTokenHash tokenHash))"

definition email_tokens_update :: "token \<Rightarrow> (world, unit) call" where
  "email_tokens_update t = on_store (write_store st_email_tokens st_email_tokens_update (changes (EmailVerification_update t)))"

definition password_tokens_select :: "string \<Rightarrow> (world, token option) call" where
  "password_tokens_select tokenHash = on_store (read_store st_password_tokens (PasswordReset_selectByTokenHash tokenHash))"

definition password_tokens_update :: "token \<Rightarrow> (world, unit) call" where
  "password_tokens_update t = on_store (write_store st_password_tokens st_password_tokens_update (changes (PasswordReset_update t)))"

definition activateEmailVerificationToken :: "env \<Rightarrow> nat \<Rightarrow> string \<Rightarrow> (world, unit) call" where
  "activateEmailVerificationToken e tick tokenHash =
     (let now = env_now e tick in
      bindC (repoC e ''select email verification token after mail send'' (email_tokens_select tokenHash)) (\<lambda>token.
        case token of
          None \<Rightarrow> returnC ()
        | Some t \<Rightarrow>
            if \<not> IsConsumed t \<or> IsExpired now t then returnC ()
            else repoC e ''activate email verification token after mail send''
                   (email_tokens_update (t\<lparr>token_ConsumedAt := None\<rparr>))))"

definition activatePasswordResetToken :: "env \<Rightarrow> nat \<Rightarrow> string \<Rightarrow> (world, unit) call" where
  "activatePasswordResetToken e tick tokenHash =
     (let now = env_now e tick in
      bindC (repoC e ''select password reset token after mail send'' (password_tokens_select tokenHash)) (\<lambda>token.
        case token of
          None \<Rightarrow> returnC ()
        | Some t \<Rightarrow>
            if \<not> IsConsumed t \<or> IsExpired now t then returnC ()
            else repoC e ''activate password reset token after mail send''
                   (password_tokens_update (t\<lparr>token_ConsumedAt := None\<rparr>))))"

definition undelivered :: "token option \<Rightarrow> bool" where
  "undelivered token = (case token of None \<Rightarrow> True | Some t \<Rightarrow> token_DeliveredAt t = None)"

definition sendEmailVerification :: "env \<Rightarrow> nat \<Rightarrow> mail_delivery \<Rightarrow> (world, unit) call" where
  "sendEmailVerification e tick m =
     (if mail_UserID m \<le> 0 \<or> mail_TokenHash m = [] then returnC ()
      else
        bindC (repoC e ''select email verification token before mail send''
                 (email_tokens_select (mail_TokenHash m))) (\<lambda>token.
        bindC (if undelivered token then
                 bindC (called e (\<lambda>err. WrapMailDelivery ''send email verification mail'' (Some err))
                          ''send email verification mail''
                          (send_mail (EmailVerificationMail (mail_Email m) (mail_RawToken m) (mail_ExpiresAt m)))) (\<lambda>_.
                   case token of
                     None \<Rightarrow> returnC ()
                   | Some t \<Rightarrow>
                       repoC e ''record email verification delivery after mail send''
                         (email_tokens_update (t\<lparr>token_DeliveredAt := Some (env_now e tick)\<rparr>)))
               else returnC ()) (\<lambda>_.
          case token of
            None \<Rightarrow> returnC ()
          | Some _ \<Rightarrow> activateEmailVerificationToken e (tick + 1) (mail_TokenHash m))))"

definition sendPasswordReset :: "env \<Rightarrow> nat \<Rightarrow> mail_delivery \<Rightarrow> (world, unit) call" where
  "sendPasswordReset e tick m =
     (if mail_UserID m \<le> 0 \<or> mail_TokenHash m = [] then returnC ()
      else
        bindC (repoC e ''select password reset token before mail send''
                 (password_tokens_select (mail_TokenHash m))) (\<lambda>token.
        bindC (if undelivered token then
                 bindC (called e (\<lambda>err. WrapMailDelivery ''send password reset mail'' (Some err))
                          ''send password reset mail''
                          (send_mail (PasswordResetMail (mail_Email m) (mail_RawToken m) (mail_ExpiresAt m)))) (\<lambda>_.
                   case token of
                     None \<Rightarrow> returnC ()
                   | Some t \<Rightarrow>
                       repoC e ''record password reset delivery after mail send''
                         (password_tokens_update (t\<lparr>token_DeliveredAt := Some (env_now e tick)\<rparr>)))
               else returnC ()) (\<lambda>_.
          case token of
            None \<Rightarrow> returnC ()
          | Some _ \<Rightarrow> activatePasswordResetToken e (tick + 1) (mail_TokenHash m))))"

definition MailDelivery_Handle :: "env \<Rightarrow> nat \<Rightarrow> domain_event \<Rightarrow> (world, unit) call" where
  "MailDelivery_Handle e tick event =
     (case event of
        SignupEmailVerificationRequested m \<Rightarrow> sendEmailVerification e tick m
      | EmailVerificationResendRequested m \<Rightarrow> sendEmailVerification e tick m
      | PasswordResetRequested m \<Rightarrow> sendPasswordReset e tick m
      | _ \<Rightarrow> returnC ())"

section \<open>Notifications\<close>

definition NotificationHandler_Handle :: "env \<Rightarrow> nat \<Rightarrow> domain_event \<Rightarrow> (store, unit) call" where
  "NotificationHandler_Handle e tick event =
     (case event of
        NotificationTriggered n \<Rightarrow>
          let notification =
            (NewNotification (env_now e tick) (env_uuid e (tick + 1)) (ne_RecipientUserID n) (ne_ActorUserID n)
               (ne_Type n) (ne_PostID n) (ne_CommentID n) (ne_ActorNameSnapshot n) (ne_PostTitleSnapshot n)
               (ne_CommentPreviewSnapshot n))
              \<lparr>notification_CreatedAt := ne_At n, notification_DedupKey := ne_EventID n\<rparr>
          in bindC (repoC e ''save notification from event''
                      (write_store st_notifications st_notifications_update (always (Notification_save (env_uuid e (tick + 2)) notification))))
               (\<lambda>_. returnC ())
      | _ \<Rightarrow> returnC ())"

section \<open>What a delivery does\<close>

text \<open>The token after a delivery without failures: delivered, and usable until it expires.\<close>

definition mailed :: "env \<Rightarrow> nat \<Rightarrow> token \<Rightarrow> token" where
  "mailed e tick t =
     t\<lparr>token_DeliveredAt := (case token_DeliveredAt t of None \<Rightarrow> Some (env_now e tick) | Some d \<Rightarrow> Some d),
       token_ConsumedAt := (if env_now e (tick + 1) < token_ExpiresAt t then None else token_ConsumedAt t)\<rparr>"

lemma mailed_fields [simp]:
  "token_UserID (mailed e tick t) = token_UserID t" "token_TokenHash (mailed e tick t) = token_TokenHash t"
  "token_ExpiresAt (mailed e tick t) = token_ExpiresAt t" "token_DeliveredAt (mailed e tick t) \<noteq> None"
  by (simp_all add: mailed_def split: option.split)

lemma mailed_usable:
  "env_now e (tick + 1) < token_ExpiresAt t \<Longrightarrow> IsUsable at (Some (mailed e tick t)) \<longleftrightarrow> at < token_ExpiresAt t"
  by (simp add: mailed_def IsUsable_def IsConsumed_def IsExpired_def)

lemma mailed_cases:
  "mailed e tick t =
    (let t1 = (if token_DeliveredAt t = None then t\<lparr>token_DeliveredAt := Some (env_now e tick)\<rparr> else t)
     in if \<not> IsConsumed t1 \<or> IsExpired (env_now e (tick + 1)) t1 then t1 else t1\<lparr>token_ConsumedAt := None\<rparr>)"
  by (cases t) (auto simp: mailed_def IsConsumed_def IsExpired_def Let_def split: option.splits)

text \<open>The new tokens hold \<open>t'\<close> in the place of \<open>t\<close>.\<close>

definition token_replaced :: "token \<Rightarrow> token_repo \<Rightarrow> token_repo \<Rightarrow> bool" where
  "token_replaced t r r' \<longleftrightarrow> tokens_ok r' \<and> map_of r' = (map_of r)(token_TokenHash t \<mapsto> t)"

lemma token_replaced_put:
  "tokens_ok r \<Longrightarrow> h = token_TokenHash t \<Longrightarrow> token_replaced t r (put_row h t r)"
  by (simp add: token_replaced_def tokens_save)

lemma token_replaced_same:
  "tokens_ok r \<Longrightarrow> map_of r (token_TokenHash t) = Some t \<Longrightarrow> token_replaced t r r"
  by (auto simp: token_replaced_def)

lemma token_replaced_twice:
  "token_replaced t r r' \<Longrightarrow> token_TokenHash t' = token_TokenHash t \<Longrightarrow> token_replaced t' r' r'' \<Longrightarrow> token_replaced t' r r''"
  by (simp add: token_replaced_def)

definition delivered_token :: "env \<Rightarrow> nat \<Rightarrow> token \<Rightarrow> token" where
  "delivered_token e tick t =
     (if token_DeliveredAt t = None then t\<lparr>token_DeliveredAt := Some (env_now e tick)\<rparr> else t)"

definition delivered_row :: "env \<Rightarrow> nat \<Rightarrow> token \<Rightarrow> token_repo \<Rightarrow> token_repo" where
  "delivered_row e tick t r =
     (if token_DeliveredAt t = None then put_row (token_TokenHash t) (delivered_token e tick t) r else r)"

lemma delivered_token_hash [simp]: "token_TokenHash (delivered_token e tick t) = token_TokenHash t"
  by (simp add: delivered_token_def)

lemma delivery_steps:
  assumes "tokens_ok r" "map_of r h = Some t" "h = token_TokenHash t"
  shows "map_of (delivered_row e tick t r) h = Some (delivered_token e tick t)"
    and "token_replaced (mailed e tick t) r
      (if \<not> IsConsumed (delivered_token e tick t) \<or> IsExpired (env_now e (tick + 1)) (delivered_token e tick t)
       then delivered_row e tick t r
       else put_row h ((delivered_token e tick t)\<lparr>token_ConsumedAt := None\<rparr>) (delivered_row e tick t r))"
proof -
  have 1: "token_replaced (delivered_token e tick t) r (delivered_row e tick t r)"
    using assms by (auto simp: delivered_row_def delivered_token_def token_replaced_put token_replaced_same)
  then show "map_of (delivered_row e tick t r) h = Some (delivered_token e tick t)"
    by (simp add: token_replaced_def assms(3))
  have ok: "tokens_ok (delivered_row e tick t r)" using 1 by (simp add: token_replaced_def)
  have "token_replaced ((delivered_token e tick t)\<lparr>token_ConsumedAt := None\<rparr>) (delivered_row e tick t r)
      (put_row h ((delivered_token e tick t)\<lparr>token_ConsumedAt := None\<rparr>) (delivered_row e tick t r))"
    by (rule token_replaced_put [OF ok]) (simp add: assms(3))
  from 1 token_replaced_twice [OF 1 _ this] show "token_replaced (mailed e tick t) r
      (if \<not> IsConsumed (delivered_token e tick t) \<or> IsExpired (env_now e (tick + 1)) (delivered_token e tick t)
       then delivered_row e tick t r
       else put_row h ((delivered_token e tick t)\<lparr>token_ConsumedAt := None\<rparr>) (delivered_row e tick t r))"
    by (simp add: mailed_cases delivered_token_def [symmetric] Let_def)
qed

abbreviation no_faults :: "env \<Rightarrow> bool" where
  "no_faults e \<equiv> \<forall>label. env_fault e label = None"

lemma called_ok: "no_faults e \<Longrightarrow> called e wrap label m w = (case m w of
      None \<Rightarrow> None
    | Some (r, w') \<Rightarrow> (case r of Inl err \<Rightarrow> Some (Inl (wrap err), w') | Inr a \<Rightarrow> Some (Inr a, w')))"
  by (simp add: called_def split: option.split prod.split sum.split)

lemmas mail_eval =
  bindC_eval called_ok returnC_def repoC_def on_store_def read_store_def write_store_def changes_def
  send_mail_def email_tokens_select_def email_tokens_update_def password_tokens_select_def
  password_tokens_update_def undelivered_def

lemma sendPasswordReset_run:
  assumes "no_faults e" "0 < mail_UserID m" "mail_TokenHash m \<noteq> []" "tokens_ok (st_password_tokens (w_store w))"
    and "PasswordReset_selectByTokenHash (mail_TokenHash m) (st_password_tokens (w_store w)) = Some t"
  shows "\<exists>r'. token_replaced (mailed e tick t) (st_password_tokens (w_store w)) r' \<and>
    sendPasswordReset e tick m w = Some (Inr (),
      w\<lparr>w_store := (w_store w)\<lparr>st_password_tokens := r'\<rparr>,
        w_sent := w_sent w @ (if token_DeliveredAt t = None
          then [PasswordResetMail (mail_Email m) (mail_RawToken m) (mail_ExpiresAt m)] else [])\<rparr>)"
proof -
  have h: "mail_TokenHash m = token_TokenHash t" using password_tokens.select_hash [OF assms(4,5)] by simp
  have g: "map_of (st_password_tokens (w_store w)) (mail_TokenHash m) = Some t"
    using assms(5) by (simp add: PasswordReset_selectByTokenHash_def)
  note d = delivery_steps [OF assms(4) g h, of e tick]
  define w1 where "w1 = w\<lparr>w_store := (w_store w)\<lparr>st_password_tokens := delivered_row e tick t (st_password_tokens (w_store w))\<rparr>,
        w_sent := w_sent w @ (if token_DeliveredAt t = None
          then [PasswordResetMail (mail_Email m) (mail_RawToken m) (mail_ExpiresAt m)] else [])\<rparr>"
  have s: "sendPasswordReset e tick m w = activatePasswordResetToken e (tick + 1) (mail_TokenHash m) w1"
    using assms(1-3) g h by (cases "token_DeliveredAt t"; cases w) (simp_all add: sendPasswordReset_def mail_eval
      PasswordReset_selectByTokenHash_def PasswordReset_update_def w1_def delivered_row_def delivered_token_def)
  have a: "activatePasswordResetToken e (tick + 1) (mail_TokenHash m) w1 = Some (Inr (), w1\<lparr>w_store := (w_store w1)\<lparr>st_password_tokens :=
      (if \<not> IsConsumed (delivered_token e tick t) \<or> IsExpired (env_now e (tick + 1)) (delivered_token e tick t)
       then delivered_row e tick t (st_password_tokens (w_store w))
       else put_row (mail_TokenHash m) ((delivered_token e tick t)\<lparr>token_ConsumedAt := None\<rparr>)
         (delivered_row e tick t (st_password_tokens (w_store w))))\<rparr>\<rparr>)"
    using assms(1) d(1) h by (simp add: activatePasswordResetToken_def mail_eval Let_def w1_def PasswordReset_selectByTokenHash_def PasswordReset_update_def)
  show ?thesis
    by (rule exI, rule conjI, rule d(2), unfold s a, cases w, simp add: w1_def)
qed

lemma sendEmailVerification_run:
  assumes "no_faults e" "0 < mail_UserID m" "mail_TokenHash m \<noteq> []" "tokens_ok (st_email_tokens (w_store w))"
    and "EmailVerification_selectByTokenHash (mail_TokenHash m) (st_email_tokens (w_store w)) = Some t"
  shows "\<exists>r'. token_replaced (mailed e tick t) (st_email_tokens (w_store w)) r' \<and>
    sendEmailVerification e tick m w = Some (Inr (),
      w\<lparr>w_store := (w_store w)\<lparr>st_email_tokens := r'\<rparr>,
        w_sent := w_sent w @ (if token_DeliveredAt t = None
          then [EmailVerificationMail (mail_Email m) (mail_RawToken m) (mail_ExpiresAt m)] else [])\<rparr>)"
proof -
  have h: "mail_TokenHash m = token_TokenHash t" using email_tokens.select_hash [OF assms(4,5)] by simp
  have g: "map_of (st_email_tokens (w_store w)) (mail_TokenHash m) = Some t"
    using assms(5) by (simp add: EmailVerification_selectByTokenHash_def)
  note d = delivery_steps [OF assms(4) g h, of e tick]
  define w1 where "w1 = w\<lparr>w_store := (w_store w)\<lparr>st_email_tokens := delivered_row e tick t (st_email_tokens (w_store w))\<rparr>,
        w_sent := w_sent w @ (if token_DeliveredAt t = None
          then [EmailVerificationMail (mail_Email m) (mail_RawToken m) (mail_ExpiresAt m)] else [])\<rparr>"
  have s: "sendEmailVerification e tick m w = activateEmailVerificationToken e (tick + 1) (mail_TokenHash m) w1"
    using assms(1-3) g h by (cases "token_DeliveredAt t"; cases w) (simp_all add: sendEmailVerification_def mail_eval
      EmailVerification_selectByTokenHash_def EmailVerification_update_def w1_def delivered_row_def delivered_token_def)
  have a: "activateEmailVerificationToken e (tick + 1) (mail_TokenHash m) w1 = Some (Inr (), w1\<lparr>w_store := (w_store w1)\<lparr>st_email_tokens :=
      (if \<not> IsConsumed (delivered_token e tick t) \<or> IsExpired (env_now e (tick + 1)) (delivered_token e tick t)
       then delivered_row e tick t (st_email_tokens (w_store w))
       else put_row (mail_TokenHash m) ((delivered_token e tick t)\<lparr>token_ConsumedAt := None\<rparr>)
         (delivered_row e tick t (st_email_tokens (w_store w))))\<rparr>\<rparr>)"
    using assms(1) d(1) h by (simp add: activateEmailVerificationToken_def mail_eval Let_def w1_def EmailVerification_selectByTokenHash_def EmailVerification_update_def)
  show ?thesis
    by (rule exI, rule conjI, rule d(2), unfold s a, cases w, simp add: w1_def)
qed

end
