(* ===== verification/SvcSession.thy ===== *)
theory SvcSession
  imports Mail
begin

text \<open>
  \<open>service/session/service.go\<close>: logging in, tokens of guests, rotating, logging out and the check of
  a token that every request goes through. The sessions are read as a set of pairs of a user and
  a token, and each operation as a change of that set. The audit log of logins is not modelled.

  \<open>jwt_faithful\<close> states what the code relies on of the JWT library: its dates are whole seconds, a
  signed token is read back as the user it was issued for until it expires, and refused from then on.
\<close>

section \<open>The service\<close>

definition issue_token :: "env \<Rightarrow> crypto \<Rightarrow> nat \<Rightarrow> string \<Rightarrow> int \<Rightarrow> (world, string) call" where
  "issue_token e cr tick label userID =
     liftC (case IdToToken e cr tick userID of
              Inl err \<Rightarrow> Inl (WrapToken label (Some err)) | Inr token \<Rightarrow> Inr token)"

definition session_save :: "env \<Rightarrow> nat \<Rightarrow> string \<Rightarrow> int \<Rightarrow> string \<Rightarrow> (world, unit) call" where
  "session_save e tick label userID token =
     repoC e label (on_cache (\<lambda>c. ((), Session_Save (env_now e tick) userID token TTLSeconds c)))"

definition session_delete :: "env \<Rightarrow> string \<Rightarrow> int \<Rightarrow> string \<Rightarrow> (world, unit) call" where
  "session_delete e label userID token = repoC e label (on_cache (\<lambda>c. ((), Session_Delete userID token c)))"

definition Login :: "env \<Rightarrow> crypto \<Rightarrow> nat \<Rightarrow> string \<Rightarrow> string \<Rightarrow> (world, string) call" where
  "Login e cr tick username password =
     bindC (on_store (VerifyCredentials e cr username password)) (\<lambda>userID.
     bindC (issue_token e cr tick ''issue login token'' userID) (\<lambda>token.
     bindC (session_save e (tick + 2) ''save session'' userID token) (\<lambda>_. returnC token)))"

definition select_user :: "env \<Rightarrow> string \<Rightarrow> int \<Rightarrow> (world, user option) call" where
  "select_user e label userID = repoC e label (on_store (read_store st_users (selectUserByID userID)))"

definition update_user :: "env \<Rightarrow> user \<Rightarrow> (world, unit) call" where
  "update_user e u = on_store (write_store st_users st_users_update (User_update (env_lower e) u))"

definition markGuestActive :: "env \<Rightarrow> nat \<Rightarrow> int \<Rightarrow> (world, unit) call" where
  "markGuestActive e tick userID =
     bindC (select_user e ''select user by id for activate guest'' userID) (\<lambda>ou.
       case ou of
         None \<Rightarrow> returnC ()
       | Some u \<Rightarrow>
           if \<not> IsGuest u then returnC ()
           else repoC e ''update guest active state'' (update_user e (MarkGuestActive (env_now e tick) u)))"

definition expireGuestBestEffort :: "env \<Rightarrow> nat \<Rightarrow> int \<Rightarrow> (world, unit) call" where
  "expireGuestBestEffort e tick userID =
     catchC
       (bindC (called e id [] (on_store (read_store st_users (selectUserByID userID)))) (\<lambda>ou.
          case ou of
            None \<Rightarrow> returnC ()
          | Some u \<Rightarrow>
              if \<not> IsGuest u then returnC ()
              else discardC e (update_user e (MarkGuestExpired (env_now e tick) u))))
       (\<lambda>_. returnC ())"

definition IssueGuestToken :: "env \<Rightarrow> crypto \<Rightarrow> nat \<Rightarrow> (world, string) call" where
  "IssueGuestToken e cr tick =
     bindC (on_store (IssueGuestAccount e cr tick)) (\<lambda>userID.
     bindC (issue_token e cr (tick + 5) ''issue guest token'' userID) (\<lambda>token.
     bindC (markGuestActive e (tick + 7) userID) (\<lambda>_.
     bindC (catchC (session_save e (tick + 8) ''save guest session'' userID token)
              (\<lambda>err. bindC (expireGuestBestEffort e (tick + 9) userID) (\<lambda>_. throwC err))) (\<lambda>_.
       returnC token))))"

definition RotateToken :: "env \<Rightarrow> crypto \<Rightarrow> nat \<Rightarrow> int \<Rightarrow> string \<Rightarrow> (world, string) call" where
  "RotateToken e cr tick userID currentToken =
     bindC (session_delete e ''delete current session for rotate token'' userID currentToken) (\<lambda>_.
     bindC (issue_token e cr tick ''issue rotated token'' userID) (\<lambda>token.
     bindC (session_save e (tick + 2) ''save rotated session'' userID token) (\<lambda>_. returnC token)))"

definition Logout :: "env \<Rightarrow> crypto \<Rightarrow> nat \<Rightarrow> string \<Rightarrow> (world, unit) call" where
  "Logout e cr tick token =
     (case jwt_ValidateTokenToId cr (env_now e tick) token of
        Inl err \<Rightarrow> returnC ()
      | Inr userID \<Rightarrow> session_delete e ''delete session'' userID token)"

definition InvalidateUserSessions :: "env \<Rightarrow> int \<Rightarrow> (world, unit) call" where
  "InvalidateUserSessions e userID =
     repoC e ''delete user sessions'' (on_cache (\<lambda>c. ((), Session_DeleteByUser userID c)))"

definition ValidateTokenToId :: "env \<Rightarrow> crypto \<Rightarrow> nat \<Rightarrow> string \<Rightarrow> (world, int) call" where
  "ValidateTokenToId e cr tick token =
     bindC (liftC (jwt_ValidateTokenToId cr (env_now e tick) token)) (\<lambda>userID.
     bindC (repoC e ''lookup session''
              (on_cache (Session_existsLocked (env_now e (tick + 1)) (env_now e (tick + 2)) userID token))) (\<lambda>present.
     bindC (ensureC (if \<not> present then Some (Sentinel ErrInvalidToken) else None)) (\<lambda>_.
     bindC (select_user e ''select user by id for validate token'' userID) (\<lambda>ou.
     bindC (requireC ou (Sentinel ErrInvalidToken)) (\<lambda>u.
     bindC (ensureC (if IsGuest u \<and> \<not> IsActiveGuest u then Some (Sentinel ErrInvalidToken) else None)) (\<lambda>_.
       returnC userID))))))"

section \<open>The sessions as a set\<close>

definition sessions_at :: "world \<Rightarrow> time \<Rightarrow> (int \<times> string) set" where
  "sessions_at w at = {(u, t). session_live (w_cache w) at u t}"

lemma sessions_at_store [simp]:
  "sessions_at (w\<lparr>w_store := s\<rparr>) at = sessions_at w at" "sessions_at (w\<lparr>w_sent := m\<rparr>) at = sessions_at w at"
  by (simp_all add: sessions_at_def)

lemma sessions_at_cache:
  assumes "cache_ok (w_cache w)"
  shows "now \<le> at \<Longrightarrow> at \<le> now + ttl * second \<Longrightarrow>
      sessions_at (w\<lparr>w_cache := Session_Save now u t ttl (w_cache w)\<rparr>) at = insert (u, t) (sessions_at w at)"
    "sessions_at (w\<lparr>w_cache := Session_Delete u t (w_cache w)\<rparr>) at = sessions_at w at - {(u, t)}"
    "sessions_at (w\<lparr>w_cache := Session_DeleteByUser u (w_cache w)\<rparr>) at = {(v, t) \<in> sessions_at w at. v \<noteq> u}"
  using assms by (auto simp: sessions_at_def sessions.save_live sessions.delete_live sessions.delete_user_live)

text \<open>A token stays a session for as long as the provider says it is valid.\<close>

lemma TTL_day: "TTLSeconds * second = jwt_ttl"
  by (simp add: TTLSeconds_def jwt_ttl_def second_def)

lemma matched_guard:
  "(case r of Inl err \<Rightarrow> Some (f err) | Inr matched \<Rightarrow> if \<not> matched then Some bad else None) = None \<longleftrightarrow> r = Inr True"
  by (cases r) auto

lemma VerifyCredentials_run:
  assumes "VerifyCredentials e cr username password s = Some (Inr i, s')"
  shows "s' = s \<and> (\<exists>u. selectUserByUsername (TrimSpace username) (st_users s) = Some u \<and> \<not> IsGuest u \<and>
    Matches cr (user_Password u) password = Inr True \<and> i = user_ID u)"
  using assms
  by (auto simp: VerifyCredentials_def normalizeUsername_def Let_def call_simps matched_guard split: if_splits)

lemma issue_token_run [call_simps]:
  "issue_token e cr tick label userID w = Some (Inr token, w') \<longleftrightarrow> IdToToken e cr tick userID = Inr token \<and> w' = w"
  by (auto simp: issue_token_def call_simps split: sum.splits)

lemma session_run [call_simps]:
  "session_save e tick label userID token w = Some (Inr x, w') \<longleftrightarrow> env_fault e label = None \<and>
    w' = w\<lparr>w_cache := Session_Save (env_now e tick) userID token TTLSeconds (w_cache w)\<rparr>"
  "session_delete e label userID token w = Some (Inr x, w') \<longleftrightarrow> env_fault e label = None \<and>
    w' = w\<lparr>w_cache := Session_Delete userID token (w_cache w)\<rparr>"
  by (auto simp: session_save_def session_delete_def call_simps)

lemma session_calls_return [returnsC_intros]:
  "returnsC (VerifyCredentials e cr username password)" "returnsC (issue_token e cr tick label userID)"
  "returnsC (session_save e tick label userID token)" "returnsC (session_delete e label userID token)"
  "returnsC (select_user e label userID)" "returnsC (update_user e u)"
  unfolding VerifyCredentials_def issue_token_def session_save_def session_delete_def select_user_def
    update_user_def Let_def
  by (intro returnsC_intros)+

lemma session_service_returns [returnsC_intros]:
  "returnsC (Login e cr tick username password)" "returnsC (markGuestActive e tick userID)"
  "returnsC (expireGuestBestEffort e tick userID)" "returnsC (RotateToken e cr tick userID token)"
  "returnsC (Logout e cr tick token)" "returnsC (InvalidateUserSessions e userID)"
  "returnsC (ValidateTokenToId e cr tick token)"
  unfolding Login_def markGuestActive_def expireGuestBestEffort_def RotateToken_def Logout_def
    InvalidateUserSessions_def ValidateTokenToId_def
  by (intro returnsC_intros)+

lemma Login_named: "Login e cr tick username password w = Some (Inr token, w1) \<Longrightarrow> TrimSpace username \<noteq> []"
  by (auto simp: Login_def call_simps VerifyCredentials_def normalizeUsername_def Let_def)

lemma IssueGuestToken_returns [returnsC_intros]: "returnsC (IssueGuestToken e cr tick)"
  unfolding IssueGuestToken_def by (intro returnsC_intros)

lemma Login_run:
  assumes "Login e cr tick username password w = Some (Inr token, w1)" "cache_ok (w_cache w)"
  shows "\<exists>u. selectUserByUsername (TrimSpace username) (st_users (w_store w)) = Some u \<and> \<not> IsGuest u \<and>
    Matches cr (user_Password u) password = Inr True \<and> IdToToken e cr tick (user_ID u) = Inr token \<and>
    w_store w1 = w_store w \<and> cache_ok (w_cache w1) \<and>
    (\<forall>at \<ge> env_now e (tick + 2). at \<le> env_now e (tick + 2) + jwt_ttl \<longrightarrow>
       sessions_at w1 at = insert (user_ID u, token) (sessions_at w at))"
proof -
  from assms(1) obtain i s where v: "VerifyCredentials e cr username password (w_store w) = Some (Inr i, s)"
    and tok: "IdToToken e cr tick i = Inr token"
    and w1: "w1 = w\<lparr>w_store := s, w_cache := Session_Save (env_now e (tick + 2)) i token TTLSeconds (w_cache w)\<rparr>"
    by (auto simp: Login_def call_simps)
  from VerifyCredentials_run [OF v] obtain u where
    u: "s = w_store w" "selectUserByUsername (TrimSpace username) (st_users (w_store w)) = Some u" "\<not> IsGuest u"
      "Matches cr (user_Password u) password = Inr True" "i = user_ID u" by blast
  have w1': "w1 = w\<lparr>w_cache := Session_Save (env_now e (tick + 2)) i token TTLSeconds (w_cache w)\<rparr>"
    by (simp add: w1 u(1))
  then have "sessions_at w1 at = insert (i, token) (sessions_at w at)"
    if "env_now e (tick + 2) \<le> at" "at \<le> env_now e (tick + 2) + jwt_ttl" for at
    using sessions_at_cache(1) [OF assms(2) that(1), of TTLSeconds] that(2) by (simp add: TTL_day)
  then show ?thesis using u tok sessions.save_inv [OF assms(2)] w1' by auto
qed

lemma RotateToken_run:
  assumes "RotateToken e cr tick i old w = Some (Inr token, w1)" "cache_ok (w_cache w)"
  shows "IdToToken e cr tick i = Inr token \<and> w_store w1 = w_store w \<and> cache_ok (w_cache w1) \<and>
    (\<forall>at \<ge> env_now e (tick + 2). at \<le> env_now e (tick + 2) + jwt_ttl \<longrightarrow>
       sessions_at w1 at = insert (i, token) (sessions_at w at - {(i, old)}))"
proof -
  define w0 where "w0 = w\<lparr>w_cache := Session_Delete i old (w_cache w)\<rparr>"
  have ok0: "cache_ok (w_cache w0)" by (simp add: w0_def sessions.delete_inv [OF assms(2)])
  have tok: "IdToToken e cr tick i = Inr token"
    and w1: "w1 = w0\<lparr>w_cache := Session_Save (env_now e (tick + 2)) i token TTLSeconds (w_cache w0)\<rparr>"
    using assms(1) by (auto simp: RotateToken_def call_simps w0_def)
  have "sessions_at w1 at = insert (i, token) (sessions_at w at - {(i, old)})"
    if "env_now e (tick + 2) \<le> at" "at \<le> env_now e (tick + 2) + jwt_ttl" for at
    using sessions_at_cache(1) [OF ok0 that(1), of TTLSeconds i token] that(2)
      sessions_at_cache(2) [OF assms(2), of i old at] by (simp add: TTL_day w1 w0_def)
  then show ?thesis using tok sessions.save_inv [OF ok0] by (simp add: w1 w0_def)
qed

lemma Logout_run:
  assumes "Logout e cr tick old w = Some (Inr (), w1)" "cache_ok (w_cache w)"
  shows "w_store w1 = w_store w \<and> cache_ok (w_cache w1) \<and> (\<forall>at. sessions_at w1 at = sessions_at w at -
    (case jwt_ValidateTokenToId cr (env_now e tick) old of Inl _ \<Rightarrow> {} | Inr i \<Rightarrow> {(i, old)}))"
  using assms sessions_at_cache(2) [OF assms(2)] sessions.delete_inv [OF assms(2)]
  by (cases "jwt_ValidateTokenToId cr (env_now e tick) old") (auto simp: Logout_def call_simps)

lemma InvalidateUserSessions_run:
  assumes "InvalidateUserSessions e i w = Some (Inr (), w1)" "cache_ok (w_cache w)"
  shows "w_store w1 = w_store w \<and> cache_ok (w_cache w1) \<and>
    (\<forall>at. sessions_at w1 at = {(v, t) \<in> sessions_at w at. v \<noteq> i})"
  using assms sessions_at_cache(3) [OF assms(2)] sessions.delete_user_inv [OF assms(2)]
  by (auto simp: InvalidateUserSessions_def call_simps)

text \<open>
  C20: the operations on sessions change exactly the sessions they are about. Logging in and rotating
  add the new token, as long as it is valid; rotating and logging out remove the old one;
  invalidating removes all sessions of the user and no other; and no event that invalidates lists
  touches a session.
\<close>

theorem session_commands_refine:
  assumes "cache_ok (w_cache w)"
  shows "(Login e cr tick username password w = Some (Inr token, w1) \<longrightarrow>
      (\<exists>u. selectUserByUsername (TrimSpace username) (st_users (w_store w)) = Some u \<and>
         Matches cr (user_Password u) password = Inr True \<and> w_store w1 = w_store w \<and> cache_ok (w_cache w1) \<and>
         (\<forall>at \<ge> env_now e (tick + 2). at \<le> env_now e (tick + 2) + jwt_ttl \<longrightarrow>
            sessions_at w1 at = insert (user_ID u, token) (sessions_at w at)))) \<and>
    (RotateToken e cr tick i old w = Some (Inr token, w1) \<longrightarrow>
       w_store w1 = w_store w \<and> cache_ok (w_cache w1) \<and>
       (\<forall>at \<ge> env_now e (tick + 2). at \<le> env_now e (tick + 2) + jwt_ttl \<longrightarrow>
          sessions_at w1 at = insert (i, token) (sessions_at w at - {(i, old)}))) \<and>
    (Logout e cr tick old w = Some (Inr (), w1) \<longrightarrow>
       w_store w1 = w_store w \<and> cache_ok (w_cache w1) \<and>
       (\<forall>at. sessions_at w1 at = sessions_at w at -
          (case jwt_ValidateTokenToId cr (env_now e tick) old of Inl _ \<Rightarrow> {} | Inr i \<Rightarrow> {(i, old)}))) \<and>
    (InvalidateUserSessions e i w = Some (Inr (), w1) \<longrightarrow>
       w_store w1 = w_store w \<and> cache_ok (w_cache w1) \<and>
       (\<forall>at. sessions_at w1 at = {(v, t) \<in> sessions_at w at. v \<noteq> i})) \<and>
    sessions_at (w\<lparr>w_cache := CacheInvalidation_Handle event (w_cache w)\<rparr>) at = sessions_at w at"
  apply (rule conjI, use Login_run [OF _ assms] in blast)
  apply (rule conjI, use RotateToken_run [OF _ assms] in blast)
  apply (rule conjI, use Logout_run [OF _ assms] in blast)
  apply (rule conjI, use InvalidateUserSessions_run [OF _ assms] in blast)
  by (simp add: sessions_at_def Handle_session [OF assms])

section \<open>The check of a token\<close>

definition jwt_faithful :: "crypto \<Rightarrow> bool" where
  "jwt_faithful cr \<longleftrightarrow> (\<forall>t. cr_numeric_date cr t = t - t mod second) \<and>
     (\<forall>c token now. cr_sign cr c = Inr token \<longrightarrow> claim_ExpiresAt c mod second = 0 \<longrightarrow>
        (if now < claim_ExpiresAt c then cr_parse cr now token = Inr (True, claim_UserID c)
         else \<exists>err. cr_parse cr now token = Inl err))"

text \<open>When a token that is issued now expires: after a day, rounded down to the second.\<close>

definition token_end :: "env \<Rightarrow> nat \<Rightarrow> time" where
  "token_end e tick = env_now e tick + jwt_ttl - (env_now e tick + jwt_ttl) mod second"

lemma second_pos: "0 < second"
  by (simp add: second_def)

lemma token_end_bounds:
  "env_now e tick + jwt_ttl - second < token_end e tick" "token_end e tick \<le> env_now e tick + jwt_ttl"
  using pos_mod_bound [OF second_pos] pos_mod_sign [OF second_pos] by (simp_all add: token_end_def)

lemma IdToToken_parsed:
  assumes "jwt_faithful cr" "IdToToken e cr tick i = Inr token"
  shows "if now < token_end e tick then cr_parse cr now token = Inr (True, i)
    else \<exists>err. cr_parse cr now token = Inl err"
proof -
  from assms have "cr_sign cr \<lparr>claim_UserID = i, claim_ID = env_uuid e (tick + 1),
      claim_IssuedAt = cr_numeric_date cr (env_now e tick), claim_ExpiresAt = token_end e tick\<rparr> = Inr token"
    by (auto simp: IdToToken_def Let_def jwt_faithful_def token_end_def split: sum.splits)
  moreover have "token_end e tick mod second = 0" by (simp add: token_end_def)
  ultimately show ?thesis using assms(1) unfolding jwt_faithful_def by fastforce
qed

lemma IdToToken_validates:
  assumes "jwt_faithful cr" "IdToToken e cr tick i = Inr token" "now < token_end e tick" "0 < i"
  shows "jwt_ValidateTokenToId cr now token = Inr i"
  using IdToToken_parsed [OF assms(1,2), of now] assms(3,4) by (simp add: jwt_ValidateTokenToId_def)

lemma IdToToken_expired:
  assumes "jwt_faithful cr" "IdToToken e cr tick i = Inr token" "token_end e tick \<le> now"
  shows "\<exists>err. jwt_ValidateTokenToId cr now token = Inl err"
  using IdToToken_parsed [OF assms(1,2), of now] assms(3) by (auto simp: jwt_ValidateTokenToId_def)

lemma jwt_error_public: "jwt_ValidateTokenToId cr now token = Inl err \<Longrightarrow> Is ErrInvalidToken err"
  by (auto simp: jwt_ValidateTokenToId_def Wrap_def split: sum.splits if_splits)

text \<open>Who a token stands for at an instant.\<close>

definition token_for :: "crypto \<Rightarrow> time \<Rightarrow> time \<Rightarrow> string \<Rightarrow> world \<Rightarrow> int option" where
  "token_for cr now now' token w =
     (case jwt_ValidateTokenToId cr now token of
        Inl _ \<Rightarrow> None
      | Inr i \<Rightarrow>
          if session_live (w_cache w) now' i token \<and>
             (case selectUserByID i (st_users (w_store w)) of
                None \<Rightarrow> False | Some u \<Rightarrow> IsGuest u \<longrightarrow> IsActiveGuest u)
          then Some i else None)"

lemma ValidateTokenToId_result:
  assumes "no_faults e" "cache_ok (w_cache w)"
  shows "\<exists>r c. ValidateTokenToId e cr tick token w = Some (r, w\<lparr>w_cache := c\<rparr>) \<and> cache_ok c \<and>
    (\<forall>at \<ge> env_now e (tick + 2). sessions_at (w\<lparr>w_cache := c\<rparr>) at = sessions_at w at) \<and>
    (case token_for cr (env_now e tick) (env_now e (tick + 1)) token w of
       Some i \<Rightarrow> r = Inr i
     | None \<Rightarrow> (\<exists>err. r = Inl err \<and> Is ErrInvalidToken err))"
proof (cases "jwt_ValidateTokenToId cr (env_now e tick) token")
  case (Inl err)
  then show ?thesis using jwt_error_public [OF Inl] assms(2)
    by (intro exI [of _ "Inl err"] exI [of _ "w_cache w"])
      (simp add: ValidateTokenToId_def bindC_eval liftC_def token_for_def)
next
  case (Inr i)
  obtain b c where x: "Session_existsLocked (env_now e (tick + 1)) (env_now e (tick + 2)) i token (w_cache w) = (b, c)"
    by fastforce
  note b = sessions.exists_answer [OF assms(2) x] and ok = sessions.exists_inv [OF assms(2) x]
    and l = sessions.exists_live [OF assms(2) x]
  have s: "sessions_at (w\<lparr>w_cache := c\<rparr>) at = sessions_at w at" if "env_now e (tick + 2) \<le> at" for at
    using l [OF that] by (simp add: sessions_at_def)
  let ?u = "selectUserByID i (st_users (w_store w))"
  define r where "r = (if \<not> b then Inl (Sentinel ErrInvalidToken) else
     case ?u of None \<Rightarrow> Inl (Sentinel ErrInvalidToken)
     | Some u \<Rightarrow> if IsGuest u \<and> \<not> IsActiveGuest u then Inl (Sentinel ErrInvalidToken) else Inr i)"
  have w': "w\<lparr>w_cache := c, w_store := w_store w\<rparr> = w\<lparr>w_cache := c\<rparr>" by (cases w) simp
  have v: "ValidateTokenToId e cr tick token w = Some (r, w\<lparr>w_cache := c\<rparr>)"
    using assms(1) Inr x w' by (auto simp: ValidateTokenToId_def bindC_eval liftC_def repoC_def called_ok on_cache_def
        ensureC_def throwC_def returnC_def select_user_def on_store_def read_store_def requireC_def r_def
        split: option.split)
  then show ?thesis using b s ok Inr
    by (intro exI [of _ r] exI [of _ c]) (auto simp: r_def token_for_def split: option.splits)
qed

text \<open>
  Every request passes this check. It lets a token through exactly for the user the provider
  reads in it, when the token is a session that has not ended, the user has not left, and a guest
  is active; any other token is answered with the invalid token error. The check changes neither the
  store nor the sessions that are still live.
\<close>

theorem token_check:
  assumes "no_faults e" "cache_ok (w_cache w)"
  shows "((\<exists>w1. ValidateTokenToId e cr tick token w = Some (Inr i, w1)) \<longleftrightarrow>
      token_for cr (env_now e tick) (env_now e (tick + 1)) token w = Some i) \<and>
    (\<forall>err w1. ValidateTokenToId e cr tick token w = Some (Inl err, w1) \<longrightarrow> Is ErrInvalidToken err) \<and>
    (\<forall>r w1. ValidateTokenToId e cr tick token w = Some (r, w1) \<longrightarrow> w_store w1 = w_store w \<and>
       (\<forall>at \<ge> env_now e (tick + 2). sessions_at w1 at = sessions_at w at))"
proof -
  from ValidateTokenToId_result [OF assms] obtain r c where
    v: "ValidateTokenToId e cr tick token w = Some (r, w\<lparr>w_cache := c\<rparr>)"
      "\<forall>at \<ge> env_now e (tick + 2). sessions_at (w\<lparr>w_cache := c\<rparr>) at = sessions_at w at"
    and r: "case token_for cr (env_now e tick) (env_now e (tick + 1)) token w of
       Some i \<Rightarrow> r = Inr i | None \<Rightarrow> (\<exists>err. r = Inl err \<and> Is ErrInvalidToken err)" by blast
  show ?thesis using v r by (auto split: option.splits)
qed

section \<open>From login to logout\<close>

definition right_credentials :: "crypto \<Rightarrow> store \<Rightarrow> string \<Rightarrow> string \<Rightarrow> user \<Rightarrow> bool" where
  "right_credentials cr s username password u \<longleftrightarrow> TrimSpace username \<noteq> [] \<and>
     selectUserByUsername (TrimSpace username) (st_users s) = Some u \<and> \<not> IsGuest u \<and>
     Matches cr (user_Password u) password = Inr True"

lemma Login_right:
  assumes "no_faults e" "right_credentials cr (w_store w) username password u" "IdToToken e cr tick (user_ID u) = Inr token"
  shows "\<exists>w1. Login e cr tick username password w = Some (Inr token, w1)"
proof -
  have "VerifyCredentials e cr username password (w_store w) = Some (Inr (user_ID u), w_store w)"
    using assms(2) by (simp add: right_credentials_def VerifyCredentials_def normalizeUsername_def Let_def bindC_eval
        called_ok [OF assms(1)] repoC_def read_store_def requireC_def ensureC_def returnC_def)
  then show ?thesis
    by (simp add: Login_def bindC_eval on_store_def issue_token_def liftC_def assms(3) session_save_def repoC_def
        called_ok [OF assms(1)] on_cache_def returnC_def)
qed

lemma Login_wrong:
  assumes "no_faults e" "\<And>u. selectUserByUsername (TrimSpace username) (st_users (w_store w)) = Some u \<Longrightarrow>
      \<not> IsGuest u \<Longrightarrow> Matches cr (user_Password u) password = Inr False"
  shows "Login e cr tick username password w = Some (Inl (Sentinel ErrInvalidCredential), w)"
proof -
  have "VerifyCredentials e cr username password (w_store w) = Some (Inl (Sentinel ErrInvalidCredential), w_store w)"
    using assms(2) by (cases "selectUserByUsername (TrimSpace username) (st_users (w_store w))")
      (auto simp: VerifyCredentials_def normalizeUsername_def Let_def bindC_eval called_ok [OF assms(1)] repoC_def
        read_store_def requireC_def ensureC_def returnC_def throwC_def)
  then show ?thesis by (simp add: Login_def bindC_eval on_store_def)
qed

definition check_refuses :: "env \<Rightarrow> crypto \<Rightarrow> nat \<Rightarrow> string \<Rightarrow> world \<Rightarrow> bool" where
  "check_refuses e cr tick token w \<longleftrightarrow>
     (\<exists>err w'. ValidateTokenToId e cr tick token w = Some (Inl err, w') \<and> Is ErrInvalidToken err)"

lemma check_refuses_none:
  assumes "no_faults e" "cache_ok (w_cache w)" "token_for cr (env_now e m) (env_now e (m + 1)) token w = None"
  shows "check_refuses e cr m token w"
  using ValidateTokenToId_result [OF assms(1,2), of cr m token] assms(3) by (auto simp: check_refuses_def)

text \<open>The calls that end the session of a user: one of them has answered without an error.\<close>

definition session_ended :: "env \<Rightarrow> crypto \<Rightarrow> nat \<Rightarrow> int \<Rightarrow> string \<Rightarrow> world \<Rightarrow> world \<Rightarrow> bool" where
  "session_ended e cr n i token w w' \<longleftrightarrow>
     Logout e cr n token w = Some (Inr (), w') \<or>
     InvalidateUserSessions e i w = Some (Inr (), w') \<or>
     (\<exists>new. RotateToken e cr n i token w = Some (Inr new, w') \<and> new \<noteq> token) \<or>
     (\<exists>pw. on_store (DeleteMe e cr n i pw) w = Some (Inr (), w'))"

lemma session_ended_refused:
  assumes "session_ended e cr n i token w w'" "no_faults e" "cache_ok (w_cache w)" "users_ok (env_lower e) (st_users (w_store w))"
    and jwt: "\<And>k. jwt_ValidateTokenToId cr (env_now e k) token = Inr i"
    and times: "env_now e (n + 2) \<le> env_now e (m + 1)" "env_now e (m + 1) \<le> env_now e (n + 2) + jwt_ttl"
  shows "check_refuses e cr m token w'"
proof -
  have refused: "check_refuses e cr m token w'"
    if "cache_ok (w_cache w')" "(i, token) \<notin> sessions_at w' (env_now e (m + 1)) \<or>
      selectUserByID i (st_users (w_store w')) = None"
    using that jwt [of m] by (intro check_refuses_none assms(2)) (auto simp: token_for_def sessions_at_def)
  from assms(1) show ?thesis unfolding session_ended_def
  proof (elim disjE exE conjE)
    assume "Logout e cr n token w = Some (Inr (), w')"
    from Logout_run [OF this assms(3)] jwt show ?thesis by (intro refused) auto
  next
    assume "InvalidateUserSessions e i w = Some (Inr (), w')"
    from InvalidateUserSessions_run [OF this assms(3)] show ?thesis by (intro refused) auto
  next
    fix new assume r: "RotateToken e cr n i token w = Some (Inr new, w')" "new \<noteq> token"
    from RotateToken_run [OF r(1) assms(3)] times r(2) show ?thesis by (intro refused) auto
  next
    fix pw assume "on_store (DeleteMe e cr n i pw) w = Some (Inr (), w')"
    then obtain s where d: "DeleteMe e cr n i pw (w_store w) = Some (Inr (), s)" "w' = w\<lparr>w_store := s\<rparr>"
      by (auto simp: call_simps)
    from DeleteMe_effect [OF d(1) assms(4)] d(2) assms(3) show ?thesis by (intro refused) auto
  qed
qed

text \<open>
  C19: a login lasts until it is ended. Exactly the right name and password of a user who is no guest
  give a token; an unknown name, a guest's name or a wrong password is answered with the invalid
  credential error and starts no session. The check lets the token through for the user until a
  day has passed, rounded down to the second, and refuses it from then on; it also refuses it after the
  user has logged out, rotated it, had the sessions invalidated or left.
\<close>

theorem login_until_logout:
  assumes "cache_ok (w_cache w)" "users_ok (env_lower e2) (st_users (w_store w))" "jwt_faithful cr"
    and "no_faults e" "no_faults e2" "env_now e tick \<le> env_now e (tick + 2)"
    and "\<forall>n. env_now e (tick + 2) \<le> env_now e2 n \<and> env_now e2 n < token_end e tick"
  shows "((\<exists>w1. Login e cr tick username password w = Some (Inr token, w1)) \<longleftrightarrow>
      (\<exists>u. right_credentials cr (w_store w) username password u \<and> IdToToken e cr tick (user_ID u) = Inr token)) \<and>
    ((\<forall>u. selectUserByUsername (TrimSpace username) (st_users (w_store w)) = Some u \<and> \<not> IsGuest u \<longrightarrow>
         Matches cr (user_Password u) password = Inr False) \<longrightarrow>
       Login e cr tick username password w = Some (Inl (Sentinel ErrInvalidCredential), w)) \<and>
    (\<forall>u w1. Login e cr tick username password w = Some (Inr token, w1) \<and>
         right_credentials cr (w_store w) username password u \<longrightarrow>
       (\<exists>w2. ValidateTokenToId e2 cr n token w1 = Some (Inr (user_ID u), w2)) \<and>
       (\<forall>e3 m w3. no_faults e3 \<and> cache_ok (w_cache w3) \<and> token_end e tick \<le> env_now e3 m \<longrightarrow>
          check_refuses e3 cr m token w3) \<and>
       (\<forall>w2 m. session_ended e2 cr n (user_ID u) token w1 w2 \<and> (\<forall>k. env_now e2 (n + 2) \<le> env_now e2 (m + k)) \<longrightarrow>
          check_refuses e2 cr m token w2))"
proof (intro conjI allI impI)
  show "(\<exists>w1. Login e cr tick username password w = Some (Inr token, w1)) \<longleftrightarrow>
      (\<exists>u. right_credentials cr (w_store w) username password u \<and> IdToToken e cr tick (user_ID u) = Inr token)"
    using Login_right [OF assms(4)] Login_run [OF _ assms(1)] Login_named unfolding right_credentials_def by metis
next
  assume "\<forall>u. selectUserByUsername (TrimSpace username) (st_users (w_store w)) = Some u \<and> \<not> IsGuest u \<longrightarrow>
         Matches cr (user_Password u) password = Inr False"
  then show "Login e cr tick username password w = Some (Inl (Sentinel ErrInvalidCredential), w)"
    using Login_wrong [OF assms(4)] by blast
next
  fix u w1
  assume l: "Login e cr tick username password w = Some (Inr token, w1) \<and>
    right_credentials cr (w_store w) username password u"
  then have u: "selectUserByUsername (TrimSpace username) (st_users (w_store w)) = Some u" "\<not> IsGuest u"
    by (simp_all add: right_credentials_def)
  from Login_run [OF conjunct1 [OF l] assms(1)] u(1) have
    tok: "IdToToken e cr tick (user_ID u) = Inr token" and st: "w_store w1 = w_store w" and ok1: "cache_ok (w_cache w1)"
    and live: "\<And>at. env_now e (tick + 2) \<le> at \<Longrightarrow> at \<le> env_now e (tick + 2) + jwt_ttl \<Longrightarrow>
       sessions_at w1 at = insert (user_ID u, token) (sessions_at w at)" by auto
  note row = selectUserByUsername_row [OF assms(2) u(1)]
  have pos: "0 < user_ID u"
    using db_get_bounds [of user_ID "st_users (w_store w)" "user_ID u" u] row(1) assms(2) by (simp add: users_ok_def)
  have jwt: "jwt_ValidateTokenToId cr (env_now e2 k) token = Inr (user_ID u)" for k
    using assms(7) by (intro IdToToken_validates [OF assms(3) tok _ pos]) blast
  have range: "env_now e (tick + 2) \<le> env_now e2 k" "env_now e2 k \<le> env_now e (tick + 2) + jwt_ttl" for k
    using assms(6) assms(7) [rule_format, of k] token_end_bounds(2) [of e tick] by linarith+
  have "token_for cr (env_now e2 n) (env_now e2 (n + 1)) token w1 = Some (user_ID u)"
    using jwt [of n] live [OF range, of "n + 1"] row u(2) by (auto simp: token_for_def sessions_at_def st selectUserByID_def)
  with token_check [OF assms(5) ok1] show "\<exists>w2. ValidateTokenToId e2 cr n token w1 = Some (Inr (user_ID u), w2)"
    by blast
  show "check_refuses e3 cr m token w3"
    if "no_faults e3 \<and> cache_ok (w_cache w3) \<and> token_end e tick \<le> env_now e3 m" for e3 m w3
    using IdToToken_expired [OF assms(3) tok, of "env_now e3 m"] that
    by (intro check_refuses_none) (auto simp: token_for_def)
  show "check_refuses e2 cr m token w2"
    if "session_ended e2 cr n (user_ID u) token w1 w2 \<and> (\<forall>k. env_now e2 (n + 2) \<le> env_now e2 (m + k))" for w2 m
  proof (rule session_ended_refused [OF conjunct1 [OF that] assms(5) ok1])
    show "users_ok (env_lower e2) (st_users (w_store w1))" by (simp add: st assms(2))
    show "jwt_ValidateTokenToId cr (env_now e2 k) token = Inr (user_ID u)" for k by (rule jwt)
    show "env_now e2 (n + 2) \<le> env_now e2 (m + 1)" using that by blast
    show "env_now e2 (m + 1) \<le> env_now e2 (n + 2) + jwt_ttl"
      using range(1) [of "n + 2"] range(2) [of "m + 1"] assms(6,7) token_end_bounds(2) [of e tick] by (meson add_right_mono order.trans)
  qed
qed

section \<open>The properties at concrete inputs\<close>

definition demo_world :: world where
  "demo_world = \<lparr>w_store = demo_members, w_cache = NewInMemoryCache, w_sent = []\<rparr>"

lemma demo_cache_ok: "cache_ok (w_cache demo_world)"
  by (simp add: demo_world_def cache_ok_new)

lemma demo_alice_name: "TrimSpace ''alice'' = ''alice''"
  by (rule TrimSpace_plain) (simp add: plain_byte_def)

lemma demo_faultless: "no_faults demo_env"
  by (simp add: demo_env_simps)

lemma demo_faithful: "jwt_faithful demo_crypto"
  by (auto simp: jwt_faithful_def demo_crypto_def Let_def split: if_splits)

text \<open>The token of a login in the first second: it names user 2 and expires after a day.\<close>

definition demo_session :: string where
  "demo_session = ''2.'' @ FormatInt 86400000000000 @ ''.u1''"

lemma demo_end:
  assumes "n < 1000"
  shows "token_end demo_env n = 86400000000000"
proof -
  have "(1000 + int n + 86400 * second) mod second = (1000 + int n) mod second" by simp
  also have "\<dots> = 1000 + int n" using assms by (intro mod_pos_pos_trivial) (simp_all add: second_def)
  finally show ?thesis by (simp add: token_end_def demo_env_simps jwt_ttl_def second_def)
qed

lemma demo_signs:
  assumes "- (2 ^ 63) \<le> i" "i < 2 ^ 63" "tick < 1000"
  shows "IdToToken demo_env demo_crypto tick i =
    Inr (FormatInt i @ ''.'' @ FormatInt 86400000000000 @ ''.'' @ env_uuid demo_env (tick + 1))"
proof -
  have "cr_numeric_date demo_crypto (env_now demo_env tick + jwt_ttl) = 86400000000000"
    using demo_end [OF assms(3)] by (simp add: demo_crypto_def token_end_def)
  moreover have "cr_sign demo_crypto \<lparr>claim_UserID = i, claim_ID = uuid, claim_IssuedAt = at, claim_ExpiresAt = 86400000000000\<rparr> =
      Inr (FormatInt i @ ''.'' @ FormatInt 86400000000000 @ ''.'' @ uuid)" for uuid at
    using demo_token_claims [OF assms(1,2), of 86400000000000 uuid] by (simp add: demo_crypto_def Let_def)
  ultimately show ?thesis by (simp add: IdToToken_def Let_def)
qed

lemma demo_token: "IdToToken demo_env demo_crypto 0 2 = Inr demo_session"
proof -
  have "FormatInt 2 = ''2''" "FormatInt 1 = ''1''" by code_simp+
  then show ?thesis using demo_signs [of 2 0] by (simp add: demo_session_def demo_env_simps)
qed

lemma demo_login:
  "Login demo_env demo_crypto 0 ''alice'' ''pw'' demo_world = Some (Inr demo_session,
    demo_world\<lparr>w_cache := Session_Save 1002 2 demo_session TTLSeconds NewInMemoryCache\<rparr>)"
proof -
  have "VerifyCredentials demo_env demo_crypto ''alice'' ''pw'' demo_members = Some (Inr 2, demo_members)"
    by (simp add: VerifyCredentials_def normalizeUsername_def demo_alice_name bindC_eval called_ok repoC_def
        demo_faultless read_store_def requireC_def ensureC_def returnC_def throwC_def demo_members_def demo_member_def
        selectUserByUsername_def demo_crypto_simps entity_eval)
  then show ?thesis
    by (simp add: Login_def bindC_eval on_store_def issue_token_def liftC_def demo_token session_save_def repoC_def
        called_ok demo_faultless on_cache_def returnC_def demo_world_def demo_env_simps)
qed

text \<open>The clock of the witness for the check: it stands still an hour after the login.\<close>

definition demo_check_env :: env where
  "demo_check_env = demo_env\<lparr>env_now := (\<lambda>_. 1000 + 3600 * second)\<rparr>"

lemma demo_later: "2000 \<le> 1002 + jwt_ttl" "1002 \<le> 1000 + 3600 * second" "1000 + 3600 * second < 1000 + jwt_ttl"
  by (auto simp: jwt_ttl_def second_def)

lemma demo_found: "selectUserByUsername (TrimSpace ''alice'') (st_users (w_store demo_world)) = Some demo_member"
  unfolding demo_alice_name
  by (simp add: demo_world_def demo_members_def demo_member_def selectUserByUsername_def entity_eval)

lemma demo_member_ID: "user_ID demo_member = 2"
  by (simp add: demo_member_def entity_eval)

theorem session_commands_refine_witness:
  "\<exists>w1. Login demo_env demo_crypto 0 ''alice'' ''pw'' demo_world = Some (Inr demo_session, w1) \<and>
    (2, demo_session) \<in> sessions_at w1 2000"
proof -
  let ?w1 = "demo_world\<lparr>w_cache := Session_Save 1002 2 demo_session TTLSeconds NewInMemoryCache\<rparr>"
  from conjunct1 [OF session_commands_refine [OF demo_cache_ok]] demo_login obtain u where
    u: "selectUserByUsername (TrimSpace ''alice'') (st_users (w_store demo_world)) = Some u"
    and live: "\<forall>at \<ge> env_now demo_env (0 + 2). at \<le> env_now demo_env (0 + 2) + jwt_ttl \<longrightarrow>
      sessions_at ?w1 at = insert (user_ID u, demo_session) (sessions_at demo_world at)" by blast
  have "user_ID u = 2"
    using u demo_found demo_member_ID by simp
  moreover have "sessions_at ?w1 2000 = insert (user_ID u, demo_session) (sessions_at demo_world 2000)"
    using live demo_later(1) by (simp add: demo_env_simps)
  ultimately have "(2, demo_session) \<in> sessions_at ?w1 2000" by (simp only: insertI1)
  with demo_login show ?thesis by (intro exI conjI)
qed

lemma demo_world_users_ok: "users_ok (env_lower demo_env) (st_users (w_store demo_world))"
  using demo_members_ok by (simp add: demo_world_def)

theorem login_until_logout_witness:
  "\<exists>w1 w2. Login demo_env demo_crypto 0 ''alice'' ''pw'' demo_world = Some (Inr demo_session, w1) \<and>
    Login demo_env demo_crypto 0 ''alice'' ''no'' demo_world = Some (Inl (Sentinel ErrInvalidCredential), demo_world) \<and>
    Logout demo_check_env demo_crypto 0 demo_session w1 = Some (Inr (), w2) \<and>
    (\<exists>w3. ValidateTokenToId demo_check_env demo_crypto 0 demo_session w1 = Some (Inr 2, w3)) \<and>
    check_refuses demo_check_env demo_crypto 9 demo_session w2"
proof -
  let ?w1 = "demo_world\<lparr>w_cache := Session_Save 1002 2 demo_session TTLSeconds NewInMemoryCache\<rparr>"
  have e: "no_faults demo_check_env" "env_now demo_check_env n = 1000 + 3600 * second" for n
    by (simp_all add: demo_check_env_def demo_env_simps)
  have ok: "users_ok (env_lower demo_check_env) (st_users (w_store demo_world))"
    using demo_world_users_ok by (simp add: demo_check_env_def)
  have times: "env_now demo_env 0 \<le> env_now demo_env (0 + 2)" "\<forall>n. env_now demo_env (0 + 2) \<le> env_now demo_check_env n \<and>
      env_now demo_check_env n < token_end demo_env 0"
    using demo_later by (simp_all add: e demo_env_simps demo_end second_def)
  note all = login_until_logout [OF demo_cache_ok ok demo_faithful demo_faultless e(1) times, of _ _ demo_session 0]
  have right: "right_credentials demo_crypto (w_store demo_world) ''alice'' ''pw'' demo_member"
    using demo_found demo_alice_name
    by (simp add: right_credentials_def demo_member_def demo_crypto_simps entity_eval policy_eval)
  have wrong: "Matches demo_crypto (user_Password demo_member) ''no'' = Inr False"
    by (simp add: demo_member_def demo_crypto_simps)
  then have refused: "Login demo_env demo_crypto 0 ''alice'' ''no'' demo_world =
      Some (Inl (Sentinel ErrInvalidCredential), demo_world)"
    using all [of "''alice''" "''no''"] demo_found by (metis option.inject)
  obtain w2 where out: "Logout demo_check_env demo_crypto 0 demo_session ?w1 = Some (Inr (), w2)"
    by (cases "jwt_ValidateTokenToId demo_crypto (env_now demo_check_env 0) demo_session")
      (auto simp: Logout_def returnC_def session_delete_def repoC_def called_ok [OF e(1)] on_cache_def)
  then have "session_ended demo_check_env demo_crypto 0 (user_ID demo_member) demo_session ?w1 w2"
    by (simp add: session_ended_def)
  moreover have "\<forall>k. env_now demo_check_env (0 + 2) \<le> env_now demo_check_env (9 + k)" by (simp add: e(2))
  moreover note all [of "''alice''" "''pw''", THEN conjunct2, THEN conjunct2, rule_format, OF conjI [OF demo_login right]]
  ultimately have
    "\<exists>w3. ValidateTokenToId demo_check_env demo_crypto 0 demo_session ?w1 = Some (Inr (user_ID demo_member), w3)"
    "check_refuses demo_check_env demo_crypto 9 demo_session w2" by blast+
  with demo_login refused out show ?thesis unfolding demo_member_ID by blast
qed

theorem token_check_witness:
  "\<exists>w1. ValidateTokenToId demo_env demo_crypto 5 demo_session
      (demo_world\<lparr>w_cache := Session_Save 1002 2 demo_session TTLSeconds NewInMemoryCache\<rparr>) = Some (Inr 2, w1)"
proof -
  let ?w = "demo_world\<lparr>w_cache := Session_Save 1002 2 demo_session TTLSeconds NewInMemoryCache\<rparr>"
  have ok: "cache_ok (w_cache ?w)" using sessions.save_inv [OF demo_cache_ok] by (simp add: demo_world_def)
  have jwt: "jwt_ValidateTokenToId demo_crypto (env_now demo_env 5) demo_session = Inr 2"
    by (rule IdToToken_validates [OF demo_faithful demo_token]) (simp_all add: demo_env_simps demo_end)
  have live: "session_live (w_cache ?w) 1006 2 demo_session"
    using sessions.save_live [OF cache_ok_new, of 1002 2 demo_session TTLSeconds 1006 2 demo_session] TTL_day
    by (simp add: jwt_ttl_def second_def)
  have "token_for demo_crypto (env_now demo_env 5) (env_now demo_env (5 + 1)) demo_session ?w = Some 2"
    using jwt live by (simp add: token_for_def demo_env_simps demo_world_def demo_members_def demo_member_def
        selectUserByID_def entity_eval)
  with token_check [OF demo_faultless ok] show ?thesis by blast
qed

end
