(* ===== verification/SvcAccount.thy ===== *)
theory SvcAccount
  imports SvcSession
begin

text \<open>
  \<open>service/account/service.go\<close>: leaving, turning a guest into a member, verifying an address and
  resetting a password. The commands join the transactions on the store with the sessions, and
  undo by hand what a transaction has committed when a later step on the sessions fails.

  The service is the one start-up builds, with all its parts, so that the tests for missing parts
  do not fire; the audit log is not modelled. A command numbers what it reads from the clock and
  the sources of randomness from \<open>tick\<close> on; a transaction in the middle of it starts at
  \<open>tick + 10\<close> and the one that undoes it at \<open>tick + 50\<close>, beyond what the first has used.
\<close>

section \<open>Steps\<close>

text \<open>\<open>err := m\<close>: the error as a value, and \<open>return WrapRepository(label, err)\<close> for an error that is not nil.\<close>

definition attemptC :: "('s, 'a) call \<Rightarrow> ('s, go_error option) call" where
  "attemptC m = catchC (bindC m (\<lambda>_. returnC None)) (\<lambda>err. returnC (Some err))"

definition wrapC :: "string \<Rightarrow> ('s, 'a) call \<Rightarrow> ('s, 'a) call" where
  "wrapC label m = catchC m (\<lambda>err. throwC (WrapRepository label (Some err)))"

fun the_errors :: "go_error option list \<Rightarrow> go_error list" where
  "the_errors [] = []"
| "the_errors (None # es) = the_errors es"
| "the_errors (Some err # es) = err # the_errors es"

definition hashResetToken :: "crypto \<Rightarrow> string \<Rightarrow> string" where
  "hashResetToken cr token = hashToken cr token"

definition normalizeAccountEmail :: "(string \<Rightarrow> string) \<Rightarrow> string \<Rightarrow> string" where
  "normalizeAccountEmail lower email = ToLower lower (TrimSpace email)"

definition account_issueEmailVerificationToken ::
  "crypto \<Rightarrow> user \<Rightarrow> (string \<times> string \<times> time) option action" where
  "account_issueEmailVerificationToken cr u =
     (if user_Email u = [] \<or> IsEmailVerified u then returnT None
      else
        let tokenTTL = (if cr_verificationTTL cr \<le> 0 then 30 * minute else cr_verificationTTL cr) in
        bindT (Issue ''issue email verification token'') (\<lambda>rawToken.
        bindT nowT (\<lambda>now.
          let expiresAt = now + tokenTTL; tokenHash = hashEmailVerificationToken cr rawToken in
        bindT nowT (\<lambda>created.
        bindT nowT (\<lambda>consumed.
          let verificationToken = Consume consumed (NewToken created (user_ID u) tokenHash expiresAt) in
        bindT (wrapped ''invalidate previous email verification tokens''
                 (emailVerificationTokenTx_InvalidateByUser (user_ID u))) (\<lambda>_.
        bindT (wrapped ''save email verification token''
                 (emailVerificationTokenTx_Save verificationToken)) (\<lambda>_.
          returnT (Some (rawToken, tokenHash, expiresAt)))))))))"

definition issuePasswordResetToken ::
  "crypto \<Rightarrow> int \<Rightarrow> duration \<Rightarrow> (string \<times> string \<times> time) option action" where
  "issuePasswordResetToken cr userID tokenTTL0 =
     (if userID \<le> 0 then returnT None
      else
        let tokenTTL = (if tokenTTL0 \<le> 0 then 30 * minute else tokenTTL0) in
        bindT (Issue ''issue password reset token'') (\<lambda>rawToken.
        bindT nowT (\<lambda>now.
          let expiresAt = now + tokenTTL; tokenHash = hashResetToken cr rawToken in
        bindT nowT (\<lambda>created.
        bindT nowT (\<lambda>consumed.
          let resetToken = Consume consumed (NewToken created userID tokenHash expiresAt) in
        bindT (wrapped ''invalidate previous password reset tokens''
                 (passwordResetTokenTx_InvalidateByUser userID)) (\<lambda>_.
        bindT (wrapped ''save password reset token''
                 (passwordResetTokenTx_Save resetToken)) (\<lambda>_.
          returnT (Some (rawToken, tokenHash, expiresAt)))))))))"

text \<open>The mail is queued when a token was issued.\<close>

definition dispatch_issued ::
  "(time \<Rightarrow> string \<Rightarrow> string \<Rightarrow> time \<Rightarrow> domain_event) \<Rightarrow> (string \<times> string \<times> time) option \<Rightarrow> unit action" where
  "dispatch_issued mk issued =
     (case issued of
        None \<Rightarrow> returnT ()
      | Some (rawToken, tokenHash, expiresAt) \<Rightarrow>
          bindT nowT (\<lambda>at. DispatchDomainActions [mk at rawToken tokenHash expiresAt]))"

section \<open>Leaving\<close>

definition DeleteMyAccount :: "env \<Rightarrow> crypto \<Rightarrow> nat \<Rightarrow> int \<Rightarrow> string \<Rightarrow> (world, unit) call" where
  "DeleteMyAccount e cr tick userID password =
     bindC (on_store (DeleteMe e cr tick userID password)) (\<lambda>_.
     catchC (InvalidateUserSessions e userID) (\<lambda>_. returnC ()))"

section \<open>Guests become members\<close>

definition applyGuestUpgrade_tx :: "crypto \<Rightarrow> int \<Rightarrow> string \<Rightarrow> string \<Rightarrow> string \<Rightarrow> user action" where
  "applyGuestUpgrade_tx cr userID username email hashedPassword =
     bindT (wrapped ''select user by id for guest upgrade'' (userTx_SelectUserByID userID)) (\<lambda>ou.
     bindT (requireT ou (Sentinel ErrUserNotFound)) (\<lambda>existingUser.
     bindT (ensureT (if \<not> IsGuest existingUser then Some (Sentinel ErrInvalidInput) else None)) (\<lambda>_.
     bindT nowT (\<lambda>now.
       let upgradedUser = UpgradeGuest now username email hashedPassword existingUser in
     bindT (exists_or_wrapped ''update user for guest upgrade'' (userTx_Update upgradedUser)) (\<lambda>_.
     bindT (account_issueEmailVerificationToken cr upgradedUser) (\<lambda>issued.
     bindT (dispatch_issued (\<lambda>at. NewSignupEmailVerificationRequested at (user_ID upgradedUser)
              (user_Email upgradedUser)) issued) (\<lambda>_.
       returnT existingUser)))))))"

definition applyGuestUpgrade ::
  "env \<Rightarrow> crypto \<Rightarrow> nat \<Rightarrow> int \<Rightarrow> string \<Rightarrow> string \<Rightarrow> string \<Rightarrow> (store, user) call" where
  "applyGuestUpgrade e cr tick userID username email hashedPassword =
     WithinTransaction e tick (applyGuestUpgrade_tx cr userID username email hashedPassword)"

definition restoreUserState_tx :: "user \<Rightarrow> unit action" where
  "restoreUserState_tx u =
     bindT (wrapped ''select user by id for guest rollback''
              (userTx_SelectUserByIDIncludingDeleted (user_ID u))) (\<lambda>ou.
     bindT (requireT ou (Sentinel ErrUserNotFound)) (\<lambda>_.
       wrapped ''restore guest after failed upgrade'' (userTx_Update u)))"

definition restoreUserState :: "env \<Rightarrow> nat \<Rightarrow> user \<Rightarrow> (store, unit) call" where
  "restoreUserState e tick u = WithinTransaction e tick (restoreUserState_tx u)"

text \<open>What happens under the lock of the user.\<close>

definition swap_guest_session ::
  "env \<Rightarrow> crypto \<Rightarrow> nat \<Rightarrow> int \<Rightarrow> string \<Rightarrow> string \<Rightarrow> string \<Rightarrow> string \<Rightarrow> (world, string) call" where
  "swap_guest_session e cr tick userID currentToken username email hashedPassword =
     bindC (repoC e ''lookup current session for guest upgrade''
              (on_cache (Session_existsLocked (env_now e tick) (env_now e (tick + 1)) userID currentToken))) (\<lambda>present.
     bindC (ensureC (if \<not> present then Some (Sentinel ErrInvalidToken) else None)) (\<lambda>_.
     bindC (issue_token e cr (tick + 2) ''issue guest upgrade token'' userID) (\<lambda>candidateToken.
     bindC (session_save e (tick + 4) ''save upgraded session'' userID candidateToken) (\<lambda>_.
     bindC (catchC (on_store (applyGuestUpgrade e cr (tick + 9) userID username email hashedPassword))
              (\<lambda>err. bindC (discardC e (on_cache (\<lambda>c. ((), Session_Delete userID candidateToken c))))
                 (\<lambda>_. throwC err))) (\<lambda>originalUser.
     bindC (catchC (session_delete e ''delete current session for guest upgrade'' userID currentToken)
              (\<lambda>err.
                 bindC (attemptC (session_delete e ''delete upgraded session after failed guest upgrade''
                          userID candidateToken)) (\<lambda>deleteErr.
                 bindC (attemptC (wrapC ''restore guest after failed upgrade''
                          (on_store (restoreUserState e (tick + 49) originalUser)))) (\<lambda>restoreUserErr.
                   throwC (Joined (the_errors [Some err, deleteErr, restoreUserErr])))))) (\<lambda>_.
       returnC candidateToken))))))"

definition UpgradeGuestAccount ::
  "env \<Rightarrow> crypto \<Rightarrow> nat \<Rightarrow> int \<Rightarrow> string \<Rightarrow> string \<Rightarrow> string \<Rightarrow> string \<Rightarrow> (world, string) call" where
  "UpgradeGuestAccount e cr tick userID currentToken0 username0 email0 password =
     (let username = TrimSpace username0; email = TrimSpace email0; currentToken = TrimSpace currentToken0 in
      if username = [] \<or> email = [] \<or> TrimSpace password = [] \<or> currentToken = []
      then throwC (Sentinel ErrInvalidInput)
      else case Hash cr tick password of
             Inl err \<Rightarrow> throwC (Wrap ErrInternalServerError ''hash password for guest upgrade'' (Some err))
           | Inr hashedPassword \<Rightarrow>
               swap_guest_session e cr (tick + 1) userID currentToken username email hashedPassword)"

section \<open>Verifying an address\<close>

definition RequestEmailVerification_tx :: "crypto \<Rightarrow> int \<Rightarrow> unit action" where
  "RequestEmailVerification_tx cr userID =
     bindT (wrapped ''select user by id for email verification request'' (userTx_SelectUserByID userID)) (\<lambda>ou.
       case ou of
         None \<Rightarrow> returnT ()
       | Some u \<Rightarrow>
           if IsGuest u \<or> IsDeleted u \<or> user_Email u = [] \<or> IsEmailVerified u then returnT ()
           else bindT (account_issueEmailVerificationToken cr u) (\<lambda>issued.
                  dispatch_issued (\<lambda>at. NewEmailVerificationResendRequested at (user_ID u) (user_Email u)) issued))"

definition RequestEmailVerification :: "env \<Rightarrow> crypto \<Rightarrow> nat \<Rightarrow> int \<Rightarrow> (store, unit) call" where
  "RequestEmailVerification e cr tick userID =
     (if userID \<le> 0 then returnC ()
      else WithinTransaction e tick (RequestEmailVerification_tx cr userID))"

definition ConfirmEmailVerification_tx :: "string \<Rightarrow> unit action" where
  "ConfirmEmailVerification_tx tokenHash =
     bindT (wrapped ''select email verification token for confirm''
              (emailVerificationTokenTx_SelectByTokenHash tokenHash)) (\<lambda>ot.
     bindT nowT (\<lambda>at.
     bindT (ensureT (if \<not> IsUsable at ot then Some (Sentinel ErrInvalidToken) else None)) (\<lambda>_.
     bindT (requireT ot (Sentinel ErrInvalidToken)) (\<lambda>verificationToken.
     bindT (wrapped ''select user by id for email verification confirm''
              (userTx_SelectUserByID (token_UserID verificationToken))) (\<lambda>ou.
     bindT (requireT ou (Sentinel ErrInvalidToken)) (\<lambda>u.
     bindT (ensureT (if IsGuest u \<or> IsDeleted u \<or> user_Email u = []
              then Some (Sentinel ErrInvalidToken) else None)) (\<lambda>_.
     bindT nowT (\<lambda>now.
     bindT (if \<not> IsEmailVerified u
            then wrapped ''update user for email verification confirm'' (userTx_Update (MarkEmailVerified now u))
            else returnT ()) (\<lambda>_.
       wrapped ''invalidate email verification tokens''
         (emailVerificationTokenTx_InvalidateByUser (user_ID u)))))))))))"

definition ConfirmEmailVerification :: "env \<Rightarrow> crypto \<Rightarrow> nat \<Rightarrow> string \<Rightarrow> (store, unit) call" where
  "ConfirmEmailVerification e cr tick token0 =
     (let token = TrimSpace token0 in
      if token = [] then throwC (Sentinel ErrInvalidInput)
      else WithinTransaction e tick (ConfirmEmailVerification_tx (hashEmailVerificationToken cr token)))"

section \<open>Resetting a password\<close>

definition RequestPasswordReset_tx :: "crypto \<Rightarrow> string \<Rightarrow> duration \<Rightarrow> unit action" where
  "RequestPasswordReset_tx cr email tokenTTL =
     bindT (wrapped ''select user by email for password reset request'' (userTx_SelectUserByEmail email)) (\<lambda>ou.
       case ou of
         None \<Rightarrow> returnT ()
       | Some u \<Rightarrow>
           if IsGuest u \<or> IsDeleted u then returnT ()
           else bindT (issuePasswordResetToken cr (user_ID u) tokenTTL) (\<lambda>issued.
                  dispatch_issued (\<lambda>at. NewPasswordResetRequested at (user_ID u) email) issued))"

definition RequestPasswordReset :: "env \<Rightarrow> crypto \<Rightarrow> nat \<Rightarrow> string \<Rightarrow> (store, unit) call" where
  "RequestPasswordReset e cr tick email0 =
     (let email = normalizeAccountEmail (env_lower e) email0 in
      if email = [] then throwC (Sentinel ErrInvalidInput)
      else if \<not> cr_address cr email then throwC (Sentinel ErrInvalidInput)
      else
        let tokenTTL = (if cr_resetTTL cr \<le> 0 then 30 * minute else cr_resetTTL cr) in
        WithinTransaction e tick (RequestPasswordReset_tx cr email tokenTTL))"

definition ConfirmPasswordReset_tx :: "string \<Rightarrow> string \<Rightarrow> (user \<times> token) action" where
  "ConfirmPasswordReset_tx tokenHash hashedPassword =
     bindT (wrapped ''select password reset token for confirm''
              (passwordResetTokenTx_SelectByTokenHash tokenHash)) (\<lambda>ot.
     bindT nowT (\<lambda>at.
     bindT (ensureT (if \<not> IsUsable at ot then Some (Sentinel ErrInvalidToken) else None)) (\<lambda>_.
     bindT (requireT ot (Sentinel ErrInvalidToken)) (\<lambda>resetToken.
     bindT (wrapped ''select user by id for password reset confirm''
              (userTx_SelectUserByID (token_UserID resetToken))) (\<lambda>ou.
     bindT (requireT ou (Sentinel ErrInvalidToken)) (\<lambda>u.
     bindT (ensureT (if IsGuest u \<or> IsDeleted u then Some (Sentinel ErrInvalidToken) else None)) (\<lambda>_.
     bindT nowT (\<lambda>updated.
     bindT (wrapped ''update user password for password reset confirm''
              (userTx_Update (u\<lparr>user_Password := hashedPassword, user_UpdatedAt := updated\<rparr>))) (\<lambda>_.
     bindT nowT (\<lambda>consumed.
     bindT (wrapped ''consume password reset token''
              (passwordResetTokenTx_Update (Consume consumed resetToken))) (\<lambda>_.
       returnT (u, resetToken))))))))))))"

definition restorePasswordResetState_tx :: "user \<Rightarrow> token \<Rightarrow> unit action" where
  "restorePasswordResetState_tx u token =
     bindT (wrapped ''select user by id for password reset rollback''
              (userTx_SelectUserByIDIncludingDeleted (user_ID u))) (\<lambda>ou.
     bindT (requireT ou (Sentinel ErrUserNotFound)) (\<lambda>_.
     bindT (wrapped ''restore user after failed password reset'' (userTx_Update u)) (\<lambda>_.
       wrapped ''restore password reset token after failed password reset''
         (passwordResetTokenTx_Update token))))"

definition restorePasswordResetState :: "env \<Rightarrow> nat \<Rightarrow> user \<Rightarrow> token \<Rightarrow> (store, unit) call" where
  "restorePasswordResetState e tick u token = WithinTransaction e tick (restorePasswordResetState_tx u token)"

text \<open>What happens under the lock of the user.\<close>

definition reset_password ::
  "env \<Rightarrow> nat \<Rightarrow> int \<Rightarrow> string \<Rightarrow> string \<Rightarrow> (world, unit) call" where
  "reset_password e tick userID tokenHash hashedPassword =
     bindC (on_store (WithinTransaction e tick (ConfirmPasswordReset_tx tokenHash hashedPassword)))
       (\<lambda>(originalUser, originalToken).
     catchC (repoC e ''delete user sessions for password reset confirm''
               (on_cache (\<lambda>c. ((), Session_DeleteByUser userID c))))
       (\<lambda>err.
          bindC (attemptC (wrapC ''restore password reset state after failed session invalidation''
                   (on_store (restorePasswordResetState e (tick + 40) originalUser originalToken)))) (\<lambda>restoreErr.
          case restoreErr of
            Some rerr \<Rightarrow> throwC (Joined [err, rerr])
          | None \<Rightarrow> throwC err)))"

definition ConfirmPasswordReset :: "env \<Rightarrow> crypto \<Rightarrow> nat \<Rightarrow> string \<Rightarrow> string \<Rightarrow> (world, unit) call" where
  "ConfirmPasswordReset e cr tick token0 newPassword =
     (let token = TrimSpace token0 in
      if token = [] \<or> TrimSpace newPassword = [] then throwC (Sentinel ErrInvalidInput)
      else
        let tokenHash = hashResetToken cr token in
        bindC (repoC e ''select password reset token before confirm'' (password_tokens_select tokenHash)) (\<lambda>ot.
        bindC (requireC ot (Sentinel ErrInvalidToken)) (\<lambda>existingReset.
        let userID = token_UserID existingReset in
        case Hash cr tick newPassword of
          Inl err \<Rightarrow> throwC (Wrap ErrInternalServerError ''hash password for password reset confirm'' (Some err))
        | Inr hashedPassword \<Rightarrow> reset_password e (tick + 10) userID tokenHash hashedPassword)))"

section \<open>Invalidating tokens\<close>

definition invalidateEmailVerificationTokens :: "env \<Rightarrow> int \<Rightarrow> (store, unit) call" where
  "invalidateEmailVerificationTokens e userID =
     (if userID \<le> 0 then returnC ()
      else repoC e ''invalidate email verification tokens''
             (write_store st_email_tokens st_email_tokens_update (changes (EmailVerification_invalidateByUser userID))))"

definition invalidatePasswordResetTokens :: "env \<Rightarrow> nat \<Rightarrow> int \<Rightarrow> (store, unit) call" where
  "invalidatePasswordResetTokens e tick userID =
     WithinTransaction e tick
       (wrapped ''invalidate password reset tokens'' (passwordResetTokenTx_InvalidateByUser userID))"

section \<open>Failure and blocking\<close>

lemma account_issue_same: "account_issueEmailVerificationToken cr u = issueEmailVerificationToken cr u"
  by (simp add: account_issueEmailVerificationToken_def issueEmailVerificationToken_def)

lemmas token_part_defs =
  emailVerificationTokenTx_InvalidateByUser_def emailVerificationTokenTx_Save_def
  emailVerificationTokenTx_SelectByTokenHash_def passwordResetTokenTx_InvalidateByUser_def
  passwordResetTokenTx_Save_def passwordResetTokenTx_SelectByTokenHash_def passwordResetTokenTx_Update_def

lemma account_parts_atomic [atomic_intros]:
  "atomic (account_issueEmailVerificationToken cr u)" "atomic (issuePasswordResetToken cr i ttl)"
  "atomic (dispatch_issued mk issued)"
  unfolding account_issue_same issuePasswordResetToken_def dispatch_issued_def Let_def token_part_defs
  by (intro atomic_intros)+

lemma account_parts_return [returns_intros]:
  "returns (account_issueEmailVerificationToken cr u)" "returns (issuePasswordResetToken cr i ttl)"
  "returns (dispatch_issued mk issued)"
  unfolding account_issue_same issuePasswordResetToken_def dispatch_issued_def Let_def token_part_defs
  by (intro returns_intros)+

lemmas account_tx_defs =
  applyGuestUpgrade_tx_def restoreUserState_tx_def RequestEmailVerification_tx_def ConfirmEmailVerification_tx_def
  RequestPasswordReset_tx_def ConfirmPasswordReset_tx_def restorePasswordResetState_tx_def

lemma account_tx_atomic [atomic_intros]:
  "atomic (applyGuestUpgrade_tx cr i username email hashed)" "atomic (restoreUserState_tx u)"
  "atomic (RequestEmailVerification_tx cr i)" "atomic (ConfirmEmailVerification_tx h)"
  "atomic (RequestPasswordReset_tx cr email ttl)" "atomic (ConfirmPasswordReset_tx h hashed)"
  "atomic (restorePasswordResetState_tx u tok)"
  unfolding account_tx_defs Let_def token_part_defs by (intro atomic_intros)+

lemma account_tx_return [returns_intros]:
  "returns (applyGuestUpgrade_tx cr i username email hashed)" "returns (restoreUserState_tx u)"
  "returns (RequestEmailVerification_tx cr i)" "returns (ConfirmEmailVerification_tx h)"
  "returns (RequestPasswordReset_tx cr email ttl)" "returns (ConfirmPasswordReset_tx h hashed)"
  "returns (restorePasswordResetState_tx u tok)"
  unfolding account_tx_defs Let_def token_part_defs by (intro returns_intros)+

lemma steps_return [returnsC_intros]:
  "returnsC m \<Longrightarrow> returnsC (attemptC m)" "returnsC m' \<Longrightarrow> returnsC (wrapC label m')"
  unfolding attemptC_def wrapC_def by (intro returnsC_intros; assumption)+

lemma account_commands_return [returnsC_intros]:
  "returnsC (DeleteMyAccount e cr tick i password)"
  "returnsC (UpgradeGuestAccount e cr tick i token username email password)"
  "returnsC (RequestEmailVerification e cr tick i)" "returnsC (ConfirmEmailVerification e cr tick token)"
  "returnsC (RequestPasswordReset e cr tick email)" "returnsC (ConfirmPasswordReset e cr tick token password)"
  unfolding DeleteMyAccount_def UpgradeGuestAccount_def swap_guest_session_def applyGuestUpgrade_def
    restoreUserState_def RequestEmailVerification_def ConfirmEmailVerification_def RequestPasswordReset_def
    ConfirmPasswordReset_def reset_password_def restorePasswordResetState_def password_tokens_select_def Let_def
  by (intro returnsC_intros returns_intros)+

lemma account_commands_undo [undoes_intros]:
  "undoes (RequestEmailVerification e cr tick i)" "undoes (ConfirmEmailVerification e cr tick token)"
  "undoes (RequestPasswordReset e cr tick email)"
  unfolding RequestEmailVerification_def ConfirmEmailVerification_def RequestPasswordReset_def Let_def
  by (intro undoes_intros atomic_intros)+

end
