(* ===== verification/SvcUpkeep.thy ===== *)
theory SvcUpkeep
  imports SvcAccount
begin

text \<open>
  \<open>service/guestcleanup\<close>, \<open>service/emailverificationcleanup\<close>, \<open>service/passwordresetcleanup\<close> and
  \<open>service/outboxadmin\<close>: guests that were never used leave, old tokens are dropped, and an
  administrator looks at the dead messages of the outbox, requeues or discards them.

  A guest is looked at under the lock of the user and inside a transaction; the question to the
  sessions, asked in the middle of it, touches only the cache, so it is asked first and its
  effect on the cache is kept when the transaction gets that far.
\<close>

section \<open>Guests\<close>

definition cleanupGuest_tx :: "int \<Rightarrow> bool \<Rightarrow> bool action" where
  "cleanupGuest_tx userID sessions_answer =
     bindT (wrapped ''select user by id for guest cleanup'' (userTx_SelectUserByID userID)) (\<lambda>ou.
       case ou of
         None \<Rightarrow> returnT False
       | Some u \<Rightarrow>
           if \<not> IsGuest u then returnT False
           else
             bindT (wrapped ''check guest sessions for cleanup'' (returnT sessions_answer)) (\<lambda>hasSessions.
             if hasSessions then returnT False
             else bindT (wrapped ''check guest posts for cleanup'' (postTx_ExistsByAuthorID userID)) (\<lambda>hasPosts.
             if hasPosts then returnT False
             else bindT (wrapped ''check guest comments for cleanup'' (commentTx_ExistsByAuthorID userID)) (\<lambda>hasComments.
             if hasComments then returnT False
             else bindT (wrapped ''check guest reactions for cleanup'' (reactionTx_ExistsByUserID userID)) (\<lambda>hasReactions.
             if hasReactions then returnT False
             else bindT (wrapped ''check guest reports for cleanup'' (reportTx_ExistsByReporterUserID userID)) (\<lambda>hasReports.
             if hasReports then returnT False
             else bindT nowT (\<lambda>now.
                  bindT (wrapped ''soft delete guest for cleanup'' (userTx_Update (User_SoftDelete now u))) (\<lambda>_.
                    returnT True))))))))"

definition sessions_asked :: "env \<Rightarrow> int \<Rightarrow> store \<Rightarrow> bool" where
  "sessions_asked e userID s \<longleftrightarrow> env_fault e ''select user by id for guest cleanup'' = None \<and>
     (case selectUserByID userID (st_users s) of None \<Rightarrow> False | Some u \<Rightarrow> IsGuest u) \<and>
     env_fault e ''check guest sessions for cleanup'' = None"

definition cleanupGuest :: "env \<Rightarrow> nat \<Rightarrow> int \<Rightarrow> (world, bool) call" where
  "cleanupGuest e tick userID = (\<lambda>w.
     case Session_existsByUserLocked (\<lambda>n. env_now e (tick + n)) userID (w_cache w) of (hasSessions, c) \<Rightarrow>
       on_store (WithinTransaction e tick (cleanupGuest_tx userID hasSessions))
         (if sessions_asked e userID (w_store w) then w\<lparr>w_cache := c\<rparr> else w))"

text \<open>\<open>a, err := m\<close>: the answer as a value.\<close>

definition resultC :: "('s, 'a) call \<Rightarrow> ('s, go_error + 'a) call" where
  "resultC m = catchC (bindC m (\<lambda>a. returnC (Inr a))) (\<lambda>err. returnC (Inl err))"

text \<open>
  The loop answers the number of guests that left together with the error that ended it.
\<close>

fun cleanup_items :: "env \<Rightarrow> nat \<Rightarrow> user list \<Rightarrow> int \<Rightarrow> (world, int \<times> go_error option) call" where
  "cleanup_items e tick [] deletedCount = returnC (deletedCount, None)"
| "cleanup_items e tick (item # items) deletedCount =
     (case env_ctx e of
        Some err \<Rightarrow> returnC (deletedCount, Some err)
      | None \<Rightarrow>
          bindC (resultC (cleanupGuest e tick (user_ID item))) (\<lambda>res.
            case res of
              Inl err \<Rightarrow> returnC (deletedCount, Some err)
            | Inr deleted \<Rightarrow>
                cleanup_items e (tick + 10) items (if deleted then deletedCount + 1 else deletedCount)))"

definition CleanupGuests ::
  "env \<Rightarrow> nat \<Rightarrow> time \<Rightarrow> duration \<Rightarrow> duration \<Rightarrow> int \<Rightarrow> (world, int \<times> go_error option) call" where
  "CleanupGuests e tick now pendingGrace activeUnusedGrace limit =
     (if limit \<le> 0 \<or> pendingGrace \<le> 0 \<or> activeUnusedGrace \<le> 0 then returnC (0, None)
      else
        bindC (resultC (repoC e ''select guest cleanup candidates''
                 (on_store (read_store st_users
                    (selectGuestCleanupCandidates now pendingGrace activeUnusedGrace limit))))) (\<lambda>res.
          case res of
            Inl err \<Rightarrow> returnC (0, Some err)
          | Inr items \<Rightarrow> cleanup_items e tick items 0))"

section \<open>Tokens\<close>

definition CleanupEmailVerificationTokens :: "env \<Rightarrow> time \<Rightarrow> duration \<Rightarrow> int \<Rightarrow> (store, int) call" where
  "CleanupEmailVerificationTokens e now gracePeriod limit =
     (if limit \<le> 0 \<or> gracePeriod \<le> 0 then returnC 0
      else repoC e ''cleanup email verification tokens''
             (write_store st_email_tokens st_email_tokens_update
                (always (EmailVerification_deleteExpiredOrConsumedBefore (now - gracePeriod) limit))))"

definition CleanupPasswordResetTokens :: "env \<Rightarrow> time \<Rightarrow> duration \<Rightarrow> int \<Rightarrow> (store, int) call" where
  "CleanupPasswordResetTokens e now gracePeriod limit =
     (if limit \<le> 0 \<or> gracePeriod \<le> 0 then returnC 0
      else repoC e ''cleanup password reset tokens''
             (write_store st_password_tokens st_password_tokens_update
                (always (PasswordReset_deleteExpiredOrConsumedBefore (now - gracePeriod) limit))))"

section \<open>Dead messages\<close>

definition outbox_ensureAdmin :: "env \<Rightarrow> int \<Rightarrow> (store, unit) call" where
  "outbox_ensureAdmin e adminID =
     bindC (repoC e ''select admin by id for outbox admin'' (read_store st_users (selectUserByID adminID))) (\<lambda>ou.
     bindC (requireC ou (Sentinel ErrUserNotFound)) (\<lambda>u. ensureC (AdminOnly (Some u))))"

definition outbox_read :: "(outbox_repo \<Rightarrow> go_error + 'a) \<Rightarrow> (store, 'a) call" where
  "outbox_read f = (\<lambda>s. Some (f (st_outbox s), s))"

definition ensureDeadMessage :: "env \<Rightarrow> string \<Rightarrow> (store, unit) call" where
  "ensureDeadMessage e messageID =
     bindC (repoC e ''select outbox message by id for dead operation''
              (outbox_read (Outbox_SelectByID (env_ctx e) messageID))) (\<lambda>message.
       ensureC (case message of
                  None \<Rightarrow> Some (Sentinel ErrInvalidInput)
                | Some m \<Rightarrow> if msg_Status m \<noteq> OutboxStatusDead then Some (Sentinel ErrInvalidInput) else None))"

record dead_message =
  dead_ID :: string
  dead_EventName :: string
  dead_AttemptCount :: int
  dead_LastError :: string
  dead_OccurredAt :: time
  dead_NextAttemptAt :: time

record dead_message_list =
  dml_Messages :: "dead_message list"
  dml_Limit :: int
  dml_LastID :: string
  dml_HasMore :: bool
  dml_NextLastID :: "string option"

definition dead_view :: "outbox_message \<Rightarrow> dead_message" where
  "dead_view m =
     \<lparr>dead_ID = msg_ID m, dead_EventName = msg_EventName m, dead_AttemptCount = msg_AttemptCount m,
      dead_LastError = msg_LastError m, dead_OccurredAt = msg_OccurredAt m,
      dead_NextAttemptAt = msg_NextAttemptAt m\<rparr>"

definition GetDeadMessages :: "env \<Rightarrow> int \<Rightarrow> int \<Rightarrow> string \<Rightarrow> (store, dead_message_list) call" where
  "GetDeadMessages e adminID limit lastID0 =
     bindC (ensureC (RequirePositiveLimit limit)) (\<lambda>_.
     bindC (outbox_ensureAdmin e adminID) (\<lambda>_.
       let lastID = TrimSpace lastID0 in
     bindC (repoC e ''select dead outbox list'' (outbox_read (SelectDead (env_ctx e) (limit + 1) lastID))) (\<lambda>fetched.
       let hasMore = (limit < int (length fetched));
           messages = (if hasMore then take (nat limit) fetched else fetched);
           nextLastID = (if hasMore \<and> messages \<noteq> [] then Some (msg_ID (last messages)) else None)
       in returnC \<lparr>dml_Messages = map dead_view messages, dml_Limit = limit, dml_LastID = lastID,
                   dml_HasMore = hasMore, dml_NextLastID = nextLastID\<rparr>)))"

definition RequeueDeadMessage :: "env \<Rightarrow> nat \<Rightarrow> int \<Rightarrow> string \<Rightarrow> (store, unit) call" where
  "RequeueDeadMessage e tick adminID messageID0 =
     bindC (outbox_ensureAdmin e adminID) (\<lambda>_.
       let messageID = TrimSpace messageID0 in
     bindC (ensureC (if messageID = [] then Some (Sentinel ErrInvalidInput) else None)) (\<lambda>_.
     bindC (ensureDeadMessage e messageID) (\<lambda>_.
       repoC e ''requeue dead outbox message''
         (write_store st_outbox st_outbox_update
            (checked (MarkRetry (env_ctx e) messageID (env_now e tick) ''manual requeue by admin''))))))"

definition DiscardDeadMessage :: "env \<Rightarrow> int \<Rightarrow> string \<Rightarrow> (store, unit) call" where
  "DiscardDeadMessage e adminID messageID0 =
     bindC (outbox_ensureAdmin e adminID) (\<lambda>_.
       let messageID = TrimSpace messageID0 in
     bindC (ensureC (if messageID = [] then Some (Sentinel ErrInvalidInput) else None)) (\<lambda>_.
     bindC (ensureDeadMessage e messageID) (\<lambda>_.
       repoC e ''discard dead outbox message''
         (write_store st_outbox st_outbox_update (checked (MarkSucceeded (env_ctx e) [messageID]))))))"

section \<open>Failure and blocking\<close>

lemma cleanupGuest_tx_atomic [atomic_intros]: "atomic (cleanupGuest_tx i b)"
  unfolding cleanupGuest_tx_def postTx_ExistsByAuthorID_def commentTx_ExistsByAuthorID_def
    reactionTx_ExistsByUserID_def reportTx_ExistsByReporterUserID_def
  by (intro atomic_intros)

end
