(* ===== verification/Triples.thy ===== *)
theory Triples
  imports SvcUser
begin

text \<open>
  Rules for an invariant. \<open>yieldsT lower I m Q\<close> says that an action that succeeds from a store with \<open>I\<close>
  keeps \<open>I\<close> and answers a value with \<open>Q\<close>; \<open>yieldsC I m Q\<close> says of a call that it keeps \<open>I\<close> whatever it
  answers, errors included, and that its value has \<open>Q\<close>. There is one rule for each way the
  code goes on after a step, so that a proof follows the text of a definition.
\<close>

section \<open>Actions\<close>

definition yieldsT ::
  "(string \<Rightarrow> string) \<Rightarrow> (store \<Rightarrow> bool) \<Rightarrow> 'a action \<Rightarrow> ('a \<Rightarrow> bool) \<Rightarrow> bool" where
  "yieldsT lower I m Q \<longleftrightarrow> (\<forall>e t a t'. env_lower e = lower \<longrightarrow> I (tx_store t) \<longrightarrow> m e t = Some (Inr a, t') \<longrightarrow>
     I (tx_store t') \<and> Q a)"

named_theorems yields_intros \<open>steps that keep an invariant\<close>

lemma yieldsT_run:
  "yieldsT (env_lower e) I m Q \<Longrightarrow> m e t = Some (Inr a, t') \<Longrightarrow> I (tx_store t) \<Longrightarrow> I (tx_store t') \<and> Q a"
  by (auto simp: yieldsT_def)

lemma yieldsTI:
  "(\<And>e t a t'. env_lower e = lower \<Longrightarrow> I (tx_store t) \<Longrightarrow> m e t = Some (Inr a, t') \<Longrightarrow> I (tx_store t') \<and> Q a) \<Longrightarrow>
    yieldsT lower I m Q"
  by (auto simp: yieldsT_def)

lemma yieldsT_weaken: "yieldsT lower I m Q \<Longrightarrow> (\<And>a. Q a \<Longrightarrow> R a) \<Longrightarrow> yieldsT lower I m R"
  by (auto simp: yieldsT_def)

lemma yieldsT_step:
  assumes "\<And>e t a t1. env_lower e = lower \<Longrightarrow> I (tx_store t) \<Longrightarrow> m e t = Some (Inr a, t1) \<Longrightarrow>
    I (tx_store t1) \<and> yieldsT lower I (k a) R"
  shows "yieldsT lower I (bindT m k) R"
proof (rule yieldsTI)
  fix e t b t' assume l: "env_lower e = lower" and i: "I (tx_store t)" and r: "bindT m k e t = Some (Inr b, t')"
  from r obtain a t1 where m: "m e t = Some (Inr a, t1)" "k a e t1 = Some (Inr b, t')" by (auto simp: bindT_run)
  from assms [OF l i m(1)] l yieldsT_run [of e I "k a" R t1 b t'] m(2) show "I (tx_store t') \<and> R b" by simp
qed

lemma yieldsT_then:
  assumes "yieldsT lower I m Q" "\<And>a. Q a \<Longrightarrow> yieldsT lower I (k a) R"
  shows "yieldsT lower I (bindT m k) R"
  by (rule yieldsT_step) (use assms yieldsT_run [of _ I m Q] in blast)

lemma yieldsT_last [yields_intros]:
  "Q a \<Longrightarrow> yieldsT lower I (returnT a) Q" "yieldsT lower I (throwT err) Q"
  "(res = None \<Longrightarrow> R ()) \<Longrightarrow> yieldsT lower I (ensureT res) R"
  by (rule yieldsTI; simp add: tx_simps)+

text \<open>A read, a guard, a draw, and what follows.\<close>

lemma yieldsT_read [yields_intros]:
  "(\<And>s. I s \<Longrightarrow> yieldsT lower I (k (f (get s))) R) \<Longrightarrow>
    yieldsT lower I (bindT (wrapped label (read_part get f)) k) R"
  "(\<And>s. I s \<Longrightarrow> yieldsT lower I (k' (g (get' s))) R') \<Longrightarrow> yieldsT lower I (bindT (read_part get' g) k') R'"
  by (rule yieldsT_step; simp add: tx_simps)+

lemma yieldsT_guard [yields_intros]:
  "(res = None \<Longrightarrow> yieldsT lower I (k ()) R) \<Longrightarrow> yieldsT lower I (bindT (ensureT res) k) R"
  "(\<And>a. x = Some a \<Longrightarrow> yieldsT lower I (k1 a) R) \<Longrightarrow> yieldsT lower I (bindT (requireT x err) k1) R"
  "(\<And>now. yieldsT lower I (k2 now) R) \<Longrightarrow> yieldsT lower I (bindT nowT k2) R"
  "(\<And>buf. yieldsT lower I (k3 buf) R) \<Longrightarrow> yieldsT lower I (bindT randT k3) R"
  by (rule yieldsT_step; simp add: tx_simps)+

lemma yieldsT_if [yields_intros]:
  "(b \<Longrightarrow> yieldsT lower I m Q) \<Longrightarrow> (\<not> b \<Longrightarrow> yieldsT lower I n Q) \<Longrightarrow> yieldsT lower I (if b then m else n) Q"
  "(x = None \<Longrightarrow> yieldsT lower I m1 Q) \<Longrightarrow> (\<And>a. x = Some a \<Longrightarrow> yieldsT lower I (f a) Q) \<Longrightarrow>
    yieldsT lower I (case x of None \<Rightarrow> m1 | Some a \<Rightarrow> f a) Q"
  "(\<And>a b. z = (a, b) \<Longrightarrow> yieldsT lower I (g a b) Q) \<Longrightarrow> yieldsT lower I (case z of (a, b) \<Rightarrow> g a b) Q"
  by (auto split: option.split prod.split)

lemma yieldsT_wrapped [yields_intros]:
  "yieldsT lower I m Q \<Longrightarrow> yieldsT lower I (wrapped label m) Q"
  "yieldsT lower I m' Q \<Longrightarrow> yieldsT lower I (exists_or_wrapped label m') Q"
  by (rule yieldsTI; use yieldsT_run in \<open>fastforce simp: tx_simps exists_or_wrapped_run\<close>)+

lemma yieldsT_plain [yields_intros]:
  "yieldsT lower I (read_part get f) (\<lambda>_. True)" "yieldsT lower I (envT g) (\<lambda>_. True)"
  "yieldsT lower I nowT (\<lambda>_. True)"
  by (rule yieldsTI; simp add: tx_simps)+

section \<open>Calls\<close>

definition yieldsC :: "('s \<Rightarrow> bool) \<Rightarrow> ('s, 'a) call \<Rightarrow> ('a \<Rightarrow> bool) \<Rightarrow> bool" where
  "yieldsC I m Q \<longleftrightarrow> (\<forall>w r w'. I w \<longrightarrow> m w = Some (r, w') \<longrightarrow> I w' \<and> (\<forall>a. r = Inr a \<longrightarrow> Q a))"

lemma yieldsC_run: "yieldsC I m Q \<Longrightarrow> m w = Some (r, w') \<Longrightarrow> I w \<Longrightarrow> I w'"
  by (auto simp: yieldsC_def)

lemma yieldsC_weaken: "yieldsC I m Q \<Longrightarrow> (\<And>a. Q a \<Longrightarrow> R a) \<Longrightarrow> yieldsC I m R"
  by (auto simp: yieldsC_def)

lemma yieldsCD:
  "yieldsC I m Q \<Longrightarrow> I w \<Longrightarrow> m w = Some (r, w') \<Longrightarrow> I w' \<and> (\<forall>a. r = Inr a \<longrightarrow> Q a)"
  by (simp add: yieldsC_def)

lemma yieldsCI:
  "(\<And>w r w'. I w \<Longrightarrow> m w = Some (r, w') \<Longrightarrow> I w' \<and> (\<forall>a. r = Inr a \<longrightarrow> Q a)) \<Longrightarrow> yieldsC I m Q"
  by (simp add: yieldsC_def)

lemma yieldsC_bindC:
  assumes "yieldsC I m Q" "\<And>a. Q a \<Longrightarrow> yieldsC I (k a) R"
  shows "yieldsC I (bindC m k) R"
proof (rule yieldsCI)
  fix w r w' assume i: "I w" and b: "bindC m k w = Some (r, w')"
  from b obtain r1 w1 where m: "m w = Some (r1, w1)" by (auto simp: bindC_def split: option.splits)
  note q = yieldsCD [OF assms(1) i m]
  show "I w' \<and> (\<forall>a. r = Inr a \<longrightarrow> R a)"
  proof (cases r1)
    case (Inl err)
    with b m have "r = Inl err" "w' = w1" by (auto simp: bindC_def)
    with q show ?thesis by simp
  next
    case (Inr a)
    with b m have "k a w1 = Some (r, w')" by (simp add: bindC_def)
    with q Inr yieldsCD [OF assms(2), of a w1] show ?thesis by simp
  qed
qed

lemma yieldsC_catchC:
  assumes "yieldsC I m Q" "\<And>err. yieldsC I (h err) Q"
  shows "yieldsC I (catchC m h) Q"
proof (rule yieldsCI)
  fix w r w' assume i: "I w" and b: "catchC m h w = Some (r, w')"
  from b obtain r1 w1 where m: "m w = Some (r1, w1)" by (auto simp: catchC_def split: option.splits)
  note q = yieldsCD [OF assms(1) i m]
  show "I w' \<and> (\<forall>a. r = Inr a \<longrightarrow> Q a)"
  proof (cases r1)
    case (Inl err)
    with b m have "h err w1 = Some (r, w')" by (simp add: catchC_def)
    with q yieldsCD [OF assms(2), of w1] show ?thesis by simp
  next
    case (Inr a)
    with b m have "r = Inr a" "w' = w1" by (auto simp: catchC_def)
    with q Inr show ?thesis by simp
  qed
qed

lemma yieldsC_last [yields_intros]:
  "Q a \<Longrightarrow> yieldsC I (returnC a) Q" "yieldsC I (throwC err) Q"
  "(res = None \<Longrightarrow> R ()) \<Longrightarrow> yieldsC I (ensureC res) R"
  by (auto simp: yieldsC_def returnC_def throwC_def ensureC_def split: option.splits)

lemma yieldsC_guard [yields_intros]:
  "(res = None \<Longrightarrow> yieldsC I (k ()) R) \<Longrightarrow> yieldsC I (bindC (ensureC res) k) R"
  "(\<And>a. x = Some a \<Longrightarrow> yieldsC I (k1 a) R) \<Longrightarrow> yieldsC I (bindC (requireC x err) k1) R"
  "(\<And>a. r = Inr a \<Longrightarrow> yieldsC I (k2 a) R) \<Longrightarrow> yieldsC I (bindC (liftC r) k2) R"
  by (auto simp: yieldsC_def bindC_def ensureC_def requireC_def liftC_def returnC_def throwC_def split: option.splits sum.splits)

lemma yieldsC_if [yields_intros]:
  "(b \<Longrightarrow> yieldsC I m Q) \<Longrightarrow> (\<not> b \<Longrightarrow> yieldsC I n Q) \<Longrightarrow> yieldsC I (if b then m else n) Q"
  "(x = None \<Longrightarrow> yieldsC I m1 Q) \<Longrightarrow> (\<And>a. x = Some a \<Longrightarrow> yieldsC I (f a) Q) \<Longrightarrow>
    yieldsC I (case x of None \<Rightarrow> m1 | Some a \<Rightarrow> f a) Q"
  "(\<And>l. y = Inl l \<Longrightarrow> yieldsC I (g l) Q) \<Longrightarrow> (\<And>r. y = Inr r \<Longrightarrow> yieldsC I (h r) Q) \<Longrightarrow>
    yieldsC I (case y of Inl l \<Rightarrow> g l | Inr r \<Rightarrow> h r) Q"
  "(\<And>a b. z = (a, b) \<Longrightarrow> yieldsC I (k a b) Q) \<Longrightarrow> yieldsC I (case z of (a, b) \<Rightarrow> k a b) Q"
  by (auto split: option.split sum.split prod.split)

lemma yieldsC_called [yields_intros]:
  "yieldsC I m Q \<Longrightarrow> yieldsC I (called e wrap label m) Q"
  "yieldsC I m' Q \<Longrightarrow> yieldsC I (repoC e label m') Q"
  "yieldsC I m'' (\<lambda>_. True) \<Longrightarrow> R () \<Longrightarrow> yieldsC I (discardC e m'') R"
proof -
  have c: "yieldsC I n Q \<Longrightarrow> yieldsC I (called e wrap label n) Q" for n wrap label and Q :: "'x \<Rightarrow> bool"
    by (fastforce simp: yieldsC_def called_def split: option.splits sum.splits)
  show "yieldsC I m Q \<Longrightarrow> yieldsC I (called e wrap label m) Q" by (rule c)
  show "yieldsC I m' Q \<Longrightarrow> yieldsC I (repoC e label m') Q" unfolding repoC_def by (rule c)
  show "yieldsC I (discardC e m'') R" if "yieldsC I m'' (\<lambda>_. True)" "R ()"
    unfolding discardC_def
    by (intro yieldsC_catchC yieldsC_bindC [OF c [OF that(1)]] yieldsC_last) (use that(2) in auto)
qed

text \<open>A transaction: what its action does when it succeeds, and nothing when it fails.\<close>

lemma yieldsC_transaction:
  assumes "atomic fn" "yieldsT (env_lower e) I fn Q"
  shows "yieldsC I (WithinTransaction e tick fn) Q"
  unfolding yieldsC_def
proof (intro allI impI)
  fix s r s' assume i: "I s" and w: "WithinTransaction e tick fn s = Some (r, s')"
  show "I s' \<and> (\<forall>a. r = Inr a \<longrightarrow> Q a)"
  proof (cases r)
    case (Inl err)
    with atomic_rollback [OF assms(1), of e tick s err s'] w i show ?thesis by simp
  next
    case (Inr a)
    with w obtain t where "fn e (begin_tx tick s) = Some (Inr a, t)" "s' = tx_store t"
      by (auto simp: atomic_commit [OF assms(1)])
    with yieldsT_run [OF assms(2)] i Inr show ?thesis by auto
  qed
qed

lemma yieldsC_on_store:
  assumes "yieldsC I m Q" "\<And>w. J w \<Longrightarrow> I (w_store w)" "\<And>w s. J w \<Longrightarrow> I s \<Longrightarrow> J (w\<lparr>w_store := s\<rparr>)"
  shows "yieldsC J (on_store m) Q"
  unfolding yieldsC_def on_store_def
  using assms by (fastforce simp: yieldsC_def split: option.splits)

lemma yieldsC_on_cache:
  assumes "\<And>w. J w \<Longrightarrow> J (w\<lparr>w_cache := snd (f (w_cache w))\<rparr>)"
  shows "yieldsC J (on_cache f) (\<lambda>_. True)"
  using assms by (auto simp: yieldsC_def on_cache_def split: prod.splits) (metis snd_conv)

end
