(* ===== verification/AccountTypes.thy ===== *)
theory AccountTypes
  imports SvcUpkeep Triples
begin

text \<open>
  The shape of accounts. Each row of the users is of one kind: a member, a guest in one of its three
  states, or a user who has left and of whom no address, password or verification is kept; only
  a suspended user has a reason and an end of the suspension. Rows are unique by name, address and
  UUID, tokens sit under their hash, and the cache with the sessions is indexed. Every operation of the
  services on accounts and sessions keeps this, whatever fails on the way.
\<close>

section \<open>The types of rows\<close>

definition user_typed :: "user \<Rightarrow> bool" where
  "user_typed u \<longleftrightarrow>
     (IsGuest u \<longleftrightarrow> user_GuestStatus u \<noteq> GuestStatusNone) \<and>
     (IsGuest u \<longrightarrow> \<not> IsAdmin u \<and> \<not> IsEmailVerified u \<and> user_GuestIssuedAt u \<noteq> None) \<and>
     (user_GuestStatus u = GuestStatusActive \<longrightarrow> user_GuestActivatedAt u \<noteq> None) \<and>
     (user_GuestStatus u = GuestStatusExpired \<longrightarrow> user_GuestExpiredAt u \<noteq> None) \<and>
     (IsDeleted u \<longleftrightarrow> user_DeletedAt u \<noteq> None) \<and>
     (IsDeleted u \<longrightarrow> user_Email u = [] \<and> user_Password u = [] \<and> \<not> IsGuest u \<and> \<not> IsEmailVerified u) \<and>
     (user_Status u \<noteq> UserStatusSuspended \<longrightarrow> user_SuspensionReason u = [] \<and> user_SuspendedUntil u = None)"

definition users_typed :: "user_repo \<Rightarrow> bool" where
  "users_typed r \<longleftrightarrow> (\<forall>i u. db_get r i = Some u \<longrightarrow> user_typed u)"

definition store_typed :: "(string \<Rightarrow> string) \<Rightarrow> store \<Rightarrow> bool" where
  "store_typed lower s \<longleftrightarrow> users_ok lower (st_users s) \<and> users_typed (st_users s) \<and>
     tokens_ok (st_email_tokens s) \<and> tokens_ok (st_password_tokens s)"

definition world_typed :: "(string \<Rightarrow> string) \<Rightarrow> world \<Rightarrow> bool" where
  "world_typed lower w \<longleftrightarrow> store_typed lower (w_store w) \<and> cache_ok (w_cache w)"

lemma typed_operations [intro]:
  "user_typed (NewUserWithEmail now uuid name email password)"
  "user_typed (NewGuest now uuid name email password)"
  "user_typed u \<Longrightarrow> \<not> IsDeleted u \<Longrightarrow> user_typed (UpgradeGuest now name email password u)"
  "user_typed u \<Longrightarrow> user_typed (User_SoftDelete now u)"
  "user_typed u \<Longrightarrow> \<not> IsDeleted u \<Longrightarrow> user_typed (Suspend now reason until u)"
  "user_typed u \<Longrightarrow> \<not> IsDeleted u \<Longrightarrow> user_typed (Unsuspend now u)"
  "user_typed u \<Longrightarrow> \<not> IsDeleted u \<Longrightarrow> \<not> IsGuest u \<Longrightarrow> user_typed (MarkEmailVerified now u)"
  "user_typed u \<Longrightarrow> IsGuest u \<Longrightarrow> user_typed (MarkGuestActive now u)"
  "user_typed u \<Longrightarrow> IsGuest u \<Longrightarrow> user_typed (MarkGuestExpired now u)"
  "user_typed u \<Longrightarrow> \<not> IsDeleted u \<Longrightarrow> user_typed (u\<lparr>user_Password := hashed, user_UpdatedAt := now\<rparr>)"
  by (auto simp: user_typed_def NewUserWithEmail_def NewGuest_def UpgradeGuest_def User_SoftDelete_def Suspend_def
      Unsuspend_def MarkEmailVerified_def MarkGuestActive_def MarkGuestExpired_def IsGuest_def IsAdmin_def
      IsEmailVerified_def IsDeleted_def)

lemma user_typed_ID [simp]: "user_typed (u\<lparr>user_ID := i\<rparr>) = user_typed u"
  by (simp add: user_typed_def IsGuest_def IsAdmin_def IsEmailVerified_def IsDeleted_def)

lemma typed_row:
  assumes "store_typed lower s"
  shows "selectUserByID i (st_users s) = Some u \<Longrightarrow> user_typed u \<and> \<not> IsDeleted u"
    "selectUserByUUID uuid (st_users s) = Some u \<Longrightarrow> user_typed u \<and> \<not> IsDeleted u"
  using assms selectUserByID_row [of lower "st_users s" i u] selectUserByUUID_row [of lower "st_users s" uuid u]
  by (auto simp: store_typed_def users_typed_def)

section \<open>The steps of the services\<close>

lemma userTx_Update_typed [yields_intros]:
  assumes "user_typed u"
  shows "yieldsT lower (store_typed lower) (userTx_Update u) (\<lambda>_. True)"
proof (rule yieldsTI, intro conjI TrueI)
  fix e t x t' assume l: "env_lower e = lower" "store_typed lower (tx_store t)" "userTx_Update u e t = Some (Inr x, t')"
  then obtain r where r: "User_update lower u (st_users (tx_store t)) = (Inr x, r)"
    and t': "tx_store t' = (tx_store t)\<lparr>st_users := r\<rparr>" by (auto simp: userTx_Update_def tx_simps)
  have "users_ok lower r" using User_update_ok [OF _ r] l(2) by (simp add: store_typed_def)
  moreover have "users_typed r"
    using r l(2) assms by (auto simp: User_update_def store_typed_def users_typed_def split: option.splits if_splits)
  ultimately show "store_typed lower (tx_store t')" using l(2) by (simp add: t' store_typed_def)
qed

lemma userTx_Save_typed [yields_intros]:
  assumes "user_typed u"
  shows "yieldsT lower (store_typed lower) (userTx_Save u) (\<lambda>_. True)"
proof (rule yieldsTI, intro conjI TrueI)
  fix e t x t' assume l: "env_lower e = lower" "store_typed lower (tx_store t)" "userTx_Save u e t = Some (Inr x, t')"
  then have a: "user_added e x (tx_store t) (tx_store t')" "x = u\<lparr>user_ID := user_ID x\<rparr>"
    "(tx_store t')\<lparr>st_users := st_users (tx_store t)\<rparr> = tx_store t"
    using userTx_Save_run [of u e t x t'] by (simp_all add: store_typed_def)
  have x: "user_typed x" by (subst a(2)) (simp add: assms)
  have "st_email_tokens (tx_store t') = st_email_tokens (tx_store t)"
    "st_password_tokens (tx_store t') = st_password_tokens (tx_store t)"
    using arg_cong [OF a(3), of st_email_tokens] arg_cong [OF a(3), of st_password_tokens] by simp_all
  with a(1) x l(1,2) show "store_typed lower (tx_store t')"
    by (auto simp: store_typed_def users_typed_def user_added_def)
qed

lemma userTx_Delete_typed [yields_intros]:
  "yieldsT lower (store_typed lower) (userTx_Delete i) (\<lambda>_. True)"
  by (rule yieldsTI)
    (auto simp: userTx_Delete_def tx_simps store_typed_def users_typed_def User_delete_ok, auto simp: User_delete_def split: if_splits)

lemma token_steps_typed [yields_intros]:
  "yieldsT lower (store_typed lower) (emailVerificationTokenTx_InvalidateByUser i) (\<lambda>_. True)"
  "yieldsT lower (store_typed lower) (emailVerificationTokenTx_Save tok) (\<lambda>_. True)"
  "yieldsT lower (store_typed lower) (passwordResetTokenTx_InvalidateByUser i) (\<lambda>_. True)"
  "yieldsT lower (store_typed lower) (passwordResetTokenTx_Save tok) (\<lambda>_. True)"
  "yieldsT lower (store_typed lower) (passwordResetTokenTx_Update tok) (\<lambda>_. True)"
  by (rule yieldsTI; auto simp: emailVerificationTokenTx_InvalidateByUser_def emailVerificationTokenTx_Save_def
      passwordResetTokenTx_InvalidateByUser_def passwordResetTokenTx_Save_def passwordResetTokenTx_Update_def
      tx_simps store_typed_def PasswordReset_update_def tokens_save email_tokens.save_inv email_tokens.invalidate_inv
      password_tokens.save_inv password_tokens.invalidate_inv)+

lemma Dispatch_typed [yields_intros]:
  "yieldsT lower (store_typed lower) (DispatchDomainActions events) (\<lambda>_. True)"
  by (rule yieldsTI) (auto dest!: Dispatch_run simp: store_typed_def)

lemma RequireAdmin_typed [yields_intros]:
  "(\<And>u. yieldsT lower (store_typed lower) (k u) R) \<Longrightarrow>
    yieldsT lower (store_typed lower) (bindT (RequireAdminUser userID operation) k) R"
  by (rule yieldsT_step) (simp add: RequireAdminUser_run)

lemma Issue_typed [yields_intros]:
  "(\<And>raw. yieldsT lower (store_typed lower) (k raw) R) \<Longrightarrow>
    yieldsT lower (store_typed lower) (bindT (Issue label) k) R"
  by (rule yieldsT_step) (auto simp: Issue_def tx_simps)

text \<open>A step without a value, and what follows.\<close>

lemma yieldsT_unit [yields_intros]:
  "yieldsT lower I m (\<lambda>_. True) \<Longrightarrow> (\<And>x. yieldsT lower I (k x) R) \<Longrightarrow> yieldsT lower I (bindT m k) R"
  by (rule yieldsT_then)

lemma issue_typed [yields_intros]:
  "yieldsT lower (store_typed lower) (issueEmailVerificationToken cr u) (\<lambda>_. True)"
  "yieldsT lower (store_typed lower) (account_issueEmailVerificationToken cr u) (\<lambda>_. True)"
  "yieldsT lower (store_typed lower) (issuePasswordResetToken cr i ttl) (\<lambda>_. True)"
  unfolding issueEmailVerificationToken_def account_issueEmailVerificationToken_def issuePasswordResetToken_def Let_def
  by (intro yields_intros TrueI)+

lemma dispatch_issued_typed [yields_intros]:
  "yieldsT lower (store_typed lower) (dispatch_issued mk issued) (\<lambda>_. True)"
  unfolding dispatch_issued_def by (intro yields_intros TrueI)

lemmas read_defs =
  userTx_SelectUserByUsername_def userTx_SelectUserByEmail_def userTx_SelectUserByID_def userTx_SelectUserByUUID_def
  userTx_SelectUserByIDIncludingDeleted_def

lemma user_tx_typed:
  "user_typed u \<Longrightarrow> yieldsT lower (store_typed lower) (SignUp_tx cr username email u) (\<lambda>_. True)"
  "user_typed u \<Longrightarrow> yieldsT lower (store_typed lower) (IssueGuestAccount_tx u) (\<lambda>_. True)"
  "yieldsT lower (store_typed lower) (UpgradeGuest_tx i username email hashed) (\<lambda>_. True)"
  "yieldsT lower (store_typed lower) (DeleteMe_tx cr i password) (\<lambda>_. True)"
  "yieldsT lower (store_typed lower) (SuspendUser_tx i uuid reason until) (\<lambda>_. True)"
  "yieldsT lower (store_typed lower) (UnsuspendUser_tx i uuid) (\<lambda>_. True)"
  unfolding SignUp_tx_def IssueGuestAccount_tx_def UpgradeGuest_tx_def DeleteMe_tx_def SuspendUser_tx_def
    UnsuspendUser_tx_def read_defs
  by (intro yields_intros TrueI; auto dest: typed_row)+

text \<open>The original of an upgrade is a row of the store.\<close>

lemma applyGuestUpgrade_typed:
  "yieldsT lower (store_typed lower) (applyGuestUpgrade_tx cr i username email hashed) user_typed"
  unfolding applyGuestUpgrade_tx_def read_defs Let_def
  by (intro yields_intros TrueI; auto dest: typed_row)

lemma account_tx_typed:
  "user_typed u \<Longrightarrow> yieldsT lower (store_typed lower) (restoreUserState_tx u) (\<lambda>_. True)"
  "yieldsT lower (store_typed lower) (RequestEmailVerification_tx cr i) (\<lambda>_. True)"
  "yieldsT lower (store_typed lower) (ConfirmEmailVerification_tx h) (\<lambda>_. True)"
  "yieldsT lower (store_typed lower) (RequestPasswordReset_tx cr email ttl) (\<lambda>_. True)"
  "yieldsT lower (store_typed lower) (ConfirmPasswordReset_tx h hashed) (\<lambda>x. user_typed (fst x))"
  "user_typed u \<Longrightarrow> yieldsT lower (store_typed lower) (restorePasswordResetState_tx u tok) (\<lambda>_. True)"
  unfolding restoreUserState_tx_def RequestEmailVerification_tx_def ConfirmEmailVerification_tx_def
    RequestPasswordReset_tx_def ConfirmPasswordReset_tx_def restorePasswordResetState_tx_def read_defs
    emailVerificationTokenTx_SelectByTokenHash_def passwordResetTokenTx_SelectByTokenHash_def
  by (intro yields_intros TrueI; auto dest: typed_row split: if_splits)+

lemma enter_typed [yields_intros]:
  "(\<And>x. yieldsT lower I (k x) R) \<Longrightarrow> yieldsT lower I (bindT (wrapped label (enter_part snap get f)) k) R"
  by (rule yieldsT_step) (auto simp: tx_simps enter_part_def split: if_splits)

lemma cleanupGuest_tx_typed: "yieldsT lower (store_typed lower) (cleanupGuest_tx i b) (\<lambda>_. True)"
  unfolding cleanupGuest_tx_def read_defs postTx_ExistsByAuthorID_def commentTx_ExistsByAuthorID_def
    reactionTx_ExistsByUserID_def reportTx_ExistsByReporterUserID_def
  by (intro yields_intros TrueI; auto dest: typed_row)

section \<open>The calls\<close>

lemma on_store_typed [yields_intros]:
  "yieldsC (store_typed lower) m Q \<Longrightarrow> yieldsC (world_typed lower) (on_store m) Q"
  by (rule yieldsC_on_store) (auto simp: world_typed_def)

lemma on_cache_typed:
  "(\<And>c. cache_ok c \<Longrightarrow> cache_ok (snd (f c))) \<Longrightarrow> yieldsC (world_typed lower) (on_cache f) (\<lambda>_. True)"
  by (rule yieldsC_on_cache) (auto simp: world_typed_def)

lemma session_steps_typed [yields_intros]:
  "yieldsC (world_typed lower) (session_save e tick label i token) (\<lambda>_. True)"
  "yieldsC (world_typed lower) (session_delete e label i token) (\<lambda>_. True)"
  "yieldsC (world_typed lower) (on_cache (\<lambda>c. ((), Session_Delete i token c))) (\<lambda>_. True)"
  "yieldsC (world_typed lower) (on_cache (\<lambda>c. ((), Session_DeleteByUser i c))) (\<lambda>_. True)"
  "yieldsC (world_typed lower) (on_cache (Session_existsLocked now now' i token)) (\<lambda>_. True)"
  unfolding session_save_def session_delete_def
  by (intro yields_intros on_cache_typed;
      auto simp: sessions.save_inv sessions.delete_inv sessions.delete_user_inv sessions.exists_inv [OF _ prod.collapse [symmetric]])+

lemma yieldsC_unit [yields_intros]:
  "yieldsC I m (\<lambda>_. True) \<Longrightarrow> (\<And>x. yieldsC I (k x) R) \<Longrightarrow> yieldsC I (bindC m k) R"
  by (rule yieldsC_bindC)

lemma yieldsC_lift [yields_intros]: "yieldsC I (liftC r) (\<lambda>_. True)"
  by (auto simp: yieldsC_def liftC_def)

lemma yieldsC_read [yields_intros]: "yieldsC I (read_store get f) (\<lambda>_. True)"
  by (auto simp: yieldsC_def read_store_def)

lemma account_transactions [yields_intros]:
  "env_lower e = lower \<Longrightarrow> yieldsC (store_typed lower) (SignUp e cr tick username email password) (\<lambda>_. True)"
  "env_lower e = lower \<Longrightarrow> yieldsC (store_typed lower) (IssueGuestAccount e cr tick) (\<lambda>_. True)"
  "env_lower e = lower \<Longrightarrow> yieldsC (store_typed lower) (UpgradeGuest_cmd e cr tick i username email password) (\<lambda>_. True)"
  "env_lower e = lower \<Longrightarrow> yieldsC (store_typed lower) (DeleteMe e cr tick i password) (\<lambda>_. True)"
  "env_lower e = lower \<Longrightarrow> yieldsC (store_typed lower) (SuspendUser e cr tick i uuid reason dur) (\<lambda>_. True)"
  "env_lower e = lower \<Longrightarrow> yieldsC (store_typed lower) (UnsuspendUser e tick i uuid) (\<lambda>_. True)"
  "env_lower e = lower \<Longrightarrow> yieldsC (store_typed lower) (RequestEmailVerification e cr tick i) (\<lambda>_. True)"
  "env_lower e = lower \<Longrightarrow> yieldsC (store_typed lower) (ConfirmEmailVerification e cr tick token) (\<lambda>_. True)"
  "env_lower e = lower \<Longrightarrow> yieldsC (store_typed lower) (RequestPasswordReset e cr tick email) (\<lambda>_. True)"
  "env_lower e = lower \<Longrightarrow> yieldsC (store_typed lower) (applyGuestUpgrade e cr tick i username email password) user_typed"
  "env_lower e = lower \<Longrightarrow> user_typed u \<Longrightarrow> yieldsC (store_typed lower) (restoreUserState e tick u) (\<lambda>_. True)"
  "env_lower e = lower \<Longrightarrow> yieldsC (store_typed lower) (WithinTransaction e tick (ConfirmPasswordReset_tx h hashed)) (\<lambda>x. user_typed (fst x))"
  "env_lower e = lower \<Longrightarrow> user_typed u \<Longrightarrow> yieldsC (store_typed lower) (restorePasswordResetState e tick u tok) (\<lambda>_. True)"
  "env_lower e = lower \<Longrightarrow> yieldsC (store_typed lower) (WithinTransaction e tick (cleanupGuest_tx i b)) (\<lambda>_. True)"
  unfolding SignUp_def IssueGuestAccount_def UpgradeGuest_cmd_def DeleteMe_def SuspendUser_def UnsuspendUser_def
    RequestEmailVerification_def ConfirmEmailVerification_def RequestPasswordReset_def applyGuestUpgrade_def
    restoreUserState_def restorePasswordResetState_def Let_def
  by (intro yields_intros yieldsC_transaction user_tx_typed account_tx_typed applyGuestUpgrade_typed
      cleanupGuest_tx_typed typed_operations atomic_intros TrueI; simp only:
      user_tx_typed account_tx_typed applyGuestUpgrade_typed cleanupGuest_tx_typed typed_operations)+

text \<open>A user looked up and written back.\<close>

lemma select_user_typed:
  "yieldsC (world_typed lower) (select_user e label i) (\<lambda>ou. \<forall>u. ou = Some u \<longrightarrow> user_typed u)"
  "yieldsC (world_typed lower) (on_store (read_store st_users (selectUserByID i))) (\<lambda>ou. \<forall>u. ou = Some u \<longrightarrow> user_typed u)"
proof -
  show r: "yieldsC (world_typed lower) (on_store (read_store st_users (selectUserByID i))) (\<lambda>ou. \<forall>u. ou = Some u \<longrightarrow> user_typed u)"
    by (rule yieldsCI) (auto simp: on_store_def read_store_def world_typed_def dest: typed_row)
  then show "yieldsC (world_typed lower) (select_user e label i) (\<lambda>ou. \<forall>u. ou = Some u \<longrightarrow> user_typed u)"
    unfolding select_user_def by (rule yieldsC_called)
qed

lemma update_user_typed:
  assumes "user_typed u" "env_lower e = lower"
  shows "yieldsC (world_typed lower) (update_user e u) (\<lambda>_. True)"
  unfolding update_user_def
proof (intro yields_intros yieldsCI)
  fix s r s' assume i: "store_typed lower s"
    and w: "write_store st_users st_users_update (User_update (env_lower e) u) s = Some (r, s')"
  then obtain r' where r': "User_update lower u (st_users s) = (r, r')" "s' = s\<lparr>st_users := r'\<rparr>"
    using assms(2) by (auto simp: write_store_def split: prod.splits)
  have "users_ok lower r'" using User_update_ok [OF _ r'(1)] i by (simp add: store_typed_def)
  moreover have "users_typed r'"
    using r'(1) i assms(1) by (auto simp: User_update_def store_typed_def users_typed_def split: option.splits if_splits)
  ultimately show "store_typed lower s' \<and> (\<forall>a. r = Inr a \<longrightarrow> True)" using i by (simp add: r'(2) store_typed_def)
qed

lemma guest_marks_typed [yields_intros]:
  "env_lower e = lower \<Longrightarrow> yieldsC (world_typed lower) (markGuestActive e tick i) (\<lambda>_. True)"
  "env_lower e = lower \<Longrightarrow> yieldsC (world_typed lower) (expireGuestBestEffort e tick i) (\<lambda>_. True)"
  unfolding markGuestActive_def expireGuestBestEffort_def
  by (intro yieldsC_catchC yieldsC_bindC [OF select_user_typed(1)]
      yieldsC_bindC [OF yieldsC_called(1) [OF select_user_typed(2)]] yields_intros update_user_typed TrueI; auto)+

lemma mail_steps_typed [yields_intros]:
  "yieldsC (world_typed lower) (email_tokens_select h) (\<lambda>_. True)"
  "yieldsC (world_typed lower) (password_tokens_select h) (\<lambda>_. True)"
  "yieldsC (world_typed lower) (email_tokens_update t) (\<lambda>_. True)"
  "yieldsC (world_typed lower) (password_tokens_update t) (\<lambda>_. True)"
  "yieldsC (world_typed lower) (send_mail m) (\<lambda>_. True)"
  by (auto simp: yieldsC_def email_tokens_select_def password_tokens_select_def email_tokens_update_def
      password_tokens_update_def send_mail_def on_store_def read_store_def write_store_def world_typed_def store_typed_def
      changes_def EmailVerification_update_def PasswordReset_update_def tokens_save)

lemma cleanup_steps_typed [yields_intros]:
  "yieldsC (store_typed lower) (CleanupEmailVerificationTokens e now grace limit) (\<lambda>_. True)"
  "yieldsC (store_typed lower) (CleanupPasswordResetTokens e now grace limit) (\<lambda>_. True)"
  unfolding CleanupEmailVerificationTokens_def CleanupPasswordResetTokens_def
  by (intro yields_intros TrueI yieldsCI;
      auto simp: write_store_def always_def store_typed_def split: prod.splits
        dest: email_tokens.cleanup_inv password_tokens.cleanup_inv)+

lemma Session_existsByUser_ok: "cache_ok c \<Longrightarrow> cache_ok (snd (Session_existsByUserLocked clk i c))"
  by (simp add: Session_existsByUserLocked_def ExistsByPrefix_def exists_live_ok)

lemma cleanupGuest_typed [yields_intros]:
  assumes "env_lower e = lower"
  shows "yieldsC (world_typed lower) (cleanupGuest e tick i) (\<lambda>_. True)"
proof (rule yieldsCI)
  fix w r w' assume i: "world_typed lower w" and c: "cleanupGuest e tick i w = Some (r, w')"
  obtain b c' where x: "Session_existsByUserLocked (\<lambda>n. env_now e (tick + n)) i (w_cache w) = (b, c')" by fastforce
  let ?w = "if sessions_asked e i (w_store w) then w\<lparr>w_cache := c'\<rparr> else w"
  have w: "world_typed lower ?w"
    using i Session_existsByUser_ok [of "w_cache w" "\<lambda>n. env_now e (tick + n)" i] by (simp add: world_typed_def x)
  have c2: "on_store (WithinTransaction e tick (cleanupGuest_tx i b)) ?w = Some (r, w')"
    using c by (simp add: cleanupGuest_def x)
  have "yieldsC (world_typed lower) (on_store (WithinTransaction e tick (cleanupGuest_tx i b))) (\<lambda>_. True)"
    by (intro yields_intros assms)
  from yieldsCD [OF this w c2] show "world_typed lower w' \<and> (\<forall>a. r = Inr a \<longrightarrow> True)" by simp
qed

lemma resultC_typed [yields_intros]:
  "yieldsC I m (\<lambda>_. True) \<Longrightarrow> yieldsC I (resultC m) (\<lambda>_. True)"
  "yieldsC I m' (\<lambda>_. True) \<Longrightarrow> yieldsC I (attemptC m') (\<lambda>_. True)"
  "yieldsC I m'' (\<lambda>_. True) \<Longrightarrow> yieldsC I (wrapC label m'') (\<lambda>_. True)"
  unfolding resultC_def attemptC_def wrapC_def by (intro yieldsC_catchC yields_intros TrueI; assumption)+

lemma cleanup_items_typed:
  "env_lower e = lower \<Longrightarrow> yieldsC (world_typed lower) (cleanup_items e tick items n) (\<lambda>_. True)"
proof (induction items arbitrary: tick n)
  case Nil
  then show ?case by (simp add: yields_intros)
next
  case (Cons item items)
  then show ?case unfolding cleanup_items.simps by (intro yields_intros TrueI; auto)
qed

lemma VerifyCredentials_typed [yields_intros]:
  "yieldsC (store_typed lower) (VerifyCredentials e cr username password) (\<lambda>_. True)"
  unfolding VerifyCredentials_def Let_def by (intro yields_intros TrueI)

lemma issue_token_typed [yields_intros]:
  "yieldsC I (issue_token e cr tick label i) (\<lambda>_. True)"
  unfolding issue_token_def by (intro yields_intros)

lemma session_calls_typed [yields_intros]:
  "env_lower e = lower \<Longrightarrow> yieldsC (world_typed lower) (Login e cr tick username password) (\<lambda>_. True)"
  "env_lower e = lower \<Longrightarrow> yieldsC (world_typed lower) (IssueGuestToken e cr tick) (\<lambda>_. True)"
  "yieldsC (world_typed lower) (RotateToken e cr tick i token) (\<lambda>_. True)"
  "yieldsC (world_typed lower) (Logout e cr tick token) (\<lambda>_. True)"
  "yieldsC (world_typed lower) (InvalidateUserSessions e i) (\<lambda>_. True)"
  "yieldsC (world_typed lower) (ValidateTokenToId e cr tick token) (\<lambda>_. True)"
  unfolding Login_def IssueGuestToken_def RotateToken_def Logout_def InvalidateUserSessions_def ValidateTokenToId_def
    select_user_def
  by (intro yields_intros yieldsC_catchC TrueI; assumption)+

lemma account_calls_typed [yields_intros]:
  assumes "env_lower e = lower"
  shows "yieldsC (world_typed lower) (DeleteMyAccount e cr tick i password) (\<lambda>_. True)"
    "yieldsC (world_typed lower) (UpgradeGuestAccount e cr tick i token username email password) (\<lambda>_. True)"
    "yieldsC (world_typed lower) (ConfirmPasswordReset e cr tick token password) (\<lambda>_. True)"
proof -
  note [yields_intros] = assms
  show "yieldsC (world_typed lower) (DeleteMyAccount e cr tick i password) (\<lambda>_. True)"
    unfolding DeleteMyAccount_def by (intro yields_intros yieldsC_catchC TrueI)
  have catch: "yieldsC (world_typed lower)
      (catchC (on_store (applyGuestUpgrade e cr t i n m h))
        (\<lambda>err. bindC (discardC e (on_cache (\<lambda>c. ((), Session_Delete i tok c)))) (\<lambda>_. throwC err))) user_typed" for t n m h tok
    by (intro yieldsC_catchC yields_intros TrueI)
  show "yieldsC (world_typed lower) (UpgradeGuestAccount e cr tick i token username email password) (\<lambda>_. True)"
    unfolding UpgradeGuestAccount_def swap_guest_session_def Let_def
    by (intro yieldsC_bindC [OF catch] yields_intros yieldsC_catchC TrueI; assumption)
  show "yieldsC (world_typed lower) (ConfirmPasswordReset e cr tick token password) (\<lambda>_. True)"
    unfolding ConfirmPasswordReset_def reset_password_def Let_def
    by (intro yieldsC_bindC [OF on_store_typed [OF account_transactions(12)]] yields_intros yieldsC_catchC TrueI; simp)
qed

lemma MailDelivery_typed: "yieldsC (world_typed lower) (MailDelivery_Handle e tick event) (\<lambda>_. True)"
  unfolding MailDelivery_Handle_def sendEmailVerification_def sendPasswordReset_def activateEmailVerificationToken_def
    activatePasswordResetToken_def Let_def
  by (cases event; simp; intro conjI impI yields_intros TrueI)

lemma CleanupGuests_typed:
  "env_lower e = lower \<Longrightarrow> yieldsC (world_typed lower) (CleanupGuests e tick now pg ag limit) (\<lambda>_. True)"
  unfolding CleanupGuests_def by (intro yields_intros cleanup_items_typed TrueI)

section \<open>Whatever happens to accounts\<close>

text \<open>
  A command of a client, a handler of an event or a clean-up, in any environment with the same case
  folding, whatever it answers.
\<close>

inductive account_step :: "crypto \<Rightarrow> (string \<Rightarrow> string) \<Rightarrow> world \<Rightarrow> world \<Rightarrow> bool" for cr lower where
  sign_up: "env_lower e = lower \<Longrightarrow> on_store (SignUp e cr tick username email password) w = Some (r, w') \<Longrightarrow>
    account_step cr lower w w'"
| login: "env_lower e = lower \<Longrightarrow> Login e cr tick username password w = Some (r1, w') \<Longrightarrow> account_step cr lower w w'"
| guest: "env_lower e = lower \<Longrightarrow> IssueGuestToken e cr tick w = Some (r2, w') \<Longrightarrow> account_step cr lower w w'"
| rotate: "RotateToken e cr tick i token w = Some (r3, w') \<Longrightarrow> account_step cr lower w w'"
| logout: "Logout e cr tick token w = Some (r4, w') \<Longrightarrow> account_step cr lower w w'"
| check: "ValidateTokenToId e cr tick token w = Some (r5, w') \<Longrightarrow> account_step cr lower w w'"
| suspend: "env_lower e = lower \<Longrightarrow> on_store (SuspendUser e cr tick i uuid reason dur) w = Some (r6, w') \<Longrightarrow>
    account_step cr lower w w'"
| unsuspend: "env_lower e = lower \<Longrightarrow> on_store (UnsuspendUser e tick i uuid) w = Some (r7, w') \<Longrightarrow>
    account_step cr lower w w'"
| leave: "env_lower e = lower \<Longrightarrow> DeleteMyAccount e cr tick i password w = Some (r8, w') \<Longrightarrow> account_step cr lower w w'"
| upgrade: "env_lower e = lower \<Longrightarrow> UpgradeGuestAccount e cr tick i token username email password w = Some (r9, w') \<Longrightarrow>
    account_step cr lower w w'"
| request_verification: "env_lower e = lower \<Longrightarrow> on_store (RequestEmailVerification e cr tick i) w = Some (r10, w') \<Longrightarrow>
    account_step cr lower w w'"
| confirm_verification: "env_lower e = lower \<Longrightarrow> on_store (ConfirmEmailVerification e cr tick token) w = Some (r11, w') \<Longrightarrow>
    account_step cr lower w w'"
| request_reset: "env_lower e = lower \<Longrightarrow> on_store (RequestPasswordReset e cr tick email) w = Some (r12, w') \<Longrightarrow>
    account_step cr lower w w'"
| confirm_reset: "env_lower e = lower \<Longrightarrow> ConfirmPasswordReset e cr tick token password w = Some (r13, w') \<Longrightarrow>
    account_step cr lower w w'"
| mail: "MailDelivery_Handle e tick event w = Some (r14, w') \<Longrightarrow> account_step cr lower w w'"
| clean_guests: "env_lower e = lower \<Longrightarrow> CleanupGuests e tick now pg ag limit w = Some (r15, w') \<Longrightarrow> account_step cr lower w w'"
| clean_email: "on_store (CleanupEmailVerificationTokens e now grace limit) w = Some (r16, w') \<Longrightarrow> account_step cr lower w w'"
| clean_reset: "on_store (CleanupPasswordResetTokens e now grace limit) w = Some (r17, w') \<Longrightarrow> account_step cr lower w w'"

lemma typed_run:
  "m w = Some (r, w') \<Longrightarrow> world_typed lower w \<Longrightarrow> yieldsC (world_typed lower) m (\<lambda>_. True) \<Longrightarrow> world_typed lower w'"
  by (rule yieldsC_run)

lemma account_step_typed:
  assumes "account_step cr lower w w'" "world_typed lower w"
  shows "world_typed lower w'"
  using assms
  by (induction rule: account_step.induct)
    (erule typed_run, assumption, intro yields_intros MailDelivery_typed CleanupGuests_typed, assumption?)+

text \<open>
  C21: accounts keep their shape. Whatever sequence of sign-ups, logins, guests, upgrades, suspensions,
  verifications, password resets, mails and clean-ups ran, failed ones included, each row of the users is
  a member, a guest in one of its states who is neither verified nor an administrator, or a user who
  left without address, password or verification; names, addresses and UUIDs are unique, tokens sit
  under their hash, and the session cache is indexed.
\<close>

theorem accounts_keep_shape:
  assumes "(account_step cr lower)\<^sup>*\<^sup>* w w'" "world_typed lower w"
  shows "world_typed lower w'"
  using assms by (induction rule: rtranclp_induct) (auto intro: account_step_typed)

section \<open>Worlds for the witnesses\<close>

definition demo_guest :: user where
  "demo_guest = (NewGuest 1 ''ud'' ''guest-x'' ''g@x'' ''hh'')
     \<lparr>user_ID := 4, user_GuestStatus := GuestStatusActive, user_GuestActivatedAt := Some 1\<rparr>"

definition demo_reset :: token where
  "demo_reset = (NewToken 1 2 ''616263'' 5000)\<lparr>token_DeliveredAt := Some 2\<rparr>"

definition demo_visitors :: store where
  "demo_visitors = demo_members
     \<lparr>st_users := \<lparr>db_ID = 4, db_Data = [(1, demo_admin), (2, demo_member), (3, demo_bob), (4, demo_guest)]\<rparr>,
      st_password_tokens := [(''616263'', demo_reset)]\<rparr>"

definition demo_accounts :: world where
  "demo_accounts = \<lparr>w_store = demo_visitors, w_cache = NewInMemoryCache, w_sent = []\<rparr>"

lemma demo_visitor_text: "TrimSpace ''g@x'' = ''g@x''" "ToLower id ''g@x'' = ''g@x''"
  by (rule TrimSpace_plain, simp add: plain_byte_def) code_simp

lemma demo_visitors_users_ok: "users_ok (env_lower demo_env) (st_users demo_visitors)"
  by (auto simp: demo_visitors_def demo_member_def demo_guest_def NewGuest_def demo_env_simps users_ok_def db_ok_def
      entity_eval usersConflict_def emailsConflict_def normalizeEmail_def Let_def demo_text demo_lower demo_visitor_text
      split: if_splits)

lemma demo_users_typed: "user_typed demo_admin" "user_typed demo_member" "user_typed demo_bob" "user_typed demo_guest"
  by (simp_all add: user_typed_def demo_member_def demo_guest_def NewGuest_def IsEmailVerified_def entity_eval)

lemma demo_visitors_typed: "store_typed (env_lower demo_env) demo_visitors"
proof -
  have "users_typed (st_users demo_visitors)"
    unfolding users_typed_def using demo_users_typed by (auto simp: demo_visitors_def db_get_def split: if_splits)
  then show ?thesis using demo_visitors_users_ok
    by (simp add: store_typed_def demo_visitors_def demo_members_def demo_store_def tokens_ok_def demo_reset_def NewToken_def)
qed

lemma demo_accounts_typed: "world_typed (env_lower demo_env) demo_accounts"
  using demo_visitors_typed by (simp add: world_typed_def demo_accounts_def cache_ok_new)

theorem accounts_keep_shape_witness:
  "\<exists>w. account_step demo_crypto (env_lower demo_env) demo_accounts w \<and> w_cache w \<noteq> w_cache demo_accounts \<and>
    world_typed (env_lower demo_env) w"
proof -
  have u: "selectUserByUsername ''alice'' (st_users demo_visitors) = Some demo_member"
    by (simp add: demo_visitors_def demo_member_def demo_guest_def NewGuest_def selectUserByUsername_def entity_eval)
  have "VerifyCredentials demo_env demo_crypto ''alice'' ''pw'' demo_visitors = Some (Inr 2, demo_visitors)"
    using u by (simp add: VerifyCredentials_def normalizeUsername_def demo_alice_name bindC_eval called_ok repoC_def
        demo_faultless read_store_def requireC_def ensureC_def returnC_def throwC_def demo_member_def demo_crypto_simps entity_eval)
  then have l: "Login demo_env demo_crypto 0 ''alice'' ''pw'' demo_accounts = Some (Inr demo_session,
      demo_accounts\<lparr>w_cache := Session_Save 1002 2 demo_session TTLSeconds NewInMemoryCache\<rparr>)"
    by (simp add: Login_def bindC_eval on_store_def issue_token_def liftC_def demo_token session_save_def repoC_def
        called_ok demo_faultless on_cache_def returnC_def demo_accounts_def demo_env_simps)
  let ?w = "demo_accounts\<lparr>w_cache := Session_Save 1002 2 demo_session TTLSeconds NewInMemoryCache\<rparr>"
  have step: "account_step demo_crypto (env_lower demo_env) demo_accounts ?w"
    by (rule account_step.login [OF refl l])
  have "session_live (w_cache ?w) 1002 2 demo_session"
    using sessions.save_live [OF cache_ok_new, of 1002 2 demo_session TTLSeconds 1002 2 demo_session] TTL_day
    by (simp add: jwt_ttl_def second_def)
  moreover have "\<not> session_live (w_cache demo_accounts) 1002 2 demo_session"
    by (simp add: demo_accounts_def session_live_def cached_at_def NewInMemoryCache_def)
  ultimately have "w_cache ?w \<noteq> w_cache demo_accounts" by metis
  moreover have "world_typed (env_lower demo_env) ?w"
    by (rule accounts_keep_shape [OF r_into_rtranclp, of _ _ _ _, OF step demo_accounts_typed])
  ultimately show ?thesis using step by blast
qed

end
