(* ===== verification/AccountFlows.thy ===== *)
theory AccountFlows
  imports AccountTypes
begin

text \<open>
  What the commands on accounts do, and how they work together with the handler of mails: verifying an
  address, resetting a password and turning a guest into a member.
\<close>

section \<open>Resetting a password\<close>

text \<open>
  The password of \<open>u\<close> was replaced and the token used; \<open>s'\<close> is otherwise \<open>s\<close>.
\<close>

definition password_set :: "env \<Rightarrow> user \<Rightarrow> string \<Rightarrow> token \<Rightarrow> store \<Rightarrow> store \<Rightarrow> bool" where
  "password_set e u hashed tok s s' \<longleftrightarrow>
     (\<exists>now. db_get (st_users s') =
        (db_get (st_users s))(user_ID u \<mapsto> u\<lparr>user_Password := hashed, user_UpdatedAt := now\<rparr>)) \<and>
     users_ok (env_lower e) (st_users s') \<and>
     (\<exists>now. token_replaced (Consume now tok) (st_password_tokens s) (st_password_tokens s')) \<and>
     s'\<lparr>st_users := st_users s, st_password_tokens := st_password_tokens s\<rparr> = s"

lemma ConfirmPasswordReset_tx_run:
  assumes "ConfirmPasswordReset_tx h hashed e t = Some (Inr x, t')" "store_typed (env_lower e) (tx_store t)"
  shows "\<exists>u tok. x = (u, tok) \<and> map_of (st_password_tokens (tx_store t)) h = Some tok \<and>
    IsUsable (env_now e (tx_tick t)) (Some tok) \<and>
    selectUserByID (token_UserID tok) (st_users (tx_store t)) = Some u \<and> \<not> IsGuest u \<and>
    password_set e u hashed tok (tx_store t) (tx_store t')"
proof -
  define s where "s = tx_store t"
  have ok: "users_ok (env_lower e) (st_users s)" "tokens_ok (st_password_tokens s)"
    using assms(2) by (simp_all add: store_typed_def s_def)
  define now where "now = env_now e (Suc (tx_tick t))"
  from assms(1) obtain tok u t1 where
    tok: "map_of (st_password_tokens s) h = Some tok" "IsUsable (env_now e (tx_tick t)) (Some tok)"
    and u: "selectUserByID (token_UserID tok) (st_users s) = Some u" "\<not> IsGuest u" "x = (u, tok)"
    and up: "userTx_Update (u\<lparr>user_Password := hashed, user_UpdatedAt := now\<rparr>) e
      (t\<lparr>tx_tick := Suc (Suc (tx_tick t))\<rparr>) = Some (Inr (), t1)"
    and t': "tx_store t' = (tx_store t1)\<lparr>st_password_tokens :=
      PasswordReset_update (Consume (env_now e (tx_tick t1)) tok) (st_password_tokens (tx_store t1))\<rparr>"
    by (auto simp: ConfirmPasswordReset_tx_def passwordResetTokenTx_SelectByTokenHash_def userTx_SelectUserByID_def
        passwordResetTokenTx_Update_def PasswordReset_selectByTokenHash_def s_def now_def tx_simps split: if_splits)
  define used where "used = env_now e (tx_tick t1)"
  note t' = t' [folded used_def]
  have "user_replaced e (u\<lparr>user_Password := hashed, user_UpdatedAt := now\<rparr>) s (tx_store t1)"
    using userTx_Update_run [OF up] ok(1) s_def selectUserByID_row [OF ok(1) u(1)] by simp
  then have r: "db_get (st_users (tx_store t1)) = (db_get (st_users s))(user_ID u \<mapsto> u\<lparr>user_Password := hashed, user_UpdatedAt := now\<rparr>)"
    "users_ok (env_lower e) (st_users (tx_store t1))" "(tx_store t1)\<lparr>st_users := st_users s\<rparr> = s"
    by (simp_all add: user_replaced_def)
  have p: "st_password_tokens (tx_store t1) = st_password_tokens s"
    using arg_cong [OF r(3), of st_password_tokens] by simp
  have "token_replaced (Consume used tok) (st_password_tokens s) (st_password_tokens (tx_store t'))"
    using ok(2) by (simp add: t' p PasswordReset_update_def Consume_def token_replaced_put)
  moreover have "(tx_store t')\<lparr>st_users := st_users s, st_password_tokens := st_password_tokens s\<rparr> = s"
    using r(3) by (cases s; cases "tx_store t1") (simp add: t')
  ultimately have "password_set e u hashed tok s (tx_store t')"
    using r(1,2) unfolding password_set_def by (auto simp: t')
  with tok u show ?thesis unfolding s_def by blast
qed

lemma ConfirmPasswordReset_tx_usable:
  "ConfirmPasswordReset_tx h hashed e t = Some (Inr x, t') \<Longrightarrow>
    IsUsable (env_now e (tx_tick t)) (map_of (st_password_tokens (tx_store t)) h)"
  by (auto simp: ConfirmPasswordReset_tx_def passwordResetTokenTx_SelectByTokenHash_def
      PasswordReset_selectByTokenHash_def tx_simps split: if_splits)

text \<open>A token that is not usable at the instant of the transaction is refused, and nothing changes.\<close>

lemma ConfirmPasswordReset_refused:
  assumes "\<forall>now. \<not> IsUsable now (map_of (st_password_tokens (w_store w)) (hashToken cr (TrimSpace token)))"
  shows "\<exists>err. ConfirmPasswordReset e cr tick token password w = Some (Inl err, w)"
proof -
  obtain r w' where c: "ConfirmPasswordReset e cr tick token password w = Some (r, w')"
    using account_commands_return(6) [of e cr tick token password] unfolding returnsC_def by (metis not_None_eq surj_pair)
  have tx: "\<exists>err. WithinTransaction e t (ConfirmPasswordReset_tx (hashToken cr (TrimSpace token)) hashed) (w_store w) =
      Some (Inl err, w_store w)" for t hashed
  proof -
    obtain r s where x: "WithinTransaction e t (ConfirmPasswordReset_tx (hashToken cr (TrimSpace token)) hashed) (w_store w) = Some (r, s)"
      using returns_transaction [OF account_tx_return(6)] by (metis not_None_eq surj_pair)
    show ?thesis
    proof (cases r)
      case (Inl err)
      with atomic_rollback [OF account_tx_atomic(6) x [unfolded Inl]] x show ?thesis by simp
    next
      case (Inr a)
      with x obtain t' where "ConfirmPasswordReset_tx (hashToken cr (TrimSpace token)) hashed e (begin_tx t (w_store w)) = Some (Inr a, t')"
        by (auto simp: atomic_commit [OF account_tx_atomic(6)])
      from ConfirmPasswordReset_tx_usable [OF this] assms show ?thesis by simp
    qed
  qed
  have "(\<exists>err. r = Inl err) \<and> w' = w"
  proof (cases "Hash cr tick password")
    case (Inl err)
    then show ?thesis using c
      by (auto simp: ConfirmPasswordReset_def Let_def throwC_def bindC_eval repoC_def called_def requireC_def returnC_def
          password_tokens_select_def on_store_def read_store_def split: if_splits option.splits sum.splits)
  next
    case (Inr hashed)
    from tx [of "tick + 10" hashed] obtain err where
      t: "WithinTransaction e (tick + 10) (ConfirmPasswordReset_tx (hashToken cr (TrimSpace token)) hashed) (w_store w) =
        Some (Inl err, w_store w)" by blast
    show ?thesis using c t Inr
      by (auto simp: ConfirmPasswordReset_def Let_def throwC_def bindC_eval repoC_def called_def requireC_def returnC_def
          password_tokens_select_def on_store_def read_store_def reset_password_def hashResetToken_def
          split: if_splits option.splits sum.splits)
  qed
  with c show ?thesis by auto
qed

text \<open>
  C22: a reset takes an unused token that has not expired and belongs to a user who is not a guest, and
  sets the password of this user and nobody else. It uses the token up and ends every session of the
  user and no other session; the token never works again as long as nothing else touches it.
\<close>

theorem ConfirmPasswordReset_effect:
  assumes "ConfirmPasswordReset e cr tick token password w = Some (Inr (), w1)" "world_typed (env_lower e) w"
  shows "\<exists>u tok hashed. TrimSpace password \<noteq> [] \<and> Hash cr tick password = Inr hashed \<and>
    map_of (st_password_tokens (w_store w)) (hashToken cr (TrimSpace token)) = Some tok \<and>
    IsUsable (env_now e (tick + 10)) (Some tok) \<and>
    selectUserByID (token_UserID tok) (st_users (w_store w)) = Some u \<and> \<not> IsGuest u \<and>
    password_set e u hashed tok (w_store w) (w_store w1) \<and> w_sent w1 = w_sent w \<and>
    (\<forall>at. sessions_at w1 at = {(v, t) \<in> sessions_at w at. v \<noteq> user_ID u}) \<and>
    (\<forall>e' tick' password'. \<exists>err. ConfirmPasswordReset e' cr tick' token password' w1 = Some (Inl err, w1))"
proof -
  let ?h = "hashToken cr (TrimSpace token)"
  have typed: "store_typed (env_lower e) (w_store w)" "cache_ok (w_cache w)" using assms(2) by (simp_all add: world_typed_def)
  from assms(1) obtain tok hashed where
    p: "TrimSpace password \<noteq> []" "Hash cr tick password = Inr hashed" "map_of (st_password_tokens (w_store w)) ?h = Some tok"
    and reset: "reset_password e (tick + 10) (token_UserID tok) ?h hashed w = Some (Inr (), w1)"
    by (cases "Hash cr tick password") (auto simp: ConfirmPasswordReset_def Let_def call_simps hashResetToken_def
        password_tokens_select_def PasswordReset_selectByTokenHash_def split: if_splits)
  from reset obtain u tok' s where
    tx: "WithinTransaction e (tick + 10) (ConfirmPasswordReset_tx ?h hashed) (w_store w) = Some (Inr (u, tok'), s)"
    and w1: "w1 = w\<lparr>w_store := s, w_cache := Session_DeleteByUser (token_UserID tok) (w_cache w)\<rparr>"
    by (auto simp: reset_password_def call_simps repoC_def called_def catchC_def on_cache_def bindC_def attemptC_def
        throwC_def split: option.splits sum.splits)
  from tx obtain t where t: "ConfirmPasswordReset_tx ?h hashed e (begin_tx (tick + 10) (w_store w)) = Some (Inr (u, tok'), t)"
    "s = tx_store t" by (auto simp: atomic_commit [OF account_tx_atomic(6)])
  from ConfirmPasswordReset_tx_run [OF t(1)] typed(1) p(3) have
    r: "IsUsable (env_now e (tick + 10)) (Some tok)" "selectUserByID (token_UserID tok) (st_users (w_store w)) = Some u"
      "\<not> IsGuest u" "password_set e u hashed tok (w_store w) s" by (auto simp: t(2))
  have id: "token_UserID tok = user_ID u"
    using selectUserByID_row(3) [of "env_lower e", OF _ r(2)] typed(1) by (simp add: store_typed_def)
  have h: "token_TokenHash tok = ?h"
    using password_tokens.select_hash [of "st_password_tokens (w_store w)" ?h tok] typed(1) p(3)
    by (simp add: store_typed_def PasswordReset_selectByTokenHash_def)
  have "map_of (st_password_tokens s) ?h = Some (Consume now tok)" if "token_replaced (Consume now tok) (st_password_tokens (w_store w)) (st_password_tokens s)" for now
    using that h by (simp add: token_replaced_def Consume_def)
  with r(4) obtain now where "map_of (st_password_tokens (w_store w1)) ?h = Some (Consume now tok)"
    unfolding password_set_def w1 by auto
  then have used: "\<exists>err. ConfirmPasswordReset e' cr tick' token password' w1 = Some (Inl err, w1)" for e' tick' password'
    by (intro ConfirmPasswordReset_refused) (simp add: IsUsable_def IsConsumed_def Consume_def)
  have "sessions_at w1 at = {(v, t) \<in> sessions_at w at. v \<noteq> user_ID u}" for at
    using sessions_at_cache(3) [OF typed(2), of "token_UserID tok" at] by (simp add: w1 id sessions_at_def)
  with p r used show ?thesis by (intro exI [of _ u] exI [of _ tok] exI [of _ hashed]) (simp add: w1)
qed

text \<open>A usable token of a user who is not a guest resets the password, when nothing fails.\<close>

lemma unchanged_names_update:
  assumes "users_ok lower r" "db_get r (user_ID u) = Some v"
    "user_Name u = user_Name v" "user_Email u = user_Email v" "user_UUID u = user_UUID v"
  shows "\<exists>r'. User_update lower u r = (Inr (), r')"
proof -
  have d: "distinct (map fst (db_Data r))" using assms(1) by (simp add: users_ok_def db_ok_def)
  have "\<not> usersConflict lower x u" if "(i, x) \<in> set (db_Data r)" "i \<noteq> user_ID u" for i x
  proof -
    have "db_get r i = Some x" using that(1) d by (simp add: db_get_def)
    with assms(1,2) that(2) have "\<not> usersConflict lower x v" unfolding users_ok_def by blast
    then show ?thesis using assms(3-5) by (simp add: usersConflict_def)
  qed
  then show ?thesis using assms(2) by (auto simp: User_update_def)
qed

lemma ConfirmPasswordReset_succeeds:
  assumes "no_faults e" "world_typed (env_lower e) w" "TrimSpace token \<noteq> []" "TrimSpace password \<noteq> []"
    and "Hash cr tick password = Inr hashed"
    and "map_of (st_password_tokens (w_store w)) (hashToken cr (TrimSpace token)) = Some tok"
    and "IsUsable (env_now e (tick + 10)) (Some tok)"
    and "selectUserByID (token_UserID tok) (st_users (w_store w)) = Some u" "\<not> IsGuest u"
  shows "\<exists>w1. ConfirmPasswordReset e cr tick token password w = Some (Inr (), w1)"
proof -
  let ?h = "hashToken cr (TrimSpace token)" and ?t = "begin_tx (tick + 10) (w_store w)"
  let ?u = "u\<lparr>user_Password := hashed, user_UpdatedAt := env_now e (Suc (tick + 10))\<rparr>"
  have ok: "users_ok (env_lower e) (st_users (w_store w))" using assms(2) by (simp add: world_typed_def store_typed_def)
  note row = selectUserByID_row [OF ok assms(8)]
  obtain r' where r': "User_update (env_lower e) ?u (st_users (w_store w)) = (Inr (), r')"
    using unchanged_names_update [OF ok, of ?u u] row by auto
  have "\<exists>t'. ConfirmPasswordReset_tx ?h hashed e ?t = Some (Inr (u, tok), t')"
    using assms(1,6-9) row(2) r'
    by (simp add: ConfirmPasswordReset_tx_def passwordResetTokenTx_SelectByTokenHash_def userTx_SelectUserByID_def
        passwordResetTokenTx_Update_def PasswordReset_selectByTokenHash_def userTx_Update_def tx_simps)
  then obtain s where "WithinTransaction e (tick + 10) (ConfirmPasswordReset_tx ?h hashed) (w_store w) = Some (Inr (u, tok), s)"
    by (auto simp: atomic_commit [OF account_tx_atomic(6)])
  then show ?thesis using assms(1,3-6)
    by (simp add: ConfirmPasswordReset_def Let_def bindC_eval repoC_def called_ok password_tokens_select_def on_store_def
        read_store_def PasswordReset_selectByTokenHash_def requireC_def returnC_def hashResetToken_def reset_password_def
        catchC_def on_cache_def)
qed

text \<open>
  C34: a used reset token comes back to life. The outbox hands out an event at least once; when the
  event of the mail is handled again after the password was reset, and the token has not expired,
  the handler takes the mark of the use off it: whoever holds the mail can set the password again.
\<close>

theorem used_reset_token_revived:
  assumes "ConfirmPasswordReset e cr tick token password w = Some (Inr (), w1)" "world_typed (env_lower e) w"
    and "mail_TokenHash m = hashToken cr (TrimSpace token)" "mail_TokenHash m \<noteq> []" "0 < mail_UserID m"
    and "no_faults e2" "MailDelivery_Handle e2 tick2 (PasswordResetRequested m) w1 = Some (r, w2)"
    and "\<forall>tok. map_of (st_password_tokens (w_store w)) (mail_TokenHash m) = Some tok \<longrightarrow>
      env_now e2 (tick2 + 1) < token_ExpiresAt tok \<and> env_now e3 (tick3 + 10) < token_ExpiresAt tok"
    and "no_faults e3" "env_lower e3 = env_lower e" "Hash cr tick3 password' = Inr hashed'" "TrimSpace password' \<noteq> []"
  shows "\<exists>w3. ConfirmPasswordReset e3 cr tick3 token password' w2 = Some (Inr (), w3)"
proof -
  let ?h = "hashToken cr (TrimSpace token)"
  from ConfirmPasswordReset_effect [OF assms(1,2)] obtain u tok hashed where
    tok: "map_of (st_password_tokens (w_store w)) ?h = Some tok"
    and u: "selectUserByID (token_UserID tok) (st_users (w_store w)) = Some u" "\<not> IsGuest u"
    and set: "password_set e u hashed tok (w_store w) (w_store w1)" by blast
  have ok: "users_ok (env_lower e) (st_users (w_store w))" using assms(2) by (simp add: world_typed_def store_typed_def)
  note row = selectUserByID_row [OF ok u(1)]
  have h: "token_TokenHash tok = ?h"
    using password_tokens.select_hash [of "st_password_tokens (w_store w)" ?h tok] assms(2) tok
    by (simp add: world_typed_def store_typed_def PasswordReset_selectByTokenHash_def)
  from set obtain now now' where u1: "db_get (st_users (w_store w1)) =
      (db_get (st_users (w_store w)))(user_ID u \<mapsto> u\<lparr>user_Password := hashed, user_UpdatedAt := now'\<rparr>)"
    and t1: "map_of (st_password_tokens (w_store w1)) ?h = Some (Consume now tok)"
    unfolding password_set_def token_replaced_def using h by (fastforce simp: Consume_def)
  have typed1: "world_typed (env_lower e) w1"
    using yieldsC_run [OF account_calls_typed(3) [OF refl] assms(1,2)] .
  then have tokens1: "tokens_ok (st_password_tokens (w_store w1))" by (simp add: world_typed_def store_typed_def)
  have "PasswordReset_selectByTokenHash (mail_TokenHash m) (st_password_tokens (w_store w1)) = Some (Consume now tok)"
    using t1 by (simp add: PasswordReset_selectByTokenHash_def assms(3))
  from sendPasswordReset_run [OF assms(6,5,4) tokens1 this, of tick2] assms(7) obtain rr where
    rr: "token_replaced (mailed e2 tick2 (Consume now tok)) (st_password_tokens (w_store w1)) rr"
    and w2: "w_store w2 = (w_store w1)\<lparr>st_password_tokens := rr\<rparr>" by (auto simp: MailDelivery_Handle_def)
  have exp: "env_now e2 (tick2 + 1) < token_ExpiresAt tok" "env_now e3 (tick3 + 10) < token_ExpiresAt tok"
    using assms(3,8) tok by simp_all
  have t2: "map_of (st_password_tokens (w_store w2)) ?h = Some (mailed e2 tick2 (Consume now tok))"
    using rr h by (simp add: w2 token_replaced_def Consume_def)
  have usable: "IsUsable (env_now e3 (tick3 + 10)) (Some (mailed e2 tick2 (Consume now tok)))"
    using mailed_usable [of e2 tick2 "Consume now tok" "env_now e3 (tick3 + 10)"] exp by (simp add: Consume_def)
  have typed2: "world_typed (env_lower e3) w2"
    using yieldsC_run [OF MailDelivery_typed assms(7) typed1] by (simp add: assms(10))
  have "selectUserByID (user_ID u) (st_users (w_store w2)) = Some (u\<lparr>user_Password := hashed, user_UpdatedAt := now'\<rparr>)"
    using u1 row by (simp add: w2 selectUserByID_def IsDeleted_def)
  moreover have "token_UserID (mailed e2 tick2 (Consume now tok)) = user_ID u" using row by (simp add: Consume_def)
  moreover have "TrimSpace token \<noteq> []"
    using assms(1) by (auto simp: ConfirmPasswordReset_def throwC_def)
  ultimately show ?thesis
    using ConfirmPasswordReset_succeeds [OF assms(9) typed2 _ assms(12,11) t2 usable] u(2) by (simp add: IsGuest_def)
qed

section \<open>Verifying an address\<close>

definition address_verified :: "env \<Rightarrow> user \<Rightarrow> store \<Rightarrow> store \<Rightarrow> bool" where
  "address_verified e u s s' \<longleftrightarrow>
     (\<exists>now. db_get (st_users s') =
        (db_get (st_users s))(user_ID u \<mapsto> (if IsEmailVerified u then u else MarkEmailVerified now u))) \<and>
     users_ok (env_lower e) (st_users s') \<and>
     st_email_tokens s' = EmailVerification_invalidateByUser (user_ID u) (st_email_tokens s) \<and>
     s'\<lparr>st_users := st_users s, st_email_tokens := st_email_tokens s\<rparr> = s"

lemma ConfirmEmailVerification_tx_run:
  assumes "ConfirmEmailVerification_tx h e t = Some (Inr x, t')" "users_ok (env_lower e) (st_users (tx_store t))"
  shows "\<exists>u tok. map_of (st_email_tokens (tx_store t)) h = Some tok \<and>
    IsUsable (env_now e (tx_tick t)) (Some tok) \<and>
    selectUserByID (token_UserID tok) (st_users (tx_store t)) = Some u \<and> \<not> IsGuest u \<and> user_Email u \<noteq> [] \<and>
    address_verified e u (tx_store t) (tx_store t')"
proof -
  define s where "s = tx_store t"
  define now where "now = env_now e (Suc (tx_tick t))"
  from assms(1) obtain tok u t1 where
    tok: "map_of (st_email_tokens s) h = Some tok" "IsUsable (env_now e (tx_tick t)) (Some tok)"
    and u: "selectUserByID (token_UserID tok) (st_users s) = Some u" "\<not> IsGuest u" "user_Email u \<noteq> []"
    and up: "if IsEmailVerified u then t1 = t\<lparr>tx_tick := Suc (Suc (tx_tick t))\<rparr>
      else userTx_Update (MarkEmailVerified now u) e (t\<lparr>tx_tick := Suc (Suc (tx_tick t))\<rparr>) = Some (Inr (), t1)"
    and t': "tx_store t' = (tx_store t1)\<lparr>st_email_tokens :=
      EmailVerification_invalidateByUser (user_ID u) (st_email_tokens (tx_store t1))\<rparr>"
    by (auto simp: ConfirmEmailVerification_tx_def emailVerificationTokenTx_SelectByTokenHash_def userTx_SelectUserByID_def
        emailVerificationTokenTx_InvalidateByUser_def EmailVerification_selectByTokenHash_def s_def now_def tx_simps split: if_splits)
  have ok: "users_ok (env_lower e) (st_users s)" using assms(2) by (simp add: s_def)
  note row = selectUserByID_row [OF ok u(1)]
  have r: "\<exists>now. db_get (st_users (tx_store t1)) = (db_get (st_users s))(user_ID u \<mapsto> (if IsEmailVerified u then u else MarkEmailVerified now u))"
    "users_ok (env_lower e) (st_users (tx_store t1))" "(tx_store t1)\<lparr>st_users := st_users s\<rparr> = s"
  proof (atomize (full), cases "IsEmailVerified u")
    case True
    with up row ok show "(\<exists>now. db_get (st_users (tx_store t1)) = (db_get (st_users s))(user_ID u \<mapsto> (if IsEmailVerified u then u else MarkEmailVerified now u))) \<and>
        users_ok (env_lower e) (st_users (tx_store t1)) \<and> (tx_store t1)\<lparr>st_users := st_users s\<rparr> = s"
      by (auto simp: s_def)
  next
    case False
    with up have "userTx_Update (MarkEmailVerified now u) e (t\<lparr>tx_tick := Suc (Suc (tx_tick t))\<rparr>) = Some (Inr (), t1)" by simp
    from userTx_Update_run [OF this] row ok have "user_replaced e (MarkEmailVerified now u) s (tx_store t1)"
      by (simp add: s_def MarkEmailVerified_def)
    with False show "(\<exists>now. db_get (st_users (tx_store t1)) = (db_get (st_users s))(user_ID u \<mapsto> (if IsEmailVerified u then u else MarkEmailVerified now u))) \<and>
        users_ok (env_lower e) (st_users (tx_store t1)) \<and> (tx_store t1)\<lparr>st_users := st_users s\<rparr> = s"
      by (auto simp: user_replaced_def MarkEmailVerified_def)
  qed
  have p: "st_email_tokens (tx_store t1) = st_email_tokens s" using arg_cong [OF r(3), of st_email_tokens] by simp
  have "(tx_store t')\<lparr>st_users := st_users s, st_email_tokens := st_email_tokens s\<rparr> = s"
    using r(3) by (cases s; cases "tx_store t1") (simp add: t')
  then have "address_verified e u s (tx_store t')"
    using r(1,2) unfolding address_verified_def by (auto simp: t' p)
  with tok u show ?thesis unfolding s_def by blast
qed

lemma ConfirmEmailVerification_succeeds:
  assumes "no_faults e" "users_ok (env_lower e) (st_users s)" "TrimSpace token \<noteq> []"
    and "map_of (st_email_tokens s) (hashToken cr (TrimSpace token)) = Some tok"
    and "IsUsable (env_now e tick) (Some tok)"
    and "selectUserByID (token_UserID tok) (st_users s) = Some u" "\<not> IsGuest u" "user_Email u \<noteq> []"
  shows "\<exists>s'. ConfirmEmailVerification e cr tick token s = Some (Inr (), s')"
proof -
  let ?h = "hashToken cr (TrimSpace token)"
  note row = selectUserByID_row [OF assms(2,6)]
  obtain r' where r': "User_update (env_lower e) (MarkEmailVerified (env_now e (Suc tick)) u) (st_users s) = (Inr (), r')"
    using unchanged_names_update [OF assms(2), of "MarkEmailVerified (env_now e (Suc tick)) u" u] row
    by (auto simp: MarkEmailVerified_def)
  have "\<exists>t'. ConfirmEmailVerification_tx ?h e (begin_tx tick s) = Some (Inr (), t')"
    using assms(1,4-8) row(2) r'
    by (auto simp: ConfirmEmailVerification_tx_def emailVerificationTokenTx_SelectByTokenHash_def userTx_SelectUserByID_def
        emailVerificationTokenTx_InvalidateByUser_def EmailVerification_selectByTokenHash_def userTx_Update_def tx_simps)
  then show ?thesis
    using assms(3) by (auto simp: ConfirmEmailVerification_def Let_def hashEmailVerificationToken_def atomic_commit [OF account_tx_atomic(4)])
qed

lemma ConfirmEmailVerification_refused:
  assumes "\<forall>now. \<not> IsUsable now (map_of (st_email_tokens s) (hashToken cr (TrimSpace token)))"
  shows "\<exists>err. ConfirmEmailVerification e cr tick token s = Some (Inl err, s)"
proof -
  obtain r s' where c: "ConfirmEmailVerification e cr tick token s = Some (r, s')"
    using account_commands_return(4) [of e cr tick token] unfolding returnsC_def by (metis not_None_eq surj_pair)
  show ?thesis
  proof (cases r)
    case (Inl err)
    with c account_commands_undo(2) show ?thesis unfolding undoes_def by metis
  next
    case (Inr x)
    with c obtain t' where "ConfirmEmailVerification_tx (hashToken cr (TrimSpace token)) e (begin_tx tick s) = Some (Inr (), t')"
      by (auto simp: ConfirmEmailVerification_def Let_def throwC_def hashEmailVerificationToken_def
          atomic_commit [OF account_tx_atomic(4)] split: if_splits)
    then have "IsUsable (env_now e tick) (map_of (st_email_tokens s) (hashToken cr (TrimSpace token)))"
      by (auto simp: ConfirmEmailVerification_tx_def emailVerificationTokenTx_SelectByTokenHash_def
          EmailVerification_selectByTokenHash_def tx_simps split: if_splits)
    with assms show ?thesis by blast
  qed
qed

lemma signed_up_token:
  assumes "signed_up e cr u s s1" "store_typed (env_lower e) s"
  obtains raw expiresAt tok at where
    "map_of (st_email_tokens s1) (hashToken cr raw) = Some tok" "mail_token cr (user_ID u) raw expiresAt tok"
    "TrimSpace raw = raw"
    "queued e [NewSignupEmailVerificationRequested at (user_ID u) (user_Email u) raw (hashToken cr raw) expiresAt] s s1"
proof -
  from assms(1) obtain raw expiresAt tok at where m: "mail_token cr (user_ID u) raw expiresAt tok"
    and s1: "st_email_tokens s1 = EmailVerification_save tok (EmailVerification_invalidateByUser (user_ID u) (st_email_tokens s))"
    and q: "queued e [NewSignupEmailVerificationRequested at (user_ID u) (user_Email u) raw (hashToken cr raw) expiresAt] s s1"
    unfolding signed_up_def by blast
  have "TrimSpace raw = raw" using m TrimSpace_plain [OF EncodeToString_plain] by (auto simp: mail_token_def)
  moreover have "map_of (st_email_tokens s1) (hashToken cr raw) = Some tok"
    using m by (simp add: s1 EmailVerification_save_def mail_token_def)
  ultimately show ?thesis using that m q by blast
qed

lemma hashed_not_empty: "cr_sha256 cr raw \<noteq> [] \<Longrightarrow> hashToken cr raw \<noteq> []"
  by (cases "cr_sha256 cr raw") (simp_all add: hashToken_def hex_encode_def)

text \<open>From the mail on: the token works once.\<close>

lemma delivered_verifies:
  assumes "no_faults e2" "env_now e2 (tick2 + 1) < expiresAt" "store_typed lower (w_store w)"
    and "map_of (st_email_tokens (w_store w)) (hashToken cr raw) = Some tok" "mail_token cr (user_ID u) raw expiresAt tok"
    and "selectUserByID (user_ID u) (st_users (w_store w)) = Some u" "\<not> IsGuest u" "user_Email u \<noteq> []"
    and "hashToken cr raw \<noteq> []" "TrimSpace raw = raw" "raw \<noteq> []"
    and "MailDelivery_Handle e2 tick2 (NewSignupEmailVerificationRequested at (user_ID u) (user_Email u) raw
      (hashToken cr raw) expiresAt) w = Some (r2, w2)"
  shows "w_sent w2 = w_sent w @ [EmailVerificationMail (user_Email u) raw expiresAt]"
    and "no_faults e3 \<Longrightarrow> env_lower e3 = lower \<Longrightarrow> env_now e3 tick3 < expiresAt \<Longrightarrow>
      \<exists>s3 v. ConfirmEmailVerification e3 cr tick3 raw (w_store w2) = Some (Inr (), s3) \<and>
        selectUserByID (user_ID u) (st_users s3) = Some v \<and> IsEmailVerified v \<and>
        (\<forall>e4 tick4. \<exists>err. ConfirmEmailVerification e4 cr tick4 raw s3 = Some (Inl err, s3))"
proof -
  let ?h = "hashToken cr raw"
  let ?m = "NewMailDelivery at (user_ID u) (user_Email u) raw ?h expiresAt"
  have ok: "users_ok lower (st_users (w_store w))" "tokens_ok (st_email_tokens (w_store w))"
    using assms(3) by (simp_all add: store_typed_def)
  note row = selectUserByID_row [OF ok(1) assms(6)]
  have pos: "0 < user_ID u"
    using db_get_bounds [of user_ID "st_users (w_store w)" "user_ID u" u] row ok(1) by (simp add: users_ok_def)
  have m: "0 < mail_UserID ?m" "mail_TokenHash ?m \<noteq> []"
    "EmailVerification_selectByTokenHash (mail_TokenHash ?m) (st_email_tokens (w_store w)) = Some tok"
    using pos assms(4,9) by (simp_all add: NewMailDelivery_def EmailVerification_selectByTokenHash_def)
  have tok: "token_DeliveredAt tok = None" "token_ExpiresAt tok = expiresAt" "token_UserID tok = user_ID u"
    "token_TokenHash tok = ?h" using assms(5) by (simp_all add: mail_token_def)
  from sendEmailVerification_run [OF assms(1) m(1,2) ok(2) m(3), of tick2] assms(12) tok(1) obtain rr where
    rr: "token_replaced (mailed e2 tick2 tok) (st_email_tokens (w_store w)) rr"
    and w2: "w2 = w\<lparr>w_store := (w_store w)\<lparr>st_email_tokens := rr\<rparr>,
      w_sent := w_sent w @ [EmailVerificationMail (mail_Email ?m) (mail_RawToken ?m) (mail_ExpiresAt ?m)]\<rparr>"
    by (auto simp: MailDelivery_Handle_def NewSignupEmailVerificationRequested_def)
  show "w_sent w2 = w_sent w @ [EmailVerificationMail (user_Email u) raw expiresAt]"
    by (simp add: w2 NewMailDelivery_def)
  assume e3: "no_faults e3" "env_lower e3 = lower" "env_now e3 tick3 < expiresAt"
  have t2: "map_of (st_email_tokens (w_store w2)) ?h = Some (mailed e2 tick2 tok)"
    using rr by (simp add: w2 token_replaced_def tok)
  have usable: "IsUsable (env_now e3 tick3) (Some (mailed e2 tick2 tok))"
    using mailed_usable [of e2 tick2 tok] assms(2) e3(3) by (simp add: tok)
  have ok2: "users_ok (env_lower e3) (st_users (w_store w2))" using ok(1) by (simp add: w2 e3(2))
  have u2: "selectUserByID (token_UserID (mailed e2 tick2 tok)) (st_users (w_store w2)) = Some u"
    using assms(6) by (simp add: w2 tok)
  obtain s3 where s3: "ConfirmEmailVerification e3 cr tick3 raw (w_store w2) = Some (Inr (), s3)"
    using ConfirmEmailVerification_succeeds [OF e3(1) ok2 _ _ usable u2 assms(7,8), of raw cr] assms(10,11) t2 by auto
  then obtain t' where c: "ConfirmEmailVerification_tx ?h e3 (begin_tx tick3 (w_store w2)) = Some (Inr (), t')" "s3 = tx_store t'"
    using assms(10,11) by (auto simp: ConfirmEmailVerification_def Let_def hashEmailVerificationToken_def
        atomic_commit [OF account_tx_atomic(4)])
  from ConfirmEmailVerification_tx_run [OF c(1)] ok2 t2 u2 have v: "address_verified e3 u (w_store w2) s3"
    by (auto simp: c(2))
  have ok2': "tokens_ok (st_email_tokens (w_store w2))" using rr by (simp add: w2 token_replaced_def)
  have "map_of (st_email_tokens s3) ?h = None"
    using v email_tokens.invalidate_select [OF ok2', of ?h "user_ID u"] t2
    by (simp add: address_verified_def EmailVerification_selectByTokenHash_def tok)
  then have "\<exists>err. ConfirmEmailVerification e4 cr tick4 raw s3 = Some (Inl err, s3)" for e4 tick4
    by (intro ConfirmEmailVerification_refused) (simp add: assms(10) IsUsable_def)
  moreover have "\<exists>v. selectUserByID (user_ID u) (st_users s3) = Some v \<and> IsEmailVerified v"
    using v row by (auto simp: address_verified_def selectUserByID_def MarkEmailVerified_def IsEmailVerified_def IsDeleted_def)
  ultimately show "\<exists>s3 v. ConfirmEmailVerification e3 cr tick3 raw (w_store w2) = Some (Inr (), s3) \<and>
        selectUserByID (user_ID u) (st_users s3) = Some v \<and> IsEmailVerified v \<and>
        (\<forall>e4 tick4. \<exists>err. ConfirmEmailVerification e4 cr tick4 raw s3 = Some (Inl err, s3))"
    using s3 by blast
qed

text \<open>
  C33: the way from signing up to a verified address. A sign-up queues the mail with a token that is of
  no use until the mail is out. When the handler has sent the mail to the address of the user, in time
  and without failures, the token verifies the user exactly once.
\<close>

theorem sign_up_to_verified:
  assumes "SignUp e cr tick username email password s = Some (Inr r, s1)" "store_typed (env_lower e) s"
    and "\<forall>raw. raw \<noteq> [] \<longrightarrow> cr_sha256 cr raw \<noteq> []"
  shows "\<exists>u raw expiresAt at. selectUserByID (user_ID u) (st_users s1) = Some u \<and> \<not> IsEmailVerified u \<and>
    queued e [NewSignupEmailVerificationRequested at (user_ID u) (user_Email u) raw (hashToken cr raw) expiresAt] s s1 \<and>
    (\<forall>e' tick'. \<exists>err. ConfirmEmailVerification e' cr tick' raw s1 = Some (Inl err, s1)) \<and>
    (\<forall>e2 tick2 w r2 w2. raw \<noteq> [] \<longrightarrow> w_store w = s1 \<longrightarrow> no_faults e2 \<longrightarrow> env_now e2 (tick2 + 1) < expiresAt \<longrightarrow>
       MailDelivery_Handle e2 tick2 (NewSignupEmailVerificationRequested at (user_ID u) (user_Email u) raw
         (hashToken cr raw) expiresAt) w = Some (r2, w2) \<longrightarrow>
       w_sent w2 = w_sent w @ [EmailVerificationMail (user_Email u) raw expiresAt] \<and>
       (\<forall>e3 tick3. no_faults e3 \<longrightarrow> env_lower e3 = env_lower e \<longrightarrow> env_now e3 tick3 < expiresAt \<longrightarrow>
         (\<exists>s3 v. ConfirmEmailVerification e3 cr tick3 raw (w_store w2) = Some (Inr (), s3) \<and>
            selectUserByID (user_ID u) (st_users s3) = Some v \<and> IsEmailVerified v \<and>
            (\<forall>e4 tick4. \<exists>err. ConfirmEmailVerification e4 cr tick4 raw s3 = Some (Inl err, s3)))))"
proof -
  have ok: "users_ok (env_lower e) (st_users s)" using assms(2) by (simp add: store_typed_def)
  from SignUp_effect [OF assms(1) ok] obtain u where
    u: "\<not> IsGuest u" "\<not> IsEmailVerified u" "signed_up e cr u s s1" and mail: "user_Email u = normalizeEmail (env_lower e) email"
    by blast
  have typed: "store_typed (env_lower e) s1"
    using yieldsC_run [OF account_transactions(1) [OF refl] assms(1,2)] .
  have g: "db_get (st_users s1) (user_ID u) = Some u" using u(3) by (simp add: signed_up_def user_added_def)
  have email: "user_Email u \<noteq> []"
    using assms(1) by (auto simp: mail SignUp_def Let_def svc_normalizeEmail_def normalizeEmail_def throwC_def split: if_splits)
  have "user_typed u" using typed g by (auto simp: store_typed_def users_typed_def)
  with email have "\<not> IsDeleted u" by (auto simp: user_typed_def)
  with g have sel: "selectUserByID (user_ID u) (st_users s1) = Some u" by (simp add: selectUserByID_def)
  obtain raw expiresAt tok at where
    t: "map_of (st_email_tokens s1) (hashToken cr raw) = Some tok" "mail_token cr (user_ID u) raw expiresAt tok"
      "TrimSpace raw = raw"
    and q: "queued e [NewSignupEmailVerificationRequested at (user_ID u) (user_Email u) raw (hashToken cr raw) expiresAt] s s1"
    by (rule signed_up_token [OF u(3) assms(2)])
  have early: "\<exists>err. ConfirmEmailVerification e' cr tick' raw s1 = Some (Inl err, s1)" for e' tick'
    using t by (intro ConfirmEmailVerification_refused) (simp add: IsUsable_def mail_token_def)
  have after: "w_sent w2 = w_sent w @ [EmailVerificationMail (user_Email u) raw expiresAt] \<and>
       (\<forall>e3 tick3. no_faults e3 \<longrightarrow> env_lower e3 = env_lower e \<longrightarrow> env_now e3 tick3 < expiresAt \<longrightarrow>
         (\<exists>s3 v. ConfirmEmailVerification e3 cr tick3 raw (w_store w2) = Some (Inr (), s3) \<and>
            selectUserByID (user_ID u) (st_users s3) = Some v \<and> IsEmailVerified v \<and>
            (\<forall>e4 tick4. \<exists>err. ConfirmEmailVerification e4 cr tick4 raw s3 = Some (Inl err, s3))))"
    if a: "raw \<noteq> []" "w_store w = s1" "no_faults e2" "env_now e2 (tick2 + 1) < expiresAt"
      "MailDelivery_Handle e2 tick2 (NewSignupEmailVerificationRequested at (user_ID u) (user_Email u) raw
         (hashToken cr raw) expiresAt) w = Some (r2, w2)" for e2 tick2 w r2 w2
  proof -
    have w: "store_typed (env_lower e) (w_store w)" "map_of (st_email_tokens (w_store w)) (hashToken cr raw) = Some tok"
      "selectUserByID (user_ID u) (st_users (w_store w)) = Some u" by (simp_all add: a(2) typed t(1) sel)
    have h: "hashToken cr raw \<noteq> []" using assms(3) a(1) by (simp add: hashed_not_empty)
    note d = delivered_verifies [OF a(3,4) w(1,2) t(2) w(3) u(1) email h t(3) a(1) a(5)]
    show ?thesis by (rule conjI, rule d(1), intro allI impI, rule d(2))
  qed
  show ?thesis
    by (intro exI [of _ u] exI [of _ raw] exI [of _ expiresAt] exI [of _ at] conjI sel u(2) q)
      (use early after in blast)+
qed

section \<open>Guests become members\<close>

text \<open>The row of the guest \<open>u\<close> became \<open>v\<close>, and a mail with a new token was queued for the address.\<close>

definition guest_upgraded :: "env \<Rightarrow> crypto \<Rightarrow> user \<Rightarrow> user \<Rightarrow> store \<Rightarrow> store \<Rightarrow> bool" where
  "guest_upgraded e cr u v s s' \<longleftrightarrow>
     db_get (st_users s') = (db_get (st_users s))(user_ID u \<mapsto> v) \<and> users_ok (env_lower e) (st_users s') \<and>
     (\<exists>rawToken expiresAt tok at. mail_token cr (user_ID u) rawToken expiresAt tok \<and>
        st_email_tokens s' =
          EmailVerification_save tok (EmailVerification_invalidateByUser (user_ID u) (st_email_tokens s)) \<and>
        queued e [NewSignupEmailVerificationRequested at (user_ID u) (user_Email v) rawToken
          (hashToken cr rawToken) expiresAt] s s') \<and>
     s'\<lparr>st_users := st_users s, st_email_tokens := st_email_tokens s, st_outbox := st_outbox s\<rparr> = s"

lemma applyGuestUpgrade_tx_run:
  assumes "applyGuestUpgrade_tx cr i username email hashed e t = Some (Inr u, t')"
    and "users_ok (env_lower e) (st_users (tx_store t))" "email \<noteq> []"
  shows "selectUserByID i (st_users (tx_store t)) = Some u \<and> IsGuest u \<and>
    guest_upgraded e cr u (UpgradeGuest (env_now e (tx_tick t)) username email hashed u) (tx_store t) (tx_store t')"
proof -
  define s where "s = tx_store t"
  define v where "v = UpgradeGuest (env_now e (tx_tick t)) username email hashed u"
  from assms(1) obtain t1 t2 issued where
    u: "selectUserByID i (st_users s) = Some u" "IsGuest u"
    and up: "userTx_Update v e (t\<lparr>tx_tick := Suc (tx_tick t)\<rparr>) = Some (Inr (), t1)"
    and iss: "issueEmailVerificationToken cr v e t1 = Some (Inr issued, t2)"
    and d: "dispatch_issued (\<lambda>at. NewSignupEmailVerificationRequested at (user_ID v) (user_Email v)) issued e t2 = Some (Inr (), t')"
    by (auto simp: applyGuestUpgrade_tx_def userTx_SelectUserByID_def account_issue_same s_def v_def Let_def tx_simps
        exists_or_wrapped_run split: if_splits)
  have ok: "users_ok (env_lower e) (st_users s)" using assms(2) by (simp add: s_def)
  note row = selectUserByID_row [OF ok u(1)]
  have v: "user_ID v = user_ID u" "user_Email v = email" "\<not> IsEmailVerified v"
    by (simp_all add: v_def UpgradeGuest_def IsEmailVerified_def)
  have r: "user_replaced e v s (tx_store t1)"
    using userTx_Update_run [OF up] ok row by (simp add: s_def v)
  then have s1: "(tx_store t1)\<lparr>st_users := st_users s\<rparr> = s" by (simp add: user_replaced_def)
  from issue_email_run [OF iss] v assms(3) obtain raw expiresAt tok where
    tok: "mail_token cr (user_ID u) raw expiresAt tok" "issued = Some (raw, hashToken cr raw, expiresAt)"
    and s2: "tx_store t2 = (tx_store t1)\<lparr>st_email_tokens :=
        EmailVerification_save tok (EmailVerification_invalidateByUser (user_ID u) (st_email_tokens (tx_store t1)))\<rparr>" by auto
  define at where "at = env_now e (tx_tick t2)"
  have d': "DispatchDomainActions [NewSignupEmailVerificationRequested at (user_ID v) (user_Email v) raw
        (hashToken cr raw) expiresAt] e (t2\<lparr>tx_tick := Suc (tx_tick t2)\<rparr>) = Some (Inr (), t')"
    using d by (simp add: dispatch_issued_def tok(2) at_def tx_simps)
  have f: "st_email_tokens (tx_store t1) = st_email_tokens s" "st_outbox (tx_store t1) = st_outbox s"
    using arg_cong [OF s1, of st_email_tokens] arg_cong [OF s1, of st_outbox] by simp_all
  from Dispatch_queued [OF d', of s] s2 f have
    q: "queued e [NewSignupEmailVerificationRequested at (user_ID u) (user_Email v) raw (hashToken cr raw) expiresAt] s (tx_store t')"
    and s': "tx_store t' = (tx_store t2)\<lparr>st_outbox := st_outbox (tx_store t')\<rparr>" by (simp_all add: v(1))
  have "st_users (tx_store t') = st_users (tx_store t1)"
    "st_email_tokens (tx_store t') = EmailVerification_save tok (EmailVerification_invalidateByUser (user_ID u) (st_email_tokens s))"
    using arg_cong [OF s', of st_users] arg_cong [OF s', of st_email_tokens] by (simp_all add: s2 f)
  moreover have "(tx_store t')\<lparr>st_users := st_users s, st_email_tokens := st_email_tokens s, st_outbox := st_outbox s\<rparr> = s"
    using s1 s2 s' by (cases s; cases "tx_store t1"; cases "tx_store t2"; cases "tx_store t'") simp
  ultimately have "guest_upgraded e cr u v s (tx_store t')"
    using r tok(1) q unfolding guest_upgraded_def user_replaced_def v(1) by auto
  with u show ?thesis unfolding s_def v_def by blast
qed

lemma catchC_run:
  "catchC m h w = Some (Inr a, w') \<longleftrightarrow>
    m w = Some (Inr a, w') \<or> (\<exists>err w1. m w = Some (Inl err, w1) \<and> h err w1 = Some (Inr a, w'))"
  by (auto simp: catchC_def split: option.splits sum.splits)

text \<open>
  C23: a guest becomes a member once, with a live session of its own. The row gets the new name, the
  address and the hash of the password and is no guest any more; a mail with a token is queued for
  the address; the session is exchanged for a new one and no other session changes.
\<close>

theorem UpgradeGuestAccount_effect:
  assumes "UpgradeGuestAccount e cr tick userID currentToken username email password w = Some (Inr token, w1)"
    and "world_typed (env_lower e) w"
  shows "\<exists>u v hashed. selectUserByID userID (st_users (w_store w)) = Some u \<and> IsGuest u \<and>
    (userID, TrimSpace currentToken) \<in> sessions_at w (env_now e (tick + 1)) \<and>
    TrimSpace password \<noteq> [] \<and> Hash cr tick password = Inr hashed \<and>
    v = UpgradeGuest (env_now e (tick + 10)) (TrimSpace username) (TrimSpace email) hashed u \<and>
    user_Name v \<noteq> [] \<and> user_Email v \<noteq> [] \<and> \<not> IsGuest v \<and> \<not> IsEmailVerified v \<and>
    guest_upgraded e cr u v (w_store w) (w_store w1) \<and> w_sent w1 = w_sent w \<and>
    (\<forall>at. env_now e (tick + 2) \<le> at \<longrightarrow> env_now e (tick + 5) \<le> at \<longrightarrow> at \<le> env_now e (tick + 5) + jwt_ttl \<longrightarrow>
       sessions_at w1 at = insert (userID, token) (sessions_at w at) - {(userID, TrimSpace currentToken)})"
proof -
  let ?old = "TrimSpace currentToken" and ?n = "TrimSpace username" and ?m = "TrimSpace email"
  have typed: "store_typed (env_lower e) (w_store w)" "cache_ok (w_cache w)" using assms(2) by (simp_all add: world_typed_def)
  from assms(1) obtain hashed where h: "?n \<noteq> []" "?m \<noteq> []" "TrimSpace password \<noteq> []" "Hash cr tick password = Inr hashed"
    and sw: "swap_guest_session e cr (tick + 1) userID ?old ?n ?m hashed w = Some (Inr token, w1)"
    by (cases "Hash cr tick password") (auto simp: UpgradeGuestAccount_def Let_def throwC_def split: if_splits)
  obtain b c where x: "Session_existsLocked (env_now e (tick + 1)) (env_now e (tick + 2)) userID ?old (w_cache w) = (b, c)"
    by fastforce
  have n: "tick + 1 + 9 = tick + 10" "tick + 1 + 4 = tick + 5" "tick + 1 + 1 = tick + 2" by simp_all
  from sw x obtain u s where b: "b"
    and up: "applyGuestUpgrade e cr (tick + 10) userID ?n ?m hashed (w_store w) = Some (Inr u, s)"
    and w1: "w1 = w\<lparr>w_store := s, w_cache := Session_Delete userID ?old
      (Session_Save (env_now e (tick + 5)) userID token TTLSeconds c)\<rparr>"
    unfolding swap_guest_session_def n
    by (auto simp: call_simps catchC_run discardC_def attemptC_def simp del: One_nat_def add_2_eq_Suc' split: if_splits)
  from up obtain t where t: "applyGuestUpgrade_tx cr userID ?n ?m hashed e (begin_tx (tick + 10) (w_store w)) = Some (Inr u, t)"
    "s = tx_store t" by (auto simp: applyGuestUpgrade_def atomic_commit [OF account_tx_atomic(1)])
  define v where "v = UpgradeGuest (env_now e (tick + 10)) ?n ?m hashed u"
  from applyGuestUpgrade_tx_run [OF t(1)] typed(1) h(2) have
    u: "selectUserByID userID (st_users (w_store w)) = Some u" "IsGuest u" "guest_upgraded e cr u v (w_store w) s"
    by (simp_all add: store_typed_def t(2) v_def)
  have ok: "cache_ok c" "cache_ok (Session_Save (env_now e (tick + 5)) userID token TTLSeconds c)"
    using sessions.exists_inv [OF typed(2) x] sessions.save_inv by blast+
  have live: "sessions_at w1 at = insert (userID, token) (sessions_at w at) - {(userID, ?old)}"
    if "env_now e (tick + 2) \<le> at" "env_now e (tick + 5) \<le> at" "at \<le> env_now e (tick + 5) + jwt_ttl" for at
  proof -
    have "session_live (w_cache w1) at i tk \<longleftrightarrow> ((i = userID \<and> tk = token) \<or> session_live (w_cache w) at i tk) \<and>
        \<not> (i = userID \<and> tk = ?old)" for i tk
      using that TTL_day sessions.exists_live [OF typed(2) x that(1)]
      by (auto simp: w1 sessions.delete_live [OF ok(2)] sessions.save_live [OF ok(1)])
    then show ?thesis by (auto simp: sessions_at_def)
  qed
  have "(userID, ?old) \<in> sessions_at w (env_now e (tick + 1))"
    using sessions.exists_answer [OF typed(2) x] b by (simp add: sessions_at_def)
  moreover have "user_Name v \<noteq> []" "user_Email v \<noteq> []" "\<not> IsGuest v" "\<not> IsEmailVerified v"
    using h by (simp_all add: v_def UpgradeGuest_def IsGuest_def IsEmailVerified_def)
  ultimately show ?thesis using u h(3,4) live
    by (intro exI [of _ u] exI [of _ v] exI [of _ hashed]) (simp add: w1 v_def)
qed

text \<open>Failed runs, read backwards.\<close>

lemma bindC_fails:
  "bindC m f w = Some (Inl err, w') \<longleftrightarrow>
    m w = Some (Inl err, w') \<or> (\<exists>a w1. m w = Some (Inr a, w1) \<and> f a w1 = Some (Inl err, w'))"
  "catchC m' h v = Some (Inl err', v') \<longleftrightarrow>
    (\<exists>err0 v1. m' v = Some (Inl err0, v1) \<and> h err0 v1 = Some (Inl err', v'))"
  by (auto simp: bindC_def catchC_def split: option.splits sum.splits)

lemma basic_fails:
  "returnC a w = Some (Inl err, w') \<longleftrightarrow> False"
  "throwC f w = Some (Inl err, w') \<longleftrightarrow> err = f \<and> w' = w"
  "ensureC res w = Some (Inl err, w') \<longleftrightarrow> res = Some err \<and> w' = w"
  "requireC x g w = Some (Inl err, w') \<longleftrightarrow> x = None \<and> err = g \<and> w' = w"
  "liftC r w = Some (Inl err, w') \<longleftrightarrow> r = Inl err \<and> w' = w"
  by (auto simp: returnC_def throwC_def ensureC_def requireC_def liftC_def split: option.splits)

lemma called_fails:
  "called e wrap label m w = Some (Inl err, w') \<longleftrightarrow>
    (\<exists>f. err = wrap f \<and> (env_fault e label = Some f \<and> w' = w \<or> env_fault e label = None \<and> m w = Some (Inl f, w')))"
  "repoC e label m' v = Some (Inl err', v') \<longleftrightarrow>
    (\<exists>f. err' = WrapRepository label (Some f) \<and>
      (env_fault e label = Some f \<and> v' = v \<or> env_fault e label = None \<and> m' v = Some (Inl f, v')))"
  by (auto simp: repoC_def called_def split: option.splits sum.splits)

lemma part_fails:
  "on_store m w = Some (Inl err, w') \<longleftrightarrow> (\<exists>s. m (w_store w) = Some (Inl err, s) \<and> w' = w\<lparr>w_store := s\<rparr>)"
  "on_cache g v = Some (Inl err', v') \<longleftrightarrow> False"
  by (auto simp: on_store_run on_cache_def split: prod.splits)

lemma attempt_runs:
  "attemptC m w = Some (Inl err, w') \<longleftrightarrow> False"
  "attemptC m w = Some (Inr r, w') \<longleftrightarrow>
    (\<exists>x. m w = Some (x, w') \<and> r = (case x of Inl f \<Rightarrow> Some f | Inr _ \<Rightarrow> None))"
  "wrapC label m' v = Some (x, v') \<longleftrightarrow>
    (\<exists>y. m' v = Some (y, v') \<and> x = (case y of Inl f \<Rightarrow> Inl (WrapRepository label (Some f)) | Inr a \<Rightarrow> Inr a))"
  by (auto simp: attemptC_def wrapC_def catchC_def bindC_def returnC_def throwC_def split: option.splits sum.splits)

lemmas call_fails = bindC_fails basic_fails called_fails part_fails attempt_runs

lemma discard_cache:
  "discardC e (on_cache f) w = Some (Inr x, w') \<Longrightarrow> w_store w' = w_store w"
  "discardC e (on_cache f) w = Some (Inl err, w') \<longleftrightarrow> False"
  by (auto simp: discardC_def catchC_def bindC_def called_def on_cache_def returnC_def split: option.splits prod.splits)

text \<open>Setting a row back.\<close>

lemma restoreUserState_run:
  assumes "restoreUserState e tick u s = Some (Inr x, s')" "users_ok (env_lower e) (st_users s)"
  shows "user_replaced e u s s'"
proof -
  from assms(1) obtain t where t: "restoreUserState_tx u e (begin_tx tick s) = Some (Inr x, t)" "s' = tx_store t"
    by (auto simp: restoreUserState_def atomic_commit [OF account_tx_atomic(2)])
  then have p: "db_get (st_users s) (user_ID u) \<noteq> None"
    and w: "userTx_Update u e (begin_tx tick s) = Some (Inr x, t)"
    by (auto simp: restoreUserState_tx_def userTx_SelectUserByIDIncludingDeleted_def selectUserByIDIncludingDeleted_def tx_simps)
  from userTx_Update_run [OF w] assms(2) p show ?thesis by (simp add: t(2))
qed

lemma step_fails:
  "issue_token e cr t label i w = Some (Inl err, w') \<Longrightarrow> w' = w"
  "session_save e t label i tok w = Some (Inl err, w') \<Longrightarrow> w' = w"
  "session_delete e label i tok w = Some (Inl err, w') \<Longrightarrow> w' = w"
  by (auto simp: issue_token_def session_save_def session_delete_def basic_fails called_fails part_fails)

lemma session_delete_store: "session_delete e label i tok w = Some (r, w') \<Longrightarrow> w_store w' = w_store w"
  by (cases r) (auto simp: call_simps dest: step_fails)

text \<open>The three ways in which the exchange under the lock fails.\<close>

lemma swap_guest_session_fails:
  assumes "swap_guest_session e cr tick i old n m hashed w = Some (Inl err, w1)"
  shows "w_store w1 = w_store w \<or>
    (\<exists>f. applyGuestUpgrade e cr (tick + 9) i n m hashed (w_store w) = Some (Inl f, w_store w1)) \<or>
    (\<exists>u s f r1 r2. applyGuestUpgrade e cr (tick + 9) i n m hashed (w_store w) = Some (Inr u, s) \<and>
       restoreUserState e (tick + 49) u s = Some (r2, w_store w1) \<and>
       err = Joined (the_errors [Some f, r1,
         case r2 of Inl g \<Rightarrow> Some (WrapRepository ''restore guest after failed upgrade'' (Some g)) | Inr _ \<Rightarrow> None]))"
proof -
  define apply_step where "apply_step cand = catchC (on_store (applyGuestUpgrade e cr (tick + 9) i n m hashed))
      (\<lambda>err. bindC (discardC e (on_cache (\<lambda>c. ((), Session_Delete i cand c)))) (\<lambda>_. throwC err))" for cand
  define undo_step where "undo_step cand u err =
      bindC (attemptC (session_delete e ''delete upgraded session after failed guest upgrade'' i cand)) (\<lambda>deleteErr.
      bindC (attemptC (wrapC ''restore guest after failed upgrade'' (on_store (restoreUserState e (tick + 49) u)))) (\<lambda>restoreUserErr.
        throwC (Joined (the_errors [Some err, deleteErr, restoreUserErr]))) :: (world, unit) call)" for cand u err
  define last_step where "last_step cand u =
      bindC (catchC (session_delete e ''delete current session for guest upgrade'' i old) (undo_step cand u)) (\<lambda>_. returnC cand)" for cand u
  have sw: "swap_guest_session e cr tick i old n m hashed =
     bindC (repoC e ''lookup current session for guest upgrade''
              (on_cache (Session_existsLocked (env_now e tick) (env_now e (tick + 1)) i old))) (\<lambda>present.
     bindC (ensureC (if \<not> present then Some (Sentinel ErrInvalidToken) else None)) (\<lambda>_.
     bindC (issue_token e cr (tick + 2) ''issue guest upgrade token'' i) (\<lambda>cand.
     bindC (session_save e (tick + 4) ''save upgraded session'' i cand) (\<lambda>_. bindC (apply_step cand) (last_step cand)))))"
    unfolding swap_guest_session_def apply_step_def last_step_def undo_step_def by simp
  have "w_store w1 = w_store w \<or> (\<exists>cand v. w_store v = w_store w \<and> bindC (apply_step cand) (last_step cand) v = Some (Inl err, w1))"
    using assms unfolding sw
    by (auto simp: bindC_fails(1) [of "repoC _ _ _"] bindC_fails(1) [of "ensureC _"] bindC_fails(1) [of "issue_token _ _ _ _ _"]
        bindC_fails(1) [of "session_save _ _ _ _ _"] basic_fails called_fails part_fails call_simps
        dest: step_fails)
  then show ?thesis
  proof (elim disjE exE conjE)
    fix cand v assume v: "w_store v = w_store w" and r: "bindC (apply_step cand) (last_step cand) v = Some (Inl err, w1)"
    from r consider "apply_step cand v = Some (Inl err, w1)"
      | u v1 where "apply_step cand v = Some (Inr u, v1)" "last_step cand u v1 = Some (Inl err, w1)"
      unfolding bindC_fails(1) by blast
    then show ?thesis
    proof cases
      case 1
      then have "\<exists>f. applyGuestUpgrade e cr (tick + 9) i n m hashed (w_store w) = Some (Inl f, w_store w1)"
        by (auto simp: apply_step_def bindC_fails basic_fails part_fails discard_cache v dest: discard_cache(1))
      then show ?thesis by blast
    next
      case 2
      from 2(1) have a: "applyGuestUpgrade e cr (tick + 9) i n m hashed (w_store w) = Some (Inr u, w_store v1)"
        by (auto simp: apply_step_def catchC_run call_simps v)
      from 2(2) obtain f v2 where f: "session_delete e ''delete current session for guest upgrade'' i old v1 = Some (Inl f, v2)"
        "undo_step cand u f v2 = Some (Inl err, w1)"
        by (auto simp: last_step_def bindC_fails basic_fails)
      have "w_store v2 = w_store v1" using step_fails(3) [OF f(1)] by simp
      moreover obtain x v3 y s' where
        u: "session_delete e ''delete upgraded session after failed guest upgrade'' i cand v2 = Some (x, v3)"
          "restoreUserState e (tick + 49) u (w_store v3) = Some (y, s')" "w1 = v3\<lparr>w_store := s'\<rparr>"
          "err = Joined (the_errors [Some f, case x of Inl g \<Rightarrow> Some g | Inr _ \<Rightarrow> None,
            case (case y of Inl g \<Rightarrow> Inl (WrapRepository ''restore guest after failed upgrade'' (Some g)) | Inr a \<Rightarrow> Inr a) of
              Inl g \<Rightarrow> Some g | Inr _ \<Rightarrow> None])"
        using f(2) by (simp add: undo_step_def bindC_fails(1) basic_fails attempt_runs on_store_run del: the_errors.simps) blast
      ultimately have "w_store v3 = w_store v1" "w_store w1 = s'" using session_delete_store [OF u(1)] by simp_all
      with u(2,4) a have "\<exists>r1 r2. restoreUserState e (tick + 49) u (w_store v1) = Some (r2, w_store w1) \<and>
         err = Joined (the_errors [Some f, r1,
           case r2 of Inl g \<Rightarrow> Some (WrapRepository ''restore guest after failed upgrade'' (Some g)) | Inr _ \<Rightarrow> None])"
        by (cases y) fastforce+
      with a show ?thesis by blast
    qed
  qed simp
qed

text \<open>
  C32: an upgrade that fails leaves a guest. When it is answered with an error, the users are as they
  were, unless the command could not end the old session and then failed to undo as well, which
  the answer tells by joining two errors or more.
\<close>

theorem UpgradeGuestAccount_failure:
  assumes "UpgradeGuestAccount e cr tick userID currentToken username email password w = Some (Inl err, w1)"
    and "world_typed (env_lower e) w"
  shows "db_get (st_users (w_store w1)) = db_get (st_users (w_store w)) \<or>
    (\<exists>e1 e2 es. err = Joined (e1 # e2 # es))"
proof -
  let ?old = "TrimSpace currentToken" and ?n = "TrimSpace username" and ?m = "TrimSpace email"
  have ok: "users_ok (env_lower e) (st_users (w_store w))" using assms(2) by (simp add: world_typed_def store_typed_def)
  consider "w_store w1 = w_store w" | hashed where "?m \<noteq> []"
      "swap_guest_session e cr (tick + 1) userID ?old ?n ?m hashed w = Some (Inl err, w1)"
    using assms(1) by (cases "Hash cr tick password") (auto simp: UpgradeGuestAccount_def Let_def throwC_def split: if_splits)
  then show ?thesis
  proof cases
    case 2
    have n: "tick + 1 + 9 = tick + 10" by simp
    from swap_guest_session_fails [OF 2(2), unfolded n] consider "w_store w1 = w_store w"
      | f where "applyGuestUpgrade e cr (tick + 10) userID ?n ?m hashed (w_store w) = Some (Inl f, w_store w1)"
      | u s f r1 r2 where "applyGuestUpgrade e cr (tick + 10) userID ?n ?m hashed (w_store w) = Some (Inr u, s)"
          "restoreUserState e (tick + 1 + 49) u s = Some (r2, w_store w1)"
          "err = Joined (the_errors [Some f, r1, case r2 of Inl g \<Rightarrow> Some (WrapRepository ''restore guest after failed upgrade'' (Some g)) | Inr _ \<Rightarrow> None])"
      by blast
    then show ?thesis
    proof cases
      case 2
      then have "w_store w1 = w_store w"
        unfolding applyGuestUpgrade_def by (rule atomic_rollback [OF account_tx_atomic(1)])
      then show ?thesis by simp
    next
      case u: 3
      from u(1) obtain t where t: "applyGuestUpgrade_tx cr userID ?n ?m hashed e (begin_tx (tick + 10) (w_store w)) = Some (Inr u, t)"
        "s = tx_store t" by (auto simp: applyGuestUpgrade_def atomic_commit [OF account_tx_atomic(1)])
      from applyGuestUpgrade_tx_run [OF t(1)] ok \<open>?m \<noteq> []\<close> have
        g: "selectUserByID userID (st_users (w_store w)) = Some u"
          "db_get (st_users s) = (db_get (st_users (w_store w)))(user_ID u \<mapsto> UpgradeGuest (env_now e (tick + 10)) ?n ?m hashed u)"
          "users_ok (env_lower e) (st_users s)" by (simp_all add: t(2) guest_upgraded_def)
      note row = selectUserByID_row [OF ok g(1)]
      show ?thesis
      proof (cases r2)
        case (Inl f')
        with u(3) show ?thesis by (cases r1) auto
      next
        case (Inr x)
        with u(2) have "user_replaced e u s (w_store w1)" using restoreUserState_run g(3) by blast
        with g(2) row show ?thesis by (auto simp: user_replaced_def)
      qed
    qed simp
  qed simp
qed

lemma restorePasswordResetState_run:
  assumes "restorePasswordResetState e tick u tok s = Some (Inr x, s')" "users_ok (env_lower e) (st_users s)"
    and "tokens_ok (st_password_tokens s)"
  shows "db_get (st_users s') = (db_get (st_users s))(user_ID u \<mapsto> u) \<and>
    token_replaced tok (st_password_tokens s) (st_password_tokens s')"
proof -
  from assms(1) obtain t where t: "restorePasswordResetState_tx u tok e (begin_tx tick s) = Some (Inr x, t)" "s' = tx_store t"
    by (auto simp: restorePasswordResetState_def atomic_commit [OF account_tx_atomic(7)])
  then obtain t1 where p: "db_get (st_users s) (user_ID u) \<noteq> None"
    and w: "userTx_Update u e (begin_tx tick s) = Some (Inr (), t1)"
    and s': "s' = (tx_store t1)\<lparr>st_password_tokens := PasswordReset_update tok (st_password_tokens (tx_store t1))\<rparr>"
    by (auto simp: restorePasswordResetState_tx_def userTx_SelectUserByIDIncludingDeleted_def
        selectUserByIDIncludingDeleted_def passwordResetTokenTx_Update_def tx_simps)
  from userTx_Update_run [OF w] assms(2) p have r: "user_replaced e u s (tx_store t1)" by simp
  then have "(tx_store t1)\<lparr>st_users := st_users s\<rparr> = s" by (simp add: user_replaced_def)
  from arg_cong [OF this, of st_password_tokens] have "st_password_tokens (tx_store t1) = st_password_tokens s" by simp
  with r assms(3) show ?thesis by (simp add: s' user_replaced_def PasswordReset_update_def token_replaced_put)
qed

lemma reset_password_fails:
  assumes "reset_password e tick i h hashed w = Some (Inl err, w1)"
  shows "w1 = w \<or> (\<exists>e1 e2. err = Joined [e1, e2]) \<or>
    (\<exists>u tok s. WithinTransaction e tick (ConfirmPasswordReset_tx h hashed) (w_store w) = Some (Inr (u, tok), s) \<and>
       restorePasswordResetState e (tick + 40) u tok s = Some (Inr (), w_store w1) \<and> w_cache w1 = w_cache w)"
proof -
  let ?tx = "WithinTransaction e tick (ConfirmPasswordReset_tx h hashed) (w_store w)"
  from assms consider err' s where "?tx = Some (Inl err', s)" "w1 = w\<lparr>w_store := s\<rparr>"
    | u tok s where "?tx = Some (Inr (u, tok), s)"
      "catchC (repoC e ''delete user sessions for password reset confirm'' (on_cache (\<lambda>c. ((), Session_DeleteByUser i c))))
       (\<lambda>err. bindC (attemptC (wrapC ''restore password reset state after failed session invalidation''
                   (on_store (restorePasswordResetState e (tick + 40) u tok)))) (\<lambda>restoreErr.
          case restoreErr of Some rerr \<Rightarrow> throwC (Joined [err, rerr]) | None \<Rightarrow> throwC err)) (w\<lparr>w_store := s\<rparr>) = Some (Inl err, w1)"
    by (auto simp: reset_password_def bindC_fails(1) part_fails on_store_run)
  then show ?thesis
  proof cases
    case 1
    from atomic_rollback [OF account_tx_atomic(6) 1(1)] 1(2) show ?thesis by simp
  next
    case 2
    obtain y s' where r: "restorePasswordResetState e (tick + 40) u tok s = Some (y, s')"
      unfolding restorePasswordResetState_def using returns_transaction [OF account_tx_return(7)] by (metis not_None_eq surj_pair)
    from 2(2) 2(1) r show ?thesis
      by (cases y) (auto simp: repoC_def called_def catchC_def bindC_def on_cache_def attemptC_def wrapC_def on_store_def
          returnC_def throwC_def split: option.splits)
  qed
qed

text \<open>
  A reset that fails is undone. When the command is answered with an error, the users, the reset
  tokens and the sessions are as they were, unless ending the sessions failed and the undoing
  failed as well, which the answer tells by joining the two errors.
\<close>

theorem ConfirmPasswordReset_failure:
  assumes "ConfirmPasswordReset e cr tick token password w = Some (Inl err, w1)" "world_typed (env_lower e) w"
  shows "(db_get (st_users (w_store w1)) = db_get (st_users (w_store w)) \<and>
      map_of (st_password_tokens (w_store w1)) = map_of (st_password_tokens (w_store w)) \<and> w_cache w1 = w_cache w) \<or>
    (\<exists>e1 e2. err = Joined [e1, e2])"
proof -
  let ?h = "hashToken cr (TrimSpace token)"
  have typed: "store_typed (env_lower e) (w_store w)" using assms(2) by (simp add: world_typed_def)
  consider "w1 = w" | i hashed where "reset_password e (tick + 10) i ?h hashed w = Some (Inl err, w1)"
    using assms(1)
    by (cases "Hash cr tick password") (auto simp: ConfirmPasswordReset_def Let_def bindC_fails called_fails part_fails
        basic_fails call_simps password_tokens_select_def read_store_def hashResetToken_def split: if_splits)
  then show ?thesis
  proof cases
    case 2
    from reset_password_fails [OF 2] consider "w1 = w" | "\<exists>e1 e2. err = Joined [e1, e2]"
      | u tok s where "WithinTransaction e (tick + 10) (ConfirmPasswordReset_tx ?h hashed) (w_store w) = Some (Inr (u, tok), s)"
       "restorePasswordResetState e (tick + 10 + 40) u tok s = Some (Inr (), w_store w1)" "w_cache w1 = w_cache w" by blast
    then show ?thesis
    proof cases
      case r: 3
      from r(1) obtain t where t: "ConfirmPasswordReset_tx ?h hashed e (begin_tx (tick + 10) (w_store w)) = Some (Inr (u, tok), t)"
        "s = tx_store t" by (auto simp: atomic_commit [OF account_tx_atomic(6)])
      from ConfirmPasswordReset_tx_run [OF t(1)] typed have
        tok: "map_of (st_password_tokens (w_store w)) ?h = Some tok"
        and u: "selectUserByID (token_UserID tok) (st_users (w_store w)) = Some u"
        and set: "password_set e u hashed tok (w_store w) s" by (auto simp: t(2))
      have ok: "users_ok (env_lower e) (st_users (w_store w))" "tokens_ok (st_password_tokens (w_store w))"
        using typed by (simp_all add: store_typed_def)
      note row = selectUserByID_row [OF ok(1) u]
      have h: "token_TokenHash tok = ?h"
        using password_tokens.select_hash [OF ok(2), of ?h tok] tok by (simp add: PasswordReset_selectByTokenHash_def)
      from set obtain now now' where
        s: "db_get (st_users s) = (db_get (st_users (w_store w)))(user_ID u \<mapsto> u\<lparr>user_Password := hashed, user_UpdatedAt := now'\<rparr>)"
          "users_ok (env_lower e) (st_users s)"
          "token_replaced (Consume now tok) (st_password_tokens (w_store w)) (st_password_tokens s)"
        unfolding password_set_def by blast
      have "tokens_ok (st_password_tokens s)" using s(3) by (simp add: token_replaced_def)
      from restorePasswordResetState_run [OF r(2) s(2) this] s(1,3) row tok h r(3) show ?thesis
        by (auto simp: token_replaced_def Consume_def)
    qed simp_all
  qed simp
qed

section \<open>The properties at concrete inputs\<close>

lemma demo_hash: "hashToken demo_crypto ''abc'' = ''616263''"
proof -
  have "hex_encode ''abc'' = ''616263''" by code_simp
  then show ?thesis by (simp add: hashToken_def demo_crypto_simps)
qed

lemma demo_secrets: "TrimSpace ''abc'' = ''abc''" "TrimSpace ''new'' = ''new''" "TrimSpace ''carol'' = ''carol''"
  "TrimSpace ''t'' = ''t''"
  by (rule TrimSpace_plain; simp add: plain_byte_def)+

lemma demo_reset_run:
  "\<exists>w1. ConfirmPasswordReset demo_env demo_crypto 0 ''abc'' ''new'' demo_accounts = Some (Inr (), w1)"
proof (rule ConfirmPasswordReset_succeeds [OF demo_faultless demo_accounts_typed])
  show "map_of (st_password_tokens (w_store demo_accounts)) (hashToken demo_crypto (TrimSpace ''abc'')) = Some demo_reset"
    by (simp add: demo_secrets demo_hash demo_accounts_def demo_visitors_def)
  show "selectUserByID (token_UserID demo_reset) (st_users (w_store demo_accounts)) = Some demo_member" "\<not> IsGuest demo_member"
    by (simp_all add: demo_reset_def NewToken_def demo_accounts_def demo_visitors_def selectUserByID_def demo_member_def entity_eval)
qed (simp_all add: demo_secrets demo_crypto_simps IsUsable_def demo_reset_def NewToken_def IsConsumed_def IsExpired_def demo_env_simps)

theorem ConfirmPasswordReset_effect_witness:
  "\<exists>w1 err. ConfirmPasswordReset demo_env demo_crypto 0 ''abc'' ''new'' demo_accounts = Some (Inr (), w1) \<and>
    ConfirmPasswordReset demo_env demo_crypto 0 ''abc'' ''new'' w1 = Some (Inl err, w1)"
proof -
  obtain w1 where r: "ConfirmPasswordReset demo_env demo_crypto 0 ''abc'' ''new'' demo_accounts = Some (Inr (), w1)"
    using demo_reset_run by blast
  from ConfirmPasswordReset_effect [OF r demo_accounts_typed] r show ?thesis by blast
qed

theorem used_reset_token_revived_witness:
  "\<exists>w1 w2 w3. ConfirmPasswordReset demo_env demo_crypto 0 ''abc'' ''new'' demo_accounts = Some (Inr (), w1) \<and>
    MailDelivery_Handle demo_env 20 (PasswordResetRequested (NewMailDelivery 1 2 ''alice@x'' ''abc'' ''616263'' 5000)) w1 =
      Some (Inr (), w2) \<and>
    ConfirmPasswordReset demo_env demo_crypto 40 ''abc'' ''pw'' w2 = Some (Inr (), w3)"
proof -
  let ?m = "NewMailDelivery 1 2 ''alice@x'' ''abc'' ''616263'' 5000"
  obtain w1 where r: "ConfirmPasswordReset demo_env demo_crypto 0 ''abc'' ''new'' demo_accounts = Some (Inr (), w1)"
    using demo_reset_run by blast
  from ConfirmPasswordReset_effect [OF r demo_accounts_typed] obtain u tok hashed where
    tok: "map_of (st_password_tokens (w_store demo_accounts)) (hashToken demo_crypto (TrimSpace ''abc'')) = Some tok"
    and set: "password_set demo_env u hashed tok (w_store demo_accounts) (w_store w1)" by blast
  have tk: "tok = demo_reset" using tok by (simp add: demo_secrets demo_hash demo_accounts_def demo_visitors_def)
  from set obtain now where n: "map_of (st_password_tokens (w_store w1)) ''616263'' = Some (Consume now tok)"
    unfolding password_set_def token_replaced_def by (auto simp: tk demo_reset_def NewToken_def Consume_def)
  have ok1: "tokens_ok (st_password_tokens (w_store w1))"
    using yieldsC_run [OF account_calls_typed(3) [OF refl] r demo_accounts_typed] by (simp add: world_typed_def store_typed_def)
  have sel: "PasswordReset_selectByTokenHash (mail_TokenHash ?m) (st_password_tokens (w_store w1)) = Some (Consume now tok)"
    using n by (simp add: PasswordReset_selectByTokenHash_def NewMailDelivery_def)
  have m: "0 < mail_UserID ?m" "mail_TokenHash ?m \<noteq> []" by (simp_all add: NewMailDelivery_def)
  from sendPasswordReset_run [OF demo_faultless m ok1 sel, of 20] obtain w2 where
    h: "MailDelivery_Handle demo_env 20 (PasswordResetRequested ?m) w1 = Some (Inr (), w2)"
    by (auto simp: MailDelivery_Handle_def)
  have "\<exists>w3. ConfirmPasswordReset demo_env demo_crypto 40 ''abc'' ''pw'' w2 = Some (Inr (), w3)"
  proof (rule used_reset_token_revived [OF r demo_accounts_typed _ m(2,1) demo_faultless h _ demo_faultless refl])
    show "mail_TokenHash ?m = hashToken demo_crypto (TrimSpace ''abc'')"
      by (simp add: NewMailDelivery_def demo_secrets demo_hash)
    show "\<forall>tok. map_of (st_password_tokens (w_store demo_accounts)) (mail_TokenHash ?m) = Some tok \<longrightarrow>
      env_now demo_env (20 + 1) < token_ExpiresAt tok \<and> env_now demo_env (40 + 10) < token_ExpiresAt tok"
      by (simp add: NewMailDelivery_def demo_accounts_def demo_visitors_def demo_reset_def NewToken_def demo_env_simps)
  qed (simp_all add: demo_crypto_simps demo_text)
  with r h show ?thesis by blast
qed

text \<open>The sessions cannot be ended, and the reset is undone.\<close>

definition demo_stuck_env :: env where
  "demo_stuck_env = demo_env\<lparr>env_fault := (\<lambda>l.
     if l = ''delete user sessions for password reset confirm'' then Some (External ''down'' None) else None)\<rparr>"

lemma reset_ends_sessions:
  "ConfirmPasswordReset e cr tick token password w = Some (Inr (), w1) \<Longrightarrow>
    env_fault e ''delete user sessions for password reset confirm'' = None"
  by (cases "Hash cr tick password")
    (auto simp: ConfirmPasswordReset_def Let_def call_simps catchC_run reset_password_def called_fails part_fails attempt_runs
      split: if_splits option.splits)

theorem ConfirmPasswordReset_failure_witness:
  "\<exists>err w1. ConfirmPasswordReset demo_stuck_env demo_crypto 0 ''abc'' ''new'' demo_accounts = Some (Inl err, w1) \<and>
    ((db_get (st_users (w_store w1)) = db_get (st_users (w_store demo_accounts)) \<and> w_cache w1 = w_cache demo_accounts) \<or>
     (\<exists>e1 e2. err = Joined [e1, e2]))"
proof -
  obtain r w1 where r: "ConfirmPasswordReset demo_stuck_env demo_crypto 0 ''abc'' ''new'' demo_accounts = Some (r, w1)"
    using account_commands_return(6) [of demo_stuck_env demo_crypto 0 "''abc''" "''new''"] unfolding returnsC_def
    by (metis not_None_eq surj_pair)
  have "env_fault demo_stuck_env ''delete user sessions for password reset confirm'' \<noteq> None" by (simp add: demo_stuck_env_def)
  with r reset_ends_sessions obtain err where e: "r = Inl err" by (cases r) fastforce+
  have typed: "world_typed (env_lower demo_stuck_env) demo_accounts"
    using demo_accounts_typed by (simp add: demo_stuck_env_def)
  from ConfirmPasswordReset_failure [OF r [unfolded e] typed] r e show ?thesis by blast
qed

lemma demo_store_typed: "store_typed (env_lower demo_env) demo_store"
proof -
  have "user_typed demo_alice" by (simp add: user_typed_def IsEmailVerified_def entity_eval)
  then have "users_typed (st_users demo_store)"
    unfolding users_typed_def using demo_users_typed by (auto simp: demo_store_simps demo_users_def db_get_def split: if_splits)
  then show ?thesis using demo_store_users_ok by (simp add: store_typed_def) (simp add: demo_store_def tokens_ok_def)
qed

theorem sign_up_to_verified_witness:
  "\<exists>s1 u raw. SignUp demo_env demo_crypto 0 ''deleted-user-2'' ''c@x'' ''pw'' demo_store = Some (Inr ''ok'', s1) \<and>
    selectUserByID (user_ID u) (st_users s1) = Some u \<and> \<not> IsEmailVerified u \<and>
    (\<exists>err. ConfirmEmailVerification demo_env demo_crypto 50 raw s1 = Some (Inl err, s1))"
proof -
  obtain s1 where r: "SignUp demo_env demo_crypto 0 ''deleted-user-2'' ''c@x'' ''pw'' demo_store = Some (Inr ''ok'', s1)"
    using demo_sign_up by blast
  have "\<forall>raw. raw \<noteq> [] \<longrightarrow> cr_sha256 demo_crypto raw \<noteq> []" by (simp add: demo_crypto_simps)
  from sign_up_to_verified [OF r demo_store_typed this] r show ?thesis by blast
qed

text \<open>A guest with a session, who signs up.\<close>

definition demo_visit :: world where
  "demo_visit = demo_accounts\<lparr>w_cache := Session_Save 1 4 ''t'' TTLSeconds NewInMemoryCache\<rparr>"

lemma demo_visit_typed: "world_typed (env_lower demo_env) demo_visit"
  using demo_accounts_typed sessions.save_inv [OF cache_ok_new] by (simp add: demo_visit_def world_typed_def)

lemma demo_apply:
  "\<exists>s. applyGuestUpgrade demo_env demo_crypto 10 4 ''carol'' ''c@x'' ''hpw'' demo_visitors = Some (Inr demo_guest, s)"
  apply (simp add: applyGuestUpgrade_def applyGuestUpgrade_tx_def demo_visitors_def demo_members_def demo_member_def
      demo_guest_def NewGuest_def UpgradeGuest_def dispatch_issued_def account_issue_same selectUserByID_def IsEmailVerified_def
      user_eval demo_visitor_text action_eval entity_eval cong: bindT_eval_cong)
  apply (simp add: event_eval action_eval NewSignupEmailVerificationRequested_def NewMailDelivery_def cong: bindT_eval_cong)
  done

lemma demo_upgrade_run:
  "\<exists>token w1. UpgradeGuestAccount demo_env demo_crypto 0 4 ''t'' ''carol'' ''c@x'' ''pw'' demo_visit = Some (Inr token, w1)"
proof -
  obtain s where a: "applyGuestUpgrade demo_env demo_crypto 10 4 ''carol'' ''c@x'' ''hpw'' demo_visitors = Some (Inr demo_guest, s)"
    using demo_apply by blast
  obtain b c where x: "Session_existsLocked 1001 1002 4 ''t'' (w_cache demo_visit) = (b, c)" by fastforce
  have "session_live (w_cache demo_visit) 1001 4 ''t''"
    using sessions.save_live [OF cache_ok_new, of 1 4 "''t''" TTLSeconds 1001 4 "''t''"] TTL_day
    by (simp add: demo_visit_def jwt_ttl_def second_def)
  then have b: "b" using sessions.exists_answer [OF _ x] demo_visit_typed by (simp add: world_typed_def)
  have tok: "\<exists>token. IdToToken demo_env demo_crypto 3 4 = Inr token" using demo_signs [of 4 3] by simp
  have st: "w_store demo_visit = demo_visitors" by (simp add: demo_visit_def demo_accounts_def)
  from tok obtain token where t: "IdToToken demo_env demo_crypto 3 4 = Inr token" by blast
  let ?w1 = "demo_visit\<lparr>w_cache := c\<rparr>"
  let ?w2 = "?w1\<lparr>w_cache := Session_Save (env_now demo_env 5) 4 token TTLSeconds c\<rparr>"
  let ?w3 = "?w2\<lparr>w_store := s\<rparr>"
  let ?w4 = "?w3\<lparr>w_cache := Session_Delete 4 ''t'' (w_cache ?w2)\<rparr>"
  have 1: "repoC demo_env ''lookup current session for guest upgrade''
      (on_cache (Session_existsLocked (env_now demo_env 1) (env_now demo_env (1 + 1)) 4 ''t'')) demo_visit = Some (Inr True, ?w1)"
    using x b by (simp add: repoC_def called_eval on_cache_def demo_env_simps)
  have 2: "issue_token demo_env demo_crypto (1 + 2) ''issue guest upgrade token'' 4 ?w1 = Some (Inr token, ?w1)"
    using t by (simp add: issue_token_def liftC_def eval_nat_numeral)
  have 3: "session_save demo_env (1 + 4) ''save upgraded session'' 4 token ?w1 = Some (Inr (), ?w2)"
    by (simp add: session_save_def repoC_def called_eval on_cache_def)
  have 4: "on_store (applyGuestUpgrade demo_env demo_crypto (1 + 9) 4 ''carol'' ''c@x'' ''hpw'') ?w2 = Some (Inr demo_guest, ?w3)"
    using a by (simp add: on_store_def st)
  have 5: "session_delete demo_env ''delete current session for guest upgrade'' 4 ''t'' ?w3 = Some (Inr (), ?w4)"
    by (simp add: session_delete_def repoC_def called_eval on_cache_def)
  have "swap_guest_session demo_env demo_crypto 1 4 ''t'' ''carol'' ''c@x'' ''hpw'' demo_visit = Some (Inr token, ?w4)"
    unfolding swap_guest_session_def
    by (simp only: bindC_eval catchC_eval 1 2 3 4 5 ensureC_def returnC_def option.case prod.case sum.case not_True_eq_False if_False)
  then show ?thesis
    by (simp add: UpgradeGuestAccount_def Let_def demo_secrets demo_text demo_crypto_simps)
qed

theorem UpgradeGuestAccount_effect_witness:
  "\<exists>token w1 u v. UpgradeGuestAccount demo_env demo_crypto 0 4 ''t'' ''carol'' ''c@x'' ''pw'' demo_visit = Some (Inr token, w1) \<and>
    IsGuest u \<and> \<not> IsGuest v \<and> guest_upgraded demo_env demo_crypto u v (w_store demo_visit) (w_store w1)"
proof -
  obtain token w1 where r: "UpgradeGuestAccount demo_env demo_crypto 0 4 ''t'' ''carol'' ''c@x'' ''pw'' demo_visit = Some (Inr token, w1)"
    using demo_upgrade_run by blast
  from UpgradeGuestAccount_effect [OF r demo_visit_typed] r show ?thesis by blast
qed

theorem UpgradeGuestAccount_failure_witness:
  "\<exists>err w1. UpgradeGuestAccount demo_env demo_crypto 0 4 [] ''carol'' ''c@x'' ''pw'' demo_visit = Some (Inl err, w1) \<and>
    db_get (st_users (w_store w1)) = db_get (st_users (w_store demo_visit))"
proof -
  have r: "UpgradeGuestAccount demo_env demo_crypto 0 4 [] ''carol'' ''c@x'' ''pw'' demo_visit =
      Some (Inl (Sentinel ErrInvalidInput), demo_visit)"
    by (simp add: UpgradeGuestAccount_def Let_def throwC_def TrimSpace_plain)
  from UpgradeGuestAccount_failure [OF r demo_visit_typed] r show ?thesis by auto
qed

end
