(* ===== verification/UpkeepRules.thy ===== *)
theory UpkeepRules
  imports AccountTypes
begin

text \<open>
  What the clean-up of guests and the administration of dead messages do. A clean-up only removes
  guests that are due and have left nothing behind; requeueing and discarding touch exactly one
  message, and only a dead one.
\<close>

section \<open>The question to the sessions\<close>

lemma exists_live_answer:
  assumes "exists_live clk keys c = (b, c')" "\<forall>n. clk n \<le> at"
  shows "\<not> b \<Longrightarrow> key \<in> set keys \<Longrightarrow> cached_at c at key = None" "cached_at c' at key = cached_at c at key"
proof -
  have "(\<not> b \<longrightarrow> key \<in> set keys \<longrightarrow> cached_at c at key = None) \<and> cached_at c' at key = cached_at c at key"
    using assms
  proof (induction keys arbitrary: clk c)
    case (Cons k keys)
    have clk: "\<forall>n. clk (Suc n) \<le> at" "clk 0 \<le> at" using Cons.prems(2) by simp_all
    show ?case
    proof (cases "map_of (cache_store c) k")
      case None
      with Cons.prems(1) have "exists_live (\<lambda>n. clk (Suc n)) keys c = (b, c')" by simp
      from Cons.IH [OF this clk(1)] None show ?thesis by (auto simp: cached_at_def)
    next
      case (Some entry)
      show ?thesis
      proof (cases "expired (clk 0) entry")
        case True
        with Some Cons.prems(1) have "exists_live (\<lambda>n. clk (Suc n)) keys (deleteLocked k c) = (b, c')" by simp
        note IH = Cons.IH [OF this clk(1)]
        have "expired at entry" using True clk(2) by (auto simp: expired_def)
        then have "cached_at c at k = None" using Some by (simp add: cached_at_def)
        with IH show ?thesis by (auto simp: cached_at_delete split: if_splits)
      next
        case False
        with Some Cons.prems(1) show ?thesis by auto
      qed
    qed
  qed simp
  then show "\<not> b \<Longrightarrow> key \<in> set keys \<Longrightarrow> cached_at c at key = None" "cached_at c' at key = cached_at c at key"
    by blast+
qed

lemma existsByUser_answer:
  assumes "cache_ok c" "Session_existsByUserLocked clk i c = (b, c')" "\<forall>n. clk n \<le> at"
  shows "\<not> b \<Longrightarrow> \<not> session_live c at i t" "session_live c' at v s \<longleftrightarrow> session_live c at v s"
proof -
  have suffix: "has_suffix (sessionCachePrefix i) '':''"
    by (auto simp: has_suffix_iff sessionCachePrefix_def)
  then have x: "exists_live clk (keysForIndexedPrefixLocked (sessionCachePrefix i) c) c = (b, c')"
    using assms(2) by (simp add: Session_existsByUserLocked_def ExistsByPrefix_def)
  have keys: "set (keysForIndexedPrefixLocked (sessionCachePrefix i) c) =
      {key \<in> stored c. has_prefix key (sessionCachePrefix i)}"
    using assms(1) suffix by (simp add: cache_ok_def indexed_def)
  show "session_live c' at v s \<longleftrightarrow> session_live c at v s"
    using exists_live_answer(2) [OF x assms(3)] by (simp add: session_live_def)
  assume b: "\<not> b"
  show "\<not> session_live c at i t"
  proof
    assume l: "session_live c at i t"
    then have "sessionCacheKey i t \<in> stored c"
      by (auto simp: session_live_def cached_at_def stored_def split: option.splits dest: map_of_SomeD intro: rev_image_eqI)
    then have "cached_at c at (sessionCacheKey i t) = None"
      using exists_live_answer(1) [OF x assms(3) b] keys by simp
    with l show False by (simp add: session_live_def)
  qed
qed

section \<open>One guest\<close>

definition left_nothing :: "int \<Rightarrow> store \<Rightarrow> bool" where
  "left_nothing i s \<longleftrightarrow> \<not> Post_ExistsByAuthorID i (st_posts s) \<and> \<not> Comment_ExistsByAuthorID i (st_comments s) \<and>
     \<not> Reaction_ExistsByUserID i (st_reactions s) \<and> \<not> ExistsByReporterUserID i (st_reports s)"

lemma cleanupGuest_tx_run:
  assumes "cleanupGuest_tx i b e t = Some (Inr d, t')" "users_ok (env_lower e) (st_users (tx_store t))"
  shows "if d then \<not> b \<and> left_nothing i (tx_store t) \<and>
      (\<exists>u. selectUserByID i (st_users (tx_store t)) = Some u \<and> IsGuest u \<and>
        user_replaced e (User_SoftDelete (env_now e (tx_tick t)) u) (tx_store t) (tx_store t'))
    else tx_store t' = tx_store t"
proof (cases "selectUserByID i (st_users (tx_store t))")
  case None
  with assms(1) show ?thesis by (auto simp: cleanupGuest_tx_def userTx_SelectUserByID_def tx_simps)
next
  case (Some u)
  note row = selectUserByID_row [OF assms(2) Some]
  have enter: "enter_part snap get f e t1 = Some (Inr x, t2) \<longleftrightarrow> snap t1 = None \<and> x = f (get (tx_store t1)) \<and> t2 = t1"
    for snap :: "tx \<Rightarrow> 'st option" and get :: "store \<Rightarrow> 'r" and f and x :: bool and t1 t2
    by (auto simp: enter_part_def)
  show ?thesis
  proof (cases d)
    case True
    with assms(1) Some have "\<not> b" "left_nothing i (tx_store t)" "IsGuest u"
      and w: "userTx_Update (User_SoftDelete (env_now e (tx_tick t)) u) e (t\<lparr>tx_tick := Suc (tx_tick t)\<rparr>) = Some (Inr (), t')"
      by (auto simp: cleanupGuest_tx_def userTx_SelectUserByID_def postTx_ExistsByAuthorID_def
          commentTx_ExistsByAuthorID_def reactionTx_ExistsByUserID_def reportTx_ExistsByReporterUserID_def tx_simps enter
          left_nothing_def split: if_splits)
    moreover have "user_replaced e (User_SoftDelete (env_now e (tx_tick t)) u) (tx_store t) (tx_store t')"
      using userTx_Update_run [OF w] assms(2) row by (simp add: User_SoftDelete_def)
    ultimately show ?thesis using True Some by auto
  next
    case False
    with assms(1) Some show ?thesis
      by (auto simp: cleanupGuest_tx_def userTx_SelectUserByID_def postTx_ExistsByAuthorID_def
          commentTx_ExistsByAuthorID_def reactionTx_ExistsByUserID_def reportTx_ExistsByReporterUserID_def tx_simps enter
          split: if_splits)
  qed
qed

section \<open>A round of the clean-up\<close>

text \<open>
  \<open>gone\<close> are the guests that left between \<open>w\<close> and \<open>w'\<close>; nothing else happened.
\<close>

definition guests_gone :: "env \<Rightarrow> int set \<Rightarrow> world \<Rightarrow> world \<Rightarrow> bool" where
  "guests_gone e gone w w' \<longleftrightarrow> finite gone \<and>
     (\<forall>i. i \<notin> gone \<longrightarrow> db_get (st_users (w_store w')) i = db_get (st_users (w_store w)) i) \<and>
     (\<forall>i \<in> gone. left_nothing i (w_store w) \<and>
        (\<exists>u at. selectUserByID i (st_users (w_store w)) = Some u \<and> IsGuest u \<and>
           db_get (st_users (w_store w')) i = Some (User_SoftDelete at u)) \<and>
        (\<forall>at t. (\<forall>k. env_now e k \<le> at) \<longrightarrow> (i, t) \<notin> sessions_at w at)) \<and>
     (w_store w')\<lparr>st_users := st_users (w_store w)\<rparr> = w_store w \<and> w_sent w' = w_sent w \<and>
     (\<forall>at. (\<forall>k. env_now e k \<le> at) \<longrightarrow> sessions_at w' at = sessions_at w at)"

lemma guests_gone_none: "guests_gone e {} w w"
  by (simp add: guests_gone_def)

lemma guests_gone_again:
  assumes "guests_gone e gone1 w w1" "guests_gone e gone2 w1 w2"
  shows "guests_gone e (gone1 \<union> gone2) w w2 \<and> gone1 \<inter> gone2 = {}"
proof -
  have s1: "(w_store w1)\<lparr>st_users := st_users (w_store w)\<rparr> = w_store w"
    and s2: "(w_store w2)\<lparr>st_users := st_users (w_store w1)\<rparr> = w_store w1"
    using assms by (simp_all add: guests_gone_def)
  have none_left: "left_nothing i (w_store w1) = left_nothing i (w_store w)" for i
    using arg_cong [OF s1, of st_posts] arg_cong [OF s1, of st_comments] arg_cong [OF s1, of st_reactions]
      arg_cong [OF s1, of st_reports] by (simp add: left_nothing_def)
  have left: "selectUserByID i (st_users (w_store w1)) = None" if "i \<in> gone1" for i
    using assms(1) that by (auto simp: guests_gone_def selectUserByID_def User_SoftDelete_def IsDeleted_def)
  have disj: "gone1 \<inter> gone2 = {}"
    using left assms(2) by (fastforce simp: guests_gone_def)
  have same: "selectUserByID i (st_users (w_store w1)) = selectUserByID i (st_users (w_store w))" if "i \<notin> gone1" for i
    using assms(1) that by (simp add: guests_gone_def selectUserByID_def)
  have frame: "(w_store w2)\<lparr>st_users := st_users (w_store w)\<rparr> = w_store w"
    using s1 s2 by (cases "w_store w"; cases "w_store w1"; cases "w_store w2") simp
  have one: "left_nothing i (w_store w) \<and>
        (\<exists>u at. selectUserByID i (st_users (w_store w)) = Some u \<and> IsGuest u \<and>
           db_get (st_users (w_store w2)) i = Some (User_SoftDelete at u)) \<and>
        (\<forall>at t. (\<forall>k. env_now e k \<le> at) \<longrightarrow> (i, t) \<notin> sessions_at w at)" if "i \<in> gone1 \<union> gone2" for i
  proof (cases "i \<in> gone1")
    case True
    then have "db_get (st_users (w_store w2)) i = db_get (st_users (w_store w1)) i"
      using assms(2) disj by (auto simp: guests_gone_def)
    with assms(1) True show ?thesis by (simp add: guests_gone_def)
  next
    case False
    with that have "i \<in> gone2" by simp
    with assms(2) have g: "left_nothing i (w_store w1)"
        "\<exists>u at. selectUserByID i (st_users (w_store w1)) = Some u \<and> IsGuest u \<and>
           db_get (st_users (w_store w2)) i = Some (User_SoftDelete at u)"
        "\<forall>at t. (\<forall>k. env_now e k \<le> at) \<longrightarrow> (i, t) \<notin> sessions_at w1 at" by (simp_all add: guests_gone_def)
    have l: "\<forall>at. (\<forall>k. env_now e k \<le> at) \<longrightarrow> sessions_at w1 at = sessions_at w at"
      using assms(1) by (simp add: guests_gone_def)
    show ?thesis using g(1) [unfolded none_left] g(2) [unfolded same [OF False]] g(3) l by blast
  qed
  have others: "\<forall>i. i \<notin> gone1 \<union> gone2 \<longrightarrow> db_get (st_users (w_store w2)) i = db_get (st_users (w_store w)) i"
    "finite (gone1 \<union> gone2)" "w_sent w2 = w_sent w"
    "\<forall>at. (\<forall>k. env_now e k \<le> at) \<longrightarrow> sessions_at w2 at = sessions_at w at"
    using assms by (simp_all add: guests_gone_def)
  show ?thesis unfolding guests_gone_def using disj frame one others by blast
qed

lemma cleanupGuest_run:
  assumes "cleanupGuest e tick i w = Some (Inr d, w')" "world_typed (env_lower e) w"
  shows "guests_gone e (if d then {i} else {}) w w'"
proof -
  have ok: "users_ok (env_lower e) (st_users (w_store w))" "cache_ok (w_cache w)"
    using assms(2) by (simp_all add: world_typed_def store_typed_def)
  obtain b c where x: "Session_existsByUserLocked (\<lambda>n. env_now e (tick + n)) i (w_cache w) = (b, c)" by fastforce
  define w0 where "w0 = (if sessions_asked e i (w_store w) then w\<lparr>w_cache := c\<rparr> else w)"
  have w0: "w_store w0 = w_store w" "w_sent w0 = w_sent w" by (simp_all add: w0_def)
  have live: "sessions_at w0 at = sessions_at w at" if "\<forall>k. env_now e k \<le> at" for at
    using existsByUser_answer(2) [OF ok(2) x, of at] that by (simp add: w0_def sessions_at_def)
  from assms(1) x have "on_store (WithinTransaction e tick (cleanupGuest_tx i b)) w0 = Some (Inr d, w')"
    by (simp add: cleanupGuest_def w0_def)
  then obtain t where t: "cleanupGuest_tx i b e (begin_tx tick (w_store w)) = Some (Inr d, t)" "w' = w0\<lparr>w_store := tx_store t\<rparr>"
    by (auto simp: on_store_run w0 atomic_commit [OF cleanupGuest_tx_atomic])
  note r = cleanupGuest_tx_run [OF t(1)]
  show ?thesis
  proof (cases d)
    case True
    with r ok(1) obtain u now where u: "\<not> b" "left_nothing i (w_store w)" "selectUserByID i (st_users (w_store w)) = Some u"
      "IsGuest u" "user_replaced e (User_SoftDelete now u) (w_store w) (tx_store t)" by auto
    have id: "user_ID u = i" using selectUserByID_row(3) [OF ok(1) u(3)] by simp
    have "(i, tk) \<notin> sessions_at w at" if "\<forall>k. env_now e k \<le> at" for at tk
      using existsByUser_answer(1) [OF ok(2) x _ u(1), of at tk] that by (simp add: sessions_at_def)
    with True u id live show ?thesis
      by (simp add: guests_gone_def t(2) user_replaced_def User_SoftDelete_def w0 sessions_at_store(1) exI)
  next
    case False
    with r ok(1) live show ?thesis by (simp add: guests_gone_def t(2) w0)
  qed
qed

lemma resultC_run:
  "resultC m w = Some (Inr r, w') \<longleftrightarrow> m w = Some (r, w')" "resultC m w = Some (Inl err, w') \<longleftrightarrow> False"
  by (auto simp: resultC_def catchC_def bindC_def returnC_def split: option.splits sum.splits)

lemma cleanupGuest_fails:
  assumes "cleanupGuest e tick i w = Some (Inl err, w')" "world_typed (env_lower e) w"
  shows "guests_gone e {} w w'"
proof -
  have ok: "cache_ok (w_cache w)" using assms(2) by (simp add: world_typed_def)
  obtain b c where x: "Session_existsByUserLocked (\<lambda>n. env_now e (tick + n)) i (w_cache w) = (b, c)" by fastforce
  define w0 where "w0 = (if sessions_asked e i (w_store w) then w\<lparr>w_cache := c\<rparr> else w)"
  have w0: "w_store w0 = w_store w" "w_sent w0 = w_sent w" by (simp_all add: w0_def)
  have live: "sessions_at w0 at = sessions_at w at" if "\<forall>k. env_now e k \<le> at" for at
    using existsByUser_answer(2) [OF ok x, of at] that by (simp add: w0_def sessions_at_def)
  from assms(1) x obtain s where s: "WithinTransaction e tick (cleanupGuest_tx i b) (w_store w) = Some (Inl err, s)"
    "w' = w0\<lparr>w_store := s\<rparr>" by (auto simp: cleanupGuest_def w0_def on_store_run split: if_splits)
  from atomic_rollback [OF cleanupGuest_tx_atomic s(1)] live show ?thesis by (simp add: guests_gone_def s(2) w0)
qed

lemma cleanup_items_run:
  "cleanup_items e tick items n w = Some (Inr (m, oerr), w') \<Longrightarrow> world_typed (env_lower e) w \<Longrightarrow>
    \<exists>gone. guests_gone e gone w w' \<and> m = n + int (card gone) \<and> gone \<subseteq> user_ID ` set items"
proof (induction items arbitrary: tick n w)
  case Nil
  then show ?case by (intro exI [of _ "{}"]) (simp add: returnC_def guests_gone_none)
next
  case (Cons item items)
  show ?case
  proof (cases "env_ctx e")
    case (Some err)
    with Cons.prems(1) show ?thesis by (intro exI [of _ "{}"]) (simp add: guests_gone_none returnC_def)
  next
    case None
    with Cons.prems(1) obtain r w1 where c: "cleanupGuest e tick (user_ID item) w = Some (r, w1)"
      and rest: "(case r of Inl err \<Rightarrow> returnC (n, Some err)
        | Inr d \<Rightarrow> cleanup_items e (tick + 10) items (if d then n + 1 else n)) w1 = Some (Inr (m, oerr), w')"
      by (auto simp: bindC_run resultC_run)
    show ?thesis
    proof (cases r)
      case (Inl err)
      with rest cleanupGuest_fails [OF c [unfolded Inl] Cons.prems(2)] show ?thesis by (intro exI [of _ "{}"]) (simp add: returnC_def)
    next
      case (Inr d)
      let ?g = "if d then {user_ID item} else {}"
      have typed: "world_typed (env_lower e) w1"
        by (rule yieldsC_run [OF cleanupGuest_typed [OF refl] c Cons.prems(2)])
      note one = cleanupGuest_run [OF c [unfolded Inr] Cons.prems(2)]
      from rest Inr have "cleanup_items e (tick + 10) items (if d then n + 1 else n) w1 = Some (Inr (m, oerr), w')" by simp
      from Cons.IH [OF this typed] obtain gone where
        g: "guests_gone e gone w1 w'" "m = (if d then n + 1 else n) + int (card gone)" "gone \<subseteq> user_ID ` set items" by blast
      from guests_gone_again [OF one g(1)] have a: "guests_gone e (?g \<union> gone) w w'" "?g \<inter> gone = {}" by simp_all
      have "finite gone" using g(1) by (simp add: guests_gone_def)
      then have "card (?g \<union> gone) = (if d then 1 else 0) + card gone" using a(2) by (auto simp: card_insert_if)
      with a(1) g(2,3) show ?thesis by (intro exI [of _ "?g \<union> gone"]) auto
    qed
  qed
qed

text \<open>
  C35: a round of the clean-up removes at most \<open>limit\<close> users, answers how many, and touches nobody else.
  Each of them was a guest that was due, without a live session, and without a post, comment,
  reaction or report of its own; this holds also for a round that a failure cuts short.
\<close>

theorem CleanupGuests_effect:
  assumes "CleanupGuests e tick now pendingGrace activeUnusedGrace limit w = Some (Inr (n, oerr), w')"
    and "world_typed (env_lower e) w"
  shows "\<exists>gone. guests_gone e gone w w' \<and> n = int (card gone) \<and> int (card gone) \<le> max 0 limit \<and>
    (\<forall>i \<in> gone. \<exists>u. selectUserByID i (st_users (w_store w)) = Some u \<and>
       guestEligibleForCleanup u now pendingGrace activeUnusedGrace)"
proof -
  let ?items = "selectGuestCleanupCandidates now pendingGrace activeUnusedGrace limit (st_users (w_store w))"
  have ok: "users_ok (env_lower e) (st_users (w_store w))" using assms(2) by (simp add: world_typed_def store_typed_def)
  consider "w' = w" "n = 0" | "cleanup_items e tick ?items 0 w = Some (Inr (n, oerr), w')"
    using assms(1)
    by (auto simp: CleanupGuests_def call_simps resultC_run repoC_def called_def on_store_def read_store_def returnC_def
        split: if_splits option.splits sum.splits)
  then show ?thesis
  proof cases
    case 1
    then show ?thesis by (intro exI [of _ "{}"]) (simp add: guests_gone_none)
  next
    case 2
    from cleanup_items_run [OF this assms(2)] obtain gone where
      g: "guests_gone e gone w w'" "n = int (card gone)" "gone \<subseteq> user_ID ` set ?items" by auto
    have "card gone \<le> length ?items"
      using g(3) surj_card_le [of "set ?items" gone user_ID] card_length [of ?items] by simp
    moreover have "int (length ?items) \<le> max 0 limit"
      by (auto simp: selectGuestCleanupCandidates_def take_int_def)
    moreover have "\<exists>u. selectUserByID i (st_users (w_store w)) = Some u \<and>
       guestEligibleForCleanup u now pendingGrace activeUnusedGrace" if "i \<in> gone" for i
    proof -
      from that g(3) obtain u where u: "u \<in> set ?items" "i = user_ID u" by auto
      note c = guest_candidates [OF u(1)]
      then have "db_get (st_users (w_store w)) i = Some u"
        using ok u(2) by (auto simp: users_ok_def db_ok_def db_rows_def db_get_def)
      with c show ?thesis by (simp add: selectUserByID_def)
    qed
    ultimately show ?thesis using g(1,2) by (intro exI [of _ gone]) auto
  qed
qed

text \<open>The guest of the example has been active for long enough.\<close>

lemma demo_cleanup_candidates:
  "selectGuestCleanupCandidates 900 10 10 5 (st_users demo_visitors) = [demo_guest]"
  by (simp add: selectGuestCleanupCandidates_def demo_visitors_def demo_member_def demo_guest_def NewGuest_def entity_eval
      guestEligibleForCleanup_def Let_def take_int_def)

lemma demo_exists_answer:
  "snap t = None \<Longrightarrow> wrapped label (enter_part snap get f) demo_env t = Some (Inr (f (get (tx_store t))), t)"
  by (simp add: wrapped_eval enter_part_def)

lemma demo_left_nothing:
  "\<not> Post_ExistsByAuthorID 4 (st_posts demo_visitors)" "\<not> Comment_ExistsByAuthorID 4 (st_comments demo_visitors)"
  "\<not> Reaction_ExistsByUserID 4 (st_reactions demo_visitors)" "\<not> ExistsByReporterUserID 4 (st_reports demo_visitors)"
  by (simp_all add: demo_visitors_def demo_members_def demo_store_simps entity_eval Post_ExistsByAuthorID_def
      Comment_ExistsByAuthorID_def Reaction_ExistsByUserID_def ExistsByReporterUserID_def)

lemma demo_cleanup_guest:
  "\<exists>s. WithinTransaction demo_env 0 (cleanupGuest_tx 4 False) demo_visitors = Some (Inr True, s)"
proof -
  let ?t = "begin_tx 0 demo_visitors"
  have u: "wrapped label (userTx_SelectUserByID 4) demo_env ?t = Some (Inr (Some demo_guest), ?t)" for label
    by (simp add: wrapped_eval userTx_SelectUserByID_def selectUserByID_def read_part_def begin_tx_def demo_visitors_def
        demo_guest_def NewGuest_def entity_eval)
  have g: "IsGuest demo_guest" by (simp add: demo_guest_def NewGuest_def IsGuest_def)
  have s: "tx_store ?t = demo_visitors" "snap_posts ?t = None" "snap_comments ?t = None" "snap_reactions ?t = None"
    "snap_reports ?t = None" by (simp_all add: begin_tx_def)
  have "\<exists>t1. wrapped l (userTx_Update (User_SoftDelete 1000 demo_guest)) demo_env (?t\<lparr>tx_tick := 1\<rparr>) = Some (Inr (), t1)" for l
    by (simp add: user_eval demo_visitors_def demo_member_def demo_guest_def NewGuest_def User_SoftDelete_def
        demo_visitor_text action_eval entity_eval cong: bindT_eval_cong)
  then obtain t1 where w: "wrapped ''soft delete guest for cleanup'' (userTx_Update (User_SoftDelete 1000 demo_guest)) demo_env
      (?t\<lparr>tx_tick := 1\<rparr>) = Some (Inr (), t1)" by blast
  have r: "wrapped l (returnT b) demo_env t = Some (Inr b, t)" for l and b :: bool and t by (simp add: wrapped_eval returnT_def)
  have n: "nowT demo_env ?t = Some (Inr 1000, ?t\<lparr>tx_tick := 1\<rparr>)"
    by (simp add: nowT_def begin_tx_def demo_env_simps)
  have "cleanupGuest_tx 4 False demo_env ?t = Some (Inr True, t1)"
    unfolding cleanupGuest_tx_def postTx_ExistsByAuthorID_def commentTx_ExistsByAuthorID_def
      reactionTx_ExistsByUserID_def reportTx_ExistsByReporterUserID_def
    by (simp add: bindT_eval u g demo_exists_answer s demo_left_nothing n w [simplified] r) (simp add: returnT_def)
  then show ?thesis by (auto simp: atomic_commit [OF cleanupGuest_tx_atomic] demo_env_simps)
qed

theorem CleanupGuests_effect_witness:
  "\<exists>w gone. CleanupGuests demo_env 0 900 10 10 5 demo_accounts = Some (Inr (1, None), w) \<and>
    guests_gone demo_env gone demo_accounts w \<and> card gone = 1"
proof -
  obtain s where s: "WithinTransaction demo_env 0 (cleanupGuest_tx 4 False) demo_visitors = Some (Inr True, s)"
    using demo_cleanup_guest by blast
  have c: "Session_existsByUserLocked clk 4 NewInMemoryCache = (False, NewInMemoryCache)" for clk
    by (simp add: Session_existsByUserLocked_def ExistsByPrefix_def NewInMemoryCache_def keysForIndexedPrefixLocked_def)
  let ?w = "demo_accounts\<lparr>w_store := s\<rparr>"
  have g: "cleanupGuest demo_env 0 4 demo_accounts = Some (Inr True, ?w)"
    using s by (simp add: cleanupGuest_def c demo_accounts_def on_store_def)
  have i: "user_ID demo_guest = 4" by (simp add: demo_guest_def)
  have r: "CleanupGuests demo_env 0 900 10 10 5 demo_accounts = Some (Inr (1, None), ?w)"
    using demo_cleanup_candidates g
    by (simp add: CleanupGuests_def resultC_def bindC_eval catchC_eval repoC_def called_eval on_store_def read_store_def
        returnC_def demo_accounts_def demo_env_simps i)
  from CleanupGuests_effect [OF r demo_accounts_typed] obtain gone where
    "guests_gone demo_env gone demo_accounts ?w" "1 = int (card gone)" by blast
  with r show ?thesis by (intro exI [of _ ?w] exI [of _ gone]) simp
qed

end
