(* ===== verification/FeedCursors.thy ===== *)
theory FeedCursors
  imports Models Pagination "HOL-Library.Word"
begin

text \<open>
  How the lists of posts are ordered and how a page of a ranking or a search names the next one:
  the sort orders and windows of \<open>port/post_ranking_repository.go\<close>, the conversions of what a
  caller asks for (\<open>service/post/query_handler.go\<close>), and the two cursors \<open>feed_cursor.go\<close> and
  \<open>search_cursor.go\<close>. A score is a \<open>float64\<close>; the cursors carry its 64 bits, so it is modelled by
  them. The cursors are read back as they were written, and none of them is a cursor of a list by
  key.
\<close>

section \<open>Hexadecimal numbers\<close>

text \<open>\<open>%x\<close> and \<open>strconv.ParseUint(s, 16, 64)\<close>.\<close>

fun hex_digits :: "nat \<Rightarrow> string" where
  "hex_digits n = (if n < 16 then [hex_digit n] else hex_digits (n div 16) @ [hex_digit (n mod 16)])"

declare hex_digits.simps [simp del]

definition hex_value :: "char \<Rightarrow> nat option" where
  "hex_value c =
     (let n = of_char c :: nat in
      if 48 \<le> n \<and> n \<le> 57 then Some (n - 48)
      else if 97 \<le> n \<and> n \<le> 102 then Some (n - 87)
      else if 65 \<le> n \<and> n \<le> 70 then Some (n - 55)
      else None)"

fun parse_hex :: "nat \<Rightarrow> string \<Rightarrow> nat option" where
  "parse_hex acc [] = Some acc"
| "parse_hex acc (c # cs) =
     (case hex_value c of None \<Rightarrow> None | Some d \<Rightarrow> parse_hex (acc * 16 + d) cs)"

type_synonym float64 = "64 word"

definition FormatHex :: "float64 \<Rightarrow> string" where
  "FormatHex w = hex_digits (unat w)"

definition ParseHex :: "string \<Rightarrow> float64 option" where
  "ParseHex s =
     (if s = [] then None
      else case parse_hex 0 s of
             None \<Rightarrow> None
           | Some n \<Rightarrow> if 2 ^ 64 \<le> n then None else Some (of_nat n))"

lemma hex_value_digit [simp]: "d < 16 \<Longrightarrow> hex_value (hex_digit d) = Some d"
  by (auto simp: hex_value_def hex_digit_def)

lemma parse_hex_append:
  "parse_hex acc (xs @ ys) = Option.bind (parse_hex acc xs) (\<lambda>a. parse_hex a ys)"
  by (induction xs arbitrary: acc) (auto split: option.splits)

lemma parse_hex_digits: "parse_hex 0 (hex_digits n) = Some n"
proof (induction n rule: hex_digits.induct)
  case (1 n)
  then show ?case by (cases "n < 16") (auto simp: hex_digits.simps [of n] parse_hex_append)
qed

lemma hex_digits_not_empty: "hex_digits n \<noteq> []"
  by (subst hex_digits.simps) simp

lemma ParseHex_FormatHex: "ParseHex (FormatHex w) = Some w"
  using unsigned_less [of w, where 'a = nat] by (simp add: ParseHex_def FormatHex_def parse_hex_digits hex_digits_not_empty)

lemma parse_hex_chars: "parse_hex acc s = Some n \<Longrightarrow> c \<in> set s \<Longrightarrow> hex_value c \<noteq> None"
  by (induction s arbitrary: acc) (auto split: option.splits)

section \<open>Splitting what was joined\<close>

text \<open>A separator of one byte that is in no part.\<close>

lemma cut_at_none: "c \<notin> set s \<Longrightarrow> cut_at s [c] = None"
  by (induction s) (auto simp: has_prefix_def)

lemma cut_at_first: "c \<notin> set a \<Longrightarrow> cut_at (a @ c # b) [c] = Some (a, b)"
  by (induction a) (auto simp: has_prefix_def)

lemma split_parts_join:
  "\<forall>s \<in> set (p # ps). c \<notin> set s \<Longrightarrow> length (Join (p # ps) [c]) \<le> n \<Longrightarrow> split_parts n (Join (p # ps) [c]) [c] = p # ps"
proof (induction ps arbitrary: p n)
  case Nil
  then show ?case by (cases n) (simp_all add: cut_at_none)
next
  case (Cons q ps)
  then obtain k where n: "n = Suc k" by (cases n) auto
  with Cons show ?case by (simp add: cut_at_first)
qed

lemma Split_Join: "\<forall>s \<in> set ps. c \<notin> set s \<Longrightarrow> ps \<noteq> [] \<Longrightarrow> Split (Join ps [c]) [c] = ps"
  by (cases ps) (simp_all add: Split_def split_parts_join)

section \<open>Sort orders and windows\<close>

definition PostFeedSortHot :: string where "PostFeedSortHot = ''hot''"
definition PostFeedSortBest :: string where "PostFeedSortBest = ''best''"
definition PostFeedSortLatest :: string where "PostFeedSortLatest = ''latest''"
definition PostFeedSortTop :: string where "PostFeedSortTop = ''top''"

lemmas feed_sorts = PostFeedSortHot_def PostFeedSortBest_def PostFeedSortLatest_def PostFeedSortTop_def

definition PostRankingWindow24h :: string where "PostRankingWindow24h = ''24h''"
definition PostRankingWindow7d :: string where "PostRankingWindow7d = ''7d''"
definition PostRankingWindow30d :: string where "PostRankingWindow30d = ''30d''"
definition PostRankingWindowAll :: string where "PostRankingWindowAll = ''all''"

lemmas feed_windows = PostRankingWindow24h_def PostRankingWindow7d_def PostRankingWindow30d_def
  PostRankingWindowAll_def

definition searchSortRelevance :: string where "searchSortRelevance = ''relevance''"

definition normalizeTopWindow :: "(string \<Rightarrow> string) \<Rightarrow> string \<Rightarrow> go_error + string" where
  "normalizeTopWindow lower windowValue =
     (let normalized = ToLower lower (TrimSpace windowValue) in
      if normalized = [] then Inr PostRankingWindow7d
      else if normalized \<in> {PostRankingWindow24h, PostRankingWindow7d, PostRankingWindow30d, PostRankingWindowAll}
      then Inr normalized
      else Inl (Sentinel ErrInvalidInput))"

definition normalizeRankingSortWindow ::
  "(string \<Rightarrow> string) \<Rightarrow> string \<Rightarrow> string \<Rightarrow> string \<Rightarrow> bool \<Rightarrow> go_error + (string \<times> string)" where
  "normalizeRankingSortWindow lower sortValue windowValue defaultSort allowBest =
     (let normalized0 = ToLower lower (TrimSpace sortValue);
          normalized = (if normalized0 = [] then defaultSort else normalized0) in
      if normalized = PostFeedSortHot \<or> normalized = PostFeedSortLatest then
        (if TrimSpace windowValue \<noteq> [] then Inl (Sentinel ErrInvalidInput) else Inr (normalized, []))
      else if normalized = PostFeedSortBest then
        (if \<not> allowBest \<or> TrimSpace windowValue \<noteq> [] then Inl (Sentinel ErrInvalidInput)
         else Inr (PostFeedSortBest, []))
      else if normalized = PostFeedSortTop then
        bindE (normalizeTopWindow lower windowValue) (\<lambda>window. Inr (PostFeedSortTop, window))
      else Inl (Sentinel ErrInvalidInput))"

text \<open>The order of a search, the order of its ranking, and the window.\<close>

definition normalizeSearchSortWindow ::
  "(string \<Rightarrow> string) \<Rightarrow> string \<Rightarrow> string \<Rightarrow> go_error + (string \<times> string \<times> string)" where
  "normalizeSearchSortWindow lower sortValue windowValue =
     (let normalized = ToLower lower (TrimSpace sortValue) in
      if normalized = [] then Inr (searchSortRelevance, [], [])
      else if normalized = searchSortRelevance then
        (if TrimSpace windowValue \<noteq> [] then Inl (Sentinel ErrInvalidInput)
         else Inr (searchSortRelevance, [], []))
      else if normalized = PostFeedSortHot \<or> normalized = PostFeedSortLatest then
        (if TrimSpace windowValue \<noteq> [] then Inl (Sentinel ErrInvalidInput)
         else Inr (normalized, normalized, []))
      else if normalized = PostFeedSortTop then
        bindE (normalizeTopWindow lower windowValue) (\<lambda>window. Inr (normalized, PostFeedSortTop, window))
      else Inl (Sentinel ErrInvalidInput))"

definition normalizeSearchQuery :: "(string \<Rightarrow> string) \<Rightarrow> string \<Rightarrow> string" where
  "normalizeSearchQuery lower query = Join (Fields (ToLower lower (TrimSpace query))) '' ''"

section \<open>The cursor of a ranking\<close>

text \<open>\<open>UnixNano\<close>: nanoseconds since 1970, in 64 bits.\<close>

definition UnixNano :: "time \<Rightarrow> int" where
  "UnixNano t = sint (word_of_int (t - 62135596800 * 10 ^ 9) :: 64 word)"

lemma UnixNano_range: "- (2 ^ 63) \<le> UnixNano t" "UnixNano t < 2 ^ 63"
  using sint_range_size [of "word_of_int (t - 62135596800 * 10 ^ 9) :: 64 word"]
  by (simp_all add: UnixNano_def word_size)

record feed_cursor =
  fc_Sort :: string
  fc_Window :: string
  fc_Score :: float64
  fc_PublishedAtUnixNano :: int
  fc_PostID :: int

definition feedCursorPrefix :: string where "feedCursorPrefix = ''v1:''"

definition encodeFeedCursor :: "string \<Rightarrow> string \<Rightarrow> float64 \<Rightarrow> int \<Rightarrow> int \<Rightarrow> string" where
  "encodeFeedCursor sortBy window score publishedAtUnixNano postID =
     EncodeToString (feedCursorPrefix @ sortBy @ '':'' @ window @ '':'' @ FormatHex score @ '':'' @
       FormatInt publishedAtUnixNano @ '':'' @ FormatInt postID)"

definition decodeFeedCursor :: "string \<Rightarrow> string \<Rightarrow> string \<Rightarrow> go_error + feed_cursor option" where
  "decodeFeedCursor sortValue windowValue cursor0 =
     (let cursor = TrimSpace cursor0; invalid = Inl (Sentinel ErrInvalidInput) in
      if cursor = [] then Inr None
      else case DecodeString cursor of
        None \<Rightarrow> invalid
      | Some decoded \<Rightarrow>
          if \<not> has_prefix decoded feedCursorPrefix then invalid
          else case Split (drop (length feedCursorPrefix) decoded) '':'' of
            [sortBy, window, bits, publishedAt, postID0] \<Rightarrow>
              if sortBy \<noteq> sortValue \<or> window \<noteq> windowValue then invalid
              else (case ParseHex bits of None \<Rightarrow> invalid | Some score \<Rightarrow>
                   (case ParseInt publishedAt of None \<Rightarrow> invalid | Some nano \<Rightarrow>
                   (case ParseInt postID0 of None \<Rightarrow> invalid | Some postID \<Rightarrow>
                      if postID < 0 then invalid
                      else Inr (Some \<lparr>fc_Sort = sortBy, fc_Window = window, fc_Score = score,
                             fc_PublishedAtUnixNano = nano, fc_PostID = postID\<rparr>))))
          | _ \<Rightarrow> invalid)"

section \<open>The cursor of a search\<close>

record search_cursor =
  sc_Sort :: string
  sc_Window :: string
  sc_Score :: float64
  sc_PostID :: int

definition searchCursorPrefix :: string where "searchCursorPrefix = ''v1:''"

definition encodeSearchCursor :: "string \<Rightarrow> string \<Rightarrow> float64 \<Rightarrow> int \<Rightarrow> string" where
  "encodeSearchCursor sortValue window score postID =
     EncodeToString (searchCursorPrefix @ sortValue @ '':'' @ window @ '':'' @ FormatHex score @ '':'' @ FormatInt postID)"

definition decodeSearchCursor :: "string \<Rightarrow> string \<Rightarrow> string \<Rightarrow> go_error + search_cursor option" where
  "decodeSearchCursor sortValue windowValue cursor0 =
     (let cursor = TrimSpace cursor0; invalid = Inl (Sentinel ErrInvalidInput) in
      if cursor = [] then Inr None
      else case DecodeString cursor of
        None \<Rightarrow> invalid
      | Some decoded \<Rightarrow>
          if \<not> has_prefix decoded searchCursorPrefix then invalid
          else case Split (drop (length searchCursorPrefix) decoded) '':'' of
            [sortBy, window, bits, postID0] \<Rightarrow>
              if sortBy \<noteq> sortValue \<or> window \<noteq> windowValue then invalid
              else (case ParseHex bits of None \<Rightarrow> invalid | Some score \<Rightarrow>
                   (case ParseInt postID0 of None \<Rightarrow> invalid | Some postID \<Rightarrow>
                      if postID < 0 then invalid
                      else Inr (Some \<lparr>sc_Sort = sortValue, sc_Window = windowValue, sc_Score = score,
                             sc_PostID = postID\<rparr>)))
          | _ \<Rightarrow> invalid)"

section \<open>Reading a cursor back\<close>

lemma no_colon:
  "CHR '':'' \<notin> set (FormatInt i)" "CHR '':'' \<notin> set (FormatHex w)"
  using FormatInt_chars [of "CHR '':''" i] parse_hex_chars [OF parse_hex_digits, of "CHR '':''" "unat w"]
  by (auto simp: FormatHex_def hex_value_def)

lemma encoded_text:
  "TrimSpace (EncodeToString s) = EncodeToString s"
  by (rule TrimSpace_plain, rule EncodeToString_plain)

lemma colons: "a @ '':'' @ b @ '':'' @ c @ '':'' @ d @ '':'' @ x = Join [a, b, c, d, x] '':''"
  "a @ '':'' @ b @ '':'' @ c @ '':'' @ d = Join [a, b, c, d] '':''"
  by simp_all

lemma decode_encode_feed:
  assumes "CHR '':'' \<notin> set sortBy" "CHR '':'' \<notin> set window" "- (2 ^ 63) \<le> nano" "nano < 2 ^ 63" "0 \<le> postID" "postID < 2 ^ 63"
  shows "decodeFeedCursor sortBy window (encodeFeedCursor sortBy window score nano postID) =
    Inr (Some \<lparr>fc_Sort = sortBy, fc_Window = window, fc_Score = score, fc_PublishedAtUnixNano = nano, fc_PostID = postID\<rparr>)"
proof -
  let ?parts = "[sortBy, window, FormatHex score, FormatInt nano, FormatInt postID]"
  have split: "Split (Join ?parts '':'') '':'' = ?parts"
    by (rule Split_Join) (use assms(1,2) no_colon in auto)
  have joined: "feedCursorPrefix @ sortBy @ '':'' @ window @ '':'' @ FormatHex score @ '':'' @ FormatInt nano @ '':'' @ FormatInt postID
      = feedCursorPrefix @ Join ?parts '':''" by simp
  show ?thesis
    unfolding decodeFeedCursor_def encodeFeedCursor_def joined Let_def
    using assms(3-6) split
    by (simp add: encoded_text EncodeToString_Nil_iff DecodeString_EncodeToString feedCursorPrefix_def ParseHex_FormatHex
        ParseInt_FormatInt has_prefix_def del: Join.simps)
qed

lemma decode_encode_search:
  assumes "CHR '':'' \<notin> set sortBy" "CHR '':'' \<notin> set window" "0 \<le> postID" "postID < 2 ^ 63"
  shows "decodeSearchCursor sortBy window (encodeSearchCursor sortBy window score postID) =
    Inr (Some \<lparr>sc_Sort = sortBy, sc_Window = window, sc_Score = score, sc_PostID = postID\<rparr>)"
proof -
  let ?parts = "[sortBy, window, FormatHex score, FormatInt postID]"
  have split: "Split (Join ?parts '':'') '':'' = ?parts"
    by (rule Split_Join) (use assms(1,2) no_colon in auto)
  have joined: "searchCursorPrefix @ sortBy @ '':'' @ window @ '':'' @ FormatHex score @ '':'' @ FormatInt postID
      = searchCursorPrefix @ Join ?parts '':''" by simp
  show ?thesis
    unfolding decodeSearchCursor_def encodeSearchCursor_def joined Let_def
    using assms(3,4) split
    by (simp add: encoded_text EncodeToString_Nil_iff DecodeString_EncodeToString searchCursorPrefix_def ParseHex_FormatHex
        ParseInt_FormatInt has_prefix_def del: Join.simps)
qed

text \<open>A cursor of a ranking is refused where a cursor of a list by key is expected.\<close>

lemma ParseInt_colon: "CHR '':'' \<in> set s \<Longrightarrow> ParseInt s = None"
proof -
  assume colon: "CHR '':'' \<in> set s"
  have "parse_digits 0 t = None" if "CHR '':'' \<in> set t" for t
    using parse_digits_digits [of 0 t] that by (cases "parse_digits 0 t") force+
  moreover have "CHR '':'' \<in> set (if s \<noteq> [] \<and> (hd s = CHR ''-'' \<or> hd s = CHR ''+'') then tl s else s)"
    using colon by (cases s) auto
  ultimately show ?thesis by (auto simp: ParseInt_def Let_def)
qed

lemma feed_cursor_not_opaque:
  "DecodeOpaqueCursor (encodeFeedCursor sortBy window score nano postID) = Inl (Sentinel ErrInvalidInput)"
  by (simp add: DecodeOpaqueCursor_def encodeFeedCursor_def Let_def encoded_text EncodeToString_Nil_iff
      DecodeString_EncodeToString feedCursorPrefix_def cursorPrefix_def ParseInt_colon)

lemma sort_range:
  assumes "normalizeRankingSortWindow lower sortValue windowValue defaultSort allowBest = Inr (sortBy, window)"
  shows "sortBy \<in> {''hot'', ''latest'', ''best'', ''top''}" "window \<in> {[], ''24h'', ''7d'', ''30d'', ''all''}"
  using assms
  by (auto simp: normalizeRankingSortWindow_def normalizeTopWindow_def Let_def feed_sorts feed_windows bindE_eq_Inr
      dest: sym split: if_splits)

lemma sort_no_colon:
  assumes "normalizeRankingSortWindow lower sortValue windowValue defaultSort allowBest = Inr (sortBy, window)"
  shows "CHR '':'' \<notin> set sortBy" "CHR '':'' \<notin> set window"
  using sort_range [OF assms] by auto

end
