(* ===== verification/PostDetail.thy ===== *)
theory PostDetail
  imports PostParts FeedCursors Invalidation
begin

text \<open>
  \<open>service/post/detail_query.go\<close>, the comments it shows (\<open>service/comment/projection.go\<close>) and the
  conversion of posts in \<open>service/post/query_handler.go\<close>: what a reader is shown of posts. All of it
  reads the repositories and changes nothing, so a query is a function of the store; an error is a
  value.
\<close>

section \<open>Names of what is shown\<close>

text \<open>The first occurrences of each element, in order.\<close>

definition first_seen :: "'a list \<Rightarrow> 'a list" where
  "first_seen xs = fold (\<lambda>x out. if x \<in> set out then out else out @ [x]) xs []"

lemma first_seen_fold:
  "set (fold (\<lambda>x out. if x \<in> set out then out else out @ [x]) xs out) = set out \<union> set xs"
  by (induction xs arbitrary: out) auto

lemma set_first_seen [simp]: "set (first_seen xs) = set xs"
  by (simp add: first_seen_def first_seen_fold)

definition commentParentUUIDsByID :: "env \<Rightarrow> comment list \<Rightarrow> store \<Rightarrow> go_error + (int \<times> string) list" where
  "commentParentUUIDsByID e comments s =
     (let parentIDs = first_seen (List.map_filter comment_ParentID comments) in
      if parentIDs = [] then Inr []
      else read_repo e ''select comment uuids by ids including deleted''
             (selectCommentUUIDsByIDsIncludingDeleted parentIDs (st_comments s)))"

definition commentsFromEntities ::
  "env \<Rightarrow> string \<Rightarrow> comment list \<Rightarrow> store \<Rightarrow> go_error + comment_model list" where
  "commentsFromEntities e postUUID comments s =
     bindE (UserUUIDsForComments e comments s) (\<lambda>authorUUIDs.
     bindE (commentParentUUIDsByID e comments s) (\<lambda>parentUUIDs.
       mapE (commentModelFromEntity postUUID authorUUIDs parentUUIDs) comments))"

definition postsFromEntities :: "env \<Rightarrow> post list \<Rightarrow> store \<Rightarrow> go_error + post_model list" where
  "postsFromEntities e posts s =
     bindE (UserUUIDsForPosts e posts s) (\<lambda>authorUUIDs.
     bindE (read_repo e ''select boards by ids for posts''
              (selectBoardsByIDs (first_seen (map post_BoardID posts)) (st_boards s))) (\<lambda>boardsByID.
       mapE (\<lambda>post.
         case map_of boardsByID (post_BoardID post) of
           None \<Rightarrow> Inl (WrapRepository ''select boards by ids including missing''
                          (Some (External ''post board not found'' None)))
         | Some board \<Rightarrow> postModelFromEntity (board_UUID board) authorUUIDs post) posts))"

definition reactionsFromEntitiesWithTargetUUID ::
  "reaction list \<Rightarrow> string \<Rightarrow> (int \<times> string) list \<Rightarrow> go_error + reaction_model list" where
  "reactionsFromEntitiesWithTargetUUID reactions targetUUID userUUIDs =
     mapE (reactionModelFromEntity targetUUID userUUIDs) reactions"

definition sortTagsByName :: "tag list \<Rightarrow> tag list" where
  "sortTagsByName tags = sort_key tag_Name tags"

definition tagsForPost :: "env \<Rightarrow> int \<Rightarrow> store \<Rightarrow> go_error + tag_model list" where
  "tagsForPost e postID s =
     bindE (read_repo e ''select active tags by post id'' (selectActiveByPostID postID (st_post_tags s))) (\<lambda>relations.
       if relations = [] then Inr []
       else
         bindE (read_repo e ''select tags by ids'' (Tag_selectByIDs (map pt_TagID relations) (st_tags s))) (\<lambda>tags.
           Inr (TagsFromEntities (sortTagsByName tags))))"

section \<open>The page of a post\<close>

definition commentDefaultLimit :: int where "commentDefaultLimit = 10"

definition visibleCommentsForDetail ::
  "env \<Rightarrow> int \<Rightarrow> int \<Rightarrow> store \<Rightarrow> go_error + (comment list \<times> bool)" where
  "visibleCommentsForDetail e postID limit s =
     bindE (read_repo e ''select visible comments for post detail''
              (selectVisibleComments postID (limit + 1) 0 (st_comments s))) (\<lambda>comments.
       if 0 < limit \<and> limit < int (length comments) then Inr (take (nat limit) comments, True)
       else Inr (comments, False))"

definition userUUIDsForPostDetail ::
  "env \<Rightarrow> post \<Rightarrow> comment list \<Rightarrow> reaction list \<Rightarrow> (int \<times> reaction list) list \<Rightarrow> store \<Rightarrow>
    go_error + (int \<times> string) list" where
  "userUUIDsForPostDetail e post comments postReactions commentReactionsByID s =
     UserUUIDsByIDs e
       (post_AuthorID post # map comment_AuthorID comments @ map reaction_UserID postReactions @
        concat (map (map reaction_UserID \<circ> snd) commentReactionsByID)) s"

definition comment_detail_of ::
  "post \<Rightarrow> (int \<times> string) list \<Rightarrow> (int \<times> string) list \<Rightarrow> (int \<times> reaction list) list \<Rightarrow> comment \<Rightarrow>
    go_error + comment_detail" where
  "comment_detail_of post userUUIDs parentUUIDs commentReactionsByID comment =
     bindE (commentModelFromEntity (post_UUID post) userUUIDs parentUUIDs comment) (\<lambda>commentModel.
     bindE (reactionsFromEntitiesWithTargetUUID
              (case map_of commentReactionsByID (comment_ID comment) of Some rs \<Rightarrow> rs | None \<Rightarrow> [])
              (comment_UUID comment) userUUIDs) (\<lambda>commentReactionModels.
       Inr \<lparr>cd_Comment = commentModel, cd_Reactions = commentReactionModels, cd_MyReactionType = None\<rparr>))"

definition found :: "'a option \<Rightarrow> sentinel \<Rightarrow> go_error + 'a" where
  "found oa err = (case oa of None \<Rightarrow> Inl (Sentinel err) | Some a \<Rightarrow> Inr a)"

definition detail_Load :: "env \<Rightarrow> int \<Rightarrow> store \<Rightarrow> go_error + post_detail" where
  "detail_Load e i s =
     bindE (read_repo e ''select post by id for post detail'' (selectPostByID i (st_posts s))) (\<lambda>op.
     bindE (found op ErrPostNotFound) (\<lambda>post.
     bindE (read_repo e ''select board by id for post detail'' (selectBoardByID (post_BoardID post) (st_boards s))) (\<lambda>ob.
     bindE (found ob ErrBoardNotFound) (\<lambda>board.
     bindE (read_repo e ''select post reactions for post detail''
              (getByTarget (post_ID post) ReactionTargetPost (st_reactions s))) (\<lambda>postReactions.
     bindE (visibleCommentsForDetail e (post_ID post) commentDefaultLimit s) (\<lambda>(comments, commentsHasMore).
     bindE (read_repo e ''select comment reactions for post detail''
              (getByTargets (map comment_ID comments) ReactionTargetComment (st_reactions s))) (\<lambda>commentReactionsByID.
     bindE (userUUIDsForPostDetail e post comments postReactions commentReactionsByID s) (\<lambda>userUUIDs.
     bindE (commentParentUUIDsByID e comments s) (\<lambda>parentUUIDs.
     bindE (mapE (comment_detail_of post userUUIDs parentUUIDs commentReactionsByID) comments) (\<lambda>commentDetails.
     bindE (postModelFromEntity (board_UUID board) userUUIDs post) (\<lambda>postModel.
     bindE (tagsForPost e (post_ID post) s) (\<lambda>tags.
     bindE (read_repo e ''select attachments for post detail''
              (Attachment_selectByPostID (post_ID post) (st_attachments s))) (\<lambda>attachmentEntities.
     bindE (reactionsFromEntitiesWithTargetUUID postReactions (post_UUID post) userUUIDs) (\<lambda>reactionModels.
       Inr \<lparr>pd_Post = postModel, pd_Tags = tags,
            pd_Attachments = attachmentsFromEntities (post_UUID post) attachmentEntities,
            pd_Comments = commentDetails, pd_CommentsHasMore = commentsHasMore,
            pd_Reactions = reactionModels, pd_MyReactionType = None\<rparr>))))))))))))))"

definition LoadDraft :: "env \<Rightarrow> int \<Rightarrow> store \<Rightarrow> go_error + post_detail" where
  "LoadDraft e i s =
     bindE (read_repo e ''select draft post by id for post detail''
              (selectPostByIDIncludingUnpublished i (st_posts s))) (\<lambda>op.
     bindE (found op ErrPostNotFound) (\<lambda>post.
     bindE (read_repo e ''select board by id for draft post detail'' (selectBoardByID (post_BoardID post) (st_boards s))) (\<lambda>ob.
     bindE (found ob ErrBoardNotFound) (\<lambda>board.
     bindE (UserUUIDsByIDs e [post_AuthorID post] s) (\<lambda>userUUIDs.
     bindE (postModelFromEntity (board_UUID board) userUUIDs post) (\<lambda>postModel.
     bindE (tagsForPost e (post_ID post) s) (\<lambda>tags.
     bindE (read_repo e ''select attachments for draft post detail''
              (Attachment_selectByPostID (post_ID post) (st_attachments s))) (\<lambda>attachmentEntities.
       Inr \<lparr>pd_Post = postModel, pd_Tags = tags,
            pd_Attachments = attachmentsFromEntities (post_UUID post) attachmentEntities,
            pd_Comments = [], pd_CommentsHasMore = False, pd_Reactions = [],
            pd_MyReactionType = None\<rparr>))))))))"

section \<open>What the viewer reacted with\<close>

definition reactionTypeForViewer :: "reaction_model list \<Rightarrow> int \<Rightarrow> ReactionType option" where
  "reactionTypeForViewer reactions viewerUserID =
     (if viewerUserID \<le> 0 then None
      else map_option rm_Type (find (\<lambda>r. rm_UserID r = viewerUserID) reactions))"

definition clonePostDetailForViewer :: "post_detail \<Rightarrow> int \<Rightarrow> post_detail" where
  "clonePostDetailForViewer detail viewerUserID =
     detail
       \<lparr>pd_MyReactionType := reactionTypeForViewer (pd_Reactions detail) viewerUserID,
        pd_Comments := map (\<lambda>c. c\<lparr>cd_MyReactionType := reactionTypeForViewer (cd_Reactions c) viewerUserID\<rparr>)
                         (pd_Comments detail)\<rparr>"

text \<open>The viewer a request carries; an id that is not positive is none.\<close>

definition ViewerUserIDFromContext :: "int option \<Rightarrow> int option" where
  "ViewerUserIDFromContext ctx =
     (case ctx of None \<Rightarrow> None | Some userID \<Rightarrow> if userID \<le> 0 then None else Some userID)"

end
