(* ===== verification/SvcPostQuery.thy ===== *)
theory SvcPostQuery
  imports PostDetail
begin

text \<open>
  \<open>service/post/query_handler.go\<close>. The handler is the record \<open>post_query_handler\<close>; the repositories it
  reads are the store, but for the ranking and the search, which are interfaces: each is a function
  of the number of the call, for two calls of one query may find another state (a search also of the
  number of the loop that calls it). A query may be
  answered by the cache. The loops that skip posts on hidden boards are \<open>partial_function\<close>s, so that a
  query that does not end has the value \<open>None\<close>, as has one that dereferences a missing post.
\<close>

section \<open>The handler\<close>

record search_result =
  sr_Post :: "post option"
  sr_Score :: float64

record feed_result =
  fr_PostID :: int
  fr_BoardID :: int
  fr_Score :: float64
  fr_PublishedAt :: time

record post_query_handler =
  pq_ListTTLSeconds :: int
  pq_DetailTTLSeconds :: int
  pq_search :: "(nat \<Rightarrow> nat \<Rightarrow> string \<Rightarrow> int \<Rightarrow> search_cursor option \<Rightarrow> go_error + search_result list) option"
  pq_ranking :: "(nat \<Rightarrow> string \<Rightarrow> string \<Rightarrow> int \<Rightarrow> feed_cursor option \<Rightarrow> go_error + feed_result list) option"

section \<open>Queries that may not end\<close>

type_synonym 'a answer = "(go_error + 'a) option"

definition bindQ :: "'a answer \<Rightarrow> ('a \<Rightarrow> 'b answer) \<Rightarrow> 'b answer" where
  "bindQ m f = (case m of None \<Rightarrow> None | Some (Inl err) \<Rightarrow> Some (Inl err) | Some (Inr a) \<Rightarrow> f a)"

definition returnQ :: "'a \<Rightarrow> 'a answer" where
  "returnQ a = Some (Inr a)"

lemma bindQ_simps [simp]:
  "bindQ None f = None" "bindQ (Some (Inl err)) f = Some (Inl err)" "bindQ (Some (Inr a)) f = f a"
  "bindQ (returnQ a) f = f a"
  by (simp_all add: bindQ_def returnQ_def)

lemma bindQ_run: "bindQ m f = Some (Inr b) \<longleftrightarrow> (\<exists>a. m = Some (Inr a) \<and> f a = Some (Inr b))"
  by (simp add: bindQ_def split: option.split sum.split)

lemma bindQ_returns: "m \<noteq> None \<Longrightarrow> (\<And>a. m = Some (Inr a) \<Longrightarrow> f a \<noteq> None) \<Longrightarrow> bindQ m f \<noteq> None"
  by (auto simp: bindQ_def split: option.split sum.split)

lemma bindQ_mono [partial_function_mono]:
  assumes "\<And>a. mono_option (\<lambda>f. B f a)"
  shows "mono_option (\<lambda>f. bindQ m (B f))"
proof (cases m)
  case (Some r)
  then show ?thesis using assms by (cases r) (simp_all add: option.const_mono)
qed (simp add: option.const_mono)

text \<open>
  A list of posts through the cache. When the cache has it, nothing is loaded. The answer is the
  list the cache holds, so \<open>list.TotalCount = n\<close> also changes the entry.
\<close>

fun as_post_list :: "cached \<Rightarrow> post_list option" where
  "as_post_list (CachedPostList l) = Some l"
| "as_post_list _ = None"

fun as_post_detail :: "cached \<Rightarrow> post_detail option" where
  "as_post_detail (CachedPostDetail d) = Some d"
| "as_post_detail _ = None"

definition in_cache :: "(nat \<Rightarrow> time) \<Rightarrow> string \<Rightarrow> 'v cache \<Rightarrow> bool" where
  "in_cache clk cacheKey c =
     (case Cache_Get (clk 0) (clk 1) cacheKey c of
        (Some _, _) \<Rightarrow> True
      | (None, c1) \<Rightarrow> fst (Cache_Get (clk 2) (clk 3) cacheKey c1) \<noteq> None)"

definition cached_posts ::
  "post_query_handler \<Rightarrow> (nat \<Rightarrow> time) \<Rightarrow> string \<Rightarrow> string \<Rightarrow> string \<Rightarrow> post_list answer \<Rightarrow>
    cached cache \<Rightarrow> ((go_error + post_list) \<times> cached cache) option" where
  "cached_posts h clk cacheKey op payload loaded c =
     (let ask = (\<lambda>l. through_cache clk cacheKey (pq_ListTTLSeconds h) op payload as_post_list l c) in
      if in_cache clk cacheKey c then Some (ask (Inl (Sentinel ErrInternalServerError)))
      else case loaded of
             None \<Rightarrow> None
           | Some (Inl err) \<Rightarrow> Some (ask (Inl err))
           | Some (Inr l) \<Rightarrow> Some (ask (Inr (CachedPostList l))))"

definition set_entry :: "string \<Rightarrow> 'v \<Rightarrow> 'v cache \<Rightarrow> 'v cache" where
  "set_entry cacheKey v c =
     c\<lparr>cache_store := map (\<lambda>(k, entry). (k, if k = cacheKey then entry\<lparr>entry_value := v\<rparr> else entry)) (cache_store c)\<rparr>"

text \<open>The count is taken after the list was read; \<open>counted\<close> may fail or not end.\<close>

definition with_total ::
  "string \<Rightarrow> ((go_error + post_list) \<times> cached cache) option \<Rightarrow> int answer \<Rightarrow>
    ((go_error + post_list) \<times> cached cache) option" where
  "with_total cacheKey listed counted =
     (case listed of
        None \<Rightarrow> None
      | Some (Inl err, c) \<Rightarrow> Some (Inl err, c)
      | Some (Inr l, c) \<Rightarrow>
          (case counted of
             None \<Rightarrow> None
           | Some (Inl err) \<Rightarrow> Some (Inl err, c)
           | Some (Inr totalCount) \<Rightarrow>
               let l' = l\<lparr>pl_TotalCount := totalCount\<rparr>
               in Some (Inr l', set_entry cacheKey (CachedPostList l') c)))"

section \<open>Boards that are hidden\<close>

definition resolveBoardVisibility ::
  "env \<Rightarrow> post list \<Rightarrow> (int \<times> bool) list \<Rightarrow> store \<Rightarrow> go_error + (int \<times> bool) list" where
  "resolveBoardVisibility e posts boardVisibility s =
     (let uncachedBoardIDs = first_seen (filter (\<lambda>i. map_of boardVisibility i = None) (map post_BoardID posts)) in
      if uncachedBoardIDs = [] then Inr boardVisibility
      else
        bindE (read_repo e ''select boards by ids for tag post visibility''
                 (selectBoardsByIDs uncachedBoardIDs (st_boards s))) (\<lambda>boardsByID.
          Inr (fold (\<lambda>boardID. put_row boardID (EnsureBoardVisible (map_of boardsByID boardID) None = None))
                 uncachedBoardIDs boardVisibility)))"

definition shown :: "(int \<times> bool) list \<Rightarrow> int \<Rightarrow> bool" where
  "shown boardVisibility boardID \<longleftrightarrow> map_of boardVisibility boardID = Some True"

text \<open>Appending what is shown until there is enough.\<close>

fun collect :: "int \<Rightarrow> ('a \<Rightarrow> bool) \<Rightarrow> 'a list \<Rightarrow> 'a list \<Rightarrow> 'a list" where
  "collect fetchLimit keep [] out = out"
| "collect fetchLimit keep (x # xs) out =
     (if keep x
      then let out' = out @ [x] in if fetchLimit \<le> int (length out') then out' else collect fetchLimit keep xs out'
      else collect fetchLimit keep xs out)"

text \<open>The page of what was collected: one more than the limit tells that there are more.\<close>

definition post_page ::
  "env \<Rightarrow> int \<Rightarrow> string \<Rightarrow> 'a list \<Rightarrow> ('a \<Rightarrow> post) \<Rightarrow> ('a \<Rightarrow> string) \<Rightarrow> store \<Rightarrow> go_error + post_list" where
  "post_page e limit cursorValue results post_of next_of s =
     (let hasMore = (limit < int (length results));
          kept = (if hasMore then take (nat limit) results else results);
          nextCursor = (if hasMore \<and> kept \<noteq> [] then Some (next_of (last kept)) else None) in
      bindE (postsFromEntities e (map post_of kept) s) (\<lambda>postModels.
        Inr \<lparr>pl_Posts = postModels, pl_Limit = limit, pl_Cursor = cursorValue, pl_TotalCount = 0,
             pl_HasMore = hasMore, pl_NextCursor = nextCursor\<rparr>))"

section \<open>The posts of a tag\<close>

partial_function (option) tag_posts_loop ::
  "env \<Rightarrow> store \<Rightarrow> string \<Rightarrow> int \<Rightarrow> int \<Rightarrow> post list \<Rightarrow> (int \<times> bool) list \<Rightarrow> (go_error + post list) option" where
  "tag_posts_loop e s normalizedName fetchLimit cursor visiblePosts boardVisibility =
     (if fetchLimit \<le> int (length visiblePosts) then returnQ visiblePosts
      else
        bindQ (Some (read_repo e ''select published posts by tag name''
                 (selectPublishedPostsByTagName (st_tags s) (st_post_tags s) normalizedName fetchLimit cursor
                    (st_posts s)))) (\<lambda>publishedPosts.
          if publishedPosts = [] then returnQ visiblePosts
          else
            bindQ (Some (resolveBoardVisibility e publishedPosts boardVisibility s)) (\<lambda>boardVisibility'.
              let visiblePosts' = collect fetchLimit (\<lambda>p. shown boardVisibility' (post_BoardID p)) publishedPosts visiblePosts in
              if fetchLimit \<le> int (length visiblePosts') \<or> int (length publishedPosts) < fetchLimit
              then returnQ visiblePosts'
              else tag_posts_loop e s normalizedName fetchLimit (post_ID (last publishedPosts)) visiblePosts'
                     boardVisibility')))"

definition loadPublishedPostsByTag ::
  "env \<Rightarrow> string \<Rightarrow> int \<Rightarrow> int \<Rightarrow> string \<Rightarrow> store \<Rightarrow> post_list answer" where
  "loadPublishedPostsByTag e normalizedName limit lastID cursorValue s =
     bindQ (Some (read_repo e ''select tag by name for post list'' (Tag_selectByName normalizedName (st_tags s)))) (\<lambda>ot.
     bindQ (Some (found ot ErrTagNotFound)) (\<lambda>_.
     bindQ (Some (CursorFetchLimit limit)) (\<lambda>fetchLimit.
     bindQ (tag_posts_loop e s normalizedName fetchLimit lastID [] []) (\<lambda>visiblePosts.
       Some (post_page e limit cursorValue visiblePosts id (\<lambda>p. EncodeOpaqueCursor (post_ID p)) s)))))"

section \<open>The posts a search finds\<close>

text \<open>A result without a post is skipped, but the boards of all posts are asked for first.\<close>

definition the_posts :: "search_result list \<Rightarrow> post list option" where
  "the_posts results =
     (if list_all (\<lambda>r. sr_Post r \<noteq> None) results then Some (map (the \<circ> sr_Post) results) else None)"

definition next_search :: "search_result \<Rightarrow> search_cursor option" where
  "next_search r =
     map_option (\<lambda>p. \<lparr>sc_Sort = searchSortRelevance, sc_Window = [], sc_Score = sr_Score r, sc_PostID = post_ID p\<rparr>)
       (sr_Post r)"

partial_function (option) search_loop ::
  "env \<Rightarrow> store \<Rightarrow> (nat \<Rightarrow> string \<Rightarrow> int \<Rightarrow> search_cursor option \<Rightarrow> go_error + search_result list) \<Rightarrow> nat \<Rightarrow>
    string \<Rightarrow> int \<Rightarrow> search_cursor option \<Rightarrow> search_result list \<Rightarrow> (int \<times> bool) list \<Rightarrow>
    (go_error + search_result list) option" where
  "search_loop e s search k normalizedQuery fetchLimit currentCursor visibleResults boardVisibility =
     (if fetchLimit \<le> int (length visibleResults) then returnQ visibleResults
      else
        bindQ (Some (case search k normalizedQuery fetchLimit currentCursor of
                       Inl err \<Rightarrow> Inl (WrapRepository ''search published posts'' (Some err)) | Inr r \<Rightarrow> Inr r)) (\<lambda>results.
          if results = [] then returnQ visibleResults
          else
            bindQ (map_option Inr (the_posts results)) (\<lambda>posts.
            bindQ (Some (resolveBoardVisibility e posts boardVisibility s)) (\<lambda>boardVisibility'.
              let visibleResults' =
                    collect fetchLimit (\<lambda>r. case sr_Post r of None \<Rightarrow> False | Some p \<Rightarrow> shown boardVisibility' (post_BoardID p))
                      results visibleResults in
              if fetchLimit \<le> int (length visibleResults') \<or> int (length results) < fetchLimit
              then returnQ visibleResults'
              else
                bindQ (map_option Inr (next_search (last results))) (\<lambda>nextCursor.
                  search_loop e s search (Suc k) normalizedQuery fetchLimit (Some nextCursor) visibleResults'
                    boardVisibility')))))"

definition loadPublishedPostsBySearch ::
  "post_query_handler \<Rightarrow> env \<Rightarrow> string \<Rightarrow> int \<Rightarrow> search_cursor option \<Rightarrow> string \<Rightarrow> store \<Rightarrow> post_list answer" where
  "loadPublishedPostsBySearch h e normalizedQuery limit cursor cursorValue s =
     (case pq_search h of
        None \<Rightarrow> Some (Inl (WrapRepository ''search posts''
                  (Some (External ''post search repository is not configured'' None))))
      | Some search \<Rightarrow>
          bindQ (Some (CursorFetchLimit limit)) (\<lambda>fetchLimit.
          bindQ (search_loop e s (search 0) 0 normalizedQuery fetchLimit cursor [] []) (\<lambda>visibleResults.
            Some (post_page e limit cursorValue visibleResults (the \<circ> sr_Post)
                    (\<lambda>r. encodeSearchCursor searchSortRelevance [] (sr_Score r) (post_ID (the (sr_Post r)))) s))))"

text \<open>All posts that match; the cursor needs the post of the last result.\<close>

partial_function (option) search_match_loop ::
  "(nat \<Rightarrow> string \<Rightarrow> int \<Rightarrow> search_cursor option \<Rightarrow> go_error + search_result list) \<Rightarrow> nat \<Rightarrow>
    string \<Rightarrow> search_cursor option \<Rightarrow> int list \<Rightarrow> (go_error + int list) option" where
  "search_match_loop search k normalizedQuery currentCursor matches =
     bindQ (Some (case search k normalizedQuery MaxPageLimit currentCursor of
                    Inl err \<Rightarrow> Inl (WrapRepository ''search published posts'' (Some err)) | Inr r \<Rightarrow> Inr r)) (\<lambda>results.
       if results = [] then returnQ matches
       else
         bindQ (map_option Inr (next_search (last results))) (\<lambda>nextCursor.
           let matches' = fold List.insert (map post_ID (List.map_filter sr_Post results)) matches in
           if int (length results) < MaxPageLimit then returnQ matches'
           else search_match_loop search (Suc k) normalizedQuery (Some nextCursor) matches'))"

definition loadSearchMatchSet :: "post_query_handler \<Rightarrow> nat \<Rightarrow> string \<Rightarrow> int list answer" where
  "loadSearchMatchSet h loop normalizedQuery =
     (case pq_search h of
        None \<Rightarrow> Some (Inl (WrapRepository ''search posts''
                  (Some (External ''post search repository is not configured'' None))))
      | Some search \<Rightarrow> search_match_loop (search loop) 0 normalizedQuery None [])"

section \<open>Ranked lists\<close>

definition next_feed :: "string \<Rightarrow> string \<Rightarrow> feed_result \<Rightarrow> feed_cursor" where
  "next_feed sortBy window r =
     \<lparr>fc_Sort = sortBy, fc_Window = window, fc_Score = fr_Score r,
      fc_PublishedAtUnixNano = UnixNano (fr_PublishedAt r), fc_PostID = fr_PostID r\<rparr>"

definition ranked_posts :: "(int \<times> post) list \<Rightarrow> feed_result list \<Rightarrow> (feed_result \<times> post) list" where
  "ranked_posts postsByID results =
     List.map_filter (\<lambda>r. map_option (Pair r) (map_of postsByID (fr_PostID r))) results"

partial_function (option) ranked_loop ::
  "env \<Rightarrow> store \<Rightarrow> (nat \<Rightarrow> string \<Rightarrow> string \<Rightarrow> int \<Rightarrow> feed_cursor option \<Rightarrow> go_error + feed_result list) \<Rightarrow> nat \<Rightarrow>
    string \<Rightarrow> string \<Rightarrow> (post \<Rightarrow> bool) \<Rightarrow> int \<Rightarrow> feed_cursor option \<Rightarrow> (feed_result \<times> post) list \<Rightarrow>
    (int \<times> bool) list \<Rightarrow> (go_error + (feed_result \<times> post) list) option" where
  "ranked_loop e s ranking k sortBy window included fetchLimit currentCursor visible boardVisibility =
     (if fetchLimit \<le> int (length visible) then returnQ visible
      else
        bindQ (Some (case ranking k sortBy window fetchLimit currentCursor of
                       Inl err \<Rightarrow> Inl (WrapRepository ''list post feed'' (Some err)) | Inr r \<Rightarrow> Inr r)) (\<lambda>results.
          if results = [] then returnQ visible
          else
            bindQ (Some (read_repo e ''select posts by ids for feed''
                     (SelectPostsByIDsIncludingUnpublished (first_seen (map fr_PostID results)) (st_posts s)))) (\<lambda>postsByID.
            bindQ (Some (resolveBoardVisibility e
                     (filter (\<lambda>p. post_Status p = PostStatusPublished) (map snd (ranked_posts postsByID results)))
                     boardVisibility s)) (\<lambda>boardVisibility'.
              let visible' = collect fetchLimit (\<lambda>(r, p). shown boardVisibility' (fr_BoardID r) \<and> included p)
                               (ranked_posts postsByID results) visible in
              if fetchLimit \<le> int (length visible') \<or> int (length results) < fetchLimit
              then returnQ visible'
              else ranked_loop e s ranking (Suc k) sortBy window included fetchLimit
                     (Some (next_feed sortBy window (last results))) visible' boardVisibility'))))"

definition loadRankedPosts ::
  "post_query_handler \<Rightarrow> env \<Rightarrow> string \<Rightarrow> string \<Rightarrow> int \<Rightarrow> feed_cursor option \<Rightarrow> string \<Rightarrow> (post \<Rightarrow> bool) \<Rightarrow>
    store \<Rightarrow> post_list answer" where
  "loadRankedPosts h e sortBy window limit cursor cursorValue included s =
     (case pq_ranking h of
        None \<Rightarrow> Some (Inl (WrapRepository ''list post feed''
                  (Some (External ''post ranking repository is not configured'' None))))
      | Some ranking \<Rightarrow>
          bindQ (Some (CursorFetchLimit limit)) (\<lambda>fetchLimit.
          bindQ (ranked_loop e s ranking 0 sortBy window included fetchLimit cursor [] []) (\<lambda>visible.
            Some (post_page e limit cursorValue visible snd
                    (\<lambda>(r, _). encodeFeedCursor sortBy window (fr_Score r) (UnixNano (fr_PublishedAt r)) (fr_PostID r)) s))))"

definition loadFeed ::
  "post_query_handler \<Rightarrow> env \<Rightarrow> string \<Rightarrow> string \<Rightarrow> int \<Rightarrow> feed_cursor option \<Rightarrow> string \<Rightarrow> store \<Rightarrow>
    post_list answer" where
  "loadFeed h e sortBy window limit cursor cursorValue s =
     loadRankedPosts h e sortBy window limit cursor cursorValue (\<lambda>_. True) s"

definition loadRankedSearchPosts ::
  "post_query_handler \<Rightarrow> env \<Rightarrow> string \<Rightarrow> string \<Rightarrow> string \<Rightarrow> int \<Rightarrow> string \<Rightarrow> store \<Rightarrow> post_list answer" where
  "loadRankedSearchPosts h e normalizedQuery sortBy window limit cursorValue s =
     bindQ (loadSearchMatchSet h 1 normalizedQuery) (\<lambda>matchingPostIDs.
     bindQ (Some (decodeFeedCursor sortBy window cursorValue)) (\<lambda>feedCursor.
       loadRankedPosts h e sortBy window limit feedCursor cursorValue (\<lambda>p. post_ID p \<in> set matchingPostIDs) s))"

section \<open>How many there are\<close>

fun count_boards :: "env \<Rightarrow> board list \<Rightarrow> int \<Rightarrow> store \<Rightarrow> go_error + int" where
  "count_boards e [] n s = Inr n"
| "count_boards e (board # boards) n s =
     bindE (read_repo e ''count published posts by board for post feed''
              (CountPublishedPostsByBoardID (board_ID board) (st_posts s))) (\<lambda>count.
       count_boards e boards (n + count) s)"

definition countVisiblePublishedPosts :: "env \<Rightarrow> store \<Rightarrow> go_error + int" where
  "countVisiblePublishedPosts e s =
     bindE (read_repo e ''select visible boards for post feed count''
              (selectBoardList MaxPageLimit 0 (st_boards s))) (\<lambda>boards.
       count_boards e boards 0 s)"

definition countVisiblePostsFromIDs :: "env \<Rightarrow> int list \<Rightarrow> store \<Rightarrow> go_error + int" where
  "countVisiblePostsFromIDs e ids s =
     (if ids = [] then Inr 0
      else
        bindE (read_repo e ''select posts by ids for post list count''
                 (SelectPostsByIDsIncludingUnpublished ids (st_posts s))) (\<lambda>postsByID.
        let posts = filter (\<lambda>p. post_Status p = PostStatusPublished) (row_values postsByID) in
        bindE (resolveBoardVisibility e posts [] s) (\<lambda>boardVisibility.
          Inr (int (length (filter (\<lambda>p. shown boardVisibility (post_BoardID p)) posts))))))"

partial_function (option) tag_ids_loop ::
  "env \<Rightarrow> store \<Rightarrow> int \<Rightarrow> int \<Rightarrow> int list \<Rightarrow> (go_error + int list) option" where
  "tag_ids_loop e s tagID lastID postIDs =
     bindQ (Some (read_repo e ''select active post tags by tag id''
              (selectActiveByTagID tagID MaxPageLimit lastID (st_post_tags s)))) (\<lambda>relations.
       if relations = [] then returnQ postIDs
       else
         let postIDs' = fold List.insert (map pt_PostID relations) postIDs in
         if int (length relations) < MaxPageLimit then returnQ postIDs'
         else tag_ids_loop e s tagID (pt_PostID (last relations)) postIDs')"

definition loadActiveTagPostIDSet :: "env \<Rightarrow> int \<Rightarrow> store \<Rightarrow> int list answer" where
  "loadActiveTagPostIDSet e tagID s = tag_ids_loop e s tagID 0 []"

section \<open>The queries\<close>

type_synonym posts_answer = "((go_error + post_list) \<times> cached cache) option"

definition GetPostsList ::
  "post_query_handler \<Rightarrow> env \<Rightarrow> (nat \<Rightarrow> time) \<Rightarrow> string \<Rightarrow> string \<Rightarrow> string \<Rightarrow> int \<Rightarrow> string \<Rightarrow> store \<Rightarrow>
    cached cache \<Rightarrow> posts_answer" where
  "GetPostsList h e clk boardUUID sortValue windowValue limit cursor s c =
     (case RequirePositiveLimit limit of Some err \<Rightarrow> Some (Inl err, c) | None \<Rightarrow>
     (case DecodeOpaqueCursor cursor of Inl err \<Rightarrow> Some (Inl err, c) | Inr lastID \<Rightarrow>
     (case bindE (read_repo e ''select board by uuid for post list'' (selectBoardByUUID boardUUID (st_boards s)))
             (\<lambda>ob. found ob ErrBoardNotFound) of Inl err \<Rightarrow> Some (Inl err, c) | Inr board \<Rightarrow>
     (case EnsureBoardVisible (Some board) None of Some err \<Rightarrow> Some (Inl err, c) | None \<Rightarrow>
     (case normalizeRankingSortWindow (env_lower e) sortValue windowValue PostFeedSortLatest True of
        Inl err \<Rightarrow> Some (Inl err, c) | Inr (sortBy, window) \<Rightarrow>
        let counted = Some (read_repo e ''count posts by board for post list''
                        (CountPublishedPostsByBoardID (board_ID board) (st_posts s))) in
        if sortBy = PostFeedSortLatest then
          let cacheKey = key_PostList (board_ID board) limit lastID in
          with_total cacheKey
            (cached_posts h clk cacheKey ''load post list cache'' ''decode post list cache payload''
              (Some
                (bindE (read_repo e ''select board by uuid for cached post list'' (selectBoardByUUID boardUUID (st_boards s))) (\<lambda>ob.
                 bindE (found ob ErrBoardNotFound) (\<lambda>currentBoard.
                 bindE (case EnsureBoardVisible (Some currentBoard) None of Some err \<Rightarrow> Inl err | None \<Rightarrow> Inr ()) (\<lambda>_.
                 bindE (CursorFetchLimit limit) (\<lambda>fetchLimit.
                 bindE (LoadCursorListPage limit cursor
                          (read_repo e ''select posts by board''
                             (selectPosts (board_ID currentBoard) fetchLimit lastID (st_posts s))) post_ID) (\<lambda>page.
                 bindE (postsFromEntities e (page_Items page) s) (\<lambda>postModels.
                   Inr \<lparr>pl_Posts = postModels, pl_Limit = limit, pl_Cursor = page_Cursor page, pl_TotalCount = 0,
                        pl_HasMore = page_HasMore page, pl_NextCursor = page_NextCursor page\<rparr>)))))))) c) counted
        else
          (case decodeFeedCursor sortBy window cursor of Inl err \<Rightarrow> Some (Inl err, c) | Inr feedCursor \<Rightarrow>
             let cacheKey = key_RankedPostList (board_ID board) sortBy window limit cursor in
             with_total cacheKey
               (cached_posts h clk cacheKey ''load post list cache'' ''decode post list cache payload''
                 (loadRankedPosts h e sortBy window limit feedCursor cursor
                    (\<lambda>p. post_BoardID p = board_ID board) s) c) counted))))))"

definition GetMyDraftPosts :: "env \<Rightarrow> int \<Rightarrow> int \<Rightarrow> string \<Rightarrow> store \<Rightarrow> go_error + post_list" where
  "GetMyDraftPosts e authorID limit cursor s =
     (case RequirePositiveLimit limit of Some err \<Rightarrow> Inl err | None \<Rightarrow>
      bindE (DecodeOpaqueCursor cursor) (\<lambda>lastID.
      bindE (CursorFetchLimit limit) (\<lambda>fetchLimit.
      bindE (LoadCursorListPage limit cursor
               (read_repo e ''select draft posts by author''
                  (selectDraftPostsByAuthorID authorID fetchLimit lastID (st_posts s))) post_ID) (\<lambda>page.
      bindE (postsFromEntities e (page_Items page) s) (\<lambda>postModels.
      bindE (read_repo e ''count draft posts by author for post list''
               (CountDraftPostsByAuthorID authorID (st_posts s))) (\<lambda>totalCount.
        Inr \<lparr>pl_Posts = postModels, pl_Limit = limit, pl_Cursor = page_Cursor page, pl_TotalCount = totalCount,
             pl_HasMore = page_HasMore page, pl_NextCursor = page_NextCursor page\<rparr>))))))"

text \<open>With the ranking the count is part of what is cached.\<close>

definition counted_list :: "post_list answer \<Rightarrow> int answer \<Rightarrow> post_list answer" where
  "counted_list loaded counted =
     bindQ loaded (\<lambda>l. bindQ counted (\<lambda>totalCount. returnQ (l\<lparr>pl_TotalCount := totalCount\<rparr>)))"

definition GetPostsByTag ::
  "post_query_handler \<Rightarrow> env \<Rightarrow> (nat \<Rightarrow> time) \<Rightarrow> string \<Rightarrow> string \<Rightarrow> string \<Rightarrow> int \<Rightarrow> string \<Rightarrow> store \<Rightarrow>
    cached cache \<Rightarrow> posts_answer" where
  "GetPostsByTag h e clk tagName sortValue windowValue limit cursor s c =
     (case RequirePositiveLimit limit of Some err \<Rightarrow> Some (Inl err, c) | None \<Rightarrow>
     (case DecodeOpaqueCursor cursor of Inl err \<Rightarrow> Some (Inl err, c) | Inr lastID \<Rightarrow>
     (let normalizedName = normalizeTagName (env_lower e) tagName in
      if normalizedName = [] \<or> maxTagLength < length normalizedName then Some (Inl (Sentinel ErrInvalidInput), c)
      else
     (case bindE (read_repo e ''select tag by name for post list'' (Tag_selectByName normalizedName (st_tags s)))
             (\<lambda>ot. found ot ErrTagNotFound) of Inl err \<Rightarrow> Some (Inl err, c) | Inr tag \<Rightarrow>
     (case normalizeRankingSortWindow (env_lower e) sortValue windowValue PostFeedSortLatest True of
        Inl err \<Rightarrow> Some (Inl err, c) | Inr (sortBy, window) \<Rightarrow>
        if sortBy = PostFeedSortLatest then
          let cacheKey = key_TagPostList normalizedName limit lastID in
          with_total cacheKey
            (cached_posts h clk cacheKey ''load tag post list cache'' ''decode tag post list cache payload''
               (loadPublishedPostsByTag e normalizedName limit lastID cursor s) c)
            (bindQ (loadActiveTagPostIDSet e (tag_ID tag) s) (\<lambda>postIDs. Some (countVisiblePostsFromIDs e postIDs s)))
        else
          (case decodeFeedCursor sortBy window cursor of Inl err \<Rightarrow> Some (Inl err, c) | Inr feedCursor \<Rightarrow>
             cached_posts h clk (key_RankedTagPostList normalizedName sortBy window limit cursor)
               ''load tag post list cache'' ''decode tag post list cache payload''
               (bindQ (loadActiveTagPostIDSet e (tag_ID tag) s) (\<lambda>postIDs.
                  counted_list
                    (loadRankedPosts h e sortBy window limit feedCursor cursor (\<lambda>p. post_ID p \<in> set postIDs) s)
                    (Some (countVisiblePostsFromIDs e postIDs s)))) c))))))"

definition SearchPosts ::
  "post_query_handler \<Rightarrow> env \<Rightarrow> (nat \<Rightarrow> time) \<Rightarrow> string \<Rightarrow> string \<Rightarrow> string \<Rightarrow> int \<Rightarrow> string \<Rightarrow> store \<Rightarrow>
    cached cache \<Rightarrow> posts_answer" where
  "SearchPosts h e clk query sortValue windowValue limit cursor s c =
     (case RequirePositiveLimit limit of Some err \<Rightarrow> Some (Inl err, c) | None \<Rightarrow>
     (let normalizedQuery = normalizeSearchQuery (env_lower e) query in
      if normalizedQuery = [] then Some (Inl (Sentinel ErrInvalidInput), c)
      else
     (case normalizeSearchSortWindow (env_lower e) sortValue windowValue of
        Inl err \<Rightarrow> Some (Inl err, c) | Inr (searchSort, rankingSort, window) \<Rightarrow>
        let cacheKey = key_PostSearchSortedList normalizedQuery searchSort window limit cursor in
        with_total cacheKey
          (cached_posts h clk cacheKey ''load post search cache'' ''decode post search cache payload''
             (if searchSort = searchSortRelevance then
                bindQ (Some (decodeSearchCursor searchSort window cursor)) (\<lambda>searchCursor.
                  loadPublishedPostsBySearch h e normalizedQuery limit searchCursor cursor s)
              else loadRankedSearchPosts h e normalizedQuery rankingSort window limit cursor s) c)
          (bindQ (loadSearchMatchSet h 2 normalizedQuery) (\<lambda>matchingPostIDs.
             Some (countVisiblePostsFromIDs e matchingPostIDs s))))))"

definition GetFeed ::
  "post_query_handler \<Rightarrow> env \<Rightarrow> (nat \<Rightarrow> time) \<Rightarrow> string \<Rightarrow> string \<Rightarrow> int \<Rightarrow> string \<Rightarrow> store \<Rightarrow>
    cached cache \<Rightarrow> posts_answer" where
  "GetFeed h e clk sortValue windowValue limit cursor s c =
     (case RequirePositiveLimit limit of Some err \<Rightarrow> Some (Inl err, c) | None \<Rightarrow>
     (case normalizeRankingSortWindow (env_lower e) sortValue windowValue PostFeedSortHot True of
        Inl err \<Rightarrow> Some (Inl err, c) | Inr (sortBy, window) \<Rightarrow>
     (case decodeFeedCursor sortBy window cursor of Inl err \<Rightarrow> Some (Inl err, c) | Inr feedCursor \<Rightarrow>
        cached_posts h clk (key_PostFeedList sortBy window limit cursor)
          ''load post feed cache'' ''decode post feed cache payload''
          (counted_list (loadFeed h e sortBy window limit feedCursor cursor s)
             (Some (countVisiblePublishedPosts e s))) c)))"

text \<open>The page of a post; a board that is hidden conceals it.\<close>

definition visible_detail :: "env \<Rightarrow> int \<Rightarrow> store \<Rightarrow> go_error + post_detail" where
  "visible_detail e postID s =
     bindE (detail_Load e postID s) (\<lambda>detail.
     bindE (read_repo e ''select board by uuid for post detail visibility''
              (selectBoardByUUID (pm_BoardUUID (pd_Post detail)) (st_boards s))) (\<lambda>ob.
       if EnsureBoardVisible ob None \<noteq> None then Inl (Sentinel ErrPostNotFound) else Inr detail))"

definition GetPostDetail ::
  "post_query_handler \<Rightarrow> env \<Rightarrow> (nat \<Rightarrow> time) \<Rightarrow> int option \<Rightarrow> string \<Rightarrow> store \<Rightarrow> cached cache \<Rightarrow>
    (go_error + post_detail) \<times> cached cache" where
  "GetPostDetail h e clk ctx postUUID s c =
     (case bindE (read_repo e ''select post by uuid for post detail cache key'' (selectPostByUUID postUUID (st_posts s)))
             (\<lambda>op. found op ErrPostNotFound) of
        Inl err \<Rightarrow> (Inl err, c)
      | Inr post \<Rightarrow>
          (case ViewerUserIDFromContext ctx of
             Some viewerUserID \<Rightarrow>
               (bindE (visible_detail e (post_ID post) s) (\<lambda>detail. Inr (clonePostDetailForViewer detail viewerUserID)), c)
           | None \<Rightarrow>
               through_cache clk (key_PostDetail (post_ID post)) (pq_DetailTTLSeconds h) ''load post detail cache''
                 ''decode post detail cache payload'' as_post_detail
                 (bindE (visible_detail e (post_ID post) s) (\<lambda>detail. Inr (CachedPostDetail detail))) c))"

definition GetDraftPost :: "env \<Rightarrow> string \<Rightarrow> int \<Rightarrow> store \<Rightarrow> go_error + post_detail" where
  "GetDraftPost e postUUID userID s =
     bindE (read_repo e ''select draft post by uuid''
              (selectPostByUUIDIncludingUnpublished postUUID (st_posts s))) (\<lambda>op.
     case op of
       None \<Rightarrow> Inl (Sentinel ErrPostNotFound)
     | Some post \<Rightarrow>
         if post_Status post = PostStatusDeleted then Inl (Sentinel ErrPostNotFound)
         else
           bindE (read_repo e ''select requester for draft post'' (selectUserByID userID (st_users s))) (\<lambda>requester.
           bindE (found requester ErrUserNotFound) (\<lambda>u.
             case OwnerOrAdmin (Some u) (post_AuthorID post) of
               Some err \<Rightarrow> Inl err
             | None \<Rightarrow> LoadDraft e (post_ID post) s)))"

end
