(* ===== verification/RepoRanking.thy ===== *)
theory RepoRanking
  imports SvcPostQuery "HOL-Library.Log_Nat"
begin

text \<open>
  \<open>postRankingRepository.go\<close> and \<open>event/post_ranking_handler.go\<close>: the ranking of posts, kept up to date by
  the events of the outbox. A \<open>float64\<close> is its 64 bits; comparing two of them and converting an integer
  are written out after IEEE 754. The score of \<open>hot\<close> is the only arithmetic on them: what
  \<open>sign*order + seconds/hotDecayDivisor\<close> comes to is the parameter \<open>hot\<close>, a function of the base score
  and of the seconds since the epoch of the ranking, of which only is asked that it is a number.
\<close>

section \<open>Floating-point numbers\<close>

definition magnitude :: "float64 \<Rightarrow> nat" where
  "magnitude w = unat w mod 2 ^ 63"

definition is_nan :: "float64 \<Rightarrow> bool" where
  "is_nan w \<longleftrightarrow> 2047 * 2 ^ 52 < magnitude w"

text \<open>The order of numbers is the order of these integers; the two zeros are equal.\<close>

definition float_key :: "float64 \<Rightarrow> int" where
  "float_key w = (if 2 ^ 63 \<le> unat w then - int (magnitude w) else int (magnitude w))"

definition float_less :: "float64 \<Rightarrow> float64 \<Rightarrow> bool" where
  "float_less a b \<longleftrightarrow> \<not> is_nan a \<and> \<not> is_nan b \<and> float_key a < float_key b"

definition float_eq :: "float64 \<Rightarrow> float64 \<Rightarrow> bool" where
  "float_eq a b \<longleftrightarrow> \<not> is_nan a \<and> \<not> is_nan b \<and> float_key a = float_key b"

text \<open>\<open>float64(n)\<close>: to the nearest, ties to even.\<close>

definition float_bits :: "nat \<Rightarrow> nat" where
  "float_bits m =
     (let ex = floorlog 2 m - 1 in
      if ex \<le> 52 then (1022 + ex) * 2 ^ 52 + m * 2 ^ (52 - ex)
      else
        let d = ex - 52; q = m div 2 ^ d; r = m mod 2 ^ d; half = 2 ^ (d - 1) in
        (1022 + ex) * 2 ^ 52 + (if half < r \<or> (r = half \<and> odd q) then q + 1 else q))"

definition float_of_int :: "int \<Rightarrow> float64" where
  "float_of_int n =
     (if n = 0 then 0
      else of_nat (float_bits (nat \<bar>n\<bar>) + (if n < 0 then 2 ^ 63 else 0)))"

section \<open>The state\<close>

record rankingActivity =
  ra_OccurredAt :: time
  ra_Weight :: int

record rankingPostSnapshot =
  rp_PostID :: int
  rp_BoardID :: int
  rp_PublishedAt :: time
  rp_Status :: PostStatus
  rp_TotalReactionScore :: int
  rp_TotalCommentScore :: int
  rp_Activity :: "rankingActivity list"

record ranking_repo =
  rk_posts :: "(int \<times> rankingPostSnapshot) list"
  rk_reactionStates :: "(string \<times> ReactionType) list"
  rk_commentStates :: "(int \<times> int) list"

definition NewPostRankingRepository :: ranking_repo where
  "NewPostRankingRepository = \<lparr>rk_posts = [], rk_reactionStates = [], rk_commentStates = []\<rparr>"

section \<open>What the events do\<close>

definition UpsertPostSnapshot :: "int \<Rightarrow> int \<Rightarrow> time option \<Rightarrow> PostStatus \<Rightarrow> ranking_repo \<Rightarrow> ranking_repo" where
  "UpsertPostSnapshot postID boardID publishedAt status r =
     (let item = (case map_of (rk_posts r) postID of
                    Some item \<Rightarrow> item
                  | None \<Rightarrow> \<lparr>rp_PostID = postID, rp_BoardID = 0, rp_PublishedAt = 0, rp_Status = PostStatusDraft,
                            rp_TotalReactionScore = 0, rp_TotalCommentScore = 0, rp_Activity = []\<rparr>);
          item1 = item\<lparr>rp_BoardID := boardID, rp_Status := status\<rparr>;
          item2 = (case publishedAt of None \<Rightarrow> item1 | Some t \<Rightarrow> item1\<lparr>rp_PublishedAt := t\<rparr>)
      in r\<lparr>rk_posts := put_row postID item2 (rk_posts r)\<rparr>)"

definition Ranking_DeletePost :: "int \<Rightarrow> ranking_repo \<Rightarrow> ranking_repo" where
  "Ranking_DeletePost postID r = r\<lparr>rk_posts := del_row postID (rk_posts r)\<rparr>"

definition add_activity :: "time \<Rightarrow> int \<Rightarrow> rankingPostSnapshot \<Rightarrow> rankingPostSnapshot" where
  "add_activity occurredAt weight post = post\<lparr>rp_Activity := rp_Activity post @ [\<lparr>ra_OccurredAt = occurredAt, ra_Weight = weight\<rparr>]\<rparr>"

definition ApplyCommentDelta :: "int \<Rightarrow> int \<Rightarrow> time \<Rightarrow> int \<Rightarrow> ranking_repo \<Rightarrow> ranking_repo" where
  "ApplyCommentDelta postID commentID occurredAt delta r =
     (case map_of (rk_posts r) postID of
        None \<Rightarrow> r
      | Some post \<Rightarrow>
          let current = (case map_of (rk_commentStates r) commentID of None \<Rightarrow> 0 | Some x \<Rightarrow> x) in
          if 0 < delta then
            (if current = delta then r
             else r\<lparr>rk_posts := put_row postID (add_activity occurredAt (delta - current)
                      (post\<lparr>rp_TotalCommentScore := rp_TotalCommentScore post + (delta - current)\<rparr>)) (rk_posts r),
                    rk_commentStates := put_row commentID delta (rk_commentStates r)\<rparr>)
          else if delta < 0 then
            (if current = 0 then r
             else r\<lparr>rk_posts := put_row postID (add_activity occurredAt (- current)
                      (post\<lparr>rp_TotalCommentScore := rp_TotalCommentScore post - current\<rparr>)) (rk_posts r),
                    rk_commentStates := del_row commentID (rk_commentStates r)\<rparr>)
          else r)"

fun reactionWeight :: "ReactionType \<Rightarrow> int" where
  "reactionWeight ReactionTypeLike = 1"
| "reactionWeight ReactionTypeDislike = -1"

definition reactionKey :: "ReactionTargetType \<Rightarrow> int \<Rightarrow> int \<Rightarrow> string" where
  "reactionKey targetType targetID userID =
     ReactionTargetType_string targetType @ '':'' @ FormatInt targetID @ '':'' @ FormatInt userID"

definition ApplyReactionDelta ::
  "int \<Rightarrow> int \<Rightarrow> int \<Rightarrow> ReactionTargetType \<Rightarrow> ReactionType \<Rightarrow> string \<Rightarrow> time \<Rightarrow> ranking_repo \<Rightarrow> ranking_repo" where
  "ApplyReactionDelta postID targetID userID targetType reactionType operation occurredAt r =
     (case map_of (rk_posts r) postID of
        None \<Rightarrow> r
      | Some post \<Rightarrow>
          let key = reactionKey targetType targetID userID; prev = map_of (rk_reactionStates r) key in
          if operation = ''set'' then
            (if prev = Some reactionType then r
             else
               let delta = reactionWeight reactionType - (case prev of None \<Rightarrow> 0 | Some p \<Rightarrow> reactionWeight p) in
               if delta = 0 then r\<lparr>rk_reactionStates := put_row key reactionType (rk_reactionStates r)\<rparr>
               else r\<lparr>rk_posts := put_row postID (add_activity occurredAt delta
                        (post\<lparr>rp_TotalReactionScore := rp_TotalReactionScore post + delta\<rparr>)) (rk_posts r),
                      rk_reactionStates := put_row key reactionType (rk_reactionStates r)\<rparr>)
          else if operation = ''unset'' then
            (case prev of
               None \<Rightarrow> r
             | Some p \<Rightarrow>
                 let delta = - reactionWeight p in
                 r\<lparr>rk_posts := put_row postID (add_activity occurredAt delta
                      (post\<lparr>rp_TotalReactionScore := rp_TotalReactionScore post + delta\<rparr>)) (rk_posts r),
                   rk_reactionStates := del_row key (rk_reactionStates r)\<rparr>)
          else r)"

fun PostRanking_Handle :: "domain_event \<Rightarrow> ranking_repo \<Rightarrow> ranking_repo" where
  "PostRanking_Handle (PostChanged operation postID boardID publishedAt _ _ _) r =
     (if operation = ''deleted'' then Ranking_DeletePost postID r
      else UpsertPostSnapshot postID boardID publishedAt PostStatusPublished r)"
| "PostRanking_Handle (CommentChanged operation commentID postID t) r =
     (if operation = ''created'' then ApplyCommentDelta postID commentID t 2 r
      else if operation = ''deleted'' then ApplyCommentDelta postID commentID t (-2) r
      else r)"
| "PostRanking_Handle (ReactionChanged operation targetType targetID postID userID reactionType t) r =
     ApplyReactionDelta postID targetID userID targetType reactionType operation t r"
| "PostRanking_Handle _ r = r"

section \<open>The lists\<close>

definition day :: duration where "day = 24 * 3600 * 10 ^ 9"

definition bestWindow :: duration where "bestWindow = 7 * day"

definition maxActivitySpan :: duration where "maxActivitySpan = 30 * day"

definition windowDuration :: "string \<Rightarrow> duration" where
  "windowDuration window =
     (if window = PostRankingWindow24h then day
      else if window = PostRankingWindow30d then 30 * day
      else if window = PostRankingWindowAll then 0
      else 7 * day)"

definition pruneActivities :: "rankingActivity list \<Rightarrow> time \<Rightarrow> rankingActivity list" where
  "pruneActivities items cutoff = filter (\<lambda>item. \<not> ra_OccurredAt item < cutoff) items"

definition activityScoreWithin :: "rankingActivity list \<Rightarrow> time \<Rightarrow> int" where
  "activityScoreWithin items cutoff =
     sum_list (map ra_Weight (filter (\<lambda>activity. \<not> ra_OccurredAt activity < cutoff) items))"

definition redditEpoch :: int where "redditEpoch = 1134028003"

text \<open>\<open>Unix()\<close>: seconds since 1970, rounded down.\<close>

definition Unix :: "time \<Rightarrow> int" where
  "Unix t = t div 10 ^ 9 - 62135596800"

definition rankingScore ::
  "(int \<Rightarrow> int \<Rightarrow> float64) \<Rightarrow> string \<Rightarrow> string \<Rightarrow> rankingPostSnapshot \<Rightarrow> time \<Rightarrow> float64" where
  "rankingScore hot sortBy window item now =
     (if sortBy = PostFeedSortLatest then float_of_int (UnixNano (rp_PublishedAt item))
      else if sortBy = PostFeedSortBest then float_of_int (activityScoreWithin (rp_Activity item) (now - bestWindow))
      else if sortBy = PostFeedSortTop then
        (if window = PostRankingWindowAll then float_of_int (rp_TotalReactionScore item + rp_TotalCommentScore item)
         else float_of_int (activityScoreWithin (rp_Activity item) (now - windowDuration window)))
      else hot (rp_TotalReactionScore item + rp_TotalCommentScore item) (Unix (rp_PublishedAt item) - redditEpoch))"

definition compareFeedResults :: "string \<Rightarrow> feed_result \<Rightarrow> feed_result \<Rightarrow> bool" where
  "compareFeedResults sortBy left right =
     (let by_time = (if fr_PublishedAt left = fr_PublishedAt right then fr_PostID left > fr_PostID right
                     else fr_PublishedAt left > fr_PublishedAt right) in
      if sortBy = PostFeedSortLatest then by_time
      else if float_eq (fr_Score left) (fr_Score right) then by_time
      else float_less (fr_Score right) (fr_Score left))"

text \<open>\<open>time.Unix(0, nano)\<close>\<close>

definition of_UnixNano :: "int \<Rightarrow> time" where
  "of_UnixNano nano = nano + 62135596800 * 10 ^ 9"

definition feedResultAfterCursor :: "feed_result \<Rightarrow> feed_cursor \<Rightarrow> bool" where
  "feedResultAfterCursor item cursor =
     (let cursorTime = of_UnixNano (fc_PublishedAtUnixNano cursor);
          by_time = (if fr_PublishedAt item < cursorTime then True
                     else if fr_PublishedAt item > cursorTime then False
                     else fr_PostID item < fc_PostID cursor) in
      if fc_Sort cursor = PostFeedSortLatest then by_time
      else if float_less (fr_Score item) (fc_Score cursor) then True
      else if float_less (fc_Score cursor) (fr_Score item) then False
      else by_time)"

text \<open>\<open>sort.Slice\<close>: some list of the same elements in order; the comparisons here leave one.\<close>

fun insert_by :: "('a \<Rightarrow> 'a \<Rightarrow> bool) \<Rightarrow> 'a \<Rightarrow> 'a list \<Rightarrow> 'a list" where
  "insert_by lt x [] = [x]"
| "insert_by lt x (y # ys) = (if lt y x then y # insert_by lt x ys else x # y # ys)"

definition sort_Slice :: "('a \<Rightarrow> 'a \<Rightarrow> bool) \<Rightarrow> 'a list \<Rightarrow> 'a list" where
  "sort_Slice lt xs = foldr (insert_by lt) xs []"

definition ranked :: "rankingPostSnapshot \<Rightarrow> bool" where
  "ranked item \<longleftrightarrow> rp_Status item = PostStatusPublished \<and> \<not> IsZero (rp_PublishedAt item)"

definition pruned :: "time \<Rightarrow> ranking_repo \<Rightarrow> ranking_repo" where
  "pruned now r =
     r\<lparr>rk_posts := map (\<lambda>(i, item). (i, if ranked item
         then item\<lparr>rp_Activity := pruneActivities (rp_Activity item) (now - maxActivitySpan)\<rparr> else item)) (rk_posts r)\<rparr>"

definition feed_results ::
  "(int \<Rightarrow> int \<Rightarrow> float64) \<Rightarrow> string \<Rightarrow> string \<Rightarrow> time \<Rightarrow> ranking_repo \<Rightarrow> feed_result list" where
  "feed_results hot sortBy window now r =
     map (\<lambda>item. \<lparr>fr_PostID = rp_PostID item, fr_BoardID = rp_BoardID item,
                  fr_Score = rankingScore hot sortBy window item now, fr_PublishedAt = rp_PublishedAt item\<rparr>)
       (filter ranked (row_values (rk_posts r)))"

definition ListFeed ::
  "(int \<Rightarrow> int \<Rightarrow> float64) \<Rightarrow> time \<Rightarrow> string \<Rightarrow> string \<Rightarrow> int \<Rightarrow> feed_cursor option \<Rightarrow> ranking_repo \<Rightarrow>
    feed_result list \<times> ranking_repo" where
  "ListFeed hot now sortBy window limit cursor r =
     (if limit \<le> 0 then ([], r)
      else
        let r' = pruned now r;
            results = filter (\<lambda>x. case cursor of None \<Rightarrow> True | Some c \<Rightarrow> feedResultAfterCursor x c)
                        (feed_results hot sortBy window now r')
        in (take_int limit (sort_Slice (compareFeedResults sortBy) results), r'))"

end
