(* ===== verification/RepoSearch.thy ===== *)
theory RepoSearch
  imports RepoRanking
begin

text \<open>
  \<open>postSearchRepository.go\<close>, \<open>searchtext/normalize.go\<close> and \<open>event/post_search_index_handler.go\<close>: the search index
  in memory, one document per published post, with the counts a BM25 score needs and the posts of each
  term. \<open>norm.NFD\<close> (a package outside the source) and the table of
  combining marks are parameters, and so is the arithmetic on \<open>float64\<close> with \<open>math.Log\<close>; the formula of the score
  is written out over them. A constant of the source is its 64 bits. A Go set is a list without repetition whose order is the
  iteration order. An operation that first reads the repositories and then takes the lock of the
  index is two steps.
\<close>

section \<open>Text\<close>

record text_rules =
  tr_lower :: "string \<Rightarrow> string"
  tr_nfd :: "string \<Rightarrow> string"
  tr_mark :: "string \<Rightarrow> bool"

fun squash :: "(string \<Rightarrow> bool) \<Rightarrow> bool \<Rightarrow> string list \<Rightarrow> string" where
  "squash mark lastWasSpace [] = []"
| "squash mark lastWasSpace (r # rs) =
     (if mark r then squash mark lastWasSpace rs
      else if r \<in> set space_runes then
        (if lastWasSpace then squash mark lastWasSpace rs else '' '' @ squash mark True rs)
      else r @ squash mark False rs)"

definition text_runes :: "string \<Rightarrow> string list" where
  "text_runes s = map (bytes \<circ> rune_bytes) (rune_chunks (map of_char s))"

definition Normalize :: "text_rules \<Rightarrow> string \<Rightarrow> string" where
  "Normalize tr text0 =
     (let text = ToLower (tr_lower tr) (TrimSpace text0) in
      if text = [] then [] else TrimSpace (squash (tr_mark tr) False (text_runes (tr_nfd tr text))))"

definition Tokenize :: "text_rules \<Rightarrow> string \<Rightarrow> string list" where
  "Tokenize tr text =
     (let normalized = Normalize tr text in if normalized = [] then [] else Fields normalized)"

definition Contains :: "string \<Rightarrow> string \<Rightarrow> bool" where
  "Contains s sub = list_ex (\<lambda>i. has_prefix (drop i s) sub) [0..<Suc (length s)]"

section \<open>The state\<close>

record searchDocument =
  sd_post :: post
  sd_titleTokens :: "string list"
  sd_contentTokens :: "string list"
  sd_tagTokens :: "string list"
  sd_titleText :: string
  sd_contentText :: string
  sd_tagText :: string
  sd_allTerms :: "string list"
  sd_lastUpdatedAt :: time

record searchIndexStats =
  si_documentCount :: int
  si_titleTokenCount :: int
  si_tagTokenCount :: int
  si_contentTokenCount :: int
  si_titleDF :: "(string \<times> int) list"
  si_tagDF :: "(string \<times> int) list"
  si_contentDF :: "(string \<times> int) list"
  si_termPostings :: "(string \<times> int list) list"

record search_store =
  ss_documents :: "(int \<times> searchDocument) list"
  ss_index :: searchIndexStats

definition newSearchIndexStats :: searchIndexStats where
  "newSearchIndexStats =
     \<lparr>si_documentCount = 0, si_titleTokenCount = 0, si_tagTokenCount = 0, si_contentTokenCount = 0,
      si_titleDF = [], si_tagDF = [], si_contentDF = [], si_termPostings = []\<rparr>"

definition NewPostSearchStore :: search_store where
  "NewPostSearchStore = \<lparr>ss_documents = [], ss_index = newSearchIndexStats\<rparr>"

section \<open>The index\<close>

definition count_of :: "(string \<times> int) list \<Rightarrow> string \<Rightarrow> int" where
  "count_of field token = (case map_of field token of None \<Rightarrow> 0 | Some n \<Rightarrow> n)"

definition count_token :: "int \<Rightarrow> string \<Rightarrow> (string \<times> int) list \<Rightarrow> (string \<times> int) list" where
  "count_token delta token field =
     (let n = count_of field token + delta in if n \<le> 0 then del_row token field else put_row token n field)"

definition updateFieldCounts :: "(string \<times> int) list \<Rightarrow> string list \<Rightarrow> int \<Rightarrow> (string \<times> int) list" where
  "updateFieldCounts field tokens delta = fold (count_token delta) (first_seen tokens) field"

definition posting :: "(string \<times> int list) list \<Rightarrow> string \<Rightarrow> int list" where
  "posting postings term = (case map_of postings term of None \<Rightarrow> [] | Some ids \<Rightarrow> ids)"

definition post_term :: "int \<Rightarrow> string \<Rightarrow> (string \<times> int list) list \<Rightarrow> (string \<times> int list) list" where
  "post_term i term postings = put_row term (List.insert i (posting postings term)) postings"

definition unpost_term :: "int \<Rightarrow> string \<Rightarrow> (string \<times> int list) list \<Rightarrow> (string \<times> int list) list" where
  "unpost_term i term postings =
     (case map_of postings term of
        None \<Rightarrow> postings
      | Some ids \<Rightarrow>
          let ids' = removeAll i ids in if ids' = [] then del_row term postings else put_row term ids' postings)"

definition addDocument :: "searchDocument \<Rightarrow> searchIndexStats \<Rightarrow> searchIndexStats" where
  "addDocument document s =
     \<lparr>si_documentCount = si_documentCount s + 1,
      si_titleTokenCount = si_titleTokenCount s + int (length (sd_titleTokens document)),
      si_tagTokenCount = si_tagTokenCount s + int (length (sd_tagTokens document)),
      si_contentTokenCount = si_contentTokenCount s + int (length (sd_contentTokens document)),
      si_titleDF = updateFieldCounts (si_titleDF s) (sd_titleTokens document) 1,
      si_tagDF = updateFieldCounts (si_tagDF s) (sd_tagTokens document) 1,
      si_contentDF = updateFieldCounts (si_contentDF s) (sd_contentTokens document) 1,
      si_termPostings = fold (post_term (post_ID (sd_post document))) (sd_allTerms document) (si_termPostings s)\<rparr>"

definition removeDocument :: "searchDocument \<Rightarrow> searchIndexStats \<Rightarrow> searchIndexStats" where
  "removeDocument document s =
     \<lparr>si_documentCount = (if 0 < si_documentCount s then si_documentCount s - 1 else si_documentCount s),
      si_titleTokenCount = si_titleTokenCount s - int (length (sd_titleTokens document)),
      si_tagTokenCount = si_tagTokenCount s - int (length (sd_tagTokens document)),
      si_contentTokenCount = si_contentTokenCount s - int (length (sd_contentTokens document)),
      si_titleDF = updateFieldCounts (si_titleDF s) (sd_titleTokens document) (- 1),
      si_tagDF = updateFieldCounts (si_tagDF s) (sd_tagTokens document) (- 1),
      si_contentDF = updateFieldCounts (si_contentDF s) (sd_contentTokens document) (- 1),
      si_termPostings = fold (unpost_term (post_ID (sd_post document))) (sd_allTerms document) (si_termPostings s)\<rparr>"

definition rebuildIndex :: "(int \<times> searchDocument) list \<Rightarrow> searchIndexStats" where
  "rebuildIndex documents = fold addDocument (row_values documents) newSearchIndexStats"

text \<open>
  The posts that have every term: the terms are gone through for the shortest list, which the others then
  narrow. The outer \<open>None\<close> is the early return for a term that no post has.
\<close>

fun base_posting ::
  "(string \<times> int list) list \<Rightarrow> string list \<Rightarrow> (string \<times> int list) option \<Rightarrow> (string \<times> int list) option option" where
  "base_posting postings [] base = Some base"
| "base_posting postings (term # terms) base =
     (let ids = posting postings term in
      if ids = [] then None
      else base_posting postings terms
             (case base of
                None \<Rightarrow> Some (term, ids)
              | Some (_, basePosting) \<Rightarrow> if length ids < length basePosting then Some (term, ids) else base))"

fun narrow :: "(string \<times> int list) list \<Rightarrow> string \<Rightarrow> string list \<Rightarrow> int list \<Rightarrow> int list" where
  "narrow postings baseTerm [] candidates = candidates"
| "narrow postings baseTerm (term # terms) candidates =
     (if term = baseTerm then narrow postings baseTerm terms candidates
      else
        let candidates' = filter (\<lambda>i. i \<in> set (posting postings term)) candidates in
        if candidates' = [] then [] else narrow postings baseTerm terms candidates')"

definition matchingPostIDs :: "searchIndexStats \<Rightarrow> string list \<Rightarrow> int list" where
  "matchingPostIDs s queryTerms =
     (if queryTerms = [] then []
      else case base_posting (si_termPostings s) queryTerms None of
             None \<Rightarrow> []
           | Some None \<Rightarrow> []
           | Some (Some (baseTerm, basePosting)) \<Rightarrow> narrow (si_termPostings s) baseTerm queryTerms basePosting)"

section \<open>Documents\<close>

definition buildSearchDocument :: "text_rules \<Rightarrow> post \<Rightarrow> string list \<Rightarrow> searchDocument option" where
  "buildSearchDocument tr p tagNames =
     (if post_Status p \<noteq> PostStatusPublished then None
      else
        let titleText = Normalize tr (post_Title p); contentText = Normalize tr (post_Content p);
            tagText = Normalize tr (Join tagNames '' '');
            titleTokens = Tokenize tr titleText; contentTokens = Tokenize tr contentText; tagTokens = Tokenize tr tagText
        in Some \<lparr>sd_post = p, sd_titleTokens = titleTokens, sd_contentTokens = contentTokens, sd_tagTokens = tagTokens,
                 sd_titleText = titleText, sd_contentText = contentText, sd_tagText = tagText,
                 sd_allTerms = first_seen (titleTokens @ contentTokens @ tagTokens), sd_lastUpdatedAt = 0\<rparr>)"

definition activeTagNames :: "store \<Rightarrow> int \<Rightarrow> string list" where
  "activeTagNames s postID =
     List.map_filter (\<lambda>relation. map_option tag_Name (db_get (tag_db (st_tags s)) (pt_TagID relation)))
       (filter (\<lambda>relation. pt_PostID relation = postID \<and> pt_Status relation = PostTagStatusActive)
          (row_values (st_post_tags s)))"

definition loadSearchDocuments :: "text_rules \<Rightarrow> store \<Rightarrow> searchDocument list" where
  "loadSearchDocuments tr s =
     List.map_filter (\<lambda>stored. buildSearchDocument tr stored (activeTagNames s (post_ID stored))) (db_rows (st_posts s))"

definition loadSearchDocumentByPostID :: "text_rules \<Rightarrow> store \<Rightarrow> int \<Rightarrow> searchDocument option" where
  "loadSearchDocumentByPostID tr s postID =
     (case db_get (st_posts s) postID of
        None \<Rightarrow> None
      | Some p \<Rightarrow> buildSearchDocument tr p (activeTagNames s postID))"

section \<open>The operations\<close>

text \<open>Rebuilding: reading the store, then replacing the documents but for those that are newer than the start.\<close>

definition RebuildAll_load :: "text_rules \<Rightarrow> store \<Rightarrow> time \<Rightarrow> (int \<times> searchDocument) list" where
  "RebuildAll_load tr s startedAt =
     fold (\<lambda>document. put_row (post_ID (sd_post document)) (document\<lparr>sd_lastUpdatedAt := startedAt\<rparr>)) (loadSearchDocuments tr s) []"

definition RebuildAll_commit :: "time \<Rightarrow> (int \<times> searchDocument) list \<Rightarrow> search_store \<Rightarrow> search_store" where
  "RebuildAll_commit startedAt loaded r =
     (let documents = fold (\<lambda>(i, current). if startedAt < sd_lastUpdatedAt current then put_row i current else (\<lambda>m. m))
                        (ss_documents r) loaded
      in \<lparr>ss_documents = documents, ss_index = rebuildIndex documents\<rparr>)"

definition RebuildAll :: "text_rules \<Rightarrow> store \<Rightarrow> time \<Rightarrow> search_store \<Rightarrow> search_store" where
  "RebuildAll tr s startedAt r = RebuildAll_commit startedAt (RebuildAll_load tr s startedAt) r"

definition UpsertPost_commit :: "int \<Rightarrow> time \<Rightarrow> searchDocument option \<Rightarrow> search_store \<Rightarrow> search_store" where
  "UpsertPost_commit postID now loaded r =
     (let current = map_of (ss_documents r) postID in
      if (case current of None \<Rightarrow> False | Some d \<Rightarrow> now < sd_lastUpdatedAt d) then r
      else
        let r1 = (case current of
                    None \<Rightarrow> r
                  | Some d \<Rightarrow> \<lparr>ss_documents = del_row postID (ss_documents r), ss_index = removeDocument d (ss_index r)\<rparr>) in
        case loaded of
          None \<Rightarrow> r1
        | Some document0 \<Rightarrow>
            let document = document0\<lparr>sd_lastUpdatedAt := now\<rparr> in
            \<lparr>ss_documents = put_row postID document (ss_documents r1), ss_index = addDocument document (ss_index r1)\<rparr>)"

definition UpsertPost :: "text_rules \<Rightarrow> store \<Rightarrow> int \<Rightarrow> time \<Rightarrow> search_store \<Rightarrow> search_store" where
  "UpsertPost tr s postID now r = UpsertPost_commit postID now (loadSearchDocumentByPostID tr s postID) r"

definition Search_DeletePost :: "int \<Rightarrow> time \<Rightarrow> search_store \<Rightarrow> search_store" where
  "Search_DeletePost postID now r =
     (let current = map_of (ss_documents r) postID in
      if (case current of None \<Rightarrow> False | Some d \<Rightarrow> now < sd_lastUpdatedAt d) then r
      else
        let index = (case current of None \<Rightarrow> ss_index r | Some d \<Rightarrow> removeDocument d (ss_index r)) in
        \<lparr>ss_documents = del_row postID (ss_documents r), ss_index = index\<rparr>)"

fun PostSearchIndex_Handle :: "text_rules \<Rightarrow> store \<Rightarrow> time \<Rightarrow> domain_event \<Rightarrow> search_store \<Rightarrow> search_store" where
  "PostSearchIndex_Handle tr s now (PostChanged operation postID _ _ _ _ _) r =
     (if operation = ''deleted'' then Search_DeletePost postID now r else UpsertPost tr s postID now r)"
| "PostSearchIndex_Handle tr s now _ r = r"

section \<open>Scores\<close>

record float_ops =
  fo_add :: "float64 \<Rightarrow> float64 \<Rightarrow> float64"
  fo_sub :: "float64 \<Rightarrow> float64 \<Rightarrow> float64"
  fo_mul :: "float64 \<Rightarrow> float64 \<Rightarrow> float64"
  fo_div :: "float64 \<Rightarrow> float64 \<Rightarrow> float64"
  fo_log :: "float64 \<Rightarrow> float64"

text \<open>Constant expressions are exact in Go and rounded once: 1.2 + 1 and 1 - 0.75, the boost times each weight.\<close>

definition searchTitleWeight :: float64 where "searchTitleWeight = 0x4008000000000000"
definition searchTagWeight :: float64 where "searchTagWeight = 0x4000000000000000"
definition searchContentWeight :: float64 where "searchContentWeight = 0x3FF0000000000000"
definition searchK1 :: float64 where "searchK1 = 0x3FF3333333333333"
definition searchB :: float64 where "searchB = 0x3FE8000000000000"
definition searchPhraseBoost :: "float64 list" where
  "searchPhraseBoost = [0x401E000000000000, 0x4014000000000000, 0x4004000000000000]"

definition averageFieldLengthFromTotals :: "float_ops \<Rightarrow> int \<Rightarrow> int \<Rightarrow> float64" where
  "averageFieldLengthFromTotals fo totalTokens documentCount =
     (if documentCount = 0 then 0 else fo_div fo (float_of_int totalTokens) (float_of_int documentCount))"

definition safeDiv :: "float_ops \<Rightarrow> float64 \<Rightarrow> float64 \<Rightarrow> float64" where
  "safeDiv fo v divisor = (if float_eq divisor 0 then 0 else fo_div fo v divisor)"

definition weightedBM25 ::
  "float_ops \<Rightarrow> string list \<Rightarrow> string list \<Rightarrow> (string \<Rightarrow> int) \<Rightarrow> float64 \<Rightarrow> int \<Rightarrow> float64 \<Rightarrow> float64" where
  "weightedBM25 fo tokens queryTerms df avgLen totalDocs weight =
     (if tokens = [] \<or> queryTerms = [] \<or> totalDocs = 0 then 0
      else
        let one = 0x3FF0000000000000; half = 0x3FE0000000000000;
            docLen = float_of_int (int (length tokens));
            score = foldl (\<lambda>score term.
              let termTF = int (count_list tokens term) in
              if termTF = 0 then score
              else
                let n = float_of_int (df term);
                    idf = fo_log fo (fo_add fo one
                            (fo_div fo (fo_add fo (fo_sub fo (float_of_int totalDocs) n) half) (fo_add fo n half)));
                    denominator = fo_add fo (float_of_int termTF)
                      (fo_mul fo searchK1 (fo_add fo 0x3FD0000000000000 (fo_mul fo searchB (safeDiv fo docLen avgLen))))
                in fo_add fo score (fo_mul fo idf (fo_div fo (fo_mul fo (float_of_int termTF) 0x400199999999999A) denominator)))
              0 queryTerms
        in fo_mul fo score weight)"

definition phraseBoost :: "float_ops \<Rightarrow> searchDocument \<Rightarrow> string \<Rightarrow> float64" where
  "phraseBoost fo doc phrase =
     (if phrase = [] \<or> \<not> Contains phrase '' '' then 0
      else foldl (\<lambda>boost (text, b). if Contains text phrase then fo_add fo boost b else boost) 0
             (zip [sd_titleText doc, sd_tagText doc, sd_contentText doc] searchPhraseBoost))"

definition searchScore :: "float_ops \<Rightarrow> searchIndexStats \<Rightarrow> string list \<Rightarrow> string \<Rightarrow> searchDocument \<Rightarrow> float64" where
  "searchScore fo s queryTerms phrase doc =
     (let n = si_documentCount s;
          bm25 = (\<lambda>tokens df total. weightedBM25 fo tokens queryTerms (count_of df) (averageFieldLengthFromTotals fo total n) n) in
      fo_add fo
        (fo_add fo
          (fo_add fo (bm25 (sd_titleTokens doc) (si_titleDF s) (si_titleTokenCount s) searchTitleWeight)
                     (bm25 (sd_tagTokens doc) (si_tagDF s) (si_tagTokenCount s) searchTagWeight))
          (bm25 (sd_contentTokens doc) (si_contentDF s) (si_contentTokenCount s) searchContentWeight))
        (phraseBoost fo doc phrase))"

section \<open>Searching\<close>

definition searchResultAfterCursor :: "float64 \<Rightarrow> int \<Rightarrow> search_cursor \<Rightarrow> bool" where
  "searchResultAfterCursor score postID cursor =
     (if float_less score (sc_Score cursor) then True
      else if float_less (sc_Score cursor) score then False
      else postID < sc_PostID cursor)"

definition search_id :: "search_result \<Rightarrow> int" where
  "search_id result = post_ID (the (sr_Post result))"

definition compareSearchResults :: "search_result \<Rightarrow> search_result \<Rightarrow> bool" where
  "compareSearchResults x y =
     (if float_eq (sr_Score x) (sr_Score y) then search_id x > search_id y else float_less (sr_Score y) (sr_Score x))"

definition search_matches :: "text_rules \<Rightarrow> float_ops \<Rightarrow> string \<Rightarrow> search_store \<Rightarrow> search_result list" where
  "search_matches tr fo query r =
     List.map_filter (\<lambda>i. map_option (\<lambda>doc. \<lparr>sr_Post = Some (sd_post doc),
         sr_Score = searchScore fo (ss_index r) (Tokenize tr query) (Normalize tr query) doc\<rparr>) (map_of (ss_documents r) i))
       (matchingPostIDs (ss_index r) (first_seen (Tokenize tr query)))"

definition SearchPublishedPosts ::
  "text_rules \<Rightarrow> float_ops \<Rightarrow> string \<Rightarrow> int \<Rightarrow> search_cursor option \<Rightarrow> search_store \<Rightarrow> search_result list" where
  "SearchPublishedPosts tr fo query limit cursor r =
     (if limit \<le> 0 \<or> Tokenize tr query = [] \<or> ss_documents r = [] \<or> si_documentCount (ss_index r) = 0 then []
      else
        take_int limit
          (sort_Slice compareSearchResults
             (filter (\<lambda>x. case cursor of None \<Rightarrow> True | Some c \<Rightarrow> searchResultAfterCursor (sr_Score x) (search_id x) c)
                (search_matches tr fo query r))))"

end
