(* ===== verification/PostPages.thy ===== *)
theory PostPages
  imports Contracts SvcPostQuery Demo
begin

text \<open>
  What the lists of posts show. The three loops that skip posts on hidden boards are one scan: each
  reads blocks of a sequence from a cursor on and keeps what is shown until there is enough.
  \<open>scan_loop\<close> gives its result once for all; it says that the loop ends.
\<close>

section \<open>Scanning in blocks\<close>

lemma collect_take:
  "int (length out) < n \<Longrightarrow> collect n keep xs out = take (nat n) (out @ filter keep xs)"
proof (induction xs arbitrary: out)
  case (Cons x xs)
  show ?case
  proof (cases "keep x \<and> n \<le> int (length (out @ [x]))")
    case True
    with Cons.prems have "nat n = length (out @ [x])" by auto
    with True show ?thesis by simp
  next
    case False
    with Cons show ?thesis by (cases "keep x") (simp_all add: Let_def del: take_append)
  qed
qed auto

lemma last_take: "0 < k \<Longrightarrow> k \<le> length xs \<Longrightarrow> last (take k xs) = xs ! (k - 1)"
  by (cases k) (simp_all add: take_Suc_conv_app_nth)

lemma take_enough: "k \<le> length xs \<Longrightarrow> take k (xs @ ys) = take k xs"
  by simp

lemma take_short: "int (length (take (nat n) xs)) < n \<Longrightarrow> take (nat n) xs = xs"
  by (simp add: min_def split: if_splits)

lemma scan_loop:
  fixes loop :: "'c \<Rightarrow> 'v list \<Rightarrow> 'b \<Rightarrow> 'v list answer" and rest :: "'c \<Rightarrow> 'r list"
  assumes stop: "\<And>c acc b. good c \<Longrightarrow> okay b \<Longrightarrow> int (length acc) < n \<Longrightarrow> rest c = [] \<Longrightarrow> loop c acc b = returnQ acc"
    and step: "\<And>c acc b. good c \<Longrightarrow> okay b \<Longrightarrow> int (length acc) < n \<Longrightarrow> rest c \<noteq> [] \<Longrightarrow>
      \<exists>b'. okay b' \<and> loop c acc b =
        (let rs = take (nat n) (rest c); acc' = take (nat n) (acc @ pick rs) in
         if n \<le> int (length acc') \<or> int (length rs) < n then returnQ acc' else loop (next_of c (last rs)) acc' b')"
    and next_block: "\<And>c. good c \<Longrightarrow> 0 < n \<Longrightarrow> nat n \<le> length (rest c) \<Longrightarrow>
      good (next_of c (rest c ! (nat n - 1))) \<and> rest (next_of c (rest c ! (nat n - 1))) = drop (nat n) (rest c)"
    and pick: "pick [] = []" "\<And>xs ys. pick (xs @ ys) = pick xs @ pick ys"
    and start: "good c" "okay b" "int (length acc) < n"
  shows "loop c acc b = returnQ (take (nat n) (acc @ pick (rest c)))"
  using start
proof (induction "length (rest c)" arbitrary: c acc b rule: less_induct)
  case less
  show ?case
  proof (cases "rest c = []")
    case True
    with stop [OF less.prems] less.prems(3) pick(1) show ?thesis by simp
  next
    case False
    let ?rs = "take (nat n) (rest c)"
    let ?acc = "take (nat n) (acc @ pick ?rs)"
    from step [OF less.prems False] obtain b' where b: "okay b'"
      and run: "loop c acc b = (if n \<le> int (length ?acc) \<or> int (length ?rs) < n then returnQ ?acc
        else loop (next_of c (last ?rs)) ?acc b')" by (auto simp: Let_def)
    have split: "pick (rest c) = pick ?rs @ pick (drop (nat n) (rest c))"
      using pick(2) [of ?rs "drop (nat n) (rest c)"] by simp
    show ?thesis
    proof (cases "n \<le> int (length ?acc) \<or> int (length ?rs) < n")
      case True
      then have "nat n \<le> length (acc @ pick ?rs) \<or> drop (nat n) (rest c) = []"
      proof
        assume "n \<le> int (length ?acc)"
        then show ?thesis by (simp only: length_take min_def split: if_splits) auto
      next
        assume "int (length ?rs) < n"
        then show ?thesis by (simp only: length_take min_def split: if_splits) auto
      qed
      then consider "nat n \<le> length (acc @ pick ?rs)" | "drop (nat n) (rest c) = []" by blast
      then have "take (nat n) ((acc @ pick ?rs) @ pick (drop (nat n) (rest c))) = ?acc"
      proof cases
        case 1
        then show ?thesis by (rule take_enough)
      next
        case 2
        then show ?thesis by (simp only: pick(1) append_Nil2)
      qed
      then have "take (nat n) (acc @ pick (rest c)) = ?acc" by (subst split) (simp only: append_assoc)
      with run True show ?thesis by simp
    next
      case go: False
      then have "\<not> int (length ?rs) < n" by blast
      then have len: "length ?rs = nat n" by (simp only: length_take min_def split: if_splits) auto
      have "0 < nat n" using less.prems(3) by simp
      have i: "nat n - 1 < length (rest c)" using len \<open>0 < nat n\<close> by (simp add: min_def split: if_splits)
      have "?rs \<noteq> []" using len \<open>0 < nat n\<close> by (metis length_greater_0_conv)
      then have "last ?rs = rest c ! (nat n - 1)" using len \<open>0 < nat n\<close> by (simp add: last_conv_nth)
      with next_block [OF less.prems(1), unfolded \<open>last ?rs = _\<close> [symmetric]] i \<open>0 < nat n\<close> have
        nxt: "good (next_of c (last ?rs))" "rest (next_of c (last ?rs)) = drop (nat n) (rest c)" by simp_all
      have short: "int (length ?acc) < n" using go by (simp only: not_le de_Morgan_disj)
      from less.hyps [OF _ nxt(1) b short] nxt(2) \<open>0 < nat n\<close> False
      have "loop (next_of c (last ?rs)) ?acc b' = returnQ (take (nat n) (?acc @ pick (drop (nat n) (rest c))))"
        by simp
      moreover have "?acc = acc @ pick ?rs"
        using short by (rule take_short)
      ultimately have "loop c acc b = returnQ (take (nat n) ((acc @ pick ?rs) @ pick (drop (nat n) (rest c))))"
        using run go by (simp only: if_False)
      then show ?thesis by (subst split) (simp only: append_assoc)
    qed
  qed
qed

section \<open>Which boards are shown\<close>

lemma map_of_put_each:
  "map_of (fold (\<lambda>i. put_row i (f i)) ids m) j = (if j \<in> set ids then Some (f j) else map_of m j)"
  by (induction ids arbitrary: m) (auto simp: map_of_put_row)

lemma map_of_pick_each:
  "map_of (fold (\<lambda>i out. case g i of Some b \<Rightarrow> put_row i b out | None \<Rightarrow> out) ids m) j =
    (if j \<in> set ids \<and> g j \<noteq> None then g j else map_of m j)"
  by (induction ids arbitrary: m) (auto simp: map_of_put_row split: option.splits)

definition visibility_ok :: "store \<Rightarrow> (int \<times> bool) list \<Rightarrow> bool" where
  "visibility_ok s m \<longleftrightarrow> (\<forall>i v. map_of m i = Some v \<longrightarrow> v = board_visible s None i)"

lemma boards_by_id: "map_of (selectBoardsByIDs ids r) i = (if i \<in> set ids then selectBoardByID i r else None)"
  unfolding selectBoardsByIDs_def selectBoardByID_def map_of_pick_each by simp

lemma first_seen_Nil: "first_seen xs = [] \<longleftrightarrow> xs = []"
  by (metis set_empty set_first_seen)

lemma visibility_shown:
  "visibility_ok s m \<Longrightarrow> map_of m i \<noteq> None \<Longrightarrow> shown m i = board_visible s None i"
  by (auto simp: visibility_ok_def shown_def)

lemma resolveBoardVisibility_run:
  assumes "resolveBoardVisibility e posts m s = Inr m'" "visibility_ok s m"
  shows "visibility_ok s m' \<and> (\<forall>p \<in> set posts. shown m' (post_BoardID p) = board_visible s None (post_BoardID p))"
proof -
  have "visibility_ok s m' \<and> (\<forall>p \<in> set posts. map_of m' (post_BoardID p) \<noteq> None)"
    using assms
    by (auto simp: resolveBoardVisibility_def read_repo_def bindE_eq_Inr Let_def visibility_ok_def map_of_put_each
        boards_by_id board_visible_iff first_seen_Nil filter_empty_conv split: if_splits option.splits)
  then show ?thesis by (simp add: visibility_shown)
qed

lemma resolveBoardVisibility_returns:
  "env_fault e ''select boards by ids for tag post visibility'' = None \<Longrightarrow> \<exists>m'. resolveBoardVisibility e posts m s = Inr m'"
  by (auto simp: resolveBoardVisibility_def read_repo_def Let_def bindE_def)

section \<open>The posts of a tag\<close>

definition tagged_after :: "store \<Rightarrow> string \<Rightarrow> int \<Rightarrow> post list" where
  "tagged_after s name cursor =
     filter (after_cursor post_ID cursor)
       (newest_first post_ID (tagged_rows (st_tags s) (st_post_tags s) name (st_posts s)))"

lemma tagged_after_block:
  "0 < n \<Longrightarrow> selectPublishedPostsByTagName (st_tags s) (st_post_tags s) name n cursor (st_posts s) =
    take (nat n) (tagged_after s name cursor)"
  by (simp add: selectPublishedPostsByTagName_page page_of_def tagged_after_def take_int_def)

lemma tagged_after_next:
  "in_range post_ID (st_posts s) \<Longrightarrow> i < length (tagged_after s name cursor) \<Longrightarrow>
    tagged_after s name (post_ID (tagged_after s name cursor ! i)) = drop (Suc i) (tagged_after s name cursor)"
  unfolding tagged_after_def by (rule tag_pages.remaining_next [unfolded tag_pages.remaining_def])

abbreviation tag_faults :: "env \<Rightarrow> bool" where
  "tag_faults e \<equiv> env_fault e ''select published posts by tag name'' \<noteq> None \<or>
     env_fault e ''select boards by ids for tag post visibility'' \<noteq> None"

lemma tag_posts_loop_result:
  assumes "in_range post_ID (st_posts s)" "\<not> tag_faults e" "0 < n"
  shows "tag_posts_loop e s name n cursor [] [] =
    returnQ (take (nat n) (filter (\<lambda>p. board_visible s None (post_BoardID p)) (tagged_after s name cursor)))"
proof -
  let ?pick = "filter (\<lambda>p. board_visible s None (post_BoardID p))"
  note block = tagged_after_block [OF assms(3)]
  have read: "read_repo e ''select published posts by tag name'' x = Inr x" for x :: "post list"
    using assms(2) by (simp add: read_repo_def)
  have "tag_posts_loop e s name n cursor [] [] = returnQ (take (nat n) ([] @ ?pick (tagged_after s name cursor)))"
  proof (rule scan_loop [where loop = "tag_posts_loop e s name n" and rest = "tagged_after s name" and pick = ?pick
        and okay = "visibility_ok s" and good = "\<lambda>_. True" and next_of = "\<lambda>_. post_ID"])
    fix c and acc :: "post list" and b assume a: "int (length acc) < n" "tagged_after s name c = []"
    then show "tag_posts_loop e s name n c acc b = returnQ acc"
      by (subst tag_posts_loop.simps) (simp add: block read)
  next
    fix c and acc :: "post list" and b assume a: "visibility_ok s b" "int (length acc) < n" "tagged_after s name c \<noteq> []"
    let ?rs = "take (nat n) (tagged_after s name c)"
    obtain b' where r: "resolveBoardVisibility e ?rs b s = Inr b'"
      using resolveBoardVisibility_returns assms(2) by blast
    note v = resolveBoardVisibility_run [OF r a(1)]
    have "?rs \<noteq> []" using a(3) assms(3) by simp
    moreover have "collect n (\<lambda>p. shown b' (post_BoardID p)) ?rs acc = take (nat n) (acc @ ?pick ?rs)"
      using v by (simp add: collect_take [OF a(2)] cong: filter_cong)
    ultimately have "tag_posts_loop e s name n c acc b =
        (let acc' = take (nat n) (acc @ ?pick ?rs) in
         if n \<le> int (length acc') \<or> int (length ?rs) < n then returnQ acc'
         else tag_posts_loop e s name n (post_ID (last ?rs)) acc' b')"
      using a(2) by (subst tag_posts_loop.simps) (simp add: block read r Let_def)
    with v show "\<exists>b'. visibility_ok s b' \<and> tag_posts_loop e s name n c acc b =
        (let rs = ?rs; acc' = take (nat n) (acc @ ?pick rs) in
         if n \<le> int (length acc') \<or> int (length rs) < n then returnQ acc'
         else tag_posts_loop e s name n (post_ID (last rs)) acc' b')"
      by (auto simp: Let_def)
  next
    fix c assume "0 < n" "nat n \<le> length (tagged_after s name c)"
    then show "True \<and> tagged_after s name (post_ID (tagged_after s name c ! (nat n - 1))) = drop (nat n) (tagged_after s name c)"
      using tagged_after_next [OF assms(1), of "nat n - 1" name c] by simp
  qed (use assms in \<open>auto simp: visibility_ok_def\<close>)
  then show ?thesis by simp
qed

section \<open>How many posts a tag has\<close>

definition relations_ok :: "post_tag_repo \<Rightarrow> bool" where
  "relations_ok r \<longleftrightarrow> post_tags_ok r \<and> (\<forall>x \<in> set (row_values r). 0 < pt_PostID x \<and> pt_PostID x < 2 ^ 63)"

lemma relations_distinct:
  assumes "post_tags_ok r"
  shows "distinct (map pt_PostID (filter (\<lambda>p. pt_TagID p = tagID \<and> pt_Status p = PostTagStatusActive) (row_values r)))"
proof -
  have "distinct (map pt_PostID (filter (\<lambda>p. pt_TagID p = tagID \<and> P p) (row_values r)))"
    if "distinct (map fst r)" "\<forall>(key, p) \<in> set r. key = (pt_PostID p, pt_TagID p)" for P
    using that
  proof (induction r)
    case (Cons row r)
    have key: "(pt_PostID q, pt_TagID q) \<in> fst ` set r" if "q \<in> snd ` set r" for q
      using that Cons.prems(2) by force
    have "pt_PostID (snd row) \<noteq> pt_PostID q" if "q \<in> snd ` set r" "pt_TagID (snd row) = tagID" "pt_TagID q = tagID" for q
    proof
      assume "pt_PostID (snd row) = pt_PostID q"
      with key [OF that(1)] that have "(pt_PostID (snd row), pt_TagID (snd row)) \<in> fst ` set r" by simp
      with Cons.prems show False by (cases row) simp
    qed
    with Cons show ?case by (cases row) auto
  qed simp
  with assms show ?thesis by (simp add: post_tags_ok_def)
qed

interpretation relation_pages: cursor_source relations_ok
  "\<lambda>r limit lastID. selectActiveByTagID tagID limit lastID r" pt_PostID
  "\<lambda>r. filter (\<lambda>p. pt_TagID p = tagID \<and> pt_Status p = PostTagStatusActive) (row_values r)"
  for tagID
proof unfold_locales
  show "0 < limit \<Longrightarrow> selectActiveByTagID tagID limit lastID r = page_of pt_PostID limit lastID
      (filter (\<lambda>p. pt_TagID p = tagID \<and> pt_Status p = PostTagStatusActive) (row_values r))" for r limit lastID
    by (simp add: selectActiveByTagID_def page_of_filter [symmetric] after_cursor_def conj_assoc)
qed (auto simp: relations_ok_def relations_distinct)

definition relations_after :: "store \<Rightarrow> int \<Rightarrow> int \<Rightarrow> post_tag list" where
  "relations_after s tagID lastID =
     filter (after_cursor pt_PostID lastID)
       (newest_first pt_PostID
          (filter (\<lambda>p. pt_TagID p = tagID \<and> pt_Status p = PostTagStatusActive) (row_values (st_post_tags s))))"

lemma tag_ids_loop_result:
  assumes "relations_ok (st_post_tags s)" "env_fault e ''select active post tags by tag id'' = None"
  shows "tag_ids_loop e s tagID lastID postIDs =
    returnQ (fold List.insert (map pt_PostID (relations_after s tagID lastID)) postIDs)"
proof (induction "length (relations_after s tagID lastID)" arbitrary: lastID postIDs rule: less_induct)
  case less
  let ?L = "relations_after s tagID lastID"
  have f: "selectActiveByTagID tagID MaxPageLimit lastID (st_post_tags s) = take 1000 ?L"
    using relation_pages.fetch_page [OF assms(1), of MaxPageLimit tagID lastID]
    by (simp add: page_of_def take_int_def MaxPageLimit_def relations_after_def)
  note loop = tag_ids_loop.simps [of e s tagID lastID postIDs]
  consider "?L = []" | "?L \<noteq> []" "length ?L < 1000" | "1000 \<le> length ?L" by linarith
  then show ?case
  proof cases
    case 1
    then show ?thesis using assms(2) by (simp add: loop f read_repo_def)
  next
    case 2
    then show ?thesis using assms(2) by (simp add: loop f [unfolded MaxPageLimit_def] read_repo_def MaxPageLimit_def Let_def)
  next
    case 3
    let ?x = "?L ! 999"
    have t: "take 1000 ?L \<noteq> []" "last (take 1000 ?L) = ?x" using 3 last_take [of 1000 ?L] by auto
    have n: "relations_after s tagID (pt_PostID ?x) = drop 1000 ?L"
      using relation_pages.remaining_next [OF assms(1), of 999 tagID lastID] 3
      by (simp add: relation_pages.remaining_def relations_after_def)
    have "tag_ids_loop e s tagID lastID postIDs =
        tag_ids_loop e s tagID (pt_PostID ?x) (fold List.insert (map pt_PostID (take 1000 ?L)) postIDs)"
      using 3 assms(2) t by (simp add: loop f [unfolded MaxPageLimit_def] read_repo_def MaxPageLimit_def Let_def)
    also have "\<dots> = returnQ (fold List.insert (map pt_PostID (drop 1000 ?L))
        (fold List.insert (map pt_PostID (take 1000 ?L)) postIDs))"
      using less [of "pt_PostID ?x"] n 3 by simp
    also have "\<dots> = returnQ (fold List.insert (map pt_PostID (take 1000 ?L @ drop 1000 ?L)) postIDs)"
      unfolding map_append fold_append comp_def ..
    finally show ?thesis by simp
  qed
qed

lemma fold_insert_set: "set (fold List.insert xs ys) = set xs \<union> set ys" "distinct ys \<Longrightarrow> distinct (fold List.insert xs ys)"
  by (induction xs arbitrary: ys) auto

lemma live_posts_by_id:
  "map_of (SelectPostsByIDsIncludingUnpublished ids r) i =
    (case db_get r i of Some p \<Rightarrow> if i \<in> set ids \<and> post_Status p \<noteq> PostStatusDeleted then Some p else None | None \<Rightarrow> None)"
proof -
  have "map_of (fold (\<lambda>i out. case db_get r i of
             Some p \<Rightarrow> if post_Status p = PostStatusDeleted then out else put_row i p out
           | None \<Rightarrow> out) ids m) i =
    (case db_get r i of Some p \<Rightarrow> if i \<in> set ids \<and> post_Status p \<noteq> PostStatusDeleted then Some p else map_of m i
     | None \<Rightarrow> map_of m i)" for m
    by (induction ids arbitrary: m) (auto simp: map_of_put_row split: option.splits)
  then show ?thesis by (simp add: SelectPostsByIDsIncludingUnpublished_def split: option.splits)
qed

lemma live_posts_distinct: "distinct (map fst (SelectPostsByIDsIncludingUnpublished ids r))"
proof -
  have "distinct (map fst m) \<Longrightarrow> distinct (map fst (fold (\<lambda>i out. case db_get r i of
             Some p \<Rightarrow> if post_Status p = PostStatusDeleted then out else put_row i p out
           | None \<Rightarrow> out) ids m))" for m
    by (induction ids arbitrary: m) (auto simp: distinct_put_row split: option.splits)
  then show ?thesis by (simp add: SelectPostsByIDsIncludingUnpublished_def)
qed

definition is_listed :: "store \<Rightarrow> int \<Rightarrow> bool" where
  "is_listed s i \<longleftrightarrow> (\<exists>p. db_get (st_posts s) i = Some p \<and> post_Status p = PostStatusPublished \<and>
     board_visible s None (post_BoardID p))"

lemma length_filter_keys:
  assumes "distinct (map fst m)"
  shows "length (filter Q (map snd m)) = card {i. \<exists>p. map_of m i = Some p \<and> Q p}"
proof -
  have "{i. \<exists>p. map_of m i = Some p \<and> Q p} = set (map fst (filter (Q \<circ> snd) m))"
    using assms by (auto simp: image_iff dest: map_of_SomeD intro: map_of_is_SomeI)
  moreover have "distinct (map fst (filter (Q \<circ> snd) m))" using assms by (simp add: distinct_map_filter)
  ultimately show ?thesis using distinct_card [of "map fst (filter (Q \<circ> snd) m)"] by (simp add: filter_map)
qed

lemma countVisiblePostsFromIDs_result:
  assumes "countVisiblePostsFromIDs e ids s = Inr n"
  shows "n = int (card {i \<in> set ids. is_listed s i})"
proof (cases "ids = []")
  case True
  with assms show ?thesis by (simp add: countVisiblePostsFromIDs_def)
next
  case False
  let ?m = "SelectPostsByIDsIncludingUnpublished ids (st_posts s)"
  let ?posts = "filter (\<lambda>p. post_Status p = PostStatusPublished) (row_values ?m)"
  from assms False obtain v where v: "resolveBoardVisibility e ?posts [] s = Inr v"
    and n: "n = int (length (filter (\<lambda>p. shown v (post_BoardID p)) ?posts))"
    by (auto simp: countVisiblePostsFromIDs_def bindE_eq_Inr Let_def read_repo_def split: option.splits)
  have "visibility_ok s []" by (simp add: visibility_ok_def)
  note b = resolveBoardVisibility_run [OF v this]
  have "filter (\<lambda>p. shown v (post_BoardID p)) ?posts =
      filter (\<lambda>p. post_Status p = PostStatusPublished \<and> board_visible s None (post_BoardID p)) (row_values ?m)"
    using b by (simp add: conj_commute cong: filter_cong) (auto intro!: filter_cong)
  then have "n = int (card {i. \<exists>p. map_of ?m i = Some p \<and> post_Status p = PostStatusPublished \<and>
      board_visible s None (post_BoardID p)})"
    using n length_filter_keys [OF live_posts_distinct] by simp
  moreover have "{i. \<exists>p. map_of ?m i = Some p \<and> post_Status p = PostStatusPublished \<and>
      board_visible s None (post_BoardID p)} = {i \<in> set ids. is_listed s i}"
    by (auto simp: live_posts_by_id is_listed_def split: option.splits if_splits)
  ultimately show ?thesis by simp
qed

lemma countVisiblePostsFromIDs_answers:
  assumes "env_fault e ''select posts by ids for post list count'' = None"
    and "env_fault e ''select boards by ids for tag post visibility'' = None"
  shows "\<exists>n. countVisiblePostsFromIDs e ids s = Inr n"
proof -
  obtain v where "resolveBoardVisibility e (filter (\<lambda>p. post_Status p = PostStatusPublished)
      (row_values (SelectPostsByIDsIncludingUnpublished ids (st_posts s)))) [] s = Inr v"
    using resolveBoardVisibility_returns [OF assms(2)] by blast
  with assms(1) show ?thesis by (simp add: countVisiblePostsFromIDs_def read_repo_def bindE_def Let_def)
qed

definition shown_tagged :: "store \<Rightarrow> string \<Rightarrow> int \<Rightarrow> post list" where
  "shown_tagged s name cursor =
     filter (\<lambda>p. board_visible s None (post_BoardID p)) (tagged_after s name cursor)"

lemma tag_total:
  assumes "in_range post_ID (st_posts s)" "relations_ok (st_post_tags s)"
    and "Tag_selectByName name (st_tags s) = Some tag"
    and "set ids = set (map pt_PostID (relations_after s (tag_ID tag) 0))"
  shows "card {i \<in> set ids. is_listed s i} = length (shown_tagged s name 0)"
proof -
  have zero: "after_cursor rid 0 = (\<lambda>_. True)" for rid :: "'x \<Rightarrow> int" by (simp add: after_cursor_def fun_eq_iff)
  let ?rows = "tagged_rows (st_tags s) (st_post_tags s) name (st_posts s)"
  let ?shown = "filter (\<lambda>p. board_visible s None (post_BoardID p)) ?rows"
  have "set ids = set (selectActivePostIDSetByTagID (tag_ID tag) (st_post_tags s))"
    using assms(4) by (simp add: relations_after_def zero selectActivePostIDSetByTagID_def)
  moreover have "db_get (st_posts s) i = Some p \<longleftrightarrow> p \<in> set (db_rows (st_posts s)) \<and> post_ID p = i" for i p
    using assms(1) db_get_row [of post_ID] unfolding in_range_def by blast
  ultimately have "{i \<in> set ids. is_listed s i} = post_ID ` set ?shown"
    using assms(3) by (auto simp: is_listed_def tagged_rows_def)
  moreover obtain P where "?rows = filter P (db_rows (st_posts s))" using tagged_rows_filter by blast
  then have "distinct (map post_ID ?shown)" using in_range_distinct [OF assms(1)] by (simp add: distinct_map_filter)
  ultimately have "card {i \<in> set ids. is_listed s i} = length ?shown"
    using distinct_card [of "map post_ID ?shown"] by simp
  also have "\<dots> = length (shown_tagged s name 0)"
    by (simp add: shown_tagged_def tagged_after_def zero filter_newest_first)
  finally show ?thesis .
qed

section \<open>What a post is shown as\<close>

lemma list_all2_mono':
  "list_all2 P xs ys \<Longrightarrow> (\<And>x y. x \<in> set xs \<Longrightarrow> P x y \<Longrightarrow> Q x y) \<Longrightarrow> list_all2 Q xs ys"
  by (induction rule: list_all2_induct) auto

lemma users_by_id:
  "map_of (selectUsersByIDsIncludingDeleted ids r) i = (if i \<in> set ids then db_get r i else None)"
proof -
  have "map_of (fold (\<lambda>i out. if map_of out i \<noteq> None then out
      else case db_get r i of Some u \<Rightarrow> put_row i u out | None \<Rightarrow> out) ids m) i =
    (if i \<in> set ids \<and> map_of m i = None then db_get r i else map_of m i)" for m
    by (induction ids arbitrary: m) (auto simp: map_of_put_row split: option.splits)
  then show ?thesis by (simp add: selectUsersByIDsIncludingDeleted_def)
qed

lemma set_uniqueInt64s: "set (uniqueInt64s ids) = set ids"
  by (simp add: uniqueInt64s_def first_seen_fold)

lemma UserUUIDsByIDs_run:
  assumes "UserUUIDsByIDs e ids s = Inr m" "i \<in> set ids"
  shows "\<exists>u. db_get (st_users s) i = Some u \<and> map_of m i = Some (user_UUID u)"
proof -
  let ?ids = "uniqueInt64s ids"
  have r: "uuids_of (selectUsersByIDsIncludingDeleted ?ids (st_users s)) ?ids [] = Inr m"
    using assms(1) by (auto simp: UserUUIDsByIDs_def Let_def read_repo_def split: option.splits)
  have "i \<in> set ?ids" using assms(2) by (simp add: set_uniqueInt64s)
  with uuids_of_keeps [OF r] show ?thesis by (auto simp: map_add_def users_by_id)
qed

definition post_shown :: "store \<Rightarrow> post \<Rightarrow> post_model \<Rightarrow> bool" where
  "post_shown s p m \<longleftrightarrow> (\<exists>u b. db_get (st_users s) (post_AuthorID p) = Some u \<and>
     selectBoardByID (post_BoardID p) (st_boards s) = Some b \<and>
     m = (PostFromEntity p)\<lparr>pm_AuthorUUID := user_UUID u, pm_BoardUUID := board_UUID b\<rparr>)"

lemma postsFromEntities_run:
  assumes "postsFromEntities e posts s = Inr ms"
  shows "list_all2 (post_shown s) posts ms"
proof -
  let ?boards = "selectBoardsByIDs (first_seen (map post_BoardID posts)) (st_boards s)"
  from assms obtain uuids where u: "UserUUIDsForPosts e posts s = Inr uuids"
    and m: "mapE (\<lambda>post. case map_of ?boards (post_BoardID post) of
        None \<Rightarrow> Inl (WrapRepository ''select boards by ids including missing'' (Some (External ''post board not found'' None)))
      | Some board \<Rightarrow> postModelFromEntity (board_UUID board) uuids post) posts = Inr ms"
    by (auto simp: postsFromEntities_def bindE_eq_Inr read_repo_def split: option.splits)
  show ?thesis
    using m [unfolded mapE_Inr]
  proof (rule list_all2_mono')
    fix p m assume p: "p \<in> set posts" and r: "(case map_of ?boards (post_BoardID p) of
        None \<Rightarrow> Inl (WrapRepository ''select boards by ids including missing'' (Some (External ''post board not found'' None)))
      | Some board \<Rightarrow> postModelFromEntity (board_UUID board) uuids p) = Inr m"
    obtain v where "db_get (st_users s) (post_AuthorID p) = Some v" "map_of uuids (post_AuthorID p) = Some (user_UUID v)"
      using UserUUIDsByIDs_run [OF u [unfolded UserUUIDsForPosts_def], of "post_AuthorID p"] p by auto
    with r p show "post_shown s p m"
      by (auto simp: post_shown_def boards_by_id postModelFromEntity_def split: option.splits)
  qed
qed

text \<open>A post whose author is stored and whose board is visible can be shown.\<close>

definition authored :: "store \<Rightarrow> bool" where
  "authored s \<longleftrightarrow> (\<forall>p \<in> set (db_rows (st_posts s)). db_get (st_users s) (post_AuthorID p) \<noteq> None)"

lemma uuids_of_returns: "\<forall>i \<in> set ids. map_of usersByID i \<noteq> None \<Longrightarrow> \<exists>m. uuids_of usersByID ids out = Inr m"
  by (induction ids arbitrary: out) auto

lemma UserUUIDsByIDs_returns:
  assumes "\<forall>label. env_fault e label = None" "\<forall>i \<in> set ids. db_get (st_users s) i \<noteq> None"
  shows "\<exists>m. UserUUIDsByIDs e ids s = Inr m"
  using assms uuids_of_returns [of "uniqueInt64s ids" "selectUsersByIDsIncludingDeleted (uniqueInt64s ids) (st_users s)" "[]"]
  by (auto simp: UserUUIDsByIDs_def Let_def read_repo_def set_uniqueInt64s users_by_id bindE_def)

lemma mapE_returns: "\<forall>x \<in> set xs. \<exists>y. f x = Inr y \<Longrightarrow> \<exists>ys. mapE f xs = Inr ys"
  by (induction xs) (auto simp: bindE_def)

lemma postsFromEntities_returns:
  assumes "\<forall>label. env_fault e label = None"
    "\<forall>p \<in> set posts. db_get (st_users s) (post_AuthorID p) \<noteq> None \<and> board_visible s None (post_BoardID p)"
  shows "\<exists>ms. postsFromEntities e posts s = Inr ms"
proof -
  let ?boards = "selectBoardsByIDs (first_seen (map post_BoardID posts)) (st_boards s)"
  obtain uuids where u: "UserUUIDsByIDs e (map post_AuthorID posts) s = Inr uuids"
    using UserUUIDsByIDs_returns [of e "map post_AuthorID posts" s] assms by auto
  have "\<forall>p \<in> set posts. \<exists>m. (case map_of ?boards (post_BoardID p) of
        None \<Rightarrow> Inl (WrapRepository ''select boards by ids including missing'' (Some (External ''post board not found'' None)))
      | Some board \<Rightarrow> postModelFromEntity (board_UUID board) uuids p) = Inr m"
  proof
    fix p assume p: "p \<in> set posts"
    then obtain v where "map_of uuids (post_AuthorID p) = Some v"
      using UserUUIDsByIDs_run [OF u, of "post_AuthorID p"] by auto
    moreover obtain b where "selectBoardByID (post_BoardID p) (st_boards s) = Some b"
      using p assms(2) by (auto simp: board_visible_def)
    ultimately show "\<exists>m. (case map_of ?boards (post_BoardID p) of
        None \<Rightarrow> Inl (WrapRepository ''select boards by ids including missing'' (Some (External ''post board not found'' None)))
      | Some board \<Rightarrow> postModelFromEntity (board_UUID board) uuids p) = Inr m"
      using p by (auto simp: boards_by_id postModelFromEntity_def)
  qed
  from mapE_returns [OF this] u assms(1) show ?thesis
    by (simp add: postsFromEntities_def UserUUIDsForPosts_def read_repo_def bindE_def)
qed

lemma post_page_returns:
  assumes "\<forall>label. env_fault e label = None"
    "\<forall>x \<in> set results. db_get (st_users s) (post_AuthorID (post_of x)) \<noteq> None \<and> board_visible s None (post_BoardID (post_of x))"
  shows "\<exists>l. post_page e limit cursorValue results post_of next_of s = Inr l"
proof -
  let ?kept = "if limit < int (length results) then take (nat limit) results else results"
  have "\<exists>ms. postsFromEntities e (map post_of ?kept) s = Inr ms"
    by (rule postsFromEntities_returns [OF assms(1)]) (use assms(2) in \<open>auto dest: in_set_takeD split: if_splits\<close>)
  then show ?thesis by (auto simp: post_page_def Let_def bindE_def)
qed

section \<open>Lists through the cache\<close>

lemma through_cache_miss:
  assumes "\<not> in_cache clk cacheKey c"
  shows "\<exists>c'. through_cache clk cacheKey ttl op payload project loaded c =
    (case loaded of Inl err \<Rightarrow> Inl (case NormalizeCacheLoadError op (Some err) of Some err' \<Rightarrow> err' | None \<Rightarrow> err)
      | Inr v \<Rightarrow> (case project v of Some a \<Rightarrow> Inr a | None \<Rightarrow> Inl (Mark ErrCacheFailure payload)), c')"
  using assms
  by (auto simp: through_cache_def GetOrSetWithTTL_def in_cache_def split: prod.splits option.splits sum.splits)

lemma cached_posts_answers: "loaded \<noteq> None \<Longrightarrow> \<exists>r c'. cached_posts h clk cacheKey op payload loaded c = Some (r, c')"
  by (auto simp: cached_posts_def Let_def split: sum.splits)

lemma cached_posts_loaded:
  assumes "\<not> in_cache clk cacheKey c" "cached_posts h clk cacheKey op payload loaded c = Some (Inr l, c')"
  shows "loaded = Some (Inr l)"
proof -
  let ?ask = "\<lambda>v. through_cache clk cacheKey (pq_ListTTLSeconds h) op payload as_post_list v c"
  from assms obtain r where r: "loaded = Some r" by (cases loaded) (simp_all add: cached_posts_def Let_def)
  show ?thesis
  proof (cases r)
    case (Inl err)
    obtain c1 err' where "?ask (Inl err) = (Inl err', c1)" using through_cache_miss [OF assms(1), of "pq_ListTTLSeconds h" op payload as_post_list "Inl err"] by auto
    with assms r Inl show ?thesis by (simp add: cached_posts_def Let_def)
  next
    case (Inr l0)
    obtain c1 where "?ask (Inr (CachedPostList l0)) = (Inr l0, c1)"
      using through_cache_miss [OF assms(1), of "pq_ListTTLSeconds h" op payload as_post_list "Inr (CachedPostList l0)"] by auto
    with assms r Inr show ?thesis by (simp add: cached_posts_def Let_def)
  qed
qed

lemma cached_posts_miss:
  assumes "\<not> in_cache clk cacheKey c"
  shows "\<exists>c'. cached_posts h clk cacheKey op payload (Some (Inr l)) c = Some (Inr l, c')"
  using through_cache_miss [OF assms, of "pq_ListTTLSeconds h" op payload as_post_list "Inr (CachedPostList l)"] assms
  by (auto simp: cached_posts_def Let_def)

lemma with_total_run:
  "with_total cacheKey listed counted = Some (Inr l, c) \<longleftrightarrow>
    (\<exists>l0 c0 n. listed = Some (Inr l0, c0) \<and> counted = Some (Inr n) \<and> l = l0\<lparr>pl_TotalCount := n\<rparr> \<and>
      c = set_entry cacheKey (CachedPostList l) c0)"
  by (auto simp: with_total_def Let_def split: option.splits sum.splits)

lemma with_total_answers: "listed \<noteq> None \<Longrightarrow> counted \<noteq> None \<Longrightarrow> with_total cacheKey listed counted \<noteq> None"
  by (auto simp: with_total_def Let_def split: option.splits sum.splits)

lemma listed_answers:
  assumes "loaded \<noteq> None"
  shows "\<exists>r c'. with_total cacheKey (cached_posts h clk cacheKey op payload loaded c) (Some counted) = Some (r, c')"
proof -
  obtain r c1 where "cached_posts h clk cacheKey op payload loaded c = Some (r, c1)"
    using cached_posts_answers [OF assms] by blast
  then have "with_total cacheKey (cached_posts h clk cacheKey op payload loaded c) (Some counted) \<noteq> None"
    by (intro with_total_answers) simp_all
  then show ?thesis by (cases "with_total cacheKey (cached_posts h clk cacheKey op payload loaded c) (Some counted)") auto
qed

lemma post_page_run:
  assumes "post_page e limit cursorValue results post_of next_of s = Inr l" "1 \<le> limit"
  shows "list_all2 (post_shown s) (map post_of (take (nat limit) results)) (pl_Posts l) \<and> pl_Limit l = limit \<and>
    pl_HasMore l = (limit < int (length results)) \<and>
    pl_NextCursor l = (if limit < int (length results) then Some (next_of (results ! (nat limit - 1))) else None)"
proof (cases "limit < int (length results)")
  case True
  with assms have "take (nat limit) results \<noteq> []" "last (take (nat limit) results) = results ! (nat limit - 1)"
    using last_take [of "nat limit" results] by auto
  with True assms postsFromEntities_run show ?thesis by (auto simp: post_page_def Let_def bindE_eq_Inr)
next
  case False
  with assms postsFromEntities_run show ?thesis by (auto simp: post_page_def Let_def bindE_eq_Inr)
qed

section \<open>The list of a tag\<close>

lemma loadPublishedPostsByTag_page:
  assumes "in_range post_ID (st_posts s)" "\<forall>label. env_fault e label = None" "1 \<le> limit" "limit \<le> MaxPageLimit"
    and "Tag_selectByName name (st_tags s) \<noteq> None"
  shows "loadPublishedPostsByTag e name limit lastID cursorValue s =
    Some (post_page e limit cursorValue (take (nat (limit + 1)) (shown_tagged s name lastID)) id (\<lambda>p. EncodeOpaqueCursor (post_ID p)) s)"
proof -
  have read: "read_repo e label x = Inr x" for label and x :: 'x using assms(2) by (simp add: read_repo_def)
  have "tag_posts_loop e s name (limit + 1) lastID [] [] = returnQ (take (nat (limit + 1)) (shown_tagged s name lastID))"
    using tag_posts_loop_result [OF assms(1), of e "limit + 1" name lastID] assms(2,3) by (simp add: shown_tagged_def)
  with assms(3-5) show ?thesis
    by (auto simp: loadPublishedPostsByTag_def read found_def CursorFetchLimit_def RequirePositiveLimit_def)
qed

lemma shown_tagged_ready:
  assumes "authored s"
  shows "\<forall>p \<in> set (shown_tagged s name lastID). db_get (st_users s) (post_AuthorID p) \<noteq> None \<and> board_visible s None (post_BoardID p)"
  using assms by (auto simp: shown_tagged_def tagged_after_def authored_def newest_first_def tagged_rows_def)

definition tag_page_ok :: "store \<Rightarrow> string \<Rightarrow> int \<Rightarrow> int \<Rightarrow> post_list \<Rightarrow> bool" where
  "tag_page_ok s name lastID limit l \<longleftrightarrow>
     list_all2 (post_shown s) (take (nat limit) (shown_tagged s name lastID)) (pl_Posts l) \<and>
     pl_NextCursor l = (if limit < int (length (shown_tagged s name lastID))
       then Some (EncodeOpaqueCursor (post_ID (shown_tagged s name lastID ! (nat limit - 1)))) else None) \<and>
     pl_TotalCount l = int (length (shown_tagged s name 0))"

lemma tag_page_shown:
  assumes "post_page e limit cursorValue (take (nat (limit + 1)) (shown_tagged s name lastID)) id (\<lambda>p. EncodeOpaqueCursor (post_ID p)) s = Inr l"
    and "1 \<le> limit"
  shows "tag_page_ok s name lastID limit (l\<lparr>pl_TotalCount := int (length (shown_tagged s name 0))\<rparr>)"
  using post_page_run [OF assms] assms(2) by (auto simp: tag_page_ok_def min_def nat_add_distrib split: if_splits)

text \<open>What the query works with, once its arguments are good.\<close>

lemma GetPostsByTag_run:
  fixes e :: env and s :: store and tagName :: string
  defines "name \<equiv> normalizeTagName (env_lower e) tagName"
  assumes "in_range post_ID (st_posts s)" "relations_ok (st_post_tags s)" "\<forall>label. env_fault e label = None"
    and "normalizeRankingSortWindow (env_lower e) sortValue windowValue PostFeedSortLatest True = Inr (PostFeedSortLatest, window)"
    and "DecodeOpaqueCursor cursor = Inr lastID" "RequirePositiveLimit limit = None" "name \<noteq> []" "length name \<le> maxTagLength"
    and "Tag_selectByName name (st_tags s) = Some tag"
  shows "GetPostsByTag h e clk tagName sortValue windowValue limit cursor s c =
    with_total (key_TagPostList name limit lastID)
      (cached_posts h clk (key_TagPostList name limit lastID) ''load tag post list cache'' ''decode tag post list cache payload''
        (loadPublishedPostsByTag e name limit lastID cursor s) c)
      (Some (Inr (int (length (shown_tagged s name 0)))))"
proof -
  have read: "read_repo e label x = Inr x" for label and x :: 'x using assms(4) by (simp add: read_repo_def)
  define ids where "ids = fold List.insert (map pt_PostID (relations_after s (tag_ID tag) 0)) []"
  have ids: "loadActiveTagPostIDSet e (tag_ID tag) s = returnQ ids"
    using tag_ids_loop_result [OF assms(3)] assms(4) by (simp add: loadActiveTagPostIDSet_def ids_def)
  obtain n where n: "countVisiblePostsFromIDs e ids s = Inr n" using countVisiblePostsFromIDs_answers assms(4) by blast
  have "n = int (length (shown_tagged s name 0))"
    using countVisiblePostsFromIDs_result [OF n] tag_total [OF assms(2,3,10), of ids] by (simp add: ids_def fold_insert_set)
  with assms(5-10) n ids show ?thesis
    by (simp add: GetPostsByTag_def name_def [symmetric] Let_def read bindE_def found_def not_less)
qed

text \<open>
  C16: the list of a tag. With good arguments it answers, and when the list is not in the cache, with a page: newest first and
  from the cursor on, the posts that carry the tag, are published and are on a board that is not hidden, each with its
  author and board; it names a next page exactly when there are more and the cursor of the page is the last post
  shown; and the total is the number of all such posts. With any other argument it answers with an error.
\<close>

theorem tag_list:
  fixes e :: env and s :: store and h :: post_query_handler and tagName :: string
  defines "name \<equiv> normalizeTagName (env_lower e) tagName"
  assumes ok: "in_range post_ID (st_posts s)" "relations_ok (st_post_tags s)" "authored s" "\<forall>label. env_fault e label = None"
    and sort: "normalizeRankingSortWindow (env_lower e) sortValue windowValue PostFeedSortLatest True = Inr (PostFeedSortLatest, window)"
    and cursor: "DecodeOpaqueCursor cursor = Inr lastID"
  shows "\<exists>r c'. GetPostsByTag h e clk tagName sortValue windowValue limit cursor s c = Some (r, c') \<and>
    (if RequirePositiveLimit limit = None \<and> name \<noteq> [] \<and> length name \<le> maxTagLength \<and> Tag_selectByName name (st_tags s) \<noteq> None
     then in_cache clk (key_TagPostList name limit lastID) c \<or> (\<exists>l. r = Inr l \<and> tag_page_ok s name lastID limit l)
     else \<exists>err. r = Inl err)"
proof -
  have read: "read_repo e label x = Inr x" for label and x :: 'x using ok(4) by (simp add: read_repo_def)
  show ?thesis
  proof (cases "RequirePositiveLimit limit = None \<and> name \<noteq> [] \<and> length name \<le> maxTagLength \<and> Tag_selectByName name (st_tags s) \<noteq> None")
    case False
    then show ?thesis
      by (cases "Tag_selectByName name (st_tags s)")
        (auto simp: GetPostsByTag_def cursor name_def [symmetric] Let_def read bindE_def found_def split: option.splits)
  next
    case True
    then obtain tag where tag: "Tag_selectByName name (st_tags s) = Some tag" by blast
    from True have limit: "1 \<le> limit" "limit \<le> MaxPageLimit" by (auto simp: RequirePositiveLimit_def split: if_splits)
    note run = GetPostsByTag_run [OF ok(1,2,4) sort cursor, where tagName = tagName and tag = tag and limit = limit and h = h
        and clk = clk and c = c, folded name_def]
    let ?page = "post_page e limit cursor (take (nat (limit + 1)) (shown_tagged s name lastID)) id (\<lambda>p. EncodeOpaqueCursor (post_ID p)) s"
    have loaded: "loadPublishedPostsByTag e name limit lastID cursor s = Some ?page"
      using loadPublishedPostsByTag_page [OF ok(1,4) limit] True by blast
    have run': "GetPostsByTag h e clk tagName sortValue windowValue limit cursor s c = with_total (key_TagPostList name limit lastID)
        (cached_posts h clk (key_TagPostList name limit lastID) ''load tag post list cache'' ''decode tag post list cache payload''
          (Some ?page) c) (Some (Inr (int (length (shown_tagged s name 0)))))"
      using True tag run loaded by simp
    show ?thesis
    proof (cases "in_cache clk (key_TagPostList name limit lastID) c")
      case in_cache: True
      from listed_answers [of "Some ?page"] run' obtain r c' where "GetPostsByTag h e clk tagName sortValue windowValue limit cursor s c = Some (r, c')"
        by (metis option.distinct(1))
      with True in_cache show ?thesis by force
    next
      case False
      obtain l where l: "?page = Inr l"
        using post_page_returns [OF ok(4), where post_of = id and s = s and results = "take (nat (limit + 1)) (shown_tagged s name lastID)"]
          shown_tagged_ready [OF ok(3), of name lastID] in_set_takeD unfolding id_apply by metis
      from cached_posts_miss [OF False, of h] obtain c1 where
        "cached_posts h clk (key_TagPostList name limit lastID) ''load tag post list cache'' ''decode tag post list cache payload''
          (Some (Inr l)) c = Some (Inr l, c1)" by blast
      with run' l obtain c' where
        "GetPostsByTag h e clk tagName sortValue windowValue limit cursor s c = Some (Inr (l\<lparr>pl_TotalCount := int (length (shown_tagged s name 0))\<rparr>), c')"
        by (simp add: with_total_def Let_def)
      with tag_page_shown [OF l limit(1)] True show ?thesis by auto
    qed
  qed
qed

section \<open>On the forum of the examples\<close>

text \<open>A third post next to the first, one on the hidden board, all with the same tag.\<close>

definition demo_square :: store where
  "demo_square = demo_store\<lparr>
     st_posts := \<lparr>db_ID = 3, db_Data = db_Data demo_posts @ [(3, (NewPost 4 ''p3'' ''more'' ''text'' 3 1)\<lparr>post_ID := 3\<rparr>)]\<rparr>,
     st_tags := \<lparr>tag_db = \<lparr>db_ID = 1, db_Data = [(1, (NewTag 2 ''go'')\<lparr>tag_ID := 1\<rparr>)]\<rparr>, tag_NameTo = [(''go'', 1)]\<rparr>,
     st_post_tags := map (\<lambda>i. ((i, 1), NewPostTag 4 i 1)) [1, 2, 3]\<rparr>"

definition demo_queries :: post_query_handler where
  "demo_queries = \<lparr>pq_ListTTLSeconds = 30, pq_DetailTTLSeconds = 30, pq_search = None, pq_ranking = None\<rparr>"

lemma demo_square_ok:
  "in_range post_ID (st_posts demo_square)" "relations_ok (st_post_tags demo_square)" "authored demo_square"
  by (simp_all add: in_range_def db_ok_def relations_ok_def post_tags_ok_def authored_def demo_square_def demo_store_simps
      entity_eval NewPostTag_def)

lemma demo_square_go: "map post_ID (shown_tagged demo_square ''go'' 0) = [3, 1]"
  by (simp add: shown_tagged_def tagged_after_def after_cursor_def newest_first_def tagged_rows_def board_visible_def
      demo_square_def demo_store_simps entity_eval NewTag_def NewPostTag_def selectBoardByID_def Tag_selectByName_def
      selectActivePostIDSetByTagID_def)

lemma normalize_default: "normalizeRankingSortWindow lower [] [] PostFeedSortLatest allowBest = Inr (PostFeedSortLatest, [])"
  by (simp add: normalizeRankingSortWindow_def ToLower_def TrimSpace_plain Let_def)

lemma not_in_new_cache: "\<not> in_cache clk cacheKey NewInMemoryCache"
  by (simp add: in_cache_def Cache_Get_def NewInMemoryCache_def)

theorem tag_list_witness:
  "\<exists>l c'. GetPostsByTag demo_queries demo_env (\<lambda>_. 200) ''go'' [] [] 1 [] demo_square NewInMemoryCache = Some (Inr l, c') \<and>
    pl_NextCursor l = Some (EncodeOpaqueCursor 3) \<and> pl_TotalCount l = 2"
proof -
  have name: "normalizeTagName (env_lower demo_env) ''go'' = ''go''" by (simp add: normalizeTagName_def demo_env_simps ToLower_def TrimSpace_plain plain_byte_def ascii_lower_def)
  have "DecodeOpaqueCursor [] = Inr 0" by (simp add: DecodeOpaqueCursor_def TrimSpace_plain)
  note list = tag_list [OF demo_square_ok _ normalize_default this, of demo_env demo_queries "\<lambda>_. 200" "''go''" 1 NewInMemoryCache,
      unfolded name]
  have len: "length (shown_tagged demo_square ''go'' 0) = 2" using arg_cong [OF demo_square_go, of length] by simp
  have "post_ID (shown_tagged demo_square ''go'' 0 ! 0) = 3"
    using arg_cong [OF demo_square_go, of "\<lambda>xs. xs ! 0"] len by simp
  with list len show ?thesis
    by (auto simp: demo_env_simps RequirePositiveLimit_def MaxPageLimit_def maxTagLength_def not_in_new_cache tag_page_ok_def
        demo_square_def Tag_selectByName_def db_get_def)
qed

end
