(* ===== verification/RankingRules.thy ===== *)
theory RankingRules
  imports RepoRanking PostPages "HOL-Library.Product_Lexorder"
begin

text \<open>
  What the ranking promises. \<open>feed_source\<close> is the contract of a ranking: there is one order of all
  posts, and a cursor continues right after the post it names. Inside it, the loop over the blocks
  of a ranked list is shown to end with the first posts of that order that are shown. The ranking
  in memory is shown to keep the contract. Events that are delivered twice change it once.
\<close>

section \<open>Sorting\<close>

lemma insert_by_desc:
  assumes "sorted_wrt (\<lambda>x y. k y < k x) ys" "\<forall>y \<in> set ys. k y \<noteq> (k x :: 'k :: linorder)" "\<forall>y \<in> set ys. lt y x \<longleftrightarrow> k x < k y"
  shows "sorted_wrt (\<lambda>x y. k y < k x) (insert_by lt x ys) \<and> mset (insert_by lt x ys) = add_mset x (mset ys)"
  using assms
proof (induction ys)
  case (Cons y ys)
  show ?case
  proof (cases "k x < k y")
    case True
    with Cons have i: "sorted_wrt (\<lambda>x y. k y < k x) (insert_by lt x ys)" "mset (insert_by lt x ys) = add_mset x (mset ys)"
      by auto
    from mset_eq_setD [OF i(2) [unfolded mset.simps(2) [symmetric]]] have "set (insert_by lt x ys) = insert x (set ys)" by simp
    with Cons.prems True i show ?thesis by auto
  next
    case False
    with Cons.prems have "k y < k x" by (auto simp: not_less order_le_less)
    with Cons.prems False show ?thesis by (auto intro: less_trans)
  qed
qed simp

lemma sort_Slice_desc:
  assumes "distinct (map k xs)" "\<And>x y. x \<in> set xs \<Longrightarrow> y \<in> set xs \<Longrightarrow> lt x y \<longleftrightarrow> k y < (k x :: 'k :: linorder)"
  shows "sorted_wrt (\<lambda>x y. k y < k x) (sort_Slice lt xs) \<and> mset (sort_Slice lt xs) = mset xs"
  using assms
proof (induction xs)
  case (Cons x xs)
  then have i: "sorted_wrt (\<lambda>x y. k y < k x) (sort_Slice lt xs)" "mset (sort_Slice lt xs) = mset xs" by auto
  from mset_eq_setD [OF i(2)] have s: "set (sort_Slice lt xs) = set xs" .
  have "sorted_wrt (\<lambda>x y. k y < k x) (insert_by lt x (sort_Slice lt xs)) \<and>
      mset (insert_by lt x (sort_Slice lt xs)) = add_mset x (mset (sort_Slice lt xs))"
    by (rule insert_by_desc [OF i(1)]) (use s Cons.prems in \<open>auto simp: image_iff\<close>)
  with i show ?case by (simp add: sort_Slice_def)
qed (simp add: sort_Slice_def)

lemma desc_unique:
  assumes "sorted_wrt (\<lambda>x y. k y < (k x :: 'k :: linorder)) xs" "sorted_wrt (\<lambda>x y. k y < k x) ys" "set xs = set ys"
  shows "xs = ys"
  using assms
proof (induction xs arbitrary: ys)
  case (Cons x xs)
  then obtain y ys' where ys: "ys = y # ys'" by (cases ys) auto
  have "x = y"
  proof (rule ccontr)
    assume "x \<noteq> y"
    with Cons.prems ys have "x \<in> set ys'" "y \<in> set xs" by auto
    with Cons.prems ys show False by fastforce
  qed
  moreover from this Cons.prems ys have "set xs = set ys'" by fastforce
  ultimately show ?case using Cons ys by simp
qed simp

lemma filter_after_nth:
  assumes "sorted_wrt (\<lambda>x y. k y < (k x :: 'k :: linorder)) L" "i < length L"
  shows "filter (\<lambda>x. k x < k (L ! i)) L = drop (Suc i) L"
  using assms
proof (induction L arbitrary: i)
  case (Cons x L)
  show ?case
  proof (cases i)
    case 0
    with Cons.prems show ?thesis by simp
  next
    case (Suc j)
    then have "k (L ! j) < k x" using Cons.prems by simp
    with Cons Suc show ?thesis by (simp add: less_not_sym)
  qed
qed simp

section \<open>The contract\<close>

locale feed_source =
  fixes okay :: "'s \<Rightarrow> bool"
    and list_feed :: "'s \<Rightarrow> string \<Rightarrow> string \<Rightarrow> int \<Rightarrow> feed_cursor option \<Rightarrow> feed_result list"
    and feed :: "'s \<Rightarrow> string \<Rightarrow> string \<Rightarrow> feed_result list"
  assumes from_start: "okay r \<Longrightarrow> 0 < limit \<Longrightarrow> list_feed r sortBy window limit None = take (nat limit) (feed r sortBy window)"
    and from_cursor: "okay r \<Longrightarrow> 0 < limit \<Longrightarrow> i < length (feed r sortBy window) \<Longrightarrow>
      list_feed r sortBy window limit (Some (next_feed sortBy window (feed r sortBy window ! i))) =
        take (nat limit) (drop (Suc i) (feed r sortBy window))"

definition feed_live :: "store \<Rightarrow> feed_result list \<Rightarrow> bool" where
  "feed_live s feed \<longleftrightarrow> (\<forall>x \<in> set feed. \<exists>p. db_get (st_posts s) (fr_PostID x) = Some p \<and>
     post_Status p = PostStatusPublished \<and> post_BoardID p = fr_BoardID x)"

definition shown_feed :: "store \<Rightarrow> (post \<Rightarrow> bool) \<Rightarrow> feed_result list \<Rightarrow> (feed_result \<times> post) list" where
  "shown_feed s included feed =
     filter (\<lambda>(x, p). board_visible s None (post_BoardID p) \<and> included p)
       (map (\<lambda>x. (x, the (db_get (st_posts s) (fr_PostID x)))) feed)"

lemma ranked_posts_live:
  assumes "feed_live s xs"
  shows "ranked_posts (SelectPostsByIDsIncludingUnpublished (first_seen (map fr_PostID xs)) (st_posts s)) xs =
    map (\<lambda>x. (x, the (db_get (st_posts s) (fr_PostID x)))) xs"
proof -
  let ?m = "SelectPostsByIDsIncludingUnpublished (first_seen (map fr_PostID xs)) (st_posts s)"
  have "List.map_filter (\<lambda>r. map_option (Pair r) (map_of ?m (fr_PostID r))) ys =
      map (\<lambda>x. (x, the (db_get (st_posts s) (fr_PostID x)))) ys" if "set ys \<subseteq> set xs" for ys
    using that
  proof (induction ys)
    case (Cons y ys)
    then obtain p where "db_get (st_posts s) (fr_PostID y) = Some p" "post_Status p = PostStatusPublished"
      using assms by (auto simp: feed_live_def)
    then have "map_of ?m (fr_PostID y) = Some p" using Cons.prems by (simp add: live_posts_by_id)
    with Cons \<open>db_get _ _ = Some p\<close> show ?case by (simp add: map_filter_simps)
  qed (simp add: map_filter_simps)
  then show ?thesis unfolding ranked_posts_def by blast
qed

lemma feed_live_take: "feed_live s xs \<Longrightarrow> set ys \<subseteq> set xs \<Longrightarrow> feed_live s ys"
  by (auto simp: feed_live_def)

lemma shown_feed_append: "shown_feed s included (xs @ ys) = shown_feed s included xs @ shown_feed s included ys"
  by (simp add: shown_feed_def)

text \<open>What a block adds, once its boards are known.\<close>

lemma block_shown:
  assumes "feed_live s xs" "resolveBoardVisibility e (filter (\<lambda>p. post_Status p = PostStatusPublished)
      (map snd (map (\<lambda>x. (x, the (db_get (st_posts s) (fr_PostID x)))) xs))) b s = Inr b'" "visibility_ok s b"
  shows "filter (\<lambda>(x, p). shown b' (fr_BoardID x) \<and> included p) (map (\<lambda>x. (x, the (db_get (st_posts s) (fr_PostID x)))) xs) =
    shown_feed s included xs"
proof -
  note v = resolveBoardVisibility_run [OF assms(2,3)]
  have "shown b' (fr_BoardID x) = board_visible s None (post_BoardID (the (db_get (st_posts s) (fr_PostID x))))"
    if x: "x \<in> set xs" for x
  proof -
    from x assms(1) obtain p where p: "db_get (st_posts s) (fr_PostID x) = Some p" "post_Status p = PostStatusPublished"
      "post_BoardID p = fr_BoardID x" by (auto simp: feed_live_def)
    with x have "p \<in> set (filter (\<lambda>p. post_Status p = PostStatusPublished)
        (map snd (map (\<lambda>x. (x, the (db_get (st_posts s) (fr_PostID x)))) xs)))" by force
    with v p show ?thesis by auto
  qed
  then show ?thesis unfolding shown_feed_def by (intro filter_cong) auto
qed

context feed_source
begin

definition cursor_at :: "'s \<Rightarrow> string \<Rightarrow> string \<Rightarrow> nat \<Rightarrow> feed_cursor option" where
  "cursor_at r sortBy window m = (if m = 0 then None else Some (next_feed sortBy window (feed r sortBy window ! (m - 1))))"

lemma block:
  assumes "okay r" "0 < limit" "m \<le> length (feed r sortBy window)"
  shows "list_feed r sortBy window limit (cursor_at r sortBy window m) = take (nat limit) (drop m (feed r sortBy window))"
  using assms from_start from_cursor [of r limit "m - 1" sortBy window] by (cases m) (simp_all add: cursor_at_def)

lemma ranked_loop_result:
  assumes "okay r" "\<forall>label. env_fault e label = None" "0 < n" "feed_live s (feed r sortBy window)"
    "m \<le> length (feed r sortBy window)"
  shows "ranked_loop e s (\<lambda>_ sb w l c. Inr (list_feed r sb w l c)) k sortBy window included n (cursor_at r sortBy window m) [] [] =
    returnQ (take (nat n) (shown_feed s included (drop m (feed r sortBy window))))"
proof -
  let ?F = "feed r sortBy window" and ?ranking = "\<lambda>_ sb w l c. Inr (list_feed r sb w l c)"
  define loop where "loop = (\<lambda>(k, m). ranked_loop e s ?ranking k sortBy window included n (cursor_at r sortBy window m))"
  define rest where "rest = (\<lambda>(k :: nat, m). drop m ?F)"
  define nxt where "nxt = (\<lambda>(k, m) (_ :: feed_result). (Suc k, m + nat n))"
  have read: "read_repo e label x = Inr x" for label and x :: 'x using assms(2) by (simp add: read_repo_def)
  have "loop (k, m) [] [] = returnQ (take (nat n) ([] @ shown_feed s included (rest (k, m))))"
  proof (rule scan_loop [where okay = "visibility_ok s" and good = "\<lambda>(_, m). m \<le> length ?F" and next_of = nxt])
    fix c and acc :: "(feed_result \<times> post) list" and b
    assume a: "case c of (_, m) \<Rightarrow> m \<le> length ?F" "int (length acc) < n" "rest c = []"
    then show "loop c acc b = returnQ acc"
      using block [OF assms(1,3)]
      by (cases c) (simp add: loop_def rest_def ranked_loop.simps [of e s ?ranking])
  next
    fix c and acc :: "(feed_result \<times> post) list" and b
    assume a: "case c of (_, m) \<Rightarrow> m \<le> length ?F" "visibility_ok s b" "int (length acc) < n" "rest c \<noteq> []"
    obtain k m where c: "c = (k, m)" by (cases c)
    let ?rs = "take (nat n) (drop m ?F)"
    let ?pairs = "map (\<lambda>x. (x, the (db_get (st_posts s) (fr_PostID x)))) ?rs"
    have m: "m \<le> length ?F" using a(1) c by simp
    have live: "feed_live s ?rs" by (rule feed_live_take [OF assms(4)]) (auto dest!: in_set_takeD in_set_dropD)
    obtain b' where r: "resolveBoardVisibility e (filter (\<lambda>p. post_Status p = PostStatusPublished) (map snd ?pairs)) b s = Inr b'"
      using resolveBoardVisibility_returns assms(2) by blast
    have ne: "(?rs = []) = False" using a(4) assms(3) by (simp add: c rest_def)
    have full: "(n \<le> int (length acc)) = False" using a(3) by simp
    have "collect n (\<lambda>(x, p). shown b' (fr_BoardID x) \<and> included p) ?pairs acc = take (nat n) (acc @ shown_feed s included ?rs)"
      by (simp only: collect_take [OF a(3)] block_shown [OF live r a(2)])
    then have "loop c acc b = (let acc' = take (nat n) (acc @ shown_feed s included ?rs) in
        if n \<le> int (length acc') \<or> int (length ?rs) < n then returnQ acc'
        else ranked_loop e s ?ranking (Suc k) sortBy window included n (Some (next_feed sortBy window (last ?rs))) acc' b')"
      unfolding c loop_def prod.case
      by (subst ranked_loop.simps)
        (simp only: if_False full ne block [OF assms(1,3) m] sum.case bindQ_simps ranked_posts_live [OF live] read r Let_def)
    moreover have "Some (next_feed sortBy window (last ?rs)) = cursor_at r sortBy window (m + nat n)"
      if "\<not> int (length ?rs) < n"
    proof -
      have "nat n \<le> length (drop m ?F)" using that by auto
      then show ?thesis using last_take [of "nat n" "drop m ?F"] assms(3) m by (simp add: cursor_at_def)
    qed
    ultimately have "loop c acc b = (let rs = take (nat n) (rest c); acc' = take (nat n) (acc @ shown_feed s included rs) in
        if n \<le> int (length acc') \<or> int (length rs) < n then returnQ acc' else loop (nxt c (last rs)) acc' b')"
      by (auto simp: Let_def c loop_def rest_def nxt_def)
    with resolveBoardVisibility_run [OF r a(2)] show "\<exists>b'. visibility_ok s b' \<and> loop c acc b =
        (let rs = take (nat n) (rest c); acc' = take (nat n) (acc @ shown_feed s included rs) in
         if n \<le> int (length acc') \<or> int (length rs) < n then returnQ acc' else loop (nxt c (last rs)) acc' b')" by blast
  qed (use assms in \<open>auto simp: visibility_ok_def shown_feed_append nxt_def rest_def shown_feed_def add.commute\<close>)
  then show ?thesis by (simp add: loop_def rest_def)
qed

end

section \<open>The ranking in memory\<close>

lemma magnitude_of_nat: "magnitude (of_nat n) = n mod 2 ^ 63"
proof -
  have "n mod 2 ^ 64 mod 2 ^ 63 = n mod (2 ^ 63 :: nat)" by (rule mod_mod_cancel) (simp add: dvd_def)
  then show ?thesis by (simp add: magnitude_def unat_of_nat)
qed

lemma float_bits_bound:
  assumes "0 < m" "m < 2 ^ 64"
  shows "float_bits m \<le> 1100 * 2 ^ 52"
proof -
  obtain ex where fl: "floorlog 2 m = Suc ex" using assms(1) by (auto simp: floorlog_def)
  then have m: "m < 2 ^ (ex + 1)" using floorlog_bounds [of m 2] assms(1) by simp
  have "floorlog 2 m \<le> 64" using floorlog_le_iff [of 2 m 64] assms by simp
  then have ex: "ex \<le> 63" by (simp add: fl)
  show ?thesis
  proof (cases "ex \<le> 52")
    case True
    have "m * 2 ^ (52 - ex) \<le> 2 ^ (ex + 1) * 2 ^ (52 - ex)" using m by (intro mult_right_mono) simp_all
    also have "\<dots> = (2 ^ 53 :: nat)" using True by (simp add: power_add [symmetric])
    finally show ?thesis using True by (simp add: float_bits_def fl)
  next
    case False
    have "2 ^ (ex + 1) = (2 ^ 53 * 2 ^ (ex - 52) :: nat)" using False by (simp only: power_add [symmetric]) simp
    with m have "m < 2 ^ 53 * 2 ^ (ex - 52)" by simp
    then have "m div 2 ^ (ex - 52) < 2 ^ 53" by (simp add: less_mult_imp_div_less)
    then show ?thesis using False ex by (simp add: float_bits_def fl Let_def)
  qed
qed

lemma float_of_int_number:
  assumes "\<bar>n\<bar> < 2 ^ 64"
  shows "\<not> is_nan (float_of_int n)"
proof (cases "n = 0")
  case True
  then show ?thesis by (simp add: float_of_int_def is_nan_def magnitude_def)
next
  case False
  define bits where "bits = float_bits (nat \<bar>n\<bar>)"
  have "nat \<bar>n\<bar> < 2 ^ 64" using assms by (simp add: nat_less_iff)
  from float_bits_bound [OF _ this] False have b: "bits \<le> 1100 * 2 ^ 52" by (simp add: bits_def)
  have "magnitude (float_of_int n) = (bits + (if n < 0 then 2 ^ 63 else 0)) mod 2 ^ 63"
    unfolding float_of_int_def if_not_P [OF False] bits_def [symmetric] by (rule magnitude_of_nat)
  with b show ?thesis by (simp add: is_nan_def split: if_splits)
qed

text \<open>
  A ranking is in order when its keys are its posts, its instants have nanoseconds since 1970 that fit
  64 bits (the years 1678 to 2261), and its counts are as small as Go's \<open>int\<close>.
\<close>

definition ranking_ok :: "ranking_repo \<Rightarrow> bool" where
  "ranking_ok r \<longleftrightarrow> distinct (map fst (rk_posts r)) \<and>
     (\<forall>(i, item) \<in> set (rk_posts r). rp_PostID item = i \<and>
        of_UnixNano (UnixNano (rp_PublishedAt item)) = rp_PublishedAt item \<and>
        \<bar>rp_TotalReactionScore item + rp_TotalCommentScore item\<bar> < 2 ^ 63 \<and>
        (\<forall>cutoff. \<bar>activityScoreWithin (rp_Activity item) cutoff\<bar> < 2 ^ 63))"

definition feed_key :: "string \<Rightarrow> feed_result \<Rightarrow> int \<times> int \<times> int" where
  "feed_key sortBy x = (if sortBy = PostFeedSortLatest then 0 else float_key (fr_Score x), fr_PublishedAt x, fr_PostID x)"

definition result_ok :: "feed_result \<Rightarrow> bool" where
  "result_ok x \<longleftrightarrow> \<not> is_nan (fr_Score x) \<and> of_UnixNano (UnixNano (fr_PublishedAt x)) = fr_PublishedAt x"

lemma compare_key: "result_ok x \<Longrightarrow> result_ok y \<Longrightarrow> compareFeedResults sortBy x y \<longleftrightarrow> feed_key sortBy y < feed_key sortBy x"
  by (auto simp: compareFeedResults_def feed_key_def result_ok_def float_eq_def float_less_def Let_def)

lemma after_key: "result_ok x \<Longrightarrow> result_ok y \<Longrightarrow>
    feedResultAfterCursor x (next_feed sortBy window y) \<longleftrightarrow> feed_key sortBy x < feed_key sortBy y"
  by (auto simp: feedResultAfterCursor_def next_feed_def feed_key_def result_ok_def float_less_def Let_def)

text \<open>The feed: all ranked posts, in order.\<close>

definition feed_order :: "(int \<Rightarrow> int \<Rightarrow> float64) \<Rightarrow> time \<Rightarrow> ranking_repo \<Rightarrow> string \<Rightarrow> string \<Rightarrow> feed_result list" where
  "feed_order hot now r sortBy window = sort_Slice (compareFeedResults sortBy) (feed_results hot sortBy window now r)"

text \<open>Forgetting activity older than thirty days changes no score.\<close>

lemma windows_short: "bestWindow \<le> maxActivitySpan" "windowDuration window \<le> maxActivitySpan"
  by (auto simp: bestWindow_def maxActivitySpan_def windowDuration_def day_def)

lemma pruned_score: "now - maxActivitySpan \<le> cutoff \<Longrightarrow>
    activityScoreWithin (pruneActivities items (now - maxActivitySpan)) cutoff = activityScoreWithin items cutoff"
  unfolding activityScoreWithin_def pruneActivities_def filter_filter
  by (rule arg_cong [where f = "\<lambda>xs. sum_list (map ra_Weight xs)"], rule filter_cong) auto

lemma feed_results_pruned: "feed_results hot sortBy window now (pruned now r) = feed_results hot sortBy window now r"
proof -
  let ?prune = "\<lambda>item. item\<lparr>rp_Activity := pruneActivities (rp_Activity item) (now - maxActivitySpan)\<rparr>"
  have "filter ranked (map snd (map (\<lambda>(i, item). (i, if ranked item then ?prune item else item)) rows)) =
      map ?prune (filter ranked (map snd rows))" for rows :: "(int \<times> rankingPostSnapshot) list"
    by (induction rows) (auto simp: ranked_def)
  then have "filter ranked (row_values (rk_posts (pruned now r))) = map ?prune (filter ranked (row_values (rk_posts r)))"
    by (simp add: pruned_def)
  moreover have "rankingScore hot sortBy window (item\<lparr>rp_Activity := pruneActivities (rp_Activity item) (now - maxActivitySpan)\<rparr>) now =
      rankingScore hot sortBy window item now" for item
    using windows_short by (simp add: rankingScore_def pruned_score)
  ultimately show ?thesis by (simp add: feed_results_def o_def)
qed

lemma feed_results_ok:
  assumes "ranking_ok r" "\<forall>base seconds. \<not> is_nan (hot base seconds)"
  shows "\<forall>x \<in> set (feed_results hot sortBy window now r). result_ok x"
    and "distinct (map (feed_key sortBy) (feed_results hot sortBy window now r))"
proof -
  show "\<forall>x \<in> set (feed_results hot sortBy window now r). result_ok x"
  proof
    fix x assume "x \<in> set (feed_results hot sortBy window now r)"
    then obtain i item where i: "(i, item) \<in> set (rk_posts r)" and x: "fr_Score x = rankingScore hot sortBy window item now"
      "fr_PublishedAt x = rp_PublishedAt item" by (auto simp: feed_results_def)
    have nano: "\<bar>UnixNano (rp_PublishedAt item)\<bar> < 2 ^ 64" using UnixNano_range [of "rp_PublishedAt item"] by auto
    from i assms(1) have small: "\<bar>rp_TotalReactionScore item + rp_TotalCommentScore item\<bar> < 2 ^ 63"
      "\<And>cutoff. \<bar>activityScoreWithin (rp_Activity item) cutoff\<bar> < 2 ^ 63"
      by (auto simp: ranking_ok_def dest!: bspec)
    have totals: "\<bar>rp_TotalReactionScore item + rp_TotalCommentScore item\<bar> < 2 ^ 64"
      and sums: "\<bar>activityScoreWithin (rp_Activity item) cutoff\<bar> < 2 ^ 64" for cutoff
      using small(1) small(2) [of cutoff] by simp_all
    have "\<not> is_nan (rankingScore hot sortBy window item now)"
      using assms(2) float_of_int_number [OF nano] float_of_int_number [OF totals] float_of_int_number [OF sums]
      by (simp add: rankingScore_def)
    with i assms(1) x show "result_ok x" by (auto simp: result_ok_def ranking_ok_def)
  qed
  have "map fr_PostID (feed_results hot sortBy window now r) = map fst (filter (\<lambda>(i, item). ranked item) (rk_posts r))"
  proof -
    have "map rp_PostID (filter ranked (map snd rows)) = map fst (filter (\<lambda>(i, item). ranked item) rows)"
      if "\<forall>(i, item) \<in> set rows. rp_PostID item = i" for rows
      using that by (induction rows) auto
    moreover have "\<forall>(i, item) \<in> set (rk_posts r). rp_PostID item = i" using assms(1) by (auto simp: ranking_ok_def)
    ultimately show ?thesis by (simp add: feed_results_def o_def)
  qed
  then have "distinct (map fr_PostID (feed_results hot sortBy window now r))"
    using assms(1) by (simp add: ranking_ok_def distinct_map_filter)
  then show "distinct (map (feed_key sortBy) (feed_results hot sortBy window now r))"
    by (auto simp: distinct_map inj_on_def feed_key_def)
qed

lemma feed_order_desc:
  assumes "ranking_ok r" "\<forall>base seconds. \<not> is_nan (hot base seconds)"
  shows "sorted_wrt (\<lambda>x y. feed_key sortBy y < feed_key sortBy x) (feed_order hot now r sortBy window)"
    and "mset (feed_order hot now r sortBy window) = mset (feed_results hot sortBy window now r)"
  using sort_Slice_desc [OF feed_results_ok(2) [OF assms], where lt = "compareFeedResults sortBy"] feed_results_ok(1) [OF assms] compare_key
  by (simp_all add: feed_order_def)

text \<open>The lists of the ranking are blocks of that feed.\<close>

lemma ListFeed_start: "0 < limit \<Longrightarrow> fst (ListFeed hot now sortBy window limit None r) = take (nat limit) (feed_order hot now r sortBy window)"
  by (simp add: ListFeed_def Let_def feed_results_pruned feed_order_def take_int_def)

lemma ListFeed_after:
  assumes "ranking_ok r" "\<forall>base seconds. \<not> is_nan (hot base seconds)" "0 < limit" "i < length (feed_order hot now r sortBy window)"
  shows "fst (ListFeed hot now sortBy window limit (Some (next_feed sortBy window (feed_order hot now r sortBy window ! i))) r) =
    take (nat limit) (drop (Suc i) (feed_order hot now r sortBy window))"
proof -
  let ?R = "feed_results hot sortBy window now r" and ?F = "feed_order hot now r sortBy window"
  note desc = feed_order_desc [OF assms(1,2), where sortBy = sortBy and now = now and window = window]
  from mset_eq_setD [OF desc(2)] have set: "set ?F = set ?R" .
  then have at: "?F ! i \<in> set ?R" using assms(4) nth_mem by blast
  note ok = feed_results_ok(1) [OF assms(1,2), where sortBy = sortBy and now = now and window = window]
  have after: "filter (\<lambda>x. feedResultAfterCursor x (next_feed sortBy window (?F ! i))) ?R =
      filter (\<lambda>x. feed_key sortBy x < feed_key sortBy (?F ! i)) ?R"
    using ok at by (intro filter_cong) (auto simp: after_key)
  have "sort_Slice (compareFeedResults sortBy) (filter (\<lambda>x. feed_key sortBy x < feed_key sortBy (?F ! i)) ?R) =
      filter (\<lambda>x. feed_key sortBy x < feed_key sortBy (?F ! i)) ?F"
  proof (rule desc_unique)
    have s: "sorted_wrt (\<lambda>x y. feed_key sortBy y < feed_key sortBy x) (sort_Slice (compareFeedResults sortBy)
        (filter (\<lambda>x. feed_key sortBy x < feed_key sortBy (?F ! i)) ?R)) \<and>
      mset (sort_Slice (compareFeedResults sortBy) (filter (\<lambda>x. feed_key sortBy x < feed_key sortBy (?F ! i)) ?R)) =
        mset (filter (\<lambda>x. feed_key sortBy x < feed_key sortBy (?F ! i)) ?R)"
      using ok by (intro sort_Slice_desc) (auto simp: compare_key distinct_map_filter feed_results_ok(2) [OF assms(1,2)])
    then show "sorted_wrt (\<lambda>x y. feed_key sortBy y < feed_key sortBy x) (sort_Slice (compareFeedResults sortBy)
        (filter (\<lambda>x. feed_key sortBy x < feed_key sortBy (?F ! i)) ?R))" by blast
    from s mset_eq_setD have "set (sort_Slice (compareFeedResults sortBy) (filter (\<lambda>x. feed_key sortBy x < feed_key sortBy (?F ! i)) ?R)) =
      set (filter (\<lambda>x. feed_key sortBy x < feed_key sortBy (?F ! i)) ?R)" by blast
    with set show "set (sort_Slice (compareFeedResults sortBy) (filter (\<lambda>x. feed_key sortBy x < feed_key sortBy (?F ! i)) ?R)) =
      set (filter (\<lambda>x. feed_key sortBy x < feed_key sortBy (?F ! i)) ?F)" by simp
  qed (rule sorted_wrt_filter [OF desc(1)])
  then show ?thesis
    using assms(3) filter_after_nth [OF desc(1) assms(4)]
    by (simp add: ListFeed_def Let_def feed_results_pruned after take_int_def)
qed

interpretation memory: feed_source
  "\<lambda>(hot, now, r). ranking_ok r \<and> (\<forall>base seconds. \<not> is_nan (hot base seconds))"
  "\<lambda>(hot, now, r) sortBy window limit cursor. fst (ListFeed hot now sortBy window limit cursor r)"
  "\<lambda>(hot, now, r). feed_order hot now r"
  by unfold_locales (auto simp: ListFeed_start ListFeed_after)

section \<open>The feed, page by page\<close>

lemma shown_feed_position:
  assumes "n < length (shown_feed s included L)"
  shows "\<exists>m. m < length L \<and> L ! m = fst (shown_feed s included L ! n) \<and>
    shown_feed s included (drop (Suc m) L) = drop (Suc n) (shown_feed s included L)"
  using assms
proof (induction L arbitrary: n)
  case (Cons x L)
  let ?p = "the (db_get (st_posts s) (fr_PostID x))"
  show ?case
  proof (cases "board_visible s None (post_BoardID ?p) \<and> included ?p")
    case True
    then have v: "shown_feed s included (x # L) = (x, ?p) # shown_feed s included L" by (simp add: shown_feed_def)
    show ?thesis
    proof (cases n)
      case 0
      with v show ?thesis by (intro exI [of _ 0]) simp
    next
      case (Suc n')
      with Cons v obtain m where "m < length L \<and> L ! m = fst (shown_feed s included L ! n') \<and>
        shown_feed s included (drop (Suc m) L) = drop (Suc n') (shown_feed s included L)" by auto
      with v Suc show ?thesis by (intro exI [of _ "Suc m"]) simp
    qed
  next
    case False
    then have v: "shown_feed s included (x # L) = shown_feed s included L" by (auto simp: shown_feed_def)
    with Cons obtain m where "m < length L \<and> L ! m = fst (shown_feed s included L ! n) \<and>
      shown_feed s included (drop (Suc m) L) = drop (Suc n) (shown_feed s included L)" by auto
    with v show ?thesis by (intro exI [of _ "Suc m"]) simp
  qed
qed (simp add: shown_feed_def)

text \<open>The cursor that stands before the element at a position of the feed.\<close>

definition feed_position :: "string \<Rightarrow> string \<Rightarrow> feed_result list \<Rightarrow> nat \<Rightarrow> string" where
  "feed_position sortBy window feed m =
     (if m = 0 then []
      else let x = feed ! (m - 1) in
        encodeFeedCursor sortBy window (fr_Score x) (UnixNano (fr_PublishedAt x)) (fr_PostID x))"

lemma decode_position:
  assumes "feed_live s feed" "in_range post_ID (st_posts s)" "m \<le> length feed"
    "normalizeRankingSortWindow lower sortValue windowValue defaultSort allowBest = Inr (sortBy, window)"
  shows "decodeFeedCursor sortBy window (feed_position sortBy window feed m) =
    Inr (if m = 0 then None else Some (next_feed sortBy window (feed ! (m - 1))))"
proof (cases m)
  case 0
  then show ?thesis by (simp add: feed_position_def decodeFeedCursor_def TrimSpace_plain)
next
  case (Suc i)
  with assms(3) have "feed ! i \<in> set feed" by simp
  with assms(1) obtain p where "db_get (st_posts s) (fr_PostID (feed ! i)) = Some p" by (auto simp: feed_live_def)
  then have "0 \<le> fr_PostID (feed ! i)" "fr_PostID (feed ! i) < 2 ^ 63"
    using assms(2) by (fastforce simp: in_range_def db_ok_def db_get_def dest!: map_of_SomeD)+
  with Suc show ?thesis
    using decode_encode_feed [OF sort_no_colon [OF assms(4)] UnixNano_range] by (simp add: feed_position_def next_feed_def Let_def)
qed

lemma count_boards_answers: "\<forall>label. env_fault e label = None \<Longrightarrow> \<exists>k. count_boards e boards n s = Inr k"
  by (induction boards arbitrary: n) (auto simp: bindE_def read_repo_def)

lemma countVisiblePublishedPosts_answers: "\<forall>label. env_fault e label = None \<Longrightarrow> \<exists>k. countVisiblePublishedPosts e s = Inr k"
  using count_boards_answers by (simp add: countVisiblePublishedPosts_def bindE_def read_repo_def)

lemma memory_feed_loop:
  assumes "ranking_ok r" "\<forall>base seconds. \<not> is_nan (hot base seconds)" "\<forall>label. env_fault e label = None"
    "feed_live s (feed_order hot now r sortBy window)" "m \<le> length (feed_order hot now r sortBy window)" "0 < n"
  shows "ranked_loop e s (\<lambda>_ sb w l c. Inr (fst (ListFeed hot now sb w l c r))) k sortBy window included n
      (if m = 0 then None else Some (next_feed sortBy window (feed_order hot now r sortBy window ! (m - 1)))) [] [] =
    returnQ (take (nat n) (shown_feed s included (drop m (feed_order hot now r sortBy window))))"
  using memory.ranked_loop_result [where r = "(hot, now, r)" and e = e and n = n and s = s and sortBy = sortBy and window = window
      and m = m and k = k and included = included] assms
  by (simp only: memory.cursor_at_def prod.case simp_thms)

definition next_page_ok :: "store \<Rightarrow> feed_result list \<Rightarrow> nat \<Rightarrow> int \<Rightarrow> post_list \<Rightarrow> string \<Rightarrow> string \<Rightarrow> bool" where
  "next_page_ok s feed m limit l sortBy window \<longleftrightarrow>
     (let page = shown_feed s (\<lambda>_. True) (drop m feed) in
      case pl_NextCursor l of
        None \<Rightarrow> int (length page) \<le> limit
      | Some next_page \<Rightarrow> limit < int (length page) \<and> (\<exists>m' \<le> length feed. next_page = feed_position sortBy window feed m' \<and>
          shown_feed s (\<lambda>_. True) (drop m' feed) = drop (nat limit) page))"

lemma feed_page_shown:
  fixes s :: store and feed :: "feed_result list" and m :: nat
  defines "page \<equiv> shown_feed s (\<lambda>_. True) (drop m feed)"
  assumes run: "post_page e limit cur (take (nat (limit + 1)) page) snd
      (\<lambda>(x, _). encodeFeedCursor sortBy window (fr_Score x) (UnixNano (fr_PublishedAt x)) (fr_PostID x)) s = Inr l"
    and limit: "1 \<le> limit" and m: "m \<le> length feed"
  shows "list_all2 (post_shown s) (map snd (take (nat limit) page)) (pl_Posts l) \<and> next_page_ok s feed m limit l sortBy window"
proof -
  note run = post_page_run [OF run limit]
  have shown: "list_all2 (post_shown s) (map snd (take (nat limit) page)) (pl_Posts l)"
    using run limit by (simp add: min_def nat_add_distrib split: if_splits)
  show ?thesis
  proof (cases "limit < int (length page)")
    case False
    with run shown show ?thesis by (simp add: next_page_ok_def page_def [symmetric])
  next
    case True
    then have "nat limit - 1 < length page" using limit by simp
    from shown_feed_position [OF this [unfolded page_def]] obtain i where i: "i < length (drop m feed)"
      "drop m feed ! i = fst (page ! (nat limit - 1))" "shown_feed s (\<lambda>_. True) (drop (Suc i) (drop m feed)) = drop (nat limit) page"
      using limit by (auto simp: page_def)
    then have "pl_NextCursor l = Some (feed_position sortBy window feed (Suc (m + i)))"
      using run True limit by (cases "page ! (nat limit - 1)") (simp add: feed_position_def Let_def)
    with i(1,3) True shown show ?thesis
      by (auto simp: next_page_ok_def page_def [symmetric] add.commute intro!: exI [of _ "Suc (m + i)"])
  qed
qed

lemma shown_feed_ready:
  assumes "authored s" "feed_live s L"
  shows "\<forall>x \<in> set (shown_feed s included L). db_get (st_users s) (post_AuthorID (snd x)) \<noteq> None \<and>
    board_visible s None (post_BoardID (snd x))"
proof
  fix x assume x: "x \<in> set (shown_feed s included L)"
  then have v: "fst x \<in> set L" "snd x = the (db_get (st_posts s) (fr_PostID (fst x)))" "board_visible s None (post_BoardID (snd x))"
    by (auto simp: shown_feed_def)
  with assms(2) obtain p where "db_get (st_posts s) (fr_PostID (fst x)) = Some p" by (auto simp: feed_live_def)
  with v(2) have "(fr_PostID (fst x), snd x) \<in> set (db_Data (st_posts s))" by (simp add: db_get_def map_of_SomeD)
  then have "snd x \<in> set (db_rows (st_posts s))" by (force simp: db_rows_def)
  with assms(1) v(3) show "db_get (st_users s) (post_AuthorID (snd x)) \<noteq> None \<and> board_visible s None (post_BoardID (snd x))"
    by (simp add: authored_def)
qed

text \<open>
  C7: the feed, page by page, while the ranking in memory does not change. From any position of the feed the query
  answers, and when the page is not in the cache, with the posts that follow in the order of the ranking and are on
  boards that are not hidden, as many as asked for; it names a next page exactly when more of them are left, and
  the cursor of that page stands at a position of the feed from where exactly these are shown. A limit out of
  range is an error.
\<close>

theorem feed_pages:
  fixes hot :: "int \<Rightarrow> int \<Rightarrow> float64" and now :: time and r :: ranking_repo and sortBy window :: string
  defines "feed \<equiv> feed_order hot now r sortBy window"
  assumes ok: "ranking_ok r" "\<forall>base seconds. \<not> is_nan (hot base seconds)" "feed_live s feed" "in_range post_ID (st_posts s)"
      "authored s" "\<forall>label. env_fault e label = None"
    and ranking: "pq_ranking h = Some (\<lambda>_ sb w l c. Inr (fst (ListFeed hot now sb w l c r)))"
    and sort: "normalizeRankingSortWindow (env_lower e) sortValue windowValue PostFeedSortHot True = Inr (sortBy, window)"
    and m: "m \<le> length feed"
  shows "\<exists>a c'. GetFeed h e clk sortValue windowValue limit (feed_position sortBy window feed m) s c = Some (a, c') \<and>
    (if RequirePositiveLimit limit = None
     then in_cache clk (key_PostFeedList sortBy window limit (feed_position sortBy window feed m)) c \<or>
       (\<exists>l. a = Inr l \<and> next_page_ok s feed m limit l sortBy window \<and>
         list_all2 (post_shown s) (map snd (take (nat limit) (shown_feed s (\<lambda>_. True) (drop m feed)))) (pl_Posts l))
     else \<exists>err. a = Inl err)"
proof (cases "RequirePositiveLimit limit")
  case (Some err)
  then show ?thesis by (simp add: GetFeed_def)
next
  case None
  let ?cur = "feed_position sortBy window feed m" and ?page = "shown_feed s (\<lambda>_. True) (drop m feed)"
  let ?key = "key_PostFeedList sortBy window limit ?cur"
  from None have limit: "1 \<le> limit" "CursorFetchLimit limit = Inr (limit + 1)"
    by (auto simp: RequirePositiveLimit_def CursorFetchLimit_def split: if_splits)
  obtain k where k: "countVisiblePublishedPosts e s = Inr k" using countVisiblePublishedPosts_answers ok(6) by blast
  let ?shown = "post_page e limit ?cur (take (nat (limit + 1)) ?page) snd
      (\<lambda>(x, _ :: post). encodeFeedCursor sortBy window (fr_Score x) (UnixNano (fr_PublishedAt x)) (fr_PostID x)) s"
  let ?loaded = "counted_list (Some ?shown) (Some (Inr k))"
  have run: "GetFeed h e clk sortValue windowValue limit ?cur s c =
      cached_posts h clk ?key ''load post feed cache'' ''decode post feed cache payload'' ?loaded c"
    using memory_feed_loop [OF ok(1,2,6) ok(3) [unfolded feed_def] m [unfolded feed_def], of "limit + 1" 0 "\<lambda>_. True",
        folded feed_def] limit
    by (simp add: GetFeed_def None sort decode_position [OF ok(3,4) m sort] loadFeed_def loadRankedPosts_def ranking k)
  have "feed_live s (drop m feed)" by (rule feed_live_take [OF ok(3)]) (rule set_drop_subset)
  from shown_feed_ready [OF ok(5) this, of "\<lambda>_. True"]
  have ready: "\<forall>x \<in> set (take (nat (limit + 1)) ?page).
      db_get (st_users s) (post_AuthorID (snd x)) \<noteq> None \<and> board_visible s None (post_BoardID (snd x))"
    by (blast dest: in_set_takeD)
  obtain l where l: "?shown = Inr l" using post_page_returns [OF ok(6) ready] by blast
  then have loaded: "?loaded = Some (Inr (l\<lparr>pl_TotalCount := k\<rparr>))" by (simp add: counted_list_def returnQ_def)
  from feed_page_shown [OF l limit(1) m] have page: "next_page_ok s feed m limit (l\<lparr>pl_TotalCount := k\<rparr>) sortBy window \<and>
      list_all2 (post_shown s) (map snd (take (nat limit) ?page)) (pl_Posts (l\<lparr>pl_TotalCount := k\<rparr>))"
    by (simp add: next_page_ok_def)
  show ?thesis
  proof (cases "in_cache clk ?key c")
    case True
    obtain a c' where "cached_posts h clk ?key ''load post feed cache'' ''decode post feed cache payload'' ?loaded c = Some (a, c')"
      using cached_posts_answers [of ?loaded] loaded by blast
    with run True None show ?thesis by simp
  next
    case False
    from cached_posts_miss [OF False] obtain c' where "cached_posts h clk ?key ''load post feed cache''
        ''decode post feed cache payload'' (Some (Inr (l\<lparr>pl_TotalCount := k\<rparr>))) c = Some (Inr (l\<lparr>pl_TotalCount := k\<rparr>), c')" by blast
    with run loaded have "GetFeed h e clk sortValue windowValue limit ?cur s c = Some (Inr (l\<lparr>pl_TotalCount := k\<rparr>), c')" by simp
    with page None show ?thesis by auto
  qed
qed

section \<open>Events delivered twice\<close>

lemma reaction_delta_twice:
  "ApplyReactionDelta postID targetID userID targetType reactionType operation t
     (ApplyReactionDelta postID targetID userID targetType reactionType operation t r) =
   ApplyReactionDelta postID targetID userID targetType reactionType operation t r"
proof (cases "map_of (rk_posts r) postID")
  case None
  then show ?thesis by (simp add: ApplyReactionDelta_def)
next
  case (Some post)
  have set_unset: "''set'' \<noteq> ''unset''" by simp
  consider "operation = ''set''" | "operation = ''unset''" | "operation \<noteq> ''set''" "operation \<noteq> ''unset''" by blast
  then show ?thesis
  proof cases
    case 1
    with Some show ?thesis by (simp add: ApplyReactionDelta_def Let_def map_of_put_row)
  next
    case 2
    with Some set_unset show ?thesis
      by (cases "map_of (rk_reactionStates r) (reactionKey targetType targetID userID)")
        (simp_all add: ApplyReactionDelta_def Let_def map_of_put_row)
  next
    case 3
    with Some show ?thesis by (simp add: ApplyReactionDelta_def Let_def)
  qed
qed

text \<open>
  The outbox delivers an event at least once. An event that the ranking is handed a second time, right after the first,
  changes nothing more: no score, no activity and no state of a reaction or comment is counted twice.
\<close>

theorem ranking_redelivery: "PostRanking_Handle ev (PostRanking_Handle ev r) = PostRanking_Handle ev r"
proof (cases ev)
  case PostChanged
  then show ?thesis
    by (auto simp: Ranking_DeletePost_def UpsertPostSnapshot_def Let_def map_of_put_row delete_idem split: option.splits)
next
  case CommentChanged
  then show ?thesis
    by (auto simp: ApplyCommentDelta_def Let_def map_of_put_row map_of_del_row split: option.splits)
next
  case ReactionChanged
  then show ?thesis by (simp add: reaction_delta_twice)
qed simp_all

section \<open>The next page of a ranked list\<close>

lemma loadRankedPosts_next:
  assumes "loadRankedPosts h e sortBy window limit feedCursor cursor included s = Some (Inr l)" "pl_NextCursor l = Some next_page"
  shows "\<exists>score nano i. next_page = encodeFeedCursor sortBy window score nano i"
proof -
  from assms(1) obtain visible :: "(feed_result \<times> post) list" where p: "post_page e limit cursor visible snd
      (\<lambda>(r, _). encodeFeedCursor sortBy window (fr_Score r) (UnixNano (fr_PublishedAt r)) (fr_PostID r)) s = Inr l" and "1 \<le> limit"
    by (auto simp: loadRankedPosts_def bindQ_run CursorFetchLimit_def RequirePositiveLimit_def split: option.splits if_splits)
  from post_page_run [OF this] assms(2) show ?thesis by (auto split: if_splits prod.splits)
qed

lemma feed_cursor_refused:
  "GetPostsList h e clk boardUUID sortValue windowValue limit (encodeFeedCursor sb w score nano i) s c =
    Some (Inl (Sentinel ErrInvalidInput), c)"
  "GetPostsByTag h e clk tagName sortValue windowValue limit (encodeFeedCursor sb w score nano i) s c =
    Some (Inl (Sentinel ErrInvalidInput), c)"
  by (simp_all add: GetPostsList_def GetPostsByTag_def feed_cursor_not_opaque RequirePositiveLimit_def)

lemma ranked_list_next:
  assumes "GetPostsList h e clk boardUUID sortValue windowValue limit cursor s c = Some (Inr l, c1)"
    and "normalizeRankingSortWindow (env_lower e) sortValue windowValue PostFeedSortLatest True = Inr (sortBy, window)"
    and "sortBy \<noteq> PostFeedSortLatest" "\<forall>cacheKey. \<not> in_cache clk cacheKey c" "pl_NextCursor l = Some next_page"
  shows "\<exists>score nano i. next_page = encodeFeedCursor sortBy window score nano i"
proof -
  from assms(1-3) obtain cacheKey feedCursor included counted where
    "with_total cacheKey (cached_posts h clk cacheKey ''load post list cache'' ''decode post list cache payload''
      (loadRankedPosts h e sortBy window limit feedCursor cursor included s) c) counted = Some (Inr l, c1)"
    by (auto simp: GetPostsList_def Let_def split: option.splits sum.splits)
  then obtain l0 c0 where "cached_posts h clk cacheKey ''load post list cache'' ''decode post list cache payload''
      (loadRankedPosts h e sortBy window limit feedCursor cursor included s) c = Some (Inr l0, c0)"
    and l: "pl_NextCursor l0 = pl_NextCursor l" by (auto simp: with_total_run)
  from cached_posts_loaded [OF assms(4) [rule_format] this(1)]
  show ?thesis by (rule loadRankedPosts_next) (simp add: l assms(5))
qed

lemma ranked_tag_next:
  assumes "GetPostsByTag h e clk tagName sortValue windowValue limit cursor s c = Some (Inr l, c1)"
    and "normalizeRankingSortWindow (env_lower e) sortValue windowValue PostFeedSortLatest True = Inr (sortBy, window)"
    and "sortBy \<noteq> PostFeedSortLatest" "\<forall>cacheKey. \<not> in_cache clk cacheKey c" "pl_NextCursor l = Some next_page"
  shows "\<exists>score nano i. next_page = encodeFeedCursor sortBy window score nano i"
proof -
  from assms(1-3) obtain cacheKey feedCursor and tag :: tag where
    "cached_posts h clk cacheKey ''load tag post list cache'' ''decode tag post list cache payload''
      (bindQ (loadActiveTagPostIDSet e (tag_ID tag) s) (\<lambda>postIDs.
         counted_list (loadRankedPosts h e sortBy window limit feedCursor cursor (\<lambda>p. post_ID p \<in> set postIDs) s)
           (Some (countVisiblePostsFromIDs e postIDs s)))) c = Some (Inr l, c1)"
    by (auto simp: GetPostsByTag_def Let_def split: option.splits sum.splits if_splits)
  from cached_posts_loaded [OF assms(4) [rule_format] this] obtain postIDs l0 where
    "loadRankedPosts h e sortBy window limit feedCursor cursor (\<lambda>p. post_ID p \<in> set postIDs) s = Some (Inr l0)"
    "pl_NextCursor l0 = pl_NextCursor l"
    by (auto simp: bindQ_run counted_list_def returnQ_def)
  with assms(5) show ?thesis by (auto intro: loadRankedPosts_next)
qed

text \<open>
  C17: the ranked lists of a board and of a tag stop after their first page. When such a list, ordered by
  \<open>hot\<close>, \<open>best\<close> or \<open>top\<close>, names a next page, asking for that page, of whatever board or tag and in
  whatever order, is always answered with the invalid input error: both queries first read the
  cursor as one of a list by key.
\<close>

theorem ranked_pages_stop:
  assumes "GetPostsList h e clk boardUUID sortValue windowValue limit cursor s c = Some (Inr l, c1) \<or>
      GetPostsByTag h e clk tagName sortValue windowValue limit cursor s c = Some (Inr l, c1)"
    and "normalizeRankingSortWindow (env_lower e) sortValue windowValue PostFeedSortLatest True = Inr (sortBy, window)"
    and "sortBy \<noteq> PostFeedSortLatest" "\<forall>cacheKey. \<not> in_cache clk cacheKey c" "pl_NextCursor l = Some next_page"
  shows "GetPostsList h' e' clk' boardUUID' sortValue' windowValue' limit' next_page s' c' = Some (Inl (Sentinel ErrInvalidInput), c') \<and>
    GetPostsByTag h' e' clk' tagName' sortValue' windowValue' limit' next_page s' c' = Some (Inl (Sentinel ErrInvalidInput), c')"
proof -
  from assms(1) ranked_list_next [OF _ assms(2-5)] ranked_tag_next [OF _ assms(2-5)]
  obtain score nano i where "next_page = encodeFeedCursor sortBy window score nano i" by metis
  then show ?thesis by (simp add: feed_cursor_refused)
qed

section \<open>On the forum of the examples\<close>

definition demo_ranking :: ranking_repo where
  "demo_ranking = fold PostRanking_Handle
     [PostChanged ''created'' 1 1 (Some (of_UnixNano 5)) [] [] 9, PostChanged ''created'' 2 2 (Some (of_UnixNano 6)) [] [] 9,
      PostChanged ''created'' 3 1 (Some (of_UnixNano 7)) [] [] 9] NewPostRankingRepository"

definition demo_hot :: "int \<Rightarrow> int \<Rightarrow> float64" where
  "demo_hot base seconds = 0"

definition demo_feeds :: post_query_handler where
  "demo_feeds = demo_queries\<lparr>pq_ranking := Some (\<lambda>_ sb w l c. Inr (fst (ListFeed demo_hot 100 sb w l c demo_ranking)))\<rparr>"

lemma UnixNano_of_UnixNano: "- (2 ^ 63) \<le> n \<Longrightarrow> n < 2 ^ 63 \<Longrightarrow> UnixNano (of_UnixNano n) = n"
  by (simp add: UnixNano_def of_UnixNano_def sint_sbintrunc' signed_take_bit_int_eq_self)

lemma demo_rows: "rk_posts demo_ranking = map (\<lambda>(i, board, n). (i, \<lparr>rp_PostID = i, rp_BoardID = board, rp_PublishedAt = of_UnixNano n,
    rp_Status = PostStatusPublished, rp_TotalReactionScore = 0, rp_TotalCommentScore = 0, rp_Activity = []\<rparr>)) [(1, 1, 5), (2, 2, 6), (3, 1, 7)]"
  by (simp add: demo_ranking_def UpsertPostSnapshot_def NewPostRankingRepository_def Let_def)

lemma demo_ranking_ok: "ranking_ok demo_ranking"
  by (simp add: ranking_ok_def demo_rows UnixNano_of_UnixNano activityScoreWithin_def)

lemma demo_hot_ok: "\<forall>base seconds. \<not> is_nan (demo_hot base seconds)"
  by (simp add: demo_hot_def is_nan_def magnitude_def)

text \<open>All scores are equal, so the newest comes first.\<close>

lemma demo_feed: "feed_order demo_hot 100 demo_ranking ''hot'' [] =
    map (\<lambda>(i, board, n). \<lparr>fr_PostID = i, fr_BoardID = board, fr_Score = 0, fr_PublishedAt = of_UnixNano n\<rparr>) [(3, 1, 7), (2, 2, 6), (1, 1, 5)]"
  by (simp add: feed_order_def feed_results_def demo_rows ranked_def rankingScore_def demo_hot_def sort_Slice_def
      compareFeedResults_def float_eq_def is_nan_def magnitude_def float_key_def PostFeedSortLatest_def PostFeedSortBest_def
      PostFeedSortTop_def IsZero_def of_UnixNano_def)

lemma demo_feed_live: "feed_live demo_square (feed_order demo_hot 100 demo_ranking ''hot'' [])"
  by (simp add: feed_live_def demo_feed demo_square_def demo_store_simps entity_eval)

lemma demo_square_boards: "map (fr_PostID \<circ> fst) (shown_feed demo_square (\<lambda>_. True) (feed_order demo_hot 100 demo_ranking ''hot'' [])) = [3, 1]"
  by (simp add: shown_feed_def demo_feed board_visible_def demo_square_def demo_store_simps entity_eval selectBoardByID_def)

lemma normalize_hot: "normalizeRankingSortWindow id ''hot'' [] d True = Inr (''hot'', [])"
  by (simp add: normalizeRankingSortWindow_def ToLower_def TrimSpace_plain plain_byte_def ascii_lower_def Let_def PostFeedSortHot_def)

theorem feed_pages_witness:
  "\<exists>l c'. GetFeed demo_feeds demo_env (\<lambda>_. 200) ''hot'' [] 1 [] demo_square NewInMemoryCache = Some (Inr l, c') \<and>
    (\<exists>next_page. pl_NextCursor l = Some next_page) \<and> length (pl_Posts l) = 1"
proof -
  have sort: "normalizeRankingSortWindow (env_lower demo_env) ''hot'' [] PostFeedSortHot True = Inr (''hot'', [])"
    by (simp add: demo_env_simps normalize_hot)
  have ranking: "pq_ranking demo_feeds = Some (\<lambda>_ sb w l c. Inr (fst (ListFeed demo_hot 100 sb w l c demo_ranking)))"
    by (simp add: demo_feeds_def)
  have len: "length (shown_feed demo_square (\<lambda>_. True) (feed_order demo_hot 100 demo_ranking ''hot'' [])) = 2"
    using arg_cong [OF demo_square_boards, of length] by simp
  have fault: "\<forall>label. env_fault demo_env label = None" by (simp add: demo_env_simps)
  from feed_pages [OF demo_ranking_ok demo_hot_ok demo_feed_live demo_square_ok(1,3) fault ranking sort, of 0 "\<lambda>_. 200" 1 NewInMemoryCache]
  obtain l c' where "GetFeed demo_feeds demo_env (\<lambda>_. 200) ''hot'' [] 1 [] demo_square NewInMemoryCache = Some (Inr l, c')"
    and p: "next_page_ok demo_square (feed_order demo_hot 100 demo_ranking ''hot'' []) 0 1 l ''hot'' []"
    "list_all2 (post_shown demo_square) (map snd (take 1 (shown_feed demo_square (\<lambda>_. True) (feed_order demo_hot 100 demo_ranking ''hot'' [])))) (pl_Posts l)"
    by (auto simp: RequirePositiveLimit_def MaxPageLimit_def not_in_new_cache feed_position_def)
  moreover have "\<exists>next_page. pl_NextCursor l = Some next_page"
    using p(1) len by (auto simp: next_page_ok_def split: option.splits)
  moreover have "length (pl_Posts l) = 1" using list_all2_lengthD [OF p(2)] len by simp
  ultimately show ?thesis by blast
qed

theorem ranked_pages_stop_witness:
  "\<exists>l c1 next_page. GetPostsList demo_feeds demo_env (\<lambda>_. 200) ''b1'' ''hot'' [] 1 [] demo_square NewInMemoryCache = Some (Inr l, c1) \<and>
    pl_NextCursor l = Some next_page \<and>
    GetPostsList demo_feeds demo_env (\<lambda>_. 300) ''b1'' ''hot'' [] 1 next_page demo_square c1 = Some (Inl (Sentinel ErrInvalidInput), c1)"
proof -
  let ?in = "\<lambda>p. post_BoardID p = 1" and ?feed = "feed_order demo_hot 100 demo_ranking ''hot'' []"
  let ?key = "key_RankedPostList 1 ''hot'' [] 1 []"
  have fault: "\<forall>label. env_fault demo_env label = None" by (simp add: demo_env_simps)
  have read: "read_repo demo_env label x = Inr x" for label and x :: 'x by (simp add: read_repo_def demo_env_simps)
  have shown: "map (fr_PostID \<circ> fst) (shown_feed demo_square ?in ?feed) = [3, 1]"
    by (simp add: shown_feed_def demo_feed board_visible_def demo_square_def demo_store_simps entity_eval selectBoardByID_def)
  then have len: "length (shown_feed demo_square ?in ?feed) = 2" by (metis length_map length_Cons list.size(3) numeral_2_eq_2)
  let ?page = "post_page demo_env 1 [] (take 2 (shown_feed demo_square ?in ?feed)) snd
      (\<lambda>(x, _ :: post). encodeFeedCursor ''hot'' [] (fr_Score x) (UnixNano (fr_PublishedAt x)) (fr_PostID x)) demo_square"
  have ready: "\<forall>x \<in> set (take 2 (shown_feed demo_square ?in ?feed)).
      db_get (st_users demo_square) (post_AuthorID (snd x)) \<noteq> None \<and> board_visible demo_square None (post_BoardID (snd x))"
    using shown_feed_ready [OF demo_square_ok(3) demo_feed_live, of ?in] by (blast dest: in_set_takeD)
  obtain l where l: "?page = Inr l" using post_page_returns [OF fault ready] by blast
  obtain c1 where c1: "cached_posts demo_feeds (\<lambda>_. 200) ?key ''load post list cache'' ''decode post list cache payload''
      (Some (Inr l)) NewInMemoryCache = Some (Inr l, c1)" using cached_posts_miss [OF not_in_new_cache] by blast
  have board: "\<exists>b. selectBoardByUUID ''b1'' (st_boards demo_square) = Some b \<and> board_ID b = 1 \<and> \<not> board_Hidden b"
    by (simp add: selectBoardByUUID_def demo_square_def demo_store_simps entity_eval)
  have "loadRankedPosts demo_feeds demo_env ''hot'' [] 1 None [] ?in demo_square = Some ?page"
    using memory_feed_loop [OF demo_ranking_ok demo_hot_ok fault demo_feed_live, of 0 2 0 ?in]
    by (simp add: loadRankedPosts_def demo_feeds_def CursorFetchLimit_def RequirePositiveLimit_def MaxPageLimit_def)
  with l board c1 obtain l' c2 where first: "GetPostsList demo_feeds demo_env (\<lambda>_. 200) ''b1'' ''hot'' [] 1 [] demo_square NewInMemoryCache = Some (Inr l', c2)"
    and l': "pl_NextCursor l' = pl_NextCursor l"
    by (auto simp: GetPostsList_def RequirePositiveLimit_def MaxPageLimit_def DecodeOpaqueCursor_def TrimSpace_plain read bindE_def
        found_def EnsureBoardVisible_def demo_env_simps normalize_hot PostFeedSortLatest_def decodeFeedCursor_def with_total_def Let_def)
  from post_page_run [OF l] len obtain next_page where n: "pl_NextCursor l' = Some next_page" by (auto simp: l')
  have sort: "normalizeRankingSortWindow (env_lower demo_env) ''hot'' [] PostFeedSortLatest True = Inr (''hot'', [])"
    by (simp add: demo_env_simps normalize_hot)
  from ranked_pages_stop [OF disjI1, OF first sort _ _ n] first n show ?thesis
    by (auto simp: not_in_new_cache PostFeedSortLatest_def)
qed

end
