(* ===== verification/SearchRules.thy ===== *)
theory SearchRules
  imports RepoSearch RankingRules
begin

text \<open>
  What the search index promises. The counts and postings of the index are those of its documents, whatever
  sequence of rebuilding, updating and deleting led to it, so that a search answers what going
  through all documents would; documents follow the store as events are handled.
\<close>

section \<open>Counts\<close>

definition counted :: "searchDocument multiset \<Rightarrow> (searchDocument \<Rightarrow> string list) \<Rightarrow> string \<Rightarrow> int" where
  "counted M f t = int (size {# d \<in># M. t \<in> set (f d) #})"

definition field_ok :: "searchDocument multiset \<Rightarrow> (searchDocument \<Rightarrow> string list) \<Rightarrow> (string \<times> int) list \<Rightarrow> bool" where
  "field_ok M f field \<longleftrightarrow> (\<forall>t. map_of field t = (if counted M f t = 0 then None else Some (counted M f t)))"

lemma counted_nonneg: "0 \<le> counted M f t"
  by (simp add: counted_def)

lemma counted_add: "counted (add_mset d M) f t = counted M f t + (if t \<in> set (f d) then 1 else 0)"
  by (simp add: counted_def)

lemma field_count: "field_ok M f field \<Longrightarrow> count_of field t = counted M f t"
  by (simp add: field_ok_def count_of_def)

lemma map_of_count_tokens:
  "distinct tokens \<Longrightarrow> map_of (fold (count_token delta) tokens field) t =
    (if t \<in> set tokens then (let n = count_of field t + delta in if n \<le> 0 then None else Some n) else map_of field t)"
proof (induction tokens arbitrary: field)
  case (Cons x tokens)
  have "count_of (count_token delta x field) t = (if t = x then max 0 (count_of field t + delta) else count_of field t)"
    "map_of (count_token delta x field) t = (if t = x then (let n = count_of field t + delta in if n \<le> 0 then None else Some n) else map_of field t)"
    by (simp_all add: count_token_def Let_def map_of_put_row count_of_def)
  with Cons show ?case by (cases "t = x") (auto simp only: fold.simps comp_def distinct.simps set_simps insert_iff if_True if_False simp_thms)
qed simp

lemma distinct_first_seen: "distinct (first_seen xs)"
proof -
  have "distinct (fold (\<lambda>x out. if x \<in> set out then out else out @ [x]) xs out)" if "distinct out" for out :: "'a list"
    using that by (induction xs arbitrary: out) auto
  then show ?thesis by (simp add: first_seen_def)
qed

lemmas first_seen_set = set_first_seen distinct_first_seen

lemma map_of_updateFieldCounts:
  "map_of (updateFieldCounts field tokens delta) t =
    (if t \<in> set tokens then (let n = count_of field t + delta in if n \<le> 0 then None else Some n) else map_of field t)"
  by (simp add: updateFieldCounts_def map_of_count_tokens first_seen_set)

lemma updateFieldCounts_add:
  assumes "field_ok M f field"
  shows "field_ok (add_mset d M) f (updateFieldCounts field (f d) 1)"
  unfolding field_ok_def
proof
  fix t
  show "map_of (updateFieldCounts field (f d) 1) t =
      (if counted (add_mset d M) f t = 0 then None else Some (counted (add_mset d M) f t))"
    using counted_nonneg [of M f t] assms field_count [OF assms, of t]
    by (simp add: map_of_updateFieldCounts counted_add Let_def field_ok_def)
qed

lemma updateFieldCounts_remove:
  assumes "field_ok (add_mset d M) f field"
  shows "field_ok M f (updateFieldCounts field (f d) (- 1))"
  unfolding field_ok_def
proof
  fix t
  show "map_of (updateFieldCounts field (f d) (- 1)) t = (if counted M f t = 0 then None else Some (counted M f t))"
    using counted_nonneg [of M f t] assms field_count [OF assms, of t]
    by (auto simp: map_of_updateFieldCounts counted_add Let_def field_ok_def)
qed

section \<open>Postings\<close>

definition doc_id :: "searchDocument \<Rightarrow> int" where
  "doc_id d = post_ID (sd_post d)"

definition postings_ok :: "searchDocument multiset \<Rightarrow> (string \<times> int list) list \<Rightarrow> bool" where
  "postings_ok M p \<longleftrightarrow> (\<forall>t. map_of p t \<noteq> Some [] \<and> distinct (posting p t) \<and>
     set (posting p t) = {doc_id d | d. d \<in># M \<and> t \<in> set (sd_allTerms d)})"

lemma posting_post_term:
  "posting (post_term i x p) t = (if t = x then List.insert i (posting p t) else posting p t)"
  "(\<And>t. map_of p t \<noteq> Some []) \<Longrightarrow> map_of (post_term i x p) t \<noteq> Some []"
proof -
  have "List.insert i ids \<noteq> []" for ids by (metis in_set_insert insert_Nil list.distinct(1) not_Cons_self2 set_empty insert_not_empty list.set(2) set_insert)
  then show "posting (post_term i x p) t = (if t = x then List.insert i (posting p t) else posting p t)"
    "(\<And>t. map_of p t \<noteq> Some []) \<Longrightarrow> map_of (post_term i x p) t \<noteq> Some []"
    by (auto simp: post_term_def posting_def map_of_put_row)
qed

lemma posting_post_terms:
  "posting (fold (post_term i) terms p) t = (if t \<in> set terms then List.insert i (posting p t) else posting p t)"
  "(\<And>t. map_of p t \<noteq> Some []) \<Longrightarrow> map_of (fold (post_term i) terms p) t \<noteq> Some []"
  by (induction terms arbitrary: p) (simp_all add: posting_post_term)

lemma posting_unpost_term:
  "posting (unpost_term i x p) t = (if t = x then removeAll i (posting p t) else posting p t)"
  "(\<And>t. map_of p t \<noteq> Some []) \<Longrightarrow> map_of (unpost_term i x p) t \<noteq> Some []"
  by (auto simp: unpost_term_def posting_def map_of_put_row Let_def split: option.splits)

lemma posting_unpost_terms:
  "posting (fold (unpost_term i) terms p) t = (if t \<in> set terms then removeAll i (posting p t) else posting p t)"
  "(\<And>t. map_of p t \<noteq> Some []) \<Longrightarrow> map_of (fold (unpost_term i) terms p) t \<noteq> Some []"
  by (induction terms arbitrary: p) (simp_all add: posting_unpost_term)

lemma postings_add: "postings_ok M p \<Longrightarrow> postings_ok (add_mset d M) (fold (post_term (doc_id d)) (sd_allTerms d) p)"
  by (fastforce simp: postings_ok_def posting_post_terms)

lemma postings_remove:
  assumes "postings_ok (add_mset d M) p" "\<forall>d' \<in># M. doc_id d' \<noteq> doc_id d"
  shows "postings_ok M (fold (unpost_term (doc_id d)) (sd_allTerms d) p)"
  using assms by (fastforce simp: postings_ok_def posting_unpost_terms distinct_removeAll)

section \<open>The index of its documents\<close>

definition stats_ok :: "searchDocument multiset \<Rightarrow> searchIndexStats \<Rightarrow> bool" where
  "stats_ok M s \<longleftrightarrow> si_documentCount s = int (size M) \<and>
     si_titleTokenCount s = (\<Sum>d \<in># M. int (length (sd_titleTokens d))) \<and>
     si_tagTokenCount s = (\<Sum>d \<in># M. int (length (sd_tagTokens d))) \<and>
     si_contentTokenCount s = (\<Sum>d \<in># M. int (length (sd_contentTokens d))) \<and>
     field_ok M sd_titleTokens (si_titleDF s) \<and> field_ok M sd_tagTokens (si_tagDF s) \<and>
     field_ok M sd_contentTokens (si_contentDF s) \<and> postings_ok M (si_termPostings s)"

lemma index_empty: "stats_ok {#} newSearchIndexStats"
  by (simp add: stats_ok_def newSearchIndexStats_def field_ok_def postings_ok_def posting_def counted_def)

lemma addDocument_ok: "stats_ok M s \<Longrightarrow> stats_ok (add_mset d M) (addDocument d s)"
  by (simp add: stats_ok_def addDocument_def updateFieldCounts_add postings_add [unfolded doc_id_def])

lemma removeDocument_ok:
  "stats_ok (add_mset d M) s \<Longrightarrow> \<forall>d' \<in># M. doc_id d' \<noteq> doc_id d \<Longrightarrow> stats_ok M (removeDocument d s)"
  using postings_remove [of d M "si_termPostings s"]
  by (simp add: stats_ok_def removeDocument_def updateFieldCounts_remove doc_id_def)

lemma rebuildIndex_ok: "stats_ok (mset (row_values documents)) (rebuildIndex documents)"
proof -
  have "stats_ok (mset ds + M) (fold addDocument ds s)" if "stats_ok M s" for ds M s
    using that
  proof (induction ds arbitrary: M s)
    case (Cons d ds)
    from Cons.IH [OF addDocument_ok [OF Cons.prems, of d]] show ?case by simp
  qed simp
  from this [OF index_empty, of "row_values documents"] show ?thesis by (simp only: rebuildIndex_def add_0_right)
qed

text \<open>The documents are kept under their posts, and their terms are those of their fields.\<close>

definition docs_ok :: "(int \<times> searchDocument) list \<Rightarrow> bool" where
  "docs_ok documents \<longleftrightarrow> distinct (map fst documents) \<and>
     (\<forall>(i, d) \<in> set documents. doc_id d = i \<and> distinct (sd_allTerms d) \<and>
        set (sd_allTerms d) = set (sd_titleTokens d) \<union> set (sd_contentTokens d) \<union> set (sd_tagTokens d))"

definition search_ok :: "search_store \<Rightarrow> bool" where
  "search_ok r \<longleftrightarrow> docs_ok (ss_documents r) \<and> stats_ok (mset (row_values (ss_documents r))) (ss_index r)"

lemma del_row_none: "map_of m k = None \<Longrightarrow> del_row k m = m"
  by (induction m) (auto split: if_splits)

lemma del_row_values:
  "distinct (map fst m) \<Longrightarrow> map_of m k = Some v \<Longrightarrow> mset (row_values m) = add_mset v (mset (row_values (del_row k m)))"
proof (induction m)
  case (Cons a m)
  then show ?case by (cases a) (auto simp: del_row_none map_of_eq_None_iff image_iff)
qed simp

lemma docs_ok_del: "docs_ok m \<Longrightarrow> docs_ok (del_row i m)"
  by (auto simp: docs_ok_def distinct_del_row set_del_row)

lemma docs_ok_id: "docs_ok m \<Longrightarrow> map_of m i = Some d \<Longrightarrow> doc_id d = i"
  by (auto simp: docs_ok_def dest!: map_of_SomeD)

text \<open>Taking a document out, and putting one in.\<close>

lemma search_remove:
  assumes "search_ok r"
  shows "search_ok \<lparr>ss_documents = del_row i (ss_documents r),
      ss_index = (case map_of (ss_documents r) i of None \<Rightarrow> ss_index r | Some d \<Rightarrow> removeDocument d (ss_index r))\<rparr>"
proof (cases "map_of (ss_documents r) i")
  case None
  with assms show ?thesis by (simp add: search_ok_def del_row_none)
next
  case (Some d)
  let ?m = "ss_documents r"
  have ok: "docs_ok ?m" "stats_ok (mset (row_values ?m)) (ss_index r)" using assms by (simp_all add: search_ok_def)
  have "mset (row_values ?m) = add_mset d (mset (row_values (del_row i ?m)))"
    using ok(1) Some by (intro del_row_values) (simp_all add: docs_ok_def)
  with ok(2) have "stats_ok (add_mset d (mset (row_values (del_row i ?m)))) (ss_index r)" by simp
  moreover have "\<forall>d' \<in># mset (row_values (del_row i ?m)). doc_id d' \<noteq> doc_id d"
    using docs_ok_id [OF ok(1) Some] docs_ok_del [OF ok(1), of i] by (auto simp: docs_ok_def set_del_row)
  ultimately show ?thesis using Some docs_ok_del [OF ok(1)] by (simp add: search_ok_def removeDocument_ok)
qed

lemma search_insert:
  assumes "search_ok r" "map_of (ss_documents r) i = None" "doc_id d = i" "docs_ok [(i, d)]"
  shows "search_ok \<lparr>ss_documents = put_row i d (ss_documents r), ss_index = addDocument d (ss_index r)\<rparr>"
proof -
  have "put_row i d (ss_documents r) = ss_documents r @ [(i, d)]"
    using assms(2) by (intro put_row_fresh) (simp add: map_of_eq_None_iff)
  with assms show ?thesis
    using addDocument_ok [of "mset (row_values (ss_documents r))" "ss_index r" d]
    by (auto simp: search_ok_def docs_ok_def map_of_eq_None_iff)
qed

section \<open>The steps keep it\<close>

lemma buildSearchDocument_ok:
  assumes "buildSearchDocument tr p tagNames = Some d"
  shows "docs_ok [(post_ID p, d\<lparr>sd_lastUpdatedAt := t\<rparr>)]" "doc_id d = post_ID p"
  using assms by (auto simp: buildSearchDocument_def docs_ok_def doc_id_def first_seen_set Let_def split: if_splits)

lemma UpsertPost_commit_ok:
  assumes "search_ok r" "\<And>d. loaded = Some d \<Longrightarrow> doc_id d = i \<and> docs_ok [(i, d\<lparr>sd_lastUpdatedAt := now\<rparr>)]"
  shows "search_ok (UpsertPost_commit i now loaded r)"
proof -
  let ?r1 = "\<lparr>ss_documents = del_row i (ss_documents r),
      ss_index = (case map_of (ss_documents r) i of None \<Rightarrow> ss_index r | Some d \<Rightarrow> removeDocument d (ss_index r))\<rparr>"
  have r1: "(case map_of (ss_documents r) i of None \<Rightarrow> r
      | Some d \<Rightarrow> \<lparr>ss_documents = del_row i (ss_documents r), ss_index = removeDocument d (ss_index r)\<rparr>) = ?r1"
    by (cases r) (auto simp: del_row_none split: option.split)
  show ?thesis
  proof (cases loaded)
    case None
    then show ?thesis using assms(1) search_remove [OF assms(1), of i] by (simp add: UpsertPost_commit_def Let_def r1)
  next
    case (Some d)
    have "search_ok \<lparr>ss_documents = put_row i (d\<lparr>sd_lastUpdatedAt := now\<rparr>) (ss_documents ?r1),
        ss_index = addDocument (d\<lparr>sd_lastUpdatedAt := now\<rparr>) (ss_index ?r1)\<rparr>"
      using assms(2) [OF Some] by (intro search_insert search_remove assms(1)) (simp_all add: doc_id_def)
    with Some assms(1) show ?thesis by (simp add: UpsertPost_commit_def Let_def r1)
  qed
qed

lemma UpsertPost_ok:
  assumes "search_ok r" "db_ok post_ID (st_posts s)"
  shows "search_ok (UpsertPost tr s i now r)"
  unfolding UpsertPost_def
  using db_get_bounds [OF assms(2)]
  by (intro UpsertPost_commit_ok assms(1))
    (auto simp: loadSearchDocumentByPostID_def dest: buildSearchDocument_ok split: option.splits)

lemma Search_DeletePost_ok: "search_ok r \<Longrightarrow> search_ok (Search_DeletePost i now r)"
  using search_remove [of r i] by (simp add: Search_DeletePost_def Let_def)

lemma docs_ok_put: "docs_ok m \<Longrightarrow> docs_ok [(i, d)] \<Longrightarrow> docs_ok (put_row i d m)"
  by (auto simp: docs_ok_def distinct_put_row set_put_row)

lemma RebuildAll_load_ok: "docs_ok (RebuildAll_load tr s t)"
proof -
  have "docs_ok (fold (\<lambda>d. put_row (post_ID (sd_post d)) (d\<lparr>sd_lastUpdatedAt := t\<rparr>)) ds m)"
    if "docs_ok m" "\<forall>d \<in> set ds. docs_ok [(post_ID (sd_post d), d\<lparr>sd_lastUpdatedAt := t\<rparr>)]" for ds m
    using that by (induction ds arbitrary: m) (simp_all add: docs_ok_put)
  moreover have "docs_ok []" by (simp add: docs_ok_def)
  moreover have "\<forall>d \<in> set (loadSearchDocuments tr s). docs_ok [(post_ID (sd_post d), d\<lparr>sd_lastUpdatedAt := t\<rparr>)]"
    using buildSearchDocument_ok(1) [of tr _ _ _ t] buildSearchDocument_ok(2)
    by (fastforce simp: loadSearchDocuments_def List.map_filter_def doc_id_def)
  ultimately show ?thesis by (simp add: RebuildAll_load_def)
qed

lemma RebuildAll_commit_ok:
  assumes "docs_ok loaded" "search_ok r"
  shows "search_ok (RebuildAll_commit t loaded r)"
proof -
  have "docs_ok (fold (\<lambda>(i, d). if t < sd_lastUpdatedAt d then put_row i d else (\<lambda>m. m)) ds m)"
    if "docs_ok m" "\<forall>(i, d) \<in> set ds. docs_ok [(i, d)]" for ds m
    using that by (induction ds arbitrary: m) (auto simp: docs_ok_put)
  moreover have "\<forall>(i, d) \<in> set (ss_documents r). docs_ok [(i, d)]" using assms(2) by (auto simp: search_ok_def docs_ok_def)
  ultimately show ?thesis using assms(1) rebuildIndex_ok by (auto simp: RebuildAll_commit_def search_ok_def Let_def)
qed

text \<open>
  What the handlers and a rebuilding do to the index, each read of the store and each commit a step of its own: the store may
  have changed, and other steps may have been taken, between the two.
\<close>

inductive search_run :: "text_rules \<Rightarrow> search_store \<Rightarrow> bool" for tr where
  start: "search_run tr NewPostSearchStore"
| upsert: "search_run tr r \<Longrightarrow> db_ok post_ID (st_posts s) \<Longrightarrow>
    search_run tr (UpsertPost_commit i now (loadSearchDocumentByPostID tr s i) r)"
| delete: "search_run tr r \<Longrightarrow> search_run tr (Search_DeletePost i now r)"
| rebuild: "search_run tr r \<Longrightarrow> search_run tr (RebuildAll_commit t (RebuildAll_load tr s t) r)"

lemma search_run_ok: "search_run tr r \<Longrightarrow> search_ok r"
proof (induction rule: search_run.induct)
  case start
  then show ?case using index_empty by (simp add: search_ok_def NewPostSearchStore_def docs_ok_def)
next
  case (upsert r s i now)
  then show ?case using UpsertPost_ok [of r s tr i now] by (simp add: UpsertPost_def)
qed (simp_all add: Search_DeletePost_ok RebuildAll_commit_ok RebuildAll_load_ok)

section \<open>The posts that have every term\<close>

lemma base_posting_run:
  "base_posting p terms base = None \<longleftrightarrow> (\<exists>t \<in> set terms. posting p t = [])"
  "base_posting p terms base = Some None \<longleftrightarrow> terms = [] \<and> base = None"
  "base_posting p terms base = Some (Some (b, ids)) \<Longrightarrow> base = Some (b, ids) \<or> b \<in> set terms \<and> ids = posting p b"
  by (induction p terms base rule: base_posting.induct) (auto simp: Let_def split: option.splits if_splits)

lemma narrow_run:
  "set (narrow p b terms c) = {i \<in> set c. \<forall>t \<in> set terms. t = b \<or> i \<in> set (posting p t)}"
  "distinct c \<Longrightarrow> distinct (narrow p b terms c)"
  by (induction p b terms c rule: narrow.induct) (auto simp: Let_def filter_empty_conv)

lemma matchingPostIDs_run:
  assumes "terms \<noteq> []" "\<forall>t. distinct (posting (si_termPostings s) t)"
  shows "set (matchingPostIDs s terms) = {i. \<forall>t \<in> set terms. i \<in> set (posting (si_termPostings s) t)}"
    and "distinct (matchingPostIDs s terms)"
proof -
  let ?p = "si_termPostings s"
  have "set (matchingPostIDs s terms) = {i. \<forall>t \<in> set terms. i \<in> set (posting ?p t)} \<and> distinct (matchingPostIDs s terms)"
  proof (cases "base_posting ?p terms None")
    case None
    with base_posting_run(1) obtain t where "t \<in> set terms" "posting ?p t = []" by blast
    then have "{i. \<forall>t \<in> set terms. i \<in> set (posting ?p t)} = {}" by force
    with None assms(1) show ?thesis by (simp add: matchingPostIDs_def)
  next
    case (Some o')
    with base_posting_run(2) [of ?p terms None] assms(1) obtain b ids where o': "o' = Some (b, ids)" by (cases o') auto
    with Some base_posting_run(3) [of ?p terms None b ids] have "b \<in> set terms" "ids = posting ?p b" by auto
    with Some o' assms narrow_run [where p = ?p and b = b and terms = terms and c = ids] show ?thesis
      by (auto simp: matchingPostIDs_def)
  qed
  then show "set (matchingPostIDs s terms) = {i. \<forall>t \<in> set terms. i \<in> set (posting ?p t)}" "distinct (matchingPostIDs s terms)"
    by blast+
qed

section \<open>Searching by going through all documents\<close>

definition scan_score :: "float_ops \<Rightarrow> searchDocument list \<Rightarrow> string list \<Rightarrow> string \<Rightarrow> searchDocument \<Rightarrow> float64" where
  "scan_score fo docs queryTerms phrase d =
     (let n = int (length docs);
          bm25 = (\<lambda>f. weightedBM25 fo (f d) queryTerms (\<lambda>t. int (length (filter (\<lambda>d'. t \<in> set (f d')) docs)))
                    (averageFieldLengthFromTotals fo (\<Sum>d' \<leftarrow> docs. int (length (f d'))) n) n) in
      fo_add fo
        (fo_add fo (fo_add fo (bm25 sd_titleTokens searchTitleWeight) (bm25 sd_tagTokens searchTagWeight))
          (bm25 sd_contentTokens searchContentWeight))
        (phraseBoost fo d phrase))"

definition scan_result :: "text_rules \<Rightarrow> float_ops \<Rightarrow> string \<Rightarrow> searchDocument list \<Rightarrow> searchDocument \<Rightarrow> search_result" where
  "scan_result tr fo query docs d =
     \<lparr>sr_Post = Some (sd_post d), sr_Score = scan_score fo docs (Tokenize tr query) (Normalize tr query) d\<rparr>"

text \<open>A document is found when it has every term in one of its fields.\<close>

definition scan_docs :: "text_rules \<Rightarrow> string \<Rightarrow> searchDocument list \<Rightarrow> searchDocument list" where
  "scan_docs tr query docs =
     filter (\<lambda>d. set (Tokenize tr query) \<subseteq> set (sd_titleTokens d) \<union> set (sd_tagTokens d) \<union> set (sd_contentTokens d)) docs"

text \<open>All results, the best first.\<close>

definition scan_feed :: "text_rules \<Rightarrow> float_ops \<Rightarrow> string \<Rightarrow> searchDocument list \<Rightarrow> search_result list" where
  "scan_feed tr fo query docs =
     (if Tokenize tr query = [] then []
      else sort_Slice compareSearchResults (map (scan_result tr fo query docs)
        (scan_docs tr query docs)))"

lemma counted_list: "counted (mset docs) f t = int (length (filter (\<lambda>d. t \<in> set (f d)) docs))"
  unfolding counted_def by (simp flip: mset_filter)

lemma stats_score:
  assumes "stats_ok (mset docs) s"
  shows "searchScore fo s queryTerms phrase d = scan_score fo docs queryTerms phrase d"
proof -
  have "count_of (si_titleDF s) = (\<lambda>t. int (length (filter (\<lambda>d'. t \<in> set (sd_titleTokens d')) docs)))"
    "count_of (si_tagDF s) = (\<lambda>t. int (length (filter (\<lambda>d'. t \<in> set (sd_tagTokens d')) docs)))"
    "count_of (si_contentDF s) = (\<lambda>t. int (length (filter (\<lambda>d'. t \<in> set (sd_contentTokens d')) docs)))"
    using assms field_count by (auto simp: stats_ok_def counted_list fun_eq_iff)
  moreover have "(\<Sum>d \<in># mset docs. int (length (f d))) = (\<Sum>d \<leftarrow> docs. int (length (f d)))" for f :: "searchDocument \<Rightarrow> string list"
    by (simp flip: sum_mset_sum_list mset_map)
  ultimately show ?thesis using assms by (simp add: searchScore_def scan_score_def stats_ok_def Let_def)
qed

text \<open>The order of the results.\<close>

definition search_key :: "search_result \<Rightarrow> int \<times> int" where
  "search_key x = (float_key (sr_Score x), search_id x)"

lemma compareSearchResults_key:
  "\<not> is_nan (sr_Score x) \<Longrightarrow> \<not> is_nan (sr_Score y) \<Longrightarrow> compareSearchResults x y \<longleftrightarrow> search_key y < search_key x"
  by (auto simp: compareSearchResults_def search_key_def float_eq_def float_less_def)

lemma searchResultAfterCursor_key:
  assumes "\<not> is_nan (sr_Score x)" "\<not> is_nan (sr_Score y)" "sc_Score c = sr_Score y" "sc_PostID c = search_id y"
  shows "searchResultAfterCursor (sr_Score x) (search_id x) c \<longleftrightarrow> search_key x < search_key y"
  using assms by (auto simp: searchResultAfterCursor_def search_key_def float_less_def)

lemma search_sorted:
  assumes "distinct (map search_id xs)" "\<forall>x \<in> set xs. \<not> is_nan (sr_Score x)"
  shows "sorted_wrt (\<lambda>x y. search_key y < search_key x) (sort_Slice compareSearchResults xs)"
    and "set (sort_Slice compareSearchResults xs) = set xs"
proof -
  have "distinct (map search_key xs)" using assms(1) by (auto simp: distinct_map inj_on_def search_key_def)
  from sort_Slice_desc [OF this, of compareSearchResults] assms(2)
  have "sorted_wrt (\<lambda>x y. search_key y < search_key x) (sort_Slice compareSearchResults xs) \<and>
      mset (sort_Slice compareSearchResults xs) = mset xs" by (simp add: compareSearchResults_key)
  then show "sorted_wrt (\<lambda>x y. search_key y < search_key x) (sort_Slice compareSearchResults xs)"
    "set (sort_Slice compareSearchResults xs) = set xs" by (auto dest: mset_eq_setD)
qed

lemma search_sort_unique:
  assumes "distinct (map search_id xs)" "distinct (map search_id ys)" "set xs = set ys" "\<forall>x \<in> set xs. \<not> is_nan (sr_Score x)"
  shows "sort_Slice compareSearchResults xs = sort_Slice compareSearchResults ys"
  using search_sorted [OF assms(1,4)] search_sorted [OF assms(2)] assms(3,4) by (intro desc_unique) simp_all

text \<open>The results are those of going through the documents.\<close>

lemma docs_ok_rows:
  assumes "docs_ok m"
  shows "distinct (map doc_id (row_values m))" "map_of m i = Some d \<longleftrightarrow> d \<in> set (row_values m) \<and> doc_id d = i"
proof -
  have k: "map doc_id (row_values m) = map fst m" using assms by (auto simp: docs_ok_def)
  show "distinct (map doc_id (row_values m))" unfolding k using assms by (simp add: docs_ok_def)
  show "map_of m i = Some d \<longleftrightarrow> d \<in> set (row_values m) \<and> doc_id d = i"
    using assms by (force simp: docs_ok_def)
qed

lemma map_filter_all: "\<forall>i \<in> set is. f i = Some (g i) \<Longrightarrow> List.map_filter f is = map g is"
  by (induction "is") (simp_all add: map_filter_simps)

lemma search_matches_scan:
  assumes "search_ok r" "Tokenize tr query \<noteq> []"
  shows "set (search_matches tr fo query r) = scan_result tr fo query (row_values (ss_documents r)) ` set (scan_docs tr query (row_values (ss_documents r)))"
    and "distinct (map search_id (search_matches tr fo query r))"
proof -
  let ?m = "ss_documents r" and ?s = "ss_index r" and ?terms = "Tokenize tr query"
  let ?ids = "matchingPostIDs ?s (first_seen ?terms)"
  let ?result = "\<lambda>d. \<lparr>sr_Post = Some (sd_post d), sr_Score = searchScore fo ?s ?terms (Normalize tr query) d\<rparr>"
  have ok: "docs_ok ?m" and stats: "stats_ok (mset (row_values ?m)) ?s" using assms(1) by (simp_all add: search_ok_def)
  have post: "\<forall>t. distinct (posting (si_termPostings ?s) t)"
    "set (posting (si_termPostings ?s) t) = {doc_id d | d. d \<in> set (row_values ?m) \<and> t \<in> set (sd_allTerms d)}" for t
    using stats by (simp_all add: stats_ok_def postings_ok_def)
  have "first_seen ?terms \<noteq> []" using assms(2) by (simp add: first_seen_Nil)
  note ids = matchingPostIDs_run [OF this post(1)]
  have terms: "d \<in> set (row_values ?m) \<Longrightarrow> set (sd_allTerms d) = set (sd_titleTokens d) \<union> set (sd_tagTokens d) \<union> set (sd_contentTokens d)" for d
    using ok by (auto simp: docs_ok_def)
  have hit: "doc_id d \<in> set ?ids \<longleftrightarrow> set ?terms \<subseteq> set (sd_allTerms d)" if "d \<in> set (row_values ?m)" for d
  proof -
    have "doc_id d \<in> set (posting (si_termPostings ?s) t) \<longleftrightarrow> t \<in> set (sd_allTerms d)" for t
      using that docs_ok_rows(1) [OF ok] by (auto simp: post(2) distinct_map inj_on_def)
    then show ?thesis by (auto simp: ids(1))
  qed
  have doc: "\<exists>d. map_of ?m i = Some d" if "i \<in> set ?ids" for i
  proof -
    obtain t where "t \<in> set ?terms" using assms(2) by (cases ?terms) auto
    with that have "i \<in> set (posting (si_termPostings ?s) t)" by (simp add: ids(1))
    then show ?thesis using docs_ok_rows(2) [OF ok] by (auto simp: post(2))
  qed
  have m: "search_matches tr fo query r = map (\<lambda>i. ?result (the (map_of ?m i))) ?ids"
    unfolding search_matches_def by (rule map_filter_all) (use doc in force)
  have "the (map_of ?m i) \<in> set (row_values ?m) \<and> doc_id (the (map_of ?m i)) = i" if "i \<in> set ?ids" for i
    using doc [OF that] docs_ok_rows(2) [OF ok, of i "the (map_of ?m i)"] by (metis option.sel)
  then have "map search_id (search_matches tr fo query r) = ?ids"
    unfolding m by (simp add: o_def search_id_def doc_id_def map_idI)
  with ids(2) show "distinct (map search_id (search_matches tr fo query r))" by simp
  show "set (search_matches tr fo query r) = scan_result tr fo query (row_values ?m) ` set (scan_docs tr query (row_values ?m))"
  proof -
    have "(\<lambda>i. the (map_of ?m i)) ` set ?ids = set (scan_docs tr query (row_values ?m))"
    proof (intro equalityI subsetI)
      fix d assume "d \<in> (\<lambda>i. the (map_of ?m i)) ` set ?ids"
      then obtain i where "i \<in> set ?ids" "d = the (map_of ?m i)" by blast
      moreover from doc [OF this(1)] this(2) have "map_of ?m i = Some d" by auto
      ultimately have "d \<in> set (row_values ?m)" "doc_id d \<in> set ?ids" using docs_ok_rows(2) [OF ok, of i d] by simp_all
      with hit terms show "d \<in> set (scan_docs tr query (row_values ?m))" by (auto simp: scan_docs_def)
    next
      fix d assume "d \<in> set (scan_docs tr query (row_values ?m))"
      then have "d \<in> set (row_values ?m)" "doc_id d \<in> set ?ids" using hit terms by (auto simp: scan_docs_def)
      with docs_ok_rows(2) [OF ok, of "doc_id d" d] show "d \<in> (\<lambda>i. the (map_of ?m i)) ` set ?ids" by force
    qed
    moreover have "search_matches tr fo query r = map (scan_result tr fo query (row_values ?m)) (map (\<lambda>i. the (map_of ?m i)) ?ids)"
      unfolding m scan_result_def stats_score [OF stats] by simp
    ultimately show ?thesis by (simp only: set_map)
  qed
qed

definition scored :: "text_rules \<Rightarrow> float_ops \<Rightarrow> string \<Rightarrow> searchDocument list \<Rightarrow> bool" where
  "scored tr fo query docs \<longleftrightarrow> (\<forall>d \<in> set docs. \<not> is_nan (sr_Score (scan_result tr fo query docs d)))"

lemma scan_distinct:
  assumes "docs_ok m"
  shows "distinct (map search_id (map (scan_result tr fo query docs) (scan_docs tr query (row_values m))))"
proof -
  have ids: "map search_id (map (scan_result tr fo query docs) ds) = map doc_id ds" for ds
    by (simp add: scan_result_def search_id_def doc_id_def)
  show ?thesis unfolding ids scan_docs_def by (rule distinct_map_filter [OF docs_ok_rows(1) [OF assms]])
qed

lemma search_from_start:
  assumes "search_ok r" "scored tr fo query (row_values (ss_documents r))" "0 < limit"
  shows "SearchPublishedPosts tr fo query limit None r = take (nat limit) (scan_feed tr fo query (row_values (ss_documents r)))"
proof (cases "Tokenize tr query = []")
  case True
  then show ?thesis by (simp add: SearchPublishedPosts_def scan_feed_def)
next
  case False
  let ?docs = "row_values (ss_documents r)"
  have ok: "docs_ok (ss_documents r)" "si_documentCount (ss_index r) = int (length ?docs)"
    using assms(1) by (simp_all add: search_ok_def stats_ok_def)
  have "sort_Slice compareSearchResults (search_matches tr fo query r) =
      sort_Slice compareSearchResults (map (scan_result tr fo query ?docs) (scan_docs tr query ?docs))"
    using search_matches_scan [OF assms(1) False, of fo] assms(2)
    by (intro search_sort_unique scan_distinct [OF ok(1)]) (auto simp: scored_def scan_docs_def)
  moreover have "scan_docs tr query [] = []" "sort_Slice lt [] = []" for lt :: "search_result \<Rightarrow> search_result \<Rightarrow> bool"
    by (simp_all add: scan_docs_def sort_Slice_def)
  ultimately show ?thesis using assms(3) False ok(2)
    by (auto simp: SearchPublishedPosts_def scan_feed_def take_int_def)
qed

lemma search_from_cursor:
  fixes tr fo query and r :: search_store
  defines "feed \<equiv> scan_feed tr fo query (row_values (ss_documents r))"
  assumes "search_ok r" "scored tr fo query (row_values (ss_documents r))" "0 < limit" "i < length feed"
    and c: "sc_Score c = sr_Score (feed ! i)" "sc_PostID c = search_id (feed ! i)"
  shows "SearchPublishedPosts tr fo query limit (Some c) r = take (nat limit) (drop (Suc i) feed)"
proof -
  let ?docs = "row_values (ss_documents r)"
  let ?xs = "search_matches tr fo query r"
  have tokens: "Tokenize tr query \<noteq> []" using assms(5) by (auto simp: feed_def scan_feed_def)
  have ok: "docs_ok (ss_documents r)" "si_documentCount (ss_index r) = int (length ?docs)"
    using assms(2) by (simp_all add: search_ok_def stats_ok_def)
  note matches = search_matches_scan [OF assms(2) tokens, of fo]
  have feed: "feed = sort_Slice compareSearchResults (map (scan_result tr fo query ?docs) (scan_docs tr query ?docs))"
    using tokens by (simp add: feed_def scan_feed_def)
  have num: "\<forall>x \<in> scan_result tr fo query ?docs ` set (scan_docs tr query ?docs). \<not> is_nan (sr_Score x)"
    using assms(3) by (auto simp: scored_def scan_docs_def)
  have desc: "sorted_wrt (\<lambda>x y. search_key y < search_key x) feed"
    and set: "set feed = scan_result tr fo query ?docs ` set (scan_docs tr query ?docs)"
    unfolding feed using search_sorted [OF scan_distinct [OF ok(1), where tr = tr and fo = fo and query = query and docs = ?docs]] num by simp_all
  have docs: "ss_documents r \<noteq> []"
    using assms(5) by (auto simp: feed scan_docs_def sort_Slice_def)
  have after: "filter (\<lambda>x. searchResultAfterCursor (sr_Score x) (search_id x) c) ?xs = filter (\<lambda>x. search_key x < search_key (feed ! i)) ?xs"
    using num matches(1) set nth_mem [OF assms(5)] c
    by (intro filter_cong refl searchResultAfterCursor_key) auto
  have "sort_Slice compareSearchResults (filter (\<lambda>x. search_key x < search_key (feed ! i)) ?xs) =
      filter (\<lambda>x. search_key x < search_key (feed ! i)) feed"
  proof (rule desc_unique)
    have d: "distinct (map search_id (filter (\<lambda>x. search_key x < search_key (feed ! i)) ?xs))"
      using matches(2) by (rule distinct_map_filter)
    have n: "\<forall>x \<in> set (filter (\<lambda>x. search_key x < search_key (feed ! i)) ?xs). \<not> is_nan (sr_Score x)"
      using num matches(1) by auto
    show "sorted_wrt (\<lambda>x y. search_key y < search_key x) (sort_Slice compareSearchResults (filter (\<lambda>x. search_key x < search_key (feed ! i)) ?xs))"
      by (rule search_sorted(1) [OF d n])
    show "set (sort_Slice compareSearchResults (filter (\<lambda>x. search_key x < search_key (feed ! i)) ?xs)) =
        set (filter (\<lambda>x. search_key x < search_key (feed ! i)) feed)"
      using search_sorted(2) [OF d n] matches(1) set by auto
  qed (rule sorted_wrt_filter [OF desc])
  then show ?thesis
    using assms(4) tokens docs ok(2) filter_after_nth [OF desc assms(5)] after
    by (simp add: SearchPublishedPosts_def take_int_def)
qed

text \<open>
  C9: a search through the index answers what going through all documents would. Whatever sequence of rebuilding, updating and
  deleting led to the index, concurrent ones included, the results from the start or after a
  cursor are the documents that have every term of the query, scored with the counts taken over all documents, the
  best first and the newer first among equals, from the position of the cursor on and as many as asked for.
\<close>

theorem search_is_scan:
  fixes tr fo query and r :: search_store
  defines "feed \<equiv> scan_feed tr fo query (row_values (ss_documents r))"
  assumes run: "search_run tr r" and scored: "scored tr fo query (row_values (ss_documents r))" and limit: "0 < limit"
  shows "SearchPublishedPosts tr fo query limit None r = take (nat limit) feed \<and>
    (\<forall>i < length feed. SearchPublishedPosts tr fo query limit
      (Some \<lparr>sc_Sort = searchSortRelevance, sc_Window = [], sc_Score = sr_Score (feed ! i), sc_PostID = search_id (feed ! i)\<rparr>) r =
      take (nat limit) (drop (Suc i) feed))"
  unfolding feed_def
  using search_from_start [OF search_run_ok [OF run] scored limit] search_from_cursor [OF search_run_ok [OF run] scored limit]
  by simp

section \<open>Following the store\<close>

text \<open>The document of a post is the one the store would give, but for the posts whose events are still to be handled.\<close>

definition current_but :: "text_rules \<Rightarrow> store \<Rightarrow> int set \<Rightarrow> search_store \<Rightarrow> bool" where
  "current_but tr s D r \<longleftrightarrow> (\<forall>i. i \<notin> D \<longrightarrow>
     map_option (\<lambda>d. d\<lparr>sd_lastUpdatedAt := 0\<rparr>) (map_of (ss_documents r) i) = loadSearchDocumentByPostID tr s i)"

definition not_after :: "time \<Rightarrow> search_store \<Rightarrow> bool" where
  "not_after now r \<longleftrightarrow> (\<forall>i d. map_of (ss_documents r) i = Some d \<longrightarrow> sd_lastUpdatedAt d \<le> now)"

lemma load_undated: "loadSearchDocumentByPostID tr s i = Some d \<Longrightarrow> d\<lparr>sd_lastUpdatedAt := 0\<rparr> = d"
  by (auto simp: loadSearchDocumentByPostID_def buildSearchDocument_def Let_def split: option.splits if_splits)

lemma not_afterD: "not_after now r \<Longrightarrow> map_of (ss_documents r) i = Some d \<Longrightarrow> \<not> now < sd_lastUpdatedAt d"
  by (fastforce simp: not_after_def)

lemma UpsertPost_documents:
  assumes "not_after now r"
  shows "map_of (ss_documents (UpsertPost tr s i now r)) =
    (map_of (ss_documents r))(i := map_option (\<lambda>d. d\<lparr>sd_lastUpdatedAt := now\<rparr>) (loadSearchDocumentByPostID tr s i))"
  using assms
  by (cases "map_of (ss_documents r) i"; cases "loadSearchDocumentByPostID tr s i")
    (auto simp: UpsertPost_def UpsertPost_commit_def Let_def map_of_put_row fun_eq_iff dest: not_afterD)

lemma Search_DeletePost_documents:
  assumes "not_after now r"
  shows "map_of (ss_documents (Search_DeletePost i now r)) = (map_of (ss_documents r))(i := None)"
  using assms by (auto simp: Search_DeletePost_def Let_def fun_eq_iff dest: not_afterD split: option.splits)

lemma handle_documents:
  assumes "not_after now r" "operation = ''deleted'' \<Longrightarrow> loadSearchDocumentByPostID tr s i = None"
  shows "map_of (ss_documents (PostSearchIndex_Handle tr s now (PostChanged operation i b p f g t) r)) =
    (map_of (ss_documents r))(i := map_option (\<lambda>d. d\<lparr>sd_lastUpdatedAt := now\<rparr>) (loadSearchDocumentByPostID tr s i))"
  using assms by (simp add: UpsertPost_documents Search_DeletePost_documents)

definition about :: "domain_event \<Rightarrow> int option" where
  "about ev = (case ev of PostChanged _ i _ _ _ _ _ \<Rightarrow> Some i | _ \<Rightarrow> None)"

definition tells :: "text_rules \<Rightarrow> store \<Rightarrow> domain_event \<Rightarrow> bool" where
  "tells tr s ev \<longleftrightarrow> (case ev of PostChanged operation i _ _ _ _ _ \<Rightarrow>
     operation = ''deleted'' \<longrightarrow> loadSearchDocumentByPostID tr s i = None | _ \<Rightarrow> True)"

lemma handle_step:
  assumes "not_after now r" "tells tr s ev" "current_but tr s D r" "db_ok post_ID (st_posts s)" "search_run tr r"
  shows "not_after now (PostSearchIndex_Handle tr s now ev r) \<and> search_run tr (PostSearchIndex_Handle tr s now ev r) \<and>
    current_but tr s (D - set_option (about ev)) (PostSearchIndex_Handle tr s now ev r)"
proof (cases ev)
  case (PostChanged operation i b p f g t)
  have "operation = ''deleted'' \<Longrightarrow> loadSearchDocumentByPostID tr s i = None" using assms(2) by (simp add: PostChanged tells_def)
  from handle_documents [OF assms(1) this, where b = b and p = p and f = f and g = g and t = t]
  have m: "map_of (ss_documents (PostSearchIndex_Handle tr s now ev r)) =
      (map_of (ss_documents r))(i := map_option (\<lambda>d. d\<lparr>sd_lastUpdatedAt := now\<rparr>) (loadSearchDocumentByPostID tr s i))"
    by (simp add: PostChanged)
  have "map_option (\<lambda>d. d\<lparr>sd_lastUpdatedAt := 0\<rparr>) (loadSearchDocumentByPostID tr s i) = loadSearchDocumentByPostID tr s i"
    using load_undated by (cases "loadSearchDocumentByPostID tr s i") auto
  with assms(1,3) have "not_after now (PostSearchIndex_Handle tr s now ev r) \<and>
      current_but tr s (D - set_option (about ev)) (PostSearchIndex_Handle tr s now ev r)"
    unfolding not_after_def current_but_def m by (auto simp: PostChanged about_def option.map_comp comp_def)
  moreover have "search_run tr (PostSearchIndex_Handle tr s now ev r)"
    using assms(4,5) by (simp add: PostChanged UpsertPost_def search_run.upsert search_run.delete)
  ultimately show ?thesis by blast
qed (use assms in \<open>simp_all add: about_def\<close>)

text \<open>The terms of a post in the store.\<close>

definition post_terms :: "text_rules \<Rightarrow> store \<Rightarrow> post \<Rightarrow> string set" where
  "post_terms tr s p = set (Tokenize tr (Normalize tr (post_Title p))) \<union> set (Tokenize tr (Normalize tr (post_Content p))) \<union>
     set (Tokenize tr (Normalize tr (Join (activeTagNames s (post_ID p)) '' '')))"

lemma ex_under_map:
  assumes "\<And>i. map_option f (m i) = l i" "\<And>d. Q (f d) \<longleftrightarrow> Q d"
  shows "(\<exists>i d. m i = Some d \<and> Q d) \<longleftrightarrow> (\<exists>i d. l i = Some d \<and> Q d)"
proof -
  have "(\<exists>d. m i = Some d \<and> Q d) \<longleftrightarrow> (\<exists>d. l i = Some d \<and> Q d)" for i
    using assms(1) [of i, symmetric] assms(2) by (cases "m i") auto
  then show ?thesis by blast
qed

lemma in_db_rows: "db_ok rid d \<Longrightarrow> v \<in> set (db_rows d) \<longleftrightarrow> (\<exists>i. db_get d i = Some v)"
  by (force simp: db_ok_def db_get_def db_rows_def dest: map_of_SomeD)

lemma load_some:
  assumes "db_ok post_ID (st_posts s)"
  shows "(\<exists>d. loadSearchDocumentByPostID tr s i = Some d \<and> sd_post d = p \<and>
      set ts \<subseteq> set (sd_titleTokens d) \<union> set (sd_tagTokens d) \<union> set (sd_contentTokens d)) \<longleftrightarrow>
    db_get (st_posts s) i = Some p \<and> post_Status p = PostStatusPublished \<and> set ts \<subseteq> post_terms tr s p"
  using db_get_bounds [OF assms, of i]
  by (auto simp: loadSearchDocumentByPostID_def buildSearchDocument_def post_terms_def Let_def split: option.splits if_splits)

lemma current_found:
  assumes "search_run tr r" "current_but tr s {} r" "db_ok post_ID (st_posts s)" "Tokenize tr query \<noteq> []"
    "scored tr fo query (row_values (ss_documents r))" "int (length (ss_documents r)) \<le> limit" "0 < limit"
  shows "sr_Post ` set (SearchPublishedPosts tr fo query limit None r) =
    {Some p | p. p \<in> set (db_rows (st_posts s)) \<and> post_Status p = PostStatusPublished \<and> set (Tokenize tr query) \<subseteq> post_terms tr s p}"
proof -
  let ?docs = "row_values (ss_documents r)"
  have ok: "docs_ok (ss_documents r)" using search_run_ok [OF assms(1)] by (simp add: search_ok_def)
  let ?xs = "map (scan_result tr fo query ?docs) (scan_docs tr query ?docs)"
  have num: "\<forall>x \<in> set ?xs. \<not> is_nan (sr_Score x)" using assms(5) by (auto simp: scored_def scan_docs_def)
  have "scan_feed tr fo query ?docs = sort_Slice compareSearchResults ?xs" using assms(4) by (simp add: scan_feed_def)
  then have feed: "set (scan_feed tr fo query ?docs) = set ?xs" using search_sorted(2) [OF scan_distinct [OF ok] num] by simp
  have "length (scan_feed tr fo query ?docs) \<le> nat limit"
  proof -
    have "mset (sort_Slice compareSearchResults ?xs) = mset ?xs"
      using sort_Slice_desc [of search_key ?xs compareSearchResults] scan_distinct [OF ok, of tr fo query ?docs] num
      by (auto simp: compareSearchResults_key distinct_map inj_on_def search_key_def)
    then have "length (sort_Slice compareSearchResults ?xs) = length ?xs" by (metis size_mset)
    moreover have "length ?xs \<le> length (ss_documents r)" by (simp add: scan_docs_def order_trans [OF length_filter_le])
    ultimately show ?thesis using assms(4,6) by (simp add: scan_feed_def)
  qed
  then have "set (SearchPublishedPosts tr fo query limit None r) = set ?xs"
    using search_from_start [OF search_run_ok [OF assms(1)] assms(5,7)] feed by simp
  moreover have "sr_Post ` set ?xs = (\<lambda>d. Some (sd_post d)) ` set (scan_docs tr query ?docs)"
    by (simp add: image_image scan_result_def)
  moreover have "p \<in> sd_post ` set (scan_docs tr query ?docs) \<longleftrightarrow>
      p \<in> set (db_rows (st_posts s)) \<and> post_Status p = PostStatusPublished \<and> set (Tokenize tr query) \<subseteq> post_terms tr s p" for p
  proof -
    let ?has = "\<lambda>d. set (Tokenize tr query) \<subseteq> set (sd_titleTokens d) \<union> set (sd_tagTokens d) \<union> set (sd_contentTokens d)"
    have "p \<in> sd_post ` set (scan_docs tr query ?docs) \<longleftrightarrow> (\<exists>i d. map_of (ss_documents r) i = Some d \<and> sd_post d = p \<and> ?has d)"
      using docs_ok_rows(2) [OF ok] by (auto simp: scan_docs_def)
    also have "\<dots> \<longleftrightarrow> (\<exists>i d. loadSearchDocumentByPostID tr s i = Some d \<and> sd_post d = p \<and> ?has d)"
    proof -
      have "map_option (\<lambda>d. d\<lparr>sd_lastUpdatedAt := 0\<rparr>) (map_of (ss_documents r) i) = loadSearchDocumentByPostID tr s i" for i
        using assms(2) by (simp add: current_but_def)
      then show ?thesis by (rule ex_under_map) simp
    qed
    also have "\<dots> \<longleftrightarrow> p \<in> set (db_rows (st_posts s)) \<and> post_Status p = PostStatusPublished \<and> set (Tokenize tr query) \<subseteq> post_terms tr s p"
      using load_some [OF assms(3), of tr _ p "Tokenize tr query"] in_db_rows [OF assms(3)] by blast
    finally show ?thesis .
  qed
  then have "(\<lambda>d. Some (sd_post d)) ` set (scan_docs tr query ?docs) =
    {Some p | p. p \<in> set (db_rows (st_posts s)) \<and> post_Status p = PostStatusPublished \<and> set (Tokenize tr query) \<subseteq> post_terms tr s p}"
    by (auto simp: image_image [of Some sd_post, symmetric])
  ultimately show ?thesis by simp
qed

lemma handle_all:
  assumes "not_after now r" "\<forall>ev \<in> set evs. tells tr s ev" "current_but tr s D r" "db_ok post_ID (st_posts s)" "search_run tr r"
  shows "not_after now (fold (PostSearchIndex_Handle tr s now) evs r) \<and> search_run tr (fold (PostSearchIndex_Handle tr s now) evs r) \<and>
    current_but tr s (D - {i. Some i \<in> about ` set evs}) (fold (PostSearchIndex_Handle tr s now) evs r)"
  using assms
proof (induction evs arbitrary: r D)
  case (Cons ev evs)
  from handle_step [OF Cons.prems(1) _ Cons.prems(3-5), of ev] Cons.prems(2)
  have "not_after now (PostSearchIndex_Handle tr s now ev r)" "search_run tr (PostSearchIndex_Handle tr s now ev r)"
    "current_but tr s (D - set_option (about ev)) (PostSearchIndex_Handle tr s now ev r)" by simp_all
  from Cons.IH [OF this(1) _ this(3) Cons.prems(4) this(2)] Cons.prems(2)
  have "not_after now (fold (PostSearchIndex_Handle tr s now) (ev # evs) r) \<and> search_run tr (fold (PostSearchIndex_Handle tr s now) (ev # evs) r) \<and>
    current_but tr s (D - set_option (about ev) - {i. Some i \<in> about ` set evs}) (fold (PostSearchIndex_Handle tr s now) (ev # evs) r)" by simp
  moreover have "D - set_option (about ev) - {i. Some i \<in> about ` set evs} = D - {i. Some i \<in> about ` set (ev # evs)}"
    by (cases "about ev") auto
  ultimately show ?case by simp
qed simp

text \<open>
  C8: search catches up with the store. When the index was that of an earlier state but for the posts that have changed since, and the
  event of each of them has been handled, in any order, any number of times and among other events, then a search
  that asks for enough results finds exactly the posts of the store that are published and have every
  term of the query in their title, their text or their tags.
\<close>

theorem search_catches_up:
  fixes tr fo query and r :: search_store and evs s now
  defines "r' \<equiv> fold (PostSearchIndex_Handle tr s now) evs r"
  assumes "search_run tr r" "not_after now r" "db_ok post_ID (st_posts s)"
    and changed: "current_but tr s D r" "\<forall>i \<in> D. Some i \<in> about ` set evs" "\<forall>ev \<in> set evs. tells tr s ev"
    and query: "Tokenize tr query \<noteq> []" "scored tr fo query (row_values (ss_documents r'))"
    and limit: "int (length (ss_documents r')) \<le> limit" "0 < limit"
  shows "sr_Post ` set (SearchPublishedPosts tr fo query limit None r') =
    {Some p | p. p \<in> set (db_rows (st_posts s)) \<and> post_Status p = PostStatusPublished \<and> set (Tokenize tr query) \<subseteq> post_terms tr s p}"
proof -
  have "D - {i. Some i \<in> about ` set evs} = {}" using changed(2) by blast
  with handle_all [OF assms(3) changed(3,1) assms(4,2)] have "search_run tr r'" "current_but tr s {} r'"
    by (simp_all add: r'_def)
  from current_found [OF this assms(4) query limit] show ?thesis .
qed

text \<open>A rebuilding reads of each post what its own event would.\<close>

lemma fold_put_built:
  fixes b :: "post \<Rightarrow> searchDocument option"
  assumes "\<And>p d. b p = Some d \<Longrightarrow> post_ID (sd_post d) = post_ID p"
  shows "i \<notin> post_ID ` set ps \<Longrightarrow> map_of (fold (\<lambda>d. put_row (post_ID (sd_post d)) (v d)) (List.map_filter b ps) m) i = map_of m i"
    and "distinct (map post_ID ps) \<Longrightarrow> p \<in> set ps \<Longrightarrow> post_ID p = i \<Longrightarrow>
      map_of (fold (\<lambda>d. put_row (post_ID (sd_post d)) (v d)) (List.map_filter b ps) m) i =
        (case b p of None \<Rightarrow> map_of m i | Some d \<Rightarrow> Some (v d))"
proof -
  show unseen: "i \<notin> post_ID ` set ps \<Longrightarrow>
      map_of (fold (\<lambda>d. put_row (post_ID (sd_post d)) (v d)) (List.map_filter b ps) m) i = map_of m i" for ps m
  proof (induction ps arbitrary: m)
    case (Cons q ps)
    then show ?case using assms by (cases "b q") (auto simp: map_filter_simps map_of_put_row)
  qed (simp add: map_filter_simps)
  show "distinct (map post_ID ps) \<Longrightarrow> p \<in> set ps \<Longrightarrow> post_ID p = i \<Longrightarrow>
      map_of (fold (\<lambda>d. put_row (post_ID (sd_post d)) (v d)) (List.map_filter b ps) m) i =
        (case b p of None \<Rightarrow> map_of m i | Some d \<Rightarrow> Some (v d))"
  proof (induction ps arbitrary: m)
    case (Cons q ps)
    show ?case
    proof (cases "q = p")
      case True
      with Cons.prems have "i \<notin> post_ID ` set ps" by auto
      with True Cons.prems(3) assms show ?thesis by (cases "b p") (simp_all add: map_filter_simps unseen map_of_put_row)
    next
      case False
      with Cons.prems have "p \<in> set ps" "post_ID q \<noteq> i" by force+
      with Cons assms show ?thesis by (cases "b q") (auto simp: map_filter_simps map_of_put_row split: option.splits)
    qed
  qed simp
qed

lemma RebuildAll_load_run:
  assumes "db_ok post_ID (st_posts s)"
  shows "map_of (RebuildAll_load tr s t) i = map_option (\<lambda>d. d\<lparr>sd_lastUpdatedAt := t\<rparr>) (loadSearchDocumentByPostID tr s i)"
proof -
  let ?b = "\<lambda>stored. buildSearchDocument tr stored (activeTagNames s (post_ID stored))"
  have b: "\<And>p d. ?b p = Some d \<Longrightarrow> post_ID (sd_post d) = post_ID p" using buildSearchDocument_ok(2) by (simp add: doc_id_def)
  show ?thesis
  proof (cases "db_get (st_posts s) i")
    case None
    then have "i \<notin> post_ID ` set (db_rows (st_posts s))" using db_get_row [OF assms] by force
    from fold_put_built(1) [where b = ?b and v = "\<lambda>d. d\<lparr>sd_lastUpdatedAt := t\<rparr>", OF b this] None show ?thesis
      by (simp add: RebuildAll_load_def loadSearchDocuments_def loadSearchDocumentByPostID_def)
  next
    case (Some p)
    then have "p \<in> set (db_rows (st_posts s))" "post_ID p = i" using db_get_row [OF assms] by auto
    from fold_put_built(2) [where b = ?b and v = "\<lambda>d. d\<lparr>sd_lastUpdatedAt := t\<rparr>", OF b db_rows_distinct [OF assms] this] Some \<open>post_ID p = i\<close> show ?thesis
      by (simp add: RebuildAll_load_def loadSearchDocuments_def loadSearchDocumentByPostID_def split: option.split)
  qed
qed

section \<open>A deletion during a rebuilding\<close>

lemma rebuild_keeps_loaded:
  assumes "map_of ds i = None"
  shows "map_of (fold (\<lambda>(i, d). if t < sd_lastUpdatedAt d then put_row i d else (\<lambda>m. m)) ds m) i = map_of m i"
  using assms by (induction ds arbitrary: m) (auto simp: map_of_put_row split: if_splits)

lemma handle_other:
  assumes "about ev \<noteq> Some i"
  shows "map_of (ss_documents (PostSearchIndex_Handle tr s now ev r)) i = map_of (ss_documents r) i"
  using assms
  by (cases ev) (auto simp: about_def UpsertPost_def UpsertPost_commit_def Search_DeletePost_def Let_def map_of_put_row split: option.splits)

text \<open>
  C10: a rebuilding brings back a post that was deleted while it ran. It replaces documents it has read by newer
  ones, but a document that has been removed in the meantime leaves no trace, so that the one it has read
  is put in again. It stays, whatever other events are handled, until an event of that very post comes.
\<close>

theorem rebuild_resurrects:
  assumes "map_of (RebuildAll_load tr s startedAt) i = Some d" "not_after now r" "\<forall>(s', t, ev) \<in> set later. about ev \<noteq> Some i"
  shows "map_of (ss_documents (Search_DeletePost i now r)) i = None \<and>
    map_of (ss_documents (fold (\<lambda>(s', t, ev). PostSearchIndex_Handle tr s' t ev) later
      (RebuildAll_commit startedAt (RebuildAll_load tr s startedAt) (Search_DeletePost i now r)))) i = Some d"
proof -
  have gone: "map_of (ss_documents (Search_DeletePost i now r)) i = None" by (simp add: Search_DeletePost_documents [OF assms(2)])
  have restored_doc: "map_of (ss_documents (RebuildAll_commit startedAt (RebuildAll_load tr s startedAt) (Search_DeletePost i now r))) i = Some d"
    using rebuild_keeps_loaded [OF gone, of startedAt "RebuildAll_load tr s startedAt"] assms(1)
    by (simp add: RebuildAll_commit_def Let_def)
  have "map_of (ss_documents (fold (\<lambda>(s', t, ev). PostSearchIndex_Handle tr s' t ev) later r')) i = map_of (ss_documents r') i" for r'
    using assms(3) by (induction later arbitrary: r') (auto simp: handle_other)
  with gone restored_doc show ?thesis by simp
qed

section \<open>On the forum of the examples\<close>

definition demo_text :: text_rules where
  "demo_text = \<lparr>tr_lower = id, tr_nfd = id, tr_mark = (\<lambda>_. False)\<rparr>"

definition demo_floats :: float_ops where
  "demo_floats = \<lparr>fo_add = (\<lambda>_ _. 0), fo_sub = (\<lambda>_ _. 0), fo_mul = (\<lambda>_ _. 0), fo_div = (\<lambda>_ _. 0), fo_log = (\<lambda>_. 0)\<rparr>"

definition demo_index :: search_store where
  "demo_index = UpsertPost demo_text demo_square 3 7 (UpsertPost demo_text demo_square 1 7 NewPostSearchStore)"

lemma text_runes_plain: "\<forall>c \<in> set s. plain_byte c \<Longrightarrow> text_runes s = map (\<lambda>c. [c]) s"
proof (induction s)
  case (Cons c s)
  then have "of_char c < (128 :: nat)" by (simp add: plain_byte_def)
  then have "rune_len (map of_char (c # s)) = 1" by (cases "map of_char (c # s) :: nat list" rule: rune_len.cases) auto
  with Cons \<open>of_char c < 128\<close> show ?case
    by (simp add: text_runes_def rune_chunks.simps [of "of_char c # _"] rune_bytes_def bytes_def)
qed (simp add: text_runes_def rune_chunks.simps)

lemma squash_plain: "\<forall>c \<in> set s. plain_byte c \<Longrightarrow> squash (\<lambda>_. False) b (map (\<lambda>c. [c]) s) = s"
  by (induction s arbitrary: b) (auto dest: space_rune_ends)

lemma next_field_plain: "\<forall>c \<in> set s. plain_byte c \<Longrightarrow> next_field s = (s, [])"
proof (induction s)
  case (Cons c s)
  then have "strip_rune space_runes (c # s) = None"
    by (intro strip_rune_plain) (auto dest: space_rune_ends simp: space_runes_nonempty)
  with Cons show ?case by simp
qed simp

lemma demo_plain:
  assumes "s \<noteq> []" "\<forall>c \<in> set s. plain_byte c \<and> ascii_lower c = c"
  shows "Normalize demo_text s = s" "Tokenize demo_text s = [s]"
proof -
  have plain: "\<forall>c \<in> set s. plain_byte c" using assms(2) by blast
  have "map ascii_lower s = s" using assms(2) by (simp add: map_idI)
  then have low: "ToLower id s = s" by (simp add: ToLower_def)
  show n: "Normalize demo_text s = s"
    using assms(1) by (simp add: Normalize_def demo_text_def low TrimSpace_plain plain text_runes_plain squash_plain)
  have "strip_rune space_runes s = None"
    using plain assms(1) by (intro strip_rune_plain) (auto dest: space_rune_ends simp: space_runes_nonempty)
  then have "TrimLeft s = s" by (simp add: TrimLeft_def trim_front_id)
  moreover obtain m where "length s = Suc m" using assms(1) by (cases s) auto
  moreover have "fields_from k [] = []" for k by (cases k) (simp_all add: TrimLeft_def)
  ultimately have "Fields s = [s]" using assms(1) by (simp add: Fields_def next_field_plain plain)
  then show "Tokenize demo_text s = [s]" using assms(1) by (simp add: Tokenize_def n)
qed

lemma demo_terms:
  "Tokenize demo_text ''text'' = [''text'']" "Normalize demo_text ''text'' = ''text''"
  "Tokenize demo_text ''hello'' = [''hello'']" "Normalize demo_text ''hello'' = ''hello''"
  "Tokenize demo_text ''more'' = [''more'']" "Normalize demo_text ''more'' = ''more''"
  "Tokenize demo_text ''go'' = [''go'']" "Normalize demo_text ''go'' = ''go''"
  by (simp_all add: demo_plain plain_byte_def ascii_lower_def)

definition demo_document :: "post \<Rightarrow> searchDocument" where
  "demo_document p = \<lparr>sd_post = p, sd_titleTokens = [post_Title p], sd_contentTokens = [post_Content p], sd_tagTokens = [''go''],
     sd_titleText = post_Title p, sd_contentText = post_Content p, sd_tagText = ''go'',
     sd_allTerms = [post_Title p, post_Content p, ''go''], sd_lastUpdatedAt = 0\<rparr>"

lemma demo_tags: "i \<in> {1, 2, 3} \<Longrightarrow> activeTagNames demo_square i = [''go'']"
  by (auto simp: activeTagNames_def demo_square_def NewPostTag_def NewTag_def db_get_def map_filter_simps)

lemma demo_built:
  assumes "post_Title p \<in> {''hello'', ''more''}" "post_Content p = ''text''" "post_Status p = PostStatusPublished"
  shows "buildSearchDocument demo_text p [''go''] = Some (demo_document p)"
  using assms by (auto simp: buildSearchDocument_def demo_terms demo_document_def first_seen_def Let_def)

lemma demo_get:
  "db_get (st_posts demo_square) 1 = Some ((NewPost 2 ''p1'' ''hello'' ''text'' 2 1)\<lparr>post_ID := 1\<rparr>)"
  "db_get (st_posts demo_square) 3 = Some ((NewPost 4 ''p3'' ''more'' ''text'' 3 1)\<lparr>post_ID := 3\<rparr>)"
  by (simp_all add: demo_square_def demo_posts_def db_get_def)

lemma demo_load:
  "loadSearchDocumentByPostID demo_text demo_square 1 = Some (demo_document ((NewPost 2 ''p1'' ''hello'' ''text'' 2 1)\<lparr>post_ID := 1\<rparr>))"
  "loadSearchDocumentByPostID demo_text demo_square 3 = Some (demo_document ((NewPost 4 ''p3'' ''more'' ''text'' 3 1)\<lparr>post_ID := 3\<rparr>))"
  unfolding loadSearchDocumentByPostID_def demo_get option.case by (simp_all add: demo_tags demo_built NewPost_def)

lemma demo_scored: "scored demo_text demo_floats query docs"
  by (simp add: scored_def scan_result_def scan_score_def demo_floats_def Let_def is_nan_def magnitude_def)

lemma demo_square_db: "db_ok post_ID (st_posts demo_square)"
  using demo_square_ok(1) by (simp add: in_range_def)

lemma demo_index_run: "search_run demo_text demo_index"
  unfolding demo_index_def UpsertPost_def by (intro search_run.intros demo_square_db)

theorem search_is_scan_witness:
  "SearchPublishedPosts demo_text demo_floats ''text'' 1 None demo_index =
    take 1 (scan_feed demo_text demo_floats ''text'' (row_values (ss_documents demo_index)))"
  using search_is_scan [OF demo_index_run demo_scored, of 1] by simp

lemma handle_length: "length (ss_documents (PostSearchIndex_Handle tr s now ev r)) \<le> Suc (length (ss_documents r))"
proof -
  have put: "length (put_row i d m) \<le> Suc (length m)" for i d and m :: "(int \<times> searchDocument) list" by (induction m) auto
  have del: "length (del_row i m) \<le> length m" for i and m :: "(int \<times> searchDocument) list" by (induction m) auto
  show ?thesis
    by (cases ev) (auto simp: UpsertPost_def UpsertPost_commit_def Search_DeletePost_def Let_def le_SucI
        intro: order_trans [OF put] order_trans [OF del] split: option.split)
qed

theorem search_catches_up_witness:
  "sr_Post ` set (SearchPublishedPosts demo_text demo_floats ''hello'' 10 None
      (fold (PostSearchIndex_Handle demo_text demo_square 7)
        [PostChanged ''created'' 3 1 None [] [] 4, PostChanged ''created'' 1 1 None [] [] 2, PostChanged ''created'' 2 2 None [] [] 3]
        NewPostSearchStore)) =
    {Some p | p. p \<in> set (db_rows (st_posts demo_square)) \<and> post_Status p = PostStatusPublished \<and>
      set (Tokenize demo_text ''hello'') \<subseteq> post_terms demo_text demo_square p}"
proof -
  let ?evs = "[PostChanged ''created'' 3 1 None [] [] 4, PostChanged ''created'' 1 1 None [] [] 2, PostChanged ''created'' 2 2 None [] [] 3]"
  have "length (ss_documents (fold (PostSearchIndex_Handle tr s now) evs r)) \<le> length (ss_documents r) + length evs" for tr s now evs r
  proof (induction evs arbitrary: r)
    case (Cons ev evs)
    from Cons.IH [of "PostSearchIndex_Handle tr s now ev r"] handle_length [of tr s now ev r] show ?case by simp
  qed simp
  from this [of demo_text demo_square 7 ?evs NewPostSearchStore]
  have len: "int (length (ss_documents (fold (PostSearchIndex_Handle demo_text demo_square 7) ?evs NewPostSearchStore))) \<le> 10"
    by (simp add: NewPostSearchStore_def)
  have posts: "loadSearchDocumentByPostID demo_text demo_square i = None" if "i \<notin> {1, 2, 3}" for i
    using that by (simp add: loadSearchDocumentByPostID_def demo_square_def demo_store_simps entity_eval)
  show ?thesis
  proof (rule search_catches_up [where D = "{1, 2, 3}", OF search_run.start _ demo_square_db _ _ _ _ demo_scored len])
    show "current_but demo_text demo_square {1, 2, 3} NewPostSearchStore"
      using posts by (simp add: current_but_def NewPostSearchStore_def)
  qed (simp_all add: not_after_def NewPostSearchStore_def about_def tells_def demo_terms)
qed

theorem rebuild_resurrects_witness:
  "\<exists>d. map_of (ss_documents (Search_DeletePost 1 8 demo_index)) 1 = None \<and>
    map_of (ss_documents (RebuildAll_commit 5 (RebuildAll_load demo_text demo_square 5) (Search_DeletePost 1 8 demo_index))) 1 = Some d"
proof -
  have n0: "not_after 7 NewPostSearchStore" by (simp add: not_after_def NewPostSearchStore_def)
  have n1: "not_after 7 (UpsertPost demo_text demo_square 1 7 NewPostSearchStore)"
    using n0 by (auto simp: not_after_def UpsertPost_documents [OF n0])
  have "not_after 7 demo_index"
    using n1 by (auto simp: not_after_def demo_index_def UpsertPost_documents [OF n1] demo_load)
  then have "not_after 8 demo_index" by (fastforce simp: not_after_def)
  moreover obtain d where "map_of (RebuildAll_load demo_text demo_square 5) 1 = Some d"
    by (simp add: RebuildAll_load_run [OF demo_square_db] demo_load)
  ultimately show ?thesis using rebuild_resurrects [where later = "[]" and i = 1] by force
qed

end
