(* ===== verification/LocalFiles.thy ===== *)
theory LocalFiles
  imports FeedCursors
begin

text \<open>
  \<open>infrastructure/storage/localfs/fileStorage.go\<close> and the interface \<open>port.FileStorage\<close>. What the
  code uses of \<open>path/filepath\<close> is written out on the parts of a path. The file system is the list of
  its directories and files by their place, a path read part by part; there are no links, so a path
  and its clean form name the same place. The environment of a call decides which of its steps
  the operating system refuses, when its context is cancelled, and which names \<open>os.CreateTemp\<close> tries.

  A key never leads out of the root directory, and under keys that are written the way the
  service writes them the storage is a map: saving replaces one content or changes none.
\<close>

section \<open>Paths\<close>

definition IsAbs :: "string \<Rightarrow> bool" where
  "IsAbs path \<longleftrightarrow> has_prefix path ''/''"

fun clean_step :: "bool \<Rightarrow> string list \<Rightarrow> string \<Rightarrow> string list" where
  "clean_step rooted out part =
     (if part = [] \<or> part = ''.'' then out
      else if part = ''..'' then
        (if out \<noteq> [] \<and> last out \<noteq> ''..'' then butlast out
         else if rooted then out
         else out @ [''..''])
      else out @ [part])"

declare clean_step.simps [simp del]

definition clean_parts :: "bool \<Rightarrow> string list \<Rightarrow> string list" where
  "clean_parts rooted ps = foldl (clean_step rooted) [] ps"

text \<open>The place a path names: from the root or from the working directory, and down the parts.\<close>

type_synonym place = "bool \<times> string list"

definition locate :: "string \<Rightarrow> place" where
  "locate path = (IsAbs path, clean_parts (IsAbs path) (Split path ''/''))"

definition path_of :: "place \<Rightarrow> string" where
  "path_of pl =
     (case pl of (rooted, ps) \<Rightarrow>
        if rooted then CHR ''/'' # Join ps ''/'' else if ps = [] then ''.'' else Join ps ''/'')"

definition Clean :: "string \<Rightarrow> string" where
  "Clean path = path_of (locate path)"

definition Dir :: "string \<Rightarrow> string" where
  "Dir path = Clean (rev (dropWhile (\<lambda>c. c \<noteq> CHR ''/'') (rev path)))"

definition Base :: "string \<Rightarrow> string" where
  "Base path =
     (if path = [] then ''.''
      else let stripped = rev (dropWhile (\<lambda>c. c = CHR ''/'') (rev path));
               name = rev (takeWhile (\<lambda>c. c \<noteq> CHR ''/'') (rev stripped))
           in if name = [] then ''/'' else name)"

definition Join_paths :: "string list \<Rightarrow> string" where
  "Join_paths elems =
     (case dropWhile (\<lambda>s. s = []) elems of [] \<Rightarrow> [] | es \<Rightarrow> Clean (Join es ''/''))"

subsection \<open>The parts of a path\<close>

lemma split_parts_short: "length s \<le> n \<Longrightarrow> split_parts n s [c] = Split s [c]"
proof (induction n arbitrary: s rule: less_induct)
  case (less n)
  have shorter: "length b < length s" if "cut_at s [c] = Some (a, b)" for a b
    using that
  proof (induction s arbitrary: a)
    case (Cons x s)
    then show ?case by (fastforce split: if_splits)
  qed simp
  show ?case
  proof (cases "length s")
    case 0
    then show ?thesis by (cases n) (simp_all add: Split_def)
  next
    case (Suc k)
    with less.prems obtain m where n: "n = Suc m" by (cases n) auto
    show ?thesis
    proof (cases "cut_at s [c]")
      case (Some ab)
      obtain a b where ab: "ab = (a, b)" by (cases ab)
      from shorter Some ab have b: "length b \<le> k" "length b \<le> m" using Suc less.prems n by fastforce+
      have "split_parts m b [c] = Split b [c]" by (rule less.IH) (use n b in simp_all)
      moreover have "split_parts k b [c] = Split b [c]"
        by (rule less.IH) (use n b Suc less.prems in simp_all)
      ultimately show ?thesis using Some ab n Suc by (simp add: Split_def)
    qed (use n Suc in \<open>simp add: Split_def\<close>)
  qed
qed

lemma Split_char:
  "Split [] [c] = [[]]" "Split (c # s) [c] = [] # Split s [c]"
  "x \<noteq> c \<Longrightarrow> Split (x # s) [c] = (x # hd (Split s [c])) # tl (Split s [c])"
proof -
  show "Split [] [c] = [[]]" by (simp add: Split_def)
  show "Split (c # s) [c] = [] # Split s [c]" by (simp add: Split_def has_prefix_def)
  assume x: "x \<noteq> c"
  show "Split (x # s) [c] = (x # hd (Split s [c])) # tl (Split s [c])"
  proof (cases "cut_at s [c]")
    case None
    then have "Split s [c] = [s]" by (cases s) (simp_all add: Split_def)
    with None x show ?thesis by (simp add: Split_def has_prefix_def)
  next
    case (Some ab)
    obtain a b where ab: "ab = (a, b)" by (cases ab)
    have b: "length b < length s" using Some ab
    proof (induction s arbitrary: a ab)
      case (Cons x s)
      then show ?case by (fastforce split: if_splits)
    qed simp
    then obtain k where k: "length s = Suc k" by (cases "length s") auto
    have "split_parts (length s) b [c] = Split b [c]" "split_parts k b [c] = Split b [c]"
      using b k by (intro split_parts_short; simp)+
    with Some ab x k show ?thesis by (simp add: Split_def has_prefix_def)
  qed
qed

lemma Split_nonempty [simp]: "Split s [c] \<noteq> []"
proof (cases s)
  case (Cons x t)
  then show ?thesis by (cases "x = c") (simp_all add: Split_char)
qed (simp add: Split_char)

lemma Split_append: "Split (a @ c # b) [c] = Split a [c] @ Split b [c]"
proof (induction a)
  case (Cons x a)
  then show ?case by (cases "x = c") (simp_all add: Split_char)
qed (simp add: Split_char)

lemma Split_plain: "c \<notin> set s \<Longrightarrow> Split s [c] = [s]"
  using Split_Join [of "[s]" c] by simp

lemma Split_parts: "p \<in> set (Split s [c]) \<Longrightarrow> c \<notin> set p"
proof (induction s arbitrary: p)
  case (Cons x s)
  then show ?case
    by (cases "x = c"; cases "Split s [c]") (auto simp: Split_char)
qed (simp add: Split_char)

subsection \<open>Clean paths\<close>

definition plain :: "string \<Rightarrow> bool" where
  "plain p \<longleftrightarrow> p \<noteq> [] \<and> p \<noteq> ''.'' \<and> p \<noteq> ''..'' \<and> CHR ''/'' \<notin> set p"

lemma plain_parts [simp]: "\<not> plain []" "\<not> plain ''.''" "\<not> plain ''..''"
  by (simp_all add: plain_def)

definition canonical :: "place \<Rightarrow> bool" where
  "canonical pl \<longleftrightarrow>
     (\<exists>n qs. snd pl = replicate n ''..'' @ qs \<and> list_all plain qs \<and> (fst pl \<longrightarrow> n = 0))"

lemma clean_step_plain [simp]: "plain p \<Longrightarrow> clean_step rooted out p = out @ [p]"
  by (auto simp: clean_step.simps plain_def)

lemma foldl_plain: "list_all plain ps \<Longrightarrow> foldl (clean_step rooted) out ps = out @ ps"
  by (induction ps arbitrary: out) simp_all

lemma foldl_dotdots:
  "foldl (clean_step False) (replicate m ''..'') (replicate n ''..'') = replicate (m + n) ''..''"
proof (induction n arbitrary: m)
  case (Suc n)
  have "clean_step False (replicate m ''..'') ''..'' = replicate (Suc m) ''..''"
    by (cases m) (simp_all add: clean_step.simps replicate_append_same [symmetric])
  with Suc.IH [of "Suc m"] show ?case by simp
qed simp

lemma clean_canonical: "canonical pl \<Longrightarrow> clean_parts (fst pl) (snd pl) = snd pl"
  using foldl_dotdots [of 0] by (auto simp: canonical_def clean_parts_def foldl_plain)

lemma clean_step_canonical:
  assumes "canonical (rooted, out)" "CHR ''/'' \<notin> set part"
  shows "canonical (rooted, clean_step rooted out part)"
proof -
  from assms(1) obtain n qs where out: "out = replicate n ''..'' @ qs" and q: "list_all plain qs"
    and r: "rooted \<longrightarrow> n = 0" by (auto simp: canonical_def)
  consider (skip) "part = [] \<or> part = ''.''" | (up) "part = ''..''" | (down) "plain part"
    using assms(2) by (auto simp: plain_def)
  then show ?thesis
  proof cases
    case up
    show ?thesis
    proof (cases "qs = []")
      case True
      have "canonical (rooted, replicate (if rooted then 0 else Suc n) ''..'')"
        unfolding canonical_def by (intro exI [of _ "if rooted then 0 else Suc n"] exI [of _ "[]"]) simp
      moreover have "clean_step rooted out part = replicate (if rooted then 0 else Suc n) ''..''"
        using True out r up by (cases n) (simp_all add: clean_step.simps replicate_append_same)
      ultimately show ?thesis by (simp only:)
    next
      case False
      then have "last qs \<noteq> ''..''" using q by (metis last_in_set list_all_iff plain_parts(3))
      then have "clean_step rooted out part = replicate n ''..'' @ butlast qs"
        using False up by (simp add: out clean_step.simps butlast_append)
      moreover have "list_all plain (butlast qs)" using q by (auto simp: list_all_iff dest: in_set_butlastD)
      ultimately show ?thesis using r by (auto simp: canonical_def)
    qed
  next
    case down
    then have "clean_step rooted out part = replicate n ''..'' @ (qs @ [part])" by (simp add: out)
    with q r down show ?thesis by (fastforce simp: canonical_def)
  qed (use assms(1) in \<open>auto simp: clean_step.simps\<close>)
qed

lemma foldl_canonical:
  "canonical (rooted, out) \<Longrightarrow> \<forall>p \<in> set ps. CHR ''/'' \<notin> set p \<Longrightarrow>
    canonical (rooted, foldl (clean_step rooted) out ps)"
  by (induction ps arbitrary: out) (simp_all add: clean_step_canonical)

lemma locate_canonical: "canonical (locate path)"
proof -
  have "canonical (IsAbs path, [])" by (simp add: canonical_def)
  moreover have "\<forall>p \<in> set (Split path ''/''). CHR ''/'' \<notin> set p" using Split_parts by blast
  ultimately show ?thesis unfolding locate_def clean_parts_def by (rule foldl_canonical)
qed

lemma canonical_part: "canonical pl \<Longrightarrow> p \<in> set (snd pl) \<Longrightarrow> p \<noteq> [] \<and> p \<noteq> ''.'' \<and> CHR ''/'' \<notin> set p"
proof -
  assume "canonical pl" "p \<in> set (snd pl)"
  then obtain n qs where "p \<in> set (replicate n ''..'' @ qs)" "list_all plain qs"
    unfolding canonical_def by metis
  then have "p = ''..'' \<or> plain p" by (auto simp: list_all_iff)
  then show ?thesis by (auto simp: plain_def)
qed

lemma Split_Join_parts:
  "canonical pl \<Longrightarrow> snd pl \<noteq> [] \<Longrightarrow> Split (Join (snd pl) ''/'') ''/'' = snd pl"
  by (rule Split_Join) (auto dest: canonical_part)

lemma Join_relative:
  assumes "canonical pl"
  shows "\<not> IsAbs (Join (snd pl) ''/'')"
proof (cases "snd pl")
  case (Cons p ps)
  with canonical_part [OF assms, of p] obtain c q where p: "p = c # q" "c \<noteq> CHR ''/''"
    by (cases p) auto
  then have "\<exists>t. Join (snd pl) ''/'' = c # t" using Cons by (cases ps) auto
  with p(2) show ?thesis by (auto simp: IsAbs_def has_prefix_def)
qed (simp add: IsAbs_def has_prefix_def)

lemma locate_path_of [simp]:
  assumes "canonical pl"
  shows "locate (path_of pl) = pl"
proof -
  obtain r ps where pl: "pl = (r, ps)" by (cases pl)
  have c: "clean_parts r ps = ps" using clean_canonical [OF assms] by (simp add: pl)
  have skip: "clean_step b out [] = out" "clean_step b out ''.'' = out" for b out
    by (simp_all add: clean_step.simps)
  have skip1: "clean_parts b ([] # qs) = clean_parts b qs" for b qs by (simp add: clean_parts_def skip)
  have one: "Split ''.'' ''/'' = [''.'']" "Split [] ''/'' = [[]]" by (rule Split_plain; simp)+
  consider (rel) "\<not> r" "ps \<noteq> []" | (here) "\<not> r" "ps = []" | (abs) r by blast
  then show ?thesis
  proof cases
    case rel
    with Split_Join_parts [OF assms] Join_relative [OF assms] c show ?thesis
      by (simp add: pl path_of_def locate_def)
  next
    case here
    then show ?thesis by (simp add: pl path_of_def locate_def IsAbs_def has_prefix_def one clean_parts_def skip)
  next
    case abs
    then have "Split (CHR ''/'' # Join ps ''/'') ''/'' = [] # (if ps = [] then [[]] else ps)"
      using Split_Join_parts [OF assms] one by (simp add: Split_char pl)
    with abs c skip1 show ?thesis
      by (auto simp: pl path_of_def locate_def IsAbs_def has_prefix_def clean_parts_def skip)
  qed
qed

lemma locate_Clean [simp]: "locate (Clean path) = locate path"
  by (simp add: Clean_def locate_canonical)

lemma Clean_Clean [simp]: "Clean (Clean path) = Clean path"
  by (simp add: Clean_def [of "Clean path"]) (simp add: Clean_def)

lemma Clean_same: "Clean p = p \<Longrightarrow> Clean q = q \<Longrightarrow> locate p = locate q \<longleftrightarrow> p = q"
  by (metis Clean_def)

lemma Clean_nonempty: "Clean path \<noteq> []"
  using canonical_part [OF locate_canonical [of path]]
  by (cases "snd (locate path)"; cases "tl (snd (locate path))")
    (auto simp: Clean_def path_of_def split: prod.splits)

text \<open>A path below another one.\<close>

lemma clean_parts_append: "clean_parts r (ps @ qs) = foldl (clean_step r) (clean_parts r ps) qs"
  by (simp add: clean_parts_def)

lemma IsAbs_append: "a \<noteq> [] \<Longrightarrow> IsAbs (a @ b) = IsAbs a"
  by (cases a) (simp_all add: IsAbs_def has_prefix_def)

lemma locate_below:
  assumes "a \<noteq> []" "\<not> IsAbs b" "list_all plain (snd (locate b))" "Clean b = b"
  shows "locate (a @ CHR ''/'' # b) = (fst (locate a), snd (locate a) @ snd (locate b))"
proof -
  have b: "path_of (locate b) = b" using assms(4) by (simp add: Clean_def)
  have f: "fst (locate b) = False" using assms(2) by (simp add: locate_def)
  have "Split b ''/'' = (if snd (locate b) = [] then [''.''] else snd (locate b))"
    using b f Split_Join_parts [OF locate_canonical [of b]] Split_plain [of "CHR ''/''" "''.''"]
    by (auto simp: path_of_def split: prod.splits if_splits)
  then have "locate (a @ CHR ''/'' # b) =
      (IsAbs a, foldl (clean_step (IsAbs a)) (clean_parts (IsAbs a) (Split a ''/''))
        (if snd (locate b) = [] then [''.''] else snd (locate b)))"
    using assms(1) by (simp add: locate_def IsAbs_append Split_append clean_parts_append)
  also have "\<dots> = (fst (locate a), snd (locate a) @ snd (locate b))"
    using foldl_plain [OF assms(3)] by (simp add: locate_def clean_step.simps)
  finally show ?thesis .
qed

section \<open>The interface\<close>

text \<open>
  An \<open>io.Reader\<close>: the pieces it delivers and the error that follows them, none for the end of the
  content. A storage is its three methods; the number tells the calls of a service apart.
\<close>

datatype reader = Reader (rd_chunks: "string list") (rd_error: "go_error option")

definition rd_text :: "reader \<Rightarrow> string" where
  "rd_text rd = concat (rd_chunks rd)"

record 'fs file_storage =
  fs_Save :: "nat \<Rightarrow> string \<Rightarrow> reader \<Rightarrow> 'fs \<Rightarrow> go_error option \<times> 'fs"
  fs_Open :: "nat \<Rightarrow> string \<Rightarrow> 'fs \<Rightarrow> go_error + reader"
  fs_Delete :: "nat \<Rightarrow> string \<Rightarrow> 'fs \<Rightarrow> go_error option \<times> 'fs"

section \<open>The file system\<close>

datatype node = File string | Directory

type_synonym files = "(place \<times> node) list"

text \<open>
  \<open>le_ctx n\<close> is what the \<open>n\<close>-th look at the context answers, \<open>le_os\<close> why a step is refused, by
  its name and number, \<open>le_temp\<close> the random numbers of the names tried for a temporary file.
\<close>

record local_env =
  le_ctx :: "nat \<Rightarrow> go_error option"
  le_os :: "string \<Rightarrow> nat \<Rightarrow> string option"
  le_temp :: "nat \<Rightarrow> nat"

datatype os_error = ENOENT | ENOTDIR | ENOTEMPTY | EEXIST | EISDIR | Refused string

fun path_error :: "os_error \<Rightarrow> go_error" where
  "path_error ENOENT = External ''no such file or directory'' None"
| "path_error ENOTDIR = External ''not a directory'' None"
| "path_error ENOTEMPTY = External ''directory not empty'' None"
| "path_error EEXIST = External ''file exists'' None"
| "path_error EISDIR = External ''is a directory'' None"
| "path_error (Refused reason) = External reason None"

text \<open>The root, the working directory and the directories above it are always there.\<close>

definition node_at :: "place \<Rightarrow> files \<Rightarrow> node option" where
  "node_at pl fs = (if list_all (\<lambda>p. p = ''..'') (snd pl) then Some Directory else map_of fs pl)"

definition above :: "place \<Rightarrow> place list" where
  "above pl = map (\<lambda>n. (fst pl, take n (snd pl))) [0..<length (snd pl)]"

fun is_file :: "node option \<Rightarrow> bool" where
  "is_file (Some (File c)) = True"
| "is_file _ = False"

definition missing :: "place \<Rightarrow> files \<Rightarrow> os_error" where
  "missing pl fs = (if list_ex (\<lambda>d. is_file (node_at d fs)) (above pl) then ENOTDIR else ENOENT)"

fun mkdirs :: "local_env \<Rightarrow> place list \<Rightarrow> files \<Rightarrow> os_error option \<times> files" where
  "mkdirs v [] fs = (None, fs)"
| "mkdirs v (d # ds) fs =
     (case node_at d fs of
        Some Directory \<Rightarrow> mkdirs v ds fs
      | Some (File _) \<Rightarrow> (Some ENOTDIR, fs)
      | None \<Rightarrow>
          (case le_os v ''mkdir'' (length (snd d)) of
             Some reason \<Rightarrow> (Some (Refused reason), fs)
           | None \<Rightarrow> mkdirs v ds (put_row d Directory fs)))"

definition MkdirAll :: "local_env \<Rightarrow> string \<Rightarrow> files \<Rightarrow> os_error option \<times> files" where
  "MkdirAll v path fs = mkdirs v (above (locate path) @ [locate path]) fs"

definition temp_name :: "string \<Rightarrow> nat \<Rightarrow> string" where
  "temp_name dir random =
     (let name = ''.upload-'' @ nat_digits random in
      if dir \<noteq> [] \<and> last dir = CHR ''/'' then dir @ name else dir @ CHR ''/'' # name)"

definition CreateTemp :: "local_env \<Rightarrow> string \<Rightarrow> files \<Rightarrow> (os_error + string) \<times> files" where
  "CreateTemp v dir fs =
     (case node_at (locate dir) fs of
        Some Directory \<Rightarrow>
          (case le_os v ''create'' 0 of
             Some reason \<Rightarrow> (Inl (Refused reason), fs)
           | None \<Rightarrow>
               (case find (\<lambda>n. node_at (locate (temp_name dir (le_temp v n))) fs = None) [0..<10000] of
                  None \<Rightarrow> (Inl EEXIST, fs)
                | Some n \<Rightarrow>
                    let name = temp_name dir (le_temp v n) in (Inr name, put_row (locate name) (File []) fs)))
      | _ \<Rightarrow> (Inl (missing (locate dir) fs), fs))"

definition append_file :: "place \<Rightarrow> string \<Rightarrow> files \<Rightarrow> files" where
  "append_file pl c fs =
     (case map_of fs pl of Some (File old) \<Rightarrow> put_row pl (File (old @ c)) fs | _ \<Rightarrow> fs)"

text \<open>\<open>io.Copy\<close> from a \<open>contextReader\<close>, which looks at the context before every piece.\<close>

fun copy_pieces ::
  "local_env \<Rightarrow> nat \<Rightarrow> place \<Rightarrow> string list \<Rightarrow> go_error option \<Rightarrow> files \<Rightarrow> go_error option \<times> files" where
  "copy_pieces v k pl cs final fs =
     (case le_ctx v k of
        Some err \<Rightarrow> (Some err, fs)
      | None \<Rightarrow>
          (case cs of
             [] \<Rightarrow> (final, fs)
           | c # cs' \<Rightarrow>
               (case le_os v ''write'' k of
                  Some reason \<Rightarrow> (Some (path_error (Refused reason)), fs)
                | None \<Rightarrow> copy_pieces v (Suc k) pl cs' final (append_file pl c fs))))"

declare copy_pieces.simps [simp del]

definition Rename :: "local_env \<Rightarrow> place \<Rightarrow> place \<Rightarrow> files \<Rightarrow> os_error option \<times> files" where
  "Rename v old new fs =
     (case le_os v ''rename'' 0 of
        Some reason \<Rightarrow> (Some (Refused reason), fs)
      | None \<Rightarrow>
          (case (node_at old fs, node_at new fs) of
             (None, _) \<Rightarrow> (Some (missing old fs), fs)
           | (Some _, Some Directory) \<Rightarrow> (Some EEXIST, fs)
           | (Some node, _) \<Rightarrow> (None, put_row new node (del_row old fs))))"

text \<open>\<open>os.Remove\<close> removes a file or an empty directory.\<close>

definition below :: "place \<Rightarrow> place \<Rightarrow> bool" where
  "below pl q \<longleftrightarrow> fst q = fst pl \<and> snd q \<noteq> [] \<and> butlast (snd q) = snd pl"

definition Remove :: "local_env \<Rightarrow> place \<Rightarrow> files \<Rightarrow> os_error option \<times> files" where
  "Remove v pl fs =
     (case node_at pl fs of
        None \<Rightarrow> (Some (missing pl fs), fs)
      | Some node \<Rightarrow>
          (case le_os v ''remove'' 0 of
             Some reason \<Rightarrow> (Some (Refused reason), fs)
           | None \<Rightarrow>
               if node = Directory \<and> (map_of fs pl = None \<or> list_ex (below pl) (map fst fs))
               then (Some ENOTEMPTY, fs) else (None, del_row pl fs)))"

section \<open>The storage\<close>

definition invalid_key :: go_error where
  "invalid_key = External ''invalid storage key'' None"

definition resolve :: "string \<Rightarrow> string \<Rightarrow> go_error + string" where
  "resolve rootDir key =
     (let cleanKey = Clean key in
      if cleanKey = ''.'' \<or> cleanKey = [] then Inl invalid_key
      else if has_prefix cleanKey ''..'' \<or> IsAbs cleanKey then Inl invalid_key
      else Inr (Join_paths [rootDir, cleanKey]))"

definition discard_temp :: "local_env \<Rightarrow> string \<Rightarrow> go_error \<Rightarrow> files \<Rightarrow> go_error option \<times> files" where
  "discard_temp v tempPath err fs = (Some err, snd (Remove v (locate tempPath) fs))"

definition Save :: "local_env \<Rightarrow> string \<Rightarrow> string \<Rightarrow> reader \<Rightarrow> files \<Rightarrow> go_error option \<times> files" where
  "Save v rootDir key content fs =
     (case le_ctx v 0 of Some err \<Rightarrow> (Some err, fs) | None \<Rightarrow>
     (case resolve rootDir key of Inl err \<Rightarrow> (Some err, fs) | Inr fullPath \<Rightarrow>
     (case le_ctx v 1 of Some err \<Rightarrow> (Some err, fs) | None \<Rightarrow>
     (case MkdirAll v (Dir fullPath) fs of
        (Some err, fs1) \<Rightarrow> (Some (path_error err), fs1)
      | (None, fs1) \<Rightarrow>
     (case le_ctx v 2 of Some err \<Rightarrow> (Some err, fs1) | None \<Rightarrow>
     (case CreateTemp v (Dir fullPath) fs1 of
        (Inl err, fs2) \<Rightarrow> (Some (path_error err), fs2)
      | (Inr tempPath, fs2) \<Rightarrow>
     (case copy_pieces v 3 (locate tempPath) (rd_chunks content) (rd_error content) fs2 of
        (Some err, fs3) \<Rightarrow> discard_temp v tempPath err fs3
      | (None, fs3) \<Rightarrow>
     (case le_os v ''close'' 0 of Some reason \<Rightarrow> discard_temp v tempPath (path_error (Refused reason)) fs3 | None \<Rightarrow>
     (case Rename v (locate tempPath) (locate fullPath) fs3 of
        (Some err, fs4) \<Rightarrow> discard_temp v tempPath (path_error err) fs4
      | (None, fs4) \<Rightarrow> (None, fs4))))))))))"

definition Open :: "local_env \<Rightarrow> string \<Rightarrow> string \<Rightarrow> files \<Rightarrow> go_error + reader" where
  "Open v rootDir key fs =
     (case le_ctx v 0 of Some err \<Rightarrow> Inl err | None \<Rightarrow>
     (case resolve rootDir key of Inl err \<Rightarrow> Inl err | Inr fullPath \<Rightarrow>
     (case le_os v ''open'' 0 of Some reason \<Rightarrow> Inl (path_error (Refused reason)) | None \<Rightarrow>
     (case node_at (locate fullPath) fs of
        None \<Rightarrow> Inl (path_error (missing (locate fullPath) fs))
      | Some (File c) \<Rightarrow> Inr (Reader [c] None)
      | Some Directory \<Rightarrow> Inr (Reader [] (Some (path_error EISDIR)))))))"

definition Delete :: "local_env \<Rightarrow> string \<Rightarrow> string \<Rightarrow> files \<Rightarrow> go_error option \<times> files" where
  "Delete v rootDir key fs =
     (case le_ctx v 0 of Some err \<Rightarrow> (Some err, fs) | None \<Rightarrow>
     (case resolve rootDir key of Inl err \<Rightarrow> (Some err, fs) | Inr fullPath \<Rightarrow>
     (case le_ctx v 1 of Some err \<Rightarrow> (Some err, fs) | None \<Rightarrow>
     (case Remove v (locate fullPath) fs of
        (Some err, fs1) \<Rightarrow> if err = ENOENT then (None, fs1) else (Some (path_error err), fs1)
      | (None, fs1) \<Rightarrow> (None, fs1)))))"

definition NewFileStorage :: "(nat \<Rightarrow> local_env) \<Rightarrow> string \<Rightarrow> files file_storage" where
  "NewFileStorage v rootDir =
     \<lparr>fs_Save = \<lambda>n. Save (v n) rootDir, fs_Open = \<lambda>n. Open (v n) rootDir, fs_Delete = \<lambda>n. Delete (v n) rootDir\<rparr>"

section \<open>Keys stay below the root\<close>

lemma clean_key:
  assumes "\<not> has_prefix (Clean key) ''..''" "\<not> IsAbs (Clean key)" "Clean key \<noteq> ''.''"
  shows "fst (locate key) = False" "list_all plain (snd (locate key))" "snd (locate key) \<noteq> []"
    "Clean key = Join (snd (locate key)) ''/''"
proof -
  have c: "canonical (locate key)" by (rule locate_canonical)
  show f: "fst (locate key) = False"
    using assms(2) by (cases "locate key") (auto simp: Clean_def path_of_def IsAbs_def has_prefix_def)
  show ne: "snd (locate key) \<noteq> []"
    using assms(3) f by (cases "locate key") (auto simp: Clean_def path_of_def)
  show j: "Clean key = Join (snd (locate key)) ''/''"
    using f ne by (cases "locate key") (simp add: Clean_def path_of_def)
  from c obtain n qs where s: "snd (locate key) = replicate n ''..'' @ qs" and q: "list_all plain qs"
    unfolding canonical_def by blast
  have "n = 0"
  proof (rule ccontr)
    assume "n \<noteq> 0"
    then obtain ps where "snd (locate key) = ''..'' # ps" using s by (cases n) auto
    then have "has_prefix (Clean key) ''..''" by (cases ps) (simp_all add: j has_prefix_def)
    with assms(1) show False by simp
  qed
  with s q show "list_all plain (snd (locate key))" by simp
qed

lemma resolve_inside:
  assumes "resolve rootDir key = Inr fullPath"
  shows "list_all plain (snd (locate key))" "snd (locate key) \<noteq> []"
    "locate fullPath = (fst (locate rootDir), snd (locate rootDir) @ snd (locate key))"
proof -
  have k: "\<not> has_prefix (Clean key) ''..''" "\<not> IsAbs (Clean key)" "Clean key \<noteq> ''.''"
    and f: "fullPath = Join_paths [rootDir, Clean key]"
    using assms by (auto simp: resolve_def Let_def split: if_splits)
  note ck = clean_key [OF k]
  show "list_all plain (snd (locate key))" "snd (locate key) \<noteq> []" using ck by simp_all
  show "locate fullPath = (fst (locate rootDir), snd (locate rootDir) @ snd (locate key))"
  proof (cases "rootDir = []")
    case True
    have "locate [] = (False, [])"
      by (simp add: locate_def IsAbs_def has_prefix_def Split_char clean_parts_def clean_step.simps)
    with True ck(1) f show ?thesis
      by (cases "locate key") (simp add: Join_paths_def Clean_nonempty)
  next
    case False
    have "locate (rootDir @ CHR ''/'' # Clean key) = (fst (locate rootDir), snd (locate rootDir) @ snd (locate key))"
      using locate_below [OF False k(2)] ck(2) by simp
    with False f show ?thesis by (simp add: Join_paths_def)
  qed
qed

lemma last_locate:
  assumes "plain b"
  shows "\<exists>out. locate (a @ CHR ''/'' # b) = (IsAbs (a @ ''/''), out @ [b])"
proof -
  have "Split b ''/'' = [b]" by (rule Split_plain) (use assms in \<open>simp add: plain_def\<close>)
  moreover have "IsAbs (a @ CHR ''/'' # b) = IsAbs (a @ ''/'')"
    by (cases a) (simp_all add: IsAbs_def has_prefix_def)
  ultimately show ?thesis using assms by (simp add: locate_def Split_append clean_parts_append)
qed

lemma nat_digits_plain: "c \<in> set (nat_digits n) \<Longrightarrow> 48 \<le> (of_char c :: nat) \<and> (of_char c :: nat) \<le> 57"
proof (induction n rule: nat_digits.induct)
  case (1 n)
  show ?case
  proof (cases "n < 10")
    case True
    with "1.prems" show ?thesis by (simp add: nat_digits.simps [of n] digit_char_def)
  next
    case False
    with 1 show ?thesis by (subst (asm) nat_digits.simps) (auto simp: nat_digits.simps [of n] digit_char_def)
  qed
qed

lemma temp_place:
  "\<exists>out. snd (locate (temp_name dir n)) = out @ [''.upload-'' @ nat_digits n]"
proof -
  have "CHR ''/'' \<notin> set (nat_digits n)" using nat_digits_plain [of "CHR ''/''" n] by auto
  then have p: "plain (''.upload-'' @ nat_digits n)" by (simp add: plain_def)
  have "\<exists>a. temp_name dir n = a @ CHR ''/'' # name" if "name = ''.upload-'' @ nat_digits n" for name
    using that by (cases dir rule: rev_cases) (simp_all add: temp_name_def Let_def)
  with last_locate [OF p] show ?thesis by (metis snd_conv)
qed

section \<open>The storage is a map\<close>

text \<open>
  What a service relies on, for the keys it writes: after a save or a deletion that succeeded only
  the content of that key is another, after one that failed none is, and a key that opens gives its
  content.
\<close>

locale file_store =
  fixes st :: "'fs file_storage" and blob :: "'fs \<Rightarrow> string \<Rightarrow> string option" and usable :: "string \<Rightarrow> bool"
  assumes save_ok: "\<lbrakk>usable k; usable k'; fs_Save st n k rd fs = (None, fs')\<rbrakk> \<Longrightarrow>
      blob fs' k' = (if k' = k then Some (rd_text rd) else blob fs k')"
    and save_failed: "\<lbrakk>usable k; usable k'; fs_Save st n k rd fs = (Some err, fs')\<rbrakk> \<Longrightarrow> blob fs' k' = blob fs k'"
    and delete_ok: "\<lbrakk>usable k; usable k'; fs_Delete st n k fs = (None, fs')\<rbrakk> \<Longrightarrow>
      blob fs' k' = (if k' = k then None else blob fs k')"
    and delete_failed: "fs_Delete st n k fs = (Some err, fs') \<Longrightarrow> fs' = fs"
    and open_ok: "\<lbrakk>usable k; fs_Open st n k fs = Inr rd; rd_error rd = None\<rbrakk> \<Longrightarrow> blob fs k = Some (rd_text rd)"
begin

lemma save_other: "\<lbrakk>usable k; usable k'; fs_Save st n k rd fs = (res, fs'); k' \<noteq> k\<rbrakk> \<Longrightarrow> blob fs' k' = blob fs k'"
  by (cases res) (auto dest: save_ok save_failed)

lemma delete_other: "\<lbrakk>usable k; usable k'; fs_Delete st n k fs = (res, fs'); k' \<noteq> k\<rbrakk> \<Longrightarrow> blob fs' k' = blob fs k'"
  by (cases res) (auto dest: delete_ok delete_failed)

text \<open>Saving under a free key and taking it back leaves every content as it was.\<close>

lemma save_undone:
  assumes "usable k" "usable k'" "blob fs k = None" "fs_Save st n k rd fs = (None, fs1)"
    "fs_Delete st m k fs1 = (None, fs2)"
  shows "blob fs2 k' = blob fs k'"
  using assms save_ok delete_ok by (cases "k' = k") simp_all

end

subsection \<open>Contents of places\<close>

definition content_at :: "place \<Rightarrow> files \<Rightarrow> string option" where
  "content_at pl fs = (case map_of fs pl of Some (File c) \<Rightarrow> Some c | _ \<Rightarrow> None)"

lemma content_put [simp]:
  "content_at q (put_row pl (File c) fs) = (if q = pl then Some c else content_at q fs)"
  "content_at q (del_row pl fs) = (if q = pl then None else content_at q fs)"
  by (simp_all add: content_at_def)

lemma mkdirs_content: "mkdirs v ds fs = (res, fs') \<Longrightarrow> content_at q fs' = content_at q fs"
proof (induction v ds fs rule: mkdirs.induct)
  case (2 v d ds fs)
  have "content_at q (put_row d Directory fs) = content_at q fs" if "node_at d fs = None"
    using that by (auto simp: node_at_def content_at_def split: if_splits)
  with 2 show ?case by (auto split: option.splits node.splits)
qed simp

lemma copy_step:
  "copy_pieces v k pl [] final fs = (case le_ctx v k of Some err \<Rightarrow> (Some err, fs) | None \<Rightarrow> (final, fs))"
  "copy_pieces v k pl (c # cs) final fs = (None, fs') \<Longrightarrow>
    copy_pieces v (Suc k) pl cs final (append_file pl c fs) = (None, fs')"
  by (auto simp: copy_pieces.simps [of v k] split: option.splits)

lemma append_content: "content_at q (append_file pl c fs) =
    (if q = pl then map_option (\<lambda>old. old @ c) (content_at pl fs) else content_at q fs)"
  by (auto simp: append_file_def content_at_def split: option.splits node.splits)

lemma copy_other: "copy_pieces v k pl cs final fs = (res, fs') \<Longrightarrow> q \<noteq> pl \<Longrightarrow> content_at q fs' = content_at q fs"
proof (induction cs arbitrary: k fs)
  case (Cons c cs)
  from Cons.prems(1) have "fs' = fs \<or> copy_pieces v (Suc k) pl cs final (append_file pl c fs) = (res, fs')"
    by (auto simp: copy_pieces.simps [of v k] split: option.splits)
  with Cons show ?case by (metis append_content)
qed (auto simp: copy_step split: option.splits)

lemma copy_content:
  "copy_pieces v k pl cs final fs = (None, fs') \<Longrightarrow> content_at pl fs = Some old \<Longrightarrow>
    content_at pl fs' = Some (old @ concat cs)"
proof (induction cs arbitrary: k fs old)
  case (Cons c cs)
  have "content_at pl (append_file pl c fs) = Some (old @ c)" using Cons.prems(2) by (simp add: append_content)
  with Cons.IH [OF copy_step(2) [OF Cons.prems(1)]] show ?case by simp
qed (auto simp: copy_step split: option.splits)

lemma Remove_content: "Remove v pl fs = (res, fs') \<Longrightarrow> q \<noteq> pl \<Longrightarrow> content_at q fs' = content_at q fs"
  by (auto simp: Remove_def split: option.splits if_splits)

lemma Remove_failed: "Remove v pl fs = (Some err, fs') \<Longrightarrow> fs' = fs"
  by (auto simp: Remove_def split: option.splits if_splits)

lemma Rename_failed: "Rename v old new fs = (Some err, fs') \<Longrightarrow> fs' = fs"
  by (auto simp: Rename_def split: option.splits node.splits)

lemma Rename_content:
  assumes "Rename v old new fs = (None, fs')" "content_at old fs = Some c" "\<not> list_all (\<lambda>p. p = ''..'') (snd old)"
  shows "content_at q fs' = (if q = new then Some c else if q = old then None else content_at q fs)"
proof -
  have "node_at old fs = Some (File c)"
    using assms(2,3) by (auto simp: node_at_def content_at_def split: option.splits node.splits)
  with assms(1) have "fs' = put_row new (File c) (del_row old fs)"
    by (auto simp: Rename_def split: option.splits node.splits)
  then show ?thesis by simp
qed

subsection \<open>The storage in a directory\<close>

definition blob :: "string \<Rightarrow> files \<Rightarrow> string \<Rightarrow> string option" where
  "blob rootDir fs key =
     (case resolve rootDir key of Inr fullPath \<Rightarrow> content_at (locate fullPath) fs | Inl _ \<Rightarrow> None)"

text \<open>A key in clean form whose last part is not one of the names for temporary files.\<close>

definition storage_key :: "string \<Rightarrow> bool" where
  "storage_key key \<longleftrightarrow>
     Clean key = key \<and> key \<noteq> ''.'' \<and> \<not> has_prefix key ''..'' \<and> \<not> IsAbs key \<and>
     \<not> has_prefix (last (snd (locate key))) ''.upload-''"

definition not_temp :: "place \<Rightarrow> bool" where
  "not_temp q \<longleftrightarrow> snd q \<noteq> [] \<and> \<not> has_prefix (last (snd q)) ''.upload-''"

lemma storage_key_resolves:
  assumes "storage_key k"
  obtains fullPath where "resolve rootDir k = Inr fullPath" "not_temp (locate fullPath)"
    "locate fullPath = (fst (locate rootDir), snd (locate rootDir) @ snd (locate k))"
proof -
  have "k \<noteq> []" using assms Clean_nonempty [of k] by (auto simp: storage_key_def)
  with assms have r: "resolve rootDir k = Inr (Join_paths [rootDir, Clean k])"
    by (simp add: resolve_def storage_key_def)
  note i = resolve_inside [OF r]
  with assms have "not_temp (locate (Join_paths [rootDir, Clean k]))"
    by (simp add: not_temp_def storage_key_def)
  with r i show ?thesis by (intro that)
qed

lemma storage_key_places:
  assumes "storage_key k" "storage_key k'" "resolve rootDir k = Inr p" "resolve rootDir k' = Inr p'"
  shows "locate p' = locate p \<longleftrightarrow> k' = k"
proof
  assume "locate p' = locate p"
  then have "snd (locate k') = snd (locate k)"
    using resolve_inside(3) [OF assms(3)] resolve_inside(3) [OF assms(4)] by simp
  moreover have "Clean k = Join (snd (locate k)) ''/''" "Clean k' = Join (snd (locate k')) ''/''"
    using assms(1,2) by (intro clean_key(4); simp add: storage_key_def)+
  ultimately show "k' = k" using assms(1,2) by (simp add: storage_key_def)
qed (use assms(3,4) in simp)

lemma not_temp_name: "not_temp q \<Longrightarrow> q \<noteq> locate (temp_name dir n)"
  using temp_place [of dir n] by (auto simp: not_temp_def has_prefix_def)

lemma CreateTemp_content:
  assumes "CreateTemp v dir fs = (r, fs')" "\<And>n. q \<noteq> locate (temp_name dir n)"
  shows "content_at q fs' = content_at q fs"
    "r = Inr p \<Longrightarrow> content_at (locate p) fs' = Some [] \<and> locate p \<noteq> q \<and> \<not> list_all (\<lambda>p. p = ''..'') (snd (locate p))"
proof -
  have t: "(q = locate (temp_name dir n)) = False" "\<not> list_all (\<lambda>p. p = ''..'') (snd (locate (temp_name dir n)))" for n
    using temp_place [of dir n] assms(2) by auto
  show "content_at q fs' = content_at q fs"
    "r = Inr p \<Longrightarrow> content_at (locate p) fs' = Some [] \<and> locate p \<noteq> q \<and> \<not> list_all (\<lambda>p. p = ''..'') (snd (locate p))"
    using assms(1) t by (auto simp: CreateTemp_def Let_def split: option.splits node.splits)
qed

lemma discard_content:
  "discard_temp v p err fs = (res, fs') \<Longrightarrow> locate p \<noteq> q \<Longrightarrow> content_at q fs' = content_at q fs \<and> res = Some err"
  unfolding discard_temp_def using Remove_content by (metis Pair_inject prod.collapse)

lemma Save_content:
  assumes s: "Save v rootDir key rd fs = (res, fs')" and p: "resolve rootDir key = Inr fullPath"
    and q: "\<And>n. q \<noteq> locate (temp_name (Dir fullPath) n)"
  shows "content_at q fs' = (if res = None \<and> q = locate fullPath then Some (rd_text rd) else content_at q fs)"
proof (cases "le_ctx v 0 \<noteq> None \<or> le_ctx v 1 \<noteq> None")
  case True
  with s p show ?thesis by (auto simp: Save_def split: option.splits)
next
  case ctx: False
  obtain m fs1 where m: "MkdirAll v (Dir fullPath) fs = (m, fs1)" by fastforce
  then have c1: "content_at q fs1 = content_at q fs" unfolding MkdirAll_def by (rule mkdirs_content)
  show ?thesis
  proof (cases "m \<noteq> None \<or> le_ctx v 2 \<noteq> None")
    case True
    with s p ctx m c1 show ?thesis by (auto simp: Save_def split: option.splits)
  next
    case go: False
    obtain r fs2 where r: "CreateTemp v (Dir fullPath) fs1 = (r, fs2)" by fastforce
    note c2 = CreateTemp_content [OF r q]
    show ?thesis
    proof (cases r)
      case (Inl err)
      with s p ctx m go r c1 c2 show ?thesis by (auto simp: Save_def)
    next
      case (Inr t)
      note t = c2(2) [OF Inr]
      obtain w fs3 where w: "copy_pieces v 3 (locate t) (rd_chunks rd) (rd_error rd) fs2 = (w, fs3)" by fastforce
      have c3: "content_at q fs3 = content_at q fs" using copy_other [OF w] t c2(1) c1 by metis
      note sv = s [unfolded Save_def]
      show ?thesis
      proof (cases "w = None \<and> le_os v ''close'' 0 = None")
        case False
        with sv p ctx m go r Inr w obtain err where "discard_temp v t err fs3 = (res, fs')"
          by (cases w; cases "le_os v ''close'' 0") auto
        with discard_content [of v t err fs3 res fs' q] t c3 show ?thesis by auto
      next
        case True
        then have tx: "content_at (locate t) fs3 = Some (rd_text rd)"
          using copy_content [of v 3 "locate t" "rd_chunks rd" "rd_error rd" fs2 fs3 "[]"] w t
          by (simp add: rd_text_def)
        obtain x fs4 where x: "Rename v (locate t) (locate fullPath) fs3 = (x, fs4)" by fastforce
        show ?thesis
        proof (cases x)
          case (Some err)
          with Rename_failed x have "fs4 = fs3" by blast
          with sv p ctx m go r Inr w True x Some have "discard_temp v t (path_error err) fs3 = (res, fs')" by auto
          with discard_content [of v t "path_error err" fs3 res fs' q] t c3 show ?thesis by auto
        next
          case None
          with sv p ctx m go r Inr w True x have "res = None" "fs' = fs4" by auto
          with Rename_content [of v "locate t" "locate fullPath" fs3 fs4 _ q] x None tx t c3 show ?thesis by auto
        qed
      qed
    qed
  qed
qed

lemma Delete_other: "Delete v rootDir key fs = (res, fs') \<Longrightarrow> resolve rootDir key = Inr fullPath \<Longrightarrow>
    q \<noteq> locate fullPath \<Longrightarrow> content_at q fs' = content_at q fs"
  by (auto simp: Delete_def split: option.splits prod.splits if_splits dest: Remove_content)

lemma Delete_content:
  assumes d: "Delete v rootDir key fs = (None, fs')" and p: "resolve rootDir key = Inr fullPath"
  shows "content_at q fs' = (if q = locate fullPath then None else content_at q fs)"
proof -
  obtain r fs1 where r: "Remove v (locate fullPath) fs = (r, fs1)" by fastforce
  with d p have x: "fs' = fs1" "r = None \<or> r = Some ENOENT"
    by (auto simp: Delete_def split: option.splits if_splits)
  have "content_at (locate fullPath) fs1 = None"
    using r x(2)
    by (auto simp: Remove_def node_at_def content_at_def split: option.splits if_splits)
  with Remove_content [OF r, of q] x(1) show ?thesis by simp
qed

subsection \<open>Nothing outside the root\<close>

definition within_root :: "string \<Rightarrow> place \<Rightarrow> bool" where
  "within_root rootDir q \<longleftrightarrow> fst q = fst (locate rootDir) \<and>
     (\<exists>ps. ps \<noteq> [] \<and> list_all plain ps \<and> snd q = snd (locate rootDir) @ ps)"

lemma Join_paths_Clean: "resolve rootDir key = Inr fullPath \<Longrightarrow> \<exists>p. fullPath = Clean p"
  using Clean_nonempty [of key]
  by (auto simp: resolve_def Let_def Join_paths_def split: if_splits list.splits)

lemma Join_last: "ps \<noteq> [] \<Longrightarrow> Join (ps @ [p]) sep = Join ps sep @ sep @ p"
proof (induction ps)
  case (Cons x ps)
  then show ?case by (cases ps) simp_all
qed simp

lemma upto_slash: "CHR ''/'' \<notin> set p \<Longrightarrow>
    rev (dropWhile (\<lambda>c. c \<noteq> CHR ''/'') (rev (a @ CHR ''/'' # p))) = a @ ''/''"
  "CHR ''/'' \<notin> set p \<Longrightarrow> rev (dropWhile (\<lambda>c. c \<noteq> CHR ''/'') (rev p)) = []"
proof -
  assume "CHR ''/'' \<notin> set p"
  then have s: "\<And>c. c \<in> set (rev p) \<Longrightarrow> c \<noteq> CHR ''/''" by auto
  then show "rev (dropWhile (\<lambda>c. c \<noteq> CHR ''/'') (rev p)) = []" by simp
  have "dropWhile (\<lambda>c. c \<noteq> CHR ''/'') (rev p @ CHR ''/'' # rev a) =
      dropWhile (\<lambda>c. c \<noteq> CHR ''/'') (CHR ''/'' # rev a)" using s by (rule dropWhile_append2)
  then show "rev (dropWhile (\<lambda>c. c \<noteq> CHR ''/'') (rev (a @ CHR ''/'' # p))) = a @ ''/''" by simp
qed

lemma locate_slash: "a \<noteq> [] \<Longrightarrow> locate (a @ ''/'') = locate a"
  by (simp add: locate_def IsAbs_append Split_append Split_char clean_parts_append clean_step.simps)

text \<open>The directory of a path below another.\<close>

lemma locate_Dir:
  assumes c: "canonical (r, ps @ [p])" and p: "plain p" and cp: "canonical (r, ps)"
  shows "locate (Dir (path_of (r, ps @ [p]))) = (r, ps)"
proof -
  note u = upto_slash [OF conjunct2 [OF conjunct2 [OF conjunct2 [OF p [unfolded plain_def]]]]]
  note lp = locate_path_of [OF cp]
  have one: "locate [] = (False, [])" "locate ''/'' = (True, [])"
    by (simp_all add: locate_def IsAbs_def has_prefix_def Split_char clean_parts_def clean_step.simps)
  consider "ps = []" | "ps \<noteq> []" by blast
  then show ?thesis
  proof cases
    case 1
    have "Dir (path_of (r, [p])) = Clean (if r then ''/'' else [])"
    proof (cases r)
      case True
      with u(1) [of "[]"] show ?thesis unfolding Dir_def by (simp add: path_of_def)
    next
      case False
      then have "path_of (r, [p]) = p" by (simp add: path_of_def)
      with u(2) False show ?thesis unfolding Dir_def by (simp only: if_False)
    qed
    with 1 one show ?thesis by simp
  next
    case 2
    have ne: "path_of (r, ps) \<noteq> []" using Clean_nonempty [of "path_of (r, ps)"] lp by (simp add: Clean_def)
    have "path_of (r, ps @ [p]) = path_of (r, ps) @ CHR ''/'' # p" using 2 by (simp add: path_of_def Join_last)
    with u(1) [of "path_of (r, ps)"] have "Dir (path_of (r, ps @ [p])) = Clean (path_of (r, ps) @ ''/'')"
      by (simp add: Dir_def)
    with locate_slash [OF ne] lp show ?thesis by simp
  qed
qed

lemma canonical_butlast: "canonical (r, ps @ [p]) \<Longrightarrow> plain p \<Longrightarrow> canonical (r, ps)"
proof -
  assume "canonical (r, ps @ [p])" "plain p"
  then obtain n qs where q: "ps @ [p] = replicate n ''..'' @ qs" "list_all plain qs" "r \<longrightarrow> n = 0"
    unfolding canonical_def by auto
  have "qs \<noteq> []"
  proof
    assume "qs = []"
    then have "p \<in> set (replicate n ''..'')" using q(1) by (metis append_Nil2 in_set_conv_decomp)
    then show False using \<open>plain p\<close> by (auto simp: plain_def)
  qed
  then have "ps = replicate n ''..'' @ butlast qs" using q(1) by (metis butlast_append butlast_snoc)
  moreover have "list_all plain (butlast qs)" using q(2) by (auto simp: list_all_iff dest: in_set_butlastD)
  ultimately show ?thesis using q(3) unfolding canonical_def by auto
qed

lemma temp_locate:
  assumes "plain b" "a \<noteq> []"
  shows "locate (if a \<noteq> [] \<and> last a = CHR ''/'' then a @ b else a @ CHR ''/'' # b) =
    (fst (locate a), snd (locate a) @ [b])"
proof -
  have b: "Split b ''/'' = [b]" by (rule Split_plain) (use assms in \<open>simp add: plain_def\<close>)
  show ?thesis
  proof (cases "last a = CHR ''/''")
    case True
    then obtain x where x: "a = x @ ''/''" using assms(2) by (metis append_butlast_last_id)
    have "IsAbs (x @ CHR ''/'' # b) = IsAbs a" by (cases x) (simp_all add: x IsAbs_def has_prefix_def)
    then show ?thesis
      using True assms b
      by (simp add: x locate_def Split_append Split_char clean_parts_append) (simp add: clean_step.simps)
  next
    case False
    then show ?thesis using assms b by (simp add: locate_def IsAbs_append Split_append clean_parts_append)
  qed
qed

lemma temp_inside:
  assumes "resolve rootDir key = Inr fullPath"
  shows "within_root rootDir (locate fullPath)" "within_root rootDir (locate (temp_name (Dir fullPath) n))"
proof -
  note i = resolve_inside [OF assms]
  obtain ps p where k: "snd (locate key) = ps @ [p]" "plain p" "list_all plain ps"
    using i(1,2) by (cases "snd (locate key)" rule: rev_cases) auto
  show "within_root rootDir (locate fullPath)" unfolding within_root_def i(3) using i(1,2) by auto
  let ?r = "fst (locate rootDir)" and ?d = "snd (locate rootDir) @ ps"
  have l: "locate fullPath = (?r, ?d @ [p])" using i(3) k(1) by simp
  then have f: "fullPath = path_of (?r, ?d @ [p])"
    using Join_paths_Clean [OF assms] locate_Clean Clean_def by metis
  have c: "canonical (?r, ?d @ [p])" using locate_canonical [of fullPath] l by simp
  have d: "locate (Dir fullPath) = (?r, ?d)"
    unfolding f by (rule locate_Dir [OF c k(2) canonical_butlast [OF c k(2)]])
  have "CHR ''/'' \<notin> set (nat_digits n)" using nat_digits_plain [of "CHR ''/''" n] by auto
  then have pl: "plain (''.upload-'' @ nat_digits n)" by (simp add: plain_def)
  have "locate (temp_name (Dir fullPath) n) = (?r, ?d @ [''.upload-'' @ nat_digits n])"
    using temp_locate [OF pl, of "Dir fullPath"] d Clean_nonempty [of "rev (dropWhile (\<lambda>c. c \<noteq> CHR ''/'') (rev fullPath))"]
    unfolding Dir_def [symmetric] temp_name_def Let_def by simp
  then show "within_root rootDir (locate (temp_name (Dir fullPath) n))"
    unfolding within_root_def using k(3) pl by (intro conjI exI [of _ "ps @ [''.upload-'' @ nat_digits n]"]) simp_all
qed

interpretation local_files: file_store "NewFileStorage v rootDir" "blob rootDir" storage_key for v rootDir
proof unfold_locales
  fix k k' n rd fs fs' err
  assume k: "storage_key k" "storage_key k'"
  obtain p p' where p: "resolve rootDir k = Inr p" "resolve rootDir k' = Inr p'" "not_temp (locate p')"
    using k by (metis storage_key_resolves)
  note same = storage_key_places [OF k p(1,2)]
  { assume "fs_Save (NewFileStorage v rootDir) n k rd fs = (None, fs')"
    then have "Save (v n) rootDir k rd fs = (None, fs')" by (simp add: NewFileStorage_def)
    from Save_content [OF this p(1) not_temp_name [OF p(3)]] show "blob rootDir fs' k' = (if k' = k then Some (rd_text rd) else blob rootDir fs k')"
      by (simp add: blob_def p same) }
  { assume "fs_Save (NewFileStorage v rootDir) n k rd fs = (Some err, fs')"
    then have "Save (v n) rootDir k rd fs = (Some err, fs')" by (simp add: NewFileStorage_def)
    from Save_content [OF this p(1) not_temp_name [OF p(3)]] show "blob rootDir fs' k' = blob rootDir fs k'" by (simp add: blob_def p) }
  { assume "fs_Delete (NewFileStorage v rootDir) n k fs = (None, fs')"
    then have "Delete (v n) rootDir k fs = (None, fs')" by (simp add: NewFileStorage_def)
    from Delete_content [OF this p(1)] show "blob rootDir fs' k' = (if k' = k then None else blob rootDir fs k')"
      by (simp add: blob_def p same) }
next
  fix n k fs err fs'
  assume "fs_Delete (NewFileStorage v rootDir) n k fs = (Some err, fs')"
  then show "fs' = fs"
    by (auto simp: NewFileStorage_def Delete_def dest: Remove_failed split: option.splits sum.splits prod.splits if_splits)
next
  fix k n fs rd
  assume k: "storage_key k" and o: "fs_Open (NewFileStorage v rootDir) n k fs = Inr rd" "rd_error rd = None"
  obtain p where p: "resolve rootDir k = Inr p" using k by (metis storage_key_resolves)
  from o show "blob rootDir fs k = Some (rd_text rd)"
    by (auto simp: NewFileStorage_def Open_def p blob_def content_at_def node_at_def rd_text_def
        split: option.splits node.splits if_splits)
qed


text \<open>
  C14: whatever the key, however many \<open>..\<close> it has, saving and deleting change no content outside the
  root directory, and a key that opens gives the content of a file below it; the storage under other
  usable keys is as it was, and a save that failed changed none.
\<close>

theorem storage_contained:
  assumes "\<not> within_root rootDir q"
  shows "content_at q (snd (Save v rootDir key rd fs)) = content_at q fs \<and>
    content_at q (snd (Delete v rootDir key fs)) = content_at q fs \<and>
    (\<forall>rd'. Open v rootDir key fs = Inr rd' \<and> rd_error rd' = None \<longrightarrow>
       (\<exists>q'. within_root rootDir q' \<and> content_at q' fs = Some (rd_text rd'))) \<and>
    (\<forall>k k' res fs'. storage_key k \<and> storage_key k' \<and> Save v rootDir k rd fs = (res, fs') \<longrightarrow>
       blob rootDir fs' k' = (if res = None \<and> k' = k then Some (rd_text rd) else blob rootDir fs k'))"
proof (intro conjI allI impI)
  obtain r fs' where s: "Save v rootDir key rd fs = (r, fs')" by fastforce
  obtain r' fs'' where d: "Delete v rootDir key fs = (r', fs'')" by fastforce
  have "content_at q fs' = content_at q fs \<and> content_at q fs'' = content_at q fs"
  proof (cases "resolve rootDir key")
    case (Inl err)
    with s d show ?thesis by (auto simp: Save_def Delete_def split: option.splits)
  next
    case (Inr fullPath)
    have ne: "q \<noteq> locate (temp_name (Dir fullPath) n)" "q \<noteq> locate fullPath" for n
      using temp_inside [OF Inr] assms by auto
    show ?thesis using Save_content [OF s Inr ne(1)] Delete_other [OF d Inr ne(2)] ne(2) by simp
  qed
  with s d show "content_at q (snd (Save v rootDir key rd fs)) = content_at q fs"
    "content_at q (snd (Delete v rootDir key fs)) = content_at q fs" by simp_all
next
  fix rd'
  assume o: "Open v rootDir key fs = Inr rd' \<and> rd_error rd' = None"
  then obtain fullPath where p: "resolve rootDir key = Inr fullPath"
    by (auto simp: Open_def split: option.splits sum.splits)
  with o have "content_at (locate fullPath) fs = Some (rd_text rd')"
    by (auto simp: Open_def content_at_def node_at_def rd_text_def split: option.splits node.splits if_splits)
  with temp_inside(1) [OF p] show "\<exists>q'. within_root rootDir q' \<and> content_at q' fs = Some (rd_text rd')" by blast
next
  fix k k' res fs'
  assume k: "storage_key k \<and> storage_key k' \<and> Save v rootDir k rd fs = (res, fs')"
  then have s: "fs_Save (NewFileStorage (\<lambda>_. v) rootDir) 0 k rd fs = (res, fs')" by (simp add: NewFileStorage_def)
  with k show "blob rootDir fs' k' = (if res = None \<and> k' = k then Some (rd_text rd) else blob rootDir fs k')"
    by (cases res) (auto dest: local_files.save_ok local_files.save_failed)
qed

text \<open>A key that would lead to a file beside the root directory.\<close>

theorem storage_contained_witness:
  "let v = \<lparr>le_ctx = \<lambda>_. None, le_os = \<lambda>_ _. None, le_temp = id\<rparr>; q = (False, [''secret'']); fs = [(q, File ''key'')] in
   content_at q (snd (Save v ''data'' ''posts/../../secret'' (Reader [''x''] None) fs)) = Some ''key'' \<and>
   content_at q (snd (Delete v ''data'' ''posts/../../secret'' fs)) = Some ''key''"
proof -
  have "\<not> within_root ''data'' (False, [''secret''])"
    by (simp add: within_root_def locate_def IsAbs_def has_prefix_def Split_char clean_parts_def clean_step.simps)
  from storage_contained [OF this, of _ _ _ "[((False, [''secret'']), File ''key'')]"] show ?thesis
    by (simp add: content_at_def Let_def)
qed

end
