(* ===== verification/AttachmentParts.thy ===== *)
theory AttachmentParts
  imports LocalFiles PostParts
begin

text \<open>
  The helpers of \<open>service/attachment/handlers.go\<close>: the key an upload is stored under, the checks of
  its content, the smaller image that replaces it, and the text that embeds it in a post. Decoding and
  encoding an image is a parameter (\<open>image_codec\<close>).

  Whatever the name of the file, the key is one the storage takes and lies below its root; what the
  checks accept is not empty, not too long and an image of its declared type; and the text that embeds
  a file is read back as a reference to it exactly when the name has no closing bracket.
\<close>

section \<open>Names and keys\<close>

definition safe_char :: "char \<Rightarrow> bool" where
  "safe_char c \<longleftrightarrow>
     (let n = of_char c :: nat in
      97 \<le> n \<and> n \<le> 122 \<or> 65 \<le> n \<and> n \<le> 90 \<or> 48 \<le> n \<and> n \<le> 57 \<or> c = CHR ''.'' \<or> c = CHR ''_'' \<or> c = CHR ''-'')"

text \<open>\<open>attachmentFileNameSanitizer\<close>: a run of other bytes becomes one dash.\<close>

fun dash_runs :: "bool \<Rightarrow> string \<Rightarrow> string" where
  "dash_runs inside [] = []"
| "dash_runs inside (c # s) =
     (if safe_char c then c # dash_runs False s
      else if inside then dash_runs True s
      else CHR ''-'' # dash_runs True s)"

definition Trim :: "string \<Rightarrow> string \<Rightarrow> string" where
  "Trim s cutset = rev (dropWhile (\<lambda>c. c \<in> set cutset) (rev (dropWhile (\<lambda>c. c \<in> set cutset) s)))"

definition sanitizeAttachmentFileName :: "string \<Rightarrow> string" where
  "sanitizeAttachmentFileName fileName =
     (let sanitized = Trim (dash_runs False (Base (TrimSpace fileName))) ''-.''
      in if sanitized = [] then ''file'' else sanitized)"

text \<open>The outcome of \<open>rand.Read\<close> on eight bytes, or the clock when it fails.\<close>

definition newAttachmentKeySuffix :: "string option \<Rightarrow> string option" where
  "newAttachmentKeySuffix buf = map_option hex_encode buf"

definition buildAttachmentStorageKey :: "string option \<Rightarrow> time \<Rightarrow> int \<Rightarrow> string \<Rightarrow> string" where
  "buildAttachmentStorageKey buf now postID fileName =
     (let suffix = (case newAttachmentKeySuffix buf of Some s \<Rightarrow> s | None \<Rightarrow> FormatInt (UnixNano now))
      in Join_paths [''posts'', FormatInt postID, suffix @ ''-'' @ sanitizeAttachmentFileName fileName])"

section \<open>Embedding\<close>

fun alt_char :: "char \<Rightarrow> string" where
  "alt_char c =
     (if c = CHR 0x5C then [CHR 0x5C, CHR 0x5C]
      else if c \<in> {CHR ''['', CHR '']'', CHR ''('', CHR '')''} then [CHR 0x5C, c]
      else if c = CHR 0x0D \<or> c = CHR 0x0A then '' ''
      else [c])"

definition markdownSafeAttachmentAltText :: "string \<Rightarrow> string" where
  "markdownSafeAttachmentAltText fileName =
     (let alt = concat (map alt_char (TrimSpace fileName)) in if alt = [] then ''attachment'' else alt)"

definition buildAttachmentEmbedMarkdown :: "string \<Rightarrow> string \<Rightarrow> string" where
  "buildAttachmentEmbedMarkdown fileName attachmentUUID =
     ''!['' @ markdownSafeAttachmentAltText fileName @ ''](attachment://'' @ attachmentUUID @ '')''"

definition buildAttachmentPreviewURL :: "string \<Rightarrow> string \<Rightarrow> string" where
  "buildAttachmentPreviewURL postUUID attachmentUUID =
     ''/api/v1/posts/'' @ postUUID @ ''/attachments/'' @ attachmentUUID @ ''/preview''"

definition unix_seconds :: "time \<Rightarrow> int" where
  "unix_seconds t = t div 10 ^ 9 - 62135596800"

definition buildAttachmentETag :: "attachment \<Rightarrow> string" where
  "buildAttachmentETag a =
     [CHR 0x22] @ ''att-'' @ FormatInt (attachment_ID a) @ ''-'' @ FormatInt (attachment_SizeBytes a) @ ''-'' @
     FormatInt (unix_seconds (attachment_CreatedAt a)) @ [CHR 0x22]"

section \<open>Content\<close>

datatype upload_error = TooLarge | ReadFailed go_error

text \<open>
  \<open>io.ReadAll\<close> of a \<open>LimitedReader\<close>: it stops at the limit and sees an error of the reader only when
  it gets that far. The limit is an \<open>int64\<close>, and the addition wraps.
\<close>

definition ReadAll :: "reader \<Rightarrow> upload_error + string" where
  "ReadAll content = (case rd_error content of None \<Rightarrow> Inr (rd_text content) | Some err \<Rightarrow> Inl (ReadFailed err))"

definition ReadLimited :: "int \<Rightarrow> reader \<Rightarrow> upload_error + string" where
  "ReadLimited n content =
     (if n \<le> int (length (rd_text content)) then Inr (take (nat n) (rd_text content)) else ReadAll content)"

definition readUploadContent :: "reader \<Rightarrow> int \<Rightarrow> upload_error + string" where
  "readUploadContent content maxUploadSizeBytes =
     (if maxUploadSizeBytes \<le> 0 then ReadAll content
      else
        bindE (ReadLimited (sint (word_of_int (maxUploadSizeBytes + 1) :: 64 word)) content) (\<lambda>data.
          if maxUploadSizeBytes < int (length data) then Inl TooLarge else Inr data))"

definition normalizeAttachmentContentType :: "string \<Rightarrow> string" where
  "normalizeAttachmentContentType contentType =
     (if TrimSpace contentType = ''image/jpg'' then ''image/jpeg'' else TrimSpace contentType)"

definition allowedAttachmentContentTypes :: "string list" where
  "allowedAttachmentContentTypes = [''image/png'', ''image/jpeg'', ''image/gif'', ''image/webp'']"

text \<open>
  \<open>http.DetectContentType\<close> as far as the checks can tell its answers apart: the signatures of the four
  types, and whether anything else is binary. The other signatures (documents, audio, archives, and a
  few more) answer other types than the four, for data that no signature below and no check of
  \<open>validateAttachmentUpload\<close> accepts.
\<close>

definition image_signature :: "string \<Rightarrow> string option" where
  "image_signature data =
     (if has_prefix data (bytes [137] @ ''PNG'' @ bytes [13, 10, 26, 10]) then Some ''image/png''
      else if has_prefix data (bytes [255, 216, 255]) then Some ''image/jpeg''
      else if has_prefix data ''GIF87a'' \<or> has_prefix data ''GIF89a'' then Some ''image/gif''
      else if has_prefix data ''RIFF'' \<and> has_prefix (drop 8 data) ''WEBPVP'' then Some ''image/webp''
      else None)"

definition binary_byte :: "char \<Rightarrow> bool" where
  "binary_byte c \<longleftrightarrow>
     (let b = of_char c :: nat in b \<le> 8 \<or> b = 11 \<or> 14 \<le> b \<and> b \<le> 26 \<or> 28 \<le> b \<and> b \<le> 31)"

definition DetectContentType :: "string \<Rightarrow> string" where
  "DetectContentType data =
     (case image_signature data of
        Some ty \<Rightarrow> ty
      | None \<Rightarrow>
          if list_ex binary_byte (take 512 data) then ''application/octet-stream'' else ''text/plain; charset=utf-8'')"

definition validateAttachmentUpload :: "string \<Rightarrow> string \<Rightarrow> string \<Rightarrow> int \<Rightarrow> go_error option" where
  "validateAttachmentUpload fileName contentType data maxUploadSizeBytes =
     (let normalizedContentType = normalizeAttachmentContentType contentType;
          sniffed = DetectContentType data in
      if TrimSpace fileName = [] \<or> TrimSpace contentType = [] then Some (Sentinel ErrInvalidInput)
      else if length data = 0 \<or> maxUploadSizeBytes < int (length data) then Some (Sentinel ErrInvalidInput)
      else if normalizedContentType \<notin> set allowedAttachmentContentTypes then Some (Sentinel ErrInvalidInput)
      else if sniffed = ''application/octet-stream'' \<and> normalizedContentType = ''image/webp'' \<and>
              12 \<le> length data \<and> take 4 data = ''RIFF'' \<and> take 4 (drop 8 data) = ''WEBP'' then None
      else if sniffed \<noteq> normalizedContentType then Some (Sentinel ErrInvalidInput)
      else None)"

record ImageOptimizationConfig =
  io_Enabled :: bool
  io_JPEGQuality :: int

text \<open>Decoding an image and encoding it again; none when one of them fails.\<close>

record image_codec =
  codec_jpeg :: "int \<Rightarrow> string \<Rightarrow> string option"
  codec_png :: "string \<Rightarrow> string option"

definition smaller :: "string \<Rightarrow> string option \<Rightarrow> string" where
  "smaller data encoded =
     (case encoded of
        None \<Rightarrow> data
      | Some out \<Rightarrow> if length out = 0 \<or> length data \<le> length out then data else out)"

definition optimizeJPEG :: "image_codec \<Rightarrow> string \<Rightarrow> int \<Rightarrow> string" where
  "optimizeJPEG codec data quality = smaller data (codec_jpeg codec quality data)"

definition optimizePNG :: "image_codec \<Rightarrow> string \<Rightarrow> string" where
  "optimizePNG codec data = smaller data (codec_png codec data)"

definition optimizeAttachmentImage ::
  "image_codec \<Rightarrow> string \<Rightarrow> string \<Rightarrow> ImageOptimizationConfig \<Rightarrow> string" where
  "optimizeAttachmentImage codec contentType data cfg =
     (if \<not> io_Enabled cfg then data
      else if contentType = ''image/jpeg'' then optimizeJPEG codec data (io_JPEGQuality cfg)
      else if contentType = ''image/png'' then optimizePNG codec data
      else data)"

section \<open>Keys the storage takes\<close>

lemma dash_runs_safe: "c \<in> set (dash_runs inside s) \<Longrightarrow> safe_char c"
  by (induction inside s rule: dash_runs.induct) (auto simp: safe_char_def split: if_splits)

lemma set_Trim: "set (Trim s cutset) \<subseteq> set s"
  unfolding Trim_def by (auto dest!: set_dropWhileD)

lemma sanitize_safe:
  "sanitizeAttachmentFileName f \<noteq> []" "c \<in> set (sanitizeAttachmentFileName f) \<Longrightarrow> safe_char c"
proof -
  show "sanitizeAttachmentFileName f \<noteq> []" by (simp add: sanitizeAttachmentFileName_def Let_def)
  have "\<forall>c \<in> set ''file''. safe_char c" by (simp add: safe_char_def)
  moreover have "\<forall>c \<in> set (Trim (dash_runs False (Base (TrimSpace f))) ''-.''). safe_char c"
    using set_Trim dash_runs_safe by blast
  ultimately show "c \<in> set (sanitizeAttachmentFileName f) \<Longrightarrow> safe_char c"
    unfolding sanitizeAttachmentFileName_def Let_def by (cases "Trim (dash_runs False (Base (TrimSpace f))) ''-.'' = []") auto
qed

definition suffix_char :: "char \<Rightarrow> bool" where
  "suffix_char c \<longleftrightarrow> (let n = of_char c :: nat in 48 \<le> n \<and> n \<le> 57 \<or> 97 \<le> n \<and> n \<le> 102 \<or> c = CHR ''-'')"

lemma suffix_chars:
  "c \<in> set (hex_encode buf) \<Longrightarrow> suffix_char c" "c \<in> set (FormatInt i) \<Longrightarrow> suffix_char c"
proof -
  have h: "suffix_char (hex_digit n)" if "n < 16" for n
    using that by (auto simp: suffix_char_def hex_digit_def)
  have "(of_char x :: nat) div 16 < 16" for x :: char using nat_of_char_less_256 [of x] by linarith
  then show "c \<in> set (hex_encode buf) \<Longrightarrow> suffix_char c" by (auto simp: hex_encode_def intro: h)
  show "c \<in> set (FormatInt i) \<Longrightarrow> suffix_char c"
    using nat_digits_plain by (fastforce simp: FormatInt_def suffix_char_def split: if_splits)
qed

lemma safe_not_slash: "\<not> safe_char (CHR ''/'')" "\<not> suffix_char (CHR ''/'')" "\<not> suffix_char (CHR ''.'')"
  by (simp_all add: safe_char_def suffix_char_def)

lemma FormatInt_nonempty: "FormatInt i \<noteq> []"
  using nat_digits_Cons by (metis FormatInt_def list.distinct(1))

definition upload_suffix :: "string option \<Rightarrow> time \<Rightarrow> string" where
  "upload_suffix buf now =
     (case newAttachmentKeySuffix buf of Some s \<Rightarrow> s | None \<Rightarrow> FormatInt (UnixNano now))"

definition upload_name :: "string option \<Rightarrow> time \<Rightarrow> string \<Rightarrow> string" where
  "upload_name buf now f = upload_suffix buf now @ ''-'' @ sanitizeAttachmentFileName f"

lemma upload_key_parts:
  "buildAttachmentStorageKey buf now postID f = Join [''posts'', FormatInt postID, upload_name buf now f] ''/''"
  "locate (buildAttachmentStorageKey buf now postID f) = (False, [''posts'', FormatInt postID, upload_name buf now f])"
  "list_all plain [''posts'', FormatInt postID, upload_name buf now f]" "hd (upload_name buf now f) \<noteq> CHR ''.''"
proof -
  have sc: "suffix_char c" if "c \<in> set (upload_suffix buf now)" for c
    using that suffix_chars by (auto simp: upload_suffix_def newAttachmentKeySuffix_def split: option.splits)
  have "CHR ''/'' \<notin> set (upload_name buf now f)"
    unfolding upload_name_def using sc sanitize_safe(2) safe_not_slash by auto
  moreover have "CHR ''-'' \<in> set (upload_name buf now f)" by (simp add: upload_name_def)
  then have "upload_name buf now f \<noteq> []" "upload_name buf now f \<noteq> ''.''" "upload_name buf now f \<noteq> ''..''" by auto
  moreover have "CHR ''/'' \<notin> set (FormatInt postID)" "CHR ''.'' \<notin> set (FormatInt postID)"
    using suffix_chars(2) safe_not_slash by blast+
  then have "plain (FormatInt postID)" using FormatInt_nonempty by (auto simp: plain_def)
  ultimately show pl: "list_all plain [''posts'', FormatInt postID, upload_name buf now f]" by (simp add: plain_def)
  show "hd (upload_name buf now f) \<noteq> CHR ''.''"
    using sc safe_not_slash(3) by (cases "upload_suffix buf now") (auto simp: upload_name_def)
  have can: "canonical (False, [''posts'', FormatInt postID, upload_name buf now f])"
    unfolding canonical_def using pl by (intro exI [of _ 0]) simp
  have "path_of (False, [''posts'', FormatInt postID, upload_name buf now f]) =
      Join [''posts'', FormatInt postID, upload_name buf now f] ''/''" by (simp add: path_of_def)
  with locate_path_of [OF can] show
    "buildAttachmentStorageKey buf now postID f = Join [''posts'', FormatInt postID, upload_name buf now f] ''/''"
    "locate (buildAttachmentStorageKey buf now postID f) = (False, [''posts'', FormatInt postID, upload_name buf now f])"
    by (simp_all add: buildAttachmentStorageKey_def Let_def Join_paths_def Clean_def upload_name_def upload_suffix_def)
qed

lemma upload_key_ok: "storage_key (buildAttachmentStorageKey buf now postID f)"
proof -
  note k = upload_key_parts(1,2) [of buf now postID f] upload_key_parts(4) [of buf now f]
  let ?k = "buildAttachmentStorageKey buf now postID f"
  have "Clean ?k = ?k" by (simp add: Clean_def k(2) path_of_def) (simp add: k(1))
  moreover have "\<exists>t. ?k = ''posts'' @ t" by (simp add: k(1))
  then have "?k \<noteq> ''.''" "\<not> has_prefix ?k ''..''" "\<not> IsAbs ?k" by (auto simp: has_prefix_def IsAbs_def)
  moreover have "\<not> has_prefix (last (snd (locate ?k))) ''.upload-''"
    using k(3) by (auto simp: k(2) dest!: has_prefix_hd)
  ultimately show ?thesis by (simp add: storage_key_def)
qed

section \<open>Accepted content\<close>

lemma validate_ok:
  assumes "validateAttachmentUpload f ty data limit = None"
  shows "data \<noteq> []" "int (length data) \<le> limit" "normalizeAttachmentContentType ty \<in> set allowedAttachmentContentTypes"
    "image_signature data = Some (normalizeAttachmentContentType ty) \<or>
     normalizeAttachmentContentType ty = ''image/webp'' \<and> has_prefix data ''RIFF'' \<and> has_prefix (drop 8 data) ''WEBP''"
proof -
  let ?ty = "normalizeAttachmentContentType ty"
  have a: "data \<noteq> [] \<and> int (length data) \<le> limit \<and> ?ty \<in> set allowedAttachmentContentTypes \<and>
      (DetectContentType data = ?ty \<or> ?ty = ''image/webp'' \<and> take 4 data = ''RIFF'' \<and> take 4 (drop 8 data) = ''WEBP'')"
    using assms unfolding validateAttachmentUpload_def Let_def by (simp split: if_splits)
  then show "data \<noteq> []" "int (length data) \<le> limit" "?ty \<in> set allowedAttachmentContentTypes" by blast+
  with a show "image_signature data = Some ?ty \<or>
     ?ty = ''image/webp'' \<and> has_prefix data ''RIFF'' \<and> has_prefix (drop 8 data) ''WEBP''"
    by (auto simp: DetectContentType_def allowedAttachmentContentTypes_def has_prefix_def eval_nat_numeral split: option.splits if_splits)
qed

lemma smaller_le: "length (smaller data out) \<le> length data" "data \<noteq> [] \<Longrightarrow> smaller data out \<noteq> []"
  by (auto simp: smaller_def split: option.splits)

lemma optimize_le:
  "length (optimizeAttachmentImage codec ty data cfg) \<le> length data"
  "data \<noteq> [] \<Longrightarrow> optimizeAttachmentImage codec ty data cfg \<noteq> []"
  by (simp_all add: optimizeAttachmentImage_def optimizeJPEG_def optimizePNG_def smaller_le)

lemma readUpload_ok:
  assumes "readUploadContent content limit = Inr data" "0 < limit" "limit < 2 ^ 63" "data \<noteq> []"
  shows "data = rd_text content" "int (length data) \<le> limit"
proof -
  let ?n = "sint (word_of_int (limit + 1) :: 64 word)"
  have r: "ReadLimited ?n content = Inr data" "int (length data) \<le> limit"
    using assms(1,2) by (auto simp: readUploadContent_def bindE_def split: sum.splits if_splits)
  then show "int (length data) \<le> limit" by simp
  have n: "?n = signed_take_bit 63 (limit + 1)" by (subst signed_of_int) simp
  consider "?n = limit + 1" | "?n < 0" unfolding n
  proof (cases "limit + 1 < 2 ^ 63")
    case True
    have "?n = limit + 1" unfolding n by (rule signed_take_bit_int_eq_self) (use True assms(2) in simp_all)
    then show ?thesis by (rule that(1))
  next
    case False
    with assms(3) have l: "limit + 1 = 2 ^ 63" by simp
    have "?n < 0" unfolding n l by simp
    then show ?thesis by (rule that(2))
  qed
  then show "data = rd_text content"
  proof cases
    case 1
    have "int (length (rd_text content)) < limit + 1"
    proof (rule ccontr)
      assume "\<not> int (length (rd_text content)) < limit + 1"
      with r(1) assms(2) have "int (length data) = limit + 1" unfolding 1 by (auto simp: ReadLimited_def)
      with r(2) show False by simp
    qed
    with r(1) show ?thesis unfolding 1 by (auto simp: ReadLimited_def ReadAll_def split: option.splits)
  next
    case 2
    with r(1) assms(4) show ?thesis by (auto simp: ReadLimited_def)
  qed
qed

section \<open>Embedded files are references\<close>

fun opens :: "string \<Rightarrow> bool" where
  "opens (a # b # s) \<longleftrightarrow> a = CHR ''!'' \<and> b = CHR ''['' \<or> opens (b # s)"
| "opens _ = False"

lemma no_refs: "\<not> opens s \<Longrightarrow> embedded_refs s = []"
proof (induction s)
  case (Cons a s)
  then have "embed_at (a # s) = None" "\<not> opens s"
    by (cases s; simp add: embed_at_def has_prefix_def)+
  with Cons show ?case by (simp add: embedded_refs.simps [of "a # s"])
qed (simp add: embedded_refs.simps)

lemma alt_char_cases:
  obtains b where "alt_char c = [b]" "b \<noteq> CHR ''[''" "b \<noteq> CHR ''(''" "b \<noteq> CHR '']''" "c \<noteq> CHR '']''"
  | "alt_char c = [CHR 0x5C, c]"
  by (cases "alt_char c") (auto split: if_splits)

declare alt_char.simps [simp del]

lemma alt_text_first:
  assumes "t \<noteq> []" "hd t \<noteq> CHR ''[''" "hd t \<noteq> CHR ''(''"
  obtains b s where "concat (map alt_char xs) @ t = b # s" "b \<noteq> CHR ''[''" "b \<noteq> CHR ''(''"
proof (cases xs)
  case Nil
  with assms that show ?thesis by (cases t) auto
next
  case (Cons x ys)
  with that show ?thesis by (cases x rule: alt_char_cases) auto
qed

lemma alt_text_opens:
  assumes "t \<noteq> []" "hd t \<noteq> CHR ''[''" "hd t \<noteq> CHR ''(''" "\<not> opens t"
  shows "\<not> opens (concat (map alt_char xs) @ t)"
proof (induction xs)
  case (Cons x xs)
  obtain b s where "concat (map alt_char xs) @ t = b # s" "b \<noteq> CHR ''[''"
    using alt_text_first [OF assms(1-3)] by blast
  with Cons show ?case by (cases x rule: alt_char_cases) simp_all
qed (use assms in simp)

lemma alt_text_bracket:
  "CHR '']'' \<in> set xs \<Longrightarrow>
    \<exists>ys. dropWhile (\<lambda>c. c \<noteq> CHR '']'') (concat (map alt_char xs) @ t) = CHR '']'' # concat (map alt_char ys) @ t"
proof (induction xs)
  case (Cons x xs)
  then show ?case by (cases x rule: alt_char_cases) auto
qed simp

lemma alt_text_plain: "CHR '']'' \<notin> set xs \<Longrightarrow> CHR '']'' \<notin> set (concat (map alt_char xs))"
proof (induction xs)
  case (Cons x xs)
  then show ?case by (cases x rule: alt_char_cases) auto
qed simp

lemma embedded_name:
  assumes "uuid \<noteq> []" "list_all uuid_char uuid"
  shows "embedded_refs (buildAttachmentEmbedMarkdown f uuid) =
    (if CHR '']'' \<in> set (TrimSpace f) then [] else [uuid])"
proof -
  let ?alt = "markdownSafeAttachmentAltText f" and ?tail = "''](attachment://'' @ uuid @ '')''"
  define S where "S = buildAttachmentEmbedMarkdown f uuid"
  have s: "S = CHR ''!'' # CHR ''['' # ?alt @ ?tail" by (simp add: S_def buildAttachmentEmbedMarkdown_def)
  show ?thesis
  proof (cases "CHR '']'' \<in> set (TrimSpace f)")
    case True
    then obtain x xs where "TrimSpace f = x # xs" by (cases "TrimSpace f") auto
    then have alt: "?alt = concat (map alt_char (TrimSpace f))"
      by (cases x rule: alt_char_cases) (simp_all add: markdownSafeAttachmentAltText_def Let_def)
    obtain ys where ys: "dropWhile (\<lambda>c. c \<noteq> CHR '']'') (?alt @ ?tail) = CHR '']'' # concat (map alt_char ys) @ ?tail"
      using alt_text_bracket [OF True] alt by metis
    obtain b r where b: "concat (map alt_char ys) @ ?tail = b # r" "b \<noteq> CHR ''(''"
      by (rule alt_text_first [of ?tail ys]) auto
    have "embed_at S = None"
      by (simp add: s embed_at_def has_prefix_def Let_def ys [simplified] b [simplified])
    moreover have "\<not> opens ?tail"
    proof -
      have "\<not> opens (u @ '')'')" if "list_all uuid_char u" for u
        using that
      proof (induction u)
        case (Cons c u)
        then show ?case by (cases u) (auto simp: uuid_char_def)
      qed simp
      from this [OF assms(2)] show ?thesis using assms by (cases uuid) auto
    qed
    then have "\<not> opens (?alt @ ?tail)" unfolding alt by (intro alt_text_opens) auto
    then have "\<not> opens (CHR ''['' # ?alt @ ?tail)" by (cases "?alt @ ?tail") auto
    then have "embedded_refs (tl S) = []" by (intro no_refs) (simp add: s)
    moreover have "S \<noteq> []" by (simp add: s)
    ultimately show ?thesis using True unfolding S_def [symmetric] by (simp add: embedded_refs.simps [of S])
  next
    case False
    then have "CHR '']'' \<notin> set ?alt"
      using alt_text_plain by (auto simp: markdownSafeAttachmentAltText_def Let_def)
    then have d: "dropWhile (\<lambda>c. c \<noteq> CHR '']'') (?alt @ ?tail) = ?tail"
      by (subst dropWhile_append2) auto
    have "takeWhile uuid_char (uuid @ '')'') = uuid"
      using assms(2) by (subst takeWhile_append2) (auto simp: list_all_iff uuid_char_def)
    with d assms(1) have "embed_at S = Some (uuid, [])"
      by (simp add: s embed_at_def has_prefix_def Let_def)
    moreover have "S \<noteq> []" by (simp add: s)
    ultimately show ?thesis using False unfolding S_def [symmetric]
      by (simp add: embedded_refs.simps [of S] embedded_refs.simps [of "[]"])
  qed
qed

lemma embedded_reference:
  assumes "uuid \<noteq> []" "list_all uuid_char uuid"
  shows "extractAttachmentRefIDs (buildAttachmentEmbedMarkdown f uuid) =
    (if CHR '']'' \<in> set (TrimSpace f) then [] else [uuid])"
proof -
  have "\<forall>c \<in> set uuid. plain_byte c" using assms(2) by (auto simp: list_all_iff uuid_char_def plain_byte_def Let_def)
  then have "TrimSpace uuid = uuid" by (rule TrimSpace_plain)
  with assms(1) embedded_name [OF assms, of f] show ?thesis
    by (simp add: extractAttachmentRefIDs_def add_ref_def)
qed

end
