(* ===== verification/SvcAttachment.thy ===== *)
theory SvcAttachment
  imports AttachmentParts PostDetail Calls
begin

text \<open>
  \<open>service/attachment/handlers.go\<close>: uploading, deleting and reading the files of a post, and the
  clean-up of files nobody uses. A row of the repository names the key of a file; the two are kept by
  different systems, so a command that fails between them has to undo by hand what it has done.

  The world of the service is the store and the files, of any type: the storage is the record of its
  three methods. A command numbers what it reads from the clock and the sources of randomness from
  \<open>tick\<close> on; logging is left out.
\<close>

section \<open>The world\<close>

record 'fs attachment_world =
  aw_store :: store
  aw_files :: 'fs

definition in_store :: "(store, 'a) call \<Rightarrow> ('fs attachment_world, 'a) call" where
  "in_store m = (\<lambda>w. case m (aw_store w) of
      None \<Rightarrow> None
    | Some (r, s) \<Rightarrow> Some (r, w\<lparr>aw_store := s\<rparr>))"

text \<open>A method of the storage and \<open>if err != nil { return WrapStorage(label, err) }\<close>.\<close>

definition in_files :: "string \<Rightarrow> ('fs \<Rightarrow> go_error option \<times> 'fs) \<Rightarrow> ('fs attachment_world, unit) call" where
  "in_files label m = (\<lambda>w. case m (aw_files w) of (res, fs) \<Rightarrow>
      Some (case res of None \<Rightarrow> Inr () | Some err \<Rightarrow> Inl (WrapStorage label (Some err)), w\<lparr>aw_files := fs\<rparr>))"

text \<open>Reads outside a transaction.\<close>

definition outside :: "env \<Rightarrow> nat \<Rightarrow> 'a action \<Rightarrow> (store, 'a) call" where
  "outside e tick m = (\<lambda>s. case m e (begin_tx tick s) of None \<Rightarrow> None | Some (r, t) \<Rightarrow> Some (r, s))"

section \<open>Reading\<close>

record attachment_file =
  af_FileName :: string
  af_ContentType :: string
  af_SizeBytes :: int
  af_ETag :: string
  af_Content :: reader

definition attachment_file_of :: "attachment \<Rightarrow> reader \<Rightarrow> attachment_file" where
  "attachment_file_of a content =
     \<lparr>af_FileName = attachment_FileName a, af_ContentType = attachment_ContentType a,
      af_SizeBytes = attachment_SizeBytes a, af_ETag = buildAttachmentETag a, af_Content = content\<rparr>"

text \<open>\<open>EnsureBoardVisibleForUser\<close> with a hidden board concealed.\<close>

definition board_shown_to :: "env \<Rightarrow> user option \<Rightarrow> int \<Rightarrow> store \<Rightarrow> go_error + unit" where
  "board_shown_to e ou boardID s =
     bindE (read_repo e (label_for ''select board by id for '' ''attachment board visibility'')
              (selectBoardByID boardID (st_boards s))) (\<lambda>ob.
       case EnsureBoardVisible ob ou of
         None \<Rightarrow> Inr ()
       | Some err \<Rightarrow> Inl (if Is ErrBoardNotFound err then Sentinel ErrBoardNotFound else err))"

definition GetPostAttachments :: "env \<Rightarrow> string \<Rightarrow> store \<Rightarrow> go_error + attachment_model list" where
  "GetPostAttachments e postUUID s =
     bindE (read_repo e ''select post by uuid for get attachments'' (selectPostByUUID postUUID (st_posts s))) (\<lambda>op.
     bindE (found op ErrPostNotFound) (\<lambda>post.
     bindE (board_shown_to e None (post_BoardID post) s) (\<lambda>_.
     bindE (read_repo e ''select attachments by post id''
              (Attachment_selectByPostID (post_ID post) (st_attachments s))) (\<lambda>items.
       Inr (map (\<lambda>item.
              \<lparr>am_UUID = attachment_UUID item, am_PostUUID = post_UUID post,
               am_FileName = attachment_FileName item, am_ContentType = attachment_ContentType item,
               am_SizeBytes = attachment_SizeBytes item, am_StorageKey = attachment_StorageKey item,
               am_PreviewURL = buildAttachmentPreviewURL (post_UUID post) (attachment_UUID item),
               am_CreatedAt = attachment_CreatedAt item\<rparr>)
            (filter (\<lambda>item. \<not> (IsOrphaned item \<or> IsPendingDelete item)) items))))))"

definition opened :: "string \<Rightarrow> attachment \<Rightarrow> go_error + reader \<Rightarrow> go_error + attachment_file" where
  "opened label a content =
     (case content of
        Inl err \<Rightarrow> Inl (WrapStorage label (Some err))
      | Inr rd \<Rightarrow> Inr (attachment_file_of a rd))"

definition GetPostAttachmentFile ::
  "'fs file_storage \<Rightarrow> env \<Rightarrow> nat \<Rightarrow> string \<Rightarrow> string \<Rightarrow> 'fs attachment_world \<Rightarrow> go_error + attachment_file" where
  "GetPostAttachmentFile st e n postUUID attachmentUUID w =
     (let s = aw_store w in
      bindE (read_repo e ''select post by uuid for get attachment file'' (selectPostByUUID postUUID (st_posts s))) (\<lambda>op.
      bindE (found op ErrPostNotFound) (\<lambda>post.
      bindE (board_shown_to e None (post_BoardID post) s) (\<lambda>_.
      bindE (read_repo e ''select attachment by uuid for get attachment file''
               (Attachment_selectByUUID attachmentUUID (st_attachments s))) (\<lambda>oa.
      bindE (found oa ErrAttachmentNotFound) (\<lambda>attachment.
        if attachment_PostID attachment \<noteq> post_ID post then Inl (Sentinel ErrAttachmentNotFound)
        else if IsOrphaned attachment \<or> IsPendingDelete attachment then Inl (Sentinel ErrAttachmentNotFound)
        else opened ''open attachment file'' attachment
               (fs_Open st n (attachment_StorageKey attachment) (aw_files w))))))))"

definition GetPostAttachmentPreviewFile ::
  "'fs file_storage \<Rightarrow> env \<Rightarrow> nat \<Rightarrow> string \<Rightarrow> string \<Rightarrow> int \<Rightarrow> 'fs attachment_world \<Rightarrow> go_error + attachment_file" where
  "GetPostAttachmentPreviewFile st e n postUUID attachmentUUID userID w =
     (let s = aw_store w in
      bindE (read_repo e ''select post by uuid including unpublished for preview attachment file''
               (selectPostByUUIDIncludingUnpublished postUUID (st_posts s))) (\<lambda>op.
      bindE (found op ErrPostNotFound) (\<lambda>post.
      bindE (read_repo e ''select user by id for preview attachment file'' (selectUserByID userID (st_users s))) (\<lambda>ou.
      bindE (found ou ErrUserNotFound) (\<lambda>requester.
      bindE (case ForbidGuest (Some requester) of Some err \<Rightarrow> Inl err | None \<Rightarrow> Inr ()) (\<lambda>_.
      bindE (board_shown_to e (Some requester) (post_BoardID post) s) (\<lambda>_.
      bindE (case OwnerOrAdmin (Some requester) (post_AuthorID post) of Some err \<Rightarrow> Inl err | None \<Rightarrow> Inr ()) (\<lambda>_.
      bindE (read_repo e ''select attachment by uuid for preview attachment file''
               (Attachment_selectByUUID attachmentUUID (st_attachments s))) (\<lambda>oa.
      bindE (found oa ErrAttachmentNotFound) (\<lambda>attachment.
        if attachment_PostID attachment \<noteq> post_ID post then Inl (Sentinel ErrAttachmentNotFound)
        else if IsPendingDelete attachment then Inl (Sentinel ErrAttachmentNotFound)
        else opened ''open preview attachment file'' attachment
               (fs_Open st n (attachment_StorageKey attachment) (aw_files w))))))))))))"

section \<open>Writing\<close>

text \<open>Who may change the files of a post: the checks of all three commands, in their order.\<close>

definition attachment_author :: "string \<Rightarrow> string \<Rightarrow> int \<Rightarrow> post action" where
  "attachment_author what postUUID userID =
     bindT (wrapped (''select post by uuid including unpublished for '' @ what)
              (postTx_SelectPostByUUIDIncludingUnpublished postUUID)) (\<lambda>op.
     bindT (requireT op (Sentinel ErrPostNotFound)) (\<lambda>post.
     bindT (wrapped (''select user by id for '' @ what) (userTx_SelectUserByID userID)) (\<lambda>ou.
     bindT (requireT ou (Sentinel ErrUserNotFound)) (\<lambda>requester.
     bindT (ensureT (ForbidGuest (Some requester))) (\<lambda>_.
     bindT (EnsureBoardVisibleForUser (Some requester) (post_BoardID post) (Some (Sentinel ErrBoardNotFound))
              ''attachment board visibility'') (\<lambda>_.
     bindT nowT (\<lambda>now.
     bindT (ensureT (CanWrite now (Some requester))) (\<lambda>_.
     bindT (ensureT (RequireVerifiedEmail (Some requester))) (\<lambda>_.
     bindT (ensureT (OwnerOrAdmin (Some requester) (post_AuthorID post))) (\<lambda>_.
       returnT post))))))))))"

definition CreatePostAttachment_tx :: "string \<Rightarrow> int \<Rightarrow> attachment \<Rightarrow> string action" where
  "CreatePostAttachment_tx postUUID userID attachment =
     bindT (attachment_author ''create attachment'' postUUID userID) (\<lambda>post.
     bindT (wrapped ''save attachment'' (attachmentTx_Save attachment)) (\<lambda>saved.
     bindT nowT (\<lambda>at.
     bindT (DispatchDomainActions [NewAttachmentChanged at ''created'' (attachment_ID saved) (post_ID post)]) (\<lambda>_.
       returnT (attachment_UUID saved)))))"

definition CreatePostAttachment ::
  "env \<Rightarrow> nat \<Rightarrow> string \<Rightarrow> int \<Rightarrow> string \<Rightarrow> string \<Rightarrow> int \<Rightarrow> string \<Rightarrow> (store, string) call" where
  "CreatePostAttachment e tick postUUID userID fileName contentType sizeBytes storageKey =
     (if TrimSpace fileName = [] \<or> TrimSpace contentType = [] \<or> TrimSpace storageKey = [] \<or> sizeBytes \<le> 0
      then throwC (Sentinel ErrInvalidInput)
      else
        bindC (repoC e ''select post by uuid including unpublished for create attachment''
                 (read_store st_posts (selectPostByUUIDIncludingUnpublished postUUID))) (\<lambda>op.
        bindC (requireC op (Sentinel ErrPostNotFound)) (\<lambda>post.
          WithinTransaction e (tick + 2)
            (CreatePostAttachment_tx postUUID userID
               (NewAttachment (env_now e tick) (env_uuid e (tick + 1)) (post_ID post) fileName contentType
                  sizeBytes storageKey)))))"

record attachment_command_handler =
  ah_maxUploadSizeBytes :: int
  ah_imageOptimization :: ImageOptimizationConfig
  ah_codec :: image_codec

definition attachmentDefaultMaxSizeBytes :: int where
  "attachmentDefaultMaxSizeBytes = 10 * 2 ^ 20"

definition newAttachmentCommandHandler ::
  "int \<Rightarrow> ImageOptimizationConfig \<Rightarrow> image_codec \<Rightarrow> attachment_command_handler" where
  "newAttachmentCommandHandler maxUploadSizeBytes imageOptimization codec =
     \<lparr>ah_maxUploadSizeBytes = (if maxUploadSizeBytes \<le> 0 then attachmentDefaultMaxSizeBytes else maxUploadSizeBytes),
      ah_imageOptimization =
        (if io_JPEGQuality imageOptimization < 1 \<or> 100 < io_JPEGQuality imageOptimization
         then imageOptimization\<lparr>io_JPEGQuality := 82\<rparr> else imageOptimization),
      ah_codec = codec\<rparr>"

text \<open>A \<open>bytes.Reader\<close> read through the buffer of \<open>io.Copy\<close>.\<close>

fun pieces :: "string \<Rightarrow> string list" where
  "pieces data = (if data = [] then [] else take 32768 data # pieces (drop 32768 data))"

declare pieces.simps [simp del]

definition bytes_reader :: "string \<Rightarrow> reader" where
  "bytes_reader data = Reader (pieces data) None"

record attachment_upload =
  au_UUID :: string
  au_EmbedMarkdown :: string
  au_PreviewURL :: string

text \<open>The row of the file; when it is not created, the file is taken back.\<close>

definition create_or_rollback ::
  "'fs file_storage \<Rightarrow> nat \<Rightarrow> string \<Rightarrow> (store, string) call \<Rightarrow> ('fs attachment_world, string) call" where
  "create_or_rollback st n storageKey create =
     catchC (in_store create) (\<lambda>err.
       bindC (catchC (in_files ''rollback upload file'' (fs_Delete st n storageKey))
                (\<lambda>deleteErr. throwC (Joined [err, deleteErr]))) (\<lambda>_.
         throwC err))"

definition UploadPostAttachment ::
  "attachment_command_handler \<Rightarrow> 'fs file_storage \<Rightarrow> env \<Rightarrow> nat \<Rightarrow> string \<Rightarrow> int \<Rightarrow> string \<Rightarrow> string \<Rightarrow>
    reader option \<Rightarrow> ('fs attachment_world, attachment_upload) call" where
  "UploadPostAttachment h st e tick postUUID userID fileName contentType0 content =
     (case content of
        None \<Rightarrow> throwC (Sentinel ErrInvalidInput)
      | Some body \<Rightarrow>
          if TrimSpace fileName = [] \<or> TrimSpace contentType0 = [] then throwC (Sentinel ErrInvalidInput)
          else
            bindC (in_store (outside e tick (attachment_author ''upload attachment'' postUUID userID))) (\<lambda>post.
            case readUploadContent body (ah_maxUploadSizeBytes h) of
              Inl TooLarge \<Rightarrow> throwC (Sentinel ErrInvalidInput)
            | Inl (ReadFailed err) \<Rightarrow> throwC (WrapStorage ''read upload content'' (Some err))
            | Inr data0 \<Rightarrow>
                bindC (ensureC (validateAttachmentUpload fileName contentType0 data0 (ah_maxUploadSizeBytes h))) (\<lambda>_.
                let contentType = normalizeAttachmentContentType contentType0;
                    data = optimizeAttachmentImage (ah_codec h) contentType data0 (ah_imageOptimization h);
                    storageKey = buildAttachmentStorageKey (env_rand e (tick + 10)) (env_now e (tick + 11))
                                   (post_ID post) fileName in
                bindC (in_files ''save upload file'' (fs_Save st 0 storageKey (bytes_reader data))) (\<lambda>_.
                bindC (create_or_rollback st 1 storageKey
                         (CreatePostAttachment e (tick + 20) postUUID userID fileName contentType
                            (int (length data)) storageKey)) (\<lambda>attachmentUUID.
                  returnC \<lparr>au_UUID = attachmentUUID,
                           au_EmbedMarkdown = buildAttachmentEmbedMarkdown fileName attachmentUUID,
                           au_PreviewURL = buildAttachmentPreviewURL postUUID attachmentUUID\<rparr>)))))"

definition DeletePostAttachment_tx :: "string \<Rightarrow> string \<Rightarrow> int \<Rightarrow> unit action" where
  "DeletePostAttachment_tx postUUID attachmentUUID userID =
     bindT (attachment_author ''delete attachment'' postUUID userID) (\<lambda>post.
     bindT (wrapped ''select attachment by uuid for delete attachment''
              (attachmentTx_SelectByUUID attachmentUUID)) (\<lambda>oa.
     bindT (requireT oa (Sentinel ErrAttachmentNotFound)) (\<lambda>attachment.
     bindT (ensureT (if attachment_PostID attachment \<noteq> post_ID post then Some (Sentinel ErrAttachmentNotFound)
                     else None)) (\<lambda>_.
     bindT (ensureT (if attachmentUUID \<in> set (extractAttachmentRefIDs (post_Content post))
                     then Some (Sentinel ErrInvalidInput) else None)) (\<lambda>_.
     bindT nowT (\<lambda>now.
     bindT (wrapped ''mark attachment pending delete''
              (attachmentTx_Update (MarkPendingDeleteAt now attachment))) (\<lambda>_.
     bindT nowT (\<lambda>at.
       DispatchDomainActions [NewAttachmentChanged at ''deleted'' (attachment_ID attachment) (post_ID post)]))))))))"

definition DeletePostAttachment :: "env \<Rightarrow> nat \<Rightarrow> string \<Rightarrow> string \<Rightarrow> int \<Rightarrow> (store, unit) call" where
  "DeletePostAttachment e tick postUUID attachmentUUID userID =
     WithinTransaction e tick (DeletePostAttachment_tx postUUID attachmentUUID userID)"

section \<open>Cleaning up\<close>

text \<open>
  One file: its row is marked, the file deleted, the row deleted. Every file has an environment of
  its own, so that any of the steps may fail.
\<close>

definition attachments_update :: "attachment \<Rightarrow> (store, unit) call" where
  "attachments_update a = write_store st_attachments st_attachments_update (changes (Attachment_update a))"

definition attachments_delete :: "int \<Rightarrow> (store, unit) call" where
  "attachments_delete i = write_store st_attachments st_attachments_update (changes (Attachment_delete i))"

definition cleanup_one ::
  "'fs file_storage \<Rightarrow> env \<Rightarrow> nat \<Rightarrow> time \<Rightarrow> attachment \<Rightarrow> ('fs attachment_world, unit) call" where
  "cleanup_one st e n cutoff item =
     bindC (ensureC (env_ctx e)) (\<lambda>_.
     bindC (if IsPendingDelete item then returnC ()
            else repoC e ''mark attachment pending delete for cleanup''
                   (in_store (attachments_update (MarkPendingDeleteAt cutoff item)))) (\<lambda>_.
     bindC (in_files ''delete orphan attachment file'' (fs_Delete st n (attachment_StorageKey item))) (\<lambda>_.
       repoC e ''delete orphan attachment metadata'' (in_store (attachments_delete (attachment_ID item))))))"

text \<open>The loop; the result is the number of files deleted and the error that ended it.\<close>

fun clean_items ::
  "'fs file_storage \<Rightarrow> (nat \<Rightarrow> env) \<Rightarrow> nat \<Rightarrow> time \<Rightarrow> attachment list \<Rightarrow> 'fs attachment_world \<Rightarrow>
    ((int \<times> go_error option) \<times> 'fs attachment_world) option" where
  "clean_items st e n cutoff [] w = Some ((int n, None), w)"
| "clean_items st e n cutoff (item # items) w =
     (case cleanup_one st (e n) n cutoff item w of
        None \<Rightarrow> None
      | Some (Inl err, w') \<Rightarrow> Some ((int n, Some err), w')
      | Some (Inr _, w') \<Rightarrow> clean_items st e (Suc n) cutoff items w')"

definition CleanupAttachments ::
  "'fs file_storage \<Rightarrow> (nat \<Rightarrow> env) \<Rightarrow> time \<Rightarrow> duration \<Rightarrow> int \<Rightarrow> 'fs attachment_world \<Rightarrow>
    ((int \<times> go_error option) \<times> 'fs attachment_world) option" where
  "CleanupAttachments st e now gracePeriod limit w =
     (if gracePeriod \<le> 0 \<or> limit \<le> 0 then Some ((0, None), w)
      else
        let cutoff = now - gracePeriod in
        case read_repo (e 0) ''select orphan attachments for cleanup''
               (selectCleanupCandidatesBefore cutoff limit (st_attachments (aw_store w))) of
          Inl err \<Rightarrow> Some ((0, Some err), w)
        | Inr items \<Rightarrow> clean_items st e 0 cutoff items w)"

end
