(* ===== verification/AttachmentRules.thy ===== *)
theory AttachmentRules
  imports SvcAttachment PostRules
begin

text \<open>
  What the attachment service and the post commands promise of the files of posts. The lemmas on the
  service are proved for any storage that meets the contract \<open>file_store\<close> and takes the keys of the
  service (\<open>upload_store\<close>); the properties are stated for the storage in a directory.
\<close>

section \<open>The commands on the store\<close>

lemma attachment_tx_atomic [atomic_intros]:
  "atomic (attachment_author what postUUID userID)" "atomic (CreatePostAttachment_tx postUUID userID a)"
  "atomic (DeletePostAttachment_tx postUUID attachmentUUID userID)"
  unfolding attachment_author_def CreatePostAttachment_tx_def DeletePostAttachment_tx_def
    postTx_SelectPostByUUIDIncludingUnpublished_def userTx_SelectUserByID_def attachmentTx_Save_def
    attachmentTx_SelectByUUID_def attachmentTx_Update_def
  by (intro atomic_intros)+

lemma attachment_tx_returns [returns_intros]:
  "returns (attachment_author what postUUID userID)" "returns (CreatePostAttachment_tx postUUID userID a)"
  "returns (DeletePostAttachment_tx postUUID attachmentUUID userID)"
  unfolding attachment_author_def CreatePostAttachment_tx_def DeletePostAttachment_tx_def
    postTx_SelectPostByUUIDIncludingUnpublished_def userTx_SelectUserByID_def attachmentTx_Save_def
    attachmentTx_SelectByUUID_def attachmentTx_Update_def
  by (intro returns_intros)+

text \<open>The post and the user, who may write, has an address and owns the post or is an administrator.\<close>

definition attachment_owner :: "store \<Rightarrow> string \<Rightarrow> int \<Rightarrow> post \<Rightarrow> user \<Rightarrow> bool" where
  "attachment_owner s postUUID userID post requester \<longleftrightarrow>
     post_owner s postUUID userID post requester \<and> \<not> IsGuest requester \<and>
     board_visible s (Some requester) (post_BoardID post) \<and>
     (IsAdmin requester \<or> user_Email requester \<noteq> [] \<and> IsEmailVerified requester)"

lemma attachment_author_run:
  "attachment_author what postUUID userID e t = Some (Inr post, t') \<Longrightarrow>
    tx_store t' = tx_store t \<and>
    (\<exists>requester now. attachment_owner (tx_store t) postUUID userID post requester \<and> \<not> IsSuspended now requester)"
  unfolding attachment_author_def attachment_owner_def post_owner_def
    postTx_SelectPostByUUIDIncludingUnpublished_def userTx_SelectUserByID_def
  by (clarsimp simp: tx_simps) blast

lemma outside_run:
  "outside e tick m s = Some (Inr a, s') \<longleftrightarrow> s' = s \<and> (\<exists>t. m e (begin_tx tick s) = Some (Inr a, t))"
  "outside e tick m s = Some (r, s') \<Longrightarrow> s' = s"
  by (auto simp: outside_def split: option.splits)

lemma CreatePostAttachment_run:
  assumes "CreatePostAttachment e tick postUUID userID fileName contentType sizeBytes key s = Some (Inr uuid, s')"
  shows "\<exists>post requester now row attachments' at.
    attachment_owner s postUUID userID post requester \<and> \<not> IsSuspended now requester \<and>
    Attachment_save (NewAttachment (env_now e tick) (env_uuid e (tick + 1)) (post_ID post) fileName contentType sizeBytes key)
      (st_attachments s) = (row, attachments') \<and> uuid = attachment_UUID row \<and>
    queued e [NewAttachmentChanged at ''created'' (attachment_ID row) (post_ID post)] s s' \<and>
    s' = s\<lparr>st_attachments := attachments', st_outbox := st_outbox s'\<rparr>"
proof -
  let ?a = "\<lambda>post. NewAttachment (env_now e tick) (env_uuid e (tick + 1)) (post_ID post) fileName contentType sizeBytes key"
  from assms obtain p0 t where p0: "selectPostByUUIDIncludingUnpublished postUUID (st_posts s) = Some p0"
    and t: "CreatePostAttachment_tx postUUID userID (?a p0) e (begin_tx (tick + 2) s) = Some (Inr uuid, t)"
    and s': "s' = tx_store t"
    by (auto simp: CreatePostAttachment_def call_simps atomic_commit attachment_tx_atomic split: if_splits)
  from t obtain post t1 row t2 u where
    au: "attachment_author ''create attachment'' postUUID userID e (begin_tx (tick + 2) s) = Some (Inr post, t1)"
    and sv: "attachmentTx_Save (?a p0) e t1 = Some (Inr row, t2)" and uuid: "uuid = attachment_UUID row"
    and d: "DispatchDomainActions [NewAttachmentChanged (env_now e (tx_tick t2)) ''created'' (attachment_ID row)
        (post_ID post)] e (t2\<lparr>tx_tick := Suc (tx_tick t2)\<rparr>) = Some (Inr u, t)"
    unfolding CreatePostAttachment_tx_def by (auto simp: tx_simps)
  from attachment_author_run [OF au] obtain requester now where
    o: "attachment_owner s postUUID userID post requester" "\<not> IsSuspended now requester"
    and t1: "tx_store t1 = s" by auto
  have same: "p0 = post" using o(1) p0 by (simp add: attachment_owner_def post_owner_def)
  from sv obtain attachments' where
    row: "Attachment_save (?a post) (st_attachments s) = (row, attachments')"
    and t2: "tx_store t2 = s\<lparr>st_attachments := attachments'\<rparr>"
    by (auto simp: attachmentTx_Save_def tx_simps t1 same)
  have "queued e [NewAttachmentChanged (env_now e (tx_tick t2)) ''created'' (attachment_ID row) (post_ID post)] s s'"
    unfolding s' by (rule Dispatch_queued(1) [OF d]) (simp add: t2)
  moreover have "s' = s\<lparr>st_attachments := attachments', st_outbox := st_outbox s'\<rparr>"
    using Dispatch_queued(2) [OF d refl] by (simp add: t2 s')
  ultimately show ?thesis using o row uuid by blast
qed

lemma CreatePostAttachment_failed:
  "CreatePostAttachment e tick postUUID userID fileName contentType sizeBytes key s = Some (Inl err, s') \<Longrightarrow> s' = s"
  by (auto simp: CreatePostAttachment_def bindC_def throwC_def repoC_def called_def read_store_def requireC_def
      returnC_def split: if_splits option.splits) (metis atomic_rollback attachment_tx_atomic(2))

text \<open>The row is marked, and nothing else but the outbox changes.\<close>

lemma DeletePostAttachment_run:
  assumes "DeletePostAttachment e tick postUUID attachmentUUID userID s = Some (Inr u, s')"
  shows "\<exists>post requester now a marked at.
    attachment_owner s postUUID userID post requester \<and> \<not> IsSuspended now requester \<and>
    Attachment_selectByUUID attachmentUUID (st_attachments s) = Some a \<and> attachment_PostID a = post_ID post \<and>
    attachmentUUID \<notin> set (extractAttachmentRefIDs (post_Content post)) \<and>
    queued e [NewAttachmentChanged at ''deleted'' (attachment_ID a) (post_ID post)] s s' \<and>
    s' = s\<lparr>st_attachments := Attachment_update (MarkPendingDeleteAt marked a) (st_attachments s),
           st_outbox := st_outbox s'\<rparr>"
proof -
  from assms obtain t where
    t: "DeletePostAttachment_tx postUUID attachmentUUID userID e (begin_tx tick s) = Some (Inr u, t)" "s' = tx_store t"
    by (auto simp: DeletePostAttachment_def atomic_commit attachment_tx_atomic)
  from t(1) obtain post t1 a t3 where
    au: "attachment_author ''delete attachment'' postUUID userID e (begin_tx tick s) = Some (Inr post, t1)"
    and a: "Attachment_selectByUUID attachmentUUID (st_attachments (tx_store t1)) = Some a"
      "attachment_PostID a = post_ID post" "attachmentUUID \<notin> set (extractAttachmentRefIDs (post_Content post))"
    and up: "attachmentTx_Update (MarkPendingDeleteAt (env_now e (tx_tick t1)) a) e (t1\<lparr>tx_tick := Suc (tx_tick t1)\<rparr>) =
        Some (Inr (), t3)"
    and d3: "DispatchDomainActions [NewAttachmentChanged (env_now e (tx_tick t3)) ''deleted'' (attachment_ID a)
        (post_ID post)] e (t3\<lparr>tx_tick := Suc (tx_tick t3)\<rparr>) = Some (Inr u, t)"
    unfolding DeletePostAttachment_tx_def attachmentTx_SelectByUUID_def
    by (clarsimp simp: tx_simps split: if_splits)
  define marked at t2 where "marked = env_now e (tx_tick t1)" and "at = env_now e (tx_tick t3)"
    and "t2 = t3\<lparr>tx_tick := Suc (tx_tick t3)\<rparr>"
  note d = d3 [folded at_def t2_def]
  have t2: "tx_store t2 = (tx_store t1)\<lparr>st_attachments :=
      Attachment_update (MarkPendingDeleteAt marked a) (st_attachments (tx_store t1))\<rparr>"
    using up by (auto simp: attachmentTx_Update_def tx_simps t2_def marked_def)
  from attachment_author_run [OF au] obtain requester now where
    o: "attachment_owner s postUUID userID post requester" "\<not> IsSuspended now requester"
    and t1: "tx_store t1 = s" by auto
  have "queued e [NewAttachmentChanged at ''deleted'' (attachment_ID a) (post_ID post)] s s'"
    unfolding t(2) by (rule Dispatch_queued(1) [OF d]) (simp add: t2 t1)
  moreover have "s' = s\<lparr>st_attachments := Attachment_update (MarkPendingDeleteAt marked a) (st_attachments s),
      st_outbox := st_outbox s'\<rparr>"
    using Dispatch_queued(2) [OF d refl] by (simp add: t2 t1 t(2))
  ultimately show ?thesis using o a t1 by metis
qed

lemma DeletePostAttachment_failed:
  "DeletePostAttachment e tick postUUID attachmentUUID userID s = Some (Inl err, s') \<Longrightarrow> s' = s"
  unfolding DeletePostAttachment_def by (rule atomic_rollback [OF attachment_tx_atomic(3)])

section \<open>Calls on the two systems\<close>

lemma bindC_failed:
  "bindC m f w = Some (Inl err, w') \<longleftrightarrow>
    m w = Some (Inl err, w') \<or> (\<exists>a w1. m w = Some (Inr a, w1) \<and> f a w1 = Some (Inl err, w'))"
  by (auto simp: bindC_def split: option.splits sum.splits)

lemma in_store_run [call_simps]:
  "in_store m w = Some (Inr a, w') \<longleftrightarrow> (\<exists>s. m (aw_store w) = Some (Inr a, s) \<and> w' = w\<lparr>aw_store := s\<rparr>)"
  by (auto simp: in_store_def split: option.splits)

lemma in_store_failed:
  "in_store m w = Some (Inl err, w') \<longleftrightarrow> (\<exists>s. m (aw_store w) = Some (Inl err, s) \<and> w' = w\<lparr>aw_store := s\<rparr>)"
  by (auto simp: in_store_def split: option.splits)

lemma in_files_run [call_simps]:
  "in_files label m w = Some (Inr u, w') \<longleftrightarrow> (\<exists>fs. m (aw_files w) = (None, fs) \<and> w' = w\<lparr>aw_files := fs\<rparr>)"
  by (auto simp: in_files_def split: prod.splits option.splits)

lemma in_files_failed:
  "in_files label m w = Some (Inl err, w') \<longleftrightarrow>
    (\<exists>fs cause. m (aw_files w) = (Some cause, fs) \<and> err = WrapStorage label (Some cause) \<and> w' = w\<lparr>aw_files := fs\<rparr>)"
  by (auto simp: in_files_def split: prod.splits option.splits)

lemma create_or_rollback_run:
  "create_or_rollback st n key create w = Some (Inr a, w') \<longleftrightarrow> in_store create w = Some (Inr a, w')"
  by (auto simp: create_or_rollback_def catchC_def bindC_def throwC_def split: option.splits sum.splits)

lemma create_or_rollback_failed:
  assumes "create_or_rollback st n key create w = Some (Inl err, w')"
  shows "\<exists>err1 s1 fs res. create (aw_store w) = Some (Inl err1, s1) \<and> fs_Delete st n key (aw_files w) = (res, fs) \<and>
    w' = w\<lparr>aw_store := s1, aw_files := fs\<rparr> \<and>
    err = (case res of None \<Rightarrow> err1 | Some cause \<Rightarrow> Joined [err1, WrapStorage ''rollback upload file'' (Some cause)])"
proof -
  obtain err1 s1 where c: "create (aw_store w) = Some (Inl err1, s1)"
    using assms by (auto simp: create_or_rollback_def catchC_def in_store_def split: option.splits sum.splits)
  obtain res fs where d: "fs_Delete st n key (aw_files w) = (res, fs)" by fastforce
  from assms c d show ?thesis
    by (cases res) (auto simp: create_or_rollback_def catchC_def bindC_def throwC_def in_store_def in_files_def)
qed

lemma concat_pieces: "concat (pieces data) = data"
proof (induction data rule: pieces.induct)
  case (1 data)
  then show ?case by (cases "data = []") (simp_all add: pieces.simps [of data] pieces.simps [of "[]"])
qed

lemma bytes_reader_text [simp]: "rd_text (bytes_reader data) = data" "rd_error (bytes_reader data) = None"
  by (simp_all add: bytes_reader_def rd_text_def concat_pieces)

section \<open>Every command answers\<close>

lemma returnsC_world [returnsC_intros]:
  "returnsC m \<Longrightarrow> returnsC (in_store m)" "returnsC (in_files label f)" "returns a \<Longrightarrow> returnsC (outside e tick a)"
  by (auto simp: returnsC_def returns_def in_store_def in_files_def outside_def split: option.split prod.split)

lemma returnsC_upload_error [returnsC_intros]:
  "returnsC m \<Longrightarrow> (\<And>err. returnsC (f err)) \<Longrightarrow> returnsC (case x of TooLarge \<Rightarrow> m | ReadFailed err \<Rightarrow> f err)"
  by (cases x) simp_all

lemma attachment_commands_answer:
  "returnsC (CreatePostAttachment e tick postUUID userID fileName contentType sizeBytes key)"
  "returnsC (UploadPostAttachment h st e tick postUUID userID fileName contentType content)"
  "returnsC (DeletePostAttachment e tick postUUID attachmentUUID userID)"
  "returnsC (cleanup_one st e n cutoff item)"
  unfolding CreatePostAttachment_def UploadPostAttachment_def DeletePostAttachment_def cleanup_one_def
    create_or_rollback_def attachments_update_def attachments_delete_def Let_def
  by (intro returnsC_intros returns_intros)+

lemma CleanupAttachments_answers:
  "clean_items st en n cutoff items w \<noteq> None" "CleanupAttachments st en now gracePeriod limit w \<noteq> None"
proof -
  have one: "\<exists>r w'. cleanup_one st e n cutoff item w = Some (r, w')" for e n cutoff item w
    using attachment_commands_answer(4) [of st e n cutoff item] by (simp add: returnsC_def)
  show c: "clean_items st en n cutoff items w \<noteq> None" for cutoff n items w
  proof (induction items arbitrary: n w)
    case (Cons item items)
    obtain r w' where "cleanup_one st (en n) n cutoff item w = Some (r, w')" using one by blast
    with Cons.IH show ?case by (simp split: sum.split)
  qed simp
  show "CleanupAttachments st en now gracePeriod limit w \<noteq> None"
    using c by (auto simp: CleanupAttachments_def Let_def split: sum.split)
qed

section \<open>Reading\<close>

lemma read_Inr: "read_repo e label x = Inr y \<longleftrightarrow> env_fault e label = None \<and> y = x"
  "found ox err = Inr a \<longleftrightarrow> ox = Some a"
  by (auto simp: read_repo_def found_def split: option.split)

lemma GetPostAttachments_run:
  assumes "GetPostAttachments e postUUID s = Inr items" "item \<in> set items"
  obtains a where "a \<in> set (db_rows (st_attachments s))" "\<not> IsOrphaned a" "\<not> IsPendingDelete a"
    "am_StorageKey item = attachment_StorageKey a" "am_SizeBytes item = attachment_SizeBytes a"
  using assms by (auto simp: GetPostAttachments_def bindE_eq_Inr read_Inr Attachment_selectByPostID_def)

lemma GetPostAttachmentFile_run:
  assumes "GetPostAttachmentFile st e n postUUID attachmentUUID w = Inr f"
  obtains a rd where "Attachment_selectByUUID attachmentUUID (st_attachments (aw_store w)) = Some a"
    "\<not> IsPendingDelete a" "fs_Open st n (attachment_StorageKey a) (aw_files w) = Inr rd" "f = attachment_file_of a rd"
proof -
  from assms obtain a where a: "Attachment_selectByUUID attachmentUUID (st_attachments (aw_store w)) = Some a"
      "\<not> IsPendingDelete a"
    and o: "opened ''open attachment file'' a (fs_Open st n (attachment_StorageKey a) (aw_files w)) = Inr f"
    unfolding GetPostAttachmentFile_def Let_def bindE_eq_Inr read_Inr by (auto split: if_splits)
  from o obtain rd where "fs_Open st n (attachment_StorageKey a) (aw_files w) = Inr rd" "f = attachment_file_of a rd"
    unfolding opened_def by (auto split: sum.splits)
  with a that show ?thesis by blast
qed

section \<open>Uploading\<close>

text \<open>What is stored of a body: its content, checked, and perhaps replaced by a smaller image.\<close>

definition accepted :: "attachment_command_handler \<Rightarrow> string \<Rightarrow> string \<Rightarrow> reader \<Rightarrow> string \<Rightarrow> bool" where
  "accepted h fileName contentType body data \<longleftrightarrow>
     (\<exists>data0. readUploadContent body (ah_maxUploadSizeBytes h) = Inr data0 \<and>
        validateAttachmentUpload fileName contentType data0 (ah_maxUploadSizeBytes h) = None \<and>
        data = optimizeAttachmentImage (ah_codec h) (normalizeAttachmentContentType contentType) data0
                 (ah_imageOptimization h))"

definition drawn_key :: "env \<Rightarrow> nat \<Rightarrow> int \<Rightarrow> string \<Rightarrow> string" where
  "drawn_key e tick postID fileName =
     buildAttachmentStorageKey (env_rand e (tick + 10)) (env_now e (tick + 11)) postID fileName"

text \<open>A file was sent to the storage.\<close>

definition upload_tried ::
  "attachment_command_handler \<Rightarrow> 'fs file_storage \<Rightarrow> env \<Rightarrow> nat \<Rightarrow> string \<Rightarrow> int \<Rightarrow> string \<Rightarrow> string \<Rightarrow>
    reader option \<Rightarrow> 'fs attachment_world \<Rightarrow> go_error + attachment_upload \<Rightarrow> 'fs attachment_world \<Rightarrow> bool" where
  "upload_tried h st e tick postUUID userID fileName contentType content w r w' \<longleftrightarrow>
    (\<exists>body post requester now data w1 cause key create.
       content = Some body \<and> attachment_owner (aw_store w) postUUID userID post requester \<and>
       \<not> IsSuspended now requester \<and> accepted h fileName contentType body data \<and>
       key = drawn_key e tick (post_ID post) fileName \<and>
       create = create_or_rollback st 1 key (CreatePostAttachment e (tick + 20) postUUID userID fileName
         (normalizeAttachmentContentType contentType) (int (length data)) key) \<and>
       fs_Save st 0 key (bytes_reader data) (aw_files w) = (cause, aw_files w1) \<and> aw_store w1 = aw_store w \<and>
       (\<forall>err. cause = Some err \<longrightarrow> r = Inl (WrapStorage ''save upload file'' (Some err)) \<and> w' = w1) \<and>
       (\<forall>err. cause = None \<and> r = Inl err \<longrightarrow> create w1 = Some (Inl err, w')) \<and>
       (\<forall>up. cause = None \<and> r = Inr up \<longrightarrow> create w1 = Some (Inr (au_UUID up), w') \<and>
          au_EmbedMarkdown up = buildAttachmentEmbedMarkdown fileName (au_UUID up) \<and>
          au_PreviewURL up = buildAttachmentPreviewURL postUUID (au_UUID up)))"

lemma Upload_split:
  assumes "UploadPostAttachment h st e tick postUUID userID fileName contentType content w = Some (r, w')"
  shows "(\<exists>err. r = Inl err \<and> w' = w) \<or> upload_tried h st e tick postUUID userID fileName contentType content w r w'"
proof (cases "content = None \<or> TrimSpace fileName = [] \<or> TrimSpace contentType = []")
  case True
  with assms show ?thesis by (auto simp: UploadPostAttachment_def throwC_def split: option.splits if_splits)
next
  case False
  then obtain body where c: "content = Some body" by auto
  show ?thesis
  proof (cases "in_store (outside e tick (attachment_author ''upload attachment'' postUUID userID)) w")
    case None
    with assms False c show ?thesis by (simp add: UploadPostAttachment_def bindC_def)
  next
    case (Some ro)
    obtain res wo where ro: "ro = (res, wo)" by (cases ro)
    have wo: "wo = w" using Some ro
      by (auto simp: in_store_def split: option.splits dest: outside_run(2))
    show ?thesis
    proof (cases res)
      case (Inl err)
      with assms False c Some ro wo show ?thesis by (auto simp: UploadPostAttachment_def bindC_def)
    next
      case (Inr post)
      from Some ro wo Inr obtain t where
        "attachment_author ''upload attachment'' postUUID userID e (begin_tx tick (aw_store w)) = Some (Inr post, t)"
        by (auto simp: call_simps outside_run)
      from attachment_author_run [OF this] obtain requester now where
        o: "attachment_owner (aw_store w) postUUID userID post requester" "\<not> IsSuspended now requester" by auto
      show ?thesis
      proof (cases "\<exists>data. accepted h fileName contentType body data")
        case False
        with assms c Some ro wo Inr \<open>\<not> (content = None \<or> _ \<or> _)\<close> show ?thesis
          by (auto simp: UploadPostAttachment_def bindC_def throwC_def accepted_def ensureC_def returnC_def Let_def
              split: sum.splits upload_error.splits option.splits)
      next
        case True
        then obtain data0 data where a: "readUploadContent body (ah_maxUploadSizeBytes h) = Inr data0"
            "validateAttachmentUpload fileName contentType data0 (ah_maxUploadSizeBytes h) = None"
            "data = optimizeAttachmentImage (ah_codec h) (normalizeAttachmentContentType contentType) data0
                 (ah_imageOptimization h)"
          and acc: "accepted h fileName contentType body data" by (auto simp: accepted_def)
        obtain cause fs where sv: "fs_Save st 0 (drawn_key e tick (post_ID post) fileName) (bytes_reader data)
            (aw_files w) = (cause, fs)" by fastforce
        define key create w1 where "key = drawn_key e tick (post_ID post) fileName"
          and "create = create_or_rollback st 1 key (CreatePostAttachment e (tick + 20) postUUID userID fileName
            (normalizeAttachmentContentType contentType) (int (length data)) key)"
          and "w1 = w\<lparr>aw_files := fs\<rparr>"
        have "(\<forall>err. cause = Some err \<longrightarrow> r = Inl (WrapStorage ''save upload file'' (Some err)) \<and> w' = w1) \<and>
            (\<forall>err. cause = None \<and> r = Inl err \<longrightarrow> create w1 = Some (Inl err, w')) \<and>
            (\<forall>up. cause = None \<and> r = Inr up \<longrightarrow> create w1 = Some (Inr (au_UUID up), w') \<and>
              au_EmbedMarkdown up = buildAttachmentEmbedMarkdown fileName (au_UUID up) \<and>
              au_PreviewURL up = buildAttachmentPreviewURL postUUID (au_UUID up))"
          using assms c Some ro wo Inr \<open>\<not> (content = None \<or> _ \<or> _)\<close> sv a(1,2)
          unfolding UploadPostAttachment_def a(3) [symmetric] drawn_key_def create_def key_def w1_def
          by (auto simp: bindC_def ensureC_def returnC_def Let_def in_files_def a(3) [symmetric]
              split: option.splits sum.splits prod.splits)
        moreover have "fs_Save st 0 key (bytes_reader data) (aw_files w) = (cause, aw_files w1)"
          "aw_store w1 = aw_store w" using sv by (simp_all add: key_def w1_def)
        ultimately show ?thesis using o acc c key_def create_def unfolding upload_tried_def by blast
      qed
    qed
  qed
qed

lemma upload_tried_failed:
  assumes "upload_tried h st e tick postUUID userID fileName contentType content w (Inl err) w'"
  shows "\<exists>(post :: post) data w1 cause key. key = drawn_key e tick (post_ID post) fileName \<and>
    fs_Save st 0 key (bytes_reader data) (aw_files w) = (cause, aw_files w1) \<and> aw_store w1 = aw_store w \<and>
    (case cause of Some cause' \<Rightarrow> w' = w1
     | None \<Rightarrow> create_or_rollback st 1 key (CreatePostAttachment e (tick + 20) postUUID userID fileName
         (normalizeAttachmentContentType contentType) (int (length data)) key) w1 = Some (Inl err, w'))"
  using assms unfolding upload_tried_def
  apply (elim exE conjE)
  subgoal for body post requester now data w1 cause key create
    by (rule exI [of _ post], rule exI [of _ data], rule exI [of _ w1], rule exI [of _ cause], rule exI [of _ key])
      (cases cause; simp)
  done

subsection \<open>All or nothing\<close>

text \<open>The row and the file of an upload, on a store \<open>s\<close> and contents \<open>B\<close>, and what they became.\<close>

definition upload_stored ::
  "attachment_command_handler \<Rightarrow> env \<Rightarrow> nat \<Rightarrow> string \<Rightarrow> int \<Rightarrow> string \<Rightarrow> string \<Rightarrow> reader option \<Rightarrow>
    store \<Rightarrow> (string \<Rightarrow> string option) \<Rightarrow> attachment_upload \<Rightarrow> store \<Rightarrow> (string \<Rightarrow> string option) \<Rightarrow>
    (string \<Rightarrow> bool) \<Rightarrow> bool" where
  "upload_stored h e tick postUUID userID fileName contentType content s B up s' B' usable \<longleftrightarrow>
     (\<exists>body data post requester now row attachments' at.
        content = Some body \<and> accepted h fileName contentType body data \<and>
        attachment_owner s postUUID userID post requester \<and> \<not> IsSuspended now requester \<and>
        Attachment_save (NewAttachment (env_now e (tick + 20)) (env_uuid e (tick + 21)) (post_ID post) fileName
          (normalizeAttachmentContentType contentType) (int (length data)) (drawn_key e tick (post_ID post) fileName))
          (st_attachments s) = (row, attachments') \<and>
        queued e [NewAttachmentChanged at ''created'' (attachment_ID row) (post_ID post)] s s' \<and>
        s' = s\<lparr>st_attachments := attachments', st_outbox := st_outbox s'\<rparr> \<and>
        (\<forall>k. usable k \<longrightarrow> B' k = (if k = attachment_StorageKey row then Some data else B k)) \<and>
        up = \<lparr>au_UUID = attachment_UUID row,
              au_EmbedMarkdown = buildAttachmentEmbedMarkdown fileName (attachment_UUID row),
              au_PreviewURL = buildAttachmentPreviewURL postUUID (attachment_UUID row)\<rparr>)"

text \<open>A storage that takes the keys the service draws.\<close>

locale upload_store = file_store +
  assumes drawn_usable: "usable (buildAttachmentStorageKey buf now postID fileName)"
begin

lemma drawn_key_usable: "usable (drawn_key e tick postID fileName)"
  by (simp add: drawn_key_def drawn_usable)

lemma Upload_ok:
  assumes "UploadPostAttachment h st e tick postUUID userID fileName contentType content w = Some (Inr up, w')"
  shows "upload_stored h e tick postUUID userID fileName contentType content (aw_store w) (blob (aw_files w)) up
    (aw_store w') (blob (aw_files w')) usable"
proof -
  have "upload_tried h st e tick postUUID userID fileName contentType content w (Inr up) w'"
    using Upload_split [OF assms] by simp
  then obtain body post requester now data w1 cause key create where
    body: "content = Some body" "accepted h fileName contentType body data"
    and o: "attachment_owner (aw_store w) postUUID userID post requester" "\<not> IsSuspended now requester"
    and key: "key = drawn_key e tick (post_ID post) fileName"
    and create: "create = create_or_rollback st 1 key (CreatePostAttachment e (tick + 20) postUUID userID fileName
         (normalizeAttachmentContentType contentType) (int (length data)) key)"
    and sv0: "fs_Save st 0 key (bytes_reader data) (aw_files w) = (cause, aw_files w1)" "aw_store w1 = aw_store w"
    and some: "\<forall>err. cause = Some err \<longrightarrow> Inr up = Inl (WrapStorage ''save upload file'' (Some err)) \<and> w' = w1"
    and none: "\<forall>up'. cause = None \<and> Inr up = (Inr up' :: go_error + attachment_upload) \<longrightarrow>
        create w1 = Some (Inr (au_UUID up'), w') \<and>
        au_EmbedMarkdown up' = buildAttachmentEmbedMarkdown fileName (au_UUID up') \<and>
        au_PreviewURL up' = buildAttachmentPreviewURL postUUID (au_UUID up')"
    unfolding upload_tried_def by blast
  have cn: "cause = None" using some by (cases cause) auto
  note sv = sv0 [unfolded cn]
  have cr: "create_or_rollback st 1 key (CreatePostAttachment e (tick + 20) postUUID userID fileName
        (normalizeAttachmentContentType contentType) (int (length data)) key) w1 = Some (Inr (au_UUID up), w')"
    and up: "au_EmbedMarkdown up = buildAttachmentEmbedMarkdown fileName (au_UUID up)"
      "au_PreviewURL up = buildAttachmentPreviewURL postUUID (au_UUID up)"
    using none cn unfolding create by simp_all
  from cr obtain s' where
    s': "CreatePostAttachment e (tick + 20) postUUID userID fileName (normalizeAttachmentContentType contentType)
        (int (length data)) key (aw_store w) = Some (Inr (au_UUID up), s')" "w' = w1\<lparr>aw_store := s'\<rparr>"
    by (auto simp: create_or_rollback_run in_store_run sv(2))
  have t: "tick + 20 + 1 = tick + 21" by simp
  from CreatePostAttachment_run [OF s'(1), unfolded t] obtain post2 requester2 now2 row attachments' at where
    o2: "attachment_owner (aw_store w) postUUID userID post2 requester2"
    and row: "Attachment_save (NewAttachment (env_now e (tick + 20)) (env_uuid e (tick + 21)) (post_ID post2) fileName
        (normalizeAttachmentContentType contentType) (int (length data)) key) (st_attachments (aw_store w)) =
        (row, attachments')" "au_UUID up = attachment_UUID row"
    and q: "queued e [NewAttachmentChanged at ''created'' (attachment_ID row) (post_ID post2)] (aw_store w) s'"
      "s' = (aw_store w)\<lparr>st_attachments := attachments', st_outbox := st_outbox s'\<rparr>"
    by blast
  have same: "post2 = post" using o o2 by (simp add: attachment_owner_def post_owner_def)
  have rk: "attachment_StorageKey row = key"
    using row(1) by (auto simp: Attachment_save_def NewAttachment_def Let_def)
  have "usable key" by (simp add: key drawn_key_usable)
  then have b: "\<forall>k. usable k \<longrightarrow> blob (aw_files w') k = (if k = attachment_StorageKey row then Some data else blob (aw_files w) k)"
    using save_ok [OF _ _ sv(1)] by (simp add: s'(2) rk)
  have "up = \<lparr>au_UUID = attachment_UUID row, au_EmbedMarkdown = buildAttachmentEmbedMarkdown fileName (attachment_UUID row),
      au_PreviewURL = buildAttachmentPreviewURL postUUID (attachment_UUID row)\<rparr>"
    using up row(2) by (cases up) simp
  moreover have "aw_store w' = s'" by (simp add: s'(2))
  ultimately show ?thesis unfolding upload_stored_def
    using body o row(1) [unfolded same key] q [unfolded same] b by metis
qed

lemma Upload_failed:
  assumes "UploadPostAttachment h st e tick postUUID userID fileName contentType content w = Some (Inl err, w')"
    "\<And>postID. blob (aw_files w) (drawn_key e tick postID fileName) = None" "usable k"
  shows "aw_store w' = aw_store w"
    "blob (aw_files w') k = blob (aw_files w) k \<or>
     (\<exists>postID err1 cause. k = drawn_key e tick postID fileName \<and>
        err = Joined [err1, WrapStorage ''rollback upload file'' (Some cause)])"
proof -
  have "aw_store w' = aw_store w \<and> (blob (aw_files w') k = blob (aw_files w) k \<or>
     (\<exists>postID err1 cause. k = drawn_key e tick postID fileName \<and>
        err = Joined [err1, WrapStorage ''rollback upload file'' (Some cause)]))"
  proof (cases "w' = w")
    case False
    then have "upload_tried h st e tick postUUID userID fileName contentType content w (Inl err) w'"
      using Upload_split [OF assms(1)] by simp
    from upload_tried_failed [OF this] obtain post :: post and data w1 cause key where
      key: "key = drawn_key e tick (post_ID post) fileName"
      and sv: "fs_Save st 0 key (bytes_reader data) (aw_files w) = (cause, aw_files w1)" "aw_store w1 = aw_store w"
      and cr: "case cause of Some cause' \<Rightarrow> w' = w1
        | None \<Rightarrow> create_or_rollback st 1 key (CreatePostAttachment e (tick + 20) postUUID userID fileName
            (normalizeAttachmentContentType contentType) (int (length data)) key) w1 = Some (Inl err, w')"
      by blast
    have u: "usable key" by (simp add: key drawn_key_usable)
    show ?thesis
    proof (cases cause)
      case (Some err)
      with cr save_failed [OF u assms(3)] sv show ?thesis by simp
    next
      case None
      from cr None have "create_or_rollback st 1 key (CreatePostAttachment e (tick + 20) postUUID userID fileName
          (normalizeAttachmentContentType contentType) (int (length data)) key) w1 = Some (Inl err, w')" by simp
      from create_or_rollback_failed [OF this] obtain err1 s1 fs res where
        c: "CreatePostAttachment e (tick + 20) postUUID userID fileName (normalizeAttachmentContentType contentType)
            (int (length data)) key (aw_store w1) = Some (Inl err1, s1)"
        and d: "fs_Delete st 1 key (aw_files w1) = (res, fs)" "w' = w1\<lparr>aw_store := s1, aw_files := fs\<rparr>"
          "err = (case res of None \<Rightarrow> err1 | Some cause \<Rightarrow> Joined [err1, WrapStorage ''rollback upload file'' (Some cause)])"
        by blast
      have s1: "aw_store w' = aw_store w" using CreatePostAttachment_failed [OF c] d(2) sv(2) by simp
      show ?thesis
      proof (cases res)
        case None': None
        have "blob fs k = blob (aw_files w) k"
          using save_undone [OF u assms(3)] assms(2) sv(1) d(1) None None' key by metis
        with s1 d(2) show ?thesis by simp
      next
        case (Some cause)
        have "blob fs k = blob (aw_files w) k" if "k \<noteq> key"
          using that save_other [OF u assms(3) sv(1)] delete_other [OF u assms(3) d(1)] by simp
        with s1 d(2,3) Some key show ?thesis by auto
      qed
    qed
  qed simp
  then show "aw_store w' = aw_store w" "blob (aw_files w') k = blob (aw_files w) k \<or>
     (\<exists>postID err1 cause. k = drawn_key e tick postID fileName \<and>
        err = Joined [err1, WrapStorage ''rollback upload file'' (Some cause)])" by blast+
qed

end

interpretation local_uploads: upload_store "NewFileStorage v rootDir" "blob rootDir" storage_key for v rootDir
  by unfold_locales (rule upload_key_ok)

end
