(* ===== verification/FileRules.thy ===== *)
theory FileRules
  imports AttachmentRules
begin

text \<open>
  The rows of the attachments and the files they name. \<open>files_kept\<close> says that a row that is not about
  to be deleted has its file, of the size it states; uploads, deletions, the clean-up and the commands
  on posts keep it. The clean-up removes the files and rows of its candidates and nothing else.
\<close>

section \<open>Rows and files\<close>

definition files_kept :: "(string \<Rightarrow> bool) \<Rightarrow> (string \<Rightarrow> string option) \<Rightarrow> attachment_repo \<Rightarrow> bool" where
  "files_kept usable B r \<longleftrightarrow> db_ok attachment_ID r \<and>
     (\<forall>i a j b. db_get r i = Some a \<and> db_get r j = Some b \<and> attachment_StorageKey a = attachment_StorageKey b \<longrightarrow> i = j) \<and>
     (\<forall>i a. db_get r i = Some a \<longrightarrow> usable (attachment_StorageKey a) \<and>
        (IsPendingDelete a \<or>
         (\<exists>c. B (attachment_StorageKey a) = Some c \<and> int (length c) = attachment_SizeBytes a)))"

lemma files_kept_row:
  assumes "files_kept usable B r" "db_get r i = Some a"
  shows "attachment_ID a = i" "usable (attachment_StorageKey a)"
    "IsPendingDelete a \<or> (\<exists>c. B (attachment_StorageKey a) = Some c \<and> int (length c) = attachment_SizeBytes a)"
  using assms db_get_bounds [of attachment_ID r i a] by (simp_all add: files_kept_def)

lemma files_kept_keys:
  "\<lbrakk>files_kept usable B r; db_get r i = Some a; db_get r j = Some b; attachment_StorageKey a = attachment_StorageKey b\<rbrakk>
    \<Longrightarrow> i = j"
  unfolding files_kept_def by metis

text \<open>Rows that are gone, and rows that changed in their marks only, to pending if their file is gone.\<close>

definition remark :: "attachment \<Rightarrow> attachment \<Rightarrow> bool" where
  "remark a a' \<longleftrightarrow> attachment_ID a' = attachment_ID a \<and> attachment_StorageKey a' = attachment_StorageKey a \<and>
     attachment_SizeBytes a' = attachment_SizeBytes a \<and> (IsPendingDelete a \<longrightarrow> IsPendingDelete a')"

lemma remark_refl [simp]: "remark a a"
  by (simp add: remark_def)

lemma remark_marks: "remark a (MarkReferenced a)" "remark a (MarkOrphaned now a)" "remark a (MarkPendingDeleteAt at a)"
  "remark a (mark_by_text body now a)"
  by (simp_all add: remark_def MarkReferenced_def MarkOrphaned_def MarkPendingDeleteAt_def IsPendingDelete_def
      mark_by_text_def)

lemma files_kept_remark:
  assumes "files_kept usable B r" "db_ok attachment_ID r'"
    "\<And>i a'. db_get r' i = Some a' \<Longrightarrow> \<exists>a. db_get r i = Some a \<and> remark a a' \<and>
       (B' (attachment_StorageKey a) = B (attachment_StorageKey a) \<or> IsPendingDelete a')"
  shows "files_kept usable B' r'"
  unfolding files_kept_def
proof (intro conjI allI impI)
  fix i a' j b'
  assume "db_get r' i = Some a' \<and> db_get r' j = Some b' \<and> attachment_StorageKey a' = attachment_StorageKey b'"
  then show "i = j"
    using assms(1,3) unfolding files_kept_def remark_def by metis
next
  fix i a'
  assume a': "db_get r' i = Some a'"
  from assms(3) [OF this] obtain a where a: "db_get r i = Some a" "remark a a'"
    "B' (attachment_StorageKey a) = B (attachment_StorageKey a) \<or> IsPendingDelete a'" by blast
  with assms(1) show "usable (attachment_StorageKey a')"
    unfolding files_kept_def remark_def by metis
  show "IsPendingDelete a' \<or> (\<exists>c. B' (attachment_StorageKey a') = Some c \<and> int (length c) = attachment_SizeBytes a')"
    using a assms(1) unfolding files_kept_def remark_def by metis
qed (rule assms(2))

lemma files_kept_insert:
  assumes "files_kept usable B r" "Attachment_save a r = (row, r')"
    "usable (attachment_StorageKey a)" "\<And>i b. db_get r i = Some b \<Longrightarrow> attachment_StorageKey b \<noteq> attachment_StorageKey a"
    "\<And>k. usable k \<Longrightarrow> B' k = (if k = attachment_StorageKey a then Some data else B k)"
    "attachment_SizeBytes a = int (length data)"
  shows "files_kept usable B' r'"
proof -
  have ok: "db_ok attachment_ID r" using assms(1) by (simp add: files_kept_def)
  have row: "row = a\<lparr>attachment_ID := db_ID r + 1\<rparr>" using assms(2) by (auto simp: Attachment_save_def Let_def)
  have g: "db_get r' = (db_get r)(attachment_ID row \<mapsto> row)" and ok': "db_ok attachment_ID r'"
    using attachments.insert_get [OF ok assms(2)] attachments.insert_inv [OF ok assms(2)] by simp_all
  show ?thesis unfolding files_kept_def
  proof (intro conjI allI impI)
    fix i x j y
    assume "db_get r' i = Some x \<and> db_get r' j = Some y \<and> attachment_StorageKey x = attachment_StorageKey y"
    then show "i = j" using assms(1) assms(4) assms(4) [symmetric] row unfolding files_kept_def g
      by (auto split: if_splits)
  next
    fix i x
    assume x: "db_get r' i = Some x"
    show "usable (attachment_StorageKey x)"
      using x assms(1,3) row unfolding files_kept_def g by (auto split: if_splits)
    show "IsPendingDelete x \<or> (\<exists>c. B' (attachment_StorageKey x) = Some c \<and> int (length c) = attachment_SizeBytes x)"
    proof (cases "i = attachment_ID row")
      case True
      with x have "x = row" by (simp add: g)
      moreover have "attachment_StorageKey row = attachment_StorageKey a" "attachment_SizeBytes row = attachment_SizeBytes a"
        by (simp_all add: row)
      ultimately show ?thesis using assms(3,6) assms(5) [OF assms(3)] by metis
    next
      case False
      with x have "db_get r i = Some x" by (simp add: g)
      with assms(1,4,5) show ?thesis unfolding files_kept_def by metis
    qed
  qed (rule ok')
qed

section \<open>Cleaning up\<close>

text \<open>
  The first \<open>k\<close> items are gone, row and file; of the others a row may be marked, and a file may be
  gone only under a marked row; everything else is as it was.
\<close>

definition cleaned ::
  "(string \<Rightarrow> bool) \<Rightarrow> time \<Rightarrow> attachment list \<Rightarrow> nat \<Rightarrow> attachment_repo \<Rightarrow> (string \<Rightarrow> string option) \<Rightarrow>
    attachment_repo \<Rightarrow> (string \<Rightarrow> string option) \<Rightarrow> bool" where
  "cleaned usable cutoff items k r B r' B' \<longleftrightarrow> db_ok attachment_ID r' \<and>
     (\<forall>i. i \<notin> attachment_ID ` set items \<longrightarrow> db_get r' i = db_get r i) \<and>
     (\<forall>key. usable key \<and> key \<notin> attachment_StorageKey ` set items \<longrightarrow> B' key = B key) \<and>
     (\<forall>a \<in> set (take k items). db_get r' (attachment_ID a) = None \<and> B' (attachment_StorageKey a) = None) \<and>
     (\<forall>a \<in> set (drop k items). \<exists>a'. db_get r' (attachment_ID a) = Some a' \<and>
        (a' = a \<or> a' = MarkPendingDeleteAt cutoff a) \<and>
        (B' (attachment_StorageKey a) = B (attachment_StorageKey a) \<or> IsPendingDelete a'))"

definition candidates_ok :: "(string \<Rightarrow> bool) \<Rightarrow> attachment_repo \<Rightarrow> attachment list \<Rightarrow> bool" where
  "candidates_ok usable r items \<longleftrightarrow> distinct (map attachment_ID items) \<and> distinct (map attachment_StorageKey items) \<and>
     (\<forall>a \<in> set items. db_get r (attachment_ID a) = Some a \<and> usable (attachment_StorageKey a))"

lemma MarkPending_pending [simp]: "IsPendingDelete (MarkPendingDeleteAt at a)"
  "IsPendingDelete a \<Longrightarrow> MarkPendingDeleteAt at a = a" "attachment_ID (MarkPendingDeleteAt at a) = attachment_ID a"
  by (auto simp: IsPendingDelete_def MarkPendingDeleteAt_def)

lemma bindC_ensured: "bindC (ensureC None) f = f ()"
  by (simp add: bindC_def ensureC_def returnC_def fun_eq_iff)

context file_store begin

lemma cleanup_one_effect:
  assumes "cleanup_one st e n cutoff item w = Some (res, w')"
    "db_ok attachment_ID (st_attachments (aw_store w))"
    "db_get (st_attachments (aw_store w)) (attachment_ID item) = Some item" "usable (attachment_StorageKey item)"
  shows "\<exists>r'. aw_store w' = (aw_store w)\<lparr>st_attachments := r'\<rparr> \<and>
    cleaned usable cutoff [item] (case res of Inl _ \<Rightarrow> 0 | Inr _ \<Rightarrow> 1) (st_attachments (aw_store w))
      (blob (aw_files w)) r' (blob (aw_files w'))"
proof -
  let ?r = "st_attachments (aw_store w)" and ?k = "attachment_StorageKey item" and ?i = "attachment_ID item"
  define m where "m = MarkPendingDeleteAt cutoff item"
  have up: "db_get (Attachment_update m ?r) = (db_get ?r)(?i \<mapsto> m)" by (simp add: Attachment_update_get m_def)
  have okm: "db_ok attachment_ID (Attachment_update m ?r)"
    using db_get_bounds [OF assms(2,3)] assms(2) by (intro Attachment_update_ok) (simp_all add: m_def)
  have s_id: "(aw_store w)\<lparr>st_attachments := ?r\<rparr> = aw_store w" by simp
  show ?thesis
  proof (cases "env_ctx e")
    case (Some err)
    with assms(1) have "res = Inl err" "w' = w" by (auto simp: cleanup_one_def bindC_def ensureC_def throwC_def)
    with assms(2,3) show ?thesis by (intro exI [of _ ?r]) (simp add: cleaned_def)
  next
    case ctx: None
    let ?mark = "repoC e ''mark attachment pending delete for cleanup'' (in_store (attachments_update m))"
    let ?del = "in_files ''delete orphan attachment file'' (fs_Delete st n ?k)"
    let ?row = "repoC e ''delete orphan attachment metadata'' (in_store (attachments_delete ?i))"
    define r1 where "r1 = (if IsPendingDelete item then ?r else Attachment_update m ?r)"
    have g1: "db_get r1 = (db_get ?r)(?i \<mapsto> (if IsPendingDelete item then item else m))" "db_ok attachment_ID r1"
      using assms(2,3) up okm by (auto simp: r1_def)
    have del: "db_get (Attachment_delete ?i r1) = (db_get ?r)(?i := None)" "db_ok attachment_ID (Attachment_delete ?i r1)"
      using g1 by (auto simp: Attachment_delete_def db_get_def db_ok_del)
    have body: "bindC (if IsPendingDelete item then returnC () else ?mark) (\<lambda>_. bindC ?del (\<lambda>_. ?row)) w = Some (res, w')"
      using assms(1) unfolding cleanup_one_def ctx bindC_ensured m_def by simp
    consider (fault) err where "\<not> IsPendingDelete item" "res = Inl err" "w' = w"
      | (go) "bindC ?del (\<lambda>_. ?row) (w\<lparr>aw_store := (aw_store w)\<lparr>st_attachments := r1\<rparr>\<rparr>) = Some (res, w')"
    proof (cases "IsPendingDelete item")
      case True
      with body have "bindC ?del (\<lambda>_. ?row) w = Some (res, w')" by (simp add: bindC_def returnC_def)
      with True that(2) show ?thesis by (simp add: r1_def)
    next
      case False
      show ?thesis
      proof (cases "env_fault e ''mark attachment pending delete for cleanup''")
        case None
        with body False have "bindC ?del (\<lambda>_. ?row) (w\<lparr>aw_store := (aw_store w)\<lparr>st_attachments := r1\<rparr>\<rparr>) = Some (res, w')"
          by (simp add: bindC_def repoC_def called_def in_store_def attachments_update_def write_store_def changes_def r1_def)
        then show ?thesis by (rule that(2))
      next
        case (Some err)
        with body False that(1) show ?thesis by (auto simp: bindC_def repoC_def called_def)
      qed
    qed
    then show ?thesis
    proof cases
      case fault
      with assms(2,3) show ?thesis by (intro exI [of _ ?r]) (simp add: cleaned_def)
    next
      case go
      obtain cause fs where d: "fs_Delete st n ?k (aw_files w) = (cause, fs)" by fastforce
      show ?thesis
      proof (cases cause)
        case (Some err)
        with go d have r: "\<exists>err'. res = Inl err'" and w': "w' = w\<lparr>aw_store := (aw_store w)\<lparr>st_attachments := r1\<rparr>, aw_files := fs\<rparr>"
          by (auto simp: bindC_def in_files_def)
        have "fs = aw_files w" using delete_failed d Some by blast
        with r w' g1 show ?thesis by (intro exI [of _ r1]) (auto simp: cleaned_def m_def)
      next
        case None
        have b: "blob fs k' = (if k' = ?k then None else blob (aw_files w) k')" if "usable k'" for k'
          using delete_ok [OF assms(4) that] d None by simp
        show ?thesis
        proof (cases "env_fault e ''delete orphan attachment metadata''")
          case fault: (Some err)
          with go d None have r: "\<exists>err'. res = Inl err'"
            and w': "w' = w\<lparr>aw_store := (aw_store w)\<lparr>st_attachments := r1\<rparr>, aw_files := fs\<rparr>"
            by (auto simp: bindC_def in_files_def repoC_def called_def)
          with b g1 show ?thesis by (intro exI [of _ r1]) (auto simp: cleaned_def m_def)
        next
          case ok: None
          with go d None have r: "res = Inr ()"
            and w': "w' = w\<lparr>aw_store := (aw_store w)\<lparr>st_attachments := Attachment_delete ?i r1\<rparr>, aw_files := fs\<rparr>"
            by (auto simp: bindC_def in_files_def repoC_def called_def in_store_def attachments_delete_def
                write_store_def changes_def)
          with b del assms(4) show ?thesis by (intro exI [of _ "Attachment_delete ?i r1"]) (auto simp: cleaned_def)
        qed
      qed
    qed
  qed
qed

text \<open>The rest of the list after its first item.\<close>

lemma cleaned_Cons:
  assumes "cleaned usable cutoff [a] 1 r B r1 B1" "cleaned usable cutoff items k r1 B1 r2 B2"
    "candidates_ok usable r (a # items)"
  shows "cleaned usable cutoff (a # items) (Suc k) r B r2 B2"
proof -
  have a: "attachment_ID a \<notin> attachment_ID ` set items" "attachment_StorageKey a \<notin> attachment_StorageKey ` set items"
    "usable (attachment_StorageKey a)" using assms(3) by (auto simp: candidates_ok_def)
  have keep: "B1 (attachment_StorageKey b) = B (attachment_StorageKey b)" if "b \<in> set items" for b
  proof -
    have "usable (attachment_StorageKey b)" "attachment_StorageKey b \<noteq> attachment_StorageKey a"
      using that assms(3) a(2) by (auto simp: candidates_ok_def image_iff)
    with assms(1) show ?thesis by (simp add: cleaned_def)
  qed
  have "db_get r2 (attachment_ID a) = None" "B2 (attachment_StorageKey a) = None"
    using assms(1,2) a by (auto simp: cleaned_def)
  with assms(1,2) keep show ?thesis unfolding cleaned_def
    by (auto dest: in_set_dropD) (metis in_set_dropD)+
qed

lemma clean_items_effect:
  assumes "clean_items st e n cutoff items w = Some ((m, err), w')"
    "db_ok attachment_ID (st_attachments (aw_store w))"
    "candidates_ok usable (st_attachments (aw_store w)) items"
  shows "\<exists>k r'. m = int (n + k) \<and> k \<le> length items \<and> (err = None \<longrightarrow> k = length items) \<and>
    aw_store w' = (aw_store w)\<lparr>st_attachments := r'\<rparr> \<and>
    cleaned usable cutoff items k (st_attachments (aw_store w)) (blob (aw_files w)) r' (blob (aw_files w'))"
  using assms
proof (induction items arbitrary: n w)
  case Nil
  then show ?case by (intro exI [of _ 0] exI [of _ "st_attachments (aw_store w)"]) (auto simp: cleaned_def)
next
  case (Cons a items)
  have c: "db_get (st_attachments (aw_store w)) (attachment_ID a) = Some a" "usable (attachment_StorageKey a)"
    using Cons.prems(3) by (simp_all add: candidates_ok_def)
  from Cons.prems(1) obtain res w1 where one: "cleanup_one st (e n) n cutoff a w = Some (res, w1)"
    by (auto split: option.splits)
  from cleanup_one_effect [OF one Cons.prems(2) c] obtain r1 where
    w1: "aw_store w1 = (aw_store w)\<lparr>st_attachments := r1\<rparr>"
    and c1: "cleaned usable cutoff [a] (case res of Inl _ \<Rightarrow> 0 | Inr _ \<Rightarrow> 1) (st_attachments (aw_store w))
      (blob (aw_files w)) r1 (blob (aw_files w1))" by blast
  show ?case
  proof (cases res)
    case (Inl err')
    with Cons.prems(1) one have m: "m = int n" "err = Some err'" "w' = w1" by auto
    have "\<forall>b \<in> set items. db_get r1 (attachment_ID b) = Some b \<and>
        blob (aw_files w1) (attachment_StorageKey b) = blob (aw_files w) (attachment_StorageKey b)"
      using c1 Inl Cons.prems(3) by (auto simp: cleaned_def candidates_ok_def image_iff)
    with c1 Inl have "cleaned usable cutoff (a # items) 0 (st_attachments (aw_store w)) (blob (aw_files w)) r1
        (blob (aw_files w1))" by (auto simp: cleaned_def)
    with m w1 show ?thesis by (intro exI [of _ 0] exI [of _ r1]) simp
  next
    case (Inr u)
    with Cons.prems(1) one have rest: "clean_items st e (Suc n) cutoff items w1 = Some ((m, err), w')" by simp
    have "candidates_ok usable r1 items"
      using c1 Inr Cons.prems(3) by (auto simp: cleaned_def candidates_ok_def image_iff)
    moreover have "db_ok attachment_ID r1" using c1 by (simp add: cleaned_def)
    ultimately obtain k r' where k: "m = int (Suc n + k)" "k \<le> length items" "err = None \<longrightarrow> k = length items"
      "aw_store w' = (aw_store w1)\<lparr>st_attachments := r'\<rparr>"
      "cleaned usable cutoff items k r1 (blob (aw_files w1)) r' (blob (aw_files w'))"
      using Cons.IH [OF rest] w1 by auto
    from c1 Inr k(5) Cons.prems(3) have "cleaned usable cutoff (a # items) (Suc k) (st_attachments (aw_store w))
        (blob (aw_files w)) r' (blob (aw_files w'))" by (intro cleaned_Cons) simp_all
    with k w1 show ?thesis by (intro exI [of _ "Suc k"] exI [of _ r']) simp
  qed
qed

end

text \<open>What was cleaned is still in order.\<close>

lemma files_kept_cleaned:
  assumes "files_kept usable B r" "candidates_ok usable r items" "cleaned usable cutoff items k r B r' B'"
  shows "files_kept usable B' r'"
proof (rule files_kept_remark [OF assms(1)])
  show "db_ok attachment_ID r'" using assms(3) by (simp add: cleaned_def)
  fix i a'
  assume a': "db_get r' i = Some a'"
  show "\<exists>a. db_get r i = Some a \<and> remark a a' \<and>
      (B' (attachment_StorageKey a) = B (attachment_StorageKey a) \<or> IsPendingDelete a')"
  proof (cases "i \<in> attachment_ID ` set items")
    case True
    then obtain a where a: "a \<in> set items" "i = attachment_ID a" by blast
    have "a \<notin> set (take k items)" using a' a(2) assms(3) by (auto simp: cleaned_def)
    with a(1) have "a \<in> set (drop k items)" by (metis Un_iff append_take_drop_id set_append)
    with assms(2,3) a a' show ?thesis
      by (fastforce simp: cleaned_def candidates_ok_def remark_marks)
  next
    case False
    with a' assms(3) have a: "db_get r i = Some a'" by (auto simp: cleaned_def)
    have "attachment_StorageKey a' \<notin> attachment_StorageKey ` set items"
    proof
      assume "attachment_StorageKey a' \<in> attachment_StorageKey ` set items"
      then obtain b where b: "b \<in> set items" "attachment_StorageKey b = attachment_StorageKey a'" by force
      with assms(2) have "db_get r (attachment_ID b) = Some b" by (simp add: candidates_ok_def)
      with a b(2) assms(1) have "i = attachment_ID b" unfolding files_kept_def by metis
      with False b(1) show False by blast
    qed
    with a assms(1,3) show ?thesis unfolding files_kept_def cleaned_def by auto
  qed
qed

lemma candidates_ok_select:
  assumes "files_kept usable B r"
  shows "candidates_ok usable r (selectCleanupCandidatesBefore cutoff limit r)"
proof -
  let ?c = "selectCleanupCandidatesBefore cutoff limit r"
  have ok: "db_ok attachment_ID r" using assms by (simp add: files_kept_def)
  have rows: "a \<in> set ?c \<Longrightarrow> db_get r (attachment_ID a) = Some a" for a
    using cleanup_candidates db_get_row [OF ok] by blast
  have "distinct (map attachment_ID (db_rows r))" by (rule db_rows_distinct [OF ok])
  then have d: "distinct (map attachment_ID ?c)"
  proof -
    let ?f = "filter (\<lambda>a. attachmentEligibleForCleanup a cutoff) (db_rows r)"
    assume "distinct (map attachment_ID (db_rows r))"
    then have "distinct (map attachment_ID ?f)" by (rule filter_distinct_rids)
    then have s: "distinct (map attachment_ID (sort_key cleanupEligibleAt ?f))"
      by (metis mset_eq_imp_distinct_iff mset_map mset_sort)
    then show ?thesis
      by (simp add: selectCleanupCandidatesBefore_def Let_def take_int_def take_map [symmetric])
  qed
  have "inj_on attachment_StorageKey (set ?c)"
    using rows assms unfolding files_kept_def by (intro inj_onI) (metis option.inject)
  with d have "distinct (map attachment_StorageKey ?c)" by (simp add: distinct_map)
  moreover have "usable (attachment_StorageKey a)" if "a \<in> set ?c" for a
    using rows [OF that] assms unfolding files_kept_def by blast
  ultimately show ?thesis using d rows by (simp add: candidates_ok_def)
qed

section \<open>The commands keep the files\<close>

definition files_ok :: "string \<Rightarrow> files attachment_world \<Rightarrow> bool" where
  "files_ok rootDir w \<longleftrightarrow> forum_ok (aw_store w) \<and>
     files_kept storage_key (blob rootDir (aw_files w)) (st_attachments (aw_store w))"

lemma forum_ok_attachments:
  "forum_ok s \<Longrightarrow> db_ok attachment_ID r \<Longrightarrow> forum_ok (s\<lparr>st_attachments := r\<rparr>)"
  by (simp add: forum_ok_def posts_housed_def tags_ok_def sweepable_def live_post_def)

lemma remarked_rows:
  assumes "remarked mark postID s s1" "\<And>now a. remark a (mark now a)" "db_get (st_attachments s1) i = Some a'"
  shows "\<exists>a. db_get (st_attachments s) i = Some a \<and> remark a a'"
proof -
  have "case db_get (st_attachments s) i of
        None \<Rightarrow> db_get (st_attachments s1) i = None
      | Some a \<Rightarrow> if attachment_PostID a = postID then \<exists>now. db_get (st_attachments s1) i = Some (mark now a)
                  else db_get (st_attachments s1) i = Some a"
    using assms(1) unfolding remarked_def by blast
  with assms(2,3) show ?thesis by (cases "db_get (st_attachments s) i") (auto split: if_splits)
qed

text \<open>The post commands change the marks of attachments only.\<close>

lemma posts_remark:
  assumes "forum_ok s" "db_get (st_attachments s') i = Some a'"
    "PublishPost e tick postUUID authorID s = Some (r, s') \<or>
     UpdatePost e tick postUUID authorID title content tags s = Some (r, s') \<or>
     DeletePost e tick postUUID authorID s = Some (r, s')"
  shows "\<exists>a. db_get (st_attachments s) i = Some a \<and> remark a a'"
proof (cases r)
  case (Inl err)
  with assms post_rollback show ?thesis by (metis remark_refl)
next
  case (Inr u)
  note ok = forum_parts [OF assms(1)]
  have "\<exists>mark postID s0 s1. st_attachments s0 = st_attachments s \<and> remarked mark postID s0 s1 \<and>
      (\<forall>now a. remark a (mark now a)) \<and> st_attachments s' = st_attachments s1"
    using assms(3)
  proof (elim disjE)
    assume "PublishPost e tick postUUID authorID s = Some (r, s')"
    from post_committed(2) [OF this [unfolded Inr]] obtain t where
      t: "PublishPost_tx postUUID authorID e (begin_tx tick s) = Some (Inr u, t)" "s' = tx_store t" by blast
    from PublishPost_tx_run [OF t(1)] ok(3,5) obtain post :: post and published s1 where
      "remarked (mark_by_text (post_Content post)) (post_ID post) s s1"
      "s' = s1\<lparr>st_posts := Post_update (Publish published post) (st_posts s), st_outbox := st_outbox s'\<rparr>"
      unfolding t(2) begin_fields by blast
    moreover from this(2) have "st_attachments s' = st_attachments s1" by (metis store.ext_inject store.surjective
          store.update_convs(3) store.update_convs(13))
    ultimately show ?thesis using remark_marks(4) by blast
  next
    assume "UpdatePost e tick postUUID authorID title content tags s = Some (r, s')"
    from post_committed(3) [OF this [unfolded Inr]] obtain names t where
      t: "UpdatePost_tx postUUID authorID title content names e (begin_tx tick s) = Some (Inr u, t)" "s' = tx_store t"
      by blast
    from UpdatePost_tx_run [OF t(1)] ok(3,5) obtain post :: post and updated s1 s2 where
      rm: "remarked (mark_by_text content) (post_ID post) s s1"
      and st: "tags_step (post_ID post)
        (s1\<lparr>st_posts := Post_update (Post_Update updated title content post) (st_posts s)\<rparr>) s2"
      and s': "s' = s2\<lparr>st_outbox := st_outbox s'\<rparr>"
      unfolding t(2) begin_fields by blast
    have "st_attachments s' = st_attachments s2" using arg_cong [OF s', of st_attachments] by simp
    with tags_step_fields(2) [OF st] have "st_attachments s' = st_attachments s1" by simp
    with rm show ?thesis using remark_marks(4) by blast
  next
    assume "DeletePost e tick postUUID authorID s = Some (r, s')"
    from post_committed(4) [OF this [unfolded Inr]] obtain t where
      t: "DeletePost_tx postUUID authorID e (begin_tx tick s) = Some (Inr u, t)" "s' = tx_store t" by blast
    from DeletePost_tx_run [OF t(1)] ok(3,4,5) obtain post :: post and ids deleted s1 where
      ar: "artifacts_deleted (post_ID post) ids s s1"
      and s': "s' = s1\<lparr>st_posts := Post_delete deleted (post_ID post) (st_posts s),
        st_post_tags := softDeleteByPostID (post_ID post) (st_post_tags s), st_outbox := st_outbox s'\<rparr>"
      unfolding t(2) begin_fields by blast
    from ar obtain s2 s3 rx where
      sw: "swept (comment_ID ` set (active_of (post_ID post) (st_comments s))) s s2"
      and rm: "remarked MarkOrphaned (post_ID post) s2 s3" and s1: "s1 = s3\<lparr>st_reactions := rx\<rparr>"
      unfolding artifacts_deleted_def by blast
    have "s2\<lparr>st_comments := st_comments s, st_reactions := st_reactions s\<rparr> = s" using sw by (simp add: swept_def)
    from arg_cong [OF this, of st_attachments] have "st_attachments s2 = st_attachments s" by simp
    moreover have "st_attachments s' = st_attachments s3" using arg_cong [OF s', of st_attachments] by (simp add: s1)
    ultimately show ?thesis using rm remark_marks(2) by blast
  qed
  then obtain mark postID s0 s1 where "st_attachments s0 = st_attachments s" "remarked mark postID s0 s1"
    "\<And>now a. remark a (mark now a)" "st_attachments s' = st_attachments s1" by blast
  with remarked_rows [of mark postID s0 s1 i a'] assms(2) show ?thesis by simp
qed

section \<open>The life of the files\<close>

text \<open>The key an upload will draw names no file and no row, whatever the post.\<close>

definition fresh_key :: "string \<Rightarrow> env \<Rightarrow> nat \<Rightarrow> string \<Rightarrow> files attachment_world \<Rightarrow> bool" where
  "fresh_key rootDir e tick fileName w \<longleftrightarrow>
     (\<forall>postID. blob rootDir (aw_files w) (drawn_key e tick postID fileName) = None \<and>
        (\<forall>i a. db_get (st_attachments (aw_store w)) i = Some a \<longrightarrow>
           attachment_StorageKey a \<noteq> drawn_key e tick postID fileName))"

text \<open>
  One command, whatever it answers. The last rule stands for the commands that keep the forum in order
  and do not touch attachments.
\<close>

inductive file_step ::
  "attachment_command_handler \<Rightarrow> string \<Rightarrow> files attachment_world \<Rightarrow> files attachment_world \<Rightarrow> bool"
  for h rootDir where
  upload: "\<lbrakk>fresh_key rootDir e tick fileName w;
      UploadPostAttachment h (NewFileStorage v rootDir) e tick postUUID userID fileName contentType content w =
        Some (r, w')\<rbrakk> \<Longrightarrow> file_step h rootDir w w'"
| remove: "DeletePostAttachment e tick postUUID attachmentUUID userID (aw_store w) = Some (r, s') \<Longrightarrow>
      file_step h rootDir w (w\<lparr>aw_store := s'\<rparr>)"
| cleanup: "CleanupAttachments (NewFileStorage v rootDir) en now gracePeriod limit w = Some (res, w') \<Longrightarrow>
      file_step h rootDir w w'"
| publish: "PublishPost e tick postUUID authorID (aw_store w) = Some (r, s') \<Longrightarrow>
      file_step h rootDir w (w\<lparr>aw_store := s'\<rparr>)"
| update: "UpdatePost e tick postUUID authorID title content' tags (aw_store w) = Some (r, s') \<Longrightarrow>
      file_step h rootDir w (w\<lparr>aw_store := s'\<rparr>)"
| delete: "DeletePost e tick postUUID authorID (aw_store w) = Some (r, s') \<Longrightarrow>
      file_step h rootDir w (w\<lparr>aw_store := s'\<rparr>)"
| others: "\<lbrakk>forum_ok s'; st_attachments s' = st_attachments (aw_store w)\<rbrakk> \<Longrightarrow>
      file_step h rootDir w (w\<lparr>aw_store := s'\<rparr>)"

inductive file_run ::
  "attachment_command_handler \<Rightarrow> string \<Rightarrow> files attachment_world \<Rightarrow> files attachment_world \<Rightarrow> bool"
  for h rootDir where
  stop: "file_run h rootDir w w"
| step: "file_run h rootDir w w1 \<Longrightarrow> file_step h rootDir w1 w2 \<Longrightarrow> file_run h rootDir w w2"

lemma files_ok_marks:
  assumes "files_ok rootDir w" "forum_ok s'"
    "\<And>i a'. db_get (st_attachments s') i = Some a' \<Longrightarrow>
       \<exists>a. db_get (st_attachments (aw_store w)) i = Some a \<and> remark a a'"
  shows "files_ok rootDir (w\<lparr>aw_store := s'\<rparr>)"
proof -
  have "files_kept storage_key (blob rootDir (aw_files w)) (st_attachments (aw_store w))"
    using assms(1) by (simp add: files_ok_def)
  from files_kept_remark [OF this forum_parts(5) [OF assms(2)], of "blob rootDir (aw_files w)"] assms(2,3)
  show ?thesis by (auto simp: files_ok_def)
qed

lemma upload_keeps:
  assumes "UploadPostAttachment h (NewFileStorage v rootDir) e tick postUUID userID fileName contentType content w =
      Some (r, w')" "fresh_key rootDir e tick fileName w" "files_ok rootDir w"
  shows "files_ok rootDir w'"
proof (cases r)
  case (Inl err)
  have none: "blob rootDir (aw_files w) (drawn_key e tick postID fileName) = None" for postID
    using assms(2) by (simp add: fresh_key_def)
  note f = local_uploads.Upload_failed [OF assms(1) [unfolded Inl] none]
  have s: "aw_store w' = aw_store w" using f(1) [OF upload_key_ok] .
  have same: "blob rootDir (aw_files w') (attachment_StorageKey a) = blob rootDir (aw_files w) (attachment_StorageKey a)"
    if "db_get (st_attachments (aw_store w)) i = Some a" for i a
  proof -
    have "storage_key (attachment_StorageKey a)" using that assms(3) unfolding files_ok_def files_kept_def by blast
    from f(2) [OF this] show ?thesis using that assms(2) unfolding fresh_key_def by metis
  qed
  have "files_kept storage_key (blob rootDir (aw_files w')) (st_attachments (aw_store w))"
    by (rule files_kept_remark [where B = "blob rootDir (aw_files w)"])
      (use assms(3) same in \<open>auto simp: files_ok_def files_kept_def\<close>)
  with assms(3) s show ?thesis by (simp add: files_ok_def)
next
  case (Inr up)
  from local_uploads.Upload_ok [OF assms(1) [unfolded Inr]] obtain data and post :: post and row attachments' where
    sv: "Attachment_save (NewAttachment (env_now e (tick + 20)) (env_uuid e (tick + 21)) (post_ID post) fileName
          (normalizeAttachmentContentType contentType) (int (length data)) (drawn_key e tick (post_ID post) fileName))
          (st_attachments (aw_store w)) = (row, attachments')"
    and s': "aw_store w' = (aw_store w)\<lparr>st_attachments := attachments', st_outbox := st_outbox (aw_store w')\<rparr>"
    and b: "\<forall>k. storage_key k \<longrightarrow> blob rootDir (aw_files w') k =
        (if k = attachment_StorageKey row then Some data else blob rootDir (aw_files w) k)"
    unfolding upload_stored_def by blast
  define a where "a = NewAttachment (env_now e (tick + 20)) (env_uuid e (tick + 21)) (post_ID post) fileName
          (normalizeAttachmentContentType contentType) (int (length data)) (drawn_key e tick (post_ID post) fileName)"
  have a: "attachment_StorageKey a = drawn_key e tick (post_ID post) fileName" "attachment_SizeBytes a = int (length data)"
    by (simp_all add: a_def NewAttachment_def)
  have row: "attachment_StorageKey row = attachment_StorageKey a"
    using sv by (auto simp: Attachment_save_def Let_def a_def)
  have kept: "files_kept storage_key (blob rootDir (aw_files w)) (st_attachments (aw_store w))"
    using assms(3) by (simp add: files_ok_def)
  have k': "files_kept storage_key (blob rootDir (aw_files w')) attachments'"
    by (rule files_kept_insert [OF kept sv [folded a_def], where data = data])
      (use assms(2) a b row in \<open>auto simp: fresh_key_def drawn_key_def upload_key_ok\<close>)
  obtain x where x: "aw_store w' = (aw_store w)\<lparr>st_attachments := attachments', st_outbox := x\<rparr>" using s' by blast
  have "forum_ok ((aw_store w)\<lparr>st_attachments := attachments'\<rparr>)"
    using assms(3) k' by (intro forum_ok_attachments) (simp_all add: files_ok_def files_kept_def)
  then have "forum_ok (aw_store w')" by (simp only: x forum_ok_outbox)
  moreover have "st_attachments (aw_store w') = attachments'" by (simp add: x)
  ultimately show ?thesis using k' by (simp add: files_ok_def)
qed

lemma remove_keeps:
  assumes "DeletePostAttachment e tick postUUID attachmentUUID userID (aw_store w) = Some (r, s')" "files_ok rootDir w"
  shows "files_ok rootDir (w\<lparr>aw_store := s'\<rparr>)"
proof (cases r)
  case (Inl err)
  with assms DeletePostAttachment_failed show ?thesis by (metis attachment_world.surjective attachment_world.update_convs(1))
next
  case (Inr u)
  note ok = forum_parts(5) [of "aw_store w"]
  have fo: "forum_ok (aw_store w)" using assms(2) by (simp add: files_ok_def)
  from DeletePostAttachment_run [OF assms(1) [unfolded Inr]] obtain a marked where
    a: "Attachment_selectByUUID attachmentUUID (st_attachments (aw_store w)) = Some a"
    and s': "s' = (aw_store w)\<lparr>st_attachments := Attachment_update (MarkPendingDeleteAt marked a)
        (st_attachments (aw_store w)), st_outbox := st_outbox s'\<rparr>" by blast
  have row: "db_get (st_attachments (aw_store w)) (attachment_ID a) = Some a"
    using a db_get_row [OF ok [OF fo]] by (auto simp: Attachment_selectByUUID_def find_Some_iff)
  obtain x where x: "s' = (aw_store w)\<lparr>st_attachments := Attachment_update (MarkPendingDeleteAt marked a)
        (st_attachments (aw_store w)), st_outbox := x\<rparr>" using s' by blast
  have "db_ok attachment_ID (Attachment_update (MarkPendingDeleteAt marked a) (st_attachments (aw_store w)))"
    using db_get_bounds [OF ok [OF fo] row] ok [OF fo] by (intro Attachment_update_ok) simp_all
  from forum_ok_attachments [OF fo this] have "forum_ok s'" by (simp add: x)
  then show ?thesis
    by (rule files_ok_marks [OF assms(2)])
      (use row in \<open>auto simp: x Attachment_update_get remark_marks split: if_splits\<close>)
qed

lemma Cleanup_effect:
  assumes "CleanupAttachments (NewFileStorage v rootDir) e now gracePeriod limit w = Some ((n, err), w')"
    "files_ok rootDir w" "0 < gracePeriod" "0 < limit"
  defines "items \<equiv> selectCleanupCandidatesBefore (now - gracePeriod) limit (st_attachments (aw_store w))"
  shows "(\<exists>cause. n = 0 \<and> err = Some cause \<and> w' = w) \<or>
    (\<exists>k r'. n = int k \<and> k \<le> length items \<and> (err = None \<longrightarrow> k = length items) \<and>
       aw_store w' = (aw_store w)\<lparr>st_attachments := r'\<rparr> \<and>
       cleaned storage_key (now - gracePeriod) items k (st_attachments (aw_store w)) (blob rootDir (aw_files w)) r'
         (blob rootDir (aw_files w')))"
proof (cases "read_repo (e 0) ''select orphan attachments for cleanup'' items")
  case (Inl cause)
  with assms(1,3,4) show ?thesis by (auto simp: CleanupAttachments_def Let_def items_def)
next
  case (Inr x)
  then have "x = items" by (auto simp: read_repo_def split: option.splits)
  with Inr assms(1,3,4) have c: "clean_items (NewFileStorage v rootDir) e 0 (now - gracePeriod) items w = Some ((n, err), w')"
    by (simp add: CleanupAttachments_def Let_def items_def)
  have "db_ok attachment_ID (st_attachments (aw_store w))"
    "candidates_ok storage_key (st_attachments (aw_store w)) items"
    using assms(2) forum_parts(5) candidates_ok_select unfolding items_def files_ok_def by blast+
  from local_files.clean_items_effect [OF c this] show ?thesis by auto
qed

lemma cleanup_keeps:
  assumes "CleanupAttachments (NewFileStorage v rootDir) e now gracePeriod limit w = Some (res, w')" "files_ok rootDir w"
  shows "files_ok rootDir w'"
proof (cases "gracePeriod \<le> 0 \<or> limit \<le> 0")
  case True
  with assms show ?thesis by (simp add: CleanupAttachments_def)
next
  case False
  obtain n err where res: "res = (n, err)" by (cases res)
  let ?items = "selectCleanupCandidatesBefore (now - gracePeriod) limit (st_attachments (aw_store w))"
  from Cleanup_effect [OF assms(1) [unfolded res] assms(2)] False
  consider "w' = w" | k r' where "aw_store w' = (aw_store w)\<lparr>st_attachments := r'\<rparr>"
    "cleaned storage_key (now - gracePeriod) ?items k (st_attachments (aw_store w)) (blob rootDir (aw_files w)) r'
       (blob rootDir (aw_files w'))" by auto
  then show ?thesis
  proof cases
    case 2
    have k: "files_kept storage_key (blob rootDir (aw_files w)) (st_attachments (aw_store w))"
      using assms(2) by (simp add: files_ok_def)
    have k': "files_kept storage_key (blob rootDir (aw_files w')) r'"
      by (rule files_kept_cleaned [OF k candidates_ok_select [OF k] 2(2)])
    moreover have "forum_ok (aw_store w')"
      using assms(2) k' by (simp add: 2(1) forum_ok_attachments files_ok_def files_kept_def)
    ultimately show ?thesis by (simp add: files_ok_def 2(1))
  qed (use assms(2) in simp)
qed

lemma file_step_keeps:
  assumes "file_step h rootDir w w'" "files_ok rootDir w"
  shows "files_ok rootDir w'"
  using assms
proof (induction rule: file_step.induct)
  case (upload e tick fileName w v postUUID userID contentType content r w')
  show ?case by (rule upload_keeps [OF upload.hyps(2,1) upload.prems])
next
  case (remove e tick postUUID attachmentUUID userID w r s')
  show ?case by (rule remove_keeps [OF remove.hyps remove.prems])
next
  case (cleanup v en now gracePeriod limit w res w')
  show ?case by (rule cleanup_keeps [OF cleanup.hyps cleanup.prems])
next
  case (publish e tick postUUID authorID w r s')
  have fo: "forum_ok (aw_store w)" using publish.prems by (simp add: files_ok_def)
  show ?case
    by (rule files_ok_marks [OF publish.prems PublishPost_keeps [OF publish.hyps fo]])
      (rule posts_remark [OF fo _ disjI1 [OF publish.hyps]])
next
  case (update e tick postUUID authorID title content' tags w r s')
  have fo: "forum_ok (aw_store w)" using update.prems by (simp add: files_ok_def)
  show ?case
    by (rule files_ok_marks [OF update.prems UpdatePost_keeps [OF update.hyps fo]])
      (rule posts_remark [OF fo _ disjI2 [OF disjI1 [OF update.hyps]]])
next
  case (delete e tick postUUID authorID w r s')
  have fo: "forum_ok (aw_store w)" using delete.prems by (simp add: files_ok_def)
  show ?case
    by (rule files_ok_marks [OF delete.prems DeletePost_keeps [OF delete.hyps fo]])
      (rule posts_remark [OF fo _ disjI2 [OF disjI2 [OF delete.hyps]]])
next
  case (others s' w)
  show ?case by (rule files_ok_marks [OF others.prems others.hyps(1)]) (use others.hyps(2) in \<open>auto intro: remark_refl\<close>)
qed

lemma file_run_keeps: "file_run h rootDir w w' \<Longrightarrow> files_ok rootDir w \<Longrightarrow> files_ok rootDir w'"
  by (induction rule: file_run.induct) (auto intro: file_step_keeps)

section \<open>What the commands promise\<close>

lemma accepted_size:
  assumes "accepted h fileName contentType body data" "0 < ah_maxUploadSizeBytes h" "ah_maxUploadSizeBytes h < 2 ^ 63"
  shows "data \<noteq> []" "int (length data) \<le> ah_maxUploadSizeBytes h"
    "normalizeAttachmentContentType contentType \<in> set allowedAttachmentContentTypes"
    "\<not> io_Enabled (ah_imageOptimization h) \<Longrightarrow> data = rd_text body"
proof -
  from assms(1) obtain data0 where
    d: "readUploadContent body (ah_maxUploadSizeBytes h) = Inr data0"
      "validateAttachmentUpload fileName contentType data0 (ah_maxUploadSizeBytes h) = None"
      "data = optimizeAttachmentImage (ah_codec h) (normalizeAttachmentContentType contentType) data0 (ah_imageOptimization h)"
    by (auto simp: accepted_def)
  note v = validate_ok [OF d(2)] and o = optimize_le [where data = data0]
  show "data \<noteq> []" "int (length data) \<le> ah_maxUploadSizeBytes h"
    "normalizeAttachmentContentType contentType \<in> set allowedAttachmentContentTypes"
    using v(1-3) o d(3) by (auto intro: order_trans [OF _ v(2)])
  show "data = rd_text body" if "\<not> io_Enabled (ah_imageOptimization h)"
    using that d(3) readUpload_ok [OF d(1) assms(2,3) v(1)] by (simp add: optimizeAttachmentImage_def)
qed

text \<open>
  C11: an upload always answers. When it succeeds, its row and its file are there, both or none: the
  file is not empty, not larger than the limit and of an accepted type, and only the content under its
  key is another. When it fails the store is as it was and so are all contents, unless taking the file
  back failed too, which the answer tells.
\<close>

theorem upload_all_or_nothing:
  assumes "fresh_key rootDir e tick fileName w" "0 < ah_maxUploadSizeBytes h" "ah_maxUploadSizeBytes h < 2 ^ 63"
  shows "\<exists>r w'. UploadPostAttachment h (NewFileStorage v rootDir) e tick postUUID userID fileName contentType content w =
      Some (r, w') \<and>
    (case r of
       Inl err \<Rightarrow> aw_store w' = aw_store w \<and>
         (\<forall>k. storage_key k \<and> blob rootDir (aw_files w') k \<noteq> blob rootDir (aw_files w) k \<longrightarrow>
            (\<exists>postID err1 cause. k = drawn_key e tick postID fileName \<and>
               err = Joined [err1, WrapStorage ''rollback upload file'' (Some cause)]))
     | Inr up \<Rightarrow>
         upload_stored h e tick postUUID userID fileName contentType content (aw_store w) (blob rootDir (aw_files w)) up
           (aw_store w') (blob rootDir (aw_files w')) storage_key \<and>
         (\<forall>body data. content = Some body \<and> accepted h fileName contentType body data \<longrightarrow>
            data \<noteq> [] \<and> int (length data) \<le> ah_maxUploadSizeBytes h \<and>
            normalizeAttachmentContentType contentType \<in> set allowedAttachmentContentTypes \<and>
            (\<not> io_Enabled (ah_imageOptimization h) \<longrightarrow> data = rd_text body)))"
proof -
  obtain r w' where u: "UploadPostAttachment h (NewFileStorage v rootDir) e tick postUUID userID fileName contentType
      content w = Some (r, w')"
    using attachment_commands_answer(2) by (fastforce simp: returnsC_def)
  have none: "blob rootDir (aw_files w) (drawn_key e tick postID fileName) = None" for postID
    using assms(1) by (simp add: fresh_key_def)
  show ?thesis
  proof (cases r)
    case (Inl err)
    note f = local_uploads.Upload_failed [OF u [unfolded Inl] none]
    show ?thesis using u f(1) [OF upload_key_ok] f(2) unfolding Inl by auto
  next
    case (Inr up)
    from local_uploads.Upload_ok [OF u [unfolded Inr]] u accepted_size [OF _ assms(2,3)] show ?thesis
      unfolding Inr by auto
  qed
qed

text \<open>
  C12: whatever uploads, deletions, clean-ups and commands on posts ran, failed ones included, every
  attachment a post shows has its file, of the length its row states, and what a reader is given has
  that length.
\<close>

theorem attachments_have_files:
  assumes "file_run h rootDir w w'" "files_ok rootDir w"
  shows "files_ok rootDir w' \<and>
    (\<forall>items item. GetPostAttachments e postUUID (aw_store w') = Inr items \<and> item \<in> set items \<longrightarrow>
       (\<exists>c. blob rootDir (aw_files w') (am_StorageKey item) = Some c \<and> int (length c) = am_SizeBytes item)) \<and>
    (\<forall>f. GetPostAttachmentFile (NewFileStorage v rootDir) e n postUUID attachmentUUID w' = Inr f \<and>
       rd_error (af_Content f) = None \<longrightarrow> int (length (rd_text (af_Content f))) = af_SizeBytes f)"
proof (intro conjI allI impI)
  show ok: "files_ok rootDir w'" by (rule file_run_keeps [OF assms])
  have kept: "storage_key (attachment_StorageKey a)"
    "IsPendingDelete a \<or> (\<exists>c. blob rootDir (aw_files w') (attachment_StorageKey a) = Some c \<and>
      int (length c) = attachment_SizeBytes a)" if "a \<in> set (db_rows (st_attachments (aw_store w')))" for a
  proof -
    have k: "files_kept storage_key (blob rootDir (aw_files w')) (st_attachments (aw_store w'))"
      using ok by (simp add: files_ok_def)
    then have "db_ok attachment_ID (st_attachments (aw_store w'))" by (simp add: files_kept_def)
    then have "db_get (st_attachments (aw_store w')) (attachment_ID a) = Some a"
      by (rule iffD2 [OF db_get_row conjI [OF that refl]])
    from files_kept_row(2,3) [OF k this] show "storage_key (attachment_StorageKey a)"
      "IsPendingDelete a \<or> (\<exists>c. blob rootDir (aw_files w') (attachment_StorageKey a) = Some c \<and>
        int (length c) = attachment_SizeBytes a)" .
  qed
  { fix items item
    assume "GetPostAttachments e postUUID (aw_store w') = Inr items \<and> item \<in> set items"
    then obtain a where "a \<in> set (db_rows (st_attachments (aw_store w')))" "\<not> IsPendingDelete a"
      "am_StorageKey item = attachment_StorageKey a" "am_SizeBytes item = attachment_SizeBytes a"
      by (auto elim: GetPostAttachments_run)
    with kept(2) show "\<exists>c. blob rootDir (aw_files w') (am_StorageKey item) = Some c \<and> int (length c) = am_SizeBytes item"
      by auto }
  fix f
  assume f: "GetPostAttachmentFile (NewFileStorage v rootDir) e n postUUID attachmentUUID w' = Inr f \<and>
       rd_error (af_Content f) = None"
  then obtain a rd where a: "Attachment_selectByUUID attachmentUUID (st_attachments (aw_store w')) = Some a"
    "\<not> IsPendingDelete a" "fs_Open (NewFileStorage v rootDir) n (attachment_StorageKey a) (aw_files w') = Inr rd"
    "f = attachment_file_of a rd" by (auto elim: GetPostAttachmentFile_run)
  then have row: "a \<in> set (db_rows (st_attachments (aw_store w')))"
    by (auto simp: Attachment_selectByUUID_def find_Some_iff)
  have "blob rootDir (aw_files w') (attachment_StorageKey a) = Some (rd_text rd)"
    using local_files.open_ok [OF kept(1) [OF row] a(3)] f a(4) by (simp add: attachment_file_of_def)
  with kept(2) [OF row] a(2,4) show "int (length (rd_text (af_Content f))) = af_SizeBytes f"
    by (simp add: attachment_file_of_def)
qed

lemma cleanup_select:
  "a \<in> set (selectCleanupCandidatesBefore cutoff limit r) \<Longrightarrow> attachmentEligibleForCleanup a cutoff"
  "0 < limit \<Longrightarrow> int (length (selectCleanupCandidatesBefore cutoff limit r)) \<le> limit"
  "\<lbrakk>int (length (selectCleanupCandidatesBefore cutoff limit r)) < limit; a \<in> set (db_rows r);
    attachmentEligibleForCleanup a cutoff\<rbrakk> \<Longrightarrow> a \<in> set (selectCleanupCandidatesBefore cutoff limit r)"
proof -
  let ?out = "sort_key cleanupEligibleAt (filter (\<lambda>a. attachmentEligibleForCleanup a cutoff) (db_rows r))"
  have s: "selectCleanupCandidatesBefore cutoff limit r =
      (if 0 < limit \<and> limit < int (length ?out) then take (nat limit) ?out else ?out)"
    by (simp add: selectCleanupCandidatesBefore_def Let_def take_int_def)
  show "attachmentEligibleForCleanup a cutoff" if "a \<in> set (selectCleanupCandidatesBefore cutoff limit r)"
  proof -
    have "a \<in> set ?out" using that unfolding s by (auto split: if_splits dest: in_set_takeD)
    then show ?thesis by simp
  qed
  show "int (length (selectCleanupCandidatesBefore cutoff limit r)) \<le> limit" if "0 < limit"
    using that unfolding s by simp
  show "a \<in> set (selectCleanupCandidatesBefore cutoff limit r)"
    if "int (length (selectCleanupCandidatesBefore cutoff limit r)) < limit" "a \<in> set (db_rows r)"
      "attachmentEligibleForCleanup a cutoff"
    using that unfolding s by (simp split: if_splits)
qed

text \<open>What a prefix of the candidates holds is not younger than any due row it leaves out.\<close>

lemma cleanup_oldest_first:
  assumes "a \<in> set (take m (selectCleanupCandidatesBefore cutoff limit r))"
    and "b \<in> set (db_rows r)" "attachmentEligibleForCleanup b cutoff"
    and "b \<notin> set (take m (selectCleanupCandidatesBefore cutoff limit r))"
  shows "cleanupEligibleAt a \<le> cleanupEligibleAt b"
proof -
  let ?out = "sort_key cleanupEligibleAt (filter (\<lambda>a. attachmentEligibleForCleanup a cutoff) (db_rows r))"
  have "selectCleanupCandidatesBefore cutoff limit r = ?out \<or>
      selectCleanupCandidatesBefore cutoff limit r = take (nat limit) ?out"
    by (simp add: selectCleanupCandidatesBefore_def Let_def take_int_def)
  then obtain n where n: "take m (selectCleanupCandidatesBefore cutoff limit r) = take n ?out"
    by (metis take_take)
  have split: "take n ?out @ drop n ?out = ?out" by simp
  have "b \<in> set ?out" using assms(2,3) by simp
  then have b: "b \<in> set (drop n ?out)"
    using assms(4) unfolding n by (metis Un_iff set_append split)
  have "sorted (map cleanupEligibleAt (take n ?out @ drop n ?out))" unfolding split by (rule sorted_sort_key)
  with assms(1) b show ?thesis unfolding n by (simp add: sorted_append del: append_take_drop_id)
qed

text \<open>What a round did, read off \<open>cleaned\<close>.\<close>

lemma cleaned_rows:
  assumes "files_kept usable B r" "candidates_ok usable r items" "cleaned usable cutoff items k r B r' B'"
  shows "a \<in> set (take k items) \<longleftrightarrow> db_get r (attachment_ID a) = Some a \<and> db_get r' (attachment_ID a) = None"
    "db_get r i = Some b \<Longrightarrow> b \<notin> set items \<Longrightarrow>
      db_get r' i = Some b \<and> B' (attachment_StorageKey b) = B (attachment_StorageKey b)"
    "db_get r' i = Some b \<Longrightarrow> k = length items \<Longrightarrow> db_get r i = Some b \<and> b \<notin> set items"
proof -
  have row: "db_get r (attachment_ID x) = Some x" if "x \<in> set items" for x
    using that assms(2) by (simp add: candidates_ok_def)
  have parts: "x \<in> set items \<longleftrightarrow> x \<in> set (take k items) \<or> x \<in> set (drop k items)" for x
    by (metis Un_iff append_take_drop_id set_append)
  have same: "attachment_ID x \<notin> attachment_ID ` set items" if "db_get r (attachment_ID x) = Some x" "x \<notin> set items" for x
    using that row by (metis (no_types, lifting) imageE option.inject)
  have id: "i = attachment_ID b" if "db_get r i = Some b" for i b
    using files_kept_row(1) [OF assms(1) that] by simp
  have away: "db_get r' i = db_get r i" if "i \<notin> attachment_ID ` set items" for i
    using that assms(3) by (simp add: cleaned_def)
  show "a \<in> set (take k items) \<longleftrightarrow> db_get r (attachment_ID a) = Some a \<and> db_get r' (attachment_ID a) = None"
  proof
    assume "a \<in> set (take k items)"
    with row parts assms(3) show "db_get r (attachment_ID a) = Some a \<and> db_get r' (attachment_ID a) = None"
      by (simp add: cleaned_def)
  next
    assume g: "db_get r (attachment_ID a) = Some a \<and> db_get r' (attachment_ID a) = None"
    then have "a \<in> set items" using same away by (metis option.distinct(1))
    moreover have "a \<notin> set (drop k items)" using g assms(3) by (auto simp: cleaned_def)
    ultimately show "a \<in> set (take k items)" using parts by blast
  qed
  show "db_get r' i = Some b \<and> B' (attachment_StorageKey b) = B (attachment_StorageKey b)"
    if "db_get r i = Some b" "b \<notin> set items"
  proof -
    have "attachment_StorageKey b \<notin> attachment_StorageKey ` set items"
    proof
      assume "attachment_StorageKey b \<in> attachment_StorageKey ` set items"
      then obtain x where x: "x \<in> set items" "attachment_StorageKey x = attachment_StorageKey b" by force
      with files_kept_keys [OF assms(1) row that(1)] have "attachment_ID x = i" by simp
      with x(1) row that show False by fastforce
    qed
    moreover have "usable (attachment_StorageKey b)" using files_kept_row(2) [OF assms(1) that(1)] .
    ultimately have "B' (attachment_StorageKey b) = B (attachment_StorageKey b)"
      using assms(3) unfolding cleaned_def by blast
    moreover have "i \<notin> attachment_ID ` set items" using same [of b] that id [OF that(1)] by simp
    ultimately show ?thesis using away that(1) by simp
  qed
  show "db_get r i = Some b \<and> b \<notin> set items" if "db_get r' i = Some b" "k = length items"
  proof -
    have "i \<notin> attachment_ID ` set items" using that assms(3) by (auto simp: cleaned_def)
    with away that(1) have g: "db_get r i = Some b" by simp
    with \<open>i \<notin> _\<close> id [OF g] show ?thesis by blast
  qed
qed

lemma cleanup_cases:
  assumes "CleanupAttachments (NewFileStorage v rootDir) e now gracePeriod limit w = Some ((n, err), w')" "files_ok rootDir w"
    "items = selectCleanupCandidatesBefore (now - gracePeriod) limit (st_attachments (aw_store w))"
  obtains (same) "n = 0" "w' = w" "err = None \<longrightarrow> gracePeriod \<le> 0 \<or> limit \<le> 0"
    | (run) m r' where "0 < limit" "n = int m" "m \<le> length items" "err = None \<longrightarrow> m = length items"
      "aw_store w' = (aw_store w)\<lparr>st_attachments := r'\<rparr>"
      "cleaned storage_key (now - gracePeriod) items m (st_attachments (aw_store w)) (blob rootDir (aw_files w)) r'
        (blob rootDir (aw_files w'))"
proof (cases "gracePeriod \<le> 0 \<or> limit \<le> 0")
  case True
  with assms(1) same show ?thesis by (simp add: CleanupAttachments_def)
next
  case False
  then have pos: "0 < gracePeriod" "0 < limit" by simp_all
  from Cleanup_effect [OF assms(1,2) pos, folded assms(3)] show ?thesis
  proof
    assume "\<exists>cause. n = 0 \<and> err = Some cause \<and> w' = w"
    then show ?thesis using same by blast
  next
    assume "\<exists>k r'. n = int k \<and> k \<le> length items \<and> (err = None \<longrightarrow> k = length items) \<and>
      aw_store w' = (aw_store w)\<lparr>st_attachments := r'\<rparr> \<and>
      cleaned storage_key (now - gracePeriod) items k (st_attachments (aw_store w)) (blob rootDir (aw_files w)) r'
        (blob rootDir (aw_files w'))"
    then show ?thesis using run [OF pos(2)] by blast
  qed
qed

text \<open>What a round that got to its \<open>m\<close>-th candidate has removed, and what it has left.\<close>

lemma cleaned_removed:
  assumes "files_kept usable B r" "items = selectCleanupCandidatesBefore cutoff limit r" "m \<le> length items"
    "cleaned usable cutoff items m r B r' B'"
  shows "\<exists>removed. int m = int (length removed) \<and> distinct (map attachment_ID removed) \<and>
     sorted (map cleanupEligibleAt removed) \<and>
     (\<forall>a. a \<in> set removed \<longleftrightarrow> db_get r (attachment_ID a) = Some a \<and> db_get r' (attachment_ID a) = None) \<and>
     (\<forall>a \<in> set removed. attachmentEligibleForCleanup a cutoff \<and> B' (attachment_StorageKey a) = None \<and>
        (\<forall>i b. db_get r i = Some b \<and> db_get r' i \<noteq> None \<and> attachmentEligibleForCleanup b cutoff \<longrightarrow>
           cleanupEligibleAt a \<le> cleanupEligibleAt b))"
proof (intro exI [of _ "take m items"] conjI allI ballI impI)
  note cand = candidates_ok_select [OF assms(1), of cutoff limit, folded assms(2)]
  show "distinct (map attachment_ID (take m items))" "sorted (map cleanupEligibleAt (take m items))"
    using cand cleanup_sorted [of cutoff limit r]
    by (simp_all add: candidates_ok_def assms(2) take_map [symmetric] sorted_wrt_take)
  show "a \<in> set (take m items) \<longleftrightarrow> db_get r (attachment_ID a) = Some a \<and> db_get r' (attachment_ID a) = None" for a
    by (rule cleaned_rows(1) [OF assms(1) cand assms(4)])
  fix a
  assume a: "a \<in> set (take m items)"
  then show "attachmentEligibleForCleanup a cutoff"
    using cleanup_select(1) [of a cutoff limit r] unfolding assms(2) by (blast dest: in_set_takeD)
  show "B' (attachment_StorageKey a) = None" using a assms(4) by (simp add: cleaned_def)
  fix i b
  assume b: "db_get r i = Some b \<and> db_get r' i \<noteq> None \<and> attachmentEligibleForCleanup b cutoff"
  then have i: "i = attachment_ID b" using files_kept_row(1) [OF assms(1)] by blast
  have row: "b \<in> set (db_rows r)"
    using b assms(1) db_get_row [of attachment_ID r i b] by (simp add: files_kept_def)
  have "b \<notin> set (take m items)" using b unfolding i cleaned_rows(1) [OF assms(1) cand assms(4)] by simp
  then show "cleanupEligibleAt a \<le> cleanupEligibleAt b"
    using cleanup_oldest_first [of a m cutoff limit r b] a b row unfolding assms(2) by blast
qed (use assms(3) in simp)

lemma cleaned_left:
  assumes "files_kept usable B r" "items = selectCleanupCandidatesBefore cutoff limit r"
    "cleaned usable cutoff items (length items) r B r' B'" "int (length items) < limit" "db_get r' i = Some a"
  shows "\<not> attachmentEligibleForCleanup a cutoff"
proof
  assume e: "attachmentEligibleForCleanup a cutoff"
  note cand = candidates_ok_select [OF assms(1), of cutoff limit, folded assms(2)]
  from cleaned_rows(3) [OF assms(1) cand assms(3,5) refl] have g: "db_get r i = Some a" "a \<notin> set items" by simp_all
  have "a \<in> set (db_rows r)" using g(1) assms(1) db_get_row [of attachment_ID r i a] by (simp add: files_kept_def)
  then have "a \<in> set items" using assms(4) unfolding assms(2) by (intro cleanup_select(3) e)
  with g(2) show False by contradiction
qed

text \<open>
  C13: a clean-up always answers, removes at most the limit of attachments and answers how many: each was
  due and is gone with its file. It takes the oldest: no attachment that was due and is still there,
  because of the limit or of an error, has been due for longer than one that was removed. Every attachment that was not due and its file are
  untouched, and of the others the rows and files are still in order. A round without an error that
  stays below the limit leaves none that was due.
\<close>

theorem cleanup_takes_due:
  assumes "files_ok rootDir w"
  shows "\<exists>n err w'. CleanupAttachments (NewFileStorage v rootDir) e now gracePeriod limit w = Some ((n, err), w') \<and>
    n \<le> max 0 limit \<and> files_ok rootDir w' \<and>
    (\<exists>removed. n = int (length removed) \<and> distinct (map attachment_ID removed) \<and>
       sorted (map cleanupEligibleAt removed) \<and>
       (\<forall>a. a \<in> set removed \<longleftrightarrow>
          db_get (st_attachments (aw_store w)) (attachment_ID a) = Some a \<and>
          db_get (st_attachments (aw_store w')) (attachment_ID a) = None) \<and>
       (\<forall>a \<in> set removed. attachmentEligibleForCleanup a (now - gracePeriod) \<and>
          blob rootDir (aw_files w') (attachment_StorageKey a) = None \<and>
          (\<forall>i b. db_get (st_attachments (aw_store w)) i = Some b \<and> db_get (st_attachments (aw_store w')) i \<noteq> None \<and>
             attachmentEligibleForCleanup b (now - gracePeriod) \<longrightarrow> cleanupEligibleAt a \<le> cleanupEligibleAt b))) \<and>
    (\<forall>i a. db_get (st_attachments (aw_store w)) i = Some a \<and> \<not> attachmentEligibleForCleanup a (now - gracePeriod) \<longrightarrow>
       db_get (st_attachments (aw_store w')) i = Some a \<and>
       blob rootDir (aw_files w') (attachment_StorageKey a) = blob rootDir (aw_files w) (attachment_StorageKey a)) \<and>
    (err = None \<and> 0 < gracePeriod \<and> n < limit \<longrightarrow>
       (\<forall>i a. db_get (st_attachments (aw_store w')) i = Some a \<longrightarrow>
          \<not> attachmentEligibleForCleanup a (now - gracePeriod)))"
proof -
  let ?C = "CleanupAttachments (NewFileStorage v rootDir) e now gracePeriod limit w"
    and ?r = "st_attachments (aw_store w)" and ?B = "blob rootDir (aw_files w)"
  define items where "items = selectCleanupCandidatesBefore (now - gracePeriod) limit ?r"
  obtain n err w' where c: "?C = Some ((n, err), w')"
    using CleanupAttachments_answers(2) [of "NewFileStorage v rootDir" e now gracePeriod limit w] by (cases ?C) auto
  note ok = cleanup_keeps [OF c assms]
  have k: "files_kept storage_key ?B ?r" using assms by (simp add: files_ok_def)
  from c assms items_def show ?thesis
  proof (cases rule: cleanup_cases)
    case same
    note [simp] = same(1,2)
    have "\<exists>removed. n = int (length removed) \<and> distinct (map attachment_ID removed) \<and>
       sorted (map cleanupEligibleAt removed) \<and>
       (\<forall>a. a \<in> set removed \<longleftrightarrow> db_get ?r (attachment_ID a) = Some a \<and>
          db_get (st_attachments (aw_store w')) (attachment_ID a) = None) \<and>
       (\<forall>a \<in> set removed. attachmentEligibleForCleanup a (now - gracePeriod) \<and>
          blob rootDir (aw_files w') (attachment_StorageKey a) = None \<and>
          (\<forall>i b. db_get ?r i = Some b \<and> db_get (st_attachments (aw_store w')) i \<noteq> None \<and>
             attachmentEligibleForCleanup b (now - gracePeriod) \<longrightarrow> cleanupEligibleAt a \<le> cleanupEligibleAt b))"
      by (rule exI [of _ "[]"]) simp
    then show ?thesis
      by (intro exI [of _ n] exI [of _ err] exI [of _ w'] conjI; (assumption | rule c)?) (use c same(3) assms in auto)
  next
    case (run m r')
    have st: "st_attachments (aw_store w') = r'" by (simp add: run(5))
    have bound: "n \<le> max 0 limit" using run(1-3) cleanup_select(2) [OF run(1), of "now - gracePeriod" ?r]
      by (simp add: items_def)
    note removed = cleaned_removed [OF k items_def run(3,6), folded run(2)]
    have untouched: "\<forall>i a. db_get ?r i = Some a \<and> \<not> attachmentEligibleForCleanup a (now - gracePeriod) \<longrightarrow>
        db_get r' i = Some a \<and> blob rootDir (aw_files w') (attachment_StorageKey a) = ?B (attachment_StorageKey a)"
      using cleaned_rows(2) [OF k candidates_ok_select [OF k, of "now - gracePeriod" limit, folded items_def] run(6)]
        cleanup_select(1) [of _ "now - gracePeriod" limit ?r, folded items_def] by blast
    have none: "err = None \<and> 0 < gracePeriod \<and> n < limit \<longrightarrow>
        (\<forall>i a. db_get r' i = Some a \<longrightarrow> \<not> attachmentEligibleForCleanup a (now - gracePeriod))"
      using cleaned_left [OF k items_def, of r'] run(2,4,6) by blast
    show ?thesis
      by (intro exI [of _ n] exI [of _ err] exI [of _ w'] conjI; (unfold st)?)
        (fact c bound ok removed untouched none)+
  qed
qed

text \<open>
  C15: the text an upload returns embeds the file, in that the attachment is found in a post with that
  text and kept in use, exactly when the name of the file has no closing bracket; otherwise the
  attachment becomes an orphan, which the clean-up takes once the grace period is over.
\<close>

theorem embed_lost_after_bracket:
  assumes "attachment_UUID a \<noteq> []" "list_all uuid_char (attachment_UUID a)"
    "content = buildAttachmentEmbedMarkdown fileName (attachment_UUID a)"
  shows "extractAttachmentRefIDs content = (if CHR '']'' \<in> set (TrimSpace fileName) then [] else [attachment_UUID a]) \<and>
    mark_by_text content now a = (if CHR '']'' \<in> set (TrimSpace fileName) then MarkOrphaned now a else MarkReferenced a) \<and>
    (CHR '']'' \<in> set (TrimSpace fileName) \<and> attachment_PendingDeleteAt a = None \<and> attachment_OrphanedAt a = None \<and> 0 < now \<longrightarrow>
       attachmentEligibleForCleanup (mark_by_text content now a) now)"
  using embedded_reference [OF assms(1,2), of fileName]
  by (simp add: assms(3) mark_by_text_def attachmentEligibleForCleanup_def cleanupEligibleAt_def MarkOrphaned_def IsZero_def Let_def)

section \<open>A forum with a file\<close>

definition demo_handler :: attachment_command_handler where
  "demo_handler = newAttachmentCommandHandler 100 \<lparr>io_Enabled = False, io_JPEGQuality = 0\<rparr>
     \<lparr>codec_jpeg = \<lambda>_ _. None, codec_png = \<lambda>_. None\<rparr>"

definition demo_local :: local_env where
  "demo_local = \<lparr>le_ctx = \<lambda>_. None, le_os = \<lambda>_ _. None, le_temp = id\<rparr>"

definition empty_world :: "files attachment_world" where
  "empty_world = \<lparr>aw_store = demo_store, aw_files = []\<rparr>"

lemma demo_paths1:
  "TrimSpace ''a.gif'' = ''a.gif''" "TrimSpace ''image/gif'' = ''image/gif''" "sanitizeAttachmentFileName ''a.gif'' = ''a.gif''"
proof -
  show t: "TrimSpace ''a.gif'' = ''a.gif''" "TrimSpace ''image/gif'' = ''image/gif''" by (simp_all add: TrimSpace_plain plain_byte_def)
  have b: "Base ''a.gif'' = ''a.gif''" by (simp add: Base_def)
  show "sanitizeAttachmentFileName ''a.gif'' = ''a.gif''"
    by (simp add: sanitizeAttachmentFileName_def t b Trim_def safe_char_def)
qed

lemma demo_paths2:
  "hex_encode [char_of (10::nat)] = ''0a''" by code_simp

lemma demo_paths3:
  "FormatInt 1 = ''1''"  by code_simp

lemma demo_paths3b:
  "Join_paths [''posts'', ''1'', ''0a'' @ ''-'' @ ''a.gif''] = ''posts/1/0a-a.gif''"  by code_simp

lemma demo_drawn: "drawn_key demo_env 0 1 ''a.gif'' = ''posts/1/0a-a.gif''"
  by (simp only: drawn_key_def buildAttachmentStorageKey_def newAttachmentKeySuffix_def demo_env_simps demo_paths1
      demo_paths2 demo_paths3 demo_paths3b option.map option.case Let_def add_0)

lemma demo_paths:
  "resolve ''data'' ''posts/1/0a-a.gif'' = Inr ''data/posts/1/0a-a.gif''" "Dir ''data/posts/1/0a-a.gif'' = ''data/posts/1''"
  "locate ''data/posts/1'' = (False, [''data'', ''posts'', ''1''])"
  "locate ''data/posts/1/0a-a.gif'' = (False, [''data'', ''posts'', ''1'', ''0a-a.gif''])"
  "locate (temp_name ''data/posts/1'' 0) = (False, [''data'', ''posts'', ''1'', ''.upload-0''])"
proof -
  show "resolve ''data'' ''posts/1/0a-a.gif'' = Inr ''data/posts/1/0a-a.gif''" by code_simp
  show "Dir ''data/posts/1/0a-a.gif'' = ''data/posts/1''" by code_simp
  show "locate ''data/posts/1'' = (False, [''data'', ''posts'', ''1''])" by code_simp
  show "locate ''data/posts/1/0a-a.gif'' = (False, [''data'', ''posts'', ''1'', ''0a-a.gif''])" by code_simp
  show "locate (temp_name ''data/posts/1'' 0) = (False, [''data'', ''posts'', ''1'', ''.upload-0''])" by code_simp
qed

lemma demo_save:
  "\<exists>fs. Save demo_local ''data'' ''posts/1/0a-a.gif'' (bytes_reader ''GIF89a'') [] = (None, fs)"
proof -
  have first: "P 0 \<Longrightarrow> find P [0..<10000] = Some (0 :: nat)" for P by (subst upt_conv_Cons) simp_all
  have p: "rd_chunks (bytes_reader ''GIF89a'') = [''GIF89a'']" "rd_error (bytes_reader ''GIF89a'') = None"
    by (simp_all add: bytes_reader_def pieces.simps [of "''GIF89a''"] pieces.simps [of "[]"])
  show ?thesis
    by (simp add: Save_def demo_local_def demo_paths p MkdirAll_def above_def node_at_def CreateTemp_def first
      copy_pieces.simps append_file_def Rename_def Let_def)
qed

lemma demo_author:
  "\<exists>post t. attachment_author what ''p1'' 2 demo_env (begin_tx n demo_store) = Some (Inr post, t) \<and> post_ID post = 1"
  by (simp add: attachment_author_def post_eval action_eval entity_eval policy_eval cong: bindT_eval_cong)

lemma demo_create_row:
  "TrimSpace key \<noteq> [] \<Longrightarrow>
    \<exists>uuid s. CreatePostAttachment demo_env 20 ''p1'' 2 ''a.gif'' ''image/gif'' 6 key demo_store = Some (Inr uuid, s)"
  apply (simp add: CreatePostAttachment_def CreatePostAttachment_tx_def attachment_author_def call_eval post_eval
      action_eval entity_eval policy_eval attachmentTx_Save_def Attachment_save_def demo_paths1 NewAttachment_def captureAttachment_def cong: bindT_eval_cong)
  apply (simp add: event_eval action_eval NewAttachmentChanged_def cong: bindT_eval_cong)
  done

lemma demo_bytes: "char_of (255::nat) = CHR 0xFF"
  by code_simp

lemma demo_checks:
  "readUploadContent (Reader [''GIF89a''] None) (ah_maxUploadSizeBytes demo_handler) = Inr ''GIF89a''"
  "validateAttachmentUpload ''a.gif'' ''image/gif'' ''GIF89a'' (ah_maxUploadSizeBytes demo_handler) = None"
  "optimizeAttachmentImage c (normalizeAttachmentContentType ''image/gif'') ''GIF89a'' (ah_imageOptimization demo_handler) = ''GIF89a''"
  "normalizeAttachmentContentType ''image/gif'' = ''image/gif''" "\<not> io_Enabled (ah_imageOptimization demo_handler)"
  by (simp_all add: readUploadContent_def demo_handler_def newAttachmentCommandHandler_def ReadLimited_def ReadAll_def
      rd_text_def validateAttachmentUpload_def Let_def normalizeAttachmentContentType_def demo_paths1
      DetectContentType_def image_signature_def has_prefix_def bytes_def demo_bytes allowedAttachmentContentTypes_def
      optimizeAttachmentImage_def)

lemma demo_upload:
  "\<exists>up w'. UploadPostAttachment demo_handler (NewFileStorage (\<lambda>_. demo_local) ''data'') demo_env 0 ''p1'' 2 ''a.gif''
    ''image/gif'' (Some (Reader [''GIF89a''] None)) empty_world = Some (Inr up, w')"
proof -
  let ?key = "''posts/1/0a-a.gif''"
  obtain post t where au: "attachment_author ''upload attachment'' ''p1'' 2 demo_env (begin_tx 0 demo_store) = Some (Inr post, t)"
    "post_ID post = 1" using demo_author by blast
  obtain fs where sv: "Save demo_local ''data'' ?key (bytes_reader ''GIF89a'') [] = (None, fs)" using demo_save by blast
  have "TrimSpace ?key \<noteq> []" by (simp add: TrimSpace_plain plain_byte_def)
  from demo_create_row [OF this] obtain uuid s where
    cr: "CreatePostAttachment demo_env 20 ''p1'' 2 ''a.gif'' ''image/gif'' 6 ?key demo_store = Some (Inr uuid, s)" by blast
  show ?thesis
    using au sv cr demo_drawn [unfolded drawn_key_def]
    by (simp add: UploadPostAttachment_def call_eval in_store_def in_files_def outside_def demo_paths1(1,2) demo_checks
        Let_def empty_world_def NewFileStorage_def create_or_rollback_def demo_checks(3) [unfolded demo_checks(4)])
qed
lemma empty_world_ok: "files_ok rootDir empty_world" "fresh_key rootDir demo_env tick fileName empty_world"
proof -
  have "files_kept storage_key B (st_attachments demo_store)" for B
    by (simp add: files_kept_def demo_store_simps empty_db_def db_ok_def db_get_def)
  then show "files_ok rootDir empty_world" by (simp add: files_ok_def empty_world_def demo_forum_ok)
  show "fresh_key rootDir demo_env tick fileName empty_world"
    by (simp add: fresh_key_def empty_world_def blob_def content_at_def demo_store_simps empty_db_def db_get_def
        split: sum.split)
qed

lemma demo_limit: "0 < ah_maxUploadSizeBytes demo_handler" "ah_maxUploadSizeBytes demo_handler < 2 ^ 63"
  by (simp_all add: demo_handler_def newAttachmentCommandHandler_def)

lemma demo_owner: "attachment_owner demo_store ''p1'' 2 post requester \<Longrightarrow> post_ID post = 1"
  by (auto simp: attachment_owner_def post_owner_def selectPostByUUIDIncludingUnpublished_def demo_store_simps entity_eval)

lemma saved_key:
  "Attachment_save (NewAttachment now uuid postID fileName contentType n key) r = (row, r') \<Longrightarrow>
    attachment_StorageKey row = key"
  by (auto simp: Attachment_save_def NewAttachment_def Let_def)

theorem upload_all_or_nothing_witness:
  "\<exists>up w'. UploadPostAttachment demo_handler (NewFileStorage (\<lambda>_. demo_local) ''data'') demo_env 0 ''p1'' 2 ''a.gif''
      ''image/gif'' (Some (Reader [''GIF89a''] None)) empty_world = Some (Inr up, w') \<and>
    blob ''data'' (aw_files w') ''posts/1/0a-a.gif'' = Some ''GIF89a''"
proof -
  let ?up = "UploadPostAttachment demo_handler (NewFileStorage (\<lambda>_. demo_local) ''data'') demo_env 0 ''p1'' 2 ''a.gif''
      ''image/gif'' (Some (Reader [''GIF89a''] None)) empty_world"
  obtain up w' where u: "?up = Some (Inr up, w')" using demo_upload by blast
  from upload_all_or_nothing [OF empty_world_ok(2) demo_limit, where v = "\<lambda>_. demo_local" and rootDir = "''data''"
      and tick = 0 and postUUID = "''p1''" and userID = 2 and fileName = "''a.gif''" and contentType = "''image/gif''"
      and content = "Some (Reader [''GIF89a''] None)"] u
  have s: "upload_stored demo_handler demo_env 0 ''p1'' 2 ''a.gif'' ''image/gif'' (Some (Reader [''GIF89a''] None))
        (aw_store empty_world) (blob ''data'' (aw_files empty_world)) up (aw_store w') (blob ''data'' (aw_files w')) storage_key"
    and d: "\<And>data. accepted demo_handler ''a.gif'' ''image/gif'' (Reader [''GIF89a''] None) data \<Longrightarrow>
        data = ''GIF89a''"
    by (auto simp: demo_checks(5) rd_text_def)
  from s obtain data and post :: post and requester where
    a: "accepted demo_handler ''a.gif'' ''image/gif'' (Reader [''GIF89a''] None) data"
    and o: "attachment_owner (aw_store empty_world) ''p1'' 2 post requester"
    and b: "\<forall>k. storage_key k \<longrightarrow> blob ''data'' (aw_files w') k =
       (if k = drawn_key demo_env 0 (post_ID post) ''a.gif'' then Some data else blob ''data'' (aw_files empty_world) k)"
    unfolding upload_stored_def by (metis (no_types, lifting) option.inject saved_key)
  have k: "drawn_key demo_env 0 (post_ID post) ''a.gif'' = ''posts/1/0a-a.gif''"
    using demo_owner o demo_drawn by (simp add: empty_world_def)
  have "storage_key ''posts/1/0a-a.gif''" using upload_key_ok demo_drawn by (metis drawn_key_def)
  with b k d [OF a] have "blob ''data'' (aw_files w') ''posts/1/0a-a.gif'' = Some ''GIF89a''" by simp
  with u show ?thesis by blast
qed

theorem attachments_have_files_witness:
  "\<exists>up w'. UploadPostAttachment demo_handler (NewFileStorage (\<lambda>_. demo_local) ''data'') demo_env 0 ''p1'' 2 ''a.gif''
      ''image/gif'' (Some (Reader [''GIF89a''] None)) empty_world = Some (Inr up, w') \<and>
    file_run demo_handler ''data'' empty_world w' \<and> files_ok ''data'' w'"
proof -
  obtain up w' where u: "UploadPostAttachment demo_handler (NewFileStorage (\<lambda>_. demo_local) ''data'') demo_env 0 ''p1'' 2
      ''a.gif'' ''image/gif'' (Some (Reader [''GIF89a''] None)) empty_world = Some (Inr up, w')" using demo_upload by blast
  have r: "file_run demo_handler ''data'' empty_world w'"
    by (rule file_run.step [OF file_run.stop file_step.upload [OF empty_world_ok(2) u]])
  from attachments_have_files [OF r empty_world_ok(1)] u r show ?thesis by blast
qed

theorem cleanup_takes_due_witness:
  "\<exists>up w' n err w''. UploadPostAttachment demo_handler (NewFileStorage (\<lambda>_. demo_local) ''data'') demo_env 0 ''p1'' 2
      ''a.gif'' ''image/gif'' (Some (Reader [''GIF89a''] None)) empty_world = Some (Inr up, w') \<and>
    CleanupAttachments (NewFileStorage (\<lambda>_. demo_local) ''data'') (\<lambda>_. demo_env) 5000 1000 10 w' = Some ((n, err), w'') \<and>
    n \<le> 10 \<and> files_ok ''data'' w''"
proof -
  obtain up w' where u: "UploadPostAttachment demo_handler (NewFileStorage (\<lambda>_. demo_local) ''data'') demo_env 0 ''p1'' 2
      ''a.gif'' ''image/gif'' (Some (Reader [''GIF89a''] None)) empty_world = Some (Inr up, w')" using demo_upload by blast
  have "files_ok ''data'' w'" by (rule upload_keeps [OF u empty_world_ok(2,1)])
  from cleanup_takes_due [OF this, of "\<lambda>_. demo_local" "\<lambda>_. demo_env" 5000 1000 10] obtain n err w'' where
    "CleanupAttachments (NewFileStorage (\<lambda>_. demo_local) ''data'') (\<lambda>_. demo_env) 5000 1000 10 w' = Some ((n, err), w'')"
    "n \<le> max 0 10" "files_ok ''data'' w''" by (elim exE conjE) (rule that)
  with u show ?thesis by auto
qed

theorem embed_lost_after_bracket_witness:
  "extractAttachmentRefIDs (buildAttachmentEmbedMarkdown ''b].png'' ''ab'') = [] \<and>
   attachmentEligibleForCleanup (mark_by_text (buildAttachmentEmbedMarkdown ''b].png'' ''ab'') 7
     (MarkReferenced (NewAttachment 5 ''ab'' 1 ''b].png'' ''image/png'' 6 ''posts/1/00-b.png''))) 7"
proof -
  let ?a = "MarkReferenced (NewAttachment 5 ''ab'' 1 ''b].png'' ''image/png'' 6 ''posts/1/00-b.png'')"
  have a: "attachment_UUID ?a = ''ab''" "attachment_OrphanedAt ?a = None" "attachment_PendingDeleteAt ?a = None"
    by (simp_all add: MarkReferenced_def NewAttachment_def)
  have "TrimSpace ''b].png'' = ''b].png''" by (simp add: TrimSpace_plain plain_byte_def)
  then have t: "CHR '']'' \<in> set (TrimSpace ''b].png'')" by simp
  have u: "attachment_UUID ?a \<noteq> []" "list_all uuid_char (attachment_UUID ?a)" by (simp_all add: a uuid_char_def)
  have "buildAttachmentEmbedMarkdown ''b].png'' ''ab'' = buildAttachmentEmbedMarkdown ''b].png'' (attachment_UUID ?a)"
    by (simp only: a(1))
  note e = embed_lost_after_bracket [OF u this, of 7]
  show ?thesis using conjunct1 [OF e] conjunct2 [OF conjunct2 [OF e]] t a(2,3) by simp
qed

end
