(* ===== verification/TxBodies.thy ===== *)
theory TxBodies
  imports TxCalls SvcBoard SvcComment SvcAccount SvcReaction SvcReport SvcPost SvcUser SvcUpkeep
    AttachmentRules PostSweep
begin

text \<open>
  The body of every transaction of the services is made of calls of the transaction's
  repositories, so a failing command of any of them leaves the store as it was.
\<close>

section \<open>The parts the bodies share\<close>

lemma guards_via_calls [via_calls_intros]:
  "via_calls (EnsureBoardVisibleForUser ou boardID ce act)"
  "via_calls (EnsurePostVisibleForUser ou postID ce act)"
  "via_calls (EnsureCommentTargetVisibleForUser ou commentID ce act)"
  "via_calls (RequireAdminUser userID operation)"
  by (auto simp: EnsureBoardVisibleForUser_def EnsurePostVisibleForUser_def RequireAdminUser_def
      EnsureCommentTargetVisibleForUser_def Let_def intro!: via_calls_intros split: option.splits)

lemma common_via_calls [via_calls_intros]:
  "via_calls (DispatchDomainActions events)"
  "via_calls (BuildMentionNotificationEvents actor names postID commentID title content)"
  by (auto simp: DispatchDomainActions_def outboxMessage_def newOutboxMessageID_def
      BuildMentionNotificationEvents_def mentionEvent_def Let_def
      intro!: via_calls_intros split: option.splits)

lemma exists_or_wrapped_via_calls [via_calls_intros]:
  "via_calls m \<Longrightarrow> via_calls (exists_or_wrapped label m)"
  unfolding via_calls_def exists_or_wrapped_def by (fastforce split: option.splits sum.splits)

lemma issue_via_calls [via_calls_intros]:
  "via_calls (Issue label)" "via_calls (issueEmailVerificationToken cr u)"
  "via_calls (account_issueEmailVerificationToken cr u)" "via_calls (issuePasswordResetToken cr i ttl)"
  "via_calls (dispatch_issued mk issued)"
  unfolding account_issue_same issueEmailVerificationToken_def issuePasswordResetToken_def
    dispatch_issued_def Issue_def Let_def
  by (intro via_calls_intros)+

lemma conceal_via_calls [via_calls_intros]: "via_calls m \<Longrightarrow> via_calls (conceal_as sent m)"
  unfolding via_calls_def conceal_as_def by (fastforce split: option.splits sum.splits)

lemma report_parts_via_calls [via_calls_intros]: "via_calls (saveReport x)" "via_calls (viewsT items)"
proof -
  have "via_calls (reportTx_Save x)" by (intro via_calls_intros)
  then show "via_calls (saveReport x)"
    unfolding via_calls_def saveReport_def by (fastforce split: option.splits sum.splits)
qed (simp add: via_calls_def viewsT_def)

lemma crash_via_calls [via_calls_intros]: "via_calls crashT"
  by (simp add: via_calls_def crashT_def)

lemma deleteBatches_via_calls [via_calls_intros]: "via_calls (deleteBatches postID lastID acc)"
proof -
  have "(tx_call e)\<^sup>*\<^sup>* t (snd y)" if "deleteBatches postID lastID acc e t = Some y" for e t y
  proof (induct rule: deleteBatches.raw_induct [OF _ that])
    case (1 f postID lastID acc e t y)
    have f: "via_calls (f postID lastID acc)" for postID lastID acc
      using 1(1) by (fastforce simp: via_calls_def)
    have if_fun: "via_calls m \<Longrightarrow> via_calls n \<Longrightarrow> via_calls (\<lambda>e t. if b then m e t else n e t)"
      for b and m n :: "int list action" by (cases b) simp_all
    let ?body = "bindT (wrapped ''select comments for delete post''
              (commentTx_SelectComments postID postDeleteBatchSize lastID)) (\<lambda>comments e t.
       if comments = [] then returnT acc e t
       else bindT (forT comments sweepComment) (\<lambda>_ e t.
              if int (length comments) < postDeleteBatchSize
              then returnT (acc @ map comment_ID comments) e t
              else f postID (comment_ID (last comments)) (acc @ map comment_ID comments) e t) e t)"
    have "via_calls ?body"
      unfolding sweepComment_def by (intro via_calls_intros if_fun f)
    moreover have "?body e t = Some (fst y, snd y)" using 1(2) by simp
    ultimately show ?case by (rule via_callsD)
  qed
  then show ?thesis by (fastforce simp: via_calls_def)
qed

lemma post_parts_via_calls [via_calls_intros]:
  "via_calls (activeTagNamesByPostIDTx postID)" "via_calls (upsertPostTags postID names)"
  "via_calls (syncPostTags postID names)" "via_calls (validateAttachmentRefsWithRepo postID content)"
  "via_calls (syncPostAttachmentOrphans postID content)" "via_calls (deletePostArtifacts postID)"
  unfolding activeTagNamesByPostIDTx_def tagsForPostTx_def upsertPostTags_def syncPostTags_def
    getOrCreateTagID_def validateAttachmentRefsWithRepo_def syncPostAttachmentOrphans_def
    deletePostArtifacts_def deletePostCommentsInBatches_def orphanPostAttachments_def
  by (intro via_calls_intros)+

section \<open>The bodies\<close>

lemma user_bodies_via_calls:
  "via_calls (SignUp_tx cr username email u)" "via_calls (IssueGuestAccount_tx u)"
  "via_calls (UpgradeGuest_tx userID username email hashed)" "via_calls (DeleteMe_tx cr userID password)"
  "via_calls (SuspendUser_tx adminID uuid reason until)" "via_calls (GetUserSuspension_tx adminID uuid)"
  "via_calls (UnsuspendUser_tx adminID uuid)" "via_calls (cleanupGuest_tx i b)"
  unfolding SignUp_tx_def IssueGuestAccount_tx_def UpgradeGuest_tx_def DeleteMe_tx_def SuspendUser_tx_def
    GetUserSuspension_tx_def UnsuspendUser_tx_def cleanupGuest_tx_def
  by (intro via_calls_intros)+

lemma account_bodies_via_calls:
  "via_calls (applyGuestUpgrade_tx cr i username email hashed)" "via_calls (restoreUserState_tx u)"
  "via_calls (RequestEmailVerification_tx cr i)" "via_calls (ConfirmEmailVerification_tx h)"
  "via_calls (RequestPasswordReset_tx cr email ttl)" "via_calls (ConfirmPasswordReset_tx h hashed)"
  "via_calls (restorePasswordResetState_tx u tok)"
  unfolding account_tx_defs Let_def by (intro via_calls_intros)+

lemma board_bodies_via_calls:
  "via_calls (CreateBoard_tx userID b)" "via_calls (UpdateBoard_tx boardUUID userID name description)"
  "via_calls (DeleteBoard_tx boardUUID userID)" "via_calls (SetBoardVisibility_tx boardUUID userID hidden)"
  unfolding CreateBoard_tx_def UpdateBoard_tx_def DeleteBoard_tx_def SetBoardVisibility_tx_def
  by (intro via_calls_intros)+

lemma post_bodies_via_calls:
  "via_calls (createPost_tx title content names mentions authorID boardUUID draft p)"
  "via_calls (PublishPost_tx postUUID authorID)"
  "via_calls (UpdatePost_tx postUUID authorID title content names)"
  "via_calls (DeletePost_tx postUUID authorID)"
  unfolding createPost_tx_def PublishPost_tx_def UpdatePost_tx_def DeletePost_tx_def
  by (intro via_calls_intros)+

lemma comment_bodies_via_calls:
  "via_calls (CreateComment_tx content names authorID postUUID parentUUID)"
  "via_calls (UpdateComment_tx commentUUID authorID content)"
  "via_calls (DeleteComment_tx commentUUID authorID)"
  unfolding CreateComment_tx_def UpdateComment_tx_def DeleteComment_tx_def
    ensureCommentBoardVisibleByPostTx_def commentParent_def directNotification_def
  by (intro via_calls_intros)+

lemma reaction_bodies_via_calls:
  "via_calls (withReactionTransaction userID targetID ty (SetReaction_mutate userID targetID ty rt))"
  "via_calls (withReactionTransaction userID targetID ty (DeleteReaction_mutate userID targetID ty))"
  unfolding withReactionTransaction_def SetReaction_mutate_def DeleteReaction_mutate_def
    ensureTargetExistsTx_def
  by (auto split: ReactionTargetType.split intro!: via_calls_intros)

lemma report_bodies_via_calls:
  "via_calls (CreateReport_tx reporter ty uuid code detail)"
  "via_calls (ResolveReport_tx adminID i status note)"
  "via_calls (GetReports_tx adminID ostatus limit lastID)"
  unfolding CreateReport_tx_def ResolveReport_tx_def GetReports_tx_def
    resolveVisibleReportTargetIDTx_def Let_def
  by (auto split: ReportTargetType.split intro!: via_calls_intros)

lemma attachment_bodies_via_calls:
  "via_calls (CreatePostAttachment_tx postUUID userID a)"
  "via_calls (DeletePostAttachment_tx postUUID attachmentUUID userID)"
  unfolding attachment_author_def CreatePostAttachment_tx_def DeletePostAttachment_tx_def
  by (intro via_calls_intros)+

end
