(* ===== verification/Spec2Isabelle.thy ===== *)
theory Spec2Isabelle
  imports SvcComment SvcReaction SvcReport Contracts PostRules RelayLive RelayRuns RateLimit AccountFlows UpkeepRules SearchRules FileRules
    TxBodies
begin

text \<open>
  \<^bold>\<open>go-comu-bin\<close>: a community board. Use-case services (\<open>internal/application/service\<close>) run each
  command as one transaction over repositories (\<open>internal/infrastructure/persistence/inmemory\<close>),
  write the domain events of the command to an outbox in the same transaction, and read lists
  through a cache that the handlers of those events invalidate.

  \<^bold>\<open>The store and its repositories.\<close> \<open>Entities\<close> holds the entities of \<open>domain/entity\<close>: a struct is a
  record, an enumeration a datatype, a pointer an \<open>option\<close>; the clock and fresh UUIDs are
  arguments. \<open>Tables\<close> is what the repositories share: a Go map is a list of rows with distinct
  keys, whose order is the iteration order; sorting by key and the pages after a cursor.
  \<open>GoHeap\<close> is \<open>container/heap\<close>. \<open>RepoBoard\<close>, \<open>RepoComment\<close>, \<open>RepoPost\<close>, \<open>RepoUser\<close>, \<open>RepoReaction\<close>,
  \<open>RepoReport\<close>, \<open>RepoNotification\<close>, \<open>RepoAttachment\<close>, \<open>RepoTokens\<close> and \<open>RepoOutbox\<close> model one file
  each (two for the tokens), every operation; each shows the invariant of its repository and that
  every operation keeps it. Locales state what the repositories have in common (\<open>row_table\<close> and
  the pages), and are interpreted on each.

  \<^bold>\<open>Transactions.\<close> \<open>UnitOfWork\<close> models \<open>unitOfWork.go\<close>: the state \<open>tx\<close> of a transaction holds the
  store, the snapshots taken before the first write of each repository and the hooks to run after
  the commit. An action takes the environment (\<open>env\<close>: the clock, the random source, the failures of
  the repositories, all arguments) and a \<open>tx\<close> and returns a result with the new \<open>tx\<close>, or \<open>None\<close> when it
  waits for a lock its own transaction holds. \<open>Transactions\<close> shows which actions are undone by a
  rollback (\<open>atomic\<close>) and which return (\<open>returns\<close>), with collections of introduction rules. \<open>TxCalls\<close> states what a
  body may do at all, as the relation \<open>tx_call\<close> with one rule for each method of the transaction's repositories that
  writes, and shows that each is undone; \<open>TxBodies\<close> shows that every body of the services is made of such calls.

  \<^bold>\<open>Services.\<close> \<open>Policy\<close> holds the guards of \<open>application/policy\<close>; \<open>Events\<close> and \<open>SvcCommon\<close> the events, the
  outbox dispatch, mentions and snapshots of text; \<open>Pagination\<close> limits and opaque cursors;
  \<open>Errors\<close> the sentinels and how they are wrapped and shown. \<open>SvcComment\<close>, \<open>SvcReaction\<close>,
  \<open>SvcReport\<close>, \<open>SvcBoard\<close> and \<open>SvcPost\<close> model the commands, each the composition of its steps in the
  order of the code, and prove what a command that succeeded did to the whole store.
  \<open>PostParts\<close> and \<open>PostSweep\<close> hold the coordinators of the post commands; \<open>PostRules\<close> the invariant
  \<open>forum_ok\<close> of the commands on boards and posts and their effects. The batched deletion of comments is a
  \<open>partial_function\<close>; that it returns is proved, for every store that satisfies the invariant.

  \<^bold>\<open>Cache.\<close> \<open>Cache\<close> models \<open>in_memory_cache.go\<close>, \<open>Models\<close> the response models and mappers, \<open>Invalidation\<close> the
  keys and the handler that drops entries for each event.

  \<^bold>\<open>Delivery of events and limits.\<close> \<open>Relay\<close> models the worker that reads the outbox, hands events to handlers and
  settles messages. \<open>RelayLive\<close> shows that one worker settles every message in the end, whatever is in front of it.
  \<open>RelayRuns\<close> is the step relation \<open>relay_step\<close> of several workers on one outbox, interleaved call by call with lease
  renewals and producers; a poll of \<open>Relay\<close> is one of its runs (\<open>poll_is_run\<close>), and a message leaves the outbox in a run only when a
  worker of that run has delivered it. \<open>RateLimit\<close> models the in-memory rate limiter.

  \<^bold>\<open>Accounts and sessions.\<close> Some flows run outside a transaction and touch the store and the session cache.
  \<open>Calls\<close> holds their state \<open>world\<close> (the store, the cache of sessions, the mails sent) and the type
  \<open>call\<close> of a step over it, with error results as values and \<open>None\<close> for a call that does not return.
  \<open>Auth\<close> models \<open>infrastructure/auth\<close>: the sessions are entries of \<open>Cache\<close>, and a locale states them as a
  table of live pairs of user and token, interpreted on the cache; hashing, signing and the dates of the JWT library are the
  record \<open>crypto\<close> of parameters, with what the code relies on (dates in whole seconds, tokens read back until they
  expire) as the hypothesis \<open>jwt_faithful\<close>. \<open>SvcUser\<close>, \<open>SvcSession\<close> and \<open>SvcAccount\<close> model the three services with
  their compensations (what a flow undoes when a later step fails); \<open>Mail\<close> the handlers of mail and
  notification events; \<open>SvcUpkeep\<close> the clean-ups and the administration of dead messages. \<open>Triples\<close> is a small
  calculus of postconditions of actions and calls. With it \<open>AccountTypes\<close> shows that every
  command, succeeding or failing, keeps the shape of the accounts (\<open>world_typed\<close>), by rule induction over
  \<open>account_step\<close>; \<open>AccountFlows\<close> shows what the flows do as a whole, on success and on failure, and
  \<open>UpkeepRules\<close> what a clean-up removes.

  \<^bold>\<open>Queries on posts.\<close> \<open>FeedCursors\<close> holds the cursors of the ranked and of the searched lists (a \<open>float64\<close> is its 64
  bits) and the orders and windows a caller may ask for. \<open>PostDetail\<close> is the page of a post
  (\<open>detail_query.go\<close>), \<open>SvcPostQuery\<close> the queries of \<open>post/query_handler.go\<close>: each loop over pages is a
  \<open>partial_function\<close>, the ranking and the search index are arguments, as they are interfaces in the code.
  \<open>PostPages\<close> shows that the loops return and what the list of a tag holds. \<open>RepoRanking\<close> models the ranking in memory and the
  handler that keeps it up to date; \<open>RankingRules\<close> states what a ranking promises as the locale \<open>feed_source\<close>, interprets it
  on the ranking in memory and derives what the feed shows page by page. \<open>RepoSearch\<close> models the search index in memory, its
  handler and the normalisation of text; \<open>SearchRules\<close> shows by rule induction over \<open>search_run\<close> that the index is always that of its
  documents, so that a search answers what going through them would, and that it catches up with the store.

  \<^bold>\<open>Attachments.\<close> The rows of attachments are in the store, their content is in a file storage. \<open>LocalFiles\<close> models
  the storage in a directory (\<open>storage/localfs\<close>) with what it uses of \<open>path/filepath\<close>, over a file system that is the list of
  its directories and files; the locale \<open>file_store\<close> states what a service relies on, and is interpreted on it.
  \<open>AttachmentParts\<close> holds the helpers of \<open>service/attachment\<close> (names, keys, the checks of a content, embedding),
  \<open>SvcAttachment\<close> its commands, queries and clean-up over \<open>attachment_world\<close>, the store with the files.
  \<open>AttachmentRules\<close> shows in the locale \<open>upload_store\<close> what an upload did, on success and on failure, and
  \<open>FileRules\<close>, by rule induction over \<open>file_step\<close>, that the rows of attachments in use have their files.

  \<^bold>\<open>Across components.\<close> \<open>Contracts\<close> shows that a failed transaction restores all repositories, whatever calls it made, that outbox messages
  are neither lost nor handed out twice while leased, that reading pages one after the other
  yields every row once, and the behaviour of notifications, tokens, users and tags.

  \<^bold>\<open>Bounds.\<close> A \<open>time\<close> is a number of nanoseconds, a key an \<open>int\<close>: the counters of the repositories are
  taken not to overflow 64 bits. Strings are lists of bytes. \<open>strings.ToLower\<close> beyond ASCII is a
  parameter.

  \<^bold>\<open>Not modelled.\<close> The SQL repositories (statements run by a database), HTTP and web delivery, arithmetic on
  \<open>float64\<close> beyond comparing and converting (parameters of the ranking and of the search), NFD (a parameter), bcrypt, JWT signing and SHA-256 (parameters), image codecs (a parameter),
  object storage, the SMTP connection, jobs, configuration, logging, and the concurrency of callers: one transaction runs at a
  time, as the lock of the unit of work makes it, and one flow of a user at a time, as the user lock of
  the sessions makes it (the workers of the relay do interleave; that messages are settled in the end is shown for one worker).

  \<^bold>\<open>Findings.\<close> Marking all notifications read inside a transaction never returns
  (\<open>transaction_self_deadlock\<close>); a deleted comment can be given a new text
  (\<open>deleted_comment_is_editable\<close>); the cached list of all boards is never invalidated
  (\<open>admin_board_list_stale\<close>); the delay of the relay overflows from attempt 64 on (\<open>backoff_delay\<close>); a used reset token works again
  after its mail event is handled twice (\<open>used_reset_token_revived\<close>); signing up under the name a
  deleted user would get keeps that user from leaving for as long as the name is taken (\<open>deletion_can_be_blocked\<close>); the second page of
  a ranked list of a board or tag is always refused (\<open>ranked_pages_stop\<close>); rebuilding the search index brings back a post deleted
  meanwhile (\<open>rebuild_resurrects\<close>); the embed text of a file with a closing bracket in its name is not recognised as a reference
  (\<open>embed_lost_after_bracket\<close>).
\<close>

end
